(* ===== verification/Prelude.thy ===== *)
theory Prelude
  imports Main "HOL-Library.Word"
begin

text \<open>
  Vocabulary and automation shared by every component of the development: the result type of
  fallible operations, the state-passing future, strings and bytes, decimal numerals, and the
  named collections the component theories fill.

  A Rust string is the list of its bytes, one \<open>char\<close> for each byte of its UTF-8 encoding, so
  that \<open>length\<close> is the code's \<open>len()\<close>.  Times are nanoseconds since the Unix epoch, as \<open>int\<close>
  (\<open>DateTime<Utc>\<close> is signed), durations are nanoseconds as \<open>nat\<close> (\<open>std::time::Duration\<close> is
  unsigned).
\<close>

named_theorems ctx_simps "accessors of the boxed contexts"
named_theorems store_simps "what a store returns after each of its operations"
named_theorems codec_simps "decoder after encoder"
named_theorems fsm_simps "one transition of the cache state machine"

section \<open>Results\<close>

type_synonym ('a, 'e) result = "'e + 'a"

abbreviation Ok :: "'a \<Rightarrow> ('a, 'e) result" where "Ok \<equiv> Inr"
abbreviation Err :: "'e \<Rightarrow> ('a, 'e) result" where "Err \<equiv> Inl"

text \<open>The \<open>?\<close> operator, \<open>Result::map\<close> and \<open>Result::ok\<close>.\<close>

fun rbind :: "('a, 'e) result \<Rightarrow> ('a \<Rightarrow> ('b, 'e) result) \<Rightarrow> ('b, 'e) result" where
  "rbind (Inl e) f = Inl e"
| "rbind (Inr a) f = f a"

fun rmap :: "('a \<Rightarrow> 'b) \<Rightarrow> ('a, 'e) result \<Rightarrow> ('b, 'e) result" where
  "rmap f (Inl e) = Inl e"
| "rmap f (Inr a) = Inr (f a)"

fun is_ok :: "('a, 'e) result \<Rightarrow> bool" where
  "is_ok (Inl e) = False"
| "is_ok (Inr a) = True"

lemma rbind_eq_Inr [simp]: "rbind r f = Inr b \<longleftrightarrow> (\<exists>a. r = Inr a \<and> f a = Inr b)"
  by (cases r) auto

lemma rbind_assoc [simp]: "rbind (rbind r f) g = rbind r (\<lambda>a. rbind (f a) g)"
  by (cases r) auto

lemma rmap_eq_Inr [simp]: "rmap f r = Inr b \<longleftrightarrow> (\<exists>a. r = Inr a \<and> b = f a)"
  by (cases r) auto

lemma is_ok_iff: "is_ok r \<longleftrightarrow> (\<exists>a. r = Inr a)"
  by (cases r) auto

lemma not_is_ok_iff: "\<not> is_ok r \<longleftrightarrow> (\<exists>e. r = Inl e)"
  by (cases r) auto

section \<open>Futures\<close>

text \<open>
  Awaiting a future is polling it in the current world until it is ready: the poll returns
  \<open>None\<close> when the future is pending, and the world it leaves behind in either case.
\<close>

type_synonym ('a, 'w) polled = "'a option \<times> 'w"

section \<open>Strings, bytes and time\<close>

type_synonym byte = "8 word"
type_synonym bytes = "byte list"
type_synonym time = int
type_synonym duration = nat

definition nanos_per_sec :: nat where
  "nanos_per_sec = 1000000000"

lemma nanos_per_sec_pos [simp]: "0 < nanos_per_sec"
  by (simp add: nanos_per_sec_def)

section \<open>Decimal numerals\<close>

text \<open>The decimal text of an unsigned integer, as \<open>write!("{}", n)\<close> prints it, and its parser
  (\<open>str::parse\<close> without a sign, the bound on the type left to the caller).\<close>

definition digit_char :: "nat \<Rightarrow> char" where
  "digit_char d = char_of (48 + d)"

definition is_digit :: "char \<Rightarrow> bool" where
  "is_digit c \<longleftrightarrow> 48 \<le> (of_char c :: nat) \<and> (of_char c :: nat) \<le> 57"

definition digit_value :: "char \<Rightarrow> nat" where
  "digit_value c = of_char c - 48"

fun show_nat :: "nat \<Rightarrow> string" where
  "show_nat n = (if n < 10 then [digit_char n] else show_nat (n div 10) @ [digit_char (n mod 10)])"

declare show_nat.simps [simp del]

definition read_digits :: "string \<Rightarrow> nat" where
  "read_digits s = foldl (\<lambda>a c. 10 * a + digit_value c) 0 s"

definition read_nat :: "string \<Rightarrow> nat option" where
  "read_nat s = (if s \<noteq> [] \<and> list_all is_digit s then Some (read_digits s) else None)"

lemma of_char_digit_char: "d < 10 \<Longrightarrow> (of_char (digit_char d) :: nat) = 48 + d"
  by (simp add: digit_char_def of_char_of)

lemma is_digit_digit_char [simp]: "d < 10 \<Longrightarrow> is_digit (digit_char d)"
  by (simp add: is_digit_def of_char_digit_char)

lemma digit_value_digit_char [simp]: "d < 10 \<Longrightarrow> digit_value (digit_char d) = d"
  by (simp add: digit_value_def of_char_digit_char)

lemma show_nat_not_Nil [simp]: "show_nat n \<noteq> []"
  by (subst show_nat.simps) simp

lemma show_nat_digits [simp]: "list_all is_digit (show_nat n)"
proof (induction n rule: show_nat.induct)
  case (1 n)
  then show ?case by (subst show_nat.simps) simp
qed

lemma read_digits_show_nat [simp]: "read_digits (show_nat n) = n"
proof (induction n rule: show_nat.induct)
  case (1 n)
  then show ?case
    by (subst show_nat.simps) (auto simp: read_digits_def)
qed

lemma read_nat_show_nat [simp, codec_simps]: "read_nat (show_nat n) = Some n"
  by (simp add: read_nat_def)

lemma inj_show_nat: "inj show_nat"
  by (rule inj_on_inverseI [where g = read_digits]) simp

text \<open>Signed integers in decimal, and \<open>i64::from_str\<close>.\<close>

definition show_int :: "int \<Rightarrow> string" where
  "show_int i = (if i < 0 then CHR ''-'' # show_nat (nat (- i)) else show_nat (nat i))"

definition read_int :: "string \<Rightarrow> int option" where
  "read_int s =
     (case s of
        [] \<Rightarrow> None
      | c # cs \<Rightarrow>
          if c = CHR ''-'' then map_option (\<lambda>n. - int n) (read_nat cs)
          else map_option int (read_nat (if c = CHR ''+'' then cs else s)))"

definition parse_i64 :: "string \<Rightarrow> int option" where
  "parse_i64 s =
     (case read_int s of
        Some i \<Rightarrow> if - (2 ^ 63) \<le> i \<and> i < 2 ^ 63 then Some i else None
      | None \<Rightarrow> None)"

lemma show_nat_first_digit: "show_nat n = c # cs \<Longrightarrow> is_digit c"
  using show_nat_digits [of n] by simp

lemma read_int_show_int [simp, codec_simps]: "read_int (show_int i) = Some i"
proof (cases "i < 0")
  case True
  then show ?thesis by (simp add: read_int_def show_int_def)
next
  case False
  obtain c cs where c: "show_nat (nat i) = c # cs" by (cases "show_nat (nat i)") simp_all
  then have "c \<noteq> CHR ''-''" "c \<noteq> CHR ''+''" using show_nat_first_digit [OF c] by (auto simp: is_digit_def)
  moreover have "read_nat (c # cs) = Some (nat i)" using c by (metis read_nat_show_nat)
  ultimately show ?thesis using False c by (simp add: read_int_def show_int_def)
qed

lemma parse_i64_show_int [simp, codec_simps]:
  "- (2 ^ 63) \<le> i \<Longrightarrow> i < 2 ^ 63 \<Longrightarrow> parse_i64 (show_int i) = Some i"
  by (simp add: parse_i64_def)

section \<open>Timestamps\<close>

text \<open>\<open>DateTime::timestamp\<close>, \<open>timestamp_subsec_nanos\<close>, \<open>timestamp_millis\<close>, and the constructors
  \<open>from_timestamp\<close> and \<open>from_timestamp_millis\<close>, which fail outside chrono's years and on a bad
  nanosecond count (from 10^9 on only a leap second counts).\<close>

definition timestamp :: "time \<Rightarrow> int" where
  "timestamp t = t div 1000000000"

definition timestamp_subsec_nanos :: "time \<Rightarrow> nat" where
  "timestamp_subsec_nanos t = nat (t mod 1000000000)"

definition timestamp_millis :: "time \<Rightarrow> int" where
  "timestamp_millis t = t div 1000000"

definition chrono_time :: "time \<Rightarrow> bool" where
  "chrono_time t \<longleftrightarrow> - 8334601228800 \<le> timestamp t \<and> timestamp t \<le> 8210266876799"

definition from_timestamp :: "int \<Rightarrow> nat \<Rightarrow> time option" where
  "from_timestamp secs nanos =
     (if - 8334601228800 \<le> secs \<and> secs \<le> 8210266876799
         \<and> (nanos < 1000000000 \<or> nanos < 2000000000 \<and> secs mod 60 = 59)
      then Some (secs * 1000000000 + int nanos) else None)"

definition from_timestamp_millis :: "int \<Rightarrow> time option" where
  "from_timestamp_millis ms = from_timestamp (ms div 1000) (nat (ms mod 1000 * 1000000))"

lemma timestamp_subsec_less [simp]: "timestamp_subsec_nanos t < 1000000000"
  by (simp add: timestamp_subsec_nanos_def nat_less_iff)

lemma timestamp_split: "timestamp t * 1000000000 + int (timestamp_subsec_nanos t) = t"
  by (simp add: timestamp_def timestamp_subsec_nanos_def)

lemma from_timestamp_back [simp, codec_simps]:
  "chrono_time t \<Longrightarrow> from_timestamp (timestamp t) (timestamp_subsec_nanos t) = Some t"
  using timestamp_split [of t] by (simp add: from_timestamp_def chrono_time_def)

lemma from_timestamp_millis_back:
  assumes "chrono_time t"
  shows "from_timestamp_millis (timestamp_millis t) = Some (t div 1000000 * 1000000)"
proof -
  have s: "timestamp_millis t div 1000 = timestamp t"
    unfolding timestamp_millis_def timestamp_def by (simp add: zdiv_zmult2_eq [symmetric])
  have n: "nat (timestamp_millis t mod 1000 * 1000000) < 1000000000"
  proof -
    have "timestamp_millis t mod 1000 < 1000" by simp
    then show ?thesis by linarith
  qed
  have e: "timestamp t * 1000000000 + timestamp_millis t mod 1000 * 1000000 = t div 1000000 * 1000000"
    unfolding timestamp_millis_def timestamp_def
    using div_mult_mod_eq [of "t div 1000000" 1000] by (simp add: zdiv_zmult2_eq [symmetric])
  show ?thesis
    using assms n e unfolding from_timestamp_millis_def s by (simp add: from_timestamp_def chrono_time_def)
qed

section \<open>Lists and options\<close>

lemma foldl_append_concat: "foldl (\<lambda>a x. a @ f x) b xs = b @ concat (map f xs)"
  by (induction xs arbitrary: b) simp_all

lemma sum_list_le_elem: "x \<in> set xs \<Longrightarrow> f x \<le> sum_list (map f (xs :: 'a list))" for f :: "'a \<Rightarrow> nat"
  by (induction xs) auto

lemma map_option_eq_Some_iff [simp]:
  "(case x of None \<Rightarrow> None | Some a \<Rightarrow> Some (f a)) = map_option f x"
  by (cases x) simp_all

lemma take_append_exact [simp]: "length xs = n \<Longrightarrow> take n (xs @ ys) = xs"
  by simp

lemma drop_append_exact [simp]: "length xs = n \<Longrightarrow> drop n (xs @ ys) = ys"
  by simp

end
