(* ===== verification/Core_Context.thy ===== *)
theory Core_Context
  imports Prelude
begin

text \<open>
  The context that travels through a cache operation (hitbox-core/src/context.rs,
  hitbox-core/src/label.rs) and the composition context that wraps it
  (hitbox-backend/src/composition/context.rs).  \<open>BoxContext\<close> is the trait object: a
  \<open>CacheContext\<close>, or a \<open>CompositionContext\<close> around another box.  Of the format a composition
  context carries, only the two layer labels are ever read back from a context.
\<close>

section \<open>Labels, status, source and read mode\<close>

datatype backend_label = BackendLabel string

fun label_str :: "backend_label \<Rightarrow> string" where
  "label_str (BackendLabel s) = s"

fun label_compose :: "backend_label \<Rightarrow> backend_label \<Rightarrow> backend_label" where
  "label_compose (BackendLabel a) (BackendLabel b) = BackendLabel (a @ ''.'' @ b)"

datatype cache_status = Hit | Miss | StaleHit

datatype response_source = SrcUpstream | SrcBackend backend_label

datatype read_mode = Direct | Refill

definition cache_status_str :: "cache_status \<Rightarrow> string" where
  "cache_status_str s = (case s of Hit \<Rightarrow> ''hit'' | Miss \<Rightarrow> ''miss'' | StaleHit \<Rightarrow> ''stale'')"

definition response_source_str :: "response_source \<Rightarrow> string" where
  "response_source_str s = (case s of SrcUpstream \<Rightarrow> ''upstream'' | SrcBackend l \<Rightarrow> label_str l)"

section \<open>The plain context\<close>

record cache_context =
  cc_status :: cache_status
  cc_read_mode :: read_mode
  cc_source :: response_source

definition cache_context_default :: cache_context where
  "cache_context_default = \<lparr>cc_status = Miss, cc_read_mode = Direct, cc_source = SrcUpstream\<rparr>"

lemma cache_context_default_sel [simp]:
  "cc_status cache_context_default = Miss"
  "cc_read_mode cache_context_default = Direct"
  "cc_source cache_context_default = SrcUpstream"
  by (simp_all add: cache_context_default_def)

section \<open>The composition context\<close>

datatype composition_layer = L1 | L2

record layer_labels =
  ll_l1 :: string
  ll_l2 :: string

definition label_for_layer :: "layer_labels \<Rightarrow> composition_layer \<Rightarrow> string" where
  "label_for_layer f layer = (case layer of L1 \<Rightarrow> ll_l1 f | L2 \<Rightarrow> ll_l2 f)"

datatype box_context =
    PlainCtx cache_context
  | CompositionCtx box_context composition_layer layer_labels

definition boxed :: "cache_context \<Rightarrow> box_context" where
  "boxed c = PlainCtx c"

definition should_refill :: "composition_layer \<Rightarrow> bool" where
  "should_refill layer = (case layer of L2 \<Rightarrow> True | L1 \<Rightarrow> False)"

text \<open>The methods of the \<open>Context\<close> trait on the box: the plain context reads and writes its own
  fields, the composition context delegates to the box inside, except for the read mode, which
  follows from the layer, while setting it reaches the inner box only.\<close>

fun ctx_status :: "box_context \<Rightarrow> cache_status" where
  "ctx_status (PlainCtx c) = cc_status c"
| "ctx_status (CompositionCtx i _ _) = ctx_status i"

fun ctx_set_status :: "cache_status \<Rightarrow> box_context \<Rightarrow> box_context" where
  "ctx_set_status s (PlainCtx c) = PlainCtx (c\<lparr>cc_status := s\<rparr>)"
| "ctx_set_status s (CompositionCtx i l f) = CompositionCtx (ctx_set_status s i) l f"

fun ctx_source :: "box_context \<Rightarrow> response_source" where
  "ctx_source (PlainCtx c) = cc_source c"
| "ctx_source (CompositionCtx i _ _) = ctx_source i"

fun ctx_set_source :: "response_source \<Rightarrow> box_context \<Rightarrow> box_context" where
  "ctx_set_source s (PlainCtx c) = PlainCtx (c\<lparr>cc_source := s\<rparr>)"
| "ctx_set_source s (CompositionCtx i l f) = CompositionCtx (ctx_set_source s i) l f"

fun ctx_read_mode :: "box_context \<Rightarrow> read_mode" where
  "ctx_read_mode (PlainCtx c) = cc_read_mode c"
| "ctx_read_mode (CompositionCtx _ l _) = (if should_refill l then Refill else Direct)"

fun ctx_set_read_mode :: "read_mode \<Rightarrow> box_context \<Rightarrow> box_context" where
  "ctx_set_read_mode m (PlainCtx c) = PlainCtx (c\<lparr>cc_read_mode := m\<rparr>)"
| "ctx_set_read_mode m (CompositionCtx i l f) = CompositionCtx (ctx_set_read_mode m i) l f"

fun finalize_context :: "box_context \<Rightarrow> cache_context" where
  "finalize_context (PlainCtx c) = c"
| "finalize_context (CompositionCtx i _ _) = finalize_context i"

text \<open>\<open>Context::merge_from\<close>: status and source are taken from the other context when it saw a hit
  or a backend; the read mode is not merged.\<close>

definition merge_from :: "box_context \<Rightarrow> backend_label \<Rightarrow> box_context \<Rightarrow> box_context" where
  "merge_from other prefix ctx =
     (let ctx = (if ctx_status other = Hit \<or> ctx_status other = StaleHit
                 then ctx_set_status (ctx_status other) ctx else ctx)
      in case ctx_source other of
           SrcBackend inner \<Rightarrow> ctx_set_source (SrcBackend (label_compose prefix inner)) ctx
         | SrcUpstream \<Rightarrow> ctx)"

definition upgrade_context :: "composition_layer \<Rightarrow> layer_labels \<Rightarrow> box_context \<Rightarrow> box_context" where
  "upgrade_context layer labels ctx = CompositionCtx ctx layer labels"

subsection \<open>Accessor laws\<close>

lemma ctx_status_set [simp, ctx_simps]:
  "ctx_status (ctx_set_status s c) = s"
  "ctx_source (ctx_set_status s c) = ctx_source c"
  "ctx_read_mode (ctx_set_status s c) = ctx_read_mode c"
  by (induction c) auto

lemma ctx_source_set [simp, ctx_simps]:
  "ctx_source (ctx_set_source s c) = s"
  "ctx_status (ctx_set_source s c) = ctx_status c"
  "ctx_read_mode (ctx_set_source s c) = ctx_read_mode c"
  by (induction c) auto

lemma ctx_read_mode_set [simp, ctx_simps]:
  "ctx_status (ctx_set_read_mode m c) = ctx_status c"
  "ctx_source (ctx_set_read_mode m c) = ctx_source c"
  by (induction c) auto

lemma ctx_upgrade [simp, ctx_simps]:
  "ctx_status (upgrade_context l f c) = ctx_status c"
  "ctx_source (upgrade_context l f c) = ctx_source c"
  "ctx_read_mode (upgrade_context l f c) = (if l = L2 then Refill else Direct)"
  "finalize_context (upgrade_context l f c) = finalize_context c"
  by (auto simp: upgrade_context_def should_refill_def split: composition_layer.split)

lemma ctx_boxed [simp, ctx_simps]:
  "ctx_status (boxed c) = cc_status c"
  "ctx_source (boxed c) = cc_source c"
  "ctx_read_mode (boxed c) = cc_read_mode c"
  "finalize_context (boxed c) = c"
  "ctx_set_read_mode m (boxed c) = boxed (c\<lparr>cc_read_mode := m\<rparr>)"
  by (simp_all add: boxed_def)

text \<open>What the caller sees at the end is what the trait methods show.\<close>

lemma finalize_context_status [simp, ctx_simps]: "cc_status (finalize_context c) = ctx_status c"
  by (induction c) auto

lemma finalize_context_source [simp, ctx_simps]: "cc_source (finalize_context c) = ctx_source c"
  by (induction c) auto

lemma merge_from_status [simp]:
  "ctx_status (merge_from other prefix c) = (if ctx_status other = Miss then ctx_status c else ctx_status other)"
  by (cases "ctx_status other") (auto simp: merge_from_def Let_def split: response_source.split)

lemma merge_from_source [simp]:
  "ctx_source (merge_from other prefix c) =
     (case ctx_source other of SrcBackend l \<Rightarrow> SrcBackend (label_compose prefix l) | SrcUpstream \<Rightarrow> ctx_source c)"
  by (auto simp: merge_from_def Let_def split: response_source.split)

lemma merge_from_read_mode [simp]: "ctx_read_mode (merge_from other prefix c) = ctx_read_mode c"
  by (auto simp: merge_from_def Let_def split: response_source.split)

lemma label_compose_assoc: "label_compose (label_compose a b) c = label_compose a (label_compose b c)"
  by (cases a; cases b; cases c) simp

lemma label_compose_inj: "label_compose p a = label_compose p b \<longleftrightarrow> a = b"
  by (cases p; cases a; cases b) auto

end
