(* ===== verification/Core_Key.thy ===== *)
theory Core_Key
  imports Prelude
begin

text \<open>
  Cache keys (hitbox-core/src/key.rs): the parts an extractor produces, the key built from them
  with its precalculated content size, its textual form, and the columnar encoder and decoder
  that give a key its byte form.  The column codecs of the \<open>bitcode\<close> crate are parameters.
\<close>

section \<open>Key parts\<close>

record key_part =
  kp_key :: string
  kp_value :: "string option"

definition key_part_new :: "string \<Rightarrow> string option \<Rightarrow> key_part" where
  "key_part_new k v = \<lparr>kp_key = k, kp_value = v\<rparr>"

definition key_part_display :: "key_part \<Rightarrow> string" where
  "key_part_display p =
     kp_key p @ (case kp_value p of Some v \<Rightarrow> ''='' @ v | None \<Rightarrow> [])"

lemma key_part_new_sel [simp]:
  "kp_key (key_part_new k v) = k" "kp_value (key_part_new k v) = v"
  by (simp_all add: key_part_new_def)

section \<open>Cache keys\<close>

text \<open>\<open>CacheKeyInner\<close>; \<open>content_size\<close> caches a function of the other fields.\<close>

record cache_key =
  ck_parts :: "key_part list"
  ck_version :: "32 word"
  ck_prefix :: string
  ck_content_size :: nat

definition heap_size :: "nat \<Rightarrow> nat" where
  "heap_size len = len - 23"

definition calculate_content_size :: "string \<Rightarrow> key_part list \<Rightarrow> nat" where
  "calculate_content_size prefix parts =
     heap_size (length prefix)
     + sum_list (map (\<lambda>p. heap_size (length (kp_key p))
                        + (case kp_value p of None \<Rightarrow> 0 | Some v \<Rightarrow> heap_size (length v))) parts)"

definition cache_key_new :: "string \<Rightarrow> 32 word \<Rightarrow> key_part list \<Rightarrow> cache_key" where
  "cache_key_new prefix version parts =
     \<lparr>ck_parts = parts, ck_version = version, ck_prefix = prefix,
      ck_content_size = calculate_content_size prefix parts\<rparr>"

definition cache_key_from_str :: "string \<Rightarrow> string \<Rightarrow> cache_key" where
  "cache_key_from_str key val =
     (let parts = [key_part_new key (Some val)] in
      \<lparr>ck_parts = parts, ck_version = 0, ck_prefix = [],
       ck_content_size = calculate_content_size [] parts\<rparr>)"

definition cache_key_from_slice :: "(string \<times> string option) list \<Rightarrow> cache_key" where
  "cache_key_from_slice kvs =
     (let parts = map (\<lambda>(k, v). key_part_new k v) kvs in
      \<lparr>ck_parts = parts, ck_version = 0, ck_prefix = [],
       ck_content_size = calculate_content_size [] parts\<rparr>)"

text \<open>Structural equality (\<open>#[derive(PartialEq)]\<close> of the inner structure); the pointer comparison
  in front of it only short-circuits it.\<close>

definition cache_key_eq :: "cache_key \<Rightarrow> cache_key \<Rightarrow> bool" where
  "cache_key_eq a b \<longleftrightarrow>
     ck_parts a = ck_parts b \<and> ck_version a = ck_version b \<and> ck_prefix a = ck_prefix b
     \<and> ck_content_size a = ck_content_size b"

fun display_parts :: "key_part list \<Rightarrow> string" where
  "display_parts [] = []"
| "display_parts [p] = key_part_display p"
| "display_parts (p # ps) = key_part_display p @ ''&'' @ display_parts ps"

definition cache_key_display :: "cache_key \<Rightarrow> string" where
  "cache_key_display k =
     (if ck_prefix k = [] then [] else ck_prefix k @ '':'')
     @ (if 0 < ck_version k then ''v'' @ show_nat (unat (ck_version k)) @ '':'' else [])
     @ display_parts (ck_parts k)"

text \<open>The sizes of the structures are a parameter (they depend on the target).\<close>

definition cache_key_memory_size :: "nat \<Rightarrow> nat \<Rightarrow> nat \<Rightarrow> cache_key \<Rightarrow> nat" where
  "cache_key_memory_size usize_size inner_size part_size k =
     (2 * usize_size + inner_size) + length (ck_parts k) * part_size + ck_content_size k"

subsection \<open>The content size is a function of the other fields\<close>

definition wf_key :: "cache_key \<Rightarrow> bool" where
  "wf_key k \<longleftrightarrow> ck_content_size k = calculate_content_size (ck_prefix k) (ck_parts k)"

lemma wf_key_new [simp, intro]: "wf_key (cache_key_new p v ps)"
  by (simp add: wf_key_def cache_key_new_def)

lemma wf_key_from_str [simp, intro]: "wf_key (cache_key_from_str k v)"
  by (simp add: wf_key_def cache_key_from_str_def Let_def)

lemma wf_key_from_slice [simp, intro]: "wf_key (cache_key_from_slice kvs)"
  by (simp add: wf_key_def cache_key_from_slice_def Let_def)

lemma cache_key_eq_iff: "cache_key_eq a b \<longleftrightarrow> a = b"
  by (cases a; cases b) (auto simp: cache_key_eq_def)

lemma cache_key_new_sel [simp]:
  "ck_parts (cache_key_new p v ps) = ps"
  "ck_version (cache_key_new p v ps) = v"
  "ck_prefix (cache_key_new p v ps) = p"
  by (simp_all add: cache_key_new_def)

text \<open>A well-formed key is determined by what the constructor was given.\<close>

lemma wf_key_surjective: "wf_key k \<Longrightarrow> k = cache_key_new (ck_prefix k) (ck_version k) (ck_parts k)"
  by (cases k) (simp add: wf_key_def cache_key_new_def)

lemma wf_key_eqI:
  assumes "wf_key a" "wf_key b" "ck_parts a = ck_parts b" "ck_version a = ck_version b"
    "ck_prefix a = ck_prefix b"
  shows "a = b"
  using wf_key_surjective [OF assms(1)] wf_key_surjective [OF assms(2)] assms(3-) by simp

section \<open>Accumulating parts\<close>

record 's key_parts =
  kps_subject :: 's
  kps_parts :: "key_part list"

definition key_parts_new :: "'s \<Rightarrow> 's key_parts" where
  "key_parts_new s = \<lparr>kps_subject = s, kps_parts = []\<rparr>"

definition key_parts_push :: "key_part \<Rightarrow> 's key_parts \<Rightarrow> 's key_parts" where
  "key_parts_push p kps = kps\<lparr>kps_parts := kps_parts kps @ [p]\<rparr>"

definition key_parts_append :: "key_part list \<Rightarrow> 's key_parts \<Rightarrow> 's key_parts" where
  "key_parts_append ps kps = kps\<lparr>kps_parts := kps_parts kps @ ps\<rparr>"

definition into_cache_key :: "'s key_parts \<Rightarrow> 's \<times> cache_key" where
  "into_cache_key kps =
     (kps_subject kps,
      \<lparr>ck_parts = kps_parts kps, ck_version = 0, ck_prefix = [],
       ck_content_size = calculate_content_size [] (kps_parts kps)\<rparr>)"

lemma key_parts_simps [simp]:
  "kps_subject (key_parts_new s) = s"
  "kps_parts (key_parts_new s) = []"
  "kps_subject (key_parts_push p k) = kps_subject k"
  "kps_parts (key_parts_push p k) = kps_parts k @ [p]"
  "kps_subject (key_parts_append ps k) = kps_subject k"
  "kps_parts (key_parts_append ps k) = kps_parts k @ ps"
  by (simp_all add: key_parts_new_def key_parts_push_def key_parts_append_def)

lemma into_cache_key_eq: "into_cache_key k = (kps_subject k, cache_key_new [] 0 (kps_parts k))"
  by (simp add: into_cache_key_def cache_key_new_def)

lemma wf_into_cache_key [simp, intro]: "wf_key (snd (into_cache_key k))"
  by (simp add: into_cache_key_eq)

section \<open>Columnar encoding\<close>

text \<open>
  \<open>KeyPartEncoder\<close> buffers one column for the keys, one for the option tags and one for the
  values that are present; \<open>KeyPartDecoder\<close> pops from the same columns.
\<close>

record part_columns =
  pc_keys :: "string list"
  pc_variants :: "bool list"
  pc_values :: "string list"

definition part_columns_empty :: part_columns where
  "part_columns_empty = \<lparr>pc_keys = [], pc_variants = [], pc_values = []\<rparr>"

definition key_part_encode :: "part_columns \<Rightarrow> key_part \<Rightarrow> part_columns" where
  "key_part_encode c p =
     \<lparr>pc_keys = pc_keys c @ [kp_key p],
      pc_variants = pc_variants c @ [kp_value p \<noteq> None],
      pc_values = (case kp_value p of Some v \<Rightarrow> pc_values c @ [v] | None \<Rightarrow> pc_values c)\<rparr>"

text \<open>One \<open>decode\<close> call; \<open>None\<close> stands for popping an exhausted column, which \<open>populate\<close> rules
  out.\<close>

definition key_part_decode :: "part_columns \<Rightarrow> (key_part \<times> part_columns) option" where
  "key_part_decode c =
     (case (pc_keys c, pc_variants c) of
        (k # ks, b # bs) \<Rightarrow>
          if b then
            (case pc_values c of
               v # vs \<Rightarrow> Some (\<lparr>kp_key = k, kp_value = Some v\<rparr>, \<lparr>pc_keys = ks, pc_variants = bs, pc_values = vs\<rparr>)
             | [] \<Rightarrow> None)
          else Some (\<lparr>kp_key = k, kp_value = None\<rparr>, c\<lparr>pc_keys := ks, pc_variants := bs\<rparr>)
      | _ \<Rightarrow> None)"

definition key_parts_encode :: "key_part list \<Rightarrow> part_columns" where
  "key_parts_encode ps = foldl key_part_encode part_columns_empty ps"

fun key_parts_decode :: "nat \<Rightarrow> part_columns \<Rightarrow> (key_part list \<times> part_columns) option" where
  "key_parts_decode 0 c = Some ([], c)"
| "key_parts_decode (Suc n) c =
     (case key_part_decode c of
        None \<Rightarrow> None
      | Some (p, c') \<Rightarrow> map_option (\<lambda>(ps, c''). (p # ps, c'')) (key_parts_decode n c'))"

definition columns_append :: "part_columns \<Rightarrow> part_columns \<Rightarrow> part_columns" where
  "columns_append a b =
     \<lparr>pc_keys = pc_keys a @ pc_keys b, pc_variants = pc_variants a @ pc_variants b,
      pc_values = pc_values a @ pc_values b\<rparr>"

lemma columns_append_empty [simp]:
  "columns_append part_columns_empty c = c" "columns_append c part_columns_empty = c"
  by (simp_all add: columns_append_def part_columns_empty_def)

lemma columns_append_assoc: "columns_append (columns_append a b) c = columns_append a (columns_append b c)"
  by (simp add: columns_append_def)

lemma key_part_encode_append: "key_part_encode c p = columns_append c (key_part_encode part_columns_empty p)"
  by (simp add: key_part_encode_def columns_append_def part_columns_empty_def split: option.split)

lemma foldl_key_part_encode:
  "foldl key_part_encode c ps = columns_append c (key_parts_encode ps)"
proof (induction ps arbitrary: c)
  case Nil
  then show ?case by (simp add: key_parts_encode_def)
next
  case (Cons p ps)
  show ?case
    using Cons.IH [of "key_part_encode c p"] Cons.IH [of "key_part_encode part_columns_empty p"]
    by (simp add: key_parts_encode_def key_part_encode_append [of c] columns_append_assoc)
qed

lemma key_parts_encode_Cons:
  "key_parts_encode (p # ps) = columns_append (key_part_encode part_columns_empty p) (key_parts_encode ps)"
  using foldl_key_part_encode [of "key_part_encode part_columns_empty p" ps]
  by (simp add: key_parts_encode_def)

lemma key_parts_encode_Nil [simp]: "key_parts_encode [] = part_columns_empty"
  by (simp add: key_parts_encode_def)

lemma key_part_decode_encode [codec_simps]:
  "key_part_decode (columns_append (key_part_encode part_columns_empty p) c) = Some (p, c)"
  by (cases p) (simp add: key_part_decode_def key_part_encode_def part_columns_empty_def
      columns_append_def split: option.split)

lemma key_parts_decode_encode [codec_simps]:
  "key_parts_decode (length ps) (columns_append (key_parts_encode ps) c) = Some (ps, c)"
  by (induction ps) (simp_all add: key_parts_encode_Cons columns_append_assoc codec_simps)

text \<open>
  The byte form of the columns.  A column codec writes a batch of values and reads back as many
  as it is told to, leaving the rest of the input; \<open>bitcode\<close> supplies one for each column type.
\<close>

record column_codec =
  cc_strs :: "string list \<Rightarrow> bytes"
  cc_strs_dec :: "nat \<Rightarrow> bytes \<Rightarrow> (string list \<times> bytes) option"
  cc_tags :: "bool list \<Rightarrow> bytes"
  cc_tags_dec :: "nat \<Rightarrow> bytes \<Rightarrow> (bool list \<times> bytes) option"
  cc_u32s :: "32 word list \<Rightarrow> bytes"
  cc_u32s_dec :: "nat \<Rightarrow> bytes \<Rightarrow> (32 word list \<times> bytes) option"
  cc_lens :: "nat list \<Rightarrow> bytes"
  cc_lens_dec :: "nat \<Rightarrow> bytes \<Rightarrow> (nat list \<times> bytes) option"

definition lawful_columns :: "column_codec \<Rightarrow> bool" where
  "lawful_columns cc \<longleftrightarrow>
     (\<forall>xs r. cc_strs_dec cc (length xs) (cc_strs cc xs @ r) = Some (xs, r))
     \<and> (\<forall>xs r. cc_tags_dec cc (length xs) (cc_tags cc xs @ r) = Some (xs, r))
     \<and> (\<forall>xs r. cc_u32s_dec cc (length xs) (cc_u32s cc xs @ r) = Some (xs, r))
     \<and> (\<forall>xs r. cc_lens_dec cc (length xs) (cc_lens cc xs @ r) = Some (xs, r))"

lemma lawful_columns_one:
  assumes "lawful_columns cc"
  shows "cc_strs_dec cc (Suc 0) (cc_strs cc [s] @ r) = Some ([s], r)"
    "cc_u32s_dec cc (Suc 0) (cc_u32s cc [v] @ r) = Some ([v], r)"
    "cc_lens_dec cc (Suc 0) (cc_lens cc [n] @ r) = Some ([n], r)"
  using assms unfolding lawful_columns_def by (metis length_Cons list.size(3))+

definition part_columns_collect_into :: "column_codec \<Rightarrow> part_columns \<Rightarrow> bytes \<Rightarrow> bytes" where
  "part_columns_collect_into cc c out =
     out @ cc_strs cc (pc_keys c) @ cc_tags cc (pc_variants c) @ cc_strs cc (pc_values c)"

definition part_columns_populate :: "column_codec \<Rightarrow> nat \<Rightarrow> bytes \<Rightarrow> (part_columns \<times> bytes) option" where
  "part_columns_populate cc n input =
     Option.bind (cc_strs_dec cc n input) (\<lambda>(ks, input).
     Option.bind (cc_tags_dec cc n input) (\<lambda>(bs, input).
     (let some_count = count_list bs True in
      Option.bind (cc_strs_dec cc some_count input) (\<lambda>(vs, input).
      Some (\<lparr>pc_keys = ks, pc_variants = bs, pc_values = vs\<rparr>, input)))))"

text \<open>\<open>CacheKeyEncoder\<close> for one key: the parts (a vector: its length, then the columns of its
  elements), the version and the prefix, in this order; the content size is not written.\<close>

definition cache_key_encode :: "column_codec \<Rightarrow> cache_key \<Rightarrow> bytes" where
  "cache_key_encode cc k =
     (let out = cc_lens cc [length (ck_parts k)];
          out = part_columns_collect_into cc (key_parts_encode (ck_parts k)) out;
          out = out @ cc_u32s cc [ck_version k]
      in out @ cc_strs cc [ck_prefix k])"

definition cache_key_populate ::
  "column_codec \<Rightarrow> bytes \<Rightarrow> ((nat list \<times> part_columns \<times> 32 word list \<times> string list) \<times> bytes) option" where
  "cache_key_populate cc input =
     Option.bind (cc_lens_dec cc 1 input) (\<lambda>(ls, input).
     Option.bind (part_columns_populate cc (sum_list ls) input) (\<lambda>(cols, input).
     Option.bind (cc_u32s_dec cc 1 input) (\<lambda>(vs, input).
     Option.bind (cc_strs_dec cc 1 input) (\<lambda>(ps, input).
     Some ((ls, cols, vs, ps), input)))))"

definition cache_key_decode :: "column_codec \<Rightarrow> bytes \<Rightarrow> (cache_key \<times> bytes) option" where
  "cache_key_decode cc input =
     (case cache_key_populate cc input of
        Some (([n], cols, [version], [prefix]), rest) \<Rightarrow>
          map_option (\<lambda>(parts, _).
            (\<lparr>ck_parts = parts, ck_version = version, ck_prefix = prefix,
              ck_content_size = calculate_content_size prefix parts\<rparr>, rest))
            (key_parts_decode n cols)
      | _ \<Rightarrow> None)"

lemma key_parts_encode_lengths [simp]:
  "length (pc_keys (key_parts_encode ps)) = length ps"
  "length (pc_variants (key_parts_encode ps)) = length ps"
  "count_list (pc_variants (key_parts_encode ps)) True = length (pc_values (key_parts_encode ps))"
  by (induction ps)
    (auto simp: key_parts_encode_Cons columns_append_def key_part_encode_def part_columns_empty_def
      split: option.split)

lemma part_columns_populate_collect [codec_simps]:
  assumes "lawful_columns cc"
  shows "part_columns_populate cc (length ps)
           (cc_strs cc (pc_keys (key_parts_encode ps)) @ cc_tags cc (pc_variants (key_parts_encode ps))
            @ cc_strs cc (pc_values (key_parts_encode ps)) @ r) = Some (key_parts_encode ps, r)"
proof -
  let ?c = "key_parts_encode ps"
  have "cc_strs_dec cc (length ps) (cc_strs cc (pc_keys ?c) @ r') = Some (pc_keys ?c, r')"
    "cc_tags_dec cc (length ps) (cc_tags cc (pc_variants ?c) @ r') = Some (pc_variants ?c, r')"
    "cc_strs_dec cc (length (pc_values ?c)) (cc_strs cc (pc_values ?c) @ r') = Some (pc_values ?c, r')"
    for r'
    using assms unfolding lawful_columns_def by (metis key_parts_encode_lengths(1,2))+
  then show ?thesis
    by (simp add: part_columns_populate_def Let_def)
qed

lemma wf_cache_key_decode: "cache_key_decode cc input = Some (k, rest) \<Longrightarrow> wf_key k"
  by (auto simp: cache_key_decode_def wf_key_def split: option.splits list.splits prod.splits)

lemma cache_key_decode_encode [codec_simps]:
  assumes "lawful_columns cc"
  shows "cache_key_decode cc (cache_key_encode cc k @ rest)
         = Some (cache_key_new (ck_prefix k) (ck_version k) (ck_parts k), rest)"
proof -
  have "key_parts_decode (length (ck_parts k)) (key_parts_encode (ck_parts k))
        = Some (ck_parts k, part_columns_empty)"
    using key_parts_decode_encode [of "ck_parts k" part_columns_empty] by simp
  then show ?thesis
    using assms
    by (simp add: cache_key_decode_def cache_key_populate_def cache_key_encode_def Let_def
        part_columns_collect_into_def lawful_columns_one part_columns_populate_collect cache_key_new_def)
qed

subsection \<open>A codec the hypotheses hold for\<close>

text \<open>Unary numbers and marked characters: enough to see that \<open>lawful_columns\<close> can hold.\<close>

definition unary :: "nat \<Rightarrow> bytes" where
  "unary n = replicate n 1 @ [0]"

fun unary_dec :: "bytes \<Rightarrow> (nat \<times> bytes) option" where
  "unary_dec [] = None"
| "unary_dec (b # bs) = (if b = 0 then Some (0, bs) else map_option (\<lambda>(n, r). (Suc n, r)) (unary_dec bs))"

fun repeat_dec :: "(bytes \<Rightarrow> ('a \<times> bytes) option) \<Rightarrow> nat \<Rightarrow> bytes \<Rightarrow> ('a list \<times> bytes) option" where
  "repeat_dec d 0 input = Some ([], input)"
| "repeat_dec d (Suc n) input =
     Option.bind (d input) (\<lambda>(x, input). map_option (\<lambda>(xs, r). (x # xs, r)) (repeat_dec d n input))"

definition unary_str :: "string \<Rightarrow> bytes" where
  "unary_str s = unary (length s) @ concat (map (\<lambda>c. unary (of_char c)) s)"

definition unary_str_dec :: "bytes \<Rightarrow> (string \<times> bytes) option" where
  "unary_str_dec input =
     Option.bind (unary_dec input) (\<lambda>(n, input).
       repeat_dec (\<lambda>i. map_option (\<lambda>(c, r). (char_of c, r)) (unary_dec i)) n input)"

definition unary_columns :: column_codec where
  "unary_columns =
     \<lparr>cc_strs = (\<lambda>xs. concat (map unary_str xs)), cc_strs_dec = repeat_dec unary_str_dec,
      cc_tags = (\<lambda>xs. concat (map (\<lambda>b. unary (of_bool b)) xs)),
      cc_tags_dec = repeat_dec (\<lambda>i. map_option (\<lambda>(n, r). (n \<noteq> 0, r)) (unary_dec i)),
      cc_u32s = (\<lambda>xs. concat (map (\<lambda>w. unary (unat w)) xs)),
      cc_u32s_dec = repeat_dec (\<lambda>i. map_option (\<lambda>(n, r). (of_nat n, r)) (unary_dec i)),
      cc_lens = (\<lambda>xs. concat (map unary xs)), cc_lens_dec = repeat_dec unary_dec\<rparr>"

lemma unary_dec_unary [simp]: "unary_dec (unary n @ r) = Some (n, r)"
  by (induction n) (simp_all add: unary_def)

lemma repeat_dec_concat:
  assumes "\<And>x r. d (e x @ r) = Some (x, r)"
  shows "repeat_dec d (length xs) (concat (map e xs) @ r) = Some (xs, r)"
  by (induction xs) (simp_all add: assms)

lemma unary_str_dec_unary_str: "unary_str_dec (unary_str s @ r) = Some (s, r)"
  by (simp add: unary_str_def unary_str_dec_def
      repeat_dec_concat [where e = "\<lambda>c. unary (of_char c)" and xs = s])

lemma lawful_unary_columns: "lawful_columns unary_columns"
  unfolding lawful_columns_def unary_columns_def
  by (auto intro!: repeat_dec_concat simp: unary_str_dec_unary_str)

section \<open>Properties\<close>

text \<open>C29. The byte form of a key loses nothing: decoding what the encoder wrote gives back the
  parts (values that are absent included), the version and the prefix, with the content size
  recomputed to the one the constructor stores, and leaves the bytes that follow; so a key built
  by any constructor survives the round trip unchanged.\<close>

theorem cache_key_roundtrip:
  assumes "lawful_columns cc" and "wf_key k"
  shows "cache_key_decode cc (cache_key_encode cc k @ rest) = Some (k, rest)"
  using cache_key_decode_encode [OF assms(1), of k rest] wf_key_surjective [OF assms(2)] by simp

theorem cache_key_roundtrip_witness:
  "cache_key_decode unary_columns
     (cache_key_encode unary_columns (cache_key_from_slice [(''method'', Some ''GET''), (''flag'', None)]) @ [7])
   = Some (cache_key_from_slice [(''method'', Some ''GET''), (''flag'', None)], [7])"
  by (rule cache_key_roundtrip [OF lawful_unary_columns wf_key_from_slice])

text \<open>The textual form of a key is not injective: a value that contains an ampersand prints as
  two parts, so two different keys, each built by the constructor, have the same text (the text is
  for logs; stores address entries by the byte form or the URL form).\<close>

theorem cache_key_display_ambiguous:
  "cache_key_new p v [key_part_new a (Some (x @ ''&'' @ b))] \<noteq> cache_key_new p v [key_part_new a (Some x), key_part_new b None]
   \<and> cache_key_display (cache_key_new p v [key_part_new a (Some (x @ ''&'' @ b))])
     = cache_key_display (cache_key_new p v [key_part_new a (Some x), key_part_new b None])"
  by (simp add: cache_key_new_def cache_key_display_def key_part_display_def)

end
