(* ===== verification/Core_Value.thy ===== *)
theory Core_Value
  imports Prelude
begin

text \<open>
  Cached values and their expiry (hitbox-core/src/value.rs), cache decisions and entity TTLs
  (hitbox-core/src/policy.rs) and the cache state of a value (hitbox-core/src/response.rs).  The
  clock the code reads (\<open>Utc::now()\<close>) is an argument.
\<close>

section \<open>Cache decisions\<close>

datatype ('c, 'n) cache_policy = Cacheable 'c | NonCacheable 'n

record entity_policy_config =
  ep_ttl :: "duration option"
  ep_stale_ttl :: "duration option"

definition entity_policy_default :: entity_policy_config where
  "entity_policy_default = \<lparr>ep_ttl = None, ep_stale_ttl = None\<rparr>"

section \<open>Values\<close>

record 'a cache_value =
  cv_data :: 'a
  cv_expire :: "time option"
  cv_stale :: "time option"

record cache_meta =
  cm_expire :: "time option"
  cm_stale :: "time option"

definition cache_value_new :: "'a \<Rightarrow> time option \<Rightarrow> time option \<Rightarrow> 'a cache_value" where
  "cache_value_new d e s = \<lparr>cv_data = d, cv_expire = e, cv_stale = s\<rparr>"

definition cache_meta_new :: "time option \<Rightarrow> time option \<Rightarrow> cache_meta" where
  "cache_meta_new e s = \<lparr>cm_expire = e, cm_stale = s\<rparr>"

definition into_inner :: "'a cache_value \<Rightarrow> 'a" where
  "into_inner v = cv_data v"

definition into_parts :: "'a cache_value \<Rightarrow> cache_meta \<times> 'a" where
  "into_parts v = (cache_meta_new (cv_expire v) (cv_stale v), cv_data v)"

text \<open>\<open>chrono::TimeDelta::num_seconds\<close>: whole seconds, truncated towards zero.\<close>

definition num_seconds :: "int \<Rightarrow> int" where
  "num_seconds d = (if 0 \<le> d then d div int nanos_per_sec else - ((- d) div int nanos_per_sec))"

definition ttl_secs :: "time \<Rightarrow> 'a cache_value \<Rightarrow> nat option" where
  "ttl_secs now v =
     Option.bind (cv_expire v) (\<lambda>expire.
       let dur = expire - now in
       if num_seconds dur > 0 then Some (nat (num_seconds dur)) else None)"

definition value_memory_size :: "nat \<Rightarrow> bytes cache_value \<Rightarrow> nat" where
  "value_memory_size self_size v = self_size + length (cv_data v)"

section \<open>Cache state\<close>

datatype 'a cache_state = Stale 'a | Actual 'a | Expired 'a

definition cache_state_of :: "time \<Rightarrow> 'a cache_value \<Rightarrow> 'a cache_value cache_state" where
  "cache_state_of now v =
     (if (case cv_expire v of Some expire \<Rightarrow> expire \<le> now | None \<Rightarrow> False) then Expired v
      else if (case cv_stale v of Some stale \<Rightarrow> stale \<le> now | None \<Rightarrow> False) then Stale v
      else Actual v)"

lemma cache_value_new_sel [simp]:
  "cv_data (cache_value_new d e s) = d"
  "cv_expire (cache_value_new d e s) = e"
  "cv_stale (cache_value_new d e s) = s"
  "into_inner (cache_value_new d e s) = d"
  by (simp_all add: cache_value_new_def into_inner_def)

lemma into_parts_simps [simp]:
  "into_parts v = (m, d) \<longleftrightarrow> cm_expire m = cv_expire v \<and> cm_stale m = cv_stale v \<and> d = cv_data v"
  by (cases m) (auto simp: into_parts_def cache_meta_new_def)

lemma cache_value_new_collapse [simp]: "cache_value_new (cv_data v) (cv_expire v) (cv_stale v) = v"
  by (simp add: cache_value_new_def)

lemma cache_state_value:
  "cache_state_of now v = Stale u \<Longrightarrow> u = v"
  "cache_state_of now v = Actual u \<Longrightarrow> u = v"
  "cache_state_of now v = Expired u \<Longrightarrow> u = v"
  by (auto simp: cache_state_of_def split: if_splits)

lemma cache_state_Expired_iff:
  "cache_state_of now v = Expired u \<longleftrightarrow> u = v \<and> (\<exists>e. cv_expire v = Some e \<and> e \<le> now)"
  by (auto simp: cache_state_of_def split: option.splits)

lemma cache_state_Stale_iff:
  "cache_state_of now v = Stale u \<longleftrightarrow>
     u = v \<and> (\<forall>e. cv_expire v = Some e \<longrightarrow> now < e) \<and> (\<exists>s. cv_stale v = Some s \<and> s \<le> now)"
  by (auto simp: cache_state_of_def split: option.splits)

lemma cache_state_Actual_iff:
  "cache_state_of now v = Actual u \<longleftrightarrow>
     u = v \<and> (\<forall>e. cv_expire v = Some e \<longrightarrow> now < e) \<and> (\<forall>s. cv_stale v = Some s \<longrightarrow> now < s)"
  by (auto simp: cache_state_of_def split: option.splits)

text \<open>The age of the state is monotone: fresh, then stale, then expired, never back.\<close>

fun state_age :: "'a cache_state \<Rightarrow> nat" where
  "state_age (Actual v) = 0"
| "state_age (Stale v) = 1"
| "state_age (Expired v) = 2"

lemma state_age_mono: "t1 \<le> t2 \<Longrightarrow> state_age (cache_state_of t1 v) \<le> state_age (cache_state_of t2 v)"
  by (auto simp: cache_state_of_def split: option.splits)

lemma num_seconds_pos_iff: "0 < num_seconds d \<longleftrightarrow> int nanos_per_sec \<le> d"
proof (cases "0 \<le> d")
  case True
  then show ?thesis
    by (simp add: num_seconds_def pos_imp_zdiv_pos_iff)
next
  case False
  then have "0 \<le> (- d) div int nanos_per_sec"
    by (simp add: pos_imp_zdiv_nonneg_iff)
  then show ?thesis
    using False by (simp add: num_seconds_def nanos_per_sec_def)
qed

lemma ttl_secs_Some_iff:
  "ttl_secs now v = Some n \<longleftrightarrow>
     (\<exists>e. cv_expire v = Some e \<and> int nanos_per_sec \<le> e - now \<and> n = nat ((e - now) div int nanos_per_sec))"
proof -
  have "num_seconds d = d div int nanos_per_sec" if "int nanos_per_sec \<le> d" for d
    using that by (simp add: num_seconds_def nanos_per_sec_def)
  then show ?thesis
    by (cases "cv_expire v") (auto simp: ttl_secs_def Let_def num_seconds_pos_iff)
qed

lemma ttl_secs_None_iff:
  "ttl_secs now v = None \<longleftrightarrow> (\<forall>e. cv_expire v = Some e \<longrightarrow> e - now < int nanos_per_sec)"
  by (cases "cv_expire v") (auto simp: ttl_secs_def Let_def num_seconds_pos_iff not_le)

text \<open>The remaining TTL never outlives the expiry it is computed from.\<close>

lemma ttl_secs_sound:
  assumes "ttl_secs now v = Some n" "cv_expire v = Some e"
  shows "0 < n" "now + int n * int nanos_per_sec \<le> e"
proof -
  from assms have e: "int nanos_per_sec \<le> e - now" "n = nat ((e - now) div int nanos_per_sec)"
    by (auto simp: ttl_secs_Some_iff)
  have "0 < (e - now) div int nanos_per_sec"
    using e(1) by (simp add: pos_imp_zdiv_pos_iff)
  then show "0 < n" using e(2) by simp
  have "(e - now) div int nanos_per_sec * int nanos_per_sec \<le> e - now"
    by (metis div_mult_mod_eq le_add_same_cancel1 of_nat_0_less_iff nanos_per_sec_pos
        pos_mod_sign)
  then show "now + int n * int nanos_per_sec \<le> e"
    using e(2) \<open>0 < (e - now) div int nanos_per_sec\<close> by simp
qed

lemma ttl_secs_tight:
  assumes "ttl_secs now v = Some n" "cv_expire v = Some e"
  shows "e < now + int (Suc n) * int nanos_per_sec"
proof -
  from assms have e: "int nanos_per_sec \<le> e - now" "n = nat ((e - now) div int nanos_per_sec)"
    by (auto simp: ttl_secs_Some_iff)
  have "e - now < ((e - now) div int nanos_per_sec + 1) * int nanos_per_sec"
    by (simp add: nanos_per_sec_def)
  moreover have "int n = (e - now) div int nanos_per_sec"
    using e by (simp add: pos_imp_zdiv_nonneg_iff)
  ultimately show ?thesis by (simp add: algebra_simps)
qed

section \<open>Timestamps of a response being cached\<close>

text \<open>The expiry and the staleness are both measured from the moment of caching, each from its own
  reading of the clock: \<open>t1\<close> for the expiry, \<open>t2\<close> for the staleness.\<close>

definition stamp :: "time \<Rightarrow> time \<Rightarrow> entity_policy_config \<Rightarrow> 'a \<Rightarrow> 'a cache_value" where
  "stamp t1 t2 cfg d =
     cache_value_new d (map_option (\<lambda>dur. t1 + int dur) (ep_ttl cfg))
       (map_option (\<lambda>dur. t2 + int dur) (ep_stale_ttl cfg))"

lemma stamp_sel [simp]:
  "cv_data (stamp t1 t2 cfg d) = d"
  "cv_expire (stamp t1 t2 cfg d) = map_option (\<lambda>dur. t1 + int dur) (ep_ttl cfg)"
  "cv_stale (stamp t1 t2 cfg d) = map_option (\<lambda>dur. t2 + int dur) (ep_stale_ttl cfg)"
  by (simp_all add: stamp_def)

text \<open>An optional bound counted from \<open>t\<close> has been reached.\<close>

definition reached :: "time \<Rightarrow> duration option \<Rightarrow> time \<Rightarrow> bool" where
  "reached t lim now = (case lim of Some l \<Rightarrow> t + int l \<le> now | None \<Rightarrow> False)"

lemma cache_state_stamp:
  "cache_state_of now (stamp t1 t2 cfg x) =
     (if reached t1 (ep_ttl cfg) now then Expired (stamp t1 t2 cfg x)
      else if reached t2 (ep_stale_ttl cfg) now then Stale (stamp t1 t2 cfg x)
      else Actual (stamp t1 t2 cfg x))"
  by (auto simp: reached_def cache_state_of_def split: option.splits)

section \<open>Properties\<close>

text \<open>The remaining TTL handed to the stores is the number of whole seconds left: it is
  positive, it never outlives the expiry, and it is short of it by less than one second; a value
  that has less than one second left, or no expiry, has no TTL at all.\<close>

theorem ttl_whole_seconds:
  shows "ttl_secs now v = Some n \<longleftrightarrow>
     0 < n \<and> (\<exists>e. cv_expire v = Some e \<and> now + int n * int nanos_per_sec \<le> e
                   \<and> e < now + int (Suc n) * int nanos_per_sec)"
proof
  assume ttl: "ttl_secs now v = Some n"
  then obtain e where e: "cv_expire v = Some e" by (auto simp: ttl_secs_Some_iff)
  show "0 < n \<and> (\<exists>e. cv_expire v = Some e \<and> now + int n * int nanos_per_sec \<le> e
                   \<and> e < now + int (Suc n) * int nanos_per_sec)"
    using ttl_secs_sound [OF ttl e] ttl_secs_tight [OF ttl e] e by blast
next
  assume "0 < n \<and> (\<exists>e. cv_expire v = Some e \<and> now + int n * int nanos_per_sec \<le> e
                   \<and> e < now + int (Suc n) * int nanos_per_sec)"
  then obtain e where n: "0 < n" and e: "cv_expire v = Some e"
    "int n * int nanos_per_sec \<le> e - now" "e - now < int (Suc n) * int nanos_per_sec"
    by auto
  have "int nanos_per_sec \<le> int n * int nanos_per_sec" using n by simp
  then have "int nanos_per_sec \<le> e - now" using e(2) by (rule order_trans)
  moreover have "(e - now) div int nanos_per_sec = int n"
    using int_div_pos_eq [of "e - now" "int nanos_per_sec" "int n" "e - now - int n * int nanos_per_sec"] e
    by (simp add: algebra_simps)
  ultimately have "int nanos_per_sec \<le> e - now" "n = nat ((e - now) div int nanos_per_sec)"
    by simp_all
  with e(1) show "ttl_secs now v = Some n"
    unfolding ttl_secs_Some_iff by blast
qed

text \<open>The stale window is not served after the TTL: when the stale TTL is at least the TTL (as
  in the README's example, 60 s and 300 s), no entry is ever stale, at any time; it goes from fresh
  to expired.\<close>

theorem stale_ttl_ge_ttl_never_stale:
  assumes "ep_ttl cfg = Some a" "ep_stale_ttl cfg = Some b" "a \<le> b" "t1 \<le> t2"
  shows "cache_state_of now (stamp t1 t2 cfg x) \<noteq> Stale u"
  using assms by (auto simp: cache_state_Stale_iff)

theorem stale_ttl_ge_ttl_never_stale_witness:
  "cache_state_of 120 (stamp 0 1 \<lparr>ep_ttl = Some 60, ep_stale_ttl = Some 300\<rparr> (0::nat))
     \<noteq> Stale (stamp 0 1 \<lparr>ep_ttl = Some 60, ep_stale_ttl = Some 300\<rparr> 0)"
  by (rule stale_ttl_ge_ttl_never_stale [where a = 60 and b = 300]) simp_all

end
