(* ===== verification/Core_Predicate.thy ===== *)
theory Core_Predicate
  imports Core_Key Core_Value
begin

text \<open>
  Predicates and their combinators (hitbox-core/src/predicate), extractors
  (hitbox-core/src/extractor.rs), the request policy data (hitbox-core/src/request.rs) and the
  blanket \<open>CacheableResponse\<close> of \<open>Result<T, E>\<close> (hitbox-core/src/response.rs).  A predicate takes
  the subject and gives it back with its verdict.
\<close>

section \<open>Predicates\<close>

datatype 's predicate_result = PCacheable 's | PNonCacheable 's

type_synonym 's predicate = "'s \<Rightarrow> 's predicate_result"

text \<open>An async check that never completes gives \<open>None\<close>.\<close>

type_synonym 's async_predicate = "'s \<Rightarrow> 's predicate_result option"

fun pr_subject :: "'s predicate_result \<Rightarrow> 's" where
  "pr_subject (PCacheable s) = s"
| "pr_subject (PNonCacheable s) = s"

fun pr_cacheable :: "'s predicate_result \<Rightarrow> bool" where
  "pr_cacheable (PCacheable s) = True"
| "pr_cacheable (PNonCacheable s) = False"

definition and_then :: "'s predicate_result \<Rightarrow> ('s \<Rightarrow> 's predicate_result) \<Rightarrow> 's predicate_result" where
  "and_then r f = (case r of PCacheable v \<Rightarrow> f v | PNonCacheable v \<Rightarrow> PNonCacheable v)"

definition neutral :: "'s predicate" where
  "neutral s = PCacheable s"

definition async_neutral :: "'s async_predicate" where
  "async_neutral s = Some (neutral s)"

definition pred_not :: "'s predicate \<Rightarrow> 's predicate" where
  "pred_not p s = (case p s of PCacheable s \<Rightarrow> PNonCacheable s | PNonCacheable s \<Rightarrow> PCacheable s)"

definition pred_and :: "'s predicate \<Rightarrow> 's predicate \<Rightarrow> 's predicate" where
  "pred_and l r s = (case l s of PCacheable s \<Rightarrow> r s | non_cacheable \<Rightarrow> non_cacheable)"

definition pred_or :: "'s predicate \<Rightarrow> 's predicate \<Rightarrow> 's predicate" where
  "pred_or l r s = (case l s of PNonCacheable s \<Rightarrow> r s | cacheable \<Rightarrow> cacheable)"

subsection \<open>The predicate contract\<close>

text \<open>What the cache relies on when it hands a subject to a predicate: the subject comes back
  equivalent to what went in (for an HTTP message: the same message, its body possibly buffered),
  and the verdict does not depend on which equivalent form it was given.\<close>

locale predicate_contract =
  fixes p :: "'s \<Rightarrow> 's predicate_result" and equ :: "'s \<Rightarrow> 's \<Rightarrow> bool"
  assumes keeps: "equ s (pr_subject (p s))"
    and verdict: "equ s t \<Longrightarrow> pr_cacheable (p s) = pr_cacheable (p t)"
    and refl: "equ s s"
    and trans: "equ s t \<Longrightarrow> equ t u \<Longrightarrow> equ s u"
begin

lemma check_twice: "pr_cacheable (p (pr_subject (p s))) = pr_cacheable (p s)"
  using verdict [OF keeps] by simp

lemma keeps_iter: "equ s (pr_subject (p (pr_subject (p s))))"
  using keeps trans by blast

end

lemma pr_cases:
  obtains "pr_cacheable r" "r = PCacheable (pr_subject r)"
  | "\<not> pr_cacheable r" "r = PNonCacheable (pr_subject r)"
  by (cases r) auto

lemma pred_not_simps [simp]:
  "pr_cacheable (pred_not p s) \<longleftrightarrow> \<not> pr_cacheable (p s)"
  "pr_subject (pred_not p s) = pr_subject (p s)"
  by (simp_all add: pred_not_def split: predicate_result.split)

lemma pred_and_simps [simp]:
  "pr_cacheable (pred_and l r s) \<longleftrightarrow> pr_cacheable (l s) \<and> pr_cacheable (r (pr_subject (l s)))"
  "pr_subject (pred_and l r s) = (if pr_cacheable (l s) then pr_subject (r (pr_subject (l s))) else pr_subject (l s))"
  by (simp_all add: pred_and_def split: predicate_result.split)

lemma pred_or_simps [simp]:
  "pr_cacheable (pred_or l r s) \<longleftrightarrow> pr_cacheable (l s) \<or> pr_cacheable (r (pr_subject (l s)))"
  "pr_subject (pred_or l r s) = (if pr_cacheable (l s) then pr_subject (l s) else pr_subject (r (pr_subject (l s))))"
  by (simp_all add: pred_or_def split: predicate_result.split)

lemma neutral_simps [simp]: "pr_cacheable (neutral s)" "pr_subject (neutral s) = s"
  by (simp_all add: neutral_def)

lemma and_then_eq_pred_and: "and_then (l s) r = pred_and l r s"
  by (simp add: and_then_def pred_and_def split: predicate_result.split)

text \<open>The neutral predicate satisfies the contract for every subject, and the combinators keep it;
  what they combine may consume and rebuild the subject.\<close>

interpretation neutral: predicate_contract neutral "(=)"
  by unfold_locales auto

lemma predicate_contract_not:
  assumes "predicate_contract p equ"
  shows "predicate_contract (pred_not p) equ"
proof -
  note k = predicate_contract.keeps [OF assms] and v = predicate_contract.verdict [OF assms]
    and r = predicate_contract.refl [OF assms] and t = predicate_contract.trans [OF assms]
  show ?thesis
  proof
    show "equ s (pr_subject (pred_not p s))" "equ s s" for s by (simp_all add: k r)
    show "pr_cacheable (pred_not p s) = pr_cacheable (pred_not p t)" if "equ s t" for s t
      using v [OF that] by simp
    show "equ s u" if "equ s t" "equ t u" for s t u using that by (rule t)
  qed
qed

lemma predicate_contract_and_or:
  assumes "predicate_contract l equ" "predicate_contract r equ"
    and sym: "\<And>s t. equ s t \<Longrightarrow> equ t s"
  shows "predicate_contract (pred_and l r) equ" "predicate_contract (pred_or l r) equ"
proof -
  note l = predicate_contract.keeps [OF assms(1)] predicate_contract.verdict [OF assms(1)]
    and r = predicate_contract.keeps [OF assms(2)] predicate_contract.verdict [OF assms(2)]
    and refl = predicate_contract.refl [OF assms(1)] and tr = predicate_contract.trans [OF assms(1)]
  have "equ (pr_subject (l s)) (pr_subject (l t))" if "equ s t" for s t
    using tr [OF sym [OF l(1)] tr [OF that l(1)]] .
  then have rl: "pr_cacheable (r (pr_subject (l s))) = pr_cacheable (r (pr_subject (l t)))" if "equ s t" for s t
    using r(2) that by simp
  have k: "equ s (pr_subject (r (pr_subject (l s))))" for s
    using tr [OF l(1) r(1)] .
  show "predicate_contract (pred_and l r) equ"
  proof
    show "equ s (pr_subject (pred_and l r s))" "equ s s" for s by (simp_all add: l(1) k refl)
    show "pr_cacheable (pred_and l r s) = pr_cacheable (pred_and l r t)" if "equ s t" for s t
      using l(2) [OF that] rl [OF that] by simp
    show "equ s u" if "equ s t" "equ t u" for s t u using that by (rule tr)
  qed
  show "predicate_contract (pred_or l r) equ"
  proof
    show "equ s (pr_subject (pred_or l r s))" "equ s s" for s by (simp_all add: l(1) k refl)
    show "pr_cacheable (pred_or l r s) = pr_cacheable (pred_or l r t)" if "equ s t" for s t
      using l(2) [OF that] rl [OF that] by simp
    show "equ s u" if "equ s t" "equ t u" for s t u using that by (rule tr)
  qed
qed

section \<open>Extractors and request policies\<close>

type_synonym 's extractor = "'s \<Rightarrow> 's key_parts"

record 'r cacheable_policy_data =
  cpd_key :: cache_key
  cpd_request :: 'r

definition cacheable_policy_data_new :: "cache_key \<Rightarrow> 'r \<Rightarrow> 'r cacheable_policy_data" where
  "cacheable_policy_data_new k r = \<lparr>cpd_key = k, cpd_request = r\<rparr>"

type_synonym 'r request_cache_policy = "('r cacheable_policy_data, 'r) cache_policy"
type_synonym ('c, 'r) response_cache_policy = "('c cache_value, 'r) cache_policy"

section \<open>The response of a fallible upstream\<close>

text \<open>\<open>impl CacheableResponse for Result<T, E>\<close>, over the methods of \<open>T\<close>: the predicates see the
  response inside \<open>Ok\<close>, an error is never cacheable.\<close>

definition result_cache_policy ::
  "('t \<Rightarrow> ('c, 't) cache_policy) \<Rightarrow> time \<Rightarrow> time \<Rightarrow> 't async_predicate \<Rightarrow> entity_policy_config
   \<Rightarrow> ('t, 'e) result \<Rightarrow> ('c, ('t, 'e) result) response_cache_policy option" where
  "result_cache_policy t_into_cached now1 now2 predicates config self =
     (case self of
        Inr response \<Rightarrow>
          map_option (\<lambda>checked. case checked of
             PCacheable cacheable \<Rightarrow>
               (case t_into_cached cacheable of
                  Cacheable res \<Rightarrow> Cacheable (stamp now1 now2 config res)
                | NonCacheable res \<Rightarrow> NonCacheable (Ok res))
           | PNonCacheable res \<Rightarrow> NonCacheable (Ok res))
          (predicates response)
      | Inl error \<Rightarrow> Some (NonCacheable (Err error)))"

definition result_into_cached ::
  "('t \<Rightarrow> ('c, 't) cache_policy) \<Rightarrow> ('t, 'e) result \<Rightarrow> ('c, ('t, 'e) result) cache_policy" where
  "result_into_cached t_into_cached self =
     (case self of
        Inr response \<Rightarrow> (case t_into_cached response of Cacheable c \<Rightarrow> Cacheable c | NonCacheable r \<Rightarrow> NonCacheable (Ok r))
      | Inl error \<Rightarrow> NonCacheable (Err error))"

definition result_from_cached :: "('c \<Rightarrow> 't) \<Rightarrow> 'c \<Rightarrow> ('t, 'e) result" where
  "result_from_cached t_from_cached c = Ok (t_from_cached c)"

section \<open>Properties\<close>

text \<open>A fallible response is cached if and only if the upstream succeeded, the predicates accept what
  it returned, and the response inside converts to its cached form; an error is never cached.\<close>

lemma result_cache_policy_exact:
  "result_cache_policy ic n1 n2 p cfg r = Some (Cacheable v) \<longleftrightarrow>
      (\<exists>t t' d. r = Ok t \<and> p t = Some (PCacheable t') \<and> ic t' = Cacheable d \<and> v = stamp n1 n2 cfg d)"
  "result_cache_policy ic n1 n2 p cfg (Err e) = Some (NonCacheable (Err e))"
proof -
  show "result_cache_policy ic n1 n2 p cfg r = Some (Cacheable v) \<longleftrightarrow>
      (\<exists>t t' d. r = Ok t \<and> p t = Some (PCacheable t') \<and> ic t' = Cacheable d \<and> v = stamp n1 n2 cfg d)"
  proof (cases r)
    case (Inr t)
    then show ?thesis
      by (cases "p t") (auto simp: result_cache_policy_def split: predicate_result.split cache_policy.split)
  qed (simp add: result_cache_policy_def)
qed (simp add: result_cache_policy_def)

end
