(* ===== verification/Policy.thy ===== *)
theory Policy
  imports Core_Value
begin

text \<open>
  Policy configuration (hitbox/src/policy.rs): stale policy, TTLs, concurrency limit, and the
  builder.  \<open>ConcurrencyLimit\<close> is an integer between 1 and 255; a policy is well formed when its
  limit is in that range.
\<close>

datatype stale_policy = ReturnStale | Revalidate | OffloadRevalidate

record cache_behavior_policy =
  cb_stale :: stale_policy

record enabled_cache_config =
  ec_ttl :: "duration option"
  ec_stale :: "duration option"
  ec_policy :: cache_behavior_policy
  ec_concurrency :: "nat option"

datatype policy_config = Enabled enabled_cache_config | Disabled

definition stale_policy_default :: stale_policy where
  "stale_policy_default = ReturnStale"

definition cache_behavior_policy_default :: cache_behavior_policy where
  "cache_behavior_policy_default = \<lparr>cb_stale = stale_policy_default\<rparr>"

definition enabled_cache_config_default :: enabled_cache_config where
  "enabled_cache_config_default =
     \<lparr>ec_ttl = Some (5 * nanos_per_sec), ec_stale = None,
      ec_policy = cache_behavior_policy_default, ec_concurrency = None\<rparr>"

definition policy_config_default :: policy_config where
  "policy_config_default = Enabled enabled_cache_config_default"

definition policy_config_disabled :: policy_config where
  "policy_config_disabled = Disabled"

record policy_config_builder =
  pb_ttl :: "duration option"
  pb_stale :: "duration option"
  pb_stale_policy :: stale_policy
  pb_concurrency :: "nat option"

definition policy_builder_new :: policy_config_builder where
  "policy_builder_new =
     \<lparr>pb_ttl = None, pb_stale = None, pb_stale_policy = stale_policy_default, pb_concurrency = None\<rparr>"

definition builder_ttl :: "duration \<Rightarrow> policy_config_builder \<Rightarrow> policy_config_builder" where
  "builder_ttl d b = b\<lparr>pb_ttl := Some d\<rparr>"

definition builder_stale :: "duration \<Rightarrow> policy_config_builder \<Rightarrow> policy_config_builder" where
  "builder_stale d b = b\<lparr>pb_stale := Some d\<rparr>"

definition builder_stale_policy :: "stale_policy \<Rightarrow> policy_config_builder \<Rightarrow> policy_config_builder" where
  "builder_stale_policy p b = b\<lparr>pb_stale_policy := p\<rparr>"

definition builder_concurrency :: "nat \<Rightarrow> policy_config_builder \<Rightarrow> policy_config_builder" where
  "builder_concurrency n b = b\<lparr>pb_concurrency := Some n\<rparr>"

definition policy_build :: "policy_config_builder \<Rightarrow> policy_config" where
  "policy_build b =
     Enabled \<lparr>ec_ttl = pb_ttl b, ec_stale = pb_stale b,
              ec_policy = \<lparr>cb_stale = pb_stale_policy b\<rparr>, ec_concurrency = pb_concurrency b\<rparr>"

definition concurrency_limit_new :: "nat \<Rightarrow> nat option" where
  "concurrency_limit_new n = (if 1 \<le> n \<and> n \<le> 255 then Some n else None)"

text \<open>The readings of a policy the state machine makes.\<close>

definition policy_stale :: "policy_config \<Rightarrow> stale_policy" where
  "policy_stale p = (case p of Enabled c \<Rightarrow> cb_stale (ec_policy c) | Disabled \<Rightarrow> ReturnStale)"

definition policy_entity :: "policy_config \<Rightarrow> entity_policy_config" where
  "policy_entity p =
     (case p of Enabled c \<Rightarrow> \<lparr>ep_ttl = ec_ttl c, ep_stale_ttl = ec_stale c\<rparr>
      | Disabled \<Rightarrow> entity_policy_default)"

definition wf_policy :: "policy_config \<Rightarrow> bool" where
  "wf_policy p =
     (case p of Enabled c \<Rightarrow> (case ec_concurrency c of Some n \<Rightarrow> 1 \<le> n \<and> n \<le> 255 | None \<Rightarrow> True)
      | Disabled \<Rightarrow> True)"

lemma wf_policy_default [simp]: "wf_policy policy_config_default" "wf_policy policy_config_disabled"
  by (simp_all add: wf_policy_def policy_config_default_def policy_config_disabled_def
      enabled_cache_config_default_def)

text \<open>A freshly built policy has no TTL, unlike the default policy, whose TTL is five seconds.\<close>

lemma builder_has_no_default_ttl:
  "policy_entity (policy_build policy_builder_new) = entity_policy_default"
  "ep_ttl (policy_entity policy_config_default) = Some 5000000000"
  by (simp_all add: policy_build_def policy_builder_new_def policy_entity_def entity_policy_default_def
      policy_config_default_def enabled_cache_config_default_def nanos_per_sec_def)

lemma builder_sets:
  "policy_entity (policy_build (builder_stale s (builder_ttl t b))) = \<lparr>ep_ttl = Some t, ep_stale_ttl = Some s\<rparr>"
  "policy_stale (policy_build (builder_stale_policy p b)) = p"
  "1 \<le> n \<Longrightarrow> n \<le> 255 \<Longrightarrow> wf_policy (policy_build (builder_concurrency n b))"
  by (simp_all add: policy_build_def builder_stale_def builder_ttl_def builder_stale_policy_def
      builder_concurrency_def policy_entity_def policy_stale_def wf_policy_def)

end
