(* ===== verification/Concurrency.thy ===== *)
theory Concurrency
  imports Core_Key Core_Value Policy
begin

text \<open>
  Dogpile prevention (hitbox/src/concurrency.rs): the broadcast manager and the no-op manager,
  and the system of requests that call them.  The semaphore and the broadcast channel come from
  the \<open>tokio\<close> crate: they are parameters of the manager, with their documented behaviour as the
  laws of the locale \<open>sync_laws\<close>.
\<close>

section \<open>The synchronisation primitives\<close>

datatype 'm recv = RecvOk 'm | RecvLagged nat | RecvClosed | RecvPending

record ('sem, 'ch, 'rx, 'm) sync_ops =
  so_sem_new :: "nat \<Rightarrow> 'sem"
  so_sem_try :: "'sem \<Rightarrow> 'sem option"
  so_sem_release :: "'sem \<Rightarrow> 'sem"
  so_ch_new :: "nat \<Rightarrow> 'ch"
  so_subscribe :: "'ch \<Rightarrow> 'rx \<times> 'ch"
  so_send :: "'m \<Rightarrow> 'ch \<Rightarrow> 'ch"
  so_close :: "'ch \<Rightarrow> 'ch"
  so_recv :: "'rx \<Rightarrow> 'ch \<Rightarrow> 'm recv \<times> 'rx"

section \<open>The broadcast manager\<close>

datatype concurrency_error = Lagged nat | Closed

datatype 'rx decision = Proceed nat | ProceedWithoutPermit | Await nat 'rx

text \<open>
  An in-flight entry is a pair of a sender and a shared semaphore; both live at the entry's
  address, because permits and receivers outlive the entry's removal from the map.
\<close>

record ('sem, 'ch) manager =
  bm_in_flight :: "cache_key \<Rightarrow> nat option"
  bm_sem :: "nat \<Rightarrow> 'sem"
  bm_chan :: "nat \<Rightarrow> 'ch"
  bm_next :: nat

definition channel_capacity :: nat where
  "channel_capacity = 1"

definition manager_new :: "('sem, 'ch, 'rx, 'm) sync_ops \<Rightarrow> ('sem, 'ch) manager" where
  "manager_new P = \<lparr>bm_in_flight = (\<lambda>_. None), bm_sem = (\<lambda>_. so_sem_new P 0),
                    bm_chan = (\<lambda>_. so_ch_new P 0), bm_next = 0\<rparr>"

text \<open>\<open>check\<close>: an occupied entry gives a permit or a subscription, a vacant one is created with
  its first permit taken.  The missing permit of a fresh semaphore is the code's \<open>expect\<close>; it is
  the result \<open>None\<close>.\<close>

definition manager_check ::
  "('sem, 'ch, 'rx, 'm) sync_ops \<Rightarrow> cache_key \<Rightarrow> nat \<Rightarrow> ('sem, 'ch) manager
   \<Rightarrow> ('rx decision \<times> ('sem, 'ch) manager) option" where
  "manager_check P k concurrency m =
     (case bm_in_flight m k of
        Some i \<Rightarrow>
          (case so_sem_try P (bm_sem m i) of
             Some s \<Rightarrow> Some (Proceed i, m\<lparr>bm_sem := (bm_sem m)(i := s)\<rparr>)
           | None \<Rightarrow>
               (case so_subscribe P (bm_chan m i) of
                  (rx, ch) \<Rightarrow> Some (Await i rx, m\<lparr>bm_chan := (bm_chan m)(i := ch)\<rparr>)))
      | None \<Rightarrow>
          (let i = bm_next m; ch = so_ch_new P channel_capacity; sem = so_sem_new P concurrency in
           case so_sem_try P sem of
             None \<Rightarrow> None
           | Some s \<Rightarrow>
               Some (Proceed i,
                     m\<lparr>bm_in_flight := (bm_in_flight m)(k \<mapsto> i), bm_sem := (bm_sem m)(i := s),
                       bm_chan := (bm_chan m)(i := ch), bm_next := Suc i\<rparr>)))"

text \<open>\<open>resolve\<close> takes the entry out, broadcasts, and drops the sender with the entry; \<open>cleanup\<close>
  only drops it.\<close>

definition manager_resolve ::
  "('sem, 'ch, 'rx, 'm) sync_ops \<Rightarrow> cache_key \<Rightarrow> 'm \<Rightarrow> ('sem, 'ch) manager \<Rightarrow> ('sem, 'ch) manager" where
  "manager_resolve P k v m =
     (case bm_in_flight m k of
        Some i \<Rightarrow> m\<lparr>bm_in_flight := (bm_in_flight m)(k := None),
                    bm_chan := (bm_chan m)(i := so_close P (so_send P v (bm_chan m i)))\<rparr>
      | None \<Rightarrow> m)"

definition manager_cleanup ::
  "('sem, 'ch, 'rx, 'm) sync_ops \<Rightarrow> cache_key \<Rightarrow> ('sem, 'ch) manager \<Rightarrow> ('sem, 'ch) manager" where
  "manager_cleanup P k m =
     (case bm_in_flight m k of
        Some i \<Rightarrow> m\<lparr>bm_in_flight := (bm_in_flight m)(k := None),
                    bm_chan := (bm_chan m)(i := so_close P (bm_chan m i))\<rparr>
      | None \<Rightarrow> m)"

text \<open>Dropping an \<open>OwnedSemaphorePermit\<close>.\<close>

definition permit_drop ::
  "('sem, 'ch, 'rx, 'm) sync_ops \<Rightarrow> nat \<Rightarrow> ('sem, 'ch) manager \<Rightarrow> ('sem, 'ch) manager" where
  "permit_drop P i m = m\<lparr>bm_sem := (bm_sem m)(i := so_sem_release P (bm_sem m i))\<rparr>"

text \<open>One poll of the future a waiter awaits: \<open>None\<close> while it is pending.  The future awaits twice, the message
  and then \<open>from_cached\<close>; the second await is taken as one that is ready at its first poll, so
  the conversion is a function here.\<close>

definition await_poll ::
  "('sem, 'ch, 'rx, 'c cache_value) sync_ops \<Rightarrow> ('c \<Rightarrow> 'res) \<Rightarrow> nat \<Rightarrow> 'rx \<Rightarrow> ('sem, 'ch) manager
   \<Rightarrow> ('res, concurrency_error) result option \<times> 'rx" where
  "await_poll P from_cached i rx m =
     (case so_recv P rx (bm_chan m i) of
        (RecvOk v, rx') \<Rightarrow> (Some (Ok (from_cached (cv_data v))), rx')
      | (RecvLagged n, rx') \<Rightarrow> (Some (Err (Lagged n)), rx')
      | (RecvClosed, rx') \<Rightarrow> (Some (Err Closed), rx')
      | (RecvPending, rx') \<Rightarrow> (None, rx'))"

subsection \<open>The no-op manager\<close>

definition noop_check :: "cache_key \<Rightarrow> nat \<Rightarrow> 'rx decision" where
  "noop_check k concurrency = ProceedWithoutPermit"

definition noop_resolve :: "cache_key \<Rightarrow> 'm \<Rightarrow> 's \<Rightarrow> 's" where
  "noop_resolve k v s = s"

definition noop_cleanup :: "cache_key \<Rightarrow> 's \<Rightarrow> 's" where
  "noop_cleanup k s = s"

section \<open>Requests sharing the manager\<close>

text \<open>
  What a request does with the manager while it is served (hitbox/src/fsm/states.rs): after a miss
  it checks; with a permit, or without, it fetches from upstream; when the response is cacheable
  and it holds a permit it resolves, when it is not and it holds a permit it cleans up, and the
  permit is dropped with the state; as a waiter it takes the broadcast value, or fetches without a
  permit, cleaning up first when the channel was closed.  A request may also be cancelled at any
  point (its future dropped).
\<close>

datatype ('rx, 'm) client =
    Idle
  | Fetching cache_key "nat option"
  | Waiting cache_key nat 'rx
  | Served "'m option"
  | Cancelled

record ('sem, 'ch, 'rx, 'm) csys =
  cs_mgr :: "('sem, 'ch) manager"
  cs_client :: "nat \<Rightarrow> ('rx, 'm) client"

definition csys_init :: "('sem, 'ch, 'rx, 'm) sync_ops \<Rightarrow> ('sem, 'ch, 'rx, 'm) csys" where
  "csys_init P = \<lparr>cs_mgr = manager_new P, cs_client = (\<lambda>_. Idle)\<rparr>"

definition drop_opt ::
  "('sem, 'ch, 'rx, 'm) sync_ops \<Rightarrow> nat option \<Rightarrow> ('sem, 'ch) manager \<Rightarrow> ('sem, 'ch) manager" where
  "drop_opt P pm m = (case pm of Some i \<Rightarrow> permit_drop P i m | None \<Rightarrow> m)"

datatype 'm action =
    Start nat cache_key nat
  | FetchCacheable nat 'm
  | FetchNonCacheable nat
  | Wake nat
  | Cancel nat

text \<open>The actions as a function: \<open>None\<close> when the action is not enabled.\<close>

fun csys_act ::
  "('sem, 'ch, 'rx, 'm) sync_ops \<Rightarrow> 'm action \<Rightarrow> ('sem, 'ch, 'rx, 'm) csys
   \<Rightarrow> ('sem, 'ch, 'rx, 'm) csys option" where
  "csys_act P (Start r k lim) s =
     (if cs_client s r = Idle \<and> 1 \<le> lim \<and> lim \<le> 255 then
        case manager_check P k lim (cs_mgr s) of
          Some (Proceed i, m) \<Rightarrow> Some \<lparr>cs_mgr = m, cs_client = (cs_client s)(r := Fetching k (Some i))\<rparr>
        | Some (ProceedWithoutPermit, m) \<Rightarrow> Some \<lparr>cs_mgr = m, cs_client = (cs_client s)(r := Fetching k None)\<rparr>
        | Some (Await i rx, m) \<Rightarrow> Some \<lparr>cs_mgr = m, cs_client = (cs_client s)(r := Waiting k i rx)\<rparr>
        | None \<Rightarrow> None
      else None)"
| "csys_act P (FetchCacheable r v) s =
     (case cs_client s r of
        Fetching k pm \<Rightarrow>
          (let m = (if pm \<noteq> None then manager_resolve P k v (cs_mgr s) else cs_mgr s) in
           Some \<lparr>cs_mgr = drop_opt P pm m, cs_client = (cs_client s)(r := Served None)\<rparr>)
      | _ \<Rightarrow> None)"
| "csys_act P (FetchNonCacheable r) s =
     (case cs_client s r of
        Fetching k pm \<Rightarrow>
          (let m = (if pm \<noteq> None then manager_cleanup P k (cs_mgr s) else cs_mgr s) in
           Some \<lparr>cs_mgr = drop_opt P pm m, cs_client = (cs_client s)(r := Served None)\<rparr>)
      | _ \<Rightarrow> None)"
| "csys_act P (Wake r) s =
     (case cs_client s r of
        Waiting k i rx \<Rightarrow>
          (case so_recv P rx (bm_chan (cs_mgr s) i) of
             (RecvOk v, _) \<Rightarrow> Some \<lparr>cs_mgr = cs_mgr s, cs_client = (cs_client s)(r := Served (Some v))\<rparr>
           | (RecvLagged n, _) \<Rightarrow> Some \<lparr>cs_mgr = cs_mgr s, cs_client = (cs_client s)(r := Fetching k None)\<rparr>
           | (RecvClosed, _) \<Rightarrow>
               Some \<lparr>cs_mgr = manager_cleanup P k (cs_mgr s), cs_client = (cs_client s)(r := Fetching k None)\<rparr>
           | (RecvPending, _) \<Rightarrow> None)
      | _ \<Rightarrow> None)"
| "csys_act P (Cancel r) s =
     (case cs_client s r of
        Fetching k pm \<Rightarrow> Some \<lparr>cs_mgr = drop_opt P pm (cs_mgr s), cs_client = (cs_client s)(r := Cancelled)\<rparr>
      | Waiting k i rx \<Rightarrow> Some \<lparr>cs_mgr = cs_mgr s, cs_client = (cs_client s)(r := Cancelled)\<rparr>
      | _ \<Rightarrow> None)"

fun is_cancel :: "'m action \<Rightarrow> bool" where
  "is_cancel (Cancel r) = True"
| "is_cancel _ = False"

fun csys_run ::
  "('sem, 'ch, 'rx, 'm) sync_ops \<Rightarrow> 'm action list \<Rightarrow> ('sem, 'ch, 'rx, 'm) csys
   \<Rightarrow> ('sem, 'ch, 'rx, 'm) csys option" where
  "csys_run P [] s = Some s"
| "csys_run P (a # as) s = Option.bind (csys_act P a s) (csys_run P as)"

text \<open>States the system reaches when every request asks for a limit of at most \<open>L\<close>; the flag says
  whether requests may be cancelled.\<close>

fun action_ok :: "bool \<Rightarrow> nat \<Rightarrow> 'm action \<Rightarrow> bool" where
  "action_ok cancels L (Start r k lim) = (lim \<le> L)"
| "action_ok cancels L (Cancel r) = cancels"
| "action_ok cancels L _ = True"

inductive csys_reach ::
  "('sem, 'ch, 'rx, 'm) sync_ops \<Rightarrow> bool \<Rightarrow> nat \<Rightarrow> ('sem, 'ch, 'rx, 'm) csys \<Rightarrow> bool"
  for P cancels L where
  reach_init: "csys_reach P cancels L (csys_init P)"
| reach_step: "csys_reach P cancels L s \<Longrightarrow> action_ok cancels L a \<Longrightarrow> csys_act P a s = Some s'
    \<Longrightarrow> csys_reach P cancels L s'"

definition holders :: "nat \<Rightarrow> (nat \<Rightarrow> ('rx, 'm) client) \<Rightarrow> nat set" where
  "holders i cl = {r. \<exists>k. cl r = Fetching k (Some i)}"

lemma holders_upd:
  "holders i (cl(r := c)) = (if \<exists>k. c = Fetching k (Some i) then insert r (holders i cl) else holders i cl - {r})"
  by (auto simp: holders_def)

lemma not_holder:
  "cl r = Idle \<Longrightarrow> r \<notin> holders i cl"
  "cl r = Waiting k j rx \<Longrightarrow> r \<notin> holders i cl"
  "cl r = Fetching k None \<Longrightarrow> r \<notin> holders i cl"
  "cl r = Fetching k (Some j) \<Longrightarrow> i \<noteq> j \<Longrightarrow> r \<notin> holders i cl"
  by (auto simp: holders_def)

section \<open>What the primitives promise\<close>

locale sync_laws =
  fixes P :: "('sem, 'ch, 'rx, 'm) sync_ops"
    and avail :: "'sem \<Rightarrow> nat" and closed :: "'ch \<Rightarrow> bool" and cap :: "'ch \<Rightarrow> nat"
    and attached :: "'rx \<Rightarrow> 'ch \<Rightarrow> bool" and unread :: "'rx \<Rightarrow> 'ch \<Rightarrow> 'm list"
  assumes sem_new: "avail (so_sem_new P n) = n"
    and sem_try_None: "so_sem_try P t = None \<longleftrightarrow> avail t = 0"
    and sem_try_Some: "so_sem_try P t = Some t' \<Longrightarrow> avail t = Suc (avail t')"
    and sem_release: "avail (so_sem_release P t) = Suc (avail t)"
    and ch_new: "\<not> closed (so_ch_new P n)" "cap (so_ch_new P n) = n"
    and subscribe: "so_subscribe P ch = (rx, ch') \<Longrightarrow>
          attached rx ch' \<and> unread rx ch' = [] \<and> closed ch' = closed ch \<and> cap ch' = cap ch
          \<and> (\<forall>y. attached y ch \<longrightarrow> attached y ch' \<and> unread y ch' = unread y ch)"
    and send: "attached rx ch \<Longrightarrow> attached rx (so_send P v ch) \<and> unread rx (so_send P v ch) = unread rx ch @ [v]"
          "closed (so_send P v ch) = closed ch" "cap (so_send P v ch) = cap ch"
    and close: "attached rx ch \<Longrightarrow> attached rx (so_close P ch) \<and> unread rx (so_close P ch) = unread rx ch"
          "closed (so_close P ch)" "cap (so_close P ch) = cap ch"
    and recv: "attached rx ch \<Longrightarrow> fst (so_recv P rx ch) =
          (if unread rx ch = [] then (if closed ch then RecvClosed else RecvPending)
           else if cap ch < length (unread rx ch) then RecvLagged (length (unread rx ch) - cap ch)
           else RecvOk (hd (unread rx ch)))"
begin

subsection \<open>The manager on its own\<close>

lemma check_vacant:
  assumes "bm_in_flight m k = None" "1 \<le> lim"
  obtains t where "manager_check P k lim m =
      Some (Proceed (bm_next m),
        m\<lparr>bm_in_flight := (bm_in_flight m)(k \<mapsto> bm_next m), bm_sem := (bm_sem m)(bm_next m := t),
          bm_chan := (bm_chan m)(bm_next m := so_ch_new P channel_capacity), bm_next := Suc (bm_next m)\<rparr>)"
    "Suc (avail t) = lim"
proof -
  obtain t where t: "so_sem_try P (so_sem_new P lim) = Some t"
    using sem_try_None [of "so_sem_new P lim"] assms(2) by (auto simp: sem_new)
  with that show ?thesis
    using assms(1) sem_try_Some [OF t] by (auto simp: manager_check_def Let_def sem_new)
qed

lemma check_occupied_free:
  assumes "bm_in_flight m k = Some i" "0 < avail (bm_sem m i)"
  obtains t where "manager_check P k lim m = Some (Proceed i, m\<lparr>bm_sem := (bm_sem m)(i := t)\<rparr>)"
    "Suc (avail t) = avail (bm_sem m i)"
proof -
  obtain t where t: "so_sem_try P (bm_sem m i) = Some t"
    using sem_try_None [of "bm_sem m i"] assms(2) by auto
  with that show ?thesis
    using assms(1) sem_try_Some [OF t] by (auto simp: manager_check_def)
qed

lemma check_occupied_full:
  assumes "bm_in_flight m k = Some i" "avail (bm_sem m i) = 0"
  obtains rx ch where "manager_check P k lim m = Some (Await i rx, m\<lparr>bm_chan := (bm_chan m)(i := ch)\<rparr>)"
    "so_subscribe P (bm_chan m i) = (rx, ch)"
proof -
  obtain rx ch where sub: "so_subscribe P (bm_chan m i) = (rx, ch)" by fastforce
  with that show ?thesis
    using assms sem_try_None [of "bm_sem m i"] by (auto simp: manager_check_def)
qed

text \<open>The code's \<open>expect\<close> on the first permit never fires.\<close>

lemma check_total: "1 \<le> lim \<Longrightarrow> manager_check P k lim m \<noteq> None"
proof (cases "bm_in_flight m k")
  case None
  assume "1 \<le> lim"
  then show ?thesis using check_vacant [OF None] by (metis option.distinct(1))
next
  case (Some i)
  show ?thesis
    using check_occupied_free [OF Some] check_occupied_full [OF Some]
    by (metis gr0I option.distinct(1))
qed

subsection \<open>The invariant of the system\<close>

definition entries_ok :: "('sem, 'ch) manager \<Rightarrow> bool" where
  "entries_ok m \<longleftrightarrow>
     (\<forall>k i. bm_in_flight m k = Some i \<longrightarrow> i < bm_next m \<and> \<not> closed (bm_chan m i))
     \<and> (\<forall>k k' i. bm_in_flight m k = Some i \<and> bm_in_flight m k' = Some i \<longrightarrow> k = k')
     \<and> (\<forall>i<bm_next m. cap (bm_chan m i) = 1)"

definition permits_ok :: "nat \<Rightarrow> ('sem, 'ch) manager \<Rightarrow> (nat \<Rightarrow> ('rx, 'm) client) \<Rightarrow> bool" where
  "permits_ok L m cl \<longleftrightarrow>
     (\<forall>r k i. cl r = Fetching k (Some i) \<longrightarrow> i < bm_next m)
     \<and> (\<forall>i<bm_next m. finite (holders i cl) \<and> avail (bm_sem m i) + card (holders i cl) \<le> L)"

definition waiters_ok :: "('sem, 'ch) manager \<Rightarrow> (nat \<Rightarrow> ('rx, 'm) client) \<Rightarrow> bool" where
  "waiters_ok m cl \<longleftrightarrow>
     (\<forall>r k i rx. cl r = Waiting k i rx \<longrightarrow> i < bm_next m \<and> attached rx (bm_chan m i) \<and>
        (bm_in_flight m k = Some i \<and> unread rx (bm_chan m i) = []
         \<or> closed (bm_chan m i) \<and> length (unread rx (bm_chan m i)) \<le> 1))"

definition covered :: "('sem, 'ch) manager \<Rightarrow> (nat \<Rightarrow> ('rx, 'm) client) \<Rightarrow> bool" where
  "covered m cl \<longleftrightarrow> (\<forall>k i. bm_in_flight m k = Some i \<longrightarrow> (\<exists>r. cl r = Fetching k (Some i)))"

definition sys_ok :: "bool \<Rightarrow> nat \<Rightarrow> ('sem, 'ch, 'rx, 'm) csys \<Rightarrow> bool" where
  "sys_ok cancels L s \<longleftrightarrow>
     entries_ok (cs_mgr s) \<and> permits_ok L (cs_mgr s) (cs_client s) \<and> waiters_ok (cs_mgr s) (cs_client s)
     \<and> (cancels \<or> covered (cs_mgr s) (cs_client s))"

lemmas ok_defs = entries_ok_def permits_ok_def waiters_ok_def covered_def

text \<open>Taking an entry out of the map, with or without a broadcast.\<close>

lemma resolve_fields [simp]:
  "bm_next (manager_resolve P k v m) = bm_next m" "bm_sem (manager_resolve P k v m) = bm_sem m"
  "bm_in_flight (manager_resolve P k v m) = (bm_in_flight m)(k := None)"
  by (auto simp: manager_resolve_def split: option.split)

lemma cleanup_fields [simp]:
  "bm_next (manager_cleanup P k m) = bm_next m" "bm_sem (manager_cleanup P k m) = bm_sem m"
  "bm_in_flight (manager_cleanup P k m) = (bm_in_flight m)(k := None)"
  by (auto simp: manager_cleanup_def split: option.split)

lemma drop_fields [simp]:
  "bm_next (drop_opt P pm m) = bm_next m" "bm_chan (drop_opt P pm m) = bm_chan m"
  "bm_in_flight (drop_opt P pm m) = bm_in_flight m"
  by (auto simp: drop_opt_def permit_drop_def split: option.split)

lemma entries_remove:
  assumes "entries_ok m"
  shows "entries_ok (manager_resolve P k v m)" "entries_ok (manager_cleanup P k m)"
  using assms unfolding entries_ok_def manager_resolve_def manager_cleanup_def
  by (auto simp: send close split: option.split if_splits)

lemma waiters_close:
  assumes "entries_ok m" "waiters_ok m cl" and i: "bm_in_flight m k = Some i"
    and ch: "closed ch" "\<And>rx. attached rx (bm_chan m i) \<Longrightarrow> unread rx (bm_chan m i) = []
        \<Longrightarrow> attached rx ch \<and> length (unread rx ch) \<le> 1"
  shows "waiters_ok (m\<lparr>bm_in_flight := (bm_in_flight m)(k := None), bm_chan := (bm_chan m)(i := ch)\<rparr>) cl"
    (is "waiters_ok ?m cl")
  unfolding waiters_ok_def
proof (intro allI impI)
  fix r k' j rx assume w: "cl r = Waiting k' j rx"
  have u: "j < bm_next m" "attached rx (bm_chan m j)" "bm_in_flight m k' = Some j \<and> unread rx (bm_chan m j) = []
       \<or> closed (bm_chan m j) \<and> length (unread rx (bm_chan m j)) \<le> 1"
    using assms(2) w unfolding waiters_ok_def by blast+
  show "j < bm_next ?m \<and> attached rx (bm_chan ?m j) \<and> (bm_in_flight ?m k' = Some j \<and> unread rx (bm_chan ?m j) = []
       \<or> closed (bm_chan ?m j) \<and> length (unread rx (bm_chan ?m j)) \<le> 1)"
  proof (cases "j = i")
    case True
    have "\<not> closed (bm_chan m i)" using assms(1) i unfolding entries_ok_def by blast
    then have "unread rx (bm_chan m i) = []" using u(3) True by blast
    then show ?thesis using True u(1,2) ch by simp
  next
    case False
    then have "bm_in_flight m k' = Some j \<Longrightarrow> k' \<noteq> k" using i by auto
    then show ?thesis using False u by auto
  qed
qed

lemma waiters_resolve:
  assumes "entries_ok m" "waiters_ok m cl"
  shows "waiters_ok (manager_resolve P k v m) cl"
  using assms waiters_close [OF assms]
  by (cases "bm_in_flight m k") (simp_all add: manager_resolve_def send close)

lemma waiters_cleanup:
  assumes "entries_ok m" "waiters_ok m cl"
  shows "waiters_ok (manager_cleanup P k m) cl"
  using assms waiters_close [OF assms]
  by (cases "bm_in_flight m k") (simp_all add: manager_cleanup_def close)

lemma waiters_upd:
  "waiters_ok m cl \<Longrightarrow> (\<And>k i rx. c \<noteq> Waiting k i rx) \<Longrightarrow> waiters_ok m (cl(r := c))"
  unfolding waiters_ok_def by auto

lemma permits_remove:
  "permits_ok L (manager_resolve P k v m) cl = permits_ok L m cl"
  "permits_ok L (manager_cleanup P k m) cl = permits_ok L m cl"
  by (auto simp: permits_ok_def)

lemma permits_release:
  assumes "permits_ok L m cl" "cl r = Fetching k pm" "\<And>k i. c \<noteq> Fetching k (Some i)"
  shows "permits_ok L (drop_opt P pm m) (cl(r := c))"
proof -
  have "finite (holders i (cl(r := c))) \<and>
      avail (bm_sem (drop_opt P pm m) i) + card (holders i (cl(r := c))) \<le> L" if "i < bm_next m" for i
  proof -
    have f: "finite (holders i cl)" and b: "avail (bm_sem m i) + card (holders i cl) \<le> L"
      using assms(1) that unfolding permits_ok_def by auto
    show ?thesis
    proof (cases "pm = Some i")
      case True
      then have "r \<in> holders i cl" using assms(2) by (auto simp: holders_def)
      with f have "card (holders i cl) = Suc (card (holders i cl - {r}))"
        by (rule card.remove)
      with b have "Suc (avail (bm_sem m i)) + card (holders i cl - {r}) \<le> L" by linarith
      moreover have "holders i (cl(r := c)) = holders i cl - {r}"
        using assms(3) by (auto simp: holders_upd)
      moreover have "avail (bm_sem (drop_opt P pm m) i) = Suc (avail (bm_sem m i))"
        using True by (simp add: drop_opt_def permit_drop_def sem_release)
      ultimately show ?thesis using f by (simp only: finite_Diff)
    next
      case False
      then have "r \<notin> holders i cl" using assms(2) by (auto simp: holders_def)
      then show ?thesis
        using False f b assms(3)
        by (simp add: holders_upd drop_opt_def permit_drop_def split: option.split)
    qed
  qed
  moreover have "\<forall>r' k' i. (cl(r := c)) r' = Fetching k' (Some i) \<longrightarrow> i < bm_next m"
    using assms(1,3) unfolding permits_ok_def by auto
  ultimately show ?thesis unfolding permits_ok_def by simp
qed

lemma permits_upd:
  assumes "permits_ok L m cl" "\<And>i. r \<notin> holders i cl" "\<And>k i. c \<noteq> Fetching k (Some i)"
  shows "permits_ok L m (cl(r := c))"
  using assms unfolding permits_ok_def by (auto simp: holders_upd)

lemma entries_check:
  assumes "entries_ok m"
  shows "entries_ok (m\<lparr>bm_in_flight := (bm_in_flight m)(k \<mapsto> bm_next m), bm_sem := S,
      bm_chan := (bm_chan m)(bm_next m := so_ch_new P channel_capacity), bm_next := Suc (bm_next m)\<rparr>)"
    "entries_ok (m\<lparr>bm_sem := S\<rparr>)"
    "so_subscribe P (bm_chan m i) = (rx, ch) \<Longrightarrow> entries_ok (m\<lparr>bm_chan := (bm_chan m)(i := ch)\<rparr>)"
  using assms unfolding entries_ok_def channel_capacity_def
  by (auto simp: ch_new less_Suc_eq dest: subscribe)

lemma start_vacant:
  assumes "entries_ok m" "permits_ok L m cl" "waiters_ok m cl" "cl r = Idle" "Suc (avail t) \<le> L"
    and m'_def: "m' = m\<lparr>bm_in_flight := (bm_in_flight m)(k \<mapsto> bm_next m), bm_sem := (bm_sem m)(bm_next m := t),
      bm_chan := (bm_chan m)(bm_next m := so_ch_new P channel_capacity), bm_next := Suc (bm_next m)\<rparr>"
  shows "bm_in_flight m k = None \<Longrightarrow> waiters_ok m' (cl(r := Fetching k (Some (bm_next m))))"
    "permits_ok L m' (cl(r := Fetching k (Some (bm_next m))))"
proof -
  have none: "holders (bm_next m) cl = {}"
    using assms(2) unfolding permits_ok_def holders_def by auto
  have r: "r \<notin> holders i cl" for i using assms(4) by (simp add: not_holder)
  show "permits_ok L m' (cl(r := Fetching k (Some (bm_next m))))"
    using assms(2,5) none r unfolding permits_ok_def m'_def
    by (auto simp: holders_upd less_Suc_eq)
  show "waiters_ok m' (cl(r := Fetching k (Some (bm_next m))))" if "bm_in_flight m k = None"
    unfolding waiters_ok_def
  proof (intro allI impI)
    fix r' k' j rx assume "(cl(r := Fetching k (Some (bm_next m)))) r' = Waiting k' j rx"
    then have "cl r' = Waiting k' j rx" by (auto split: if_splits)
    then have "j < bm_next m \<and> attached rx (bm_chan m j) \<and> (bm_in_flight m k' = Some j \<and> unread rx (bm_chan m j) = []
         \<or> closed (bm_chan m j) \<and> length (unread rx (bm_chan m j)) \<le> 1)"
      using assms(3) unfolding waiters_ok_def by blast
    then show "j < bm_next m' \<and> attached rx (bm_chan m' j) \<and> (bm_in_flight m' k' = Some j \<and> unread rx (bm_chan m' j) = []
         \<or> closed (bm_chan m' j) \<and> length (unread rx (bm_chan m' j)) \<le> 1)"
      using that by (auto simp: m'_def)
  qed
qed

lemma start_free:
  assumes "permits_ok L m cl" "waiters_ok m cl" "cl r = Idle" "bm_in_flight m k = Some i" "i < bm_next m"
    "Suc (avail t) = avail (bm_sem m i)"
    and m'_def: "m' = m\<lparr>bm_sem := (bm_sem m)(i := t)\<rparr>"
  shows "waiters_ok m' (cl(r := Fetching k (Some i)))" "permits_ok L m' (cl(r := Fetching k (Some i)))"
proof -
  have r: "r \<notin> holders j cl" for j using assms(3) by (simp add: not_holder)
  have b: "finite (holders i cl)" "avail (bm_sem m i) + card (holders i cl) \<le> L"
    using assms(1,5) unfolding permits_ok_def by auto
  show "permits_ok L m' (cl(r := Fetching k (Some i)))"
    using assms(1,5,6) r b unfolding permits_ok_def m'_def by (auto simp: holders_upd)
  have "waiters_ok m' cl" using assms(2) unfolding waiters_ok_def m'_def by auto
  then show "waiters_ok m' (cl(r := Fetching k (Some i)))" by (rule waiters_upd) simp
qed

lemma start_full:
  assumes "entries_ok m" "permits_ok L m cl" "waiters_ok m cl" "cl r = Idle" "bm_in_flight m k = Some i"
    "so_subscribe P (bm_chan m i) = (rx, ch)"
    and m'_def: "m' = m\<lparr>bm_chan := (bm_chan m)(i := ch)\<rparr>"
  shows "waiters_ok m' (cl(r := Waiting k i rx))" "permits_ok L m' (cl(r := Waiting k i rx))"
proof -
  have sub: "attached rx ch" "unread rx ch = []" "closed ch = closed (bm_chan m i)"
    "\<And>y. attached y (bm_chan m i) \<Longrightarrow> attached y ch \<and> unread y ch = unread y (bm_chan m i)"
    using subscribe [OF assms(6)] by auto
  have i: "i < bm_next m" using assms(1,5) unfolding entries_ok_def by blast
  have "permits_ok L m' cl" using assms(2) unfolding permits_ok_def m'_def by simp
  then show "permits_ok L m' (cl(r := Waiting k i rx))"
    by (rule permits_upd) (use assms(4) in \<open>simp_all add: not_holder\<close>)
  show "waiters_ok m' (cl(r := Waiting k i rx))"
    using assms(3,5) sub i unfolding waiters_ok_def m'_def by auto
qed

lemma sys_ok_init: "sys_ok cancels L (csys_init P)"
  by (auto simp: sys_ok_def ok_defs csys_init_def manager_new_def)

lemma covered_release:
  assumes "covered m cl" "entries_ok m" "cl r = Fetching k pm"
    "bm_in_flight m' = (if pm = None then bm_in_flight m else (bm_in_flight m)(k := None))"
  shows "covered m' (cl(r := Served x))"
  unfolding covered_def
proof (intro allI impI)
  fix k' i assume k': "bm_in_flight m' k' = Some i"
  then have ki: "bm_in_flight m k' = Some i" "pm \<noteq> None \<Longrightarrow> k' \<noteq> k"
    using assms(4) by (auto split: if_splits)
  then obtain r' where r': "cl r' = Fetching k' (Some i)" using assms(1) unfolding covered_def by blast
  have "r' \<noteq> r" using r' ki(2) assms(3) by auto
  then show "\<exists>r'. (cl(r := Served x)) r' = Fetching k' (Some i)" using r' by auto
qed

lemma covered_start:
  assumes "covered m cl" "cl r = Idle" "bm_in_flight m' = (bm_in_flight m)(k \<mapsto> i)" "c = Fetching k (Some i) \<or> bm_in_flight m k = Some i"
  shows "covered m' (cl(r := c))"
  unfolding covered_def
proof (intro allI impI)
  fix k' j assume j: "bm_in_flight m' k' = Some j"
  show "\<exists>r'. (cl(r := c)) r' = Fetching k' (Some j)"
  proof (cases "bm_in_flight m k' = Some j")
    case True
    then obtain r' where "cl r' = Fetching k' (Some j)" using assms(1) unfolding covered_def by blast
    moreover have "r' \<noteq> r" using calculation assms(2) by auto
    ultimately show ?thesis by auto
  next
    case False
    then have "k' = k" "j = i" using j assms(3) by (auto split: if_splits)
    then show ?thesis using assms(4) False by auto
  qed
qed

lemma covered_wake:
  assumes "covered m cl" "cl r = Waiting k j rx"
    "bm_in_flight m' = bm_in_flight m \<or> bm_in_flight m' = (bm_in_flight m)(k := None)"
  shows "covered m' (cl(r := c))"
  unfolding covered_def
proof (intro allI impI)
  fix k' i assume "bm_in_flight m' k' = Some i"
  then have "bm_in_flight m k' = Some i" using assms(3) by (auto split: if_splits)
  then obtain r' where r': "cl r' = Fetching k' (Some i)" using assms(1) unfolding covered_def by blast
  then have "r' \<noteq> r" using assms(2) by auto
  then show "\<exists>r'. (cl(r := c)) r' = Fetching k' (Some i)" using r' by auto
qed

lemma sys_ok_start:
  assumes ok: "sys_ok cancels L s" and "lim \<le> L" and step: "csys_act P (Start r k lim) s = Some s'"
  shows "sys_ok cancels L s'"
proof -
  let ?m = "cs_mgr s" and ?cl = "cs_client s"
  have e: "entries_ok ?m" and p: "permits_ok L ?m ?cl" and w: "waiters_ok ?m ?cl"
    and c: "cancels \<or> covered ?m ?cl" using ok unfolding sys_ok_def by auto
  have idle: "?cl r = Idle" and lim: "1 \<le> lim" using step by (auto split: if_splits)
  show ?thesis
  proof (cases "bm_in_flight ?m k")
    case None
    obtain t where chk: "manager_check P k lim ?m = Some (Proceed (bm_next ?m),
        ?m\<lparr>bm_in_flight := (bm_in_flight ?m)(k \<mapsto> bm_next ?m), bm_sem := (bm_sem ?m)(bm_next ?m := t),
          bm_chan := (bm_chan ?m)(bm_next ?m := so_ch_new P channel_capacity), bm_next := Suc (bm_next ?m)\<rparr>)"
      and t: "Suc (avail t) = lim" by (rule check_vacant [OF None lim])
    have "Suc (avail t) \<le> L" using t assms(2) by simp
    then show ?thesis
      using step chk idle entries_check(1) [OF e] start_vacant [OF e p w idle _ refl, of t k] None c
        covered_start [where cl = ?cl and r = r and m = ?m and k = k and i = "bm_next ?m"
            and c = "Fetching k (Some (bm_next ?m))", OF _ idle]
      unfolding sys_ok_def by (auto split: if_splits)
  next
    case (Some i)
    have i: "i < bm_next ?m" using e Some unfolding entries_ok_def by blast
    have in_same: "bm_in_flight ?m = (bm_in_flight ?m)(k \<mapsto> i)" using Some by auto
    show ?thesis
    proof (cases "avail (bm_sem ?m i) = 0")
      case True
      obtain rx ch where chk: "manager_check P k lim ?m = Some (Await i rx, ?m\<lparr>bm_chan := (bm_chan ?m)(i := ch)\<rparr>)"
        and sub: "so_subscribe P (bm_chan ?m i) = (rx, ch)" by (rule check_occupied_full [OF Some True])
      show ?thesis
        using step chk idle entries_check(3) [OF e sub] start_full [OF e p w idle Some sub refl] c
          covered_start [where cl = ?cl and r = r and m = ?m and k = k and i = i and c = "Waiting k i rx"
              and m' = "?m\<lparr>bm_chan := (bm_chan ?m)(i := ch)\<rparr>", OF _ idle] in_same Some
        unfolding sys_ok_def by (auto split: if_splits)
    next
      case False
      then have "0 < avail (bm_sem ?m i)" by simp
      then obtain t where chk: "manager_check P k lim ?m = Some (Proceed i, ?m\<lparr>bm_sem := (bm_sem ?m)(i := t)\<rparr>)"
        and t: "Suc (avail t) = avail (bm_sem ?m i)" by (rule check_occupied_free [OF Some])
      show ?thesis
        using step chk idle entries_check(2) [OF e] start_free [OF p w idle Some i t refl] c
          covered_start [where cl = ?cl and r = r and m = ?m and k = k and i = i and c = "Fetching k (Some i)"
              and m' = "?m\<lparr>bm_sem := (bm_sem ?m)(i := t)\<rparr>", OF _ idle] in_same
        unfolding sys_ok_def by (auto split: if_splits)
    qed
  qed
qed

lemma waiters_drop: "waiters_ok (drop_opt P pm m) cl = waiters_ok m cl"
  and entries_drop: "entries_ok (drop_opt P pm m) = entries_ok m"
  unfolding waiters_ok_def entries_ok_def by simp_all

lemma sys_ok_fetch:
  assumes ok: "sys_ok cancels L s" and cl: "cs_client s r = Fetching k pm"
    and m: "m' = cs_mgr s \<and> pm = None \<or> m' = manager_resolve P k v (cs_mgr s) \<and> pm \<noteq> None
            \<or> m' = manager_cleanup P k (cs_mgr s) \<and> pm \<noteq> None"
  shows "sys_ok cancels L \<lparr>cs_mgr = drop_opt P pm m', cs_client = (cs_client s)(r := Served x)\<rparr>"
proof -
  let ?m = "cs_mgr s" and ?cl = "cs_client s"
  have e: "entries_ok ?m" and p: "permits_ok L ?m ?cl" and w: "waiters_ok ?m ?cl"
    and c: "cancels \<or> covered ?m ?cl" using ok unfolding sys_ok_def by auto
  have "entries_ok m'" using m e entries_remove by auto
  moreover have "permits_ok L (drop_opt P pm m') (?cl(r := Served x))"
    by (rule permits_release) (use m p permits_remove cl in auto)
  moreover have "waiters_ok m' ?cl" using m w waiters_resolve [OF e w] waiters_cleanup [OF e w] by auto
  moreover have "covered (drop_opt P pm m') (?cl(r := Served x))" if "covered ?m ?cl"
    by (rule covered_release [OF that e cl]) (use m in auto)
  ultimately show ?thesis
    using c unfolding sys_ok_def by (auto simp: waiters_drop entries_drop intro: waiters_upd)
qed

lemma sys_ok_wake:
  assumes ok: "sys_ok cancels L s" and cl: "cs_client s r = Waiting k i rx"
    and m: "m' = cs_mgr s \<or> m' = manager_cleanup P k (cs_mgr s)"
    and c': "c = Served x \<or> c = Fetching k None"
  shows "sys_ok cancels L \<lparr>cs_mgr = m', cs_client = (cs_client s)(r := c)\<rparr>"
proof -
  let ?m = "cs_mgr s" and ?cl = "cs_client s"
  have e: "entries_ok ?m" and p: "permits_ok L ?m ?cl" and w: "waiters_ok ?m ?cl"
    and c: "cancels \<or> covered ?m ?cl" using ok unfolding sys_ok_def by auto
  have "entries_ok m'" using m e entries_remove by auto
  moreover have "permits_ok L m' (?cl(r := c))"
    by (rule permits_upd) (use m p permits_remove cl c' in \<open>auto simp: not_holder\<close>)
  moreover have "waiters_ok m' (?cl(r := c))"
    by (rule waiters_upd) (use m w waiters_cleanup [OF e w] c' in auto)
  moreover have "covered m' (?cl(r := c))" if "covered ?m ?cl"
    by (rule covered_wake [OF that cl]) (use m in auto)
  ultimately show ?thesis using c unfolding sys_ok_def by auto
qed

lemma sys_ok_cancel:
  assumes ok: "sys_ok True L s" and step: "csys_act P (Cancel r) s = Some s'"
  shows "sys_ok True L s'"
proof -
  have e: "entries_ok (cs_mgr s)" and p: "permits_ok L (cs_mgr s) (cs_client s)"
    and w: "waiters_ok (cs_mgr s) (cs_client s)" using ok unfolding sys_ok_def by auto
  show ?thesis
  proof (cases "cs_client s r")
    case (Fetching k pm)
    then show ?thesis
      using step e permits_release [OF p Fetching, of Cancelled] waiters_upd [OF w, of Cancelled r]
      unfolding sys_ok_def by (auto simp: waiters_drop entries_drop)
  next
    case (Waiting k i rx)
    then show ?thesis
      using step e permits_upd [OF p, of r Cancelled] waiters_upd [OF w, of Cancelled r]
      unfolding sys_ok_def by (auto simp: not_holder)
  qed (use step in auto)
qed

lemma sys_ok_step:
  assumes ok: "sys_ok cancels L s" and a: "action_ok cancels L a" and step: "csys_act P a s = Some s'"
  shows "sys_ok cancels L s'"
proof (cases a)
  case (Start r k lim)
  then show ?thesis using sys_ok_start [OF ok] a step by simp
next
  case (FetchCacheable r v)
  then show ?thesis
    using step sys_ok_fetch [OF ok, of r _ _ _ v] by (auto simp: Let_def split: client.splits)
next
  case (FetchNonCacheable r)
  then show ?thesis
    using step sys_ok_fetch [OF ok, of r] by (auto simp: Let_def split: client.splits)
next
  case (Wake r)
  then show ?thesis
    using step sys_ok_wake [OF ok, of r] by (auto split: client.splits prod.splits recv.splits)
next
  case (Cancel r)
  then show ?thesis using sys_ok_cancel ok a step by simp
qed

lemma sys_ok_reach: "csys_reach P cancels L s \<Longrightarrow> sys_ok cancels L s"
  by (induction rule: csys_reach.induct) (auto intro: sys_ok_init sys_ok_step)

subsection \<open>Consequences\<close>

lemma reach_holders:
  assumes "csys_reach P cancels L s"
  shows "finite (holders i (cs_client s)) \<and> card (holders i (cs_client s)) \<le> L"
proof (cases "i < bm_next (cs_mgr s)")
  case True
  then show ?thesis
    using sys_ok_reach [OF assms] unfolding sys_ok_def permits_ok_def by (meson add_leD2)
next
  case False
  then have "holders i (cs_client s) = {}"
    using sys_ok_reach [OF assms] unfolding sys_ok_def permits_ok_def holders_def by auto
  then show ?thesis by simp
qed

lemma waiter_wakeable:
  assumes ok: "sys_ok cancels L s" and w: "cs_client s r = Waiting k i rx"
  shows "bm_in_flight (cs_mgr s) k = Some i \<or> (\<exists>s'. csys_act P (Wake r) s = Some s' \<and>
           ((\<exists>v. cs_client s' r = Served (Some v)) \<or> cs_client s' r = Fetching k None))"
proof -
  have c: "cap (bm_chan (cs_mgr s) i) = 1"
    and u: "attached rx (bm_chan (cs_mgr s) i)"
      "bm_in_flight (cs_mgr s) k = Some i \<or> closed (bm_chan (cs_mgr s) i) \<and> length (unread rx (bm_chan (cs_mgr s) i)) \<le> 1"
    using ok w unfolding sys_ok_def entries_ok_def waiters_ok_def by blast+
  obtain o' rx' where rc: "so_recv P rx (bm_chan (cs_mgr s) i) = (o', rx')" by fastforce
  with recv [of rx "bm_chan (cs_mgr s) i"] u c w show ?thesis
    by (auto simp: fst_def split: if_splits)
qed

text \<open>Finishing the fetch of a permit holder, either way, leaves every waiter of its entry able to
  move.\<close>

lemma holder_frees_waiter:
  assumes ok: "sys_ok cancels L s" and h: "cs_client s h = Fetching k (Some i)"
    and w: "cs_client s r = Waiting k i rx"
    and step: "csys_act P (FetchCacheable h v) s = Some s' \<or> csys_act P (FetchNonCacheable h) s = Some s'"
  shows "\<exists>s''. csys_act P (Wake r) s' = Some s''"
proof -
  have "sys_ok cancels L s'"
    using step sys_ok_step [OF ok, of "FetchCacheable h v"] sys_ok_step [OF ok, of "FetchNonCacheable h"] by auto
  moreover have "cs_client s' r = Waiting k i rx" "bm_in_flight (cs_mgr s') k = None"
    using step h w by (auto simp: Let_def)
  ultimately show ?thesis using waiter_wakeable [of cancels L s' r k i rx] by auto
qed

lemma no_cancel_progress:
  assumes "csys_reach P False L s" and w: "cs_client s r = Waiting k i rx"
  shows "(\<exists>s'. csys_act P (Wake r) s = Some s') \<or>
    (\<exists>h. cs_client s h = Fetching k (Some i) \<and>
       (\<forall>v s'. csys_act P (FetchCacheable h v) s = Some s' \<or> csys_act P (FetchNonCacheable h) s = Some s'
          \<longrightarrow> (\<exists>s''. csys_act P (Wake r) s' = Some s'')))"
proof -
  have ok: "sys_ok False L s" using assms(1) by (rule sys_ok_reach)
  show ?thesis
  proof (cases "bm_in_flight (cs_mgr s) k = Some i")
    case True
    then obtain h where h: "cs_client s h = Fetching k (Some i)"
      using ok unfolding sys_ok_def covered_def by blast
    then show ?thesis using holder_frees_waiter [OF ok h w] by blast
  next
    case False
    then show ?thesis using waiter_wakeable [OF ok w] by blast
  qed
qed

subsection \<open>A burst of requests for one key\<close>

lemma burst_run:
  assumes "bm_in_flight (cs_mgr s) k = Some i" "distinct rs" "\<forall>r\<in>set rs. cs_client s r = Idle"
    and L: "1 \<le> L" "L \<le> 255"
  shows "\<exists>s'. csys_run P (map (\<lambda>r. Start r k L) rs) s = Some s' \<and>
     (\<forall>r\<in>set (take (avail (bm_sem (cs_mgr s) i)) rs). cs_client s' r = Fetching k (Some i)) \<and>
     (\<forall>r\<in>set (drop (avail (bm_sem (cs_mgr s) i)) rs). \<exists>rx. cs_client s' r = Waiting k i rx) \<and>
     (\<forall>r. r \<notin> set rs \<longrightarrow> cs_client s' r = cs_client s r) \<and> bm_in_flight (cs_mgr s') k = Some i"
  using assms(1-3)
proof (induction rs arbitrary: s)
  case Nil
  then show ?case by simp
next
  case (Cons r rs)
  let ?a = "avail (bm_sem (cs_mgr s) i)"
  have idle: "cs_client s r = Idle" using Cons.prems by simp
  show ?case
  proof (cases "?a = 0")
    case True
    obtain rx ch where chk: "manager_check P k L (cs_mgr s) =
        Some (Await i rx, (cs_mgr s)\<lparr>bm_chan := (bm_chan (cs_mgr s))(i := ch)\<rparr>)"
      by (rule check_occupied_full [OF Cons.prems(1) True])
    let ?s = "\<lparr>cs_mgr = (cs_mgr s)\<lparr>bm_chan := (bm_chan (cs_mgr s))(i := ch)\<rparr>,
               cs_client = (cs_client s)(r := Waiting k i rx)\<rparr>"
    have "csys_act P (Start r k L) s = Some ?s" using chk idle L by simp
    moreover have "\<forall>r'\<in>set rs. cs_client ?s r' = Idle" using Cons.prems by auto
    ultimately show ?thesis
      using Cons.IH [of ?s] Cons.prems True by auto
  next
    case False
    then obtain t where chk: "manager_check P k L (cs_mgr s) =
        Some (Proceed i, (cs_mgr s)\<lparr>bm_sem := (bm_sem (cs_mgr s))(i := t)\<rparr>)" and t: "Suc (avail t) = ?a"
      using check_occupied_free [OF Cons.prems(1)] by (metis gr0I)
    let ?s = "\<lparr>cs_mgr = (cs_mgr s)\<lparr>bm_sem := (bm_sem (cs_mgr s))(i := t)\<rparr>,
               cs_client = (cs_client s)(r := Fetching k (Some i))\<rparr>"
    have "csys_act P (Start r k L) s = Some ?s" using chk idle L by simp
    moreover have "\<forall>r'\<in>set rs. cs_client ?s r' = Idle" using Cons.prems by auto
    ultimately show ?thesis
      using Cons.IH [of ?s] Cons.prems t [symmetric] by auto
  qed
qed

lemma burst_from_init:
  assumes "distinct rs" "rs \<noteq> []" and L: "1 \<le> L" "L \<le> 255"
  shows "\<exists>s. csys_run P (map (\<lambda>r. Start r k L) rs) (csys_init P) = Some s \<and>
     (\<forall>r\<in>set (take L rs). cs_client s r = Fetching k (Some 0)) \<and>
     (\<forall>r\<in>set (drop L rs). \<exists>rx. cs_client s r = Waiting k 0 rx) \<and>
     (\<forall>r. r \<notin> set rs \<longrightarrow> cs_client s r = Idle) \<and> bm_in_flight (cs_mgr s) k = Some 0"
proof -
  obtain r rs' where rs: "rs = r # rs'" using assms(2) by (cases rs) auto
  obtain t where chk: "manager_check P k L (manager_new P) =
      Some (Proceed (bm_next (manager_new P)),
        (manager_new P)\<lparr>bm_in_flight := (bm_in_flight (manager_new P))(k \<mapsto> bm_next (manager_new P)),
          bm_sem := (bm_sem (manager_new P))(bm_next (manager_new P) := t),
          bm_chan := (bm_chan (manager_new P))(bm_next (manager_new P) := so_ch_new P channel_capacity),
          bm_next := Suc (bm_next (manager_new P))\<rparr>)"
    and t: "Suc (avail t) = L"
    by (rule check_vacant [of "manager_new P" k L]) (use L in \<open>auto simp: manager_new_def\<close>)
  obtain s1 where act: "csys_act P (Start r k L) (csys_init P) = Some s1"
    and s1: "bm_in_flight (cs_mgr s1) k = Some 0" "bm_sem (cs_mgr s1) 0 = t"
      "cs_client s1 = (\<lambda>_. Idle)(r := Fetching k (Some 0))"
    using chk L by (auto simp: csys_init_def manager_new_def)
  have "\<forall>r'\<in>set rs'. cs_client s1 r' = Idle" using assms(1) rs s1 by auto
  from burst_run [OF s1(1) _ this L] assms(1) rs obtain s where
    "csys_run P (map (\<lambda>r. Start r k L) rs') s1 = Some s"
    "\<forall>r\<in>set (take (avail t) rs'). cs_client s r = Fetching k (Some 0)"
    "\<forall>r\<in>set (drop (avail t) rs'). \<exists>rx. cs_client s r = Waiting k 0 rx"
    "\<forall>r. r \<notin> set rs' \<longrightarrow> cs_client s r = cs_client s1 r" "bm_in_flight (cs_mgr s) k = Some 0"
    using s1(2) by auto
  then show ?thesis
    using act rs s1(3) t [symmetric] assms(1) by (intro exI [of _ s]) auto
qed

lemma run_reach:
  "csys_reach P cancels L s \<Longrightarrow> csys_run P as s = Some s' \<Longrightarrow> list_all (action_ok cancels L) as
   \<Longrightarrow> csys_reach P cancels L s'"
  by (induction as arbitrary: s) (auto simp: bind_eq_Some_conv intro: reach_step)

lemma broadcast_reaches_waiter:
  assumes ok: "sys_ok cancels L s" and h: "cs_client s h = Fetching k (Some i)"
    and w: "cs_client s r = Waiting k i rx" and live: "bm_in_flight (cs_mgr s) k = Some i"
    and step: "csys_act P (FetchCacheable h v) s = Some s'"
  shows "\<exists>s''. csys_act P (Wake r) s' = Some s'' \<and> cs_client s'' r = Served (Some v)"
proof -
  have c: "cap (bm_chan (cs_mgr s) i) = 1" "\<not> closed (bm_chan (cs_mgr s) i)"
    using ok w live unfolding sys_ok_def entries_ok_def waiters_ok_def by blast+
  then have "unread rx (bm_chan (cs_mgr s) i) = []" "attached rx (bm_chan (cs_mgr s) i)"
    using ok w unfolding sys_ok_def waiters_ok_def by blast+
  then have u: "attached rx (bm_chan (cs_mgr s') i)" "unread rx (bm_chan (cs_mgr s') i) = [v]" "cap (bm_chan (cs_mgr s') i) = 1"
      "cs_client s' r = Waiting k i rx"
    using step h w live c(1) by (auto simp: manager_resolve_def send close)
  obtain o' rx' where rc: "so_recv P rx (bm_chan (cs_mgr s') i) = (o', rx')" by fastforce
  with recv [of rx "bm_chan (cs_mgr s') i"] u have "o' = RecvOk v" by simp
  then show ?thesis using rc u(4) by simp
qed

end

section \<open>Reference primitives\<close>

text \<open>A counting semaphore, and a channel that keeps every message sent with the position from
  which each receiver reads: an instance of the documented behaviour, on which the laws are
  discharged and the concrete runs below are evaluated.\<close>

record 'm ref_chan =
  rc_cap :: nat
  rc_sent :: "'m list"
  rc_closed :: bool

definition ref_ops :: "(nat, 'm ref_chan, nat, 'm) sync_ops" where
  "ref_ops =
     \<lparr>so_sem_new = (\<lambda>n. n), so_sem_try = (\<lambda>n. if n = 0 then None else Some (n - 1)), so_sem_release = Suc,
      so_ch_new = (\<lambda>c. \<lparr>rc_cap = c, rc_sent = [], rc_closed = False\<rparr>),
      so_subscribe = (\<lambda>ch. (length (rc_sent ch), ch)),
      so_send = (\<lambda>v ch. ch\<lparr>rc_sent := rc_sent ch @ [v]\<rparr>),
      so_close = (\<lambda>ch. ch\<lparr>rc_closed := True\<rparr>),
      so_recv = (\<lambda>pos ch.
        (let n = length (rc_sent ch) - pos in
         if n = 0 then (if rc_closed ch then RecvClosed else RecvPending, pos)
         else if rc_cap ch < n then (RecvLagged (n - rc_cap ch), pos + (n - rc_cap ch))
         else (RecvOk (rc_sent ch ! pos), Suc pos)))\<rparr>"

interpretation ref_sync: sync_laws ref_ops "\<lambda>n. n" rc_closed rc_cap
    "\<lambda>pos ch. pos \<le> length (rc_sent ch)" "\<lambda>pos ch. drop pos (rc_sent ch)"
  by unfold_locales
    (auto simp: ref_ops_def Let_def hd_drop_conv_nth split: if_splits)

section \<open>Properties\<close>

text \<open>C2. A burst of requests for one missing key: of \<open>n\<close> requests that arrive together with
  concurrency limit \<open>L\<close>, exactly the first \<open>L\<close> (or all, if fewer) go to upstream and every other
  one waits; and when any one of the fetchers gets a cacheable response, every waiter is served
  with that very value and calls upstream no more.\<close>

theorem burst_one_fetch_serves_all:
  assumes laws: "sync_laws P avail closed cap attached unread"
    and rs: "distinct rs" "rs \<noteq> []" and L: "1 \<le> L" "L \<le> 255"
  shows "\<exists>s. csys_run P (map (\<lambda>r. Start r k L) rs) (csys_init P) = Some s
    \<and> {r. \<exists>pm. cs_client s r = Fetching k pm} = set (take L rs)
    \<and> (\<forall>r\<in>set (drop L rs). \<exists>rx. cs_client s r = Waiting k 0 rx)
    \<and> (\<forall>h\<in>set (take L rs). \<forall>v. \<exists>s'. csys_act P (FetchCacheable h v) s = Some s' \<and>
         (\<forall>r\<in>set (drop L rs). \<exists>s''. csys_act P (Wake r) s' = Some s'' \<and> cs_client s'' r = Served (Some v)))"
proof -
  note facts = sync_laws.burst_from_init [OF laws rs L, of k] sync_laws.run_reach [OF laws]
    sync_laws.sys_ok_reach [OF laws] sync_laws.broadcast_reaches_waiter [OF laws]
  from facts(1) obtain s where s: "csys_run P (map (\<lambda>r. Start r k L) rs) (csys_init P) = Some s"
    "\<forall>r\<in>set (take L rs). cs_client s r = Fetching k (Some 0)"
    "\<forall>r\<in>set (drop L rs). \<exists>rx. cs_client s r = Waiting k 0 rx"
    "\<forall>r. r \<notin> set rs \<longrightarrow> cs_client s r = Idle" "bm_in_flight (cs_mgr s) k = Some 0" by blast
  have "csys_reach P False L s"
    using facts(2) [OF reach_init s(1)] by (simp add: list_all_iff)
  then have ok: "sync_laws.sys_ok avail closed cap attached unread False L s" by (rule facts(3))
  have "set rs = set (take L rs) \<union> set (drop L rs)" by (metis append_take_drop_id set_append)
  then have "{r. \<exists>pm. cs_client s r = Fetching k pm} = set (take L rs)"
    using s(2-4) by (auto, metis Un_iff client.distinct(1) client.distinct(9))
  moreover have "\<exists>s'. csys_act P (FetchCacheable h v) s = Some s' \<and>
         (\<forall>r\<in>set (drop L rs). \<exists>s''. csys_act P (Wake r) s' = Some s'' \<and> cs_client s'' r = Served (Some v))"
    if h: "h \<in> set (take L rs)" for h v
  proof -
    have hf: "cs_client s h = Fetching k (Some 0)" using s(2) h by blast
    then obtain s' where s': "csys_act P (FetchCacheable h v) s = Some s'" by simp
    then show ?thesis using facts(4) [OF ok hf _ s(5) s'] s(3) by blast
  qed
  ultimately show ?thesis using s(1,3) by blast
qed

theorem burst_one_fetch_serves_all_witness:
  "\<exists>s. csys_run ref_ops (map (\<lambda>r. Start r (cache_key_from_str ''id'' ''1'') 1) [0, 1, 2])
         (csys_init ref_ops :: (nat, nat ref_chan, nat, nat) csys) = Some s
    \<and> {r. \<exists>pm. cs_client s r = Fetching (cache_key_from_str ''id'' ''1'') pm} = {0}"
proof -
  have "distinct [0, 1, 2 :: nat]" "[0, 1, 2 :: nat] \<noteq> []" "1 \<le> (1::nat)" "(1::nat) \<le> 255" by simp_all
  from burst_one_fetch_serves_all [OF ref_sync.sync_laws_axioms this, where k = "cache_key_from_str ''id'' ''1''"]
  show ?thesis by (elim exE conjE) (rule exI, rule conjI, assumption, simp)
qed

text \<open>However requests start, finish, wake up and get cancelled, at most \<open>L\<close> of them hold a
  permit of the same in-flight entry when every one asked for a limit of at most \<open>L\<close>.\<close>

lemma permits_never_exceed_limit:
  assumes "sync_laws P avail closed cap attached unread" and "csys_reach P cancels L s"
  shows "finite {r. \<exists>k. cs_client s r = Fetching k (Some i)} \<and> card {r. \<exists>k. cs_client s r = Fetching k (Some i)} \<le> L"
  using sync_laws.reach_holders [OF assms] unfolding holders_def .

theorem permits_never_exceed_limit_witness:
  "card {r. \<exists>k. cs_client (csys_init ref_ops :: (nat, nat ref_chan, nat, nat) csys) r = Fetching k (Some 0)} \<le> 1"
  using permits_never_exceed_limit [OF ref_sync.sync_laws_axioms reach_init, where L = 1] by blast

text \<open>No lost wake-up: as long as no request is cancelled, every waiter either can be woken now,
  or there is a request holding a permit of its entry that is still fetching, whose completion,
  cacheable or not, makes the waiter able to wake.\<close>

lemma waiter_never_stranded:
  assumes "sync_laws P avail closed cap attached unread" and "csys_reach P False L s"
    and "cs_client s r = Waiting k i rx"
  shows "(\<exists>s'. csys_act P (Wake r) s = Some s') \<or>
    (\<exists>h. cs_client s h = Fetching k (Some i) \<and>
       (\<forall>v s'. csys_act P (FetchCacheable h v) s = Some s' \<or> csys_act P (FetchNonCacheable h) s = Some s'
          \<longrightarrow> (\<exists>s''. csys_act P (Wake r) s' = Some s'')))"
  using sync_laws.no_cancel_progress [OF assms] .

lemmas manager_defs = manager_check_def manager_resolve_def manager_cleanup_def manager_new_def
  permit_drop_def drop_opt_def csys_init_def ref_ops_def channel_capacity_def

lemma two_requests:
  "\<exists>s. csys_run ref_ops [Start 0 k 1, Start 1 k 1] (csys_init ref_ops :: (nat, 'm ref_chan, nat, 'm) csys) = Some s
       \<and> csys_reach ref_ops False 1 s \<and> cs_client s 1 = Waiting k 0 0"
proof -
  have "\<exists>s. csys_run ref_ops [Start 0 k 1, Start 1 k 1] (csys_init ref_ops :: (nat, 'm ref_chan, nat, 'm) csys) = Some s
       \<and> cs_client s 1 = Waiting k 0 0"
    by (simp add: manager_defs Let_def)
  moreover have "list_all (action_ok False 1) [Start 0 k 1, Start 1 k 1 :: 'm action]" by simp
  ultimately show ?thesis using ref_sync.run_reach [OF reach_init] by blast
qed

theorem waiter_never_stranded_witness:
  "\<exists>s r i rx. csys_reach (ref_ops :: (nat, nat ref_chan, nat, nat) sync_ops) False 1 s
     \<and> cs_client s r = Waiting (cache_key_from_str ''id'' ''1'') i rx
     \<and> ((\<exists>s'. csys_act ref_ops (Wake r) s = Some s')
        \<or> (\<exists>h. cs_client s h = Fetching (cache_key_from_str ''id'' ''1'') (Some i)))"
proof -
  obtain s where s: "csys_reach (ref_ops :: (nat, nat ref_chan, nat, nat) sync_ops) False 1 s"
    "cs_client s 1 = Waiting (cache_key_from_str ''id'' ''1'') 0 0"
    using two_requests by blast
  from waiter_never_stranded [OF ref_sync.sync_laws_axioms this] s show ?thesis by blast
qed

text \<open>Cancellation strands waiters: when the only permit holder is dropped before it completes,
  its entry stays in the map with the channel open, so the waiter cannot be woken and no request
  that could wake it is running any more; it stays so until some later request takes the freed
  permit.\<close>

lemma cancelled_fetch_strands_waiter:
  "\<exists>s. csys_run ref_ops [Start 0 k 1, Start 1 k 1, Cancel 0]
          (csys_init ref_ops :: (nat, 'm ref_chan, nat, 'm) csys) = Some s
    \<and> cs_client s 1 = Waiting k 0 0 \<and> csys_act ref_ops (Wake 1) s = None
    \<and> (\<forall>r k' pm. cs_client s r \<noteq> Fetching k' pm)
    \<and> (\<exists>s'. csys_act ref_ops (Start 2 k 1) s = Some s' \<and> cs_client s' 2 = Fetching k (Some 0))"
  by (simp add: manager_defs Let_def)

text \<open>A response that is not cacheable releases the herd: with limit 1, one request fetching and
  two waiting, the fetcher's non-cacheable response closes the channel and both waiters go to
  upstream at the same time, neither holding a permit (the documentation of the limit promises one
  upstream fetch at a time).\<close>

theorem noncacheable_response_stampede:
  "\<exists>s. csys_run ref_ops [Start 0 k 1, Start 1 k 1, Start 2 k 1, FetchNonCacheable 0, Wake 1, Wake 2]
          (csys_init ref_ops :: (nat, 'm ref_chan, nat, 'm) csys) = Some s
    \<and> cs_client s 1 = Fetching k None \<and> cs_client s 2 = Fetching k None"
  by (simp add: manager_defs Let_def)

end
