(* ===== verification/Backend_Error.thy ===== *)
theory Backend_Error
  imports Prelude
begin

text \<open>
  The error types of the storage layer (hitbox-backend/src/error.rs, format/mod.rs,
  compressor.rs, composition/mod.rs).  A boxed error is a message, or one of the other errors.
\<close>

datatype compression_error = CompressionFailed string | DecompressionFailed string

datatype backend_error =
    InternalError boxed_error
  | ConnectionError boxed_error
  | FormatErr format_error
  | CompressionErr compression_error
and format_error = SerializeErr boxed_error | DeserializeErr boxed_error
and boxed_error =
    BoxMsg string
  | BoxBackend backend_error
  | BoxFormat format_error
  | BoxCompression compression_error
  | BoxComposition composition_error
and composition_error = BothLayersFailed backend_error backend_error

text \<open>\<open>map_err\<close>.\<close>

fun map_err :: "('e \<Rightarrow> 'f) \<Rightarrow> ('a, 'e) result \<Rightarrow> ('a, 'f) result" where
  "map_err f (Inl e) = Inl (f e)"
| "map_err f (Inr a) = Inr a"

lemma map_err_eq_Inr [simp]: "map_err f r = Inr a \<longleftrightarrow> r = Inr a"
  by (cases r) auto

end
