(* ===== verification/Fsm_State.thy ===== *)
theory Fsm_State
  imports Core_Context Core_Predicate Policy Concurrency Backend_Error
begin

text \<open>
  The states of the cache state machine and their transitions (hitbox/src/fsm/states.rs,
  hitbox/src/fsm/transitions.rs).

  A future stored in a state is the suspended call it stands for, with its arguments; polling it
  is the business of the driver (theory \<open>Fsm\<close>).  Every payload that the code takes out of the
  state (\<open>Option::take\<close>) is an option here.  Tracing spans are in \<open>Fsm_Spans\<close>; timers are not modelled.  What a
  transition asks of its surroundings while it runs (the clock, the upstream's \<open>call\<close>, the
  concurrency manager) is a record of operations on a world; the backend is only reached through
  the futures.
\<close>

section \<open>Futures held by the states\<close>

type_synonym 'req request_policy_future = "'req \<times> 'req async_predicate \<times> 'req extractor"
type_synonym poll_cache_future = "cache_key \<times> box_context"
type_synonym 'c convert_future = "'c \<times> box_context"
type_synonym 'rx await_future = "nat \<times> 'rx"
type_synonym upstream_future = nat
type_synonym ('res, 'rp) response_policy_future = "'res \<times> 'rp \<times> entity_policy_config"

text \<open>The async block of an update has two await points: the backend's \<open>set\<close>, then the conversion
  of the value that was stored.\<close>

datatype 'c update_future =
    Setting cache_key "'c cache_value" box_context
  | Converting "(unit, backend_error) result" 'c box_context

section \<open>State data\<close>

record 'req initial =
  in_request :: 'req
  in_predicates :: "'req async_predicate"
  in_extractors :: "'req extractor"
  in_ctx :: box_context

record check_request =
  cq_ctx :: box_context

record 'req poll_cache =
  pc_request :: 'req
  pc_cache_key :: cache_key

record convert_response =
  cr_cache_key :: cache_key

record 'req handle_stale =
  hs_request :: 'req
  hs_cache_key :: cache_key

record 'req await_response =
  ar_request :: 'req
  ar_ctx :: box_context
  ar_cache_key :: cache_key

record poll_upstream =
  pu_permit :: "nat option"
  pu_ctx :: box_context
  pu_cache_key :: "cache_key option"

record check_response =
  cs_permit :: "nat option"
  cs_ctx :: box_context
  cs_cache_key :: cache_key

record 'res response_data =
  rs_response :: 'res
  rs_ctx :: box_context

record 'req offload_data =
  od_request :: 'req
  od_cache_key :: cache_key

datatype ('req, 'res, 'rp, 'c, 'rx) state =
    Initial "'req initial option"
  | CheckRequestCachePolicy "'req request_policy_future" "check_request option"
  | PollCache poll_cache_future "'req poll_cache option"
  | ConvertResponse "'c convert_future" "convert_response option"
  | HandleStale "'c convert_future" "'req handle_stale option"
  | AwaitResponse "'rx await_future" "'req await_response option"
  | PollUpstream upstream_future "poll_upstream option"
  | CheckResponseCachePolicy "('res, 'rp) response_policy_future" "check_response option"
  | UpdateCache "'c update_future" "unit option"
  | Response "'res response_data option"

section \<open>The surroundings of a transition\<close>

record ('req, 'c, 'rx, 'w) fsm_ops =
  fo_now :: "'w \<Rightarrow> time"
  fo_call :: "'req \<Rightarrow> 'w \<Rightarrow> upstream_future \<times> 'w"
  fo_check :: "cache_key \<Rightarrow> nat \<Rightarrow> 'w \<Rightarrow> 'rx decision \<times> 'w"
  fo_resolve :: "cache_key \<Rightarrow> 'c cache_value \<Rightarrow> 'w \<Rightarrow> 'w"
  fo_cleanup :: "cache_key \<Rightarrow> 'w \<Rightarrow> 'w"
  fo_permit_drop :: "nat \<Rightarrow> 'w \<Rightarrow> 'w"

definition drop_permit :: "('req, 'c, 'rx, 'w, 'z) fsm_ops_scheme \<Rightarrow> nat option \<Rightarrow> 'w \<Rightarrow> 'w" where
  "drop_permit E pm w = (case pm of Some i \<Rightarrow> fo_permit_drop E i w | None \<Rightarrow> w)"

section \<open>Initial\<close>

datatype 'req initial_transition =
    IT_CheckRequestCachePolicy "'req request_policy_future" box_context
  | IT_PollUpstream upstream_future box_context

definition initial_next ::
  "('req, 'c, 'rx, 'w, 'z) fsm_ops_scheme \<Rightarrow> policy_config \<Rightarrow> 'req initial \<Rightarrow> 'w \<Rightarrow> 'req initial_transition \<times> 'w" where
  "initial_next E policy self w =
     (case policy of
        Enabled _ \<Rightarrow>
          (IT_CheckRequestCachePolicy (in_request self, in_predicates self, in_extractors self) (in_ctx self), w)
      | Disabled \<Rightarrow>
          (case fo_call E (in_request self) w of (fut, w') \<Rightarrow> (IT_PollUpstream fut (in_ctx self), w')))"

fun initial_into_state :: "'req initial_transition \<Rightarrow> ('req, 'res, 'rp, 'c, 'rx) state" where
  "initial_into_state (IT_CheckRequestCachePolicy fut ctx) = CheckRequestCachePolicy fut (Some \<lparr>cq_ctx = ctx\<rparr>)"
| "initial_into_state (IT_PollUpstream fut ctx) =
     PollUpstream fut (Some \<lparr>pu_permit = None, pu_ctx = ctx, pu_cache_key = None\<rparr>)"

section \<open>CheckRequestCachePolicy\<close>

datatype 'req check_request_transition =
    QT_PollCache poll_cache_future 'req cache_key
  | QT_PollUpstream upstream_future box_context

text \<open>The third component is the key stored in the future (\<open>cache_key_storage\<close>).\<close>

definition check_request_next ::
  "('req, 'c, 'rx, 'w, 'z) fsm_ops_scheme \<Rightarrow> 'req request_cache_policy \<Rightarrow> check_request \<Rightarrow> cache_key option
   \<Rightarrow> 'w \<Rightarrow> 'req check_request_transition \<times> cache_key option \<times> 'w" where
  "check_request_next E policy self storage w =
     (case policy of
        Cacheable data \<Rightarrow>
          (QT_PollCache (cpd_key data, cq_ctx self) (cpd_request data) (cpd_key data), Some (cpd_key data), w)
      | NonCacheable request \<Rightarrow>
          (case fo_call E request w of (fut, w') \<Rightarrow> (QT_PollUpstream fut (cq_ctx self), storage, w')))"

fun check_request_into_state :: "'req check_request_transition \<Rightarrow> ('req, 'res, 'rp, 'c, 'rx) state" where
  "check_request_into_state (QT_PollCache fut request key) =
     PollCache fut (Some \<lparr>pc_request = request, pc_cache_key = key\<rparr>)"
| "check_request_into_state (QT_PollUpstream fut ctx) =
     PollUpstream fut (Some \<lparr>pu_permit = None, pu_ctx = ctx, pu_cache_key = None\<rparr>)"

section \<open>PollCache\<close>

type_synonym 'c cache_result = "('c cache_value option, backend_error) result"

datatype ('req, 'c, 'rx) poll_cache_transition =
    PT_UpdateCache "'c update_future"
  | PT_ConvertResponse "'c convert_future" cache_key
  | PT_HandleStale "'c convert_future" 'req cache_key
  | PT_PollUpstream upstream_future "nat option" box_context cache_key
  | PT_AwaitResponse "'rx await_future" 'req box_context cache_key

definition transition_to_upstream ::
  "('req, 'c, 'rx, 'w, 'z) fsm_ops_scheme \<Rightarrow> policy_config \<Rightarrow> 'req poll_cache \<Rightarrow> box_context \<Rightarrow> 'w
   \<Rightarrow> ('req, 'c, 'rx) poll_cache_transition \<times> 'w" where
  "transition_to_upstream E policy self ctx w =
     (let upstream = (\<lambda>permit w. case fo_call E (pc_request self) w of
                        (fut, w') \<Rightarrow> (PT_PollUpstream fut permit ctx (pc_cache_key self), w'))
      in case (case policy of Enabled cfg \<Rightarrow> ec_concurrency cfg | Disabled \<Rightarrow> None) of
           Some concurrency \<Rightarrow>
             (case fo_check E (pc_cache_key self) concurrency w of
                (Proceed permit, w') \<Rightarrow> upstream (Some permit) w'
              | (ProceedWithoutPermit, w') \<Rightarrow> upstream None w'
              | (Await i rx, w') \<Rightarrow> (PT_AwaitResponse (i, rx) (pc_request self) ctx (pc_cache_key self), w'))
         | None \<Rightarrow> upstream None w)"

text \<open>A backend error counts as a miss (\<open>unwrap_or_default\<close>).\<close>

definition poll_cache_next ::
  "('req, 'c, 'rx, 'w, 'z) fsm_ops_scheme \<Rightarrow> policy_config \<Rightarrow> 'c cache_result \<Rightarrow> box_context
   \<Rightarrow> 'req poll_cache \<Rightarrow> 'w \<Rightarrow> ('req, 'c, 'rx) poll_cache_transition \<times> 'w" where
  "poll_cache_next E policy cache_result ctx self w =
     (case (case cache_result of Inr cached \<Rightarrow> cached | Inl _ \<Rightarrow> None) of
        Some cached_value \<Rightarrow>
          (let ctx = ctx_set_status Hit ctx in
           case cache_state_of (fo_now E w) cached_value of
             Actual value \<Rightarrow>
               if ctx_read_mode ctx = Refill then (PT_UpdateCache (Setting (pc_cache_key self) value ctx), w)
               else (PT_ConvertResponse (into_inner value, ctx) (pc_cache_key self), w)
           | Stale value \<Rightarrow>
               (PT_HandleStale (into_inner value, ctx) (pc_request self) (pc_cache_key self), w)
           | Expired value \<Rightarrow> transition_to_upstream E policy self (ctx_set_status Miss ctx) w)
      | None \<Rightarrow> transition_to_upstream E policy self ctx w)"

fun poll_cache_into_state :: "('req, 'c, 'rx) poll_cache_transition \<Rightarrow> ('req, 'res, 'rp, 'c, 'rx) state" where
  "poll_cache_into_state (PT_UpdateCache fut) = UpdateCache fut (Some ())"
| "poll_cache_into_state (PT_ConvertResponse fut key) = ConvertResponse fut (Some \<lparr>cr_cache_key = key\<rparr>)"
| "poll_cache_into_state (PT_HandleStale fut request key) =
     HandleStale fut (Some \<lparr>hs_request = request, hs_cache_key = key\<rparr>)"
| "poll_cache_into_state (PT_PollUpstream fut permit ctx key) =
     PollUpstream fut (Some \<lparr>pu_permit = permit, pu_ctx = ctx, pu_cache_key = Some key\<rparr>)"
| "poll_cache_into_state (PT_AwaitResponse fut request ctx key) =
     AwaitResponse fut (Some \<lparr>ar_request = request, ar_ctx = ctx, ar_cache_key = key\<rparr>)"

section \<open>ConvertResponse\<close>

datatype 'res response_transition = RT_Response "'res response_data"

definition convert_response_next :: "'res \<Rightarrow> box_context \<Rightarrow> convert_response \<Rightarrow> 'res response_transition" where
  "convert_response_next response ctx self = RT_Response \<lparr>rs_response = response, rs_ctx = ctx\<rparr>"

fun convert_into_state :: "'res response_transition \<Rightarrow> ('req, 'res, 'rp, 'c, 'rx) state" where
  "convert_into_state (RT_Response s) = Response (Some \<lparr>rs_response = rs_response s, rs_ctx = rs_ctx s\<rparr>)"

section \<open>HandleStale\<close>

datatype 'res handle_stale_transition =
    HT_Response "'res response_data"
  | HT_Revalidate upstream_future box_context cache_key

definition handle_stale_next ::
  "('req, 'c, 'rx, 'w, 'z) fsm_ops_scheme \<Rightarrow> policy_config \<Rightarrow> 'res \<Rightarrow> box_context \<Rightarrow> 'req handle_stale \<Rightarrow> 'w
   \<Rightarrow> ('res handle_stale_transition \<times> 'req offload_data option) \<times> 'w" where
  "handle_stale_next E policy response ctx self w =
     (case policy_stale policy of
        ReturnStale \<Rightarrow>
          ((HT_Response \<lparr>rs_response = response, rs_ctx = ctx_set_status StaleHit ctx\<rparr>, None), w)
      | Revalidate \<Rightarrow>
          (case fo_call E (hs_request self) w of (fut, w') \<Rightarrow>
             ((HT_Revalidate fut (ctx_set_status Miss ctx) (hs_cache_key self), None), w'))
      | OffloadRevalidate \<Rightarrow>
          ((HT_Response \<lparr>rs_response = response, rs_ctx = ctx_set_status StaleHit ctx\<rparr>,
            Some \<lparr>od_request = hs_request self, od_cache_key = hs_cache_key self\<rparr>), w))"

fun handle_stale_into_state :: "'res handle_stale_transition \<Rightarrow> ('req, 'res, 'rp, 'c, 'rx) state" where
  "handle_stale_into_state (HT_Response s) = Response (Some \<lparr>rs_response = rs_response s, rs_ctx = rs_ctx s\<rparr>)"
| "handle_stale_into_state (HT_Revalidate fut ctx key) =
     PollUpstream fut (Some \<lparr>pu_permit = None, pu_ctx = ctx, pu_cache_key = Some key\<rparr>)"

section \<open>AwaitResponse\<close>

datatype 'res await_response_transition =
    AT_Response "'res response_data"
  | AT_PollUpstream upstream_future box_context cache_key

definition await_response_next ::
  "('req, 'c, 'rx, 'w, 'z) fsm_ops_scheme \<Rightarrow> ('res, concurrency_error) result \<Rightarrow> 'req await_response \<Rightarrow> 'w
   \<Rightarrow> 'res await_response_transition \<times> 'w" where
  "await_response_next E result self w =
     (case result of
        Inr response \<Rightarrow> (AT_Response \<lparr>rs_response = response, rs_ctx = ar_ctx self\<rparr>, w)
      | Inl concurrency_error \<Rightarrow>
          (let w = (case concurrency_error of Lagged n \<Rightarrow> w | Closed \<Rightarrow> fo_cleanup E (ar_cache_key self) w) in
           case fo_call E (ar_request self) w of
             (fut, w') \<Rightarrow> (AT_PollUpstream fut (ar_ctx self) (ar_cache_key self), w')))"

fun await_response_into_state :: "'res await_response_transition \<Rightarrow> ('req, 'res, 'rp, 'c, 'rx) state" where
  "await_response_into_state (AT_Response s) = Response (Some \<lparr>rs_response = rs_response s, rs_ctx = rs_ctx s\<rparr>)"
| "await_response_into_state (AT_PollUpstream fut ctx key) =
     PollUpstream fut (Some \<lparr>pu_permit = None, pu_ctx = ctx, pu_cache_key = Some key\<rparr>)"

section \<open>PollUpstream\<close>

datatype ('res, 'rp) poll_upstream_transition =
    UT_CheckResponseCachePolicy "('res, 'rp) response_policy_future" "nat option" box_context cache_key
  | UT_Response "'res response_data"

definition poll_upstream_next ::
  "'res \<Rightarrow> 'rp \<Rightarrow> policy_config \<Rightarrow> poll_upstream \<Rightarrow> ('res, 'rp) poll_upstream_transition" where
  "poll_upstream_next upstream_result predicates policy self =
     (case pu_cache_key self of
        Some cache_key \<Rightarrow>
          UT_CheckResponseCachePolicy (upstream_result, predicates, policy_entity policy)
            (pu_permit self) (pu_ctx self) cache_key
      | None \<Rightarrow> UT_Response \<lparr>rs_response = upstream_result, rs_ctx = pu_ctx self\<rparr>)"

fun poll_upstream_into_state :: "('res, 'rp) poll_upstream_transition \<Rightarrow> ('req, 'res, 'rp, 'c, 'rx) state" where
  "poll_upstream_into_state (UT_CheckResponseCachePolicy fut permit ctx key) =
     CheckResponseCachePolicy fut (Some \<lparr>cs_permit = permit, cs_ctx = ctx, cs_cache_key = key\<rparr>)"
| "poll_upstream_into_state (UT_Response s) = Response (Some \<lparr>rs_response = rs_response s, rs_ctx = rs_ctx s\<rparr>)"

section \<open>CheckResponseCachePolicy\<close>

datatype ('res, 'c) check_response_transition =
    ST_UpdateCache "'c update_future"
  | ST_Response "'res response_data"

text \<open>The permit goes away with the state, after the manager was told.\<close>

definition check_response_next ::
  "('req, 'c, 'rx, 'w, 'z) fsm_ops_scheme \<Rightarrow> ('c, 'res) response_cache_policy \<Rightarrow> check_response \<Rightarrow> 'w
   \<Rightarrow> ('res, 'c) check_response_transition \<times> 'w" where
  "check_response_next E policy self w =
     (case policy of
        Cacheable cache_value \<Rightarrow>
          (let w = (if cs_permit self \<noteq> None then fo_resolve E (cs_cache_key self) cache_value w else w)
           in (ST_UpdateCache (Setting (cs_cache_key self) cache_value (cs_ctx self)), drop_permit E (cs_permit self) w))
      | NonCacheable response \<Rightarrow>
          (let w = (if cs_permit self \<noteq> None then fo_cleanup E (cs_cache_key self) w else w)
           in (ST_Response \<lparr>rs_response = response, rs_ctx = cs_ctx self\<rparr>, drop_permit E (cs_permit self) w)))"

fun check_response_into_state :: "('res, 'c) check_response_transition \<Rightarrow> ('req, 'res, 'rp, 'c, 'rx) state" where
  "check_response_into_state (ST_UpdateCache fut) = UpdateCache fut (Some ())"
| "check_response_into_state (ST_Response s) = Response (Some \<lparr>rs_response = rs_response s, rs_ctx = rs_ctx s\<rparr>)"

section \<open>UpdateCache\<close>

datatype 'res update_cache_transition = WT_Response "'res response_data"

definition update_cache_next :: "'res \<Rightarrow> box_context \<Rightarrow> unit \<Rightarrow> 'res update_cache_transition" where
  "update_cache_next response ctx self = WT_Response \<lparr>rs_response = response, rs_ctx = ctx\<rparr>"

fun update_cache_into_state :: "'res update_cache_transition \<Rightarrow> ('req, 'res, 'rp, 'c, 'rx) state" where
  "update_cache_into_state (WT_Response s) = Response (Some \<lparr>rs_response = rs_response s, rs_ctx = rs_ctx s\<rparr>)"

lemmas transition_defs [fsm_simps] =
  initial_next_def check_request_next_def poll_cache_next_def transition_to_upstream_def
  convert_response_next_def handle_stale_next_def await_response_next_def
  poll_upstream_next_def check_response_next_def update_cache_next_def

end
