(* ===== verification/Fsm.thy ===== *)
theory Fsm
  imports Fsm_State
begin

text \<open>
  The cache future that drives the state machine (hitbox/src/fsm/future.rs): its record, its two
  constructors, one turn of the poll loop, the loop itself, and what serving a request does when
  it is written without states.
\<close>

section \<open>The future\<close>

record ('req, 'res, 'rp, 'c, 'rx) cache_future =
  cf_cache_key :: "cache_key option"
  cf_state :: "('req, 'res, 'rp, 'c, 'rx) state"
  cf_response_predicates :: "'rp option"
  cf_policy :: policy_config
  cf_is_revalidation :: bool

text \<open>The surroundings of the driver: those of the transitions, the polls of the futures the
  states hold, and the offload.\<close>

record ('req, 'c, 'rx, 'w, 'res, 'rp) fsm_env = "('req, 'c, 'rx, 'w) fsm_ops" +
  fe_req_policy :: "'req request_policy_future \<Rightarrow> 'w \<Rightarrow> ('req request_cache_policy, 'w) polled"
  fe_get :: "cache_key \<Rightarrow> box_context \<Rightarrow> 'w \<Rightarrow> ('c cache_result \<times> box_context, 'w) polled"
  fe_set :: "cache_key \<Rightarrow> 'c cache_value \<Rightarrow> box_context \<Rightarrow> 'w
             \<Rightarrow> ((unit, backend_error) result \<times> box_context, 'w) polled"
  fe_upstream :: "upstream_future \<Rightarrow> 'w \<Rightarrow> ('res, 'w) polled"
  fe_res_policy :: "('res, 'rp) response_policy_future \<Rightarrow> 'w \<Rightarrow> (('c, 'res) response_cache_policy, 'w) polled"
  fe_from_cached :: "'c \<Rightarrow> 'w \<Rightarrow> ('res, 'w) polled"
  fe_await :: "nat \<Rightarrow> 'rx \<Rightarrow> 'w \<Rightarrow> (('res, concurrency_error) result, 'w) polled"
  fe_spawn :: "string \<Rightarrow> ('req, 'res, 'rp, 'c, 'rx) cache_future \<Rightarrow> 'w \<Rightarrow> 'w"

definition cache_future_new ::
  "'req \<Rightarrow> 'req async_predicate \<Rightarrow> 'rp \<Rightarrow> 'req extractor \<Rightarrow> policy_config \<Rightarrow> ('req, 'res, 'rp, 'c, 'rx) cache_future" where
  "cache_future_new request request_predicates response_predicates key_extractors policy =
     \<lparr>cf_cache_key = None,
      cf_state = Initial (Some \<lparr>in_request = request, in_predicates = request_predicates,
                                in_extractors = key_extractors, in_ctx = boxed cache_context_default\<rparr>),
      cf_response_predicates = Some response_predicates,
      cf_policy = policy,
      cf_is_revalidation = False\<rparr>"

definition cache_future_revalidate ::
  "('req, 'c, 'rx, 'w, 'z) fsm_ops_scheme \<Rightarrow> cache_key \<Rightarrow> 'req \<Rightarrow> 'rp \<Rightarrow> policy_config \<Rightarrow> 'w
   \<Rightarrow> ('req, 'res, 'rp, 'c, 'rx) cache_future \<times> 'w" where
  "cache_future_revalidate E cache_key request response_predicates policy w =
     (case fo_call E request w of
        (fut, w') \<Rightarrow>
          (\<lparr>cf_cache_key = Some cache_key,
            cf_state = PollUpstream fut (Some \<lparr>pu_permit = None, pu_ctx = boxed cache_context_default,
                                               pu_cache_key = Some cache_key\<rparr>),
            cf_response_predicates = Some response_predicates,
            cf_policy = policy,
            cf_is_revalidation = True\<rparr>, w'))"

text \<open>A revalidation runs with the no-op concurrency manager and a disabled offload.\<close>

definition revalidation_env ::
  "('req, 'c, 'rx, 'w, 'res, 'rp) fsm_env \<Rightarrow> ('req, 'c, 'rx, 'w, 'res, 'rp) fsm_env" where
  "revalidation_env E =
     E\<lparr>fo_check := (\<lambda>k n w. (noop_check k n, w)), fo_resolve := noop_resolve, fo_cleanup := noop_cleanup,
       fe_spawn := (\<lambda>kind fut w. w)\<rparr>"

section \<open>One turn of the poll loop\<close>

text \<open>A turn panics (an \<open>expect\<close> failed), returns \<open>Poll::Pending\<close>, moves to the next state, or
  returns \<open>Poll::Ready\<close>; the future is left as the turn leaves it.\<close>

datatype ('f, 'out) turn = Panicked | Pending 'f | Moved 'f | Ready 'f 'out

definition poll_update ::
  "('req, 'c, 'rx, 'w, 'res, 'rp) fsm_env \<Rightarrow> 'c update_future \<Rightarrow> 'w
   \<Rightarrow> (((unit, backend_error) result \<times> 'res \<times> box_context) option \<times> 'c update_future) \<times> 'w" where
  "poll_update E fut w =
     (let convert = (\<lambda>result data ctx w.
            case fe_from_cached E data w of
              (Some response, w') \<Rightarrow> ((Some (result, response, ctx), Converting result data ctx), w')
            | (None, w') \<Rightarrow> ((None, Converting result data ctx), w'))
      in case fut of
           Setting key val ctx \<Rightarrow>
             (case fe_set E key val ctx w of
                (Some (result, ctx'), w') \<Rightarrow> convert result (into_inner val) ctx' w'
              | (None, w') \<Rightarrow> ((None, Setting key val ctx), w'))
         | Converting result data ctx \<Rightarrow> convert result data ctx w)"

text \<open>Finishing: a response whose status is a miss comes from upstream.\<close>

definition finish_response :: "'res response_data \<Rightarrow> 'res \<times> cache_context" where
  "finish_response s =
     (let ctx = (if ctx_status (rs_ctx s) = Miss then ctx_set_source SrcUpstream (rs_ctx s) else rs_ctx s)
      in (rs_response s, finalize_context ctx))"

text \<open>\<open>StateProj::HandleStale\<close>: when the transition asks for a background refresh and the
  predicates are still there, they move into a revalidation future, which is spawned.\<close>

definition spawn_revalidation ::
  "('req, 'c, 'rx, 'w, 'res, 'rp) fsm_env \<Rightarrow> 'req offload_data option
   \<Rightarrow> ('req, 'res, 'rp, 'c, 'rx) cache_future \<Rightarrow> 'w
   \<Rightarrow> ('req, 'res, 'rp, 'c, 'rx) cache_future \<times> 'w" where
  "spawn_revalidation E offload f w =
     (case (offload, cf_response_predicates f) of
        (Some d, Some response_predicates) \<Rightarrow>
          (case cache_future_revalidate E (od_cache_key d) (od_request d) response_predicates (cf_policy f) w of
             (reval, w') \<Rightarrow> (f\<lparr>cf_response_predicates := None\<rparr>, fe_spawn E ''revalidate'' reval w'))
      | _ \<Rightarrow> (f, w))"

fun fsm_turn ::
  "('req, 'c, 'rx, 'w, 'res, 'rp) fsm_env \<Rightarrow> ('req, 'res, 'rp, 'c, 'rx) cache_future \<Rightarrow> 'w
   \<Rightarrow> (('req, 'res, 'rp, 'c, 'rx) cache_future, 'res \<times> cache_context) turn \<times> 'w" where
  "fsm_turn E f w =
     (case cf_state f of
        Initial (Some initial) \<Rightarrow>
          (case initial_next E (cf_policy f) initial w of
             (t, w') \<Rightarrow> (Moved (f\<lparr>cf_state := initial_into_state t\<rparr>), w'))
      | CheckRequestCachePolicy fut (Some st) \<Rightarrow>
          (case fe_req_policy E fut w of
             (None, w') \<Rightarrow> (Pending f, w')
           | (Some policy, w') \<Rightarrow>
               (case check_request_next E policy st (cf_cache_key f) w' of
                  (t, key, w'') \<Rightarrow>
                    (Moved (f\<lparr>cf_state := check_request_into_state t, cf_cache_key := key\<rparr>), w'')))
      | PollCache fut (Some st) \<Rightarrow>
          (case fe_get E (fst fut) (snd fut) w of
             (None, w') \<Rightarrow> (Pending f, w')
           | (Some (cache_result, ctx), w') \<Rightarrow>
               (case poll_cache_next E (cf_policy f) cache_result ctx st w' of
                  (t, w'') \<Rightarrow> (Moved (f\<lparr>cf_state := poll_cache_into_state t\<rparr>), w'')))
      | AwaitResponse fut (Some st) \<Rightarrow>
          (case fe_await E (fst fut) (snd fut) w of
             (None, w') \<Rightarrow> (Pending f, w')
           | (Some result, w') \<Rightarrow>
               (case await_response_next E result st w' of
                  (t, w'') \<Rightarrow> (Moved (f\<lparr>cf_state := await_response_into_state t\<rparr>), w'')))
      | ConvertResponse fut (Some st) \<Rightarrow>
          (case fe_from_cached E (fst fut) w of
             (None, w') \<Rightarrow> (Pending f, w')
           | (Some response, w') \<Rightarrow>
               (Moved (f\<lparr>cf_state := convert_into_state (convert_response_next response (snd fut) st)\<rparr>), w'))
      | HandleStale fut (Some st) \<Rightarrow>
          (case fe_from_cached E (fst fut) w of
             (None, w') \<Rightarrow> (Pending f, w')
           | (Some response, w') \<Rightarrow>
               (case handle_stale_next E (cf_policy f) response (snd fut) st w' of
                  ((t, offload), w'') \<Rightarrow>
                    (case spawn_revalidation E offload f w'' of
                       (f', w''') \<Rightarrow> (Moved (f'\<lparr>cf_state := handle_stale_into_state t\<rparr>), w'''))))
      | PollUpstream fut (Some st) \<Rightarrow>
          (case fe_upstream E fut w of
             (None, w') \<Rightarrow> (Pending f, w')
           | (Some upstream_result, w') \<Rightarrow>
               (case cf_response_predicates f of
                  None \<Rightarrow> (Panicked, w')
                | Some predicates \<Rightarrow>
                    (Moved (f\<lparr>cf_state := poll_upstream_into_state
                                 (poll_upstream_next upstream_result predicates (cf_policy f) st),
                              cf_response_predicates := None\<rparr>), w')))
      | CheckResponseCachePolicy fut (Some st) \<Rightarrow>
          (case fe_res_policy E fut w of
             (None, w') \<Rightarrow> (Pending f, w')
           | (Some policy, w') \<Rightarrow>
               (case check_response_next E policy st w' of
                  (t, w'') \<Rightarrow> (Moved (f\<lparr>cf_state := check_response_into_state t\<rparr>), w'')))
      | UpdateCache fut (Some st) \<Rightarrow>
          (case poll_update E fut w of
             ((None, fut'), w') \<Rightarrow> (Pending (f\<lparr>cf_state := UpdateCache fut' (Some st)\<rparr>), w')
           | ((Some (backend_result, response, ctx), fut'), w') \<Rightarrow>
               (Moved (f\<lparr>cf_state := update_cache_into_state (update_cache_next response ctx st)\<rparr>), w'))
      | Response (Some st) \<Rightarrow> (Ready (f\<lparr>cf_state := Response None\<rparr>) (finish_response st), w)
      | _ \<Rightarrow> (Panicked, w))"

declare fsm_turn.simps [simp del]

section \<open>The loop\<close>

text \<open>Every move goes down in this order, so one poll takes at most eight turns.\<close>

fun rank :: "('req, 'res, 'rp, 'c, 'rx) state \<Rightarrow> nat" where
  "rank (Initial _) = 7"
| "rank (CheckRequestCachePolicy _ _) = 6"
| "rank (PollCache _ _) = 5"
| "rank (HandleStale _ _) = 4"
| "rank (AwaitResponse _ _) = 4"
| "rank (PollUpstream _ _) = 3"
| "rank (CheckResponseCachePolicy _ _) = 2"
| "rank (UpdateCache _ _) = 1"
| "rank (ConvertResponse _ _) = 1"
| "rank (Response _) = 0"

lemma rank_into_state [simp]:
  "rank (initial_into_state t1) < 7"
  "rank (check_request_into_state t2) < 6"
  "rank (poll_cache_into_state t3) < 5"
  "rank (await_response_into_state t4) < 4"
  "rank (handle_stale_into_state t5) < 4"
  "rank (poll_upstream_into_state t6) < 3"
  "rank (check_response_into_state t7) < 2"
  "rank (update_cache_into_state t8) = 0"
  "rank (convert_into_state t9) = 0"
  apply (cases t1; simp)
  apply (cases t2; simp)
  apply (cases t3; simp)
  apply (cases t4; simp)
  apply (cases t5; simp)
  apply (cases t6; simp)
  apply (cases t7; simp)
  apply (cases t8; simp)
  apply (cases t9; simp)
  done

lemma spawn_revalidation_state [simp]:
  "spawn_revalidation E d f w = (f', w') \<Longrightarrow> cf_state f' = cf_state f \<and> cf_policy f' = cf_policy f"
  by (auto simp: spawn_revalidation_def split: option.splits prod.splits)

lemma fsm_turn_rank: "fsm_turn E f w = (Moved f', w') \<Longrightarrow> rank (cf_state f') < rank (cf_state f)"
  by (auto simp: fsm_turn.simps split: state.splits option.splits prod.splits)

function fsm_poll ::
  "('req, 'c, 'rx, 'w, 'res, 'rp) fsm_env \<Rightarrow> ('req, 'res, 'rp, 'c, 'rx) cache_future \<Rightarrow> 'w
   \<Rightarrow> (('req, 'res, 'rp, 'c, 'rx) cache_future, 'res \<times> cache_context) turn \<times> 'w" where
  "fsm_poll E f w = (case fsm_turn E f w of (Moved f', w') \<Rightarrow> fsm_poll E f' w' | r \<Rightarrow> r)"
  by pat_completeness auto
termination
  by (relation "measure (\<lambda>(E, f, w). rank (cf_state f))") (auto dest: fsm_turn_rank [OF sym])

declare fsm_poll.simps [simp del]

section \<open>No turn panics\<close>

text \<open>A future is well formed when its state still holds its payload, and the response predicates
  are there in every state from which the upstream is polled.\<close>

fun state_live :: "('req, 'res, 'rp, 'c, 'rx) state \<Rightarrow> bool" where
  "state_live (Initial st) = (st \<noteq> None)"
| "state_live (CheckRequestCachePolicy _ st) = (st \<noteq> None)"
| "state_live (PollCache _ st) = (st \<noteq> None)"
| "state_live (ConvertResponse _ st) = (st \<noteq> None)"
| "state_live (HandleStale _ st) = (st \<noteq> None)"
| "state_live (AwaitResponse _ st) = (st \<noteq> None)"
| "state_live (PollUpstream _ st) = (st \<noteq> None)"
| "state_live (CheckResponseCachePolicy _ st) = (st \<noteq> None)"
| "state_live (UpdateCache _ st) = (st \<noteq> None)"
| "state_live (Response st) = (st \<noteq> None)"

definition wf_future :: "('req, 'res, 'rp, 'c, 'rx) cache_future \<Rightarrow> bool" where
  "wf_future f \<longleftrightarrow> state_live (cf_state f) \<and> (3 \<le> rank (cf_state f) \<longrightarrow> cf_response_predicates f \<noteq> None)"

lemma state_live_into_state [simp]:
  "state_live (initial_into_state t1)"
  "state_live (check_request_into_state t2)"
  "state_live (poll_cache_into_state t3)"
  "state_live (await_response_into_state t4)"
  "state_live (handle_stale_into_state t5)"
  "state_live (poll_upstream_into_state t6)"
  "state_live (check_response_into_state t7)"
  "state_live (update_cache_into_state t8)"
  "state_live (convert_into_state t9)"
  apply (cases t1; simp)
  apply (cases t2; simp)
  apply (cases t3; simp)
  apply (cases t4; simp)
  apply (cases t5; simp)
  apply (cases t6; simp)
  apply (cases t7; simp)
  apply (cases t8; simp)
  apply (cases t9; simp)
  done

text \<open>A spawned revalidation leaves no predicates behind, but then the transition went to
  \<open>Response\<close>: only the \<open>OffloadRevalidate\<close> branch asks for one.\<close>

lemma handle_stale_offload:
  "handle_stale_next E policy r ctx st w = ((t, Some d), w') \<Longrightarrow> rank (handle_stale_into_state t) = 0"
  by (auto simp: handle_stale_next_def split: stale_policy.splits prod.splits)

lemma spawn_revalidation_None [simp]: "spawn_revalidation E None f w = (f, w)"
  by (simp add: spawn_revalidation_def)

lemma wf_cache_future_new [simp]: "wf_future (cache_future_new r p rp e pol)"
  by (simp add: wf_future_def cache_future_new_def)

lemma wf_cache_future_revalidate: "wf_future (fst (cache_future_revalidate E k r rp pol w))"
  by (simp add: wf_future_def cache_future_revalidate_def split: prod.split)

lemma small_rank_into_state:
  "\<not> 3 \<le> rank (poll_upstream_into_state t6)"
  "\<not> 3 \<le> rank (check_response_into_state t7)"
  by (simp_all add: not_le less_trans [OF rank_into_state(7)])

lemma fsm_turn_wf:
  assumes "wf_future f"
  shows "case fst (fsm_turn E f w) of
      Panicked \<Rightarrow> False | Pending f' \<Rightarrow> wf_future f' | Moved f' \<Rightarrow> wf_future f' | Ready f' out \<Rightarrow> True"
proof (cases "cf_state f")
  case (HandleStale fut st)
  obtain st' where st: "st = Some st'" using assms HandleStale by (auto simp: wf_future_def)
  show ?thesis
  proof (cases "fe_from_cached E (fst fut) w")
    case (Pair r w1)
    show ?thesis
    proof (cases r)
      case None
      then show ?thesis using assms HandleStale st Pair by (simp add: fsm_turn.simps)
    next
      case (Some response)
      obtain t d w2 where t: "handle_stale_next E (cf_policy f) response (snd fut) st' w1 = ((t, d), w2)"
        by (metis surj_pair)
      obtain f' w3 where f': "spawn_revalidation E d f w2 = (f', w3)" by fastforce
      have "wf_future (f'\<lparr>cf_state := handle_stale_into_state t\<rparr>)"
      proof (cases d)
        case None
        then show ?thesis using f' assms HandleStale by (auto simp: wf_future_def)
      next
        case (Some d')
        then show ?thesis
          by (simp add: wf_future_def handle_stale_offload [OF t [unfolded Some]])
      qed
      then show ?thesis using HandleStale st Pair Some t f' by (simp add: fsm_turn.simps)
    qed
  qed
qed (use assms in \<open>auto simp: fsm_turn.simps wf_future_def small_rank_into_state
       split: option.split prod.split\<close>)

lemma fsm_poll_wf:
  "wf_future f \<Longrightarrow> case fst (fsm_poll E f w) of
      Panicked \<Rightarrow> False | Pending f' \<Rightarrow> wf_future f' | Moved f' \<Rightarrow> False | Ready f' out \<Rightarrow> cf_state f' = Response None"
proof (induction E f w rule: fsm_poll.induct)
  case (1 E f w)
  obtain t w' where t: "fsm_turn E f w = (t, w')" by fastforce
  have step: "fsm_poll E f w = (case t of Moved f' \<Rightarrow> fsm_poll E f' w' | _ \<Rightarrow> (t, w'))"
    by (subst fsm_poll.simps) (simp add: t split: turn.split)
  show ?case
  proof (cases t)
    case (Ready f' out)
    then show ?thesis
      using t by (auto simp: step fsm_turn.simps split: state.splits option.splits prod.splits)
  next
    case (Moved f')
    then show ?thesis using 1 t fsm_turn_wf [OF 1(2), of E w] by (simp add: step)
  qed (use t fsm_turn_wf [OF 1(2), of E w] in \<open>simp_all add: step\<close>)
qed

text \<open>The futures an executor can hold: one it was given, or what a pending poll, in any world,
  left of one.\<close>

inductive poll_reach ::
  "('req, 'c, 'rx, 'w, 'res, 'rp) fsm_env \<Rightarrow> ('req, 'res, 'rp, 'c, 'rx) cache_future
   \<Rightarrow> ('req, 'res, 'rp, 'c, 'rx) cache_future \<Rightarrow> bool"
  for E f0 where
  polled_first: "poll_reach E f0 f0"
| polled_again: "poll_reach E f0 f \<Longrightarrow> fsm_poll E f w = (Pending f', w') \<Longrightarrow> poll_reach E f0 f'"

lemma poll_reach_wf: "poll_reach E f0 f \<Longrightarrow> wf_future f0 \<Longrightarrow> wf_future f"
proof (induction rule: poll_reach.induct)
  case (polled_again f w f' w')
  then show ?case using fsm_poll_wf [of f E w] by auto
qed

end
