(* ===== verification/Fsm_Spec.thy ===== *)
theory Fsm_Spec
  imports Fsm
begin

text \<open>
  What serving a request through the cache means, written without states: the abstract
  specification the state machine implements, the refinement proof, and the properties of the
  cache future that follow.
\<close>

section \<open>Serving a request, in direct style\<close>

definition awaited :: "('a, 'w) polled \<Rightarrow> 'a \<times> 'w" where
  "awaited p = (the (fst p), snd p)"

text \<open>Storing a value: its conversion back is the response; the outcome of the store is dropped.\<close>

definition sv_update ::
  "('req, 'c, 'rx, 'w, 'res, 'rp) fsm_env \<Rightarrow> cache_key \<Rightarrow> 'c cache_value \<Rightarrow> box_context \<Rightarrow> 'w
   \<Rightarrow> ('res \<times> box_context) \<times> 'w" where
  "sv_update E key v ctx w =
     (case awaited (fe_set E key v ctx w) of ((_, ctx'), w1) \<Rightarrow>
      case awaited (fe_from_cached E (cv_data v) w1) of (response, w2) \<Rightarrow> ((response, ctx'), w2))"

text \<open>The upstream answered: judge the response, tell the waiting requests, store it or pass it.\<close>

definition sv_judge ::
  "('req, 'c, 'rx, 'w, 'res, 'rp) fsm_env \<Rightarrow> policy_config \<Rightarrow> 'rp \<Rightarrow> 'res \<Rightarrow> nat option \<Rightarrow> box_context
   \<Rightarrow> cache_key \<Rightarrow> 'w \<Rightarrow> ('res \<times> box_context) \<times> 'w" where
  "sv_judge E policy rp res permit ctx key w =
     (case awaited (fe_res_policy E (res, rp, policy_entity policy) w) of
        (Cacheable v, w1) \<Rightarrow>
          sv_update E key v ctx (drop_permit E permit (if permit \<noteq> None then fo_resolve E key v w1 else w1))
      | (NonCacheable r, w1) \<Rightarrow>
          ((r, ctx), drop_permit E permit (if permit \<noteq> None then fo_cleanup E key w1 else w1)))"

definition sv_fetch ::
  "('req, 'c, 'rx, 'w, 'res, 'rp) fsm_env \<Rightarrow> policy_config \<Rightarrow> 'rp \<Rightarrow> upstream_future \<Rightarrow> nat option
   \<Rightarrow> box_context \<Rightarrow> cache_key option \<Rightarrow> 'w \<Rightarrow> ('res \<times> box_context) \<times> 'w" where
  "sv_fetch E policy rp fut permit ctx key w =
     (case awaited (fe_upstream E fut w) of (res, w1) \<Rightarrow>
        (case key of None \<Rightarrow> ((res, ctx), w1) | Some k \<Rightarrow> sv_judge E policy rp res permit ctx k w1))"

definition sv_call ::
  "('req, 'c, 'rx, 'w, 'res, 'rp) fsm_env \<Rightarrow> policy_config \<Rightarrow> 'rp \<Rightarrow> 'req \<Rightarrow> nat option
   \<Rightarrow> box_context \<Rightarrow> cache_key option \<Rightarrow> 'w \<Rightarrow> ('res \<times> box_context) \<times> 'w" where
  "sv_call E policy rp request permit ctx key w =
     (case fo_call E request w of (fut, w1) \<Rightarrow> sv_fetch E policy rp fut permit ctx key w1)"

definition sv_miss ::
  "('req, 'c, 'rx, 'w, 'res, 'rp) fsm_env \<Rightarrow> policy_config \<Rightarrow> 'rp \<Rightarrow> 'req \<Rightarrow> cache_key \<Rightarrow> box_context
   \<Rightarrow> 'w \<Rightarrow> ('res \<times> box_context) \<times> 'w" where
  "sv_miss E policy rp request key ctx w =
     (case (case policy of Enabled cfg \<Rightarrow> ec_concurrency cfg | Disabled \<Rightarrow> None) of
        None \<Rightarrow> sv_call E policy rp request None ctx (Some key) w
      | Some n \<Rightarrow>
          (case fo_check E key n w of
             (Proceed permit, w1) \<Rightarrow> sv_call E policy rp request (Some permit) ctx (Some key) w1
           | (ProceedWithoutPermit, w1) \<Rightarrow> sv_call E policy rp request None ctx (Some key) w1
           | (Await i rx, w1) \<Rightarrow>
               (case awaited (fe_await E i rx w1) of
                  (Inr res, w2) \<Rightarrow> ((res, ctx), w2)
                | (Inl Closed, w2) \<Rightarrow> sv_call E policy rp request None ctx (Some key) (fo_cleanup E key w2)
                | (Inl (Lagged _), w2) \<Rightarrow> sv_call E policy rp request None ctx (Some key) w2)))"

text \<open>A stale hit, by policy; the refreshed value of an offloaded revalidation is for later
  requests.\<close>

definition sv_stale ::
  "('req, 'c, 'rx, 'w, 'res, 'rp) fsm_env \<Rightarrow> policy_config \<Rightarrow> 'rp \<Rightarrow> 'req \<Rightarrow> cache_key \<Rightarrow> 'c \<Rightarrow> box_context
   \<Rightarrow> 'w \<Rightarrow> ('res \<times> box_context) \<times> 'w" where
  "sv_stale E policy rp request key data ctx w =
     (case awaited (fe_from_cached E data w) of (response, w1) \<Rightarrow>
        (case policy_stale policy of
           ReturnStale \<Rightarrow> ((response, ctx_set_status StaleHit ctx), w1)
         | Revalidate \<Rightarrow> sv_call E policy rp request None (ctx_set_status Miss ctx) (Some key) w1
         | OffloadRevalidate \<Rightarrow>
             (case cache_future_revalidate E key request rp policy w1 of (reval, w2) \<Rightarrow>
                ((response, ctx_set_status StaleHit ctx), fe_spawn E ''revalidate'' reval w2))))"

definition sv_lookup ::
  "('req, 'c, 'rx, 'w, 'res, 'rp) fsm_env \<Rightarrow> policy_config \<Rightarrow> 'rp \<Rightarrow> 'req \<Rightarrow> cache_key \<Rightarrow> box_context
   \<Rightarrow> 'w \<Rightarrow> ('res \<times> box_context) \<times> 'w" where
  "sv_lookup E policy rp request key ctx w =
     (case awaited (fe_get E key ctx w) of ((found, ctx1), w1) \<Rightarrow>
        (case found of
           Inr (Some v) \<Rightarrow>
             (case cache_state_of (fo_now E w1) v of
                Actual _ \<Rightarrow>
                  if ctx_read_mode ctx1 = Refill then sv_update E key v (ctx_set_status Hit ctx1) w1
                  else (case awaited (fe_from_cached E (cv_data v) w1) of
                          (response, w2) \<Rightarrow> ((response, ctx_set_status Hit ctx1), w2))
              | Stale _ \<Rightarrow> sv_stale E policy rp request key (cv_data v) (ctx_set_status Hit ctx1) w1
              | Expired _ \<Rightarrow>
                  sv_miss E policy rp request key (ctx_set_status Miss (ctx_set_status Hit ctx1)) w1)
         | _ \<Rightarrow> sv_miss E policy rp request key ctx1 w1))"

definition serve ::
  "('req, 'c, 'rx, 'w, 'res, 'rp) fsm_env \<Rightarrow> policy_config \<Rightarrow> 'rp \<Rightarrow> 'req async_predicate \<Rightarrow> 'req extractor
   \<Rightarrow> 'req \<Rightarrow> 'w \<Rightarrow> ('res \<times> box_context) \<times> 'w" where
  "serve E policy rp p x request w =
     (case policy of
        Disabled \<Rightarrow> sv_call E policy rp request None (boxed cache_context_default) None w
      | Enabled _ \<Rightarrow>
          (case awaited (fe_req_policy E (request, p, x) w) of
             (NonCacheable r, w1) \<Rightarrow> sv_call E policy rp r None (boxed cache_context_default) None w1
           | (Cacheable d, w1) \<Rightarrow>
               sv_lookup E policy rp (cpd_request d) (cpd_key d) (boxed cache_context_default) w1))"

section \<open>The state machine implements it\<close>

text \<open>An environment in which every future is ready when it is first polled.\<close>

definition ready_env :: "('req, 'c, 'rx, 'w, 'res, 'rp) fsm_env \<Rightarrow> bool" where
  "ready_env E \<longleftrightarrow>
     (\<forall>x w. fst (fe_req_policy E x w) \<noteq> None) \<and> (\<forall>k c w. fst (fe_get E k c w) \<noteq> None)
     \<and> (\<forall>k v c w. fst (fe_set E k v c w) \<noteq> None) \<and> (\<forall>x w. fst (fe_upstream E x w) \<noteq> None)
     \<and> (\<forall>x w. fst (fe_res_policy E x w) \<noteq> None) \<and> (\<forall>x w. fst (fe_from_cached E x w) \<noteq> None)
     \<and> (\<forall>i x w. fst (fe_await E i x w) \<noteq> None)"

lemma awaited_ready: "fst p \<noteq> None \<Longrightarrow> awaited p = (a, w) \<Longrightarrow> p = (Some a, w)"
  by (cases p) (auto simp: awaited_def)

lemma ready_envD:
  assumes "ready_env E"
  shows "awaited (fe_req_policy E x w) = (p, w1) \<Longrightarrow> fe_req_policy E x w = (Some p, w1)"
    "awaited (fe_get E k c w) = (g, w1) \<Longrightarrow> fe_get E k c w = (Some g, w1)"
    "awaited (fe_set E k v c w) = (s, w1) \<Longrightarrow> fe_set E k v c w = (Some s, w1)"
    "awaited (fe_upstream E u w) = (res, w1) \<Longrightarrow> fe_upstream E u w = (Some res, w1)"
    "awaited (fe_res_policy E y w) = (q, w1) \<Longrightarrow> fe_res_policy E y w = (Some q, w1)"
    "awaited (fe_from_cached E d w) = (res, w1) \<Longrightarrow> fe_from_cached E d w = (Some res, w1)"
    "awaited (fe_await E i rx w) = (a, w1) \<Longrightarrow> fe_await E i rx w = (Some a, w1)"
  using assms unfolding ready_env_def by (blast intro: awaited_ready)+

definition yields ::
  "('req, 'c, 'rx, 'w, 'res, 'rp) fsm_env \<Rightarrow> ('req, 'res, 'rp, 'c, 'rx) cache_future \<Rightarrow> 'w
   \<Rightarrow> ('res \<times> box_context) \<times> 'w \<Rightarrow> bool" where
  "yields E f w out \<longleftrightarrow>
     (\<exists>f'. fsm_poll E f w = (Ready f' (finish_response \<lparr>rs_response = fst (fst out), rs_ctx = snd (fst out)\<rparr>), snd out))"

lemma fsm_poll_Moved: "fsm_turn E f w = (Moved f', w') \<Longrightarrow> fsm_poll E f w = fsm_poll E f' w'"
  by (subst fsm_poll.simps) simp

lemma yields_Moved: "fsm_turn E f w = (Moved f', w') \<Longrightarrow> yields E f' w' out \<Longrightarrow> yields E f w out"
  by (simp add: yields_def fsm_poll_Moved)

lemma yields_Response:
  "cf_state f = Response (Some d) \<Longrightarrow> yields E f w ((rs_response d, rs_ctx d), w)"
  unfolding yields_def by (subst fsm_poll.simps) (simp add: fsm_turn.simps finish_response_def)

lemma yields_UpdateCache:
  assumes "ready_env E" "cf_state f = UpdateCache (Setting key v ctx) (Some ())"
  shows "yields E f w (sv_update E key v ctx w)"
proof -
  obtain r c1 w1 where set: "awaited (fe_set E key v ctx w) = ((r, c1), w1)" by (metis surj_pair)
  obtain res w2 where conv: "awaited (fe_from_cached E (cv_data v) w1) = (res, w2)" by fastforce
  have "fsm_turn E f w = (Moved (f\<lparr>cf_state := Response (Some \<lparr>rs_response = res, rs_ctx = c1\<rparr>)\<rparr>), w2)"
    using assms(2) ready_envD(3) [OF assms(1) set] ready_envD(6) [OF assms(1) conv]
    by (simp add: fsm_turn.simps poll_update_def Let_def into_inner_def update_cache_next_def)
  from yields_Moved [OF this yields_Response] show ?thesis
    by (simp add: sv_update_def set conv)
qed

lemma yields_CheckResponse:
  assumes "ready_env E"
    "cf_state f = CheckResponseCachePolicy (res, rp, policy_entity policy) (Some \<lparr>cs_permit = pm, cs_ctx = ctx, cs_cache_key = key\<rparr>)"
  shows "yields E f w (sv_judge E policy rp res pm ctx key w)"
proof -
  obtain q w1 where q: "awaited (fe_res_policy E (res, rp, policy_entity policy) w) = (q, w1)" by fastforce
  note q' = ready_envD(5) [OF assms(1) q]
  show ?thesis
  proof (cases q)
    case (Cacheable v)
    let ?w = "drop_permit E pm (if pm \<noteq> None then fo_resolve E key v w1 else w1)"
    let ?f = "f\<lparr>cf_state := UpdateCache (Setting key v ctx) (Some ())\<rparr>"
    have "fsm_turn E f w = (Moved ?f, ?w)"
      using assms(2) q' Cacheable by (simp add: fsm_turn.simps check_response_next_def Let_def)
    moreover have "yields E ?f ?w (sv_update E key v ctx ?w)"
      by (rule yields_UpdateCache [OF assms(1)]) simp
    ultimately show ?thesis by (simp add: sv_judge_def q Cacheable yields_Moved)
  next
    case (NonCacheable r)
    have "fsm_turn E f w = (Moved (f\<lparr>cf_state := Response (Some \<lparr>rs_response = r, rs_ctx = ctx\<rparr>)\<rparr>),
        drop_permit E pm (if pm \<noteq> None then fo_cleanup E key w1 else w1))"
      using assms(2) q' NonCacheable by (simp add: fsm_turn.simps check_response_next_def Let_def)
    from yields_Moved [OF this yields_Response] show ?thesis
      by (simp add: sv_judge_def q NonCacheable)
  qed
qed

lemma yields_PollUpstream:
  assumes "ready_env E" "cf_state f = PollUpstream fut (Some \<lparr>pu_permit = pm, pu_ctx = ctx, pu_cache_key = key\<rparr>)"
    "cf_response_predicates f = Some rp"
  shows "yields E f w (sv_fetch E (cf_policy f) rp fut pm ctx key w)"
proof -
  obtain res w1 where u: "awaited (fe_upstream E fut w) = (res, w1)" by fastforce
  note u' = ready_envD(4) [OF assms(1) u]
  show ?thesis
  proof (cases key)
    case None
    have "fsm_turn E f w = (Moved (f\<lparr>cf_state := Response (Some \<lparr>rs_response = res, rs_ctx = ctx\<rparr>),
        cf_response_predicates := None\<rparr>), w1)"
      using assms(2,3) u' None by (simp add: fsm_turn.simps poll_upstream_next_def)
    from yields_Moved [OF this yields_Response] show ?thesis
      by (simp add: sv_fetch_def u None)
  next
    case (Some k)
    let ?f = "f\<lparr>cf_state := CheckResponseCachePolicy (res, rp, policy_entity (cf_policy f))
        (Some \<lparr>cs_permit = pm, cs_ctx = ctx, cs_cache_key = k\<rparr>), cf_response_predicates := None\<rparr>"
    have "fsm_turn E f w = (Moved ?f, w1)"
      using assms(2,3) u' Some by (simp add: fsm_turn.simps poll_upstream_next_def)
    moreover have "yields E ?f w1 (sv_judge E (cf_policy f) rp res pm ctx k w1)"
      by (rule yields_CheckResponse [OF assms(1)]) simp
    ultimately show ?thesis by (simp add: sv_fetch_def u Some yields_Moved)
  qed
qed

lemma yields_call:
  assumes "ready_env E" "fo_call E request w = (fut, w1)"
    "cf_state f = PollUpstream fut (Some \<lparr>pu_permit = pm, pu_ctx = ctx, pu_cache_key = key\<rparr>)"
    "cf_response_predicates f = Some rp"
  shows "yields E f w1 (sv_call E (cf_policy f) rp request pm ctx key w)"
  using yields_PollUpstream [OF assms(1,3,4)] assms(2) by (simp add: sv_call_def)

lemma yields_AwaitResponse:
  assumes "ready_env E" "cf_state f = AwaitResponse (i, rx) (Some \<lparr>ar_request = request, ar_ctx = ctx, ar_cache_key = key\<rparr>)"
    "cf_response_predicates f = Some rp" and pol: "cf_policy f = policy"
  shows "yields E f w
     (case awaited (fe_await E i rx w) of
        (Inr res, w2) \<Rightarrow> ((res, ctx), w2)
      | (Inl Closed, w2) \<Rightarrow> sv_call E policy rp request None ctx (Some key) (fo_cleanup E key w2)
      | (Inl (Lagged _), w2) \<Rightarrow> sv_call E policy rp request None ctx (Some key) w2)"
proof -
  obtain r w1 where r: "awaited (fe_await E i rx w) = (r, w1)" by fastforce
  note r' = ready_envD(7) [OF assms(1) r]
  show ?thesis
  proof (cases r)
    case (Inr res)
    have "fsm_turn E f w = (Moved (f\<lparr>cf_state := Response (Some \<lparr>rs_response = res, rs_ctx = ctx\<rparr>)\<rparr>), w1)"
      using assms(2) r' Inr by (simp add: fsm_turn.simps await_response_next_def)
    from yields_Moved [OF this yields_Response] show ?thesis by (simp add: r Inr)
  next
    case (Inl e)
    define w2 where "w2 = (case e of Lagged n \<Rightarrow> w1 | Closed \<Rightarrow> fo_cleanup E key w1)"
    obtain fut w3 where c: "fo_call E request w2 = (fut, w3)" by fastforce
    let ?f = "f\<lparr>cf_state := PollUpstream fut (Some \<lparr>pu_permit = None, pu_ctx = ctx, pu_cache_key = Some key\<rparr>)\<rparr>"
    have "fsm_turn E f w = (Moved ?f, w3)"
      using assms(2) r' Inl c by (cases e) (simp_all add: fsm_turn.simps await_response_next_def w2_def)
    moreover have "yields E ?f w3 (sv_call E (cf_policy ?f) rp request None ctx (Some key) w2)"
      by (rule yields_call [OF assms(1) c]) (simp_all add: assms(3))
    ultimately have "yields E f w (sv_call E policy rp request None ctx (Some key) w2)"
      using pol by (simp add: yields_Moved)
    then show ?thesis by (cases e) (simp_all add: r Inl w2_def)
  qed
qed

lemma yields_upstream_transition:
  assumes "ready_env E" "transition_to_upstream E (cf_policy f) \<lparr>pc_request = request, pc_cache_key = key\<rparr> ctx w = (t, w1)"
    "cf_response_predicates f = Some rp"
  shows "yields E (f\<lparr>cf_state := poll_cache_into_state t\<rparr>) w1 (sv_miss E (cf_policy f) rp request key ctx w)"
proof -
  define lim where "lim = (case cf_policy f of Enabled cfg \<Rightarrow> ec_concurrency cfg | Disabled \<Rightarrow> None)"
  have call: "yields E (f\<lparr>cf_state := PollUpstream fut (Some \<lparr>pu_permit = pm, pu_ctx = ctx, pu_cache_key = Some key\<rparr>)\<rparr>)
      w3 (sv_call E (cf_policy f) rp request pm ctx (Some key) w2)"
    if "fo_call E request w2 = (fut, w3)" for fut pm w2 w3
    using yields_call [OF assms(1) that, of "f\<lparr>cf_state := PollUpstream fut (Some \<lparr>pu_permit = pm, pu_ctx = ctx, pu_cache_key = Some key\<rparr>)\<rparr>"]
    by (simp add: assms(3))
  show ?thesis
  proof (cases lim)
    case None
    then show ?thesis
      using assms(2) call unfolding sv_miss_def transition_to_upstream_def Let_def lim_def [symmetric]
      by (auto split: prod.splits)
  next
    case (Some n)
    obtain d w2 where d: "fo_check E key n w = (d, w2)" by fastforce
    show ?thesis
    proof (cases d)
      case (Await i rx)
      have t: "t = PT_AwaitResponse (i, rx) request ctx key" "w1 = w2"
        using assms(2) Some d Await unfolding transition_to_upstream_def Let_def lim_def [symmetric] by auto
      have m: "sv_miss E (cf_policy f) rp request key ctx w =
        (case awaited (fe_await E i rx w1) of
          (Inr res, w2) \<Rightarrow> ((res, ctx), w2)
        | (Inl Closed, w2) \<Rightarrow> sv_call E (cf_policy f) rp request None ctx (Some key) (fo_cleanup E key w2)
        | (Inl (Lagged _), w2) \<Rightarrow> sv_call E (cf_policy f) rp request None ctx (Some key) w2)"
        using t Some d Await unfolding sv_miss_def lim_def [symmetric] by simp
      show ?thesis
        unfolding m by (rule yields_AwaitResponse [OF assms(1)]) (simp_all add: t(1) assms(3))
    qed (use assms(2) Some d call in \<open>auto simp: sv_miss_def transition_to_upstream_def Let_def lim_def [symmetric]
           split: prod.splits\<close>)
  qed
qed

lemma yields_HandleStale:
  assumes "ready_env E" "cf_state f = HandleStale (data, ctx) (Some \<lparr>hs_request = request, hs_cache_key = key\<rparr>)"
    "cf_response_predicates f = Some rp"
  shows "yields E f w (sv_stale E (cf_policy f) rp request key data ctx w)"
proof -
  obtain res w1 where r: "awaited (fe_from_cached E data w) = (res, w1)" by fastforce
  note r' = ready_envD(6) [OF assms(1) r]
  show ?thesis
  proof (cases "policy_stale (cf_policy f)")
    case ReturnStale
    have "fsm_turn E f w = (Moved (f\<lparr>cf_state := Response (Some \<lparr>rs_response = res, rs_ctx = ctx_set_status StaleHit ctx\<rparr>)\<rparr>), w1)"
      using assms(2) r' ReturnStale by (simp add: fsm_turn.simps handle_stale_next_def)
    from yields_Moved [OF this yields_Response] show ?thesis
      by (simp add: sv_stale_def r ReturnStale)
  next
    case Revalidate
    obtain fut w2 where c: "fo_call E request w1 = (fut, w2)" by fastforce
    let ?f = "f\<lparr>cf_state := PollUpstream fut (Some \<lparr>pu_permit = None, pu_ctx = ctx_set_status Miss ctx, pu_cache_key = Some key\<rparr>)\<rparr>"
    have "fsm_turn E f w = (Moved ?f, w2)"
      using assms(2) r' c Revalidate by (simp add: fsm_turn.simps handle_stale_next_def)
    moreover have "yields E ?f w2 (sv_call E (cf_policy ?f) rp request None (ctx_set_status Miss ctx) (Some key) w1)"
      by (rule yields_call [OF assms(1) c]) (simp_all add: assms(3))
    ultimately show ?thesis by (simp add: sv_stale_def r Revalidate yields_Moved)
  next
    case OffloadRevalidate
    obtain reval w2 where c: "cache_future_revalidate E key request rp (cf_policy f) w1 = (reval, w2)"
      and "fe_spawn E [] reval w2 = fe_spawn E [] reval w2" by (metis surj_pair)
    have "fsm_turn E f w = (Moved (f\<lparr>cf_response_predicates := None,
        cf_state := Response (Some \<lparr>rs_response = res, rs_ctx = ctx_set_status StaleHit ctx\<rparr>)\<rparr>), fe_spawn E ''revalidate'' reval w2)"
      using assms(2,3) r' c OffloadRevalidate
      by (simp add: fsm_turn.simps handle_stale_next_def spawn_revalidation_def)
    from yields_Moved [OF this yields_Response] show ?thesis
      by (simp add: sv_stale_def r OffloadRevalidate c)
  qed
qed

lemma yields_ConvertResponse:
  assumes "ready_env E" "cf_state f = ConvertResponse (data, ctx) (Some st)"
    "awaited (fe_from_cached E data w) = (res, w1)"
  shows "yields E f w ((res, ctx), w1)"
proof -
  have "fsm_turn E f w = (Moved (f\<lparr>cf_state := Response (Some \<lparr>rs_response = res, rs_ctx = ctx\<rparr>)\<rparr>), w1)"
    using assms(2) ready_envD(6) [OF assms(1,3)] by (simp add: fsm_turn.simps convert_response_next_def)
  from yields_Moved [OF this yields_Response] show ?thesis by simp
qed

lemma yields_PollCache:
  assumes "ready_env E" "cf_state f = PollCache (key, ctx) (Some \<lparr>pc_request = request, pc_cache_key = key\<rparr>)"
    "cf_response_predicates f = Some rp"
  shows "yields E f w (sv_lookup E (cf_policy f) rp request key ctx w)"
proof -
  let ?st = "\<lparr>pc_request = request, pc_cache_key = key\<rparr>"
  obtain found ctx1 w1 where g: "awaited (fe_get E key ctx w) = ((found, ctx1), w1)" by (metis surj_pair)
  note g' = ready_envD(2) [OF assms(1) g]
  have turn: "fsm_turn E f w = (Moved (f\<lparr>cf_state := poll_cache_into_state t\<rparr>), w2)"
    if "poll_cache_next E (cf_policy f) found ctx1 ?st w1 = (t, w2)" for t w2
    using assms(2) g' that by (simp add: fsm_turn.simps)
  have miss: "yields E f w (sv_miss E (cf_policy f) rp request key c w1)"
    if "poll_cache_next E (cf_policy f) found ctx1 ?st w1 = transition_to_upstream E (cf_policy f) ?st c w1" for c
  proof -
    obtain t w2 where t: "transition_to_upstream E (cf_policy f) ?st c w1 = (t, w2)" by fastforce
    then have "fsm_turn E f w = (Moved (f\<lparr>cf_state := poll_cache_into_state t\<rparr>), w2)" using turn that by simp
    then show ?thesis by (rule yields_Moved) (rule yields_upstream_transition [OF assms(1) t assms(3)])
  qed
  show ?thesis
  proof (cases "case found of Inr cached \<Rightarrow> cached | Inl _ \<Rightarrow> None")
    case None
    then have "sv_lookup E (cf_policy f) rp request key ctx w = sv_miss E (cf_policy f) rp request key ctx1 w1"
      by (auto simp: sv_lookup_def g split: sum.splits)
    then show ?thesis using miss None by (simp add: poll_cache_next_def)
  next
    case (Some v)
    then have found: "found = Inr (Some v)" by (auto split: sum.splits)
    show ?thesis
    proof (cases "cache_state_of (fo_now E w1) v")
      case (Stale u)
      let ?f = "f\<lparr>cf_state := HandleStale (cv_data v, ctx_set_status Hit ctx1) (Some \<lparr>hs_request = request, hs_cache_key = key\<rparr>)\<rparr>"
      have u: "u = v" using Stale by (simp add: cache_state_value)
      have t: "fsm_turn E f w = (Moved ?f, w1)"
        using turn found Stale u by (simp add: poll_cache_next_def Let_def into_inner_def)
      have "yields E ?f w1 (sv_stale E (cf_policy ?f) rp request key (cv_data v) (ctx_set_status Hit ctx1) w1)"
        by (rule yields_HandleStale [OF assms(1)]) (simp_all add: assms(3))
      then show ?thesis using yields_Moved [OF t] by (simp add: sv_lookup_def g found Stale)
    next
      case (Expired u)
      then show ?thesis
        using miss [of "ctx_set_status Miss (ctx_set_status Hit ctx1)"] found
        by (simp add: poll_cache_next_def sv_lookup_def g Let_def)
    next
      case (Actual u)
      have u: "u = v" using Actual by (simp add: cache_state_value)
      show ?thesis
      proof (cases "ctx_read_mode ctx1 = Refill")
        case True
        let ?f = "f\<lparr>cf_state := UpdateCache (Setting key v (ctx_set_status Hit ctx1)) (Some ())\<rparr>"
        have t: "fsm_turn E f w = (Moved ?f, w1)"
          using turn found Actual u True by (simp add: poll_cache_next_def Let_def)
        have "yields E ?f w1 (sv_update E key v (ctx_set_status Hit ctx1) w1)"
          by (rule yields_UpdateCache [OF assms(1)]) simp
        then show ?thesis using yields_Moved [OF t] by (simp add: sv_lookup_def g found Actual True)
      next
        case False
        let ?f = "f\<lparr>cf_state := ConvertResponse (cv_data v, ctx_set_status Hit ctx1) (Some \<lparr>cr_cache_key = key\<rparr>)\<rparr>"
        obtain res w2 where r: "awaited (fe_from_cached E (cv_data v) w1) = (res, w2)" by fastforce
        have t: "fsm_turn E f w = (Moved ?f, w1)"
          using turn found Actual u False by (simp add: poll_cache_next_def Let_def into_inner_def)
        have "yields E ?f w1 ((res, ctx_set_status Hit ctx1), w2)"
          by (rule yields_ConvertResponse [OF assms(1) _ r]) simp
        then show ?thesis using yields_Moved [OF t] False by (simp add: sv_lookup_def g found Actual r)
      qed
    qed
  qed
qed

lemma yields_CheckRequest:
  assumes "ready_env E" "cf_state f = CheckRequestCachePolicy (request, p, x) (Some \<lparr>cq_ctx = ctx\<rparr>)"
    "cf_response_predicates f = Some rp" and pol: "cf_policy f = policy"
  shows "yields E f w
     (case awaited (fe_req_policy E (request, p, x) w) of
        (NonCacheable r, w1) \<Rightarrow> sv_call E policy rp r None ctx None w1
      | (Cacheable d, w1) \<Rightarrow> sv_lookup E policy rp (cpd_request d) (cpd_key d) ctx w1)"
proof -
  obtain pol w1 where q: "awaited (fe_req_policy E (request, p, x) w) = (pol, w1)" by fastforce
  note q' = ready_envD(1) [OF assms(1) q]
  show ?thesis
  proof (cases pol)
    case (Cacheable d)
    let ?f = "f\<lparr>cf_state := PollCache (cpd_key d, ctx) (Some \<lparr>pc_request = cpd_request d, pc_cache_key = cpd_key d\<rparr>),
                cf_cache_key := Some (cpd_key d)\<rparr>"
    have t: "fsm_turn E f w = (Moved ?f, w1)"
      using assms(2) q' Cacheable by (simp add: fsm_turn.simps check_request_next_def)
    have "yields E ?f w1 (sv_lookup E (cf_policy ?f) rp (cpd_request d) (cpd_key d) ctx w1)"
      by (rule yields_PollCache [OF assms(1)]) (simp_all add: assms(3))
    then show ?thesis using yields_Moved [OF t] by (simp add: q Cacheable pol)
  next
    case (NonCacheable r)
    obtain fut w2 where c: "fo_call E r w1 = (fut, w2)" by fastforce
    let ?f = "f\<lparr>cf_state := PollUpstream fut (Some \<lparr>pu_permit = None, pu_ctx = ctx, pu_cache_key = None\<rparr>)\<rparr>"
    have t: "fsm_turn E f w = (Moved ?f, w2)"
      using assms(2) q' NonCacheable c by (simp add: fsm_turn.simps check_request_next_def)
    have "yields E ?f w2 (sv_call E (cf_policy ?f) rp r None ctx None w1)"
      by (rule yields_call [OF assms(1) c]) (simp_all add: assms(3))
    then show ?thesis using yields_Moved [OF t] by (simp add: q NonCacheable pol)
  qed
qed

lemma yields_new:
  assumes "ready_env E"
  shows "yields E (cache_future_new request p rp x policy) w (serve E policy rp p x request w)"
proof (cases policy)
  case (Enabled cfg)
  let ?init = "cache_future_new request p rp x policy"
  let ?f = "?init\<lparr>cf_state := CheckRequestCachePolicy (request, p, x) (Some \<lparr>cq_ctx = boxed cache_context_default\<rparr>)\<rparr>"
  have t: "fsm_turn E ?init w = (Moved ?f, w)"
    by (simp add: fsm_turn.simps cache_future_new_def initial_next_def Enabled)
  have "yields E ?f w (case awaited (fe_req_policy E (request, p, x) w) of
        (NonCacheable r, w1) \<Rightarrow> sv_call E policy rp r None (boxed cache_context_default) None w1
      | (Cacheable d, w1) \<Rightarrow> sv_lookup E policy rp (cpd_request d) (cpd_key d) (boxed cache_context_default) w1)"
    by (rule yields_CheckRequest [OF assms]) (simp_all add: cache_future_new_def)
  from yields_Moved [OF t this] show ?thesis unfolding serve_def Enabled by simp
next
  case Disabled
  let ?init = "cache_future_new request p rp x policy"
  obtain fut w1 where c: "fo_call E request w = (fut, w1)" by fastforce
  let ?f = "?init\<lparr>cf_state := PollUpstream fut (Some \<lparr>pu_permit = None, pu_ctx = boxed cache_context_default, pu_cache_key = None\<rparr>)\<rparr>"
  have t: "fsm_turn E ?init w = (Moved ?f, w1)"
    using c by (simp add: fsm_turn.simps cache_future_new_def initial_next_def Disabled)
  have "yields E ?f w1 (sv_call E policy rp request None (boxed cache_context_default) None w)"
    using yields_call [OF assms c, of ?f None "boxed cache_context_default" None rp]
    by (simp add: cache_future_new_def)
  then show ?thesis using yields_Moved [OF t] by (simp add: serve_def Disabled)
qed

lemma yields_revalidate:
  assumes "ready_env E" "cache_future_revalidate E key request rp policy w = (f, w1)"
  shows "yields E f w1 (sv_call E policy rp request None (boxed cache_context_default) (Some key) w)"
proof -
  obtain fut where c: "fo_call E request w = (fut, w1)" and
    f: "cf_state f = PollUpstream fut (Some \<lparr>pu_permit = None, pu_ctx = boxed cache_context_default, pu_cache_key = Some key\<rparr>)"
      "cf_response_predicates f = Some rp" "cf_policy f = policy"
    using assms(2) by (auto simp: cache_future_revalidate_def split: prod.splits)
  show ?thesis using yields_call [OF assms(1) c f(1,2)] f(3) by simp
qed

lemma yields_Ready:
  "yields E f w ((res, ctx), w') \<longleftrightarrow>
     (\<exists>f'. fsm_poll E f w = (Ready f' (finish_response \<lparr>rs_response = res, rs_ctx = ctx\<rparr>), w'))"
  by (simp add: yields_def)

lemmas serve_defs = serve_def sv_lookup_def sv_stale_def sv_miss_def sv_call_def sv_fetch_def sv_judge_def
  sv_update_def

section \<open>Backend errors\<close>

text \<open>The same environment with every failed lookup turned into a miss.\<close>

definition errors_as_misses ::
  "('req, 'c, 'rx, 'w, 'res, 'rp) fsm_env \<Rightarrow> ('req, 'c, 'rx, 'w, 'res, 'rp) fsm_env" where
  "errors_as_misses E =
     E\<lparr>fe_get := (\<lambda>k c w. case fe_get E k c w of
                          (Some (Inl e, c'), w') \<Rightarrow> (Some (Inr None, c'), w')
                        | r \<Rightarrow> r)\<rparr>"

lemma errors_as_misses_sel [simp]:
  "fo_now (errors_as_misses E) = fo_now E" "fo_call (errors_as_misses E) = fo_call E"
  "fo_check (errors_as_misses E) = fo_check E" "fo_resolve (errors_as_misses E) = fo_resolve E"
  "fo_cleanup (errors_as_misses E) = fo_cleanup E" "fo_permit_drop (errors_as_misses E) = fo_permit_drop E"
  "fe_req_policy (errors_as_misses E) = fe_req_policy E" "fe_set (errors_as_misses E) = fe_set E"
  "fe_upstream (errors_as_misses E) = fe_upstream E" "fe_res_policy (errors_as_misses E) = fe_res_policy E"
  "fe_from_cached (errors_as_misses E) = fe_from_cached E" "fe_await (errors_as_misses E) = fe_await E"
  "fe_spawn (errors_as_misses E) = fe_spawn E"
  by (simp_all add: errors_as_misses_def)

lemma transition_errors_as_misses [simp]:
  "transition_to_upstream (errors_as_misses E) = transition_to_upstream E"
  "poll_cache_next (errors_as_misses E) = poll_cache_next E"
  "initial_next (errors_as_misses E) = initial_next E"
  "check_request_next (errors_as_misses E) = check_request_next E"
  "await_response_next (errors_as_misses E) = await_response_next E"
  "handle_stale_next (errors_as_misses E) = handle_stale_next E"
  "check_response_next (errors_as_misses E) = check_response_next E"
  "spawn_revalidation (errors_as_misses E) = spawn_revalidation E"
  "poll_update (errors_as_misses E) = poll_update E"
proof -
  show t: "transition_to_upstream (errors_as_misses E) = transition_to_upstream E"
    by (intro ext) (unfold transition_to_upstream_def errors_as_misses_sel, rule refl)
  show "poll_cache_next (errors_as_misses E) = poll_cache_next E"
    by (intro ext) (unfold poll_cache_next_def errors_as_misses_sel t, rule refl)
  show "check_response_next (errors_as_misses E) = check_response_next E"
    unfolding check_response_next_def drop_permit_def errors_as_misses_sel ..
  show "spawn_revalidation (errors_as_misses E) = spawn_revalidation E"
    unfolding spawn_revalidation_def cache_future_revalidate_def errors_as_misses_sel ..
qed (unfold initial_next_def check_request_next_def await_response_next_def
    handle_stale_next_def poll_update_def errors_as_misses_sel, (rule refl)+)

lemma poll_cache_transition_error:
  "poll_cache_next E policy (Inl e) = poll_cache_next E policy (Inr None)"
  by (intro ext) (simp add: poll_cache_next_def)

lemma fsm_turn_errors_as_misses: "fsm_turn (errors_as_misses E) f w = fsm_turn E f w"
proof (cases "cf_state f")
  case (PollCache fut st)
  obtain g w1 where g: "fe_get E (fst fut) (snd fut) w = (g, w1)" by fastforce
  have "fe_get (errors_as_misses E) (fst fut) (snd fut) w =
      (case g of Some (Inl e, c') \<Rightarrow> (Some (Inr None, c'), w1) | _ \<Rightarrow> (g, w1))"
    by (simp add: errors_as_misses_def g split: option.split prod.split sum.split)
  then show ?thesis
    using PollCache g
    by (cases st; cases g)
      (auto simp: fsm_turn.simps poll_cache_transition_error split: prod.split sum.split)
qed (simp_all add: fsm_turn.simps split: option.split prod.split)

lemma fsm_poll_errors_as_misses: "fsm_poll (errors_as_misses E) f w = fsm_poll E f w"
proof (induction E f w rule: fsm_poll.induct)
  case (1 E f w)
  then show ?case
    by (subst (1 2) fsm_poll.simps) (auto simp: fsm_turn_errors_as_misses split: prod.split turn.split)
qed

section \<open>An environment to run the machine in\<close>

text \<open>A map for a store, an upstream that answers a request \<open>n\<close> with \<open>10 * n\<close> and counts its calls,
  and a manager that never limits: enough to run the machine on concrete requests.\<close>

record demo_world =
  dw_store :: "cache_key \<Rightarrow> nat cache_value option"
  dw_calls :: "nat list"
  dw_time :: time

definition demo_env :: "(nat, nat, nat, demo_world, nat, nat predicate) fsm_env" where
  "demo_env =
     \<lparr>fo_now = dw_time,
      fo_call = (\<lambda>r w. (r, w\<lparr>dw_calls := dw_calls w @ [r]\<rparr>)),
      fo_check = (\<lambda>k n w. (ProceedWithoutPermit, w)),
      fo_resolve = (\<lambda>k v w. w), fo_cleanup = (\<lambda>k w. w), fo_permit_drop = (\<lambda>i w. w),
      fe_req_policy = (\<lambda>(r, p, x) w.
        (Some (case p r of Some (PCacheable r') \<Rightarrow>
                 (case into_cache_key (x r') of (r'', k) \<Rightarrow> Cacheable (cacheable_policy_data_new k r''))
               | Some (PNonCacheable r') \<Rightarrow> NonCacheable r' | None \<Rightarrow> NonCacheable r), w)),
      fe_get = (\<lambda>k c w. (Some (Inr (dw_store w k),
        if dw_store w k = None then c else ctx_set_source (SrcBackend (BackendLabel ''demo'')) c), w)),
      fe_set = (\<lambda>k v c w. (Some (Inr (), c), w\<lparr>dw_store := (dw_store w)(k \<mapsto> v)\<rparr>)),
      fe_upstream = (\<lambda>u w. (Some (10 * u), w)),
      fe_res_policy = (\<lambda>(res, p, cfg) w.
        (Some (case p res of PCacheable r \<Rightarrow> Cacheable (stamp (dw_time w) (dw_time w) cfg r)
               | PNonCacheable r \<Rightarrow> NonCacheable r), w)),
      fe_from_cached = (\<lambda>d w. (Some d, w)),
      fe_await = (\<lambda>i rx w. (Some (Err Closed), w)),
      fe_spawn = (\<lambda>kind fut w. w)\<rparr>"

lemma demo_call [simp]: "fo_call demo_env r w = (r, w\<lparr>dw_calls := dw_calls w @ [r]\<rparr>)"
  "fe_upstream demo_env u w = (Some (10 * u), w)"
  by (simp_all add: demo_env_def)

lemma ready_demo_env: "ready_env demo_env"
  by (auto simp: ready_env_def demo_env_def)

definition demo_extractor :: "nat extractor" where
  "demo_extractor r = key_parts_push (key_part_new ''id'' (Some (show_nat r))) (key_parts_new r)"

definition demo_start :: demo_world where
  "demo_start = \<lparr>dw_store = (\<lambda>_. None), dw_calls = [], dw_time = 100\<rparr>"

lemma demo_start_sel [simp]: "dw_calls demo_start = []" "dw_time demo_start = 100" "dw_store demo_start k = None"
  by (simp_all add: demo_start_def)

section \<open>Properties\<close>

text \<open>C7. The cache future never panics: whichever of its constructors made it, however its inner
  futures stay pending, and in whatever world each poll happens, a poll before completion returns
  Pending or Ready; in particular the response predicates, which an offloaded revalidation also
  takes, are never taken twice.\<close>

theorem cache_future_never_panics:
  assumes "poll_reach E start f"
    and "start = cache_future_new request p rp x policy \<or> start = fst (cache_future_revalidate E key request rp policy w0)"
  shows "\<exists>f' out w'. fsm_poll E f w = (Pending f', w') \<or> fsm_poll E f w = (Ready f' out, w')"
proof -
  have "wf_future start" using assms(2) wf_cache_future_revalidate by auto
  then have "wf_future f" by (rule poll_reach_wf [OF assms(1)])
  from fsm_poll_wf [OF this, of E w] show ?thesis
    by (cases "fsm_poll E f w") (auto split: turn.splits)
qed

theorem cache_future_never_panics_witness:
  "\<exists>f' out w'. fsm_poll demo_env (cache_future_new 4 async_neutral neutral demo_extractor policy_config_default) demo_start
       = (Pending f', w')
     \<or> fsm_poll demo_env (cache_future_new 4 async_neutral neutral demo_extractor policy_config_default) demo_start
       = (Ready f' out, w')"
  by (rule cache_future_never_panics [OF polled_first disjI1 [OF refl]])

text \<open>C1. The state machine implements the direct specification of serving a request: when the
  futures it awaits are ready, one poll of a new cache future returns exactly the response, the
  context and the world that the specification computes, on every path (bypass, hit, refill,
  stale under each policy, expired, miss with and without a concurrency limit, awaited response
  and its fallbacks, cacheable and non-cacheable responses).\<close>

theorem fsm_refines_serve:
  assumes "ready_env E"
  shows "\<exists>f'. fsm_poll E (cache_future_new request p rp x policy) w =
     (case serve E policy rp p x request w of
        ((res, ctx), w') \<Rightarrow> (Ready f' (finish_response \<lparr>rs_response = res, rs_ctx = ctx\<rparr>), w'))"
  using yields_new [OF assms, of request p rp x policy w] unfolding yields_def by (simp add: case_prod_unfold)

theorem fsm_refines_serve_witness:
  "\<exists>f' w'. fsm_poll demo_env (cache_future_new 4 async_neutral neutral demo_extractor policy_config_default) demo_start
     = (Ready f' (40, cache_context_default), w') \<and> dw_calls w' = [4]"
proof -
  have "serve demo_env policy_config_default neutral async_neutral demo_extractor 4 demo_start =
      ((40, boxed cache_context_default),
       demo_start\<lparr>dw_calls := [4], dw_store := (dw_store demo_start)(snd (into_cache_key (demo_extractor 4)) \<mapsto>
          stamp 100 100 (policy_entity policy_config_default) 40)\<rparr>)"
    by (simp add: serve_defs awaited_def demo_env_def demo_start_def policy_config_default_def
        enabled_cache_config_default_def neutral_def async_neutral_def demo_extractor_def into_cache_key_eq
        cacheable_policy_data_new_def drop_permit_def)
  with fsm_refines_serve [OF ready_demo_env, of 4 async_neutral neutral demo_extractor policy_config_default demo_start]
  show ?thesis by (auto simp: finish_response_def boxed_def cache_context_default_def)
qed

text \<open>The cache is bypassed completely when the policy is disabled or the request is not
  cacheable: the response is the upstream's own, the context says miss from upstream, and nothing
  happens to the world but the request's policy check, one upstream call and its completion, no
  lookup, no store, no concurrency manager.\<close>

lemma bypass_is_transparent:
  assumes "ready_env E"
    and "policy = Disabled \<and> r = request \<and> w0 = w
         \<or> (\<exists>cfg. policy = Enabled cfg) \<and> fe_req_policy E (request, p, x) w = (Some (NonCacheable r), w0)"
    and "fo_call E r w0 = (fut, w1)" and "fe_upstream E fut w1 = (Some res, w2)"
  shows "\<exists>f'. fsm_poll E (cache_future_new request p rp x policy) w = (Ready f' (res, cache_context_default), w2)"
proof -
  have "serve E policy rp p x request w = ((res, boxed cache_context_default), w2)"
    using assms(2-4) by (auto simp: serve_def sv_call_def sv_fetch_def awaited_def)
  then show ?thesis
    using yields_new [OF assms(1), of request p rp x policy w]
    by (auto simp: yields_def finish_response_def boxed_def cache_context_default_def)
qed

theorem bypass_is_transparent_witness:
  "\<exists>f'. fsm_poll demo_env (cache_future_new 4 async_neutral neutral demo_extractor Disabled) demo_start
     = (Ready f' (40, cache_context_default), demo_start\<lparr>dw_calls := [4]\<rparr>)"
  by (rule bypass_is_transparent [OF ready_demo_env, where r = 4 and ?w0.0 = demo_start and fut = 4 and ?w1.0 = "demo_start\<lparr>dw_calls := [4]\<rparr>"])
    simp_all

text \<open>C10. A fresh hit is served from the cache: when the lookup finds a value that is neither
  expired nor stale and no refill is asked for, the response is the conversion of the stored data,
  the context says hit with the source the backend set, and the upstream is not called: the world
  changes by the policy check, the lookup and the conversion only.\<close>

theorem fresh_hit_serves_cached:
  assumes "ready_env E"
    and "fe_req_policy E (request, p, x) w = (Some (Cacheable d), w1)"
    and "fe_get E (cpd_key d) (boxed cache_context_default) w1 = (Some (Ok (Some v), c), w2)"
    and "cache_state_of (fo_now E w2) v = Actual v" and "ctx_read_mode c \<noteq> Refill"
    and "fe_from_cached E (cv_data v) w2 = (Some res, w3)"
  shows "\<exists>f' ctx. fsm_poll E (cache_future_new request p rp x (Enabled cfg)) w = (Ready f' (res, ctx), w3)
     \<and> cc_status ctx = Hit \<and> cc_source ctx = ctx_source c"
proof -
  have "serve E (Enabled cfg) rp p x request w = ((res, ctx_set_status Hit c), w3)"
    using assms(2-6) by (simp add: serve_def sv_lookup_def awaited_def)
  then show ?thesis
    using yields_new [OF assms(1), of request p rp x "Enabled cfg" w]
    by (auto simp: yields_def finish_response_def)
qed

theorem fresh_hit_serves_cached_witness:
  "\<exists>f' ctx. fsm_poll demo_env (cache_future_new 4 async_neutral neutral demo_extractor (Enabled enabled_cache_config_default))
       (demo_start\<lparr>dw_store := (\<lambda>k. Some (cache_value_new 7 None None))\<rparr>)
     = (Ready f' (7, ctx), demo_start\<lparr>dw_store := (\<lambda>k. Some (cache_value_new 7 None None))\<rparr>)
     \<and> cc_status ctx = Hit \<and> cc_source ctx = SrcBackend (BackendLabel ''demo'')"
proof -
  let ?w = "demo_start\<lparr>dw_store := (\<lambda>k. Some (cache_value_new 7 None None))\<rparr>"
  let ?d = "cacheable_policy_data_new (snd (into_cache_key (demo_extractor 4))) (4::nat)"
  have "fe_req_policy demo_env (4, async_neutral, demo_extractor) ?w = (Some (Cacheable ?d), ?w)"
    by (simp add: demo_env_def neutral_def async_neutral_def into_cache_key_eq demo_extractor_def)
  from fresh_hit_serves_cached [OF ready_demo_env this, where v = "cache_value_new 7 None None"
      and c = "ctx_set_source (SrcBackend (BackendLabel ''demo'')) (boxed cache_context_default)" and res = 7
      and rp = neutral and cfg = enabled_cache_config_default]
  show ?thesis by (simp add: demo_env_def cache_state_of_def)
qed

text \<open>C23. A stale hit follows the stale policy exactly.  Return: the stale value is served, status
  stale, nothing else happens.  Revalidate: the stale value is dropped and the request is served
  from upstream as on a miss, with the key to store under.  Offload: the stale value is served,
  status stale, and a revalidation future for the same key and request, already holding its
  upstream call and the response predicates, is spawned.\<close>

theorem stale_hit_follows_policy:
  assumes "ready_env E"
    and "fe_req_policy E (request, p, x) w = (Some (Cacheable d), w1)"
    and "fe_get E (cpd_key d) (boxed cache_context_default) w1 = (Some (Ok (Some v), c), w2)"
    and "cache_state_of (fo_now E w2) v = Stale v"
    and "fe_from_cached E (cv_data v) w2 = (Some res, w3)"
    and "cache_future_revalidate E (cpd_key d) (cpd_request d) rp (Enabled cfg) w3 = (reval, w4)"
  shows "let poll = fsm_poll E (cache_future_new request p rp x (Enabled cfg)) w in
   case cb_stale (ec_policy cfg) of
     ReturnStale \<Rightarrow> (\<exists>f' ctx. poll = (Ready f' (res, ctx), w3) \<and> cc_status ctx = StaleHit \<and> cc_source ctx = ctx_source c)
   | OffloadRevalidate \<Rightarrow> (\<exists>f' ctx. poll = (Ready f' (res, ctx), fe_spawn E ''revalidate'' reval w4)
        \<and> cc_status ctx = StaleHit \<and> cc_source ctx = ctx_source c)
   | Revalidate \<Rightarrow> (\<exists>f'. poll =
        (case sv_call E (Enabled cfg) rp (cpd_request d) None (ctx_set_status Miss (ctx_set_status Hit c)) (Some (cpd_key d)) w3 of
           ((res', ctx), w') \<Rightarrow> (Ready f' (finish_response \<lparr>rs_response = res', rs_ctx = ctx\<rparr>), w')))"
proof -
  have s: "serve E (Enabled cfg) rp p x request w =
      sv_stale E (Enabled cfg) rp (cpd_request d) (cpd_key d) (cv_data v) (ctx_set_status Hit c) w2"
    using assms(2-4) by (simp add: serve_def sv_lookup_def awaited_def)
  show ?thesis
    using yields_new [OF assms(1), of request p rp x "Enabled cfg" w] assms(5,6) unfolding s yields_def Let_def
    by (cases "cb_stale (ec_policy cfg)")
      (auto simp: sv_stale_def awaited_def policy_stale_def finish_response_def case_prod_unfold)
qed

theorem stale_hit_follows_policy_witness:
  "\<exists>f' ctx. fsm_poll demo_env (cache_future_new 4 async_neutral neutral demo_extractor (Enabled enabled_cache_config_default))
       (demo_start\<lparr>dw_store := (\<lambda>k. Some (cache_value_new 7 None (Some 100)))\<rparr>)
     = (Ready f' (7, ctx), demo_start\<lparr>dw_store := (\<lambda>k. Some (cache_value_new 7 None (Some 100)))\<rparr>)
     \<and> cc_status ctx = StaleHit \<and> cc_source ctx = SrcBackend (BackendLabel ''demo'')"
proof -
  let ?w = "demo_start\<lparr>dw_store := (\<lambda>k. Some (cache_value_new 7 None (Some 100)))\<rparr>"
  let ?d = "cacheable_policy_data_new (snd (into_cache_key (demo_extractor 4))) (4::nat)"
  have q: "fe_req_policy demo_env (4, async_neutral, demo_extractor) ?w = (Some (Cacheable ?d), ?w)"
    by (simp add: demo_env_def neutral_def async_neutral_def into_cache_key_eq demo_extractor_def)
  have g: "fe_get demo_env (cpd_key ?d) (boxed cache_context_default) ?w =
      (Some (Ok (Some (cache_value_new 7 None (Some 100))), ctx_set_source (SrcBackend (BackendLabel ''demo'')) (boxed cache_context_default)), ?w)"
    by (simp add: demo_env_def)
  obtain reval w4 where r: "cache_future_revalidate demo_env (cpd_key ?d) (cpd_request ?d) neutral
      (Enabled enabled_cache_config_default) ?w = (reval, w4)" and "fe_spawn demo_env [] reval w4 = w4"
    by (simp add: cache_future_revalidate_def demo_env_def)
  show ?thesis
    using stale_hit_follows_policy [OF ready_demo_env q g _ _ r, where res = 7]
    by (simp add: demo_env_def cache_state_of_def demo_start_def enabled_cache_config_default_def
        cache_behavior_policy_default_def stale_policy_default_def)
qed

text \<open>C24. A background revalidation refreshes the entry: the future that was spawned, run with the
  no-op manager and no offload of its own in an environment whose operations are all ready when they are first polled,
  awaits the upstream call made when it was built; of a cacheable answer, the value that the response policy made of it is
  stored under the same key, and its conversion returned; an answer that is not cacheable is returned and
  leaves the cache as it was.  Nothing else happens to the world: no lookup, no concurrency entry, no spawn.\<close>

theorem revalidation_refreshes_entry:
  assumes "ready_env E"
    and "cache_future_revalidate E key request rp policy w = (f, w1)"
    and "fo_call E request w = (fut, w1)" and "fe_upstream E fut w1 = (Some res, w2)"
    and "fe_res_policy E (res, rp, policy_entity policy) w2 = (Some verdict, w3)"
  shows "case verdict of
     NonCacheable r \<Rightarrow> \<exists>f'. fsm_poll (revalidation_env E) f w1 = (Ready f' (r, cache_context_default), w3)
   | Cacheable v \<Rightarrow> (\<forall>out c w4 res' w5. fe_set E key v (boxed cache_context_default) w3 = (Some (out, c), w4)
        \<and> fe_from_cached E (cv_data v) w4 = (Some res', w5)
        \<longrightarrow> (\<exists>f'. fsm_poll (revalidation_env E) f w1
                 = (Ready f' (finish_response \<lparr>rs_response = res', rs_ctx = c\<rparr>), w5)))"
proof -
  let ?E = "revalidation_env E"
  have r: "ready_env ?E" using assms(1) by (simp add: ready_env_def revalidation_env_def)
  have "cache_future_revalidate ?E key request rp policy w = (f, w1)"
    using assms(2) by (simp add: cache_future_revalidate_def revalidation_env_def)
  from yields_revalidate [OF r this] have
    "yields ?E f w1 (sv_call ?E policy rp request None (boxed cache_context_default) (Some key) w)" .
  then show ?thesis
    using assms(3-5)
    by (cases verdict)
      (auto simp: yields_def sv_call_def sv_fetch_def sv_judge_def sv_update_def awaited_def revalidation_env_def
        drop_permit_def finish_response_def boxed_def cache_context_default_def)
qed

theorem revalidation_refreshes_entry_witness:
  "let k = cache_key_from_str ''id'' ''4''; v = stamp 100 100 (policy_entity policy_config_default) 40 in
   \<exists>f'. fsm_poll (revalidation_env demo_env) (fst (cache_future_revalidate demo_env k 4 neutral policy_config_default demo_start))
      (demo_start\<lparr>dw_calls := [4]\<rparr>)
      = (Ready f' (40, cache_context_default), demo_start\<lparr>dw_calls := [4], dw_store := (\<lambda>_. None)(k \<mapsto> v)\<rparr>)"
proof -
  let ?k = "cache_key_from_str ''id'' ''4''" and ?v = "stamp 100 100 (policy_entity policy_config_default) (40 :: nat)"
  have "cache_future_revalidate demo_env ?k 4 neutral policy_config_default demo_start
     = (fst (cache_future_revalidate demo_env ?k 4 neutral policy_config_default demo_start), demo_start\<lparr>dw_calls := [4]\<rparr>)"
    by (simp add: cache_future_revalidate_def demo_env_def demo_start_def)
  note run = revalidation_refreshes_entry [OF ready_demo_env this, where fut = 4 and res = 40 and verdict = "Cacheable ?v"
      and ?w2.0 = "demo_start\<lparr>dw_calls := [4]\<rparr>" and ?w3.0 = "demo_start\<lparr>dw_calls := [4]\<rparr>"]
  have "cv_data ?v = 40" by (simp add: stamp_def cache_value_new_def)
  then show ?thesis using run
    by (simp add: Let_def demo_env_def demo_start_def neutral_def finish_response_def boxed_def cache_context_default_def)
qed

text \<open>A failing cache backend is a miss: the whole behaviour of the cache future, its results,
  its pendings and every effect on the world, is the same as with a backend that answers every
  failed lookup with an absent entry.\<close>

lemma backend_error_is_a_miss:
  "fsm_poll (errors_as_misses E) f w = fsm_poll E f w"
  by (rule fsm_poll_errors_as_misses)

end
