(* ===== verification/Fsm_Clients.thy ===== *)
theory Fsm_Clients
  imports Fsm_Spec
begin

text \<open>
  The state machine with the broadcast manager as its concurrency manager: its transitions are
  the client actions of theory \<open>Concurrency\<close>, so that what is proved there about permits and
  waiters holds of requests driven by the state machine.
\<close>

section \<open>The manager as surroundings\<close>

text \<open>The world is the manager and whatever the upstream needs.  A missing first permit cannot
  happen with a limit of at least one (\<open>sync_laws.check_total\<close>).\<close>

definition manager_ops ::
  "('sem, 'ch, 'rx, 'c cache_value) sync_ops \<Rightarrow> ('req \<Rightarrow> 'u \<Rightarrow> upstream_future \<times> 'u) \<Rightarrow> ('u \<Rightarrow> time)
   \<Rightarrow> ('req, 'c, 'rx, ('sem, 'ch) manager \<times> 'u) fsm_ops" where
  "manager_ops P call now =
     \<lparr>fo_now = (\<lambda>(m, u). now u),
      fo_call = (\<lambda>r (m, u). case call r u of (fut, u') \<Rightarrow> (fut, (m, u'))),
      fo_check = (\<lambda>k n (m, u). case manager_check P k n m of
                     Some (d, m') \<Rightarrow> (d, (m', u)) | None \<Rightarrow> (ProceedWithoutPermit, (m, u))),
      fo_resolve = (\<lambda>k v (m, u). (manager_resolve P k v m, u)),
      fo_cleanup = (\<lambda>k (m, u). (manager_cleanup P k m, u)),
      fo_permit_drop = (\<lambda>i (m, u). (permit_drop P i m, u))\<rparr>"

section \<open>What a state means to the manager\<close>

fun client_of :: "('req, 'res, 'rp, 'c, 'rx) state \<Rightarrow> ('rx, 'm) client" where
  "client_of (PollUpstream fut (Some st)) =
     (case pu_cache_key st of Some k \<Rightarrow> Fetching k (pu_permit st) | None \<Rightarrow> Idle)"
| "client_of (CheckResponseCachePolicy fut (Some st)) = Fetching (cs_cache_key st) (cs_permit st)"
| "client_of (AwaitResponse fut (Some st)) = Waiting (ar_cache_key st) (fst fut) (snd fut)"
| "client_of (UpdateCache fut st) = Served None"
| "client_of (Response st) = Served None"
| "client_of _ = Idle"

lemma manager_check_unlimited:
  "manager_check P k n m \<noteq> Some (ProceedWithoutPermit, m')"
  by (auto simp: manager_check_def Let_def split: option.splits prod.splits)

lemma upstream_is_start:
  assumes cl: "cl r = Idle" and lim: "1 \<le> n" "n \<le> 255" and cfg: "ec_concurrency cfg = Some n"
    and chk: "manager_check P (pc_cache_key self) n m \<noteq> None"
    and tr: "transition_to_upstream (manager_ops P call now) (Enabled cfg) self ctx (m, u) = (t, (m', u'))"
  shows "csys_act P (Start r (pc_cache_key self) n) \<lparr>cs_mgr = m, cs_client = cl\<rparr>
         = Some \<lparr>cs_mgr = m', cs_client = cl(r := client_of (poll_cache_into_state t))\<rparr>"
proof -
  obtain d m1 where d: "manager_check P (pc_cache_key self) n m = Some (d, m1)" using chk by auto
  show ?thesis
    using tr cl lim cfg d manager_check_unlimited [of P "pc_cache_key self" n m m1]
    by (cases d) (auto simp: transition_to_upstream_def manager_ops_def Let_def split: prod.splits)
qed

lemma check_response_is_fetch:
  assumes cl: "cl r = Fetching (cs_cache_key self) (cs_permit self)"
    and tr: "check_response_next (manager_ops P call now) verdict self (m, u) = (t, (m', u'))"
  shows "csys_act P (case verdict of Cacheable v \<Rightarrow> FetchCacheable r v | NonCacheable _ \<Rightarrow> FetchNonCacheable r)
           \<lparr>cs_mgr = m, cs_client = cl\<rparr>
         = Some \<lparr>cs_mgr = m', cs_client = cl(r := client_of (check_response_into_state t))\<rparr>"
  using assms
  by (cases verdict; cases "cs_permit self")
    (auto simp: check_response_next_def manager_ops_def drop_permit_def drop_opt_def Let_def)

lemma await_is_wake:
  assumes cl: "cl r = Waiting (ar_cache_key self) i rx"
    and poll: "await_poll P from_cached i rx m = (Some result, rx')"
    and tr: "await_response_next (manager_ops P call now) result self (m, u) = (t, (m', u'))"
  shows "\<exists>c. csys_act P (Wake r) \<lparr>cs_mgr = m, cs_client = cl\<rparr> = Some \<lparr>cs_mgr = m', cs_client = cl(r := c)\<rparr>
       \<and> (\<forall>e. result = Err e \<longrightarrow> c = client_of (await_response_into_state t))
       \<and> (\<forall>res. result = Ok res \<longrightarrow> (\<exists>v. c = Served (Some v) \<and> res = from_cached (cv_data v)))"
proof -
  obtain out where rc: "so_recv P rx (bm_chan m i) = (out, rx')"
    using poll by (auto simp: await_poll_def split: recv.splits prod.splits)
  show ?thesis
  proof (cases out)
    case (RecvOk v)
    then show ?thesis
      using assms rc by (intro exI [of _ "Served (Some v)"])
        (auto simp: await_poll_def await_response_next_def)
  qed (use assms rc in \<open>auto intro!: exI [of _ "Fetching (ar_cache_key self) None"]
         simp: await_poll_def await_response_next_def manager_ops_def split: prod.splits\<close>)
qed

section \<open>Properties\<close>

text \<open>The state machine drives the broadcast manager exactly as the client system does: a miss
  under a concurrency limit is the client's start; the verdict on an upstream response, with
  resolve or cleanup before the permit is dropped, is the client's fetch action; the outcome of
  an awaited response, with cleanup on a closed channel and the fall-back to upstream, is the
  client's wake; and in each case the manager and the client's new state are those the machine's
  next state stands for.\<close>

lemma fsm_transitions_are_client_actions:
  assumes "sync_laws P avail closed cap attached unread" and "wf_policy (Enabled cfg)" "ec_concurrency cfg = Some n"
  shows "(cl r = Idle \<and> transition_to_upstream (manager_ops P call now) (Enabled cfg) self ctx (m, u) = (t, (m', u'))
       \<longrightarrow> csys_act P (Start r (pc_cache_key self) n) \<lparr>cs_mgr = m, cs_client = cl\<rparr>
           = Some \<lparr>cs_mgr = m', cs_client = cl(r := client_of (poll_cache_into_state t))\<rparr>)
    \<and> (cl r = Fetching (cs_cache_key judged) (cs_permit judged)
       \<and> check_response_next (manager_ops P call now) verdict judged (m, u) = (s, (m', u'))
       \<longrightarrow> csys_act P (case verdict of Cacheable v \<Rightarrow> FetchCacheable r v | NonCacheable _ \<Rightarrow> FetchNonCacheable r)
             \<lparr>cs_mgr = m, cs_client = cl\<rparr>
           = Some \<lparr>cs_mgr = m', cs_client = cl(r := client_of (check_response_into_state s))\<rparr>)
    \<and> (cl r = Waiting (ar_cache_key waiter) i rx
       \<and> await_poll P from_cached i rx m = (Some result, rx')
       \<and> await_response_next (manager_ops P call now) result waiter (m, u) = (a, (m', u'))
       \<longrightarrow> (\<exists>c. csys_act P (Wake r) \<lparr>cs_mgr = m, cs_client = cl\<rparr> = Some \<lparr>cs_mgr = m', cs_client = cl(r := c)\<rparr>
             \<and> (\<forall>e. result = Err e \<longrightarrow> c = client_of (await_response_into_state a))
             \<and> (\<forall>res. result = Ok res \<longrightarrow> (\<exists>v. c = Served (Some v) \<and> res = from_cached (cv_data v)))))"
proof -
  have lim: "1 \<le> n" "n \<le> 255" using assms(2,3) by (auto simp: wf_policy_def)
  have chk: "manager_check P (pc_cache_key self) n m \<noteq> None" using sync_laws.check_total [OF assms(1) lim(1)] .
  show ?thesis
    by (intro conjI impI; elim conjE)
      (rule upstream_is_start [OF _ lim assms(3) chk] check_response_is_fetch await_is_wake; assumption)+
qed

theorem fsm_transitions_are_client_actions_witness:
  "\<exists>m' u' t. csys_act ref_ops (Start 0 (cache_key_from_str ''id'' ''1'') 1)
       (csys_init ref_ops :: (nat, nat cache_value ref_chan, nat, nat cache_value) csys)
     = Some \<lparr>cs_mgr = m', cs_client = (\<lambda>_. Idle)(0 := client_of (poll_cache_into_state t))\<rparr>
     \<and> transition_to_upstream (manager_ops ref_ops (\<lambda>r u. (r, u)) (\<lambda>u. u))
         (Enabled (enabled_cache_config_default\<lparr>ec_concurrency := Some 1\<rparr>))
         \<lparr>pc_request = 4, pc_cache_key = cache_key_from_str ''id'' ''1''\<rparr> (boxed cache_context_default)
         (manager_new ref_ops, 0) = (t, (m', u'))"
proof -
  let ?cfg = "enabled_cache_config_default\<lparr>ec_concurrency := Some 1\<rparr>"
  have wf: "wf_policy (Enabled ?cfg)" "ec_concurrency ?cfg = Some 1" by (simp_all add: wf_policy_def)
  obtain t m' u' where t: "transition_to_upstream (manager_ops (ref_ops :: (nat, nat cache_value ref_chan, nat, nat cache_value) sync_ops) (\<lambda>r u. (r, u)) (\<lambda>u. u))
      (Enabled ?cfg) \<lparr>pc_request = 4, pc_cache_key = cache_key_from_str ''id'' ''1''\<rparr> (boxed cache_context_default)
      (manager_new ref_ops, 0) = (t, (m', u'))" by (metis surj_pair)
  from fsm_transitions_are_client_actions [OF ref_sync.sync_laws_axioms wf, where r = 0 and cl = "\<lambda>_. Idle"] t
  show ?thesis by (fastforce simp: csys_init_def)
qed

end
