(* ===== verification/Fsm_Manager.thy ===== *)
theory Fsm_Manager
  imports Fsm_Clients
begin

text \<open>
  Many cache futures on one broadcast manager (hitbox/src/fsm/ with hitbox/src/concurrency.rs): their
  turns interleave in any order, and a future may be dropped, which gives its permit back.  The
  system refines the client system of theory \<open>Concurrency\<close>, whose invariants so hold of the futures.
\<close>

section \<open>An environment with the manager in its world\<close>

definition over_manager ::
  "('sem, 'ch, 'rx, 'c cache_value) sync_ops \<Rightarrow> ('c \<Rightarrow> 'res) \<Rightarrow> ('req, 'c, 'rx, 'u, 'res, 'rp) fsm_env
     \<Rightarrow> ('req, 'c, 'rx, ('sem, 'ch) manager \<times> 'u, 'res, 'rp) fsm_env" where
  "over_manager P conv E =
     \<lparr>fo_now = fo_now (manager_ops P (fo_call E) (fo_now E)), fo_call = fo_call (manager_ops P (fo_call E) (fo_now E)),
      fo_check = fo_check (manager_ops P (fo_call E) (fo_now E)), fo_resolve = fo_resolve (manager_ops P (fo_call E) (fo_now E)),
      fo_cleanup = fo_cleanup (manager_ops P (fo_call E) (fo_now E)),
      fo_permit_drop = fo_permit_drop (manager_ops P (fo_call E) (fo_now E)),
      fe_req_policy = (\<lambda>x w. apsnd (Pair (fst w)) (fe_req_policy E x (snd w))),
      fe_get = (\<lambda>k ctx w. apsnd (Pair (fst w)) (fe_get E k ctx (snd w))),
      fe_set = (\<lambda>k v ctx w. apsnd (Pair (fst w)) (fe_set E k v ctx (snd w))),
      fe_upstream = (\<lambda>fut w. apsnd (Pair (fst w)) (fe_upstream E fut (snd w))),
      fe_res_policy = (\<lambda>x w. apsnd (Pair (fst w)) (fe_res_policy E x (snd w))),
      fe_from_cached = (\<lambda>c w. apsnd (Pair (fst w)) (fe_from_cached E c (snd w))),
      fe_await = (\<lambda>i rx w. (fst (await_poll P conv i rx (fst w)), w)),
      fe_spawn = (\<lambda>kind f w. (fst w, fe_spawn E kind f (snd w)))\<rparr>"

lemma over_manager_next [simp]:
  "transition_to_upstream (over_manager P conv E) = transition_to_upstream (manager_ops P (fo_call E) (fo_now E))"
  "check_response_next (over_manager P conv E) = check_response_next (manager_ops P (fo_call E) (fo_now E))"
  "await_response_next (over_manager P conv E) = await_response_next (manager_ops P (fo_call E) (fo_now E))"
  by (auto simp: fun_eq_iff transition_to_upstream_def check_response_next_def await_response_next_def drop_permit_def Let_def
      over_manager_def split: sum.splits option.splits policy_config.splits decision.splits prod.splits concurrency_error.splits
        cache_policy.splits)

lemma over_manager_sel [simp]:
  "fo_now (over_manager P conv E) w = fo_now E (snd w)"
  "fo_call (over_manager P conv E) r w = apsnd (Pair (fst w)) (fo_call E r (snd w))"
  "fe_req_policy (over_manager P conv E) x w = apsnd (Pair (fst w)) (fe_req_policy E x (snd w))"
  "fe_get (over_manager P conv E) k ctx w = apsnd (Pair (fst w)) (fe_get E k ctx (snd w))"
  "fe_set (over_manager P conv E) k v ctx w = apsnd (Pair (fst w)) (fe_set E k v ctx (snd w))"
  "fe_upstream (over_manager P conv E) fut w = apsnd (Pair (fst w)) (fe_upstream E fut (snd w))"
  "fe_res_policy (over_manager P conv E) y w = apsnd (Pair (fst w)) (fe_res_policy E y (snd w))"
  "fe_from_cached (over_manager P conv E) c w = apsnd (Pair (fst w)) (fe_from_cached E c (snd w))"
  "fe_await (over_manager P conv E) i rx w = (fst (await_poll P conv i rx (fst w)), w)"
  "fe_spawn (over_manager P conv E) kind f w = (fst w, fe_spawn E kind f (snd w))"
  by (auto simp: over_manager_def manager_ops_def split: prod.splits)

section \<open>The system of futures\<close>

text \<open>The permit a future holds; dropping the future gives it back.\<close>

fun held_permit :: "('req, 'res, 'rp, 'c, 'rx) state \<Rightarrow> nat option" where
  "held_permit (PollUpstream fut (Some st)) = pu_permit st"
| "held_permit (CheckResponseCachePolicy fut (Some st)) = cs_permit st"
| "held_permit s = None"

definition limit_ok :: "nat \<Rightarrow> policy_config \<Rightarrow> bool" where
  "limit_ok L policy \<longleftrightarrow> (case policy of
     Enabled cfg \<Rightarrow> (case ec_concurrency cfg of Some n \<Rightarrow> 1 \<le> n \<and> n \<le> 255 \<and> n \<le> L | None \<Rightarrow> True) | Disabled \<Rightarrow> True)"

definition after_turn ::
  "(('req, 'res, 'rp, 'c, 'rx) cache_future, 'out) turn \<Rightarrow> ('req, 'res, 'rp, 'c, 'rx) cache_future option" where
  "after_turn t = (case t of Panicked \<Rightarrow> None | Pending f \<Rightarrow> Some f | Moved f \<Rightarrow> Some f | Ready f out \<Rightarrow> None)"

text \<open>Requests come at any time, take turns, are dropped if \<open>drops\<close> says so; the outside changes; a future
  that completed or was dropped is gone.\<close>

inductive managed ::
  "('sem, 'ch, 'rx, 'c cache_value) sync_ops \<Rightarrow> ('c \<Rightarrow> 'res) \<Rightarrow> ('req, 'c, 'rx, 'u, 'res, 'rp) fsm_env \<Rightarrow> bool \<Rightarrow> nat
     \<Rightarrow> ('req, 'res, 'rp, 'c, 'rx) cache_future option list \<Rightarrow> ('sem, 'ch) manager \<times> 'u \<Rightarrow> bool"
  for P conv E drops L where
  managed_start: "managed P conv E drops L [] (manager_new P, u)"
| managed_new: "managed P conv E drops L fs w \<Longrightarrow> limit_ok L policy
    \<Longrightarrow> managed P conv E drops L (fs @ [Some (cache_future_new request p rp x policy)]) w"
| managed_turn: "managed P conv E drops L fs w \<Longrightarrow> r < length fs \<Longrightarrow> fs ! r = Some f
    \<Longrightarrow> fsm_turn (over_manager P conv E) f w = (t, w') \<Longrightarrow> managed P conv E drops L (fs[r := after_turn t]) w'"
| managed_drop: "managed P conv E drops L fs (m, u) \<Longrightarrow> r < length fs \<Longrightarrow> fs ! r = Some f \<Longrightarrow> drops
    \<Longrightarrow> managed P conv E drops L (fs[r := None]) (drop_opt P (held_permit (cf_state f)) m, u)"
| managed_outside: "managed P conv E drops L fs (m, u) \<Longrightarrow> managed P conv E drops L fs (m, u')"

section \<open>The simulation\<close>

text \<open>Clients that the manager does not wait for, and what a state demands of its client.\<close>

fun quiet :: "('rx, 'm) client \<Rightarrow> bool" where
  "quiet (Fetching k pm) = (pm = None)"
| "quiet (Waiting k i rx) = False"
| "quiet c = True"

fun matches :: "('req, 'res, 'rp, 'c, 'rx) state \<Rightarrow> ('rx, 'm) client \<Rightarrow> bool" where
  "matches (Initial st) c = (c = Idle)"
| "matches (CheckRequestCachePolicy fut st) c = (c = Idle)"
| "matches (PollCache fut st) c = (c = Idle)"
| "matches (AwaitResponse fut (Some st)) c = (c = Waiting (ar_cache_key st) (fst fut) (snd fut))"
| "matches (PollUpstream fut (Some st)) c =
     (case pu_permit st of
        Some i \<Rightarrow> (\<exists>k. pu_cache_key st = Some k \<and> c = Fetching k (Some i))
      | None \<Rightarrow> quiet c)"
| "matches (CheckResponseCachePolicy fut (Some st)) c =
     (case cs_permit st of Some i \<Rightarrow> c = Fetching (cs_cache_key st) (Some i) | None \<Rightarrow> quiet c)"
| "matches s c = quiet c"

definition simulated ::
  "nat \<Rightarrow> ('req, 'res, 'rp, 'c, 'rx) cache_future option \<Rightarrow> ('rx, 'm) client \<Rightarrow> bool" where
  "simulated L f c = (case f of
     None \<Rightarrow> quiet c
   | Some f \<Rightarrow> wf_future f \<and> limit_ok L (cf_policy f) \<and> matches (cf_state f) c)"

lemma apsnd_Pair_iff [simp]: "apsnd (Pair m) p = (a, m', u) \<longleftrightarrow> m' = m \<and> p = (a, u)"
  by (cases p) auto

lemma turn_policy:
  assumes "fsm_turn E f w = (t, w')"
  shows "case t of Panicked \<Rightarrow> True | Pending f' \<Rightarrow> cf_policy f' = cf_policy f | Moved f' \<Rightarrow> cf_policy f' = cf_policy f | Ready f' out \<Rightarrow> True"
proof (cases "cf_state f")
  case (HandleStale fut st)
  then show ?thesis using assms
    by (auto simp: fsm_turn.simps split: option.splits prod.splits)
qed (use assms in \<open>auto simp: fsm_turn.simps split: option.splits prod.splits\<close>)

lemma matches_held: "matches s c \<Longrightarrow> held_permit s = Some i \<Longrightarrow> \<exists>k. c = Fetching k (Some i)"
  by (induction s c rule: matches.induct) (auto split: option.splits)

lemma matches_holds: "matches s c \<Longrightarrow> c = Fetching k (Some i) \<Longrightarrow> held_permit s = Some i"
  by (induction s c rule: matches.induct) (auto split: option.splits)

lemma call_keeps_manager: "fst (snd (fo_call (over_manager P conv E) r w)) = fst w"
  by (cases "fo_call E r (snd w)") simp

lemma revalidate_keeps_manager: "fst (snd (cache_future_revalidate (over_manager P conv E) k r rp pol w)) = fst w"
proof -
  obtain fut w2 where "fo_call (over_manager P conv E) r w = (fut, w2)" by (metis surj_pair)
  with call_keeps_manager [of P conv E r w] show ?thesis by (simp add: cache_future_revalidate_def del: over_manager_sel)
qed

lemma spawn_keeps_manager: "fst (snd (spawn_revalidation (over_manager P conv E) d f w)) = fst w"
  by (cases d; cases "cf_response_predicates f") (simp_all add: spawn_revalidation_def case_prod_beta revalidate_keeps_manager)

lemma stale_keeps_manager: "fst (snd (handle_stale_next (over_manager P conv E) pol r ctx st w)) = fst w"
proof -
  obtain fut w2 where "fo_call (over_manager P conv E) (hs_request st) w = (fut, w2)" by (metis surj_pair)
  with call_keeps_manager [of P conv E "hs_request st" w] show ?thesis
    by (cases "policy_stale pol") (simp_all add: handle_stale_next_def del: over_manager_sel)
qed

lemma stale_is_quiet: "quiet c \<Longrightarrow> matches (handle_stale_into_state t) c"
  by (cases t) simp_all

lemma manager_kept:
  assumes "fsm_turn (over_manager P conv E) f (m, u) = (t, (m', u'))" and "matches (cf_state f) c"
    and "case cf_state f of PollCache fut st \<Rightarrow> False | AwaitResponse fut st \<Rightarrow> False | CheckResponseCachePolicy fut st \<Rightarrow> False | _ \<Rightarrow> True"
    and "wf_future f"
  shows "m' = m \<and> (case after_turn t of None \<Rightarrow> quiet c | Some f' \<Rightarrow> matches (cf_state f') c)"
proof (cases "cf_state f")
  case (Initial st)
  then show ?thesis using assms
    by (auto simp: fsm_turn.simps initial_next_def after_turn_def split: option.splits prod.splits policy_config.splits)
next
  case (CheckRequestCachePolicy fut st)
  then show ?thesis using assms
    by (auto simp: fsm_turn.simps check_request_next_def after_turn_def split: option.splits prod.splits cache_policy.splits)
next
  case (ConvertResponse fut st)
  then show ?thesis using assms
    by (auto simp: fsm_turn.simps convert_response_next_def after_turn_def split: option.splits prod.splits)
next
  case (HandleStale fut st)
  then obtain st' where st: "st = Some st'" using assms(4) by (auto simp: wf_future_def)
  have q: "quiet c" using assms(2) HandleStale by simp
  obtain r w1 where r: "fe_from_cached (over_manager P conv E) (fst fut) (m, u) = (r, w1)" by fastforce
  then have w1: "fst w1 = m" by (cases w1) simp
  show ?thesis
  proof (cases r)
    case None
    then show ?thesis using assms(1,2) HandleStale st r by (auto simp: fsm_turn.simps after_turn_def)
  next
    case (Some response)
    obtain t1 d w2 where n: "handle_stale_next (over_manager P conv E) (cf_policy f) response (snd fut) st' w1 = ((t1, d), w2)"
      by (metis surj_pair)
    obtain f2 w3 where s: "spawn_revalidation (over_manager P conv E) d f w2 = (f2, w3)" by (metis surj_pair)
    have "fst w3 = m"
      using spawn_keeps_manager [of P conv E d f w2] stale_keeps_manager [of P conv E "cf_policy f" response "snd fut" st' w1]
      by (simp add: n s w1)
    moreover have "t = Moved (f2\<lparr>cf_state := handle_stale_into_state t1\<rparr>)" "w3 = (m', u')"
      using assms(1) HandleStale st r Some n s by (simp_all add: fsm_turn.simps)
    ultimately show ?thesis using q by (simp add: after_turn_def stale_is_quiet)
  qed
next
  case (PollUpstream fut st)
  then show ?thesis using assms
    by (auto simp: fsm_turn.simps poll_upstream_next_def after_turn_def wf_future_def split: option.splits prod.splits)
next
  case (UpdateCache fut st)
  then show ?thesis using assms
    by (auto simp: fsm_turn.simps poll_update_def Let_def update_cache_next_def after_turn_def
        split: option.splits prod.splits update_future.splits)
next
  case (Response st)
  then show ?thesis using assms by (auto simp: fsm_turn.simps after_turn_def split: option.splits)
qed (use assms in simp_all)

text \<open>A turn leaves the manager to what the client was, or is an action of the client.\<close>

definition client_step ::
  "('sem, 'ch, 'rx, 'c cache_value) sync_ops \<Rightarrow> nat \<Rightarrow> nat \<Rightarrow> ('sem, 'ch) manager \<Rightarrow> (nat \<Rightarrow> ('rx, 'c cache_value) client)
     \<Rightarrow> ('sem, 'ch) manager \<Rightarrow> ('rx, 'c cache_value) client \<Rightarrow> bool" where
  "client_step P L r m cl m' c \<longleftrightarrow> (m' = m \<and> c = cl r) \<or>
     (\<exists>a. action_ok False L a \<and> csys_act P a \<lparr>cs_mgr = m, cs_client = cl\<rparr> = Some \<lparr>cs_mgr = m', cs_client = cl(r := c)\<rparr>)"

lemma poll_cache_step:
  assumes "fsm_turn (over_manager P conv E) f (m, u) = (t, (m', u'))" and "cf_state f = PollCache fut (Some st)"
    and "cl r = Idle" and "limit_ok L (cf_policy f)" and "\<And>k n m. 1 \<le> n \<Longrightarrow> manager_check P k n m \<noteq> None"
  shows "\<exists>c. client_step P L r m cl m' c \<and> (case after_turn t of None \<Rightarrow> quiet c | Some f' \<Rightarrow> matches (cf_state f') c)"
proof -
  obtain g u1 where g: "fe_get E (fst fut) (snd fut) u = (g, u1)" by fastforce
  show ?thesis
  proof (cases g)
    case None
    then show ?thesis using assms(1-3) g by (auto simp: fsm_turn.simps client_step_def after_turn_def)
  next
    case (Some p)
    obtain cached ctx where p: "p = (cached, ctx)" by fastforce
    obtain t1 where t1: "poll_cache_next (over_manager P conv E) (cf_policy f) cached ctx st (m, u1) = (t1, (m', u'))"
      and t: "t = Moved (f\<lparr>cf_state := poll_cache_into_state t1\<rparr>)"
      using assms(1,2) g Some p by (auto simp: fsm_turn.simps split: prod.splits)
    have up: "\<exists>c. client_step P L r m cl m' c \<and> matches (poll_cache_into_state t1) c"
      if tr: "transition_to_upstream (manager_ops P (fo_call E) (fo_now E)) (cf_policy f) st ctx' (m, u1) = (t1, (m', u'))" for ctx'
    proof (cases "\<exists>cfg n. cf_policy f = Enabled cfg \<and> ec_concurrency cfg = Some n")
      case True
      then obtain cfg n where cfg: "cf_policy f = Enabled cfg" "ec_concurrency cfg = Some n" by blast
      then have n: "1 \<le> n" "n \<le> 255" "n \<le> L" using assms(4) by (auto simp: limit_ok_def)
      have "csys_act P (Start r (pc_cache_key st) n) \<lparr>cs_mgr = m, cs_client = cl\<rparr>
         = Some \<lparr>cs_mgr = m', cs_client = cl(r := client_of (poll_cache_into_state t1))\<rparr>"
        by (rule upstream_is_start [where cl = cl and m = m, OF assms(3) n(1,2) cfg(2) _ tr [unfolded cfg(1)]]) (rule assms(5) [OF n(1)])
      moreover have "matches (poll_cache_into_state t1) (client_of (poll_cache_into_state t1))"
        using tr cfg by (auto simp: transition_to_upstream_def Let_def split: prod.splits decision.splits)
      ultimately show ?thesis unfolding client_step_def using n(3) by (metis action_ok.simps(1))
    next
      case False
      then have "m' = m \<and> (\<exists>fut. t1 = PT_PollUpstream fut None ctx' (pc_cache_key st))"
        using tr by (auto simp: transition_to_upstream_def manager_ops_def Let_def split: policy_config.splits option.splits prod.splits)
      then show ?thesis using assms(3) by (auto simp: client_step_def)
    qed
    have "\<exists>c. client_step P L r m cl m' c \<and> matches (poll_cache_into_state t1) c"
      using t1 up assms(3)
      by (auto simp: poll_cache_next_def client_step_def Let_def split: sum.splits option.splits cache_state.splits if_splits)
    then show ?thesis by (auto simp: t after_turn_def)
  qed
qed

lemma await_step:
  assumes "fsm_turn (over_manager P conv E) f (m, u) = (t, (m', u'))" and "cf_state f = AwaitResponse fut (Some st)"
    and c: "cl r = Waiting (ar_cache_key st) (fst fut) (snd fut)"
  shows "\<exists>c. client_step P L r m cl m' c \<and> (case after_turn t of None \<Rightarrow> quiet c | Some f' \<Rightarrow> matches (cf_state f') c)"
proof -
  obtain q rx' where poll: "await_poll P conv (fst fut) (snd fut) m = (q, rx')" by fastforce
  show ?thesis
  proof (cases q)
    case None
    then show ?thesis using assms poll by (auto simp: fsm_turn.simps client_step_def after_turn_def)
  next
    case (Some result)
    obtain t1 where t1: "await_response_next (manager_ops P (fo_call E) (fo_now E)) result st (m, u) = (t1, (m', u'))"
      and t: "t = Moved (f\<lparr>cf_state := await_response_into_state t1\<rparr>)"
      using assms(1,2) poll Some by (auto simp: fsm_turn.simps split: prod.splits)
    obtain c' where c': "csys_act P (Wake r) \<lparr>cs_mgr = m, cs_client = cl\<rparr> = Some \<lparr>cs_mgr = m', cs_client = cl(r := c')\<rparr>"
      and out: "\<forall>e. result = Err e \<longrightarrow> c' = client_of (await_response_into_state t1)"
        "\<forall>res. result = Ok res \<longrightarrow> (\<exists>v. c' = Served (Some v) \<and> res = conv (cv_data v))"
      using await_is_wake [where cl = cl and r = r, OF c poll [unfolded Some] t1] by (elim exE conjE) (rule that)
    have "matches (await_response_into_state t1) c'"
    proof (cases result)
      case (Inl e)
      then show ?thesis using out(1) t1 by (auto simp: await_response_next_def Let_def split: prod.splits)
    next
      case (Inr res)
      then show ?thesis using out(2) t1 by (auto simp: await_response_next_def)
    qed
    moreover have "client_step P L r m cl m' c'" unfolding client_step_def using c' by (metis action_ok.simps(5))
    ultimately show ?thesis by (auto simp: t after_turn_def)
  qed
qed

lemma check_response_step:
  assumes "fsm_turn (over_manager P conv E) f (m, u) = (t, (m', u'))" and "cf_state f = CheckResponseCachePolicy fut (Some st)"
    and "matches (cf_state f) (cl r)"
  shows "\<exists>c. client_step P L r m cl m' c \<and> (case after_turn t of None \<Rightarrow> quiet c | Some f' \<Rightarrow> matches (cf_state f') c)"
proof -
  obtain q u1 where q: "fe_res_policy E fut u = (q, u1)" by fastforce
  show ?thesis
  proof (cases q)
    case None
    then show ?thesis using assms q by (auto simp: fsm_turn.simps client_step_def after_turn_def)
  next
    case (Some verdict)
    obtain t1 where t1: "check_response_next (manager_ops P (fo_call E) (fo_now E)) verdict st (m, u1) = (t1, (m', u'))"
      and t: "t = Moved (f\<lparr>cf_state := check_response_into_state t1\<rparr>)"
      using assms(1,2) q Some by (auto simp: fsm_turn.simps split: prod.splits)
    have quiet: "matches (check_response_into_state t1) c \<longleftrightarrow> quiet c" for c by (cases t1) simp_all
    show ?thesis
    proof (cases "cs_permit st")
      case None
      then have "m' = m" using t1 by (cases verdict) (auto simp: check_response_next_def drop_permit_def)
      then show ?thesis using assms(2,3) None by (auto simp: client_step_def t after_turn_def quiet)
    next
      case (Some i)
      then have c: "cl r = Fetching (cs_cache_key st) (cs_permit st)" using assms(2,3) by simp
      let ?a = "case verdict of Cacheable v \<Rightarrow> FetchCacheable r v | NonCacheable _ \<Rightarrow> FetchNonCacheable r"
      have "csys_act P ?a \<lparr>cs_mgr = m, cs_client = cl\<rparr>
          = Some \<lparr>cs_mgr = m', cs_client = cl(r := client_of (check_response_into_state t1))\<rparr>"
        by (rule check_response_is_fetch [where cl = cl and r = r, OF c t1])
      moreover have "action_ok False L ?a" by (cases verdict) simp_all
      moreover have "quiet (client_of (check_response_into_state t1) :: ('c, 'd cache_value) client)" by (cases t1) simp_all
      ultimately have "client_step P L r m cl m' (client_of (check_response_into_state t1))"
        unfolding client_step_def by blast
      then show ?thesis by (intro exI [of _ "client_of (check_response_into_state t1)"]) (cases t1; simp add: t after_turn_def)
    qed
  qed
qed

lemma turn_simulated:
  assumes "fsm_turn (over_manager P conv E) f (m, u) = (t, (m', u'))" and "simulated L (Some f) (cl r)"
    and check: "\<And>k n m. 1 \<le> n \<Longrightarrow> manager_check P k n m \<noteq> None"
  shows "\<exists>c. client_step P L r m cl m' c \<and> simulated L (after_turn t) c"
proof -
  have wf: "wf_future f" and lim: "limit_ok L (cf_policy f)" and c: "matches (cf_state f) (cl r)"
    using assms(2) by (simp_all add: simulated_def)
  have "\<exists>c. client_step P L r m cl m' c \<and> (case after_turn t of None \<Rightarrow> quiet c | Some f' \<Rightarrow> matches (cf_state f') c)"
  proof (cases "cf_state f")
    case (PollCache fut st)
    then show ?thesis using wf c poll_cache_step [OF assms(1) _ _ lim check, of fut _ cl r] by (auto simp: wf_future_def)
  next
    case (AwaitResponse fut st)
    then show ?thesis using wf c await_step [OF assms(1), of fut _ cl r L] by (auto simp: wf_future_def)
  next
    case (CheckResponseCachePolicy fut st)
    then show ?thesis using wf c check_response_step [OF assms(1), of fut _ cl r L] by (auto simp: wf_future_def)
  qed (use manager_kept [OF assms(1) c _ wf] in \<open>auto simp: client_step_def\<close>)
  moreover have "case after_turn t of None \<Rightarrow> True | Some f' \<Rightarrow> wf_future f' \<and> limit_ok L (cf_policy f')"
    using fsm_turn_wf [OF wf, of "over_manager P conv E" "(m, u)"] turn_policy [OF assms(1)] lim assms(1)
    by (cases t) (simp_all add: after_turn_def)
  ultimately show ?thesis by (fastforce simp: simulated_def split: option.splits)
qed

lemma drop_simulated:
  assumes "matches (cf_state f) (cl r)"
  shows "\<exists>c. quiet c \<and> ((drop_opt P (held_permit (cf_state f)) m = m \<and> c = cl r) \<or>
    csys_act P (Cancel r) \<lparr>cs_mgr = m, cs_client = cl\<rparr>
      = Some \<lparr>cs_mgr = drop_opt P (held_permit (cf_state f)) m, cs_client = cl(r := c)\<rparr>)"
proof (cases "held_permit (cf_state f)")
  case (Some i)
  then obtain k where "cl r = Fetching k (Some i)" using matches_held [OF assms] by blast
  then show ?thesis using Some by (intro exI [of _ Cancelled]) simp
next
  case None
  then have d: "drop_opt P (held_permit (cf_state f)) m = m" by (simp add: drop_opt_def)
  show ?thesis
  proof (cases "quiet (cl r)")
    case False
    then obtain k i rx where "cl r = Waiting k i rx"
      using assms None matches_holds [OF assms] by (cases "cl r") auto
    then show ?thesis using d by (intro exI [of _ Cancelled]) simp
  qed (use d in blast)
qed

lemma managed_simulated:
  assumes "sync_laws P avail closed cap attached unread" and "managed P conv E drops L fs w"
  shows "\<exists>cl. csys_reach P drops L \<lparr>cs_mgr = fst w, cs_client = cl\<rparr> \<and> (\<forall>r < length fs. simulated L (fs ! r) (cl r))
    \<and> (\<forall>r. length fs \<le> r \<longrightarrow> cl r = Idle)"
  using assms(2)
proof (induction rule: managed.induct)
  case (managed_start u)
  show ?case using reach_init [of P drops L] by (intro exI [of _ "\<lambda>_. Idle"]) (simp add: csys_init_def)
next
  case (managed_new fs w policy request p rp x)
  then show ?case
    by (elim exE, intro exI, intro conjI) (auto simp: nth_append simulated_def cache_future_new_def wf_future_def less_Suc_eq)
next
  case (managed_turn fs w r f t w')
  obtain m u m' u' where w: "w = (m, u)" "w' = (m', u')" by fastforce
  from managed_turn.IH obtain cl where cl: "csys_reach P drops L \<lparr>cs_mgr = m, cs_client = cl\<rparr>"
    "\<forall>r < length fs. simulated L (fs ! r) (cl r)" "\<forall>r. length fs \<le> r \<longrightarrow> cl r = Idle" by (auto simp: w)
  have "simulated L (Some f) (cl r)" using cl(2) managed_turn.hyps by metis
  then obtain c where c: "client_step P L r m cl m' c" "simulated L (after_turn t) c"
    using turn_simulated [OF managed_turn.hyps(4) [unfolded w] _ sync_laws.check_total [OF assms(1)]] by metis
  have ok: "action_ok False L a \<Longrightarrow> action_ok drops L a" for a :: "'d cache_value action" by (cases a) simp_all
  have "csys_reach P drops L \<lparr>cs_mgr = m', cs_client = cl(r := c)\<rparr>"
    using c(1) cl(1) unfolding client_step_def by (auto intro: reach_step ok)
  moreover have "\<forall>q < length (fs[r := after_turn t]). simulated L (fs[r := after_turn t] ! q) ((cl(r := c)) q)"
    using cl(2) c(2) managed_turn.hyps(2) by (auto simp: nth_list_update)
  moreover have "\<forall>q. length (fs[r := after_turn t]) \<le> q \<longrightarrow> (cl(r := c)) q = Idle" using cl(3) managed_turn.hyps(2) by auto
  ultimately show ?case unfolding w(2) fst_conv by blast
next
  case (managed_drop fs m u r f)
  then obtain cl where cl: "csys_reach P drops L \<lparr>cs_mgr = m, cs_client = cl\<rparr>"
    "\<forall>r < length fs. simulated L (fs ! r) (cl r)" "\<forall>r. length fs \<le> r \<longrightarrow> cl r = Idle" by auto
  have "matches (cf_state f) (cl r)" using cl(2) managed_drop.hyps by (auto simp: simulated_def dest!: spec [of _ r])
  then obtain c where c: "quiet c" "(drop_opt P (held_permit (cf_state f)) m = m \<and> c = cl r) \<or>
    csys_act P (Cancel r) \<lparr>cs_mgr = m, cs_client = cl\<rparr>
      = Some \<lparr>cs_mgr = drop_opt P (held_permit (cf_state f)) m, cs_client = cl(r := c)\<rparr>"
    using drop_simulated by metis
  have "csys_reach P drops L \<lparr>cs_mgr = drop_opt P (held_permit (cf_state f)) m, cs_client = cl(r := c)\<rparr>"
    using c(2) cl(1) managed_drop.hyps(4) by (auto intro: reach_step [where a = "Cancel r"])
  moreover have "\<forall>q < length (fs[r := None]). simulated L (fs[r := None] ! q) ((cl(r := c)) q)"
    using cl(2) c(1) managed_drop.hyps(2) by (auto simp: nth_list_update simulated_def)
  moreover have "\<forall>q. length (fs[r := None]) \<le> q \<longrightarrow> (cl(r := c)) q = Idle" using cl(3) managed_drop.hyps(2) by auto
  ultimately show ?case unfolding fst_conv by blast
qed simp

lemma wake_moves:
  assumes "cf_state f = AwaitResponse fut (Some st)"
  shows "(\<exists>f' w'. fsm_turn (over_manager P conv E) f w = (Moved f', w')) \<longleftrightarrow> fst (await_poll P conv (fst fut) (snd fut) (fst w)) \<noteq> None"
  using assms by (auto simp: fsm_turn.simps split: option.splits prod.splits)

lemma wake_polls:
  assumes "cs_client s r = Waiting k i rx"
  shows "(\<exists>s'. csys_act P (Wake r) s = Some s') \<longleftrightarrow> fst (await_poll P conv i rx (cs_mgr s)) \<noteq> None"
  using assms by (auto simp: await_poll_def split: recv.splits prod.splits)

lemma judged_is_action:
  assumes "cf_state g = CheckResponseCachePolicy fut (Some st)" and "cl h = Fetching (cs_cache_key st) (cs_permit st)"
    and "fsm_turn (over_manager P conv E) g (m, u) = (Moved g', (m', u'))"
  shows "\<exists>v c. csys_act P (FetchCacheable h v) \<lparr>cs_mgr = m, cs_client = cl\<rparr> = Some \<lparr>cs_mgr = m', cs_client = cl(h := c)\<rparr>
    \<or> csys_act P (FetchNonCacheable h) \<lparr>cs_mgr = m, cs_client = cl\<rparr> = Some \<lparr>cs_mgr = m', cs_client = cl(h := c)\<rparr>"
proof -
  obtain verdict u1 where q: "fe_res_policy E fut u = (Some verdict, u1)"
    using assms(1,3) by (auto simp: fsm_turn.simps split: option.splits prod.splits)
  then obtain t1 where "check_response_next (manager_ops P (fo_call E) (fo_now E)) verdict st (m, u1) = (t1, (m', u'))"
    using assms(1,3) by (auto simp: fsm_turn.simps split: prod.splits)
  from check_response_is_fetch [where cl = cl and r = h, OF assms(2) this] show ?thesis by (cases verdict) auto
qed

section \<open>Two requests for one missing key\<close>

fun take_turns ::
  "('req, 'c, 'rx, 'w, 'res, 'rp) fsm_env \<Rightarrow> nat list \<Rightarrow> ('req, 'res, 'rp, 'c, 'rx) cache_future option list \<times> 'w
     \<Rightarrow> ('req, 'res, 'rp, 'c, 'rx) cache_future option list \<times> 'w" where
  "take_turns E [] s = s"
| "take_turns E (r # rs) (fs, w) =
     (case fs ! r of
        None \<Rightarrow> take_turns E rs (fs, w)
      | Some f \<Rightarrow> (case fsm_turn E f w of (t, w') \<Rightarrow> take_turns E rs (fs[r := after_turn t], w')))"

lemma take_turns_managed:
  assumes "managed P conv E drops L fs w" and "list_all (\<lambda>r. r < length fs) rs"
    and "take_turns (over_manager P conv E) rs (fs, w) = (fs', w')"
  shows "managed P conv E drops L fs' w'"
  using assms
proof (induction rs arbitrary: fs w)
  case (Cons r rs)
  show ?case
  proof (cases "fs ! r")
    case None
    with Cons show ?thesis by simp
  next
    case (Some f)
    obtain t w1 where t: "fsm_turn (over_manager P conv E) f w = (t, w1)" by (metis surj_pair)
    have "managed P conv E drops L (fs[r := after_turn t]) w1"
      by (rule managed_turn [OF Cons.prems(1) _ Some t]) (use Cons.prems(2) in simp)
    moreover have "list_all (\<lambda>q. q < length (fs[r := after_turn t])) rs" using Cons.prems(2) by simp
    moreover have "take_turns (over_manager P conv E) rs (fs[r := after_turn t], w1) = (fs', w')"
      using Cons.prems(3) Some t by simp
    ultimately show ?thesis by (rule Cons.IH)
  qed
qed simp

definition limit_one :: policy_config where
  "limit_one = Enabled (enabled_cache_config_default\<lparr>ec_concurrency := Some 1\<rparr>)"

abbreviation two_futures :: "(nat, nat, nat predicate, nat, nat) cache_future option list" where
  "two_futures \<equiv> [Some (cache_future_new 4 async_neutral neutral demo_extractor limit_one),
     Some (cache_future_new 4 async_neutral neutral demo_extractor limit_one)]"

lemma two_futures_managed:
  "managed (ref_ops :: (nat, nat cache_value ref_chan, nat, nat cache_value) sync_ops) (\<lambda>v. v) demo_env False 1 two_futures
     (manager_new ref_ops, demo_start)"
proof -
  have l: "limit_ok 1 limit_one" by (simp add: limit_ok_def limit_one_def)
  from managed_new [OF managed_new [OF managed_start l] l] show ?thesis by simp
qed

lemma two_futures_wait:
  "\<exists>f g m u st. managed (ref_ops :: (nat, nat cache_value ref_chan, nat, nat cache_value) sync_ops) (\<lambda>v. v) demo_env False 1
       [Some g, Some f] (m, u)
     \<and> held_permit (cf_state g) = Some 0 \<and> cf_state f = AwaitResponse (0, 0) (Some st)"
proof -
  let ?E = "over_manager (ref_ops :: (nat, nat cache_value ref_chan, nat, nat cache_value) sync_ops) (\<lambda>v. v) demo_env"
  have "\<exists>f g m u st. take_turns ?E [0, 0, 0, 1, 1, 1] (two_futures, (manager_new ref_ops, demo_start)) = ([Some g, Some f], (m, u))
     \<and> held_permit (cf_state g) = Some 0 \<and> cf_state f = AwaitResponse (0, 0) (Some st)"
    by (simp add: fsm_turn.simps cache_future_new_def limit_one_def initial_next_def check_request_next_def poll_cache_next_def
        transition_to_upstream_def manager_ops_def manager_defs demo_env_def after_turn_def Let_def into_cache_key_eq
        async_neutral_def neutral_def cacheable_policy_data_new_def)
  then show ?thesis using take_turns_managed [OF two_futures_managed, of "[0, 0, 0, 1, 1, 1]"] by (fastforce simp: list_all_iff)
qed


section \<open>Properties\<close>

text \<open>C3. Cache futures on one broadcast manager are the clients of the concurrency system: however many
  requests come, in whatever order their futures take turns and are dropped, and whatever happens
  outside, the manager and the futures' states stand for a reachable state of that system, in which
  a future that holds a permit is a fetching client, and one that awaits a response a waiting one.\<close>

theorem futures_refine_clients:
  assumes "sync_laws P avail closed cap attached unread" and "managed P conv E drops L fs (m, u)"
  shows "\<exists>cl. csys_reach P drops L \<lparr>cs_mgr = m, cs_client = cl\<rparr> \<and> (\<forall>r < length fs. simulated L (fs ! r) (cl r))"
  using managed_simulated [OF assms] by auto

theorem futures_refine_clients_witness:
  "\<exists>cl. csys_reach (ref_ops :: (nat, nat cache_value ref_chan, nat, nat cache_value) sync_ops) False 1
       \<lparr>cs_mgr = manager_new ref_ops, cs_client = cl\<rparr> \<and> (\<forall>r < 2. simulated 1 (two_futures ! r) (cl r))"
  using futures_refine_clients [OF ref_sync.sync_laws_axioms two_futures_managed] by (simp add: numeral_2_eq_2)

text \<open>C4. The concurrency limit holds of the futures themselves: at any time at most \<open>L\<close> futures call
  upstream, or have its response judged, with a permit of the same in-flight entry.\<close>

theorem futures_keep_limit:
  assumes "sync_laws P avail closed cap attached unread" and "managed P conv E drops L fs (m, u)"
  shows "card {r. r < length fs \<and> (\<exists>f. fs ! r = Some f \<and> held_permit (cf_state f) = Some i)} \<le> L"
proof -
  obtain cl where cl: "csys_reach P drops L \<lparr>cs_mgr = m, cs_client = cl\<rparr>" "\<forall>r < length fs. simulated L (fs ! r) (cl r)"
    using managed_simulated [OF assms] by auto
  have "{r. r < length fs \<and> (\<exists>f. fs ! r = Some f \<and> held_permit (cf_state f) = Some i)} \<subseteq> holders i cl"
    using cl(2) by (auto simp: simulated_def holders_def dest!: matches_held)
  then show ?thesis using sync_laws.reach_holders [OF assms(1) cl(1), of i] by (auto intro: card_mono order_trans)
qed

theorem futures_keep_limit_witness:
  "\<exists>g f. held_permit (cf_state (g :: (nat, nat, nat predicate, nat, nat) cache_future)) = Some 0 \<and>
     card {r. r < 2 \<and> (\<exists>h. [Some g, Some f] ! r = Some h \<and> held_permit (cf_state h) = Some 0)} \<le> 1"
proof -
  obtain f g m u st where w: "managed (ref_ops :: (nat, nat cache_value ref_chan, nat, nat cache_value) sync_ops) (\<lambda>v. v) demo_env
       False 1 [Some g, Some f] (m, u)" "held_permit (cf_state g) = Some 0" "cf_state f = AwaitResponse (0, 0) (Some st)"
    using two_futures_wait by blast
  from futures_keep_limit [OF ref_sync.sync_laws_axioms w(1), of 0]
  have "card {r. r < 2 \<and> (\<exists>h. [Some g, Some f] ! r = Some h \<and> held_permit (cf_state h) = Some 0)} \<le> 1"
    by (simp add: numeral_2_eq_2)
  with w(2) show ?thesis by blast
qed

text \<open>C5. A waiting request is not forgotten, as long as no future is dropped: the turn of a future that
  awaits a response moves it, or another future holds a permit of the same entry, and the turn in
  which that one's response is judged, cacheable or not, lets the waiting one move.\<close>

theorem waiting_future_moves:
  assumes "sync_laws P avail closed cap attached unread" and "managed P conv E False L fs (m, u)"
    and "r < length fs" "fs ! r = Some f" "cf_state f = AwaitResponse (i, rx) (Some st)"
  shows "(\<exists>f' w'. fsm_turn (over_manager P conv E) f (m, u) = (Moved f', w')) \<or>
    (\<exists>h g. h < length fs \<and> fs ! h = Some g \<and> held_permit (cf_state g) = Some i \<and>
       (\<forall>fut judged g' w'. cf_state g = CheckResponseCachePolicy fut (Some judged) \<and>
          fsm_turn (over_manager P conv E) g (m, u) = (Moved g', w') \<longrightarrow>
          (\<exists>f' w''. fsm_turn (over_manager P conv E) f w' = (Moved f', w''))))"
proof -
  obtain cl where cl: "csys_reach P False L \<lparr>cs_mgr = m, cs_client = cl\<rparr>" "\<forall>r < length fs. simulated L (fs ! r) (cl r)"
    "\<forall>r. length fs \<le> r \<longrightarrow> cl r = Idle"
    using managed_simulated [OF assms(1,2)] by auto
  have w: "cs_client \<lparr>cs_mgr = m, cs_client = cl\<rparr> r = Waiting (ar_cache_key st) i rx"
    using cl(2) assms(3-5) by (auto simp: simulated_def dest!: spec [of _ r])
  have moves: "(\<exists>f' w'. fsm_turn (over_manager P conv E) f w1 = (Moved f', w')) \<longleftrightarrow> fst (await_poll P conv i rx (fst w1)) \<noteq> None" for w1
    using wake_moves [OF assms(5)] by simp
  consider s' where "csys_act P (Wake r) \<lparr>cs_mgr = m, cs_client = cl\<rparr> = Some s'"
    | h where "cl h = Fetching (ar_cache_key st) (Some i)"
      "\<forall>v s'. csys_act P (FetchCacheable h v) \<lparr>cs_mgr = m, cs_client = cl\<rparr> = Some s' \<or>
         csys_act P (FetchNonCacheable h) \<lparr>cs_mgr = m, cs_client = cl\<rparr> = Some s' \<longrightarrow> (\<exists>s''. csys_act P (Wake r) s' = Some s'')"
    using sync_laws.no_cancel_progress [OF assms(1) cl(1) w] by auto
  then show ?thesis
  proof cases
    case 1
    then show ?thesis using wake_polls [OF w] moves [of "(m, u)"] by auto
  next
    case (2 h)
    have h: "h < length fs" using 2(1) cl(3) by (metis client.distinct(1) not_le)
    then have "simulated L (fs ! h) (cl h)" using cl(2) by blast
    then obtain g where g: "fs ! h = Some g" "matches (cf_state g) (cl h)"
      using 2(1) by (auto simp: simulated_def split: option.splits)
    have held: "held_permit (cf_state g) = Some i" by (rule matches_holds [OF g(2) 2(1)])
    have "\<exists>f' w''. fsm_turn (over_manager P conv E) f w' = (Moved f', w'')"
      if j: "cf_state g = CheckResponseCachePolicy fut (Some judged)" "fsm_turn (over_manager P conv E) g (m, u) = (Moved g', w')"
      for fut judged g' w'
    proof -
      obtain m' u' where w': "w' = (m', u')" by fastforce
      have "cl h = Fetching (cs_cache_key judged) (cs_permit judged)" using g(2) held j(1) by simp
      from judged_is_action [where cl = cl, OF j(1) this j(2) [unfolded w']]
      obtain c where "\<exists>s''. csys_act P (Wake r) \<lparr>cs_mgr = m', cs_client = cl(h := c)\<rparr> = Some s''" using 2(2) by blast
      moreover have "cs_client \<lparr>cs_mgr = m', cs_client = cl(h := c)\<rparr> r = Waiting (ar_cache_key st) i rx" using 2(1) w by auto
      ultimately have "fst (await_poll P conv i rx m') \<noteq> None" using wake_polls by fastforce
      then show ?thesis using moves [of w'] unfolding w' fst_conv by blast
    qed
    with h g(1) held show ?thesis by blast
  qed
qed

theorem waiting_future_moves_witness:
  "\<exists>f g m u st. cf_state (f :: (nat, nat, nat predicate, nat, nat) cache_future) = AwaitResponse (0, 0) (Some st) \<and>
     ((\<exists>f' w'. fsm_turn (over_manager (ref_ops :: (nat, nat cache_value ref_chan, nat, nat cache_value) sync_ops) (\<lambda>v. v) demo_env) f
          (m, u) = (Moved f', w')) \<or>
      (\<exists>h k. h < length [Some g, Some f] \<and> [Some g, Some f] ! h = Some k \<and> held_permit (cf_state k) = Some 0))"
proof -
  obtain f g m u st where w: "managed (ref_ops :: (nat, nat cache_value ref_chan, nat, nat cache_value) sync_ops) (\<lambda>v. v) demo_env
       False 1 [Some g, Some f] (m, u)" "held_permit (cf_state g) = Some 0" "cf_state f = AwaitResponse (0, 0) (Some st)"
    using two_futures_wait by blast
  from waiting_future_moves [OF ref_sync.sync_laws_axioms w(1), of 1 f 0 0 st] w(3)
  have "(\<exists>f' w'. fsm_turn (over_manager (ref_ops :: (nat, nat cache_value ref_chan, nat, nat cache_value) sync_ops) (\<lambda>v. v) demo_env) f
          (m, u) = (Moved f', w')) \<or>
      (\<exists>h k. h < length [Some g, Some f] \<and> [Some g, Some f] ! h = Some k \<and> held_permit (cf_state k) = Some 0)"
    by simp blast
  with w(3) show ?thesis by blast
qed

end
