(* ===== verification/Key_Format.thy ===== *)
theory Key_Format
  imports Core_Key Backend_Error
begin

text \<open>
  The byte forms of cache keys (hitbox-backend/src/key.rs): bitcode, and the URL-encoded query
  string.  The query-string library is a parameter: a writer and a reader of pair lists.
\<close>

section \<open>Standard library: UTF-8 and \<open>u32\<close> numerals\<close>

text \<open>Well-formed UTF-8 byte sequences (\<open>std::str::from_utf8\<close>).\<close>

definition cont :: "nat \<Rightarrow> bool" where
  "cont b \<longleftrightarrow> 128 \<le> b \<and> b \<le> 191"

fun utf8_valid :: "nat list \<Rightarrow> bool" where
  "utf8_valid [] = True"
| "utf8_valid (a # bs) =
     (if a \<le> 127 then utf8_valid bs
      else if 194 \<le> a \<and> a \<le> 223 then
        (case bs of b # r \<Rightarrow> cont b \<and> utf8_valid r | _ \<Rightarrow> False)
      else if 224 \<le> a \<and> a \<le> 239 then
        (case bs of b # c # r \<Rightarrow>
           (if a = 224 then 160 else 128) \<le> b \<and> b \<le> (if a = 237 then 159 else 191)
           \<and> cont c \<and> utf8_valid r
         | _ \<Rightarrow> False)
      else if 240 \<le> a \<and> a \<le> 244 then
        (case bs of b # c # d # r \<Rightarrow>
           (if a = 240 then 144 else 128) \<le> b \<and> b \<le> (if a = 244 then 143 else 191)
           \<and> cont c \<and> cont d \<and> utf8_valid r
         | _ \<Rightarrow> False)
      else False)"

definition bytes_of_str :: "string \<Rightarrow> bytes" where
  "bytes_of_str s = map (\<lambda>c. word_of_nat (of_char c)) s"

definition str_of_bytes :: "bytes \<Rightarrow> string" where
  "str_of_bytes b = map (\<lambda>w. char_of (unat w)) b"

definition from_utf8 :: "bytes \<Rightarrow> string option" where
  "from_utf8 b = (if utf8_valid (map unat b) then Some (str_of_bytes b) else None)"

lemma str_of_bytes_of_str [simp]: "str_of_bytes (bytes_of_str s) = s"
proof -
  have "char_of (unat (word_of_nat (of_char c) :: byte)) = c" for c
  proof -
    have "(of_char c :: nat) < 256" by simp
    then show ?thesis by (simp add: unat_of_nat)
  qed
  then show ?thesis by (simp add: str_of_bytes_def bytes_of_str_def comp_def)
qed

lemma unat_bytes_of_str [simp]: "map unat (bytes_of_str s) = map of_char s"
proof -
  have "(of_char c :: nat) mod 256 = of_char c" for c
    by (rule mod_less) simp
  then show ?thesis by (simp add: bytes_of_str_def comp_def unat_of_nat)
qed

lemma inj_bytes_of_str: "bytes_of_str s = bytes_of_str t \<longleftrightarrow> s = t"
  by (metis str_of_bytes_of_str)

text \<open>\<open>u32::from_str\<close>: an optional plus sign and at least one digit, the value in range.\<close>

definition parse_u32 :: "string \<Rightarrow> 32 word option" where
  "parse_u32 s =
     (case read_nat (case s of c # cs \<Rightarrow> if c = CHR ''+'' then cs else s | [] \<Rightarrow> s) of
        Some n \<Rightarrow> if n < 2 ^ 32 then Some (word_of_nat n) else None
      | None \<Rightarrow> None)"

definition show_u32 :: "32 word \<Rightarrow> string" where
  "show_u32 v = show_nat (unat v)"

lemma unat_less_exp: "unat (v :: 32 word) < 4294967296"
  using unsigned_less [of v] by simp

lemma show_nat_not_plus: "show_nat n \<noteq> CHR ''+'' # cs"
proof
  assume "show_nat n = CHR ''+'' # cs"
  moreover have "list_all is_digit (show_nat n)" by simp
  ultimately show False by (simp add: is_digit_def)
qed

lemma parse_show_u32 [simp, codec_simps]: "parse_u32 (show_u32 v) = Some v"
proof -
  have "(case show_nat (unat v) of c # cs \<Rightarrow> if c = CHR ''+'' then cs else show_nat (unat v) | [] \<Rightarrow> show_nat (unat v))
      = show_nat (unat v)"
    using show_nat_not_plus by (auto split: list.splits)
  then show ?thesis
    using unat_less_exp by (simp add: parse_u32_def show_u32_def)
qed

section \<open>Key formats\<close>

definition prefix_key :: string where "prefix_key = ''_prefix''"
definition version_key :: string where "version_key = ''_version''"

datatype cache_key_format = BitcodeKeys | UrlEncodedKeys

definition cache_key_format_default :: cache_key_format where
  "cache_key_format_default = BitcodeKeys"

record urlencoding =
  ue_to_string :: "(string \<times> string) list \<Rightarrow> (string, string) result"
  ue_from_str :: "string \<Rightarrow> ((string \<times> string) list, string) result"

definition key_pairs :: "cache_key \<Rightarrow> (string \<times> string) list" where
  "key_pairs key =
     (prefix_key, ck_prefix key) # (version_key, show_u32 (ck_version key))
     # map (\<lambda>p. (kp_key p, case kp_value p of Some v \<Rightarrow> v | None \<Rightarrow> [])) (ck_parts key)"

definition key_serialize ::
  "column_codec \<Rightarrow> urlencoding \<Rightarrow> cache_key_format \<Rightarrow> cache_key \<Rightarrow> (bytes, format_error) result" where
  "key_serialize cc U fmt key =
     (case fmt of
        BitcodeKeys \<Rightarrow> Ok (cache_key_encode cc key)
      | UrlEncodedKeys \<Rightarrow>
          (case ue_to_string U (key_pairs key) of
             Inr s \<Rightarrow> Ok (bytes_of_str s)
           | Inl e \<Rightarrow> Err (SerializeErr (BoxMsg e))))"

text \<open>The loop over the pairs, its three variables threaded.\<close>

fun read_pairs ::
  "(string \<times> string) list \<Rightarrow> string \<Rightarrow> 32 word \<Rightarrow> key_part list
   \<Rightarrow> (string \<times> 32 word \<times> key_part list, format_error) result" where
  "read_pairs [] prefix version parts = Ok (prefix, version, parts)"
| "read_pairs ((key, value) # pairs) prefix version parts =
     (if key = prefix_key then read_pairs pairs value version parts
      else if key = version_key then
        (case parse_u32 value of
           Some v \<Rightarrow> read_pairs pairs prefix v parts
         | None \<Rightarrow> Err (DeserializeErr (BoxMsg ''invalid version'')))
      else read_pairs pairs prefix version
             (parts @ [key_part_new key (if value = [] then None else Some value)]))"

text \<open>\<open>bitcode::decode\<close> also rejects left-over input.\<close>

definition key_deserialize ::
  "column_codec \<Rightarrow> urlencoding \<Rightarrow> cache_key_format \<Rightarrow> bytes \<Rightarrow> (cache_key, format_error) result" where
  "key_deserialize cc U fmt data =
     (case fmt of
        BitcodeKeys \<Rightarrow>
          (case cache_key_decode cc data of
             Some (key, []) \<Rightarrow> Ok key
           | _ \<Rightarrow> Err (DeserializeErr (BoxMsg ''bitcode'')))
      | UrlEncodedKeys \<Rightarrow>
          (case from_utf8 data of
             None \<Rightarrow> Err (DeserializeErr (BoxMsg ''utf8''))
           | Some input \<Rightarrow>
               (case ue_from_str U input of
                  Inl e \<Rightarrow> Err (DeserializeErr (BoxMsg e))
                | Inr pairs \<Rightarrow>
                    rmap (\<lambda>(prefix, version, parts). cache_key_new prefix version parts)
                      (read_pairs pairs [] 0 []))))"

section \<open>What the query-string library does\<close>

locale urlencoding_laws =
  fixes U :: urlencoding
  assumes writes_utf8: "ue_to_string U ps = Ok s \<Longrightarrow> utf8_valid (map of_char s)"
    and reads_back: "ue_to_string U ps = Ok s \<Longrightarrow> ue_from_str U s = Ok ps"
begin

lemma deserialize_serialize:
  assumes "key_serialize cc U UrlEncodedKeys key = Ok b"
  shows "key_deserialize cc U UrlEncodedKeys b =
    rmap (\<lambda>(prefix, version, parts). cache_key_new prefix version parts) (read_pairs (key_pairs key) [] 0 [])"
proof -
  obtain s where s: "ue_to_string U (key_pairs key) = Ok s" "b = bytes_of_str s"
    using assms by (auto simp: key_serialize_def split: sum.splits)
  then show ?thesis
    using writes_utf8 reads_back by (simp add: key_deserialize_def from_utf8_def)
qed

end

text \<open>A small query-string writer and reader that satisfies the laws: every byte of a name or value
  as two letters.\<close>

definition letters_of :: "char \<Rightarrow> string" where
  "letters_of c = [char_of (97 + (of_char c :: nat) div 16), char_of (97 + (of_char c :: nat) mod 16)]"

fun from_letters :: "string \<Rightarrow> string" where
  "from_letters (a # b # s) = char_of ((of_char a - 97) * 16 + (of_char b - 97 :: nat)) # from_letters s"
| "from_letters _ = []"

fun letter_pairs :: "(string \<times> string) list \<Rightarrow> string" where
  "letter_pairs [] = []"
| "letter_pairs ((k, v) # ps) =
     concat (map letters_of k) @ CHR ''='' # concat (map letters_of v) @ CHR ''&'' # letter_pairs ps"

fun read_letter_pairs :: "nat \<Rightarrow> string \<Rightarrow> (string \<times> string) list" where
  "read_letter_pairs 0 s = []"
| "read_letter_pairs (Suc n) s =
     (if s = [] then []
      else (let k = takeWhile (\<lambda>c. c \<noteq> CHR ''='') s; r = tl (dropWhile (\<lambda>c. c \<noteq> CHR ''='') s);
                v = takeWhile (\<lambda>c. c \<noteq> CHR ''&'') r; r' = tl (dropWhile (\<lambda>c. c \<noteq> CHR ''&'') r)
            in (from_letters k, from_letters v) # read_letter_pairs n r'))"

definition letter_encoding :: urlencoding where
  "letter_encoding =
     \<lparr>ue_to_string = (\<lambda>ps. Ok (letter_pairs ps)), ue_from_str = (\<lambda>s. Ok (read_letter_pairs (length s) s))\<rparr>"

lemma letter_code: "c \<in> set (concat (map letters_of s)) \<Longrightarrow> 97 \<le> (of_char c :: nat) \<and> (of_char c :: nat) \<le> 112"
proof -
  assume "c \<in> set (concat (map letters_of s))"
  then obtain d where "c \<in> set (letters_of d)" by auto
  moreover have "(of_char d :: nat) < 256" by simp
  then have "(of_char d :: nat) div 16 < 16" by (simp add: less_mult_imp_div_less)
  ultimately show ?thesis by (auto simp: letters_of_def of_char_of)
qed

lemma from_letters_concat [simp]: "from_letters (concat (map letters_of s)) = s"
proof (induction s)
  case (Cons c s)
  have "(of_char c :: nat) < 256" by simp
  then have "(of_char c :: nat) div 16 < 16" by (simp add: less_mult_imp_div_less)
  then show ?case using Cons by (simp add: letters_of_def of_char_of)
qed simp

lemma letters_not_sep:
  "CHR ''='' \<notin> set (concat (map letters_of s))" "CHR ''&'' \<notin> set (concat (map letters_of s))"
  using letter_code [of "CHR ''=''" s] letter_code [of "CHR ''&''" s] by auto

lemma split_at_sep:
  assumes "x \<notin> set a"
  shows "takeWhile (\<lambda>c. c \<noteq> x) (a @ x # b) = a" "tl (dropWhile (\<lambda>c. c \<noteq> x) (a @ x # b)) = b"
  using assms by (induction a) auto

lemma read_letter_pairs_back: "length (letter_pairs ps) \<le> n \<Longrightarrow> read_letter_pairs n (letter_pairs ps) = ps"
proof (induction ps arbitrary: n rule: letter_pairs.induct)
  case 1
  show ?case by (cases n) simp_all
next
  case (2 k v ps)
  then obtain m where n: "n = Suc m" by (cases n) auto
  have "length (letter_pairs ps) \<le> m" using 2(2) n by simp
  then show ?case using 2(1) [of m] letters_not_sep by (simp add: n split_at_sep)
qed

lemma utf8_valid_ascii: "\<forall>b \<in> set bs. b \<le> 127 \<Longrightarrow> utf8_valid bs"
  by (induction bs) simp_all

lemma letter_pairs_ascii: "c \<in> set (letter_pairs ps) \<Longrightarrow> (of_char c :: nat) \<le> 127"
proof (induction ps rule: letter_pairs.induct)
  case (2 k v ps)
  have small: "(of_char c :: nat) \<le> 127" if "c \<in> set (concat (map letters_of t))" for t
    using letter_code [OF that] by simp
  from 2(2) have "c \<in> set (concat (map letters_of k)) \<or> c = CHR ''='' \<or> c \<in> set (concat (map letters_of v))
      \<or> c = CHR ''&'' \<or> c \<in> set (letter_pairs ps)" by auto
  then show ?case using 2(1) small by auto
qed simp

interpretation letters: urlencoding_laws letter_encoding
  by unfold_locales
    (auto simp: letter_encoding_def read_letter_pairs_back intro!: utf8_valid_ascii letter_pairs_ascii)

section \<open>Which keys survive the query string\<close>

definition plain_part :: "key_part \<Rightarrow> bool" where
  "plain_part p \<longleftrightarrow> kp_key p \<noteq> prefix_key \<and> kp_key p \<noteq> version_key"

definition url_norm :: "key_part \<Rightarrow> key_part" where
  "url_norm p = (if kp_value p = Some [] then p\<lparr>kp_value := None\<rparr> else p)"

definition url_safe :: "cache_key \<Rightarrow> bool" where
  "url_safe key \<longleftrightarrow> list_all (\<lambda>p. plain_part p \<and> kp_value p \<noteq> Some []) (ck_parts key)"

definition url_part :: "key_part \<Rightarrow> string \<times> string" where
  "url_part p = (kp_key p, case kp_value p of Some v \<Rightarrow> v | None \<Rightarrow> [])"

lemma key_pairs_eq:
  "key_pairs key = (prefix_key, ck_prefix key) # (version_key, show_u32 (ck_version key)) # map url_part (ck_parts key)"
  by (simp add: key_pairs_def url_part_def)

lemma url_norm_part: "key_part_new (kp_key p) (if snd (url_part p) = [] then None else Some (snd (url_part p))) = url_norm p"
  by (cases p) (auto simp: url_part_def url_norm_def key_part_new_def split: option.splits)

lemma read_pairs_Cons_part:
  "read_pairs (url_part p # ps) prefix version parts =
     (if plain_part p then read_pairs ps prefix version (parts @ [url_norm p])
      else if kp_key p = prefix_key then read_pairs ps (snd (url_part p)) version parts
      else (case parse_u32 (snd (url_part p)) of
              Some v \<Rightarrow> read_pairs ps prefix v parts
            | None \<Rightarrow> Err (DeserializeErr (BoxMsg ''invalid version''))))"
  using url_norm_part [of p] by (auto simp: plain_part_def url_part_def)

lemma read_pairs_parts:
  "read_pairs (map url_part ps) prefix version parts = Ok (prefix', version', parts') \<Longrightarrow>
   parts' = parts @ map url_norm (filter plain_part ps)"
proof (induction ps arbitrary: prefix version parts)
  case (Cons p ps)
  then show ?case
    by (auto simp: read_pairs_Cons_part split: if_splits option.splits dest!: Cons.IH)
qed simp

lemma read_pairs_plain:
  "list_all plain_part ps \<Longrightarrow>
   read_pairs (map url_part ps) prefix version parts = Ok (prefix, version, parts @ map url_norm ps)"
  by (induction ps arbitrary: parts) (simp_all add: read_pairs_Cons_part)

lemma read_pairs_key:
  "read_pairs (key_pairs key) [] 0 [] = read_pairs (map url_part (ck_parts key)) (ck_prefix key) (ck_version key) []"
  by (simp add: key_pairs_eq prefix_key_def version_key_def)

lemma map_filter_id:
  assumes "map f (filter P xs) = xs"
  shows "list_all P xs" "map f xs = xs"
proof -
  have "length (filter P xs) = length xs" using assms by (metis length_map)
  then have "filter P xs = xs" by (metis length_filter_less less_irrefl filter_id_conv)
  then show "list_all P xs" "map f xs = xs" using assms by (auto simp: filter_id_conv list_all_iff)
qed

lemma url_norm_fixed: "map url_norm ps = ps \<longleftrightarrow> list_all (\<lambda>p. kp_value p \<noteq> Some []) ps"
proof (induction ps)
  case (Cons p ps)
  then show ?case by (cases p) (auto simp: url_norm_def)
qed simp

text \<open>Reading back what was written gives the key exactly when the key is safe.\<close>

lemma read_back_iff:
  assumes "wf_key key"
  shows "rmap (\<lambda>(prefix, version, parts). cache_key_new prefix version parts) (read_pairs (key_pairs key) [] 0 [])
    = Ok key \<longleftrightarrow> url_safe key"
proof
  assume "rmap (\<lambda>(prefix, version, parts). cache_key_new prefix version parts) (read_pairs (key_pairs key) [] 0 []) = Ok key"
  then obtain prefix version parts where
    r: "read_pairs (key_pairs key) [] 0 [] = Ok (prefix, version, parts)" and k: "key = cache_key_new prefix version parts"
    by auto
  have "map url_norm (filter plain_part (ck_parts key)) = ck_parts key"
    using read_pairs_parts [OF r [unfolded read_pairs_key]] k by (simp add: cache_key_new_def)
  note parts = map_filter_id [OF this]
  show "url_safe key"
    using parts(1) parts(2) [unfolded url_norm_fixed] by (simp add: url_safe_def list_all_iff)
next
  assume safe: "url_safe key"
  then have "list_all plain_part (ck_parts key)" "map url_norm (ck_parts key) = ck_parts key"
    by (simp_all add: url_safe_def url_norm_fixed list_all_iff)
  then show "rmap (\<lambda>(prefix, version, parts). cache_key_new prefix version parts) (read_pairs (key_pairs key) [] 0 []) = Ok key"
    using assms by (cases key) (simp add: read_pairs_key read_pairs_plain cache_key_new_def wf_key_def)
qed

text \<open>The keys a format tells apart.\<close>

definition key_ok :: "cache_key_format \<Rightarrow> cache_key \<Rightarrow> bool" where
  "key_ok fmt key \<longleftrightarrow> wf_key key \<and> (fmt = UrlEncodedKeys \<longrightarrow> url_safe key)"

lemma key_serialize_inj:
  assumes "lawful_columns cc" "urlencoding_laws U" "key_ok fmt k1" "key_ok fmt k2"
    and "key_serialize cc U fmt k1 = Ok b" "key_serialize cc U fmt k2 = Ok b"
  shows "k1 = k2"
proof (cases fmt)
  case BitcodeKeys
  then have "cache_key_encode cc k1 = cache_key_encode cc k2" using assms(5,6) by (simp add: key_serialize_def)
  then have "cache_key_new (ck_prefix k1) (ck_version k1) (ck_parts k1) = cache_key_new (ck_prefix k2) (ck_version k2) (ck_parts k2)"
    using cache_key_decode_encode [OF assms(1), of k1 "[]"] cache_key_decode_encode [OF assms(1), of k2 "[]"] by simp
  then show ?thesis using assms(3,4) by (metis key_ok_def wf_key_surjective)
next
  case UrlEncodedKeys
  have rt: "key_deserialize cc U UrlEncodedKeys b = Ok k"
    if "key_ok fmt k" "key_serialize cc U fmt k = Ok b" for k
    using that UrlEncodedKeys urlencoding_laws.deserialize_serialize [OF assms(2), of cc k b] read_back_iff [of k]
    by (simp add: key_ok_def del: rmap_eq_Inr)
  show ?thesis using rt [OF assms(3,5)] rt [OF assms(4,6)] by simp
qed

section \<open>Properties\<close>

text \<open>C33. The URL-encoded form of a key gives back the key exactly when no part is named like the
  two reserved names, \<open>_prefix\<close> and \<open>_version\<close>, and no part has an empty value: such a part is
  taken for the prefix or the version, or comes back without a value (the module calls the
  format reversible).  The key is one the constructors can build.\<close>

theorem urlencoded_roundtrip_exactly_safe_keys:
  assumes "urlencoding_laws U" "wf_key key" "key_serialize cc U UrlEncodedKeys key = Ok b"
  shows "key_deserialize cc U UrlEncodedKeys b = Ok key \<longleftrightarrow> url_safe key"
  using urlencoding_laws.deserialize_serialize [OF assms(1,3)] read_back_iff [OF assms(2)] by simp

theorem urlencoded_roundtrip_exactly_safe_keys_witness:
  "key_deserialize unary_columns letter_encoding UrlEncodedKeys
     (bytes_of_str (letter_pairs (key_pairs (cache_key_new ''p'' 1 [key_part_new ''q'' (Some [])]))))
   \<noteq> Ok (cache_key_new ''p'' 1 [key_part_new ''q'' (Some [])])"
  using urlencoded_roundtrip_exactly_safe_keys
    [OF letters.urlencoding_laws_axioms wf_key_new, of unary_columns "''p''" 1 "[key_part_new ''q'' (Some [])]"
      "bytes_of_str (letter_pairs (key_pairs (cache_key_new ''p'' 1 [key_part_new ''q'' (Some [])])))"]
  by (simp add: key_serialize_def letter_encoding_def url_safe_def cache_key_new_def key_part_new_def)

text \<open>Two different keys can have the same URL-encoded bytes, so a store that keys its entries
  by them answers one request with the other's response: a parameter without a value and one with
  an empty value are written alike, whatever the rest of the key holds.\<close>

theorem urlencoded_keys_collide:
  "cache_key_new prefix version (ps @ [key_part_new name None] @ qs)
     \<noteq> cache_key_new prefix version (ps @ [key_part_new name (Some [])] @ qs)
   \<and> key_serialize cc U UrlEncodedKeys (cache_key_new prefix version (ps @ [key_part_new name None] @ qs))
     = key_serialize cc U UrlEncodedKeys (cache_key_new prefix version (ps @ [key_part_new name (Some [])] @ qs))"
  by (simp add: cache_key_new_def key_part_new_def key_serialize_def key_pairs_def)

end
