(* ===== verification/Backend.thy ===== *)
theory Backend
  imports Core_Context Core_Value Key_Format
begin

text \<open>
  The storage layer (hitbox-backend): value formats (format/*.rs), compressors (compressor.rs), the
  raw \<open>Backend\<close> operations and the typed \<open>CacheBackend\<close> operations built on them (backend.rs).

  The serializers behind the formats and the compression libraries are parameters.  A format is
  taken at one type of cached value: the callback of \<open>with_serializer\<close> and \<open>with_deserializer\<close> is
  always the one that serializes, or deserializes, a value of that type, so the pair of methods is
  a pair of functions; the deserializer gives \<open>None\<close> when it never runs its callback.  Metrics are
  left out.
\<close>

section \<open>Formats\<close>

datatype format_type_id = FmtJson | FmtBincode | FmtRon | FmtRkyv | FmtCustom string

record 'a format =
  fm_ser :: "'a \<Rightarrow> box_context \<Rightarrow> (bytes, format_error) result"
  fm_de :: "bytes \<Rightarrow> box_context \<Rightarrow> ('a option, format_error) result \<times> box_context"
  fm_type_id :: format_type_id

text \<open>A third-party serializer and its parser.\<close>

record 'a serde =
  sd_ser :: "'a \<Rightarrow> (bytes, string) result"
  sd_de :: "bytes \<Rightarrow> ('a, string) result"

definition json_format :: "'a serde \<Rightarrow> 'a format" where
  "json_format S =
     \<lparr>fm_ser = (\<lambda>v ctx. map_err (SerializeErr \<circ> BoxMsg) (sd_ser S v)),
      fm_de = (\<lambda>data ctx. (map_err (DeserializeErr \<circ> BoxMsg) (rmap Some (sd_de S data)), ctx)),
      fm_type_id = FmtJson\<rparr>"

definition bincode_format :: "'a serde \<Rightarrow> 'a format" where
  "bincode_format S =
     \<lparr>fm_ser = (\<lambda>v ctx. map_err (SerializeErr \<circ> BoxMsg) (sd_ser S v)),
      fm_de = (\<lambda>data ctx. (map_err (DeserializeErr \<circ> BoxMsg) (rmap Some (sd_de S data)), ctx)),
      fm_type_id = FmtBincode\<rparr>"

text \<open>RON is text: its parser is given a string, and the bytes must be UTF-8.\<close>

definition ron_format :: "'a serde \<Rightarrow> 'a format" where
  "ron_format S =
     \<lparr>fm_ser = (\<lambda>v ctx. map_err (SerializeErr \<circ> BoxMsg) (sd_ser S v)),
      fm_de = (\<lambda>data ctx.
        (case from_utf8 data of
           None \<Rightarrow> Err (DeserializeErr (BoxMsg ''utf8''))
         | Some s \<Rightarrow> map_err (DeserializeErr \<circ> BoxMsg) (rmap Some (sd_de S (bytes_of_str s))), ctx)),
      fm_type_id = FmtRon\<rparr>"

record rkyv_config =
  rk_buffer_hint :: nat

definition rkyv_new :: rkyv_config where
  "rkyv_new = \<lparr>rk_buffer_hint = 4096\<rparr>"

definition rkyv_with_buffer_hint :: "nat \<Rightarrow> rkyv_config" where
  "rkyv_with_buffer_hint n = \<lparr>rk_buffer_hint = n\<rparr>"

text \<open>The hint is the capacity of the buffer, which the bytes written do not show.\<close>

definition rkyv_format :: "rkyv_config \<Rightarrow> 'a serde \<Rightarrow> 'a format" where
  "rkyv_format c S =
     \<lparr>fm_ser = (\<lambda>v ctx. map_err (SerializeErr \<circ> BoxMsg) (sd_ser S v)),
      fm_de = (\<lambda>data ctx. (map_err (DeserializeErr \<circ> BoxMsg) (rmap Some (sd_de S data)), ctx)),
      fm_type_id = FmtRkyv\<rparr>"

definition format_serialize :: "'a format \<Rightarrow> 'a \<Rightarrow> box_context \<Rightarrow> (bytes, format_error) result" where
  "format_serialize F v ctx = fm_ser F v ctx"

definition format_deserialize :: "'a format \<Rightarrow> bytes \<Rightarrow> box_context \<Rightarrow> ('a, format_error) result \<times> box_context" where
  "format_deserialize F data ctx =
     (case fm_de F data ctx of
        (Inl e, ctx) \<Rightarrow> (Err e, ctx)
      | (Inr None, ctx) \<Rightarrow> (Err (DeserializeErr (BoxMsg ''deserialization produced no result'')), ctx)
      | (Inr (Some v), ctx) \<Rightarrow> (Ok v, ctx))"

section \<open>Compressors\<close>

record compressor =
  cp_compress :: "bytes \<Rightarrow> (bytes, compression_error) result"
  cp_decompress :: "bytes \<Rightarrow> (bytes, compression_error) result"

definition passthrough_compressor :: compressor where
  "passthrough_compressor = \<lparr>cp_compress = (\<lambda>data. Ok data), cp_decompress = (\<lambda>data. Ok data)\<rparr>"

text \<open>The compression libraries: an encoder at a level and a decoder.\<close>

record 'l compression_lib =
  cl_encode :: "'l \<Rightarrow> bytes \<Rightarrow> (bytes, string) result"
  cl_decode :: "bytes \<Rightarrow> (bytes, string) result"

definition gzip_new :: nat where
  "gzip_new = 6"

definition gzip_with_level :: "nat \<Rightarrow> nat" where
  "gzip_with_level level = min level 9"

definition gzip_compressor :: "nat compression_lib \<Rightarrow> nat \<Rightarrow> compressor" where
  "gzip_compressor Z level =
     \<lparr>cp_compress = (\<lambda>data. map_err CompressionFailed (cl_encode Z level data)),
      cp_decompress = (\<lambda>data. map_err DecompressionFailed (cl_decode Z data))\<rparr>"

definition zstd_new :: int where
  "zstd_new = 3"

definition zstd_with_level :: "int \<Rightarrow> int" where
  "zstd_with_level level = max (- 7) (min level 22)"

definition zstd_compressor :: "int compression_lib \<Rightarrow> int \<Rightarrow> compressor" where
  "zstd_compressor Z level =
     \<lparr>cp_compress = (\<lambda>data. map_err CompressionFailed (cl_encode Z level data)),
      cp_decompress = (\<lambda>data. map_err DecompressionFailed (cl_decode Z data))\<rparr>"

section \<open>Backends\<close>

datatype delete_status = Deleted "32 word" | Missing

text \<open>The raw operations on a store of type \<open>'s\<close>, with the format of the values it keeps.\<close>

record ('s, 'a) backend =
  be_read :: "cache_key \<Rightarrow> 's \<Rightarrow> (bytes cache_value option, backend_error) result \<times> 's"
  be_write :: "cache_key \<Rightarrow> bytes cache_value \<Rightarrow> 's \<Rightarrow> (unit, backend_error) result \<times> 's"
  be_remove :: "cache_key \<Rightarrow> 's \<Rightarrow> (delete_status, backend_error) result \<times> 's"
  be_label :: backend_label
  be_format :: "'a format"
  be_compressor :: compressor

definition default_label :: backend_label where
  "default_label = BackendLabel ''backend''"

text \<open>\<open>CacheBackend::set\<close>.\<close>

definition cache_set ::
  "('s, 'a, 'z) backend_scheme \<Rightarrow> cache_key \<Rightarrow> 'a cache_value \<Rightarrow> box_context \<Rightarrow> 's
   \<Rightarrow> ((unit, backend_error) result \<times> box_context) \<times> 's" where
  "cache_set B key v ctx s =
     (if ctx_read_mode ctx = Refill then ((Ok (), ctx), s)
      else
        (case fm_ser (be_format B) (cv_data v) ctx of
           Inl e \<Rightarrow> ((Err (FormatErr e), ctx), s)
         | Inr serialized_value \<Rightarrow>
             (case cp_compress (be_compressor B) serialized_value of
                Inl e \<Rightarrow> ((Err (CompressionErr e), ctx), s)
              | Inr compressed_value \<Rightarrow>
                  (case be_write B key (cache_value_new compressed_value (cv_expire v) (cv_stale v)) s of
                     (r, s') \<Rightarrow> ((r, ctx), s')))))"

text \<open>\<open>CacheBackend::get\<close>.  The result of the refill call is dropped.\<close>

definition cache_get ::
  "('s, 'a, 'z) backend_scheme \<Rightarrow> cache_key \<Rightarrow> box_context \<Rightarrow> 's
   \<Rightarrow> (('a cache_value option, backend_error) result \<times> box_context) \<times> 's" where
  "cache_get B key ctx s =
     (case be_read B key s of
        (Inl e, s) \<Rightarrow> ((Err e, ctx), s)
      | (Inr None, s) \<Rightarrow> ((Ok None, ctx), s)
      | (Inr (Some v), s) \<Rightarrow>
          (case into_parts v of
             (meta, raw_data) \<Rightarrow>
               (case cp_decompress (be_compressor B) raw_data of
                  Inl e \<Rightarrow> ((Err (CompressionErr e), ctx), s)
                | Inr decompressed \<Rightarrow>
                    (case fm_de (be_format B) decompressed ctx of
                       (Inl e, ctx) \<Rightarrow> ((Err (FormatErr e), ctx), s)
                     | (Inr None, ctx) \<Rightarrow>
                         ((Err (InternalError (BoxMsg ''deserialization produced no result'')), ctx), s)
                     | (Inr (Some deserialized), ctx) \<Rightarrow>
                         (let cached_value = cache_value_new deserialized (cm_expire meta) (cm_stale meta);
                              (ctx, s) = (if ctx_read_mode ctx = Refill
                                          then (case cache_set B key cached_value ctx s of ((_, ctx), s) \<Rightarrow> (ctx, s))
                                          else (ctx, s));
                              ctx = ctx_set_source (SrcBackend (be_label B)) (ctx_set_status Hit ctx)
                          in ((Ok (Some cached_value), ctx), s))))))"

definition cache_delete ::
  "('s, 'a, 'z) backend_scheme \<Rightarrow> cache_key \<Rightarrow> box_context \<Rightarrow> 's
   \<Rightarrow> ((delete_status, backend_error) result \<times> box_context) \<times> 's" where
  "cache_delete B key ctx s = (case be_remove B key s of (r, s') \<Rightarrow> ((r, ctx), s'))"

text \<open>The typed interface: a backend with its \<open>get\<close>, \<open>set\<close> and \<open>delete\<close>, which are the three above
  unless the implementation overrides them.\<close>

record ('s, 'a) cache_backend = "('s, 'a) backend" +
  kb_get :: "cache_key \<Rightarrow> box_context \<Rightarrow> 's \<Rightarrow> (('a cache_value option, backend_error) result \<times> box_context) \<times> 's"
  kb_set :: "cache_key \<Rightarrow> 'a cache_value \<Rightarrow> box_context \<Rightarrow> 's \<Rightarrow> ((unit, backend_error) result \<times> box_context) \<times> 's"
  kb_delete :: "cache_key \<Rightarrow> box_context \<Rightarrow> 's \<Rightarrow> ((delete_status, backend_error) result \<times> box_context) \<times> 's"

text \<open>The blanket implementation, which is also what a trait object gets.\<close>

definition dyn_backend :: "('s, 'a, 'z) backend_scheme \<Rightarrow> ('s, 'a) cache_backend" where
  "dyn_backend B =
     \<lparr>be_read = be_read B, be_write = be_write B, be_remove = be_remove B, be_label = be_label B,
      be_format = be_format B, be_compressor = be_compressor B,
      kb_get = cache_get B, kb_set = cache_set B, kb_delete = cache_delete B\<rparr>"

text \<open>The blanket implementation of a blanket implementation is the same.\<close>

lemma dyn_dyn: "dyn_backend (dyn_backend B) = dyn_backend B"
proof -
  have "cache_get (dyn_backend B) = cache_get B" "cache_set (dyn_backend B) = cache_set B" "cache_delete (dyn_backend B) = cache_delete B"
    by (intro ext; unfold cache_get_def cache_set_def cache_delete_def dyn_backend_def backend.simps; rule refl)+
  then show ?thesis by (simp add: dyn_backend_def)
qed

section \<open>What a typed cache needs from its store and its codec\<close>

text \<open>The store holds at most the bytes last written under a key: it may forget, by eviction, expiry
  or a failure, but never serves other bytes.  A write that fails may have happened or not.  The
  keys it can tell apart are the ones that are \<open>okey\<close>.\<close>

locale cache_store =
  fixes B :: "('s, 'a, 'z) backend_scheme"
    and okey :: "cache_key \<Rightarrow> bool"
    and inv :: "'s \<Rightarrow> bool"
    and view :: "'s \<Rightarrow> cache_key \<Rightarrow> bytes option"
  assumes read_law: "okey k \<Longrightarrow> inv s \<Longrightarrow> be_read B k s = (r, s') \<Longrightarrow>
      inv s' \<and> view s' \<subseteq>\<^sub>m view s \<and> (\<forall>v. r = Ok (Some v) \<longrightarrow> view s k = Some (cv_data v))"
    and write_law: "okey k \<Longrightarrow> inv s \<Longrightarrow> be_write B k u s = (w, s') \<Longrightarrow>
      inv s' \<and> (view s' \<subseteq>\<^sub>m (view s)(k \<mapsto> cv_data u) \<or> \<not> is_ok w \<and> view s' \<subseteq>\<^sub>m view s)"
    and remove_law: "okey k \<Longrightarrow> inv s \<Longrightarrow> be_remove B k s = (d, s') \<Longrightarrow>
      inv s' \<and> view s' \<subseteq>\<^sub>m view s \<and> (is_ok d \<longrightarrow> view s' k = None)"

text \<open>A value that was serialized and compressed comes back, in whatever context it is read.\<close>

locale value_codec =
  fixes B :: "('s, 'a, 'z) backend_scheme"
  assumes format_law: "fm_ser (be_format B) v ctx = Ok b \<Longrightarrow> fst (fm_de (be_format B) b ctx') = Ok (Some v)"
    and compressor_law: "cp_compress (be_compressor B) b = Ok z \<Longrightarrow> cp_decompress (be_compressor B) z = Ok b"

definition encoded :: "('s, 'a, 'z) backend_scheme \<Rightarrow> 'a \<Rightarrow> bytes \<Rightarrow> bool" where
  "encoded B v z \<longleftrightarrow>
     (\<exists>ctx b. fm_ser (be_format B) v ctx = Ok b \<and> cp_compress (be_compressor B) b = Ok z)"

text \<open>A history of typed operations.  Beside the store, it carries for every key the set of values
  a reader may see: after a successful set only the value set, after a failed one that value too,
  after a successful delete none.  Entries may be lost between operations.\<close>

definition note_set :: "cache_key \<Rightarrow> 'a \<Rightarrow> (unit, backend_error) result \<Rightarrow> (cache_key \<Rightarrow> 'a set) \<Rightarrow> cache_key \<Rightarrow> 'a set" where
  "note_set k v r h = h(k := (if is_ok r then {v} else insert v (h k)))"

definition note_delete :: "cache_key \<Rightarrow> (delete_status, backend_error) result \<Rightarrow> (cache_key \<Rightarrow> 'a set) \<Rightarrow> cache_key \<Rightarrow> 'a set" where
  "note_delete k r h = (if is_ok r then h(k := {}) else h)"

inductive cache_history ::
  "('s, 'a, 'z) backend_scheme \<Rightarrow> (cache_key \<Rightarrow> bool) \<Rightarrow> ('s \<Rightarrow> bool) \<Rightarrow> ('s \<Rightarrow> cache_key \<Rightarrow> bytes option) \<Rightarrow> 's \<Rightarrow> (cache_key \<Rightarrow> 'a set) \<Rightarrow> bool"
  for B okey inv view where
  history_start: "inv s \<Longrightarrow> view s = (\<lambda>k. None) \<Longrightarrow> cache_history B okey inv view s (\<lambda>k. {})"
| history_get: "cache_history B okey inv view s h \<Longrightarrow> okey k \<Longrightarrow> cache_get B k ctx s = (r, s') \<Longrightarrow> cache_history B okey inv view s' h"
| history_set: "cache_history B okey inv view s h \<Longrightarrow> okey k \<Longrightarrow> ctx_read_mode ctx \<noteq> Refill \<Longrightarrow> cache_set B k v ctx s = ((r, ctx'), s')
    \<Longrightarrow> cache_history B okey inv view s' (note_set k (cv_data v) r h)"
| history_delete: "cache_history B okey inv view s h \<Longrightarrow> okey k \<Longrightarrow> cache_delete B k ctx s = ((r, ctx'), s')
    \<Longrightarrow> cache_history B okey inv view s' (note_delete k r h)"
| history_loss: "cache_history B okey inv view s h \<Longrightarrow> inv s' \<Longrightarrow> view s' \<subseteq>\<^sub>m view s \<Longrightarrow> cache_history B okey inv view s' h"

locale coherent_cache = cache_store B okey inv view + value_codec B
  for B :: "('s, 'a, 'z) backend_scheme" and okey inv view
begin

definition agree :: "'s \<Rightarrow> (cache_key \<Rightarrow> 'a set) \<Rightarrow> bool" where
  "agree s h \<longleftrightarrow> inv s \<and> (\<forall>k z. view s k = Some z \<longrightarrow> (\<exists>v \<in> h k. encoded B v z))"

lemma agree_le: "agree s h \<Longrightarrow> inv s' \<Longrightarrow> view s' \<subseteq>\<^sub>m view s \<Longrightarrow> agree s' h"
  unfolding agree_def map_le_def by (metis domI)

lemma encoded_unique:
  assumes "encoded B v z" "cp_decompress (be_compressor B) z = Ok b" "fst (fm_de (be_format B) b ctx) = Ok (Some u)"
  shows "u = v"
proof -
  obtain ctx' b' where "fm_ser (be_format B) v ctx' = Ok b'" "cp_compress (be_compressor B) b' = Ok z"
    using assms(1) unfolding encoded_def by blast
  then have "b' = b" and "fst (fm_de (be_format B) b' ctx) = Ok (Some v)"
    using compressor_law [of b' z] assms(2) format_law [of v ctx' b'] by auto
  then show ?thesis using assms(3) by simp
qed

lemma refill_set_inert: "ctx_read_mode ctx = Refill \<Longrightarrow> cache_set B k v ctx s = ((Ok (), ctx), s)"
  by (simp add: cache_set_def)

lemma cache_get_cases:
  assumes "cache_get B k ctx s = ((r, ctx'), s')"
  shows "s' = snd (be_read B k s) \<and> (\<forall>v. r = Ok (Some v) \<longrightarrow>
    (\<exists>u b. fst (be_read B k s) = Ok (Some u) \<and> cp_decompress (be_compressor B) (cv_data u) = Ok b
      \<and> fst (fm_de (be_format B) b ctx) = Ok (Some (cv_data v))
      \<and> cv_expire v = cv_expire u \<and> cv_stale v = cv_stale u))"
proof -
  obtain q t where q: "be_read B k s = (q, t)" by fastforce
  show ?thesis
  proof (cases "\<exists>u. q = Ok (Some u)")
    case False
    then show ?thesis using assms q by (auto simp: cache_get_def split: sum.splits option.splits)
  next
    case True
    then obtain u where u: "q = Ok (Some u)" by blast
    show ?thesis
    proof (cases "cp_decompress (be_compressor B) (cv_data u)")
      case (Inl e)
      then show ?thesis using assms q u by (auto simp: cache_get_def into_parts_def)
    next
      case (Inr b)
      obtain d c where d: "fm_de (be_format B) b ctx = (d, c)" by fastforce
      show ?thesis
      proof (cases "\<exists>x. d = Ok (Some x)")
        case False
        then show ?thesis using assms q u Inr d
          by (auto simp: cache_get_def into_parts_def split: sum.splits option.splits)
      next
        case True
        then show ?thesis using assms q u Inr d refill_set_inert
          by (cases "ctx_read_mode c = Refill") (auto simp: cache_get_def into_parts_def cache_meta_new_def Let_def)
      qed
    qed
  qed
qed

lemma get_agrees:
  assumes "agree s h" "okey k" "cache_get B k ctx s = ((r, ctx'), s')"
  shows "agree s' h \<and> (\<forall>v. r = Ok (Some v) \<longrightarrow> cv_data v \<in> h k)"
proof -
  obtain q t where q: "be_read B k s = (q, t)" by fastforce
  have rl: "inv t" "view t \<subseteq>\<^sub>m view s" "\<And>v. q = Ok (Some v) \<Longrightarrow> view s k = Some (cv_data v)"
    using read_law [OF assms(2) _ q] assms(1) unfolding agree_def by auto
  have a: "agree t h" by (rule agree_le [OF assms(1) rl(1,2)])
  note c = cache_get_cases [OF assms(3)]
  have "cv_data v \<in> h k" if hit: "r = Ok (Some v)" for v
  proof -
    obtain u b where u: "fst (be_read B k s) = Ok (Some u)" "cp_decompress (be_compressor B) (cv_data u) = Ok b"
      "fst (fm_de (be_format B) b ctx) = Ok (Some (cv_data v))"
      using conjunct2 [OF c, rule_format, OF hit] by blast
    have "view s k = Some (cv_data u)" using rl(3) u(1) q by simp
    then obtain w where "w \<in> h k" "encoded B w (cv_data u)" using assms(1) unfolding agree_def by blast
    then show ?thesis using encoded_unique [OF _ u(2,3)] by simp
  qed
  then show ?thesis using a c q by simp
qed

lemma set_agrees:
  assumes "agree s h" "okey k" "ctx_read_mode ctx \<noteq> Refill" "cache_set B k v ctx s = ((r, ctx'), s')"
  shows "agree s' (note_set k (cv_data v) r h)"
proof -
  have more: "agree s (note_set k w (Err e) h)" for w e
    using assms(1) unfolding agree_def note_set_def by (auto; blast)
  show ?thesis
  proof (cases "fm_ser (be_format B) (cv_data v) ctx")
    case (Inl e)
    then show ?thesis using assms more by (auto simp: cache_set_def)
  next
    case (Inr b)
    note ser = this
    show ?thesis
    proof (cases "cp_compress (be_compressor B) b")
      case (Inl e)
      then show ?thesis using assms more ser by (auto simp: cache_set_def)
    next
      case (Inr z)
      let ?u = "cache_value_new z (cv_expire v) (cv_stale v)"
      have w: "be_write B k ?u s = (r, s')"
        using assms(3,4) ser Inr by (auto simp: cache_set_def split: prod.splits)
      have enc: "encoded B (cv_data v) z" unfolding encoded_def using ser Inr by blast
      have wl: "inv s'" "view s' \<subseteq>\<^sub>m (view s)(k \<mapsto> z) \<or> \<not> is_ok r \<and> view s' \<subseteq>\<^sub>m view s"
        using write_law [OF assms(2) _ w] assms(1) unfolding agree_def by auto
      from wl(2) show ?thesis
      proof
        assume le: "view s' \<subseteq>\<^sub>m (view s)(k \<mapsto> z)"
        have "\<exists>w \<in> note_set k (cv_data v) r h j. encoded B w y" if "view s' j = Some y" for j y
        proof (cases "j = k")
          case True
          then have "y = z" using le that unfolding map_le_def by (metis domI fun_upd_same option.inject)
          then show ?thesis using True enc by (auto simp: note_set_def)
        next
          case False
          then have "view s j = Some y" using le that unfolding map_le_def by (metis domI fun_upd_other)
          then show ?thesis using False assms(1) by (auto simp: agree_def note_set_def)
        qed
        then show ?thesis using wl(1) unfolding agree_def by blast
      next
        assume "\<not> is_ok r \<and> view s' \<subseteq>\<^sub>m view s"
        then show ?thesis
          using agree_le [OF more wl(1)] by (auto simp: not_is_ok_iff)
      qed
    qed
  qed
qed

lemma delete_agrees:
  assumes "agree s h" "okey k" "cache_delete B k ctx s = ((r, ctx'), s')"
  shows "agree s' (note_delete k r h)"
proof -
  have rm: "be_remove B k s = (r, s')" using assms(3) by (auto simp: cache_delete_def split: prod.splits)
  have rl: "inv s'" "view s' \<subseteq>\<^sub>m view s" "is_ok r \<Longrightarrow> view s' k = None"
    using remove_law [OF assms(2) _ rm] assms(1) unfolding agree_def by auto
  have "agree s' h" by (rule agree_le [OF assms(1) rl(1,2)])
  then show ?thesis using rl(3) by (auto simp: agree_def note_delete_def)
qed

lemma history_agrees: "cache_history B okey inv view s h \<Longrightarrow> agree s h"
proof (induction rule: cache_history.induct)
  case (history_get s h k ctx r s')
  then show ?case using get_agrees [of s h k ctx "fst r" "snd r" s'] by simp
next
  case (history_loss s h s')
  then show ?case by (blast intro: agree_le)
next
  case (history_start s)
  then show ?case by (simp add: agree_def)
qed (blast intro: set_agrees delete_agrees)+

lemma history_get_sound:
  "cache_history B okey inv view s h \<Longrightarrow> okey k \<Longrightarrow> cache_get B k ctx s = ((Ok (Some v), ctx'), s') \<Longrightarrow> cv_data v \<in> h k"
  using get_agrees history_agrees by blast

end

section \<open>Codecs that obey the law\<close>

definition lossless_serde :: "'a serde \<Rightarrow> bool" where
  "lossless_serde S \<longleftrightarrow> (\<forall>v b. sd_ser S v = Ok b \<longrightarrow> sd_de S b = Ok v)"

definition lossless_format :: "'a format \<Rightarrow> bool" where
  "lossless_format F \<longleftrightarrow> (\<forall>v ctx b ctx'. fm_ser F v ctx = Ok b \<longrightarrow> fst (fm_de F b ctx') = Ok (Some v))"

definition lossless_compressor :: "compressor \<Rightarrow> bool" where
  "lossless_compressor C \<longleftrightarrow> (\<forall>b z. cp_compress C b = Ok z \<longrightarrow> cp_decompress C z = Ok b)"

lemma lossless_formats [codec_simps]:
  assumes "lossless_serde S"
  shows "lossless_format (json_format S)" "lossless_format (bincode_format S)" "lossless_format (rkyv_format c S)"
  using assms unfolding lossless_serde_def lossless_format_def json_format_def bincode_format_def rkyv_format_def
  by auto

lemma lossless_passthrough [simp, codec_simps]: "lossless_compressor passthrough_compressor"
  by (simp add: lossless_compressor_def passthrough_compressor_def)

definition lossless_lib :: "'l compression_lib \<Rightarrow> bool" where
  "lossless_lib Z \<longleftrightarrow> (\<forall>l b z. cl_encode Z l b = Ok z \<longrightarrow> cl_decode Z z = Ok b)"

lemma map_err_Inr_iff [simp]: "map_err f r = Inr a \<longleftrightarrow> r = Inr a"
  by (cases r) simp_all

lemma lossless_libs [codec_simps]:
  "lossless_lib Z \<Longrightarrow> lossless_compressor (gzip_compressor Z l)"
  "lossless_lib Y \<Longrightarrow> lossless_compressor (zstd_compressor Y m)"
  by (auto simp: lossless_lib_def lossless_compressor_def gzip_compressor_def zstd_compressor_def)

lemma value_codecI:
  "lossless_format (be_format B) \<Longrightarrow> lossless_compressor (be_compressor B) \<Longrightarrow> value_codec B"
  unfolding lossless_format_def lossless_compressor_def by unfold_locales auto

text \<open>JSON of natural numbers: their decimal digits.\<close>

definition nat_serde :: "nat serde" where
  "nat_serde =
     \<lparr>sd_ser = (\<lambda>n. Ok (bytes_of_str (show_nat n))),
      sd_de = (\<lambda>b. case read_nat (str_of_bytes b) of Some n \<Rightarrow> Ok n | None \<Rightarrow> Err ''expected a number'')\<rparr>"

lemma lossless_nat_serde [simp]: "lossless_serde nat_serde"
  by (simp add: lossless_serde_def nat_serde_def)

section \<open>Compression levels\<close>

lemma compression_levels:
  "gzip_with_level l \<le> 9" "-7 \<le> zstd_with_level z" "zstd_with_level z \<le> 22"
  "l \<le> 9 \<Longrightarrow> gzip_with_level l = l" "-7 \<le> z \<Longrightarrow> z \<le> 22 \<Longrightarrow> zstd_with_level z = z"
  by (simp_all add: gzip_with_level_def zstd_with_level_def)

end
