(* ===== verification/Envelope.thy ===== *)
theory Envelope
  imports Core_Value Backend_Error
begin

text \<open>
  The envelope a composition uses when it is called through the raw interface
  (hitbox-backend/src/composition/envelope.rs): a 48-byte header of machine integers in the layout
  of \<open>repr(C)\<close> on a little-endian machine, then the bytes of one or both layers.
\<close>

section \<open>Little-endian integers\<close>

definition le_bytes :: "nat \<Rightarrow> nat \<Rightarrow> bytes" where
  "le_bytes n x = map (\<lambda>i. word_of_nat (x div 256 ^ i)) [0..<n]"

fun of_le_bytes :: "bytes \<Rightarrow> nat" where
  "of_le_bytes [] = 0"
| "of_le_bytes (b # bs) = unat b + 256 * of_le_bytes bs"

lemma length_le_bytes [simp]: "length (le_bytes n x) = n"
  by (simp add: le_bytes_def)

lemma le_bytes_Suc: "le_bytes (Suc n) x = word_of_nat x # le_bytes n (x div 256)"
proof -
  have "[0..<Suc n] = 0 # map Suc [0..<n]" by (metis map_Suc_upt upt_conv_Cons zero_less_Suc)
  then show ?thesis by (simp add: le_bytes_def comp_def div_mult2_eq del: upt_Suc)
qed

lemma of_le_bytes_le_bytes [simp]: "of_le_bytes (le_bytes n x) = x mod 256 ^ n"
proof (induction n arbitrary: x)
  case 0
  then show ?case by (simp add: le_bytes_def)
next
  case (Suc n)
  have "unat (word_of_nat x :: byte) = x mod 256" by (simp add: unat_of_nat)
  then show ?case using Suc [of "x div 256"]
    by (simp add: le_bytes_Suc mod_mult2_eq mult.commute [of "256 ^ n"] add.commute)
qed

section \<open>The header\<close>

record envelope_header =
  eh_discriminant :: "8 word"
  eh_l1_len :: "32 word"
  eh_l2_len :: "32 word"
  eh_expire_secs :: "64 word"
  eh_expire_nanos :: "32 word"
  eh_stale_secs :: "64 word"
  eh_stale_nanos :: "32 word"

definition header_size :: nat where
  "header_size = 48"

definition encode_timestamp :: "time option \<Rightarrow> 64 word \<times> 32 word" where
  "encode_timestamp t =
     (case t of
        Some dt \<Rightarrow> (word_of_int (timestamp dt), word_of_nat (timestamp_subsec_nanos dt))
      | None \<Rightarrow> (0, 0))"

definition decode_timestamp :: "64 word \<Rightarrow> 32 word \<Rightarrow> time option" where
  "decode_timestamp secs nanos =
     (if secs = 0 \<and> nanos = 0 then None else from_timestamp (sint secs) (unat nanos))"

definition header_new_l1 :: "nat \<Rightarrow> time option \<Rightarrow> time option \<Rightarrow> envelope_header" where
  "header_new_l1 l1_len expire stale =
     (case (encode_timestamp expire, encode_timestamp stale) of
        ((es, en), (ss, sn)) \<Rightarrow>
          \<lparr>eh_discriminant = 0, eh_l1_len = word_of_nat l1_len, eh_l2_len = 0,
           eh_expire_secs = es, eh_expire_nanos = en, eh_stale_secs = ss, eh_stale_nanos = sn\<rparr>)"

definition header_new_l2 :: "nat \<Rightarrow> time option \<Rightarrow> time option \<Rightarrow> envelope_header" where
  "header_new_l2 l2_len expire stale =
     (case (encode_timestamp expire, encode_timestamp stale) of
        ((es, en), (ss, sn)) \<Rightarrow>
          \<lparr>eh_discriminant = 1, eh_l1_len = 0, eh_l2_len = word_of_nat l2_len,
           eh_expire_secs = es, eh_expire_nanos = en, eh_stale_secs = ss, eh_stale_nanos = sn\<rparr>)"

definition header_new_both :: "nat \<Rightarrow> nat \<Rightarrow> time option \<Rightarrow> time option \<Rightarrow> envelope_header" where
  "header_new_both l1_len l2_len expire stale =
     (case (encode_timestamp expire, encode_timestamp stale) of
        ((es, en), (ss, sn)) \<Rightarrow>
          \<lparr>eh_discriminant = 2, eh_l1_len = word_of_nat l1_len, eh_l2_len = word_of_nat l2_len,
           eh_expire_secs = es, eh_expire_nanos = en, eh_stale_secs = ss, eh_stale_nanos = sn\<rparr>)"

definition header_as_bytes :: "envelope_header \<Rightarrow> bytes" where
  "header_as_bytes h =
     [eh_discriminant h] @ [0, 0, 0] @ le_bytes 4 (unat (eh_l1_len h)) @ le_bytes 4 (unat (eh_l2_len h)) @ [0, 0, 0, 0]
     @ le_bytes 8 (unat (eh_expire_secs h)) @ le_bytes 4 (unat (eh_expire_nanos h)) @ [0, 0, 0, 0]
     @ le_bytes 8 (unat (eh_stale_secs h)) @ le_bytes 4 (unat (eh_stale_nanos h)) @ [0, 0, 0, 0]"

text \<open>The cast of the first 48 bytes.  It panics, here \<open>None\<close>, when the address of the data is not
  aligned as the header is, which the first argument says.\<close>

definition header_of :: "bytes \<Rightarrow> envelope_header" where
  "header_of d =
     \<lparr>eh_discriminant = d ! 0,
      eh_l1_len = word_of_nat (of_le_bytes (take 4 (drop 4 d))),
      eh_l2_len = word_of_nat (of_le_bytes (take 4 (drop 8 d))),
      eh_expire_secs = word_of_nat (of_le_bytes (take 8 (drop 16 d))),
      eh_expire_nanos = word_of_nat (of_le_bytes (take 4 (drop 24 d))),
      eh_stale_secs = word_of_nat (of_le_bytes (take 8 (drop 32 d))),
      eh_stale_nanos = word_of_nat (of_le_bytes (take 4 (drop 40 d)))\<rparr>"

definition header_from_bytes :: "bool \<Rightarrow> bytes \<Rightarrow> (envelope_header, string) result option" where
  "header_from_bytes aligned data =
     (if length data < header_size then Some (Err ''Envelope header too short'')
      else if aligned then Some (Ok (header_of (take header_size data))) else None)"

definition decode_expire :: "envelope_header \<Rightarrow> time option" where
  "decode_expire h = decode_timestamp (eh_expire_secs h) (eh_expire_nanos h)"

definition decode_stale :: "envelope_header \<Rightarrow> time option" where
  "decode_stale h = decode_timestamp (eh_stale_secs h) (eh_stale_nanos h)"

section \<open>Envelopes\<close>

datatype composition_envelope =
    EnvL1 "bytes cache_value"
  | EnvL2 "bytes cache_value"
  | EnvBoth "bytes cache_value" "bytes cache_value"

fun envelope_serialize :: "composition_envelope \<Rightarrow> (bytes, backend_error) result" where
  "envelope_serialize (EnvL1 v) =
     Ok (header_as_bytes (header_new_l1 (length (cv_data v)) (cv_expire v) (cv_stale v)) @ cv_data v)"
| "envelope_serialize (EnvL2 v) =
     Ok (header_as_bytes (header_new_l2 (length (cv_data v)) (cv_expire v) (cv_stale v)) @ cv_data v)"
| "envelope_serialize (EnvBoth l1 l2) =
     Ok (header_as_bytes (header_new_both (length (cv_data l1)) (length (cv_data l2)) (cv_expire l1) (cv_stale l1))
         @ cv_data l1 @ cv_data l2)"

definition envelope_error :: "string \<Rightarrow> backend_error" where
  "envelope_error m = InternalError (BoxMsg m)"

definition envelope_deserialize :: "bool \<Rightarrow> bytes \<Rightarrow> (composition_envelope, backend_error) result option" where
  "envelope_deserialize aligned data =
     (case header_from_bytes aligned data of
        None \<Rightarrow> None
      | Some (Inl e) \<Rightarrow> Some (Err (envelope_error e))
      | Some (Inr header) \<Rightarrow>
          Some (
            if eh_discriminant header = 0 then
              (let l1_len = unat (eh_l1_len header) in
               if length data < header_size + l1_len then Err (envelope_error ''L1 envelope data too short'')
               else Ok (EnvL1 (cache_value_new (take l1_len (drop header_size data))
                                 (decode_expire header) (decode_stale header))))
            else if eh_discriminant header = 1 then
              (let l2_len = unat (eh_l2_len header) in
               if length data < header_size + l2_len then Err (envelope_error ''L2 envelope data too short'')
               else Ok (EnvL2 (cache_value_new (take l2_len (drop header_size data))
                                 (decode_expire header) (decode_stale header))))
            else if eh_discriminant header = 2 then
              (let l1_len = unat (eh_l1_len header); l2_len = unat (eh_l2_len header);
                   l1_end = header_size + l1_len; l2_end = l1_end + l2_len in
               if length data < l2_end then Err (envelope_error ''Both envelope data too short'')
               else Ok (EnvBoth
                      (cache_value_new (take l1_len (drop header_size data)) (decode_expire header) (decode_stale header))
                      (cache_value_new (take l2_len (drop l1_end data)) (decode_expire header) (decode_stale header))))
            else Err (envelope_error ''Invalid envelope discriminant'')))"

section \<open>Header and time stamps survive\<close>

lemma length_header_as_bytes [simp]: "length (header_as_bytes h) = 48"
  by (simp add: header_as_bytes_def)

lemma word_of_le:
  "word_of_nat (unat (w :: 32 word) mod 256 ^ 4) = w" "word_of_nat (unat (v :: 64 word) mod 256 ^ 8) = v"
proof -
  have "unat w < 256 ^ 4" "unat v < 256 ^ 8" using unsigned_less [of w] unsigned_less [of v] by simp_all
  then show "word_of_nat (unat w mod 256 ^ 4) = w" "word_of_nat (unat v mod 256 ^ 8) = v" by simp_all
qed

lemma header_of_as_bytes [simp, codec_simps]: "header_of (header_as_bytes h) = h"
proof -
  define a b c d e f where "a = le_bytes 4 (unat (eh_l1_len h))" and "b = le_bytes 4 (unat (eh_l2_len h))"
    and "c = le_bytes 8 (unat (eh_expire_secs h))" and "d = le_bytes 4 (unat (eh_expire_nanos h))"
    and "e = le_bytes 8 (unat (eh_stale_secs h))" and "f = le_bytes 4 (unat (eh_stale_nanos h))"
  have l: "length a = 4" "length b = 4" "length c = 8" "length d = 4" "length e = 8" "length f = 4"
    by (simp_all add: a_def b_def c_def d_def e_def f_def)
  let ?d = "[eh_discriminant h] @ [0, 0, 0] @ a @ b @ [0, 0, 0, 0] @ c @ d @ [0, 0, 0, 0] @ e @ f @ [0, 0, 0, 0]"
  have eq: "header_as_bytes h = ?d"
    by (simp add: header_as_bytes_def a_def b_def c_def d_def e_def f_def)
  have t: "?d ! 0 = eh_discriminant h" "take 4 (drop 4 ?d) = a" "take 4 (drop 8 ?d) = b" "take 8 (drop 16 ?d) = c"
    "take 4 (drop 24 ?d) = d" "take 8 (drop 32 ?d) = e" "take 4 (drop 40 ?d) = f"
    using l by (simp_all add: drop_Cons' take_Cons')
  show ?thesis
    unfolding eq header_of_def t
    by (simp add: a_def b_def c_def d_def e_def f_def word_of_le del: power_numeral)
qed

text \<open>What a time stamp comes back as: the epoch itself is taken for no time stamp.\<close>

definition stamp_kept :: "time option \<Rightarrow> time option" where
  "stamp_kept t = (if t = Some 0 then None else t)"

definition stamp_ok :: "time option \<Rightarrow> bool" where
  "stamp_ok t = (case t of Some s \<Rightarrow> chrono_time s | None \<Rightarrow> True)"

lemma decode_encode_timestamp [codec_simps]:
  assumes "stamp_ok t"
  shows "decode_timestamp (fst (encode_timestamp t)) (snd (encode_timestamp t)) = stamp_kept t"
proof (cases t)
  case None
  then show ?thesis by (simp add: encode_timestamp_def decode_timestamp_def stamp_kept_def)
next
  case (Some s)
  then have c: "chrono_time s" using assms by (simp add: stamp_ok_def)
  then have r: "- (2 ^ 63) \<le> timestamp s" "timestamp s < 2 ^ 63" by (simp_all add: chrono_time_def)
  have s: "sint (word_of_int (timestamp s) :: 64 word) = timestamp s"
    using r by (simp add: sint_sbintrunc' signed_take_bit_int_eq_self)
  have n: "unat (word_of_nat (timestamp_subsec_nanos s) :: 32 word) = timestamp_subsec_nanos s"
  proof -
    have "timestamp_subsec_nanos s < 4294967296" using timestamp_subsec_less [of s] by linarith
    then show ?thesis by (simp add: unat_of_nat)
  qed
  have z: "(word_of_int (timestamp s) :: 64 word) = 0 \<longleftrightarrow> timestamp s = 0"
  proof
    assume "(word_of_int (timestamp s) :: 64 word) = 0"
    then have "sint (0 :: 64 word) = timestamp s" using s by (simp only:)
    then show "timestamp s = 0" by (simp only: sint_0)
  qed simp
  have z': "(word_of_nat (timestamp_subsec_nanos s) :: 32 word) = 0 \<longleftrightarrow> timestamp_subsec_nanos s = 0"
  proof
    assume "(word_of_nat (timestamp_subsec_nanos s) :: 32 word) = 0"
    then have "unat (0 :: 32 word) = timestamp_subsec_nanos s" using n by (simp only:)
    then show "timestamp_subsec_nanos s = 0" by (simp only: unsigned_0)
  qed simp
  have "s = 0 \<longleftrightarrow> timestamp s = 0 \<and> timestamp_subsec_nanos s = 0"
    using timestamp_split [of s] by (auto simp: timestamp_def timestamp_subsec_nanos_def)
  then show ?thesis
    using from_timestamp_back [OF c] by (simp add: Some encode_timestamp_def decode_timestamp_def stamp_kept_def s n z z')
qed

text \<open>The envelope as it is read back: of both layers' time stamps only the first layer's are kept.\<close>

definition kept :: "bytes cache_value \<Rightarrow> bytes cache_value \<Rightarrow> bytes cache_value" where
  "kept stamps v = cache_value_new (cv_data v) (stamp_kept (cv_expire stamps)) (stamp_kept (cv_stale stamps))"

fun envelope_kept :: "composition_envelope \<Rightarrow> composition_envelope" where
  "envelope_kept (EnvL1 v) = EnvL1 (kept v v)"
| "envelope_kept (EnvL2 v) = EnvL2 (kept v v)"
| "envelope_kept (EnvBoth l1 l2) = EnvBoth (kept l1 l1) (kept l1 l2)"

fun envelope_fits :: "composition_envelope \<Rightarrow> bool" where
  "envelope_fits (EnvL1 v) \<longleftrightarrow> length (cv_data v) < 2 ^ 32 \<and> stamp_ok (cv_expire v) \<and> stamp_ok (cv_stale v)"
| "envelope_fits (EnvL2 v) \<longleftrightarrow> length (cv_data v) < 2 ^ 32 \<and> stamp_ok (cv_expire v) \<and> stamp_ok (cv_stale v)"
| "envelope_fits (EnvBoth l1 l2) \<longleftrightarrow> length (cv_data l1) < 2 ^ 32 \<and> length (cv_data l2) < 2 ^ 32
     \<and> stamp_ok (cv_expire l1) \<and> stamp_ok (cv_stale l1)"

lemma header_stamps:
  "decode_expire (header_new_l1 n e s) = decode_timestamp (fst (encode_timestamp e)) (snd (encode_timestamp e))"
  "decode_stale (header_new_l1 n e s) = decode_timestamp (fst (encode_timestamp s)) (snd (encode_timestamp s))"
  "decode_expire (header_new_l2 n e s) = decode_timestamp (fst (encode_timestamp e)) (snd (encode_timestamp e))"
  "decode_stale (header_new_l2 n e s) = decode_timestamp (fst (encode_timestamp s)) (snd (encode_timestamp s))"
  "decode_expire (header_new_both n m e s) = decode_timestamp (fst (encode_timestamp e)) (snd (encode_timestamp e))"
  "decode_stale (header_new_both n m e s) = decode_timestamp (fst (encode_timestamp s)) (snd (encode_timestamp s))"
  by (simp_all add: decode_expire_def decode_stale_def header_new_l1_def header_new_l2_def header_new_both_def
      case_prod_unfold)

lemma header_lens [simp]:
  "eh_discriminant (header_new_l1 n e s) = 0" "eh_l1_len (header_new_l1 n e s) = word_of_nat n"
  "eh_discriminant (header_new_l2 n e s) = 1" "eh_l2_len (header_new_l2 n e s) = word_of_nat n"
  "eh_discriminant (header_new_both n m e s) = 2" "eh_l1_len (header_new_both n m e s) = word_of_nat n"
  "eh_l2_len (header_new_both n m e s) = word_of_nat m"
  by (simp_all add: header_new_l1_def header_new_l2_def header_new_both_def case_prod_unfold)

lemma unat_len [simp]: "n < 4294967296 \<Longrightarrow> unat (word_of_nat n :: 32 word) = n"
  by (simp add: unat_of_nat)

lemma envelope_deserialize_serialize:
  assumes "envelope_fits env"
  shows "rmap (envelope_deserialize True) (envelope_serialize env) = Ok (Some (Ok (envelope_kept env)))"
  using assms
  by (cases env)
    (simp_all add: envelope_deserialize_def header_from_bytes_def header_size_def header_stamps
      decode_encode_timestamp kept_def Let_def)

section \<open>Properties\<close>

text \<open>C32. An envelope is read back as it was written, up to two losses: every layer's bytes, of less
  than four gigabytes, come back exactly, and so do the time stamps, but a time stamp of the epoch
  comes back as none, and of an envelope of both layers only the first layer's time stamps are
  kept, for both.  (The bytes are read from an address aligned for the header; from another one the cast panics.)\<close>

theorem envelope_roundtrip:
  assumes "envelope_fits env"
  shows "rmap (envelope_deserialize True) (envelope_serialize env) = Ok (Some (Ok (envelope_kept env)))"
  using envelope_deserialize_serialize [OF assms] .

theorem envelope_roundtrip_witness:
  "rmap (envelope_deserialize True)
     (envelope_serialize (EnvBoth (cache_value_new [1, 2] (Some 5000000001) None) (cache_value_new [3] (Some 7) (Some 8))))
   = Ok (Some (Ok (EnvBoth (cache_value_new [1, 2] (Some 5000000001) None) (cache_value_new [3] (Some 5000000001) None))))"
  using envelope_roundtrip [of "EnvBoth (cache_value_new [1, 2] (Some 5000000001) None) (cache_value_new [3] (Some 7) (Some 8))"]
  by (simp add: stamp_ok_def chrono_time_def timestamp_def kept_def stamp_kept_def)

text \<open>Reading an envelope is safe on any input whatever its bytes say: aligned data is never read
  out of its bounds, so what comes back are bytes of the input, and data that is too short for its
  header, or whose header names an unknown variant, is an error; the only way to fail otherwise is
  data at an address not aligned for the header, on which the cast panics.\<close>

lemma envelope_deserialize_total:
  "(envelope_deserialize aligned data = None \<longleftrightarrow> \<not> aligned \<and> header_size \<le> length data)
   \<and> (length data < header_size \<longrightarrow> (\<exists>e. envelope_deserialize aligned data = Some (Err e)))
   \<and> (\<forall>env. envelope_deserialize aligned data = Some (Ok env) \<longrightarrow>
        (\<exists>rest. drop header_size data = (case env of EnvL1 v \<Rightarrow> cv_data v | EnvL2 v \<Rightarrow> cv_data v
            | EnvBoth l1 l2 \<Rightarrow> cv_data l1 @ cv_data l2) @ rest))"
proof -
  have split3: "drop header_size data = take n (drop header_size data) @ take m (drop (header_size + n) data)
      @ drop (header_size + n + m) data" for n m
    by (metis append_take_drop_id drop_drop add.commute)
  have "\<exists>rest. drop header_size data = (case env of EnvL1 v \<Rightarrow> cv_data v | EnvL2 v \<Rightarrow> cv_data v
            | EnvBoth l1 l2 \<Rightarrow> cv_data l1 @ cv_data l2) @ rest"
    if found: "envelope_deserialize aligned data = Some (Ok env)" for env
  proof -
    obtain h where "header_from_bytes aligned data = Some (Ok h)"
      using found by (auto simp: envelope_deserialize_def split: option.splits sum.splits)
    then show ?thesis
      using found split3 [of "unat (eh_l1_len h)" "unat (eh_l2_len h)"]
      by (auto simp: envelope_deserialize_def Let_def split: if_splits)
        (metis append_take_drop_id append.assoc)+
  qed
  then show ?thesis
    by (auto simp: envelope_deserialize_def header_from_bytes_def split: if_splits)
qed

theorem envelope_deserialize_total_witness:
  "\<exists>e. envelope_deserialize False [0, 0, 7] = Some (Err e)"
  using envelope_deserialize_total [of False "[0, 0, 7]"] by (simp add: header_size_def)

end
