(* ===== verification/Composition_Format.thy ===== *)
theory Composition_Format
  imports Backend Envelope
begin

text \<open>
  The value format of a composition (hitbox-backend/src/composition/format.rs): each layer has its
  own format and compressor; through the raw interface the layers' bytes travel in an envelope.
  The envelope's bytes are read at the start of a fresh allocation, which the allocator aligns for
  the header, so reading it does not panic.
\<close>

record 'a composition_format =
  xf_l1_format :: "'a format"
  xf_l2_format :: "'a format"
  xf_l1_compressor :: compressor
  xf_l2_compressor :: compressor
  xf_labels :: layer_labels

definition composition_format_new ::
  "'a format \<Rightarrow> 'a format \<Rightarrow> compressor \<Rightarrow> compressor \<Rightarrow> string \<Rightarrow> string \<Rightarrow> 'a composition_format" where
  "composition_format_new l1_format l2_format l1_compressor l2_compressor l1_label l2_label =
     \<lparr>xf_l1_format = l1_format, xf_l2_format = l2_format, xf_l1_compressor = l1_compressor,
      xf_l2_compressor = l2_compressor, xf_labels = \<lparr>ll_l1 = l1_label, ll_l2 = l2_label\<rparr>\<rparr>"

definition set_labels :: "string \<Rightarrow> string \<Rightarrow> 'a composition_format \<Rightarrow> 'a composition_format" where
  "set_labels l1_label l2_label F = F\<lparr>xf_labels := \<lparr>ll_l1 = l1_label, ll_l2 = l2_label\<rparr>\<rparr>"

definition same_format :: "'a composition_format \<Rightarrow> bool" where
  "same_format F \<longleftrightarrow> fm_type_id (xf_l1_format F) = fm_type_id (xf_l2_format F)"

definition layer_codec :: "'a composition_format \<Rightarrow> composition_layer \<Rightarrow> 'a format \<times> compressor" where
  "layer_codec F layer =
     (case layer of
        L1 \<Rightarrow> (xf_l1_format F, xf_l1_compressor F)
      | L2 \<Rightarrow> (xf_l2_format F, xf_l2_compressor F))"

definition serialize_error :: "compression_error \<Rightarrow> format_error" where
  "serialize_error e = SerializeErr (BoxCompression e)"

definition serialize_layer ::
  "'a composition_format \<Rightarrow> composition_layer \<Rightarrow> 'a \<Rightarrow> box_context \<Rightarrow> (bytes, format_error) result" where
  "serialize_layer F layer v ctx =
     (case layer_codec F layer of
        (format, compressor) \<Rightarrow>
          rbind (fm_ser format v ctx) (\<lambda>serialized. map_err serialize_error (cp_compress compressor serialized)))"

text \<open>Two layers with the same format serialize the value once.\<close>

definition serialize_parts ::
  "'a composition_format \<Rightarrow> 'a \<Rightarrow> box_context \<Rightarrow> (bytes \<times> bytes, format_error) result" where
  "serialize_parts F v ctx =
     rbind (fm_ser (xf_l1_format F) v ctx) (\<lambda>l1_serialized.
     rbind (map_err serialize_error (cp_compress (xf_l1_compressor F) l1_serialized)) (\<lambda>l1_compressed.
     rbind (if same_format F then Ok l1_serialized else fm_ser (xf_l2_format F) v ctx) (\<lambda>l2_serialized.
     rbind (map_err serialize_error (cp_compress (xf_l2_compressor F) l2_serialized)) (\<lambda>l2_compressed.
     Ok (l1_compressed, l2_compressed)))))"

definition deserialize_layer ::
  "'a composition_format \<Rightarrow> bytes \<Rightarrow> composition_layer \<Rightarrow> box_context
   \<Rightarrow> ('a option, format_error) result \<times> box_context" where
  "deserialize_layer F data layer ctx =
     (case layer_codec F layer of
        (format, compressor) \<Rightarrow>
          (case cp_decompress compressor data of
             Inl e \<Rightarrow> (Err (DeserializeErr (BoxCompression e)), ctx)
           | Inr decompressed \<Rightarrow> fm_de format decompressed ctx))"

definition composition_with_serializer ::
  "'a composition_format \<Rightarrow> 'a \<Rightarrow> box_context \<Rightarrow> (bytes, format_error) result" where
  "composition_with_serializer F v ctx =
     (let pack = (\<lambda>env. map_err (\<lambda>e. SerializeErr (BoxBackend e)) (envelope_serialize env)) in
      if (case ctx of CompositionCtx _ _ _ \<Rightarrow> True | PlainCtx _ \<Rightarrow> False) \<and> ctx_read_mode ctx = Refill then
        rbind (fm_ser (xf_l1_format F) v ctx) (\<lambda>l1_serialized.
        rbind (map_err serialize_error (cp_compress (xf_l1_compressor F) l1_serialized)) (\<lambda>l1_compressed.
        pack (EnvL1 (cache_value_new l1_compressed None None))))
      else
        rbind (fm_ser (xf_l1_format F) v ctx) (\<lambda>l1_serialized.
        rbind (map_err serialize_error (cp_compress (xf_l1_compressor F) l1_serialized)) (\<lambda>l1_compressed.
        rbind (if same_format F then Ok l1_serialized else fm_ser (xf_l2_format F) v ctx) (\<lambda>l2_serialized.
        rbind (map_err serialize_error (cp_compress (xf_l2_compressor F) l2_serialized)) (\<lambda>l2_compressed.
        pack (EnvBoth (cache_value_new l1_compressed None None) (cache_value_new l2_compressed None None)))))))"

text \<open>Reading an envelope at an aligned address.\<close>

definition read_envelope :: "bytes \<Rightarrow> (composition_envelope, backend_error) result" where
  "read_envelope data =
     (case envelope_deserialize True data of Some r \<Rightarrow> r | None \<Rightarrow> Err (envelope_error ''unaligned''))"

definition composition_with_deserializer ::
  "'a composition_format \<Rightarrow> bytes \<Rightarrow> box_context \<Rightarrow> ('a option, format_error) result \<times> box_context" where
  "composition_with_deserializer F data ctx =
     (case read_envelope data of
        Inl e \<Rightarrow> (Err (DeserializeErr (BoxBackend e)), ctx)
      | Inr composition \<Rightarrow>
          (case (case composition of
                   EnvL1 v \<Rightarrow> (cv_data v, xf_l1_format F, xf_l1_compressor F, L1)
                 | EnvL2 v \<Rightarrow> (cv_data v, xf_l2_format F, xf_l2_compressor F, L2)
                 | EnvBoth l1 l2 \<Rightarrow> (cv_data l1, xf_l1_format F, xf_l1_compressor F, L1)) of
             (compressed_data, format, compressor, source) \<Rightarrow>
               (case cp_decompress compressor compressed_data of
                  Inl e \<Rightarrow> (Err (DeserializeErr (BoxCompression e)), ctx)
                | Inr decompressed \<Rightarrow>
                    (case fm_de format decompressed ctx of
                       (Inl e, ctx) \<Rightarrow> (Err e, ctx)
                     | (Inr r, ctx) \<Rightarrow> (Ok r, upgrade_context source (xf_labels F) ctx)))))"

definition composition_as_format :: "'a composition_format \<Rightarrow> 'a format" where
  "composition_as_format F =
     \<lparr>fm_ser = composition_with_serializer F, fm_de = composition_with_deserializer F,
      fm_type_id = FmtCustom ''composition''\<rparr>"

section \<open>Lossless layers make a lossless format\<close>

lemma read_envelope_serialize:
  "envelope_fits env \<Longrightarrow> envelope_serialize env = Ok b \<Longrightarrow> read_envelope b = Ok (envelope_kept env)"
  using envelope_deserialize_serialize [of env] by (simp add: read_envelope_def)

text \<open>Layers of one type have one format, as far as bytes go.\<close>

definition lossless_composition :: "'a composition_format \<Rightarrow> bool" where
  "lossless_composition F \<longleftrightarrow>
     lossless_format (xf_l1_format F) \<and> lossless_format (xf_l2_format F)
     \<and> lossless_compressor (xf_l1_compressor F) \<and> lossless_compressor (xf_l2_compressor F)
     \<and> (same_format F \<longrightarrow> fm_ser (xf_l1_format F) = fm_ser (xf_l2_format F))"

lemma lossless_formatD: "lossless_format F \<Longrightarrow> fm_ser F v ctx = Ok b \<Longrightarrow> fst (fm_de F b ctx') = Ok (Some v)"
  unfolding lossless_format_def by blast

lemma lossless_compressorD: "lossless_compressor C \<Longrightarrow> cp_compress C b = Ok z \<Longrightarrow> cp_decompress C z = Ok b"
  unfolding lossless_compressor_def by blast

lemma deserialize_serialize_layer [codec_simps]:
  assumes "lossless_composition F" "serialize_layer F layer v ctx = Ok z"
  shows "fst (deserialize_layer F z layer ctx') = Ok (Some v)"
proof -
  obtain fmt C where c: "layer_codec F layer = (fmt, C)" by fastforce
  have l: "lossless_format fmt" "lossless_compressor C"
    using assms(1) c by (cases layer; simp add: lossless_composition_def layer_codec_def)+
  obtain b where "fm_ser fmt v ctx = Ok b" "cp_compress C b = Ok z"
    using assms(2) by (auto simp: serialize_layer_def c)
  then show ?thesis using lossless_formatD [OF l(1)] lossless_compressorD [OF l(2)]
    by (simp add: deserialize_layer_def c)
qed

lemma serialize_parts_layers:
  assumes "lossless_composition F"
  shows "serialize_parts F v ctx = Ok (z1, z2) \<longleftrightarrow>
    serialize_layer F L1 v ctx = Ok z1 \<and> serialize_layer F L2 v ctx = Ok z2"
  using assms by (auto simp: serialize_parts_def serialize_layer_def layer_codec_def lossless_composition_def)

end
