(* ===== verification/Composition_Policy.thy ===== *)
theory Composition_Policy
  imports Core_Context Core_Value Backend_Error
begin

text \<open>
  The policies of a composition (hitbox-backend/src/composition/policy): how the reads and writes of
  its two layers are run and their outcomes combined.  A layer's operation is a function of the
  stores.  Where the code runs two operations at once, the schedule says which one finishes first;
  an operation that lost a race is handed to the offload as a task, or dropped, in which case the
  schedule says whether it had taken effect.
\<close>

section \<open>Policies\<close>

datatype loser_policy = OffloadLoser | DropLoser

datatype read_policy = SequentialRead | ParallelRead | RaceRead loser_policy

datatype write_policy = SequentialWrite | OptimisticParallelWrite | RaceWrite loser_policy

datatype refill_policy = RefillAlways | RefillNever

definition race_read_new :: read_policy where
  "race_read_new = RaceRead OffloadLoser"

definition race_read_loser_policy :: "loser_policy \<Rightarrow> read_policy \<Rightarrow> read_policy" where
  "race_read_loser_policy l p = RaceRead l"

definition race_write_new :: write_policy where
  "race_write_new = RaceWrite OffloadLoser"

definition race_write_loser_policy :: "loser_policy \<Rightarrow> write_policy \<Rightarrow> write_policy" where
  "race_write_loser_policy l p = RaceWrite l"

definition refill_policy_default :: refill_policy where
  "refill_policy_default = RefillNever"

record composition_policy =
  xp_read :: read_policy
  xp_write :: write_policy
  xp_refill :: refill_policy

definition composition_policy_new :: composition_policy where
  "composition_policy_new =
     \<lparr>xp_read = SequentialRead, xp_write = OptimisticParallelWrite, xp_refill = refill_policy_default\<rparr>"

definition policy_read :: "read_policy \<Rightarrow> composition_policy \<Rightarrow> composition_policy" where
  "policy_read r p = \<lparr>xp_read = r, xp_write = xp_write p, xp_refill = xp_refill p\<rparr>"

definition policy_write :: "write_policy \<Rightarrow> composition_policy \<Rightarrow> composition_policy" where
  "policy_write w p = \<lparr>xp_read = xp_read p, xp_write = w, xp_refill = xp_refill p\<rparr>"

definition policy_refill :: "refill_policy \<Rightarrow> composition_policy \<Rightarrow> composition_policy" where
  "policy_refill r p = \<lparr>xp_read = xp_read p, xp_write = xp_write p, xp_refill = r\<rparr>"

section \<open>Layers and schedules\<close>

type_synonym 'v read_outcome = "('v cache_value option, backend_error) result \<times> box_context"
type_synonym ('v, 's) layer_read = "'s \<Rightarrow> 'v read_outcome \<times> 's"
type_synonym 's layer_write = "'s \<Rightarrow> (unit, backend_error) result \<times> 's"
type_synonym 's task = "string \<times> ('s \<Rightarrow> 's)"

record schedule =
  sc_first :: composition_layer
  sc_loser_ran :: bool
  sc_clock1 :: time
  sc_clock2 :: time

text \<open>\<open>futures::join!\<close>: both run, one after the other as far as the stores can tell.\<close>

definition join_both ::
  "composition_layer \<Rightarrow> ('s \<Rightarrow> 'a \<times> 's) \<Rightarrow> ('s \<Rightarrow> 'b \<times> 's) \<Rightarrow> 's \<Rightarrow> ('a \<times> 'b) \<times> 's" where
  "join_both first op1 op2 s =
     (case first of
        L1 \<Rightarrow> (case op1 s of (a, s) \<Rightarrow> case op2 s of (b, s) \<Rightarrow> ((a, b), s))
      | L2 \<Rightarrow> (case op2 s of (b, s) \<Rightarrow> case op1 s of (a, s) \<Rightarrow> ((a, b), s)))"

record 'v read_result =
  rv_value :: "'v cache_value option"
  rv_source :: composition_layer
  rv_context :: box_context

section \<open>Reading\<close>

text \<open>Every policy gives the outcome, the tasks spawned, and the stores.\<close>

definition sequential_read ::
  "('v, 's) layer_read \<Rightarrow> ('v, 's) layer_read \<Rightarrow> 's
   \<Rightarrow> ('v read_result, backend_error) result \<times> 's task list \<times> 's" where
  "sequential_read read_l1 read_l2 s =
     (let l2 = (\<lambda>s. case read_l2 s of ((l2_result, l2_ctx), s) \<Rightarrow>
          (case l2_result of
             Inr value \<Rightarrow> (Ok \<lparr>rv_value = value, rv_source = L2, rv_context = l2_ctx\<rparr>, [], s)
           | Inl e \<Rightarrow> (Err e, [], s)))
      in case read_l1 s of ((l1_result, l1_ctx), s) \<Rightarrow>
           (case l1_result of
              Inr (Some value) \<Rightarrow> (Ok \<lparr>rv_value = Some value, rv_source = L1, rv_context = l1_ctx\<rparr>, [], s)
            | Inr None \<Rightarrow> l2 s
            | Inl e \<Rightarrow> l2 s))"

text \<open>The arms the parallel and the race policy share, when both outcomes are known.\<close>

definition settle :: "'v read_outcome \<Rightarrow> 'v read_outcome \<Rightarrow> ('v read_result, backend_error) result" where
  "settle l1 l2 =
     (let no_hit = \<lparr>rv_value = None, rv_source = L2, rv_context = boxed cache_context_default\<rparr> in
      case (fst l1, fst l2) of
        (Inr (Some value), _) \<Rightarrow> Ok \<lparr>rv_value = Some value, rv_source = L1, rv_context = snd l1\<rparr>
      | (_, Inr (Some value)) \<Rightarrow> Ok \<lparr>rv_value = Some value, rv_source = L2, rv_context = snd l2\<rparr>
      | (Inr None, Inr None) \<Rightarrow> Ok no_hit
      | (Inl e1, Inl e2) \<Rightarrow> Err e2
      | (Inr None, Inl e) \<Rightarrow> Ok no_hit
      | (Inl e, Inr None) \<Rightarrow> Ok no_hit)"

text \<open>When both layers hit, the parallel policy compares what is left to live: the fresher value
  wins, and a value that \<open>ttl\<close> gives no remaining time counts as one that never expires.\<close>

definition prefer_l2 :: "time \<Rightarrow> time \<Rightarrow> 'v cache_value \<Rightarrow> 'v cache_value \<Rightarrow> bool" where
  "prefer_l2 now1 now2 l1_value l2_value =
     (case (ttl_secs now1 l1_value, ttl_secs now2 l2_value) of
        (Some l1_ttl, Some l2_ttl) \<Rightarrow> l2_ttl > l1_ttl
      | (Some _, None) \<Rightarrow> True
      | _ \<Rightarrow> False)"

definition parallel_settle ::
  "time \<Rightarrow> time \<Rightarrow> 'v read_outcome \<Rightarrow> 'v read_outcome \<Rightarrow> ('v read_result, backend_error) result" where
  "parallel_settle now1 now2 l1 l2 =
     (case (fst l1, fst l2) of
        (Inr (Some l1_value), Inr (Some l2_value)) \<Rightarrow>
          (if prefer_l2 now1 now2 l1_value l2_value
           then Ok \<lparr>rv_value = Some l2_value, rv_source = L2, rv_context = snd l2\<rparr>
           else Ok \<lparr>rv_value = Some l1_value, rv_source = L1, rv_context = snd l1\<rparr>)
      | _ \<Rightarrow> settle l1 l2)"

definition parallel_read ::
  "schedule \<Rightarrow> ('v, 's) layer_read \<Rightarrow> ('v, 's) layer_read \<Rightarrow> 's
   \<Rightarrow> ('v read_result, backend_error) result \<times> 's task list \<times> 's" where
  "parallel_read sch read_l1 read_l2 s =
     (case join_both (sc_first sch) read_l1 read_l2 s of
        ((l1, l2), s) \<Rightarrow> (parallel_settle (sc_clock1 sch) (sc_clock2 sch) l1 l2, [], s))"

definition loser_end :: "loser_policy \<Rightarrow> schedule \<Rightarrow> string \<Rightarrow> ('s \<Rightarrow> 's) \<Rightarrow> 's \<Rightarrow> 's task list \<times> 's" where
  "loser_end loser sch kind rest s =
     (case loser of
        OffloadLoser \<Rightarrow> ([(kind, rest)], s)
      | DropLoser \<Rightarrow> ([], if sc_loser_ran sch then rest s else s))"

definition race_read ::
  "loser_policy \<Rightarrow> schedule \<Rightarrow> ('v, 's) layer_read \<Rightarrow> ('v, 's) layer_read \<Rightarrow> 's
   \<Rightarrow> ('v read_result, backend_error) result \<times> 's task list \<times> 's" where
  "race_read loser sch read_l1 read_l2 s =
     (case sc_first sch of
        L1 \<Rightarrow>
          (case read_l1 s of ((l1_result, l1_ctx), s) \<Rightarrow>
             (case l1_result of
                Inr (Some value) \<Rightarrow>
                  (Ok \<lparr>rv_value = Some value, rv_source = L1, rv_context = l1_ctx\<rparr>,
                   loser_end loser sch ''race_read_l2_loser'' (\<lambda>s. snd (read_l2 s)) s)
              | _ \<Rightarrow> (case read_l2 s of (l2, s) \<Rightarrow> (settle (l1_result, l1_ctx) l2, [], s))))
      | L2 \<Rightarrow>
          (case read_l2 s of ((l2_result, l2_ctx), s) \<Rightarrow>
             (case l2_result of
                Inr (Some value) \<Rightarrow>
                  (Ok \<lparr>rv_value = Some value, rv_source = L2, rv_context = l2_ctx\<rparr>,
                   loser_end loser sch ''race_read_l1_loser'' (\<lambda>s. snd (read_l1 s)) s)
              | _ \<Rightarrow> (case read_l1 s of (l1, s) \<Rightarrow> (settle l1 (l2_result, l2_ctx), [], s)))))"

definition read_execute ::
  "read_policy \<Rightarrow> schedule \<Rightarrow> ('v, 's) layer_read \<Rightarrow> ('v, 's) layer_read \<Rightarrow> 's
   \<Rightarrow> ('v read_result, backend_error) result \<times> 's task list \<times> 's" where
  "read_execute p sch read_l1 read_l2 =
     (case p of
        SequentialRead \<Rightarrow> sequential_read read_l1 read_l2
      | ParallelRead \<Rightarrow> parallel_read sch read_l1 read_l2
      | RaceRead loser \<Rightarrow> race_read loser sch read_l1 read_l2)"

section \<open>Writing\<close>

definition both_failed :: "backend_error \<Rightarrow> backend_error \<Rightarrow> backend_error" where
  "both_failed e1 e2 = InternalError (BoxComposition (BothLayersFailed e1 e2))"

definition sequential_write ::
  "'s layer_write \<Rightarrow> 's layer_write \<Rightarrow> 's \<Rightarrow> (unit, backend_error) result \<times> 's task list \<times> 's" where
  "sequential_write write_l1 write_l2 s =
     (case write_l1 s of
        (Inl e, s) \<Rightarrow> (Err e, [], s)
      | (Inr _, s) \<Rightarrow> (case write_l2 s of (r, s) \<Rightarrow> (r, [], s)))"

definition optimistic_parallel_write ::
  "schedule \<Rightarrow> 's layer_write \<Rightarrow> 's layer_write \<Rightarrow> 's \<Rightarrow> (unit, backend_error) result \<times> 's task list \<times> 's" where
  "optimistic_parallel_write sch write_l1 write_l2 s =
     (case join_both (sc_first sch) write_l1 write_l2 s of
        ((l1_result, l2_result), s) \<Rightarrow>
          ((case (l1_result, l2_result) of
              (Inr _, Inr _) \<Rightarrow> Ok ()
            | (Inr _, Inl e) \<Rightarrow> Ok ()
            | (Inl e, Inr _) \<Rightarrow> Ok ()
            | (Inl e1, Inl e2) \<Rightarrow> Err (both_failed e1 e2)), [], s))"

definition race_write ::
  "loser_policy \<Rightarrow> schedule \<Rightarrow> 's layer_write \<Rightarrow> 's layer_write \<Rightarrow> 's
   \<Rightarrow> (unit, backend_error) result \<times> 's task list \<times> 's" where
  "race_write loser sch write_l1 write_l2 s =
     (case sc_first sch of
        L1 \<Rightarrow>
          (case write_l1 s of
             (Inr _, s) \<Rightarrow> (Ok (), loser_end loser sch ''race_write_l2_loser'' (\<lambda>s. snd (write_l2 s)) s)
           | (Inl e1, s) \<Rightarrow>
               (case write_l2 s of
                  (Inr _, s) \<Rightarrow> (Ok (), [], s)
                | (Inl e2, s) \<Rightarrow> (Err (both_failed e1 e2), [], s)))
      | L2 \<Rightarrow>
          (case write_l2 s of
             (Inr _, s) \<Rightarrow> (Ok (), loser_end loser sch ''race_write_l1_loser'' (\<lambda>s. snd (write_l1 s)) s)
           | (Inl e2, s) \<Rightarrow>
               (case write_l1 s of
                  (Inr _, s) \<Rightarrow> (Ok (), [], s)
                | (Inl e1, s) \<Rightarrow> (Err (both_failed e1 e2), [], s))))"

definition write_execute ::
  "write_policy \<Rightarrow> schedule \<Rightarrow> 's layer_write \<Rightarrow> 's layer_write \<Rightarrow> 's
   \<Rightarrow> (unit, backend_error) result \<times> 's task list \<times> 's" where
  "write_execute p sch write_l1 write_l2 =
     (case p of
        SequentialWrite \<Rightarrow> sequential_write write_l1 write_l2
      | OptimisticParallelWrite \<Rightarrow> optimistic_parallel_write sch write_l1 write_l2
      | RaceWrite loser \<Rightarrow> race_write loser sch write_l1 write_l2)"

end
