(* ===== verification/Composition.thy ===== *)
theory Composition
  imports Composition_Format Composition_Policy
begin

text \<open>
  A cache of two layers (hitbox-backend/src/composition/mod.rs, compose.rs): the composition backend
  with its builders, its typed operations, and its raw operations, which a trait object uses.  Its
  state is the two layers' stores and the tasks handed to the offload; a schedule, chosen from the
  state, resolves what runs first.  A layer is a typed cache, so a layer can be a composition.
\<close>

section \<open>State\<close>

record ('s1, 's2) layers =
  ly_l1 :: 's1
  ly_l2 :: 's2

record ('s1, 's2) comp_state =
  co_layers :: "('s1, 's2) layers"
  co_tasks :: "('s1, 's2) layers task list"

definition on_l1 :: "('s1 \<Rightarrow> 'r \<times> 's1) \<Rightarrow> ('s1, 's2) layers \<Rightarrow> 'r \<times> ('s1, 's2) layers" where
  "on_l1 f st = (case f (ly_l1 st) of (r, s) \<Rightarrow> (r, st\<lparr>ly_l1 := s\<rparr>))"

definition on_l2 :: "('s2 \<Rightarrow> 'r \<times> 's2) \<Rightarrow> ('s1, 's2) layers \<Rightarrow> 'r \<times> ('s1, 's2) layers" where
  "on_l2 f st = (case f (ly_l2 st) of (r, s) \<Rightarrow> (r, st\<lparr>ly_l2 := s\<rparr>))"

text \<open>A policy's outcome: its tasks go to the offload.\<close>

definition with_tasks ::
  "(('s1, 's2) layers \<Rightarrow> 'r \<times> ('s1, 's2) layers task list \<times> ('s1, 's2) layers)
   \<Rightarrow> ('s1, 's2) comp_state \<Rightarrow> 'r \<times> ('s1, 's2) comp_state" where
  "with_tasks f st =
     (case f (co_layers st) of (r, ts, ly) \<Rightarrow> (r, \<lparr>co_layers = ly, co_tasks = co_tasks st @ ts\<rparr>))"

definition direct ::
  "(('s1, 's2) layers \<Rightarrow> 'r \<times> ('s1, 's2) layers) \<Rightarrow> ('s1, 's2) comp_state \<Rightarrow> 'r \<times> ('s1, 's2) comp_state" where
  "direct f st = (case f (co_layers st) of (r, ly) \<Rightarrow> (r, st\<lparr>co_layers := ly\<rparr>))"

text \<open>The offload runs one of its tasks.\<close>

definition run_task :: "nat \<Rightarrow> ('s1, 's2) comp_state \<Rightarrow> ('s1, 's2) comp_state" where
  "run_task n st =
     (if n < length (co_tasks st)
      then \<lparr>co_layers = snd (co_tasks st ! n) (co_layers st),
            co_tasks = take n (co_tasks st) @ drop (Suc n) (co_tasks st)\<rparr>
      else st)"

section \<open>The backend and its builders\<close>

record ('s1, 's2, 'a) composition =
  xb_l1 :: "('s1, 'a) cache_backend"
  xb_l2 :: "('s2, 'a) cache_backend"
  xb_format :: "'a composition_format"
  xb_read_policy :: read_policy
  xb_write_policy :: write_policy
  xb_refill_policy :: refill_policy
  xb_label :: backend_label
  xb_l1_label :: string
  xb_l2_label :: string

definition compose_label :: "string \<Rightarrow> string \<Rightarrow> string" where
  "compose_label prefix suffix = prefix @ ''.'' @ suffix"

definition composition_new :: "('s1, 'a) cache_backend \<Rightarrow> ('s2, 'a) cache_backend \<Rightarrow> ('s1, 's2, 'a) composition" where
  "composition_new l1 l2 =
     (let label = BackendLabel ''composition'';
          l1_label = compose_label (label_str label) (label_str (be_label l1));
          l2_label = compose_label (label_str label) (label_str (be_label l2))
      in \<lparr>xb_l1 = l1, xb_l2 = l2,
          xb_format = composition_format_new (be_format l1) (be_format l2) (be_compressor l1) (be_compressor l2)
            l1_label l2_label,
          xb_read_policy = SequentialRead, xb_write_policy = OptimisticParallelWrite,
          xb_refill_policy = refill_policy_default, xb_label = label, xb_l1_label = l1_label, xb_l2_label = l2_label\<rparr>)"

definition composition_label :: "backend_label \<Rightarrow> ('s1, 's2, 'a) composition \<Rightarrow> ('s1, 's2, 'a) composition" where
  "composition_label label C =
     (let l1_label = compose_label (label_str label) (label_str (be_label (xb_l1 C)));
          l2_label = compose_label (label_str label) (label_str (be_label (xb_l2 C)))
      in C\<lparr>xb_label := label, xb_l1_label := l1_label, xb_l2_label := l2_label,
           xb_format := set_labels l1_label l2_label (xb_format C)\<rparr>)"

definition composition_with_policy ::
  "composition_policy \<Rightarrow> ('s1, 's2, 'a) composition \<Rightarrow> ('s1, 's2, 'a) composition" where
  "composition_with_policy p C =
     C\<lparr>xb_read_policy := xp_read p, xb_write_policy := xp_write p, xb_refill_policy := xp_refill p\<rparr>"

definition composition_read_policy :: "read_policy \<Rightarrow> ('s1, 's2, 'a) composition \<Rightarrow> ('s1, 's2, 'a) composition" where
  "composition_read_policy r C = C\<lparr>xb_read_policy := r\<rparr>"

definition composition_write_policy :: "write_policy \<Rightarrow> ('s1, 's2, 'a) composition \<Rightarrow> ('s1, 's2, 'a) composition" where
  "composition_write_policy w C = C\<lparr>xb_write_policy := w\<rparr>"

definition composition_refill :: "refill_policy \<Rightarrow> ('s1, 's2, 'a) composition \<Rightarrow> ('s1, 's2, 'a) composition" where
  "composition_refill r C = C\<lparr>xb_refill_policy := r\<rparr>"

definition compose :: "('s1, 'a) cache_backend \<Rightarrow> ('s2, 'a) cache_backend \<Rightarrow> ('s1, 's2, 'a) composition" where
  "compose l1 l2 = composition_new l1 l2"

definition compose_with ::
  "('s1, 'a) cache_backend \<Rightarrow> ('s2, 'a) cache_backend \<Rightarrow> composition_policy \<Rightarrow> ('s1, 's2, 'a) composition" where
  "compose_with l1 l2 p = composition_with_policy p (composition_new l1 l2)"

section \<open>Typed operations\<close>

text \<open>One layer's read: the raw read, the layer's codec, and the context of a hit, whose source is
  the label of the layer inside when the layer is itself a composition.\<close>

definition source_label :: "box_context \<Rightarrow> backend_label \<Rightarrow> backend_label" where
  "source_label ctx name =
     (case ctx of
        CompositionCtx _ layer labels \<Rightarrow> BackendLabel (label_for_layer labels layer)
      | PlainCtx _ \<Rightarrow> name)"

definition read_layer ::
  "'a composition_format \<Rightarrow> composition_layer \<Rightarrow> ('s, 'a) cache_backend \<Rightarrow> cache_key \<Rightarrow> box_context
   \<Rightarrow> ('a, 's) layer_read" where
  "read_layer F layer B key ctx s =
     (case be_read B key s of
        (Inl e, s) \<Rightarrow> ((Err e, ctx), s)
      | (Inr None, s) \<Rightarrow> ((Ok None, ctx), s)
      | (Inr (Some raw_value), s) \<Rightarrow>
          (case into_parts raw_value of
             (meta, raw_data) \<Rightarrow>
               (case deserialize_layer F raw_data layer ctx of
                  (Inr (Some deserialized), ctx) \<Rightarrow>
                    ((Ok (Some (cache_value_new deserialized (cm_expire meta) (cm_stale meta))),
                      ctx_set_source (SrcBackend (source_label ctx (be_label B))) (ctx_set_status Hit ctx)), s)
                | (Inr None, ctx) \<Rightarrow>
                    ((Err (InternalError (BoxMsg ''deserialization produced no result'')), ctx), s)
                | (Inl e, ctx) \<Rightarrow> ((Err (InternalError (BoxFormat e)), ctx), s))))"

definition composition_get ::
  "(('s1, 's2) comp_state \<Rightarrow> schedule) \<Rightarrow> ('s1, 's2, 'a) composition \<Rightarrow> cache_key \<Rightarrow> box_context \<Rightarrow> ('s1, 's2) comp_state
   \<Rightarrow> (('a cache_value option, backend_error) result \<times> box_context) \<times> ('s1, 's2) comp_state" where
  "composition_get sched C key ctx st =
     (let read_l1 = on_l1 (read_layer (xb_format C) L1 (xb_l1 C) key ctx);
          read_l2 = on_l2 (read_layer (xb_format C) L2 (xb_l2 C) key ctx)
      in case with_tasks (read_execute (xb_read_policy C) (sched st) read_l1 read_l2) st of
           (Inl e, st) \<Rightarrow> ((Err e, ctx), st)
         | (Inr r, st) \<Rightarrow>
             ((Ok (rv_value r),
               if rv_value r = None then ctx
               else (let ctx = merge_from (rv_context r) (xb_label C) ctx in
                     if rv_source r = L2 \<and> xb_refill_policy C = RefillAlways
                     then ctx_set_read_mode Refill ctx else ctx)), st))"

text \<open>The refill of the first layer, from which the set goes on to the second in the context given.\<close>

definition refill_l1 ::
  "('s1, 's2, 'a) composition \<Rightarrow> cache_key \<Rightarrow> 'a cache_value \<Rightarrow> box_context \<Rightarrow> ('s1, 's2) layers
   \<Rightarrow> (unit, backend_error) result \<times> ('s1, 's2) layers" where
  "refill_l1 C key v ctx ly =
     (case serialize_layer (xb_format C) L1 (cv_data v) ctx of
        Inl e \<Rightarrow> (Err (InternalError (BoxFormat e)), ly)
      | Inr l1_bytes \<Rightarrow> on_l1 (be_write (xb_l1 C) key (cache_value_new l1_bytes (cv_expire v) (cv_stale v))) ly)"

definition set_l2 ::
  "('s1, 's2, 'a) composition \<Rightarrow> cache_key \<Rightarrow> 'a cache_value \<Rightarrow> box_context \<Rightarrow> ('s1, 's2) layers
   \<Rightarrow> ((unit, backend_error) result \<times> box_context) \<times> ('s1, 's2) layers" where
  "set_l2 C key v ctx = on_l2 (kb_set (xb_l2 C) key v ctx)"

definition composition_set ::
  "(('s1, 's2) comp_state \<Rightarrow> schedule) \<Rightarrow> ('s1, 's2, 'a) composition \<Rightarrow> cache_key \<Rightarrow> 'a cache_value \<Rightarrow> box_context
   \<Rightarrow> ('s1, 's2) comp_state \<Rightarrow> ((unit, backend_error) result \<times> box_context) \<times> ('s1, 's2) comp_state" where
  "composition_set sched C key v ctx st =
     (if ctx_read_mode ctx = Refill then
        (case xb_refill_policy C of
           RefillAlways \<Rightarrow>
             (case direct (refill_l1 C key v ctx) st of
                (Inl e, st) \<Rightarrow> ((Err e, ctx), st)
              | (Inr _, st) \<Rightarrow> direct (set_l2 C key v ctx) st)
         | RefillNever \<Rightarrow> ((Ok (), ctx), st))
      else
        (case ctx of
           CompositionCtx inner L2 _ \<Rightarrow>
             (case xb_refill_policy C of
                RefillAlways \<Rightarrow>
                  (case direct (refill_l1 C key v ctx) st of
                     (Inl e, st) \<Rightarrow> ((Err e, ctx), st)
                   | (Inr _, st) \<Rightarrow> (case direct (set_l2 C key v inner) st of ((r, _), st) \<Rightarrow> ((r, ctx), st)))
              | RefillNever \<Rightarrow> (case direct (set_l2 C key v inner) st of ((r, _), st) \<Rightarrow> ((r, ctx), st)))
         | _ \<Rightarrow>
             (case serialize_parts (xb_format C) (cv_data v) ctx of
                Inl e \<Rightarrow> ((Err (InternalError (BoxFormat e)), ctx), st)
              | Inr (l1_bytes, l2_bytes) \<Rightarrow>
                  (let write_l1 = on_l1 (be_write (xb_l1 C) key (cache_value_new l1_bytes (cv_expire v) (cv_stale v)));
                       write_l2 = on_l2 (be_write (xb_l2 C) key (cache_value_new l2_bytes (cv_expire v) (cv_stale v)))
                   in case with_tasks (write_execute (xb_write_policy C) (sched st) write_l1 write_l2) st of
                        (r, st) \<Rightarrow> ((r, ctx), st)))))"

text \<open>The counts of a deletion are added as 32-bit integers.\<close>

definition settle_delete ::
  "(delete_status, backend_error) result \<Rightarrow> (delete_status, backend_error) result
   \<Rightarrow> (delete_status, backend_error) result" where
  "settle_delete l1_result l2_result =
     (case (l1_result, l2_result) of
        (Inl e1, Inl e2) \<Rightarrow> Err (both_failed e1 e2)
      | (Inl e, Inr status) \<Rightarrow> Ok status
      | (Inr status, Inl e) \<Rightarrow> Ok status
      | (Inr (Deleted n1), Inr (Deleted n2)) \<Rightarrow> Ok (Deleted (n1 + n2))
      | (Inr (Deleted n), Inr Missing) \<Rightarrow> Ok (Deleted n)
      | (Inr Missing, Inr (Deleted n)) \<Rightarrow> Ok (Deleted n)
      | (Inr Missing, Inr Missing) \<Rightarrow> Ok Missing)"

definition composition_delete ::
  "(('s1, 's2) comp_state \<Rightarrow> schedule) \<Rightarrow> ('s1, 's2, 'a) composition \<Rightarrow> cache_key \<Rightarrow> box_context \<Rightarrow> ('s1, 's2) comp_state
   \<Rightarrow> ((delete_status, backend_error) result \<times> box_context) \<times> ('s1, 's2) comp_state" where
  "composition_delete sched C key ctx st =
     (case direct (join_both (sc_first (sched st)) (on_l1 (kb_delete (xb_l1 C) key ctx)) (on_l2 (kb_delete (xb_l2 C) key ctx))) st of
        (((l1_result, _), (l2_result, _)), st) \<Rightarrow> ((settle_delete l1_result l2_result, ctx), st))"

section \<open>Raw operations\<close>

definition read_with_envelope ::
  "(bytes cache_value \<Rightarrow> composition_envelope) \<Rightarrow> ('s, 'a) cache_backend \<Rightarrow> cache_key \<Rightarrow> (bytes, 's) layer_read" where
  "read_with_envelope wrap B key s =
     (case be_read B key s of
        (Inr (Some v), s) \<Rightarrow>
          ((case envelope_serialize (wrap v) of
              Inr packed \<Rightarrow> Ok (Some (cache_value_new packed (cv_expire v) (cv_stale v)))
            | Inl e \<Rightarrow> Err e, boxed cache_context_default), s)
      | (Inr None, s) \<Rightarrow> ((Ok None, boxed cache_context_default), s)
      | (Inl e, s) \<Rightarrow> ((Err e, boxed cache_context_default), s))"

definition composition_raw_read ::
  "(('s1, 's2) comp_state \<Rightarrow> schedule) \<Rightarrow> ('s1, 's2, 'a) composition \<Rightarrow> cache_key \<Rightarrow> ('s1, 's2) comp_state
   \<Rightarrow> (bytes cache_value option, backend_error) result \<times> ('s1, 's2) comp_state" where
  "composition_raw_read sched C key st =
     (case with_tasks (read_execute (xb_read_policy C) (sched st)
              (on_l1 (read_with_envelope EnvL1 (xb_l1 C) key)) (on_l2 (read_with_envelope EnvL2 (xb_l2 C) key))) st of
        (Inl e, st) \<Rightarrow> (Err e, st)
      | (Inr r, st) \<Rightarrow> (Ok (rv_value r), st))"

text \<open>The times of the value written are those inside the envelope, not the value's own.\<close>

definition composition_raw_write ::
  "(('s1, 's2) comp_state \<Rightarrow> schedule) \<Rightarrow> ('s1, 's2, 'a) composition \<Rightarrow> cache_key \<Rightarrow> bytes cache_value \<Rightarrow> ('s1, 's2) comp_state
   \<Rightarrow> (unit, backend_error) result \<times> ('s1, 's2) comp_state" where
  "composition_raw_write sched C key v st =
     (case read_envelope (cv_data v) of
        Inl e \<Rightarrow> (Err e, st)
      | Inr (EnvBoth l1 l2) \<Rightarrow>
          with_tasks (write_execute (xb_write_policy C) (sched st)
            (on_l1 (be_write (xb_l1 C) key l1)) (on_l2 (be_write (xb_l2 C) key l2))) st
      | Inr (EnvL1 l1) \<Rightarrow> direct (on_l1 (be_write (xb_l1 C) key l1)) st
      | Inr (EnvL2 l2) \<Rightarrow> direct (on_l2 (be_write (xb_l2 C) key l2)) st)"

definition composition_raw_remove ::
  "(('s1, 's2) comp_state \<Rightarrow> schedule) \<Rightarrow> ('s1, 's2, 'a) composition \<Rightarrow> cache_key \<Rightarrow> ('s1, 's2) comp_state
   \<Rightarrow> (delete_status, backend_error) result \<times> ('s1, 's2) comp_state" where
  "composition_raw_remove sched C key st =
     (case direct (join_both (sc_first (sched st)) (on_l1 (be_remove (xb_l1 C) key)) (on_l2 (be_remove (xb_l2 C) key))) st of
        ((l1_result, l2_result), st) \<Rightarrow> (settle_delete l1_result l2_result, st))"

text \<open>The composition as a typed cache, with its own operations.\<close>

definition composition_backend ::
  "(('s1, 's2) comp_state \<Rightarrow> schedule) \<Rightarrow> ('s1, 's2, 'a) composition \<Rightarrow> (('s1, 's2) comp_state, 'a) cache_backend" where
  "composition_backend sched C =
     \<lparr>be_read = composition_raw_read sched C, be_write = composition_raw_write sched C,
      be_remove = composition_raw_remove sched C, be_label = xb_label C,
      be_format = composition_as_format (xb_format C), be_compressor = passthrough_compressor,
      kb_get = composition_get sched C, kb_set = composition_set sched C, kb_delete = composition_delete sched C\<rparr>"

end
