(* ===== verification/Composition_Spec.thy ===== *)
theory Composition_Spec
  imports Composition
begin

text \<open>
  What a composition guarantees: how each policy combines the outcomes of the layers, what a read
  may return after any history of operations, how a hit in the second layer refills the first, and
  what is lost when a composition is used through its raw operations.
\<close>

section \<open>Reading through a policy\<close>

text \<open>Some layer has the value; the outcome of a layer; which layer is to be served when both have it.  The parallel policy
  is specified by the expiry times: it serves the second layer exactly when the value of the first has at least a
  second left and that of the second has no expiry, has less than a second left (it may have expired long ago), or has
  more whole seconds left.\<close>

definition layer_hit :: "'v read_outcome \<Rightarrow> bool" where
  "layer_hit out \<longleftrightarrow> (\<exists>v. fst out = Ok (Some v))"

definition layer_failed :: "'v read_outcome \<Rightarrow> bool" where
  "layer_failed out \<longleftrightarrow> \<not> is_ok (fst out)"

definition served_layer :: "read_policy \<Rightarrow> schedule \<Rightarrow> 'v cache_value \<Rightarrow> 'v cache_value \<Rightarrow> composition_layer" where
  "served_layer p sch v1 v2 =
     (case p of
        SequentialRead \<Rightarrow> L1
      | ParallelRead \<Rightarrow>
          (case cv_expire v1 of
             None \<Rightarrow> L1
           | Some e1 \<Rightarrow>
               if e1 < sc_clock1 sch + 1000000000 then L1
               else (case cv_expire v2 of
                       None \<Rightarrow> L2
                     | Some e2 \<Rightarrow>
                         if e2 < sc_clock2 sch + 1000000000
                           \<or> (e1 - sc_clock1 sch) div 1000000000 < (e2 - sc_clock2 sch) div 1000000000
                         then L2 else L1))
      | RaceRead _ \<Rightarrow> sc_first sch)"

lemma served_parallel:
  "served_layer ParallelRead sch v1 v2 = (if prefer_l2 (sc_clock1 sch) (sc_clock2 sch) v1 v2 then L2 else L1)"
proof -
  have some: "ttl_secs now v = Some (nat ((e - now) div 1000000000))" "0 \<le> (e - now) div 1000000000"
    if "cv_expire v = Some e" "\<not> e < now + 1000000000" for now e and v :: "'z cache_value"
    using that ttl_secs_Some_iff [of now v "nat ((e - now) div 1000000000)"] by (auto simp: nanos_per_sec_def)
  have none: "ttl_secs now v = None" if "\<forall>e. cv_expire v = Some e \<longrightarrow> e < now + 1000000000" for now and v :: "'z cache_value"
    using that ttl_secs_None_iff [of now v] by (auto simp: nanos_per_sec_def)
  show ?thesis
  proof (cases "\<exists>e1. cv_expire v1 = Some e1 \<and> \<not> e1 < sc_clock1 sch + 1000000000")
    case False
    then have "ttl_secs (sc_clock1 sch) v1 = None" by (intro none) auto
    then show ?thesis using False by (auto simp: served_layer_def prefer_l2_def split: option.split)
  next
    case True
    then obtain e1 where e1: "cv_expire v1 = Some e1" "\<not> e1 < sc_clock1 sch + 1000000000" by blast
    note t1 = some [OF e1]
    show ?thesis
    proof (cases "\<exists>e2. cv_expire v2 = Some e2 \<and> \<not> e2 < sc_clock2 sch + 1000000000")
      case False
      then have "ttl_secs (sc_clock2 sch) v2 = None" by (intro none) auto
      then show ?thesis using False e1 t1 by (auto simp: served_layer_def prefer_l2_def split: option.split)
    next
      case True
      then obtain e2 where e2: "cv_expire v2 = Some e2" "\<not> e2 < sc_clock2 sch + 1000000000" by blast
      show ?thesis using e1 e2 t1 some [OF e2] by (simp add: served_layer_def prefer_l2_def)
    qed
  qed
qed

lemma served_layer_cases:
  "served_layer p sch v1 v2 =
     (case p of
        SequentialRead \<Rightarrow> L1
      | ParallelRead \<Rightarrow> if prefer_l2 (sc_clock1 sch) (sc_clock2 sch) v1 v2 then L2 else L1
      | RaceRead _ \<Rightarrow> sc_first sch)"
  using served_parallel [of sch v1 v2] by (cases p) (simp_all add: served_layer_def)

lemma layer_cases [case_names hit miss failed]:
  fixes out :: "'v read_outcome"
  obtains v c where "out = (Ok (Some v), c)" | c where "out = (Ok None, c)" | e c where "out = (Err e, c)"
  by (metis old.sum.exhaust option.exhaust surj_pair)

lemma on_l1_eq: "f (ly_l1 st) = (r, s) \<Longrightarrow> on_l1 f st = (r, st\<lparr>ly_l1 := s\<rparr>)"
  by (simp add: on_l1_def)

lemma on_l2_eq: "f (ly_l2 st) = (r, s) \<Longrightarrow> on_l2 f st = (r, st\<lparr>ly_l2 := s\<rparr>)"
  by (simp add: on_l2_def)

lemmas read_policy_defs = read_execute_def sequential_read_def parallel_read_def race_read_def
  join_both_def parallel_settle_def settle_def loser_end_def Let_def

lemmas write_policy_defs = write_execute_def sequential_write_def optimistic_parallel_write_def race_write_def
  join_both_def loser_end_def both_failed_def

lemma read_execute_outcome:
  assumes "f (ly_l1 st) = (o1, t1)" "g (ly_l2 st) = (o2, t2)"
  shows "fst (read_execute p sch (on_l1 f) (on_l2 g) st) =
    (case (fst o1, fst o2) of
       (Inr (Some v1), Inr (Some v2)) \<Rightarrow>
         (case served_layer p sch v1 v2 of
            L1 \<Rightarrow> Ok \<lparr>rv_value = Some v1, rv_source = L1, rv_context = snd o1\<rparr>
          | L2 \<Rightarrow> Ok \<lparr>rv_value = Some v2, rv_source = L2, rv_context = snd o2\<rparr>)
     | (Inr (Some v1), _) \<Rightarrow> Ok \<lparr>rv_value = Some v1, rv_source = L1, rv_context = snd o1\<rparr>
     | (_, Inr (Some v2)) \<Rightarrow> Ok \<lparr>rv_value = Some v2, rv_source = L2, rv_context = snd o2\<rparr>
     | (_, Inr None) \<Rightarrow>
         Ok \<lparr>rv_value = None, rv_source = L2,
             rv_context = (if p = SequentialRead then snd o2 else boxed cache_context_default)\<rparr>
     | (Inl _, Inl e2) \<Rightarrow> Err e2
     | (Inr None, Inl e2) \<Rightarrow>
         if p = SequentialRead then Err e2
         else Ok \<lparr>rv_value = None, rv_source = L2, rv_context = boxed cache_context_default\<rparr>)"
proof -
  have g': "g (ly_l2 (st\<lparr>ly_l1 := t1\<rparr>)) = (o2, t2)" and f': "f (ly_l1 (st\<lparr>ly_l2 := t2\<rparr>)) = (o1, t1)"
    using assms by simp_all
  note ops = on_l1_eq [where f = f] on_l2_eq [where f = g] assms f' g'
  show ?thesis
    by (cases o1 rule: layer_cases; cases o2 rule: layer_cases; cases p; cases "sc_first sch")
       (simp_all add: read_policy_defs ops served_layer_cases)
qed

text \<open>The tasks a policy spawned, run in turn.\<close>

definition run_all :: "'s task list \<Rightarrow> 's \<Rightarrow> 's" where
  "run_all ts s = foldl (\<lambda>s t. snd t s) s ts"

lemma run_all_simps [simp]: "run_all [] s = s" "run_all (t # ts) s = run_all ts (snd t s)"
  by (simp_all add: run_all_def)

lemma read_execute_stores:
  assumes "f (ly_l1 st) = (o1, t1)" "g (ly_l2 st) = (o2, t2)"
  shows "case read_execute p sch (on_l1 f) (on_l2 g) st of (res, ts, st') \<Rightarrow>
    ly_l1 (run_all ts st') \<in> {ly_l1 st, t1} \<and> ly_l2 (run_all ts st') \<in> {ly_l2 st, t2}"
proof -
  have g': "g (ly_l2 (st\<lparr>ly_l1 := t1\<rparr>)) = (o2, t2)" and f': "f (ly_l1 (st\<lparr>ly_l2 := t2\<rparr>)) = (o1, t1)"
    using assms by simp_all
  note ops = on_l1_eq [where f = f] on_l2_eq [where f = g] assms(1,2) f' g'
  show ?thesis
    by (cases o1 rule: layer_cases; cases o2 rule: layer_cases; cases p; cases "sc_first sch")
       (simp_all add: read_policy_defs ops split: loser_policy.split)
qed

text \<open>C13. Every read policy, under every schedule, is a hit exactly when some layer has the value; what
  it serves is the outcome and the context of the layer it names as the source; when both layers
  have the value, the sequential policy serves the first layer, the race the layer that answers
  first, and the parallel policy the second exactly when the value of the first has at least a second left and
  that of the second has no expiry, more whole seconds left, or less than one second left: the documented preference for the
  longest remaining time, except that an expired value of the second layer counts as one without expiry.  It fails exactly when the
  second layer fails and the first has no value, having failed too unless the policy is sequential,
  and then with the error of the second layer.  Each layer is read at most once, also when the
  loser of a race finishes in the background.\<close>

theorem read_policies_settle:
  "let o1 = fst (f (ly_l1 st)); o2 = fst (g (ly_l2 st));
       (res, ts, st') = read_execute p sch (on_l1 f) (on_l2 g) st;
       end = run_all ts st'
   in ((\<exists>r. res = Ok r \<and> rv_value r \<noteq> None) \<longleftrightarrow> layer_hit o1 \<or> layer_hit o2)
    \<and> (\<forall>r v. res = Ok r \<and> rv_value r = Some v \<longrightarrow>
         (case rv_source r of L1 \<Rightarrow> o1 | L2 \<Rightarrow> o2) = (Ok (Some v), rv_context r))
    \<and> (\<forall>r v1 v2. res = Ok r \<and> fst o1 = Ok (Some v1) \<and> fst o2 = Ok (Some v2) \<longrightarrow>
         rv_source r = served_layer p sch v1 v2)
    \<and> (\<forall>e. res = Err e \<longleftrightarrow> fst o2 = Err e \<and> \<not> layer_hit o1 \<and> (p = SequentialRead \<or> layer_failed o1))
    \<and> ly_l1 end \<in> {ly_l1 st, snd (f (ly_l1 st))} \<and> ly_l2 end \<in> {ly_l2 st, snd (g (ly_l2 st))}"
proof -
  obtain o1 t1 o2 t2 where fg: "f (ly_l1 st) = (o1, t1)" "g (ly_l2 st) = (o2, t2)"
    by (metis surj_pair)
  obtain res ts st' where e: "read_execute p sch (on_l1 f) (on_l2 g) st = (res, ts, st')"
    by (metis surj_pair)
  note out = read_execute_outcome [where f = f and g = g, OF fg, of p sch, unfolded e fst_conv]
  have "((\<exists>r. res = Ok r \<and> rv_value r \<noteq> None) \<longleftrightarrow> layer_hit o1 \<or> layer_hit o2)
    \<and> (\<forall>r v. res = Ok r \<and> rv_value r = Some v \<longrightarrow>
         (case rv_source r of L1 \<Rightarrow> o1 | L2 \<Rightarrow> o2) = (Ok (Some v), rv_context r))
    \<and> (\<forall>r v1 v2. res = Ok r \<and> fst o1 = Ok (Some v1) \<and> fst o2 = Ok (Some v2) \<longrightarrow>
         rv_source r = served_layer p sch v1 v2)
    \<and> (\<forall>e. res = Err e \<longleftrightarrow> fst o2 = Err e \<and> \<not> layer_hit o1 \<and> (p = SequentialRead \<or> layer_failed o1))"
    using out
    by (cases o1 rule: layer_cases; cases o2 rule: layer_cases; cases p; cases "sc_first sch")
       (auto simp: layer_hit_def layer_failed_def served_layer_cases)
  then show ?thesis using read_execute_stores [where f = f and g = g, OF fg, of p sch] by (simp add: e fg)
qed

theorem read_policies_settle_witness:
  "let f = (\<lambda>s::nat. ((Ok None, boxed cache_context_default), s + 1));
       g = (\<lambda>s::nat. ((Ok (Some (cache_value_new (7::nat) None None)), boxed cache_context_default), s + 1));
       (res, ts, st') = read_execute (RaceRead OffloadLoser) \<lparr>sc_first = L2, sc_loser_ran = False, sc_clock1 = 0, sc_clock2 = 0\<rparr>
         (on_l1 f) (on_l2 g) \<lparr>ly_l1 = 0, ly_l2 = 0\<rparr>
   in res = Ok \<lparr>rv_value = Some (cache_value_new 7 None None), rv_source = L2, rv_context = boxed cache_context_default\<rparr>
    \<and> length ts = 1 \<and> st' = \<lparr>ly_l1 = 0, ly_l2 = 1\<rparr> \<and> ly_l1 (run_all ts st') \<in> {0, 1}"
  using read_policies_settle [of "\<lambda>s::nat. ((Ok None, boxed cache_context_default), s + 1)" "\<lparr>ly_l1 = 0, ly_l2 = 0\<rparr>"
      "\<lambda>s::nat. ((Ok (Some (cache_value_new (7::nat) None None)), boxed cache_context_default), s + 1)"
      "RaceRead OffloadLoser" "\<lparr>sc_first = L2, sc_loser_ran = False, sc_clock1 = 0, sc_clock2 = 0\<rparr>"]
  by (simp add: read_policy_defs on_l1_def on_l2_def)

section \<open>Writing through a policy\<close>

text \<open>C14. A sequential write succeeds exactly when both layers do, and an optimistic or racing write
  exactly when some layer does.  A success means what the policy promises: both stores hold the
  write of a sequential policy, some store that of the others; the racing write that hands its
  loser to the background has written both stores once the task has run.  A failure is the
  error of the first layer to fail, or both errors together.  No store is written twice.\<close>

theorem write_policies_settle:
  "let (r1, t1) = f (ly_l1 st); (r2, t2) = g (ly_l2 st);
       (res, ts, st') = write_execute p sch (on_l1 f) (on_l2 g) st;
       end = run_all ts st'
   in (is_ok res \<longleftrightarrow> (if p = SequentialWrite then is_ok r1 \<and> is_ok r2 else is_ok r1 \<or> is_ok r2))
    \<and> (is_ok res \<longrightarrow> (is_ok r1 \<and> ly_l1 st' = t1) \<or> (is_ok r2 \<and> ly_l2 st' = t2))
    \<and> (is_ok res \<and> p = SequentialWrite \<longrightarrow> st' = \<lparr>ly_l1 = t1, ly_l2 = t2\<rparr>)
    \<and> (p = OptimisticParallelWrite \<or> p = RaceWrite OffloadLoser \<longrightarrow> end = \<lparr>ly_l1 = t1, ly_l2 = t2\<rparr>)
    \<and> (\<forall>e. res = Err e \<longleftrightarrow>
         (if p = SequentialWrite then r1 = Err e \<or> is_ok r1 \<and> r2 = Err e
          else \<exists>e1 e2. r1 = Err e1 \<and> r2 = Err e2 \<and> e = InternalError (BoxComposition (BothLayersFailed e1 e2))))
    \<and> ly_l1 end \<in> {ly_l1 st, t1} \<and> ly_l2 end \<in> {ly_l2 st, t2}"
proof -
  obtain r1 t1 r2 t2 where fg: "f (ly_l1 st) = (r1, t1)" "g (ly_l2 st) = (r2, t2)"
    by (metis surj_pair)
  have g': "g (ly_l2 (st\<lparr>ly_l1 := t1\<rparr>)) = (r2, t2)" and f': "f (ly_l1 (st\<lparr>ly_l2 := t2\<rparr>)) = (r1, t1)"
    using fg by simp_all
  note ops = on_l1_eq [where f = f] on_l2_eq [where f = g] fg f' g'
  show ?thesis
    by (cases p; cases "sc_first sch"; cases r1; cases r2)
       (auto simp: write_policy_defs ops split: loser_policy.splits)
qed

theorem write_policies_settle_witness:
  "let f = (\<lambda>s::nat. (Err (ConnectionError (BoxMsg ''down'')), s)); g = (\<lambda>s::nat. (Ok (), s + 1));
       (res, ts, st') = write_execute OptimisticParallelWrite \<lparr>sc_first = L1, sc_loser_ran = False, sc_clock1 = 0, sc_clock2 = 0\<rparr>
         (on_l1 f) (on_l2 g) \<lparr>ly_l1 = 5, ly_l2 = 5\<rparr>
   in res = Ok () \<and> ts = [] \<and> st' = \<lparr>ly_l1 = 5, ly_l2 = 6\<rparr> \<and> run_all ts st' = \<lparr>ly_l1 = 5, ly_l2 = 6\<rparr>"
  using write_policies_settle [of "\<lambda>s::nat. (Err (ConnectionError (BoxMsg ''down'')), s)" "\<lparr>ly_l1 = 5, ly_l2 = 5\<rparr>"
      "\<lambda>s::nat. (Ok (), s + 1)" OptimisticParallelWrite "\<lparr>sc_first = L1, sc_loser_ran = False, sc_clock1 = 0, sc_clock2 = 0\<rparr>"]
  by (simp add: write_policy_defs on_l1_def on_l2_def)

section \<open>What a read may return\<close>

text \<open>A store agrees with a history when it holds only encodings of the values the history allows.\<close>

definition store_agrees ::
  "('s \<Rightarrow> bool) \<Rightarrow> ('s \<Rightarrow> cache_key \<Rightarrow> bytes option) \<Rightarrow> ('a \<Rightarrow> bytes \<Rightarrow> bool) \<Rightarrow> 's \<Rightarrow> (cache_key \<Rightarrow> 'a set) \<Rightarrow> bool" where
  "store_agrees iv view enc s h \<longleftrightarrow> iv s \<and> (\<forall>k z. view s k = Some z \<longrightarrow> (\<exists>v \<in> h k. enc v z))"

lemma store_agrees_mono: "store_agrees iv view enc s h \<Longrightarrow> h \<le> h' \<Longrightarrow> store_agrees iv view enc s h'"
  unfolding store_agrees_def le_fun_def by blast

lemma store_agrees_le: "store_agrees iv view enc s h \<Longrightarrow> iv s' \<Longrightarrow> view s' \<subseteq>\<^sub>m view s \<Longrightarrow> store_agrees iv view enc s' h"
  unfolding store_agrees_def map_le_def by (metis domI)

lemma note_set_le: "h(k := insert v (h k)) \<ge> h" "note_set k v r h \<le> h(k := insert v (h k))"
  by (auto simp: le_fun_def note_set_def)

context cache_store begin

lemma read_agrees:
  assumes "okey k" "store_agrees inv view enc s h" "be_read B k s = (r, s')"
  shows "store_agrees inv view enc s' h" "r = Ok (Some u) \<Longrightarrow> \<exists>w \<in> h k. enc w (cv_data u)"
  using read_law [OF assms(1) _ assms(3)] assms(2) store_agrees_le [OF assms(2)]
  unfolding store_agrees_def by auto

lemma write_agrees:
  assumes "okey k" "store_agrees inv view enc s h" "be_write B k u s = (r, s')" "enc v (cv_data u)"
  shows "store_agrees inv view enc s' (note_set k v r h)"
proof -
  have w: "inv s'" "view s' \<subseteq>\<^sub>m (view s)(k \<mapsto> cv_data u) \<or> \<not> is_ok r \<and> view s' \<subseteq>\<^sub>m view s"
    using write_law [OF assms(1) _ assms(3)] assms(2) unfolding store_agrees_def by auto
  from w(2) show ?thesis
  proof
    assume le: "view s' \<subseteq>\<^sub>m (view s)(k \<mapsto> cv_data u)"
    have "\<exists>w \<in> note_set k v r h j. enc w y" if "view s' j = Some y" for j y
    proof -
      have "((view s)(k \<mapsto> cv_data u)) j = Some y" using le that unfolding map_le_def by (metis domI)
      then show ?thesis using assms(2,4)
        by (cases "j = k") (auto simp: note_set_def store_agrees_def)
    qed
    then show ?thesis using w(1) unfolding store_agrees_def by blast
  next
    assume fail: "\<not> is_ok r \<and> view s' \<subseteq>\<^sub>m view s"
    then have "h \<le> note_set k v r h" by (auto simp: note_set_def le_fun_def)
    then show ?thesis using store_agrees_mono [OF store_agrees_le [OF assms(2) w(1)]] fail by blast
  qed
qed

lemma write_agrees_insert:
  assumes "okey k" "store_agrees inv view enc s h" "be_write B k u s = (r, s')" "enc v (cv_data u)"
  shows "store_agrees inv view enc s' (h(k := insert v (h k)))"
  using store_agrees_mono [OF write_agrees [OF assms] note_set_le(2)] .

lemma remove_agrees:
  assumes "okey k" "store_agrees inv view enc s h" "be_remove B k s = (r, s')"
  shows "store_agrees inv view enc s' h" "is_ok r \<Longrightarrow> store_agrees inv view enc s' (h(k := {}))"
  using remove_law [OF assms(1) _ assms(3)] assms(2) store_agrees_le [OF assms(2)]
  unfolding store_agrees_def by auto

end

text \<open>Policies keep what the layers' operations keep, and their tasks are the layers' operations.\<close>

lemma read_execute_keeps:
  assumes "P st" "\<And>s. P s \<Longrightarrow> P (snd (F s))" "\<And>s. P s \<Longrightarrow> P (snd (G s))"
  shows "case read_execute p sch F G st of (res, ts, st') \<Rightarrow>
    P st' \<and> snd ` set ts \<subseteq> {\<lambda>s. snd (F s), \<lambda>s. snd (G s)}"
proof -
  obtain o1 t1 o2 t2 where one: "F st = (o1, t1)" "G st = (o2, t2)" by fastforce
  obtain p1 u1 p2 u2 where two: "F t2 = (p1, u1)" "G t1 = (p2, u2)" by fastforce
  have t: "P t1" "P t2" using assms(2) [OF assms(1)] assms(3) [OF assms(1)] one by simp_all
  have u: "P u1" "P u2" using assms(2) [OF t(2)] assms(3) [OF t(1)] two by simp_all
  note keeps = one two t u
  obtain r2 c2 where "p2 = (r2, c2)" by fastforce
  note keeps = keeps this
  show ?thesis
    by (cases "sc_first sch"; cases p; cases o1 rule: layer_cases; cases o2 rule: layer_cases; cases r2)
       (simp_all add: read_policy_defs keeps assms(2,3) split: loser_policy.split)
qed

lemma write_execute_keeps:
  assumes "P st" "\<And>s. P s \<Longrightarrow> P (snd (F s))" "\<And>s. P s \<Longrightarrow> P (snd (G s))"
  shows "case write_execute p sch F G st of (res, ts, st') \<Rightarrow>
    P st' \<and> snd ` set ts \<subseteq> {\<lambda>s. snd (F s), \<lambda>s. snd (G s)} \<and> (ts \<noteq> [] \<longrightarrow> p = RaceWrite OffloadLoser)"
proof -
  obtain o1 t1 o2 t2 where one: "F st = (o1, t1)" "G st = (o2, t2)" by fastforce
  obtain p1 u1 p2 u2 where two: "F t2 = (p1, u1)" "G t1 = (p2, u2)" by fastforce
  have t: "P t1" "P t2" using assms(2) [OF assms(1)] assms(3) [OF assms(1)] one by simp_all
  have u: "P u1" "P u2" using assms(2) [OF t(2)] assms(3) [OF t(1)] two by simp_all
  note keeps = one two t u
  show ?thesis
    by (cases "sc_first sch"; cases p; cases o1; cases o2; cases p1; cases p2)
       (simp_all add: write_policy_defs keeps assms(2,3) split: loser_policy.split)
qed

text \<open>Writes reach both stores before the set returns unless the policy hands a loser to the background.\<close>

definition writes_in_time :: "('s1, 's2, 'a) composition \<Rightarrow> bool" where
  "writes_in_time C \<longleftrightarrow> (case xb_write_policy C of RaceWrite _ \<Rightarrow> False | _ \<Rightarrow> True)"

definition encodes :: "'a composition_format \<Rightarrow> composition_layer \<Rightarrow> 'a \<Rightarrow> bytes \<Rightarrow> bool" where
  "encodes F layer v z \<longleftrightarrow> (\<exists>ctx. serialize_layer F layer v ctx = Ok z)"

text \<open>The values a reader may see, after a set and after a delete.  A set replaces the old values only
  when the policy writes both layers before it succeeds; otherwise it adds one.  A delete clears
  them when both layers removed the key and no write is still on its way.\<close>

definition note_layered_set ::
  "('s1, 's2, 'a) composition \<Rightarrow> cache_key \<Rightarrow> 'a \<Rightarrow> box_context \<Rightarrow> (unit, backend_error) result
   \<Rightarrow> (cache_key \<Rightarrow> 'a set) \<Rightarrow> cache_key \<Rightarrow> 'a set" where
  "note_layered_set C k v ctx r h =
     (if ctx_read_mode ctx = Refill
      then (if xb_refill_policy C = RefillAlways then h(k := insert v (h k)) else h)
      else if xb_write_policy C = SequentialWrite then note_set k v r h
      else h(k := insert v (h k)))"

definition both_removed :: "('s1, 's2, 'a) composition \<Rightarrow> cache_key \<Rightarrow> ('s1, 's2) comp_state \<Rightarrow> bool" where
  "both_removed C k st \<longleftrightarrow>
     is_ok (fst (be_remove (xb_l1 C) k (ly_l1 (co_layers st)))) \<and> is_ok (fst (be_remove (xb_l2 C) k (ly_l2 (co_layers st))))"

definition note_layered_delete ::
  "('s1, 's2, 'a) composition \<Rightarrow> cache_key \<Rightarrow> ('s1, 's2) comp_state \<Rightarrow> (cache_key \<Rightarrow> 'a set) \<Rightarrow> cache_key \<Rightarrow> 'a set" where
  "note_layered_delete C k st h = (if both_removed C k st \<and> writes_in_time C then h(k := {}) else h)"

text \<open>A history of typed operations on a composition, of the background tasks it spawned, and of
  entries lost in the layers.\<close>

inductive layered_history ::
  "('s1, 's2, 'a) composition \<Rightarrow> (cache_key \<Rightarrow> bool)
   \<Rightarrow> ('s1 \<Rightarrow> bool) \<Rightarrow> ('s1 \<Rightarrow> cache_key \<Rightarrow> bytes option) \<Rightarrow> ('s2 \<Rightarrow> bool) \<Rightarrow> ('s2 \<Rightarrow> cache_key \<Rightarrow> bytes option)
   \<Rightarrow> ('s1, 's2) comp_state \<Rightarrow> (cache_key \<Rightarrow> 'a set) \<Rightarrow> bool"
  for C okey inv1 view1 inv2 view2 where
  layered_start: "inv1 s1 \<Longrightarrow> view1 s1 = (\<lambda>k. None) \<Longrightarrow> inv2 s2 \<Longrightarrow> view2 s2 = (\<lambda>k. None)
    \<Longrightarrow> layered_history C okey inv1 view1 inv2 view2 \<lparr>co_layers = \<lparr>ly_l1 = s1, ly_l2 = s2\<rparr>, co_tasks = []\<rparr> (\<lambda>k. {})"
| layered_get: "layered_history C okey inv1 view1 inv2 view2 st h \<Longrightarrow> okey k
    \<Longrightarrow> composition_get sched C k ctx st = (r, st') \<Longrightarrow> layered_history C okey inv1 view1 inv2 view2 st' h"
| layered_set: "layered_history C okey inv1 view1 inv2 view2 st h \<Longrightarrow> okey k
    \<Longrightarrow> composition_set sched C k v ctx st = ((r, ctx'), st')
    \<Longrightarrow> layered_history C okey inv1 view1 inv2 view2 st' (note_layered_set C k (cv_data v) ctx r h)"
| layered_delete: "layered_history C okey inv1 view1 inv2 view2 st h \<Longrightarrow> okey k
    \<Longrightarrow> composition_delete sched C k ctx st = (r, st')
    \<Longrightarrow> layered_history C okey inv1 view1 inv2 view2 st' (note_layered_delete C k st h)"
| layered_task: "layered_history C okey inv1 view1 inv2 view2 st h
    \<Longrightarrow> layered_history C okey inv1 view1 inv2 view2 (run_task n st) h"
| layered_loss: "layered_history C okey inv1 view1 inv2 view2 st h
    \<Longrightarrow> inv1 s1 \<Longrightarrow> view1 s1 \<subseteq>\<^sub>m view1 (ly_l1 (co_layers st)) \<Longrightarrow> inv2 s2 \<Longrightarrow> view2 s2 \<subseteq>\<^sub>m view2 (ly_l2 (co_layers st))
    \<Longrightarrow> layered_history C okey inv1 view1 inv2 view2 (st\<lparr>co_layers := \<lparr>ly_l1 = s1, ly_l2 = s2\<rparr>\<rparr>) h"

text \<open>Outside the refill mode a set writes both layers: a composition context whose layer is the
  second is in refill mode.\<close>

lemma composition_set_normal:
  assumes "ctx_read_mode ctx \<noteq> Refill"
  shows "composition_set sched C k v ctx st =
    (case serialize_parts (xb_format C) (cv_data v) ctx of
       Inl e \<Rightarrow> ((Err (InternalError (BoxFormat e)), ctx), st)
     | Inr (z1, z2) \<Rightarrow>
         (case with_tasks (write_execute (xb_write_policy C) (sched st)
              (on_l1 (be_write (xb_l1 C) k (cache_value_new z1 (cv_expire v) (cv_stale v))))
              (on_l2 (be_write (xb_l2 C) k (cache_value_new z2 (cv_expire v) (cv_stale v))))) st of
            (r, st) \<Rightarrow> ((r, ctx), st)))"
proof (cases ctx)
  case (PlainCtx c)
  then show ?thesis using assms by (simp add: composition_set_def Let_def split: sum.split prod.split)
next
  case (CompositionCtx i l f)
  then have "l = L1" using assms by (cases l) (simp_all add: should_refill_def)
  then show ?thesis using CompositionCtx
    by (simp add: composition_set_def should_refill_def Let_def split: sum.split prod.split)
qed

text \<open>Two stores under a composition whose codecs lose nothing; the layers delete, and take a refill,
  with the default operations of the trait.\<close>

locale two_layers =
  l1: cache_store "xb_l1 C" okey inv1 view1 + l2: cache_store "xb_l2 C" okey inv2 view2
  for C :: "('s1, 's2, 'a) composition" and okey inv1 view1 inv2 view2 +
  assumes lossless: "lossless_composition (xb_format C)"
    and delete1: "kb_delete (xb_l1 C) = cache_delete (xb_l1 C)"
    and delete2: "kb_delete (xb_l2 C) = cache_delete (xb_l2 C)"
    and set2: "kb_set (xb_l2 C) = cache_set (xb_l2 C)"
begin

definition layers_agree :: "('s1, 's2) layers \<Rightarrow> (cache_key \<Rightarrow> 'a set) \<Rightarrow> bool" where
  "layers_agree ly h \<longleftrightarrow>
     store_agrees inv1 view1 (encodes (xb_format C) L1) (ly_l1 ly) h
     \<and> store_agrees inv2 view2 (encodes (xb_format C) L2) (ly_l2 ly) h"

definition task_safe :: "(cache_key \<Rightarrow> 'a set) \<Rightarrow> (('s1, 's2) layers \<Rightarrow> ('s1, 's2) layers) \<Rightarrow> bool" where
  "task_safe h t \<longleftrightarrow> (\<forall>h' ly. (writes_in_time C \<or> h \<le> h') \<longrightarrow> layers_agree ly h' \<longrightarrow> layers_agree (t ly) h')"

definition agrees :: "('s1, 's2) comp_state \<Rightarrow> (cache_key \<Rightarrow> 'a set) \<Rightarrow> bool" where
  "agrees st h \<longleftrightarrow> layers_agree (co_layers st) h \<and> (\<forall>t \<in> snd ` set (co_tasks st). task_safe h t)"

lemma layers_agree_mono: "layers_agree ly h \<Longrightarrow> h \<le> h' \<Longrightarrow> layers_agree ly h'"
  unfolding layers_agree_def by (auto intro: store_agrees_mono)

lemma task_safe_mono: "task_safe h t \<Longrightarrow> writes_in_time C \<or> h \<le> h' \<Longrightarrow> task_safe h' t"
  unfolding task_safe_def using order_trans by blast

lemma layer_hit_encoded:
  assumes "be_read B k s = (r, s')" "\<And>u. r = Ok (Some u) \<Longrightarrow> \<exists>w \<in> H. encodes (xb_format C) layer w (cv_data u)"
    and "read_layer (xb_format C) layer B k ctx s = ((Ok (Some v), c), t)"
  shows "cv_data v \<in> H"
proof -
  obtain u where u: "r = Ok (Some u)"
    using assms(1,3) by (auto simp: read_layer_def split: sum.splits option.splits)
  obtain w c' where w: "w \<in> H" "serialize_layer (xb_format C) layer w c' = Ok (cv_data u)"
    using assms(2) [OF u] unfolding encodes_def by blast
  obtain c2 where "deserialize_layer (xb_format C) (cv_data u) layer ctx = (Ok (Some w), c2)"
    using deserialize_serialize_layer [OF lossless w(2)] by (metis prod.collapse)
  then show ?thesis using assms(1,3) u w(1)
    by (auto simp: read_layer_def into_parts_def cache_value_new_def)
qed

lemma read_layer_store: "snd (read_layer F layer B k ctx s) = snd (be_read B k s)"
  by (simp add: read_layer_def into_parts_def split: prod.splits sum.splits option.splits)

lemma reads_keep:
  assumes "okey k" "layers_agree ly h"
  shows "layers_agree (snd (on_l1 (read_layer (xb_format C) L1 (xb_l1 C) k ctx) ly)) h"
    "layers_agree (snd (on_l2 (read_layer (xb_format C) L2 (xb_l2 C) k ctx) ly)) h"
proof -
  have "store_agrees inv1 view1 (encodes (xb_format C) L1) (snd (be_read (xb_l1 C) k (ly_l1 ly))) h"
    "store_agrees inv2 view2 (encodes (xb_format C) L2) (snd (be_read (xb_l2 C) k (ly_l2 ly))) h"
    using l1.read_agrees(1) [OF assms(1)] l2.read_agrees(1) [OF assms(1)] assms(2)
    unfolding layers_agree_def by (metis prod.collapse)+
  then show "layers_agree (snd (on_l1 (read_layer (xb_format C) L1 (xb_l1 C) k ctx) ly)) h"
    "layers_agree (snd (on_l2 (read_layer (xb_format C) L2 (xb_l2 C) k ctx) ly)) h"
    using assms(2) read_layer_store [of "xb_format C" L1 "xb_l1 C" k ctx] read_layer_store [of "xb_format C" L2 "xb_l2 C" k ctx]
    by (auto simp: layers_agree_def on_l1_def on_l2_def split: prod.splits) (metis snd_conv)+
qed

lemma get_agrees:
  assumes "agrees st h" "okey k" "composition_get sched C k ctx st = ((r, ctx'), st')"
  shows "agrees st' h" "r = Ok (Some v) \<Longrightarrow> cv_data v \<in> h k"
proof -
  let ?f = "read_layer (xb_format C) L1 (xb_l1 C) k ctx" and ?g = "read_layer (xb_format C) L2 (xb_l2 C) k ctx"
  let ?ly = "co_layers st"
  have ly: "layers_agree ?ly h" using assms(1) unfolding agrees_def by blast
  obtain res ts ly' where e: "read_execute (xb_read_policy C) (sched st) (on_l1 ?f) (on_l2 ?g) ?ly = (res, ts, ly')"
    by (metis surj_pair)
  have st': "st' = \<lparr>co_layers = ly', co_tasks = co_tasks st @ ts\<rparr>" and r: "r = rmap rv_value res"
    using assms(3) e by (cases res; auto simp: composition_get_def with_tasks_def Let_def split: if_splits)+
  have keeps: "layers_agree ly' h \<and> snd ` set ts \<subseteq> {\<lambda>s. snd (on_l1 ?f s), \<lambda>s. snd (on_l2 ?g s)}"
    using read_execute_keeps [where P = "\<lambda>ly. layers_agree ly h" and F = "on_l1 ?f" and G = "on_l2 ?g",
        OF ly reads_keep [OF assms(2)], of "xb_read_policy C" "sched st"] e by simp
  have "task_safe h t" if "t \<in> {\<lambda>s. snd (on_l1 ?f s), \<lambda>s. snd (on_l2 ?g s)}" for t
    using that reads_keep [OF assms(2)] unfolding task_safe_def by auto
  then show "agrees st' h" using assms(1) keeps unfolding agrees_def st' by auto
  show "cv_data v \<in> h k" if hit: "r = Ok (Some v)"
  proof -
    obtain o1 t1 o2 t2 where fg: "?f (ly_l1 ?ly) = (o1, t1)" "?g (ly_l2 ?ly) = (o2, t2)" by fastforce
    have "o1 = (Ok (Some v), snd o1) \<or> o2 = (Ok (Some v), snd o2)"
      using read_execute_outcome [where f = ?f and g = ?g, OF fg, of "xb_read_policy C" "sched st", unfolded e fst_conv] hit r
      by (cases o1 rule: layer_cases; cases o2 rule: layer_cases)
         (auto split: composition_layer.splits if_splits)
    moreover obtain r1 s1 r2 s2 where "be_read (xb_l1 C) k (ly_l1 ?ly) = (r1, s1)" "be_read (xb_l2 C) k (ly_l2 ?ly) = (r2, s2)"
      by fastforce
    ultimately show ?thesis
      using fg ly layer_hit_encoded [of "xb_l1 C" k "ly_l1 ?ly" r1 s1 "h k" L1 ctx v "snd o1" t1]
        layer_hit_encoded [of "xb_l2 C" k "ly_l2 ?ly" r2 s2 "h k" L2 ctx v "snd o2" t2]
        l1.read_agrees(2) [OF assms(2), where enc = "encodes (xb_format C) L1"]
        l2.read_agrees(2) [OF assms(2), where enc = "encodes (xb_format C) L2"]
      unfolding layers_agree_def by metis
  qed
qed

lemma task_agrees: "agrees st h \<Longrightarrow> agrees (run_task n st) h"
  unfolding agrees_def run_task_def task_safe_def
  by (auto dest: in_set_takeD in_set_dropD)

lemma loss_agrees:
  assumes "agrees st h" "inv1 s1" "view1 s1 \<subseteq>\<^sub>m view1 (ly_l1 (co_layers st))" "inv2 s2" "view2 s2 \<subseteq>\<^sub>m view2 (ly_l2 (co_layers st))"
  shows "agrees (st\<lparr>co_layers := \<lparr>ly_l1 = s1, ly_l2 = s2\<rparr>\<rparr>) h"
  using assms unfolding agrees_def layers_agree_def by (auto intro: store_agrees_le)

lemma writes_insert:
  assumes "okey k" "serialize_layer (xb_format C) L1 v ctx1 = Ok (cv_data u1)" "serialize_layer (xb_format C) L2 v ctx2 = Ok (cv_data u2)"
    and "layers_agree ly h" "v \<in> h k"
  shows "layers_agree (snd (on_l1 (be_write (xb_l1 C) k u1) ly)) h" "layers_agree (snd (on_l2 (be_write (xb_l2 C) k u2) ly)) h"
proof -
  have h: "h(k := insert v (h k)) = h" using assms(5) by (simp add: insert_absorb)
  have e: "encodes (xb_format C) L1 v (cv_data u1)" "encodes (xb_format C) L2 v (cv_data u2)"
    using assms(2,3) unfolding encodes_def by blast+
  have "store_agrees inv1 view1 (encodes (xb_format C) L1) (snd (be_write (xb_l1 C) k u1 (ly_l1 ly))) h"
    "store_agrees inv2 view2 (encodes (xb_format C) L2) (snd (be_write (xb_l2 C) k u2 (ly_l2 ly))) h"
    using l1.write_agrees_insert [where enc = "encodes (xb_format C) L1" and v = v, OF assms(1) _ _ e(1)]
      l2.write_agrees_insert [where enc = "encodes (xb_format C) L2" and v = v, OF assms(1) _ _ e(2)] assms(4)
    unfolding layers_agree_def by (metis h prod.collapse)+
  then show "layers_agree (snd (on_l1 (be_write (xb_l1 C) k u1) ly)) h" "layers_agree (snd (on_l2 (be_write (xb_l2 C) k u2) ly)) h"
    using assms(4) by (auto simp: layers_agree_def on_l1_def on_l2_def split: prod.splits)
qed

lemma agrees_mono:
  assumes "agrees st h" "h \<le> h'"
  shows "agrees st h'"
  using assms layers_agree_mono task_safe_mono unfolding agrees_def by blast

lemma refill_agrees:
  assumes "agrees st h" "okey k" "ctx_read_mode ctx = Refill" "composition_set sched C k v ctx st = ((r, ctx'), st')"
  shows "agrees st' (note_layered_set C k (cv_data v) ctx r h)"
proof (cases "xb_refill_policy C")
  case RefillNever
  then show ?thesis using assms by (simp add: composition_set_def note_layered_set_def)
next
  case RefillAlways
  let ?h = "h(k := insert (cv_data v) (h k))"
  have a: "agrees st ?h" by (rule agrees_mono [OF assms(1) note_set_le(1)])
  have "agrees st' ?h"
  proof (cases "serialize_layer (xb_format C) L1 (cv_data v) ctx")
    case (Inl e)
    then show ?thesis using assms RefillAlways a by (auto simp: composition_set_def direct_def refill_l1_def)
  next
    case (Inr z)
    let ?u = "cache_value_new z (cv_expire v) (cv_stale v)"
    obtain q s' where w: "be_write (xb_l1 C) k ?u (ly_l1 (co_layers st)) = (q, s')" by fastforce
    have "st' = st\<lparr>co_layers := (co_layers st)\<lparr>ly_l1 := s'\<rparr>\<rparr>"
      using assms(3,4) RefillAlways Inr w set2
      by (cases q) (simp_all add: composition_set_def direct_def refill_l1_def on_l1_def set_l2_def on_l2_def cache_set_def)
    moreover have "store_agrees inv1 view1 (encodes (xb_format C) L1) s' ?h"
      using l1.write_agrees_insert [where enc = "encodes (xb_format C) L1" and h = h and v = "cv_data v", OF assms(2) _ w] assms(1) Inr
      unfolding agrees_def layers_agree_def encodes_def by auto
    ultimately show ?thesis using a by (simp add: agrees_def layers_agree_def)
  qed
  then show ?thesis using assms(3) RefillAlways by (simp add: note_layered_set_def)
qed

lemma sequential_agrees:
  assumes "layers_agree ly h" "okey k"
    and "serialize_layer (xb_format C) L1 v ctx = Ok (cv_data u1)" "serialize_layer (xb_format C) L2 v ctx = Ok (cv_data u2)"
    and "sequential_write (on_l1 (be_write (xb_l1 C) k u1)) (on_l2 (be_write (xb_l2 C) k u2)) ly = (r, ts, ly')"
  shows "layers_agree ly' (note_set k v r h) \<and> ts = []"
proof -
  obtain r1 s1 r2 s2 where w: "be_write (xb_l1 C) k u1 (ly_l1 ly) = (r1, s1)" "be_write (xb_l2 C) k u2 (ly_l2 ly) = (r2, s2)"
    by fastforce
  have e: "encodes (xb_format C) L1 v (cv_data u1)" "encodes (xb_format C) L2 v (cv_data u2)"
    using assms(3,4) unfolding encodes_def by blast+
  have ly: "store_agrees inv1 view1 (encodes (xb_format C) L1) (ly_l1 ly) h"
    "store_agrees inv2 view2 (encodes (xb_format C) L2) (ly_l2 ly) h"
    using assms(1) unfolding layers_agree_def by auto
  have a1: "store_agrees inv1 view1 (encodes (xb_format C) L1) s1 (note_set k v r1 h)"
    by (rule l1.write_agrees [where enc = "encodes (xb_format C) L1", OF assms(2) ly(1) w(1) e(1)])
  have a2: "store_agrees inv2 view2 (encodes (xb_format C) L2) s2 (note_set k v r2 h)"
    by (rule l2.write_agrees [where enc = "encodes (xb_format C) L2", OF assms(2) ly(2) w(2) e(2)])
  have less: "h \<le> note_set k v (Inl e') h" "note_set k v r1 h \<le> note_set k v (Inl e') h" for e' :: backend_error
    by (auto simp: note_set_def le_fun_def)
  show ?thesis
  proof (cases r1)
    case (Inl e1)
    then have "r = Err e1" "ly' = ly\<lparr>ly_l1 := s1\<rparr>" "ts = []"
      using assms(5) w by (simp_all add: sequential_write_def on_l1_def)
    then show ?thesis using a1 Inl store_agrees_mono [OF ly(2) less(1)] by (simp add: layers_agree_def)
  next
    case (Inr x)
    then have "r = r2" "ly' = ly\<lparr>ly_l1 := s1, ly_l2 := s2\<rparr>" "ts = []"
      using assms(5) w by (auto simp: sequential_write_def on_l1_def on_l2_def)
    moreover have "store_agrees inv1 view1 (encodes (xb_format C) L1) s1 (note_set k v r2 h)"
    proof (cases r2)
      case (Inl e2)
      then show ?thesis using store_agrees_mono [OF a1 less(2)] by simp
    next
      case (Inr y)
      then show ?thesis using a1 \<open>r1 = Inr x\<close> by (simp add: note_set_def)
    qed
    ultimately show ?thesis using a2 by (simp add: layers_agree_def)
  qed
qed

lemma normal_set_agrees:
  assumes "agrees st h" "okey k" "ctx_read_mode ctx \<noteq> Refill" "composition_set sched C k v ctx st = ((r, ctx'), st')"
  shows "agrees st' (note_layered_set C k (cv_data v) ctx r h)"
proof -
  let ?x = "cv_data v" let ?h = "h(k := insert ?x (h k))"
  have plain: "composition_set sched C k v ctx st =
    (case serialize_parts (xb_format C) ?x ctx of
       Inl e \<Rightarrow> ((Err (InternalError (BoxFormat e)), ctx), st)
     | Inr (z1, z2) \<Rightarrow>
         (case with_tasks (write_execute (xb_write_policy C) (sched st)
              (on_l1 (be_write (xb_l1 C) k (cache_value_new z1 (cv_expire v) (cv_stale v))))
              (on_l2 (be_write (xb_l2 C) k (cache_value_new z2 (cv_expire v) (cv_stale v))))) st of
            (r, st) \<Rightarrow> ((r, ctx), st)))"
    using assms(3) by (simp add: composition_set_normal)
  have note_insert: "note_layered_set C k ?x ctx (Inl e) h = ?h" for e
    using assms(3) by (auto simp: note_layered_set_def note_set_def)
  show ?thesis
  proof (cases "serialize_parts (xb_format C) ?x ctx")
    case (Inl e)
    then show ?thesis using assms(4) plain note_insert agrees_mono [OF assms(1) note_set_le(1)] by auto
  next
    case (Inr z)
    obtain z1 z2 where z: "z = (z1, z2)" by fastforce
    have ser: "serialize_layer (xb_format C) L1 ?x ctx = Ok z1" "serialize_layer (xb_format C) L2 ?x ctx = Ok z2"
      using serialize_parts_layers [OF lossless] Inr z by simp_all
    let ?u1 = "cache_value_new z1 (cv_expire v) (cv_stale v)" and ?u2 = "cache_value_new z2 (cv_expire v) (cv_stale v)"
    let ?F = "on_l1 (be_write (xb_l1 C) k ?u1)" and ?G = "on_l2 (be_write (xb_l2 C) k ?u2)"
    obtain ts ly' where e: "write_execute (xb_write_policy C) (sched st) ?F ?G (co_layers st) = (r, ts, ly')"
      and st': "st' = \<lparr>co_layers = ly', co_tasks = co_tasks st @ ts\<rparr>"
      using assms(4) unfolding plain by (auto simp: Inr z with_tasks_def split: prod.splits)
    have sers: "serialize_layer (xb_format C) L1 ?x ctx = Ok (cv_data ?u1)" "serialize_layer (xb_format C) L2 ?x ctx = Ok (cv_data ?u2)"
      using ser by (simp_all add: cache_value_new_def)
    have ly: "layers_agree (co_layers st) h" using assms(1) unfolding agrees_def by blast
    note keep = writes_insert [OF assms(2) sers]
    show ?thesis
    proof (cases "xb_write_policy C = SequentialWrite")
      case True
      then have "layers_agree ly' (note_set k ?x r h) \<and> ts = []"
        using sequential_agrees [OF ly assms(2) sers] e by (simp add: write_execute_def)
      moreover have "writes_in_time C" using True by (simp add: writes_in_time_def)
      ultimately show ?thesis
        using assms(1,3) True task_safe_mono unfolding agrees_def st' note_layered_set_def by auto
    next
      case False
      have k: "layers_agree ly' ?h \<and> snd ` set ts \<subseteq> {\<lambda>s. snd (?F s), \<lambda>s. snd (?G s)}
          \<and> (ts \<noteq> [] \<longrightarrow> xb_write_policy C = RaceWrite OffloadLoser)"
        using write_execute_keeps [where P = "\<lambda>ly. layers_agree ly ?h" and F = ?F and G = ?G and st = "co_layers st"
            and p = "xb_write_policy C" and sch = "sched st"] layers_agree_mono [OF ly note_set_le(1)] keep e
        by simp
      have "task_safe ?h t" if t: "t \<in> snd ` set ts" for t
      proof -
        have late: "\<not> writes_in_time C" using k t by (auto simp: writes_in_time_def)
        have "t = (\<lambda>s. snd (?F s)) \<or> t = (\<lambda>s. snd (?G s))" using k t by auto
        moreover have "?x \<in> h' k" if "?h \<le> h'" for h' using le_funD [OF that, of k] by auto
        ultimately show ?thesis using keep late unfolding task_safe_def by metis
      qed
      moreover have "\<forall>t \<in> snd ` set (co_tasks st). task_safe ?h t"
        using agrees_mono [OF assms(1) note_set_le(1), of k ?x] unfolding agrees_def by blast
      ultimately have "agrees st' ?h" using k unfolding agrees_def st' by (auto simp: image_Un)
      then show ?thesis using False assms(3) by (simp add: note_layered_set_def)
    qed
  qed
qed

lemma delete_agrees:
  assumes "agrees st h" "okey k" "composition_delete sched C k ctx st = (r, st')"
  shows "agrees st' (note_layered_delete C k st h)"
proof -
  obtain r1 s1 r2 s2 where rm: "be_remove (xb_l1 C) k (ly_l1 (co_layers st)) = (r1, s1)" "be_remove (xb_l2 C) k (ly_l2 (co_layers st)) = (r2, s2)"
    by fastforce
  have st': "st' = st\<lparr>co_layers := (co_layers st)\<lparr>ly_l1 := s1, ly_l2 := s2\<rparr>\<rparr>"
    using assms(3) rm delete1 delete2
    by (cases "sc_first (sched st)")
       (auto simp: composition_delete_def direct_def join_both_def on_l1_def on_l2_def cache_delete_def)
  have ly: "store_agrees inv1 view1 (encodes (xb_format C) L1) (ly_l1 (co_layers st)) h"
    "store_agrees inv2 view2 (encodes (xb_format C) L2) (ly_l2 (co_layers st)) h"
    using assms(1) unfolding agrees_def layers_agree_def by auto
  note a1 = l1.remove_agrees [OF assms(2) ly(1) rm(1)] and a2 = l2.remove_agrees [OF assms(2) ly(2) rm(2)]
  show ?thesis
    using a1 a2 assms(1) rm task_safe_mono
    by (auto simp: st' agrees_def layers_agree_def note_layered_delete_def both_removed_def)
qed

lemma history_agrees: "layered_history C okey inv1 view1 inv2 view2 st h \<Longrightarrow> agrees st h"
proof (induction rule: layered_history.induct)
  case (layered_start s1 s2)
  then show ?case by (simp add: agrees_def layers_agree_def store_agrees_def)
next
  case (layered_get st h k sched ctx r st')
  then show ?case using get_agrees(1) [of st h k sched ctx "fst r" "snd r"] by simp
next
  case (layered_set st h k sched v ctx r ctx' st')
  then show ?case using refill_agrees normal_set_agrees by (cases "ctx_read_mode ctx") auto
qed (auto intro: delete_agrees task_agrees loss_agrees)

lemma layered_get_sound:
  "layered_history C okey inv1 view1 inv2 view2 st h \<Longrightarrow> okey k
   \<Longrightarrow> composition_get sched C k ctx st = ((Ok (Some v), ctx'), st') \<Longrightarrow> cv_data v \<in> h k"
  using get_agrees(2) history_agrees by blast

end

end
