(* ===== verification/Store_Moka.thy ===== *)
theory Store_Moka
  imports Backend
begin

text \<open>
  The in-memory store (hitbox-moka): its builder (builder.rs), the expiry it computes for moka, the
  weigher, and the three raw operations (backend.rs).  Moka's cache is a parameter: it is built
  from the settings the code passes, and read, written and emptied through its operations.
\<close>

section \<open>Expiry and weight\<close>

text \<open>\<open>TimeDelta::num_milliseconds\<close> truncates towards zero.\<close>

definition num_milliseconds :: "int \<Rightarrow> int" where
  "num_milliseconds d = (if 0 \<le> d then d div 1000000 else - ((- d) div 1000000))"

definition calculate_ttl :: "time \<Rightarrow> 'v cache_value \<Rightarrow> duration option" where
  "calculate_ttl now v =
     map_option (\<lambda>expiration.
       let millis = num_milliseconds (expiration - now) in
       if millis \<le> 0 then 0 else nat millis * 1000000) (cv_expire v)"

definition expire_after_create :: "time \<Rightarrow> cache_key \<Rightarrow> 'v cache_value \<Rightarrow> duration option" where
  "expire_after_create now key v = calculate_ttl now v"

definition expire_after_update ::
  "time \<Rightarrow> cache_key \<Rightarrow> 'v cache_value \<Rightarrow> duration option \<Rightarrow> duration option" where
  "expire_after_update now key v duration_until_expiry = calculate_ttl now v"

definition byte_weigher :: "nat \<Rightarrow> nat \<Rightarrow> nat \<Rightarrow> nat \<Rightarrow> cache_key \<Rightarrow> bytes cache_value \<Rightarrow> 32 word" where
  "byte_weigher usize_size inner_size part_size value_size key v =
     word_of_nat (min (cache_key_memory_size usize_size inner_size part_size key + value_memory_size value_size v) (2 ^ 32 - 1))"

section \<open>Builder\<close>

datatype capacity = NoCapacity | EntryCapacity nat | ByteCapacity nat

datatype eviction_policy = TinyLfu | Lru

record 'a moka_builder =
  mb_capacity :: capacity
  mb_key_format :: cache_key_format
  mb_format :: "'a format"
  mb_compressor :: compressor
  mb_label :: backend_label
  mb_eviction :: "eviction_policy option"

text \<open>The default serializer is the JSON format, at the type of the cached values.\<close>

definition moka_builder_new :: "'a serde \<Rightarrow> 'a moka_builder" where
  "moka_builder_new json =
     \<lparr>mb_capacity = NoCapacity, mb_key_format = BitcodeKeys, mb_format = json_format json,
      mb_compressor = passthrough_compressor, mb_label = BackendLabel ''moka'', mb_eviction = None\<rparr>"

definition mb_max_entries :: "nat \<Rightarrow> 'a moka_builder \<Rightarrow> 'a moka_builder" where
  "mb_max_entries n b = b\<lparr>mb_capacity := EntryCapacity n\<rparr>"

definition mb_max_bytes :: "nat \<Rightarrow> 'a moka_builder \<Rightarrow> 'a moka_builder" where
  "mb_max_bytes n b = b\<lparr>mb_capacity := ByteCapacity n\<rparr>"

definition mb_set_label :: "backend_label \<Rightarrow> 'a moka_builder \<Rightarrow> 'a moka_builder" where
  "mb_set_label l b = b\<lparr>mb_label := l\<rparr>"

definition mb_set_key_format :: "cache_key_format \<Rightarrow> 'a moka_builder \<Rightarrow> 'a moka_builder" where
  "mb_set_key_format f b = b\<lparr>mb_key_format := f\<rparr>"

definition mb_set_eviction :: "eviction_policy \<Rightarrow> 'a moka_builder \<Rightarrow> 'a moka_builder" where
  "mb_set_eviction p b = b\<lparr>mb_eviction := Some p\<rparr>"

definition mb_value_format :: "'b format \<Rightarrow> 'a moka_builder \<Rightarrow> 'b moka_builder" where
  "mb_value_format F b =
     \<lparr>mb_capacity = mb_capacity b, mb_key_format = mb_key_format b, mb_format = F,
      mb_compressor = mb_compressor b, mb_label = mb_label b, mb_eviction = mb_eviction b\<rparr>"

definition mb_set_compressor :: "compressor \<Rightarrow> 'a moka_builder \<Rightarrow> 'a moka_builder" where
  "mb_set_compressor C b = b\<lparr>mb_compressor := C\<rparr>"

text \<open>What \<open>build\<close> asks moka for: a capacity, whether entries weigh their bytes, and the policy.
  There is no \<open>build\<close> without a capacity.\<close>

record moka_settings =
  ms_capacity :: nat
  ms_weigh_bytes :: bool
  ms_eviction :: eviction_policy

definition moka_settings_of :: "'a moka_builder \<Rightarrow> moka_settings option" where
  "moka_settings_of b =
     (case mb_capacity b of
        EntryCapacity n \<Rightarrow>
          Some \<lparr>ms_capacity = n, ms_weigh_bytes = False,
                ms_eviction = (case mb_eviction b of Some p \<Rightarrow> p | None \<Rightarrow> TinyLfu)\<rparr>
      | ByteCapacity n \<Rightarrow>
          Some \<lparr>ms_capacity = n, ms_weigh_bytes = True,
                ms_eviction = (case mb_eviction b of Some p \<Rightarrow> p | None \<Rightarrow> Lru)\<rparr>
      | NoCapacity \<Rightarrow> None)"

section \<open>The store\<close>

text \<open>Moka's cache; \<open>mo_now\<close> is what \<open>Utc::now\<close> reads.  An insertion is given the time the expiry callback asks for, which is
  \<open>expire_after_create\<close> or \<open>expire_after_update\<close>: they agree.\<close>

record 'c moka_ops =
  mo_now :: "'c \<Rightarrow> time"
  mo_get :: "cache_key \<Rightarrow> 'c \<Rightarrow> bytes cache_value option \<times> 'c"
  mo_insert :: "cache_key \<Rightarrow> bytes cache_value \<Rightarrow> duration option \<Rightarrow> 'c \<Rightarrow> 'c"
  mo_remove :: "cache_key \<Rightarrow> 'c \<Rightarrow> bytes cache_value option \<times> 'c"

definition moka_read ::
  "'c moka_ops \<Rightarrow> cache_key \<Rightarrow> 'c \<Rightarrow> (bytes cache_value option, backend_error) result \<times> 'c" where
  "moka_read M key c = (case mo_get M key c of (v, c) \<Rightarrow> (Ok v, c))"

definition moka_write ::
  "'c moka_ops \<Rightarrow> cache_key \<Rightarrow> bytes cache_value \<Rightarrow> 'c \<Rightarrow> (unit, backend_error) result \<times> 'c" where
  "moka_write M key v c = (Ok (), mo_insert M key v (expire_after_create (mo_now M c) key v) c)"

definition moka_remove :: "'c moka_ops \<Rightarrow> cache_key \<Rightarrow> 'c \<Rightarrow> (delete_status, backend_error) result \<times> 'c" where
  "moka_remove M key c =
     (case mo_remove M key c of
        (Some _, c) \<Rightarrow> (Ok (Deleted 1), c)
      | (None, c) \<Rightarrow> (Ok Missing, c))"

definition moka_backend :: "'c moka_ops \<Rightarrow> 'a moka_builder \<Rightarrow> ('c, 'a) cache_backend" where
  "moka_backend M b =
     dyn_backend
       \<lparr>be_read = moka_read M, be_write = moka_write M, be_remove = moka_remove M,
        be_label = mb_label b, be_format = mb_format b, be_compressor = mb_compressor b\<rparr>"

lemma moka_backend_sel [simp, store_simps]:
  "be_read (moka_backend M b) = moka_read M" "be_write (moka_backend M b) = moka_write M"
  "be_remove (moka_backend M b) = moka_remove M" "be_label (moka_backend M b) = mb_label b"
  "be_format (moka_backend M b) = mb_format b" "be_compressor (moka_backend M b) = mb_compressor b"
  by (simp_all add: moka_backend_def dyn_backend_def)

section \<open>What moka promises\<close>

text \<open>An entry is the value inserted last and not removed, evicted or expired since.  \<open>held\<close> is the
  content, with the deadline that the code asked moka for when it inserted the entry, by the clock it read then; nothing is
  said about when moka lets go of the entry.\<close>

definition moka_content ::
  "('c \<Rightarrow> cache_key \<Rightarrow> (bytes cache_value \<times> time option) option) \<Rightarrow> 'c \<Rightarrow> cache_key \<Rightarrow> bytes option" where
  "moka_content held c k = map_option (\<lambda>(v, _). cv_data v) (held c k)"

locale moka_laws =
  fixes M :: "'c moka_ops" and held :: "'c \<Rightarrow> cache_key \<Rightarrow> (bytes cache_value \<times> time option) option"
  assumes get_law: "mo_get M k c = (r, c') \<Longrightarrow>
      held c' \<subseteq>\<^sub>m held c \<and> (\<forall>v. r = Some v \<longrightarrow> (\<exists>d. held c k = Some (v, d)))"
    and insert_law: "held (mo_insert M k v ttl c) \<subseteq>\<^sub>m (held c)(k \<mapsto> (v, map_option (\<lambda>d. mo_now M c + int d) ttl))"
    and remove_law: "mo_remove M k c = (r, c') \<Longrightarrow> held c' \<subseteq>\<^sub>m (held c)(k := None)"
begin

lemma content_le: "held c' \<subseteq>\<^sub>m held c \<Longrightarrow> moka_content held c' \<subseteq>\<^sub>m moka_content held c"
  unfolding map_le_def moka_content_def by (auto simp: dom_def)

lemma removed:
  assumes "mo_remove M k c = (r, c')"
  shows "held c' \<subseteq>\<^sub>m held c" "held c' k = None"
proof -
  have h: "held c' \<subseteq>\<^sub>m (held c)(k := None)" using remove_law [OF assms] by blast
  show "held c' k = None" using h unfolding map_le_def by (metis domIff fun_upd_same)
  then show "held c' \<subseteq>\<^sub>m held c" using h unfolding map_le_def by (metis domIff fun_upd_other)
qed

lemma store: "cache_store (moka_backend M b) (\<lambda>k. True) (\<lambda>c. True) (moka_content held)"
proof
  fix k c r c' assume "be_read (moka_backend M b) k c = (r, c')"
  then show "True \<and> moka_content held c' \<subseteq>\<^sub>m moka_content held c
      \<and> (\<forall>v. r = Ok (Some v) \<longrightarrow> moka_content held c k = Some (cv_data v))"
    using get_law [of k c] content_le by (force simp: moka_read_def moka_content_def split: prod.splits)
next
  fix k u c w c' assume "be_write (moka_backend M b) k u c = (w, c')"
  then have "held c' \<subseteq>\<^sub>m (held c)(k \<mapsto> (u, map_option (\<lambda>d. mo_now M c + int d) (calculate_ttl (mo_now M c) u)))"
    using insert_law [of k u "calculate_ttl (mo_now M c) u" c] by (auto simp: moka_write_def expire_after_create_def)
  then have "moka_content held c' \<subseteq>\<^sub>m (moka_content held c)(k \<mapsto> cv_data u)"
    unfolding map_le_def moka_content_def by (auto simp: dom_def split: if_splits)
  then show "True \<and> (moka_content held c' \<subseteq>\<^sub>m (moka_content held c)(k \<mapsto> cv_data u)
      \<or> \<not> is_ok w \<and> moka_content held c' \<subseteq>\<^sub>m moka_content held c)" by blast
next
  fix k c d c' assume "be_remove (moka_backend M b) k c = (d, c')"
  then obtain r where "mo_remove M k c = (r, c')" by (auto simp: moka_remove_def split: prod.splits option.splits)
  then show "True \<and> moka_content held c' \<subseteq>\<^sub>m moka_content held c \<and> (is_ok d \<longrightarrow> moka_content held c' k = None)"
    using removed content_le by (auto simp: moka_content_def)
qed

lemma coherent:
  "lossless_format (mb_format b) \<Longrightarrow> lossless_compressor (mb_compressor b) \<Longrightarrow>
   coherent_cache (moka_backend M b) (\<lambda>k. True) (\<lambda>c. True) (moka_content held)"
  unfolding coherent_cache_def by (simp add: store value_codecI)

end

text \<open>Expiration is best effort: an entry may be read for up to \<open>slack\<close> after its deadline, which covers a late
  eviction and the difference between moka's own clock and \<open>Utc::now\<close>.\<close>

locale timely_moka = moka_laws M held
  for M :: "'c moka_ops" and held :: "'c \<Rightarrow> cache_key \<Rightarrow> (bytes cache_value \<times> time option) option" +
  fixes slack :: nat
  assumes get_timely: "mo_get M k c = (Some v, c') \<Longrightarrow> held c k = Some (v, Some t) \<Longrightarrow> mo_now M c < t + int slack"

text \<open>A cache without a capacity bound that keeps those promises, reading its clock without delay, and one that serves an
  expired entry for up to a millisecond.\<close>

record ref_moka =
  rm_now :: time
  rm_held :: "cache_key \<Rightarrow> (bytes cache_value \<times> time option) option"

definition ref_moka_ops :: "ref_moka moka_ops" where
  "ref_moka_ops =
     \<lparr>mo_now = rm_now,
      mo_get = (\<lambda>k c. (case rm_held c k of
                        Some (v, Some t) \<Rightarrow> if rm_now c < t then Some v else None
                      | Some (v, None) \<Rightarrow> Some v
                      | None \<Rightarrow> None, c)),
      mo_insert = (\<lambda>k v ttl c. c\<lparr>rm_held := (rm_held c)(k \<mapsto> (v, map_option (\<lambda>d. rm_now c + int d) ttl))\<rparr>),
      mo_remove = (\<lambda>k c. (map_option fst (rm_held c k), c\<lparr>rm_held := (rm_held c)(k := None)\<rparr>))\<rparr>"

interpretation ref_moka: timely_moka ref_moka_ops rm_held 0
  by unfold_locales (auto simp: ref_moka_ops_def split: option.splits if_splits)

definition late_moka_ops :: "ref_moka moka_ops" where
  "late_moka_ops = ref_moka_ops\<lparr>mo_get := (\<lambda>k c. (case rm_held c k of
                        Some (v, Some t) \<Rightarrow> if rm_now c < t + 1000000 then Some v else None
                      | Some (v, None) \<Rightarrow> Some v
                      | None \<Rightarrow> None, c))\<rparr>"

interpretation late_moka: timely_moka late_moka_ops rm_held 1000000
  by unfold_locales (auto simp: late_moka_ops_def ref_moka_ops_def split: option.splits if_splits)

definition demo_moka :: "(ref_moka, nat) cache_backend" where
  "demo_moka = moka_backend ref_moka_ops (mb_max_entries 100 (moka_builder_new nat_serde))"

interpretation demo_moka: coherent_cache demo_moka "\<lambda>k. True" "\<lambda>c. True" "moka_content rm_held"
  unfolding demo_moka_def
  by (rule ref_moka.coherent) (simp_all add: mb_max_entries_def moka_builder_new_def lossless_formats)

section \<open>Expiry\<close>

lemma calculate_ttl_bounds:
  assumes "cv_expire v = Some e" "calculate_ttl now v = Some d"
  shows "now + int d \<le> e \<or> d = 0 \<and> e < now + 1000000" "e < now + int d + 1000000"
proof -
  let ?m = "num_milliseconds (e - now)"
  have d: "d = (if ?m \<le> 0 then 0 else nat ?m * 1000000)"
    using assms by (simp add: calculate_ttl_def Let_def)
  show "now + int d \<le> e \<or> d = 0 \<and> e < now + 1000000" "e < now + int d + 1000000"
    unfolding d num_milliseconds_def by (auto split: if_splits)
qed

text \<open>The reachable states of a moka store, with the time at which each key was last written; between operations time
  passes and entries go.\<close>

inductive moka_reach ::
  "'c moka_ops \<Rightarrow> ('c \<Rightarrow> cache_key \<Rightarrow> (bytes cache_value \<times> time option) option) \<Rightarrow> 'c \<Rightarrow> (cache_key \<Rightarrow> time) \<Rightarrow> bool"
  for M held where
  moka_start: "held c = (\<lambda>k. None) \<Longrightarrow> moka_reach M held c at"
| moka_reads: "moka_reach M held c at \<Longrightarrow> moka_read M k c = (r, c') \<Longrightarrow> moka_reach M held c' at"
| moka_writes: "moka_reach M held c at \<Longrightarrow> moka_write M k v c = (w, c') \<Longrightarrow> moka_reach M held c' (at(k := mo_now M c))"
| moka_removes: "moka_reach M held c at \<Longrightarrow> moka_remove M k c = (d, c') \<Longrightarrow> moka_reach M held c' at"
| moka_ages: "moka_reach M held c at \<Longrightarrow> held c' \<subseteq>\<^sub>m held c \<Longrightarrow> moka_reach M held c' at"

text \<open>The deadline asked for is that of the value: not after it, or after the writing of a value that was expired by then,
  and less than a millisecond before it.\<close>

definition deadline_ok :: "time \<Rightarrow> bytes cache_value \<Rightarrow> time option \<Rightarrow> bool" where
  "deadline_ok written v d \<longleftrightarrow>
     (case cv_expire v of
        None \<Rightarrow> d = None
      | Some e \<Rightarrow> (\<exists>t. d = Some t \<and> t \<le> max e written \<and> e < t + 1000000))"

definition deadlines_ok :: "(cache_key \<Rightarrow> (bytes cache_value \<times> time option) option) \<Rightarrow> (cache_key \<Rightarrow> time) \<Rightarrow> bool" where
  "deadlines_ok entries at \<longleftrightarrow> (\<forall>k v d. entries k = Some (v, d) \<longrightarrow> deadline_ok (at k) v d)"

lemma deadlines_le: "deadlines_ok entries at \<Longrightarrow> entries' \<subseteq>\<^sub>m entries \<Longrightarrow> deadlines_ok entries' at"
  unfolding deadlines_ok_def map_le_def by (metis domI)

lemma calculate_ttl_deadline: "deadline_ok now v (map_option (\<lambda>d. now + int d) (calculate_ttl now v))"
proof (cases "cv_expire v")
  case None
  then show ?thesis by (simp add: deadline_ok_def calculate_ttl_def)
next
  case (Some e)
  then obtain n where n: "calculate_ttl now v = Some n" by (simp add: calculate_ttl_def)
  show ?thesis using calculate_ttl_bounds [OF Some n] Some n by (auto simp: deadline_ok_def)
qed

context moka_laws
begin

lemma deadlines_write:
  assumes "deadlines_ok (held c) at" "moka_write M k u c = (w, c')"
  shows "deadlines_ok (held c') (at(k := mo_now M c))"
proof -
  let ?d = "map_option (\<lambda>d. mo_now M c + int d) (calculate_ttl (mo_now M c) u)"
  have c': "c' = mo_insert M k u (calculate_ttl (mo_now M c) u) c"
    using assms(2) by (simp add: moka_write_def expire_after_create_def)
  have "deadlines_ok ((held c)(k \<mapsto> (u, ?d))) (at(k := mo_now M c))"
    using assms(1) calculate_ttl_deadline by (simp add: deadlines_ok_def)
  then show ?thesis using insert_law [of k u "calculate_ttl (mo_now M c) u" c, folded c'] by (rule deadlines_le)
qed

lemma reach_deadlines: "moka_reach M held c at \<Longrightarrow> deadlines_ok (held c) at"
proof (induction rule: moka_reach.induct)
  case (moka_start c at)
  then show ?case by (simp add: deadlines_ok_def)
next
  case (moka_reads c at k r c')
  then show ?case using get_law [of k c] by (auto simp: moka_read_def intro: deadlines_le split: prod.splits)
next
  case (moka_writes c at k v w c')
  then show ?case by (blast intro: deadlines_write)
next
  case (moka_removes c at k d c')
  then obtain r where "mo_remove M k c = (r, c')" by (auto simp: moka_remove_def split: prod.splits option.splits)
  then show ?case using moka_removes removed(1) by (blast intro: deadlines_le)
next
  case (moka_ages c at c')
  then show ?case by (blast intro: deadlines_le)
qed

end

lemma slack_bound: "x < t + int n \<Longrightarrow> t \<le> y \<Longrightarrow> x < y + int n" by simp

context timely_moka
begin

lemma served_in_time:
  assumes "moka_reach M held c at" "moka_read M k c = (Ok (Some v), c')" "cv_expire v = Some e"
  shows "mo_now M c < max e (at k) + int slack"
proof -
  have g: "mo_get M k c = (Some v, c')" using assms(2) by (auto simp: moka_read_def split: prod.splits)
  then obtain d where d: "held c k = Some (v, d)" using get_law by blast
  then obtain t where t: "d = Some t" "t \<le> max e (at k)"
    using reach_deadlines [OF assms(1)] assms(3) unfolding deadlines_ok_def deadline_ok_def by fastforce
  show ?thesis using get_timely [OF g d [unfolded t(1)]] t(2) by (rule slack_bound)
qed

end

section \<open>Properties\<close>

text \<open>C28. The in-memory store asks moka to let go of a value in time, and so never serves a value longer than moka itself is late.
  Whatever was written, read, removed and evicted before, the deadline of every entry is not after the expiry of its value
  (or not after its writing, if it was expired by then), less than a millisecond before that expiry, and absent when the value has none;
  it is recomputed when an entry is overwritten.  So, when moka reads an entry up to \<open>slack\<close> after its deadline (expiration is
  documented as best effort, and moka's clock is not the one values expire by), a value that a read returns is expired for less than
  \<open>slack\<close>, or was written expired less than \<open>slack\<close> ago; with no slack, and a clock that did not go back since the writing, it is not expired.\<close>

theorem moka_never_serves_expired:
  assumes "timely_moka M held slack" "moka_reach M held c at"
  shows "(\<forall>k v d. held c k = Some (v, d) \<longrightarrow>
        (case cv_expire v of None \<Rightarrow> d = None | Some e \<Rightarrow> (\<exists>t. d = Some t \<and> t \<le> max e (at k) \<and> e < t + 1000000)))
    \<and> (\<forall>k v c' e. moka_read M k c = (Ok (Some v), c') \<longrightarrow> cv_expire v = Some e \<longrightarrow>
        mo_now M c < max e (at k) + int slack
        \<and> (slack = 0 \<longrightarrow> at k \<le> mo_now M c \<longrightarrow> cache_state_of (mo_now M c) v \<noteq> Expired v))"
proof (intro conjI allI impI)
  fix k v d assume "held c k = Some (v, d)"
  then show "case cv_expire v of None \<Rightarrow> d = None | Some e \<Rightarrow> (\<exists>t. d = Some t \<and> t \<le> max e (at k) \<and> e < t + 1000000)"
    using moka_laws.reach_deadlines [OF timely_moka.axioms(1) [OF assms(1)] assms(2)]
    by (simp add: deadlines_ok_def deadline_ok_def)
next
  fix k v c' e assume r: "moka_read M k c = (Ok (Some v), c')" "cv_expire v = Some e"
  show b: "mo_now M c < max e (at k) + int slack" by (rule timely_moka.served_in_time [OF assms r])
  assume "slack = 0" "at k \<le> mo_now M c"
  then show "cache_state_of (mo_now M c) v \<noteq> Expired v" using b r(2) by (simp add: cache_state_of_def)
qed

theorem moka_never_serves_expired_witness:
  "let k = cache_key_from_str ''a'' ''b''; v = cache_value_new [1 :: byte] (Some 5000000) None;
       c = (snd (moka_write late_moka_ops k v \<lparr>rm_now = 0, rm_held = (\<lambda>k. None)\<rparr>))\<lparr>rm_now := 5500000\<rparr>
   in moka_read late_moka_ops k c = (Ok (Some v), c) \<and> cache_state_of (rm_now c) v = Expired v \<and> rm_now c < max 5000000 0 + int 1000000"
proof -
  let ?k = "cache_key_from_str ''a'' ''b''" and ?v = "cache_value_new [1 :: byte] (Some 5000000) None"
  let ?init = "\<lparr>rm_now = 0, rm_held = (\<lambda>k. None)\<rparr>"
  let ?w = "snd (moka_write late_moka_ops ?k ?v ?init)"
  let ?c = "?w\<lparr>rm_now := 5500000\<rparr>"
  have n: "mo_now late_moka_ops = rm_now" by (simp add: late_moka_ops_def ref_moka_ops_def)
  have "moka_reach late_moka_ops rm_held ?w ((\<lambda>k. 0)(?k := mo_now late_moka_ops ?init))"
    by (rule moka_writes [OF moka_start [of rm_held ?init], of late_moka_ops ?k ?v "fst (moka_write late_moka_ops ?k ?v ?init)"]) simp_all
  then have r: "moka_reach late_moka_ops rm_held ?c ((\<lambda>k. 0)(?k := mo_now late_moka_ops ?init))"
    by (rule moka_ages) simp
  have g: "moka_read late_moka_ops ?k ?c = (Ok (Some ?v), ?c)"
    by (simp add: moka_read_def moka_write_def late_moka_ops_def ref_moka_ops_def expire_after_create_def calculate_ttl_def
        num_milliseconds_def cache_value_new_def)
  have "cv_expire ?v = Some 5000000" by (simp add: cache_value_new_def)
  with moka_never_serves_expired [OF late_moka.timely_moka_axioms r] g
  have "rm_now ?c < max 5000000 (((\<lambda>k. 0)(?k := mo_now late_moka_ops ?init)) ?k) + int 1000000" unfolding n by blast
  moreover have "cache_state_of (rm_now ?c) ?v = Expired ?v" by (simp add: cache_state_of_def cache_value_new_def)
  ultimately show ?thesis using g by (simp add: Let_def n)
qed

text \<open>Through the in-memory store, a typed read returns only what the last writes put under
  exactly that key: after a history of gets, sets and deletes on any keys, with entries lost at
  any time, a get that hits returns a value that the last successful set under its key stored, or
  a set that failed since then, and never one from before a successful delete.\<close>

lemma moka_cache_returns_last_set:
  assumes "moka_laws M held" "lossless_format (mb_format b)" "lossless_compressor (mb_compressor b)"
    and "cache_history (moka_backend M b) (\<lambda>k. True) (\<lambda>c. True) (moka_content held) c h"
    and "cache_get (moka_backend M b) k ctx c = ((Ok (Some v), ctx'), c')"
  shows "cv_data v \<in> h k"
  using coherent_cache.history_get_sound [OF moka_laws.coherent [OF assms(1-3)] assms(4) _ assms(5)] by simp

theorem moka_cache_returns_last_set_witness:
  "let k = cache_key_from_str ''a'' ''b'';
       c = snd (cache_set demo_moka k (cache_value_new 7 None None) (boxed cache_context_default) \<lparr>rm_now = 0, rm_held = (\<lambda>k. None)\<rparr>)
   in \<exists>ctx c'. cache_get demo_moka k (boxed cache_context_default) c = ((Ok (Some (cache_value_new 7 None None)), ctx), c')
      \<and> cv_data (cache_value_new (7::nat) None None) \<in> note_set k 7 (Ok ()) (\<lambda>k. {}) k"
proof -
  let ?k = "cache_key_from_str ''a'' ''b''" and ?v = "cache_value_new (7::nat) None None"
  let ?init = "\<lparr>rm_now = 0, rm_held = (\<lambda>k. None)\<rparr>"
  let ?c = "snd (cache_set demo_moka ?k ?v (boxed cache_context_default) ?init)"
  note defs = demo_moka_def cache_set_def cache_get_def moka_read_def moka_write_def ref_moka_ops_def
    mb_max_entries_def moka_builder_new_def json_format_def passthrough_compressor_def nat_serde_def
    expire_after_create_def calculate_ttl_def cache_value_new_def into_parts_def cache_meta_new_def
    cache_context_default_def
  have s: "cache_set demo_moka ?k ?v (boxed cache_context_default) ?init = ((Ok (), boxed cache_context_default), ?c)"
    by (simp add: defs)
  have g: "cache_get demo_moka ?k (boxed cache_context_default) ?c
      = ((Ok (Some ?v), ctx_set_source (SrcBackend (BackendLabel ''moka'')) (ctx_set_status Hit (boxed cache_context_default))), ?c)"
    by (simp add: defs)
  have h: "cache_history demo_moka (\<lambda>k. True) (\<lambda>c. True) (moka_content rm_held) ?c (note_set ?k (cv_data ?v) (Ok ()) (\<lambda>k. {}))"
    by (rule history_set [OF history_start _ _ s]) (simp_all add: moka_content_def fun_eq_iff cache_context_default_def)
  show ?thesis
    using moka_cache_returns_last_set [OF ref_moka.moka_laws_axioms _ _ h [unfolded demo_moka_def] g [unfolded demo_moka_def]] g
    by (simp add: mb_max_entries_def moka_builder_new_def lossless_formats Let_def)
qed

end
