(* ===== verification/Store_Redis.thy ===== *)
theory Store_Redis
  imports Backend
begin

text \<open>
  The Redis store (hitbox-redis/src/backend.rs): its configuration and builder, the connection made
  on first use, and the three raw operations as the commands they send and the replies they read.
  The client library with the server behind it is a parameter: it opens a connection and runs a
  pipeline of commands.
\<close>

section \<open>Configuration\<close>

text \<open>A 32-bit float is its bit pattern; \<open>0x40000000\<close> is 2.0.\<close>

type_synonym float_bits = "32 word"

record single_config =
  si_url :: string
  si_exponent_base :: float_bits

record cluster_config =
  cl_nodes :: "string list"
  cl_read_from_replicas :: bool

datatype connection_mode = SingleNode single_config | Cluster cluster_config

definition single_config_new :: "string \<Rightarrow> single_config" where
  "single_config_new url = \<lparr>si_url = url, si_exponent_base = 0x40000000\<rparr>"

definition cluster_config_new :: "string list \<Rightarrow> cluster_config" where
  "cluster_config_new nodes = \<lparr>cl_nodes = nodes, cl_read_from_replicas = False\<rparr>"

definition mode_single :: "string \<Rightarrow> connection_mode" where
  "mode_single url = SingleNode (single_config_new url)"

definition mode_cluster :: "string list \<Rightarrow> connection_mode" where
  "mode_cluster nodes = Cluster (cluster_config_new nodes)"

definition mode_exponent_base :: "float_bits \<Rightarrow> connection_mode \<Rightarrow> connection_mode" where
  "mode_exponent_base base m =
     (case m of SingleNode c \<Rightarrow> SingleNode (c\<lparr>si_exponent_base := base\<rparr>) | Cluster c \<Rightarrow> Cluster c)"

definition mode_read_from_replicas :: "connection_mode \<Rightarrow> connection_mode" where
  "mode_read_from_replicas m =
     (case m of Cluster c \<Rightarrow> Cluster (c\<lparr>cl_read_from_replicas := True\<rparr>) | SingleNode c \<Rightarrow> SingleNode c)"

record 'a redis_builder =
  rb_mode :: "connection_mode option"
  rb_format :: "'a format"
  rb_key_format :: cache_key_format
  rb_compressor :: compressor
  rb_label :: backend_label
  rb_connection_timeout :: "duration option"
  rb_response_timeout :: "duration option"
  rb_retries :: "nat option"
  rb_username :: "string option"
  rb_password :: "string option"

definition redis_builder_default :: "'a serde \<Rightarrow> 'a redis_builder" where
  "redis_builder_default bincode =
     \<lparr>rb_mode = None, rb_format = bincode_format bincode, rb_key_format = cache_key_format_default,
      rb_compressor = passthrough_compressor, rb_label = BackendLabel ''redis'',
      rb_connection_timeout = None, rb_response_timeout = None, rb_retries = None,
      rb_username = None, rb_password = None\<rparr>"

definition rb_connection :: "connection_mode \<Rightarrow> 'a redis_builder \<Rightarrow> 'a redis_builder" where
  "rb_connection m b = b\<lparr>rb_mode := Some m\<rparr>"

definition rb_set_connection_timeout :: "duration \<Rightarrow> 'a redis_builder \<Rightarrow> 'a redis_builder" where
  "rb_set_connection_timeout t b = b\<lparr>rb_connection_timeout := Some t\<rparr>"

definition rb_set_response_timeout :: "duration \<Rightarrow> 'a redis_builder \<Rightarrow> 'a redis_builder" where
  "rb_set_response_timeout t b = b\<lparr>rb_response_timeout := Some t\<rparr>"

definition rb_set_retries :: "nat \<Rightarrow> 'a redis_builder \<Rightarrow> 'a redis_builder" where
  "rb_set_retries n b = b\<lparr>rb_retries := Some n\<rparr>"

definition rb_set_username :: "string \<Rightarrow> 'a redis_builder \<Rightarrow> 'a redis_builder" where
  "rb_set_username u b = b\<lparr>rb_username := Some u\<rparr>"

definition rb_set_password :: "string \<Rightarrow> 'a redis_builder \<Rightarrow> 'a redis_builder" where
  "rb_set_password p b = b\<lparr>rb_password := Some p\<rparr>"

definition rb_set_key_format :: "cache_key_format \<Rightarrow> 'a redis_builder \<Rightarrow> 'a redis_builder" where
  "rb_set_key_format f b = b\<lparr>rb_key_format := f\<rparr>"

definition rb_set_label :: "backend_label \<Rightarrow> 'a redis_builder \<Rightarrow> 'a redis_builder" where
  "rb_set_label l b = b\<lparr>rb_label := l\<rparr>"

definition rb_set_compressor :: "compressor \<Rightarrow> 'a redis_builder \<Rightarrow> 'a redis_builder" where
  "rb_set_compressor C b = b\<lparr>rb_compressor := C\<rparr>"

definition rb_value_format :: "'b format \<Rightarrow> 'a redis_builder \<Rightarrow> 'b redis_builder" where
  "rb_value_format F b =
     \<lparr>rb_mode = rb_mode b, rb_format = F, rb_key_format = rb_key_format b, rb_compressor = rb_compressor b,
      rb_label = rb_label b, rb_connection_timeout = rb_connection_timeout b,
      rb_response_timeout = rb_response_timeout b, rb_retries = rb_retries b,
      rb_username = rb_username b, rb_password = rb_password b\<rparr>"

datatype redis_error = RedisErr string | MissingConnectionMode

definition redis_error_into_backend :: "redis_error \<Rightarrow> backend_error" where
  "redis_error_into_backend e =
     InternalError (BoxMsg (case e of
        RedisErr m \<Rightarrow> ''Redis backend error: '' @ m
      | MissingConnectionMode \<Rightarrow> ''Connection mode not specified. Call .connection() before .build()''))"

record 'a redis_config =
  rg_mode :: connection_mode
  rg_connection_timeout :: "duration option"
  rg_response_timeout :: "duration option"
  rg_retries :: "nat option"
  rg_username :: "string option"
  rg_password :: "string option"
  rg_format :: "'a format"
  rg_key_format :: cache_key_format
  rg_compressor :: compressor
  rg_label :: backend_label

definition redis_build :: "'a redis_builder \<Rightarrow> ('a redis_config, redis_error) result" where
  "redis_build b =
     (case rb_mode b of
        None \<Rightarrow> Err MissingConnectionMode
      | Some mode \<Rightarrow>
          Ok \<lparr>rg_mode = mode, rg_connection_timeout = rb_connection_timeout b,
              rg_response_timeout = rb_response_timeout b, rg_retries = rb_retries b,
              rg_username = rb_username b, rg_password = rb_password b, rg_format = rb_format b,
              rg_key_format = rb_key_format b, rg_compressor = rb_compressor b, rg_label = rb_label b\<rparr>)"

section \<open>Connection\<close>

text \<open>What the client library is asked to connect to; an absent option leaves its default.\<close>

datatype connect_request =
    ConnectSingle string "string option" "string option" float_bits
      "duration option" "duration option" "nat option"
  | ConnectCluster "string list" bool "string option" "string option"
      "duration option" "duration option" "32 word option"

definition connect_request_of :: "'a redis_config \<Rightarrow> connect_request" where
  "connect_request_of g =
     (case rg_mode g of
        SingleNode c \<Rightarrow>
          ConnectSingle (si_url c) (rg_username g) (rg_password g) (si_exponent_base c)
            (rg_connection_timeout g) (rg_response_timeout g) (rg_retries g)
      | Cluster c \<Rightarrow>
          ConnectCluster (cl_nodes c) (cl_read_from_replicas c) (rg_username g) (rg_password g)
            (rg_connection_timeout g) (rg_response_timeout g) (map_option word_of_nat (rg_retries g)))"

datatype redis_cmd =
    HMGET bytes "string list"
  | PTTL bytes
  | HSET bytes "(string \<times> bytes) list"
  | EXPIRE bytes nat
  | DEL bytes

datatype redis_reply = Bulks "bytes option list" | IntReply int

record 'r redis_ops =
  rd_now :: "'r \<Rightarrow> time"
  rd_connect :: "connect_request \<Rightarrow> 'r \<Rightarrow> (unit, string) result \<times> 'r"
  rd_pipeline :: "redis_cmd list \<Rightarrow> 'r \<Rightarrow> (redis_reply list, string) result \<times> 'r"

text \<open>The server and the once-cell that holds the connection.\<close>

record 'r redis_world =
  rw_connected :: bool
  rw_server :: 'r

definition get_connection :: "'r redis_ops \<Rightarrow> 'a redis_config \<Rightarrow> 'r redis_world \<Rightarrow> (unit, redis_error) result \<times> 'r redis_world" where
  "get_connection R g w =
     (if rw_connected w then (Ok (), w)
      else case rd_connect R (connect_request_of g) (rw_server w) of
             (Inr _, s) \<Rightarrow> (Ok (), \<lparr>rw_connected = True, rw_server = s\<rparr>)
           | (Inl e, s) \<Rightarrow> (Err (RedisErr e), w\<lparr>rw_server := s\<rparr>))"

definition query :: "'r redis_ops \<Rightarrow> redis_cmd list \<Rightarrow> 'r redis_world \<Rightarrow> (redis_reply list, redis_error) result \<times> 'r redis_world" where
  "query R cmds w =
     (case rd_pipeline R cmds (rw_server w) of (r, s) \<Rightarrow> (map_err RedisErr r, w\<lparr>rw_server := s\<rparr>))"

text \<open>A connection and the bytes of the key, before any command.\<close>

definition with_key ::
  "column_codec \<Rightarrow> urlencoding \<Rightarrow> 'r redis_ops \<Rightarrow> 'a redis_config \<Rightarrow> cache_key
   \<Rightarrow> (bytes \<Rightarrow> 'r redis_world \<Rightarrow> ('b, backend_error) result \<times> 'r redis_world)
   \<Rightarrow> 'r redis_world \<Rightarrow> ('b, backend_error) result \<times> 'r redis_world" where
  "with_key cc U R g key f w =
     (case get_connection R g w of
        (Inl e, w) \<Rightarrow> (Err (redis_error_into_backend e), w)
      | (Inr _, w) \<Rightarrow>
          (case key_serialize cc U (rg_key_format g) key of
             Inl e \<Rightarrow> (Err (FormatErr e), w)
           | Inr cache_key \<Rightarrow> f cache_key w))"

section \<open>Operations\<close>

text \<open>The typed decoding of the replies to \<open>HMGET\<close> and \<open>PTTL\<close>.\<close>

definition decode_read :: "redis_reply list \<Rightarrow> (bytes option \<times> int option \<times> int, redis_error) result" where
  "decode_read replies =
     (case replies of
        [Bulks [data, stale], IntReply pttl] \<Rightarrow>
          (case stale of
             None \<Rightarrow> Ok (data, None, pttl)
           | Some s \<Rightarrow>
               (case parse_i64 (str_of_bytes s) of
                  Some ms \<Rightarrow> Ok (data, Some ms, pttl)
                | None \<Rightarrow> Err (RedisErr ''type conversion'')))
      | _ \<Rightarrow> Err (RedisErr ''type conversion''))"

definition redis_read_cmds :: "bytes \<Rightarrow> redis_cmd list" where
  "redis_read_cmds k = [HMGET k [''d'', ''s''], PTTL k]"

definition redis_read ::
  "column_codec \<Rightarrow> urlencoding \<Rightarrow> 'r redis_ops \<Rightarrow> 'a redis_config \<Rightarrow> cache_key \<Rightarrow> 'r redis_world
   \<Rightarrow> (bytes cache_value option, backend_error) result \<times> 'r redis_world" where
  "redis_read cc U R g key w =
     with_key cc U R g key (\<lambda>cache_key w.
       case query R (redis_read_cmds cache_key) w of
         (r, w) \<Rightarrow>
           (case rbind r decode_read of
              Inl e \<Rightarrow> (Err (redis_error_into_backend e), w)
            | Inr (None, _, _) \<Rightarrow> (Ok None, w)
            | Inr (Some data, stale_ms, pttl) \<Rightarrow>
                (let stale = Option.bind stale_ms from_timestamp_millis;
                     expire = (if pttl > 0 then Some (rd_now R (rw_server w) + pttl * 1000000) else None)
                 in (Ok (Some (cache_value_new data expire stale)), w)))) w"

definition redis_write_cmds :: "time \<Rightarrow> bytes \<Rightarrow> bytes cache_value \<Rightarrow> redis_cmd list" where
  "redis_write_cmds now k v =
     HSET k ((''d'', cv_data v)
             # (case cv_stale v of Some stale \<Rightarrow> [(''s'', bytes_of_str (show_int (timestamp_millis stale)))] | None \<Rightarrow> []))
     # (case ttl_secs now v of Some secs \<Rightarrow> [EXPIRE k secs] | None \<Rightarrow> [])"

definition redis_write ::
  "column_codec \<Rightarrow> urlencoding \<Rightarrow> 'r redis_ops \<Rightarrow> 'a redis_config \<Rightarrow> cache_key \<Rightarrow> bytes cache_value
   \<Rightarrow> 'r redis_world \<Rightarrow> (unit, backend_error) result \<times> 'r redis_world" where
  "redis_write cc U R g key v w =
     with_key cc U R g key (\<lambda>cache_key w.
       case query R (redis_write_cmds (rd_now R (rw_server w)) cache_key v) w of
         (r, w) \<Rightarrow> (map_err redis_error_into_backend (rmap (\<lambda>_. ()) r), w)) w"

definition redis_remove ::
  "column_codec \<Rightarrow> urlencoding \<Rightarrow> 'r redis_ops \<Rightarrow> 'a redis_config \<Rightarrow> cache_key
   \<Rightarrow> 'r redis_world \<Rightarrow> (delete_status, backend_error) result \<times> 'r redis_world" where
  "redis_remove cc U R g key w =
     with_key cc U R g key (\<lambda>cache_key w.
       case query R [DEL cache_key] w of
         (Inl e, w) \<Rightarrow> (Err (redis_error_into_backend e), w)
       | (Inr [IntReply deleted], w) \<Rightarrow>
           (Ok (if deleted > 0 then Deleted (word_of_int deleted) else Missing), w)
       | (Inr _, w) \<Rightarrow> (Err (redis_error_into_backend (RedisErr ''type conversion'')), w)) w"

definition redis_backend ::
  "column_codec \<Rightarrow> urlencoding \<Rightarrow> 'r redis_ops \<Rightarrow> 'a redis_config \<Rightarrow> ('r redis_world, 'a) cache_backend" where
  "redis_backend cc U R g =
     dyn_backend
       \<lparr>be_read = redis_read cc U R g, be_write = redis_write cc U R g, be_remove = redis_remove cc U R g,
        be_label = rg_label g, be_format = rg_format g, be_compressor = rg_compressor g\<rparr>"

lemma redis_backend_sel [simp, store_simps]:
  "be_read (redis_backend cc U R g) = redis_read cc U R g"
  "be_write (redis_backend cc U R g) = redis_write cc U R g"
  "be_remove (redis_backend cc U R g) = redis_remove cc U R g"
  "be_format (redis_backend cc U R g) = rg_format g"
  "be_compressor (redis_backend cc U R g) = rg_compressor g"
  by (simp_all add: redis_backend_def dyn_backend_def)

section \<open>What the server promises\<close>

text \<open>\<open>rdata\<close> is the data field of every key that exists and has not expired.\<close>

locale redis_laws =
  fixes R :: "'r redis_ops" and rdata :: "'r \<Rightarrow> bytes \<Rightarrow> bytes option"
  assumes connect_law: "rd_connect R q s = (r, s') \<Longrightarrow> rdata s' \<subseteq>\<^sub>m rdata s"
    and hmget_law: "rd_pipeline R [HMGET k [''d'', ''s''], PTTL k] s = (p, s') \<Longrightarrow> rdata s' \<subseteq>\<^sub>m rdata s
      \<and> (\<forall>b st n. p = Ok [Bulks [Some b, st], IntReply n] \<longrightarrow> rdata s k = Some b)"
    and hset_law: "rd_pipeline R (HSET k ((''d'', b) # fs) # rest) s = (p, s') \<Longrightarrow> ''d'' \<notin> fst ` set fs \<Longrightarrow> set rest \<subseteq> range (EXPIRE k) \<Longrightarrow>
      rdata s' \<subseteq>\<^sub>m (rdata s)(k \<mapsto> b) \<or> \<not> is_ok p \<and> rdata s' \<subseteq>\<^sub>m rdata s"
    and del_law: "rd_pipeline R [DEL k] s = (p, s') \<Longrightarrow> rdata s' \<subseteq>\<^sub>m rdata s \<and> (is_ok p \<longrightarrow> rdata s' k = None)"

definition redis_view ::
  "column_codec \<Rightarrow> urlencoding \<Rightarrow> ('r \<Rightarrow> bytes \<Rightarrow> bytes option) \<Rightarrow> 'a redis_config \<Rightarrow> 'r redis_world
   \<Rightarrow> cache_key \<Rightarrow> bytes option" where
  "redis_view cc U rdata g w key =
     (if key_ok (rg_key_format g) key
      then (case key_serialize cc U (rg_key_format g) key of Inr b \<Rightarrow> rdata (rw_server w) b | Inl _ \<Rightarrow> None)
      else None)"

lemma redis_view_le: "rdata (rw_server w') \<subseteq>\<^sub>m rdata (rw_server w) \<Longrightarrow> redis_view cc U rdata g w' \<subseteq>\<^sub>m redis_view cc U rdata g w"
  unfolding map_le_def redis_view_def by (auto simp: dom_def split: if_splits sum.splits)

lemma redis_view_update:
  assumes "lawful_columns cc" "urlencoding_laws U"
    and "key_ok (rg_key_format g) k" "key_serialize cc U (rg_key_format g) k = Ok b"
    and "rdata (rw_server w') \<subseteq>\<^sub>m (rdata (rw_server w))(b := z)"
  shows "redis_view cc U rdata g w' \<subseteq>\<^sub>m (redis_view cc U rdata g w)(k := z)"
  unfolding map_le_def
proof
  fix j assume "j \<in> dom (redis_view cc U rdata g w')"
  then obtain y c where y: "redis_view cc U rdata g w' j = Some y" "key_ok (rg_key_format g) j"
    "key_serialize cc U (rg_key_format g) j = Ok c" "rdata (rw_server w') c = Some y"
    unfolding redis_view_def by (auto split: if_splits sum.splits)
  then have m: "((rdata (rw_server w))(b := z)) c = Some y" using assms(5) unfolding map_le_def by (metis domI)
  show "redis_view cc U rdata g w' j = ((redis_view cc U rdata g w)(k := z)) j"
  proof (cases "c = b")
    case True
    then have "j = k" using key_serialize_inj [OF assms(1,2) y(2) assms(3)] y(3) assms(4) by blast
    then show ?thesis using m y(1) True by simp
  next
    case False
    then have "j \<noteq> k" using y(3) assms(4) by auto
    then show ?thesis using m y False by (simp add: redis_view_def)
  qed
qed

context redis_laws
begin

lemma connected:
  assumes "get_connection R g w = (r, w')"
  shows "rdata (rw_server w') \<subseteq>\<^sub>m rdata (rw_server w)"
  using assms connect_law [of "connect_request_of g" "rw_server w"]
  by (auto simp: get_connection_def split: if_splits prod.splits sum.splits)

text \<open>The operation after the connection and the key.\<close>

lemma with_key_cases:
  assumes "with_key cc U R g key f w = (r, w')"
  obtains e where "r = Err e" "rdata (rw_server w') \<subseteq>\<^sub>m rdata (rw_server w)"
  | w1 b where "rdata (rw_server w1) \<subseteq>\<^sub>m rdata (rw_server w)" "key_serialize cc U (rg_key_format g) key = Ok b"
      "f b w1 = (r, w')"
proof -
  obtain q w1 where q: "get_connection R g w = (q, w1)" by fastforce
  have le: "rdata (rw_server w1) \<subseteq>\<^sub>m rdata (rw_server w)" by (rule connected [OF q])
  show thesis
  proof (cases q)
    case (Inl e)
    then show thesis using assms q le that(1) by (auto simp: with_key_def)
  next
    case (Inr u)
    show thesis
    proof (cases "key_serialize cc U (rg_key_format g) key")
      case (Inl e)
      then show thesis using assms q Inr le that(1) by (auto simp: with_key_def)
    next
      fix b assume "key_serialize cc U (rg_key_format g) key = Ok b"
      then show thesis using assms q Inr le that(2) by (auto simp: with_key_def)
    qed
  qed
qed

lemma read_ok:
  assumes "redis_read cc U R g k w = (r, w')" "key_ok (rg_key_format g) k"
  shows "redis_view cc U rdata g w' \<subseteq>\<^sub>m redis_view cc U rdata g w
    \<and> (\<forall>v. r = Ok (Some v) \<longrightarrow> redis_view cc U rdata g w k = Some (cv_data v))"
  using assms(1) unfolding redis_read_def
proof (rule with_key_cases)
  fix w1 b
  assume a: "rdata (rw_server w1) \<subseteq>\<^sub>m rdata (rw_server w)" "key_serialize cc U (rg_key_format g) k = Ok b"
    and f: "(case query R (redis_read_cmds b) w1 of
         (r, w) \<Rightarrow>
           (case rbind r decode_read of
              Inl e \<Rightarrow> (Err (redis_error_into_backend e), w)
            | Inr (None, _, _) \<Rightarrow> (Ok None, w)
            | Inr (Some data, stale_ms, pttl) \<Rightarrow>
                (let stale = Option.bind stale_ms from_timestamp_millis;
                     expire = (if pttl > 0 then Some (rd_now R (rw_server w) + pttl * 1000000) else None)
                 in (Ok (Some (cache_value_new data expire stale)), w)))) = (r, w')"
  obtain p s where p: "rd_pipeline R [HMGET b [''d'', ''s''], PTTL b] (rw_server w1) = (p, s)" by fastforce
  have l: "rdata s \<subseteq>\<^sub>m rdata (rw_server w1)"
    "\<And>d st n. p = Ok [Bulks [Some d, st], IntReply n] \<Longrightarrow> rdata (rw_server w1) b = Some d"
    using hmget_law [OF p] by blast+
  have q: "query R (redis_read_cmds b) w1 = (map_err RedisErr p, w1\<lparr>rw_server := s\<rparr>)"
    using p by (simp add: query_def redis_read_cmds_def)
  have w': "w' = w1\<lparr>rw_server := s\<rparr>"
    using f unfolding q by (auto simp: Let_def split: sum.splits prod.splits option.splits)
  have hit: "rdata (rw_server w1) b = Some (cv_data v)" if found: "r = Ok (Some v)" for v
  proof -
    obtain d st n where "rbind (map_err RedisErr p) decode_read = Ok (Some d, st, n)" "cv_data v = d"
      using f found unfolding q by (auto simp: Let_def split: sum.splits prod.splits option.splits)
    then show ?thesis using l(2) by (cases p) (auto simp: decode_read_def split: list.splits redis_reply.splits option.splits)
  qed
  have "redis_view cc U rdata g w' \<subseteq>\<^sub>m redis_view cc U rdata g w"
    using map_le_trans [OF l(1) a(1)] by (intro redis_view_le) (simp add: w')
  moreover have "redis_view cc U rdata g w k = Some (cv_data v)" if "r = Ok (Some v)" for v
    using hit [OF that] a assms(2) unfolding map_le_def redis_view_def by (metis domI sum.simps(6))
  ultimately show ?thesis by blast
qed (simp_all add: redis_view_le)

lemma write_ok:
  assumes "lawful_columns cc" "urlencoding_laws U"
    and "redis_write cc U R g k u w = (r, w')" "key_ok (rg_key_format g) k"
  shows "redis_view cc U rdata g w' \<subseteq>\<^sub>m (redis_view cc U rdata g w)(k \<mapsto> cv_data u)
    \<or> \<not> is_ok r \<and> redis_view cc U rdata g w' \<subseteq>\<^sub>m redis_view cc U rdata g w"
  using assms(3) unfolding redis_write_def
proof (rule with_key_cases)
  fix w1 b
  assume a: "rdata (rw_server w1) \<subseteq>\<^sub>m rdata (rw_server w)" "key_serialize cc U (rg_key_format g) k = Ok b"
    and f: "(case query R (redis_write_cmds (rd_now R (rw_server w1)) b u) w1 of
         (r, w) \<Rightarrow> (map_err redis_error_into_backend (rmap (\<lambda>_. ()) r), w)) = (r, w')"
  let ?cmds = "redis_write_cmds (rd_now R (rw_server w1)) b u"
  obtain p s where p: "rd_pipeline R ?cmds (rw_server w1) = (p, s)" by fastforce
  have r: "is_ok r = is_ok p" "rw_server w' = s"
    using f p by (cases p; auto simp: query_def)+
  have "rdata s \<subseteq>\<^sub>m (rdata (rw_server w1))(b \<mapsto> cv_data u) \<or> \<not> is_ok p \<and> rdata s \<subseteq>\<^sub>m rdata (rw_server w1)"
    by (rule hset_law [OF p [unfolded redis_write_cmds_def]]) (auto split: option.splits)
  then show ?thesis
  proof
    assume "rdata s \<subseteq>\<^sub>m (rdata (rw_server w1))(b \<mapsto> cv_data u)"
    then have "redis_view cc U rdata g w' \<subseteq>\<^sub>m (redis_view cc U rdata g w1)(k \<mapsto> cv_data u)"
      using redis_view_update [OF assms(1,2,4) a(2), of rdata w' w1 "Some (cv_data u)"] r(2) by simp
    moreover have "(redis_view cc U rdata g w1)(k \<mapsto> cv_data u) \<subseteq>\<^sub>m (redis_view cc U rdata g w)(k \<mapsto> cv_data u)"
      using redis_view_le [OF a(1)] by (rule map_le_upd)
    ultimately show ?thesis using map_le_trans by blast
  next
    assume "\<not> is_ok p \<and> rdata s \<subseteq>\<^sub>m rdata (rw_server w1)"
    then show ?thesis using map_le_trans [OF _ a(1)] r redis_view_le by metis
  qed
qed (simp_all add: redis_view_le)

lemma remove_ok:
  assumes "lawful_columns cc" "urlencoding_laws U"
    and "redis_remove cc U R g k w = (r, w')" "key_ok (rg_key_format g) k"
  shows "redis_view cc U rdata g w' \<subseteq>\<^sub>m redis_view cc U rdata g w \<and> (is_ok r \<longrightarrow> redis_view cc U rdata g w' k = None)"
  using assms(3) unfolding redis_remove_def
proof (rule with_key_cases)
  fix w1 b
  assume a: "rdata (rw_server w1) \<subseteq>\<^sub>m rdata (rw_server w)" "key_serialize cc U (rg_key_format g) k = Ok b"
    and f: "(case query R [DEL b] w1 of
         (Inl e, w) \<Rightarrow> (Err (redis_error_into_backend e), w)
       | (Inr [IntReply deleted], w) \<Rightarrow> (Ok (if deleted > 0 then Deleted (word_of_int deleted) else Missing), w)
       | (Inr _, w) \<Rightarrow> (Err (redis_error_into_backend (RedisErr ''type conversion'')), w)) = (r, w')"
  obtain p s where p: "rd_pipeline R [DEL b] (rw_server w1) = (p, s)" by fastforce
  have r: "is_ok r \<longrightarrow> is_ok p" "rw_server w' = s"
    using f p by (cases p; auto simp: query_def split: list.splits redis_reply.splits)+
  have l: "rdata s \<subseteq>\<^sub>m rdata (rw_server w1)" "is_ok p \<Longrightarrow> rdata s b = None" using del_law [OF p] by blast+
  have "redis_view cc U rdata g w' \<subseteq>\<^sub>m redis_view cc U rdata g w"
    using map_le_trans [OF l(1) a(1)] r(2) by (intro redis_view_le) simp
  moreover have "is_ok r \<longrightarrow> redis_view cc U rdata g w' k = None"
    using l(2) r a(2) by (simp add: redis_view_def)
  ultimately show ?thesis by blast
qed (simp_all add: redis_view_le)

lemma coherent:
  assumes "lawful_columns cc" "urlencoding_laws U" "lossless_format (rg_format g)" "lossless_compressor (rg_compressor g)"
  shows "coherent_cache (redis_backend cc U R g) (key_ok (rg_key_format g)) (\<lambda>w. True) (redis_view cc U rdata g)"
proof -
  have "cache_store (redis_backend cc U R g) (key_ok (rg_key_format g)) (\<lambda>w. True) (redis_view cc U rdata g)"
    using read_ok [of cc U g] write_ok [OF assms(1,2), of g] remove_ok [OF assms(1,2), of g]
    by unfold_locales simp_all
  then show ?thesis using assms(3,4) unfolding coherent_cache_def by (simp add: value_codecI)
qed

end

section \<open>A server with the documented commands\<close>

record ref_redis =
  rr_now :: time
  rr_keys :: "bytes \<Rightarrow> ((string \<Rightarrow> bytes option) \<times> time option) option"

definition rr_live :: "ref_redis \<Rightarrow> bytes \<Rightarrow> ((string \<Rightarrow> bytes option) \<times> time option) option" where
  "rr_live s k =
     (case rr_keys s k of
        Some (h, Some t) \<Rightarrow> if rr_now s < t then Some (h, Some t) else None
      | x \<Rightarrow> x)"

text \<open>\<open>HSET\<close> sets fields and leaves the others, and the expiry, alone; \<open>EXPIRE\<close> sets the expiry of an
  existing key; \<open>PTTL\<close> is the milliseconds left, -1 without expiry, -2 without the key.\<close>

fun ref_exec :: "redis_cmd \<Rightarrow> ref_redis \<Rightarrow> redis_reply \<times> ref_redis" where
  "ref_exec (HMGET k fs) s =
     (Bulks (map (\<lambda>f. case rr_live s k of Some (h, _) \<Rightarrow> h f | None \<Rightarrow> None) fs), s)"
| "ref_exec (PTTL k) s =
     (IntReply (case rr_live s k of None \<Rightarrow> - 2 | Some (_, None) \<Rightarrow> - 1 | Some (_, Some t) \<Rightarrow> (t - rr_now s) div 1000000), s)"
| "ref_exec (HSET k fvs) s =
     (case (case rr_live s k of Some x \<Rightarrow> x | None \<Rightarrow> (\<lambda>_. None, None)) of
        (h, d) \<Rightarrow> (IntReply (int (length (filter (\<lambda>(f, _). h f = None) fvs))),
                    s\<lparr>rr_keys := (rr_keys s)(k \<mapsto> (foldl (\<lambda>h (f, v). h(f \<mapsto> v)) h fvs, d))\<rparr>))"
| "ref_exec (EXPIRE k n) s =
     (case rr_live s k of
        None \<Rightarrow> (IntReply 0, s)
      | Some (h, _) \<Rightarrow>
          (IntReply 1, s\<lparr>rr_keys := (rr_keys s)(k \<mapsto> (h, Some (rr_now s + int n * 1000000000)))\<rparr>))"
| "ref_exec (DEL k) s =
     (IntReply (if rr_live s k = None then 0 else 1), s\<lparr>rr_keys := (rr_keys s)(k := None)\<rparr>)"

fun ref_pipeline :: "redis_cmd list \<Rightarrow> ref_redis \<Rightarrow> redis_reply list \<times> ref_redis" where
  "ref_pipeline [] s = ([], s)"
| "ref_pipeline (c # cs) s =
     (case ref_exec c s of (r, s) \<Rightarrow> case ref_pipeline cs s of (rs, s) \<Rightarrow> (r # rs, s))"

definition ref_redis_ops :: "ref_redis redis_ops" where
  "ref_redis_ops =
     \<lparr>rd_now = rr_now, rd_connect = (\<lambda>q s. (Ok (), s)),
      rd_pipeline = (\<lambda>cmds s. case ref_pipeline cmds s of (rs, s) \<Rightarrow> (Ok rs, s))\<rparr>"

definition rr_data :: "ref_redis \<Rightarrow> bytes \<Rightarrow> bytes option" where
  "rr_data s k = Option.bind (rr_live s k) (\<lambda>(h, _). h ''d'')"

lemma rr_live_upd [simp]:
  "rr_live (s\<lparr>rr_keys := (rr_keys s)(k \<mapsto> (h, d))\<rparr>) j =
     (if j = k then (case d of Some t \<Rightarrow> if rr_now s < t then Some (h, Some t) else None | None \<Rightarrow> Some (h, None))
      else rr_live s j)"
  "rr_live (s\<lparr>rr_keys := (rr_keys s)(k := None)\<rparr>) j = (if j = k then None else rr_live s j)"
  by (simp_all add: rr_live_def split: option.splits)

lemma rr_live_deadline: "rr_live s k = Some (h, Some t) \<Longrightarrow> rr_now s < t"
  by (auto simp: rr_live_def split: option.splits if_splits prod.splits)

lemma ref_expires_data:
  "set rest \<subseteq> range (EXPIRE k) \<Longrightarrow> rr_data (snd (ref_pipeline rest s)) \<subseteq>\<^sub>m rr_data s"
proof (induction rest arbitrary: s)
  case (Cons c rest)
  then obtain n where c: "c = EXPIRE k n" by auto
  have "rr_data (snd (ref_exec c s)) \<subseteq>\<^sub>m rr_data s"
    unfolding c map_le_def by (auto simp: rr_data_def split: option.splits if_splits)
  then show ?case using Cons.IH [of "snd (ref_exec c s)"] Cons.prems map_le_trans
    by (fastforce simp: case_prod_unfold)
qed simp

lemma foldl_fields_d: "\<forall>(f, v) \<in> set fvs. f \<noteq> ''d'' \<Longrightarrow> foldl (\<lambda>h (f, v). h(f \<mapsto> v)) h fvs ''d'' = h ''d''"
  by (induction fvs arbitrary: h) auto

lemma ref_hset_data:
  assumes "''d'' \<notin> fst ` set fs"
  shows "rr_data (snd (ref_exec (HSET k ((''d'', b) # fs)) s)) \<subseteq>\<^sub>m (rr_data s)(k \<mapsto> b)"
proof -
  have "\<forall>(f, v) \<in> set fs. f \<noteq> ''d''" using assms by force
  then show ?thesis
    unfolding map_le_def by (auto simp: rr_data_def foldl_fields_d split: option.splits if_splits prod.splits)
qed

interpretation ref_redis: redis_laws ref_redis_ops rr_data
proof
  fix q s r s' assume "rd_connect ref_redis_ops q s = (r, s')"
  then show "rr_data s' \<subseteq>\<^sub>m rr_data s" by (simp add: ref_redis_ops_def)
next
  fix k s p s' assume "rd_pipeline ref_redis_ops [HMGET k [''d'', ''s''], PTTL k] s = (p, s')"
  then show "rr_data s' \<subseteq>\<^sub>m rr_data s \<and> (\<forall>b st n. p = Ok [Bulks [Some b, st], IntReply n] \<longrightarrow> rr_data s k = Some b)"
    by (auto simp: ref_redis_ops_def rr_data_def split: option.splits)
next
  fix k b fs rest s p s'
  assume p: "rd_pipeline ref_redis_ops (HSET k ((''d'', b) # fs) # rest) s = (p, s')"
    and fs: "''d'' \<notin> fst ` set fs" and rest: "set rest \<subseteq> range (EXPIRE k)"
  have "s' = snd (ref_pipeline rest (snd (ref_exec (HSET k ((''d'', b) # fs)) s)))"
    using p by (auto simp: ref_redis_ops_def case_prod_unfold simp del: ref_exec.simps)
  then have "rr_data s' \<subseteq>\<^sub>m (rr_data s)(k \<mapsto> b)"
    using ref_expires_data [OF rest] ref_hset_data [OF fs] map_le_trans by metis
  then show "rr_data s' \<subseteq>\<^sub>m (rr_data s)(k \<mapsto> b) \<or> \<not> is_ok p \<and> rr_data s' \<subseteq>\<^sub>m rr_data s" by blast
next
  fix k s p s' assume "rd_pipeline ref_redis_ops [DEL k] s = (p, s')"
  then show "rr_data s' \<subseteq>\<^sub>m rr_data s \<and> (is_ok p \<longrightarrow> rr_data s' k = None)"
    by (auto simp: ref_redis_ops_def rr_data_def map_le_def split: if_splits)
qed

definition demo_redis_config :: "nat redis_config" where
  "demo_redis_config =
     \<lparr>rg_mode = mode_single ''redis://localhost:6379/'', rg_connection_timeout = None, rg_response_timeout = None,
      rg_retries = None, rg_username = None, rg_password = None, rg_format = bincode_format nat_serde,
      rg_key_format = BitcodeKeys, rg_compressor = passthrough_compressor, rg_label = BackendLabel ''redis''\<rparr>"

interpretation demo_redis: coherent_cache "redis_backend unary_columns letter_encoding ref_redis_ops demo_redis_config"
  "key_ok BitcodeKeys" "\<lambda>w. True" "redis_view unary_columns letter_encoding rr_data demo_redis_config"
  using ref_redis.coherent [OF lawful_unary_columns letters.urlencoding_laws_axioms, of demo_redis_config]
  by (simp add: demo_redis_config_def lossless_formats)

section \<open>Writing and reading one value\<close>

lemma redis_read_ref:
  assumes "rw_connected w" "key_serialize cc U (rg_key_format g) k = Ok b"
  shows "redis_read cc U ref_redis_ops g k w =
    (case rr_live (rw_server w) b of
       None \<Rightarrow> (Ok None, w)
     | Some (h, d) \<Rightarrow>
         (case (case h ''s'' of None \<Rightarrow> Ok None
                | Some s \<Rightarrow> (case parse_i64 (str_of_bytes s) of Some ms \<Rightarrow> Ok (Some ms) | None \<Rightarrow> Err (RedisErr ''type conversion''))) of
            Inl e \<Rightarrow> (Err (redis_error_into_backend e), w)
          | Inr stale_ms \<Rightarrow>
              (case h ''d'' of
                 None \<Rightarrow> (Ok None, w)
               | Some data \<Rightarrow>
                   (Ok (Some (cache_value_new data
                      (case d of Some t \<Rightarrow> let n = (t - rr_now (rw_server w)) div 1000000 in
                                   if n > 0 then Some (rr_now (rw_server w) + n * 1000000) else None
                       | None \<Rightarrow> None)
                      (Option.bind stale_ms from_timestamp_millis))), w))))"
  using assms
  by (auto simp: redis_read_def with_key_def get_connection_def query_def redis_read_cmds_def
      ref_redis_ops_def decode_read_def Let_def split: option.splits)

lemma redis_write_ref:
  assumes "rw_connected w" "key_serialize cc U (rg_key_format g) k = Ok b" "chrono_time (the (cv_stale v)) \<or> cv_stale v = None"
  shows "fst (redis_write cc U ref_redis_ops g k v w) = Ok ()"
    and "rw_connected (snd (redis_write cc U ref_redis_ops g k v w))"
    and "rr_now (rw_server (snd (redis_write cc U ref_redis_ops g k v w))) = rr_now (rw_server w)"
    and "rr_live (rw_server (snd (redis_write cc U ref_redis_ops g k v w))) b =
      (let (h, d) = (case rr_live (rw_server w) b of Some x \<Rightarrow> x | None \<Rightarrow> (\<lambda>_. None, None));
           h = h(''d'' \<mapsto> cv_data v);
           h = (case cv_stale v of Some s \<Rightarrow> h(''s'' \<mapsto> bytes_of_str (show_int (timestamp_millis s))) | None \<Rightarrow> h)
       in Some (h, case ttl_secs (rr_now (rw_server w)) v of
                     Some n \<Rightarrow> Some (rr_now (rw_server w) + int n * 1000000000) | None \<Rightarrow> d))"
proof -
  have pos: "n > 0" if "ttl_secs now v = Some n" for n now
    using that by (auto simp: ttl_secs_def Let_def split: if_splits option.splits bind_splits)
  show "fst (redis_write cc U ref_redis_ops g k v w) = Ok ()"
    "rw_connected (snd (redis_write cc U ref_redis_ops g k v w))"
    "rr_now (rw_server (snd (redis_write cc U ref_redis_ops g k v w))) = rr_now (rw_server w)"
    using assms(1,2)
    by (auto simp: redis_write_def with_key_def get_connection_def query_def redis_write_cmds_def
        ref_redis_ops_def split: option.splits prod.splits)
  show "rr_live (rw_server (snd (redis_write cc U ref_redis_ops g k v w))) b =
      (let (h, d) = (case rr_live (rw_server w) b of Some x \<Rightarrow> x | None \<Rightarrow> (\<lambda>_. None, None));
           h = h(''d'' \<mapsto> cv_data v);
           h = (case cv_stale v of Some s \<Rightarrow> h(''s'' \<mapsto> bytes_of_str (show_int (timestamp_millis s))) | None \<Rightarrow> h)
       in Some (h, case ttl_secs (rr_now (rw_server w)) v of
                     Some n \<Rightarrow> Some (rr_now (rw_server w) + int n * 1000000000) | None \<Rightarrow> d))"
    using assms(1,2) pos
    by (auto simp: redis_write_def with_key_def get_connection_def query_def redis_write_cmds_def
        ref_redis_ops_def Let_def split: option.splits prod.splits dest: rr_live_deadline)
qed

definition redis_at :: "time \<Rightarrow> ref_redis redis_world \<Rightarrow> ref_redis redis_world" where
  "redis_at t w = w\<lparr>rw_server := (rw_server w)\<lparr>rr_now := t\<rparr>\<rparr>"

lemma redis_at_sel [simp]:
  "rw_connected (redis_at t w) = rw_connected w" "rr_now (rw_server (redis_at t w)) = t"
  "rr_keys (rw_server (redis_at t w)) = rr_keys (rw_server w)"
  by (simp_all add: redis_at_def)

lemma rr_live_at_forever: "rr_live (rw_server w) b = Some (h, None) \<Longrightarrow> rr_live (rw_server (redis_at t w)) b = Some (h, None)"
  by (auto simp: rr_live_def split: option.splits prod.splits if_splits)

lemma ttl_secs_bounds:
  assumes "ttl_secs now v = Some n"
  obtains e where "cv_expire v = Some e" "0 < n" "now + int n * 1000000000 \<le> e" "e < now + int n * 1000000000 + 1000000000"
proof -
  obtain e where e: "cv_expire v = Some e" using assms by (auto simp: ttl_secs_def bind_eq_Some_conv)
  have n: "num_seconds (e - now) > 0" "n = nat (num_seconds (e - now))"
    using assms e by (auto simp: ttl_secs_def Let_def split: if_splits)
  then have "0 \<le> e - now" by (auto simp: num_seconds_def nanos_per_sec_def split: if_splits)
  then have "int n = (e - now) div 1000000000" using n by (simp add: num_seconds_def nanos_per_sec_def)
  then have "int n * 1000000000 \<le> e - now" "e - now < int n * 1000000000 + 1000000000" by linarith+
  then have b: "now + int n * 1000000000 \<le> e" "e < now + int n * 1000000000 + 1000000000" by linarith+
  have "0 < n" using n by simp
  then show thesis by (rule that [OF e _ b])
qed

section \<open>A server that runs the commands of a pipeline one by one\<close>

type_synonym redis_keys = "bytes \<Rightarrow> ((string \<Rightarrow> bytes option) \<times> time option) option"

text \<open>The commands of a pipeline run in order, each at a moment of its own between the call and its return;
  before each of them, and after the last, the keys may change as \<open>L\<close> allows, by evictions and other clients.\<close>

inductive pipeline_runs ::
  "(redis_keys \<Rightarrow> redis_keys \<Rightarrow> bool) \<Rightarrow> redis_cmd list \<Rightarrow> time \<Rightarrow> redis_keys \<Rightarrow> redis_reply list \<Rightarrow> time \<Rightarrow> redis_keys \<Rightarrow> bool"
  for L where
  runs_done: "t \<le> t' \<Longrightarrow> L h' h \<Longrightarrow> pipeline_runs L [] t h [] t' h'"
| runs_step: "t \<le> z \<Longrightarrow> L h1 h \<Longrightarrow> ref_exec c \<lparr>rr_now = z, rr_keys = h1\<rparr> = (r, x)
    \<Longrightarrow> pipeline_runs L cs z (rr_keys x) rs t' h' \<Longrightarrow> pipeline_runs L (c # cs) t h (r # rs) t' h'"

inductive_cases runs_doneE: "pipeline_runs L [] t h rs t' h'"
inductive_cases runs_stepE: "pipeline_runs L (c # cs) t h rs t' h'"

lemma pipeline_takes_time: "pipeline_runs L cs t h rs t' h' \<Longrightarrow> t \<le> t'"
  by (induction rule: pipeline_runs.induct) auto

text \<open>Moments and deadlines are counted on the client's clock.  What the server is told and tells are times to
  live, so a constant difference between its clock and the client's is not seen.\<close>

definition shifted :: "time \<Rightarrow> redis_keys \<Rightarrow> redis_keys" where
  "shifted o1 h = (\<lambda>b. map_option (map_prod id (map_option (\<lambda>t. t + o1))) (h b))"

lemma clock_difference_is_not_seen:
  assumes "ref_exec c \<lparr>rr_now = z, rr_keys = h\<rparr> = (r, x)"
  shows "ref_exec c \<lparr>rr_now = z + o1, rr_keys = shifted o1 h\<rparr> = (r, \<lparr>rr_now = z + o1, rr_keys = shifted o1 (rr_keys x)\<rparr>)"
proof -
  have live: "rr_live \<lparr>rr_now = z + o1, rr_keys = shifted o1 h\<rparr> b
      = map_option (map_prod id (map_option (\<lambda>t. t + o1))) (rr_live \<lparr>rr_now = z, rr_keys = h\<rparr> b)" for b
    by (auto simp: rr_live_def shifted_def split: option.splits prod.splits)
  have d: "t + o1 - (z + o1) = t - z" "z + o1 + n = z + n + o1" for t n by simp_all
  have upd: "shifted o1 (h(b := e)) = (shifted o1 h)(b := map_option (map_prod id (map_option (\<lambda>t. t + o1))) e)" for b e
    by (auto simp: shifted_def)
  show ?thesis using assms by (cases c) (auto simp: live upd d split: option.splits prod.splits)
qed

locale timed_redis =
  fixes R :: "'r redis_ops" and rkeys :: "'r \<Rightarrow> redis_keys" and L :: "redis_keys \<Rightarrow> redis_keys \<Rightarrow> bool"
  assumes connect_runs: "rd_connect R q s = (r, s') \<Longrightarrow> rd_now R s \<le> rd_now R s' \<and> L (rkeys s') (rkeys s)"
    and pipeline_law: "rd_pipeline R cmds s = (p, s') \<Longrightarrow> rd_now R s \<le> rd_now R s'
      \<and> (\<forall>rs. p = Ok rs \<longrightarrow> pipeline_runs L cmds (rd_now R s) (rkeys s) rs (rd_now R s') (rkeys s'))"
begin

abbreviation now where "now w \<equiv> rd_now R (rw_server w)"

lemma connects:
  assumes "get_connection R g w = (r, w')"
  shows "now w \<le> now w' \<and> (L (rkeys (rw_server w')) (rkeys (rw_server w)) \<or> w' = w)"
  using assms connect_runs [of "connect_request_of g" "rw_server w"]
  by (cases "rd_connect R (connect_request_of g) (rw_server w)") (auto simp: get_connection_def split: if_splits sum.splits)

lemma with_key_succeeds:
  assumes "with_key cc U R g key f w = (Ok r, w')" "key_serialize cc U (rg_key_format g) key = Ok b"
  obtains w1 where "now w \<le> now w1" "L (rkeys (rw_server w1)) (rkeys (rw_server w)) \<or> w1 = w" "f b w1 = (Ok r, w')"
  using assms connects [of g w] by (cases "get_connection R g w") (auto simp: with_key_def split: sum.splits)

lemma query_runs:
  assumes "query R cmds w = (Ok rs, w')"
  shows "pipeline_runs L cmds (now w) (rkeys (rw_server w)) rs (now w') (rkeys (rw_server w'))"
proof -
  obtain p s where p: "rd_pipeline R cmds (rw_server w) = (p, s)" by fastforce
  then have "p = Ok rs" "rw_server w' = s" using assms by (cases p; auto simp: query_def)+
  then show ?thesis using pipeline_law [OF p] by blast
qed

lemma write_runs:
  assumes "redis_write cc U R g k v w = (Ok (), w')" "key_serialize cc U (rg_key_format g) k = Ok b"
  obtains w1 :: "'r redis_world" and rs where "now w \<le> now w1" "pipeline_runs L (redis_write_cmds (now w1) b v) (now w1) (rkeys (rw_server w1)) rs
    (now w') (rkeys (rw_server w'))"
proof -
  obtain w1 where w1: "now w \<le> now w1"
    "(case query R (redis_write_cmds (now w1) b v) w1 of
        (r, w) \<Rightarrow> (map_err redis_error_into_backend (rmap (\<lambda>_. ()) r), w)) = (Ok (), w')"
    by (rule with_key_succeeds [OF assms(1) [unfolded redis_write_def] assms(2)])
  obtain q w2 where q: "query R (redis_write_cmds (now w1) b v) w1 = (q, w2)" by fastforce
  then obtain rs where "q = Ok rs" "w2 = w'" using w1(2) by (cases q) auto
  then show thesis using that [OF w1(1)] query_runs [of "redis_write_cmds (now w1) b v" w1 rs w'] q by simp
qed

lemma read_runs:
  assumes "redis_read cc U R g k w = (Ok (Some v), w')" "key_serialize cc U (rg_key_format g) k = Ok b"
  obtains w1 rs data ms pttl where "now w \<le> now w1" "L (rkeys (rw_server w1)) (rkeys (rw_server w)) \<or> w1 = w"
    "pipeline_runs L (redis_read_cmds b) (now w1) (rkeys (rw_server w1)) rs (now w') (rkeys (rw_server w'))"
    "decode_read rs = Ok (Some data, ms, pttl)"
    "v = cache_value_new data (if pttl > 0 then Some (now w' + pttl * 1000000) else None) (Option.bind ms from_timestamp_millis)"
proof -
  obtain w1 where w1: "now w \<le> now w1" "L (rkeys (rw_server w1)) (rkeys (rw_server w)) \<or> w1 = w"
    "(case query R (redis_read_cmds b) w1 of
         (r, w) \<Rightarrow>
           (case rbind r decode_read of
              Inl e \<Rightarrow> (Err (redis_error_into_backend e), w)
            | Inr (None, _, _) \<Rightarrow> (Ok None, w)
            | Inr (Some data, stale_ms, pttl) \<Rightarrow>
                (let stale = Option.bind stale_ms from_timestamp_millis;
                     expire = (if pttl > 0 then Some (rd_now R (rw_server w) + pttl * 1000000) else None)
                 in (Ok (Some (cache_value_new data expire stale)), w)))) = (Ok (Some v), w')"
    by (rule with_key_succeeds [OF assms(1) [unfolded redis_read_def] assms(2)])
  obtain q w2 where q: "query R (redis_read_cmds b) w1 = (q, w2)" by fastforce
  obtain rs data ms pttl where "q = Ok rs" "w2 = w'" "decode_read rs = Ok (Some data, ms, pttl)"
    "v = cache_value_new data (if pttl > 0 then Some (now w' + pttl * 1000000) else None) (Option.bind ms from_timestamp_millis)"
    using w1(3) q by (cases q) (auto simp: Let_def split: sum.splits prod.splits option.splits)
  then show thesis using that [OF w1(1,2)] query_runs [of "redis_read_cmds b" w1 rs w'] q by simp
qed

end

text \<open>A reference server whose commands take no time runs pipelines so.\<close>

lemma ref_exec_now [simp]: "ref_exec c s = (r, x) \<Longrightarrow> rr_now x = rr_now s"
  by (cases c) (auto split: option.splits prod.splits)

lemma ref_pipeline_now: "rr_now (snd (ref_pipeline cmds s)) = rr_now s"
proof (induction cmds arbitrary: s)
  case (Cons c cmds)
  have "rr_now (snd (ref_exec c s)) = rr_now s" by (cases c) (auto split: option.splits prod.splits)
  then show ?case using Cons.IH by (simp add: case_prod_beta)
qed simp

lemma ref_pipeline_runs:
  assumes "\<And>h. L h h"
  shows "pipeline_runs L cmds (rr_now s) (rr_keys s) (fst (ref_pipeline cmds s)) (rr_now s) (rr_keys (snd (ref_pipeline cmds s)))"
proof (induction cmds arbitrary: s)
  case (Cons c cmds)
  obtain r x where x: "ref_exec c s = (r, x)" by fastforce
  have "ref_exec c \<lparr>rr_now = rr_now s, rr_keys = rr_keys s\<rparr> = (r, x)" using x by (cases s) simp
  then show ?case using runs_step [of "rr_now s" "rr_now s" L "rr_keys s" "rr_keys s" c r x cmds] Cons.IH [of x] assms
      ref_exec_now [OF x] by (simp add: x case_prod_beta)
qed (simp add: runs_done assms)

lemma ref_timed_redis: "(\<And>h. L h h) \<Longrightarrow> timed_redis ref_redis_ops rr_keys L"
  using ref_pipeline_runs [of L]
  by unfold_locales (auto simp: ref_redis_ops_def case_prod_beta ref_pipeline_now)

text \<open>Nobody else writes the key, though it may be evicted; the other keys are free.\<close>

definition left_alone :: "bytes \<Rightarrow> redis_keys \<Rightarrow> redis_keys \<Rightarrow> bool" where
  "left_alone b h' h \<longleftrightarrow> h' b = None \<or> h' b = h b"

text \<open>What an entry under \<open>b\<close> is, when there is one.\<close>

definition entry_is :: "bytes \<Rightarrow> bytes \<Rightarrow> bytes \<Rightarrow> (time option \<Rightarrow> bool) \<Rightarrow> redis_keys \<Rightarrow> bool" where
  "entry_is b data stale D h \<longleftrightarrow> (\<forall>f d. h b = Some (f, d) \<longrightarrow> f ''d'' = Some data \<and> f ''s'' = Some stale \<and> D d)"

lemma entry_left_alone: "entry_is b data stale D h \<Longrightarrow> left_alone b h' h \<Longrightarrow> entry_is b data stale D h'"
  by (auto simp: entry_is_def left_alone_def)

interpretation ref_left_alone: timed_redis ref_redis_ops rr_keys "left_alone b"
  by (rule ref_timed_redis) (simp add: left_alone_def)

lemma written_entry:
  assumes "pipeline_runs (left_alone b) (redis_write_cmds n0 b v) t h rs t' h'" "cv_stale v = Some s" "ttl_secs n0 v = Some n"
  shows "entry_is b (cv_data v) (bytes_of_str (show_int (timestamp_millis s)))
    (\<lambda>d. \<exists>x. d = Some x \<and> (x \<le> t' \<or> t + int n * 1000000000 \<le> x \<and> x \<le> t' + int n * 1000000000)) h'"
proof -
  let ?st = "bytes_of_str (show_int (timestamp_millis s))"
  from assms(1) obtain z1 h1 r1 x1 z2 h2 r2 x2 where
    run: "t \<le> z1" "ref_exec (HSET b [(''d'', cv_data v), (''s'', ?st)]) \<lparr>rr_now = z1, rr_keys = h1\<rparr> = (r1, x1)"
      "z1 \<le> z2" "left_alone b h2 (rr_keys x1)" "ref_exec (EXPIRE b n) \<lparr>rr_now = z2, rr_keys = h2\<rparr> = (r2, x2)"
      "z2 \<le> t'" "left_alone b h' (rr_keys x2)"
    by (auto simp: redis_write_cmds_def assms(2,3) simp del: ref_exec.simps elim!: runs_stepE runs_doneE)
  have "entry_is b (cv_data v) ?st (\<lambda>d. True) (rr_keys x1)"
    using run(2) by (auto simp: entry_is_def split: option.splits prod.splits)
  then have h2: "entry_is b (cv_data v) ?st (\<lambda>d. True) h2" by (rule entry_left_alone [OF _ run(4)])
  have "entry_is b (cv_data v) ?st (\<lambda>d. \<exists>x. d = Some x \<and> (x \<le> z2 \<or> x = z2 + int n * 1000000000)) (rr_keys x2)"
    using run(5) h2 by (auto simp: entry_is_def rr_live_def split: option.splits prod.splits if_splits)
  then have "entry_is b (cv_data v) ?st (\<lambda>d. \<exists>x. d = Some x \<and> (x \<le> z2 \<or> x = z2 + int n * 1000000000)) h'"
    by (rule entry_left_alone [OF _ run(7)])
  then show ?thesis using run(1,3,6) unfolding entry_is_def by fastforce
qed

lemma read_entry:
  assumes "pipeline_runs (left_alone b) (redis_read_cmds b) t h rs t' h'" "entry_is b data st D h" "decode_read rs = Ok (Some x, ms, pttl)"
  obtains z a where "t \<le> z" "z \<le> t'" "x = data" "D a" "a = None \<or> t < the a" "ms = parse_i64 (str_of_bytes st)"
    "pttl = (case a of None \<Rightarrow> - 1 | Some y \<Rightarrow> (y - z) div 1000000) \<or> pttl = - 2 \<and> (h' b = None \<or> a \<noteq> None \<and> the a \<le> t')"
proof -
  from assms(1) obtain z1 h1 r1 x1 z2 h2 r2 x2 where
    run: "rs = [r1, r2]" "t \<le> z1" "left_alone b h1 h" "ref_exec (HMGET b [''d'', ''s'']) \<lparr>rr_now = z1, rr_keys = h1\<rparr> = (r1, x1)"
      "z1 \<le> z2" "left_alone b h2 (rr_keys x1)" "ref_exec (PTTL b) \<lparr>rr_now = z2, rr_keys = h2\<rparr> = (r2, x2)"
      "z2 \<le> t'" "left_alone b h' (rr_keys x2)"
    by (auto simp: redis_read_cmds_def simp del: ref_exec.simps elim!: runs_stepE runs_doneE)
  have e: "entry_is b data st D h1" by (rule entry_left_alone [OF assms(2) run(3)])
  obtain j where j: "r2 = IntReply j" "j = (case rr_live \<lparr>rr_now = z2, rr_keys = h2\<rparr> b of None \<Rightarrow> - 2 | Some (_, None) \<Rightarrow> - 1
      | Some (_, Some t) \<Rightarrow> (t - z2) div 1000000)"
    using run(7) by (cases "rr_live \<lparr>rr_now = z2, rr_keys = h2\<rparr> b") (auto split: option.splits)
  obtain f a where f: "rr_live \<lparr>rr_now = z1, rr_keys = h1\<rparr> b = Some (f, a)"
    using assms(3) run(1,4) j(1) by (cases "rr_live \<lparr>rr_now = z1, rr_keys = h1\<rparr> b") (auto simp: decode_read_def)
  then have h1: "h1 b = Some (f, a)" "a = None \<or> z1 < the a" by (auto simp: rr_live_def split: option.splits prod.splits if_splits)
  then have fd: "f ''d'' = Some data" "f ''s'' = Some st" "D a" using e by (auto simp: entry_is_def)
  have x: "x1 = \<lparr>rr_now = z1, rr_keys = h1\<rparr>" "x2 = \<lparr>rr_now = z2, rr_keys = h2\<rparr>" using run(4,7) by auto
  have dec: "x = data" "ms = parse_i64 (str_of_bytes st)" "pttl = j"
    using assms(3) run(1,4) f fd j(1) by (auto simp: decode_read_def split: option.splits)
  have "j = (case a of None \<Rightarrow> - 1 | Some y \<Rightarrow> (y - z2) div 1000000) \<or> j = - 2 \<and> (h' b = None \<or> a \<noteq> None \<and> the a \<le> t')"
    using j(2) run(6,8,9) h1(1) x
    by (auto simp: left_alone_def rr_live_def split: option.splits prod.splits if_splits)
  then show thesis using that [of z2 a] run(2,5,8) h1(2) fd(3) dec by fastforce
qed

section \<open>Properties\<close>

text \<open>Through the Redis store, a typed read returns only what the last writes put under exactly
  that key: whatever was read, set and deleted under any keys the key format tells apart, and
  whatever the server expired, evicted or failed to do, a get that hits returns a value that the
  last successful set under its key stored, or a set that failed since then.\<close>

lemma redis_cache_returns_last_set:
  assumes "redis_laws R rdata" "lawful_columns cc" "urlencoding_laws U"
    and "lossless_format (rg_format g)" "lossless_compressor (rg_compressor g)"
    and "cache_history (redis_backend cc U R g) (key_ok (rg_key_format g)) (\<lambda>w. True) (redis_view cc U rdata g) w h"
    and "key_ok (rg_key_format g) k"
    and "cache_get (redis_backend cc U R g) k ctx w = ((Ok (Some v), ctx'), w')"
  shows "cv_data v \<in> h k"
  using coherent_cache.history_get_sound [OF redis_laws.coherent [OF assms(1-5)] assms(6-8)] .

theorem redis_cache_returns_last_set_witness:
  "let k = cache_key_from_str ''a'' ''b''; B = redis_backend unary_columns letter_encoding ref_redis_ops demo_redis_config;
       w = snd (cache_set B k (cache_value_new 7 None None) (boxed cache_context_default)
             \<lparr>rw_connected = True, rw_server = \<lparr>rr_now = 0, rr_keys = (\<lambda>k. None)\<rparr>\<rparr>)
   in \<exists>ctx w'. cache_get B k (boxed cache_context_default) w = ((Ok (Some (cache_value_new 7 None None)), ctx), w')
      \<and> (7::nat) \<in> note_set k 7 (Ok ()) (\<lambda>k. {}) k"
proof -
  let ?k = "cache_key_from_str ''a'' ''b''" and ?v = "cache_value_new (7::nat) None None"
  let ?B = "redis_backend unary_columns letter_encoding ref_redis_ops demo_redis_config"
  let ?init = "\<lparr>rw_connected = True, rw_server = \<lparr>rr_now = 0, rr_keys = (\<lambda>k. None)\<rparr>\<rparr> :: ref_redis redis_world"
  let ?w = "snd (cache_set ?B ?k ?v (boxed cache_context_default) ?init)"
  note defs = cache_set_def cache_get_def redis_write_def redis_read_def with_key_def get_connection_def query_def
    redis_write_cmds_def redis_read_cmds_def ref_redis_ops_def demo_redis_config_def bincode_format_def
    passthrough_compressor_def nat_serde_def key_serialize_def ttl_secs_def decode_read_def
    cache_value_new_def into_parts_def cache_meta_new_def cache_context_default_def rr_live_def
  have ok: "key_ok BitcodeKeys ?k" by (simp add: key_ok_def)
  have s: "cache_set ?B ?k ?v (boxed cache_context_default) ?init = ((Ok (), boxed cache_context_default), ?w)"
    by (simp add: defs)
  have g: "\<exists>ctx w'. cache_get ?B ?k (boxed cache_context_default) ?w = ((Ok (Some ?v), ctx), w')"
    by (simp add: defs)
  have h: "cache_history ?B (key_ok BitcodeKeys) (\<lambda>w. True) (redis_view unary_columns letter_encoding rr_data demo_redis_config)
      ?w (note_set ?k (cv_data ?v) (Ok ()) (\<lambda>k. {}))"
    by (rule history_set [where okey = "key_ok BitcodeKeys", OF history_start ok _ s])
      (simp_all add: redis_view_def rr_data_def rr_live_def fun_eq_iff cache_context_default_def split: sum.splits)
  obtain ctx w' where g': "cache_get ?B ?k (boxed cache_context_default) ?w = ((Ok (Some ?v), ctx), w')" using g by blast
  have c: "rg_key_format demo_redis_config = BitcodeKeys" "lossless_format (rg_format demo_redis_config)"
    "lossless_compressor (rg_compressor demo_redis_config)"
    by (simp_all add: demo_redis_config_def lossless_formats)
  have "cv_data ?v \<in> note_set ?k (cv_data ?v) (Ok ()) (\<lambda>k. {}) ?k"
    by (rule redis_cache_returns_last_set [OF ref_redis.redis_laws_axioms lawful_unary_columns
          letters.urlencoding_laws_axioms c(2,3) h [folded c(1)] ok [folded c(1)] g'])
  then show ?thesis using g by (simp add: Let_def)
qed



text \<open>A value with less than a second to live never expires in Redis: the expiry is sent only for
  whole seconds left, so writing such a value, or one already expired, on a free key sends none,
  and a read at any later time finds the value and reports it as having no expiry at all.\<close>

theorem redis_short_lived_value_never_expires:
  assumes "rw_connected w" "key_serialize cc U (rg_key_format g) k = Ok b" "rr_live (rw_server w) b = None"
    and "cv_expire v = Some e" "e < rr_now (rw_server w) + 1000000000" "cv_stale v = None"
  shows "\<exists>w'. redis_read cc U ref_redis_ops g k (redis_at t (snd (redis_write cc U ref_redis_ops g k v w)))
      = (Ok (Some (cache_value_new (cv_data v) None None)), w')"
proof -
  have st: "chrono_time (the (cv_stale v)) \<or> cv_stale v = None" using assms(6) by simp
  note wr = redis_write_ref [OF assms(1,2) st]
  have none: "ttl_secs (rr_now (rw_server w)) v = None"
  proof (rule ccontr)
    assume "ttl_secs (rr_now (rw_server w)) v \<noteq> None"
    then obtain n where n: "ttl_secs (rr_now (rw_server w)) v = Some n" by blast
    show False by (rule ttl_secs_bounds [OF n]) (use assms(4,5) in auto)
  qed
  have l: "rr_live (rw_server (snd (redis_write cc U ref_redis_ops g k v w))) b = Some ((\<lambda>_. None)(''d'' \<mapsto> cv_data v), None)"
    using wr(4) none assms(3,6) by simp
  show ?thesis
    using redis_read_ref [of "redis_at t (snd (redis_write cc U ref_redis_ops g k v w))", OF _ assms(2)]
      rr_live_at_forever [OF l, of t] wr(2) by simp
qed

theorem redis_short_lived_value_never_expires_witness:
  "\<exists>w'. redis_read unary_columns letter_encoding ref_redis_ops demo_redis_config (cache_key_from_str ''a'' ''b'')
      (redis_at 86400000000000 (snd (redis_write unary_columns letter_encoding ref_redis_ops demo_redis_config
        (cache_key_from_str ''a'' ''b'') (cache_value_new [1] (Some 900000000) None)
        \<lparr>rw_connected = True, rw_server = \<lparr>rr_now = 0, rr_keys = (\<lambda>k. None)\<rparr>\<rparr>)))
    = (Ok (Some (cache_value_new [1] None None)), w')"
proof -
  have k: "key_serialize unary_columns letter_encoding (rg_key_format demo_redis_config) (cache_key_from_str ''a'' ''b'')
      = Ok (cache_key_encode unary_columns (cache_key_from_str ''a'' ''b''))"
    by (simp add: key_serialize_def demo_redis_config_def)
  show ?thesis
    using redis_short_lived_value_never_expires
      [OF _ k, of "\<lparr>rw_connected = True, rw_server = \<lparr>rr_now = 0, rr_keys = (\<lambda>k. None)\<rparr>\<rparr>"
        "cache_value_new [1] (Some 900000000) None" 900000000 86400000000000]
    by (simp add: rr_live_def)
qed

text \<open>Overwriting keeps the old metadata: writing a value without stale time and without expiry
  over one that has both sends neither, and leaves the field and the key's expiry of the old value
  in place, so the new value is read with the old value's stale time and goes with the old key.\<close>

theorem redis_overwrite_keeps_old_metadata:
  assumes "rw_connected w" "key_serialize cc U (rg_key_format g) k = Ok b"
    and "cv_stale old = Some s" "chrono_time s" "ttl_secs (rr_now (rw_server w)) old = Some n"
    and "cv_stale new = None" "cv_expire new = None"
  shows "\<exists>w'. redis_read cc U ref_redis_ops g k
        (snd (redis_write cc U ref_redis_ops g k new (snd (redis_write cc U ref_redis_ops g k old w))))
      = (Ok (Some (cache_value_new (cv_data new) (Some (rr_now (rw_server w) + int n * 1000000000))
                     (Some (s div 1000000 * 1000000)))), w')"
proof -
  have so: "chrono_time (the (cv_stale old)) \<or> cv_stale old = None" using assms(3,4) by simp
  have sn: "chrono_time (the (cv_stale new)) \<or> cv_stale new = None" using assms(6) by simp
  note w1 = redis_write_ref [OF assms(1,2) so]
  note w2 = redis_write_ref [OF w1(2) assms(2) sn]
  have none: "ttl_secs t new = None" for t using assms(7) by (simp add: ttl_secs_def)
  have pos: "0 < n" using ttl_secs_bounds [OF assms(5)] by blast
  have i64: "- (2 ^ 63) \<le> timestamp_millis s" "timestamp_millis s < 2 ^ 63"
    using assms(4) by (auto simp: chrono_time_def timestamp_def timestamp_millis_def)
  have n: "(int n * 1000000000) div 1000000 * 1000000 = int n * 1000000000" by simp
  show ?thesis
    using redis_read_ref [OF w2(2) assms(2)] w2(3,4) w1(3,4) assms(3,5,6) none pos i64 n from_timestamp_millis_back [OF assms(4)]
    by (auto simp: Let_def split: option.splits prod.splits)
qed

theorem redis_overwrite_keeps_old_metadata_witness:
  "\<exists>w'. redis_read unary_columns letter_encoding ref_redis_ops demo_redis_config (cache_key_from_str ''a'' ''b'')
      (snd (redis_write unary_columns letter_encoding ref_redis_ops demo_redis_config (cache_key_from_str ''a'' ''b'')
        (cache_value_new [2] None None)
        (snd (redis_write unary_columns letter_encoding ref_redis_ops demo_redis_config (cache_key_from_str ''a'' ''b'')
          (cache_value_new [1] (Some 2500000000) (Some 1000000000))
          \<lparr>rw_connected = True, rw_server = \<lparr>rr_now = 0, rr_keys = (\<lambda>k. None)\<rparr>\<rparr>))))
    = (Ok (Some (cache_value_new [2] (Some 2000000000) (Some 1000000000))), w')"
proof -
  have k: "key_serialize unary_columns letter_encoding (rg_key_format demo_redis_config) (cache_key_from_str ''a'' ''b'')
      = Ok (cache_key_encode unary_columns (cache_key_from_str ''a'' ''b''))"
    by (simp add: key_serialize_def demo_redis_config_def)
  show ?thesis
    using redis_overwrite_keeps_old_metadata
      [OF _ k, of "\<lparr>rw_connected = True, rw_server = \<lparr>rr_now = 0, rr_keys = (\<lambda>k. None)\<rparr>\<rparr>"
        "cache_value_new [1] (Some 2500000000) (Some 1000000000)" 1000000000 2 "cache_value_new [2] None None"]
    by (auto simp: chrono_time_def timestamp_def ttl_secs_def num_seconds_def nanos_per_sec_def)
qed

end
