(* ===== verification/Tiered.thy ===== *)
theory Tiered
  imports Composition_Spec Store_Moka Store_Redis
begin

text \<open>
  A Redis store behind an in-memory one, the composition the crates are made for: the two stores
  meet the demands of \<open>two_layers\<close>, so what is proved of compositions holds of this one.
\<close>

lemma dyn_backend_raw [simp]:
  "be_read (dyn_backend B) = be_read B" "be_write (dyn_backend B) = be_write B" "be_remove (dyn_backend B) = be_remove B"
  "be_format (dyn_backend B) = be_format B" "be_compressor (dyn_backend B) = be_compressor B" "be_label (dyn_backend B) = be_label B"
  by (simp_all add: dyn_backend_def)

lemma cache_set_dyn [simp]: "cache_set (dyn_backend B) = cache_set B"
  unfolding fun_eq_iff cache_set_def dyn_backend_raw by blast

lemma cache_delete_dyn [simp]: "cache_delete (dyn_backend B) = cache_delete B"
  unfolding fun_eq_iff cache_delete_def dyn_backend_raw by blast

lemma dyn_backend_typed [simp]:
  "kb_get (dyn_backend B) = cache_get B" "kb_set (dyn_backend B) = cache_set B" "kb_delete (dyn_backend B) = cache_delete B"
  by (simp_all add: dyn_backend_def)

lemma store_defaults:
  "kb_delete (moka_backend M b) = cache_delete (moka_backend M b)"
  "kb_delete (redis_backend cc U R g) = cache_delete (redis_backend cc U R g)"
  "kb_set (redis_backend cc U R g) = cache_set (redis_backend cc U R g)"
  "kb_set (moka_backend M b) = cache_set (moka_backend M b)"
  unfolding moka_backend_def redis_backend_def by simp_all

lemma cache_store_weaken: "cache_store B okey iv view \<Longrightarrow> (\<And>k. okey' k \<Longrightarrow> okey k) \<Longrightarrow> cache_store B okey' iv view"
  unfolding cache_store_def by blast

lemma compose_with_sel [simp]:
  "xb_l1 (compose_with l1 l2 p) = l1" "xb_l2 (compose_with l1 l2 p) = l2"
  "xb_read_policy (compose_with l1 l2 p) = xp_read p" "xb_write_policy (compose_with l1 l2 p) = xp_write p"
  "xb_refill_policy (compose_with l1 l2 p) = xp_refill p"
  by (simp_all add: compose_with_def composition_with_policy_def composition_new_def Let_def)

lemma compose_with_lossless:
  assumes "lossless_format (be_format l1)" "lossless_compressor (be_compressor l1)"
    and "lossless_format (be_format l2)" "lossless_compressor (be_compressor l2)"
    and "fm_type_id (be_format l1) \<noteq> fm_type_id (be_format l2) \<or> fm_ser (be_format l1) = fm_ser (be_format l2)"
  shows "lossless_composition (xb_format (compose_with l1 l2 p))"
  using assms
  by (auto simp: compose_with_def composition_with_policy_def composition_new_def composition_format_new_def
      lossless_composition_def same_format_def Let_def)

abbreviation moka_over_redis ::
  "'c moka_ops \<Rightarrow> 'a moka_builder \<Rightarrow> column_codec \<Rightarrow> urlencoding \<Rightarrow> 'r redis_ops \<Rightarrow> 'a redis_config \<Rightarrow> composition_policy
   \<Rightarrow> ('c, 'r redis_world, 'a) composition" where
  "moka_over_redis M b cc U R g p \<equiv> compose_with (moka_backend M b) (redis_backend cc U R g) p"

lemma moka_over_redis_layers:
  assumes "moka_laws M held" "lossless_format (mb_format b)" "lossless_compressor (mb_compressor b)"
    and "redis_laws R rdata" "lawful_columns cc" "urlencoding_laws U"
    and "lossless_format (rg_format g)" "lossless_compressor (rg_compressor g)"
    and "fm_type_id (mb_format b) \<noteq> fm_type_id (rg_format g) \<or> fm_ser (mb_format b) = fm_ser (rg_format g)"
  shows "two_layers (moka_over_redis M b cc U R g p) (key_ok (rg_key_format g))
    (\<lambda>c. True) (moka_content held) (\<lambda>w. True) (redis_view cc U rdata g)"
proof -
  have "cache_store (moka_backend M b) (key_ok (rg_key_format g)) (\<lambda>c. True) (moka_content held)"
    using moka_laws.coherent [OF assms(1-3)] cache_store_weaken unfolding coherent_cache_def by blast
  moreover have "cache_store (redis_backend cc U R g) (key_ok (rg_key_format g)) (\<lambda>w. True) (redis_view cc U rdata g)"
    using redis_laws.coherent [OF assms(4-8)] unfolding coherent_cache_def by blast
  moreover have "lossless_composition (xb_format (moka_over_redis M b cc U R g p))"
    by (rule compose_with_lossless) (use assms(2,3,7-9) in simp_all)
  ultimately show ?thesis
    unfolding two_layers_def two_layers_axioms_def by (simp add: store_defaults)
qed

section \<open>The two layers together\<close>

definition demo_tiers :: "composition_policy \<Rightarrow> (ref_moka, ref_redis redis_world, nat) composition" where
  "demo_tiers p = moka_over_redis ref_moka_ops (mb_max_entries 100 (moka_builder_new nat_serde))
     unary_columns letter_encoding ref_redis_ops demo_redis_config p"

lemma format_ids: "fm_type_id (json_format S) = FmtJson" "fm_type_id (bincode_format S) = FmtBincode"
  by (simp_all add: json_format_def bincode_format_def)

lemma demo_formats:
  "lossless_format (mb_format (mb_max_entries 100 (moka_builder_new nat_serde)))"
  "lossless_compressor (mb_compressor (mb_max_entries 100 (moka_builder_new nat_serde)))"
  "lossless_format (rg_format demo_redis_config)" "lossless_compressor (rg_compressor demo_redis_config)"
  "fm_type_id (mb_format (mb_max_entries 100 (moka_builder_new nat_serde))) \<noteq> fm_type_id (rg_format demo_redis_config)"
  "rg_key_format demo_redis_config = BitcodeKeys"
  by (simp_all add: mb_max_entries_def moka_builder_new_def demo_redis_config_def lossless_formats format_ids)

interpretation demo_tiers: two_layers "demo_tiers p" "key_ok BitcodeKeys"
  "\<lambda>c. True" "moka_content rm_held" "\<lambda>w. True" "redis_view unary_columns letter_encoding rr_data demo_redis_config"
  for p
  unfolding demo_tiers_def
  using moka_over_redis_layers [OF ref_moka.moka_laws_axioms demo_formats(1,2) ref_redis.redis_laws_axioms
      lawful_unary_columns letters.urlencoding_laws_axioms demo_formats(3,4) disjI1 [OF demo_formats(5)], of p]
  by (simp add: demo_formats)

text \<open>What runs the demonstration composition.\<close>

lemmas demo_run = demo_tiers_def compose_with_def composition_with_policy_def composition_new_def composition_format_new_def
  policy_write_def composition_policy_new_def moka_read_def moka_write_def ref_moka_ops_def
  mb_max_entries_def moka_builder_new_def json_format_def passthrough_compressor_def nat_serde_def
  expire_after_create_def calculate_ttl_def cache_value_new_def into_parts_def cache_meta_new_def
  cache_context_default_def redis_write_def redis_read_def with_key_def get_connection_def query_def
  redis_write_cmds_def redis_read_cmds_def ref_redis_ops_def demo_redis_config_def bincode_format_def
  key_serialize_def ttl_secs_def decode_read_def rr_live_def with_tasks_def read_layer_def deserialize_layer_def
  layer_codec_def on_l1_def on_l2_def read_execute_def sequential_read_def write_execute_def sequential_write_def
  serialize_parts_def same_format_def source_label_def boxed_def Let_def
  cache_set_def store_defaults

definition demo_sched :: "'s \<Rightarrow> schedule" where
  "demo_sched st = \<lparr>sc_first = L1, sc_loser_ran = False, sc_clock1 = 0, sc_clock2 = 0\<rparr>"

definition demo_empty :: "(ref_moka, ref_redis redis_world) comp_state" where
  "demo_empty =
     \<lparr>co_layers = \<lparr>ly_l1 = \<lparr>rm_now = 0, rm_held = (\<lambda>k. None)\<rparr>,
        ly_l2 = \<lparr>rw_connected = True, rw_server = \<lparr>rr_now = 0, rr_keys = (\<lambda>k. None)\<rparr>\<rparr>\<rparr>, co_tasks = []\<rparr>"

text \<open>C12. Through an in-memory store over Redis, with any read, write and refill policy and any
  schedule, a get returns only what the history of that key allows, as long as every key used, in the history and in the get, is
  one that Redis' key format tells apart: any key with the default bitcode format, and with the URL-encoded format a key that the URL form
  keeps (others may collide, see C33), and the formats and compressors of both layers lose nothing and are not confusable.  Whatever was read, set,
  refilled and deleted, whatever entries the stores dropped, and in whatever order the tasks handed
  to the background ran, a hit returns a value that some set stored under exactly that key, not
  before a delete that removed it from both layers; and when the writes are sequential, not before
  the last successful set.\<close>

theorem tiered_cache_returns_written:
  assumes "moka_laws M held" "lossless_format (mb_format b)" "lossless_compressor (mb_compressor b)"
    and "redis_laws R rdata" "lawful_columns cc" "urlencoding_laws U"
    and "lossless_format (rg_format g)" "lossless_compressor (rg_compressor g)"
    and "fm_type_id (mb_format b) \<noteq> fm_type_id (rg_format g) \<or> fm_ser (mb_format b) = fm_ser (rg_format g)"
    and "C = compose_with (moka_backend M b) (redis_backend cc U R g) p"
    and "layered_history C (key_ok (rg_key_format g)) (\<lambda>c. True) (moka_content held) (\<lambda>w. True) (redis_view cc U rdata g) st h"
    and "key_ok (rg_key_format g) k"
    and "composition_get sched C k ctx st = ((Ok (Some v), ctx'), st')"
  shows "cv_data v \<in> h k"
  using two_layers.layered_get_sound [OF moka_over_redis_layers [OF assms(1-9), of p] assms(11-13) [unfolded assms(10)]] .

theorem tiered_cache_returns_written_witness:
  "let k = cache_key_from_str ''a'' ''b''; C = demo_tiers (policy_write SequentialWrite composition_policy_new);
       st' = snd (composition_set demo_sched C k (cache_value_new 7 None None) (boxed cache_context_default) demo_empty)
   in \<exists>ctx st''. composition_get demo_sched C k (boxed cache_context_default) st' = ((Ok (Some (cache_value_new 7 None None)), ctx), st'')
      \<and> (7::nat) \<in> {7}"
proof -
  let ?k = "cache_key_from_str ''a'' ''b''" and ?v = "cache_value_new (7::nat) None None"
  let ?p = "policy_write SequentialWrite composition_policy_new" and ?ctx = "boxed cache_context_default"
  let ?st = "snd (composition_set demo_sched (demo_tiers ?p) ?k ?v ?ctx demo_empty)"
  have s: "composition_set demo_sched (demo_tiers ?p) ?k ?v ?ctx demo_empty = ((Ok (), ?ctx), ?st)"
    by (simp add: composition_set_normal demo_run demo_empty_def)
  have g: "\<exists>ctx st'. composition_get demo_sched (demo_tiers ?p) ?k ?ctx ?st = ((Ok (Some ?v), ctx), st')"
    by (simp add: composition_set_normal composition_get_def demo_run demo_empty_def)
  have h: "layered_history (demo_tiers ?p) (key_ok BitcodeKeys) (\<lambda>c. True) (moka_content rm_held) (\<lambda>w. True)
      (redis_view unary_columns letter_encoding rr_data demo_redis_config) ?st
      (note_layered_set (demo_tiers ?p) ?k (cv_data ?v) ?ctx (Ok ()) (\<lambda>k. {}))"
    by (rule layered_set [OF _ _ s], unfold demo_empty_def, rule layered_start)
      (simp_all add: moka_content_def redis_view_def rr_data_def rr_live_def fun_eq_iff key_ok_def split: sum.splits)
  have n: "note_layered_set (demo_tiers ?p) ?k (cv_data ?v) ?ctx (Ok ()) (\<lambda>k. {}) ?k = {7}"
    by (simp add: note_layered_set_def demo_tiers_def policy_write_def composition_policy_new_def
        cache_context_default_def note_set_def cache_value_new_def boxed_def)
  obtain ctx st' where g': "composition_get demo_sched (demo_tiers ?p) ?k ?ctx ?st = ((Ok (Some ?v), ctx), st')" using g by blast
  have "cv_data ?v \<in> note_layered_set (demo_tiers ?p) ?k (cv_data ?v) ?ctx (Ok ()) (\<lambda>k. {}) ?k"
    by (rule tiered_cache_returns_written [OF ref_moka.moka_laws_axioms demo_formats(1,2) ref_redis.redis_laws_axioms
          lawful_unary_columns letters.urlencoding_laws_axioms demo_formats(3,4) disjI1 [OF demo_formats(5)]
          demo_tiers_def h [folded demo_formats(6)] _ g'])
      (simp add: demo_formats key_ok_def)
  then show ?thesis using g n by (simp add: Let_def cache_value_new_def)
qed

end
