(* ===== verification/Metrics.thy ===== *)
theory Metrics
  imports Tiered
begin

text \<open>
  The metrics of the backends (hitbox-backend/src/metrics.rs, hitbox-moka/src/metrics.rs) and where the
  typed operations record them (hitbox-backend/src/backend.rs, composition/mod.rs).  What the code hands to
  the \<open>metrics\<close> crate is a log of events; the recorder that adds them up is not the code's.  The
  cargo feature is a flag: without it every recording function is empty and no clock is read.
\<close>

section \<open>What is recorded\<close>

type_synonym metric_labels = "(string \<times> string) list"

text \<open>Amounts of gauges are whole numbers; a histogram records a duration, which the code
  hands over in seconds.\<close>

datatype metric_event =
    CounterIncrement string metric_labels "64 word"
  | GaugeIncrement string metric_labels nat
  | GaugeDecrement string metric_labels nat
  | GaugeSet string metric_labels nat
  | HistogramRecord string metric_labels duration

text \<open>The log, and how many times the clock was read; \<open>mt_instant\<close> says what the readings gave.\<close>

record meter =
  me_log :: "metric_event list"
  me_readings :: nat

record metering =
  mt_enabled :: bool
  mt_instant :: "nat \<Rightarrow> nat"

definition instant_now :: "metering \<Rightarrow> meter \<Rightarrow> nat \<times> meter" where
  "instant_now M m = (mt_instant M (me_readings m), m\<lparr>me_readings := Suc (me_readings m)\<rparr>)"

definition emit :: "metric_event list \<Rightarrow> meter \<Rightarrow> meter" where
  "emit es m = m\<lparr>me_log := me_log m @ es\<rparr>"

text \<open>A recording function has an empty twin for builds without the feature.\<close>

definition recording :: "metering \<Rightarrow> metric_event list \<Rightarrow> meter \<Rightarrow> meter" where
  "recording M es m = (if mt_enabled M then emit es m else m)"

section \<open>The timer\<close>

type_synonym timer = "nat option"

definition timer_new :: "metering \<Rightarrow> meter \<Rightarrow> timer \<times> meter" where
  "timer_new M m = (if mt_enabled M then (case instant_now M m of (t, m) \<Rightarrow> (Some t, m)) else (None, m))"

definition timer_elapsed :: "metering \<Rightarrow> timer \<Rightarrow> meter \<Rightarrow> duration \<times> meter" where
  "timer_elapsed M t m =
     (case t of
        Some start \<Rightarrow> (case instant_now M m of (now, m) \<Rightarrow> (now - start, m))
      | None \<Rightarrow> (0, m))"

section \<open>Names and recording functions\<close>

definition backend_read_total :: string where "backend_read_total = ''hitbox_backend_read_total''"
definition backend_read_duration :: string where "backend_read_duration = ''hitbox_backend_read_duration_seconds''"
definition backend_read_bytes :: string where "backend_read_bytes = ''hitbox_backend_read_bytes_total''"
definition backend_read_errors :: string where "backend_read_errors = ''hitbox_backend_read_errors_total''"
definition backend_write_total :: string where "backend_write_total = ''hitbox_backend_write_total''"
definition backend_write_duration :: string where "backend_write_duration = ''hitbox_backend_write_duration_seconds''"
definition backend_write_bytes :: string where "backend_write_bytes = ''hitbox_backend_write_bytes_total''"
definition backend_write_errors :: string where "backend_write_errors = ''hitbox_backend_write_errors_total''"
definition backend_decompress_duration :: string where
  "backend_decompress_duration = ''hitbox_backend_decompress_duration_seconds''"
definition backend_compress_duration :: string where
  "backend_compress_duration = ''hitbox_backend_compress_duration_seconds''"
definition backend_deserialize_duration :: string where
  "backend_deserialize_duration = ''hitbox_backend_deserialize_duration_seconds''"
definition backend_serialize_duration :: string where
  "backend_serialize_duration = ''hitbox_backend_serialize_duration_seconds''"

lemmas metric_names = backend_read_total_def backend_read_duration_def backend_read_bytes_def backend_read_errors_def
  backend_write_total_def backend_write_duration_def backend_write_bytes_def backend_write_errors_def
  backend_decompress_duration_def backend_compress_duration_def backend_deserialize_duration_def backend_serialize_duration_def

definition of_backend :: "string \<Rightarrow> metric_labels" where
  "of_backend b = [(''backend'', b)]"

definition record_read :: "metering \<Rightarrow> string \<Rightarrow> duration \<Rightarrow> meter \<Rightarrow> meter" where
  "record_read M b d = recording M
     [CounterIncrement backend_read_total (of_backend b) 1, HistogramRecord backend_read_duration (of_backend b) d]"

definition record_read_bytes :: "metering \<Rightarrow> string \<Rightarrow> nat \<Rightarrow> meter \<Rightarrow> meter" where
  "record_read_bytes M b n = recording M [CounterIncrement backend_read_bytes (of_backend b) (word_of_nat n)]"

definition record_read_error :: "metering \<Rightarrow> string \<Rightarrow> meter \<Rightarrow> meter" where
  "record_read_error M b = recording M [CounterIncrement backend_read_errors (of_backend b) 1]"

definition record_write :: "metering \<Rightarrow> string \<Rightarrow> duration \<Rightarrow> meter \<Rightarrow> meter" where
  "record_write M b d = recording M
     [CounterIncrement backend_write_total (of_backend b) 1, HistogramRecord backend_write_duration (of_backend b) d]"

definition record_write_bytes :: "metering \<Rightarrow> string \<Rightarrow> nat \<Rightarrow> meter \<Rightarrow> meter" where
  "record_write_bytes M b n = recording M [CounterIncrement backend_write_bytes (of_backend b) (word_of_nat n)]"

definition record_write_error :: "metering \<Rightarrow> string \<Rightarrow> meter \<Rightarrow> meter" where
  "record_write_error M b = recording M [CounterIncrement backend_write_errors (of_backend b) 1]"

definition record_decompress :: "metering \<Rightarrow> string \<Rightarrow> duration \<Rightarrow> meter \<Rightarrow> meter" where
  "record_decompress M b d = recording M [HistogramRecord backend_decompress_duration (of_backend b) d]"

definition record_compress :: "metering \<Rightarrow> string \<Rightarrow> duration \<Rightarrow> meter \<Rightarrow> meter" where
  "record_compress M b d = recording M [HistogramRecord backend_compress_duration (of_backend b) d]"

definition record_deserialize :: "metering \<Rightarrow> string \<Rightarrow> duration \<Rightarrow> meter \<Rightarrow> meter" where
  "record_deserialize M b d = recording M [HistogramRecord backend_deserialize_duration (of_backend b) d]"

definition record_serialize :: "metering \<Rightarrow> string \<Rightarrow> duration \<Rightarrow> meter \<Rightarrow> meter" where
  "record_serialize M b d = recording M [HistogramRecord backend_serialize_duration (of_backend b) d]"

section \<open>Timed operations\<close>

text \<open>An operation on a store between a new timer and its elapsed time, which is recorded whatever
  the outcome; and a step of the codec, whose error leaves before anything is recorded.\<close>

definition timed ::
  "metering \<Rightarrow> (duration \<Rightarrow> meter \<Rightarrow> meter) \<Rightarrow> ('s \<Rightarrow> 'r \<times> 's) \<Rightarrow> 's \<times> meter \<Rightarrow> 'r \<times> ('s \<times> meter)" where
  "timed M rec op w =
     (case timer_new M (snd w) of (t, m) \<Rightarrow>
      case op (fst w) of (r, s) \<Rightarrow>
      case timer_elapsed M t m of (d, m) \<Rightarrow> (r, (s, rec d m)))"

definition timed_step ::
  "metering \<Rightarrow> (duration \<Rightarrow> meter \<Rightarrow> meter) \<Rightarrow> ('a, 'e) result \<Rightarrow> meter \<Rightarrow> ('a, 'e) result \<times> meter" where
  "timed_step M rec r m =
     (case timer_new M m of (t, m) \<Rightarrow>
        (case r of
           Inl e \<Rightarrow> (Err e, m)
         | Inr a \<Rightarrow> (case timer_elapsed M t m of (d, m) \<Rightarrow> (Ok a, rec d m))))"

text \<open>The raw operations, recorded under a label: a typed backend's own, or, inside a composition,
  the composed one.\<close>

definition metered_read ::
  "metering \<Rightarrow> string \<Rightarrow> ('s, 'a, 'z) backend_scheme \<Rightarrow> cache_key \<Rightarrow> 's \<times> meter
   \<Rightarrow> (bytes cache_value option, backend_error) result \<times> ('s \<times> meter)" where
  "metered_read M label B key w =
     (case timed M (record_read M label) (be_read B key) w of
        (r, (s, m)) \<Rightarrow>
          (r, (s, (case r of
                     Inr (Some v) \<Rightarrow> record_read_bytes M label (length (cv_data v)) m
                   | Inr None \<Rightarrow> m
                   | Inl e \<Rightarrow> record_read_error M label m))))"

definition metered_write ::
  "metering \<Rightarrow> string \<Rightarrow> ('s, 'a, 'z) backend_scheme \<Rightarrow> cache_key \<Rightarrow> bytes cache_value \<Rightarrow> 's \<times> meter
   \<Rightarrow> (unit, backend_error) result \<times> ('s \<times> meter)" where
  "metered_write M label B key v w =
     (case timed M (record_write M label) (be_write B key v) w of
        (r, (s, m)) \<Rightarrow>
          (r, (s, (case r of
                     Inr _ \<Rightarrow> record_write_bytes M label (length (cv_data v)) m
                   | Inl e \<Rightarrow> record_write_error M label m))))"

definition unmetered :: "('s \<Rightarrow> 'r \<times> 's) \<Rightarrow> 's \<times> meter \<Rightarrow> 'r \<times> ('s \<times> meter)" where
  "unmetered op w = (case op (fst w) of (r, s) \<Rightarrow> (r, (s, snd w)))"

section \<open>The typed operations\<close>

definition metered_set ::
  "metering \<Rightarrow> ('s, 'a, 'z) backend_scheme \<Rightarrow> cache_key \<Rightarrow> 'a cache_value \<Rightarrow> box_context \<Rightarrow> 's \<times> meter
   \<Rightarrow> ((unit, backend_error) result \<times> box_context) \<times> ('s \<times> meter)" where
  "metered_set M B key v ctx w =
     (if ctx_read_mode ctx = Refill then ((Ok (), ctx), w)
      else
        (let label = label_str (be_label B) in
         case timed_step M (record_serialize M label) (fm_ser (be_format B) (cv_data v) ctx) (snd w) of
           (Inl e, m) \<Rightarrow> ((Err (FormatErr e), ctx), (fst w, m))
         | (Inr serialized_value, m) \<Rightarrow>
             (case timed_step M (record_compress M label) (cp_compress (be_compressor B) serialized_value) m of
                (Inl e, m) \<Rightarrow> ((Err (CompressionErr e), ctx), (fst w, m))
              | (Inr compressed_value, m) \<Rightarrow>
                  (case metered_write M label B key (cache_value_new compressed_value (cv_expire v) (cv_stale v)) (fst w, m) of
                     (r, w) \<Rightarrow> ((r, ctx), w)))))"

definition metered_get ::
  "metering \<Rightarrow> ('s, 'a, 'z) backend_scheme \<Rightarrow> cache_key \<Rightarrow> box_context \<Rightarrow> 's \<times> meter
   \<Rightarrow> (('a cache_value option, backend_error) result \<times> box_context) \<times> ('s \<times> meter)" where
  "metered_get M B key ctx w =
     (let label = label_str (be_label B) in
      case metered_read M label B key w of
        (Inl e, w) \<Rightarrow> ((Err e, ctx), w)
      | (Inr None, w) \<Rightarrow> ((Ok None, ctx), w)
      | (Inr (Some v), (s, m)) \<Rightarrow>
          (case into_parts v of
             (meta, raw_data) \<Rightarrow>
               (case timed_step M (record_decompress M label) (cp_decompress (be_compressor B) raw_data) m of
                  (Inl e, m) \<Rightarrow> ((Err (CompressionErr e), ctx), (s, m))
                | (Inr decompressed, m) \<Rightarrow>
                    (case fm_de (be_format B) decompressed ctx of
                       (r, ctx) \<Rightarrow>
                         (case timed_step M (record_deserialize M label) r m of
                            (Inl e, m) \<Rightarrow> ((Err (FormatErr e), ctx), (s, m))
                          | (Inr None, m) \<Rightarrow>
                              ((Err (InternalError (BoxMsg ''deserialization produced no result'')), ctx), (s, m))
                          | (Inr (Some deserialized), m) \<Rightarrow>
                              (let cached_value = cache_value_new deserialized (cm_expire meta) (cm_stale meta);
                                   (ctx, w) = (if ctx_read_mode ctx = Refill
                                               then (case metered_set M B key cached_value ctx (s, m) of ((_, ctx), w) \<Rightarrow> (ctx, w))
                                               else (ctx, (s, m)));
                                   ctx = ctx_set_source (SrcBackend (be_label B)) (ctx_set_status Hit ctx)
                               in ((Ok (Some cached_value), ctx), w)))))))"

definition metered_delete ::
  "('s, 'a, 'z) backend_scheme \<Rightarrow> cache_key \<Rightarrow> box_context \<Rightarrow> 's \<times> meter
   \<Rightarrow> ((delete_status, backend_error) result \<times> box_context) \<times> ('s \<times> meter)" where
  "metered_delete B key ctx = unmetered (cache_delete B key ctx)"

text \<open>A store with the typed operations of the trait, and a layer of a composition: the composition records its raw reads
  and writes under the composed label, in a meter of its own, and leaves its typed operations what they are, recorded by the layer
  itself.  A layer may be a composition.\<close>

definition metered_backend :: "metering \<Rightarrow> ('s, 'a, 'z) backend_scheme \<Rightarrow> ('s \<times> meter, 'a) cache_backend" where
  "metered_backend M B =
     \<lparr>be_read = (\<lambda>k. unmetered (be_read B k)), be_write = (\<lambda>k v. unmetered (be_write B k v)),
      be_remove = (\<lambda>k. unmetered (be_remove B k)), be_label = be_label B, be_format = be_format B, be_compressor = be_compressor B,
      kb_get = metered_get M B, kb_set = metered_set M B, kb_delete = metered_delete B\<rparr>"

definition metered_layer :: "metering \<Rightarrow> string \<Rightarrow> ('s, 'a) cache_backend \<Rightarrow> ('s \<times> meter, 'a) cache_backend" where
  "metered_layer M label B =
     \<lparr>be_read = metered_read M label B, be_write = metered_write M label B, be_remove = (\<lambda>k. unmetered (be_remove B k)),
      be_label = be_label B, be_format = be_format B, be_compressor = be_compressor B,
      kb_get = (\<lambda>k ctx. unmetered (kb_get B k ctx)), kb_set = (\<lambda>k v ctx. unmetered (kb_set B k v ctx)),
      kb_delete = (\<lambda>k ctx. unmetered (kb_delete B k ctx))\<rparr>"

definition metered_composition ::
  "metering \<Rightarrow> ('s1, 's2, 'a) composition \<Rightarrow> ('s1 \<times> meter, 's2 \<times> meter, 'a) composition" where
  "metered_composition M C =
     \<lparr>xb_l1 = metered_layer M (xb_l1_label C) (xb_l1 C), xb_l2 = metered_layer M (xb_l2_label C) (xb_l2 C),
      xb_format = xb_format C, xb_read_policy = xb_read_policy C, xb_write_policy = xb_write_policy C,
      xb_refill_policy = xb_refill_policy C, xb_label = xb_label C, xb_l1_label = xb_l1_label C, xb_l2_label = xb_l2_label C\<rparr>"

section \<open>Recording changes nothing\<close>

lemma timed_erased: "apsnd fst (timed M rec op w) = op (fst w)"
  by (simp add: timed_def split: prod.split)

lemma timed_step_erased [simp]: "fst (timed_step M rec r m) = r"
  by (simp add: timed_step_def split: prod.split sum.split)

lemma metered_read_erased: "apsnd fst (metered_read M label B key w) = be_read B key (fst w)"
  using timed_erased [of M "record_read M label" "be_read B key" w]
  by (auto simp: metered_read_def split: prod.split)

lemma metered_write_erased: "apsnd fst (metered_write M label B key v w) = be_write B key v (fst w)"
  using timed_erased [of M "record_write M label" "be_write B key v" w]
  by (auto simp: metered_write_def split: prod.split)

lemma unmetered_erased [simp]: "apsnd fst (unmetered op w) = op (fst w)"
  by (simp add: unmetered_def split: prod.split)

lemma timed_step_meter: "\<exists>m'. timed_step M rec r m = (r, m')"
  by (metis surj_pair timed_step_erased fst_conv)

lemma metered_set_erased: "apsnd fst (metered_set M B key v ctx w) = cache_set B key v ctx (fst w)"
proof -
  let ?label = "label_str (be_label B)"
  obtain m where m: "timed_step M (record_serialize M ?label) (fm_ser (be_format B) (cv_data v) ctx) (snd w)
      = (fm_ser (be_format B) (cv_data v) ctx, m)"
    using timed_step_meter by blast
  show ?thesis
  proof (cases "fm_ser (be_format B) (cv_data v) ctx")
    case (Inr b)
    obtain m' where m': "timed_step M (record_compress M ?label) (cp_compress (be_compressor B) b) m
        = (cp_compress (be_compressor B) b, m')"
      using timed_step_meter by blast
    show ?thesis
    proof (cases "cp_compress (be_compressor B) b")
      case c: (Inr z)
      obtain r s m'' where wr: "metered_write M ?label B key (cache_value_new z (cv_expire v) (cv_stale v)) (fst w, m') = (r, (s, m''))"
        by (metis surj_pair)
      then have "be_write B key (cache_value_new z (cv_expire v) (cv_stale v)) (fst w) = (r, s)"
        using metered_write_erased [of M ?label B key "cache_value_new z (cv_expire v) (cv_stale v)" "(fst w, m')"] by simp
      then show ?thesis using m m' Inr c wr by (simp add: metered_set_def cache_set_def Let_def)
    qed (use m m' Inr in \<open>simp add: metered_set_def cache_set_def Let_def\<close>)
  qed (use m in \<open>simp add: metered_set_def cache_set_def Let_def\<close>)
qed

lemma metered_get_erased: "apsnd fst (metered_get M B key ctx w) = cache_get B key ctx (fst w)"
proof -
  let ?label = "label_str (be_label B)"
  obtain r s m where rd: "metered_read M ?label B key w = (r, (s, m))" by (metis surj_pair)
  then have rd': "be_read B key (fst w) = (r, s)"
    using metered_read_erased [of M ?label B key w] by simp
  show ?thesis
  proof (cases "\<exists>v. r = Ok (Some v)")
    case False
    then show ?thesis using rd rd' by (auto simp: metered_get_def cache_get_def Let_def split: sum.split option.split)
  next
    case True
    then obtain v where v: "r = Ok (Some v)" by blast
    obtain m1 where m1: "timed_step M (record_decompress M ?label) (cp_decompress (be_compressor B) (cv_data v)) m
        = (cp_decompress (be_compressor B) (cv_data v), m1)" using timed_step_meter by blast
    show ?thesis
    proof (cases "cp_decompress (be_compressor B) (cv_data v)")
      case (Inl e)
      then show ?thesis using rd rd' v m1 by (simp add: metered_get_def cache_get_def Let_def into_parts_def)
    next
      case (Inr b)
      obtain d ctx1 where d: "fm_de (be_format B) b ctx = (d, ctx1)" by fastforce
      obtain m2 where m2: "timed_step M (record_deserialize M ?label) d m1 = (d, m2)" using timed_step_meter by blast
      show ?thesis
      proof (cases "\<exists>x. d = Ok (Some x)")
        case False
        then show ?thesis using rd rd' v m1 Inr d m2
          by (auto simp: metered_get_def cache_get_def Let_def into_parts_def split: sum.split option.split)
      next
        case True
        then obtain x where x: "d = Ok (Some x)" by blast
        show ?thesis using rd rd' v m1 Inr d m2 x
          by (simp add: metered_get_def cache_get_def Let_def into_parts_def metered_set_def cache_set_def)
      qed
    qed
  qed
qed

section \<open>The codec of a composition\<close>

text \<open>The codec of a composition records under the label of the layer whose bytes it makes or reads; a
  serialization that the second layer shares with the first is not recorded again.\<close>

definition and_metered ::
  "('a, 'e) result \<times> meter \<Rightarrow> ('a \<Rightarrow> meter \<Rightarrow> ('b, 'e) result \<times> meter) \<Rightarrow> ('b, 'e) result \<times> meter" where
  "and_metered p f = (case p of (Inl e, m) \<Rightarrow> (Err e, m) | (Inr a, m) \<Rightarrow> f a m)"

definition metered_encode ::
  "metering \<Rightarrow> string \<Rightarrow> 'a format \<Rightarrow> compressor \<Rightarrow> 'a \<Rightarrow> box_context \<Rightarrow> meter \<Rightarrow> (bytes, format_error) result \<times> meter" where
  "metered_encode M label format compressor v ctx m =
     and_metered (timed_step M (record_serialize M label) (fm_ser format v ctx) m) (\<lambda>serialized.
       timed_step M (record_compress M label) (map_err serialize_error (cp_compress compressor serialized)))"

definition metered_serialize_layer ::
  "metering \<Rightarrow> 'a composition_format \<Rightarrow> composition_layer \<Rightarrow> 'a \<Rightarrow> box_context \<Rightarrow> meter \<Rightarrow> (bytes, format_error) result \<times> meter" where
  "metered_serialize_layer M F layer v ctx =
     (case layer_codec F layer of
        (format, compressor) \<Rightarrow> metered_encode M (label_for_layer (xf_labels F) layer) format compressor v ctx)"

definition metered_serialize_parts ::
  "metering \<Rightarrow> 'a composition_format \<Rightarrow> 'a \<Rightarrow> box_context \<Rightarrow> meter \<Rightarrow> (bytes \<times> bytes, format_error) result \<times> meter" where
  "metered_serialize_parts M F v ctx m =
     (let l1 = ll_l1 (xf_labels F); l2 = ll_l2 (xf_labels F) in
      and_metered (timed_step M (record_serialize M l1) (fm_ser (xf_l1_format F) v ctx) m) (\<lambda>l1_serialized m.
      and_metered (timed_step M (record_compress M l1) (map_err serialize_error (cp_compress (xf_l1_compressor F) l1_serialized)) m)
        (\<lambda>l1_compressed m.
      and_metered (if same_format F then (Ok l1_serialized, m)
                else timed_step M (record_serialize M l2) (fm_ser (xf_l2_format F) v ctx) m) (\<lambda>l2_serialized m.
      and_metered (timed_step M (record_compress M l2) (map_err serialize_error (cp_compress (xf_l2_compressor F) l2_serialized)) m)
        (\<lambda>l2_compressed m.
      (Ok (l1_compressed, l2_compressed), m))))))"

definition metered_decode ::
  "metering \<Rightarrow> string \<Rightarrow> 'a format \<Rightarrow> compressor \<Rightarrow> bytes \<Rightarrow> box_context \<Rightarrow> meter
   \<Rightarrow> (('a option, format_error) result \<times> box_context) \<times> meter" where
  "metered_decode M label format compressor data ctx m =
     (case timed_step M (record_decompress M label) (cp_decompress compressor data) m of
        (Inl e, m) \<Rightarrow> ((Err (DeserializeErr (BoxCompression e)), ctx), m)
      | (Inr decompressed, m) \<Rightarrow>
          (case fm_de format decompressed ctx of
             (r, ctx) \<Rightarrow> (case timed_step M (record_deserialize M label) r m of (r, m) \<Rightarrow> ((r, ctx), m))))"

definition metered_deserialize_layer ::
  "metering \<Rightarrow> 'a composition_format \<Rightarrow> bytes \<Rightarrow> composition_layer \<Rightarrow> box_context \<Rightarrow> meter
   \<Rightarrow> (('a option, format_error) result \<times> box_context) \<times> meter" where
  "metered_deserialize_layer M F data layer ctx =
     (case layer_codec F layer of
        (format, compressor) \<Rightarrow> metered_decode M (label_for_layer (xf_labels F) layer) format compressor data ctx)"

lemma and_metered_erased [simp]: "fst (and_metered p f) = rbind (fst p) (\<lambda>a. fst (f a (snd p)))"
  by (cases p; cases "fst p") (auto simp: and_metered_def)

lemma decode_erased:
  "fst (metered_decode M l format compressor data ctx m) =
     (case cp_decompress compressor data of
        Inl e \<Rightarrow> (Err (DeserializeErr (BoxCompression e)), ctx)
      | Inr decompressed \<Rightarrow> fm_de format decompressed ctx)"
proof -
  obtain m1 where m1: "timed_step M (record_decompress M l) (cp_decompress compressor data) m = (cp_decompress compressor data, m1)"
    using timed_step_meter by blast
  show ?thesis
  proof (cases "cp_decompress compressor data")
    case (Inr b)
    obtain r ctx1 where r: "fm_de format b ctx = (r, ctx1)" by fastforce
    obtain m2 where "timed_step M (record_deserialize M l) r m1 = (r, m2)" using timed_step_meter by blast
    then show ?thesis using m1 Inr r by (simp add: metered_decode_def)
  qed (use m1 in \<open>simp add: metered_decode_def\<close>)
qed

lemma codec_erased:
  "fst (metered_serialize_layer M F layer v ctx m) = serialize_layer F layer v ctx"
  "fst (metered_serialize_parts M F v ctx m) = serialize_parts F v ctx"
  "fst (metered_deserialize_layer M F data layer ctx m) = deserialize_layer F data layer ctx"
proof -
  show "fst (metered_serialize_layer M F layer v ctx m) = serialize_layer F layer v ctx"
    by (simp add: metered_serialize_layer_def metered_encode_def serialize_layer_def split: prod.split)
  show "fst (metered_serialize_parts M F v ctx m) = serialize_parts F v ctx"
    by (cases "same_format F") (simp_all add: metered_serialize_parts_def serialize_parts_def Let_def)
  show "fst (metered_deserialize_layer M F data layer ctx m) = deserialize_layer F data layer ctx"
    by (simp add: metered_deserialize_layer_def decode_erased deserialize_layer_def split: prod.split)
qed

text \<open>The codec as the format of a composition that is used through its raw operations.\<close>

definition metered_with_serializer ::
  "metering \<Rightarrow> 'a composition_format \<Rightarrow> 'a \<Rightarrow> box_context \<Rightarrow> meter \<Rightarrow> (bytes, format_error) result \<times> meter" where
  "metered_with_serializer M F v ctx m =
     (let pack = (\<lambda>env. map_err (\<lambda>e. SerializeErr (BoxBackend e)) (envelope_serialize env)) in
      if (case ctx of CompositionCtx _ _ _ \<Rightarrow> True | PlainCtx _ \<Rightarrow> False) \<and> ctx_read_mode ctx = Refill then
        and_metered (metered_encode M (ll_l1 (xf_labels F)) (xf_l1_format F) (xf_l1_compressor F) v ctx m) (\<lambda>l1_compressed m.
          (pack (EnvL1 (cache_value_new l1_compressed None None)), m))
      else
        and_metered (metered_serialize_parts M F v ctx m) (\<lambda>(l1_compressed, l2_compressed) m.
          (pack (EnvBoth (cache_value_new l1_compressed None None) (cache_value_new l2_compressed None None)), m)))"

definition metered_with_deserializer ::
  "metering \<Rightarrow> 'a composition_format \<Rightarrow> bytes \<Rightarrow> box_context \<Rightarrow> meter
   \<Rightarrow> (('a option, format_error) result \<times> box_context) \<times> meter" where
  "metered_with_deserializer M F data ctx m =
     (case read_envelope data of
        Inl e \<Rightarrow> ((Err (DeserializeErr (BoxBackend e)), ctx), m)
      | Inr composition \<Rightarrow>
          (case (case composition of
                   EnvL1 v \<Rightarrow> (cv_data v, xf_l1_format F, xf_l1_compressor F, L1)
                 | EnvL2 v \<Rightarrow> (cv_data v, xf_l2_format F, xf_l2_compressor F, L2)
                 | EnvBoth l1 l2 \<Rightarrow> (cv_data l1, xf_l1_format F, xf_l1_compressor F, L1)) of
             (compressed_data, format, compressor, source) \<Rightarrow>
               (case metered_decode M (label_for_layer (xf_labels F) source) format compressor compressed_data ctx m of
                  ((Inl e, ctx), m) \<Rightarrow> ((Err e, ctx), m)
                | ((Inr r, ctx), m) \<Rightarrow> ((Ok r, upgrade_context source (xf_labels F) ctx), m))))"

lemma format_erased:
  "fst (metered_with_serializer M F v ctx m) = composition_with_serializer F v ctx"
  "fst (metered_with_deserializer M F data ctx m) = composition_with_deserializer F data ctx"
proof -
  have parts: "fst (metered_serialize_parts M F v ctx m) = serialize_parts F v ctx" by (rule codec_erased(2))
  show "fst (metered_with_serializer M F v ctx m) = composition_with_serializer F v ctx"
    unfolding metered_with_serializer_def composition_with_serializer_def Let_def
    by (simp add: parts metered_encode_def case_prod_beta) (simp add: serialize_parts_def)
  have "fst (case metered_decode M l format compressor b ctx m of
          ((Inl e, ctx), m) \<Rightarrow> ((Err e, ctx), m) | ((Inr r, ctx), m) \<Rightarrow> ((Ok r, upgrade_context source (xf_labels F) ctx), m))
      = (case cp_decompress compressor b of
           Inl e \<Rightarrow> (Err (DeserializeErr (BoxCompression e)), ctx)
         | Inr decompressed \<Rightarrow>
             (case fm_de format decompressed ctx of
                (Inl e, ctx) \<Rightarrow> (Err e, ctx)
              | (Inr r, ctx) \<Rightarrow> (Ok r, upgrade_context source (xf_labels F) ctx)))" for l format compressor b source
  proof -
    obtain r ctx1 m1 where d: "metered_decode M l format compressor b ctx m = ((r, ctx1), m1)" by (metis surj_pair)
    then have "(r, ctx1) = (case cp_decompress compressor b of Inl e \<Rightarrow> (Err (DeserializeErr (BoxCompression e)), ctx)
        | Inr decompressed \<Rightarrow> fm_de format decompressed ctx)"
      using decode_erased [of M l format compressor b ctx m] by simp
    then show ?thesis using d by (cases "cp_decompress compressor b") (auto split: prod.split sum.split)
  qed
  then show "fst (metered_with_deserializer M F data ctx m) = composition_with_deserializer F data ctx"
    unfolding metered_with_deserializer_def composition_with_deserializer_def
    by (cases "read_envelope data") (auto split: composition_envelope.split)
qed

section \<open>Compositions\<close>

text \<open>The typed operations of a composition of metered layers.  What is serialized for both layers is recorded, under their
  labels, in the log of the first.\<close>

definition metered_read_layer ::
  "metering \<Rightarrow> 'a composition_format \<Rightarrow> composition_layer \<Rightarrow> ('s \<times> meter, 'a) cache_backend \<Rightarrow> cache_key \<Rightarrow> box_context
   \<Rightarrow> ('a, 's \<times> meter) layer_read" where
  "metered_read_layer M F layer B key ctx w =
     (case be_read B key w of
        (Inl e, w) \<Rightarrow> ((Err e, ctx), w)
      | (Inr None, w) \<Rightarrow> ((Ok None, ctx), w)
      | (Inr (Some raw_value), (s, m)) \<Rightarrow>
          (case into_parts raw_value of
             (meta, raw_data) \<Rightarrow>
               (case metered_deserialize_layer M F raw_data layer ctx m of
                  ((Inr (Some deserialized), ctx), m) \<Rightarrow>
                    ((Ok (Some (cache_value_new deserialized (cm_expire meta) (cm_stale meta))),
                      ctx_set_source (SrcBackend (source_label ctx (be_label B))) (ctx_set_status Hit ctx)), (s, m))
                | ((Inr None, ctx), m) \<Rightarrow>
                    ((Err (InternalError (BoxMsg ''deserialization produced no result'')), ctx), (s, m))
                | ((Inl e, ctx), m) \<Rightarrow> ((Err (InternalError (BoxFormat e)), ctx), (s, m)))))"

definition metered_composition_get ::
  "metering \<Rightarrow> (('s1 \<times> meter, 's2 \<times> meter) comp_state \<Rightarrow> schedule) \<Rightarrow> ('s1 \<times> meter, 's2 \<times> meter, 'a) composition
   \<Rightarrow> cache_key \<Rightarrow> box_context \<Rightarrow> ('s1 \<times> meter, 's2 \<times> meter) comp_state
   \<Rightarrow> (('a cache_value option, backend_error) result \<times> box_context) \<times> ('s1 \<times> meter, 's2 \<times> meter) comp_state" where
  "metered_composition_get M sched C key ctx st =
     (let read_l1 = on_l1 (metered_read_layer M (xb_format C) L1 (xb_l1 C) key ctx);
          read_l2 = on_l2 (metered_read_layer M (xb_format C) L2 (xb_l2 C) key ctx)
      in case with_tasks (read_execute (xb_read_policy C) (sched st) read_l1 read_l2) st of
           (Inl e, st) \<Rightarrow> ((Err e, ctx), st)
         | (Inr r, st) \<Rightarrow>
             ((Ok (rv_value r),
               if rv_value r = None then ctx
               else (let ctx = merge_from (rv_context r) (xb_label C) ctx in
                     if rv_source r = L2 \<and> xb_refill_policy C = RefillAlways
                     then ctx_set_read_mode Refill ctx else ctx)), st))"

definition in_l1_meter ::
  "(meter \<Rightarrow> 'r \<times> meter) \<Rightarrow> ('s1 \<times> meter, 's2) layers \<Rightarrow> 'r \<times> ('s1 \<times> meter, 's2) layers" where
  "in_l1_meter f ly = on_l1 (\<lambda>(s, m). case f m of (r, m) \<Rightarrow> (r, (s, m))) ly"

definition metered_refill_l1 ::
  "metering \<Rightarrow> ('s1 \<times> meter, 's2 \<times> meter, 'a) composition \<Rightarrow> cache_key \<Rightarrow> 'a cache_value \<Rightarrow> box_context
   \<Rightarrow> ('s1 \<times> meter, 's2 \<times> meter) layers \<Rightarrow> (unit, backend_error) result \<times> ('s1 \<times> meter, 's2 \<times> meter) layers" where
  "metered_refill_l1 M C key v ctx ly =
     (case in_l1_meter (metered_serialize_layer M (xb_format C) L1 (cv_data v) ctx) ly of
        (Inl e, ly) \<Rightarrow> (Err (InternalError (BoxFormat e)), ly)
      | (Inr l1_bytes, ly) \<Rightarrow> on_l1 (be_write (xb_l1 C) key (cache_value_new l1_bytes (cv_expire v) (cv_stale v))) ly)"

definition metered_composition_set ::
  "metering \<Rightarrow> (('s1 \<times> meter, 's2 \<times> meter) comp_state \<Rightarrow> schedule) \<Rightarrow> ('s1 \<times> meter, 's2 \<times> meter, 'a) composition
   \<Rightarrow> cache_key \<Rightarrow> 'a cache_value \<Rightarrow> box_context \<Rightarrow> ('s1 \<times> meter, 's2 \<times> meter) comp_state
   \<Rightarrow> ((unit, backend_error) result \<times> box_context) \<times> ('s1 \<times> meter, 's2 \<times> meter) comp_state" where
  "metered_composition_set M sched C key v ctx st =
     (if ctx_read_mode ctx = Refill then
        (case xb_refill_policy C of
           RefillAlways \<Rightarrow>
             (case direct (metered_refill_l1 M C key v ctx) st of
                (Inl e, st) \<Rightarrow> ((Err e, ctx), st)
              | (Inr _, st) \<Rightarrow> direct (set_l2 C key v ctx) st)
         | RefillNever \<Rightarrow> ((Ok (), ctx), st))
      else
        (case ctx of
           CompositionCtx inner L2 _ \<Rightarrow>
             (case xb_refill_policy C of
                RefillAlways \<Rightarrow>
                  (case direct (metered_refill_l1 M C key v ctx) st of
                     (Inl e, st) \<Rightarrow> ((Err e, ctx), st)
                   | (Inr _, st) \<Rightarrow> (case direct (set_l2 C key v inner) st of ((r, _), st) \<Rightarrow> ((r, ctx), st)))
              | RefillNever \<Rightarrow> (case direct (set_l2 C key v inner) st of ((r, _), st) \<Rightarrow> ((r, ctx), st)))
         | _ \<Rightarrow>
             (let schedule = sched st in
              case direct (in_l1_meter (metered_serialize_parts M (xb_format C) (cv_data v) ctx)) st of
                (Inl e, st) \<Rightarrow> ((Err (InternalError (BoxFormat e)), ctx), st)
              | (Inr (l1_bytes, l2_bytes), st) \<Rightarrow>
                  (let write_l1 = on_l1 (be_write (xb_l1 C) key (cache_value_new l1_bytes (cv_expire v) (cv_stale v)));
                       write_l2 = on_l2 (be_write (xb_l2 C) key (cache_value_new l2_bytes (cv_expire v) (cv_stale v)))
                   in case with_tasks (write_execute (xb_write_policy C) schedule write_l1 write_l2) st of
                        (r, st) \<Rightarrow> ((r, ctx), st)))))"

text \<open>A composition with its recordings; its deletions and raw operations have no codec, so they are those of the
  composition of metered layers.\<close>

definition metered_composition_backend ::
  "metering \<Rightarrow> (('s1 \<times> meter, 's2 \<times> meter) comp_state \<Rightarrow> schedule) \<Rightarrow> ('s1, 's2, 'a) composition
   \<Rightarrow> (('s1 \<times> meter, 's2 \<times> meter) comp_state, 'a) cache_backend" where
  "metered_composition_backend M sched C =
     (let D = metered_composition M C in
      \<lparr>be_read = composition_raw_read sched D, be_write = composition_raw_write sched D,
       be_remove = composition_raw_remove sched D, be_label = xb_label D,
       be_format = composition_as_format (xb_format D), be_compressor = passthrough_compressor,
       kb_get = metered_composition_get M sched D, kb_set = metered_composition_set M sched D,
       kb_delete = composition_delete sched D\<rparr>)"

subsection \<open>Doing the same up to the meters\<close>

text \<open>An operation that does what another one does, on states that \<open>R\<close> relates; tasks and outcomes of a policy likewise.\<close>

definition erases :: "('t \<Rightarrow> 's \<Rightarrow> bool) \<Rightarrow> ('t \<Rightarrow> 'r \<times> 't) \<Rightarrow> ('s \<Rightarrow> 'r \<times> 's) \<Rightarrow> bool" where
  "erases R f g \<longleftrightarrow> (\<forall>w s. R w s \<longrightarrow> fst (f w) = fst (g s) \<and> R (snd (f w)) (snd (g s)))"

definition task_erases :: "('t \<Rightarrow> 's \<Rightarrow> bool) \<Rightarrow> 't task \<Rightarrow> 's task \<Rightarrow> bool" where
  "task_erases R t' t \<longleftrightarrow> fst t' = fst t \<and> (\<forall>w s. R w s \<longrightarrow> R (snd t' w) (snd t s))"

definition outcome_erases :: "('t \<Rightarrow> 's \<Rightarrow> bool) \<Rightarrow> 'r \<times> 't task list \<times> 't \<Rightarrow> 'r \<times> 's task list \<times> 's \<Rightarrow> bool" where
  "outcome_erases R p q \<longleftrightarrow>
     fst p = fst q \<and> list_all2 (task_erases R) (fst (snd p)) (fst (snd q)) \<and> R (snd (snd p)) (snd (snd q))"

text \<open>Two backends that do the same.\<close>

definition backend_erases :: "('t \<Rightarrow> 's \<Rightarrow> bool) \<Rightarrow> ('t, 'a) cache_backend \<Rightarrow> ('s, 'a) cache_backend \<Rightarrow> bool" where
  "backend_erases R B' B \<longleftrightarrow>
     (\<forall>k. erases R (be_read B' k) (be_read B k)) \<and> (\<forall>k v. erases R (be_write B' k v) (be_write B k v))
     \<and> (\<forall>k. erases R (be_remove B' k) (be_remove B k))
     \<and> be_label B' = be_label B \<and> be_format B' = be_format B \<and> be_compressor B' = be_compressor B
     \<and> (\<forall>k ctx. erases R (kb_get B' k ctx) (kb_get B k ctx)) \<and> (\<forall>k v ctx. erases R (kb_set B' k v ctx) (kb_set B k v ctx))
     \<and> (\<forall>k ctx. erases R (kb_delete B' k ctx) (kb_delete B k ctx))"

lemma erasesE:
  assumes "erases R f g" "R w s"
  obtains r w' s' where "f w = (r, w')" "g s = (r, s')" "R w' s'"
  using assms unfolding erases_def by (metis prod.collapse)

lemma erases_eqI: "(\<And>w. apsnd fst (f w) = g (fst w)) \<Longrightarrow> erases (\<lambda>w s. fst w = s) f g"
  unfolding erases_def by (metis fst_apsnd snd_apsnd)

lemma erases_task: "erases R f g \<Longrightarrow> task_erases R (k, \<lambda>w. snd (f w)) (k, \<lambda>s. snd (g s))"
  unfolding task_erases_def erases_def by simp

lemma join_both_erased:
  assumes "erases R f1 g1" "erases R f2 g2"
  shows "erases R (join_both first f1 f2) (join_both first g1 g2)"
  unfolding erases_def [of R "join_both first f1 f2"]
proof (intro allI impI)
  fix w s assume R: "R w s"
  obtain a w1 s1 where a: "f1 w = (a, w1)" "g1 s = (a, s1)" "R w1 s1" using erasesE [OF assms(1) R] by blast
  obtain b w2 s2 where b: "f2 w1 = (b, w2)" "g2 s1 = (b, s2)" "R w2 s2" using erasesE [OF assms(2) a(3)] by blast
  obtain c w3 s3 where c: "f2 w = (c, w3)" "g2 s = (c, s3)" "R w3 s3" using erasesE [OF assms(2) R] by blast
  obtain d w4 s4 where d: "f1 w3 = (d, w4)" "g1 s3 = (d, s4)" "R w4 s4" using erasesE [OF assms(1) c(3)] by blast
  show "fst (join_both first f1 f2 w) = fst (join_both first g1 g2 s)
    \<and> R (snd (join_both first f1 f2 w)) (snd (join_both first g1 g2 s))"
    by (cases first) (simp_all add: join_both_def a b c d)
qed

lemma loser_end_erased:
  assumes "erases R f g" "R w s"
  shows "list_all2 (task_erases R) (fst (loser_end loser sch k (\<lambda>w. snd (f w)) w)) (fst (loser_end loser sch k (\<lambda>s. snd (g s)) s))"
    "R (snd (loser_end loser sch k (\<lambda>w. snd (f w)) w)) (snd (loser_end loser sch k (\<lambda>s. snd (g s)) s))"
proof -
  have "R (snd (f w)) (snd (g s))" using assms unfolding erases_def by blast
  then show "list_all2 (task_erases R) (fst (loser_end loser sch k (\<lambda>w. snd (f w)) w)) (fst (loser_end loser sch k (\<lambda>s. snd (g s)) s))"
    "R (snd (loser_end loser sch k (\<lambda>w. snd (f w)) w)) (snd (loser_end loser sch k (\<lambda>s. snd (g s)) s))"
    using erases_task [OF assms(1)] assms(2) by (auto simp: loser_end_def split: loser_policy.split)
qed

lemma read_execute_erased:
  assumes "erases R f1 g1" "erases R f2 g2" "R w s"
  shows "outcome_erases R (read_execute p sch f1 f2 w) (read_execute p sch g1 g2 s)"
proof (cases p)
  case SequentialRead
  obtain l1 c1 w1 s1 where f1: "f1 w = ((l1, c1), w1)" "g1 s = ((l1, c1), s1)" "R w1 s1"
    using erasesE [OF assms(1,3)] by (metis surj_pair)
  obtain l2 c2 w2 s2 where f2: "f2 w1 = ((l2, c2), w2)" "g2 s1 = ((l2, c2), s2)" "R w2 s2"
    using erasesE [OF assms(2) f1(3)] by (metis surj_pair)
  show ?thesis using f1 f2
    by (auto simp: SequentialRead read_execute_def sequential_read_def outcome_erases_def Let_def split: sum.split option.split)
next
  case ParallelRead
  obtain l1 l2 w' s' where "join_both (sc_first sch) f1 f2 w = ((l1, l2), w')" "join_both (sc_first sch) g1 g2 s = ((l1, l2), s')" "R w' s'"
    using erasesE [OF join_both_erased [OF assms(1,2)] assms(3)] by (metis surj_pair)
  then show ?thesis by (simp add: ParallelRead read_execute_def parallel_read_def outcome_erases_def case_prod_beta)
next
  case (RaceRead loser)
  obtain l1 c1 w1 s1 where f1: "f1 w = ((l1, c1), w1)" "g1 s = ((l1, c1), s1)" "R w1 s1"
    using erasesE [OF assms(1,3)] by (metis surj_pair)
  obtain m2 w12 s12 where f12: "f2 w1 = (m2, w12)" "g2 s1 = (m2, s12)" "R w12 s12" using erasesE [OF assms(2) f1(3)] by blast
  obtain l2 c2 w2 s2 where f2: "f2 w = ((l2, c2), w2)" "g2 s = ((l2, c2), s2)" "R w2 s2"
    using erasesE [OF assms(2,3)] by (metis surj_pair)
  obtain m1 w21 s21 where f21: "f1 w2 = (m1, w21)" "g1 s2 = (m1, s21)" "R w21 s21" using erasesE [OF assms(1) f2(3)] by blast
  note l = loser_end_erased [OF assms(1) f2(3)] loser_end_erased [OF assms(2) f1(3)]
  show ?thesis using f1 f12 f2 f21
    by (auto simp: RaceRead read_execute_def race_read_def outcome_erases_def l
        split: composition_layer.split sum.split option.split prod.split)
qed

lemma write_execute_erased:
  assumes "erases R f1 g1" "erases R f2 g2" "R w s"
  shows "outcome_erases R (write_execute p sch f1 f2 w) (write_execute p sch g1 g2 s)"
proof (cases p)
  case SequentialWrite
  obtain l1 w1 s1 where f1: "f1 w = (l1, w1)" "g1 s = (l1, s1)" "R w1 s1" using erasesE [OF assms(1,3)] by blast
  obtain l2 w2 s2 where f2: "f2 w1 = (l2, w2)" "g2 s1 = (l2, s2)" "R w2 s2" using erasesE [OF assms(2) f1(3)] by blast
  show ?thesis using f1 f2
    by (auto simp: SequentialWrite write_execute_def sequential_write_def outcome_erases_def split: sum.split)
next
  case OptimisticParallelWrite
  obtain l1 l2 w' s' where "join_both (sc_first sch) f1 f2 w = ((l1, l2), w')" "join_both (sc_first sch) g1 g2 s = ((l1, l2), s')" "R w' s'"
    using erasesE [OF join_both_erased [OF assms(1,2)] assms(3)] by (metis surj_pair)
  then show ?thesis
    by (simp add: OptimisticParallelWrite write_execute_def optimistic_parallel_write_def outcome_erases_def split: sum.split)
next
  case (RaceWrite loser)
  obtain l1 w1 s1 where f1: "f1 w = (l1, w1)" "g1 s = (l1, s1)" "R w1 s1" using erasesE [OF assms(1,3)] by blast
  obtain m2 w12 s12 where f12: "f2 w1 = (m2, w12)" "g2 s1 = (m2, s12)" "R w12 s12" using erasesE [OF assms(2) f1(3)] by blast
  obtain l2 w2 s2 where f2: "f2 w = (l2, w2)" "g2 s = (l2, s2)" "R w2 s2" using erasesE [OF assms(2,3)] by blast
  obtain m1 w21 s21 where f21: "f1 w2 = (m1, w21)" "g1 s2 = (m1, s21)" "R w21 s21" using erasesE [OF assms(1) f2(3)] by blast
  note l = loser_end_erased [OF assms(1) f2(3)] loser_end_erased [OF assms(2) f1(3)]
  show ?thesis using f1 f12 f2 f21
    by (auto simp: RaceWrite write_execute_def race_write_def outcome_erases_def l
        split: composition_layer.split sum.split prod.split)
qed

text \<open>The states of a composition with and without meters.\<close>

definition over_meter :: "('t \<Rightarrow> 's \<Rightarrow> bool) \<Rightarrow> 't \<times> meter \<Rightarrow> 's \<Rightarrow> bool" where
  "over_meter R w s \<longleftrightarrow> R (fst w) s"

definition layers_relate :: "('t1 \<Rightarrow> 's1 \<Rightarrow> bool) \<Rightarrow> ('t2 \<Rightarrow> 's2 \<Rightarrow> bool) \<Rightarrow> ('t1, 't2) layers \<Rightarrow> ('s1, 's2) layers \<Rightarrow> bool" where
  "layers_relate R1 R2 ly' ly \<longleftrightarrow> R1 (ly_l1 ly') (ly_l1 ly) \<and> R2 (ly_l2 ly') (ly_l2 ly)"

definition states_relate :: "('t1 \<Rightarrow> 's1 \<Rightarrow> bool) \<Rightarrow> ('t2 \<Rightarrow> 's2 \<Rightarrow> bool) \<Rightarrow> ('t1, 't2) comp_state \<Rightarrow> ('s1, 's2) comp_state \<Rightarrow> bool" where
  "states_relate R1 R2 st' st \<longleftrightarrow> layers_relate R1 R2 (co_layers st') (co_layers st)
     \<and> list_all2 (task_erases (layers_relate R1 R2)) (co_tasks st') (co_tasks st)"

definition composition_erases ::
  "('t1 \<Rightarrow> 's1 \<Rightarrow> bool) \<Rightarrow> ('t2 \<Rightarrow> 's2 \<Rightarrow> bool) \<Rightarrow> ('t1, 't2, 'a) composition \<Rightarrow> ('s1, 's2, 'a) composition \<Rightarrow> bool" where
  "composition_erases R1 R2 C' C \<longleftrightarrow>
     backend_erases R1 (xb_l1 C') (xb_l1 C) \<and> backend_erases R2 (xb_l2 C') (xb_l2 C)
     \<and> xb_format C' = xb_format C \<and> xb_read_policy C' = xb_read_policy C \<and> xb_write_policy C' = xb_write_policy C
     \<and> xb_refill_policy C' = xb_refill_policy C \<and> xb_label C' = xb_label C"

lemma over_meter_erasesI:
  assumes "erases R f g" "\<And>w. apsnd fst (f' w) = f (fst w)"
  shows "erases (over_meter R) f' g"
  unfolding erases_def
proof (intro allI impI)
  fix w s assume "over_meter R w s"
  then obtain r t s' where "f (fst w) = (r, t)" "g s = (r, s')" "R t s'"
    using erasesE [OF assms(1)] unfolding over_meter_def by blast
  then show "fst (f' w) = fst (g s) \<and> over_meter R (snd (f' w)) (snd (g s))"
    using assms(2) [of w] by (cases "f' w") (simp add: over_meter_def)
qed

lemma unmetered_erases:
  assumes "erases R f g"
  shows "erases (over_meter R) (unmetered f) g"
  by (rule over_meter_erasesI [where f = f]) (simp_all add: assms)

lemma metered_ops_erase:
  "erases R (be_read B' k) g \<Longrightarrow> erases (over_meter R) (metered_read M l B' k) g"
  "erases R (be_write B' k v) h \<Longrightarrow> erases (over_meter R) (metered_write M l B' k v) h"
  by (rule over_meter_erasesI [where f = "be_read B' k"], assumption, rule metered_read_erased)
    (rule over_meter_erasesI [where f = "be_write B' k v"], assumption, rule metered_write_erased)

lemma metered_layer_erases: "backend_erases R B' B \<Longrightarrow> backend_erases (over_meter R) (metered_layer M l B') B"
  unfolding backend_erases_def metered_layer_def by (simp add: metered_ops_erase unmetered_erases)

lemma metered_backend_erases: "backend_erases (\<lambda>w s. fst w = s) (metered_backend M B) (dyn_backend B)"
  unfolding backend_erases_def metered_backend_def dyn_backend_def
  by (auto intro!: erases_eqI simp: metered_get_erased metered_set_erased metered_delete_def)

lemma metered_composition_erases:
  "composition_erases R1 R2 C' C \<Longrightarrow> composition_erases (over_meter R1) (over_meter R2) (metered_composition M C') C"
  unfolding composition_erases_def metered_composition_def by (simp add: metered_layer_erases)

lemma on_l1_erased: "erases R1 f g \<Longrightarrow> erases (layers_relate R1 R2) (on_l1 f) (on_l1 g)"
  by (auto simp: erases_def on_l1_def layers_relate_def split: prod.split) (metis fst_conv snd_conv)+

lemma on_l2_erased: "erases R2 f g \<Longrightarrow> erases (layers_relate R1 R2) (on_l2 f) (on_l2 g)"
  by (auto simp: erases_def on_l2_def layers_relate_def split: prod.split) (metis fst_conv snd_conv)+

lemma with_tasks_erased:
  assumes "\<And>ly' ly. layers_relate R1 R2 ly' ly \<Longrightarrow> outcome_erases (layers_relate R1 R2) (f ly') (g ly)" "states_relate R1 R2 st' st"
  shows "fst (with_tasks f st') = fst (with_tasks g st) \<and> states_relate R1 R2 (snd (with_tasks f st')) (snd (with_tasks g st))"
proof -
  obtain r ts ly where f: "f (co_layers st') = (r, ts, ly)" by (metis surj_pair)
  obtain r0 ts0 ly0 where g: "g (co_layers st) = (r0, ts0, ly0)" by (metis surj_pair)
  show ?thesis
    using assms(1) [of "co_layers st'" "co_layers st"] assms(2) f g
    by (auto simp: with_tasks_def states_relate_def outcome_erases_def list_all2_appendI)
qed

lemma direct_erased: "erases (layers_relate R1 R2) f g \<Longrightarrow> erases (states_relate R1 R2) (direct f) (direct g)"
  by (auto simp: erases_def direct_def states_relate_def split: prod.split) (metis fst_conv snd_conv)+

lemma reads_erased:
  assumes "erases R1 f1 g1" "erases R2 f2 g2"
  shows "erases (states_relate R1 R2) (with_tasks (read_execute p sch (on_l1 f1) (on_l2 f2)))
    (with_tasks (read_execute p sch (on_l1 g1) (on_l2 g2)))"
  unfolding erases_def
proof (intro allI impI)
  fix w s assume "states_relate R1 R2 w s"
  then show "fst (with_tasks (read_execute p sch (on_l1 f1) (on_l2 f2)) w) = fst (with_tasks (read_execute p sch (on_l1 g1) (on_l2 g2)) s)
    \<and> states_relate R1 R2 (snd (with_tasks (read_execute p sch (on_l1 f1) (on_l2 f2)) w))
        (snd (with_tasks (read_execute p sch (on_l1 g1) (on_l2 g2)) s))"
    by (intro with_tasks_erased read_execute_erased on_l1_erased on_l2_erased assms)
qed

lemma writes_erased:
  assumes "erases R1 f1 g1" "erases R2 f2 g2"
  shows "erases (states_relate R1 R2) (with_tasks (write_execute p sch (on_l1 f1) (on_l2 f2)))
    (with_tasks (write_execute p sch (on_l1 g1) (on_l2 g2)))"
  unfolding erases_def
proof (intro allI impI)
  fix w s assume "states_relate R1 R2 w s"
  then show "fst (with_tasks (write_execute p sch (on_l1 f1) (on_l2 f2)) w) = fst (with_tasks (write_execute p sch (on_l1 g1) (on_l2 g2)) s)
    \<and> states_relate R1 R2 (snd (with_tasks (write_execute p sch (on_l1 f1) (on_l2 f2)) w))
        (snd (with_tasks (write_execute p sch (on_l1 g1) (on_l2 g2)) s))"
    by (intro with_tasks_erased write_execute_erased on_l1_erased on_l2_erased assms)
qed

lemma run_task_erased:
  assumes "states_relate R1 R2 st' st"
  shows "states_relate R1 R2 (run_task n st') (run_task n st)"
proof (cases "n < length (co_tasks st)")
  case True
  have "task_erases (layers_relate R1 R2) (co_tasks st' ! n) (co_tasks st ! n)"
    using assms True list_all2_nthD2 unfolding states_relate_def by blast
  then show ?thesis
    using assms True unfolding states_relate_def run_task_def task_erases_def
    by (auto simp: list_all2_lengthD intro!: list_all2_appendI list_all2_takeI list_all2_dropI)
next
  case False
  then show ?thesis using assms list_all2_lengthD unfolding states_relate_def run_task_def by fastforce
qed

subsection \<open>The operations of a composition\<close>

lemma metered_read_layer_erased:
  assumes "backend_erases (over_meter R) B' B"
  shows "erases (over_meter R) (metered_read_layer M F layer B' key ctx) (read_layer F layer B key ctx)"
  unfolding erases_def
proof (intro allI impI)
  fix w s assume R: "over_meter R w s"
  have e: "erases (over_meter R) (be_read B' key) (be_read B key)" and l: "be_label B' = be_label B"
    using assms by (simp_all add: backend_erases_def)
  obtain r w1 s1 where rd0: "be_read B' key w = (r, w1)" "be_read B key s = (r, s1)" "over_meter R w1 s1"
    by (rule erasesE [OF e R])
  obtain t m where w1: "w1 = (t, m)" by (rule prod.exhaust)
  have rd: "be_read B' key w = (r, (t, m))" "be_read B key s = (r, s1)" "R t s1"
    using rd0 w1 by (simp_all add: over_meter_def)
  show "fst (metered_read_layer M F layer B' key ctx w) = fst (read_layer F layer B key ctx s)
    \<and> over_meter R (snd (metered_read_layer M F layer B' key ctx w)) (snd (read_layer F layer B key ctx s))"
  proof (cases "\<exists>v. r = Ok (Some v)")
    case False
    then show ?thesis using rd
      by (auto simp: metered_read_layer_def read_layer_def over_meter_def split: sum.split option.split)
  next
    case True
    then obtain v where v: "r = Ok (Some v)" by blast
    obtain d c m1 where d: "metered_deserialize_layer M F (cv_data v) layer ctx m = ((d, c), m1)" by (metis surj_pair)
    then have "deserialize_layer F (cv_data v) layer ctx = (d, c)" using codec_erased(3) by (metis fst_conv)
    then show ?thesis using rd v d l
      by (auto simp: metered_read_layer_def read_layer_def into_parts_def over_meter_def split: sum.split option.split)
  qed
qed

lemma metered_get_of_layers_erased:
  assumes "composition_erases (over_meter R1) (over_meter R2) D C"
    and "\<forall>st' st. states_relate (over_meter R1) (over_meter R2) st' st \<longrightarrow> sched' st' = sched st"
  shows "erases (states_relate (over_meter R1) (over_meter R2)) (metered_composition_get M sched' D k ctx) (composition_get sched C k ctx)"
  unfolding erases_def
proof (intro allI impI)
  let ?R = "states_relate (over_meter R1) (over_meter R2)"
  fix st' st assume R: "?R st' st"
  have same: "xb_format D = xb_format C" "xb_read_policy D = xb_read_policy C" "xb_refill_policy D = xb_refill_policy C"
    "xb_label D = xb_label C" "sched' st' = sched st"
    using assms R by (simp_all add: composition_erases_def)
  have b: "backend_erases (over_meter R1) (xb_l1 D) (xb_l1 C)" "backend_erases (over_meter R2) (xb_l2 D) (xb_l2 C)"
    using assms(1) by (simp_all add: composition_erases_def)
  from erasesE [OF reads_erased [OF metered_read_layer_erased [OF b(1)] metered_read_layer_erased [OF b(2)]] R]
  obtain r w' s' where
    "with_tasks (read_execute (xb_read_policy C) (sched st) (on_l1 (metered_read_layer M (xb_format C) L1 (xb_l1 D) k ctx))
       (on_l2 (metered_read_layer M (xb_format C) L2 (xb_l2 D) k ctx))) st' = (r, w')"
    "with_tasks (read_execute (xb_read_policy C) (sched st) (on_l1 (read_layer (xb_format C) L1 (xb_l1 C) k ctx))
       (on_l2 (read_layer (xb_format C) L2 (xb_l2 C) k ctx))) st = (r, s')" "?R w' s'" by metis
  then show "fst (metered_composition_get M sched' D k ctx st') = fst (composition_get sched C k ctx st)
    \<and> ?R (snd (metered_composition_get M sched' D k ctx st')) (snd (composition_get sched C k ctx st))"
    by (cases r) (simp_all add: metered_composition_get_def composition_get_def same Let_def)
qed

lemma in_l1_meter_erased:
  assumes "\<And>m. fst (f m) = r"
  shows "erases (layers_relate (over_meter R1) R2) (in_l1_meter f) (\<lambda>ly. (r, ly))"
  using assms by (auto simp: erases_def in_l1_meter_def on_l1_def layers_relate_def over_meter_def split: prod.split) (metis fst_conv)+

lemma metered_refill_l1_erased:
  assumes "composition_erases (over_meter R1) (over_meter R2) D C"
  shows "erases (layers_relate (over_meter R1) (over_meter R2)) (metered_refill_l1 M D k v ctx) (refill_l1 C k v ctx)"
  unfolding erases_def
proof (intro allI impI)
  let ?R = "layers_relate (over_meter R1) (over_meter R2)"
  fix ly' ly assume R: "?R ly' ly"
  have f: "xb_format D = xb_format C" and w: "\<And>u. erases (over_meter R1) (be_write (xb_l1 D) k u) (be_write (xb_l1 C) k u)"
    using assms by (simp_all add: composition_erases_def backend_erases_def)
  let ?f = "metered_serialize_layer M (xb_format C) L1 (cv_data v) ctx"
  have e: "erases ?R (in_l1_meter ?f) (\<lambda>ly. (serialize_layer (xb_format C) L1 (cv_data v) ctx, ly))"
    by (rule in_l1_meter_erased) (rule codec_erased(1))
  obtain ly1 where s: "in_l1_meter ?f ly' = (serialize_layer (xb_format C) L1 (cv_data v) ctx, ly1)" "?R ly1 ly"
    by (rule erasesE [OF e R]) simp
  show "fst (metered_refill_l1 M D k v ctx ly') = fst (refill_l1 C k v ctx ly)
    \<and> ?R (snd (metered_refill_l1 M D k v ctx ly')) (snd (refill_l1 C k v ctx ly))"
  proof (cases "serialize_layer (xb_format C) L1 (cv_data v) ctx")
    case (Inl e)
    then show ?thesis using s by (simp add: metered_refill_l1_def refill_l1_def f)
  next
    case (Inr b)
    note wr = on_l1_erased [OF w [of "cache_value_new b (cv_expire v) (cv_stale v)"], of "over_meter R2", unfolded erases_def, rule_format]
    show ?thesis using Inr s(1) wr [OF s(2)] by (simp add: metered_refill_l1_def refill_l1_def f)
  qed
qed

lemma metered_set_of_layers_erased:
  assumes "composition_erases (over_meter R1) (over_meter R2) D C"
    and "\<forall>st' st. states_relate (over_meter R1) (over_meter R2) st' st \<longrightarrow> sched' st' = sched st"
  shows "erases (states_relate (over_meter R1) (over_meter R2)) (metered_composition_set M sched' D k v ctx) (composition_set sched C k v ctx)"
  unfolding erases_def
proof (intro allI impI)
  let ?R = "states_relate (over_meter R1) (over_meter R2)"
  fix st' st assume R: "?R st' st"
  have same: "xb_format D = xb_format C" "xb_write_policy D = xb_write_policy C" "xb_refill_policy D = xb_refill_policy C" "sched' st' = sched st"
    using assms R by (simp_all add: composition_erases_def)
  have ops: "erases (over_meter R1) (be_write (xb_l1 D) k u) (be_write (xb_l1 C) k u)"
    "erases (over_meter R2) (be_write (xb_l2 D) k u) (be_write (xb_l2 C) k u)"
    "erases (over_meter R2) (kb_set (xb_l2 D) k v c) (kb_set (xb_l2 C) k v c)" for u c
    using assms(1) by (simp_all add: composition_erases_def backend_erases_def)
  have l2: "erases ?R (direct (set_l2 D k v c)) (direct (set_l2 C k v c))" for c
    unfolding set_l2_def by (intro direct_erased on_l2_erased ops)
  obtain r1 a1 b1 where first: "direct (metered_refill_l1 M D k v ctx) st' = (r1, a1)" "direct (refill_l1 C k v ctx) st = (r1, b1)" "?R a1 b1"
    using erasesE [OF direct_erased [OF metered_refill_l1_erased [OF assms(1)]] R] by blast
  have second: "\<exists>q a b. direct (set_l2 D k v c) w = (q, a) \<and> direct (set_l2 C k v c) s = (q, b) \<and> ?R a b" if "?R w s" for c w s
    using erasesE [OF l2 that] by metis
  have pe: "erases (layers_relate (over_meter R1) (over_meter R2)) (in_l1_meter (metered_serialize_parts M (xb_format C) (cv_data v) ctx))
      (\<lambda>ly. (serialize_parts (xb_format C) (cv_data v) ctx, ly))"
    by (rule in_l1_meter_erased) (rule codec_erased(2))
  obtain a2 where parts: "direct (in_l1_meter (metered_serialize_parts M (xb_format C) (cv_data v) ctx)) st'
      = (serialize_parts (xb_format C) (cv_data v) ctx, a2)" "?R a2 st"
    by (rule erasesE [OF direct_erased [OF pe] R]) (simp add: direct_def)
  have both: "\<exists>q a b. with_tasks (write_execute (xb_write_policy C) (sched st) (on_l1 (be_write (xb_l1 D) k u1)) (on_l2 (be_write (xb_l2 D) k u2))) a2 = (q, a)
      \<and> with_tasks (write_execute (xb_write_policy C) (sched st) (on_l1 (be_write (xb_l1 C) k u1)) (on_l2 (be_write (xb_l2 C) k u2))) st = (q, b)
      \<and> ?R a b" for u1 u2
    using erasesE [OF writes_erased [OF ops(1,2)] parts(2)] by metis
  consider (refill) "ctx_read_mode ctx = Refill"
    | (nested) inner labels where "ctx_read_mode ctx \<noteq> Refill" "ctx = CompositionCtx inner L2 labels"
    | (normal) "ctx_read_mode ctx \<noteq> Refill" "\<nexists>inner labels. ctx = CompositionCtx inner L2 labels" by blast
  then show "fst (metered_composition_set M sched' D k v ctx st') = fst (composition_set sched C k v ctx st)
    \<and> ?R (snd (metered_composition_set M sched' D k v ctx st')) (snd (composition_set sched C k v ctx st))"
  proof cases
    case refill
    then show ?thesis using R first second [OF first(3), of ctx]
      by (cases "xb_refill_policy C"; cases r1) (auto simp: metered_composition_set_def composition_set_def same)
  next
    case (nested inner labels)
    obtain q c a b where r: "direct (set_l2 D k v inner) a1 = ((q, c), a)" "direct (set_l2 C k v inner) b1 = ((q, c), b)" "?R a b"
      using second [OF first(3), of inner] by (metis surj_pair)
    obtain q' c' a' b' where n: "direct (set_l2 D k v inner) st' = ((q', c'), a')" "direct (set_l2 C k v inner) st = ((q', c'), b')" "?R a' b'"
      using second [OF R, of inner] by (metis surj_pair)
    show ?thesis using nested first r n
      by (cases "xb_refill_policy C"; cases r1) (simp_all add: metered_composition_set_def composition_set_def same)
  next
    case normal
    have m: "metered_composition_set M sched' D k v ctx st' =
        (case direct (in_l1_meter (metered_serialize_parts M (xb_format C) (cv_data v) ctx)) st' of
           (Inl e, st) \<Rightarrow> ((Err (InternalError (BoxFormat e)), ctx), st)
         | (Inr (b1, b2), st) \<Rightarrow>
             (case with_tasks (write_execute (xb_write_policy C) (sched' st')
                 (on_l1 (be_write (xb_l1 D) k (cache_value_new b1 (cv_expire v) (cv_stale v))))
                 (on_l2 (be_write (xb_l2 D) k (cache_value_new b2 (cv_expire v) (cv_stale v))))) st of (r, st) \<Rightarrow> ((r, ctx), st)))"
      unfolding metered_composition_set_def same Let_def
      using normal by (auto split: box_context.split composition_layer.split)
    show ?thesis
    proof (cases "serialize_parts (xb_format C) (cv_data v) ctx")
      case (Inl e)
      then show ?thesis using m parts by (simp add: composition_set_normal [OF normal(1)])
    next
      case (Inr p)
      obtain b1 b2 where p: "p = (b1, b2)" by fastforce
      obtain q a b where "with_tasks (write_execute (xb_write_policy C) (sched st)
          (on_l1 (be_write (xb_l1 D) k (cache_value_new b1 (cv_expire v) (cv_stale v))))
          (on_l2 (be_write (xb_l2 D) k (cache_value_new b2 (cv_expire v) (cv_stale v))))) a2 = (q, a)"
        "with_tasks (write_execute (xb_write_policy C) (sched st)
          (on_l1 (be_write (xb_l1 C) k (cache_value_new b1 (cv_expire v) (cv_stale v))))
          (on_l2 (be_write (xb_l2 C) k (cache_value_new b2 (cv_expire v) (cv_stale v))))) st = (q, b)" "?R a b"
        using both by blast
      then show ?thesis using m parts Inr p by (simp add: composition_set_normal [OF normal(1)] same(4))
    qed
  qed
qed

lemma composition_delete_erased:
  assumes "composition_erases R1 R2 D C" "\<forall>st' st. states_relate R1 R2 st' st \<longrightarrow> sched' st' = sched st"
  shows "erases (states_relate R1 R2) (composition_delete sched' D k ctx) (composition_delete sched C k ctx)"
  unfolding erases_def
proof (intro allI impI)
  fix st' st assume R: "states_relate R1 R2 st' st"
  have "erases R1 (kb_delete (xb_l1 D) k ctx) (kb_delete (xb_l1 C) k ctx)" "erases R2 (kb_delete (xb_l2 D) k ctx) (kb_delete (xb_l2 C) k ctx)"
    using assms(1) by (simp_all add: composition_erases_def backend_erases_def)
  from erasesE [OF direct_erased [OF join_both_erased [OF on_l1_erased [OF this(1)] on_l2_erased [OF this(2)]]] R]
  obtain r a b where "direct (join_both (sc_first (sched st)) (on_l1 (kb_delete (xb_l1 D) k ctx)) (on_l2 (kb_delete (xb_l2 D) k ctx))) st' = (r, a)"
    "direct (join_both (sc_first (sched st)) (on_l1 (kb_delete (xb_l1 C) k ctx)) (on_l2 (kb_delete (xb_l2 C) k ctx))) st = (r, b)"
    "states_relate R1 R2 a b" by metis
  then show "fst (composition_delete sched' D k ctx st') = fst (composition_delete sched C k ctx st)
    \<and> states_relate R1 R2 (snd (composition_delete sched' D k ctx st')) (snd (composition_delete sched C k ctx st))"
    using assms(2) R by (auto simp: composition_delete_def split: prod.split)
qed

lemma composition_raw_remove_erased:
  assumes "composition_erases R1 R2 D C" "\<forall>st' st. states_relate R1 R2 st' st \<longrightarrow> sched' st' = sched st"
  shows "erases (states_relate R1 R2) (composition_raw_remove sched' D k) (composition_raw_remove sched C k)"
  unfolding erases_def
proof (intro allI impI)
  fix st' st assume R: "states_relate R1 R2 st' st"
  have "erases R1 (be_remove (xb_l1 D) k) (be_remove (xb_l1 C) k)" "erases R2 (be_remove (xb_l2 D) k) (be_remove (xb_l2 C) k)"
    using assms(1) by (simp_all add: composition_erases_def backend_erases_def)
  from erasesE [OF direct_erased [OF join_both_erased [OF on_l1_erased [OF this(1)] on_l2_erased [OF this(2)]]] R]
  obtain r a b where "direct (join_both (sc_first (sched st)) (on_l1 (be_remove (xb_l1 D) k)) (on_l2 (be_remove (xb_l2 D) k))) st' = (r, a)"
    "direct (join_both (sc_first (sched st)) (on_l1 (be_remove (xb_l1 C) k)) (on_l2 (be_remove (xb_l2 C) k))) st = (r, b)"
    "states_relate R1 R2 a b" by metis
  then show "fst (composition_raw_remove sched' D k st') = fst (composition_raw_remove sched C k st)
    \<and> states_relate R1 R2 (snd (composition_raw_remove sched' D k st')) (snd (composition_raw_remove sched C k st))"
    using assms(2) R by (cases r) (auto simp: composition_raw_remove_def)
qed

lemma read_with_envelope_erased:
  assumes "erases R (be_read B' k) (be_read B k)"
  shows "erases R (read_with_envelope wrap B' k) (read_with_envelope wrap B k)"
  unfolding erases_def
proof (intro allI impI)
  fix w s assume "R w s"
  then obtain r w' s' where "be_read B' k w = (r, w')" "be_read B k s = (r, s')" "R w' s'" using erasesE [OF assms] by blast
  then show "fst (read_with_envelope wrap B' k w) = fst (read_with_envelope wrap B k s)
    \<and> R (snd (read_with_envelope wrap B' k w)) (snd (read_with_envelope wrap B k s))"
    by (auto simp: read_with_envelope_def split: sum.split option.split)
qed

lemma composition_raw_read_erased:
  assumes "composition_erases R1 R2 D C" "\<forall>st' st. states_relate R1 R2 st' st \<longrightarrow> sched' st' = sched st"
  shows "erases (states_relate R1 R2) (composition_raw_read sched' D k) (composition_raw_read sched C k)"
  unfolding erases_def
proof (intro allI impI)
  fix st' st assume R: "states_relate R1 R2 st' st"
  have "erases R1 (be_read (xb_l1 D) k) (be_read (xb_l1 C) k)" "erases R2 (be_read (xb_l2 D) k) (be_read (xb_l2 C) k)"
    and p: "xb_read_policy D = xb_read_policy C" "sched' st' = sched st"
    using assms R by (simp_all add: composition_erases_def backend_erases_def)
  from erasesE [OF reads_erased [OF read_with_envelope_erased [OF this(1)] read_with_envelope_erased [OF this(2)]] R]
  obtain r a b where
    "with_tasks (read_execute (xb_read_policy C) (sched st) (on_l1 (read_with_envelope EnvL1 (xb_l1 D) k)) (on_l2 (read_with_envelope EnvL2 (xb_l2 D) k))) st' = (r, a)"
    "with_tasks (read_execute (xb_read_policy C) (sched st) (on_l1 (read_with_envelope EnvL1 (xb_l1 C) k)) (on_l2 (read_with_envelope EnvL2 (xb_l2 C) k))) st = (r, b)"
    "states_relate R1 R2 a b" by metis
  then show "fst (composition_raw_read sched' D k st') = fst (composition_raw_read sched C k st)
    \<and> states_relate R1 R2 (snd (composition_raw_read sched' D k st')) (snd (composition_raw_read sched C k st))"
    by (cases r) (simp_all add: composition_raw_read_def p)
qed

lemma composition_raw_write_erased:
  assumes "composition_erases R1 R2 D C" "\<forall>st' st. states_relate R1 R2 st' st \<longrightarrow> sched' st' = sched st"
  shows "erases (states_relate R1 R2) (composition_raw_write sched' D k v) (composition_raw_write sched C k v)"
  unfolding erases_def
proof (intro allI impI)
  fix st' st assume R: "states_relate R1 R2 st' st"
  have w: "erases R1 (be_write (xb_l1 D) k u) (be_write (xb_l1 C) k u)" "erases R2 (be_write (xb_l2 D) k u) (be_write (xb_l2 C) k u)" for u
    using assms(1) by (simp_all add: composition_erases_def backend_erases_def)
  have p: "xb_write_policy D = xb_write_policy C" "sched' st' = sched st" using assms R by (simp_all add: composition_erases_def)
  note one = direct_erased [OF on_l1_erased [OF w(1)], of R2, unfolded erases_def, rule_format, OF R]
    direct_erased [OF on_l2_erased [OF w(2)], of R1, unfolded erases_def, rule_format, OF R]
  note both = writes_erased [OF w, unfolded erases_def, rule_format, OF R]
  show "fst (composition_raw_write sched' D k v st') = fst (composition_raw_write sched C k v st)
    \<and> states_relate R1 R2 (snd (composition_raw_write sched' D k v st')) (snd (composition_raw_write sched C k v st))"
    using R one both by (simp add: composition_raw_write_def p split: sum.split composition_envelope.split)
qed

abbreviation forgets_meter :: "'s \<times> meter \<Rightarrow> 's \<Rightarrow> bool" where
  "forgets_meter w s \<equiv> fst w = s"

abbreviation metered_states ::
  "('t1 \<Rightarrow> 's1 \<Rightarrow> bool) \<Rightarrow> ('t2 \<Rightarrow> 's2 \<Rightarrow> bool) \<Rightarrow> ('t1 \<times> meter, 't2 \<times> meter) comp_state \<Rightarrow> ('s1, 's2) comp_state \<Rightarrow> bool" where
  "metered_states R1 R2 \<equiv> states_relate (over_meter R1) (over_meter R2)"

lemma metered_composition_backend_erases:
  assumes "composition_erases R1 R2 C' C" "\<forall>st' st. metered_states R1 R2 st' st \<longrightarrow> sched' st' = sched st"
  shows "backend_erases (metered_states R1 R2) (metered_composition_backend M sched' C') (composition_backend sched C)"
proof -
  note D = metered_composition_erases [OF assms(1), of M]
  have "xb_label (metered_composition M C') = xb_label C" "xb_format (metered_composition M C') = xb_format C"
    using D by (simp_all add: composition_erases_def)
  then show ?thesis
    unfolding backend_erases_def metered_composition_backend_def composition_backend_def Let_def
    by (simp add: composition_raw_read_erased [OF D assms(2)] composition_raw_write_erased [OF D assms(2)]
        composition_raw_remove_erased [OF D assms(2)] metered_get_of_layers_erased [OF D assms(2)]
        metered_set_of_layers_erased [OF D assms(2)] composition_delete_erased [OF D assms(2)])
qed

lemma compose_erases:
  "backend_erases R1 l1' l1 \<Longrightarrow> backend_erases R2 l2' l2
   \<Longrightarrow> composition_erases R1 R2 (compose_with l1' l2' p) (compose_with l1 l2 p)"
  by (simp add: composition_erases_def compose_with_def composition_with_policy_def composition_new_def Let_def backend_erases_def)

section \<open>What the counters add up to\<close>

text \<open>The sum of a counter's increments, and how often a histogram was told something.\<close>

fun counter_value :: "string \<Rightarrow> metric_labels \<Rightarrow> metric_event list \<Rightarrow> nat" where
  "counter_value n l [] = 0"
| "counter_value n l (CounterIncrement n' l' k # es) = (if n' = n \<and> l' = l then unat k else 0) + counter_value n l es"
| "counter_value n l (_ # es) = counter_value n l es"

fun histogram_count :: "string \<Rightarrow> metric_labels \<Rightarrow> metric_event list \<Rightarrow> nat" where
  "histogram_count n l [] = 0"
| "histogram_count n l (HistogramRecord n' l' d # es) = (if n' = n \<and> l' = l then 1 else 0) + histogram_count n l es"
| "histogram_count n l (_ # es) = histogram_count n l es"

lemma counter_value_append [simp]: "counter_value n l (es @ fs) = counter_value n l es + counter_value n l fs"
  by (induction n l es rule: counter_value.induct) auto

lemma histogram_count_append [simp]: "histogram_count n l (es @ fs) = histogram_count n l es + histogram_count n l fs"
  by (induction n l es rule: histogram_count.induct) auto

lemma me_log_recording [simp]: "me_log (recording M es m) = me_log m @ (if mt_enabled M then es else [])"
  by (simp add: recording_def emit_def)

lemmas record_defs = record_read_def record_read_bytes_def record_read_error_def record_write_def record_write_bytes_def
  record_write_error_def record_decompress_def record_compress_def record_deserialize_def record_serialize_def

lemma timer_log: "timer_new M m = (t, m') \<Longrightarrow> me_log m' = me_log m" "timer_elapsed M u m = (d, m') \<Longrightarrow> me_log m' = me_log m"
  by (auto simp: timer_new_def timer_elapsed_def instant_now_def split: if_splits option.splits)

datatype 'a cache_call =
    CallGet cache_key box_context
  | CallSet cache_key "'a cache_value" box_context
  | CallDelete cache_key box_context

fun is_get :: "'a cache_call \<Rightarrow> bool" where
  "is_get (CallGet k ctx) = True"
| "is_get _ = False"

fun is_store :: "'a cache_call \<Rightarrow> bool" where
  "is_store (CallSet k v ctx) = (ctx_read_mode ctx \<noteq> Refill)"
| "is_store _ = False"

text \<open>A call, and whether it succeeded.\<close>

fun metered_call :: "metering \<Rightarrow> ('s, 'a, 'z) backend_scheme \<Rightarrow> 'a cache_call \<Rightarrow> 's \<times> meter \<Rightarrow> bool \<times> ('s \<times> meter)" where
  "metered_call M B (CallGet k ctx) w = (case metered_get M B k ctx w of ((r, _), w) \<Rightarrow> (is_ok r, w))"
| "metered_call M B (CallSet k v ctx) w = (case metered_set M B k v ctx w of ((r, _), w) \<Rightarrow> (is_ok r, w))"
| "metered_call M B (CallDelete k ctx) w = (case metered_delete B k ctx w of ((r, _), w) \<Rightarrow> (is_ok r, w))"

fun metered_run :: "metering \<Rightarrow> ('s, 'a, 'z) backend_scheme \<Rightarrow> 'a cache_call list \<Rightarrow> 's \<times> meter \<Rightarrow> ('a cache_call \<times> bool) list \<times> ('s \<times> meter)" where
  "metered_run M B [] w = ([], w)"
| "metered_run M B (c # cs) w =
     (case metered_call M B c w of (ok, w) \<Rightarrow> case metered_run M B cs w of (oks, w) \<Rightarrow> ((c, ok) # oks, w))"

text \<open>What one raw operation adds to the counters under its label.\<close>

definition read_counts :: "string \<Rightarrow> (bytes cache_value option, backend_error) result \<Rightarrow> string \<Rightarrow> metric_labels \<Rightarrow> nat" where
  "read_counts b r n l =
     (if l \<noteq> of_backend b then 0
      else (if n = backend_read_total then 1 else 0)
        + (case r of
             Inr (Some v) \<Rightarrow> if n = backend_read_bytes then unat (word_of_nat (length (cv_data v)) :: 64 word) else 0
           | Inr None \<Rightarrow> 0
           | Inl e \<Rightarrow> if n = backend_read_errors then 1 else 0))"

definition write_counts :: "string \<Rightarrow> nat \<Rightarrow> (unit, backend_error) result \<Rightarrow> string \<Rightarrow> metric_labels \<Rightarrow> nat" where
  "write_counts b len r n l =
     (if l \<noteq> of_backend b then 0
      else (if n = backend_write_total then 1 else 0)
        + (case r of
             Inr _ \<Rightarrow> if n = backend_write_bytes then unat (word_of_nat len :: 64 word) else 0
           | Inl e \<Rightarrow> if n = backend_write_errors then 1 else 0))"

abbreviation counted :: "string \<Rightarrow> metric_labels \<Rightarrow> 's \<times> meter \<Rightarrow> nat" where
  "counted n l w \<equiv> counter_value n l (me_log (snd w))"

lemma metered_read_counts:
  assumes "mt_enabled M" "metered_read M b B k w = (r, w')"
  shows "counted n l w' = counted n l w + read_counts b r n l"
  using assms
  by (auto simp: metered_read_def timed_def record_defs read_counts_def
      split: prod.splits sum.splits option.splits if_splits dest!: timer_log)

lemma metered_write_counts:
  assumes "mt_enabled M" "metered_write M b B k v w = (r, w')"
  shows "counted n l w' = counted n l w + write_counts b (length (cv_data v)) r n l"
  using assms
  by (auto simp: metered_write_def timed_def record_defs write_counts_def
      split: prod.splits sum.splits if_splits dest!: timer_log)

lemma timed_step_counts:
  assumes "timed_step M rec r m = (r', m')" "\<And>d m. counter_value n l (me_log (rec d m)) = counter_value n l (me_log m)"
  shows "counter_value n l (me_log m') = counter_value n l (me_log m)"
  using assms by (auto simp: timed_step_def split: prod.splits sum.splits dest!: timer_log)

lemma codec_counts:
  "counter_value n l (me_log (record_decompress M b d m)) = counter_value n l (me_log m)"
  "counter_value n l (me_log (record_compress M b d m)) = counter_value n l (me_log m)"
  "counter_value n l (me_log (record_deserialize M b d m)) = counter_value n l (me_log m)"
  "counter_value n l (me_log (record_serialize M b d m)) = counter_value n l (me_log m)"
  by (simp_all add: record_defs)

lemma metered_set_counts:
  assumes "mt_enabled M" "metered_set M B k v ctx w = ((r, c), w')"
  shows "(\<forall>n l. counted n l w' = counted n l w) \<and> (is_ok r \<longrightarrow> ctx_read_mode ctx = Refill)
    \<or> ctx_read_mode ctx \<noteq> Refill
      \<and> (\<exists>len. \<forall>n l. counted n l w' = counted n l w + write_counts (label_str (be_label B)) len r n l)"
proof -
  let ?label = "label_str (be_label B)"
  obtain m where m: "timed_step M (record_serialize M ?label) (fm_ser (be_format B) (cv_data v) ctx) (snd w)
      = (fm_ser (be_format B) (cv_data v) ctx, m)"
    using timed_step_meter by blast
  have c: "counter_value n l (me_log m) = counted n l w" for n l
    by (rule timed_step_counts [OF m]) (rule codec_counts)
  show ?thesis
  proof (cases "ctx_read_mode ctx = Refill")
    case normal: False
    show ?thesis
    proof (cases "fm_ser (be_format B) (cv_data v) ctx")
      case (Inl e)
      then show ?thesis using assms(2) normal m c by (auto simp: metered_set_def Let_def)
    next
      case (Inr b)
      obtain m' where m': "timed_step M (record_compress M ?label) (cp_compress (be_compressor B) b) m
          = (cp_compress (be_compressor B) b, m')"
        using timed_step_meter by blast
      have c': "counter_value n l (me_log m') = counted n l w" for n l
        using timed_step_counts [OF m' codec_counts(2)] c by simp
      show ?thesis
      proof (cases "cp_compress (be_compressor B) b")
        case (Inl e)
        then show ?thesis using assms(2) normal m m' c' \<open>fm_ser _ _ _ = _\<close> by (auto simp: metered_set_def Let_def)
      next
        case z: (Inr z)
        then have "metered_write M ?label B k (cache_value_new z (cv_expire v) (cv_stale v)) (fst w, m') = (r, w')"
          using assms(2) normal m m' Inr by (auto simp: metered_set_def Let_def split: prod.splits)
        from metered_write_counts [OF assms(1) this] show ?thesis using normal c' by auto
      qed
    qed
  qed (use assms(2) in \<open>simp add: metered_set_def\<close>)
qed

lemma metered_get_counts:
  assumes "mt_enabled M" "metered_get M B k ctx w = ((r, c), w')"
  shows "counted n l w' = counted n l w + read_counts (label_str (be_label B)) (fst (be_read B k (fst w))) n l
    \<and> (\<not> is_ok (fst (be_read B k (fst w))) \<longrightarrow> \<not> is_ok r)"
proof -
  let ?label = "label_str (be_label B)"
  obtain q s m where rd: "metered_read M ?label B k w = (q, (s, m))" by (metis surj_pair)
  have q: "fst (be_read B k (fst w)) = q" using metered_read_erased [of M ?label B k w] rd by (metis apsnd_conv fst_conv)
  have rc: "counter_value n l (me_log m) = counted n l w + read_counts ?label q n l"
    using metered_read_counts [OF assms(1) rd] by simp
  show ?thesis
  proof (cases "\<exists>v. q = Ok (Some v)")
    case False
    then show ?thesis using assms(2) rd q rc by (auto simp: metered_get_def Let_def split: sum.splits option.splits)
  next
    case True
    then obtain v where v: "q = Ok (Some v)" by blast
    obtain m1 where m1: "timed_step M (record_decompress M ?label) (cp_decompress (be_compressor B) (cv_data v)) m
        = (cp_decompress (be_compressor B) (cv_data v), m1)" using timed_step_meter by blast
    have c1: "counter_value n l (me_log m1) = counter_value n l (me_log m)"
      by (rule timed_step_counts [OF m1]) (rule codec_counts)
    show ?thesis
    proof (cases "cp_decompress (be_compressor B) (cv_data v)")
      case (Inl e)
      then show ?thesis using assms(2) rd q rc v m1 c1 by (auto simp: metered_get_def Let_def into_parts_def)
    next
      case (Inr b)
      obtain d ctx1 where d: "fm_de (be_format B) b ctx = (d, ctx1)" by fastforce
      obtain m2 where m2: "timed_step M (record_deserialize M ?label) d m1 = (d, m2)" using timed_step_meter by blast
      have c2: "counter_value n l (me_log m2) = counter_value n l (me_log m)"
        using timed_step_counts [OF m2 codec_counts(3)] c1 by simp
      have "snd w' = m2"
        using assms(2) rd v m1 Inr d m2
        by (auto simp: metered_get_def metered_set_def Let_def into_parts_def split: sum.splits option.splits if_splits)
      then show ?thesis using q rc v c2 by simp
    qed
  qed
qed

lemma counts_at [simp]:
  "read_counts b r backend_read_total (of_backend b) = 1"
  "read_counts b r backend_read_errors (of_backend b) = (if is_ok r then 0 else 1)"
  "read_counts b r backend_write_total l = 0" "read_counts b r backend_write_errors l = 0"
  "write_counts b len w backend_write_total (of_backend b) = 1"
  "write_counts b len w backend_write_errors (of_backend b) = (if is_ok w then 0 else 1)"
  "write_counts b len w backend_read_total l = 0" "write_counts b len w backend_read_errors l = 0"
  by (auto simp: read_counts_def write_counts_def metric_names split: sum.splits option.splits)

lemma metered_call_counts:
  assumes "mt_enabled M" "metered_call M B c w = (ok, w')"
  defines "l \<equiv> of_backend (label_str (be_label B))"
  shows "counted backend_read_total l w' = counted backend_read_total l w + (if is_get c then 1 else 0)"
    "counted backend_read_errors l w' \<le> counted backend_read_errors l w + (if is_get c \<and> \<not> ok then 1 else 0)"
    "counted backend_write_total l w' + counted backend_write_errors l w
     = counted backend_write_total l w + counted backend_write_errors l w' + (if is_store c \<and> ok then 1 else 0)"
proof -
  have "counted backend_read_total l w' = counted backend_read_total l w + (if is_get c then 1 else 0)
    \<and> counted backend_read_errors l w' \<le> counted backend_read_errors l w + (if is_get c \<and> \<not> ok then 1 else 0)
    \<and> counted backend_write_total l w' + counted backend_write_errors l w
     = counted backend_write_total l w + counted backend_write_errors l w' + (if is_store c \<and> ok then 1 else 0)"
  proof (cases c)
    case (CallGet k ctx)
    then obtain r c' where "metered_get M B k ctx w = ((r, c'), w')" "ok = is_ok r"
      using assms(2) by (auto split: prod.splits)
    then show ?thesis using metered_get_counts [OF assms(1), of B k ctx w r c' w'] CallGet by (auto simp: l_def)
  next
    case (CallSet k v ctx)
    then obtain r c' where "metered_set M B k v ctx w = ((r, c'), w')" "ok = is_ok r"
      using assms(2) by (auto split: prod.splits)
    then show ?thesis using metered_set_counts [OF assms(1), of B k v ctx w r c' w'] CallSet by (auto simp: l_def)
  next
    case (CallDelete k ctx)
    then have "snd w' = snd w" using assms(2) by (auto simp: metered_delete_def unmetered_def split: prod.splits)
    then show ?thesis using CallDelete by simp
  qed
  then show "counted backend_read_total l w' = counted backend_read_total l w + (if is_get c then 1 else 0)"
    "counted backend_read_errors l w' \<le> counted backend_read_errors l w + (if is_get c \<and> \<not> ok then 1 else 0)"
    "counted backend_write_total l w' + counted backend_write_errors l w
     = counted backend_write_total l w + counted backend_write_errors l w' + (if is_store c \<and> ok then 1 else 0)"
    by blast+
qed

lemma metered_run_counts:
  fixes B :: "('s, 'a, 'z) backend_scheme"
  assumes "mt_enabled M"
  defines "l \<equiv> of_backend (label_str (be_label B))"
  shows "metered_run M B calls w = (outcomes, w') \<Longrightarrow>
    counted backend_read_total l w' = counted backend_read_total l w + length (filter is_get calls)
    \<and> counted backend_read_errors l w' \<le> counted backend_read_errors l w + length (filter (\<lambda>(c, ok). is_get c \<and> \<not> ok) outcomes)
    \<and> counted backend_write_total l w' + counted backend_write_errors l w
      = counted backend_write_total l w + counted backend_write_errors l w' + length (filter (\<lambda>(c, ok). is_store c \<and> ok) outcomes)"
proof (induction calls arbitrary: w outcomes)
  case (Cons c cs)
  obtain ok w1 where c: "metered_call M B c w = (ok, w1)" by (metis surj_pair)
  obtain oks where cs: "metered_run M B cs w1 = (oks, w')" "outcomes = (c, ok) # oks"
    using Cons.prems c by (auto split: prod.splits)
  note one = metered_call_counts [OF assms(1) c, folded l_def]
  show ?case using Cons.IH [OF cs(1)] one cs(2) by (cases "is_get c"; cases "is_store c"; cases ok; simp)
qed simp

section \<open>The gauges of the in-memory store\<close>

definition moka_entries :: string where "moka_entries = ''hitbox_moka_entries''"
definition moka_size_bytes :: string where "moka_size_bytes = ''hitbox_moka_size_bytes''"

definition record_capacity :: "metering \<Rightarrow> string \<Rightarrow> nat \<Rightarrow> nat \<Rightarrow> meter \<Rightarrow> meter" where
  "record_capacity M b entries size_bytes =
     recording M [GaugeSet moka_entries (of_backend b) entries, GaugeSet moka_size_bytes (of_backend b) size_bytes]"

text \<open>The approximate counts moka gives.\<close>

record 'c moka_counts =
  mn_entry_count :: "'c \<Rightarrow> nat"
  mn_weighted_size :: "'c \<Rightarrow> nat"

definition moka_record_metrics :: "metering \<Rightarrow> 'c moka_counts \<Rightarrow> 'a moka_builder \<Rightarrow> 'c \<Rightarrow> meter \<Rightarrow> meter" where
  "moka_record_metrics M N b c = record_capacity M (label_str (mb_label b)) (mn_entry_count N c) (mn_weighted_size N c)"

definition metered_moka_write ::
  "metering \<Rightarrow> 'c moka_counts \<Rightarrow> 'a moka_builder \<Rightarrow> 'c moka_ops \<Rightarrow> cache_key \<Rightarrow> bytes cache_value \<Rightarrow> 'c \<times> meter
   \<Rightarrow> (unit, backend_error) result \<times> ('c \<times> meter)" where
  "metered_moka_write M N b K key v w =
     (let c = mo_insert K key v (expire_after_create (mo_now K (fst w)) key v) (fst w)
      in (Ok (), (c, moka_record_metrics M N b c (snd w))))"

definition metered_moka_remove ::
  "metering \<Rightarrow> 'c moka_counts \<Rightarrow> 'a moka_builder \<Rightarrow> 'c moka_ops \<Rightarrow> cache_key \<Rightarrow> 'c \<times> meter
   \<Rightarrow> (delete_status, backend_error) result \<times> ('c \<times> meter)" where
  "metered_moka_remove M N b K key w =
     (case mo_remove K key (fst w) of
        (value, c) \<Rightarrow>
          (case value of Some _ \<Rightarrow> Ok (Deleted 1) | None \<Rightarrow> Ok Missing, (c, moka_record_metrics M N b c (snd w))))"

lemma metered_moka_erased:
  "erases (\<lambda>w s. fst w = s) (metered_moka_write M N b K k v) (moka_write K k v)"
  "erases (\<lambda>w s. fst w = s) (metered_moka_remove M N b K k) (moka_remove K k)"
  by (auto simp: erases_def metered_moka_write_def Let_def moka_write_def metered_moka_remove_def moka_remove_def
      split: prod.split option.split)

section \<open>Properties\<close>

text \<open>C38. Recording changes nothing: with or without the feature, whatever the clock says, a store with its recordings does in
  every typed operation what it does without them, and so does a composition, raw and typed, with the recordings of its
  layers' reads and writes and those of its codec, under every policy and schedule, when its layers do; so this holds for compositions of
  compositions to any depth.  Its background tasks do the same, too, and so does its codec as a format, on its own.  (A format is a
  function of the value: what the format of an inner composition records while the codec of the outer one runs it is left out.)\<close>

theorem recording_changes_nothing:
  assumes "composition_erases R1 R2 C' C" "\<forall>st' st. metered_states R1 R2 st' st \<longrightarrow> sched' st' = sched st"
  shows "backend_erases (\<lambda>w s. fst w = s) (metered_backend M B) (dyn_backend B)
    \<and> backend_erases (metered_states R1 R2) (metered_composition_backend M sched' C') (composition_backend sched C)
    \<and> (\<forall>st' st. metered_states R1 R2 st' st \<longrightarrow> metered_states R1 R2 (run_task n st') (run_task n st))
    \<and> fst (metered_with_serializer M F v ctx m) = composition_with_serializer F v ctx
    \<and> fst (metered_with_deserializer M F data ctx m) = composition_with_deserializer F data ctx"
  by (intro conjI allI impI metered_backend_erases metered_composition_backend_erases [OF assms] run_task_erased format_erased)

definition demo_metering :: metering where
  "demo_metering = \<lparr>mt_enabled = True, mt_instant = (\<lambda>i. 10 * i)\<rparr>"

definition no_records :: meter where
  "no_records = \<lparr>me_log = [], me_readings = 0\<rparr>"

definition demo_redis :: "(ref_redis redis_world, nat) cache_backend" where
  "demo_redis = redis_backend unary_columns letter_encoding ref_redis_ops demo_redis_config"

definition metered_demo_tiers :: "((ref_moka \<times> meter) \<times> meter, (ref_redis redis_world \<times> meter) \<times> meter) comp_state" where
  "metered_demo_tiers =
     \<lparr>co_layers = \<lparr>ly_l1 = ((ly_l1 (co_layers demo_empty), no_records), no_records),
        ly_l2 = ((ly_l2 (co_layers demo_empty), no_records), no_records)\<rparr>, co_tasks = []\<rparr>"

theorem recording_changes_nothing_witness:
  "let p = composition_policy_new; k = cache_key_from_str ''a'' ''b''; v = cache_value_new 7 None None; ctx = boxed cache_context_default;
       tiers = compose_with (metered_backend demo_metering demo_moka) (metered_backend demo_metering demo_redis) p
   in fst (kb_set (metered_composition_backend demo_metering demo_sched
         (compose_with (metered_backend demo_metering demo_moka) (metered_composition_backend demo_metering demo_sched tiers) p)) k v ctx
         \<lparr>co_layers = \<lparr>ly_l1 = ((ly_l1 (co_layers demo_empty), no_records), no_records), ly_l2 = (metered_demo_tiers, no_records)\<rparr>, co_tasks = []\<rparr>)
     = fst (composition_set demo_sched (compose_with demo_moka (composition_backend demo_sched (demo_tiers p)) p) k v ctx
         \<lparr>co_layers = \<lparr>ly_l1 = ly_l1 (co_layers demo_empty), ly_l2 = demo_empty\<rparr>, co_tasks = []\<rparr>)"
proof -
  let ?p = "composition_policy_new"
  have moka: "backend_erases forgets_meter (metered_backend demo_metering demo_moka) demo_moka"
    and redis: "backend_erases forgets_meter (metered_backend demo_metering demo_redis) demo_redis"
    using metered_backend_erases [of demo_metering demo_moka] metered_backend_erases [of demo_metering demo_redis]
    by (simp_all add: demo_moka_def moka_backend_def demo_redis_def redis_backend_def dyn_dyn)
  note typed = recording_changes_nothing [THEN conjunct2, THEN conjunct1]
  have inner: "backend_erases (metered_states forgets_meter forgets_meter) (metered_composition_backend demo_metering demo_sched
      (compose_with (metered_backend demo_metering demo_moka) (metered_backend demo_metering demo_redis) ?p))
      (composition_backend demo_sched (demo_tiers ?p))"
    unfolding demo_tiers_def demo_moka_def [symmetric] demo_redis_def [symmetric]
    by (rule typed, rule compose_erases [OF moka redis]) (simp add: demo_sched_def)
  have outer: "backend_erases (metered_states forgets_meter (metered_states forgets_meter forgets_meter))
      (metered_composition_backend demo_metering demo_sched (compose_with (metered_backend demo_metering demo_moka)
        (metered_composition_backend demo_metering demo_sched
          (compose_with (metered_backend demo_metering demo_moka) (metered_backend demo_metering demo_redis) ?p)) ?p))
      (composition_backend demo_sched (compose_with demo_moka (composition_backend demo_sched (demo_tiers ?p)) ?p))"
    by (rule typed, rule compose_erases [OF moka inner]) (simp add: demo_sched_def)
  have "metered_states forgets_meter (metered_states forgets_meter forgets_meter)
      \<lparr>co_layers = \<lparr>ly_l1 = ((ly_l1 (co_layers demo_empty), no_records), no_records), ly_l2 = (metered_demo_tiers, no_records)\<rparr>, co_tasks = []\<rparr>
      \<lparr>co_layers = \<lparr>ly_l1 = ly_l1 (co_layers demo_empty), ly_l2 = demo_empty\<rparr>, co_tasks = []\<rparr>"
    by (simp add: states_relate_def layers_relate_def over_meter_def metered_demo_tiers_def demo_empty_def)
  then show ?thesis using outer unfolding Let_def backend_erases_def erases_def composition_backend_def by simp
qed

text \<open>The counters of a backend add up: over any sequence of typed calls, the reads recorded are the gets,
  errors and refills included; a read error is recorded for a failed get only; and the writes recorded are the
  write errors and the sets that stored their value, and nothing else.\<close>

lemma backend_counters_add_up:
  assumes "mt_enabled M" "me_log (snd w) = []" "metered_run M B calls w = (outcomes, w')" "l = of_backend (label_str (be_label B))"
  shows "counted backend_read_total l w' = length (filter is_get calls)
    \<and> counted backend_read_errors l w' \<le> length (filter (\<lambda>(c, ok). is_get c \<and> \<not> ok) outcomes)
    \<and> counted backend_write_total l w' = counted backend_write_errors l w' + length (filter (\<lambda>(c, ok). is_store c \<and> ok) outcomes)"
  using metered_run_counts [OF assms(1,3)] assms(2,4) by simp

theorem backend_counters_add_up_witness:
  "counted backend_read_total [(''backend'', ''moka'')]
     (snd (metered_run demo_metering demo_moka
        [CallSet (cache_key_from_str ''a'' ''b'') (cache_value_new 7 None None) (boxed cache_context_default),
         CallGet (cache_key_from_str ''a'' ''b'') (boxed cache_context_default)]
        (\<lparr>rm_now = 0, rm_held = (\<lambda>k. None)\<rparr>, no_records))) = 1"
proof -
  have l: "[(''backend'', ''moka'')] = of_backend (label_str (be_label demo_moka))"
    by (simp add: of_backend_def demo_moka_def mb_max_entries_def moka_builder_new_def)
  show ?thesis
    by (rule backend_counters_add_up [OF _ _ surjective_pairing l, THEN conjunct1, THEN trans])
      (simp_all add: demo_metering_def no_records_def del: metered_run.simps)
qed

end
