(* ===== verification/Fsm_Progress.thy ===== *)
theory Fsm_Progress
  imports Fsm_Spec
begin

text \<open>
  Polled again and again, in worlds that change between the polls, a cache future completes: every
  poll that does not find its awaited operation pending brings it further.
\<close>

text \<open>The future after a number of polls, while it is pending.\<close>

fun polled_future ::
  "('req, 'c, 'rx, 'w, 'res, 'rp) fsm_env \<Rightarrow> (nat \<Rightarrow> 'w) \<Rightarrow> ('req, 'res, 'rp, 'c, 'rx) cache_future \<Rightarrow> nat
     \<Rightarrow> ('req, 'res, 'rp, 'c, 'rx) cache_future option" where
  "polled_future E ws f 0 = Some f"
| "polled_future E ws f (Suc n) =
     (case polled_future E ws f n of
        None \<Rightarrow> None
      | Some g \<Rightarrow> (case fst (fsm_poll E g (ws n)) of Pending g' \<Rightarrow> Some g' | _ \<Rightarrow> None))"

text \<open>What is left to be done: the turns to come, and within an update the write before the conversion.\<close>

fun awaits_left :: "('req, 'res, 'rp, 'c, 'rx) state \<Rightarrow> nat" where
  "awaits_left (UpdateCache (Setting key val ctx) st) = 3"
| "awaits_left s = 2 * rank s"

lemma awaits_left_bounds: "2 * rank s \<le> awaits_left s" "awaits_left s \<le> Suc (2 * rank s)"
  by (cases s rule: awaits_left.cases; simp)+

lemma fsm_turn_awaits: "fsm_turn E f w = (Moved f', w') \<Longrightarrow> awaits_left (cf_state f') < awaits_left (cf_state f)"
  using fsm_turn_rank [of E f w f' w'] awaits_left_bounds(1) [of "cf_state f"] awaits_left_bounds(2) [of "cf_state f'"] by simp

lemma fsm_turn_pending:
  "fsm_turn E f w = (Pending f', w') \<Longrightarrow> f' = f \<or> awaits_left (cf_state f') < awaits_left (cf_state f)"
  by (auto simp: fsm_turn.simps poll_update_def Let_def split: state.splits option.splits prod.splits update_future.splits)

lemma fsm_poll_pending:
  "fst (fsm_poll E f w) = Pending g \<Longrightarrow> g = f \<or> awaits_left (cf_state g) < awaits_left (cf_state f)"
proof (induction E f w rule: fsm_poll.induct)
  case (1 E f w)
  obtain t w' where t: "fsm_turn E f w = (t, w')" by fastforce
  show ?case
  proof (cases t)
    case (Pending f')
    then show ?thesis using 1(2) t fsm_turn_pending [of E f w f' w'] by (simp add: fsm_poll.simps)
  next
    case (Moved f')
    then have "fst (fsm_poll E f' w') = Pending g" using 1(2) t by (simp add: fsm_poll.simps [of E f w])
    with 1(1) t Moved have "g = f' \<or> awaits_left (cf_state g) < awaits_left (cf_state f')" by simp
    then show ?thesis using fsm_turn_awaits [OF t [unfolded Moved]] by auto
  qed (use 1(2) t in \<open>simp_all add: fsm_poll.simps\<close>)
qed

lemma polled_future_wf: "wf_future f \<Longrightarrow> polled_future E ws f n = Some g \<Longrightarrow> wf_future g"
proof (induction n arbitrary: g)
  case (Suc n)
  then obtain h where h: "polled_future E ws f n = Some h" "fst (fsm_poll E h (ws n)) = Pending g"
    by (auto split: option.splits turn.splits)
  with Suc fsm_poll_wf [of h E "ws n"] show ?case by simp
qed simp

text \<open>The first poll after which the future is no longer what it was either completes it or leaves less to do.\<close>

lemma polled_future_changes:
  assumes "polled_future E ws f n = Some g" "n \<le> m" "polled_future E ws f m \<noteq> Some g"
  obtains k where "n \<le> k" "polled_future E ws f k = Some g" "polled_future E ws f (Suc k) \<noteq> Some g"
  using assms(2,3)
proof (induction m rule: dec_induct)
  case base
  with assms(1) show ?case by simp
next
  case (step m)
  then show ?case by (cases "polled_future E ws f m = Some g") auto
qed

lemma polled_until_ready:
  assumes "wf_future f" and fair: "\<And>n g. polled_future E ws f n = Some g \<Longrightarrow> \<exists>m \<ge> n. polled_future E ws f m \<noteq> Some g"
  shows "polled_future E ws f n = Some g \<Longrightarrow>
    \<exists>k h h' out w'. polled_future E ws f k = Some h \<and> fsm_poll E h (ws k) = (Ready h' out, w')"
proof (induction "awaits_left (cf_state g)" arbitrary: n g rule: less_induct)
  case less
  obtain m where "n \<le> m" "polled_future E ws f m \<noteq> Some g" using fair [OF less(2)] by blast
  then obtain k where k: "polled_future E ws f k = Some g" "polled_future E ws f (Suc k) \<noteq> Some g"
    using polled_future_changes [OF less(2)] by metis
  obtain t w' where t: "fsm_poll E g (ws k) = (t, w')" by fastforce
  have wf: "wf_future g" by (rule polled_future_wf [OF assms(1) k(1)])
  show ?case
  proof (cases t)
    case (Pending h)
    with k t have h: "polled_future E ws f (Suc k) = Some h" "h \<noteq> g" by auto
    then have "awaits_left (cf_state h) < awaits_left (cf_state g)"
      using fsm_poll_pending [of E g "ws k" h] t Pending by simp
    from less(1) [OF this h(1)] show ?thesis .
  next
    case (Ready h out)
    then show ?thesis using k(1) t by blast
  qed (use fsm_poll_wf [OF wf, of E "ws k"] t in simp_all)
qed

text \<open>C8. A request is answered, as far as the state machine goes: polled again and again, in whatever
  worlds, a cache future completes with a response, unless from some poll on the operation it
  waits for is pending for ever.  No path through the states goes round.\<close>

theorem cache_future_completes:
  assumes "start = cache_future_new request p rp x policy \<or> start = fst (cache_future_revalidate E key request rp policy w0)"
    and "\<And>n f. polled_future E ws start n = Some f \<Longrightarrow> \<exists>m \<ge> n. polled_future E ws start m \<noteq> Some f"
  shows "\<exists>n f f' out w'. polled_future E ws start n = Some f \<and> fsm_poll E f (ws n) = (Ready f' out, w')"
proof -
  have "wf_future start" using assms(1) wf_cache_future_revalidate by auto
  from polled_until_ready [OF this assms(2), of 0 start] show ?thesis by simp
qed

text \<open>A run whose upstream is pending at the first poll.\<close>

definition slow_env :: "(nat, nat, nat, demo_world, nat, nat predicate) fsm_env" where
  "slow_env = demo_env\<lparr>fe_upstream := (\<lambda>u w. if dw_time w = 100 then (None, w) else (Some (10 * u), w))\<rparr>"

lemma cache_future_completes_witness:
  "\<exists>n f f' out w'. polled_future slow_env (\<lambda>n. demo_start\<lparr>dw_time := 100 + int n\<rparr>)
       (cache_future_new 4 async_neutral neutral demo_extractor Disabled) n = Some f
     \<and> fsm_poll slow_env f (demo_start\<lparr>dw_time := 100 + int n\<rparr>) = (Ready f' out, w')"
proof -
  let ?ws = "\<lambda>n. demo_start\<lparr>dw_time := 100 + int n\<rparr>"
  let ?f = "cache_future_new 4 async_neutral neutral demo_extractor Disabled :: (nat, nat, nat predicate, nat, nat) cache_future"
  let ?g = "?f\<lparr>cf_state := PollUpstream 4 (Some \<lparr>pu_permit = None, pu_ctx = boxed cache_context_default, pu_cache_key = None\<rparr>)\<rparr>"
  note run = fsm_poll.simps fsm_turn.simps cache_future_new_def initial_next_def poll_upstream_next_def slow_env_def
  have one: "polled_future slow_env ?ws ?f (Suc 0) = Some ?g" by (simp add: run)
  have two: "polled_future slow_env ?ws ?f (Suc (Suc 0)) = None"
    using one by (simp add: run)
  have late: "polled_future slow_env ?ws ?f (n + 2) = None" for n by (induction n) (use two in simp_all)
  have fair: "\<exists>m \<ge> n. polled_future slow_env ?ws ?f m \<noteq> Some f" if "polled_future slow_env ?ws ?f n = Some f" for n f
    using late [of n] by (intro exI [of _ "n + 2"]) simp
  show ?thesis
    using cache_future_completes [OF disjI1 [OF refl], of slow_env ?ws, OF fair] by blast
qed

end
