(* ===== verification/Offload.thy ===== *)
theory Offload
  imports Core_Key "HOL-Library.AList"
begin

text \<open>
  Background tasks (hitbox/src/offload): configuration and its builder, the manager's task table,
  spawning with and without a key, cancellation and bookkeeping; and the disabled offload
  (hitbox-core/src/offload.rs).  A spawned task is a number; the runtime's knowledge of which
  tasks are still running, and of which it was asked to abort, is part of the state, so that the ways
  a task can end, and the order of that end and of the insertion of its handle, can be spelled out.
  The table is shared: checking a key, starting its task and inserting the handle are steps of their
  own, which concurrent spawns may interleave.
\<close>

section \<open>Configuration\<close>

datatype timeout_policy = NoTimeout | CancelAfter duration | WarnAfter duration

record offload_config =
  oc_max_concurrent_tasks :: "nat option"
  oc_timeout_policy :: timeout_policy
  oc_deduplicate :: bool

definition offload_config_default :: offload_config where
  "offload_config_default =
     \<lparr>oc_max_concurrent_tasks = None, oc_timeout_policy = NoTimeout, oc_deduplicate = True\<rparr>"

record offload_config_builder =
  ob_max_concurrent_tasks :: "nat option"
  ob_timeout_policy :: timeout_policy
  ob_deduplicate :: bool

text \<open>\<open>OffloadConfigBuilder::new\<close>, and the derived \<open>Default\<close> that \<open>OffloadConfig::builder()\<close>
  starts from.\<close>

definition offload_builder_new :: offload_config_builder where
  "offload_builder_new =
     \<lparr>ob_max_concurrent_tasks = None, ob_timeout_policy = NoTimeout, ob_deduplicate = True\<rparr>"

definition offload_builder_default :: offload_config_builder where
  "offload_builder_default =
     \<lparr>ob_max_concurrent_tasks = None, ob_timeout_policy = NoTimeout, ob_deduplicate = False\<rparr>"

definition offload_builder :: offload_config_builder where
  "offload_builder = offload_builder_default"

definition ob_set_max :: "nat \<Rightarrow> offload_config_builder \<Rightarrow> offload_config_builder" where
  "ob_set_max n b = b\<lparr>ob_max_concurrent_tasks := Some n\<rparr>"

definition ob_set_timeout_policy :: "timeout_policy \<Rightarrow> offload_config_builder \<Rightarrow> offload_config_builder" where
  "ob_set_timeout_policy p b = b\<lparr>ob_timeout_policy := p\<rparr>"

definition ob_set_timeout :: "duration \<Rightarrow> offload_config_builder \<Rightarrow> offload_config_builder" where
  "ob_set_timeout d b = ob_set_timeout_policy (CancelAfter d) b"

definition ob_set_deduplicate :: "bool \<Rightarrow> offload_config_builder \<Rightarrow> offload_config_builder" where
  "ob_set_deduplicate e b = b\<lparr>ob_deduplicate := e\<rparr>"

definition ob_build :: "offload_config_builder \<Rightarrow> offload_config" where
  "ob_build b = \<lparr>oc_max_concurrent_tasks = ob_max_concurrent_tasks b,
                 oc_timeout_policy = ob_timeout_policy b, oc_deduplicate = ob_deduplicate b\<rparr>"

section \<open>Keys and the manager\<close>

datatype offload_key = CacheTask cache_key | Generated string "64 word"

definition key_type :: "offload_key \<Rightarrow> string" where
  "key_type k = (case k of CacheTask _ \<Rightarrow> ''cache'' | Generated kind _ \<Rightarrow> kind)"

text \<open>\<open>om_running\<close>, \<open>om_aborting\<close> and \<open>om_next\<close> belong to the runtime: the tasks that run, with their
  keys, those it was asked to abort, and the number of the next one.\<close>

record offload_manager =
  om_config :: offload_config
  om_tasks :: "(offload_key \<times> nat) list"
  om_key_counter :: "64 word"
  om_running :: "(nat \<times> offload_key) list"
  om_aborting :: "nat list"
  om_next :: nat

definition offload_manager_new :: "offload_config \<Rightarrow> offload_manager" where
  "offload_manager_new c =
     \<lparr>om_config = c, om_tasks = [], om_key_counter = 0, om_running = [], om_aborting = [], om_next = 0\<rparr>"

definition offload_manager_with_defaults :: offload_manager where
  "offload_manager_with_defaults = offload_manager_new offload_config_default"

definition handle_finished :: "offload_manager \<Rightarrow> nat \<Rightarrow> bool" where
  "handle_finished m t \<longleftrightarrow> t \<notin> fst ` set (om_running m)"

text \<open>\<open>JoinHandle::abort\<close> asks the runtime to stop the task at its next await; until then the task runs,
  and it may still get to its end.\<close>

definition handle_abort :: "nat \<Rightarrow> offload_manager \<Rightarrow> offload_manager" where
  "handle_abort t m = (if handle_finished m t then m else m\<lparr>om_aborting := t # om_aborting m\<rparr>)"

definition next_key :: "string \<Rightarrow> offload_manager \<Rightarrow> offload_key \<times> offload_manager" where
  "next_key kind m = (Generated kind (om_key_counter m), m\<lparr>om_key_counter := om_key_counter m + 1\<rparr>)"

text \<open>\<open>spawn_inner\<close> starts the task and gives its handle.\<close>

definition spawn_inner :: "offload_key \<Rightarrow> offload_manager \<Rightarrow> nat \<times> offload_manager" where
  "spawn_inner key m = (om_next m, m\<lparr>om_running := (om_next m, key) # om_running m, om_next := Suc (om_next m)\<rparr>)"

definition insert_handle :: "offload_key \<Rightarrow> nat \<Rightarrow> offload_manager \<Rightarrow> offload_manager" where
  "insert_handle key t m = m\<lparr>om_tasks := AList.update key t (om_tasks m)\<rparr>"

definition deduplicated :: "offload_key \<Rightarrow> offload_manager \<Rightarrow> bool" where
  "deduplicated key m \<longleftrightarrow>
     oc_deduplicate (om_config m) \<and> (case key of CacheTask _ \<Rightarrow> True | Generated _ _ \<Rightarrow> False)
     \<and> map_of (om_tasks m) key \<noteq> None"

definition spawn_with_key :: "offload_key \<Rightarrow> offload_manager \<Rightarrow> bool \<times> offload_manager" where
  "spawn_with_key key m =
     (if deduplicated key m then (False, m)
      else case spawn_inner key m of (t, m') \<Rightarrow> (True, insert_handle key t m'))"

text \<open>The same spawn between its steps, for a table that others use at the same time: the key was checked
  and the task is to be started, or the task was started and its handle is to be inserted.  (The last
  stage is that of the recordings, which Service\_Metrics adds.)\<close>

datatype spawn_stage = Checked offload_key | Started offload_key nat | Inserted offload_key

primrec stage_key :: "spawn_stage \<Rightarrow> offload_key" where
  "stage_key (Checked key) = key"
| "stage_key (Started key t) = key"
| "stage_key (Inserted key) = key"

definition spawn :: "string \<Rightarrow> offload_manager \<Rightarrow> offload_key \<times> offload_manager" where
  "spawn kind m =
     (case next_key kind m of (key, m') \<Rightarrow> (key, snd (spawn_with_key key m')))"

text \<open>How a task body of a given duration ends under each policy; in each of these cases the task then
  removes its key from the table and is finished.\<close>

datatype task_outcome = Completed | CompletedLate | TimedOut

definition task_body_outcome :: "timeout_policy \<Rightarrow> duration \<Rightarrow> task_outcome" where
  "task_body_outcome p elapsed =
     (case p of
        NoTimeout \<Rightarrow> Completed
      | CancelAfter d \<Rightarrow> if elapsed \<le> d then Completed else TimedOut
      | WarnAfter d \<Rightarrow> if d < elapsed then CompletedLate else Completed)"

definition task_end :: "nat \<Rightarrow> offload_key \<Rightarrow> offload_manager \<Rightarrow> offload_manager" where
  "task_end t key m =
     m\<lparr>om_tasks := AList.delete key (om_tasks m), om_running := filter (\<lambda>(i, _). i \<noteq> t) (om_running m)\<rparr>"

text \<open>A task that panics, or that the runtime aborts, is finished without having removed its key.\<close>

definition task_dropped :: "nat \<Rightarrow> offload_manager \<Rightarrow> offload_manager" where
  "task_dropped t m = m\<lparr>om_running := filter (\<lambda>(i, _). i \<noteq> t) (om_running m)\<rparr>"

datatype task_event = TaskEnds nat offload_key | TaskDropped nat

primrec run_task_event :: "task_event \<Rightarrow> offload_manager \<Rightarrow> offload_manager" where
  "run_task_event (TaskEnds t key) = task_end t key"
| "run_task_event (TaskDropped t) = task_dropped t"

definition active_task_count :: "offload_manager \<Rightarrow> nat" where
  "active_task_count m = length (filter (\<lambda>(_, t). \<not> handle_finished m t) (om_tasks m))"

definition total_task_count :: "offload_manager \<Rightarrow> nat" where
  "total_task_count m = length (om_tasks m)"

definition cleanup_finished :: "offload_manager \<Rightarrow> offload_manager" where
  "cleanup_finished m = m\<lparr>om_tasks := filter (\<lambda>(_, t). \<not> handle_finished m t) (om_tasks m)\<rparr>"

definition cancel_all :: "offload_manager \<Rightarrow> offload_manager" where
  "cancel_all m = fold handle_abort (map snd (om_tasks m)) m"

definition cancel_task :: "offload_key \<Rightarrow> offload_manager \<Rightarrow> bool \<times> offload_manager" where
  "cancel_task key m =
     (case map_of (om_tasks m) key of Some t \<Rightarrow> (True, handle_abort t m) | None \<Rightarrow> (False, m))"

definition is_in_flight :: "offload_key \<Rightarrow> offload_manager \<Rightarrow> bool" where
  "is_in_flight key m = (case map_of (om_tasks m) key of Some t \<Rightarrow> \<not> handle_finished m t | None \<Rightarrow> False)"

text \<open>\<open>wait_all\<close>: between two looks at the table the runtime lets some tasks end; the list says
  which and how, look by look.  It returns when a look finds the table empty after the clean-up.\<close>

fun wait_all :: "task_event list list \<Rightarrow> offload_manager \<Rightarrow> offload_manager option" where
  "wait_all rounds m =
     (let m = cleanup_finished m in
      if om_tasks m = [] then Some m
      else case rounds of
             [] \<Rightarrow> None
           | ended # rest \<Rightarrow> wait_all rest (fold run_task_event ended m))"

declare wait_all.simps [simp del]

text \<open>The rounds that fit into the timeout either empty the table or they do not.\<close>

definition wait_all_timeout :: "task_event list list \<Rightarrow> offload_manager \<Rightarrow> bool" where
  "wait_all_timeout rounds m = (case wait_all rounds m of Some _ \<Rightarrow> True | None \<Rightarrow> False)"

section \<open>The invariant of the table\<close>

text \<open>Keys are distinct, and so are the tasks, whose numbers are in the past.\<close>

definition wf_offload :: "offload_manager \<Rightarrow> bool" where
  "wf_offload m \<longleftrightarrow>
     distinct (map fst (om_tasks m)) \<and> distinct (map fst (om_running m))
     \<and> (\<forall>(t, k) \<in> set (om_running m). t < om_next m)"

lemma wf_offload_new [simp]: "wf_offload (offload_manager_new c)"
  by (simp add: wf_offload_def offload_manager_new_def)

lemma wf_spawn_inner: "wf_offload m \<Longrightarrow> wf_offload (snd (spawn_inner key m))"
  unfolding wf_offload_def spawn_inner_def by (auto simp: less_Suc_eq)

lemma wf_insert_handle: "wf_offload m \<Longrightarrow> wf_offload (insert_handle key t m)"
  unfolding wf_offload_def insert_handle_def by (auto simp: distinct_update)

lemma wf_spawn_with_key: "wf_offload m \<Longrightarrow> wf_offload (snd (spawn_with_key key m))"
  unfolding spawn_with_key_def using wf_spawn_inner [of m key] wf_insert_handle
  by (auto split: prod.splits)

lemma spawn_with_key_config [simp]: "om_config (snd (spawn_with_key key m)) = om_config m"
  by (simp add: spawn_with_key_def spawn_inner_def insert_handle_def)

lemma wf_task_end: "wf_offload m \<Longrightarrow> wf_offload (task_end t key m)"
  unfolding wf_offload_def task_end_def by (auto simp: AList.delete_eq distinct_map_filter)

lemma wf_task_dropped: "wf_offload m \<Longrightarrow> wf_offload (task_dropped t m)"
  unfolding wf_offload_def task_dropped_def by (auto simp: distinct_map_filter)

lemma wf_cleanup_finished: "wf_offload m \<Longrightarrow> wf_offload (cleanup_finished m)"
  unfolding wf_offload_def cleanup_finished_def by (auto simp: distinct_map_filter)

lemma spawn_eq: "spawn kind m = (fst (next_key kind m), snd (spawn_with_key (fst (next_key kind m)) (snd (next_key kind m))))"
  by (simp add: spawn_def case_prod_unfold)

text \<open>Asking for aborts and taking keys leaves the table and the tasks.\<close>

definition same_tasks :: "offload_manager \<Rightarrow> offload_manager \<Rightarrow> bool" where
  "same_tasks m m' \<longleftrightarrow> om_config m' = om_config m \<and> om_tasks m' = om_tasks m \<and> om_running m' = om_running m
     \<and> om_next m' = om_next m"

lemma same_tasks_abort: "same_tasks m (handle_abort t m)"
  by (simp add: same_tasks_def handle_abort_def)

lemma same_tasks_cancel: "same_tasks m (snd (cancel_task key m))"
  using same_tasks_abort by (auto simp: cancel_task_def same_tasks_def split: option.split)

lemma same_tasks_next_key: "same_tasks m (snd (next_key kind m))"
  by (simp add: same_tasks_def next_key_def)

lemma same_tasks_cancel_all: "same_tasks m (cancel_all m)"
proof -
  have "same_tasks m (fold handle_abort ts m)" for ts
    by (induction ts arbitrary: m) (use same_tasks_abort in \<open>auto simp: same_tasks_def\<close>)
  then show ?thesis by (simp add: cancel_all_def)
qed

lemmas same_tasks = same_tasks_abort same_tasks_cancel same_tasks_next_key same_tasks_cancel_all

lemma wf_same_tasks: "same_tasks m m' \<Longrightarrow> wf_offload m' = wf_offload m"
  by (simp add: same_tasks_def wf_offload_def)

text \<open>What can happen to a manager, step by step, with the spawns under way: spawns are checked, started and
  have their handles inserted, keys are taken, tasks end, panic or are aborted, with or without their
  handle in the table, cancellation and clean-up.  Spawns under the keys of \<open>K\<close> do not overlap; spawns under the other
  keys may.\<close>

inductive om_reach :: "offload_config \<Rightarrow> offload_key set \<Rightarrow> offload_manager \<Rightarrow> spawn_stage list \<Rightarrow> bool" for c K where
  om_new: "om_reach c K (offload_manager_new c) []"
| om_check: "om_reach c K m sp \<Longrightarrow> \<not> deduplicated key m \<Longrightarrow> key \<in> K \<longrightarrow> key \<notin> stage_key ` set sp
    \<Longrightarrow> om_reach c K m (Checked key # sp)"
| om_start: "om_reach c K m sp \<Longrightarrow> Checked key \<in> set sp \<Longrightarrow> spawn_inner key m = (t, m')
    \<Longrightarrow> om_reach c K m' (Started key t # remove1 (Checked key) sp)"
| om_insert: "om_reach c K m sp \<Longrightarrow> Started key t \<in> set sp
    \<Longrightarrow> om_reach c K (insert_handle key t m) (remove1 (Started key t) sp)"
| om_key: "om_reach c K m sp \<Longrightarrow> om_reach c K (snd (next_key kind m)) sp"
| om_end: "om_reach c K m sp \<Longrightarrow> (t, key) \<in> set (om_running m) \<Longrightarrow> om_reach c K (task_end t key m) sp"
| om_panic: "om_reach c K m sp \<Longrightarrow> om_reach c K (task_dropped t m) sp"
| om_abort: "om_reach c K m sp \<Longrightarrow> t \<in> set (om_aborting m) \<Longrightarrow> om_reach c K (task_dropped t m) sp"
| om_cancel: "om_reach c K m sp \<Longrightarrow> om_reach c K (snd (cancel_task key m)) sp"
| om_cancel_all: "om_reach c K m sp \<Longrightarrow> om_reach c K (cancel_all m) sp"
| om_cleanup: "om_reach c K m sp \<Longrightarrow> om_reach c K (cleanup_finished m) sp"

lemma om_reach_config: "om_reach c K m sp \<Longrightarrow> om_config m = c"
  by (induction rule: om_reach.induct)
    (use same_tasks in \<open>auto simp: same_tasks_def task_end_def task_dropped_def cleanup_finished_def spawn_inner_def insert_handle_def
      offload_manager_new_def\<close>)

lemma om_reach_wf: "om_reach c K m sp \<Longrightarrow> wf_offload m"
proof (induction rule: om_reach.induct)
  case (om_start m sp key t m')
  then show ?case using wf_spawn_inner [of m key] by simp
qed (auto intro: wf_insert_handle wf_task_end wf_task_dropped wf_cleanup_finished simp: wf_same_tasks [OF same_tasks_next_key]
    wf_same_tasks [OF same_tasks_cancel] wf_same_tasks [OF same_tasks_cancel_all])

text \<open>A spawn that nothing interrupts is the one of the code.\<close>

lemma uninterrupted_spawn:
  assumes "om_reach c K m sp" "key \<in> K \<longrightarrow> key \<notin> stage_key ` set sp"
  shows "om_reach c K (snd (spawn_with_key key m)) sp"
proof (cases "deduplicated key m")
  case False
  obtain t m' where t: "spawn_inner key m = (t, m')" by (metis surj_pair)
  from om_check [OF assms(1) False assms(2)] have "om_reach c K m' (Started key t # sp)"
    using om_start [of c K m "Checked key # sp" key t m'] t by simp
  from om_insert [OF this, of key t] show ?thesis using t False by (simp add: spawn_with_key_def)
qed (use assms in \<open>simp add: spawn_with_key_def\<close>)

text \<open>A running task with a cache key whose spawns do not overlap is the one the table holds under that key, or the one
  whose handle is about to be inserted.\<close>

definition tracked :: "cache_key \<Rightarrow> offload_manager \<Rightarrow> spawn_stage list \<Rightarrow> bool" where
  "tracked k m sp \<longleftrightarrow>
     (case filter (\<lambda>s. stage_key s = CacheTask k) sp of
        [] \<Rightarrow> \<forall>t. (t, CacheTask k) \<in> set (om_running m) \<longrightarrow> map_of (om_tasks m) (CacheTask k) = Some t
      | [Checked _] \<Rightarrow> \<forall>t. (t, CacheTask k) \<notin> set (om_running m)
      | [Started _ t'] \<Rightarrow> \<forall>t. (t, CacheTask k) \<in> set (om_running m) \<longrightarrow> t = t'
      | _ \<Rightarrow> False)"

lemma tracked_cases:
  assumes "tracked k m sp"
  obtains (quiet) "filter (\<lambda>s. stage_key s = CacheTask k) sp = []"
      "\<And>t. (t, CacheTask k) \<in> set (om_running m) \<Longrightarrow> map_of (om_tasks m) (CacheTask k) = Some t"
    | (checked) "filter (\<lambda>s. stage_key s = CacheTask k) sp = [Checked (CacheTask k)]"
      "\<And>t. (t, CacheTask k) \<notin> set (om_running m)"
    | (started) t' where "filter (\<lambda>s. stage_key s = CacheTask k) sp = [Started (CacheTask k) t']"
      "\<And>t. (t, CacheTask k) \<in> set (om_running m) \<Longrightarrow> t = t'"
proof -
  have key: "filter (\<lambda>s. stage_key s = CacheTask k) sp = s # ss \<Longrightarrow> stage_key s = CacheTask k" for s ss
    by (metis (mono_tags, lifting) list.set_intros(1) mem_Collect_eq set_filter)
  show ?thesis
  proof (cases "filter (\<lambda>s. stage_key s = CacheTask k) sp")
    case Nil
    then show ?thesis using assms quiet by (simp add: tracked_def)
  next
    case (Cons s ss)
    then have ss: "ss = []" using assms by (cases s; cases ss) (simp_all add: tracked_def)
    show ?thesis
    proof (cases s)
      case (Checked key)
      then have "key = CacheTask k" using key [OF Cons] by simp
      then show ?thesis using assms checked Cons ss Checked by (simp add: tracked_def)
    next
      case (Started key t)
      then have "key = CacheTask k" using key [OF Cons] by simp
      then show ?thesis using assms started Cons ss Started by (simp add: tracked_def)
    next
      case (Inserted key)
      then show ?thesis using assms Cons by (simp add: tracked_def)
    qed
  qed
qed

lemma tracked_unique:
  assumes "tracked k m sp" "(t1, CacheTask k) \<in> set (om_running m)" "(t2, CacheTask k) \<in> set (om_running m)"
  shows "t1 = t2"
  using assms(1)
proof (cases rule: tracked_cases)
  case quiet
  from quiet(2) [OF assms(2)] quiet(2) [OF assms(3)] show ?thesis by simp
next
  case checked
  from checked(2) [of t1] assms(2) show ?thesis by blast
next
  case (started t')
  from started(2) [OF assms(2)] started(2) [OF assms(3)] show ?thesis by simp
qed

lemma tracked_fewer:
  assumes "tracked k m sp" "set (om_running m') \<subseteq> set (om_running m)"
    and "\<And>t. (t, CacheTask k) \<in> set (om_running m') \<Longrightarrow> map_of (om_tasks m) (CacheTask k) = Some t
      \<Longrightarrow> map_of (om_tasks m') (CacheTask k) = Some t"
  shows "tracked k m' sp"
  using assms(1)
proof (cases rule: tracked_cases)
  case quiet
  then show ?thesis using assms(2,3) by (auto simp: tracked_def)
next
  case checked
  then show ?thesis using assms(2) by (auto simp: tracked_def)
next
  case (started t')
  then show ?thesis using assms(2) by (auto simp: tracked_def)
qed

lemma tracked_same_tasks: "tracked k m sp \<Longrightarrow> same_tasks m m' \<Longrightarrow> tracked k m' sp"
  by (erule tracked_fewer) (auto simp: same_tasks_def)

lemma tracked_task_end:
  assumes "tracked k m sp" "(t, key) \<in> set (om_running m)"
  shows "tracked k (task_end t key m) sp"
proof (rule tracked_fewer [OF assms(1)])
  fix t' assume r: "(t', CacheTask k) \<in> set (om_running (task_end t key m))"
    and m: "map_of (om_tasks m) (CacheTask k) = Some t'"
  have "key \<noteq> CacheTask k" using tracked_unique [OF assms(1), of t t'] assms(2) r by (auto simp: task_end_def)
  then show "map_of (om_tasks (task_end t key m)) (CacheTask k) = Some t'" using m by (simp add: task_end_def delete_conv')
qed (auto simp: task_end_def)

lemma map_of_filter_kept:
  "map_of al k = Some v \<Longrightarrow> distinct (map fst al) \<Longrightarrow> Q (k, v) \<Longrightarrow> map_of (filter Q al) k = Some v"
  by (induction al) (auto dest: map_of_SomeD)

lemma tracked_cleanup_finished:
  assumes "wf_offload m" "tracked k m sp"
  shows "tracked k (cleanup_finished m) sp"
proof (rule tracked_fewer [OF assms(2)])
  fix t assume "(t, CacheTask k) \<in> set (om_running (cleanup_finished m))" "map_of (om_tasks m) (CacheTask k) = Some t"
  then show "map_of (om_tasks (cleanup_finished m)) (CacheTask k) = Some t"
    using assms(1) unfolding wf_offload_def cleanup_finished_def handle_finished_def
    by (auto intro!: map_of_filter_kept) force
qed (simp add: cleanup_finished_def)

lemma filter_key_other: "stage_key x \<noteq> CacheTask k \<Longrightarrow>
    filter (\<lambda>s. stage_key s = CacheTask k) (remove1 x sp) = filter (\<lambda>s. stage_key s = CacheTask k) sp"
  by (induction sp) auto

lemma tracked_check:
  assumes "tracked k m sp" "\<not> deduplicated key m" "oc_deduplicate (om_config m)" "key = CacheTask k \<longrightarrow> key \<notin> stage_key ` set sp"
  shows "tracked k m (Checked key # sp)"
proof (cases "key = CacheTask k")
  case True
  then have "filter (\<lambda>s. stage_key s = CacheTask k) sp = []" using assms(4) by (force simp: filter_empty_conv)
  then show ?thesis using assms(1-3) True by (auto simp: tracked_def deduplicated_def)
qed (use assms(1) in \<open>simp add: tracked_def\<close>)

lemma tracked_start:
  assumes "tracked k m sp" "Checked key \<in> set sp" "spawn_inner key m = (t, m')"
  shows "tracked k m' (Started key t # remove1 (Checked key) sp)"
proof (cases "key = CacheTask k")
  case True
  then have "Checked (CacheTask k) \<in> set (filter (\<lambda>s. stage_key s = CacheTask k) sp)" using assms(2) by simp
  with assms(1) have "filter (\<lambda>s. stage_key s = CacheTask k) sp = [Checked (CacheTask k)]
      \<and> (\<forall>t. (t, CacheTask k) \<notin> set (om_running m))"
    by (cases rule: tracked_cases) simp_all
  then show ?thesis using assms(3) True by (auto simp: tracked_def spawn_inner_def filter_remove1)
next
  case False
  then show ?thesis using assms(1,3)
    by (auto simp: tracked_def spawn_inner_def filter_key_other split: list.splits spawn_stage.splits)
qed

lemma tracked_insert:
  assumes "tracked k m sp" "Started key t \<in> set sp"
  shows "tracked k (insert_handle key t m) (remove1 (Started key t) sp)"
proof (cases "key = CacheTask k")
  case True
  then have "Started (CacheTask k) t \<in> set (filter (\<lambda>s. stage_key s = CacheTask k) sp)" using assms(2) by simp
  with assms(1) have "filter (\<lambda>s. stage_key s = CacheTask k) sp = [Started (CacheTask k) t]
      \<and> (\<forall>t'. (t', CacheTask k) \<in> set (om_running m) \<longrightarrow> t' = t)"
    by (cases rule: tracked_cases) auto
  then show ?thesis using True by (simp add: tracked_def insert_handle_def update_conv' filter_remove1)
next
  case False
  then show ?thesis using assms(1)
    by (auto simp: tracked_def insert_handle_def filter_key_other update_conv' split: list.splits spawn_stage.splits)
qed

lemma om_reach_tracked:
  assumes "oc_deduplicate c" "CacheTask k \<in> K"
  shows "om_reach c K m sp \<Longrightarrow> tracked k m sp"
proof (induction rule: om_reach.induct)
  case (om_check m sp key)
  then show ?case using tracked_check [of k m sp key] om_reach_config [OF om_check(1)] assms by auto
next
  case (om_key m sp kind)
  then show ?case using tracked_same_tasks [OF _ same_tasks_next_key] by blast
next
  case (om_cancel m sp key)
  then show ?case using tracked_same_tasks [OF _ same_tasks_cancel] by blast
next
  case (om_cancel_all m sp)
  then show ?case using tracked_same_tasks [OF _ same_tasks_cancel_all] by blast
next
  case (om_cleanup m sp)
  then show ?case using tracked_cleanup_finished [OF om_reach_wf] by blast
next
  case om_new
  then show ?case by (simp add: tracked_def offload_manager_new_def)
next
  case (om_start m sp key t m')
  then show ?case by (blast intro: tracked_start)
next
  case (om_insert m sp key t)
  then show ?case by (blast intro: tracked_insert)
next
  case (om_end m sp t key)
  then show ?case by (blast intro: tracked_task_end)
qed (erule tracked_fewer, auto simp: task_dropped_def)+

subsection \<open>Generated keys\<close>

lemma spawn_generated:
  "spawn kind m = (Generated kind (om_key_counter m),
     m\<lparr>om_key_counter := om_key_counter m + 1,
       om_running := (om_next m, Generated kind (om_key_counter m)) # om_running m,
       om_next := Suc (om_next m),
       om_tasks := AList.update (Generated kind (om_key_counter m)) (om_next m) (om_tasks m)\<rparr>)"
  by (simp add: spawn_def next_key_def spawn_with_key_def deduplicated_def spawn_inner_def insert_handle_def)

lemma spawn_many_running:
  "length (om_running (((\<lambda>m. snd (spawn kind m)) ^^ n) m)) = n + length (om_running m)"
  by (induction n) (simp_all add: spawn_generated)

section \<open>Properties\<close>

text \<open>C34. With deduplication on, at most one task runs for a cache key whose spawns do not overlap: no second spawn of the
  key checks the table before the handle of the first is in it.  Spawns of other keys may be interleaved at every step, tasks
  may end before their handle is inserted, panic, be cancelled, be aborted or complete although they were cancelled, and the
  table may be cleaned up at any time.  (Spawns of one key that do overlap can both pass the check:
  \<open>overlapping_spawns_both_run\<close>.)\<close>

theorem one_running_task_per_cache_key:
  assumes "oc_deduplicate c" "om_reach c K m sp" "CacheTask k \<in> K"
    and "(t1, CacheTask k) \<in> set (om_running m)" "(t2, CacheTask k) \<in> set (om_running m)"
  shows "t1 = t2"
  using om_reach_tracked [OF assms(1,3,2)] assms(4,5) by (rule tracked_unique)

theorem one_running_task_per_cache_key_witness:
  "\<nexists>t2. t2 \<noteq> 0 \<and> (t2, CacheTask (cache_key_from_str ''a'' ''b''))
     \<in> set (om_running (snd (spawn_with_key (CacheTask (cache_key_from_str ''a'' ''b''))
              (snd (spawn_with_key (CacheTask (cache_key_from_str ''a'' ''b'')) (offload_manager_new offload_config_default))))))"
proof
  let ?k = "CacheTask (cache_key_from_str ''a'' ''b'')"
  let ?m = "snd (spawn_with_key ?k (snd (spawn_with_key ?k (offload_manager_new offload_config_default))))"
  assume "\<exists>t2. t2 \<noteq> 0 \<and> (t2, ?k) \<in> set (om_running ?m)"
  then obtain t2 where n: "t2 \<noteq> 0" and t2: "(t2, ?k) \<in> set (om_running ?m)" by blast
  have r: "om_reach offload_config_default {?k} ?m []"
    by (intro uninterrupted_spawn om_new) simp_all
  have i: "(0, ?k) \<in> set (om_running ?m)"
    by (simp add: spawn_with_key_def deduplicated_def offload_manager_new_def spawn_inner_def insert_handle_def)
  have d: "oc_deduplicate offload_config_default" by (simp add: offload_config_default_def)
  show False using one_running_task_per_cache_key [OF d r _ i t2] n by simp
qed

text \<open>Two spawns of one cache key that overlap: both find the table without the key, both start their task, although
  deduplication is on.\<close>

theorem overlapping_spawns_both_run:
  "\<exists>m. om_reach offload_config_default {} m []
     \<and> {(0, CacheTask k), (1, CacheTask k)} \<subseteq> set (om_running m) \<and> om_tasks m = [(CacheTask k, 1)]"
proof -
  let ?k = "CacheTask k" and ?c = offload_config_default
  let ?m0 = "offload_manager_new ?c"
  let ?m1 = "snd (spawn_inner ?k ?m0)"
  let ?m2 = "snd (spawn_inner ?k ?m1)"
  have d: "\<not> deduplicated ?k ?m0" by (simp add: deduplicated_def offload_manager_new_def)
  have "om_reach ?c {} ?m0 [Checked ?k, Checked ?k]" by (intro om_check om_new d) simp_all
  then have "om_reach ?c {} ?m1 [Started ?k 0, Checked ?k]"
    using om_start [of ?c "{}" ?m0 _ ?k 0 ?m1] by (fastforce simp: spawn_inner_def offload_manager_new_def)
  then have "om_reach ?c {} ?m2 [Started ?k 1, Started ?k 0]"
    using om_start [of ?c "{}" ?m1 _ ?k 1 ?m2] by (fastforce simp: spawn_inner_def offload_manager_new_def)
  then have "om_reach ?c {} (insert_handle ?k 0 ?m2) [Started ?k 1]"
    using om_insert [of ?c "{}" ?m2 _ ?k 0] by fastforce
  then have "om_reach ?c {} (insert_handle ?k 1 (insert_handle ?k 0 ?m2)) []"
    using om_insert [of ?c "{}" "insert_handle ?k 0 ?m2" _ ?k 1] by fastforce
  then show ?thesis
    by (intro exI [of _ "insert_handle ?k 1 (insert_handle ?k 0 ?m2)"])
      (simp add: insert_handle_def spawn_inner_def offload_manager_new_def)
qed

text \<open>Background revalidations are spawned under generated keys, so neither deduplication nor
  the limit on concurrent tasks ever stops one: \<open>n\<close> spawns start \<open>n\<close> more running tasks whatever
  the configuration says, and two in a row get different keys (the documentation promises one
  revalidation per key, and a limit on parallel tasks).\<close>

theorem revalidation_spawns_are_unlimited:
  "length (om_running (((\<lambda>m. snd (spawn ''revalidate'' m)) ^^ n) m)) = n + length (om_running m)
   \<and> fst (spawn ''revalidate'' m) \<noteq> fst (spawn ''revalidate'' (snd (spawn ''revalidate'' m)))"
  by (simp add: spawn_many_running) (simp add: spawn_generated)


text \<open>A finished handle can outlive its task and block its key.  With deduplication on, when the task of a
  cache key was aborted or panicked it no longer runs, yet a new task for the key is
  refused until the finished handles are cleaned up; and when a task ends before its handle is
  inserted, the handle inserted then blocks the key in the same way.\<close>

lemma dropped_handle_blocks:
  assumes "oc_deduplicate (om_config m)" "wf_offload m" "map_of (om_tasks m) (CacheTask k) = Some t"
  shows "\<not> is_in_flight (CacheTask k) (task_dropped t m)"
    "spawn_with_key (CacheTask k) (task_dropped t m) = (False, task_dropped t m)"
    "fst (spawn_with_key (CacheTask k) (cleanup_finished (task_dropped t m)))"
proof -
  show "\<not> is_in_flight (CacheTask k) (task_dropped t m)"
    "spawn_with_key (CacheTask k) (task_dropped t m) = (False, task_dropped t m)"
    using assms by (auto simp: is_in_flight_def task_dropped_def handle_finished_def
        spawn_with_key_def deduplicated_def)
  have "map_of (om_tasks (cleanup_finished (task_dropped t m))) (CacheTask k) = None"
    using assms(2,3) unfolding wf_offload_def cleanup_finished_def task_dropped_def handle_finished_def
    by (auto simp: map_of_eq_None_iff dest: eq_key_imp_eq_value)
  then show "fst (spawn_with_key (CacheTask k) (cleanup_finished (task_dropped t m)))"
    by (simp add: spawn_with_key_def deduplicated_def spawn_inner_def)
qed

lemma late_handle_blocks:
  assumes "oc_deduplicate (om_config m)" "spawn_inner (CacheTask k) m = (t, m1)"
    and "m3 = insert_handle (CacheTask k) t (task_end t (CacheTask k) m1)"
  shows "\<not> is_in_flight (CacheTask k) m3" "spawn_with_key (CacheTask k) m3 = (False, m3)"
  using assms by (auto simp: spawn_inner_def insert_handle_def task_end_def is_in_flight_def
      handle_finished_def spawn_with_key_def deduplicated_def update_conv')

theorem finished_handle_blocks_its_key:
  assumes "oc_deduplicate (om_config m)" "wf_offload m"
  shows "(map_of (om_tasks m) (CacheTask k) = Some t \<longrightarrow>
           (let m' = task_dropped t m in
            \<not> is_in_flight (CacheTask k) m' \<and> spawn_with_key (CacheTask k) m' = (False, m')
            \<and> fst (spawn_with_key (CacheTask k) (cleanup_finished m'))))
         \<and> (let (t, m1) = spawn_inner (CacheTask k) m;
                m3 = insert_handle (CacheTask k) t (task_end t (CacheTask k) m1) in
           \<not> is_in_flight (CacheTask k) m3 \<and> spawn_with_key (CacheTask k) m3 = (False, m3))"
  using dropped_handle_blocks [OF assms, of k t]
    late_handle_blocks [OF assms(1), of k "fst (spawn_inner (CacheTask k) m)" "snd (spawn_inner (CacheTask k) m)"]
  by (auto simp: case_prod_unfold Let_def)

theorem finished_handle_blocks_its_key_witness:
  "let m = snd (spawn_with_key (CacheTask (cache_key_from_str ''a'' ''b'')) (offload_manager_new offload_config_default));
       m' = task_dropped 0 (snd (cancel_task (CacheTask (cache_key_from_str ''a'' ''b'')) m))
   in \<not> is_in_flight (CacheTask (cache_key_from_str ''a'' ''b'')) m'
      \<and> spawn_with_key (CacheTask (cache_key_from_str ''a'' ''b'')) m' = (False, m')"
proof -
  let ?k = "cache_key_from_str ''a'' ''b''"
  let ?m = "snd (cancel_task (CacheTask ?k) (snd (spawn_with_key (CacheTask ?k) (offload_manager_new offload_config_default))))"
  have w: "wf_offload ?m" by (simp add: wf_spawn_with_key wf_same_tasks [OF same_tasks_cancel])
  note def = cancel_task_def handle_abort_def handle_finished_def spawn_with_key_def deduplicated_def spawn_inner_def
    insert_handle_def offload_manager_new_def offload_config_default_def
  have "oc_deduplicate (om_config ?m)" "map_of (om_tasks ?m) (CacheTask ?k) = Some 0" by (simp_all add: def)
  with finished_handle_blocks_its_key [OF _ w, of ?k 0] show ?thesis unfolding Let_def by blast
qed

text \<open>The configuration builder that \<open>OffloadConfig::builder()\<close> hands out starts from the
  derived default, so a configuration built without naming deduplication has it off, although
  the default configuration and \<open>OffloadConfigBuilder::new()\<close> have it on, and every task spawned
  with a cache key then starts, running or not.\<close>

theorem builder_default_loses_deduplication:
  "oc_deduplicate offload_config_default \<and> oc_deduplicate (ob_build offload_builder_new)
   \<and> \<not> oc_deduplicate (ob_build offload_builder)
   \<and> (om_config m = ob_build offload_builder \<longrightarrow> fst (spawn_with_key key m))"
  by (simp add: offload_config_default_def ob_build_def offload_builder_new_def offload_builder_def
      offload_builder_default_def spawn_with_key_def deduplicated_def spawn_inner_def)

theorem builder_default_loses_deduplication_witness:
  "fst (spawn_with_key (CacheTask (cache_key_from_str ''a'' ''b'')) (snd (spawn_with_key (CacheTask (cache_key_from_str ''a'' ''b''))
     (offload_manager_new (ob_build offload_builder)))))"
  using builder_default_loses_deduplication
    [of "snd (spawn_with_key (CacheTask (cache_key_from_str ''a'' ''b'')) (offload_manager_new (ob_build offload_builder)))"
      "CacheTask (cache_key_from_str ''a'' ''b'')"]
  by (simp add: offload_manager_new_def)

end
