(* ===== verification/Service_Metrics.thy ===== *)
theory Service_Metrics
  imports Metrics Fsm_Progress Offload
begin

text \<open>
  The metrics of the service (hitbox/src/metrics.rs): what a cache future records while it is polled
  (hitbox/src/fsm/future.rs, states.rs) and what the offload manager records about its tasks
  (hitbox/src/offload/manager.rs).
\<close>

section \<open>Names\<close>

definition cache_hit_counter :: string where "cache_hit_counter = ''hitbox_cache_hit_total''"
definition cache_miss_counter :: string where "cache_miss_counter = ''hitbox_cache_miss_total''"
definition cache_stale_counter :: string where "cache_stale_counter = ''hitbox_cache_stale_total''"
definition cache_request_duration :: string where "cache_request_duration = ''hitbox_request_duration_seconds''"
definition cache_upstream_handling_histogram :: string where
  "cache_upstream_handling_histogram = ''hitbox_upstream_duration_seconds''"
definition offload_tasks_spawned :: string where "offload_tasks_spawned = ''hitbox_offload_tasks_spawned_total''"
definition offload_tasks_completed :: string where "offload_tasks_completed = ''hitbox_offload_tasks_completed_total''"
definition offload_tasks_timeout :: string where "offload_tasks_timeout = ''hitbox_offload_tasks_timeout_total''"
definition offload_tasks_deduplicated :: string where
  "offload_tasks_deduplicated = ''hitbox_offload_tasks_deduplicated_total''"
definition offload_tasks_active :: string where "offload_tasks_active = ''hitbox_offload_tasks_active''"
definition offload_task_duration :: string where "offload_task_duration = ''hitbox_offload_task_duration_seconds''"
definition offload_revalidation_completed :: string where
  "offload_revalidation_completed = ''hitbox_offload_revalidation_completed_total''"

lemmas service_metric_names = cache_hit_counter_def cache_miss_counter_def cache_stale_counter_def cache_request_duration_def
  cache_upstream_handling_histogram_def offload_tasks_spawned_def offload_tasks_completed_def offload_tasks_timeout_def
  offload_tasks_deduplicated_def offload_tasks_active_def offload_task_duration_def offload_revalidation_completed_def

section \<open>A cache future with its recordings\<close>

definition record_upstream_duration :: "metering \<Rightarrow> duration \<Rightarrow> meter \<Rightarrow> meter" where
  "record_upstream_duration M d = recording M [HistogramRecord cache_upstream_handling_histogram [] d]"

definition status_counter :: "cache_status \<Rightarrow> string" where
  "status_counter s = (case s of Hit \<Rightarrow> cache_hit_counter | Miss \<Rightarrow> cache_miss_counter | StaleHit \<Rightarrow> cache_stale_counter)"

definition record_context_metrics :: "metering \<Rightarrow> cache_context \<Rightarrow> duration \<Rightarrow> bool \<Rightarrow> meter \<Rightarrow> meter" where
  "record_context_metrics M ctx d revalidate m =
     (let status = cache_status_str (cc_status ctx);
          backend = response_source_str (cc_source ctx);
          m = recording M [HistogramRecord cache_request_duration [(''status'', status), (''backend'', backend)] d] m;
          m = recording M [CounterIncrement (status_counter (cc_status ctx)) [(''backend'', backend)] 1] m
      in if revalidate then recording M [CounterIncrement offload_revalidation_completed [] 1] m else m)"

text \<open>The future with the instants it keeps: when it was made, and when the upstream call it is in began.\<close>

record ('req, 'res, 'rp, 'c, 'rx) metered_future =
  mf_future :: "('req, 'res, 'rp, 'c, 'rx) cache_future"
  mf_start :: nat
  mf_upstream_start :: nat

definition metered_new ::
  "metering \<Rightarrow> 'req \<Rightarrow> 'req async_predicate \<Rightarrow> 'rp \<Rightarrow> 'req extractor \<Rightarrow> policy_config \<Rightarrow> meter
   \<Rightarrow> ('req, 'res, 'rp, 'c, 'rx) metered_future \<times> meter" where
  "metered_new M request p rp x policy m =
     (case instant_now M m of
        (t, m) \<Rightarrow> (\<lparr>mf_future = cache_future_new request p rp x policy, mf_start = t, mf_upstream_start = t\<rparr>, m))"

definition metered_revalidate ::
  "metering \<Rightarrow> ('req, 'c, 'rx, 'w, 'z) fsm_ops_scheme \<Rightarrow> cache_key \<Rightarrow> 'req \<Rightarrow> 'rp \<Rightarrow> policy_config \<Rightarrow> 'w \<times> meter
   \<Rightarrow> ('req, 'res, 'rp, 'c, 'rx) metered_future \<times> ('w \<times> meter)" where
  "metered_revalidate M E key request rp policy w =
     (case cache_future_revalidate E key request rp policy (fst w) of
        (f, w') \<Rightarrow>
          (case instant_now M (snd w) of (u, m) \<Rightarrow>
           case instant_now M m of (t, m) \<Rightarrow>
             (\<lparr>mf_future = f, mf_start = t, mf_upstream_start = u\<rparr>, (w', m))))"

text \<open>One turn.  A turn out of \<open>PollUpstream\<close> has the upstream's answer and records how long that took;
  a turn into it notes when the call began; the last turn records the context it returns.\<close>

definition metered_turn ::
  "metering \<Rightarrow> ('req, 'c, 'rx, 'w, 'res, 'rp) fsm_env \<Rightarrow> ('req, 'res, 'rp, 'c, 'rx) metered_future \<Rightarrow> 'w \<times> meter
   \<Rightarrow> (('req, 'res, 'rp, 'c, 'rx) metered_future, 'res \<times> cache_context) turn \<times> ('w \<times> meter)" where
  "metered_turn M E g w =
     (case fsm_turn E (mf_future g) (fst w) of
        (Panicked, w') \<Rightarrow> (Panicked, (w', snd w))
      | (Pending f, w') \<Rightarrow> (Pending (g\<lparr>mf_future := f\<rparr>), (w', snd w))
      | (Moved f, w') \<Rightarrow>
          (let m = (case cf_state (mf_future g) of
                      PollUpstream _ _ \<Rightarrow>
                        (case instant_now M (snd w) of (now, m) \<Rightarrow> record_upstream_duration M (now - mf_upstream_start g) m)
                    | _ \<Rightarrow> snd w)
           in case cf_state f of
                PollUpstream _ _ \<Rightarrow>
                  (case instant_now M m of (now, m) \<Rightarrow> (Moved (g\<lparr>mf_future := f, mf_upstream_start := now\<rparr>), (w', m)))
              | _ \<Rightarrow> (Moved (g\<lparr>mf_future := f\<rparr>), (w', m)))
      | (Ready f out, w') \<Rightarrow>
          (case instant_now M (snd w) of
             (now, m) \<Rightarrow>
               (Ready (g\<lparr>mf_future := f\<rparr>) out,
                (w', record_context_metrics M (snd out) (now - mf_start g) (cf_is_revalidation (mf_future g)) m))))"

lemma metered_turn_Moved:
  "metered_turn M E g w = (Moved g', w') \<Longrightarrow>
     fsm_turn E (mf_future g) (fst w) = (Moved (mf_future g'), fst w') \<and> mf_start g' = mf_start g"
  by (auto simp: metered_turn_def Let_def split: turn.splits prod.splits state.splits)

lemma metered_turn_rank:
  "metered_turn M E g w = (Moved g', w') \<Longrightarrow> rank (cf_state (mf_future g')) < rank (cf_state (mf_future g))"
  by (blast dest: metered_turn_Moved fsm_turn_rank)

function metered_poll ::
  "metering \<Rightarrow> ('req, 'c, 'rx, 'w, 'res, 'rp) fsm_env \<Rightarrow> ('req, 'res, 'rp, 'c, 'rx) metered_future \<Rightarrow> 'w \<times> meter
   \<Rightarrow> (('req, 'res, 'rp, 'c, 'rx) metered_future, 'res \<times> cache_context) turn \<times> ('w \<times> meter)" where
  "metered_poll M E g w = (case metered_turn M E g w of (Moved g', w') \<Rightarrow> metered_poll M E g' w' | r \<Rightarrow> r)"
  by pat_completeness auto
termination
  by (relation "measure (\<lambda>(M, E, g, w). rank (cf_state (mf_future g)))") (auto dest: metered_turn_rank [OF sym])

declare metered_poll.simps [simp del]

section \<open>One record for each request\<close>

text \<open>The recordings are beside the future: it does what it does without them.\<close>

definition bare_turn ::
  "(('req, 'res, 'rp, 'c, 'rx) metered_future, 'out) turn \<Rightarrow> (('req, 'res, 'rp, 'c, 'rx) cache_future, 'out) turn" where
  "bare_turn t = (case t of Panicked \<Rightarrow> Panicked | Pending g \<Rightarrow> Pending (mf_future g) | Moved g \<Rightarrow> Moved (mf_future g)
                  | Ready g out \<Rightarrow> Ready (mf_future g) out)"

lemma metered_turn_erased: "map_prod bare_turn fst (metered_turn M E g w) = fsm_turn E (mf_future g) (fst w)"
  by (auto simp: metered_turn_def bare_turn_def Let_def split: turn.split prod.split state.split)

lemma metered_poll_erased: "map_prod bare_turn fst (metered_poll M E g w) = fsm_poll E (mf_future g) (fst w)"
proof (induction M E g w rule: metered_poll.induct)
  case (1 M E g w)
  obtain t w' where t: "metered_turn M E g w = (t, w')" by (metis surj_pair)
  then have f: "fsm_turn E (mf_future g) (fst w) = (bare_turn t, fst w')"
    using metered_turn_erased [of M E g w] by simp
  show ?case
    by (subst metered_poll.simps, subst fsm_poll.simps)
      (use t f 1 in \<open>cases t; simp add: bare_turn_def [of "Panicked"] bare_turn_def [of "Moved _"] bare_turn_def [of "Pending _"] bare_turn_def [of "Ready _ _"]\<close>)
qed

text \<open>What a completed request is to leave behind, written out by status and source: its duration, one increment of
  that status's counter and, for a revalidation, one of the revalidation counter.\<close>

definition context_events :: "cache_context \<Rightarrow> duration \<Rightarrow> bool \<Rightarrow> metric_event list" where
  "context_events ctx d revalidate =
     (let backend = (case cc_source ctx of SrcUpstream \<Rightarrow> ''upstream'' | SrcBackend l \<Rightarrow> label_str l) in
      (case cc_status ctx of
         Hit \<Rightarrow> [HistogramRecord ''hitbox_request_duration_seconds'' [(''status'', ''hit''), (''backend'', backend)] d,
                 CounterIncrement ''hitbox_cache_hit_total'' [(''backend'', backend)] 1]
       | Miss \<Rightarrow> [HistogramRecord ''hitbox_request_duration_seconds'' [(''status'', ''miss''), (''backend'', backend)] d,
                 CounterIncrement ''hitbox_cache_miss_total'' [(''backend'', backend)] 1]
       | StaleHit \<Rightarrow> [HistogramRecord ''hitbox_request_duration_seconds'' [(''status'', ''stale''), (''backend'', backend)] d,
                 CounterIncrement ''hitbox_cache_stale_total'' [(''backend'', backend)] 1]))
     @ (if revalidate then [CounterIncrement ''hitbox_offload_revalidation_completed_total'' [] 1] else [])"

lemma record_context_log:
  "mt_enabled M \<Longrightarrow> me_log (record_context_metrics M ctx d r m) = me_log m @ context_events ctx d r"
  "me_readings (record_context_metrics M ctx d r m) = me_readings m"
  by (auto simp: record_context_metrics_def context_events_def Let_def status_counter_def cache_status_str_def
      response_source_str_def service_metric_names recording_def emit_def split: cache_status.split response_source.split)

text \<open>The upstream records a future may still make; such a record is the time between two readings of the clock,
  neither before reading \<open>lo\<close>; a future that is in its upstream call holds the first of the two.\<close>

definition upstream_budget :: "('req, 'res, 'rp, 'c, 'rx) metered_future \<Rightarrow> nat" where
  "upstream_budget g = (if 3 \<le> rank (cf_state (mf_future g)) then 1 else 0)"

definition upstream_record :: "metering \<Rightarrow> nat \<Rightarrow> nat \<Rightarrow> metric_event \<Rightarrow> bool" where
  "upstream_record M lo n e \<longleftrightarrow>
     (\<exists>i j. lo \<le> i \<and> i < j \<and> j < n \<and> e = HistogramRecord ''hitbox_upstream_duration_seconds'' [] (mt_instant M j - mt_instant M i))"

definition calls_since :: "metering \<Rightarrow> nat \<Rightarrow> nat \<Rightarrow> ('req, 'res, 'rp, 'c, 'rx) metered_future \<Rightarrow> bool" where
  "calls_since M lo n g \<longleftrightarrow> lo \<le> n
     \<and> (rank (cf_state (mf_future g)) = 3 \<longrightarrow> (\<exists>i. lo \<le> i \<and> i < n \<and> mf_upstream_start g = mt_instant M i))"

lemma upstream_record_later: "upstream_record M lo n e \<Longrightarrow> n \<le> n' \<Longrightarrow> upstream_record M lo n' e"
  unfolding upstream_record_def using order_less_le_trans by blast

lemma upstream_records_later: "list_all (upstream_record M lo n) us \<Longrightarrow> n \<le> n' \<Longrightarrow> list_all (upstream_record M lo n') us"
  by (auto simp: list_all_iff intro: upstream_record_later)

lemma calls_since_later: "calls_since M lo n g \<Longrightarrow> n \<le> n' \<Longrightarrow> calls_since M lo n' g"
  unfolding calls_since_def by (meson order_less_le_trans order_trans)

lemma instant_now_log: "instant_now M m = (t, m') \<Longrightarrow> me_log m' = me_log m"
  by (auto simp: instant_now_def)

lemma spawn_revalidation_kept: "spawn_revalidation E d f w = (f', w') \<Longrightarrow> cf_is_revalidation f' = cf_is_revalidation f"
  unfolding spawn_revalidation_def
  by (cases d; cases "cf_response_predicates f") (auto split: prod.splits simp del: spawn_revalidation_state)

lemma fsm_turn_moved_kept: "fsm_turn E f w = (Moved f', w') \<Longrightarrow> cf_is_revalidation f' = cf_is_revalidation f"
  apply (auto simp: fsm_turn.simps split: state.splits option.splits prod.splits)
  apply (drule spawn_revalidation_kept, simp)+
  done

lemma fsm_turn_pending_kept:
  "fsm_turn E f w = (Pending f', w') \<Longrightarrow> cf_is_revalidation f' = cf_is_revalidation f \<and> rank (cf_state f') = rank (cf_state f)"
  by (auto simp: fsm_turn.simps split: state.splits option.splits prod.splits)

lemma case_PollUpstream: "(case s of PollUpstream x y \<Rightarrow> P | _ \<Rightarrow> Q) = (if rank s = 3 then P else Q)"
  by (cases s) auto

definition served_on ::
  "metering \<Rightarrow> nat \<Rightarrow> ('req, 'res, 'rp, 'c, 'rx) metered_future \<Rightarrow> nat \<Rightarrow> ('req, 'res, 'rp, 'c, 'rx) metered_future \<Rightarrow> nat
   \<Rightarrow> metric_event list \<Rightarrow> bool" where
  "served_on M lo g n g' n' us \<longleftrightarrow>
     n \<le> n' \<and> calls_since M lo n' g' \<and> list_all (upstream_record M lo n') us \<and> length us + upstream_budget g' \<le> upstream_budget g
     \<and> cf_is_revalidation (mf_future g') = cf_is_revalidation (mf_future g) \<and> mf_start g' = mf_start g"

lemma served_on_trans:
  "served_on M lo g n g1 n1 us \<Longrightarrow> served_on M lo g1 n1 g2 n2 vs \<Longrightarrow> served_on M lo g n g2 n2 (us @ vs)"
  unfolding served_on_def by (auto dest: upstream_records_later)

lemma served_on_later: "served_on M lo g n g' n' us \<Longrightarrow> n' \<le> n'' \<Longrightarrow> served_on M lo g n g' n'' us"
  unfolding served_on_def by (auto dest: upstream_records_later calls_since_later)

text \<open>The last turn: the clock is read once more, and the request is recorded with the time since the future was made.\<close>

definition completed_on ::
  "metering \<Rightarrow> ('req, 'res, 'rp, 'c, 'rx) metered_future \<Rightarrow> cache_context \<Rightarrow> nat \<Rightarrow> nat \<Rightarrow> metric_event list \<Rightarrow> bool" where
  "completed_on M g ctx n n' es \<longleftrightarrow> n' = Suc n
     \<and> es = context_events ctx (mt_instant M n - mf_start g) (cf_is_revalidation (mf_future g))"

lemma metered_turn_moved_log:
  assumes "mt_enabled M" "metered_turn M E g w = (Moved g', w')" "calls_since M lo (me_readings (snd w)) g"
  shows "\<exists>us. me_log (snd w') = me_log (snd w) @ us \<and> served_on M lo g (me_readings (snd w)) g' (me_readings (snd w')) us"
proof -
  note m = metered_turn_Moved [OF assms(2)]
  have r: "rank (cf_state (mf_future g')) < rank (cf_state (mf_future g))" by (rule metered_turn_rank [OF assms(2)])
  define n where "n = me_readings (snd w)"
  obtain f u where g': "g' = g\<lparr>mf_future := f, mf_upstream_start := u\<rparr>"
    using m by (cases g; cases g') auto
  have l: "if rank (cf_state (mf_future g)) = 3
      then me_log (snd w') = me_log (snd w)
          @ [HistogramRecord ''hitbox_upstream_duration_seconds'' [] (mt_instant M n - mf_upstream_start g)]
        \<and> me_readings (snd w') = Suc n
      else me_log (snd w') = me_log (snd w)
        \<and> (if rank (cf_state (mf_future g')) = 3
           then me_readings (snd w') = Suc n \<and> mf_upstream_start g' = mt_instant M n else me_readings (snd w') = n)"
    using assms(1,2) m r g'
    by (cases w'; cases g) (auto simp: metered_turn_def case_PollUpstream Let_def record_upstream_duration_def instant_now_def n_def
        cache_upstream_handling_histogram_def recording_def emit_def split: if_splits)
  note keep = fsm_turn_moved_kept [OF conjunct1 [OF m]]
  show ?thesis
  proof (cases "rank (cf_state (mf_future g)) = 3")
    case True
    then obtain i where i: "lo \<le> i" "i < n" "mf_upstream_start g = mt_instant M i"
      using assms(3) unfolding calls_since_def n_def by blast
    then have "upstream_record M lo (Suc n)
        (HistogramRecord ''hitbox_upstream_duration_seconds'' [] (mt_instant M n - mf_upstream_start g))"
      unfolding upstream_record_def by auto
    then show ?thesis
      using l True r keep m i(1,2) by (auto simp: served_on_def calls_since_def upstream_budget_def n_def [symmetric])
  next
    case False
    then show ?thesis
      using l r keep m assms(3)
      by (auto simp: served_on_def calls_since_def upstream_budget_def n_def [symmetric] split: if_splits)
  qed
qed

lemma metered_turn_pending_log:
  assumes "metered_turn M E g w = (Pending g', w')" "calls_since M lo (me_readings (snd w)) g"
  shows "snd w' = snd w \<and> served_on M lo g (me_readings (snd w)) g' (me_readings (snd w')) []"
proof -
  have "fsm_turn E (mf_future g) (fst w) = (Pending (mf_future g'), fst w')" "snd w' = snd w"
    "mf_start g' = mf_start g" "mf_upstream_start g' = mf_upstream_start g"
    using assms(1) by (auto simp: metered_turn_def Let_def split: turn.splits prod.splits state.splits)
  then show ?thesis using fsm_turn_pending_kept [of E "mf_future g"] assms(2)
    by (auto simp: served_on_def calls_since_def upstream_budget_def)
qed

lemma metered_turn_ready_log:
  assumes "mt_enabled M" "metered_turn M E g w = (Ready g' out, w')"
  shows "\<exists>es. me_log (snd w') = me_log (snd w) @ es
    \<and> completed_on M g (snd out) (me_readings (snd w)) (me_readings (snd w')) es"
  using assms
  by (auto simp: metered_turn_def Let_def record_context_log completed_on_def instant_now_def
      split: turn.splits prod.splits state.splits)

lemma metered_poll_log:
  assumes "mt_enabled M"
  shows "metered_poll M E g w = (t, w') \<Longrightarrow> calls_since M lo (me_readings (snd w)) g \<Longrightarrow>
    (case t of
       Pending g' \<Rightarrow> \<exists>us. me_log (snd w') = me_log (snd w) @ us
           \<and> served_on M lo g (me_readings (snd w)) g' (me_readings (snd w')) us
     | Ready g' out \<Rightarrow> \<exists>us g1 n1 es. me_log (snd w') = me_log (snd w) @ us @ es
           \<and> served_on M lo g (me_readings (snd w)) g1 n1 us \<and> completed_on M g1 (snd out) n1 (me_readings (snd w')) es
     | Panicked \<Rightarrow> True
     | Moved g' \<Rightarrow> False)"
  using assms
proof (induction M E g w rule: metered_poll.induct)
  case (1 M E g w)
  obtain q w1 where q: "metered_turn M E g w = (q, w1)" by (metis surj_pair)
  have step: "metered_poll M E g w = (case q of Moved g' \<Rightarrow> metered_poll M E g' w1 | _ \<Rightarrow> (q, w1))"
    by (subst metered_poll.simps) (simp add: q split: turn.split)
  show ?case
  proof (cases q)
    case (Moved g1)
    from metered_turn_moved_log [OF 1(4) q [unfolded Moved] 1(3)] obtain us where us:
      "me_log (snd w1) = me_log (snd w) @ us" "served_on M lo g (me_readings (snd w)) g1 (me_readings (snd w1)) us" by blast
    have c: "calls_since M lo (me_readings (snd w1)) g1" using us(2) by (simp add: served_on_def)
    have "metered_poll M E g1 w1 = (t, w')" using 1(2) step Moved by simp
    note ih = 1(1) [OF q [symmetric] Moved this c 1(4)]
    show ?thesis
    proof (cases t)
      case (Pending g')
      with ih obtain vs where "me_log (snd w') = me_log (snd w1) @ vs"
        "served_on M lo g1 (me_readings (snd w1)) g' (me_readings (snd w')) vs" by auto
      then show ?thesis using us served_on_trans [OF us(2)] Pending by auto
    next
      case (Ready g' out)
      with ih obtain vs g2 n2 es where "me_log (snd w') = me_log (snd w1) @ vs @ es"
        "served_on M lo g1 (me_readings (snd w1)) g2 n2 vs" "completed_on M g2 (snd out) n2 (me_readings (snd w')) es" by auto
      with served_on_trans [OF us(2)] us(1) have "me_log (snd w') = me_log (snd w) @ (us @ vs) @ es"
        "served_on M lo g (me_readings (snd w)) g2 n2 (us @ vs)" "completed_on M g2 (snd out) n2 (me_readings (snd w')) es" by auto
      then show ?thesis unfolding Ready turn.case prod.case by blast
    qed (use ih in auto)
  next
    case (Pending g1)
    then show ?thesis using 1(2) step metered_turn_pending_log [OF q [unfolded Pending] 1(3)] by auto
  next
    case (Ready g1 out)
    have "served_on M lo g (me_readings (snd w)) g (me_readings (snd w)) []"
      using 1(3) by (simp add: served_on_def)
    moreover obtain es where "me_log (snd w1) = me_log (snd w) @ [] @ es"
      "completed_on M g (snd out) (me_readings (snd w)) (me_readings (snd w1)) es"
      using metered_turn_ready_log [OF 1(4) q [unfolded Ready]] by auto
    moreover have fin: "t = Ready g1 out" "w' = w1" using 1(2) step Ready by auto
    ultimately show ?thesis unfolding fin turn.case by blast
  next
    case Panicked
    then show ?thesis using 1(2) step by simp
  qed
qed

text \<open>A future on its way, with what it recorded itself and how often the clock was read by the end of its last poll: others
  record, and read the clock, between its polls.\<close>

inductive metered_serving ::
  "metering \<Rightarrow> ('req, 'c, 'rx, 'w, 'res, 'rp) fsm_env \<Rightarrow> ('req, 'res, 'rp, 'c, 'rx) metered_future \<Rightarrow> nat
   \<Rightarrow> ('req, 'res, 'rp, 'c, 'rx) metered_future \<Rightarrow> nat \<Rightarrow> metric_event list \<Rightarrow> bool"
  for M E g0 n0 where
  serving_start: "metered_serving M E g0 n0 g0 n0 []"
| serving_poll: "metered_serving M E g0 n0 g n own \<Longrightarrow> n \<le> me_readings m
    \<Longrightarrow> metered_poll M E g (w, m) = (Pending g', (w', m'))
    \<Longrightarrow> me_log m' = me_log m @ es \<Longrightarrow> metered_serving M E g0 n0 g' (me_readings m') (own @ es)"

lemma metered_serving_log:
  assumes "mt_enabled M" "calls_since M lo n0 g0"
  shows "metered_serving M E g0 n0 g n own \<Longrightarrow> served_on M lo g0 n0 g n own"
proof (induction rule: metered_serving.induct)
  case serving_start
  then show ?case using assms(2) by (simp add: served_on_def)
next
  case (serving_poll g n own m w g' w' m' es)
  then have s: "served_on M lo g0 n0 g (me_readings m) own" using served_on_later by blast
  then have "calls_since M lo (me_readings (snd (w, m))) g" by (simp add: served_on_def)
  from metered_poll_log [OF assms(1) serving_poll(3) this] serving_poll(4)
  have "served_on M lo g (me_readings m) g' (me_readings m') es" by auto
  from served_on_trans [OF s this] show ?case .
qed

lemma metered_start:
  "metered_new M request p rp x policy m = (g, m') \<Longrightarrow>
     cf_is_revalidation (mf_future g) = False \<and> mf_start g = mt_instant M (me_readings m) \<and> me_readings m' = Suc (me_readings m)
     \<and> calls_since M (Suc (me_readings m)) (me_readings m') g"
  "metered_revalidate M E key request rp policy (w, m) = (g, (w', m')) \<Longrightarrow>
     cf_is_revalidation (mf_future g) = True \<and> mf_start g = mt_instant M (Suc (me_readings m))
     \<and> me_readings m' = Suc (Suc (me_readings m)) \<and> calls_since M (me_readings m) (me_readings m') g"
  by (auto simp: metered_new_def cache_future_new_def metered_revalidate_def cache_future_revalidate_def case_prod_beta
      instant_now_def calls_since_def upstream_budget_def)

section \<open>Background tasks\<close>

definition of_key_type :: "offload_key \<Rightarrow> metric_labels" where
  "of_key_type key = [(''key_type'', key_type key)]"

definition record_spawned :: "metering \<Rightarrow> offload_key \<Rightarrow> meter \<Rightarrow> meter" where
  "record_spawned M key = recording M [CounterIncrement offload_tasks_spawned (of_key_type key) 1,
     GaugeIncrement offload_tasks_active (of_key_type key) 1]"

definition record_deduplicated :: "metering \<Rightarrow> offload_key \<Rightarrow> meter \<Rightarrow> meter" where
  "record_deduplicated M key = recording M [CounterIncrement offload_tasks_deduplicated (of_key_type key) 1]"

definition metered_spawn_with_key ::
  "metering \<Rightarrow> offload_key \<Rightarrow> offload_manager \<times> meter \<Rightarrow> bool \<times> (offload_manager \<times> meter)" where
  "metered_spawn_with_key M key w =
     (if deduplicated key (fst w)
      then (False, (fst w, record_deduplicated M key (snd w)))
      else
        (case spawn_inner key (fst w) of
           (t, om) \<Rightarrow> (True, (insert_handle key t om, record_spawned M key (snd w)))))"

definition metered_spawn ::
  "metering \<Rightarrow> string \<Rightarrow> offload_manager \<times> meter \<Rightarrow> offload_key \<times> (offload_manager \<times> meter)" where
  "metered_spawn M kind w =
     (case next_key kind (fst w) of (key, om) \<Rightarrow> (key, snd (metered_spawn_with_key M key (om, snd w))))"

definition record_completion :: "metering \<Rightarrow> nat \<Rightarrow> offload_key \<Rightarrow> meter \<Rightarrow> meter" where
  "record_completion M start key m =
     (if mt_enabled M then
        (case instant_now M m of
           (now, m) \<Rightarrow>
             emit [CounterIncrement offload_tasks_completed (of_key_type key) 1,
                   GaugeDecrement offload_tasks_active (of_key_type key) 1,
                   HistogramRecord offload_task_duration (of_key_type key) (now - start)] m)
      else m)"

definition record_timeout :: "metering \<Rightarrow> nat \<Rightarrow> offload_key \<Rightarrow> meter \<Rightarrow> meter" where
  "record_timeout M start key m =
     (if mt_enabled M then
        (case instant_now M m of
           (now, m) \<Rightarrow>
             emit [CounterIncrement offload_tasks_timeout (of_key_type key) 1,
                   GaugeDecrement offload_tasks_active (of_key_type key) 1,
                   HistogramRecord offload_task_duration (of_key_type key) (now - start)] m)
      else m)"

text \<open>The end of a task that ran to its end or into its timeout; a task that panics or is aborted gets to neither.\<close>

definition metered_task_end ::
  "metering \<Rightarrow> nat \<Rightarrow> offload_key \<Rightarrow> nat \<Rightarrow> task_outcome \<Rightarrow> offload_manager \<times> meter \<Rightarrow> offload_manager \<times> meter" where
  "metered_task_end M t key start outcome w =
     (task_end t key (fst w),
      case outcome of
        TimedOut \<Rightarrow> record_timeout M start key (snd w)
      | _ \<Rightarrow> record_completion M start key (snd w))"

fun gauge_after :: "string \<Rightarrow> metric_labels \<Rightarrow> int \<Rightarrow> metric_event list \<Rightarrow> int" where
  "gauge_after n l x [] = x"
| "gauge_after n l x (GaugeIncrement n' l' k # es) = gauge_after n l (if n' = n \<and> l' = l then x + int k else x) es"
| "gauge_after n l x (GaugeDecrement n' l' k # es) = gauge_after n l (if n' = n \<and> l' = l then x - int k else x) es"
| "gauge_after n l x (GaugeSet n' l' k # es) = gauge_after n l (if n' = n \<and> l' = l then int k else x) es"
| "gauge_after n l x (_ # es) = gauge_after n l x es"

lemma gauge_after_append [simp]: "gauge_after n l x (es @ fs) = gauge_after n l (gauge_after n l x es) fs"
  by (induction n l x es rule: gauge_after.induct) auto

text \<open>The running tasks of a key type.\<close>

definition running_of :: "string \<Rightarrow> offload_manager \<Rightarrow> nat" where
  "running_of ty om = length (filter (\<lambda>(t, k). key_type k = ty) (om_running om))"

text \<open>What can happen to a manager with its recordings, step by step: spawns are checked, refused or started, have their
  handles inserted and are recorded, in any interleaving; tasks end with their recordings, or panic or are aborted without
  any; \<open>gone\<close> counts these by key type.\<close>

inductive metered_offload ::
  "metering \<Rightarrow> offload_config \<Rightarrow> offload_manager \<Rightarrow> meter \<Rightarrow> spawn_stage list \<Rightarrow> (string \<Rightarrow> nat) \<Rightarrow> bool" for M c where
  mo_new: "metered_offload M c (offload_manager_new c) no_records [] (\<lambda>ty. 0)"
| mo_refuse: "metered_offload M c om m sp gone \<Longrightarrow> deduplicated key om
    \<Longrightarrow> metered_offload M c om (record_deduplicated M key m) sp gone"
| mo_check: "metered_offload M c om m sp gone \<Longrightarrow> \<not> deduplicated key om
    \<Longrightarrow> metered_offload M c om m (Checked key # sp) gone"
| mo_start: "metered_offload M c om m sp gone \<Longrightarrow> Checked key \<in> set sp \<Longrightarrow> spawn_inner key om = (t, om')
    \<Longrightarrow> metered_offload M c om' m (Started key t # remove1 (Checked key) sp) gone"
| mo_insert: "metered_offload M c om m sp gone \<Longrightarrow> Started key t \<in> set sp
    \<Longrightarrow> metered_offload M c (insert_handle key t om) m (Inserted key # remove1 (Started key t) sp) gone"
| mo_record: "metered_offload M c om m sp gone \<Longrightarrow> Inserted key \<in> set sp
    \<Longrightarrow> metered_offload M c om (record_spawned M key m) (remove1 (Inserted key) sp) gone"
| mo_key: "metered_offload M c om m sp gone \<Longrightarrow> metered_offload M c (snd (next_key kind om)) m sp gone"
| mo_end: "metered_offload M c om m sp gone \<Longrightarrow> (t, key) \<in> set (om_running om)
    \<Longrightarrow> metered_task_end M t key start outcome (om, m) = (om', m') \<Longrightarrow> metered_offload M c om' m' sp gone"
| mo_panic: "metered_offload M c om m sp gone \<Longrightarrow> (t, key) \<in> set (om_running om)
    \<Longrightarrow> metered_offload M c (task_dropped t om) m sp (gone(key_type key := Suc (gone (key_type key))))"
| mo_abort: "metered_offload M c om m sp gone \<Longrightarrow> (t, key) \<in> set (om_running om) \<Longrightarrow> t \<in> set (om_aborting om)
    \<Longrightarrow> metered_offload M c (task_dropped t om) m sp (gone(key_type key := Suc (gone (key_type key))))"
| mo_cancel: "metered_offload M c om m sp gone \<Longrightarrow> metered_offload M c (snd (cancel_task key om)) m sp gone"
| mo_cancel_all: "metered_offload M c om m sp gone \<Longrightarrow> metered_offload M c (cancel_all om) m sp gone"
| mo_cleanup: "metered_offload M c om m sp gone \<Longrightarrow> metered_offload M c (cleanup_finished om) m sp gone"

text \<open>A spawn that nothing interrupts is the one of the code.\<close>

lemma uninterrupted_metered_spawn:
  assumes "metered_offload M c om m sp gone" "metered_spawn_with_key M key (om, m) = (b, (om', m'))"
  shows "metered_offload M c om' m' sp gone"
proof (cases "deduplicated key om")
  case True
  then show ?thesis using assms mo_refuse [OF assms(1) True] by (auto simp: metered_spawn_with_key_def)
next
  case False
  obtain t om1 where t: "spawn_inner key om = (t, om1)" by (metis surj_pair)
  from mo_start [OF mo_check [OF assms(1) False], of key t om1] t
  have "metered_offload M c om1 m (Started key t # sp) gone" by simp
  from mo_insert [OF this, of key t] have "metered_offload M c (insert_handle key t om1) m (Inserted key # sp) gone" by simp
  from mo_record [OF this, of key] show ?thesis using assms(2) False t by (auto simp: metered_spawn_with_key_def)
qed

text \<open>The spawns that started their task and have not recorded it yet.\<close>

definition unrecorded_stage :: "string \<Rightarrow> spawn_stage \<Rightarrow> bool" where
  "unrecorded_stage ty s \<longleftrightarrow>
     (case s of Checked _ \<Rightarrow> False | Started key _ \<Rightarrow> key_type key = ty | Inserted key \<Rightarrow> key_type key = ty)"

definition unrecorded :: "string \<Rightarrow> spawn_stage list \<Rightarrow> nat" where
  "unrecorded ty sp = length (filter (unrecorded_stage ty) sp)"

lemma unrecorded_simps [simp]:
  "unrecorded ty [] = 0"
  "unrecorded ty (s # sp) = (if unrecorded_stage ty s then 1 else 0) + unrecorded ty sp"
  "unrecorded_stage ty (Checked key) = False"
  "unrecorded_stage ty (Started key t) = (key_type key = ty)"
  "unrecorded_stage ty (Inserted key) = (key_type key = ty)"
  by (simp_all add: unrecorded_def unrecorded_stage_def)

lemma unrecorded_remove1:
  "s \<in> set sp \<Longrightarrow> unrecorded ty sp = unrecorded ty (remove1 s sp) + (if unrecorded_stage ty s then 1 else 0)"
  by (induction sp) auto

lemma active_names [simp]:
  "offload_tasks_spawned \<noteq> offload_tasks_completed" "offload_tasks_spawned \<noteq> offload_tasks_timeout"
  "offload_tasks_completed \<noteq> offload_tasks_timeout" "offload_tasks_deduplicated \<noteq> offload_tasks_spawned"
  "offload_tasks_deduplicated \<noteq> offload_tasks_completed" "offload_tasks_deduplicated \<noteq> offload_tasks_timeout"
  "offload_tasks_completed \<noteq> offload_tasks_spawned" "offload_tasks_timeout \<noteq> offload_tasks_spawned"
  "offload_tasks_timeout \<noteq> offload_tasks_completed"
  by (simp_all add: service_metric_names)

lemma of_key_type_eq [simp]: "of_key_type k = [(''key_type'', ty)] \<longleftrightarrow> key_type k = ty"
  by (simp add: of_key_type_def)

definition tasks_add_up :: "string \<Rightarrow> offload_manager \<Rightarrow> metric_event list \<Rightarrow> nat \<Rightarrow> nat \<Rightarrow> bool" where
  "tasks_add_up ty om log due gone \<longleftrightarrow>
     gauge_after offload_tasks_active [(''key_type'', ty)] 0 log + int due = int (running_of ty om + gone)
     \<and> counter_value offload_tasks_spawned [(''key_type'', ty)] log + due
       = counter_value offload_tasks_completed [(''key_type'', ty)] log + counter_value offload_tasks_timeout [(''key_type'', ty)] log
         + running_of ty om + gone"

lemma running_of_cong: "om_running om' = om_running om \<Longrightarrow> running_of ty om' = running_of ty om"
  by (simp add: running_of_def)

lemma running_of_stopped:
  assumes "distinct (map fst (om_running om))" "(t, key) \<in> set (om_running om)"
    and "om_running om' = filter (\<lambda>(i, _). i \<noteq> t) (om_running om)"
  shows "running_of ty om = running_of ty om' + (if key_type key = ty then 1 else 0)"
proof -
  have "distinct (map fst xs) \<Longrightarrow> (t, key) \<in> set xs \<Longrightarrow>
      length (filter (\<lambda>(i, k). key_type k = ty) xs)
      = length (filter (\<lambda>(i, k). key_type k = ty) (filter (\<lambda>(i, _). i \<noteq> t) xs)) + (if key_type key = ty then 1 else 0)" for xs
  proof (induction xs)
    case (Cons x xs)
    show ?case
    proof (cases "x = (t, key)")
      case True
      then have "filter (\<lambda>(i, _). i \<noteq> t) xs = xs" using Cons.prems(1) by (force simp: filter_id_conv)
      then show ?thesis using True by simp
    next
      case False
      then have "fst x \<noteq> t" using Cons.prems by (metis fst_conv image_eqI list.simps(9) distinct.simps(2) set_ConsD set_map)
      then show ?thesis using Cons False by (auto split: prod.splits)
    qed
  qed simp
  from this [OF assms(1,2)] show ?thesis by (simp add: running_of_def assms(3))
qed

lemma offload_adds_up_start:
  "tasks_add_up ty om log (unrecorded ty sp) n \<Longrightarrow> Checked key \<in> set sp \<Longrightarrow> spawn_inner key om = (t, om')
    \<Longrightarrow> tasks_add_up ty om' log (unrecorded ty (Started key t # remove1 (Checked key) sp)) n"
  using unrecorded_remove1 [of "Checked key" sp ty] by (auto simp: tasks_add_up_def spawn_inner_def running_of_def)

lemma offload_adds_up_record:
  "mt_enabled M \<Longrightarrow> tasks_add_up ty om (me_log m) (unrecorded ty sp) n \<Longrightarrow> Inserted key \<in> set sp
    \<Longrightarrow> tasks_add_up ty om (me_log (record_spawned M key m)) (unrecorded ty (remove1 (Inserted key) sp)) n"
  using unrecorded_remove1 [of "Inserted key" sp ty]
  by (auto simp: tasks_add_up_def record_spawned_def)

lemma offload_adds_up_end:
  assumes "mt_enabled M" "wf_offload om" "tasks_add_up ty om (me_log m) due n" "(t, key) \<in> set (om_running om)"
    and "metered_task_end M t key start outcome (om, m) = (om', m')"
  shows "tasks_add_up ty om' (me_log m') due n"
proof -
  have "distinct (map fst (om_running om))" using assms(2) by (simp add: wf_offload_def)
  from running_of_stopped [OF this assms(4), of om' ty] assms(1,3,5) show ?thesis
    by (cases outcome)
      (auto simp: metered_task_end_def task_end_def tasks_add_up_def record_completion_def record_timeout_def instant_now_def emit_def)
qed

lemma offload_adds_up_dropped:
  assumes "wf_offload om" "tasks_add_up ty om log due (gone ty)" "(t, key) \<in> set (om_running om)"
  shows "tasks_add_up ty (task_dropped t om) log due ((gone(key_type key := Suc (gone (key_type key)))) ty)"
proof -
  have "distinct (map fst (om_running om))" using assms(1) by (simp add: wf_offload_def)
  from running_of_stopped [OF this assms(3), of "task_dropped t om" ty] assms(2) show ?thesis
    by (auto simp: task_dropped_def tasks_add_up_def)
qed

lemma tasks_add_up_cong: "om_running om' = om_running om \<Longrightarrow> tasks_add_up ty om' log due n = tasks_add_up ty om log due n"
  by (simp add: tasks_add_up_def running_of_def)

lemma metered_offload_wf: "metered_offload M c om m sp gone \<Longrightarrow> wf_offload om"
proof (induction rule: metered_offload.induct)
  case (mo_start om m sp gone key t om')
  then show ?case using wf_spawn_inner [of om key] by simp
next
  case (mo_end om m sp gone t key start outcome om' m')
  then show ?case using wf_task_end [of om t key] by (simp add: metered_task_end_def)
qed (auto intro: wf_insert_handle wf_task_dropped wf_cleanup_finished simp: wf_same_tasks [OF same_tasks_next_key]
    wf_same_tasks [OF same_tasks_cancel] wf_same_tasks [OF same_tasks_cancel_all])

lemma same_tasks_running: "same_tasks om om' \<Longrightarrow> om_running om' = om_running om"
  by (simp add: same_tasks_def)

lemma offload_adds_up:
  assumes "mt_enabled M"
  shows "metered_offload M c om m sp gone \<Longrightarrow> tasks_add_up ty om (me_log m) (unrecorded ty sp) (gone ty)"
proof (induction rule: metered_offload.induct)
  case mo_new
  show ?case by (simp add: tasks_add_up_def running_of_def offload_manager_new_def no_records_def)
next
  case (mo_refuse om m sp gone key)
  then show ?case using assms by (simp add: tasks_add_up_def record_deduplicated_def)
next
  case (mo_start om m sp gone key t om')
  then show ?case using offload_adds_up_start by blast
next
  case (mo_insert om m sp gone key t)
  then show ?case using unrecorded_remove1 [of "Started key t" sp ty]
    by (auto simp: tasks_add_up_cong [of "insert_handle key t om" om, unfolded insert_handle_def] insert_handle_def)
next
  case (mo_record om m sp gone key)
  then show ?case using offload_adds_up_record [OF assms] by blast
next
  case (mo_end om m sp gone t key start outcome om' m')
  then show ?case using offload_adds_up_end [OF assms metered_offload_wf] by blast
next
  case (mo_panic om m sp gone t key)
  then show ?case using offload_adds_up_dropped [OF metered_offload_wf] by blast
next
  case (mo_abort om m sp gone t key)
  then show ?case using offload_adds_up_dropped [OF metered_offload_wf] by blast
next
  case (mo_cleanup om m sp gone)
  have "om_running (cleanup_finished om) = om_running om" by (simp add: cleanup_finished_def)
  from tasks_add_up_cong [OF this] mo_cleanup show ?case by simp
qed (simp_all add: tasks_add_up_cong [OF same_tasks_running [OF same_tasks_next_key]]
    tasks_add_up_cong [OF same_tasks_running [OF same_tasks_cancel]] tasks_add_up_cong [OF same_tasks_running [OF same_tasks_cancel_all]])

section \<open>Properties\<close>

text \<open>C39. Each request is recorded once, under what it was: whatever worlds a cache future is polled in and whatever others
  record between its polls, once it is completed it has recorded at most one upstream call, as the time between two readings of the clock
  taken since the future was made, and then the time from its making to its completion under its status (hit, miss or stale) and its source,
  one increment of that status's counter and, if it is a revalidation, one of the revalidation counter.  The recordings did
  not change what it returned.  So the hit, miss and stale counters together count the completed futures.\<close>

theorem each_request_recorded_once:
  assumes "mt_enabled M"
    and "metered_new M request p rp x policy m0 = (g0, m1) \<and> \<not> revalidate \<and> made = me_readings m0 \<and> call = Suc made
      \<or> metered_revalidate M E key request rp policy (w0, m0) = (g0, (w1, m1)) \<and> revalidate \<and> made = Suc (me_readings m0)
        \<and> call = me_readings m0"
    and "metered_serving M E g0 (me_readings m1) g n own" "n \<le> me_readings m"
    and "metered_poll M E g (w, m) = (Ready g' (res, ctx), (w', m'))" "me_log m' = me_log m @ es"
  shows "(\<exists>us done. me_readings m' = Suc done
      \<and> own @ es = us @ context_events ctx (mt_instant M done - mt_instant M made) revalidate
      \<and> length us \<le> 1 \<and> list_all (upstream_record M call done) us)
    \<and> fsm_poll E (mf_future g) w = (Ready (mf_future g') (res, ctx), w')"
proof -
  have start: "mf_start g0 = mt_instant M made" "cf_is_revalidation (mf_future g0) = revalidate"
    "calls_since M call (me_readings m1) g0"
    using assms(2) by (auto dest: metered_start)
  have b: "upstream_budget g0 \<le> 1" by (simp add: upstream_budget_def)
  from metered_serving_log [OF assms(1) start(3) assms(3)] assms(4)
  have s: "served_on M call g0 (me_readings m1) g (me_readings m) own" by (rule served_on_later)
  then have "calls_since M call (me_readings (snd (w, m))) g" by (simp add: served_on_def)
  from metered_poll_log [OF assms(1,5) this] obtain us g1 n1 ws where us: "me_log m' = me_log m @ us @ ws"
    "served_on M call g (me_readings m) g1 n1 us" "completed_on M g1 ctx n1 (me_readings m') ws" by auto
  note all = served_on_trans [OF s us(2)]
  have "own @ es = (own @ us) @ context_events ctx (mt_instant M n1 - mt_instant M made) revalidate"
    "me_readings m' = Suc n1"
    using us(1,3) assms(6) all start by (auto simp: completed_on_def served_on_def)
  moreover have "length (own @ us) \<le> 1" "list_all (upstream_record M call n1) (own @ us)"
    using all b by (auto simp: served_on_def)
  moreover have "fsm_poll E (mf_future g) w = (Ready (mf_future g') (res, ctx), w')"
    using metered_poll_erased [of M E g "(w, m)"] assms(5) by (simp add: bare_turn_def)
  ultimately show ?thesis by blast
qed

theorem each_request_recorded_once_witness:
  "\<exists>g' w' m' us. metered_poll demo_metering demo_env
      (fst (metered_new demo_metering 4 async_neutral neutral demo_extractor Disabled no_records)) (demo_start, no_records\<lparr>me_readings := 1\<rparr>)
      = (Ready g' (40, cache_context_default), (w', m'))
    \<and> me_readings m' = 4
    \<and> me_log m' = us @ [HistogramRecord ''hitbox_request_duration_seconds'' [(''status'', ''miss''), (''backend'', ''upstream'')] 30,
        CounterIncrement ''hitbox_cache_miss_total'' [(''backend'', ''upstream'')] 1]
    \<and> length us \<le> 1"
proof -
  let ?n = "metered_new demo_metering 4 async_neutral neutral demo_extractor Disabled no_records
    :: (nat, nat, nat predicate, nat, nat) metered_future \<times> meter"
  let ?g = "fst ?n" and ?m = "no_records\<lparr>me_readings := 1\<rparr>"
  have n: "?n = (?g, ?m)" by (simp add: metered_new_def instant_now_def no_records_def)
  note run = metered_poll.simps metered_turn_def fsm_turn.simps metered_new_def cache_future_new_def initial_next_def poll_upstream_next_def
    demo_env_def demo_start_def finish_response_def boxed_def instant_now_def demo_metering_def no_records_def
    record_upstream_duration_def record_context_metrics_def recording_def emit_def cache_context_default_def Let_def
  have "\<exists>g' w' m'. metered_poll demo_metering demo_env ?g (demo_start, ?m) = (Ready g' (40, cache_context_default), (w', m'))
      \<and> me_readings m' = 4"
    by (simp add: run)
  then obtain g' w' m' where p: "metered_poll demo_metering demo_env ?g (demo_start, ?m) = (Ready g' (40, cache_context_default), (w', m'))"
    and r: "me_readings m' = 4"
    by blast
  have d: "mt_enabled demo_metering" by (simp add: demo_metering_def)
  have a: "metered_new demo_metering 4 async_neutral neutral demo_extractor Disabled no_records = (?g, ?m) \<and> \<not> False
      \<and> (0::nat) = me_readings no_records \<and> (1::nat) = Suc 0"
    using n by (simp add: no_records_def)
  have l: "me_log m' = me_log ?m @ me_log m'" by (simp add: no_records_def)
  from each_request_recorded_once [OF d disjI1 [OF a] serving_start _ p l] obtain us dn where
    "me_log m' = us @ context_events cache_context_default (mt_instant demo_metering dn - mt_instant demo_metering 0) False"
    "length us \<le> 1" "me_readings m' = Suc dn" by auto
  then show ?thesis using p r
    by (simp add: context_events_def cache_context_default_def demo_metering_def Let_def)
qed

text \<open>C40. The gauge of active tasks counts, for every key type, the tasks that run and those that panicked or were aborted while they
  ran, at every step of any interleaving of spawns, task ends, panics, cancellations and clean-ups, up to the spawns that
  have started their task and not recorded it yet: started tasks are completed, timed out, running, panicked or aborted, but a task that panicked
  or was aborted never leaves the gauge, although it is said to be the number of currently active tasks.\<close>

theorem active_gauge_keeps_cancelled:
  assumes "mt_enabled M" "metered_offload M c om m sp gone"
  shows "gauge_after offload_tasks_active [(''key_type'', ty)] 0 (me_log m) + int (unrecorded ty sp)
      = int (running_of ty om + gone ty)
    \<and> counter_value offload_tasks_spawned [(''key_type'', ty)] (me_log m) + unrecorded ty sp
      = counter_value offload_tasks_completed [(''key_type'', ty)] (me_log m)
        + counter_value offload_tasks_timeout [(''key_type'', ty)] (me_log m) + running_of ty om + gone ty"
  using offload_adds_up [OF assms] by (simp add: tasks_add_up_def)

theorem active_gauge_keeps_cancelled_witness:
  "\<exists>om m. metered_offload demo_metering offload_config_default om m [] (\<lambda>ty. if ty = ''cache'' then 1 else 0)
     \<and> active_task_count om = 0 \<and> gauge_after offload_tasks_active [(''key_type'', ''cache'')] 0 (me_log m) = 1"
proof -
  let ?k = "CacheTask (cache_key_from_str ''a'' ''b'')"
  obtain b om m where w: "metered_spawn_with_key demo_metering ?k (offload_manager_new offload_config_default, no_records) = (b, (om, m))"
    by (metis surj_pair)
  note s = uninterrupted_metered_spawn [OF mo_new w]
  have om: "om = \<lparr>om_config = offload_config_default, om_tasks = [(?k, 0)], om_key_counter = 0, om_running = [(0, ?k)],
      om_aborting = [], om_next = 1\<rparr>"
    using w by (auto simp: metered_spawn_with_key_def spawn_inner_def insert_handle_def deduplicated_def offload_manager_new_def)
  have "(0, ?k) \<in> set (om_running (cancel_all om))" "0 \<in> set (om_aborting (cancel_all om))"
    by (simp_all add: om cancel_all_def handle_abort_def handle_finished_def)
  from mo_abort [OF mo_cancel_all [OF s] this]
  have r: "metered_offload demo_metering offload_config_default (task_dropped 0 (cancel_all om)) m []
      (\<lambda>ty. if ty = ''cache'' then 1 else 0)"
    by (simp add: key_type_def fun_upd_def cong: if_cong)
  have "mt_enabled demo_metering" by (simp add: demo_metering_def)
  from active_gauge_keeps_cancelled [OF this r, of "''cache''"] r show ?thesis
    by (intro exI [of _ "task_dropped 0 (cancel_all om)"] exI [of _ m])
      (simp add: active_task_count_def handle_finished_def om cancel_all_def handle_abort_def task_dropped_def running_of_def)
qed

end
