(* ===== verification/Store_Feoxdb.thy ===== *)
theory Store_Feoxdb
  imports Backend
begin

text \<open>
  The FeOxDB store (hitbox-feoxdb/src/backend.rs): its builder and the three raw operations.  The
  database, and the bincode encoding of keys and stored values, are parameters.  The blocking tasks
  the operations run in do not panic, so the join error has no case.
\<close>

section \<open>Stored values\<close>

record serializable_cache_value =
  sv_data :: bytes
  sv_stale :: "time option"
  sv_expire :: "time option"

definition to_serializable :: "bytes cache_value \<Rightarrow> serializable_cache_value" where
  "to_serializable v = \<lparr>sv_data = cv_data v, sv_stale = cv_stale v, sv_expire = cv_expire v\<rparr>"

definition from_serializable :: "serializable_cache_value \<Rightarrow> bytes cache_value" where
  "from_serializable v = cache_value_new (sv_data v) (sv_expire v) (sv_stale v)"

lemma from_to_serializable [simp, codec_simps]: "from_serializable (to_serializable v) = v"
  by (cases v) (simp add: from_serializable_def to_serializable_def cache_value_new_def)

section \<open>Builder\<close>

record 'a feox_builder =
  fb_path :: "string option"
  fb_max_file_size :: "64 word option"
  fb_max_memory :: "nat option"
  fb_key_format :: cache_key_format
  fb_format :: "'a format"
  fb_compressor :: compressor
  fb_label :: backend_label

definition feox_builder_default :: "'a serde \<Rightarrow> 'a feox_builder" where
  "feox_builder_default json =
     \<lparr>fb_path = None, fb_max_file_size = None, fb_max_memory = None, fb_key_format = BitcodeKeys,
      fb_format = json_format json, fb_compressor = passthrough_compressor, fb_label = BackendLabel ''feoxdb''\<rparr>"

definition fb_set_path :: "string \<Rightarrow> 'a feox_builder \<Rightarrow> 'a feox_builder" where
  "fb_set_path p b = b\<lparr>fb_path := Some p\<rparr>"

definition fb_set_max_file_size :: "64 word \<Rightarrow> 'a feox_builder \<Rightarrow> 'a feox_builder" where
  "fb_set_max_file_size n b = b\<lparr>fb_max_file_size := Some n\<rparr>"

definition fb_set_max_memory :: "nat \<Rightarrow> 'a feox_builder \<Rightarrow> 'a feox_builder" where
  "fb_set_max_memory n b = b\<lparr>fb_max_memory := Some n\<rparr>"

definition fb_set_key_format :: "cache_key_format \<Rightarrow> 'a feox_builder \<Rightarrow> 'a feox_builder" where
  "fb_set_key_format f b = b\<lparr>fb_key_format := f\<rparr>"

definition fb_set_label :: "backend_label \<Rightarrow> 'a feox_builder \<Rightarrow> 'a feox_builder" where
  "fb_set_label l b = b\<lparr>fb_label := l\<rparr>"

definition fb_value_format :: "'b format \<Rightarrow> 'a feox_builder \<Rightarrow> 'b feox_builder" where
  "fb_value_format F b =
     \<lparr>fb_path = fb_path b, fb_max_file_size = fb_max_file_size b, fb_max_memory = fb_max_memory b,
      fb_key_format = fb_key_format b, fb_format = F, fb_compressor = fb_compressor b, fb_label = fb_label b\<rparr>"

definition fb_set_compressor :: "compressor \<Rightarrow> 'a feox_builder \<Rightarrow> 'a feox_builder" where
  "fb_set_compressor C b = b\<lparr>fb_compressor := C\<rparr>"

text \<open>What \<open>build\<close> asks the database for.  A directory gets a file name appended: whether the path
  is a directory is the file system's answer.\<close>

record feox_settings =
  fs_device_path :: "string option"
  fs_file_size :: "64 word option"
  fs_max_memory :: "nat option"
  fs_enable_ttl :: bool

definition feox_settings_of :: "(string \<Rightarrow> bool) \<Rightarrow> (string \<Rightarrow> string \<Rightarrow> string) \<Rightarrow> 'a feox_builder \<Rightarrow> feox_settings" where
  "feox_settings_of is_dir push b =
     \<lparr>fs_device_path = map_option (\<lambda>p. if is_dir p then push p ''cache.db'' else p) (fb_path b),
      fs_file_size = fb_max_file_size b, fs_max_memory = fb_max_memory b, fs_enable_ttl = True\<rparr>"

section \<open>The store\<close>

datatype feox_error = KeyNotFound | FeoxOther string

record 'f feox_ops =
  fx_now :: "'f \<Rightarrow> time"
  fx_get :: "bytes \<Rightarrow> 'f \<Rightarrow> (bytes, feox_error) result \<times> 'f"
  fx_insert :: "bytes \<Rightarrow> bytes \<Rightarrow> 'f \<Rightarrow> (unit, feox_error) result \<times> 'f"
  fx_insert_with_ttl :: "bytes \<Rightarrow> bytes \<Rightarrow> nat \<Rightarrow> 'f \<Rightarrow> (unit, feox_error) result \<times> 'f"
  fx_contains_key :: "bytes \<Rightarrow> 'f \<Rightarrow> bool \<times> 'f"
  fx_delete :: "bytes \<Rightarrow> 'f \<Rightarrow> (unit, feox_error) result \<times> 'f"

record feox_codec =
  fc_key :: "cache_key \<Rightarrow> (bytes, string) result"
  fc_enc :: "serializable_cache_value \<Rightarrow> (bytes, string) result"
  fc_dec :: "bytes \<Rightarrow> (serializable_cache_value, string) result"

definition feox_error_boxed :: "feox_error \<Rightarrow> backend_error" where
  "feox_error_boxed e = InternalError (BoxMsg (case e of KeyNotFound \<Rightarrow> ''Key not found'' | FeoxOther m \<Rightarrow> m))"

definition feox_read ::
  "'f feox_ops \<Rightarrow> feox_codec \<Rightarrow> cache_key \<Rightarrow> 'f \<Rightarrow> (bytes cache_value option, backend_error) result \<times> 'f" where
  "feox_read X c key s =
     (case fc_key c key of
        Inl e \<Rightarrow> (Err (InternalError (BoxMsg e)), s)
      | Inr key_bytes \<Rightarrow>
          (case fx_get X key_bytes s of
             (Inr enc, s) \<Rightarrow>
               (case fc_dec c enc of
                  Inl e \<Rightarrow> (Err (InternalError (BoxMsg e)), s)
                | Inr serializable \<Rightarrow>
                    (let cache_value = from_serializable serializable in
                     if (case cv_expire cache_value of Some expire_time \<Rightarrow> expire_time < fx_now X s | None \<Rightarrow> False)
                     then (Ok None, s) else (Ok (Some cache_value), s)))
           | (Inl KeyNotFound, s) \<Rightarrow> (Ok None, s)
           | (Inl (FeoxOther e), s) \<Rightarrow> (Err (feox_error_boxed (FeoxOther e)), s)))"

definition feox_write ::
  "'f feox_ops \<Rightarrow> feox_codec \<Rightarrow> cache_key \<Rightarrow> bytes cache_value \<Rightarrow> 'f \<Rightarrow> (unit, backend_error) result \<times> 'f" where
  "feox_write X c key v s =
     (case fc_key c key of
        Inl e \<Rightarrow> (Err (InternalError (BoxMsg e)), s)
      | Inr key_bytes \<Rightarrow>
          (let ttl = ttl_secs (fx_now X s) v in
           case fc_enc c (to_serializable v) of
             Inl e \<Rightarrow> (Err (InternalError (BoxMsg e)), s)
           | Inr value_bytes \<Rightarrow>
               (case (case ttl of Some secs \<Rightarrow> fx_insert_with_ttl X key_bytes value_bytes secs s
                      | None \<Rightarrow> fx_insert X key_bytes value_bytes s) of
                  (r, s) \<Rightarrow> (map_err feox_error_boxed r, s))))"

definition feox_remove ::
  "'f feox_ops \<Rightarrow> feox_codec \<Rightarrow> cache_key \<Rightarrow> 'f \<Rightarrow> (delete_status, backend_error) result \<times> 'f" where
  "feox_remove X c key s =
     (case fc_key c key of
        Inl e \<Rightarrow> (Err (InternalError (BoxMsg e)), s)
      | Inr key_bytes \<Rightarrow>
          (case fx_contains_key X key_bytes s of
             (True, s) \<Rightarrow>
               (case fx_delete X key_bytes s of
                  (Inl e, s) \<Rightarrow> (Err (feox_error_boxed e), s)
                | (Inr _, s) \<Rightarrow> (Ok (Deleted 1), s))
           | (False, s) \<Rightarrow> (Ok Missing, s)))"

definition feox_backend :: "'f feox_ops \<Rightarrow> feox_codec \<Rightarrow> 'a feox_builder \<Rightarrow> ('f, 'a) cache_backend" where
  "feox_backend X c b =
     dyn_backend
       \<lparr>be_read = feox_read X c, be_write = feox_write X c, be_remove = feox_remove X c,
        be_label = fb_label b, be_format = fb_format b, be_compressor = fb_compressor b\<rparr>"

lemma feox_backend_sel [simp, store_simps]:
  "be_read (feox_backend X c b) = feox_read X c" "be_write (feox_backend X c b) = feox_write X c"
  "be_remove (feox_backend X c b) = feox_remove X c"
  "be_format (feox_backend X c b) = fb_format b" "be_compressor (feox_backend X c b) = fb_compressor b"
  by (simp_all add: feox_backend_def dyn_backend_def)

section \<open>What the database and the codec promise\<close>

definition lossless_feox_codec :: "feox_codec \<Rightarrow> bool" where
  "lossless_feox_codec c \<longleftrightarrow> (\<forall>v b. fc_enc c v = Ok b \<longrightarrow> fc_dec c b = Ok v)"

text \<open>The bincode form of a key leaves out the content size, which is computed from the rest.\<close>

definition feox_keys_distinct :: "feox_codec \<Rightarrow> bool" where
  "feox_keys_distinct c \<longleftrightarrow>
     (\<forall>k1 k2 b. wf_key k1 \<longrightarrow> wf_key k2 \<longrightarrow> fc_key c k1 = Ok b \<longrightarrow> fc_key c k2 = Ok b \<longrightarrow> k1 = k2)"

definition feox_data :: "feox_codec \<Rightarrow> bytes \<Rightarrow> bytes option" where
  "feox_data c b = (case fc_dec c b of Inr v \<Rightarrow> Some (sv_data v) | Inl _ \<Rightarrow> None)"

definition feox_view ::
  "feox_codec \<Rightarrow> ('f \<Rightarrow> bytes \<Rightarrow> bytes option) \<Rightarrow> 'f \<Rightarrow> cache_key \<Rightarrow> bytes option" where
  "feox_view c held s key =
     (if wf_key key then
        (case fc_key c key of
           Inr kb \<Rightarrow> Option.bind (held s kb) (feox_data c)
         | Inl _ \<Rightarrow> None)
      else None)"

locale feox_laws =
  fixes X :: "'f feox_ops" and held :: "'f \<Rightarrow> bytes \<Rightarrow> bytes option"
  assumes get_law: "fx_get X k s = (r, s') \<Longrightarrow> held s' \<subseteq>\<^sub>m held s \<and> (\<forall>b. r = Ok b \<longrightarrow> held s k = Some b)"
    and insert_law: "fx_insert X k b s = (w, s') \<Longrightarrow>
      held s' \<subseteq>\<^sub>m (held s)(k \<mapsto> b) \<or> \<not> is_ok w \<and> held s' \<subseteq>\<^sub>m held s"
    and insert_ttl_law: "fx_insert_with_ttl X k b n s = (w, s') \<Longrightarrow>
      held s' \<subseteq>\<^sub>m (held s)(k \<mapsto> b) \<or> \<not> is_ok w \<and> held s' \<subseteq>\<^sub>m held s"
    and contains_law: "fx_contains_key X k s = (q, s') \<Longrightarrow> held s' \<subseteq>\<^sub>m held s \<and> (\<not> q \<longrightarrow> held s' k = None)"
    and delete_law: "fx_delete X k s = (w, s') \<Longrightarrow> held s' \<subseteq>\<^sub>m held s \<and> (is_ok w \<longrightarrow> held s' k = None)"

lemma feox_viewE:
  assumes "feox_view c held s j = Some y"
  obtains kb e where "wf_key j" "fc_key c j = Ok kb" "held s kb = Some e" "feox_data c e = Some y"
  using assms unfolding feox_view_def by (auto simp: bind_eq_Some_conv split: if_splits sum.splits)

lemma feox_viewI: "wf_key j \<Longrightarrow> fc_key c j = Ok kb \<Longrightarrow> feox_view c held s j = Option.bind (held s kb) (feox_data c)"
  by (simp add: feox_view_def)

lemma feox_view_le: "held s' \<subseteq>\<^sub>m held s \<Longrightarrow> feox_view c held s' \<subseteq>\<^sub>m feox_view c held s"
  unfolding map_le_def
proof
  fix j assume le: "\<forall>a\<in>dom (held s'). held s' a = held s a" and "j \<in> dom (feox_view c held s')"
  then obtain y where y: "feox_view c held s' j = Some y" by blast
  obtain kb e where e: "wf_key j" "fc_key c j = Ok kb" "held s' kb = Some e" "feox_data c e = Some y"
    by (rule feox_viewE [OF y])
  then have "held s kb = Some e" using le by (metis domI)
  then show "feox_view c held s' j = feox_view c held s j" using e by (simp add: feox_viewI)
qed

lemma feox_view_upd:
  assumes "feox_keys_distinct c" "wf_key k" "fc_key c k = Ok kb" "fc_dec c b = Ok (to_serializable u)"
    and "held s' \<subseteq>\<^sub>m (held s)(kb \<mapsto> b)"
  shows "feox_view c held s' \<subseteq>\<^sub>m (feox_view c held s)(k \<mapsto> cv_data u)"
  unfolding map_le_def
proof
  fix j assume "j \<in> dom (feox_view c held s')"
  then obtain y where y: "feox_view c held s' j = Some y" by blast
  obtain jb e where j: "wf_key j" "fc_key c j = Ok jb" "held s' jb = Some e" "feox_data c e = Some y"
    by (rule feox_viewE [OF y])
  have m: "((held s)(kb \<mapsto> b)) jb = Some e" using assms(5) j(3) unfolding map_le_def by (metis domI)
  show "feox_view c held s' j = ((feox_view c held s)(k \<mapsto> cv_data u)) j"
  proof (cases "jb = kb")
    case True
    then have "j = k" using assms(1-3) j(1,2) unfolding feox_keys_distinct_def by blast
    then show ?thesis using True m j assms(4) by (simp add: feox_viewI feox_data_def to_serializable_def)
  next
    case False
    then have "j \<noteq> k" using j(2) assms(3) by auto
    then show ?thesis using False m j by (simp add: feox_viewI)
  qed
qed

context feox_laws
begin

lemma read_ok:
  assumes "feox_read X c k s = (r, s')" "wf_key k"
  shows "feox_view c held s' \<subseteq>\<^sub>m feox_view c held s \<and> (\<forall>v. r = Ok (Some v) \<longrightarrow> feox_view c held s k = Some (cv_data v))"
proof (cases "fc_key c k")
  case (Inl e)
  then show ?thesis using assms by (auto simp: feox_read_def)
next
  case (Inr kb)
  obtain q t where q: "fx_get X kb s = (q, t)" by fastforce
  have l: "held t \<subseteq>\<^sub>m held s" "\<And>b. q = Ok b \<Longrightarrow> held s kb = Some b" using get_law [OF q] by blast+
  show ?thesis
  proof (cases q)
    case (Inl e)
    then show ?thesis using assms Inr q feox_view_le [OF l(1)] by (cases e) (auto simp: feox_read_def)
  next
    fix b assume b: "q = Ok b"
    then show ?thesis using assms Inr q feox_view_le [OF l(1)] l(2) [OF b]
      by (cases "fc_dec c b")
        (auto simp: feox_read_def feox_viewI feox_data_def from_serializable_def Let_def split: if_splits)
  qed
qed

lemma write_ok:
  assumes "lossless_feox_codec c" "feox_keys_distinct c" "feox_write X c k u s = (r, s')" "wf_key k"
  shows "feox_view c held s' \<subseteq>\<^sub>m (feox_view c held s)(k \<mapsto> cv_data u)
    \<or> \<not> is_ok r \<and> feox_view c held s' \<subseteq>\<^sub>m feox_view c held s"
proof (cases "fc_key c k")
  case (Inl e)
  then show ?thesis using assms by (auto simp: feox_write_def)
next
  case (Inr kb)
  show ?thesis
  proof (cases "fc_enc c (to_serializable u)")
    case (Inl e)
    then show ?thesis using assms Inr by (auto simp: feox_write_def)
  next
    fix b assume b: "fc_enc c (to_serializable u) = Ok b"
    then have d: "fc_dec c b = Ok (to_serializable u)" using assms(1) unfolding lossless_feox_codec_def by blast
    obtain q t where q: "(case ttl_secs (fx_now X s) u of Some n \<Rightarrow> fx_insert_with_ttl X kb b n s | None \<Rightarrow> fx_insert X kb b s) = (q, t)"
      by fastforce
    have "(r, s') = (map_err feox_error_boxed q, t)"
      using assms(3) Inr b q by (simp add: feox_write_def Let_def)
    then have t: "s' = t" and r: "is_ok r = is_ok q" by (auto simp: is_ok_iff)
    have "held s' \<subseteq>\<^sub>m (held s)(kb \<mapsto> b) \<or> \<not> is_ok q \<and> held s' \<subseteq>\<^sub>m held s"
      unfolding t using q insert_law [of kb b s q t] insert_ttl_law [of kb b _ s q t]
      by (cases "ttl_secs (fx_now X s) u") simp_all
    then show ?thesis
      using feox_view_upd [OF assms(2,4) Inr d, of held s' s] feox_view_le [of held s' s c] r by blast
  qed
qed

lemma remove_ok:
  assumes "feox_remove X c k s = (r, s')" "wf_key k"
  shows "feox_view c held s' \<subseteq>\<^sub>m feox_view c held s \<and> (is_ok r \<longrightarrow> feox_view c held s' k = None)"
proof (cases "fc_key c k")
  case (Inl e)
  then show ?thesis using assms by (auto simp: feox_remove_def)
next
  case (Inr kb)
  obtain q t where q: "fx_contains_key X kb s = (q, t)" by fastforce
  note cl = contains_law [OF q]
  show ?thesis
  proof (cases q)
    case False
    then show ?thesis using assms Inr q cl feox_view_le [of held t s c] by (auto simp: feox_remove_def feox_viewI)
  next
    case True
    obtain d t' where d: "fx_delete X kb t = (d, t')" by fastforce
    have "held t' \<subseteq>\<^sub>m held s" using cl delete_law [OF d] map_le_trans by blast
    then show ?thesis using assms Inr q True d delete_law [OF d] feox_view_le [of held t' s c]
      by (cases d) (auto simp: feox_remove_def feox_viewI)
  qed
qed

lemma coherent:
  assumes "lossless_feox_codec c" "feox_keys_distinct c" "lossless_format (fb_format b)" "lossless_compressor (fb_compressor b)"
  shows "coherent_cache (feox_backend X c b) wf_key (\<lambda>s. True) (feox_view c held)"
proof -
  have "cache_store (feox_backend X c b) wf_key (\<lambda>s. True) (feox_view c held)"
    using read_ok [of c] write_ok [OF assms(1,2)] remove_ok [of c] by unfold_locales simp_all
  then show ?thesis using assms(3,4) unfolding coherent_cache_def by (simp add: value_codecI)
qed

end

section \<open>A database and a codec that keep the promises\<close>

record ref_feox =
  rf_now :: time
  rf_entries :: "bytes \<Rightarrow> (bytes \<times> time option) option"

definition rf_held :: "ref_feox \<Rightarrow> bytes \<Rightarrow> bytes option" where
  "rf_held s k =
     (case rf_entries s k of
        Some (b, Some t) \<Rightarrow> if rf_now s < t then Some b else None
      | Some (b, None) \<Rightarrow> Some b
      | None \<Rightarrow> None)"

definition ref_feox_ops :: "ref_feox feox_ops" where
  "ref_feox_ops =
     \<lparr>fx_now = rf_now,
      fx_get = (\<lambda>k s. (case rf_held s k of Some b \<Rightarrow> Ok b | None \<Rightarrow> Err KeyNotFound, s)),
      fx_insert = (\<lambda>k b s. (Ok (), s\<lparr>rf_entries := (rf_entries s)(k \<mapsto> (b, None))\<rparr>)),
      fx_insert_with_ttl = (\<lambda>k b n s. (Ok (), s\<lparr>rf_entries := (rf_entries s)(k \<mapsto> (b, Some (rf_now s + int n * 1000000000)))\<rparr>)),
      fx_contains_key = (\<lambda>k s. (rf_held s k \<noteq> None, s)),
      fx_delete = (\<lambda>k s. (Ok (), s\<lparr>rf_entries := (rf_entries s)(k := None)\<rparr>))\<rparr>"

interpretation ref_feox: feox_laws ref_feox_ops rf_held
  by unfold_locales
    (auto simp: ref_feox_ops_def rf_held_def map_le_def split: option.splits if_splits)

definition opt_time_enc :: "time option \<Rightarrow> bytes" where
  "opt_time_enc t = (case t of None \<Rightarrow> [0] | Some t \<Rightarrow> 1 # unary_str (show_int t))"

fun opt_time_dec :: "bytes \<Rightarrow> (time option \<times> bytes) option" where
  "opt_time_dec [] = None"
| "opt_time_dec (b # bs) =
     (if b = 0 then Some (None, bs)
      else Option.bind (unary_str_dec bs) (\<lambda>(s, r). map_option (\<lambda>t. (Some t, r)) (read_int s)))"

definition demo_feox_codec :: feox_codec where
  "demo_feox_codec =
     \<lparr>fc_key = (\<lambda>k. Ok (cache_key_encode unary_columns k)),
      fc_enc = (\<lambda>v. Ok (unary_str (str_of_bytes (sv_data v)) @ opt_time_enc (sv_stale v) @ opt_time_enc (sv_expire v))),
      fc_dec = (\<lambda>b. case Option.bind (unary_str_dec b) (\<lambda>(d, r).
                         Option.bind (opt_time_dec r) (\<lambda>(st, r). Option.bind (opt_time_dec r) (\<lambda>(ex, r).
                           Some \<lparr>sv_data = bytes_of_str d, sv_stale = st, sv_expire = ex\<rparr>))) of
                      Some v \<Rightarrow> Ok v | None \<Rightarrow> Err ''bincode'')\<rparr>"

lemma bytes_of_str_of_bytes [simp]: "bytes_of_str (str_of_bytes b) = b"
proof -
  have "(word_of_nat (of_char (char_of (unat w))) :: byte) = w" for w :: byte
  proof -
    have "unat w < 256" using unsigned_less [of w] by simp
    then show ?thesis by (simp add: of_char_of)
  qed
  then show ?thesis by (simp add: bytes_of_str_def str_of_bytes_def comp_def)
qed

lemma opt_time_dec_enc [simp]: "opt_time_dec (opt_time_enc t @ r) = Some (t, r)"
  by (cases t) (simp_all add: opt_time_enc_def unary_str_dec_unary_str)

lemma lossless_demo_feox_codec: "lossless_feox_codec demo_feox_codec"
  using opt_time_dec_enc [where r = "[]"]
  by (auto simp: lossless_feox_codec_def demo_feox_codec_def unary_str_dec_unary_str)

lemma feox_keys_distinct_demo: "feox_keys_distinct demo_feox_codec"
proof -
  have "k1 = k2" if "wf_key k1" "wf_key k2" "cache_key_encode unary_columns k1 = cache_key_encode unary_columns k2" for k1 k2
    using key_serialize_inj [OF lawful_unary_columns letters.urlencoding_laws_axioms, of BitcodeKeys k1 k2] that
    by (simp add: key_ok_def key_serialize_def)
  then show ?thesis by (auto simp: feox_keys_distinct_def demo_feox_codec_def)
qed

interpretation demo_feox: coherent_cache "feox_backend ref_feox_ops demo_feox_codec (feox_builder_default nat_serde)"
  wf_key "\<lambda>s. True" "feox_view demo_feox_codec rf_held"
  by (rule ref_feox.coherent [OF lossless_demo_feox_codec feox_keys_distinct_demo])
    (simp_all add: feox_builder_default_def lossless_formats)

section \<open>Properties\<close>

text \<open>Through the FeOxDB store, a typed read returns only what the last writes put under exactly
  that key: whatever was read, set and deleted under any keys, and whatever the database expired,
  evicted or failed to do, a get that hits returns a value that the last successful set under its
  key stored, or a set that failed since then.\<close>

lemma feoxdb_cache_returns_last_set:
  assumes "feox_laws X held" "lossless_feox_codec c" "feox_keys_distinct c"
    and "lossless_format (fb_format b)" "lossless_compressor (fb_compressor b)"
    and "cache_history (feox_backend X c b) wf_key (\<lambda>s. True) (feox_view c held) s h" "wf_key k"
    and "cache_get (feox_backend X c b) k ctx s = ((Ok (Some v), ctx'), s')"
  shows "cv_data v \<in> h k"
  using coherent_cache.history_get_sound [OF feox_laws.coherent [OF assms(1-5)] assms(6-8)] .

theorem feoxdb_cache_returns_last_set_witness:
  "let k = cache_key_from_str ''a'' ''b''; B = feox_backend ref_feox_ops demo_feox_codec (feox_builder_default nat_serde);
       s = snd (cache_set B k (cache_value_new 7 None None) (boxed cache_context_default) \<lparr>rf_now = 0, rf_entries = (\<lambda>k. None)\<rparr>)
   in \<exists>ctx s'. cache_get B k (boxed cache_context_default) s = ((Ok (Some (cache_value_new 7 None None)), ctx), s')
      \<and> (7::nat) \<in> note_set k 7 (Ok ()) (\<lambda>k. {}) k"
proof -
  let ?k = "cache_key_from_str ''a'' ''b''" and ?v = "cache_value_new (7::nat) None None"
  let ?B = "feox_backend ref_feox_ops demo_feox_codec (feox_builder_default nat_serde)"
  let ?init = "\<lparr>rf_now = 0, rf_entries = (\<lambda>k. None)\<rparr>"
  let ?s = "snd (cache_set ?B ?k ?v (boxed cache_context_default) ?init)"
  have dec: "fc_dec demo_feox_codec b = Ok v" if "fc_enc demo_feox_codec v = Ok b" for v b
    using lossless_demo_feox_codec that unfolding lossless_feox_codec_def by blast
  obtain kb where kb: "fc_key demo_feox_codec ?k = Ok kb" by (simp add: demo_feox_codec_def)
  obtain b where b: "fc_enc demo_feox_codec (to_serializable (cache_value_new (bytes_of_str (show_nat 7)) None None)) = Ok b"
    by (simp add: demo_feox_codec_def)
  note defs = cache_set_def cache_get_def feox_write_def feox_read_def feox_builder_default_def json_format_def
    passthrough_compressor_def nat_serde_def ttl_secs_def ref_feox_ops_def rf_held_def into_parts_def cache_meta_new_def
    cache_context_default_def
  have s: "cache_set ?B ?k ?v (boxed cache_context_default) ?init = ((Ok (), boxed cache_context_default), ?s)"
    using kb b by (simp add: defs)
  have g: "\<exists>ctx s'. cache_get ?B ?k (boxed cache_context_default) ?s = ((Ok (Some ?v), ctx), s')"
    using kb b dec [OF b] by (simp add: defs Let_def)
  have h: "cache_history ?B wf_key (\<lambda>s. True) (feox_view demo_feox_codec rf_held) ?s (note_set ?k (cv_data ?v) (Ok ()) (\<lambda>k. {}))"
    by (rule history_set [where okey = wf_key, OF history_start wf_key_from_str _ s])
      (simp_all add: feox_view_def rf_held_def fun_eq_iff cache_context_default_def split: sum.splits)
  obtain ctx s' where g': "cache_get ?B ?k (boxed cache_context_default) ?s = ((Ok (Some ?v), ctx), s')" using g by blast
  have c: "lossless_format (fb_format (feox_builder_default nat_serde))"
    "lossless_compressor (fb_compressor (feox_builder_default nat_serde :: nat feox_builder))"
    by (simp_all add: feox_builder_default_def lossless_formats)
  have "cv_data ?v \<in> note_set ?k (cv_data ?v) (Ok ()) (\<lambda>k. {}) ?k"
    by (rule feoxdb_cache_returns_last_set [OF ref_feox.feox_laws_axioms lossless_demo_feox_codec
          feox_keys_distinct_demo c h wf_key_from_str g'])
  then show ?thesis using g by (simp add: Let_def)
qed

end
