(* ===== verification/Served.thy ===== *)
theory Served
  imports Fsm_Spec Tiered Store_Feoxdb
begin

text \<open>
  The cache futures and the backend together: any number of requests served at once over one typed
  cache, their turns interleaved at will with background revalidations, with cancellations and with
  whatever the store forgets.
\<close>

section \<open>What a typed cache promises its client\<close>

text \<open>\<open>holds s h\<close>: the cache holds, for every key, only values that \<open>h\<close> allows.\<close>

locale typed_cache =
  fixes okey :: "cache_key \<Rightarrow> bool"
    and kget :: "cache_key \<Rightarrow> box_context \<Rightarrow> 's \<Rightarrow> (('c cache_value option, backend_error) result \<times> box_context) \<times> 's"
    and kset :: "cache_key \<Rightarrow> 'c cache_value \<Rightarrow> box_context \<Rightarrow> 's \<Rightarrow> ((unit, backend_error) result \<times> box_context) \<times> 's"
    and holds :: "'s \<Rightarrow> (cache_key \<Rightarrow> 'c set) \<Rightarrow> bool"
    and loses :: "'s \<Rightarrow> 's \<Rightarrow> bool"
  assumes get_law: "okey k \<Longrightarrow> holds s h \<Longrightarrow> kget k ctx s = ((r, ctx'), s') \<Longrightarrow>
      holds s' h \<and> (\<forall>v. r = Ok (Some v) \<longrightarrow> cv_data v \<in> h k)"
    and set_law: "okey k \<Longrightarrow> holds s h \<Longrightarrow> cv_data v \<in> h k \<Longrightarrow> kset k v ctx s = (q, s') \<Longrightarrow> holds s' h"
    and loss_law: "holds s h \<Longrightarrow> loses s s' \<Longrightarrow> holds s' h"
    and mono_law: "holds s h \<Longrightarrow> h \<le> h' \<Longrightarrow> holds s h'"

definition loses_entries :: "('s \<Rightarrow> bool) \<Rightarrow> ('s \<Rightarrow> cache_key \<Rightarrow> bytes option) \<Rightarrow> 's \<Rightarrow> 's \<Rightarrow> bool" where
  "loses_entries iv view s s' \<longleftrightarrow> iv s' \<and> view s' \<subseteq>\<^sub>m view s"

text \<open>Every store with a lossless codec keeps the promise, and so does every composition of two.\<close>

sublocale coherent_cache \<subseteq> typed: typed_cache okey "cache_get B" "cache_set B" agree "loses_entries inv view"
proof
  fix k s h ctx r ctx' s'
  assume "okey k" "agree s h" "cache_get B k ctx s = ((r, ctx'), s')"
  then show "agree s' h \<and> (\<forall>v. r = Ok (Some v) \<longrightarrow> cv_data v \<in> h k)" using get_agrees by blast
next
  fix k s h v ctx q s'
  assume a: "okey k" "agree s h" "cv_data v \<in> h k" "cache_set B k v ctx s = (q, s')"
  show "agree s' h"
  proof (cases "ctx_read_mode ctx = Refill")
    case True
    then show ?thesis using a(2,4) refill_set_inert by simp
  next
    case False
    have "note_set k (cv_data v) (fst q) h j \<subseteq> h j" for j using a(3) by (auto simp: note_set_def)
    then show ?thesis
      using set_agrees [OF a(2,1) False, of v "fst q" "snd q" s'] a(4) unfolding agree_def by fastforce
  qed
next
  fix s h s'
  assume "agree s h" "loses_entries inv view s s'"
  then show "agree s' h" unfolding loses_entries_def by (blast intro: agree_le)
next
  fix s h h'
  assume "agree s h" "h \<le> h'"
  then show "agree s h'" unfolding agree_def le_fun_def by blast
qed

definition loses_layers ::
  "('s1 \<Rightarrow> bool) \<Rightarrow> ('s1 \<Rightarrow> cache_key \<Rightarrow> bytes option) \<Rightarrow> ('s2 \<Rightarrow> bool) \<Rightarrow> ('s2 \<Rightarrow> cache_key \<Rightarrow> bytes option)
   \<Rightarrow> ('s1, 's2) comp_state \<Rightarrow> ('s1, 's2) comp_state \<Rightarrow> bool" where
  "loses_layers inv1 view1 inv2 view2 st st' \<longleftrightarrow>
     (\<exists>n. st' = run_task n st)
     \<or> (\<exists>s1 s2. st' = st\<lparr>co_layers := \<lparr>ly_l1 = s1, ly_l2 = s2\<rparr>\<rparr>
          \<and> loses_entries inv1 view1 (ly_l1 (co_layers st)) s1 \<and> loses_entries inv2 view2 (ly_l2 (co_layers st)) s2)"

lemma note_layered_set_absorb: "v \<in> h k \<Longrightarrow> note_layered_set C k v ctx r h \<le> h"
  by (auto simp: note_layered_set_def note_set_def le_fun_def split: if_splits)

definition empty_layers ::
  "('s1 \<Rightarrow> cache_key \<Rightarrow> bytes option) \<Rightarrow> ('s2 \<Rightarrow> cache_key \<Rightarrow> bytes option) \<Rightarrow> ('s1, 's2) comp_state \<Rightarrow> bool" where
  "empty_layers view1 view2 st \<longleftrightarrow>
     co_tasks st = [] \<and> view1 (ly_l1 (co_layers st)) = (\<lambda>k. None) \<and> view2 (ly_l2 (co_layers st)) = (\<lambda>k. None)"

context two_layers begin

lemma layers_typed: "typed_cache okey (composition_get sched C) (composition_set sched C) agrees (loses_layers inv1 view1 inv2 view2)"
proof
  fix k st h ctx r ctx' st'
  assume "okey k" "agrees st h" "composition_get sched C k ctx st = ((r, ctx'), st')"
  then show "agrees st' h \<and> (\<forall>v. r = Ok (Some v) \<longrightarrow> cv_data v \<in> h k)" using get_agrees by blast
next
  fix k st h v ctx q st'
  assume a: "okey k" "agrees st h" "cv_data v \<in> h k" "composition_set sched C k v ctx st = (q, st')"
  have "agrees st' (note_layered_set C k (cv_data v) ctx (fst q) h)"
    using refill_agrees [OF a(2,1), of ctx sched v "fst q" "snd q" st'] normal_set_agrees [OF a(2,1), of ctx sched v "fst q" "snd q" st'] a(4)
    by (cases "ctx_read_mode ctx") auto
  then show "agrees st' h" using agrees_mono note_layered_set_absorb [where C = C and h = h and k = k and v = "cv_data v", OF a(3)] by blast
next
  fix st h st'
  assume "agrees st h" "loses_layers inv1 view1 inv2 view2 st st'"
  then show "agrees st' h"
    unfolding loses_layers_def loses_entries_def by (auto intro: task_agrees loss_agrees)
qed (rule agrees_mono)

lemma empty_agrees:
  "inv1 (ly_l1 (co_layers st)) \<Longrightarrow> inv2 (ly_l2 (co_layers st)) \<Longrightarrow> empty_layers view1 view2 st \<Longrightarrow> agrees st h"
  by (simp add: empty_layers_def agrees_def layers_agree_def store_agrees_def)

end

sublocale two_layers \<subseteq> typed: typed_cache okey "composition_get sched C" "composition_set sched C" agrees
    "loses_layers inv1 view1 inv2 view2" for sched
  by (rule layers_typed)

section \<open>Where responses come from\<close>

text \<open>The outside of the cache is an environment without a backend, on its own world; over a backend
  its futures reach the store through the typed cache only.\<close>

definition over_backend ::
  "(cache_key \<Rightarrow> box_context \<Rightarrow> 's \<Rightarrow> (('c cache_value option, backend_error) result \<times> box_context) \<times> 's)
   \<Rightarrow> (cache_key \<Rightarrow> 'c cache_value \<Rightarrow> box_context \<Rightarrow> 's \<Rightarrow> ((unit, backend_error) result \<times> box_context) \<times> 's)
   \<Rightarrow> ('req, 'c, 'rx, 'w, 'res, 'rp) fsm_env \<Rightarrow> ('req, 'c, 'rx, 's \<times> 'w, 'res, 'rp) fsm_env" where
  "over_backend kget kset E =
     \<lparr>fo_now = (\<lambda>w. fo_now E (snd w)),
      fo_call = (\<lambda>r w. apsnd (Pair (fst w)) (fo_call E r (snd w))),
      fo_check = (\<lambda>k n w. apsnd (Pair (fst w)) (fo_check E k n (snd w))),
      fo_resolve = (\<lambda>k v w. (fst w, fo_resolve E k v (snd w))),
      fo_cleanup = (\<lambda>k w. (fst w, fo_cleanup E k (snd w))),
      fo_permit_drop = (\<lambda>i w. (fst w, fo_permit_drop E i (snd w))),
      fe_req_policy = (\<lambda>x w. apsnd (Pair (fst w)) (fe_req_policy E x (snd w))),
      fe_get = (\<lambda>k ctx w. case kget k ctx (fst w) of (r, s) \<Rightarrow> (Some r, (s, snd w))),
      fe_set = (\<lambda>k v ctx w. case kset k v ctx (fst w) of (r, s) \<Rightarrow> (Some r, (s, snd w))),
      fe_upstream = (\<lambda>fut w. apsnd (Pair (fst w)) (fe_upstream E fut (snd w))),
      fe_res_policy = (\<lambda>x w. apsnd (Pair (fst w)) (fe_res_policy E x (snd w))),
      fe_from_cached = (\<lambda>c w. apsnd (Pair (fst w)) (fe_from_cached E c (snd w))),
      fe_await = (\<lambda>i rx w. apsnd (Pair (fst w)) (fe_await E i rx (snd w))),
      fe_spawn = (\<lambda>kind f w. w)\<rparr>"

text \<open>A request that was found cacheable under a key; an upstream call made for a request; an answer
  given to a request of that key; a value that may be stored under the key.\<close>

definition asked ::
  "('req, 'c, 'rx, 'w, 'res, 'rp) fsm_env \<Rightarrow> 'req async_predicate \<Rightarrow> 'req extractor \<Rightarrow> cache_key \<Rightarrow> 'req \<Rightarrow> bool" where
  "asked E p x k r \<longleftrightarrow>
     (\<exists>request w d w'. fe_req_policy E (request, p, x) w = (Some (Cacheable d), w') \<and> cpd_key d = k \<and> cpd_request d = r)"

definition called :: "('req, 'c, 'rx, 'w, 'res, 'rp) fsm_env \<Rightarrow> 'req \<Rightarrow> upstream_future \<Rightarrow> bool" where
  "called E r fut \<longleftrightarrow> (\<exists>w w'. fo_call E r w = (fut, w'))"

definition answered ::
  "('req, 'c, 'rx, 'w, 'res, 'rp) fsm_env \<Rightarrow> 'req async_predicate \<Rightarrow> 'req extractor \<Rightarrow> cache_key \<Rightarrow> 'res \<Rightarrow> bool" where
  "answered E p x k res \<longleftrightarrow>
     (\<exists>r fut w w'. asked E p x k r \<and> called E r fut \<and> fe_upstream E fut w = (Some res, w'))"

definition origin ::
  "('req, 'c, 'rx, 'w, 'res, 'rp) fsm_env \<Rightarrow> 'req async_predicate \<Rightarrow> 'req extractor \<Rightarrow> 'rp \<Rightarrow> policy_config \<Rightarrow> cache_key \<Rightarrow> 'c set" where
  "origin E p x rp policy k =
     {cv_data v | v res w w'. answered E p x k res
        \<and> fe_res_policy E (res, rp, policy_entity policy) w = (Some (Cacheable v), w')}"

text \<open>A response that belongs to a future: for a bypassed request, an upstream answer; for a request
  with a key, the conversion of a value of that key, an upstream answer for that key judged not
  cacheable, or what the concurrency manager's channel for that key delivered.\<close>

definition genuine ::
  "('req, 'c, 'rx, 'w, 'res, 'rp) fsm_env \<Rightarrow> 'req async_predicate \<Rightarrow> 'req extractor \<Rightarrow> 'rp \<Rightarrow> policy_config
   \<Rightarrow> cache_key option \<Rightarrow> 'res \<Rightarrow> bool" where
  "genuine E p x rp policy key res \<longleftrightarrow>
     (case key of
        None \<Rightarrow> \<exists>r fut w w'. called E r fut \<and> fe_upstream E fut w = (Some res, w')
      | Some k \<Rightarrow>
          (\<exists>c w w'. c \<in> origin E p x rp policy k \<and> fe_from_cached E c w = (Some res, w'))
          \<or> (\<exists>up w w'. answered E p x k up \<and> fe_res_policy E (up, rp, policy_entity policy) w = (Some (NonCacheable res), w'))
          \<or> (\<exists>n i rx w1 w1' w2 w2'. fo_check E k n w1 = (Await i rx, w1') \<and> fe_await E i rx w2 = (Some (Ok res), w2')))"

text \<open>What every state of a future carries.\<close>

fun state_genuine ::
  "('req, 'c, 'rx, 'w, 'res, 'rp) fsm_env \<Rightarrow> 'req async_predicate \<Rightarrow> 'req extractor \<Rightarrow> 'rp \<Rightarrow> policy_config
   \<Rightarrow> cache_key option \<Rightarrow> ('req, 'res, 'rp, 'c, 'rx) state \<Rightarrow> bool" where
  "state_genuine E p x rp policy key (Initial st) =
     (\<forall>i. st = Some i \<longrightarrow> key = None \<and> in_predicates i = p \<and> in_extractors i = x)"
| "state_genuine E p x rp policy key (CheckRequestCachePolicy fut st) = (key = None \<and> snd fut = (p, x))"
| "state_genuine E p x rp policy key (PollCache fut st) =
     (\<forall>c. st = Some c \<longrightarrow> key = Some (pc_cache_key c) \<and> fst fut = pc_cache_key c \<and> asked E p x (pc_cache_key c) (pc_request c))"
| "state_genuine E p x rp policy key (ConvertResponse fut st) =
     (\<forall>c. st = Some c \<longrightarrow> key = Some (cr_cache_key c) \<and> fst fut \<in> origin E p x rp policy (cr_cache_key c))"
| "state_genuine E p x rp policy key (HandleStale fut st) =
     (\<forall>c. st = Some c \<longrightarrow> key = Some (hs_cache_key c) \<and> asked E p x (hs_cache_key c) (hs_request c)
        \<and> fst fut \<in> origin E p x rp policy (hs_cache_key c))"
| "state_genuine E p x rp policy key (AwaitResponse fut st) =
     (\<forall>c. st = Some c \<longrightarrow> key = Some (ar_cache_key c) \<and> asked E p x (ar_cache_key c) (ar_request c)
        \<and> (\<exists>n w w'. fo_check E (ar_cache_key c) n w = (Await (fst fut) (snd fut), w')))"
| "state_genuine E p x rp policy key (PollUpstream fut st) =
     (\<forall>u. st = Some u \<longrightarrow> key = pu_cache_key u \<and> (\<exists>r. called E r fut \<and> (\<forall>k. key = Some k \<longrightarrow> asked E p x k r)))"
| "state_genuine E p x rp policy key (CheckResponseCachePolicy fut st) =
     (\<forall>c. st = Some c \<longrightarrow> key = Some (cs_cache_key c) \<and> answered E p x (cs_cache_key c) (fst fut)
        \<and> snd fut = (rp, policy_entity policy))"
| "state_genuine E p x rp policy key (UpdateCache (Setting k v ctx) st) =
     (key = Some k \<and> cv_data v \<in> origin E p x rp policy k)"
| "state_genuine E p x rp policy key (UpdateCache (Converting r c ctx) st) =
     (\<exists>k. key = Some k \<and> c \<in> origin E p x rp policy k)"
| "state_genuine E p x rp policy key (Response st) =
     (\<forall>d. st = Some d \<longrightarrow> genuine E p x rp policy key (rs_response d))"

definition future_genuine ::
  "('req, 'c, 'rx, 'w, 'res, 'rp) fsm_env \<Rightarrow> 'req async_predicate \<Rightarrow> 'req extractor \<Rightarrow> 'rp \<Rightarrow> policy_config
   \<Rightarrow> ('req, 'res, 'rp, 'c, 'rx) cache_future \<Rightarrow> bool" where
  "future_genuine E p x rp policy f \<longleftrightarrow>
     cf_policy f = policy \<and> (\<forall>q. cf_response_predicates f = Some q \<longrightarrow> q = rp)
     \<and> state_genuine E p x rp policy (cf_cache_key f) (cf_state f)"

definition turn_future :: "('f, 'out) turn \<Rightarrow> 'f \<Rightarrow> 'f" where
  "turn_future t f = (case t of Panicked \<Rightarrow> f | Pending f' \<Rightarrow> f' | Moved f' \<Rightarrow> f' | Ready f' _ \<Rightarrow> f')"

subsection \<open>Every turn keeps it\<close>

lemma over_backend_sel [simp]:
  "fo_now (over_backend kget kset E) w = fo_now E (snd w)"
  "fo_call (over_backend kget kset E) r w = apsnd (Pair (fst w)) (fo_call E r (snd w))"
  "fo_check (over_backend kget kset E) k n w = apsnd (Pair (fst w)) (fo_check E k n (snd w))"
  "fo_resolve (over_backend kget kset E) k v w = (fst w, fo_resolve E k v (snd w))"
  "fo_cleanup (over_backend kget kset E) k w = (fst w, fo_cleanup E k (snd w))"
  "fo_permit_drop (over_backend kget kset E) i w = (fst w, fo_permit_drop E i (snd w))"
  "fe_req_policy (over_backend kget kset E) y w = apsnd (Pair (fst w)) (fe_req_policy E y (snd w))"
  "fe_get (over_backend kget kset E) k ctx w = (case kget k ctx (fst w) of (r, s) \<Rightarrow> (Some r, (s, snd w)))"
  "fe_set (over_backend kget kset E) k v ctx w = (case kset k v ctx (fst w) of (q, s) \<Rightarrow> (Some q, (s, snd w)))"
  "fe_upstream (over_backend kget kset E) fut w = apsnd (Pair (fst w)) (fe_upstream E fut (snd w))"
  "fe_res_policy (over_backend kget kset E) z w = apsnd (Pair (fst w)) (fe_res_policy E z (snd w))"
  "fe_from_cached (over_backend kget kset E) c w = apsnd (Pair (fst w)) (fe_from_cached E c (snd w))"
  "fe_await (over_backend kget kset E) i rx w = apsnd (Pair (fst w)) (fe_await E i rx (snd w))"
  "fe_spawn (over_backend kget kset E) kind f w = w"
  by (simp_all add: over_backend_def)

lemma origin_asked: "c \<in> origin E p x rp policy k \<Longrightarrow> \<exists>r. asked E p x k r"
  by (auto simp: origin_def answered_def)

lemma calledI: "fo_call E r w = (fut, w') \<Longrightarrow> called E r fut"
  unfolding called_def by blast

text \<open>The same facts of an outcome that is the first component of a poll.\<close>

lemma fst_eq: "fst q = a \<longleftrightarrow> (\<exists>b. q = (a, b))"
  by (cases q) simp

lemma call_made: "\<exists>r. called E r (fst (fo_call E y e))"
  unfolding called_def by (metis prod.collapse)

lemma call_made_for: "asked E p x k y \<Longrightarrow> \<exists>r. called E r (fst (fo_call E y e)) \<and> asked E p x k r"
  unfolding called_def by (metis prod.collapse)

lemma asked_first: "fst (fe_req_policy E (y, p, x) e) = Some (Cacheable d) \<Longrightarrow> asked E p x (cpd_key d) (cpd_request d)"
  unfolding asked_def fst_eq by blast

lemma answered_first: "fst (fe_upstream E fut e) = Some res \<Longrightarrow> called E r fut \<Longrightarrow> asked E p x k r \<Longrightarrow> answered E p x k res"
  unfolding answered_def fst_eq by blast

lemma origin_first:
  "fst (fe_res_policy E (res, rp, policy_entity policy) e) = Some (Cacheable v) \<Longrightarrow> answered E p x k res
   \<Longrightarrow> cv_data v \<in> origin E p x rp policy k"
  unfolding origin_def fst_eq by blast

lemma genuine_upstream: "fst (fe_upstream E fut e) = Some res \<Longrightarrow> called E r fut \<Longrightarrow> genuine E p x rp policy None res"
  unfolding genuine_def fst_eq by auto

lemma genuine_cached:
  "fst (fe_from_cached E c e) = Some res \<Longrightarrow> c \<in> origin E p x rp policy k \<Longrightarrow> genuine E p x rp policy (Some k) res"
  unfolding genuine_def fst_eq by auto

lemma genuine_passed:
  "fst (fe_res_policy E (up, rp, policy_entity policy) e) = Some (NonCacheable res) \<Longrightarrow> answered E p x k up
   \<Longrightarrow> genuine E p x rp policy (Some k) res"
  unfolding genuine_def fst_eq by auto

lemma genuine_awaited:
  "fst (fe_await E i rx e) = Some (Ok res) \<Longrightarrow> fo_check E k n v = (Await i rx, v') \<Longrightarrow> genuine E p x rp policy (Some k) res"
  unfolding genuine_def fst_eq by (simp, blast)

lemma spawn_over_backend:
  fixes f f' :: "('req, 'res, 'rp, 'c, 'rx) cache_future"
  assumes "spawn_revalidation (over_backend kget kset E) d f v = (f', v')"
  shows "fst v' = fst v \<and> cf_policy f' = cf_policy f \<and> cf_cache_key f' = cf_cache_key f
    \<and> (cf_response_predicates f' = None \<or> cf_response_predicates f' = cf_response_predicates f)"
proof (cases "d = None \<or> cf_response_predicates f = None")
  case True
  then have "f' = f \<and> v' = v" using assms by (cases d) (auto simp: spawn_revalidation_def)
  then show ?thesis by simp
next
  case False
  then obtain a q where a: "d = Some a" "cf_response_predicates f = Some q" by auto
  obtain reval :: "('req, 'res, 'rp, 'c, 'rx) cache_future" and v1 where r: "cache_future_revalidate (over_backend kget kset E) (od_cache_key a) (od_request a) q (cf_policy f) v = (reval, v1)"
    by (metis surj_pair)
  have "fst v1 = fst v" using r by (auto simp: cache_future_revalidate_def case_prod_beta)
  then show ?thesis using assms a r by (auto simp: spawn_revalidation_def)
qed

lemma upstream_genuine:
  assumes "asked E p x (pc_cache_key c) (pc_request c)" "key = Some (pc_cache_key c)"
    and "transition_to_upstream (over_backend kget kset E) policy c ctx w = (t, w')"
  shows "state_genuine E p x rp policy key (poll_cache_into_state t) \<and> fst w' = fst w"
proof -
  have called: "\<exists>r. called E r (fst (fo_call E (pc_request c) e)) \<and> asked E p x (pc_cache_key c) r" for e
    using assms(1) by (metis calledI prod.collapse)
  have awaiting: "\<exists>n w1 w2. fo_check E (pc_cache_key c) n w1 = (Await i rx, w2)"
    if "fst (fo_check E (pc_cache_key c) n e) = Await i rx" for n e i rx
    using that by (metis prod.collapse)
  show ?thesis
    using assms called awaiting
    by (auto simp: transition_to_upstream_def Let_def case_prod_beta
        split: decision.splits policy_config.splits option.splits)
qed

context typed_cache begin

lemma poll_cache_genuine:
  assumes "state_genuine E p x rp policy key (PollCache fut (Some c))" "\<forall>k r. asked E p x k r \<longrightarrow> okey k"
    and "holds (fst w) (origin E p x rp policy)"
    and "kget (fst fut) (snd fut) (fst w) = ((found, ctx), s)"
    and "poll_cache_next (over_backend kget kset E) policy found ctx c (s, snd w) = (t, w')"
  shows "holds (fst w') (origin E p x rp policy) \<and> state_genuine E p x rp policy key (poll_cache_into_state t)"
proof -
  have c: "key = Some (pc_cache_key c)" "fst fut = pc_cache_key c" "asked E p x (pc_cache_key c) (pc_request c)"
    using assms(1) by simp_all
  have g: "holds s (origin E p x rp policy)" "\<And>v. found = Ok (Some v) \<Longrightarrow> cv_data v \<in> origin E p x rp policy (pc_cache_key c)"
    using get_law [OF _ assms(3,4)] assms(2) c(2,3) by auto
  show ?thesis
  proof (cases "\<exists>v. found = Ok (Some v)")
    case False
    then have "transition_to_upstream (over_backend kget kset E) policy c ctx (s, snd w) = (t, w')"
      using assms(5) by (auto simp: poll_cache_next_def split: sum.splits option.splits)
    from upstream_genuine [OF c(3,1) this] show ?thesis using g(1) by simp
  next
    case True
    then obtain v where v: "found = Ok (Some v)" by blast
    show ?thesis
    proof (cases "cache_state_of (fo_now E (snd w)) v")
      case (Expired u)
      then have "transition_to_upstream (over_backend kget kset E) policy c (ctx_set_status Miss (ctx_set_status Hit ctx)) (s, snd w) = (t, w')"
        using assms(5) v by (simp add: poll_cache_next_def)
      from upstream_genuine [OF c(3,1) this] show ?thesis using g(1) by simp
    qed (use assms(5) v c g in \<open>auto simp: poll_cache_next_def into_inner_def cache_state_of_def Let_def
        split: if_splits\<close>)
  qed
qed

text \<open>One turn of a genuine future over a cache that holds only genuine values.\<close>

lemma turn_genuine:
  assumes f: "future_genuine E p x rp policy f" and keys: "\<forall>k r. asked E p x k r \<longrightarrow> okey k"
    and h: "holds (fst w) (origin E p x rp policy)"
    and t: "fsm_turn (over_backend kget kset E) f w = (t, w')"
  shows "holds (fst w') (origin E p x rp policy) \<and> future_genuine E p x rp policy (turn_future t f)
    \<and> (\<forall>f' out. t = Ready f' out \<longrightarrow> genuine E p x rp policy (cf_cache_key f) (fst out))"
proof -
  have pol: "cf_policy f = policy" "\<And>q. cf_response_predicates f = Some q \<Longrightarrow> q = rp"
    and st: "state_genuine E p x rp policy (cf_cache_key f) (cf_state f)"
    using f unfolding future_genuine_def by auto
  show ?thesis
  proof (cases "cf_state f")
    case (Initial i)
    then show ?thesis using t f h st pol
      by (cases i; cases policy)
        (auto simp: fsm_turn.simps turn_future_def future_genuine_def initial_next_def case_prod_beta call_made)
  next
    case (CheckRequestCachePolicy fut q)
    then obtain y where y: "fut = (y, p, x)" using st by (cases fut) auto
    show ?thesis using t f h st pol CheckRequestCachePolicy
      by (cases q)
        (auto simp: fsm_turn.simps turn_future_def future_genuine_def check_request_next_def case_prod_beta call_made y
          dest: asked_first split: option.splits cache_policy.splits)
  next
    case (PollCache fut c)
    show ?thesis
    proof (cases c)
      case None
      then show ?thesis using t f h PollCache by (simp add: fsm_turn.simps turn_future_def)
    next
      case (Some d)
      obtain found ctx s where g: "kget (fst fut) (snd fut) (fst w) = ((found, ctx), s)" by (metis surj_pair)
      obtain q w1 where n: "poll_cache_next (over_backend kget kset E) policy found ctx d (s, snd w) = (q, w1)"
        by (metis surj_pair)
      from poll_cache_genuine [OF _ keys h g n, of "cf_cache_key f"] st PollCache Some
      have "holds (fst w1) (origin E p x rp policy) \<and> state_genuine E p x rp policy (cf_cache_key f) (poll_cache_into_state q)"
        by simp
      then show ?thesis using t g n pol PollCache Some
        by (auto simp: fsm_turn.simps turn_future_def future_genuine_def)
    qed
  next
    case (ConvertResponse fut c)
    then show ?thesis using t f h st pol
      by (cases c)
        (auto simp: fsm_turn.simps turn_future_def future_genuine_def convert_response_next_def case_prod_beta
          intro: genuine_cached split: option.splits)
  next
    case (HandleStale fut c)
    note sp = spawn_over_backend
    show ?thesis
    proof (cases c)
      case None
      then show ?thesis using t f h HandleStale by (simp add: fsm_turn.simps turn_future_def)
    next
      case (Some a)
      obtain r v where cv: "fe_from_cached (over_backend kget kset E) (fst fut) w = (r, v)" by (metis surj_pair)
      have v: "fst v = fst w" and cvt: "fst (fe_from_cached E (fst fut) (snd w)) = r"
        using cv by (cases "fe_from_cached E (fst fut) (snd w)"; auto)+
      show ?thesis
      proof (cases r)
        case None
        then show ?thesis using t f h HandleStale Some cv v
          by (auto simp: fsm_turn.simps turn_future_def)
      next
        case (Some response)
        obtain q d v1 where n: "handle_stale_next (over_backend kget kset E) policy response (snd fut) a v = ((q, d), v1)"
          by (metis surj_pair)
        obtain f' v2 where s: "spawn_revalidation (over_backend kget kset E) d f v1 = (f', v2)" by (metis surj_pair)
        have g: "genuine E p x rp policy (cf_cache_key f) response"
          using st HandleStale \<open>c = Some a\<close> cvt Some by (auto intro: genuine_cached)
        have "fst v1 = fst v \<and> state_genuine E p x rp policy (cf_cache_key f) (handle_stale_into_state q)"
          using n g st HandleStale \<open>c = Some a\<close>
          by (auto simp: handle_stale_next_def case_prod_beta call_made_for split: stale_policy.splits)
        moreover have "t = Moved (f'\<lparr>cf_state := handle_stale_into_state q\<rparr>)" "w' = v2"
          using t HandleStale \<open>c = Some a\<close> cv Some n s pol(1) by (auto simp: fsm_turn.simps)
        ultimately show ?thesis using sp [OF s] h v pol
          by (auto simp: turn_future_def future_genuine_def)
      qed
    qed
  next
    case (AwaitResponse fut c)
    show ?thesis
    proof (cases "fst (fe_await E (fst fut) (snd fut) (snd w))")
      case None
      then have "fst w' = fst w \<and> turn_future t f = f \<and> (\<forall>f' out. t \<noteq> Ready f' out)"
        using t AwaitResponse by (cases c) (auto simp: fsm_turn.simps turn_future_def case_prod_beta)
      then show ?thesis using f h by simp
    next
      case (Some r)
      then show ?thesis using t f h st pol AwaitResponse
        by (cases c; cases r)
          (auto simp: fsm_turn.simps turn_future_def future_genuine_def await_response_next_def Let_def case_prod_beta call_made_for
            intro: genuine_awaited split: concurrency_error.splits)
    qed
  next
    case (PollUpstream fut u)
    then show ?thesis using t f h st pol
      by (cases u)
        (auto simp: fsm_turn.simps turn_future_def future_genuine_def poll_upstream_next_def case_prod_beta
          intro: genuine_upstream answered_first split: option.splits)
  next
    case (CheckResponseCachePolicy fut c)
    have d: "fst (drop_permit (over_backend kget kset E) m v) = fst v" for m v
      by (simp add: drop_permit_def split: option.split)
    obtain y z where fut: "fut = (y, z)" by (metis surj_pair)
    show ?thesis using t f h st pol CheckResponseCachePolicy
      by (cases c)
        (auto simp: fsm_turn.simps turn_future_def future_genuine_def check_response_next_def Let_def case_prod_beta d fut
          intro: genuine_passed origin_first split: option.splits cache_policy.splits)
  next
    case (UpdateCache fut u)
    show ?thesis
    proof (cases fut)
      case (Converting r c ctx)
      then show ?thesis using t f h st pol UpdateCache
        by (cases u; cases "fst (fe_from_cached E c (snd w))")
          (auto simp: fsm_turn.simps turn_future_def future_genuine_def poll_update_def update_cache_next_def Let_def
            case_prod_beta intro: genuine_cached)
    next
      case (Setting k v ctx)
      have o: "cf_cache_key f = Some k" "cv_data v \<in> origin E p x rp policy k" using st UpdateCache Setting by simp_all
      obtain q s where s: "kset k v ctx (fst w) = (q, s)" by fastforce
      have "okey k" using origin_asked [OF o(2)] keys by blast
      from set_law [OF this h o(2) s] have hs: "holds s (origin E p x rp policy)" .
      show ?thesis using t f h hs o s pol UpdateCache Setting
        by (cases u; cases "fst (fe_from_cached E (cv_data v) (snd w))")
          (auto simp: fsm_turn.simps turn_future_def future_genuine_def poll_update_def update_cache_next_def Let_def
            into_inner_def case_prod_beta intro: genuine_cached)
    qed
  next
    case (Response d)
    then show ?thesis using t f h st pol
      by (cases d) (auto simp: fsm_turn.simps turn_future_def future_genuine_def finish_response_def Let_def)
  qed
qed

end

section \<open>Requests served together\<close>

text \<open>A revalidation runs in the same environment with no limit on concurrency and no background of
  its own; nothing it consults is different.\<close>

lemma revalidation_over_backend: "revalidation_env (over_backend kget kset E) = over_backend kget kset (revalidation_env E)"
  by (simp add: revalidation_env_def over_backend_def noop_resolve_def noop_cleanup_def fun_eq_iff)

lemma revalidation_origin [simp]:
  "asked (revalidation_env E) p x = asked E p x" "called (revalidation_env E) = called E"
  "answered (revalidation_env E) p x = answered E p x" "origin (revalidation_env E) p x rp policy = origin E p x rp policy"
  by (simp_all add: fun_eq_iff asked_def called_def answered_def origin_def revalidation_env_def)

lemma revalidation_genuine: "genuine (revalidation_env E) p x rp policy key res \<Longrightarrow> genuine E p x rp policy key res"
  by (cases key) (auto simp: genuine_def noop_check_def, simp_all add: revalidation_env_def noop_check_def, blast+)

text \<open>The running system: the futures alive and the world, which is the store and the outside.  A
  request may come in at any time, a turn of any future may be next, a revalidation may start for
  any request that was found cacheable, a future may be dropped, and between two turns the outside
  changes at will and the store loses what it loses.\<close>

inductive serving ::
  "(cache_key \<Rightarrow> box_context \<Rightarrow> 's \<Rightarrow> (('c cache_value option, backend_error) result \<times> box_context) \<times> 's)
   \<Rightarrow> (cache_key \<Rightarrow> 'c cache_value \<Rightarrow> box_context \<Rightarrow> 's \<Rightarrow> ((unit, backend_error) result \<times> box_context) \<times> 's)
   \<Rightarrow> ('s \<Rightarrow> bool) \<Rightarrow> ('s \<Rightarrow> 's \<Rightarrow> bool) \<Rightarrow> ('req, 'c, 'rx, 'w, 'res, 'rp) fsm_env \<Rightarrow> 'req async_predicate \<Rightarrow> 'req extractor
   \<Rightarrow> 'rp \<Rightarrow> policy_config \<Rightarrow> ('req, 'res, 'rp, 'c, 'rx) cache_future list \<Rightarrow> 's \<times> 'w \<Rightarrow> bool"
  for kget kset fresh loses E p x rp policy where
  serving_start: "fresh s \<Longrightarrow> serving kget kset fresh loses E p x rp policy [] (s, e)"
| serving_request: "serving kget kset fresh loses E p x rp policy fs w
    \<Longrightarrow> serving kget kset fresh loses E p x rp policy (fs @ [cache_future_new request p rp x policy]) w"
| serving_revalidation: "serving kget kset fresh loses E p x rp policy fs w \<Longrightarrow> asked E p x k request
    \<Longrightarrow> cache_future_revalidate (over_backend kget kset E) k request rp policy w = (f, w')
    \<Longrightarrow> serving kget kset fresh loses E p x rp policy (fs @ [f]) w'"
| serving_turn: "serving kget kset fresh loses E p x rp policy fs w \<Longrightarrow> i < length fs \<Longrightarrow> \<not> cf_is_revalidation (fs ! i)
    \<Longrightarrow> fsm_turn (over_backend kget kset E) (fs ! i) w = (t, w')
    \<Longrightarrow> serving kget kset fresh loses E p x rp policy (fs[i := turn_future t (fs ! i)]) w'"
| serving_background_turn: "serving kget kset fresh loses E p x rp policy fs w \<Longrightarrow> i < length fs \<Longrightarrow> cf_is_revalidation (fs ! i)
    \<Longrightarrow> fsm_turn (revalidation_env (over_backend kget kset E)) (fs ! i) w = (t, w')
    \<Longrightarrow> serving kget kset fresh loses E p x rp policy (fs[i := turn_future t (fs ! i)]) w'"
| serving_drop: "serving kget kset fresh loses E p x rp policy fs w
    \<Longrightarrow> serving kget kset fresh loses E p x rp policy (take i fs @ drop (Suc i) fs) w"
| serving_outside: "serving kget kset fresh loses E p x rp policy fs (s, e) \<Longrightarrow> loses s s' \<or> s' = s
    \<Longrightarrow> serving kget kset fresh loses E p x rp policy fs (s', e')"

text \<open>A turn does not change what kind of future it is.\<close>

lemma spawn_kind: "spawn_revalidation E d f w = (f', w') \<Longrightarrow> cf_is_revalidation f' = cf_is_revalidation f"
  by (cases d; cases "cf_response_predicates f") (auto simp: spawn_revalidation_def split: prod.splits)

lemma turn_kind: "fsm_turn E f w = (t, w') \<Longrightarrow> cf_is_revalidation (turn_future t f) = cf_is_revalidation f"
  by (auto simp: fsm_turn.simps turn_future_def dest: spawn_kind split: state.splits option.splits prod.splits)

lemma ball_update: "\<forall>f \<in> set fs. P f \<Longrightarrow> P y \<Longrightarrow> \<forall>f \<in> set (fs[i := y]). P f"
  using set_update_subset_insert [of fs i y] by blast

definition part_genuine ::
  "('req, 'c, 'rx, 'w, 'res, 'rp) fsm_env \<Rightarrow> 'req async_predicate \<Rightarrow> 'req extractor \<Rightarrow> 'rp \<Rightarrow> policy_config
   \<Rightarrow> ('req, 'res, 'rp, 'c, 'rx) cache_future \<Rightarrow> bool" where
  "part_genuine E p x rp policy f \<longleftrightarrow>
     future_genuine (if cf_is_revalidation f then revalidation_env E else E) p x rp policy f"

lemma new_genuine: "part_genuine E p x rp policy (cache_future_new request p rp x policy)"
  by (simp add: part_genuine_def future_genuine_def cache_future_new_def)

lemma revalidate_genuine:
  assumes "asked E p x k request" "cache_future_revalidate (over_backend kget kset E) k request rp policy w = (f, w')"
  shows "part_genuine E p x rp policy f \<and> fst w' = fst w"
  using assms call_made_for [OF assms(1)]
  by (auto simp: part_genuine_def future_genuine_def cache_future_revalidate_def case_prod_beta)

context typed_cache begin

lemma serving_genuine:
  assumes run: "serving kget kset fresh loses E p x rp policy fs w"
    and keys: "\<forall>k r. asked E p x k r \<longrightarrow> okey k" and fresh: "\<And>s. fresh s \<Longrightarrow> holds s (\<lambda>k. {})"
  shows "holds (fst w) (origin E p x rp policy) \<and> (\<forall>f \<in> set fs. part_genuine E p x rp policy f)"
  using run
proof (induction rule: serving.induct)
  case (serving_start s e)
  then show ?case using mono_law [OF fresh] by (auto simp: le_fun_def)
next
  case (serving_turn fs w i t w')
  have f: "future_genuine E p x rp policy (fs ! i)"
    using serving_turn.IH serving_turn.hyps nth_mem unfolding part_genuine_def by fastforce
  have h: "holds (fst w') (origin E p x rp policy)" and g: "future_genuine E p x rp policy (turn_future t (fs ! i))"
    using turn_genuine [OF f _ _ serving_turn(4)] serving_turn.IH keys by simp_all
  have "part_genuine E p x rp policy (turn_future t (fs ! i))"
    using g serving_turn(3) turn_kind [OF serving_turn(4)] by (simp add: part_genuine_def)
  then show ?case using h ball_update [OF conjunct2 [OF serving_turn.IH]] by simp
next
  case (serving_background_turn fs w i t w')
  have f: "future_genuine (revalidation_env E) p x rp policy (fs ! i)"
    using serving_background_turn.IH serving_background_turn.hyps nth_mem unfolding part_genuine_def by fastforce
  have h: "holds (fst w') (origin E p x rp policy)" and g: "future_genuine (revalidation_env E) p x rp policy (turn_future t (fs ! i))"
    using turn_genuine [OF f _ _ serving_background_turn(4) [unfolded revalidation_over_backend]] serving_background_turn.IH keys by simp_all
  have "part_genuine E p x rp policy (turn_future t (fs ! i))"
    using g serving_background_turn(3) turn_kind [OF serving_background_turn(4)] by (simp add: part_genuine_def)
  then show ?case using h ball_update [OF conjunct2 [OF serving_background_turn.IH]] by simp
next
  case (serving_outside fs s e s' e')
  then show ?case using loss_law by auto
qed (auto simp: new_genuine dest: revalidate_genuine in_set_takeD in_set_dropD)

lemma response_genuine:
  assumes "serving kget kset fresh loses E p x rp policy fs w" "f \<in> set fs"
    and "\<forall>k r. asked E p x k r \<longrightarrow> okey k" "\<And>s. fresh s \<Longrightarrow> holds s (\<lambda>k. {})"
    and "fsm_turn (if cf_is_revalidation f then revalidation_env (over_backend kget kset E) else over_backend kget kset E) f w
      = (Ready f' out, w')"
  shows "genuine E p x rp policy (cf_cache_key f) (fst out)"
proof -
  have s: "holds (fst w) (origin E p x rp policy)" "part_genuine E p x rp policy f"
    using serving_genuine [OF assms(1)] assms(2-4) by blast+
  show ?thesis
  proof (cases "cf_is_revalidation f")
    case True
    then have "future_genuine (revalidation_env E) p x rp policy f"
      "fsm_turn (over_backend kget kset (revalidation_env E)) f w = (Ready f' out, w')"
      using s assms(5) by (simp_all add: part_genuine_def revalidation_over_backend)
    then have "genuine (revalidation_env E) p x rp policy (cf_cache_key f) (fst out)"
      using turn_genuine [of "revalidation_env E" p x rp policy f w "Ready f' out" w'] s(1) assms(3) by (simp del: split_paired_All)
    then show ?thesis by (rule revalidation_genuine)
  next
    case False
    then have "future_genuine E p x rp policy f" "fsm_turn (over_backend kget kset E) f w = (Ready f' out, w')"
      using s assms(5) by (simp_all add: part_genuine_def)
    then show ?thesis
      using turn_genuine [of E p x rp policy f w "Ready f' out" w'] s(1) assms(3) by (simp del: split_paired_All)
  qed
qed

end

text \<open>A poll is some turns.\<close>

lemma serving_poll:
  assumes "serving kget kset fresh loses E p x rp policy fs w" "i < length fs"
    and "B = (if cf_is_revalidation (fs ! i) then revalidation_env (over_backend kget kset E) else over_backend kget kset E)"
    and "fsm_poll B (fs ! i) w = (Ready f' out, w')"
  shows "\<exists>f v. serving kget kset fresh loses E p x rp policy (fs[i := f]) v \<and> cf_is_revalidation f = cf_is_revalidation (fs ! i)
    \<and> fsm_turn B f v = (Ready f' out, w')"
  using assms
proof (induction "rank (cf_state (fs ! i))" arbitrary: fs w rule: less_induct)
  case less
  obtain t v where t: "fsm_turn B (fs ! i) w = (t, v)" by (metis surj_pair)
  have step: "serving kget kset fresh loses E p x rp policy (fs[i := turn_future t (fs ! i)]) v"
    using less.prems(1-3) t
    by (cases "cf_is_revalidation (fs ! i)") (auto intro: serving_turn serving_background_turn)
  show ?case
  proof (cases t)
    case (Moved f1)
    have k: "cf_is_revalidation f1 = cf_is_revalidation (fs ! i)" using turn_kind [OF t] Moved by (simp add: turn_future_def)
    have p1: "fsm_poll B f1 v = (Ready f' out, w')" using less.prems(4) t Moved by (simp add: fsm_poll_Moved)
    have "rank (cf_state f1) < rank (cf_state (fs ! i))" using t Moved by (auto intro: fsm_turn_rank)
    from less.hyps [of "fs[i := f1]" v] this step p1 k less.prems(2,3) Moved
    show ?thesis by (simp add: turn_future_def)
  next
    case (Ready f1 out1)
    then have "fsm_poll B (fs ! i) w = (Ready f1 out1, v)" using t by (subst fsm_poll.simps) simp
    then show ?thesis using less.prems(1,4) t Ready by (intro exI [of _ "fs ! i"] exI [of _ w]) simp
  next
    case Panicked
    then have "fsm_poll B (fs ! i) w = (Panicked, v)" using t by (subst fsm_poll.simps) simp
    then show ?thesis using less.prems(4) by simp
  next
    case (Pending f1)
    then have "fsm_poll B (fs ! i) w = (Pending f1, v)" using t by (subst fsm_poll.simps) simp
    then show ?thesis using less.prems(4) by simp
  qed
qed

lemma ready_key: "fsm_turn B f v = (Ready f' out, w') \<Longrightarrow> cf_cache_key f' = cf_cache_key f"
  by (auto simp: fsm_turn.simps split: state.splits option.splits prod.splits)

section \<open>Properties\<close>

text \<open>C6. Every response served is genuine, as long as every key that a request may ask for is one that Redis' key format tells
  apart: any well-formed key with bitcode, with the URL form a key that it keeps (others may collide, see C33).  The formats and compressors of both layers lose nothing,
  and the two formats are not confusable: equal type ids mean equal serializers.  Then, with any number of requests served at once over an
  in-memory store in front of Redis, their turns interleaved in any order with background
  revalidations, cancelled requests, tasks of the offload, lost entries and a changing outside, a
  request is answered only with what belongs to it.  A request with a cache key gets the conversion
  of a value made from an upstream answer, judged cacheable, to a request of that very key; or such
  an answer that is not cacheable; or what the concurrency manager delivered on the channel of that
  key.  A request without a key gets an upstream answer.\<close>

theorem responses_are_genuine:
  assumes "moka_laws M held" "lossless_format (mb_format b)" "lossless_compressor (mb_compressor b)"
    and "redis_laws R rdata" "lawful_columns cc" "urlencoding_laws U"
    and "lossless_format (rg_format g)" "lossless_compressor (rg_compressor g)"
    and "fm_type_id (mb_format b) \<noteq> fm_type_id (rg_format g) \<or> fm_ser (mb_format b) = fm_ser (rg_format g)"
    and "C = compose_with (moka_backend M b) (redis_backend cc U R g) cp"
    and "serving (composition_get sched C) (composition_set sched C) (empty_layers (moka_content held) (redis_view cc U rdata g))
      (loses_layers (\<lambda>c. True) (moka_content held) (\<lambda>w. True) (redis_view cc U rdata g)) E p x rp policy fs w"
    and "f \<in> set fs" "\<forall>k r. asked E p x k r \<longrightarrow> key_ok (rg_key_format g) k"
    and "\<not> cf_is_revalidation f" "fsm_poll (over_backend (composition_get sched C) (composition_set sched C) E) f w = (Ready f' (res, ctx), w')"
  shows "genuine E p x rp policy (cf_cache_key f') res"
proof -
  have tl: "two_layers C (key_ok (rg_key_format g)) (\<lambda>c. True) (moka_content held) (\<lambda>w. True) (redis_view cc U rdata g)"
    unfolding assms(10) by (rule moka_over_redis_layers [OF assms(1-9)])
  obtain i where i: "i < length fs" "fs ! i = f" using assms(12) by (auto simp: in_set_conv_nth)
  obtain f1 v where s: "serving (composition_get sched C) (composition_set sched C)
      (empty_layers (moka_content held) (redis_view cc U rdata g))
      (loses_layers (\<lambda>c. True) (moka_content held) (\<lambda>w. True) (redis_view cc U rdata g)) E p x rp policy (fs[i := f1]) v"
    and f1: "\<not> cf_is_revalidation f1"
      "fsm_turn (over_backend (composition_get sched C) (composition_set sched C) E) f1 v = (Ready f' (res, ctx), w')"
    using serving_poll [OF assms(11) i(1) _ assms(15) [folded i(2)]] assms(14) i(2) by auto
  have "genuine E p x rp policy (cf_cache_key f1) (fst (res, ctx))"
    by (rule typed_cache.response_genuine [OF two_layers.layers_typed [OF tl] s, where f = f1])
      (use f1 i assms(13) two_layers.empty_agrees [OF tl] in \<open>auto simp: set_update_memI\<close>)
  then show ?thesis using ready_key [OF f1(2)] by simp
qed

lemma ready_over_backend: "ready_env E \<Longrightarrow> ready_env (over_backend kget kset E)"
  by (simp add: ready_env_def case_prod_beta)

lemma composition_set_ctx:
  "ctx_read_mode ctx \<noteq> Refill \<Longrightarrow> \<exists>r st'. composition_set sched C k v ctx st = ((r, ctx), st')"
  by (auto simp: composition_set_normal split: sum.split prod.split)

theorem responses_are_genuine_witness:
  "\<exists>f' w'. fsm_poll (over_backend (composition_get demo_sched (demo_tiers composition_policy_new))
        (composition_set demo_sched (demo_tiers composition_policy_new)) demo_env)
      (cache_future_new 4 async_neutral neutral demo_extractor policy_config_default) (demo_empty, demo_start)
      = (Ready f' (40, cache_context_default), w')
    \<and> genuine demo_env async_neutral demo_extractor neutral policy_config_default (cf_cache_key f') 40"
proof -
  let ?C = "demo_tiers composition_policy_new" and ?p = "neutral :: nat predicate" and ?q = "async_neutral :: nat async_predicate"
  let ?B = "over_backend (composition_get demo_sched ?C) (composition_set demo_sched ?C) demo_env"
  let ?f = "cache_future_new 4 ?q ?p demo_extractor policy_config_default :: (nat, nat, nat predicate, nat, nat) cache_future"
  have r: "ready_env ?B" by (rule ready_over_backend [OF ready_demo_env])
  obtain k where k: "into_cache_key (demo_extractor 4) = (4, k)"
    by (simp add: into_cache_key_eq demo_extractor_def)
  have q: "fe_req_policy demo_env (4, ?q, demo_extractor) demo_start = (Some (Cacheable (cacheable_policy_data_new k 4)), demo_start)"
    using k by (simp add: demo_env_def neutral_def async_neutral_def)
  have g: "composition_get demo_sched ?C k (boxed cache_context_default) demo_empty = ((Ok None, boxed cache_context_default), demo_empty)"
    by (simp add: composition_get_def demo_run demo_empty_def)
  have d: "fe_res_policy demo_env (res, ?p, cfg) w = (Some (Cacheable (stamp (dw_time w) (dw_time w) cfg res)), w)"
    "fe_from_cached demo_env c w = (Some c, w)" "cv_data (stamp 100 100 cfg res) = res" for res cfg w c
    by (simp_all add: demo_env_def neutral_def stamp_def cache_value_new_def)
  obtain cfg where c: "policy_config_default = Enabled cfg" "ec_concurrency cfg = None"
    by (simp add: policy_config_default_def enabled_cache_config_default_def)
  obtain o1 st' where u: "composition_set demo_sched ?C k (stamp 100 100 (policy_entity (Enabled cfg)) 40)
      (boxed cache_context_default) demo_empty = ((o1, boxed cache_context_default), st')"
    using composition_set_ctx [of "boxed cache_context_default"] by fastforce
  have "\<exists>w'. serve ?B policy_config_default ?p ?q demo_extractor 4 (demo_empty, demo_start) = ((40, boxed cache_context_default), w')"
    unfolding c(1) using q g u c(2) d
    by (simp add: serve_defs awaited_def cacheable_policy_data_new_def drop_permit_def)
  then obtain f' w' where poll: "fsm_poll ?B ?f (demo_empty, demo_start) = (Ready f' (40, cache_context_default), w')"
    using fsm_refines_serve [OF r, of 4 ?q ?p demo_extractor policy_config_default "(demo_empty, demo_start)"]
    by (auto simp: finish_response_def boxed_def cache_context_default_def)
  have empty: "empty_layers (moka_content rm_held) (redis_view unary_columns letter_encoding rr_data demo_redis_config) demo_empty"
    by (simp add: empty_layers_def demo_empty_def moka_content_def redis_view_def rr_data_def rr_live_def fun_eq_iff split: sum.splits)
  have keys: "\<forall>k r. asked demo_env ?q demo_extractor k r \<longrightarrow> key_ok (rg_key_format demo_redis_config) k"
    by (auto simp: asked_def demo_env_def neutral_def async_neutral_def demo_formats key_ok_def cacheable_policy_data_new_def into_cache_key_eq)
  have "genuine demo_env ?q demo_extractor ?p policy_config_default (cf_cache_key f') 40"
    by (rule responses_are_genuine [OF ref_moka.moka_laws_axioms demo_formats(1,2) ref_redis.redis_laws_axioms
          lawful_unary_columns letters.urlencoding_laws_axioms demo_formats(3,4) disjI1 [OF demo_formats(5)]
          demo_tiers_def serving_request [OF serving_start [where fresh = "empty_layers _ _", OF empty]] _ keys _ poll])
      (simp_all add: cache_future_new_def)
  then show ?thesis using poll by blast
qed

end
