(* ===== verification/Http_Body.thy ===== *)
theory Http_Body
  imports Core_Predicate "HOL-Library.Sublist"
begin

text \<open>
  HTTP bodies that have been looked at (hitbox-http/src/body.rs): the three states of a buffered
  body, how they are polled, how the whole body or its first bytes are collected.  The stream below
  is a parameter (\<open>body_ops\<close>, the \<open>HttpBody\<close> trait and its \<open>BodyExt\<close> methods) with the laws of
  the locale \<open>http_body\<close>; \<open>polls\<close> says which frames a body yields and how it ends.  An async loop
  over frames is a \<open>partial_function\<close>: \<open>None\<close> means that it never returns.
\<close>

section \<open>Streams of frames\<close>

datatype 'h http_frame = FData bytes | FTrailers 'h

datatype 'a poll = PPending | PReady 'a

record size_hint =
  sh_lower :: nat
  sh_upper :: "nat option"

record ('b, 'h, 'e) body_ops =
  bo_poll_frame :: "'b \<Rightarrow> ('e + 'h http_frame) option poll \<times> 'b"
  bo_frame :: "'b \<Rightarrow> ('e + 'h http_frame) option \<times> 'b"
  bo_collect :: "'b \<Rightarrow> 'e + bytes"
  bo_size_hint :: "'b \<Rightarrow> size_hint"
  bo_is_end_stream :: "'b \<Rightarrow> bool"

fun frame_data :: "'h http_frame \<Rightarrow> bytes" where
  "frame_data (FData d) = d"
| "frame_data (FTrailers h) = []"

definition body_bytes :: "'h http_frame list \<Rightarrow> bytes" where
  "body_bytes fs = concat (map frame_data fs)"

lemma body_bytes_simps [simp]:
  "body_bytes [] = []"
  "body_bytes (f # fs) = frame_data f @ body_bytes fs"
  "body_bytes (fs @ gs) = body_bytes fs @ body_bytes gs"
  by (simp_all add: body_bytes_def)

text \<open>Polled again and again, \<open>b\<close> yields the frames \<open>fs\<close> and then ends, with the error \<open>r\<close> if there is one.\<close>

inductive polls :: "('b \<Rightarrow> ('e + 'h http_frame) option poll \<times> 'b) \<Rightarrow> 'b \<Rightarrow> 'h http_frame list \<Rightarrow> 'e option \<Rightarrow> bool"
  for poll where
  polls_end: "poll b = (PReady None, b') \<Longrightarrow> polls poll b [] None"
| polls_error: "poll b = (PReady (Some (Inl e)), b') \<Longrightarrow> polls poll b [] (Some e)"
| polls_frame: "poll b = (PReady (Some (Inr f)), b') \<Longrightarrow> polls poll b' fs r \<Longrightarrow> polls poll b (f # fs) r"
| polls_pending: "poll b = (PPending, b') \<Longrightarrow> polls poll b' fs r \<Longrightarrow> polls poll b fs r"

inductive_cases polls_cases: "polls poll b fs r"

text \<open>What the code relies on: \<open>frame\<close> waits for the next frame, \<open>collect\<close> gives the data of all frames
  (dropping trailers) or the error, the size hint bounds the data to come, and a body that says it is
  at its end yields nothing more.\<close>

locale http_body =
  fixes B :: "('b, 'h, 'e) body_ops"
  assumes frame_pending: "bo_poll_frame B b = (PPending, b') \<Longrightarrow> bo_frame B b = bo_frame B b'"
    and frame_ready: "bo_poll_frame B b = (PReady x, b') \<Longrightarrow> bo_frame B b = (x, b')"
    and collect_end: "polls (bo_poll_frame B) b fs None \<Longrightarrow> bo_collect B b = Inr (body_bytes fs)"
    and collect_error: "polls (bo_poll_frame B) b fs (Some e) \<Longrightarrow> bo_collect B b = Inl e"
    and hint_lower: "polls (bo_poll_frame B) b fs None \<Longrightarrow> sh_lower (bo_size_hint B b) \<le> length (body_bytes fs)"
    and hint_upper: "polls (bo_poll_frame B) b fs None \<Longrightarrow> sh_upper (bo_size_hint B b) = Some u \<Longrightarrow> length (body_bytes fs) \<le> u"
    and end_stream: "bo_is_end_stream B b \<Longrightarrow> \<exists>b'. bo_poll_frame B b = (PReady None, b')"
begin

text \<open>The same frames, read with \<open>frame\<close>.\<close>

inductive framed :: "'b \<Rightarrow> 'h http_frame list \<Rightarrow> 'e option \<Rightarrow> bool" where
  framed_end: "bo_frame B b = (None, b') \<Longrightarrow> framed b [] None"
| framed_error: "bo_frame B b = (Some (Inl e), b') \<Longrightarrow> framed b [] (Some e)"
| framed_frame: "bo_frame B b = (Some (Inr f), b') \<Longrightarrow> polls (bo_poll_frame B) b' fs r \<Longrightarrow> framed b' fs r \<Longrightarrow> framed b (f # fs) r"

lemma polls_framed: "polls (bo_poll_frame B) b fs r \<Longrightarrow> framed b fs r"
proof (induction rule: polls.induct)
  case (polls_pending b b' fs r)
  note eq = frame_pending [OF polls_pending(1)]
  from polls_pending(3) show ?case
    by (cases rule: framed.cases) (auto simp: eq [symmetric] intro: framed.intros)
qed (auto dest: frame_ready intro: framed.intros)

end

section \<open>Buffered bodies\<close>

datatype ('b, 'e) remaining = RemBody 'b | RemError "'e option"

record ('b, 'e) partial_buffered_body =
  pb_prefix :: "bytes option"
  pb_remaining :: "('b, 'e) remaining"

definition partial_body_new :: "bytes option \<Rightarrow> ('b, 'e) remaining \<Rightarrow> ('b, 'e) partial_buffered_body" where
  "partial_body_new p r = \<lparr>pb_prefix = p, pb_remaining = r\<rparr>"

definition into_body_parts :: "('b, 'e) partial_buffered_body \<Rightarrow> bytes option \<times> ('b, 'e) remaining" where
  "into_body_parts p = (pb_prefix p, pb_remaining p)"

datatype ('b, 'e) buffered_body =
    Complete "bytes option"
  | Partial "('b, 'e) partial_buffered_body"
  | Passthrough 'b

definition partial_poll_frame ::
  "('b, 'h, 'e) body_ops \<Rightarrow> ('b, 'e) partial_buffered_body \<Rightarrow> ('e + 'h http_frame) option poll \<times> ('b, 'e) partial_buffered_body" where
  "partial_poll_frame B this =
     (case pb_prefix this of
        Some p \<Rightarrow> (PReady (Some (Inr (FData p))), this\<lparr>pb_prefix := None\<rparr>)
      | None \<Rightarrow>
          (case pb_remaining this of
             RemBody b \<Rightarrow> (case bo_poll_frame B b of (x, b') \<Rightarrow> (x, this\<lparr>pb_remaining := RemBody b'\<rparr>))
           | RemError (Some e) \<Rightarrow> (PReady (Some (Inl e)), this\<lparr>pb_remaining := RemError None\<rparr>)
           | RemError None \<Rightarrow> (PReady None, this)))"

definition u64_max :: nat where
  "u64_max = 2 ^ 64 - 1"

definition saturating_add :: "nat \<Rightarrow> nat \<Rightarrow> nat" where
  "saturating_add a b = min u64_max (a + b)"

definition exact_hint :: "nat \<Rightarrow> size_hint" where
  "exact_hint n = \<lparr>sh_lower = n, sh_upper = Some n\<rparr>"

definition prefix_len :: "bytes option \<Rightarrow> nat" where
  "prefix_len p = (case p of Some b \<Rightarrow> length b | None \<Rightarrow> 0)"

definition partial_size_hint :: "('b, 'h, 'e) body_ops \<Rightarrow> ('b, 'e) partial_buffered_body \<Rightarrow> size_hint" where
  "partial_size_hint B this =
     (let n = prefix_len (pb_prefix this) in
      case pb_remaining this of
        RemBody b \<Rightarrow>
          (let hint = bo_size_hint B b; lower = saturating_add (sh_lower hint) n in
           \<lparr>sh_lower = lower, sh_upper = map_option (\<lambda>u. max (saturating_add u n) lower) (sh_upper hint)\<rparr>)
      | RemError _ \<Rightarrow> exact_hint n)"

definition partial_is_end_stream :: "('b, 'h, 'e) body_ops \<Rightarrow> ('b, 'e) partial_buffered_body \<Rightarrow> bool" where
  "partial_is_end_stream B this =
     (if pb_prefix this \<noteq> None then False
      else case pb_remaining this of RemBody b \<Rightarrow> bo_is_end_stream B b | RemError e \<Rightarrow> (e = None))"

fun body_poll_frame ::
  "('b, 'h, 'e) body_ops \<Rightarrow> ('b, 'e) buffered_body \<Rightarrow> ('e + 'h http_frame) option poll \<times> ('b, 'e) buffered_body" where
  "body_poll_frame B (Complete (Some d)) = (PReady (Some (Inr (FData d))), Complete None)"
| "body_poll_frame B (Complete None) = (PReady None, Complete None)"
| "body_poll_frame B (Partial p) = (case partial_poll_frame B p of (x, p') \<Rightarrow> (x, Partial p'))"
| "body_poll_frame B (Passthrough b) = (case bo_poll_frame B b of (x, b') \<Rightarrow> (x, Passthrough b'))"

fun body_size_hint :: "('b, 'h, 'e) body_ops \<Rightarrow> ('b, 'e) buffered_body \<Rightarrow> size_hint" where
  "body_size_hint B (Complete (Some d)) = exact_hint (length d)"
| "body_size_hint B (Complete None) = exact_hint 0"
| "body_size_hint B (Partial p) = partial_size_hint B p"
| "body_size_hint B (Passthrough b) = bo_size_hint B b"

fun body_is_end_stream :: "('b, 'h, 'e) body_ops \<Rightarrow> ('b, 'e) buffered_body \<Rightarrow> bool" where
  "body_is_end_stream B (Complete d) = (d = None)"
| "body_is_end_stream B (Partial p) = partial_is_end_stream B p"
| "body_is_end_stream B (Passthrough b) = bo_is_end_stream B b"

section \<open>Collecting\<close>

fun body_collect :: "('b, 'h, 'e) body_ops \<Rightarrow> ('b, 'e) buffered_body \<Rightarrow> ('b, 'e) buffered_body + bytes" where
  "body_collect B (Complete (Some d)) = Ok d"
| "body_collect B (Complete None) = Ok []"
| "body_collect B (Passthrough b) =
     (case bo_collect B b of
        Inr d \<Rightarrow> Ok d
      | Inl e \<Rightarrow> Err (Partial (partial_body_new None (RemError (Some e)))))"
| "body_collect B (Partial part) =
     (case into_body_parts part of (p, remaining) \<Rightarrow>
        (case remaining of
           RemBody b \<Rightarrow>
             (case bo_collect B b of
                Inr d \<Rightarrow> (case p of Some q \<Rightarrow> Ok (q @ d) | None \<Rightarrow> Ok d)
              | Inl e \<Rightarrow> Err (Partial (partial_body_new p (RemError (Some e)))))
         | RemError e \<Rightarrow> Err (Partial (partial_body_new p (RemError e)))))"

datatype ('b, 'e) collect_exact_result =
    AtLeast bytes "('b, 'e) remaining option"
  | Incomplete "bytes option" "'e option"

fun into_buffered_body :: "('b, 'e) collect_exact_result \<Rightarrow> ('b, 'e) buffered_body" where
  "into_buffered_body (AtLeast d (Some rem)) = Partial (partial_body_new (Some d) rem)"
| "into_buffered_body (AtLeast d None) = Complete (Some d)"
| "into_buffered_body (Incomplete d (Some e)) = Partial (partial_body_new d (RemError (Some e)))"
| "into_buffered_body (Incomplete d None) = Complete d"

definition combine_bytes :: "bytes option \<Rightarrow> bytes \<Rightarrow> bytes" where
  "combine_bytes p d =
     (case p of Some q \<Rightarrow> (if d \<noteq> [] then q @ d else q) | None \<Rightarrow> d)"

definition some_unless_empty :: "bytes \<Rightarrow> bytes option" where
  "some_unless_empty buffer = (if buffer = [] then None else Some buffer)"

partial_function (option) collect_loop ::
  "('b, 'h, 'e) body_ops \<Rightarrow> nat \<Rightarrow> bytes \<Rightarrow> 'b \<Rightarrow> ('b, 'e) collect_exact_result option" where
  "collect_loop B limit buffer stream =
     (if length buffer < limit
      then (case bo_frame B stream of
              (Some (Inr frame), stream') \<Rightarrow>
                (case frame of
                   FData d \<Rightarrow> collect_loop B limit (buffer @ d) stream'
                 | FTrailers h \<Rightarrow> collect_loop B limit buffer stream')
            | (Some (Inl e), stream') \<Rightarrow> Some (Incomplete (some_unless_empty buffer) (Some e))
            | (None, stream') \<Rightarrow> Some (Incomplete (some_unless_empty buffer) None))
      else Some (AtLeast buffer (Some (RemBody stream))))"

definition collect_exact_from_stream ::
  "('b, 'h, 'e) body_ops \<Rightarrow> 'b \<Rightarrow> nat \<Rightarrow> ('b, 'e) collect_exact_result option" where
  "collect_exact_from_stream B stream limit = collect_loop B limit [] stream"

fun collect_exact :: "('b, 'h, 'e) body_ops \<Rightarrow> ('b, 'e) buffered_body \<Rightarrow> nat \<Rightarrow> ('b, 'e) collect_exact_result option" where
  "collect_exact B (Complete (Some d)) limit =
     Some (if limit \<le> length d then AtLeast d None else Incomplete (Some d) None)"
| "collect_exact B (Complete None) limit = Some (Incomplete None None)"
| "collect_exact B (Partial part) limit =
     (case into_body_parts part of (p, remaining) \<Rightarrow>
        if (case p of Some d \<Rightarrow> limit \<le> length d | None \<Rightarrow> False) then Some (AtLeast (the p) (Some remaining))
        else (case remaining of
                RemBody stream \<Rightarrow>
                  map_option (\<lambda>result. case result of
                      AtLeast d rem \<Rightarrow> AtLeast (combine_bytes p d) rem
                    | Incomplete d e \<Rightarrow>
                        Incomplete (case d of Some new \<Rightarrow> Some (combine_bytes p new) | None \<Rightarrow> p) e)
                    (collect_exact_from_stream B stream (limit - prefix_len p))
              | RemError e \<Rightarrow> Some (Incomplete p e)))"
| "collect_exact B (Passthrough stream) limit = collect_exact_from_stream B stream limit"

section \<open>What a buffered body yields\<close>

abbreviation (input) yields_body ::
  "('b, 'h, 'e) body_ops \<Rightarrow> ('b, 'e) buffered_body \<Rightarrow> 'h http_frame list \<Rightarrow> 'e option \<Rightarrow> bool" where
  "yields_body B \<equiv> polls (body_poll_frame B)"

lemma polls_end_iff:
  "poll b = (PReady None, b') \<Longrightarrow> polls poll b fs r \<longleftrightarrow> fs = [] \<and> r = None"
  by (auto elim: polls_cases intro: polls_end)

lemma polls_error_iff:
  "poll b = (PReady (Some (Inl e)), b') \<Longrightarrow> polls poll b fs r \<longleftrightarrow> fs = [] \<and> r = Some e"
  by (auto elim: polls_cases intro: polls_error)

lemma polls_frame_iff:
  "poll b = (PReady (Some (Inr f)), b') \<Longrightarrow> polls poll b fs r \<longleftrightarrow> (\<exists>gs. fs = f # gs \<and> polls poll b' gs r)"
  by (auto elim: polls_cases intro: polls_frame)

lemma polls_embed:
  assumes emb: "\<And>b. poll2 (emb b) = map_prod id emb (poll b)" and inj: "inj emb"
  shows "polls poll2 (emb b) fs r \<longleftrightarrow> polls poll b fs r"
proof
  show "polls poll2 (emb b) fs r" if "polls poll b fs r"
    using that by induction (auto simp: emb intro: polls.intros)
  show "polls poll b fs r" if "polls poll2 (emb b) fs r"
    using that
    by (induction "emb b" fs r arbitrary: b)
      (auto simp: emb map_prod_def split: prod.splits intro: polls.intros)
qed

lemma yields_complete [simp]:
  "yields_body B (Complete None) fs r \<longleftrightarrow> fs = [] \<and> r = None"
  "yields_body B (Complete (Some d)) fs r \<longleftrightarrow> fs = [FData d] \<and> r = None"
  by (simp_all add: polls_end_iff polls_frame_iff)

lemma yields_passthrough [simp]:
  "yields_body B (Passthrough b) fs r \<longleftrightarrow> polls (bo_poll_frame B) b fs r"
  by (rule polls_embed) (auto simp: inj_def split: prod.split)

lemma yields_partial_body:
  "yields_body B (Partial \<lparr>pb_prefix = None, pb_remaining = RemBody b\<rparr>) fs r \<longleftrightarrow> polls (bo_poll_frame B) b fs r"
  by (rule polls_embed [where emb = "\<lambda>b. Partial \<lparr>pb_prefix = None, pb_remaining = RemBody b\<rparr>"])
    (auto simp: inj_def partial_poll_frame_def split: prod.split)

lemma yields_partial_error:
  "yields_body B (Partial \<lparr>pb_prefix = None, pb_remaining = RemError e\<rparr>) fs r \<longleftrightarrow> fs = [] \<and> r = e"
  by (cases e) (simp_all add: polls_end_iff polls_error_iff partial_poll_frame_def)

fun yields_remaining :: "('b, 'h, 'e) body_ops \<Rightarrow> ('b, 'e) remaining \<Rightarrow> 'h http_frame list \<Rightarrow> 'e option \<Rightarrow> bool" where
  "yields_remaining B (RemBody b) fs r = polls (bo_poll_frame B) b fs r"
| "yields_remaining B (RemError e) fs r = (fs = [] \<and> r = e)"

definition prefix_frames :: "bytes option \<Rightarrow> 'h http_frame list" where
  "prefix_frames p = (case p of Some d \<Rightarrow> [FData d] | None \<Rightarrow> [])"

lemma prefix_frames_simps [simp]:
  "prefix_frames None = []" "prefix_frames (Some d) = [FData d]"
  by (simp_all add: prefix_frames_def)

lemma prefix_len_simps [simp]: "prefix_len None = 0" "prefix_len (Some d) = length d"
  by (simp_all add: prefix_len_def)

lemma yields_partial [simp]:
  "yields_body B (Partial \<lparr>pb_prefix = p, pb_remaining = rem\<rparr>) fs r \<longleftrightarrow>
     (\<exists>gs. fs = prefix_frames p @ gs \<and> yields_remaining B rem gs r)"
proof -
  have 0: "yields_body B (Partial \<lparr>pb_prefix = None, pb_remaining = rem\<rparr>) fs r \<longleftrightarrow> yields_remaining B rem fs r" for fs
    by (cases rem) (simp_all add: yields_partial_body yields_partial_error)
  show ?thesis
    by (cases p) (simp_all add: 0 polls_frame_iff partial_poll_frame_def)
qed

section \<open>Collecting loses nothing\<close>

definition opt_bytes :: "bytes option \<Rightarrow> bytes" where
  "opt_bytes p = (case p of Some b \<Rightarrow> b | None \<Rightarrow> [])"

lemma opt_bytes_simps [simp]: "opt_bytes None = []" "opt_bytes (Some d) = d"
  by (simp_all add: opt_bytes_def)

fun collected :: "('b, 'e) collect_exact_result \<Rightarrow> bytes" where
  "collected (AtLeast d rem) = d"
| "collected (Incomplete d e) = opt_bytes d"

text \<open>What a collection that asked for \<open>limit\<close> bytes leaves to be read, and how much it read.\<close>

fun collected_from ::
  "('b, 'h, 'e) body_ops \<Rightarrow> bytes \<Rightarrow> 'e option \<Rightarrow> nat \<Rightarrow> ('b, 'e) collect_exact_result \<Rightarrow> bool" where
  "collected_from B d r limit (AtLeast d' None) = (limit \<le> length d' \<and> d = d' \<and> r = None)"
| "collected_from B d r limit (AtLeast d' (Some rem)) =
     (limit \<le> length d' \<and> (\<exists>gs. yields_remaining B rem gs r \<and> d = d' @ body_bytes gs))"
| "collected_from B d r limit (Incomplete d' e) = (d = opt_bytes d' \<and> (0 < limit \<longrightarrow> length d < limit) \<and> e = r)"

lemma opt_bytes_some_unless_empty [simp]:
  "opt_bytes (some_unless_empty d) = d"
  by (simp add: some_unless_empty_def)

text \<open>The error of a partial body was already yielded; what was buffered of a body.\<close>

fun error_yielded :: "('b, 'e) buffered_body \<Rightarrow> bool" where
  "error_yielded (Partial p) = (pb_remaining p = RemError None)"
| "error_yielded _ = False"

fun buffered_prefix :: "('b, 'e) buffered_body \<Rightarrow> bytes option" where
  "buffered_prefix (Complete d) = d"
| "buffered_prefix (Partial p) = pb_prefix p"
| "buffered_prefix (Passthrough b) = None"

context http_body
begin

lemma collect_loop_spec:
  assumes "framed b fs r" and "polls (bo_poll_frame B) b fs r" and "length buffer < limit"
  shows "\<exists>res. collect_loop B limit buffer b = Some res \<and> collected_from B (buffer @ body_bytes fs) r limit res"
  using assms
proof (induction arbitrary: buffer rule: framed.induct)
  case (framed_end b b')
  then show ?case by (subst collect_loop.simps) simp
next
  case (framed_error b e b')
  then show ?case by (subst collect_loop.simps) simp
next
  case (framed_frame b f b' fs r)
  let ?buffer = "buffer @ frame_data f"
  have step: "collect_loop B limit buffer b = collect_loop B limit ?buffer b'"
    using framed_frame.hyps(1) framed_frame.prems(2)
    by (subst collect_loop.simps) (cases f, simp_all)
  show ?case
  proof (cases "length ?buffer < limit")
    case True
    from framed_frame.IH [OF framed_frame.hyps(2) this] show ?thesis by (simp add: step)
  next
    case False
    then have "collect_loop B limit ?buffer b' = Some (AtLeast ?buffer (Some (RemBody b')))"
      by (subst collect_loop.simps) simp
    moreover have "collected_from B (?buffer @ body_bytes fs) r limit (AtLeast ?buffer (Some (RemBody b')))"
      using False framed_frame.hyps(2) by auto
    ultimately show ?thesis by (simp add: step)
  qed
qed

lemma collect_stream_spec:
  assumes "polls (bo_poll_frame B) b fs r" "0 < limit"
  shows "\<exists>res. collect_exact_from_stream B b limit = Some res \<and> collected_from B (body_bytes fs) r limit res"
  using collect_loop_spec [OF polls_framed [OF assms(1)] assms(1), of "[]" limit] assms(2)
  by (simp add: collect_exact_from_stream_def)

lemma collect_exact_spec:
  assumes y: "yields_body B body fs r" and n: "0 < limit"
  shows "\<exists>res. collect_exact B body limit = Some res \<and> collected_from B (body_bytes fs) r limit res"
proof (cases body)
  case (Complete d)
  with y n show ?thesis by (cases d) auto
next
  case (Passthrough b)
  with collect_stream_spec [of b fs r limit] y n show ?thesis by simp
next
  case (Partial part)
  obtain p rem where part: "part = \<lparr>pb_prefix = p, pb_remaining = rem\<rparr>" by (cases part) auto
  from y obtain gs where fs: "fs = prefix_frames p @ gs" and gs: "yields_remaining B rem gs r"
    by (auto simp: Partial part)
  have data: "body_bytes fs = opt_bytes p @ body_bytes gs"
    by (cases p) (simp_all add: fs)
  show ?thesis
  proof (cases "\<exists>d. p = Some d \<and> limit \<le> length d")
    case True
    with gs show ?thesis by (auto simp: Partial part into_body_parts_def data)
  next
    case False
    then have c: "(case p of Some d \<Rightarrow> limit \<le> length d | None \<Rightarrow> False) = False"
      and less: "prefix_len p < limit" using n by (cases p; auto)+
    show ?thesis
    proof (cases rem)
      case (RemError e)
      with gs less show ?thesis
        by (cases p) (auto simp: Partial part into_body_parts_def data)
    next
      case (RemBody b)
      have "polls (bo_poll_frame B) b gs r" using gs by (simp add: RemBody)
      from collect_stream_spec [OF this, of "limit - prefix_len p"] less
      obtain res where res: "collect_exact_from_stream B b (limit - prefix_len p) = Some res"
        "collected_from B (body_bytes gs) r (limit - prefix_len p) res" by auto
      show ?thesis
      proof (cases res)
        case (AtLeast d' rem')
        with res less show ?thesis
          by (cases p; cases rem') (auto simp: Partial part RemBody c into_body_parts_def data combine_bytes_def)
      next
        case (Incomplete d' e')
        with res less show ?thesis
          by (cases p; cases d') (auto simp: Partial part RemBody c into_body_parts_def data combine_bytes_def)
      qed
    qed
  qed
qed

lemma into_buffered_yields:
  assumes "collected_from B d r limit res"
  shows "\<exists>gs. yields_body B (into_buffered_body res) gs r \<and> body_bytes gs = d"
proof (cases res)
  case (AtLeast d' rem)
  with assms show ?thesis by (cases rem) (auto simp: partial_body_new_def)
next
  case (Incomplete d' e)
  with assms show ?thesis by (cases d'; cases e) (auto simp: partial_body_new_def)
qed

lemma body_collect_end:
  assumes "yields_body B body fs None" and "\<not> error_yielded body"
  shows "body_collect B body = Inr (body_bytes fs)"
proof (cases body)
  case (Complete d)
  with assms show ?thesis by (cases d) auto
next
  case (Passthrough b)
  with assms show ?thesis by (simp add: collect_end)
next
  case (Partial part)
  obtain p rem where part: "part = \<lparr>pb_prefix = p, pb_remaining = rem\<rparr>" by (cases part) auto
  from assms(1) obtain gs where gs: "fs = prefix_frames p @ gs" "yields_remaining B rem gs None"
    by (auto simp: Partial part)
  from assms(2) gs obtain b where "rem = RemBody b" by (cases rem) (auto simp: Partial part)
  with gs show ?thesis by (cases p) (auto simp: Partial part into_body_parts_def collect_end)
qed

lemma body_collect_error:
  assumes "yields_body B body fs (Some e)"
  shows "\<exists>body'. body_collect B body = Inl body' \<and>
    yields_body B body' (prefix_frames (buffered_prefix body)) (Some e)"
proof (cases body)
  case (Complete d)
  with assms show ?thesis by (cases d) auto
next
  case (Passthrough b)
  with assms show ?thesis by (simp add: collect_error partial_body_new_def)
next
  case (Partial part)
  obtain p rem where part: "part = \<lparr>pb_prefix = p, pb_remaining = rem\<rparr>" by (cases part) auto
  from assms obtain gs where gs: "fs = prefix_frames p @ gs" "yields_remaining B rem gs (Some e)"
    by (auto simp: Partial part)
  then show ?thesis
    by (cases rem) (auto simp: Partial part into_body_parts_def collect_error partial_body_new_def)
qed

lemma size_hint_bounds:
  assumes y: "yields_body B body fs None" and small: "length (body_bytes fs) \<le> u64_max"
  shows "sh_lower (body_size_hint B body) \<le> length (body_bytes fs)"
    and "sh_upper (body_size_hint B body) = Some u \<Longrightarrow> length (body_bytes fs) \<le> u"
proof -
  have "sh_lower (body_size_hint B body) \<le> length (body_bytes fs) \<and>
    (sh_upper (body_size_hint B body) = Some u \<longrightarrow> length (body_bytes fs) \<le> u)"
  proof (cases body)
    case (Complete d)
    with y show ?thesis by (cases d) (auto simp: exact_hint_def)
  next
    case (Passthrough b)
    with y show ?thesis by (auto dest: hint_lower hint_upper)
  next
    case (Partial part)
    obtain p rem where part: "part = \<lparr>pb_prefix = p, pb_remaining = rem\<rparr>" by (cases part) auto
    from y obtain gs where gs: "fs = prefix_frames p @ gs" "yields_remaining B rem gs None"
      by (auto simp: Partial part)
    then have len: "length (body_bytes fs) = prefix_len p + length (body_bytes gs)" by (cases p) auto
    show ?thesis
    proof (cases rem)
      case (RemError e)
      with gs len show ?thesis by (auto simp: Partial part partial_size_hint_def exact_hint_def Let_def)
    next
      case (RemBody b)
      with gs have b: "polls (bo_poll_frame B) b gs None" by simp
      note hint_lower [OF b] hint_upper [OF b]
      then show ?thesis using small len
        by (auto simp: Partial part RemBody partial_size_hint_def saturating_add_def max_def min_def Let_def)
    qed
  qed
  then show "sh_lower (body_size_hint B body) \<le> length (body_bytes fs)"
    and "sh_upper (body_size_hint B body) = Some u \<Longrightarrow> length (body_bytes fs) \<le> u" by auto
qed

lemma is_end_stream_sound:
  assumes "body_is_end_stream B body" "yields_body B body fs r"
  shows "fs = [] \<and> r = None"
proof (cases body)
  case (Complete d)
  with assms show ?thesis by auto
next
  case (Passthrough b)
  with assms end_stream [of b] show ?thesis by (auto simp: polls_end_iff)
next
  case (Partial part)
  obtain p rem where part: "part = \<lparr>pb_prefix = p, pb_remaining = rem\<rparr>" by (cases part) auto
  show ?thesis
  proof (cases rem)
    case (RemError e)
    with assms show ?thesis by (cases p) (auto simp: Partial part partial_is_end_stream_def)
  next
    case (RemBody b)
    with assms end_stream [of b] show ?thesis
      by (auto simp: Partial part partial_is_end_stream_def polls_end_iff split: if_splits)
  qed
qed

end

section \<open>A body given as the list of what its polls return\<close>

fun scripted_poll ::
  "('e + 'h http_frame) poll list \<Rightarrow> ('e + 'h http_frame) option poll \<times> ('e + 'h http_frame) poll list" where
  "scripted_poll [] = (PReady None, [])"
| "scripted_poll (PPending # xs) = (PPending, xs)"
| "scripted_poll (PReady x # xs) = (PReady (Some x), xs)"

fun scripted_frame ::
  "('e + 'h http_frame) poll list \<Rightarrow> ('e + 'h http_frame) option \<times> ('e + 'h http_frame) poll list" where
  "scripted_frame [] = (None, [])"
| "scripted_frame (PPending # xs) = scripted_frame xs"
| "scripted_frame (PReady x # xs) = (Some x, xs)"

fun scripted_collect :: "('e + 'h http_frame) poll list \<Rightarrow> 'e + bytes" where
  "scripted_collect [] = Inr []"
| "scripted_collect (PPending # xs) = scripted_collect xs"
| "scripted_collect (PReady (Inl e) # xs) = Inl e"
| "scripted_collect (PReady (Inr f) # xs) = rmap (\<lambda>d. frame_data f @ d) (scripted_collect xs)"

fun frame_size :: "('e + 'h http_frame) poll \<Rightarrow> nat" where
  "frame_size (PReady (Inr f)) = length (frame_data f)"
| "frame_size _ = 0"

definition scripted_body :: "(('e + 'h http_frame) poll list, 'h, 'e) body_ops" where
  "scripted_body = \<lparr>bo_poll_frame = scripted_poll, bo_frame = scripted_frame, bo_collect = scripted_collect,
     bo_size_hint = (\<lambda>xs. \<lparr>sh_lower = 0, sh_upper = Some (sum_list (map frame_size xs))\<rparr>),
     bo_is_end_stream = (\<lambda>xs. xs = [])\<rparr>"

lemma scripted_body_sel [simp]:
  "bo_poll_frame scripted_body = scripted_poll"
  "bo_frame scripted_body = scripted_frame"
  "bo_collect scripted_body = scripted_collect"
  "bo_size_hint scripted_body xs = \<lparr>sh_lower = 0, sh_upper = Some (sum_list (map frame_size xs))\<rparr>"
  "bo_is_end_stream scripted_body xs \<longleftrightarrow> xs = []"
  by (simp_all add: scripted_body_def)

lemma polls_scripted [simp]:
  "polls scripted_poll [] fs r \<longleftrightarrow> fs = [] \<and> r = None"
  "polls scripted_poll (PPending # xs) fs r \<longleftrightarrow> polls scripted_poll xs fs r"
  "polls scripted_poll (PReady (Inl e) # xs) fs r \<longleftrightarrow> fs = [] \<and> r = Some e"
  "polls scripted_poll (PReady (Inr f) # xs) fs r \<longleftrightarrow> (\<exists>gs. fs = f # gs \<and> polls scripted_poll xs gs r)"
  by (auto simp: polls_end_iff polls_error_iff polls_frame_iff elim: polls_cases intro: polls_pending)

interpretation scripted: http_body scripted_body
proof
  show "bo_frame scripted_body b = bo_frame scripted_body b'"
    if "bo_poll_frame scripted_body b = (PPending, b')" for b b' :: "('e + 'h http_frame) poll list"
    using that by (cases b rule: scripted_poll.cases) auto
  show "bo_frame scripted_body b = (x, b')"
    if "bo_poll_frame scripted_body b = (PReady x, b')" for b b' :: "('e + 'h http_frame) poll list" and x
    using that by (cases b rule: scripted_poll.cases) auto
  have c: "scripted_collect b = (case r of None \<Rightarrow> Inr (body_bytes fs) | Some e \<Rightarrow> Inl e) \<and>
      (r = None \<longrightarrow> length (body_bytes fs) \<le> sum_list (map frame_size b))"
    if "polls scripted_poll b fs r" for b :: "('e + 'h http_frame) poll list" and fs r
    using that
  proof (induction b arbitrary: fs)
    case (Cons x b)
    show ?case
    proof (cases x)
      case PPending
      with Cons.prems Cons.IH [of fs] show ?thesis by simp
    next
      case (PReady y)
      show ?thesis
      proof (cases y)
        case (Inl e)
        with PReady Cons.prems show ?thesis by simp
      next
        case (Inr f)
        with PReady Cons.prems obtain gs where "fs = f # gs" "polls scripted_poll b gs r" by auto
        with PReady Inr Cons.IH [of gs] show ?thesis by (simp split: option.splits)
      qed
    qed
  qed simp
  show "bo_collect scripted_body b = Inr (body_bytes fs)"
    if "polls (bo_poll_frame scripted_body) b fs None" for b :: "('e + 'h http_frame) poll list" and fs
    using c [of b fs None] that by simp
  show "bo_collect scripted_body b = Inl e"
    if "polls (bo_poll_frame scripted_body) b fs (Some e)" for b :: "('e + 'h http_frame) poll list" and fs e
    using c [of b fs "Some e"] that by simp
  show "length (body_bytes fs) \<le> u"
    if "polls (bo_poll_frame scripted_body) b fs None" "sh_upper (bo_size_hint scripted_body b) = Some u"
    for b :: "('e + 'h http_frame) poll list" and fs u
    using c [of b fs None] that by auto
  show "\<exists>b'. bo_poll_frame scripted_body b = (PReady None, b')"
    if "bo_is_end_stream scripted_body b" for b :: "('e + 'h http_frame) poll list"
    using that by simp
qed simp

section \<open>Properties\<close>

text \<open>C26. A body that ends, cleanly or with an error, is collected up to a limit (of at least one byte) in finite time: at
  least the limit is buffered, or the body ended before it and the error it ended with is reported;
  and the body put together from the result yields the same bytes and ends the same way.\<close>

theorem collect_exact_returns:
  assumes "http_body B" and "polls (body_poll_frame B) body fs r" and "0 < limit"
  shows "\<exists>res gs. collect_exact B body limit = Some res \<and>
    (case res of AtLeast d rem \<Rightarrow> limit \<le> length d
     | Incomplete d e \<Rightarrow> length (body_bytes fs) < limit \<and> e = r) \<and>
    Sublist.prefix (collected res) (body_bytes fs) \<and>
    polls (body_poll_frame B) (into_buffered_body res) gs r \<and> body_bytes gs = body_bytes fs"
proof -
  from http_body.collect_exact_spec [OF assms] obtain res
    where res: "collect_exact B body limit = Some res" "collected_from B (body_bytes fs) r limit res" by auto
  from http_body.into_buffered_yields [OF assms(1) res(2)] obtain gs
    where "polls (body_poll_frame B) (into_buffered_body res) gs r" "body_bytes gs = body_bytes fs" by auto
  moreover have "Sublist.prefix (collected res) (body_bytes fs)"
    using res(2) by (cases "(B, body_bytes fs, r, limit, res)" rule: collected_from.cases) auto
  moreover have "case res of AtLeast d rem \<Rightarrow> limit \<le> length d
      | Incomplete d e \<Rightarrow> length (body_bytes fs) < limit \<and> e = r"
    using res(2) assms(3) by (cases "(B, body_bytes fs, r, limit, res)" rule: collected_from.cases) auto
  ultimately show ?thesis using res(1) by blast
qed

definition demo_stream :: "(nat + unit http_frame) poll list" where
  "demo_stream = [PReady (Inr (FData [1, 2])), PPending, PReady (Inr (FData [3])), PReady (Inr (FTrailers ())), PReady (Inl 7)]"

lemma demo_stream_polls:
  "polls (body_poll_frame scripted_body) (Passthrough demo_stream) [FData [1, 2], FData [3], FTrailers ()] (Some 7)"
  by (simp add: demo_stream_def)

lemma collect_exact_returns_witness:
  "\<exists>res gs. collect_exact scripted_body (Passthrough demo_stream) 2 = Some res \<and>
    polls (body_poll_frame scripted_body) (into_buffered_body res) gs (Some 7) \<and> body_bytes gs = [1, 2, 3]"
proof -
  have l: "(0::nat) < 2" by simp
  show ?thesis using collect_exact_returns [OF scripted.http_body_axioms demo_stream_polls l] by auto
qed

text \<open>The size hint of a buffered body bounds the bytes it will yield (for bodies whose length a
  64-bit integer can hold), in every one of its states, and a body that says it is at its end yields
  nothing.\<close>

lemma body_hints_are_sound:
  assumes "http_body B" and "polls (body_poll_frame B) body fs None" and "length (body_bytes fs) \<le> u64_max"
  shows "sh_lower (body_size_hint B body) \<le> length (body_bytes fs) \<and>
    (case sh_upper (body_size_hint B body) of Some u \<Rightarrow> length (body_bytes fs) \<le> u | None \<Rightarrow> True) \<and>
    (body_is_end_stream B body \<longrightarrow> fs = [])"
  using http_body.size_hint_bounds [OF assms] http_body.is_end_stream_sound [OF assms(1) _ assms(2)]
  by (auto split: option.split)

lemma body_hints_are_sound_witness:
  "sh_lower (body_size_hint scripted_body (Partial \<lparr>pb_prefix = Some [9], pb_remaining = RemBody (take 3 demo_stream)\<rparr>)) \<le> 4 \<and>
   sh_upper (body_size_hint scripted_body (Partial \<lparr>pb_prefix = Some [9], pb_remaining = RemBody (take 3 demo_stream)\<rparr>)) = Some 4"
proof -
  let ?body = "Partial \<lparr>pb_prefix = Some [9], pb_remaining = RemBody (take 3 demo_stream)\<rparr>"
  have y: "polls (body_poll_frame scripted_body) ?body [FData [9], FData [1, 2], FData [3]] None"
    by (simp add: demo_stream_def numeral_3_eq_3)
  have "length (body_bytes [FData [9], FData [1, 2], FData [3] :: unit http_frame]) \<le> u64_max"
    by (simp add: u64_max_def)
  from body_hints_are_sound [OF scripted.http_body_axioms y this] show ?thesis
    by (simp add: demo_stream_def numeral_3_eq_3 partial_size_hint_def saturating_add_def u64_max_def)
qed

end
