(* ===== verification/Http_Body_Predicate.thy ===== *)
theory Http_Body_Predicate
  imports Http_Body
begin

text \<open>
  Predicates on HTTP bodies (hitbox-http/src/predicates/body): the streaming search for a pattern,
  the plain, size and jq operations, and the predicate that runs one of them on the body of a
  message.  A check is async: \<open>None\<close> means that it never returns.  Regular expressions are the
  function \<open>is_match\<close> computes; JSON and the jq filters are parameters (\<open>jq_lib\<close>).
\<close>

section \<open>Streaming search\<close>

text \<open>\<open>slice::windows\<close>, for a size that is not zero.\<close>

definition windows :: "nat \<Rightarrow> bytes \<Rightarrow> bytes list" where
  "windows n xs = map (\<lambda>i. take n (drop i xs)) [0..<Suc (length xs) - n]"

definition has_window :: "bytes \<Rightarrow> bytes \<Rightarrow> bool" where
  "has_window pattern xs = list_ex (\<lambda>w. w = pattern) (windows (length pattern) xs)"

definition opt_has_window :: "bytes \<Rightarrow> bytes option \<Rightarrow> bool" where
  "opt_has_window pattern p = (case p of Some b \<Rightarrow> has_window pattern b | None \<Rightarrow> False)"

partial_function (option) search_loop ::
  "('b, 'h, 'e) body_ops \<Rightarrow> bytes \<Rightarrow> bytes \<Rightarrow> 'b \<Rightarrow> (bool \<times> ('b, 'e) buffered_body) option" where
  "search_loop B pattern buffer body =
     (case bo_frame B body of
        (Some (Inr frame), body') \<Rightarrow>
          (case frame of
             FData d \<Rightarrow>
               (let search_start = length buffer - (length pattern - 1); buffer' = buffer @ d in
                if has_window pattern (drop search_start buffer') then Some (True, Complete (Some buffer'))
                else search_loop B pattern buffer' body')
           | FTrailers h \<Rightarrow> search_loop B pattern buffer body')
      | (Some (Inl e), body') \<Rightarrow>
          (let buffered = some_unless_empty buffer in
           Some (opt_has_window pattern buffered, Partial (partial_body_new buffered (RemError (Some e)))))
      | (None, body') \<Rightarrow>
          (let combined = some_unless_empty buffer in
           Some (opt_has_window pattern combined, Complete combined)))"

definition streaming_search_body ::
  "('b, 'h, 'e) body_ops \<Rightarrow> bytes option \<Rightarrow> 'b \<Rightarrow> bytes \<Rightarrow> (bool \<times> ('b, 'e) buffered_body) option" where
  "streaming_search_body B initial body pattern =
     search_loop B pattern (case initial of Some p \<Rightarrow> p | None \<Rightarrow> []) body"

fun streaming_search ::
  "('b, 'h, 'e) body_ops \<Rightarrow> ('b, 'e) buffered_body \<Rightarrow> bytes \<Rightarrow> (bool \<times> ('b, 'e) buffered_body) option" where
  "streaming_search B body pattern =
     (if pattern = [] then Some (True, body)
      else (case body of
              Complete (Some d) \<Rightarrow> Some (has_window pattern d, Complete (Some d))
            | Complete None \<Rightarrow> Some (False, Complete None)
            | Partial part \<Rightarrow>
                (case into_body_parts part of (p, remaining) \<Rightarrow>
                   (case remaining of
                      RemBody b \<Rightarrow> streaming_search_body B p b pattern
                    | RemError e \<Rightarrow> Some (opt_has_window pattern p, Partial (partial_body_new p (RemError e)))))
            | Passthrough b \<Rightarrow> streaming_search_body B None b pattern))"

section \<open>Operations\<close>

definition verdict :: "bool \<Rightarrow> 's \<Rightarrow> 's predicate_result" where
  "verdict c s = (if c then PCacheable s else PNonCacheable s)"

lemma verdict_simps [simp]: "pr_cacheable (verdict c s) = c" "pr_subject (verdict c s) = s"
  by (simp_all add: verdict_def)

datatype plain_operation =
    PlainEq bytes
  | PlainContains bytes
  | PlainStarts bytes
  | PlainEnds bytes
  | PlainRegExp "bytes \<Rightarrow> bool"

text \<open>The operations that read the whole body (\<open>collect().await.map(..).unwrap_or_else(NonCacheable)\<close>).\<close>

definition check_collected ::
  "('b, 'h, 'e) body_ops \<Rightarrow> (bytes \<Rightarrow> bool) \<Rightarrow> ('b, 'e) buffered_body \<Rightarrow> ('b, 'e) buffered_body predicate_result" where
  "check_collected B matches body =
     (case body_collect B body of
        Inr payload \<Rightarrow> verdict (matches payload) (Complete (Some payload))
      | Inl error_body \<Rightarrow> PNonCacheable error_body)"

fun plain_check ::
  "('b, 'h, 'e) body_ops \<Rightarrow> plain_operation \<Rightarrow> ('b, 'e) buffered_body \<Rightarrow> ('b, 'e) buffered_body predicate_result option" where
  "plain_check B (PlainStarts pattern) body =
     (if pattern = [] then Some (PCacheable body)
      else map_option (\<lambda>result.
             let matches = (case result of AtLeast buffered rem \<Rightarrow> Sublist.prefix pattern buffered
                            | Incomplete d e \<Rightarrow> False);
                 result_body = into_buffered_body result
             in verdict matches result_body)
           (collect_exact B body (length pattern)))"
| "plain_check B (PlainEq expected) body = Some (check_collected B (\<lambda>d. d = expected) body)"
| "plain_check B (PlainContains pattern) body =
     map_option (\<lambda>(found, result_body). verdict found result_body) (streaming_search B body pattern)"
| "plain_check B (PlainEnds sfx) body = Some (check_collected B (Sublist.suffix sfx) body)"
| "plain_check B (PlainRegExp is_match) body = Some (check_collected B is_match body)"

record ('f, 'j, 'v, 'x) jq_lib =
  jl_from_slice :: "bytes \<Rightarrow> 'j option"
  jl_run :: "'f \<Rightarrow> 'v \<Rightarrow> ('x + 'v) list"
  jl_val :: "'j \<Rightarrow> 'v"
  jl_value :: "'v \<Rightarrow> 'j"
  jl_null :: 'v
  jl_array :: "'j list \<Rightarrow> 'j"

text \<open>\<open>Iterator::collect\<close> into a \<open>Result\<close>: the first error wins.\<close>

fun collect_results :: "('x + 'v) list \<Rightarrow> 'x + 'v list" where
  "collect_results [] = Inr []"
| "collect_results (Inl x # rs) = Inl x"
| "collect_results (Inr v # rs) = rmap ((#) v) (collect_results rs)"

definition jq_apply :: "('f, 'j, 'v, 'x) jq_lib \<Rightarrow> 'f \<Rightarrow> 'j \<Rightarrow> 'j option" where
  "jq_apply J filt input =
     (case collect_results (jl_run J filt (jl_val J input)) of
        Inr values \<Rightarrow>
          if values = [jl_null J] then None
          else if values \<noteq> [] then
            (let out = map (jl_value J) values in
             if length out = 1 then Some (last out) else Some (jl_array J out))
          else None
      | Inl x \<Rightarrow> None)"

datatype 'j jq_operation = JqEq 'j | JqExist | JqIn "'j list"

fun jq_matches :: "'j jq_operation \<Rightarrow> 'j option \<Rightarrow> bool" where
  "jq_matches (JqEq expected) found = (case found of Some v \<Rightarrow> v = expected | None \<Rightarrow> False)"
| "jq_matches JqExist found = (found \<noteq> None)"
| "jq_matches (JqIn values) found = (case found of Some v \<Rightarrow> v \<in> set values | None \<Rightarrow> False)"

definition jq_check ::
  "('b, 'h, 'e) body_ops \<Rightarrow> ('f, 'j, 'v, 'x) jq_lib \<Rightarrow> 'j jq_operation \<Rightarrow> 'f \<Rightarrow> ('b, 'e) buffered_body
     \<Rightarrow> ('b, 'e) buffered_body predicate_result" where
  "jq_check B J operation filt body =
     (case body_collect B body of
        Inl error_body \<Rightarrow> PNonCacheable error_body
      | Inr payload \<Rightarrow>
          (case jl_from_slice J payload of
             None \<Rightarrow> PNonCacheable (Complete (Some payload))
           | Some json \<Rightarrow>
               (let found_value = jq_apply J filt json in
                verdict (jq_matches operation found_value) (Complete (Some payload)))))"

datatype ('f, 'j) body_operation =
    Limit nat
  | Plain plain_operation
  | Jq 'f "'j jq_operation"

text \<open>\<open>*bytes + 1\<close> on \<open>usize\<close>: it wraps in a release build.\<close>

definition usize_succ :: "nat \<Rightarrow> nat" where
  "usize_succ n = (n + 1) mod 2 ^ 64"

fun body_operation_check ::
  "('b, 'h, 'e) body_ops \<Rightarrow> ('f, 'j, 'v, 'x) jq_lib \<Rightarrow> ('f, 'j) body_operation \<Rightarrow> ('b, 'e) buffered_body
     \<Rightarrow> ('b, 'e) buffered_body predicate_result option" where
  "body_operation_check B J (Limit n) body =
     (if (case sh_upper (body_size_hint B body) of Some upper \<Rightarrow> n < upper | None \<Rightarrow> False)
      then Some (PNonCacheable body)
      else map_option (\<lambda>result.
             case result of
               AtLeast d rem \<Rightarrow> PNonCacheable (into_buffered_body result)
             | Incomplete d e \<Rightarrow>
                 if e \<noteq> None then PNonCacheable (into_buffered_body result)
                 else PCacheable (into_buffered_body result))
           (collect_exact B body (usize_succ n)))"
| "body_operation_check B J (Plain op) body = plain_check B op body"
| "body_operation_check B J (Jq filt op) body = Some (jq_check B J op filt body)"

section \<open>The body predicate\<close>

record ('s, 'f, 'j) body_predicate =
  bp_operation :: "('f, 'j) body_operation"
  bp_inner :: "'s \<Rightarrow> 's predicate_result option"

definition body_predicate_new :: "('f, 'j) body_operation \<Rightarrow> ('s, 'f, 'j) body_predicate" where
  "body_predicate_new operation = \<lparr>bp_operation = operation, bp_inner = (\<lambda>s. Some (neutral s))\<rparr>"

definition body_predicate_on ::
  "('s \<Rightarrow> 's predicate_result option) \<Rightarrow> ('f, 'j) body_operation \<Rightarrow> ('s, 'f, 'j) body_predicate" where
  "body_predicate_on self operation = \<lparr>bp_operation = operation, bp_inner = self\<rparr>"

text \<open>A cacheable subject: its head and its body (\<open>CacheableSubject::into_parts\<close>, \<open>from_parts\<close>).\<close>

record ('p, 'b, 'e) http_message =
  hm_parts :: 'p
  hm_body :: "('b, 'e) buffered_body"

definition message_into_parts :: "('p, 'b, 'e) http_message \<Rightarrow> 'p \<times> ('b, 'e) buffered_body" where
  "message_into_parts m = (hm_parts m, hm_body m)"

definition message_from_parts :: "'p \<Rightarrow> ('b, 'e) buffered_body \<Rightarrow> ('p, 'b, 'e) http_message" where
  "message_from_parts p b = \<lparr>hm_parts = p, hm_body = b\<rparr>"

definition body_predicate_check ::
  "('b, 'h, 'e) body_ops \<Rightarrow> ('f, 'j, 'v, 'x) jq_lib \<Rightarrow> (('p, 'b, 'e) http_message, 'f, 'j) body_predicate
     \<Rightarrow> ('p, 'b, 'e) http_message \<Rightarrow> ('p, 'b, 'e) http_message predicate_result option" where
  "body_predicate_check B J self subject =
     Option.bind (bp_inner self subject) (\<lambda>inner_result.
       let (was_cacheable, subject) =
             (case inner_result of PCacheable s \<Rightarrow> (True, s) | PNonCacheable s \<Rightarrow> (False, s));
           (parts, body) = message_into_parts subject
       in map_option (\<lambda>body_result.
            case body_result of
              PCacheable buffered_body \<Rightarrow>
                (let subject = message_from_parts parts buffered_body in
                 if was_cacheable then PCacheable subject else PNonCacheable subject)
            | PNonCacheable buffered_body \<Rightarrow> PNonCacheable (message_from_parts parts buffered_body))
          (body_operation_check B J (bp_operation self) body))"

section \<open>What the operations decide\<close>

lemma has_window_sublist:
  assumes "pattern \<noteq> []"
  shows "has_window pattern xs \<longleftrightarrow> sublist pattern xs"
proof
  assume "has_window pattern xs"
  then obtain i where "take (length pattern) (drop i xs) = pattern"
    by (auto simp: has_window_def windows_def list_ex_iff) metis
  then have "xs = take i xs @ pattern @ drop (length pattern) (drop i xs)"
    by (metis append_take_drop_id)
  then show "sublist pattern xs" unfolding sublist_def by blast
next
  assume "sublist pattern xs"
  then obtain ps ss where xs: "xs = ps @ pattern @ ss" by (auto simp: sublist_def)
  then have "take (length pattern) (drop (length ps) xs) = pattern"
    and "length ps \<in> set [0..<Suc (length xs) - length pattern]" by auto
  then show "has_window pattern xs"
    unfolding has_window_def windows_def list_ex_iff set_map by blast
qed

lemma opt_has_window_sublist:
  "pattern \<noteq> [] \<Longrightarrow> opt_has_window pattern p \<longleftrightarrow> sublist pattern (opt_bytes p)"
  by (cases p) (simp_all add: opt_has_window_def has_window_sublist)

text \<open>What an operation accepts, on all the bytes of the body and the error it ends with.\<close>

fun plain_accepts :: "plain_operation \<Rightarrow> bytes \<Rightarrow> 'e option \<Rightarrow> bool" where
  "plain_accepts (PlainEq expected) d r = (d = expected \<and> r = None)"
| "plain_accepts (PlainContains pattern) d r = sublist pattern d"
| "plain_accepts (PlainStarts pattern) d r = Sublist.prefix pattern d"
| "plain_accepts (PlainEnds sfx) d r = (Sublist.suffix sfx d \<and> r = None)"
| "plain_accepts (PlainRegExp is_match) d r = (is_match d \<and> r = None)"

fun operation_accepts :: "('f, 'j, 'v, 'x) jq_lib \<Rightarrow> ('f, 'j) body_operation \<Rightarrow> bytes \<Rightarrow> 'e option \<Rightarrow> bool" where
  "operation_accepts J (Limit n) d r = (length d \<le> n \<and> r = None)"
| "operation_accepts J (Plain op) d r = plain_accepts op d r"
| "operation_accepts J (Jq filt op) d r =
     (r = None \<and> (case jl_from_slice J d of None \<Rightarrow> False | Some json \<Rightarrow> jq_matches op (jq_apply J filt json)))"

text \<open>The limit operation trusts an upper bound of the size hint, and adds one to its limit.\<close>

fun hint_within :: "('b, 'h, 'e) body_ops \<Rightarrow> ('f, 'j) body_operation \<Rightarrow> ('b, 'e) buffered_body \<Rightarrow> bool" where
  "hint_within B (Limit n) body = (case sh_upper (body_size_hint B body) of Some u \<Rightarrow> u \<le> n | None \<Rightarrow> True)"
| "hint_within B _ body = True"

fun limit_below_max :: "('f, 'j) body_operation \<Rightarrow> bool" where
  "limit_below_max (Limit n) = (n < u64_max)"
| "limit_below_max _ = True"

text \<open>The operations that stop at an error keep what they read; the others only keep it when there is none.\<close>

fun reads_ahead :: "('f, 'j) body_operation \<Rightarrow> bool" where
  "reads_ahead (Limit n) = True"
| "reads_ahead (Plain (PlainStarts pattern)) = True"
| "reads_ahead (Plain (PlainContains pattern)) = True"
| "reads_ahead _ = False"

fun stops_at_match :: "('f, 'j) body_operation \<Rightarrow> bool" where
  "stops_at_match (Plain (PlainContains pattern)) = (pattern \<noteq> [])"
| "stops_at_match _ = False"

lemma jq_check_collected:
  "jq_check B J op filt body =
     check_collected B (\<lambda>d. case jl_from_slice J d of None \<Rightarrow> False | Some json \<Rightarrow> jq_matches op (jq_apply J filt json)) body"
  by (simp add: jq_check_def check_collected_def verdict_def Let_def split: sum.split option.split)

text \<open>A complete body comes back from every operation as it was.\<close>

lemma complete_body_kept:
  assumes "body_operation_check B J op (Complete (Some d)) = Some q"
  shows "pr_subject q = Complete (Some d)"
proof (cases op)
  case (Limit n)
  with assms show ?thesis by (auto split: if_splits option.splits)
next
  case (Jq filt jop)
  with assms show ?thesis by (auto simp: jq_check_def verdict_def Let_def split: option.splits if_splits)
next
  case (Plain plain)
  with assms show ?thesis
    by (cases plain) (auto simp: check_collected_def verdict_def Let_def split: if_splits)
qed

context http_body
begin

text \<open>A body that yields the same bytes and ends the same way.\<close>

definition replays :: "('b, 'e) buffered_body \<Rightarrow> bytes \<Rightarrow> 'e option \<Rightarrow> bool" where
  "replays body d r \<longleftrightarrow> (\<exists>gs. yields_body B body gs r \<and> body_bytes gs = d)"

lemma replays_self: "yields_body B body fs r \<Longrightarrow> replays body (body_bytes fs) r"
  by (auto simp: replays_def)

lemma replays_complete [simp]: "replays (Complete p) d r \<longleftrightarrow> d = opt_bytes p \<and> r = None"
  by (cases p) (auto simp: replays_def)

lemma replays_partial_error [simp]:
  "replays (Partial \<lparr>pb_prefix = p, pb_remaining = RemError e\<rparr>) d r \<longleftrightarrow> d = opt_bytes p \<and> r = e"
  by (cases p) (auto simp: replays_def)

lemma search_loop_spec:
  assumes "framed b fs r" and "pattern \<noteq> []"
  shows "\<exists>found body'. search_loop B pattern buffer b = Some (found, body') \<and>
    (found \<longleftrightarrow> sublist pattern (buffer @ body_bytes fs)) \<and> (found \<or> replays body' (buffer @ body_bytes fs) r)"
  using assms(1)
proof (induction arbitrary: buffer rule: framed.induct)
  case (framed_end b b')
  then show ?case
    by (subst search_loop.simps) (simp add: opt_has_window_sublist [OF assms(2)] Let_def)
next
  case (framed_error b e b')
  then show ?case
    by (subst search_loop.simps) (simp add: opt_has_window_sublist [OF assms(2)] Let_def partial_body_new_def)
next
  case (framed_frame b f b' fs r)
  show ?case
  proof (cases f)
    case (FTrailers h)
    then have "search_loop B pattern buffer b = search_loop B pattern buffer b'"
      using framed_frame.hyps(1) by (subst search_loop.simps) simp
    with framed_frame.IH [of buffer] FTrailers show ?thesis by simp
  next
    case (FData d)
    let ?region = "drop (length buffer - (length pattern - 1)) (buffer @ d)"
    show ?thesis
    proof (cases "has_window pattern ?region")
      case True
      then have "sublist pattern ?region" by (simp add: has_window_sublist [OF assms(2)])
      then have "sublist pattern (buffer @ d)"
        by (rule sublist_order.order.trans) (rule suffix_imp_sublist [OF suffix_drop])
      then have "sublist pattern (buffer @ d @ body_bytes fs)"
        by (metis append_assoc sublist_append_rightI sublist_order.order.trans)
      with True FData show ?thesis
        using framed_frame.hyps(1) by (subst search_loop.simps) (auto simp: Let_def)
    next
      case False
      then have "search_loop B pattern buffer b = search_loop B pattern (buffer @ d) b'"
        using framed_frame.hyps(1) FData by (subst search_loop.simps) (simp add: Let_def)
      with framed_frame.IH [of "buffer @ d"] FData show ?thesis by simp
    qed
  qed
qed

lemma streaming_search_spec:
  assumes y: "yields_body B body fs r" and p: "pattern \<noteq> []"
  shows "\<exists>found body'. streaming_search B body pattern = Some (found, body') \<and>
    (found \<longleftrightarrow> sublist pattern (body_bytes fs)) \<and> (found \<or> replays body' (body_bytes fs) r)"
proof (cases body)
  case (Complete d)
  with assms show ?thesis by (cases d) (auto simp: has_window_sublist)
next
  case (Passthrough b)
  with y have "framed b fs r" by (simp add: polls_framed)
  from search_loop_spec [OF this p, of "[]"] p Passthrough show ?thesis
    by (simp add: streaming_search_body_def)
next
  case (Partial part)
  obtain q rem where part: "part = \<lparr>pb_prefix = q, pb_remaining = rem\<rparr>" by (cases part) auto
  from y obtain gs where gs: "fs = prefix_frames q @ gs" "yields_remaining B rem gs r"
    by (auto simp: Partial part)
  then have data: "body_bytes fs = opt_bytes q @ body_bytes gs" by (cases q) auto
  show ?thesis
  proof (cases rem)
    case (RemError e)
    with gs data p show ?thesis
      by (auto simp: Partial part into_body_parts_def opt_has_window_sublist partial_body_new_def)
  next
    case (RemBody b)
    with gs have "framed b gs r" by (simp add: polls_framed)
    from search_loop_spec [OF this p, of "opt_bytes q"] p data RemBody show ?thesis
      by (simp add: Partial part into_body_parts_def streaming_search_body_def opt_bytes_def)
  qed
qed

lemma check_collected_spec:
  assumes y: "yields_body B body fs r"
  shows "\<not> error_yielded body \<Longrightarrow>
      pr_cacheable (check_collected B matches body) \<longleftrightarrow> matches (body_bytes fs) \<and> r = None"
    and "r = None \<Longrightarrow> replays (pr_subject (check_collected B matches body)) (body_bytes fs) r"
proof -
  have ey: "body_collect B body = Inl body \<and> replays body (body_bytes fs) r" if "error_yielded body"
    using that replays_self [OF y]
    by (cases body) (auto simp: into_body_parts_def partial_body_new_def)
  show "pr_cacheable (check_collected B matches body) \<longleftrightarrow> matches (body_bytes fs) \<and> r = None"
    if "\<not> error_yielded body"
  proof (cases r)
    case None
    with y body_collect_end [OF _ that, of fs] show ?thesis by (simp add: check_collected_def)
  next
    case (Some e)
    with y body_collect_error [of body fs e] show ?thesis by (auto simp: check_collected_def)
  qed
  show "replays (pr_subject (check_collected B matches body)) (body_bytes fs) r" if "r = None"
  proof (cases "error_yielded body")
    case True
    with ey show ?thesis by (simp add: check_collected_def)
  next
    case False
    with y that body_collect_end [OF _ False, of fs] show ?thesis by (simp add: check_collected_def)
  qed
qed

lemma operation_spec:
  assumes y: "yields_body B body fs r" and max: "limit_below_max op"
  shows "\<exists>p. body_operation_check B J op body = Some p \<and>
    (\<not> error_yielded body \<longrightarrow>
       (pr_cacheable p \<longleftrightarrow> operation_accepts J op (body_bytes fs) r \<and> hint_within B op body)) \<and>
    (r = None \<or> reads_ahead op \<longrightarrow> \<not> (stops_at_match op \<and> pr_cacheable p) \<longrightarrow>
       replays (pr_subject p) (body_bytes fs) r)"
proof (cases op)
  case (Limit n)
  show ?thesis
  proof (cases "hint_within B op body")
    case False
    then have "body_operation_check B J op body = Some (PNonCacheable body)"
      by (auto simp: Limit split: option.splits)
    with False Limit replays_self [OF y] show ?thesis by simp
  next
    case True
    from max have s: "usize_succ n = Suc n" by (simp add: Limit usize_succ_def u64_max_def)
    from collect_exact_spec [OF y, of "Suc n"] obtain res where
      res: "collect_exact B body (Suc n) = Some res" "collected_from B (body_bytes fs) r (Suc n) res" by auto
    have rep: "replays (into_buffered_body res) (body_bytes fs) r"
      using into_buffered_yields [OF res(2)] by (auto simp: replays_def)
    have check: "body_operation_check B J op body = Some (case res of
        AtLeast d rem \<Rightarrow> PNonCacheable (into_buffered_body res)
      | Incomplete d e \<Rightarrow> if e \<noteq> None then PNonCacheable (into_buffered_body res)
          else PCacheable (into_buffered_body res))"
      using True by (auto simp: Limit res s split: option.splits)
    show ?thesis
    proof (cases res)
      case (AtLeast d rem)
      with res(2) have "n < length (body_bytes fs)" by (cases rem) auto
      with AtLeast rep Limit show ?thesis unfolding check by simp
    next
      case (Incomplete d e)
      with res(2) rep Limit True show ?thesis unfolding check by (cases e) auto
    qed
  qed
next
  case (Jq filt jop)
  with check_collected_spec [OF y] show ?thesis by (auto simp: jq_check_collected conj_commute)
next
  case (Plain plain)
  show ?thesis
  proof (cases plain)
    case (PlainContains pattern)
    show ?thesis
    proof (cases "pattern = []")
      case True
      with replays_self [OF y] show ?thesis by (simp add: Plain PlainContains verdict_def)
    next
      case False
      from streaming_search_spec [OF y False] False show ?thesis
        by (fastforce simp: Plain PlainContains)
    qed
  next
    case (PlainStarts pattern)
    show ?thesis
    proof (cases "pattern = []")
      case True
      with replays_self [OF y] show ?thesis by (simp add: Plain PlainStarts)
    next
      case False
      from collect_exact_spec [OF y, of "length pattern"] False obtain res where
        res: "collect_exact B body (length pattern) = Some res"
        "collected_from B (body_bytes fs) r (length pattern) res" by auto
      have rep: "replays (into_buffered_body res) (body_bytes fs) r"
        using into_buffered_yields [OF res(2)] by (auto simp: replays_def)
      show ?thesis
      proof (cases res)
        case (AtLeast d rem)
        with res(2) have "\<exists>ds. body_bytes fs = d @ ds" "length pattern \<le> length d" by (cases rem; auto)+
        then have "Sublist.prefix pattern (body_bytes fs) \<longleftrightarrow> Sublist.prefix pattern d"
          by (auto simp: prefix_append dest: prefix_length_le)
        with AtLeast rep False show ?thesis by (simp add: Plain PlainStarts res Let_def)
      next
        case (Incomplete d e)
        with res(2) False have "\<not> Sublist.prefix pattern (body_bytes fs)"
          by (auto dest: prefix_length_le)
        with Incomplete rep False show ?thesis by (simp add: Plain PlainStarts res Let_def)
      qed
    qed
  qed (use check_collected_spec [OF y] in \<open>simp_all add: Plain\<close>)
qed

end

section \<open>Properties\<close>

lemma body_predicate_check_eq:
  assumes "bp_inner self subject = Some inner"
    and "body_operation_check B J (bp_operation self) (hm_body (pr_subject inner)) = Some p"
  shows "body_predicate_check B J self subject =
    Some (verdict (pr_cacheable inner \<and> pr_cacheable p) \<lparr>hm_parts = hm_parts (pr_subject inner), hm_body = pr_subject p\<rparr>)"
  using assms
  by (cases inner; cases p)
    (simp_all add: body_predicate_check_def message_into_parts_def message_from_parts_def verdict_def)

text \<open>A JSON of bytes and arrays, with the identity and an always failing filter, for the witnesses.\<close>

datatype demo_json = DemoNull | DemoByte byte | DemoArray "demo_json list"

definition demo_jq :: "(bool, demo_json, demo_json, unit) jq_lib" where
  "demo_jq = \<lparr>jl_from_slice = (\<lambda>d. case d of [b] \<Rightarrow> Some (DemoByte b) | _ \<Rightarrow> None),
     jl_run = (\<lambda>f v. if f then [Inr v] else [Inl ()]), jl_val = id, jl_value = id,
     jl_null = DemoNull, jl_array = DemoArray\<rparr>"

text \<open>C19. A body predicate decides exactly what its operation says of all the bytes of the body and
  of how it ends, however the bytes are cut into frames and whatever was buffered before: together
  with its inner predicate, and up to a size hint that already exceeds the limit.  It always returns,
  and leaves the head of the message as the inner predicate did.  (A limit is below usize::MAX, and the body it
  is given has not yet yielded the error it ends with.)\<close>

theorem body_predicate_decides:
  assumes "http_body B"
    and "bp_inner self subject = Some inner"
    and "polls (body_poll_frame B) (hm_body (pr_subject inner)) fs r"
    and "\<not> error_yielded (hm_body (pr_subject inner))"
    and "limit_below_max (bp_operation self)"
  shows "\<exists>p. body_predicate_check B J self subject = Some p \<and> hm_parts (pr_subject p) = hm_parts (pr_subject inner) \<and>
    (pr_cacheable p \<longleftrightarrow> pr_cacheable inner \<and> operation_accepts J (bp_operation self) (body_bytes fs) r \<and>
       hint_within B (bp_operation self) (hm_body (pr_subject inner)))"
  using http_body.operation_spec [OF assms(1,3,5), of J] assms(4)
  by (auto simp: body_predicate_check_eq [OF assms(2)])

lemma body_predicate_decides_witness:
  "\<exists>p. body_predicate_check scripted_body demo_jq (body_predicate_new (Plain (PlainContains [2, 3])))
      \<lparr>hm_parts = ''GET'', hm_body = Passthrough demo_stream\<rparr> = Some p \<and> pr_cacheable p \<and> hm_parts (pr_subject p) = ''GET''"
proof -
  let ?self = "body_predicate_new (Plain (PlainContains [2, 3]))"
    and ?subject = "\<lparr>hm_parts = ''GET'', hm_body = Passthrough demo_stream\<rparr>"
  have inner: "bp_inner ?self ?subject = Some (PCacheable ?subject)"
    by (simp add: body_predicate_new_def neutral_def)
  have y: "polls (body_poll_frame scripted_body) (hm_body (pr_subject (PCacheable ?subject)))
      [FData [1, 2], FData [3], FTrailers ()] (Some 7)"
    using demo_stream_polls by simp
  have acc: "sublist [2, 3] [1 :: byte, 2, 3]" by (simp add: sublist_Cons_right)
  have e: "\<not> error_yielded (hm_body (pr_subject (PCacheable ?subject)))" by simp
  have l: "limit_below_max (bp_operation ?self)" by (simp add: body_predicate_new_def)
  show ?thesis
    using body_predicate_decides [OF scripted.http_body_axioms inner y e l, of demo_jq] acc
    by (auto simp: body_predicate_new_def)
qed

text \<open>Looking at a body does not change what is read from it afterwards: the body handed back
  yields the same bytes and ends the same way.  This holds for the operations that stop early (limit,
  starts, contains) with every body, for those that collect with every body that ends without an
  error, and for a containment search that did not match.\<close>

lemma body_check_replays:
  assumes "http_body B" and "polls (body_poll_frame B) body fs r"
    and "body_operation_check B J op body = Some p"
    and "r = None \<or> reads_ahead op" and "\<not> (stops_at_match op \<and> pr_cacheable p)" and "limit_below_max op"
  shows "\<exists>gs. polls (body_poll_frame B) (pr_subject p) gs r \<and> body_bytes gs = body_bytes fs"
  using http_body.operation_spec [OF assms(1,2,6), of J] assms(3-5)
  by (auto simp: http_body.replays_def [OF assms(1)])

lemma body_check_replays_witness:
  "\<exists>p gs. body_operation_check scripted_body demo_jq (Plain (PlainStarts [1])) (Passthrough demo_stream) = Some p \<and>
    polls (body_poll_frame scripted_body) (pr_subject p) gs (Some 7) \<and> body_bytes gs = [1, 2, 3]"
proof -
  let ?op = "Plain (PlainStarts [1])" and ?body = "Partial (partial_body_new (Some [1, 2]) (RemBody (tl demo_stream)))"
  have check: "body_operation_check scripted_body demo_jq ?op (Passthrough demo_stream) = Some (PCacheable ?body)"
    by (simp add: demo_stream_def collect_exact_from_stream_def collect_loop.simps verdict_def)
  from body_check_replays [OF scripted.http_body_axioms demo_stream_polls check] obtain gs where
    "polls (body_poll_frame scripted_body) (pr_subject (PCacheable ?body)) gs (Some 7)" "body_bytes gs = [1, 2, 3]"
    by auto
  with check show ?thesis by blast
qed

text \<open>A containment search that finds its pattern drops the rest of the body: what follows the
  frame with the match, an error included, is never read again.\<close>

lemma contains_match_drops_rest:
  assumes "http_body B" and "polls (body_poll_frame B) (Passthrough b) (FData d # fs) r"
    and "pattern \<noteq> []" and "sublist pattern d"
  shows "body_operation_check B J (Plain (PlainContains pattern)) (Passthrough b) = Some (PCacheable (Complete (Some d))) \<and>
    polls (body_poll_frame B) (Complete (Some d)) [FData d] None"
proof -
  have "polls (bo_poll_frame B) b (FData d # fs) r" using assms(2) by simp
  from http_body.polls_framed [OF assms(1) this] obtain b'
    where "bo_frame B b = (Some (Inr (FData d)), b')"
    by (cases rule: http_body.framed.cases [OF assms(1), consumes 1]) auto
  then have "search_loop B pattern [] b = Some (True, Complete (Some d))"
    using assms(3,4) by (subst search_loop.simps) (simp add: Let_def has_window_sublist)
  with assms(3) show ?thesis by (simp add: streaming_search_body_def verdict_def)
qed

lemma contains_match_drops_rest_witness:
  "body_operation_check scripted_body demo_jq (Plain (PlainContains [2])) (Passthrough demo_stream)
     = Some (PCacheable (Complete (Some [1, 2])))"
  by (rule contains_match_drops_rest [OF scripted.http_body_axioms demo_stream_polls, THEN conjunct1])
    (simp_all add: sublist_Cons_right)

text \<open>An operation that collects the body loses every byte that came before an error: the
  message goes on with the error alone.\<close>

theorem collecting_error_loses_bytes:
  assumes "http_body B" and "polls (body_poll_frame B) (Passthrough b) fs (Some e)"
    and "\<not> reads_ahead op"
  shows "\<exists>body. body_operation_check B J op (Passthrough b) = Some (PNonCacheable body) \<and>
    polls (body_poll_frame B) body [] (Some e)"
proof -
  from http_body.body_collect_error [OF assms(1,2)] obtain body
    where body: "body_collect B (Passthrough b) = Inl body" "polls (body_poll_frame B) body [] (Some e)" by auto
  then have "check_collected B matches (Passthrough b) = PNonCacheable body" for matches
    by (simp add: check_collected_def)
  with body(2) assms(3) show ?thesis
    by (cases op rule: reads_ahead.cases) (auto simp: jq_check_collected)
qed

lemma collecting_error_loses_bytes_witness:
  "\<exists>body. body_operation_check scripted_body demo_jq (Plain (PlainEq [1, 2, 3])) (Passthrough demo_stream) = Some (PNonCacheable body) \<and>
    polls (body_poll_frame scripted_body) body [] (Some 7)"
  by (rule collecting_error_loses_bytes [OF scripted.http_body_axioms demo_stream_polls]) simp

end
