(* ===== verification/Http_Message.thy ===== *)
theory Http_Message
  imports Http_Body_Predicate Key_Format Core_Context
begin

text \<open>
  HTTP requests and responses as the cache sees them (hitbox-http/src/request.rs, response.rs,
  cacheable.rs, cache_status.rs): the head and a buffered body, the cached form of a response and
  its way back, and the archived forms of versions, status codes and header maps.  The \<open>http\<close> crate
  is a parameter (\<open>http_lib\<close>).  A method, a header name and a string are strings, a header value is
  bytes, a status code is its number; the extensions of a head are left out (a response from the
  cache has none).
\<close>

section \<open>The http crate\<close>

datatype http_version = HTTP_09 | HTTP_10 | HTTP_11 | HTTP_2 | HTTP_3

record ('h, 'u) http_lib =
  hl_get :: "'h \<Rightarrow> string \<Rightarrow> bytes option"
  hl_get_str :: "'h \<Rightarrow> string \<Rightarrow> bytes option"
  hl_get_all :: "'h \<Rightarrow> string \<Rightarrow> bytes list"
  hl_iter :: "'h \<Rightarrow> (string \<times> bytes) list"
  hl_insert :: "'h \<Rightarrow> string \<Rightarrow> bytes \<Rightarrow> 'h"
  hl_append :: "'h \<Rightarrow> string \<Rightarrow> bytes \<Rightarrow> 'h"
  hl_new :: 'h
  hl_name_from_bytes :: "bytes \<Rightarrow> string option"
  hl_value_from_bytes :: "bytes \<Rightarrow> bytes option"
  hl_to_str :: "bytes \<Rightarrow> string option"
  hl_uri_path :: "'u \<Rightarrow> string"
  hl_uri_query :: "'u \<Rightarrow> string option"
  hl_is_informational :: "nat \<Rightarrow> bool"
  hl_is_success :: "nat \<Rightarrow> bool"
  hl_is_redirection :: "nat \<Rightarrow> bool"
  hl_is_client_error :: "nat \<Rightarrow> bool"
  hl_is_server_error :: "nat \<Rightarrow> bool"
  hl_status_from_u16 :: "nat \<Rightarrow> nat option"
  hl_version_debug :: "http_version \<Rightarrow> string"

text \<open>A header map keeps, for each name, its values in the order they were appended, and iterates over
  them in that order; \<open>get\<close> is the first value; what it yields is valid.  A valid status code is
  between 100 and 999, and its class is its first digit.\<close>

locale http_crate =
  fixes L :: "('h, 'u) http_lib"
  assumes get_first: "hl_get L h n = (case hl_get_all L h n of [] \<Rightarrow> None | v # _ \<Rightarrow> Some v)"
    and all_new: "hl_get_all L (hl_new L) n = []"
    and all_append: "hl_get_all L (hl_append L h n v) m = (if m = n then hl_get_all L h m @ [v] else hl_get_all L h m)"
    and all_insert: "hl_get_all L (hl_insert L h n v) m = (if m = n then [v] else hl_get_all L h m)"
    and all_iter: "hl_get_all L h n = map snd (filter (\<lambda>x. fst x = n) (hl_iter L h))"
    and iter_valid: "(n, v) \<in> set (hl_iter L h) \<Longrightarrow>
      hl_name_from_bytes L (bytes_of_str n) = Some n \<and> hl_value_from_bytes L v = Some v"
    and status_class: "hl_is_informational L c \<longleftrightarrow> 100 \<le> c \<and> c < 200" "hl_is_success L c \<longleftrightarrow> 200 \<le> c \<and> c < 300"
      "hl_is_redirection L c \<longleftrightarrow> 300 \<le> c \<and> c < 400" "hl_is_client_error L c \<longleftrightarrow> 400 \<le> c \<and> c < 500"
      "hl_is_server_error L c \<longleftrightarrow> 500 \<le> c \<and> c < 600"
    and from_u16: "100 \<le> c \<Longrightarrow> c \<le> 999 \<Longrightarrow> hl_status_from_u16 L c = Some c"

section \<open>Requests\<close>

record ('h, 'u) request_parts =
  rq_method :: string
  rq_uri :: 'u
  rq_version :: http_version
  rq_headers :: 'h

type_synonym ('h, 'u, 'b, 'e) http_request = "(('h, 'u) request_parts, 'b, 'e) http_message"

definition from_request :: "'p \<times> ('b, 'e) buffered_body \<Rightarrow> ('p, 'b, 'e) http_message" where
  "from_request request = (case request of (parts, body) \<Rightarrow> \<lparr>hm_parts = parts, hm_body = body\<rparr>)"

definition into_request :: "('p, 'b, 'e) http_message \<Rightarrow> 'p \<times> ('b, 'e) buffered_body" where
  "into_request self = (hm_parts self, hm_body self)"

text \<open>\<open>CacheableRequest::cache_policy\<close>: the key is extracted first, then the predicates decide.\<close>

definition http_request_policy ::
  "('s \<Rightarrow> 's predicate_result option) \<Rightarrow> 's extractor \<Rightarrow> 's \<Rightarrow> 's request_cache_policy option" where
  "http_request_policy predicates extractors self =
     (case into_cache_key (extractors self) of (request, key) \<Rightarrow>
        map_option (\<lambda>res. case res of
            PCacheable request \<Rightarrow> Cacheable \<lparr>cpd_key = key, cpd_request = request\<rparr>
          | PNonCacheable request \<Rightarrow> NonCacheable request)
        (predicates request))"

section \<open>Responses\<close>

record 'h response_parts =
  rs_status :: nat
  rs_version :: http_version
  rs_headers :: 'h

type_synonym ('h, 'b, 'e) http_response = "('h response_parts, 'b, 'e) http_message"

record 'h serializable_response =
  sr_status :: nat
  sr_version :: http_version
  sr_body :: bytes
  sr_headers :: 'h

definition http_into_cached ::
  "('b, 'x, 'e) body_ops \<Rightarrow> ('h, 'b, 'e) http_response \<Rightarrow> ('h serializable_response, ('h, 'b, 'e) http_response) cache_policy" where
  "http_into_cached B self =
     (case body_collect B (hm_body self) of
        Inl error_body \<Rightarrow> NonCacheable \<lparr>hm_parts = hm_parts self, hm_body = error_body\<rparr>
      | Inr bytes \<Rightarrow> Cacheable \<lparr>sr_status = rs_status (hm_parts self), sr_version = rs_version (hm_parts self),
          sr_body = bytes, sr_headers = rs_headers (hm_parts self)\<rparr>)"

definition http_from_cached :: "'h serializable_response \<Rightarrow> ('h, 'b, 'e) http_response" where
  "http_from_cached cached =
     (let body = Complete (Some (sr_body cached)) in
      \<lparr>hm_parts = \<lparr>rs_status = sr_status cached, rs_version = sr_version cached, rs_headers = sr_headers cached\<rparr>,
       hm_body = body\<rparr>)"

definition http_response_policy ::
  "('b, 'x, 'e) body_ops \<Rightarrow> time \<Rightarrow> time \<Rightarrow> (('h, 'b, 'e) http_response \<Rightarrow> ('h, 'b, 'e) http_response predicate_result option)
     \<Rightarrow> entity_policy_config \<Rightarrow> ('h, 'b, 'e) http_response
     \<Rightarrow> ('h serializable_response, ('h, 'b, 'e) http_response) response_cache_policy option" where
  "http_response_policy B now1 now2 predicates config self =
     map_option (\<lambda>res. case res of
         PCacheable cacheable \<Rightarrow>
           (case http_into_cached B cacheable of
              Cacheable r \<Rightarrow> Cacheable (stamp now1 now2 config r)
            | NonCacheable r \<Rightarrow> NonCacheable r)
       | PNonCacheable r \<Rightarrow> NonCacheable r)
     (predicates self)"

text \<open>\<open>CacheStatusExt\<close>: the status of the cache becomes a header.\<close>

definition http_cache_status ::
  "('h, 'u) http_lib \<Rightarrow> cache_status \<Rightarrow> string \<Rightarrow> ('h, 'b, 'e) http_response \<Rightarrow> ('h, 'b, 'e) http_response" where
  "http_cache_status L status config self =
     (let v = (case status of Hit \<Rightarrow> ''HIT'' | Miss \<Rightarrow> ''MISS'' | StaleHit \<Rightarrow> ''STALE'') in
      self\<lparr>hm_parts := (hm_parts self)\<lparr>rs_headers := hl_insert L (rs_headers (hm_parts self)) config (bytes_of_str v)\<rparr>\<rparr>)"

section \<open>Archived forms\<close>

fun version_to_u8 :: "http_version \<Rightarrow> 8 word" where
  "version_to_u8 HTTP_09 = 9"
| "version_to_u8 HTTP_10 = 10"
| "version_to_u8 HTTP_11 = 11"
| "version_to_u8 HTTP_2 = 20"
| "version_to_u8 HTTP_3 = 30"

definition u8_to_version :: "8 word \<Rightarrow> http_version" where
  "u8_to_version v =
     (if v = 9 then HTTP_09 else if v = 10 then HTTP_10 else if v = 11 then HTTP_11
      else if v = 20 then HTTP_2 else if v = 30 then HTTP_3 else HTTP_11)"

definition archive_status :: "nat \<Rightarrow> 16 word" where
  "archive_status status = word_of_nat status"

definition unarchive_status :: "('h, 'u) http_lib \<Rightarrow> 16 word \<Rightarrow> nat" where
  "unarchive_status L value = (case hl_status_from_u16 L (unat value) of Some c \<Rightarrow> c | None \<Rightarrow> 500)"

definition archive_headers :: "('h, 'u) http_lib \<Rightarrow> 'h \<Rightarrow> (string \<times> bytes) list" where
  "archive_headers L headers = map (\<lambda>(name, value). (name, value)) (hl_iter L headers)"

definition unarchive_headers :: "('h, 'u) http_lib \<Rightarrow> (string \<times> bytes) list \<Rightarrow> 'h" where
  "unarchive_headers L items =
     foldl (\<lambda>m (name, value).
        case (hl_name_from_bytes L (bytes_of_str name), hl_value_from_bytes L value) of
          (Some header_name, Some header_value) \<Rightarrow> hl_append L m header_name header_value
        | _ \<Rightarrow> m) (hl_new L) items"

record archived_response =
  ar_status :: "16 word"
  ar_version :: "8 word"
  ar_body :: bytes
  ar_headers :: "(string \<times> bytes) list"

definition archive_response :: "('h, 'u) http_lib \<Rightarrow> 'h serializable_response \<Rightarrow> archived_response" where
  "archive_response L r = \<lparr>ar_status = archive_status (sr_status r), ar_version = version_to_u8 (sr_version r),
     ar_body = sr_body r, ar_headers = archive_headers L (sr_headers r)\<rparr>"

definition unarchive_response :: "('h, 'u) http_lib \<Rightarrow> archived_response \<Rightarrow> 'h serializable_response" where
  "unarchive_response L a = \<lparr>sr_status = unarchive_status L (ar_status a), sr_version = u8_to_version (ar_version a),
     sr_body = ar_body a, sr_headers = unarchive_headers L (ar_headers a)\<rparr>"

section \<open>Lemmas\<close>

lemma version_u8_back [simp]: "u8_to_version (version_to_u8 v) = v"
  by (cases v) (simp_all add: u8_to_version_def)

context http_crate
begin

lemma status_back: "100 \<le> c \<Longrightarrow> c \<le> 999 \<Longrightarrow> unarchive_status L (archive_status c) = c"
  by (simp add: unarchive_status_def archive_status_def unat_of_nat from_u16)

lemma foldl_headers:
  assumes "set items \<subseteq> set (hl_iter L h)"
  shows "hl_get_all L (foldl (\<lambda>m (name, value).
        case (hl_name_from_bytes L (bytes_of_str name), hl_value_from_bytes L value) of
          (Some header_name, Some header_value) \<Rightarrow> hl_append L m header_name header_value
        | _ \<Rightarrow> m) m items) n = hl_get_all L m n @ map snd (filter (\<lambda>x. fst x = n) items)"
  using assms
proof (induction items arbitrary: m)
  case (Cons x items)
  obtain name v where x: "x = (name, v)" by (metis surj_pair)
  with Cons.prems iter_valid [of name v h]
  have "hl_name_from_bytes L (bytes_of_str name) = Some name" "hl_value_from_bytes L v = Some v" by auto
  with Cons x show ?case by (simp add: all_append)
qed simp

lemma headers_back: "hl_get_all L (unarchive_headers L (archive_headers L h)) n = hl_get_all L h n"
proof -
  have "archive_headers L h = hl_iter L h" by (simp add: archive_headers_def)
  then show ?thesis
    using foldl_headers [of "hl_iter L h" h "hl_new L" n]
    by (simp add: unarchive_headers_def all_new all_iter [symmetric])
qed

end

lemma http_into_cached_ok:
  assumes "http_body B" "polls (body_poll_frame B) (hm_body r) fs None" "\<not> error_yielded (hm_body r)"
  shows "http_into_cached B r = Cacheable \<lparr>sr_status = rs_status (hm_parts r), sr_version = rs_version (hm_parts r),
     sr_body = body_bytes fs, sr_headers = rs_headers (hm_parts r)\<rparr>"
  using http_body.body_collect_end [OF assms] by (simp add: http_into_cached_def)

definition accept :: "'s \<Rightarrow> 's predicate_result option" where
  "accept s = Some (neutral s)"

text \<open>A header map that is a list of names and values, a URI that is its path and query.\<close>

definition demo_http :: "((string \<times> bytes) list, string \<times> string option) http_lib" where
  "demo_http = \<lparr>hl_get = (\<lambda>h n. map_of h n), hl_get_str = (\<lambda>h n. map_of h n),
     hl_get_all = (\<lambda>h n. map snd (filter (\<lambda>x. fst x = n) h)), hl_iter = (\<lambda>h. h),
     hl_insert = (\<lambda>h n v. filter (\<lambda>x. fst x \<noteq> n) h @ [(n, v)]), hl_append = (\<lambda>h n v. h @ [(n, v)]), hl_new = [],
     hl_name_from_bytes = (\<lambda>b. Some (str_of_bytes b)), hl_value_from_bytes = Some,
     hl_to_str = (\<lambda>b. if \<forall>x \<in> set b. 32 \<le> unat x \<and> unat x < 127 then Some (str_of_bytes b) else None),
     hl_uri_path = fst, hl_uri_query = snd,
     hl_is_informational = (\<lambda>c. 100 \<le> c \<and> c < 200), hl_is_success = (\<lambda>c. 200 \<le> c \<and> c < 300),
     hl_is_redirection = (\<lambda>c. 300 \<le> c \<and> c < 400), hl_is_client_error = (\<lambda>c. 400 \<le> c \<and> c < 500),
     hl_is_server_error = (\<lambda>c. 500 \<le> c \<and> c < 600),
     hl_status_from_u16 = (\<lambda>c. if 100 \<le> c \<and> c \<le> 999 then Some c else None),
     hl_version_debug = (\<lambda>v. case v of HTTP_09 \<Rightarrow> ''HTTP/0.9'' | HTTP_10 \<Rightarrow> ''HTTP/1.0'' | HTTP_11 \<Rightarrow> ''HTTP/1.1''
       | HTTP_2 \<Rightarrow> ''HTTP/2.0'' | HTTP_3 \<Rightarrow> ''HTTP/3.0'')\<rparr>"

lemma map_of_first: "map_of h n = (case map snd (filter (\<lambda>x. fst x = n) h) of [] \<Rightarrow> None | v # _ \<Rightarrow> Some v)"
  by (induction h) auto

interpretation demo_http: http_crate demo_http
  by unfold_locales (auto simp: demo_http_def map_of_first filter_filter
      intro!: arg_cong [where f = "map snd"] filter_cong)

section \<open>Properties\<close>

definition demo_response :: "nat \<Rightarrow> ((string \<times> bytes) list, (nat + unit http_frame) poll list, nat) http_response" where
  "demo_response n = \<lparr>hm_parts = \<lparr>rs_status = 200, rs_version = HTTP_2, rs_headers = [(''etag'', [1])]\<rparr>,
     hm_body = Passthrough (take n demo_stream)\<rparr>"

lemma demo_response_polls:
  "polls (body_poll_frame scripted_body) (hm_body (demo_response 3)) [FData [1, 2], FData [3]] None"
  "polls (body_poll_frame scripted_body) (hm_body (demo_response 5)) [FData [1, 2], FData [3], FTrailers ()] (Some 7)"
  by (simp_all add: demo_response_def demo_stream_def numeral_3_eq_3 eval_nat_numeral)

text \<open>C17. A response that the predicates accept and whose body ends without an error is cached, and
  what is served from the cache is that response: same status, version and header values, and a body
  with the same bytes.  This holds through the archived form as well.\<close>

theorem http_response_roundtrip:
  assumes "http_crate L" and "http_body B" and "predicates r = Some (PCacheable r')"
    and "polls (body_poll_frame B) (hm_body r') fs None" and "\<not> error_yielded (hm_body r')"
    and "100 \<le> rs_status (hm_parts r')" and "rs_status (hm_parts r') \<le> 999"
  shows "\<exists>v. http_response_policy B now1 now2 predicates config r = Some (Cacheable v) \<and>
    (\<forall>c \<in> {cv_data v, unarchive_response L (archive_response L (cv_data v))}.
       rs_status (hm_parts (http_from_cached c)) = rs_status (hm_parts r') \<and>
       rs_version (hm_parts (http_from_cached c)) = rs_version (hm_parts r') \<and>
       hl_get_all L (rs_headers (hm_parts (http_from_cached c))) = hl_get_all L (rs_headers (hm_parts r')) \<and>
       polls (body_poll_frame B) (hm_body (http_from_cached c)) [FData (body_bytes fs)] None)"
  using http_into_cached_ok [OF assms(2,4,5)] http_crate.status_back [OF assms(1,6,7)] http_crate.headers_back [OF assms(1)]
  by (simp add: http_response_policy_def assms(3) http_from_cached_def archive_response_def unarchive_response_def
      fun_eq_iff)

lemma http_response_roundtrip_witness:
  "\<exists>v. http_response_policy scripted_body 0 0 accept entity_policy_default (demo_response 3) = Some (Cacheable v) \<and>
    rs_status (hm_parts (http_from_cached (unarchive_response demo_http (archive_response demo_http (cv_data v))))) = 200"
proof -
  have p: "accept (demo_response 3) = Some (PCacheable (demo_response 3))"
    by (simp add: accept_def neutral_def)
  have e: "\<not> error_yielded (hm_body (demo_response 3))" "100 \<le> rs_status (hm_parts (demo_response 3))"
    "rs_status (hm_parts (demo_response 3)) \<le> 999" "rs_status (hm_parts (demo_response 3)) = 200"
    by (simp_all add: demo_response_def)
  show ?thesis
    using http_response_roundtrip [where predicates = accept, OF demo_http.http_crate_axioms scripted.http_body_axioms p
        demo_response_polls(1) e(1-3), of 0 0 entity_policy_default] e(4)
    by auto
qed

text \<open>A response whose body fails while it is read is not cached, whatever the predicates say of it;
  it is passed on with its head and with the error.\<close>

lemma failing_body_is_not_cached:
  assumes "http_body B" and "predicates r = Some res"
    and "polls (body_poll_frame B) (hm_body (pr_subject res)) fs (Some e)"
  shows "\<exists>out gs. http_response_policy B now1 now2 predicates config r = Some (NonCacheable out) \<and>
    hm_parts out = hm_parts (pr_subject res) \<and> polls (body_poll_frame B) (hm_body out) gs (Some e)"
proof (cases res)
  case (PNonCacheable r')
  with assms(2,3) show ?thesis by (auto simp: http_response_policy_def)
next
  case (PCacheable r')
  with assms(3) have "polls (body_poll_frame B) (hm_body r') fs (Some e)" by simp
  from http_body.body_collect_error [OF assms(1) this] obtain body' where
    "body_collect B (hm_body r') = Inl body'"
    "polls (body_poll_frame B) body' (prefix_frames (buffered_prefix (hm_body r'))) (Some e)" by auto
  then show ?thesis
    using assms(2) by (auto simp: http_response_policy_def PCacheable http_into_cached_def)
qed

lemma failing_body_is_not_cached_witness:
  "\<exists>out gs. http_response_policy scripted_body 0 0 accept entity_policy_default (demo_response 5)
      = Some (NonCacheable out) \<and> polls (body_poll_frame scripted_body) (hm_body out) gs (Some 7)"
proof -
  have p: "accept (demo_response 5) = Some (PCacheable (demo_response 5))"
    by (simp add: accept_def neutral_def)
  have y: "polls (body_poll_frame scripted_body) (hm_body (pr_subject (PCacheable (demo_response 5))))
      [FData [1, 2], FData [3], FTrailers ()] (Some 7)"
    using demo_response_polls(2) by simp
  show ?thesis
    using failing_body_is_not_cached [where predicates = accept, OF scripted.http_body_axioms p y, of 0 0 entity_policy_default] by auto
qed

end
