(* ===== verification/Http_Predicate.thy ===== *)
theory Http_Predicate
  imports Http_Message
begin

text \<open>
  Predicates on the head of an HTTP message (hitbox-http/src/predicates, query.rs): method, path,
  query, header, version and status.  Each wraps an inner predicate and looks at its own part only
  when the inner one accepts.  The query-string parser (\<open>serde_qs\<close>) and the router (\<open>actix_router\<close>)
  are parameters; a parsed query is the list of its entries in the order its hash map iterates.
\<close>

section \<open>Queries\<close>

datatype query_value = QScalar string | QArray "string list"

fun query_inner :: "query_value \<Rightarrow> string list" where
  "query_inner (QScalar value) = [value]"
| "query_inner (QArray values) = values"

definition query_contains :: "query_value \<Rightarrow> string \<Rightarrow> bool" where
  "query_contains self value \<longleftrightarrow> value \<in> set (query_inner self)"

type_synonym query_map = "(string \<times> query_value) list"

type_synonym qs_parser = "nat \<Rightarrow> bool \<Rightarrow> string \<Rightarrow> query_map option"

definition query_parse :: "qs_parser \<Rightarrow> string \<Rightarrow> query_map option" where
  "query_parse Q value = Q 5 False value"

section \<open>A predicate after its inner one\<close>

definition after_inner :: "'s async_predicate \<Rightarrow> ('s \<Rightarrow> bool) \<Rightarrow> 's async_predicate" where
  "after_inner inner is_cacheable subject =
     map_option (\<lambda>res. case res of
         PCacheable s \<Rightarrow> if is_cacheable s then PCacheable s else PNonCacheable s
       | PNonCacheable s \<Rightarrow> PNonCacheable s) (inner subject)"

section \<open>Method\<close>

datatype method_operation = MethodEq string | MethodIn "string list"

record 's method_predicate =
  mp_operation :: method_operation
  mp_inner :: "'s async_predicate"

definition method_new :: "('t \<Rightarrow> 'x + string) \<Rightarrow> 't \<Rightarrow> 'x + 's method_predicate" where
  "method_new try_into m =
     rmap (\<lambda>m. \<lparr>mp_operation = MethodEq m, mp_inner = (\<lambda>s. Some (neutral s))\<rparr>) (try_into m)"

definition method_new_in :: "'s async_predicate \<Rightarrow> string list \<Rightarrow> 's method_predicate" where
  "method_new_in inner methods = \<lparr>mp_operation = MethodIn methods, mp_inner = inner\<rparr>"

definition method_on :: "'s async_predicate \<Rightarrow> string \<Rightarrow> 's method_predicate" where
  "method_on self m = \<lparr>mp_operation = MethodEq m, mp_inner = self\<rparr>"

fun method_matches :: "method_operation \<Rightarrow> string \<Rightarrow> bool" where
  "method_matches (MethodEq m) actual = (m = actual)"
| "method_matches (MethodIn ms) actual = (actual \<in> set ms)"

definition method_check :: "('h, 'u, 'b, 'e) http_request method_predicate \<Rightarrow> ('h, 'u, 'b, 'e) http_request async_predicate" where
  "method_check self =
     after_inner (mp_inner self) (\<lambda>request. method_matches (mp_operation self) (rq_method (hm_parts request)))"

section \<open>Path\<close>

record 'd router =
  rt_from :: "string \<Rightarrow> 'd"
  rt_is_match :: "'d \<Rightarrow> string \<Rightarrow> bool"
  rt_captures :: "'d \<Rightarrow> string \<Rightarrow> (string \<times> string) list"

record ('s, 'd) path_predicate =
  pp_resource :: 'd
  pp_inner :: "'s async_predicate"

definition path_new :: "'d \<Rightarrow> ('s, 'd) path_predicate" where
  "path_new resource = \<lparr>pp_resource = resource, pp_inner = (\<lambda>s. Some (neutral s))\<rparr>"

definition path_on :: "'d router \<Rightarrow> 's async_predicate \<Rightarrow> string \<Rightarrow> ('s, 'd) path_predicate" where
  "path_on R self resource = \<lparr>pp_resource = rt_from R resource, pp_inner = self\<rparr>"

definition path_check ::
  "('h, 'u) http_lib \<Rightarrow> 'd router \<Rightarrow> (('h, 'u, 'b, 'e) http_request, 'd) path_predicate \<Rightarrow> ('h, 'u, 'b, 'e) http_request async_predicate" where
  "path_check L R self =
     after_inner (pp_inner self) (\<lambda>request. rt_is_match R (pp_resource self) (hl_uri_path L (rq_uri (hm_parts request))))"

section \<open>Query\<close>

datatype query_operation = QueryEq string string | QueryExist string | QueryIn string "string list"

record 's query_predicate =
  qp_operation :: query_operation
  qp_inner :: "'s async_predicate"

definition query_new :: "query_operation \<Rightarrow> 's query_predicate" where
  "query_new operation = \<lparr>qp_operation = operation, qp_inner = (\<lambda>s. Some (neutral s))\<rparr>"

definition query_on :: "'s async_predicate \<Rightarrow> query_operation \<Rightarrow> 's query_predicate" where
  "query_on self operation = \<lparr>qp_operation = operation, qp_inner = self\<rparr>"

fun query_matches :: "query_operation \<Rightarrow> query_map \<Rightarrow> bool" where
  "query_matches (QueryEq name value) m = (case map_of m name of Some v \<Rightarrow> query_contains v value | None \<Rightarrow> False)"
| "query_matches (QueryExist name) m = (case map_of m name of Some v \<Rightarrow> True | None \<Rightarrow> False)"
| "query_matches (QueryIn name values) m =
     (case map_of m name of
        Some value \<Rightarrow> (case find (\<lambda>v. query_contains value v) values of Some _ \<Rightarrow> True | None \<Rightarrow> False)
      | None \<Rightarrow> False)"

definition request_query :: "('h, 'u) http_lib \<Rightarrow> qs_parser \<Rightarrow> ('h, 'u, 'b, 'e) http_request \<Rightarrow> query_map option" where
  "request_query L Q request = Option.bind (hl_uri_query L (rq_uri (hm_parts request))) (query_parse Q)"

definition query_check ::
  "('h, 'u) http_lib \<Rightarrow> qs_parser \<Rightarrow> ('h, 'u, 'b, 'e) http_request query_predicate \<Rightarrow> ('h, 'u, 'b, 'e) http_request async_predicate" where
  "query_check L Q self =
     after_inner (qp_inner self) (\<lambda>request.
       case request_query L Q request of
         Some query_map \<Rightarrow> query_matches (qp_operation self) query_map
       | None \<Rightarrow> False)"

section \<open>Header\<close>

datatype header_operation =
    HeaderEq string bytes
  | HeaderExist string
  | HeaderIn string "bytes list"
  | HeaderContains string string
  | HeaderRegex string "string \<Rightarrow> bool"

fun header_operation_check :: "('h, 'u) http_lib \<Rightarrow> header_operation \<Rightarrow> 'h \<Rightarrow> bool" where
  "header_operation_check L (HeaderEq name value) headers = list_ex (\<lambda>header_value. value = header_value) (hl_get_all L headers name)"
| "header_operation_check L (HeaderExist name) headers = (hl_get L headers name \<noteq> None)"
| "header_operation_check L (HeaderIn name values) headers =
     list_ex (\<lambda>header_value. list_ex (\<lambda>v. v = header_value) values) (hl_get_all L headers name)"
| "header_operation_check L (HeaderContains name substring) headers =
     list_ex (\<lambda>header_value. case hl_to_str L header_value of Some s \<Rightarrow> sublist substring s | None \<Rightarrow> False)
       (hl_get_all L headers name)"
| "header_operation_check L (HeaderRegex name is_match) headers =
     list_ex (\<lambda>header_value. case hl_to_str L header_value of Some s \<Rightarrow> is_match s | None \<Rightarrow> False)
       (hl_get_all L headers name)"

record 's header_predicate =
  hp_operation :: header_operation
  hp_inner :: "'s async_predicate"

definition header_new :: "header_operation \<Rightarrow> 's header_predicate" where
  "header_new operation = \<lparr>hp_operation = operation, hp_inner = (\<lambda>s. Some (neutral s))\<rparr>"

definition header_on :: "'s async_predicate \<Rightarrow> header_operation \<Rightarrow> 's header_predicate" where
  "header_on self operation = \<lparr>hp_operation = operation, hp_inner = self\<rparr>"

text \<open>Requests and responses both have headers and a version (\<open>HasHeaders\<close>, \<open>HasVersion\<close>).\<close>

definition request_headers :: "('h, 'u, 'b, 'e) http_request \<Rightarrow> 'h" where
  "request_headers r = rq_headers (hm_parts r)"

definition response_headers :: "('h, 'b, 'e) http_response \<Rightarrow> 'h" where
  "response_headers r = rs_headers (hm_parts r)"

definition header_check :: "('h, 'u) http_lib \<Rightarrow> ('s \<Rightarrow> 'h) \<Rightarrow> 's header_predicate \<Rightarrow> 's async_predicate" where
  "header_check L headers self =
     after_inner (hp_inner self) (\<lambda>subject. header_operation_check L (hp_operation self) (headers subject))"

section \<open>Version\<close>

datatype version_operation = VersionEq http_version | VersionIn "http_version list"

fun version_operation_check :: "version_operation \<Rightarrow> http_version \<Rightarrow> bool" where
  "version_operation_check (VersionEq expected) version = (version = expected)"
| "version_operation_check (VersionIn versions) version = (version \<in> set versions)"

record 's version_predicate =
  vp_operation :: version_operation
  vp_inner :: "'s async_predicate"

definition version_new :: "version_operation \<Rightarrow> 's version_predicate" where
  "version_new operation = \<lparr>vp_operation = operation, vp_inner = (\<lambda>s. Some (neutral s))\<rparr>"

definition version_on :: "'s async_predicate \<Rightarrow> version_operation \<Rightarrow> 's version_predicate" where
  "version_on self operation = \<lparr>vp_operation = operation, vp_inner = self\<rparr>"

definition request_version :: "('h, 'u, 'b, 'e) http_request \<Rightarrow> http_version" where
  "request_version r = rq_version (hm_parts r)"

definition response_version :: "('h, 'b, 'e) http_response \<Rightarrow> http_version" where
  "response_version r = rs_version (hm_parts r)"

definition version_check :: "('s \<Rightarrow> http_version) \<Rightarrow> 's version_predicate \<Rightarrow> 's async_predicate" where
  "version_check version self =
     after_inner (vp_inner self) (\<lambda>subject. version_operation_check (vp_operation self) (version subject))"

section \<open>Status\<close>

datatype status_class = Informational | Success | Redirect | ClientError | ServerError

fun status_class_matches :: "('h, 'u) http_lib \<Rightarrow> status_class \<Rightarrow> nat \<Rightarrow> bool" where
  "status_class_matches L Informational code = hl_is_informational L code"
| "status_class_matches L Success code = hl_is_success L code"
| "status_class_matches L Redirect code = hl_is_redirection L code"
| "status_class_matches L ClientError code = hl_is_client_error L code"
| "status_class_matches L ServerError code = hl_is_server_error L code"

datatype status_operation = StatusEq nat | StatusIn "nat list" | StatusRange nat nat | StatusClassOp status_class

fun status_operation_matches :: "('h, 'u) http_lib \<Rightarrow> status_operation \<Rightarrow> nat \<Rightarrow> bool" where
  "status_operation_matches L (StatusEq expected) status = (status = expected)"
| "status_operation_matches L (StatusIn codes) status = (status \<in> set codes)"
| "status_operation_matches L (StatusRange start end) status = (start \<le> status \<and> status \<le> end)"
| "status_operation_matches L (StatusClassOp class) status = status_class_matches L class status"

record 's status_predicate =
  sp_operation :: status_operation
  sp_inner :: "'s async_predicate"

definition status_new :: "nat \<Rightarrow> 's status_predicate" where
  "status_new code = \<lparr>sp_operation = StatusEq code, sp_inner = (\<lambda>s. Some (neutral s))\<rparr>"

definition status_new_in :: "'s async_predicate \<Rightarrow> nat list \<Rightarrow> 's status_predicate" where
  "status_new_in inner codes = \<lparr>sp_operation = StatusIn codes, sp_inner = inner\<rparr>"

definition status_new_range :: "'s async_predicate \<Rightarrow> nat \<Rightarrow> nat \<Rightarrow> 's status_predicate" where
  "status_new_range inner start end = \<lparr>sp_operation = StatusRange start end, sp_inner = inner\<rparr>"

definition status_new_class :: "'s async_predicate \<Rightarrow> status_class \<Rightarrow> 's status_predicate" where
  "status_new_class inner class = \<lparr>sp_operation = StatusClassOp class, sp_inner = inner\<rparr>"

definition status_code_on :: "'s async_predicate \<Rightarrow> nat \<Rightarrow> 's status_predicate" where
  "status_code_on self code = \<lparr>sp_operation = StatusEq code, sp_inner = self\<rparr>"

definition status_check ::
  "('h, 'u) http_lib \<Rightarrow> ('h, 'b, 'e) http_response status_predicate \<Rightarrow> ('h, 'b, 'e) http_response async_predicate" where
  "status_check L self =
     after_inner (sp_inner self) (\<lambda>response. status_operation_matches L (sp_operation self) (rs_status (hm_parts response)))"

section \<open>Properties\<close>

lemma after_inner_eq:
  "inner s = Some (verdict c s) \<Longrightarrow> after_inner inner f s = Some (verdict (c \<and> f s) s)"
  by (simp add: after_inner_def verdict_def)

lemmas head_checks = method_check_def path_check_def query_check_def header_check_def version_check_def

context http_crate
begin

lemma header_exists: "header_operation_check L (HeaderExist n) h \<longleftrightarrow> hl_get_all L h n \<noteq> []"
  by (simp add: get_first split: list.split)

lemma status_class_ranges:
  "status_operation_matches L (StatusClassOp Success) c = status_operation_matches L (StatusRange 200 299) c"
  "status_operation_matches L (StatusClassOp ClientError) c = status_operation_matches L (StatusRange 400 499) c"
  by (auto simp: status_class)

end

definition head_accepts ::
  "('h, 'u) http_lib \<Rightarrow> qs_parser \<Rightarrow> 'd router \<Rightarrow> string \<Rightarrow> string \<Rightarrow> query_operation \<Rightarrow> header_operation \<Rightarrow> version_operation
     \<Rightarrow> ('h, 'u) request_parts \<Rightarrow> bool" where
  "head_accepts L Q R m pattern qop hop vop parts \<longleftrightarrow>
     rq_method parts = m \<and> rt_is_match R (rt_from R pattern) (hl_uri_path L (rq_uri parts)) \<and>
     (case hl_uri_query L (rq_uri parts) of
        Some q \<Rightarrow> (case Q 5 False q of Some query_map \<Rightarrow> query_matches qop query_map | None \<Rightarrow> False)
      | None \<Rightarrow> False) \<and>
     header_operation_check L hop (rq_headers parts) \<and> version_operation_check vop (rq_version parts)"

text \<open>A chain of request predicates, one of each kind, accepts exactly the requests that every one of
  them accepts, each looking at its own part; the request comes back with its head unchanged.\<close>

lemma request_predicates_conjoin:
  assumes "http_body B" and "method_new try_into m0 = Inr mp" and "try_into m0 = Inr m"
    and "polls (body_poll_frame B) (hm_body request) fs r" and "\<not> error_yielded (hm_body request)"
    and "limit_below_max bop"
  shows "\<exists>p. body_predicate_check B J (body_predicate_on (version_check request_version (version_on
        (header_check L request_headers (header_on (query_check L Q (query_on (path_check L R (path_on R
        (method_check mp) pattern)) qop)) hop)) vop)) bop) request = Some p \<and>
    hm_parts (pr_subject p) = hm_parts request \<and>
    (pr_cacheable p \<longleftrightarrow> head_accepts L Q R m pattern qop hop vop (hm_parts request) \<and>
       operation_accepts J bop (body_bytes fs) r \<and> hint_within B bop (hm_body request))"
proof -
  let ?chain = "version_check request_version (version_on (header_check L request_headers (header_on
      (query_check L Q (query_on (path_check L R (path_on R (method_check mp) pattern)) qop)) hop)) vop)"
  have n: "mp_inner mp request = Some (verdict True request)" and mp: "mp_operation mp = MethodEq m"
    using assms(2,3) by (auto simp: method_new_def neutral_def verdict_def)
  have inner: "?chain request = Some (verdict (head_accepts L Q R m pattern qop hop vop (hm_parts request)) request)"
    unfolding head_checks path_on_def query_on_def header_on_def version_on_def
    using after_inner_eq [of "mp_inner mp", OF n]
    by (auto simp: after_inner_eq mp head_accepts_def request_query_def query_parse_def request_headers_def
        request_version_def intro!: arg_cong [where f = "\<lambda>c. verdict c request"] split: option.split)
  show ?thesis
    using http_body.operation_spec [OF assms(1,4,6), of J] assms(5)
    by (auto simp: body_predicate_check_eq [OF _ _, of _ _ "verdict _ request"] body_predicate_on_def inner)
qed

text \<open>A router whose patterns are prefixes, a query parser that knows one query, and a request.\<close>

definition demo_router :: "string router" where
  "demo_router = \<lparr>rt_from = id, rt_is_match = (\<lambda>d path. Sublist.prefix d path),
     rt_captures = (\<lambda>d path. [(''rest'', drop (length d) path)])\<rparr>"

definition demo_qs :: qs_parser where
  "demo_qs depth strict s = (if s = ''page=1&tag[]=a&tag[]=b'' then Some [(''page'', QScalar ''1''), (''tag'', QArray [''a'', ''b''])] else None)"

definition demo_request ::
  "((string \<times> bytes) list, string \<times> string option, (nat + unit http_frame) poll list, nat) http_request" where
  "demo_request = \<lparr>hm_parts = \<lparr>rq_method = ''GET'', rq_uri = (''/users/7'', Some ''page=1&tag[]=a&tag[]=b''),
       rq_version = HTTP_11, rq_headers = [(''accept'', bytes_of_str ''text'')]\<rparr>,
     hm_body = Passthrough demo_stream\<rparr>"

lemma request_predicates_conjoin_witness:
  "\<exists>p. body_predicate_check scripted_body demo_jq (body_predicate_on (version_check request_version (version_on
        (header_check demo_http request_headers (header_on (query_check demo_http demo_qs (query_on (path_check demo_http demo_router
        (path_on demo_router (method_check \<lparr>mp_operation = MethodEq ''GET'', mp_inner = accept\<rparr>) ''/users/''))
        (QueryEq ''tag'' ''b''))) (HeaderExist ''accept''))) (VersionIn [HTTP_2, HTTP_11]))) (Plain (PlainStarts [1]))) demo_request = Some p \<and>
    pr_cacheable p"
proof -
  let ?new = "method_new (Inr :: string \<Rightarrow> unit + string) ''GET''"
  have n: "?new = Inr \<lparr>mp_operation = MethodEq ''GET'', mp_inner = accept\<rparr>"
    by (simp add: method_new_def accept_def fun_eq_iff)
  have y: "polls (body_poll_frame scripted_body) (hm_body demo_request) [FData [1, 2], FData [3], FTrailers ()] (Some 7)"
    using demo_stream_polls by (simp add: demo_request_def)
  have acc: "head_accepts demo_http demo_qs demo_router ''GET'' ''/users/'' (QueryEq ''tag'' ''b'') (HeaderExist ''accept'')
      (VersionIn [HTTP_2, HTTP_11]) (hm_parts demo_request)"
    by (simp add: head_accepts_def demo_request_def demo_router_def demo_qs_def demo_http_def query_contains_def)
  have e: "\<not> error_yielded (hm_body demo_request)" "limit_below_max (Plain (PlainStarts [1]))"
    by (simp_all add: demo_request_def)
  show ?thesis
    using request_predicates_conjoin [OF scripted.http_body_axioms n refl y e(1,2), of demo_jq demo_http demo_qs demo_router
        "''/users/''" "QueryEq ''tag'' ''b''" "HeaderExist ''accept''" "VersionIn [HTTP_2, HTTP_11]"] acc
    by auto
qed

end
