(* ===== verification/Config_Predicate.thy ===== *)
theory Config_Predicate
  imports Http_Predicate
begin

text \<open>
  Predicates from a configuration file (hitbox-configuration/src/predicates): the parsed forms and
  the functions that turn them into predicates wrapped around an inner one.  The parsers of third
  parties (HTTP tokens, regular expressions, jq, upper case) are the parameter \<open>config_lib\<close>, and what the
  predicates themselves need is gathered in \<open>http_libs\<close>.  An \<open>IndexMap\<close> is the list of its entries in
  insertion order; the tree forms are mutually recursive as in the code.
\<close>

section \<open>Libraries and errors\<close>

record ('f, 'j) config_lib =
  cl_method :: "string \<Rightarrow> string option"
  cl_header_name :: "string \<Rightarrow> string option"
  cl_header_value :: "string \<Rightarrow> bytes option"
  cl_regex :: "string \<Rightarrow> (string \<Rightarrow> bool) option"
  cl_bytes_regex :: "string \<Rightarrow> (bytes \<Rightarrow> bool) option"
  cl_jq_compile :: "string \<Rightarrow> string + 'f"
  cl_json_true :: 'j
  cl_upper :: "string \<Rightarrow> string"

record ('b, 'y, 'e, 'h, 'u, 'd, 'f, 'j, 'v, 'x) http_libs =
  ll_body :: "('b, 'y, 'e) body_ops"
  ll_jq :: "('f, 'j, 'v, 'x) jq_lib"
  ll_http :: "('h, 'u) http_lib"
  ll_router :: "'d router"
  ll_qs :: qs_parser
  ll_config :: "('f, 'j) config_lib"

datatype config_error =
    InvalidHeaderName string
  | InvalidHeaderValue string
  | InvalidMethod string
  | InvalidStatusCode nat
  | InvalidVersion string
  | InvalidRegex string
  | InvalidPredicate string
  | BackendNotAvailable string
  | EmptyPathList

definition ok_or :: "'e \<Rightarrow> 'a option \<Rightarrow> ('a, 'e) result" where
  "ok_or e x = (case x of Some v \<Rightarrow> Ok v | None \<Rightarrow> Err e)"

text \<open>Collecting an iterator of results: the first error wins.\<close>

fun collect_ok :: "('a, 'e) result list \<Rightarrow> ('a list, 'e) result" where
  "collect_ok [] = Ok []"
| "collect_ok (Inl e # rs) = Err e"
| "collect_ok (Inr v # rs) = rmap ((#) v) (collect_ok rs)"

fun try_rfold :: "('x \<Rightarrow> 'acc \<Rightarrow> ('acc, 'e) result) \<Rightarrow> 'acc \<Rightarrow> 'x list \<Rightarrow> ('acc, 'e) result" where
  "try_rfold f init [] = Ok init"
| "try_rfold f init (x # xs) = rbind (try_rfold f init xs) (f x)"

section \<open>Combinators of async predicates\<close>

definition async_not :: "'s async_predicate \<Rightarrow> 's async_predicate" where
  "async_not p s = map_option (\<lambda>r. case r of PCacheable s \<Rightarrow> PNonCacheable s | PNonCacheable s \<Rightarrow> PCacheable s) (p s)"

definition async_or :: "'s async_predicate \<Rightarrow> 's async_predicate \<Rightarrow> 's async_predicate" where
  "async_or left right s =
     Option.bind (left s) (\<lambda>r. case r of PNonCacheable s \<Rightarrow> right s | PCacheable s \<Rightarrow> Some (PCacheable s))"

section \<open>Body, header and version operations\<close>

datatype 'j jq_operation_config = CJqEq 'j | CJqExist bool | CJqIn "'j list"

datatype 'j jq_config = JqImplicit string | JqExplicit string "'j jq_operation_config"

datatype 'j body_operation_config =
    CBodyContains string
  | CBodyStarts string
  | CBodyEnds string
  | CBodyEq string
  | CBodyRegex string
  | CBodyLimit nat
  | CBodyJq "'j jq_config"

fun jq_operation_of :: "'j jq_operation_config \<Rightarrow> 'j jq_operation" where
  "jq_operation_of (CJqEq v) = JqEq v"
| "jq_operation_of (CJqExist _) = JqExist"
| "jq_operation_of (CJqIn vs) = JqIn vs"

fun into_body_operation ::
  "('f, 'j) config_lib \<Rightarrow> 'j body_operation_config \<Rightarrow> (('f, 'j) body_operation, config_error) result" where
  "into_body_operation C (CBodyContains s) = Ok (Plain (PlainContains (bytes_of_str s)))"
| "into_body_operation C (CBodyStarts s) = Ok (Plain (PlainStarts (bytes_of_str s)))"
| "into_body_operation C (CBodyEnds s) = Ok (Plain (PlainEnds (bytes_of_str s)))"
| "into_body_operation C (CBodyEq s) = Ok (Plain (PlainEq (bytes_of_str s)))"
| "into_body_operation C (CBodyRegex pattern) =
     rmap (\<lambda>regex. Plain (PlainRegExp regex)) (ok_or (InvalidRegex pattern) (cl_bytes_regex C pattern))"
| "into_body_operation C (CBodyLimit bytes) = Ok (Limit bytes)"
| "into_body_operation C (CBodyJq cfg) =
     (let (expression_str, operation) =
        (case cfg of
           JqImplicit expr \<Rightarrow> (expr, JqEq (cl_json_true C))
         | JqExplicit expression operation \<Rightarrow> (expression, jq_operation_of operation))
      in case cl_jq_compile C expression_str of
           Inl e \<Rightarrow> Err (InvalidPredicate e)
         | Inr expression \<Rightarrow> Ok (Jq expression operation))"

definition body_into_predicates ::
  "('f, 'j) config_lib \<Rightarrow> 'j body_operation_config \<Rightarrow> 's async_predicate \<Rightarrow> (('s, 'f, 'j) body_predicate, config_error) result" where
  "body_into_predicates C self inner = rmap (body_predicate_on inner) (into_body_operation C self)"

datatype header_value_operation =
    HvoEq string | HvoIn "string list" | HvoContains string | HvoRegex string | HvoExist

datatype header_value_config = HvEq string | HvIn "string list" | HvOperation header_value_operation

type_synonym header_map_config = "(string \<times> header_value_config) list"

definition parse_header_name :: "('f, 'j) config_lib \<Rightarrow> string \<Rightarrow> (string, config_error) result" where
  "parse_header_name C name = ok_or (InvalidHeaderName name) (cl_header_name C name)"

definition parse_header_value :: "('f, 'j) config_lib \<Rightarrow> string \<Rightarrow> (bytes, config_error) result" where
  "parse_header_value C value = ok_or (InvalidHeaderValue value) (cl_header_value C value)"

definition parse_header_values :: "('f, 'j) config_lib \<Rightarrow> string list \<Rightarrow> (bytes list, config_error) result" where
  "parse_header_values C values = collect_ok (map (parse_header_value C) values)"

fun header_value_to_operation ::
  "('f, 'j) config_lib \<Rightarrow> string \<Rightarrow> header_value_config \<Rightarrow> (header_operation, config_error) result" where
  "header_value_to_operation C name (HvEq value) = rmap (HeaderEq name) (parse_header_value C value)"
| "header_value_to_operation C name (HvIn values) = rmap (HeaderIn name) (parse_header_values C values)"
| "header_value_to_operation C name (HvOperation (HvoEq value)) = rmap (HeaderEq name) (parse_header_value C value)"
| "header_value_to_operation C name (HvOperation (HvoIn values)) = rmap (HeaderIn name) (parse_header_values C values)"
| "header_value_to_operation C name (HvOperation (HvoContains substring)) = Ok (HeaderContains name substring)"
| "header_value_to_operation C name (HvOperation (HvoRegex pattern)) =
     rmap (HeaderRegex name) (ok_or (InvalidRegex pattern) (cl_regex C pattern))"
| "header_value_to_operation C name (HvOperation HvoExist) = Ok (HeaderExist name)"

definition headers_into_predicates ::
  "('f, 'j) config_lib \<Rightarrow> ('h, 'u) http_lib \<Rightarrow> ('s \<Rightarrow> 'h) \<Rightarrow> header_map_config \<Rightarrow> 's async_predicate
     \<Rightarrow> ('s async_predicate, config_error) result" where
  "headers_into_predicates C L get_headers headers inner =
     try_rfold (\<lambda>(header_name, header_value) inner.
         rbind (parse_header_name C header_name) (\<lambda>name.
         rbind (header_value_to_operation C name header_value) (\<lambda>operation.
         Ok (header_check L get_headers (header_on inner operation)))))
       inner headers"

datatype version_operation_config = CVersionEq string | CVersionIn "string list"

definition parse_version :: "('f, 'j) config_lib \<Rightarrow> string \<Rightarrow> (http_version, config_error) result" where
  "parse_version C version =
     (let v = cl_upper C version in
      if v \<in> {''HTTP/0.9'', ''0.9''} then Ok HTTP_09
      else if v \<in> {''HTTP/1.0'', ''1.0''} then Ok HTTP_10
      else if v \<in> {''HTTP/1.1'', ''1.1''} then Ok HTTP_11
      else if v \<in> {''HTTP/2'', ''HTTP/2.0'', ''2'', ''2.0''} then Ok HTTP_2
      else if v \<in> {''HTTP/3'', ''HTTP/3.0'', ''3'', ''3.0''} then Ok HTTP_3
      else Err (InvalidVersion version))"

definition parse_versions :: "('f, 'j) config_lib \<Rightarrow> string list \<Rightarrow> (http_version list, config_error) result" where
  "parse_versions C versions = collect_ok (map (parse_version C) versions)"

fun into_version_operation ::
  "('f, 'j) config_lib \<Rightarrow> version_operation_config \<Rightarrow> (version_operation, config_error) result" where
  "into_version_operation C (CVersionEq version) = rmap VersionEq (parse_version C version)"
| "into_version_operation C (CVersionIn versions) = rmap VersionIn (parse_versions C versions)"

definition version_into_predicates ::
  "('f, 'j) config_lib \<Rightarrow> version_operation_config \<Rightarrow> 's async_predicate \<Rightarrow> ('s version_predicate, config_error) result" where
  "version_into_predicates C operation inner = rmap (version_on inner) (into_version_operation C operation)"

section \<open>Requests: the single predicates\<close>

datatype method_config = CMethodEq string | CMethodIn "string list"

definition parse_method :: "('f, 'j) config_lib \<Rightarrow> string \<Rightarrow> (string, config_error) result" where
  "parse_method C m = ok_or (InvalidMethod m) (cl_method C m)"

definition parse_methods :: "('f, 'j) config_lib \<Rightarrow> string list \<Rightarrow> (string list, config_error) result" where
  "parse_methods C ms = collect_ok (map (parse_method C) ms)"

fun method_into_predicates ::
  "('f, 'j) config_lib \<Rightarrow> method_config \<Rightarrow> ('h, 'u, 'b, 'e) http_request async_predicate
     \<Rightarrow> (('h, 'u, 'b, 'e) http_request async_predicate, config_error) result" where
  "method_into_predicates C (CMethodEq m) inner =
     rmap (\<lambda>http_method. method_check (method_on inner http_method)) (parse_method C m)"
| "method_into_predicates C (CMethodIn ms) inner =
     rmap (\<lambda>http_methods. method_check (method_new_in inner http_methods)) (parse_methods C ms)"

datatype path_config = CPathPattern string | CPathIn "string list"

fun reduce :: "('a \<Rightarrow> 'a \<Rightarrow> 'a) \<Rightarrow> 'a list \<Rightarrow> 'a option" where
  "reduce f [] = None"
| "reduce f (x # xs) = Some (foldl f x xs)"

fun path_into_predicates ::
  "('h, 'u) http_lib \<Rightarrow> 'd router \<Rightarrow> path_config \<Rightarrow> ('h, 'u, 'b, 'e) http_request async_predicate
     \<Rightarrow> (('h, 'u, 'b, 'e) http_request async_predicate, config_error) result" where
  "path_into_predicates L R (CPathPattern pattern) inner = Ok (path_check L R (path_on R inner pattern))"
| "path_into_predicates L R (CPathIn patterns) inner =
     ok_or EmptyPathList
       (reduce (\<lambda>acc predicate. async_or predicate acc)
         (map (\<lambda>pattern. path_check L R (path_new (rt_from R pattern))) patterns))"

datatype query_param_value = QpString string | QpInteger int | QpBoolean bool

fun query_param_to_string :: "query_param_value \<Rightarrow> string" where
  "query_param_to_string (QpString s) = s"
| "query_param_to_string (QpInteger i) = show_int i"
| "query_param_to_string (QpBoolean b) = (if b then ''true'' else ''false'')"

datatype param_operation =
    ExplicitEq query_param_value
  | ExplicitIn "query_param_value list"
  | ExplicitExists
  | ImplicitIn "query_param_value list"
  | ImplicitEq query_param_value

datatype param_operation_canonical = POEq string | POIn "string list" | POExists

fun param_to_operation :: "param_operation \<Rightarrow> param_operation_canonical" where
  "param_to_operation (ExplicitEq v) = POEq (query_param_to_string v)"
| "param_to_operation (ImplicitEq v) = POEq (query_param_to_string v)"
| "param_to_operation (ExplicitIn vs) = POIn (map query_param_to_string vs)"
| "param_to_operation (ImplicitIn vs) = POIn (map query_param_to_string vs)"
| "param_to_operation ExplicitExists = POExists"

definition query_into_predicates ::
  "('h, 'u) http_lib \<Rightarrow> qs_parser \<Rightarrow> (string \<times> param_operation) list \<Rightarrow> ('h, 'u, 'b, 'e) http_request async_predicate
     \<Rightarrow> (('h, 'u, 'b, 'e) http_request async_predicate, config_error) result" where
  "query_into_predicates L Q params inner =
     Ok (foldr (\<lambda>(key, param_op) inner.
         case param_to_operation param_op of
           POEq value \<Rightarrow> query_check L Q (query_on inner (QueryEq key value))
         | POIn values \<Rightarrow> query_check L Q (query_on inner (QueryIn key values))
         | POExists \<Rightarrow> query_check L Q (query_on inner (QueryExist key)))
       params inner)"

datatype 'j request_predicate_config =
    RMethod method_config
  | RPath path_config
  | RQuery "(string \<times> param_operation) list"
  | RHeader header_map_config
  | RBody "'j body_operation_config"
  | RVersion version_operation_config

fun request_predicate_into ::
  "('b, 'y, 'e, 'h, 'u, 'd, 'f, 'j, 'v, 'x) http_libs \<Rightarrow> 'j request_predicate_config
     \<Rightarrow> ('h, 'u, 'b, 'e) http_request async_predicate \<Rightarrow> (('h, 'u, 'b, 'e) http_request async_predicate, config_error) result" where
  "request_predicate_into A (RMethod m) inner = method_into_predicates (ll_config A) m inner"
| "request_predicate_into A (RPath p) inner = path_into_predicates (ll_http A) (ll_router A) p inner"
| "request_predicate_into A (RQuery q) inner = query_into_predicates (ll_http A) (ll_qs A) q inner"
| "request_predicate_into A (RHeader h) inner = headers_into_predicates (ll_config A) (ll_http A) request_headers h inner"
| "request_predicate_into A (RBody b) inner =
     rmap (body_predicate_check (ll_body A) (ll_jq A)) (body_into_predicates (ll_config A) b inner)"
| "request_predicate_into A (RVersion v) inner =
     rmap (version_check request_version) (version_into_predicates (ll_config A) v inner)"

section \<open>Requests: trees\<close>

datatype 'j request_expression =
    ROperation "'j request_operation"
  | RPredicate "'j request_predicate_config"
and 'j request_operation =
    RAnd "'j request_expression list"
  | ROr "'j request_expression list"
  | RNot "'j request_expression"

text \<open>The folds over the operands are written out (\<open>try_rfold\<close> for \<open>And\<close>, \<open>try_fold\<close> for \<open>Or\<close>).\<close>

fun request_expression_into ::
    "('b, 'y, 'e, 'h, 'u, 'd, 'f, 'j, 'v, 'x) http_libs \<Rightarrow> 'j request_expression
      \<Rightarrow> ('h, 'u, 'b, 'e) http_request async_predicate \<Rightarrow> (('h, 'u, 'b, 'e) http_request async_predicate, config_error) result"
  and request_operation_into ::
    "('b, 'y, 'e, 'h, 'u, 'd, 'f, 'j, 'v, 'x) http_libs \<Rightarrow> 'j request_operation
      \<Rightarrow> ('h, 'u, 'b, 'e) http_request async_predicate \<Rightarrow> (('h, 'u, 'b, 'e) http_request async_predicate, config_error) result"
  and request_and_into ::
    "('b, 'y, 'e, 'h, 'u, 'd, 'f, 'j, 'v, 'x) http_libs \<Rightarrow> 'j request_expression list
      \<Rightarrow> ('h, 'u, 'b, 'e) http_request async_predicate \<Rightarrow> (('h, 'u, 'b, 'e) http_request async_predicate, config_error) result"
  and request_or_into ::
    "('b, 'y, 'e, 'h, 'u, 'd, 'f, 'j, 'v, 'x) http_libs \<Rightarrow> 'j request_expression list
      \<Rightarrow> ('h, 'u, 'b, 'e) http_request async_predicate \<Rightarrow> (('h, 'u, 'b, 'e) http_request async_predicate, config_error) result" where
  "request_expression_into A (RPredicate p) inner = request_predicate_into A p inner"
| "request_expression_into A (ROperation op) inner = request_operation_into A op inner"
| "request_operation_into A (ROr predicates) inner =
     (case predicates of
        [] \<Rightarrow> Ok inner
      | first # rest \<Rightarrow> rbind (request_expression_into A first async_neutral) (request_or_into A rest))"
| "request_operation_into A (RAnd predicates) inner = request_and_into A predicates inner"
| "request_operation_into A (RNot expression) inner =
     rmap async_not (request_expression_into A expression async_neutral)"
| "request_and_into A [] inner = Ok inner"
| "request_and_into A (predicate # predicates) inner =
     rbind (request_and_into A predicates inner) (request_expression_into A predicate)"
| "request_or_into A [] acc = Ok acc"
| "request_or_into A (predicate # predicates) acc =
     rbind (request_expression_into A predicate async_neutral)
       (\<lambda>p. request_or_into A predicates (async_or p acc))"

datatype 'j request_config = RFlat "'j request_predicate_config list" | RTree "'j request_expression"

fun request_into_predicates ::
  "('b, 'y, 'e, 'h, 'u, 'd, 'f, 'j, 'v, 'x) http_libs \<Rightarrow> 'j request_config
     \<Rightarrow> (('h, 'u, 'b, 'e) http_request async_predicate, config_error) result" where
  "request_into_predicates A (RFlat predicates) = try_rfold (request_predicate_into A) async_neutral predicates"
| "request_into_predicates A (RTree expression) = request_expression_into A expression async_neutral"

section \<open>Responses\<close>

datatype status_eq = SeExplicit nat | SeImplicit nat

fun se_status :: "status_eq \<Rightarrow> nat" where
  "se_status (SeExplicit eq) = eq"
| "se_status (SeImplicit val) = val"

datatype status_in = SiExplicit "nat list" | SiImplicit "nat list"

fun si_statuses :: "status_in \<Rightarrow> nat list" where
  "si_statuses (SiExplicit vals) = vals"
| "si_statuses (SiImplicit vals) = vals"

datatype status_class_config = ScExplicit status_class | ScImplicit status_class

fun sc_class :: "status_class_config \<Rightarrow> status_class" where
  "sc_class (ScExplicit class) = class"
| "sc_class (ScImplicit class) = class"

text \<open>A range is read from its two codes, which must not be zero nor out of order.\<close>

record status_range =
  sr_range :: "nat \<times> nat"

definition status_range_deserialize :: "nat \<times> nat \<Rightarrow> status_range option" where
  "status_range_deserialize codes =
     (case codes of (start, end) \<Rightarrow>
        if start = 0 \<or> end = 0 then None
        else if start > end then None
        else Some \<lparr>sr_range = codes\<rparr>)"

datatype status_config = CStatusRange status_range | CStatusClass status_class_config | CStatusEq status_eq | CStatusIn status_in

definition parse_status_code :: "('h, 'u) http_lib \<Rightarrow> nat \<Rightarrow> (nat, config_error) result" where
  "parse_status_code L code = ok_or (InvalidStatusCode code) (hl_status_from_u16 L code)"

definition parse_status_codes :: "('h, 'u) http_lib \<Rightarrow> nat list \<Rightarrow> (nat list, config_error) result" where
  "parse_status_codes L codes = collect_ok (map (parse_status_code L) codes)"

fun status_into_predicates ::
  "('h, 'u) http_lib \<Rightarrow> status_config \<Rightarrow> ('h, 'b, 'e) http_response async_predicate
     \<Rightarrow> (('h, 'b, 'e) http_response async_predicate, config_error) result" where
  "status_into_predicates L (CStatusEq eq) inner =
     rmap (\<lambda>status. status_check L (status_code_on inner status)) (parse_status_code L (se_status eq))"
| "status_into_predicates L (CStatusIn ins) inner =
     rmap (\<lambda>status_codes. status_check L (status_new_in inner status_codes)) (parse_status_codes L (si_statuses ins))"
| "status_into_predicates L (CStatusRange rng) inner =
     rbind (parse_status_code L (fst (sr_range rng))) (\<lambda>start.
     rbind (parse_status_code L (snd (sr_range rng))) (\<lambda>end.
     Ok (status_check L (status_new_range inner start end))))"
| "status_into_predicates L (CStatusClass class) inner = Ok (status_check L (status_new_class inner (sc_class class)))"

datatype 'j response_predicate_config =
    PStatus status_config
  | PBody "'j body_operation_config"
  | PHeader header_map_config
  | PVersion version_operation_config

fun response_predicate_into ::
  "('b, 'y, 'e, 'h, 'u, 'd, 'f, 'j, 'v, 'x) http_libs \<Rightarrow> 'j response_predicate_config
     \<Rightarrow> ('h, 'b, 'e) http_response async_predicate \<Rightarrow> (('h, 'b, 'e) http_response async_predicate, config_error) result" where
  "response_predicate_into A (PStatus st) inner = status_into_predicates (ll_http A) st inner"
| "response_predicate_into A (PBody b) inner =
     rmap (body_predicate_check (ll_body A) (ll_jq A)) (body_into_predicates (ll_config A) b inner)"
| "response_predicate_into A (PHeader h) inner = headers_into_predicates (ll_config A) (ll_http A) response_headers h inner"
| "response_predicate_into A (PVersion v) inner =
     rmap (version_check response_version) (version_into_predicates (ll_config A) v inner)"

datatype 'j response_expression =
    PPredicate "'j response_predicate_config"
  | POperation "'j response_operation"
and 'j response_operation =
    PAnd "'j response_expression list"
  | POr "'j response_expression list"

fun response_expression_into ::
    "('b, 'y, 'e, 'h, 'u, 'd, 'f, 'j, 'v, 'x) http_libs \<Rightarrow> 'j response_expression
      \<Rightarrow> ('h, 'b, 'e) http_response async_predicate \<Rightarrow> (('h, 'b, 'e) http_response async_predicate, config_error) result"
  and response_operation_into ::
    "('b, 'y, 'e, 'h, 'u, 'd, 'f, 'j, 'v, 'x) http_libs \<Rightarrow> 'j response_operation
      \<Rightarrow> ('h, 'b, 'e) http_response async_predicate \<Rightarrow> (('h, 'b, 'e) http_response async_predicate, config_error) result"
  and response_and_into ::
    "('b, 'y, 'e, 'h, 'u, 'd, 'f, 'j, 'v, 'x) http_libs \<Rightarrow> 'j response_expression list
      \<Rightarrow> ('h, 'b, 'e) http_response async_predicate \<Rightarrow> (('h, 'b, 'e) http_response async_predicate, config_error) result"
  and response_or_into ::
    "('b, 'y, 'e, 'h, 'u, 'd, 'f, 'j, 'v, 'x) http_libs \<Rightarrow> 'j response_expression list
      \<Rightarrow> ('h, 'b, 'e) http_response async_predicate \<Rightarrow> (('h, 'b, 'e) http_response async_predicate, config_error) result" where
  "response_expression_into A (PPredicate p) inner = response_predicate_into A p inner"
| "response_expression_into A (POperation op) inner = response_operation_into A op inner"
| "response_operation_into A (POr predicates) inner =
     (case predicates of
        [] \<Rightarrow> Ok inner
      | first # rest \<Rightarrow> rbind (response_expression_into A first async_neutral) (response_or_into A rest))"
| "response_operation_into A (PAnd predicates) inner = response_and_into A predicates inner"
| "response_and_into A [] inner = Ok inner"
| "response_and_into A (predicate # predicates) inner =
     rbind (response_expression_into A predicate inner) (response_and_into A predicates)"
| "response_or_into A [] acc = Ok acc"
| "response_or_into A (predicate # predicates) acc =
     rbind (response_expression_into A predicate async_neutral)
       (\<lambda>p. response_or_into A predicates (async_or p acc))"

datatype 'j response_config = PFlat "'j response_predicate_config list" | PTree "'j response_expression"

fun response_into_predicates ::
  "('b, 'y, 'e, 'h, 'u, 'd, 'f, 'j, 'v, 'x) http_libs \<Rightarrow> 'j response_config
     \<Rightarrow> (('h, 'b, 'e) http_response async_predicate, config_error) result" where
  "response_into_predicates A (PFlat predicates) = try_rfold (response_predicate_into A) async_neutral predicates"
| "response_into_predicates A (PTree expression) = response_expression_into A expression async_neutral"

end
