(* ===== verification/Http_Extractor.thy ===== *)
theory Http_Extractor
  imports Http_Predicate "HOL-Library.Multiset" "HOL-Library.List_Lexorder" "HOL-Library.Char_ord"
begin

text \<open>
  Extractors of cache keys from HTTP requests (hitbox-http/src/extractors): method, path, header,
  query, version and body, each adding its parts after those of its inner extractor, and the
  transforms of the values.  SHA-256 with its hexadecimal form and the Unicode case mappings are
  parameters (\<open>text_lib\<close>); a regular expression is the record of what it matches; a \<open>HashMap\<close> is the
  list of its entries in iteration order.
\<close>

section \<open>Transforms\<close>

record text_lib =
  tl_sha256 :: "bytes \<Rightarrow> bytes"
  tl_hex :: "bytes \<Rightarrow> string"
  tl_lower :: "string \<Rightarrow> string"
  tl_upper :: "string \<Rightarrow> string"

datatype transform = Hash | Lowercase | Uppercase

definition apply_hash :: "text_lib \<Rightarrow> string \<Rightarrow> string" where
  "apply_hash T value = (let result = tl_sha256 T (bytes_of_str value) in tl_hex T (take 8 result))"

fun apply_single_transform :: "text_lib \<Rightarrow> string \<Rightarrow> transform \<Rightarrow> string" where
  "apply_single_transform T value Hash = apply_hash T value"
| "apply_single_transform T value Lowercase = tl_lower T value"
| "apply_single_transform T value Uppercase = tl_upper T value"

definition apply_transform_chain :: "text_lib \<Rightarrow> string \<Rightarrow> transform list \<Rightarrow> string" where
  "apply_transform_chain T value chain = foldl (apply_single_transform T) value chain"

record captures =
  cap_get :: "nat \<Rightarrow> string option"
  cap_name :: "string \<Rightarrow> string option"

record regex =
  rx_names :: "string list"
  rx_captures :: "string \<Rightarrow> captures option"
  rx_captures_iter :: "string \<Rightarrow> captures list"

definition first_group :: "captures \<Rightarrow> string option" where
  "first_group caps = (case cap_get caps 1 of Some m \<Rightarrow> Some m | None \<Rightarrow> cap_get caps 0)"

datatype name_selector = Exact string | Starts string

datatype value_extractor = Full | Regex regex

section \<open>Method, version, path\<close>

text \<open>Every extractor runs the one it wraps on the request; a chain starts with the neutral one.\<close>

definition neutral_extractor :: "'s extractor" where
  "neutral_extractor subject = key_parts_new subject"

definition method_get :: "('h, 'u, 'b, 'e) http_request extractor \<Rightarrow> ('h, 'u, 'b, 'e) http_request extractor" where
  "method_get inner subject =
     (let m = rq_method (hm_parts subject) in
      key_parts_push (key_part_new ''method'' (Some m)) (inner subject))"

definition version_get ::
  "('h, 'u) http_lib \<Rightarrow> ('h, 'u, 'b, 'e) http_request extractor \<Rightarrow> ('h, 'u, 'b, 'e) http_request extractor" where
  "version_get L inner subject =
     (let version = hl_version_debug L (rq_version (hm_parts subject)) in
      key_parts_push (key_part_new ''version'' (Some version)) (inner subject))"

definition path_get ::
  "('h, 'u) http_lib \<Rightarrow> 'd router \<Rightarrow> 'd \<Rightarrow> ('h, 'u, 'b, 'e) http_request extractor \<Rightarrow> ('h, 'u, 'b, 'e) http_request extractor" where
  "path_get L R resource inner subject =
     (let matched_parts = map (\<lambda>(key, value). key_part_new key (Some value))
            (rt_captures R resource (hl_uri_path L (rq_uri (hm_parts subject))))
      in key_parts_append matched_parts (inner subject))"

section \<open>Header\<close>

record 's header_extractor =
  he_inner :: "'s extractor"
  he_name_selector :: name_selector
  he_value_extractor :: value_extractor
  he_transforms :: "transform list"

definition header_extractor_new :: "string \<Rightarrow> 's header_extractor" where
  "header_extractor_new name =
     \<lparr>he_inner = neutral_extractor, he_name_selector = Exact name, he_value_extractor = Full, he_transforms = []\<rparr>"

definition header_extractor_with ::
  "'s extractor \<Rightarrow> name_selector \<Rightarrow> value_extractor \<Rightarrow> transform list \<Rightarrow> 's header_extractor" where
  "header_extractor_with inner sel ext transforms =
     \<lparr>he_inner = inner, he_name_selector = sel, he_value_extractor = ext, he_transforms = transforms\<rparr>"

definition header_extractor_on :: "'s extractor \<Rightarrow> string \<Rightarrow> 's header_extractor" where
  "header_extractor_on self name =
     \<lparr>he_inner = self, he_name_selector = Exact name, he_value_extractor = Full, he_transforms = []\<rparr>"

definition header_extract_value :: "('h, 'u) http_lib \<Rightarrow> value_extractor \<Rightarrow> bytes \<Rightarrow> string option" where
  "header_extract_value L extractor value =
     Option.bind (hl_to_str L value) (\<lambda>value_str.
       case extractor of
         Full \<Rightarrow> Some value_str
       | Regex regex \<Rightarrow> Option.bind (rx_captures regex value_str) first_group)"

definition header_parts ::
  "('h, 'u) http_lib \<Rightarrow> text_lib \<Rightarrow> 's header_extractor \<Rightarrow> 'h \<Rightarrow> key_part list" where
  "header_parts L T self headers =
     (let value_of = (\<lambda>v. map_option (\<lambda>v. apply_transform_chain T v (he_transforms self))
            (header_extract_value L (he_value_extractor self) v))
      in case he_name_selector self of
           Exact name \<Rightarrow> [key_part_new name (Option.bind (hl_get_str L headers name) value_of)]
         | Starts pre \<Rightarrow>
             sort_key kp_key
               (map (\<lambda>(name, value). key_part_new name (value_of value))
                 (filter (\<lambda>(name, value). Sublist.prefix pre name) (hl_iter L headers))))"

definition header_get ::
  "('h, 'u) http_lib \<Rightarrow> text_lib \<Rightarrow> ('h, 'u, 'b, 'e) http_request header_extractor \<Rightarrow> ('h, 'u, 'b, 'e) http_request extractor" where
  "header_get L T self subject =
     (let extracted_parts = header_parts L T self (rq_headers (hm_parts subject))
      in key_parts_append extracted_parts (he_inner self subject))"

section \<open>Query\<close>

record 's query_extractor =
  qe_inner :: "'s extractor"
  qe_name_selector :: name_selector
  qe_value_extractor :: value_extractor
  qe_transforms :: "transform list"

definition query_extractor_new :: "string \<Rightarrow> 's query_extractor" where
  "query_extractor_new name =
     \<lparr>qe_inner = neutral_extractor, qe_name_selector = Exact name, qe_value_extractor = Full, qe_transforms = []\<rparr>"

definition query_extractor_with ::
  "'s extractor \<Rightarrow> name_selector \<Rightarrow> value_extractor \<Rightarrow> transform list \<Rightarrow> 's query_extractor" where
  "query_extractor_with inner sel ext transforms =
     \<lparr>qe_inner = inner, qe_name_selector = sel, qe_value_extractor = ext, qe_transforms = transforms\<rparr>"

definition query_extractor_on :: "'s extractor \<Rightarrow> string \<Rightarrow> 's query_extractor" where
  "query_extractor_on self name =
     \<lparr>qe_inner = self, qe_name_selector = Exact name, qe_value_extractor = Full, qe_transforms = []\<rparr>"

definition query_extract_value :: "value_extractor \<Rightarrow> string \<Rightarrow> string option" where
  "query_extract_value extractor value =
     (case extractor of
        Full \<Rightarrow> Some value
      | Regex regex \<Rightarrow> Option.bind (rx_captures regex value) first_group)"

definition query_value_parts :: "text_lib \<Rightarrow> 's query_extractor \<Rightarrow> string \<Rightarrow> query_value \<Rightarrow> key_part list" where
  "query_value_parts T self name value =
     List.map_filter (\<lambda>v. map_option (\<lambda>v. key_part_new name (Some (apply_transform_chain T v (qe_transforms self))))
       (query_extract_value (qe_value_extractor self) v)) (query_inner value)"

definition query_parts :: "text_lib \<Rightarrow> 's query_extractor \<Rightarrow> query_map \<Rightarrow> key_part list" where
  "query_parts T self query_map =
     (case qe_name_selector self of
        Exact name \<Rightarrow> (case map_of query_map name of Some v \<Rightarrow> query_value_parts T self name v | None \<Rightarrow> [])
      | Starts pre \<Rightarrow>
          sort_key kp_key
            (concat (map (\<lambda>(name, value). query_value_parts T self name value)
              (filter (\<lambda>(name, value). Sublist.prefix pre name) query_map))))"

definition query_get ::
  "('h, 'u) http_lib \<Rightarrow> qs_parser \<Rightarrow> text_lib \<Rightarrow> ('h, 'u, 'b, 'e) http_request query_extractor \<Rightarrow> ('h, 'u, 'b, 'e) http_request extractor" where
  "query_get L Q T self subject =
     (let query_map = (case request_query L Q subject of Some m \<Rightarrow> m | None \<Rightarrow> []);
          extracted_parts = query_parts T self query_map
      in key_parts_append extracted_parts (qe_inner self subject))"

section \<open>Keys do not depend on iteration orders\<close>

lemma sort_key_groups:
  assumes "\<And>k. filter (\<lambda>x. f x = k) xs = filter (\<lambda>x. f x = k) ys"
  shows "sort_key f xs = sort_key f ys"
proof (rule properties_for_sort_key)
  have "count (mset xs) x = count (mset ys) x" for x
  proof -
    have "count (mset zs) x = count (mset (filter (\<lambda>y. f y = f x) zs)) x" for zs by simp
    from this [of xs] this [of ys] show ?thesis by (simp only: assms)
  qed
  then show "mset (sort_key f ys) = mset xs" by (simp add: multiset_eq_iff)
  show "filter (\<lambda>y. f x = f y) (sort_key f ys) = filter (\<lambda>y. f x = f y) xs" for x
    using sort_key_stable [of f "f x" ys] assms [of "f x"] by (simp add: eq_commute)
qed simp

lemma filter_concat_groups:
  assumes "distinct (map fst m)" and "\<And>n v x. x \<in> set (g n v) \<Longrightarrow> f x = n"
  shows "filter (\<lambda>x. f x = k) (concat (map (\<lambda>(n, v). g n v) m)) = (case map_of m k of Some v \<Rightarrow> g k v | None \<Rightarrow> [])"
  using assms(1)
proof (induction m)
  case (Cons y m)
  obtain n v where y: "y = (n, v)" by (metis surj_pair)
  show ?case
  proof (cases "n = k")
    case True
    then have "filter (\<lambda>x. f x = k) (g n v) = g n v" using assms(2) by (simp add: filter_id_conv)
    moreover have "map_of m k = None" using Cons.prems True y by (simp add: map_of_eq_None_iff)
    ultimately show ?thesis using Cons True y by simp
  next
    case False
    then have "filter (\<lambda>x. f x = k) (g n v) = []" using assms(2) by (auto simp: filter_empty_conv)
    with Cons False y show ?thesis by simp
  qed
qed simp

lemma map_of_filter_prefix:
  "map_of (filter (\<lambda>(name, value). P name) m) k = (if P k then map_of m k else None)"
  by (induction m) auto

lemma query_value_parts_key: "x \<in> set (query_value_parts T self n v) \<Longrightarrow> kp_key x = n"
  by (auto simp: query_value_parts_def map_filter_def)

lemma query_parts_order:
  assumes "distinct (map fst m)" "distinct (map fst m')" "map_of m = map_of m'"
  shows "query_parts T self m = query_parts T self m'"
proof (cases "qe_name_selector self")
  case (Exact n)
  with assms(3) show ?thesis by (simp add: query_parts_def)
next
  case (Starts pre)
  have d: "distinct (map fst (filter (\<lambda>(name, value). Sublist.prefix pre name) xs))"
    if "distinct (map fst xs)" for xs :: query_map
    using that by (simp add: distinct_map_filter)
  show ?thesis
    unfolding query_parts_def Starts name_selector.case
    by (rule sort_key_groups)
      (simp add: filter_concat_groups [OF d [OF assms(1)] query_value_parts_key]
        filter_concat_groups [OF d [OF assms(2)] query_value_parts_key] map_of_filter_prefix assms(3))
qed

context http_crate
begin

lemma header_parts_order:
  assumes "he_name_selector self = Starts pre" "\<And>n. hl_get_all L h n = hl_get_all L h' n"
  shows "header_parts L T self h = header_parts L T self h'"
proof -
  let ?part = "\<lambda>(name, value). key_part_new name (map_option (\<lambda>v. apply_transform_chain T v (he_transforms self))
      (header_extract_value L (he_value_extractor self) value))"
  have f: "filter (\<lambda>x. kp_key x = k) (map ?part (filter (\<lambda>(name, value). Sublist.prefix pre name) xs))
      = (if Sublist.prefix pre k then map (\<lambda>v. ?part (k, v)) (map snd (filter (\<lambda>x. fst x = k) xs)) else [])" for k xs
    by (induction xs) auto
  show ?thesis
    unfolding header_parts_def assms(1) name_selector.case Let_def
    by (rule sort_key_groups) (simp only: f all_iter [symmetric] assms(2))
qed

end

section \<open>Properties\<close>

text \<open>The parts taken by a name prefix do not depend on the order in which the parsed query or the
  header map happens to be iterated: two requests with the same parameters and the same header
  values get the same parts in the same order.\<close>

lemma selected_keys_ignore_order:
  assumes "http_crate L" and "distinct (map fst m)" and "distinct (map fst m')" and "map_of m = map_of m'"
    and "he_name_selector he = Starts pre" and "\<And>n. hl_get_all L h n = hl_get_all L h' n"
  shows "query_parts T qe m = query_parts T qe m' \<and> header_parts L T he h = header_parts L T he h'"
  using query_parts_order [OF assms(2-4)] http_crate.header_parts_order [OF assms(1,5,6)] by blast

definition demo_text :: text_lib where
  "demo_text = \<lparr>tl_sha256 = rev, tl_hex = (\<lambda>b. concat (map (\<lambda>x. show_nat (unat x) @ ''.'') b)), tl_lower = id, tl_upper = id\<rparr>"

lemma selected_keys_ignore_order_witness:
  "query_parts demo_text (query_extractor_with neutral_extractor (Starts ''a'') Full [] :: unit query_extractor)
      [(''ab'', QScalar ''1''), (''aa'', QArray [''2'', ''3''])] =
    query_parts demo_text (query_extractor_with neutral_extractor (Starts ''a'') Full [] :: unit query_extractor)
      [(''aa'', QArray [''2'', ''3'']), (''ab'', QScalar ''1'')] \<and>
   header_parts demo_http demo_text (header_extractor_with neutral_extractor (Starts ''x-'') Full [] :: unit header_extractor)
      [(''x-b'', [49]), (''x-a'', [50]), (''x-b'', [51])] =
    header_parts demo_http demo_text (header_extractor_with neutral_extractor (Starts ''x-'') Full [] :: unit header_extractor)
      [(''x-a'', [50]), (''x-b'', [49]), (''x-b'', [51])]"
proof -
  let ?m = "[(''ab'', QScalar ''1''), (''aa'', QArray [''2'', ''3''])]" and ?m' = "[(''aa'', QArray [''2'', ''3'']), (''ab'', QScalar ''1'')]"
  let ?h = "[(''x-b'', [49]), (''x-a'', [50]), (''x-b'', [51])]" and ?h' = "[(''x-a'', [50]), (''x-b'', [49]), (''x-b'', [51])]"
  have d: "distinct (map fst ?m)" "distinct (map fst ?m')" by simp_all
  have m: "map_of ?m = map_of ?m'" by (simp add: fun_eq_iff)
  have s: "he_name_selector (header_extractor_with neutral_extractor (Starts ''x-'') Full [] :: unit header_extractor) = Starts ''x-''"
    by (simp add: header_extractor_with_def)
  have h: "hl_get_all demo_http ?h n = hl_get_all demo_http ?h' n" for n by (auto simp: demo_http_def)
  show ?thesis by (rule selected_keys_ignore_order [OF demo_http.http_crate_axioms d m s h])
qed

lemma extractor_on_sel [simp]:
  "qe_name_selector (query_extractor_on e n) = Exact n" "qe_value_extractor (query_extractor_on e n) = Full"
  "qe_transforms (query_extractor_on e n) = []" "qe_inner (query_extractor_on e n) = e"
  "he_name_selector (header_extractor_on e n) = Exact n" "he_value_extractor (header_extractor_on e n) = Full"
  "he_transforms (header_extractor_on e n) = []" "he_inner (header_extractor_on e n) = e"
  by (simp_all add: query_extractor_on_def header_extractor_on_def)

text \<open>The chain method, path, one query parameter, one header, version.\<close>

definition request_chain ::
  "('h, 'u) http_lib \<Rightarrow> qs_parser \<Rightarrow> 'd router \<Rightarrow> text_lib \<Rightarrow> 'd \<Rightarrow> string \<Rightarrow> string \<Rightarrow> ('h, 'u, 'b, 'e) http_request extractor" where
  "request_chain L Q R T d qn hn =
     version_get L (header_get L T (header_extractor_on (query_get L Q T (query_extractor_on
       (path_get L R d (method_get neutral_extractor)) qn)) hn))"

definition query_values :: "query_map option \<Rightarrow> string \<Rightarrow> string list" where
  "query_values m name = (case Option.bind m (\<lambda>m. map_of m name) of Some v \<Rightarrow> query_inner v | None \<Rightarrow> [])"

lemma query_parts_exact:
  "query_parts T (query_extractor_on e n) m = map (\<lambda>v. key_part_new n (Some v)) (query_values (Some m) n)"
  by (simp add: query_parts_def query_values_def query_value_parts_def query_extract_value_def apply_transform_chain_def
      List.map_filter_def o_def split: option.split)

lemma header_parts_exact:
  "header_parts L T (header_extractor_on e n) h = [key_part_new n (Option.bind (hl_get_str L h n) (hl_to_str L))]"
  by (cases "hl_get_str L h n"; cases "hl_to_str L (the (hl_get_str L h n))")
    (simp_all add: header_parts_def header_extract_value_def apply_transform_chain_def)

lemma request_chain_parts:
  "kps_parts (request_chain L Q R T d qn hn r) =
     key_part_new ''method'' (Some (rq_method (hm_parts r)))
     # map (\<lambda>(k, v). key_part_new k (Some v)) (rt_captures R d (hl_uri_path L (rq_uri (hm_parts r))))
     @ map (\<lambda>v. key_part_new qn (Some v)) (query_values (request_query L Q r) qn)
     @ [key_part_new hn (Option.bind (hl_get_str L (rq_headers (hm_parts r)) hn) (hl_to_str L)),
        key_part_new ''version'' (Some (hl_version_debug L (rq_version (hm_parts r))))]"
  by (cases "request_query L Q r")
    (simp_all add: request_chain_def version_get_def header_get_def query_get_def path_get_def method_get_def
      neutral_extractor_def Let_def query_values_def query_parts_exact header_parts_exact)

text \<open>C25. Requests that share a cache key agree on all that the chain looks at: the method, the
  captures of the path (when the pattern captures the same names in both), the values of the query
  parameter, the version (its \<open>Debug\<close> form tells the versions apart), and the value of the header as text: whatever one of
  them has as its readable header value, the other has too.  A header that is absent and one whose value is not readable, because it has
  bytes that are not visible ASCII, are not told apart, as such a value is left out of the key.\<close>

theorem same_key_same_request_data:
  assumes "snd (into_cache_key (request_chain L Q R T d qn hn r)) = snd (into_cache_key (request_chain L Q R T d qn hn r'))"
    and "map fst (rt_captures R d (hl_uri_path L (rq_uri (hm_parts r)))) = map fst (rt_captures R d (hl_uri_path L (rq_uri (hm_parts r'))))"
    and "inj (hl_version_debug L)"
  shows "rq_method (hm_parts r) = rq_method (hm_parts r') \<and>
    rt_captures R d (hl_uri_path L (rq_uri (hm_parts r))) = rt_captures R d (hl_uri_path L (rq_uri (hm_parts r'))) \<and>
    query_values (request_query L Q r) qn = query_values (request_query L Q r') qn \<and>
    Option.bind (hl_get_str L (rq_headers (hm_parts r)) hn) (hl_to_str L)
      = Option.bind (hl_get_str L (rq_headers (hm_parts r')) hn) (hl_to_str L) \<and>
    rq_version (hm_parts r) = rq_version (hm_parts r')"
proof -
  let ?caps = "\<lambda>r. rt_captures R d (hl_uri_path L (rq_uri (hm_parts r)))"
  let ?part = "\<lambda>(k, v). key_part_new k (Some v)"
  have "kps_parts (request_chain L Q R T d qn hn r) = kps_parts (request_chain L Q R T d qn hn r')"
    using arg_cong [OF assms(1), of ck_parts] by (simp add: into_cache_key_eq)
  then have eq: "map ?part (?caps r) @ map (\<lambda>v. key_part_new qn (Some v)) (query_values (request_query L Q r) qn) =
      map ?part (?caps r') @ map (\<lambda>v. key_part_new qn (Some v)) (query_values (request_query L Q r') qn)"
    and rest: "rq_method (hm_parts r) = rq_method (hm_parts r')"
      "Option.bind (hl_get_str L (rq_headers (hm_parts r)) hn) (hl_to_str L)
        = Option.bind (hl_get_str L (rq_headers (hm_parts r')) hn) (hl_to_str L)"
      "hl_version_debug L (rq_version (hm_parts r)) = hl_version_debug L (rq_version (hm_parts r'))"
    by (simp_all add: request_chain_parts key_part_new_def)
  have "length (?caps r) = length (?caps r')" using arg_cong [OF assms(2), of length] by simp
  with eq have "map ?part (?caps r) = map ?part (?caps r')"
    and "map (\<lambda>v. key_part_new qn (Some v)) (query_values (request_query L Q r) qn) =
      map (\<lambda>v. key_part_new qn (Some v)) (query_values (request_query L Q r') qn)" by simp_all
  moreover have "inj ?part" "inj (\<lambda>v. key_part_new qn (Some v))" by (auto simp: inj_def key_part_new_def)
  moreover have "rq_version (hm_parts r) = rq_version (hm_parts r')" using rest(3) assms(3) by (simp add: inj_eq)
  ultimately show ?thesis using rest by (simp add: inj_map_eq_map)
qed

lemma demo_version_debug: "inj (hl_version_debug demo_http)"
proof (rule injI)
  fix v v' assume "hl_version_debug demo_http v = hl_version_debug demo_http v'"
  then show "v = v'" by (cases v; cases v') (simp_all add: demo_http_def)
qed

lemma same_key_same_request_data_witness:
  "query_values (request_query demo_http demo_qs demo_request) ''tag''
     = query_values (request_query demo_http demo_qs (demo_request\<lparr>hm_body := Complete None\<rparr>)) ''tag''"
proof -
  let ?r = "demo_request\<lparr>hm_body := Complete None\<rparr>"
  have k: "snd (into_cache_key (request_chain demo_http demo_qs demo_router demo_text ''/users/'' ''tag'' ''accept'' demo_request)) =
      snd (into_cache_key (request_chain demo_http demo_qs demo_router demo_text ''/users/'' ''tag'' ''accept'' ?r))"
    by (simp add: into_cache_key_eq request_chain_parts request_query_def)
  have c: "map fst (rt_captures demo_router ''/users/'' (hl_uri_path demo_http (rq_uri (hm_parts demo_request)))) =
      map fst (rt_captures demo_router ''/users/'' (hl_uri_path demo_http (rq_uri (hm_parts ?r))))"
    by simp
  show ?thesis using same_key_same_request_data [OF k c demo_version_debug] by blast
qed

end
