(* ===== verification/Http_Body_Extractor.thy ===== *)
theory Http_Body_Extractor
  imports Http_Extractor
begin

text \<open>
  Cache keys from request bodies (hitbox-http/src/extractors/body.rs): the hash of the body, the
  results of a jq filter, the groups of a regular expression.  The body is collected, read as text
  with \<open>String::from_utf8_lossy\<close>, and put back as a complete body.  The jq filters and the number
  format of JSON are parameters.
\<close>

section \<open>Lossy UTF-8\<close>

text \<open>Every maximal prefix of an ill-formed sequence becomes U+FFFD (\<open>Utf8Chunks\<close> of the standard library).\<close>

definition replacement :: "nat list" where
  "replacement = [239, 191, 189]"

fun utf8_lossy :: "nat list \<Rightarrow> nat list" where
  "utf8_lossy [] = []"
| "utf8_lossy (a # bs) =
     (if a \<le> 127 then a # utf8_lossy bs
      else if 194 \<le> a \<and> a \<le> 223 then
        (case bs of
           b # r \<Rightarrow> if cont b then a # b # utf8_lossy r else replacement @ utf8_lossy bs
         | [] \<Rightarrow> replacement)
      else if 224 \<le> a \<and> a \<le> 239 then
        (case bs of
           b # r \<Rightarrow>
             if (if a = 224 then 160 else 128) \<le> b \<and> b \<le> (if a = 237 then 159 else 191) then
               (case r of
                  c # r' \<Rightarrow> if cont c then a # b # c # utf8_lossy r' else replacement @ utf8_lossy r
                | [] \<Rightarrow> replacement)
             else replacement @ utf8_lossy bs
         | [] \<Rightarrow> replacement)
      else if 240 \<le> a \<and> a \<le> 244 then
        (case bs of
           b # r \<Rightarrow>
             if (if a = 240 then 144 else 128) \<le> b \<and> b \<le> (if a = 244 then 143 else 191) then
               (case r of
                  c # r' \<Rightarrow>
                    if cont c then
                      (case r' of
                         d # r'' \<Rightarrow> if cont d then a # b # c # d # utf8_lossy r'' else replacement @ utf8_lossy r'
                       | [] \<Rightarrow> replacement)
                    else replacement @ utf8_lossy r
                | [] \<Rightarrow> replacement)
             else replacement @ utf8_lossy bs
         | [] \<Rightarrow> replacement)
      else replacement @ utf8_lossy bs)"

definition from_utf8_lossy :: "bytes \<Rightarrow> string" where
  "from_utf8_lossy b = map char_of (utf8_lossy (map unat b))"

section \<open>Jq\<close>

datatype 'n json =
    JNull
  | JBool bool
  | JNumber 'n
  | JString string
  | JArray "'n json list"
  | JObject "(string \<times> 'n json) list"

text \<open>The values of jaq, its arrays and objects as JSON; numbers and \<open>to_string\<close> are parameters.\<close>

datatype ('f, 'n) jq_val = VNull | VBool bool | VInt int | VFloat 'f | VNum string | VStr string | VArr "'n json" | VObj "'n json"

record ('q, 'f, 'n, 'x) json_lib =
  js_from_str :: "string \<Rightarrow> 'n json option"
  js_number :: "'n \<Rightarrow> string"
  js_to_string :: "'n json \<Rightarrow> string"
  js_float :: "'f \<Rightarrow> string"
  js_val :: "'n json \<Rightarrow> ('f, 'n) jq_val"
  js_value :: "('f, 'n) jq_val \<Rightarrow> 'n json"
  js_run :: "'q \<Rightarrow> ('f, 'n) jq_val \<Rightarrow> ('x + ('f, 'n) jq_val) list"

definition show_bool :: "bool \<Rightarrow> string" where
  "show_bool b = (if b then ''true'' else ''false'')"

text \<open>The function \<open>hash\<close> that the filters of an extraction may call.\<close>

fun jq_hash :: "text_lib \<Rightarrow> ('q, 'f, 'n, 'x) json_lib \<Rightarrow> ('f, 'n) jq_val \<Rightarrow> ('f, 'n) jq_val" where
  "jq_hash T J (VStr s) = VStr (apply_hash T s)"
| "jq_hash T J (VInt n) = VStr (apply_hash T (show_int n))"
| "jq_hash T J (VFloat f) = VStr (apply_hash T (js_float J f))"
| "jq_hash T J (VBool b) = VStr (apply_hash T (show_bool b))"
| "jq_hash T J VNull = VStr (apply_hash T ''null'')"
| "jq_hash T J (VNum n) = VStr (apply_hash T n)"
| "jq_hash T J (VArr j) = VStr (apply_hash T (js_to_string J (js_value J (VArr j))))"
| "jq_hash T J (VObj j) = VStr (apply_hash T (js_to_string J (js_value J (VObj j))))"

definition jq_extraction_apply :: "('q, 'f, 'n, 'x) json_lib \<Rightarrow> 'q \<Rightarrow> 'n json \<Rightarrow> 'n json list" where
  "jq_extraction_apply J filt input =
     map (js_value J) (List.map_filter (\<lambda>r. case r of Inr v \<Rightarrow> Some v | Inl _ \<Rightarrow> None) (js_run J filt (js_val J input)))"

fun value_to_string :: "('q, 'f, 'n, 'x) json_lib \<Rightarrow> 'n json \<Rightarrow> string option" where
  "value_to_string J JNull = None"
| "value_to_string J (JString s) = Some s"
| "value_to_string J (JNumber n) = Some (js_number J n)"
| "value_to_string J (JBool b) = Some (show_bool b)"
| "value_to_string J other = Some (js_to_string J other)"

definition object_parts :: "('q, 'f, 'n, 'x) json_lib \<Rightarrow> (string \<times> 'n json) list \<Rightarrow> key_part list" where
  "object_parts J m = map (\<lambda>(key, val). key_part_new key (value_to_string J val)) m"

fun item_parts :: "('q, 'f, 'n, 'x) json_lib \<Rightarrow> 'n json \<Rightarrow> key_part list" where
  "item_parts J (JObject m) = object_parts J m"
| "item_parts J other = [key_part_new ''body'' (value_to_string J other)]"

fun result_parts :: "('q, 'f, 'n, 'x) json_lib \<Rightarrow> 'n json \<Rightarrow> key_part list" where
  "result_parts J (JObject m) = object_parts J m"
| "result_parts J (JArray arr) = concat (map (item_parts J) arr)"
| "result_parts J other = [key_part_new ''body'' (value_to_string J other)]"

definition extract_jq_parts :: "('q, 'f, 'n, 'x) json_lib \<Rightarrow> 'n json list \<Rightarrow> key_part list" where
  "extract_jq_parts J values = concat (map (result_parts J) values)"

section \<open>Regular expressions\<close>

datatype transforms = NoTransforms | FullBody "transform list" | PerKey "(string \<times> transform list) list"

record regex_extraction =
  re_regex :: regex
  re_key :: "string option"
  re_global :: bool
  re_transforms :: transforms

fun apply_transforms :: "text_lib \<Rightarrow> transforms \<Rightarrow> string \<Rightarrow> string \<Rightarrow> string" where
  "apply_transforms T NoTransforms key_name value = value"
| "apply_transforms T (FullBody chain) key_name value = apply_transform_chain T value chain"
| "apply_transforms T (PerKey m) key_name value =
     (case map_of m key_name of Some chain \<Rightarrow> apply_transform_chain T value chain | None \<Rightarrow> value)"

definition match_parts :: "text_lib \<Rightarrow> string list \<Rightarrow> string option \<Rightarrow> transforms \<Rightarrow> captures \<Rightarrow> key_part list" where
  "match_parts T capture_names key transforms caps =
     (if capture_names \<noteq> [] then
        List.map_filter (\<lambda>name. map_option (\<lambda>m. key_part_new name (Some (apply_transforms T transforms name m)))
          (cap_name caps name)) capture_names
      else
        (case first_group caps of
           Some m \<Rightarrow>
             (let key_name = (case key of Some k \<Rightarrow> k | None \<Rightarrow> ''body'') in
              [key_part_new key_name (Some (apply_transforms T transforms key_name m))])
         | None \<Rightarrow> []))"

definition extract_regex_parts ::
  "text_lib \<Rightarrow> string \<Rightarrow> regex \<Rightarrow> string option \<Rightarrow> bool \<Rightarrow> transforms \<Rightarrow> key_part list" where
  "extract_regex_parts T body regex key global transforms =
     (let parts_of = match_parts T (rx_names regex) key transforms in
      if global then concat (map parts_of (rx_captures_iter regex body))
      else (case rx_captures regex body of Some caps \<Rightarrow> parts_of caps | None \<Rightarrow> []))"

section \<open>The body extractor\<close>

datatype 'q body_extraction = ExtractHash | ExtractJq 'q | ExtractRegex regex_extraction

fun extracted_body_parts ::
  "text_lib \<Rightarrow> ('q, 'f, 'n, 'x) json_lib \<Rightarrow> 'q body_extraction \<Rightarrow> string \<Rightarrow> key_part list" where
  "extracted_body_parts T J ExtractHash body_str = (let hash = apply_hash T body_str in [key_part_new ''body'' (Some hash)])"
| "extracted_body_parts T J (ExtractJq jq) body_str =
     (let json_value = (case js_from_str J body_str of Some v \<Rightarrow> v | None \<Rightarrow> JNull);
          results = jq_extraction_apply J jq json_value
      in extract_jq_parts J results)"
| "extracted_body_parts T J (ExtractRegex ext) body_str =
     extract_regex_parts T body_str (re_regex ext) (re_key ext) (re_global ext) (re_transforms ext)"

definition body_get ::
  "('b, 'y, 'e) body_ops \<Rightarrow> text_lib \<Rightarrow> ('q, 'f, 'n, 'x) json_lib \<Rightarrow> 'q body_extraction
     \<Rightarrow> ('h, 'u, 'b, 'e) http_request extractor \<Rightarrow> ('h, 'u, 'b, 'e) http_request extractor" where
  "body_get B T J extraction inner subject =
     (case message_into_parts subject of (parts, body) \<Rightarrow>
        (case body_collect B body of
           Inl error_body \<Rightarrow>
             key_parts_push (key_part_new ''body'' None) (inner (from_request (parts, error_body)))
         | Inr payload \<Rightarrow>
             (let body_str = from_utf8_lossy payload;
                  extracted_parts = extracted_body_parts T J extraction body_str;
                  request = from_request (parts, Complete (Some payload))
              in foldl (\<lambda>key_parts part. key_parts_push part key_parts) (inner request) extracted_parts)))"

section \<open>Lemmas\<close>

lemma utf8_lossy_valid: "utf8_valid xs \<Longrightarrow> utf8_lossy xs = xs"
proof (induction xs rule: utf8_valid.induct)
  case (2 a bs)
  consider "a \<le> 127" | "194 \<le> a" "a \<le> 223" | "224 \<le> a" "a \<le> 239" | "240 \<le> a" "a \<le> 244"
    using 2(5) by (auto split: if_splits)
  then show ?case
  proof cases
    case 1
    with 2 show ?thesis by simp
  next
    case r: 2
    with 2(5) obtain b r where "bs = b # r" "cont b" "utf8_valid r" by (auto split: list.splits)
    with 2(2) r show ?thesis by simp
  next
    case r: 3
    with 2(5) obtain b c r where "bs = b # c # r" "cont c" "utf8_valid r"
      "(if a = 224 then 160 else 128) \<le> b \<and> b \<le> (if a = 237 then 159 else 191)" by (auto split: list.splits)
    with 2(3) r show ?thesis by simp
  next
    case r: 4
    with 2(5) obtain b c d r where "bs = b # c # d # r" "cont c" "cont d" "utf8_valid r"
      "(if a = 240 then 144 else 128) \<le> b \<and> b \<le> (if a = 244 then 143 else 191)" by (auto split: list.splits)
    with 2(4) r show ?thesis by simp
  qed
qed simp

text \<open>Bytes from 245 on occur in no well-formed text; which of them it is does not matter.\<close>

definition same_text_byte :: "nat \<Rightarrow> nat \<Rightarrow> bool" where
  "same_text_byte a b \<longleftrightarrow> a = b \<or> 245 \<le> a \<and> 245 \<le> b"

lemma same_text_byteE:
  assumes "same_text_byte a b"
  obtains "b = a" | "245 \<le> a" "245 \<le> b" "\<not> cont a" "\<not> cont b"
  using assms by (auto simp: same_text_byte_def cont_def)

text \<open>Text as a sequence of Unicode scalar values, and its UTF-8 form: what the lossy conversion must leave alone.\<close>

definition scalar_value :: "nat \<Rightarrow> bool" where
  "scalar_value c \<longleftrightarrow> c < 55296 \<or> 57344 \<le> c \<and> c < 1114112"

definition utf8_encode :: "nat \<Rightarrow> nat list" where
  "utf8_encode c =
     (if c < 128 then [c]
      else if c < 2048 then [192 + c div 64, 128 + c mod 64]
      else if c < 65536 then [224 + c div 4096, 128 + c div 64 mod 64, 128 + c mod 64]
      else [240 + c div 262144, 128 + c div 4096 mod 64, 128 + c div 64 mod 64, 128 + c mod 64])"

definition is_text :: "nat list \<Rightarrow> bytes \<Rightarrow> bool" where
  "is_text cs b \<longleftrightarrow> list_all scalar_value cs \<and> map unat b = concat (map utf8_encode cs)"

lemma cont_mod [simp]: "cont (128 + c mod 64)"
  using mod_less_divisor [of 64 c] by (simp add: cont_def)

lemma utf8_lossy_encode:
  assumes "scalar_value c"
  shows "utf8_lossy (utf8_encode c @ bs) = utf8_encode c @ utf8_lossy bs"
proof -
  consider "c < 128" | "128 \<le> c" "c < 2048" | "2048 \<le> c" "c < 65536" | "65536 \<le> c" by linarith
  then show ?thesis
  proof cases
    case 1
    then show ?thesis by (simp add: utf8_encode_def)
  next
    case 2
    then have "194 \<le> 192 + c div 64" "192 + c div 64 \<le> 223" by linarith+
    then show ?thesis using 2 by (simp add: utf8_encode_def)
  next
    case 3
    have h: "c div 64 mod 64 < 64" "c div 64 = 64 * (c div 4096) + c div 64 mod 64"
      using div_mult2_eq [of c 64 64] mult_div_mod_eq [of 64 "c div 64"] by simp_all
    have l: "224 \<le> 224 + c div 4096" "224 + c div 4096 \<le> 239" using 3 by linarith+
    have lo: "(if 224 + c div 4096 = 224 then 160 else 128) \<le> 128 + c div 64 mod 64" using 3 h by auto
    have hi: "128 + c div 64 mod 64 \<le> (if 224 + c div 4096 = 237 then 159 else 191)"
      using 3 h assms by (auto simp: scalar_value_def)
    show ?thesis using 3 l lo hi by (simp add: utf8_encode_def)
  next
    case 4
    have c: "c < 1114112" using 4 assms by (auto simp: scalar_value_def)
    have h: "c div 4096 mod 64 < 64" "c div 4096 = 64 * (c div 262144) + c div 4096 mod 64"
      using div_mult2_eq [of c 4096 64] mult_div_mod_eq [of 64 "c div 4096"] by simp_all
    have l: "240 + c div 262144 \<le> 244" using c by linarith
    have lo: "(if 240 + c div 262144 = 240 then 144 else 128) \<le> 128 + c div 4096 mod 64" using 4 h by auto
    have hi: "128 + c div 4096 mod 64 \<le> (if 240 + c div 262144 = 244 then 143 else 191)" using c h by auto
    show ?thesis using 4 l lo hi by (simp add: utf8_encode_def)
  qed
qed

lemma from_utf8_lossy_text:
  assumes "is_text cs b"
  shows "from_utf8_lossy b = map (\<lambda>x. char_of (unat x)) b"
proof -
  have "utf8_lossy (concat (map utf8_encode cs)) = concat (map utf8_encode cs)" if "list_all scalar_value cs"
    using that by (induction cs) (simp_all add: utf8_lossy_encode)
  then have "utf8_lossy (map unat b) = map unat b" using assms by (simp add: is_text_def)
  then show ?thesis by (simp add: from_utf8_lossy_def comp_def)
qed

lemma utf8_lossy_high: "245 \<le> a \<Longrightarrow> utf8_lossy (a # bs) = replacement @ utf8_lossy bs"
  by simp

lemma utf8_lossy_head:
  assumes "list_all2 same_text_byte bs bs'"
    and "\<And>i. utf8_lossy (drop i bs) = utf8_lossy (drop i bs')"
  shows "utf8_lossy (a # bs) = utf8_lossy (a # bs')"
proof (cases bs)
  case Nil
  with assms(1) show ?thesis by simp
next
  case b: (Cons b r)
  with assms(1) obtain b' r' where b': "bs' = b' # r'" "same_text_byte b b'" "list_all2 same_text_byte r r'"
    by (auto simp: list_all2_Cons1)
  have all: "utf8_lossy (b # r) = utf8_lossy (b' # r')" and r: "utf8_lossy r = utf8_lossy r'"
    using assms(2) [of 0] assms(2) [of 1] by (simp_all only: b b' drop0 One_nat_def drop_Suc_Cons)
  from b'(2) show ?thesis
  proof (cases rule: same_text_byteE)
    case 2
    with all show ?thesis unfolding b b' utf8_lossy.simps(2) [of a] by simp
  next
    case bb: 1
    show ?thesis
    proof (cases r)
      case Nil
      with b'(3) show ?thesis unfolding b b' by (simp add: bb)
    next
      case c: (Cons c s)
      with b'(3) obtain c' s' where c': "r' = c' # s'" "same_text_byte c c'" "list_all2 same_text_byte s s'"
        by (auto simp: list_all2_Cons1)
      have s: "utf8_lossy s = utf8_lossy s'"
        using assms(2) [of 2] by (simp add: b b' c c' numeral_2_eq_2 del: utf8_lossy.simps(2))
      from c'(2) show ?thesis
      proof (cases rule: same_text_byteE)
        case 2
        with all r show ?thesis unfolding b b' c c' bb utf8_lossy.simps(2) [of a] by (simp del: utf8_lossy.simps(2))
      next
        case cc: 1
        show ?thesis
        proof (cases s)
          case Nil
          with c'(3) show ?thesis unfolding b b' c c' by (simp add: bb cc)
        next
          case d: (Cons d t)
          with c'(3) obtain d' t' where d': "s' = d' # t'" "same_text_byte d d'"
            by (auto simp: list_all2_Cons1)
          have t: "utf8_lossy t = utf8_lossy t'"
            using assms(2) [of 3] by (simp add: b b' c c' d d' numeral_3_eq_3 del: utf8_lossy.simps(2))
          from d'(2) show ?thesis
            using all r s t unfolding b b' c c' d d' bb cc utf8_lossy.simps(2) [of a]
            by (cases rule: same_text_byteE) (simp_all del: utf8_lossy.simps(2))
        qed
      qed
    qed
  qed
qed

lemma utf8_lossy_same_text:
  "list_all2 same_text_byte xs ys \<Longrightarrow> utf8_lossy xs = utf8_lossy ys"
proof (induction "length xs" arbitrary: xs ys rule: less_induct)
  case less
  show ?case
  proof (cases xs)
    case Nil
    with less(2) show ?thesis by simp
  next
    case x: (Cons a bs)
    with less(2) obtain a' bs' where y: "ys = a' # bs'" "same_text_byte a a'" "list_all2 same_text_byte bs bs'"
      by (auto simp: list_all2_Cons1)
    have tails: "utf8_lossy (drop i bs) = utf8_lossy (drop i bs')" for i
      by (rule less(1)) (simp_all add: x list_all2_dropI [OF y(3)])
    from y(2) show ?thesis
    proof (cases rule: same_text_byteE)
      case 1
      with utf8_lossy_head [OF y(3) tails] show ?thesis by (simp only: x y(1))
    next
      case 2
      with tails [of 0] show ?thesis by (simp only: x y(1) utf8_lossy_high drop0)
    qed
  qed
qed

lemma from_utf8_lossy_valid: "utf8_valid (map unat b) \<Longrightarrow> from_utf8_lossy b = str_of_bytes b"
  by (simp add: from_utf8_lossy_def utf8_lossy_valid str_of_bytes_def)

lemma foldl_push:
  "kps_parts (foldl (\<lambda>key_parts part. key_parts_push part key_parts) kps ps) = kps_parts kps @ ps"
  "kps_subject (foldl (\<lambda>key_parts part. key_parts_push part key_parts) kps ps) = kps_subject kps"
  by (induction ps arbitrary: kps) simp_all

lemma body_get_collected:
  assumes "body_collect B (hm_body subject) = Inr payload"
  shows "kps_parts (body_get B T J ext inner subject) =
      kps_parts (inner (subject\<lparr>hm_body := Complete (Some payload)\<rparr>)) @ extracted_body_parts T J ext (from_utf8_lossy payload)"
    and "kps_subject (body_get B T J ext inner subject) = kps_subject (inner (subject\<lparr>hm_body := Complete (Some payload)\<rparr>))"
  using assms
  by (cases subject; simp add: body_get_def message_into_parts_def from_request_def foldl_push Let_def)+

lemma request_chain_subject [simp]: "kps_subject (request_chain L Q R T d qn hn r) = r"
  by (simp add: request_chain_def version_get_def header_get_def query_get_def path_get_def method_get_def
      neutral_extractor_def Let_def)

section \<open>Properties\<close>

definition demo_json :: "(unit, unit, nat, unit) json_lib" where
  "demo_json = \<lparr>js_from_str = (\<lambda>s. Some (JString s)), js_number = show_nat, js_to_string = (\<lambda>j. []), js_float = (\<lambda>f. []),
     js_val = (\<lambda>j. VArr j), js_value = (\<lambda>v. case v of VArr j \<Rightarrow> j | _ \<Rightarrow> JNull), js_run = (\<lambda>q v. [Inr v])\<rparr>"

definition demo_upload ::
  "((string \<times> bytes) list, string \<times> string option, (nat + unit http_frame) poll list, nat) http_request" where
  "demo_upload = demo_request\<lparr>hm_body := Passthrough (take 3 demo_stream)\<rparr>"

lemma demo_upload_polls: "polls (body_poll_frame scripted_body) (hm_body demo_upload) [FData [1, 2], FData [3]] None"
  by (simp add: demo_upload_def demo_stream_def numeral_3_eq_3)

text \<open>C18. Deciding the cache policy of a request neither loses nor changes its data: with a body hash in the
  key and a body predicate (its limit, if it has one, below the largest \<open>usize\<close>), beside predicates that only look at the request, a request
  whose body has not failed and ends without an error comes out with its head and
  with all the data bytes of its body buffered, whether it is cacheable or not (trailers of the body are dropped).  The
  key is that of the chain followed by the hash of the body read as text; if the body is text, the UTF-8 form of any
  sequence of Unicode scalar values, that is the hash of exactly its bytes.\<close>

theorem request_policy_keeps_request:
  assumes "http_body B" and "polls (body_poll_frame B) (hm_body request) fs None" and "\<not> error_yielded (hm_body request)"
    and "limit_below_max bop" and "\<And>s. p s = Some (verdict (f s) s)"
  shows "\<exists>key c. http_request_policy (body_predicate_check B J (body_predicate_on p bop))
      (body_get B T J' ExtractHash (request_chain L Q R T d qn hn)) request =
      Some (if c then Cacheable \<lparr>cpd_key = key, cpd_request = request\<lparr>hm_body := Complete (Some (body_bytes fs))\<rparr>\<rparr>
            else NonCacheable (request\<lparr>hm_body := Complete (Some (body_bytes fs))\<rparr>)) \<and>
    ck_parts key = kps_parts (request_chain L Q R T d qn hn request)
      @ [key_part_new ''body'' (Some (apply_hash T (from_utf8_lossy (body_bytes fs))))] \<and>
    (\<forall>cs. is_text cs (body_bytes fs) \<longrightarrow> ck_parts key = kps_parts (request_chain L Q R T d qn hn request)
      @ [key_part_new ''body'' (Some (apply_hash T (map (\<lambda>x. char_of (unat x)) (body_bytes fs))))])"
proof -
  let ?r = "request\<lparr>hm_body := Complete (Some (body_bytes fs))\<rparr>"
  let ?get = "body_get B T J' ExtractHash (request_chain L Q R T d qn hn)"
  have collect: "body_collect B (hm_body request) = Inr (body_bytes fs)"
    by (rule http_body.body_collect_end [OF assms(1-3)])
  have chain: "kps_parts (request_chain L Q R T d qn hn ?r) = kps_parts (request_chain L Q R T d qn hn request)"
    by (simp add: request_chain_parts request_query_def)
  have get: "into_cache_key (?get request) = (?r, cache_key_new [] 0 (kps_parts (request_chain L Q R T d qn hn request)
      @ [key_part_new ''body'' (Some (apply_hash T (from_utf8_lossy (body_bytes fs))))]))"
    by (simp add: into_cache_key_eq body_get_collected [OF collect] chain Let_def)
  have y: "polls (body_poll_frame B) (hm_body ?r) [FData (body_bytes fs)] None" by simp
  from http_body.operation_spec [OF assms(1) y assms(4), of J] obtain q
    where q: "body_operation_check B J bop (hm_body ?r) = Some q" by blast
  have inner: "bp_inner (body_predicate_on p bop) ?r = Some (verdict (f ?r) ?r)"
    and op: "bp_operation (body_predicate_on p bop) = bop"
    by (simp_all add: body_predicate_on_def assms(5))
  have "body_predicate_check B J (body_predicate_on p bop) ?r = Some (verdict (f ?r \<and> pr_cacheable q) ?r)"
    using body_predicate_check_eq [OF inner, of B J q] q complete_body_kept [of B J bop "body_bytes fs" q]
    by (cases request) (simp add: op)
  then have "http_request_policy (body_predicate_check B J (body_predicate_on p bop)) ?get request =
      Some (if f ?r \<and> pr_cacheable q then Cacheable \<lparr>cpd_key = cache_key_new [] 0 (kps_parts (request_chain L Q R T d qn hn request)
        @ [key_part_new ''body'' (Some (apply_hash T (from_utf8_lossy (body_bytes fs))))]), cpd_request = ?r\<rparr> else NonCacheable ?r)"
    by (simp add: http_request_policy_def get verdict_def)
  moreover define key where "key = cache_key_new [] 0 (kps_parts (request_chain L Q R T d qn hn request)
        @ [key_part_new ''body'' (Some (apply_hash T (from_utf8_lossy (body_bytes fs))))])"
  moreover have "ck_parts key = kps_parts (request_chain L Q R T d qn hn request)
      @ [key_part_new ''body'' (Some (apply_hash T (from_utf8_lossy (body_bytes fs))))]" by (simp add: key_def)
  ultimately show ?thesis using from_utf8_lossy_text
    by (intro exI [of _ key] exI [of _ "f ?r \<and> pr_cacheable q"]) simp
qed

lemma request_policy_keeps_request_witness:
  "\<exists>key c. http_request_policy (body_predicate_check scripted_body demo_jq (body_predicate_on accept (Limit 8)))
      (body_get scripted_body demo_text demo_json ExtractHash
        (request_chain demo_http demo_qs demo_router demo_text ''/users/'' ''tag'' ''accept'')) demo_upload =
      Some (if c then Cacheable \<lparr>cpd_key = key, cpd_request = demo_upload\<lparr>hm_body := Complete (Some [1, 2, 3])\<rparr>\<rparr>
            else NonCacheable (demo_upload\<lparr>hm_body := Complete (Some [1, 2, 3])\<rparr>))"
proof -
  have e: "\<not> error_yielded (hm_body demo_upload)" "limit_below_max (Limit 8)"
    by (simp_all add: demo_upload_def u64_max_def)
  have p: "accept s = Some (verdict True s)"
    for s :: "((string \<times> bytes) list, string \<times> string option, (nat + unit http_frame) poll list, nat) http_request"
    by (simp add: accept_def neutral_def verdict_def)
  have d: "body_bytes [FData [1, 2], FData [3] :: unit http_frame] = [1, 2, 3]" by simp
  note kept = request_policy_keeps_request [where p = accept, OF scripted.http_body_axioms demo_upload_polls e p, unfolded d]
  show ?thesis using kept [of demo_jq demo_text demo_json demo_http demo_qs demo_router "''/users/''" "''tag''" "''accept''"]
    by blast
qed

text \<open>The body hash in the key is the hash of the text of the body, in which ill-formed bytes all
  become the same replacement character: two requests whose bodies differ only in bytes that occur
  in no text have the same key, under every hash function.\<close>

lemma body_key_ignores_ill_formed_bytes:
  assumes "list_all2 (\<lambda>x y. same_text_byte (unat x) (unat y)) d d'"
  shows "kps_parts (body_get B T J ext (request_chain L Q R T r qn hn) \<lparr>hm_parts = parts, hm_body = Complete (Some d)\<rparr>)
    = kps_parts (body_get B T J ext (request_chain L Q R T r qn hn) \<lparr>hm_parts = parts, hm_body = Complete (Some d')\<rparr>)"
proof -
  have "from_utf8_lossy d = from_utf8_lossy d'"
    using utf8_lossy_same_text [of "map unat d" "map unat d'"] assms
    by (simp add: from_utf8_lossy_def list_all2_map1 list_all2_map2)
  then show ?thesis by (simp add: body_get_collected request_chain_parts request_query_def)
qed

lemma body_key_ignores_ill_formed_bytes_witness:
  "kps_parts (body_get (scripted_body :: ((nat + unit http_frame) poll list, unit, nat) body_ops) demo_text demo_json ExtractHash
      (request_chain demo_http demo_qs demo_router demo_text ''/users/'' ''tag'' ''accept'')
      (demo_upload\<lparr>hm_body := Complete (Some [104, 255])\<rparr>)) =
   kps_parts (body_get (scripted_body :: ((nat + unit http_frame) poll list, unit, nat) body_ops) demo_text demo_json ExtractHash
      (request_chain demo_http demo_qs demo_router demo_text ''/users/'' ''tag'' ''accept'')
      (demo_upload\<lparr>hm_body := Complete (Some [104, 254])\<rparr>))"
proof -
  have "list_all2 (\<lambda>x y. same_text_byte (unat x) (unat y)) [104, 255 :: byte] [104, 254 :: byte]"
    by (simp add: same_text_byte_def)
  from body_key_ignores_ill_formed_bytes [OF this, of scripted_body demo_text demo_json ExtractHash demo_http demo_qs
      demo_router "''/users/''" "''tag''" "''accept''" "hm_parts demo_request"]
  show ?thesis by (simp add: demo_upload_def demo_request_def)
qed

end
