(* ===== verification/Config_Extractor.thy ===== *)
theory Config_Extractor
  imports Config_Predicate Http_Body_Extractor
begin

text \<open>
  Extractors from a configuration file (hitbox-configuration/src/extractors): the parsed forms and
  the functions that wrap an inner extractor.  Compiling regular expressions and jq filters is the
  parameter \<open>extract_lib\<close>; what the extractors themselves need is gathered in \<open>extract_libs\<close>.
\<close>

section \<open>Libraries\<close>

record 'q extract_lib =
  xl_regex :: "string \<Rightarrow> regex option"
  xl_jq_compile :: "string \<Rightarrow> string + 'q"

record ('b, 'y, 'e, 'h, 'u, 'd, 'q, 'f, 'n, 'x) extract_libs =
  el_body :: "('b, 'y, 'e) body_ops"
  el_http :: "('h, 'u) http_lib"
  el_router :: "'d router"
  el_qs :: qs_parser
  el_text :: text_lib
  el_json :: "('q, 'f, 'n, 'x) json_lib"
  el_compile :: "'q extract_lib"

definition compile_regex :: "'q extract_lib \<Rightarrow> string \<Rightarrow> (regex, config_error) result" where
  "compile_regex X pattern = ok_or (InvalidRegex pattern) (xl_regex X pattern)"

section \<open>Transforms\<close>

datatype transform_config = CHash | CLowercase | CUppercase

fun transform_into_http :: "transform_config \<Rightarrow> transform" where
  "transform_into_http CHash = Hash"
| "transform_into_http CLowercase = Lowercase"
| "transform_into_http CUppercase = Uppercase"

definition into_http_transforms :: "transform_config list \<Rightarrow> transform list" where
  "into_http_transforms transforms = map transform_into_http transforms"

section \<open>Headers\<close>

datatype header_name_operation = HnEq string | HnStarts string

datatype header_name_config = HnExact string | HnOperation header_name_operation

datatype header_extract_operation = HxoRegex string

datatype header_extract_config = HxRegex string | HxOperation header_extract_operation

record header_config =
  hc_name :: header_name_config
  hc_value :: "header_extract_config option"
  hc_transforms :: "transform_config list"

datatype header_extractor_config = HeaderSimple string | HeaderExtended header_config

fun header_name_selector :: "header_name_config \<Rightarrow> name_selector" where
  "header_name_selector (HnExact name) = Exact name"
| "header_name_selector (HnOperation (HnEq name)) = Exact name"
| "header_name_selector (HnOperation (HnStarts pre)) = Starts pre"

fun header_value_extractor :: "'q extract_lib \<Rightarrow> header_extract_config option \<Rightarrow> (value_extractor, config_error) result" where
  "header_value_extractor X None = Ok Full"
| "header_value_extractor X (Some (HxRegex pattern)) = rmap Regex (compile_regex X pattern)"
| "header_value_extractor X (Some (HxOperation (HxoRegex pattern))) = rmap Regex (compile_regex X pattern)"

fun header_into_extractors ::
  "'q extract_lib \<Rightarrow> header_extractor_config \<Rightarrow> 's extractor \<Rightarrow> ('s header_extractor, config_error) result" where
  "header_into_extractors X (HeaderSimple name) inner = Ok (header_extractor_with inner (Exact name) Full [])"
| "header_into_extractors X (HeaderExtended config) inner =
     rmap (\<lambda>value_extractor.
         header_extractor_with inner (header_name_selector (hc_name config)) value_extractor
           (into_http_transforms (hc_transforms config)))
       (header_value_extractor X (hc_value config))"

section \<open>Query parameters\<close>

datatype query_name_operation = QnEq string | QnStarts string

datatype query_name_config = QnExact string | QnOperation query_name_operation

fun query_operation_selector :: "query_name_operation \<Rightarrow> name_selector" where
  "query_operation_selector (QnEq name) = Exact name"
| "query_operation_selector (QnStarts pre) = Starts pre"

fun query_name_selector :: "query_name_config \<Rightarrow> name_selector" where
  "query_name_selector (QnExact name) = Exact name"
| "query_name_selector (QnOperation op) = query_operation_selector op"

datatype query_extract_config = QxRegex string

fun query_value_extractor :: "'q extract_lib \<Rightarrow> query_extract_config \<Rightarrow> (value_extractor, config_error) result" where
  "query_value_extractor X (QxRegex pattern) = rmap Regex (ok_or (InvalidRegex pattern) (xl_regex X pattern))"

record query_config =
  qc_name :: query_name_config
  qc_value :: "query_extract_config option"
  qc_transforms :: "transform_config list"

definition query_config_into_extractors ::
  "'q extract_lib \<Rightarrow> query_config \<Rightarrow> 's extractor \<Rightarrow> ('s query_extractor, config_error) result" where
  "query_config_into_extractors X self inner =
     rbind (case qc_value self of
              None \<Rightarrow> Ok None
            | Some v \<Rightarrow> rmap Some (query_value_extractor X v))
       (\<lambda>value. Ok (query_extractor_with inner (query_name_selector (qc_name self))
          (case value of Some v \<Rightarrow> v | None \<Rightarrow> Full) (into_http_transforms (qc_transforms self))))"

datatype query_extractor_config = QuerySimple string | QueryExtended query_config

fun query_into_extractors ::
  "'q extract_lib \<Rightarrow> query_extractor_config \<Rightarrow> 's extractor \<Rightarrow> ('s query_extractor, config_error) result" where
  "query_into_extractors X (QuerySimple name) inner = Ok (query_extractor_with inner (Exact name) Full [])"
| "query_into_extractors X (QueryExtended config) inner = query_config_into_extractors X config inner"

section \<open>Bodies\<close>

datatype body_transform = BodyHash

datatype transform_chain = Single transform_config | Chain "transform_config list"

fun chain_into_vec :: "transform_chain \<Rightarrow> transform_config list" where
  "chain_into_vec (Single t) = [t]"
| "chain_into_vec (Chain v) = v"

datatype transforms_config = CFullBody "transform_config list" | CPerKey "(string \<times> transform_chain) list" | CNoTransforms

record regex_config =
  rc_regex :: string
  rc_key :: "string option"
  rc_global :: bool
  rc_transforms :: transforms_config

datatype body_extractor_config = BodyTransforms "body_transform list" | BodyJq string | BodyRegex regex_config

fun regex_transforms :: "transforms_config \<Rightarrow> transforms" where
  "regex_transforms CNoTransforms = NoTransforms"
| "regex_transforms (CFullBody chain) = FullBody (map transform_into_http chain)"
| "regex_transforms (CPerKey m) =
     PerKey (map (\<lambda>(k, v). let chain = map transform_into_http (chain_into_vec v) in (k, chain)) m)"

fun body_extraction_of :: "'q extract_lib \<Rightarrow> body_extractor_config \<Rightarrow> ('q body_extraction, config_error) result" where
  "body_extraction_of X (BodyTransforms _) = Ok ExtractHash"
| "body_extraction_of X (BodyJq jq) =
     (case xl_jq_compile X jq of Inl e \<Rightarrow> Err (InvalidPredicate e) | Inr q \<Rightarrow> Ok (ExtractJq q))"
| "body_extraction_of X (BodyRegex op) =
     rbind (ok_or (InvalidRegex (rc_regex op)) (xl_regex X (rc_regex op))) (\<lambda>regex.
       let transforms = regex_transforms (rc_transforms op) in
       Ok (ExtractRegex \<lparr>re_regex = regex, re_key = rc_key op, re_global = rc_global op, re_transforms = transforms\<rparr>))"

section \<open>Extractors\<close>

datatype extractor_config =
    XPath string
  | XMethod
  | XQuery query_extractor_config
  | XBody body_extractor_config
  | XHeader header_extractor_config
  | XVersion

fun into_extractors ::
  "('b, 'y, 'e, 'h, 'u, 'd, 'q, 'f, 'n, 'x) extract_libs \<Rightarrow> extractor_config \<Rightarrow> ('h, 'u, 'b, 'e) http_request extractor
     \<Rightarrow> (('h, 'u, 'b, 'e) http_request extractor, config_error) result" where
  "into_extractors A XMethod inner = Ok (method_get inner)"
| "into_extractors A (XPath path) inner = Ok (path_get (el_http A) (el_router A) (rt_from (el_router A) path) inner)"
| "into_extractors A (XQuery query) inner =
     rmap (query_get (el_http A) (el_qs A) (el_text A)) (query_into_extractors (el_compile A) query inner)"
| "into_extractors A (XBody body) inner =
     rmap (\<lambda>extraction. body_get (el_body A) (el_text A) (el_json A) extraction inner) (body_extraction_of (el_compile A) body)"
| "into_extractors A (XHeader header) inner =
     rmap (header_get (el_http A) (el_text A)) (header_into_extractors (el_compile A) header inner)"
| "into_extractors A XVersion inner = Ok (version_get (el_http A) inner)"

end
