(* ===== verification/Config_Meaning.thy ===== *)
theory Config_Meaning
  imports Config_Predicate
begin

text \<open>
  What request predicates built from a configuration decide: the meaning of the parsed forms, read
  off the tree, and the proof that the built predicate has it, with the exact shape of the trees for
  which the inner predicates are kept.
\<close>

section \<open>What a configuration means\<close>

text \<open>A predicate decides a condition of the subjects of \<open>D\<close>, and gives the subject back unchanged.\<close>

definition decides :: "('s \<Rightarrow> bool) \<Rightarrow> 's async_predicate \<Rightarrow> ('s \<Rightarrow> bool) \<Rightarrow> bool" where
  "decides D p f \<longleftrightarrow> (\<forall>s. D s \<longrightarrow> p s = Some (verdict (f s) s))"

definition buffered :: "(('p, 'b, 'e) http_message \<Rightarrow> bool) \<Rightarrow> bool" where
  "buffered D \<longleftrightarrow> (\<forall>s. D s \<longrightarrow> (\<exists>d. hm_body s = Complete (Some d)))"

fun param_holds :: "param_operation_canonical \<Rightarrow> string \<Rightarrow> query_map \<Rightarrow> bool" where
  "param_holds (POEq value) key m = query_matches (QueryEq key value) m"
| "param_holds (POIn values) key m = query_matches (QueryIn key values) m"
| "param_holds POExists key m = query_matches (QueryExist key) m"

fun predicate_means ::
  "('b, 'y, 'e, 'h, 'u, 'd, 'f, 'j, 'v, 'x) http_libs \<Rightarrow> 'j request_predicate_config \<Rightarrow> ('h, 'u, 'b, 'e) http_request \<Rightarrow> bool" where
  "predicate_means A (RMethod (CMethodEq m)) s = (cl_method (ll_config A) m = Some (rq_method (hm_parts s)))"
| "predicate_means A (RMethod (CMethodIn ms)) s = (Some (rq_method (hm_parts s)) \<in> cl_method (ll_config A) ` set ms)"
| "predicate_means A (RPath (CPathPattern pattern)) s =
     rt_is_match (ll_router A) (rt_from (ll_router A) pattern) (hl_uri_path (ll_http A) (rq_uri (hm_parts s)))"
| "predicate_means A (RPath (CPathIn patterns)) s =
     (\<exists>pattern \<in> set patterns. rt_is_match (ll_router A) (rt_from (ll_router A) pattern) (hl_uri_path (ll_http A) (rq_uri (hm_parts s))))"
| "predicate_means A (RQuery params) s =
     (\<forall>(key, param_op) \<in> set params. case request_query (ll_http A) (ll_qs A) s of
        Some m \<Rightarrow> param_holds (param_to_operation param_op) key m | None \<Rightarrow> False)"
| "predicate_means A (RHeader headers) s =
     (\<forall>(name, value) \<in> set headers.
        case rbind (parse_header_name (ll_config A) name) (\<lambda>name. header_value_to_operation (ll_config A) name value) of
          Inr operation \<Rightarrow> header_operation_check (ll_http A) operation (request_headers s) | Inl _ \<Rightarrow> False)"
| "predicate_means A (RVersion v) s =
     (case into_version_operation (ll_config A) v of
        Inr operation \<Rightarrow> version_operation_check operation (request_version s) | Inl _ \<Rightarrow> False)"
| "predicate_means A (RBody b) s =
     (case into_body_operation (ll_config A) b of
        Inr operation \<Rightarrow> (case body_operation_check (ll_body A) (ll_jq A) operation (hm_body s) of
           Some p \<Rightarrow> pr_cacheable p | None \<Rightarrow> False)
      | Inl _ \<Rightarrow> False)"

fun expression_means ::
    "('b, 'y, 'e, 'h, 'u, 'd, 'f, 'j, 'v, 'x) http_libs \<Rightarrow> 'j request_expression \<Rightarrow> ('h, 'u, 'b, 'e) http_request \<Rightarrow> bool"
  and operation_means ::
    "('b, 'y, 'e, 'h, 'u, 'd, 'f, 'j, 'v, 'x) http_libs \<Rightarrow> 'j request_operation \<Rightarrow> ('h, 'u, 'b, 'e) http_request \<Rightarrow> bool" where
  "expression_means A (RPredicate p) s = predicate_means A p s"
| "expression_means A (ROperation op) s = operation_means A op s"
| "operation_means A (RAnd es) s = (\<forall>e \<in> set es. expression_means A e s)"
| "operation_means A (ROr es) s = (es = [] \<or> (\<exists>e \<in> set es. expression_means A e s))"
| "operation_means A (RNot e) s = (\<not> expression_means A e s)"

text \<open>The forms that keep the predicate they are wrapped around: a path list, a disjunction and a
  negation do not.\<close>

fun predicate_keeps :: "'j request_predicate_config \<Rightarrow> bool" where
  "predicate_keeps (RPath (CPathIn patterns)) = False"
| "predicate_keeps p = True"

fun expression_keeps :: "'j request_expression \<Rightarrow> bool" and operation_keeps :: "'j request_operation \<Rightarrow> bool" where
  "expression_keeps (RPredicate p) = predicate_keeps p"
| "expression_keeps (ROperation op) = operation_keeps op"
| "operation_keeps (RAnd es) = (\<forall>e \<in> set es. expression_keeps e)"
| "operation_keeps (ROr es) = (es = [])"
| "operation_keeps (RNot e) = False"

text \<open>Conjunctions in which only the last operand drops what it is wrapped around.\<close>

fun expression_ordered :: "'j request_expression \<Rightarrow> bool" and operation_ordered :: "'j request_operation \<Rightarrow> bool" where
  "expression_ordered (RPredicate p) = True"
| "expression_ordered (ROperation op) = operation_ordered op"
| "operation_ordered (RAnd es) = ((\<forall>e \<in> set es. expression_ordered e) \<and> (\<forall>e \<in> set (butlast es). expression_keeps e))"
| "operation_ordered (ROr es) = (\<forall>e \<in> set es. expression_ordered e)"
| "operation_ordered (RNot e) = expression_ordered e"

fun predicate_reads_body :: "'j request_predicate_config \<Rightarrow> bool" where
  "predicate_reads_body (RBody b) = True"
| "predicate_reads_body p = False"

fun expression_reads_body :: "'j request_expression \<Rightarrow> bool" and operation_reads_body :: "'j request_operation \<Rightarrow> bool" where
  "expression_reads_body (RPredicate p) = predicate_reads_body p"
| "expression_reads_body (ROperation op) = operation_reads_body op"
| "operation_reads_body (RAnd es) = (\<exists>e \<in> set es. expression_reads_body e)"
| "operation_reads_body (ROr es) = (\<exists>e \<in> set es. expression_reads_body e)"
| "operation_reads_body (RNot e) = expression_reads_body e"

lemma decidesI: "(\<And>s. D s \<Longrightarrow> p s = Some (verdict (f s) s)) \<Longrightarrow> decides D p f"
  by (simp add: decides_def)

lemma decides_cong: "decides D p f \<Longrightarrow> (\<And>s. D s \<Longrightarrow> f s = g s) \<Longrightarrow> decides D p g"
  by (simp add: decides_def)

lemma decides_neutral: "decides D async_neutral (\<lambda>s. True)"
  by (simp add: decides_def async_neutral_def neutral_def verdict_def)

lemma decides_not: "decides D p f \<Longrightarrow> decides D (async_not p) (\<lambda>s. \<not> f s)"
  by (simp add: decides_def async_not_def verdict_def)

lemma decides_or: "decides D p f \<Longrightarrow> decides D q g \<Longrightarrow> decides D (async_or p q) (\<lambda>s. f s \<or> g s)"
  by (simp add: decides_def async_or_def verdict_def)

lemma decides_after: "decides D inner g \<Longrightarrow> decides D (after_inner inner f) (\<lambda>s. g s \<and> f s)"
  by (simp add: decides_def after_inner_eq)

lemma complete_body_total: "\<exists>q. body_operation_check B J op (Complete (Some d)) = Some q"
proof (cases op)
  case (Plain plain)
  then show ?thesis by (cases plain) auto
qed (auto split: option.split)

lemma decides_body:
  assumes "decides D inner g" "buffered D"
  shows "decides D (body_predicate_check B J (body_predicate_on inner op))
    (\<lambda>s. g s \<and> (case body_operation_check B J op (hm_body s) of Some p \<Rightarrow> pr_cacheable p | None \<Rightarrow> False))"
proof (rule decidesI)
  fix s assume s: "D s"
  then obtain d where d: "hm_body s = Complete (Some d)" using assms(2) by (auto simp: buffered_def)
  obtain q where q: "body_operation_check B J op (Complete (Some d)) = Some q"
    using complete_body_total by blast
  have i: "bp_inner (body_predicate_on inner op) s = Some (verdict (g s) s)" and o: "bp_operation (body_predicate_on inner op) = op"
    using assms(1) s by (simp_all add: decides_def body_predicate_on_def)
  have "s\<lparr>hm_body := Complete (Some d)\<rparr> = s" using d by (cases s) simp
  then show "body_predicate_check B J (body_predicate_on inner op) s = Some (verdict (g s \<and>
      (case body_operation_check B J op (hm_body s) of Some p \<Rightarrow> pr_cacheable p | None \<Rightarrow> False)) s)"
    using body_predicate_check_eq [OF i, of B J q] q complete_body_kept [OF q] d
    by (cases s) (simp add: o)
qed

lemma collect_ok_Inr: "collect_ok (map f xs) = Inr ys \<longleftrightarrow> list_all2 (\<lambda>x y. f x = Inr y) xs ys"
proof (induction xs arbitrary: ys)
  case (Cons x xs)
  show ?case
  proof (cases "f x")
    case (Inl e)
    then show ?thesis by (cases ys) auto
  next
    case (Inr v)
    then show ?thesis by (cases ys) (auto simp: Cons rmap_eq_Inr)
  qed
qed auto

lemma parse_methods_image:
  "parse_methods C ms = Inr hs \<Longrightarrow> m \<in> set hs \<longleftrightarrow> Some m \<in> cl_method C ` set ms"
proof -
  assume "parse_methods C ms = Inr hs"
  then have "list_all2 (\<lambda>x y. cl_method C x = Some y) ms hs"
    by (simp add: parse_methods_def collect_ok_Inr parse_method_def ok_or_def)
      (auto elim!: list_all2_mono split: option.splits)
  then show ?thesis
    by (induction rule: list_all2_induct) auto
qed

lemma decides_path_list:
  assumes "decides D acc f"
  shows "decides D (foldl (\<lambda>acc predicate. async_or predicate acc) acc
      (map (\<lambda>pattern. path_check L R (path_new (rt_from R pattern))) patterns))
    (\<lambda>s. f s \<or> (\<exists>pattern \<in> set patterns. rt_is_match R (rt_from R pattern) (hl_uri_path L (rq_uri (hm_parts s)))))"
  using assms
proof (induction patterns arbitrary: acc f)
  case (Cons p ps)
  have "decides D (path_check L R (path_new (rt_from R p))) (\<lambda>s. rt_is_match R (rt_from R p) (hl_uri_path L (rq_uri (hm_parts s))))"
    using decides_after [OF decides_neutral [of D]]
    by (simp add: path_check_def path_new_def async_neutral_def [abs_def])
  from Cons.IH [OF decides_or [OF this Cons.prems]] show ?case
    by (auto elim!: decides_cong)
qed simp

lemma try_rfold_decides:
  assumes step: "\<And>x inner g q. x \<in> set xs \<Longrightarrow> decides D inner g \<Longrightarrow> f x inner = Inr q \<Longrightarrow> decides D q (\<lambda>s. g s \<and> h x s)"
    and "decides D inner g" "try_rfold f inner xs = Inr q"
  shows "decides D q (\<lambda>s. g s \<and> (\<forall>x \<in> set xs. h x s))"
  using assms
proof (induction xs arbitrary: q)
  case (Cons x xs)
  then obtain r where r: "try_rfold f inner xs = Inr r" "f x r = Inr q" by (auto simp: rbind_eq_Inr)
  have "decides D r (\<lambda>s. g s \<and> (\<forall>x \<in> set xs. h x s))"
    using Cons.IH [OF Cons.prems(1) Cons.prems(2) r(1)] by simp
  from Cons.prems(1) [OF _ this r(2)] show ?case by (auto elim!: decides_cong)
qed simp

lemma headers_decide:
  assumes "decides D inner g" "headers_into_predicates C L get headers inner = Inr q"
  shows "decides D q (\<lambda>s. g s \<and> (\<forall>(name, value) \<in> set headers.
    case rbind (parse_header_name C name) (\<lambda>name. header_value_to_operation C name value) of
      Inr operation \<Rightarrow> header_operation_check L operation (get s) | Inl _ \<Rightarrow> False))"
proof -
  have "decides D q (\<lambda>s. g s \<and> (\<forall>x \<in> set headers. (\<lambda>(name, value) s.
      case rbind (parse_header_name C name) (\<lambda>name. header_value_to_operation C name value) of
        Inr operation \<Rightarrow> header_operation_check L operation (get s) | Inl _ \<Rightarrow> False) x s))"
  proof (rule try_rfold_decides [OF _ assms(1) assms(2) [unfolded headers_into_predicates_def]])
    fix x inner g q
    assume i: "decides D inner g" and q: "(case x of (header_name, header_value) \<Rightarrow> \<lambda>inner.
        rbind (parse_header_name C header_name) (\<lambda>name. rbind (header_value_to_operation C name header_value)
          (\<lambda>operation. Ok (header_check L get (header_on inner operation))))) inner = Inr q"
    obtain n v where x: "x = (n, v)" by (metis surj_pair)
    from q x obtain name op where p: "parse_header_name C n = Inr name" "header_value_to_operation C name v = Inr op"
      and "q = header_check L get (header_on inner op)" by (auto simp: rbind_eq_Inr)
    then show "decides D q (\<lambda>s. g s \<and> (\<lambda>(name, value) s.
      case rbind (parse_header_name C name) (\<lambda>name. header_value_to_operation C name value) of
        Inr operation \<Rightarrow> header_operation_check L operation (get s) | Inl _ \<Rightarrow> False) x s)"
      using decides_after [OF i] by (simp add: x header_check_def header_on_def)
  qed
  then show ?thesis by (rule decides_cong) auto
qed

lemma query_decides:
  assumes "decides D inner g" "query_into_predicates L Q params inner = Inr q"
  shows "decides D q (\<lambda>s. g s \<and> (\<forall>(key, param_op) \<in> set params. case request_query L Q s of
        Some m \<Rightarrow> param_holds (param_to_operation param_op) key m | None \<Rightarrow> False))"
  using assms
proof (induction params arbitrary: q)
  case Nil
  then show ?case by (simp add: query_into_predicates_def)
next
  case (Cons x params)
  obtain key op where x: "x = (key, op)" by (metis surj_pair)
  obtain r where r: "query_into_predicates L Q params inner = Inr r" by (simp add: query_into_predicates_def)
  note d = decides_after [OF Cons.IH [OF Cons.prems(1) r]]
  have q: "q = (case param_to_operation op of
      POEq value \<Rightarrow> query_check L Q (query_on r (QueryEq key value))
    | POIn values \<Rightarrow> query_check L Q (query_on r (QueryIn key values))
    | POExists \<Rightarrow> query_check L Q (query_on r (QueryExist key)))"
    using Cons.prems(2) r by (auto simp: x query_into_predicates_def)
  note e = decides_cong [OF d]
  have sel: "qp_operation (query_on r o') = o'" "qp_inner (query_on r o') = r" for o' by (simp_all add: query_on_def)
  show ?case
  proof (cases "param_to_operation op")
    case (POEq v)
    show ?thesis unfolding q query_check_def by (simp only: POEq sel param_operation_canonical.case) (rule e, simp only: x list.set ball_simps prod.case param_holds.simps POEq conj_ac cong: option.case_cong)
  next
    case (POIn vs)
    show ?thesis unfolding q query_check_def by (simp only: POIn sel param_operation_canonical.case) (rule e, simp only: x list.set ball_simps prod.case param_holds.simps POIn conj_ac cong: option.case_cong)
  next
    case POExists
    show ?thesis unfolding q query_check_def by (simp only: POExists sel param_operation_canonical.case) (rule e, simp only: x list.set ball_simps prod.case param_holds.simps POExists conj_ac cong: option.case_cong)
  qed
qed

lemma predicate_decides:
  assumes i: "decides D inner g" and q: "request_predicate_into A p inner = Inr q"
    and b: "\<not> predicate_reads_body p \<or> buffered D"
  shows "decides D q (\<lambda>s. (predicate_keeps p \<longrightarrow> g s) \<and> predicate_means A p s)"
proof (cases p)
  case (RMethod m)
  show ?thesis
  proof (cases m)
    case (CMethodEq x)
    with q RMethod show ?thesis
      using decides_after [OF i]
      by (auto simp: parse_method_def ok_or_def method_check_def method_on_def rmap_eq_Inr split: option.splits)
  next
    case (CMethodIn xs)
    with q RMethod obtain hs where hs: "parse_methods (ll_config A) xs = Inr hs"
      "q = method_check (method_new_in inner hs)" by (auto simp: rmap_eq_Inr)
    with CMethodIn RMethod show ?thesis
      using decides_after [OF i] by (simp add: method_check_def method_new_in_def parse_methods_image [OF hs(1), symmetric])
  qed
next
  case (RPath path)
  show ?thesis
  proof (cases path)
    case (CPathPattern x)
    with q RPath show ?thesis using decides_after [OF i] by (auto simp: path_check_def path_on_def)
  next
    case (CPathIn xs)
    with q RPath obtain x ys where xs: "xs = x # ys" by (cases xs) (auto simp: ok_or_def)
    have "decides D (path_check (ll_http A) (ll_router A) (path_new (rt_from (ll_router A) x)))
        (\<lambda>s. rt_is_match (ll_router A) (rt_from (ll_router A) x) (hl_uri_path (ll_http A) (rq_uri (hm_parts s))))"
      using decides_after [OF decides_neutral [of D]] by (simp add: path_check_def path_new_def async_neutral_def [abs_def])
    from decides_path_list [OF this, of "ll_http A" "ll_router A" ys] q RPath CPathIn xs show ?thesis
      by (simp add: ok_or_def)
  qed
next
  case (RQuery params)
  with query_decides [OF i] q show ?thesis by simp
next
  case (RHeader headers)
  with headers_decide [OF i] q show ?thesis by simp
next
  case (RVersion v)
  with q obtain op where "into_version_operation (ll_config A) v = Inr op"
    "q = version_check request_version (version_on inner op)" by (auto simp: version_into_predicates_def rmap_eq_Inr)
  with RVersion show ?thesis using decides_after [OF i] by (simp add: version_check_def version_on_def)
next
  case (RBody body)
  with q obtain op where "into_body_operation (ll_config A) body = Inr op"
    "q = body_predicate_check (ll_body A) (ll_jq A) (body_predicate_on inner op)"
    by (auto simp: body_into_predicates_def rmap_eq_Inr)
  with RBody b decides_body [OF i] show ?thesis by simp
qed

lemma expression_decides:
  "request_expression_into A e inner = Inr q \<Longrightarrow> expression_ordered e \<Longrightarrow> \<not> expression_reads_body e \<or> buffered D \<Longrightarrow>
     decides D inner g \<Longrightarrow> expression_keeps e \<or> g = (\<lambda>s. True) \<Longrightarrow> decides D q (\<lambda>s. g s \<and> expression_means A e s)"
  "request_operation_into A op inner = Inr q \<Longrightarrow> operation_ordered op \<Longrightarrow> \<not> operation_reads_body op \<or> buffered D \<Longrightarrow>
     decides D inner g \<Longrightarrow> operation_keeps op \<or> g = (\<lambda>s. True) \<Longrightarrow> decides D q (\<lambda>s. g s \<and> operation_means A op s)"
  "request_and_into A es inner = Inr q \<Longrightarrow> operation_ordered (RAnd es) \<Longrightarrow> \<not> operation_reads_body (RAnd es) \<or> buffered D \<Longrightarrow>
     decides D inner g \<Longrightarrow> operation_keeps (RAnd es) \<or> g = (\<lambda>s. True) \<Longrightarrow>
     decides D q (\<lambda>s. g s \<and> (\<forall>e \<in> set es. expression_means A e s))"
  "request_or_into A es inner = Inr q \<Longrightarrow> operation_ordered (ROr es) \<Longrightarrow> \<not> operation_reads_body (ROr es) \<or> buffered D \<Longrightarrow>
     decides D inner g \<Longrightarrow> decides D q (\<lambda>s. g s \<or> (\<exists>e \<in> set es. expression_means A e s))"
proof (induction A e inner and A op inner and A es inner and A es inner arbitrary: q g and q g and q g and q g
    rule: request_expression_into_request_operation_into_request_and_into_request_or_into.induct)
  case (1 A p inner)
  from predicate_decides [OF 1(4), of A p q] 1(1,3,5) show ?case by (auto elim!: decides_cong)
next
  case (2 A op inner)
  then show ?case by simp
next
  case (3 A predicates inner)
  show ?case
  proof (cases predicates)
    case Nil
    with 3 show ?thesis by (auto elim!: decides_cong)
  next
    case (Cons first rest)
    with 3(3) obtain r where r: "request_expression_into A first async_neutral = Inr r" "request_or_into A rest r = Inr q"
      by (auto simp: rbind_eq_Inr)
    have "decides D r (\<lambda>s. True \<and> expression_means A first s)"
      using 3(1) [OF Cons r(1) _ _ decides_neutral] 3(4,5) Cons by auto
    from 3(2) [OF Cons r(2) _ _ this] 3(4,5,7) Cons show ?thesis by (auto elim!: decides_cong)
  qed
next
  case (4 A predicates inner)
  then show ?case by simp
next
  case (5 A e inner)
  then obtain r where r: "request_expression_into A e async_neutral = Inr r" "q = async_not r" by (auto simp: rmap_eq_Inr)
  have "decides D r (\<lambda>s. True \<and> expression_means A e s)"
    using 5(1) [OF r(1) _ _ decides_neutral] 5(3,4) by auto
  from decides_not [OF this] r(2) 5(6) show ?case by (auto elim!: decides_cong)
next
  case (6 A inner)
  then show ?case by (auto elim!: decides_cong)
next
  case (7 A p ps inner)
  then obtain r where r: "request_and_into A ps inner = Inr r" "request_expression_into A p r = Inr q"
    by (auto simp: rbind_eq_Inr)
  have ord: "operation_ordered (RAnd ps)" "expression_ordered p" "ps \<noteq> [] \<Longrightarrow> expression_keeps p"
    using 7(4) by (auto dest: in_set_butlastD split: if_splits)
  have d: "decides D r (\<lambda>s. g s \<and> (\<forall>e \<in> set ps. expression_means A e s))"
    using 7(1) [OF r(1) ord(1) _ 7(6)] 7(5,7) by auto
  have "expression_keeps p \<or> (\<lambda>s. g s \<and> (\<forall>e \<in> set ps. expression_means A e s)) = (\<lambda>s. True)"
    using ord(3) 7(7) by (cases ps) auto
  from 7(2) [OF r(2) ord(2) _ d this] 7(5) show ?case by (auto elim!: decides_cong)
next
  case (8 A acc)
  then show ?case by simp
next
  case (9 A p ps acc)
  then obtain r where r: "request_expression_into A p async_neutral = Inr r" "request_or_into A ps (async_or r acc) = Inr q"
    by (auto simp: rbind_eq_Inr)
  have "decides D r (\<lambda>s. True \<and> expression_means A p s)"
    using 9(1) [OF r(1) _ _ decides_neutral] 9(4,5) by auto
  from 9(2) [OF r(2) _ _ decides_or [OF this 9(6)]] 9(4,5) show ?case by (auto elim!: decides_cong)
qed

section \<open>Properties\<close>

lemma rbind_Ok: "rbind x (\<lambda>a. rbind (f a) Inr) = rbind x f"
  by (cases x; simp; cases "f (projr x)"; simp)

definition demo_config :: "(bool, demo_json) config_lib" where
  "demo_config = \<lparr>cl_method = Some, cl_header_name = Some, cl_header_value = (\<lambda>s. Some (bytes_of_str s)),
     cl_regex = (\<lambda>s. if s = ''['' then None else Some (\<lambda>t. sublist s t)),
     cl_bytes_regex = (\<lambda>s. if s = ''['' then None else Some (sublist (bytes_of_str s))),
     cl_jq_compile = (\<lambda>s. if s = [] then Inl ''empty'' else Inr True), cl_json_true = DemoByte 1, cl_upper = id\<rparr>"

definition demo_libs ::
  "((nat + unit http_frame) poll list, unit, nat, (string \<times> bytes) list, string \<times> string option, string,
    bool, demo_json, demo_json, unit) http_libs" where
  "demo_libs = \<lparr>ll_body = scripted_body, ll_jq = demo_jq, ll_http = demo_http, ll_router = demo_router, ll_qs = demo_qs,
     ll_config = demo_config\<rparr>"

lemma request_flat_is_and:
  "try_rfold (request_predicate_into A) inner ps = request_and_into A (map RPredicate ps) inner"
proof (induction ps)
  case (Cons p ps)
  have "request_expression_into A (RPredicate p) = request_predicate_into A p" by (rule ext) simp
  with Cons show ?case by simp
qed simp

fun request_tree :: "'j request_config \<Rightarrow> 'j request_expression" where
  "request_tree (RFlat ps) = ROperation (RAnd (map RPredicate ps))"
| "request_tree (RTree e) = e"

lemma request_into_tree: "request_into_predicates A cfg = request_expression_into A (request_tree cfg) async_neutral"
  by (cases cfg) (simp_all add: request_flat_is_and)

text \<open>C20. A request configuration, a flat list or a tree, builds the predicate it describes: the
  conjunctions, disjunctions and negations of what its leaves say of the request.  This holds when,
  in every conjunction, a path list, a disjunction or a negation stands last, and body conditions
  are checked on a buffered body; the request comes back as it was.\<close>

theorem configured_request_predicates:
  assumes "request_into_predicates A cfg = Ok q" and "expression_ordered (request_tree cfg)"
    and "\<not> expression_reads_body (request_tree cfg) \<or> hm_body s = Complete (Some d)"
  shows "q s = Some (verdict (expression_means A (request_tree cfg) s) s)"
proof -
  have b: "\<not> expression_reads_body (request_tree cfg) \<or> buffered (\<lambda>t. t = s)"
    using assms(3) by (auto simp: buffered_def)
  have "decides (\<lambda>t. t = s) q (\<lambda>s. True \<and> expression_means A (request_tree cfg) s)"
    by (rule expression_decides(1) [OF assms(1) [unfolded request_into_tree] assms(2) b decides_neutral]) simp
  then show ?thesis by (simp add: decides_def)
qed

definition demo_request_config :: "demo_json request_config" where
  "demo_request_config = RTree (ROperation (RAnd [RPredicate (RMethod (CMethodIn [''GET'', ''HEAD''])),
     RPredicate (RPath (CPathPattern ''/users/'')), ROperation (RNot (RPredicate (RHeader [(''x'', HvOperation HvoExist)])))]))"

lemma configured_request_predicates_witness:
  "\<exists>q. request_into_predicates demo_libs demo_request_config = Ok q \<and> q demo_request = Some (verdict True demo_request)"
proof -
  obtain q where q: "request_into_predicates demo_libs demo_request_config = Ok q"
    by (simp add: demo_request_config_def demo_libs_def demo_config_def parse_methods_def parse_method_def ok_or_def
        headers_into_predicates_def parse_header_name_def)
  have o: "expression_ordered (request_tree demo_request_config)" "\<not> expression_reads_body (request_tree demo_request_config)"
    by (simp_all add: demo_request_config_def)
  have b: "\<not> expression_reads_body (request_tree demo_request_config) \<or> hm_body demo_request = Complete (Some [])"
    using o(2) by blast
  have "expression_means demo_libs (request_tree demo_request_config) demo_request"
    by (simp add: demo_request_config_def demo_libs_def demo_config_def demo_request_def demo_router_def demo_http_def
        parse_header_name_def ok_or_def request_headers_def)
  with configured_request_predicates [OF q o(1) b] q show ?thesis by simp
qed

text \<open>What the operands of a conjunction come to, split at one of them.\<close>

lemma request_and_append:
  "request_and_into A (es @ fs) inner = rbind (request_and_into A fs inner) (request_and_into A es)"
proof (induction es arbitrary: inner)
  case Nil
  have "request_and_into A [] = (\<lambda>inner. Ok inner)" by (rule ext) simp
  then show ?case by (cases "request_and_into A fs inner") simp_all
next
  case (Cons e es)
  then show ?case by (cases "request_and_into A fs inner") simp_all
qed

lemma response_and_append:
  "response_and_into A (es @ fs) inner = rbind (response_and_into A es inner) (response_and_into A fs)"
proof (induction es arbitrary: inner)
  case (Cons e es)
  then show ?case by (cases "response_expression_into A e inner") simp_all
qed simp

lemma try_rfold_append: "try_rfold f init (xs @ ys) = rbind (try_rfold f init ys) (\<lambda>a. try_rfold f a xs)"
proof (induction xs)
  case Nil
  then show ?case by (cases "try_rfold f init ys") simp_all
next
  case (Cons x xs)
  then show ?case by (cases "try_rfold f init ys") simp_all
qed

text \<open>C31. A disjunction (of one or more operands), a negation or a path list drops the conditions it is combined with: in
  a conjunction of requests, of any length, the operands after it are checked for errors and then
  forgotten, so that it keeps them only when it stands last, and so does a path list in a flat list of predicates; in
  a conjunction of responses, which is folded from the other end, a disjunction forgets
  the operands before it, so that it keeps them only when it stands first.\<close>

theorem configured_disjunction_drops_conditions:
  assumes "e = ROperation (ROr (x # xs)) \<or> e = ROperation (RNot n) \<or> e = RPredicate (RPath (CPathIn patterns))"
    and "request_and_into A after async_neutral = Ok q" and "try_rfold (request_predicate_into A) async_neutral rest = Ok q'"
    and "response_and_into A before async_neutral = Ok r"
  shows "request_into_predicates A (RTree (ROperation (RAnd (es @ e # after))))
      = request_into_predicates A (RTree (ROperation (RAnd (es @ [e])))) \<and>
    request_into_predicates A (RFlat (ps @ RPath (CPathIn patterns) # rest))
      = request_into_predicates A (RFlat (ps @ [RPath (CPathIn patterns)])) \<and>
    response_into_predicates A (PTree (POperation (PAnd (before @ POperation (POr (y # ys)) # fs))))
      = response_into_predicates A (PTree (POperation (PAnd (POperation (POr (y # ys)) # fs))))"
proof (intro conjI)
  have "request_expression_into A e q = request_expression_into A e async_neutral" using assms(1) by auto
  then show "request_into_predicates A (RTree (ROperation (RAnd (es @ e # after))))
      = request_into_predicates A (RTree (ROperation (RAnd (es @ [e]))))"
    using assms(2) by (simp add: request_and_append rbind_Ok)
  show "request_into_predicates A (RFlat (ps @ RPath (CPathIn patterns) # rest))
      = request_into_predicates A (RFlat (ps @ [RPath (CPathIn patterns)]))"
    using assms(3) by (simp add: try_rfold_append)
  show "response_into_predicates A (PTree (POperation (PAnd (before @ POperation (POr (y # ys)) # fs))))
      = response_into_predicates A (PTree (POperation (PAnd (POperation (POr (y # ys)) # fs))))"
    using assms(4) by (simp add: response_and_append rbind_Ok)
qed

lemma configured_disjunction_drops_conditions_witness:
  "let either = ROperation (ROr [RPredicate (RPath (CPathPattern ''/a''))]); get = RPredicate (RMethod (CMethodEq ''GET'')) in
   request_into_predicates demo_libs (RTree (ROperation (RAnd [get, either, get, get])))
     = request_into_predicates demo_libs (RTree (ROperation (RAnd [get, either])))"
proof -
  let ?get = "RPredicate (RMethod (CMethodEq ''GET''))" and ?either = "ROperation (ROr [RPredicate (RPath (CPathPattern ''/a''))])"
  have b: "\<exists>q. request_and_into demo_libs [?get, ?get] async_neutral = Ok q"
    and p: "\<exists>q. try_rfold (request_predicate_into demo_libs) async_neutral [RMethod (CMethodEq ''GET'')] = Ok q"
    by (simp_all add: demo_libs_def demo_config_def parse_method_def ok_or_def)
  have c: "\<exists>r. response_and_into demo_libs [PPredicate (PStatus (CStatusEq (SeImplicit 200)))] async_neutral = Ok r"
    by (simp add: demo_libs_def demo_http_def parse_status_code_def ok_or_def)
  from b p c show ?thesis
    using configured_disjunction_drops_conditions [where e = ?either and es = "[?get]" and after = "[?get, ?get]"
        and x = "RPredicate (RPath (CPathPattern ''/a''))" and xs = "[]"
        and A = demo_libs]
    unfolding Let_def append.simps by blast
qed

end
