(* ===== verification/Config_Endpoint.thy ===== *)
theory Config_Endpoint
  imports Config_Extractor Config_Meaning Policy
begin

text \<open>
  What a cache needs to know of an endpoint: the interface \<open>CacheConfig\<close> and the generic \<open>Config\<close>
  with its builder (hitbox/src/config.rs), the endpoint and its builder
  (hitbox-configuration/src/endpoint.rs), and the endpoint a configuration file describes
  (hitbox-configuration/src/config.rs, types.rs).  The shared pointers around the predicates and the
  extractor are those values; building the default endpoint may panic, which is \<open>None\<close>.
\<close>

section \<open>The interface and its generic implementation\<close>

record ('q, 'r) cache_config =
  cc_request_predicates :: "'q async_predicate"
  cc_response_predicates :: "'r async_predicate"
  cc_extractors :: "'q extractor"
  cc_policy :: policy_config

record ('rp, 'sp, 'x) config =
  cg_request_predicate :: 'rp
  cg_response_predicate :: 'sp
  cg_extractor :: 'x
  cg_policy :: policy_config

definition config_as_cache_config :: "('q async_predicate, 'r async_predicate, 'q extractor) config \<Rightarrow> ('q, 'r) cache_config" where
  "config_as_cache_config self =
     \<lparr>cc_request_predicates = cg_request_predicate self, cc_response_predicates = cg_response_predicate self,
      cc_extractors = cg_extractor self, cc_policy = cg_policy self\<rparr>"

datatype not_set = NotSet

record ('rp, 'sp, 'x) config_builder =
  cgb_request_predicate :: 'rp
  cgb_response_predicate :: 'sp
  cgb_extractor :: 'x
  cgb_policy :: policy_config

definition config_builder_new :: "(not_set, not_set, not_set) config_builder" where
  "config_builder_new =
     \<lparr>cgb_request_predicate = NotSet, cgb_response_predicate = NotSet, cgb_extractor = NotSet, cgb_policy = policy_config_default\<rparr>"

definition config_set_request_predicate :: "'rp2 \<Rightarrow> ('rp, 'sp, 'x) config_builder \<Rightarrow> ('rp2, 'sp, 'x) config_builder" where
  "config_set_request_predicate p self =
     \<lparr>cgb_request_predicate = p, cgb_response_predicate = cgb_response_predicate self,
      cgb_extractor = cgb_extractor self, cgb_policy = cgb_policy self\<rparr>"

definition config_set_response_predicate :: "'sp2 \<Rightarrow> ('rp, 'sp, 'x) config_builder \<Rightarrow> ('rp, 'sp2, 'x) config_builder" where
  "config_set_response_predicate p self =
     \<lparr>cgb_request_predicate = cgb_request_predicate self, cgb_response_predicate = p,
      cgb_extractor = cgb_extractor self, cgb_policy = cgb_policy self\<rparr>"

definition config_set_extractor :: "'x2 \<Rightarrow> ('rp, 'sp, 'x) config_builder \<Rightarrow> ('rp, 'sp, 'x2) config_builder" where
  "config_set_extractor x self =
     \<lparr>cgb_request_predicate = cgb_request_predicate self, cgb_response_predicate = cgb_response_predicate self,
      cgb_extractor = x, cgb_policy = cgb_policy self\<rparr>"

definition config_set_policy :: "policy_config \<Rightarrow> ('rp, 'sp, 'x) config_builder \<Rightarrow> ('rp, 'sp, 'x) config_builder" where
  "config_set_policy policy self = self\<lparr>cgb_policy := policy\<rparr>"

definition config_build :: "('rp, 'sp, 'x) config_builder \<Rightarrow> ('rp, 'sp, 'x) config" where
  "config_build self =
     \<lparr>cg_request_predicate = cgb_request_predicate self, cg_response_predicate = cgb_response_predicate self,
      cg_extractor = cgb_extractor self, cg_policy = cgb_policy self\<rparr>"

section \<open>Values that may be left out\<close>

datatype 'a maybe_undefined = MNull | MUndefined | MValue 'a

fun maybe_map :: "('a option \<Rightarrow> 'b option) \<Rightarrow> 'a maybe_undefined \<Rightarrow> 'b maybe_undefined" where
  "maybe_map f (MValue v) = (case f (Some v) of Some v \<Rightarrow> MValue v | None \<Rightarrow> MNull)"
| "maybe_map f MNull = (case f None of Some v \<Rightarrow> MValue v | None \<Rightarrow> MNull)"
| "maybe_map f MUndefined = MUndefined"

fun maybe_unwrap_or :: "'a \<Rightarrow> 'a maybe_undefined \<Rightarrow> 'a" where
  "maybe_unwrap_or d (MValue v) = v"
| "maybe_unwrap_or d _ = d"

fun maybe_serialize :: "'a maybe_undefined \<Rightarrow> 'a option" where
  "maybe_serialize (MValue value) = Some value"
| "maybe_serialize _ = None"

definition maybe_deserialize :: "'a option \<Rightarrow> 'a maybe_undefined" where
  "maybe_deserialize value = (case value of Some value \<Rightarrow> MValue value | None \<Rightarrow> MNull)"

section \<open>Endpoints\<close>

record ('q, 'r) endpoint =
  en_request_predicates :: "'q async_predicate"
  en_response_predicates :: "'r async_predicate"
  en_extractors :: "'q extractor"
  en_policy :: policy_config

definition endpoint_as_cache_config :: "('q, 'r) endpoint \<Rightarrow> ('q, 'r) cache_config" where
  "endpoint_as_cache_config self =
     \<lparr>cc_request_predicates = en_request_predicates self, cc_response_predicates = en_response_predicates self,
      cc_extractors = en_extractors self, cc_policy = en_policy self\<rparr>"

record 'j config_endpoint =
  ce_request :: "'j request_config maybe_undefined"
  ce_response :: "'j response_config maybe_undefined"
  ce_extractors :: "extractor_config list maybe_undefined"
  ce_policy :: policy_config

definition config_endpoint_default :: "'j config_endpoint" where
  "config_endpoint_default =
     \<lparr>ce_request = MUndefined, ce_response = MUndefined, ce_extractors = MUndefined, ce_policy = policy_config_default\<rparr>"

definition endpoint_extractors ::
  "('b, 'y, 'e, 'h, 'u, 'd, 'q, 'f, 'n, 'x) extract_libs \<Rightarrow> 'j config_endpoint
     \<Rightarrow> (('h, 'u, 'b, 'e) http_request extractor, config_error) result" where
  "endpoint_extractors X self =
     (case ce_extractors self of
        MNull \<Rightarrow> Ok neutral_extractor
      | MUndefined \<Rightarrow> Ok (path_get (el_http X) (el_router X) (rt_from (el_router X) ''{path}*'') (method_get neutral_extractor))
      | MValue extractors \<Rightarrow> try_rfold (\<lambda>item inner. into_extractors X item inner) neutral_extractor extractors)"

definition into_endpoint ::
  "('b, 'y, 'e, 'h, 'u, 'd, 'q, 'f, 'n, 'x) extract_libs \<Rightarrow> ('b, 'y, 'e, 'h, 'u, 'd, 'g, 'j, 'v, 'z) http_libs
     \<Rightarrow> ('b2, 'y2, 'e2, 'h, 'u, 'd, 'g, 'j, 'v, 'z) http_libs \<Rightarrow> 'j config_endpoint
     \<Rightarrow> ((('h, 'u, 'b, 'e) http_request, ('h, 'b2, 'e2) http_response) endpoint, config_error) result" where
  "into_endpoint X A A2 self =
     rbind (endpoint_extractors X self) (\<lambda>extractors.
     rbind (case ce_response self of
              MValue response \<Rightarrow> response_into_predicates A2 response
            | MNull \<Rightarrow> Ok async_neutral
            | MUndefined \<Rightarrow> Ok (status_check (ll_http A2) (status_code_on async_neutral 200))) (\<lambda>response_predicates.
     rbind (case ce_request self of
              MValue request \<Rightarrow> request_into_predicates A request
            | MNull \<Rightarrow> Ok async_neutral
            | MUndefined \<Rightarrow> Ok (method_check (method_on async_neutral ''GET''))) (\<lambda>request_predicates.
     Ok \<lparr>en_request_predicates = request_predicates, en_response_predicates = response_predicates,
         en_extractors = extractors, en_policy = ce_policy self\<rparr>)))"

definition endpoint_default ::
  "('b, 'y, 'e, 'h, 'u, 'd, 'q, 'f, 'n, 'x) extract_libs \<Rightarrow> ('b, 'y, 'e, 'h, 'u, 'd, 'g, 'j, 'v, 'z) http_libs
     \<Rightarrow> ('b2, 'y2, 'e2, 'h, 'u, 'd, 'g, 'j, 'v, 'z) http_libs
     \<Rightarrow> (('h, 'u, 'b, 'e) http_request, ('h, 'b2, 'e2) http_response) endpoint option" where
  "endpoint_default X A A2 =
     (case into_endpoint X A A2 config_endpoint_default of Inr endpoint \<Rightarrow> Some endpoint | Inl _ \<Rightarrow> None)"

record ('q, 'r) endpoint_builder =
  eb_request_predicates :: "'q async_predicate option"
  eb_response_predicates :: "'r async_predicate option"
  eb_extractors :: "'q extractor option"
  eb_policy :: policy_config

definition endpoint_builder_new :: "('q, 'r) endpoint_builder" where
  "endpoint_builder_new =
     \<lparr>eb_request_predicates = None, eb_response_predicates = None, eb_extractors = None, eb_policy = policy_config_default\<rparr>"

definition endpoint_set_request_predicate :: "'q async_predicate \<Rightarrow> ('q, 'r) endpoint_builder \<Rightarrow> ('q, 'r) endpoint_builder" where
  "endpoint_set_request_predicate p self = self\<lparr>eb_request_predicates := Some p\<rparr>"

definition endpoint_set_response_predicate :: "'r async_predicate \<Rightarrow> ('q, 'r) endpoint_builder \<Rightarrow> ('q, 'r) endpoint_builder" where
  "endpoint_set_response_predicate p self = self\<lparr>eb_response_predicates := Some p\<rparr>"

definition endpoint_set_extractor :: "'q extractor \<Rightarrow> ('q, 'r) endpoint_builder \<Rightarrow> ('q, 'r) endpoint_builder" where
  "endpoint_set_extractor x self = self\<lparr>eb_extractors := Some x\<rparr>"

definition endpoint_set_policy :: "policy_config \<Rightarrow> ('q, 'r) endpoint_builder \<Rightarrow> ('q, 'r) endpoint_builder" where
  "endpoint_set_policy policy self = self\<lparr>eb_policy := policy\<rparr>"

definition endpoint_build ::
  "('b, 'y, 'e, 'h, 'u, 'd, 'q, 'f, 'n, 'x) extract_libs \<Rightarrow> ('b, 'y, 'e, 'h, 'u, 'd, 'g, 'j, 'v, 'z) http_libs
     \<Rightarrow> ('b2, 'y2, 'e2, 'h, 'u, 'd, 'g, 'j, 'v, 'z) http_libs
     \<Rightarrow> (('h, 'u, 'b, 'e) http_request, ('h, 'b2, 'e2) http_response) endpoint_builder
     \<Rightarrow> (('h, 'u, 'b, 'e) http_request, ('h, 'b2, 'e2) http_response) endpoint option" where
  "endpoint_build X A A2 self =
     map_option (\<lambda>endpoint.
       \<lparr>en_request_predicates = (case eb_request_predicates self of Some p \<Rightarrow> p | None \<Rightarrow> en_request_predicates endpoint),
        en_response_predicates = (case eb_response_predicates self of Some p \<Rightarrow> p | None \<Rightarrow> en_response_predicates endpoint),
        en_extractors = (case eb_extractors self of Some x \<Rightarrow> x | None \<Rightarrow> en_extractors endpoint),
        en_policy = eb_policy self\<rparr>)
     (endpoint_default X A A2)"

section \<open>Properties\<close>

text \<open>An extractor of a configuration on its own.\<close>

definition own_parts ::
  "('b, 'y, 'e, 'h, 'u, 'd, 'q, 'f, 'n, 'x) extract_libs \<Rightarrow> extractor_config \<Rightarrow> ('h, 'u, 'b, 'e) http_request \<Rightarrow> key_part list" where
  "own_parts X item r = (case into_extractors X item neutral_extractor of Inr q \<Rightarrow> kps_parts (q r) | Inl _ \<Rightarrow> [])"

fun item_reads_body :: "extractor_config \<Rightarrow> bool" where
  "item_reads_body (XBody b) = True"
| "item_reads_body item = False"

definition extracts :: "'s \<Rightarrow> 's extractor \<Rightarrow> key_part list \<Rightarrow> bool" where
  "extracts r q ps \<longleftrightarrow> kps_subject (q r) = r \<and> kps_parts (q r) = ps"

lemma extracts_neutral: "extracts r neutral_extractor []"
  by (simp add: extracts_def neutral_extractor_def)

text \<open>What an extractor adds does not depend on the one it wraps.\<close>

lemma extractor_with_sel [simp]:
  "qe_inner (query_extractor_with inner n v t) = inner" "qe_name_selector (query_extractor_with inner n v t) = n"
  "qe_value_extractor (query_extractor_with inner n v t) = v" "qe_transforms (query_extractor_with inner n v t) = t"
  "he_inner (header_extractor_with inner n v t) = inner" "he_name_selector (header_extractor_with inner n v t) = n"
  "he_value_extractor (header_extractor_with inner n v t) = v" "he_transforms (header_extractor_with inner n v t) = t"
  by (simp_all add: query_extractor_with_def header_extractor_with_def)

lemma query_value_parts_inner:
  "query_value_parts T (query_extractor_with (inner :: 's extractor) n v t) = query_value_parts T (query_extractor_with (neutral_extractor :: 's extractor) n v t)"
  by (rule ext)+ (simp add: query_value_parts_def)

lemma query_parts_inner:
  "query_parts T (query_extractor_with (inner :: 's extractor) n v t) m = query_parts T (query_extractor_with (neutral_extractor :: 's extractor) n v t) m"
  unfolding query_parts_def query_value_parts_inner [of T inner n v t] by simp

lemma header_parts_inner:
  "header_parts L T (header_extractor_with (inner :: 's extractor) n v t) h = header_parts L T (header_extractor_with (neutral_extractor :: 's extractor) n v t) h"
  by (simp add: header_parts_def)

lemma query_get_inner:
  "kps_subject (query_get L Q T (query_extractor_with inner n v t) r) = kps_subject (inner r)"
  "kps_parts (query_get L Q T (query_extractor_with inner n v t) r) =
     kps_parts (inner r) @ kps_parts (query_get L Q T (query_extractor_with neutral_extractor n v t) r)"
  using query_parts_inner [of T inner n v t]
  by (simp_all add: query_get_def Let_def neutral_extractor_def)

lemma header_get_inner:
  "kps_subject (header_get L T (header_extractor_with inner n v t) r) = kps_subject (inner r)"
  "kps_parts (header_get L T (header_extractor_with inner n v t) r) =
     kps_parts (inner r) @ kps_parts (header_get L T (header_extractor_with neutral_extractor n v t) r)"
  using header_parts_inner [of L T inner n v t]
  by (simp_all add: header_get_def Let_def neutral_extractor_def)

lemma into_extractors_own:
  assumes "into_extractors X item inner = Inr q" and "extracts r inner ps"
    and "\<not> item_reads_body item \<or> hm_body r = Complete (Some d)"
  shows "extracts r q (ps @ own_parts X item r)"
proof (cases item)
  case (XPath p)
  with assms show ?thesis
    by (auto simp: extracts_def own_parts_def path_get_def neutral_extractor_def Let_def)
next
  case XMethod
  with assms show ?thesis
    by (auto simp: extracts_def own_parts_def method_get_def neutral_extractor_def Let_def)
next
  case XVersion
  with assms show ?thesis
    by (auto simp: extracts_def own_parts_def version_get_def neutral_extractor_def Let_def)
next
  case (XQuery c)
  from XQuery assms(1) obtain n v t where q: "q = query_get (el_http X) (el_qs X) (el_text X) (query_extractor_with inner n v t)"
    and own: "into_extractors X item neutral_extractor
      = Inr (query_get (el_http X) (el_qs X) (el_text X) (query_extractor_with neutral_extractor n v t))"
  proof (cases c)
    case (QueryExtended g)
    with XQuery assms(1) that show ?thesis
      by (cases "qc_value g") (auto simp: query_config_into_extractors_def)
  qed auto
  with assms(2) show ?thesis by (simp add: extracts_def own_parts_def query_get_inner [of _ _ _ inner])
next
  case (XHeader c)
  from XHeader assms(1) obtain n v t where q: "q = header_get (el_http X) (el_text X) (header_extractor_with inner n v t)"
    and own: "into_extractors X item neutral_extractor
      = Inr (header_get (el_http X) (el_text X) (header_extractor_with neutral_extractor n v t))"
    by (cases c) auto
  with assms(2) show ?thesis by (simp add: extracts_def own_parts_def header_get_inner [of _ _ inner])
next
  case (XBody b)
  with assms(3) have d: "hm_body r = Complete (Some d)" and r: "r\<lparr>hm_body := Complete (Some d)\<rparr> = r" by simp_all
  have c: "body_collect (el_body X) (hm_body r) = Inr d" by (simp add: d)
  from XBody assms(1,2) show ?thesis
    by (auto simp: extracts_def own_parts_def rmap_eq_Inr body_get_collected [OF c] r neutral_extractor_def)
qed

lemma rfold_own:
  "try_rfold (\<lambda>item inner. into_extractors X item inner) neutral_extractor items = Inr q \<Longrightarrow>
   (\<forall>item \<in> set items. \<not> item_reads_body item) \<or> hm_body r = Complete (Some d) \<Longrightarrow>
   extracts r q (concat (map (\<lambda>item. own_parts X item r) (rev items)))"
proof (induction items arbitrary: q)
  case Nil
  then show ?case by (simp add: extracts_neutral)
next
  case (Cons item items)
  from Cons(2) obtain inner where i: "try_rfold (\<lambda>item inner. into_extractors X item inner) neutral_extractor items = Inr inner"
    "into_extractors X item inner = Inr q"
    by (cases "try_rfold (\<lambda>item inner. into_extractors X item inner) neutral_extractor items") auto
  from Cons(3) have b: "\<not> item_reads_body item \<or> hm_body r = Complete (Some d)" by auto
  from into_extractors_own [OF i(2) Cons(1) [OF i(1)] b] Cons(3) show ?case by auto
qed

text \<open>C35. The cache key of a configured endpoint is the concatenation of what its extractors give on
  their own, the last one of the list first, and extracting it leaves the request as it was; an
  extractor of the body needs the body to be buffered for that.\<close>

theorem configured_key_concatenates:
  assumes "endpoint_extractors X ce = Ok q" and "ce_extractors ce = MValue items"
    and "(\<forall>item \<in> set items. \<not> item_reads_body item) \<or> hm_body r = Complete (Some d)"
  shows "into_cache_key (q r) = (r, cache_key_new [] 0 (concat (map (\<lambda>item. own_parts X item r) (rev items))))"
  using rfold_own [where X = X and items = items and q = q, OF _ assms(3)] assms(1,2)
  by (simp add: endpoint_extractors_def extracts_def into_cache_key_eq)

definition demo_compile :: "unit extract_lib" where
  "demo_compile = \<lparr>xl_regex = (\<lambda>s. None), xl_jq_compile = (\<lambda>s. Inl s)\<rparr>"

definition demo_extract ::
  "((nat + unit http_frame) poll list, unit, nat, (string \<times> bytes) list, string \<times> string option, string, unit, unit, nat, unit) extract_libs" where
  "demo_extract = \<lparr>el_body = scripted_body, el_http = demo_http, el_router = demo_router, el_qs = demo_qs,
     el_text = demo_text, el_json = demo_json, el_compile = demo_compile\<rparr>"

definition demo_items :: "extractor_config list" where
  "demo_items = [XMethod, XPath ''/users/'', XQuery (QuerySimple ''tag''), XBody (BodyTransforms [BodyHash])]"

definition demo_posted ::
  "((string \<times> bytes) list, string \<times> string option, (nat + unit http_frame) poll list, nat) http_request" where
  "demo_posted = demo_upload\<lparr>hm_body := Complete (Some [104])\<rparr>"

lemma configured_key_concatenates_witness:
  "\<exists>q. endpoint_extractors demo_extract (config_endpoint_default\<lparr>ce_extractors := MValue demo_items\<rparr> :: unit config_endpoint) = Ok q
     \<and> into_cache_key (q demo_posted) = (demo_posted, cache_key_new [] 0
         (concat (map (\<lambda>item. own_parts demo_extract item demo_posted) (rev demo_items))))"
proof -
  let ?ce = "config_endpoint_default\<lparr>ce_extractors := MValue demo_items\<rparr> :: unit config_endpoint"
  obtain q where q: "endpoint_extractors demo_extract ?ce = Ok q"
    by (simp add: endpoint_extractors_def config_endpoint_default_def demo_items_def)
  have items: "ce_extractors ?ce = MValue demo_items" by (simp add: config_endpoint_default_def)
  have "(\<forall>item \<in> set demo_items. \<not> item_reads_body item) \<or> hm_body demo_posted = Complete (Some [104])"
    by (simp add: demo_posted_def)
  from configured_key_concatenates [OF q items this] q show ?thesis by blast
qed

text \<open>C37. The default endpoint always builds: it caches responses with status 200 to GET requests, keeps
  both as they were, and keys a request by its method and the captures of its path; a builder on which
  nothing was set builds exactly it.\<close>

theorem default_endpoint_builds:
  "\<exists>ep. endpoint_default X A A2 = Some ep \<and> endpoint_build X A A2 endpoint_builder_new = Some ep \<and>
     en_policy ep = policy_config_default \<and>
     (\<forall>r. en_request_predicates ep r = Some (verdict (rq_method (hm_parts r) = ''GET'') r)) \<and>
     (\<forall>s. en_response_predicates ep s = Some (verdict (rs_status (hm_parts s) = 200) s)) \<and>
     (\<forall>r. into_cache_key (en_extractors ep r) = (r, cache_key_new [] 0
        (key_part_new ''method'' (Some (rq_method (hm_parts r)))
          # map (\<lambda>(key, value). key_part_new key (Some value))
              (rt_captures (el_router X) (rt_from (el_router X) ''{path}*'') (hl_uri_path (el_http X) (rq_uri (hm_parts r)))))))"
proof -
  have n: "async_neutral s = Some (verdict True s)" for s :: 't
    by (simp add: async_neutral_def neutral_def verdict_def)
  obtain ep where d: "endpoint_default X A A2 = Some ep" and
    ep: "ep = \<lparr>en_request_predicates = method_check (method_on async_neutral ''GET''),
      en_response_predicates = status_check (ll_http A2) (status_code_on async_neutral 200),
      en_extractors = path_get (el_http X) (el_router X) (rt_from (el_router X) ''{path}*'') (method_get neutral_extractor),
      en_policy = policy_config_default\<rparr>"
    by (simp add: endpoint_default_def into_endpoint_def config_endpoint_default_def endpoint_extractors_def)
  have "en_request_predicates ep r = Some (verdict (rq_method (hm_parts r) = ''GET'') r)" for r
    by (simp add: ep method_check_def method_on_def after_inner_eq [where inner = async_neutral, OF n] eq_commute)
  moreover have "en_response_predicates ep s = Some (verdict (rs_status (hm_parts s) = 200) s)" for s
    by (simp add: ep status_check_def status_code_on_def after_inner_eq [where inner = async_neutral, OF n] eq_commute)
  moreover have "endpoint_build X A A2 endpoint_builder_new = Some ep" "en_policy ep = policy_config_default"
    by (simp_all add: endpoint_build_def endpoint_builder_new_def d ep)
  moreover have "into_cache_key (en_extractors ep r) = (r, cache_key_new [] 0
      (key_part_new ''method'' (Some (rq_method (hm_parts r)))
        # map (\<lambda>(key, value). key_part_new key (Some value))
            (rt_captures (el_router X) (rt_from (el_router X) ''{path}*'') (hl_uri_path (el_http X) (rq_uri (hm_parts r))))))" for r
    by (simp add: ep into_cache_key_eq path_get_def method_get_def neutral_extractor_def Let_def)
  ultimately show ?thesis using d by simp
qed

text \<open>Without extractors every request has the same key.\<close>

lemma null_extractors_share_key:
  assumes "endpoint_extractors X ce = Ok q" and "ce_extractors ce = MNull"
  shows "snd (into_cache_key (q r)) = snd (into_cache_key (q r'))"
  using assms by (auto simp: endpoint_extractors_def neutral_extractor_def into_cache_key_eq)

text \<open>A value survives being written to a configuration file and read back; leaving it out is
  written as null, which means something else.\<close>

lemma maybe_roundtrip:
  "maybe_deserialize (maybe_serialize m) = (if m = MUndefined then MNull else m)"
  by (cases m) (simp_all add: maybe_deserialize_def)

end
