(* ===== verification/Tower.thy ===== *)
theory Tower
  imports Config_Endpoint Fsm_Spec
begin

text \<open>
  The Tower integration (hitbox-tower): the service that answers HTTP requests through a cache
  future, its future, the adapter that calls the wrapped service, and the layer with its builder.
  The wrapped service is the parameter \<open>tower_ops\<close>: its instances are numbers, a future of it is a
  number as well.  The backend, the offload and the concurrency manager of a service stand for an
  environment of the cache future (\<open>run\<close>).
\<close>

section \<open>The wrapped service\<close>

text \<open>\<open>poll_ready\<close> and the future may answer that they are pending (\<open>None\<close>).\<close>

record ('q, 'r, 'er, 'w) tower_ops =
  tw_poll_ready :: "nat \<Rightarrow> 'w \<Rightarrow> ((unit, 'er) result, 'w) polled"
  tw_clone :: "nat \<Rightarrow> 'w \<Rightarrow> nat \<times> 'w"
  tw_call :: "nat \<Rightarrow> 'q \<Rightarrow> 'w \<Rightarrow> upstream_future \<times> 'w"
  tw_poll :: "upstream_future \<Rightarrow> 'w \<Rightarrow> (('r, 'er) result, 'w) polled"

type_synonym ('h, 'u, 'b, 'e, 'b2, 'er, 'w) http_service =
  "(('h, 'u) request_parts \<times> ('b, 'e) buffered_body, 'h response_parts \<times> 'b2, 'er, 'w) tower_ops"

definition tower_upstream_poll ::
  "('h, 'u, 'b, 'e, 'b2, 'er, 'w) http_service \<Rightarrow> upstream_future \<Rightarrow> 'w
     \<Rightarrow> ((('h, 'b2, 'e2) http_response, 'er) result, 'w) polled" where
  "tower_upstream_poll T inner w =
     (case tw_poll T inner w of
        (None, w') \<Rightarrow> (None, w')
      | (Some (Inr response), w') \<Rightarrow>
          (case response of (parts, body) \<Rightarrow> (Some (Ok (from_request (parts, Passthrough body))), w'))
      | (Some (Inl e), w') \<Rightarrow> (Some (Err e), w'))"

definition tower_upstream_call ::
  "('h, 'u, 'b, 'e, 'b2, 'er, 'w) http_service \<Rightarrow> nat \<Rightarrow> ('h, 'u, 'b, 'e) http_request \<Rightarrow> 'w \<Rightarrow> upstream_future \<times> 'w" where
  "tower_upstream_call T service req w = (let http_req = into_request req in tw_call T service http_req w)"

section \<open>The service\<close>

record ('bk, 'c, 'o, 'cm) cache_service =
  cs_upstream :: nat
  cs_backend :: 'bk
  cs_configuration :: 'c
  cs_offload :: 'o
  cs_concurrency_manager :: 'cm
  cs_cache_status_header :: string

definition cache_service_new :: "nat \<Rightarrow> 'bk \<Rightarrow> 'c \<Rightarrow> 'o \<Rightarrow> 'cm \<Rightarrow> string \<Rightarrow> ('bk, 'c, 'o, 'cm) cache_service" where
  "cache_service_new upstream backend configuration offload concurrency_manager header =
     \<lparr>cs_upstream = upstream, cs_backend = backend, cs_configuration = configuration, cs_offload = offload,
      cs_concurrency_manager = concurrency_manager, cs_cache_status_header = header\<rparr>"

text \<open>A cache future of HTTP messages, and what it runs in.\<close>

type_synonym ('h, 'u, 'b, 'e, 'b2, 'e2, 'er, 'rx) http_future =
  "(('h, 'u, 'b, 'e) http_request, (('h, 'b2, 'e2) http_response, 'er) result,
    ('h, 'b2, 'e2) http_response async_predicate, 'h serializable_response, 'rx) cache_future"

type_synonym ('h, 'u, 'b, 'e, 'b2, 'e2, 'er, 'rx, 'w) http_env =
  "(('h, 'u, 'b, 'e) http_request, 'h serializable_response, 'rx, 'w,
    (('h, 'b2, 'e2) http_response, 'er) result, ('h, 'b2, 'e2) http_response async_predicate) fsm_env"

text \<open>\<open>E\<close> is the environment of the backend, the offload and the concurrency manager; the policies of
  HTTP messages and the upstream complete it.  An async predicate that never completes keeps the
  future pending.\<close>

definition service_env ::
  "(nat \<Rightarrow> ('h, 'u, 'b, 'e) http_request \<Rightarrow> 'w \<Rightarrow> upstream_future \<times> 'w)
     \<Rightarrow> (upstream_future \<Rightarrow> 'w \<Rightarrow> ((('h, 'b2, 'e2) http_response, 'er) result, 'w) polled)
     \<Rightarrow> ('b2, 'y2, 'e2) body_ops \<Rightarrow> ('h, 'u, 'b, 'e, 'b2, 'e2, 'er, 'rx, 'w) http_env \<Rightarrow> nat
     \<Rightarrow> ('h, 'u, 'b, 'e, 'b2, 'e2, 'er, 'rx, 'w) http_env" where
  "service_env call poll B E upstream =
     E\<lparr>fo_call := call upstream,
       fe_upstream := poll,
       fe_req_policy := (\<lambda>(request, predicates, extractors) w. (http_request_policy predicates extractors request, w)),
       fe_res_policy := (\<lambda>(response, predicates, config) w.
         (result_cache_policy (http_into_cached B) (fo_now E w) (fo_now E w) predicates config response, w)),
       fe_from_cached := (\<lambda>cached w. (Some (result_from_cached http_from_cached cached), w))\<rparr>"

record ('h, 'u, 'b, 'e, 'b2, 'e2, 'er, 'rx, 'w) cache_service_future =
  csf_inner :: "('h, 'u, 'b, 'e, 'b2, 'e2, 'er, 'rx) http_future"
  csf_env :: "('h, 'u, 'b, 'e, 'b2, 'e2, 'er, 'rx, 'w) http_env"
  csf_cache_status_header :: string

definition cache_service_future_new ::
  "('h, 'u, 'b, 'e, 'b2, 'e2, 'er, 'rx) http_future \<Rightarrow> ('h, 'u, 'b, 'e, 'b2, 'e2, 'er, 'rx, 'w) http_env \<Rightarrow> string
     \<Rightarrow> ('h, 'u, 'b, 'e, 'b2, 'e2, 'er, 'rx, 'w) cache_service_future" where
  "cache_service_future_new inner env header =
     \<lparr>csf_inner = inner, csf_env = env, csf_cache_status_header = header\<rparr>"

text \<open>Once ready, the response gets the status header and is unwrapped; an error passes.\<close>

definition mark_response ::
  "('h, 'u) http_lib \<Rightarrow> string \<Rightarrow> (('h, 'b2, 'e2) http_response, 'er) result \<times> cache_context
     \<Rightarrow> ('h response_parts \<times> ('b2, 'e2) buffered_body, 'er) result" where
  "mark_response L header output =
     (case output of (result, cache_context) \<Rightarrow>
        rmap (\<lambda>cacheable_response.
          into_request (http_cache_status L (cc_status cache_context) header cacheable_response)) result)"

fun map_turn :: "('f \<Rightarrow> 'g) \<Rightarrow> ('o \<Rightarrow> 'p) \<Rightarrow> ('f, 'o) turn \<Rightarrow> ('g, 'p) turn" where
  "map_turn f g Panicked = Panicked"
| "map_turn f g (Pending x) = Pending (f x)"
| "map_turn f g (Moved x) = Moved (f x)"
| "map_turn f g (Ready x out) = Ready (f x) (g out)"

definition cache_service_future_poll ::
  "('h, 'u) http_lib \<Rightarrow> ('h, 'u, 'b, 'e, 'b2, 'e2, 'er, 'rx, 'w) cache_service_future \<Rightarrow> 'w
     \<Rightarrow> (('h, 'u, 'b, 'e, 'b2, 'e2, 'er, 'rx, 'w) cache_service_future,
         ('h response_parts \<times> ('b2, 'e2) buffered_body, 'er) result) turn \<times> 'w" where
  "cache_service_future_poll L self w =
     (case fsm_poll (csf_env self) (csf_inner self) w of
        (t, w') \<Rightarrow> (map_turn (\<lambda>inner. self\<lparr>csf_inner := inner\<rparr>) (mark_response L (csf_cache_status_header self)) t, w'))"

definition cache_service_poll_ready ::
  "('q, 'r, 'er, 'w) tower_ops \<Rightarrow> ('bk, 'c, 'o, 'cm) cache_service \<Rightarrow> 'w \<Rightarrow> ((unit, 'er) result, 'w) polled" where
  "cache_service_poll_ready T self w = tw_poll_ready T (cs_upstream self) w"

text \<open>\<open>run\<close> gives the environment that a backend, an offload and a concurrency manager are.\<close>

definition cache_service_call ::
  "('h, 'u, 'b, 'e, 'b2, 'er, 'w) http_service \<Rightarrow> ('b2, 'y2, 'e2) body_ops
     \<Rightarrow> ('bk \<Rightarrow> 'o \<Rightarrow> 'cm \<Rightarrow> ('h, 'u, 'b, 'e, 'b2, 'e2, 'er, 'rx, 'w) http_env)
     \<Rightarrow> ('bk, (('h, 'u, 'b, 'e) http_request, ('h, 'b2, 'e2) http_response) cache_config, 'o, 'cm) cache_service
     \<Rightarrow> ('h, 'u) request_parts \<times> 'b \<Rightarrow> 'w
     \<Rightarrow> ('h, 'u, 'b, 'e, 'b2, 'e2, 'er, 'rx, 'w) cache_service_future \<times> 'w" where
  "cache_service_call T B run self req w =
     (let configuration = cs_configuration self;
          (parts, body) = req;
          buffered_request = (parts, Passthrough body);
          cacheable_req = from_request buffered_request;
          (upstream, w') = tw_clone T (cs_upstream self) w;
          cache_future = cache_future_new cacheable_req (cc_request_predicates configuration)
            (cc_response_predicates configuration) (cc_extractors configuration) (cc_policy configuration);
          env = service_env (tower_upstream_call T) (tower_upstream_poll T) B
            (run (cs_backend self) (cs_offload self) (cs_concurrency_manager self)) upstream
      in (cache_service_future_new cache_future env (cs_cache_status_header self), w'))"

section \<open>The layer and its builder\<close>

datatype disabled_offload = DisabledOffload

datatype noop_concurrency_manager = NoopConcurrencyManager

definition disabled_spawn :: "disabled_offload \<Rightarrow> string \<Rightarrow> 'f \<Rightarrow> 'w \<Rightarrow> 'w" where
  "disabled_spawn self kind future w = w"

definition default_cache_status_header :: string where
  "default_cache_status_header = ''x-cache-status''"

record ('bk, 'c, 'o, 'cm) cache_layer =
  cl_backend :: 'bk
  cl_configuration :: 'c
  cl_offload :: 'o
  cl_concurrency_manager :: 'cm
  cl_cache_status_header :: string

definition cache_layer_layer :: "('bk, 'c, 'o, 'cm) cache_layer \<Rightarrow> nat \<Rightarrow> ('bk, 'c, 'o, 'cm) cache_service" where
  "cache_layer_layer self upstream =
     cache_service_new upstream (cl_backend self) (cl_configuration self) (cl_offload self)
       (cl_concurrency_manager self) (cl_cache_status_header self)"

record ('bk, 'c, 'o, 'cm) cache_builder =
  cb_backend :: 'bk
  cb_configuration :: 'c
  cb_offload :: 'o
  cb_concurrency_manager :: 'cm
  cb_cache_status_header :: "string option"

definition cache_builder_new :: "(not_set, not_set, disabled_offload, noop_concurrency_manager) cache_builder" where
  "cache_builder_new =
     \<lparr>cb_backend = NotSet, cb_configuration = NotSet, cb_offload = DisabledOffload,
      cb_concurrency_manager = NoopConcurrencyManager, cb_cache_status_header = None\<rparr>"

definition cache_builder_backend :: "'bk2 \<Rightarrow> ('bk, 'c, 'o, 'cm) cache_builder \<Rightarrow> ('bk2, 'c, 'o, 'cm) cache_builder" where
  "cache_builder_backend backend self =
     \<lparr>cb_backend = backend, cb_configuration = cb_configuration self, cb_offload = cb_offload self,
      cb_concurrency_manager = cb_concurrency_manager self, cb_cache_status_header = cb_cache_status_header self\<rparr>"

definition cache_builder_config :: "'c2 \<Rightarrow> ('bk, 'c, 'o, 'cm) cache_builder \<Rightarrow> ('bk, 'c2, 'o, 'cm) cache_builder" where
  "cache_builder_config configuration self =
     \<lparr>cb_backend = cb_backend self, cb_configuration = configuration, cb_offload = cb_offload self,
      cb_concurrency_manager = cb_concurrency_manager self, cb_cache_status_header = cb_cache_status_header self\<rparr>"

definition cache_builder_concurrency_manager ::
  "'cm2 \<Rightarrow> ('bk, 'c, 'o, 'cm) cache_builder \<Rightarrow> ('bk, 'c, 'o, 'cm2) cache_builder" where
  "cache_builder_concurrency_manager manager self =
     \<lparr>cb_backend = cb_backend self, cb_configuration = cb_configuration self, cb_offload = cb_offload self,
      cb_concurrency_manager = manager, cb_cache_status_header = cb_cache_status_header self\<rparr>"

definition cache_builder_offload :: "'o2 \<Rightarrow> ('bk, 'c, 'o, 'cm) cache_builder \<Rightarrow> ('bk, 'c, 'o2, 'cm) cache_builder" where
  "cache_builder_offload offload self =
     \<lparr>cb_backend = cb_backend self, cb_configuration = cb_configuration self, cb_offload = offload,
      cb_concurrency_manager = cb_concurrency_manager self, cb_cache_status_header = cb_cache_status_header self\<rparr>"

definition cache_builder_header :: "string \<Rightarrow> ('bk, 'c, 'o, 'cm) cache_builder \<Rightarrow> ('bk, 'c, 'o, 'cm) cache_builder" where
  "cache_builder_header header_name self = self\<lparr>cb_cache_status_header := Some header_name\<rparr>"

definition cache_builder_build :: "('bk, 'c, 'o, 'cm) cache_builder \<Rightarrow> ('bk, 'c, 'o, 'cm) cache_layer" where
  "cache_builder_build self =
     \<lparr>cl_backend = cb_backend self, cl_configuration = cb_configuration self, cl_offload = cb_offload self,
      cl_concurrency_manager = cb_concurrency_manager self,
      cl_cache_status_header = (case cb_cache_status_header self of Some h \<Rightarrow> h | None \<Rightarrow> default_cache_status_header)\<rparr>"

section \<open>The paths of a cache future\<close>

text \<open>Only the futures on the path have to be ready.\<close>

lemma yields_disabled:
  assumes "fo_call E r w = (fut, w1)" and "fe_upstream E fut w1 = (Some res, w2)"
  shows "yields E (cache_future_new r p rp x Disabled) w ((res, boxed cache_context_default), w2)"
  by (simp add: yields_def fsm_poll.simps fsm_turn.simps cache_future_new_def initial_next_def poll_upstream_next_def assms)

lemma yields_hit:
  assumes "fe_req_policy E (r, p, x) w = (Some (Cacheable d), w0)"
    and "fe_get E (cpd_key d) (boxed cache_context_default) w0 = (Some (Ok (Some v), ctx), w1)"
    and "cache_state_of (fo_now E w1) v = Actual v'" and "ctx_read_mode ctx \<noteq> Refill"
    and "fe_from_cached E (cv_data v') w1 = (Some res, w2)"
  shows "yields E (cache_future_new r p rp x (Enabled pol)) w ((res, ctx_set_status Hit ctx), w2)"
  using assms(4)
  by (simp add: yields_def fsm_poll.simps fsm_turn.simps cache_future_new_def initial_next_def check_request_next_def
      poll_cache_next_def convert_response_next_def into_inner_def assms)

lemma yields_miss:
  assumes "fe_req_policy E (r, p, x) w = (Some (Cacheable d), w0)"
    and "fe_get E (cpd_key d) (boxed cache_context_default) w0 = (Some (Ok None, ctx), w1)" and "ec_concurrency pol = None"
    and "fo_call E (cpd_request d) w1 = (fut, w2)" and "fe_upstream E fut w2 = (Some res, w3)"
    and "fe_res_policy E (res, rp, policy_entity (Enabled pol)) w3 = (Some (Cacheable v), w4)"
    and "fe_set E (cpd_key d) v ctx w4 = (Some (q, ctx'), w5)" and "fe_from_cached E (cv_data v) w5 = (Some out, w6)"
  shows "yields E (cache_future_new r p rp x (Enabled pol)) w ((out, ctx'), w6)"
  by (simp add: yields_def fsm_poll.simps fsm_turn.simps cache_future_new_def initial_next_def check_request_next_def
      poll_cache_next_def transition_to_upstream_def poll_upstream_next_def check_response_next_def drop_permit_def
      poll_update_def update_cache_next_def into_inner_def assms)

lemma yields_stale_offload:
  assumes "fe_req_policy E (r, p, x) w = (Some (Cacheable d), w0)"
    and "fe_get E (cpd_key d) (boxed cache_context_default) w0 = (Some (Ok (Some v), ctx), w1)"
    and "cache_state_of (fo_now E w1) v = Stale v'" and "cb_stale (ec_policy pol) = OffloadRevalidate"
    and "fe_from_cached E (cv_data v') w1 = (Some res, w2)" and "fo_call E (cpd_request d) w2 = (fut, w3)"
    and "\<And>f. fe_spawn E ''revalidate'' f w3 = w3"
  shows "yields E (cache_future_new r p rp x (Enabled pol)) w ((res, ctx_set_status StaleHit (ctx_set_status Hit ctx)), w3)"
  by (simp add: yields_def fsm_poll.simps fsm_turn.simps cache_future_new_def initial_next_def check_request_next_def
      poll_cache_next_def handle_stale_next_def policy_stale_def spawn_revalidation_def cache_future_revalidate_def into_inner_def assms)

lemma finalize_status [simp]: "cc_status (finalize_context c) = ctx_status c"
  by (induction c) simp_all

lemma finish_response_status: "finish_response \<lparr>rs_response = r, rs_ctx = ctx\<rparr> = (r, snd (finish_response \<lparr>rs_response = r, rs_ctx = ctx\<rparr>))"
    "cc_status (snd (finish_response \<lparr>rs_response = r, rs_ctx = ctx\<rparr>)) = ctx_status ctx"
  by (simp_all add: finish_response_def Let_def)

section \<open>Properties\<close>

text \<open>The service answers a request at the first poll of its future.\<close>

definition tower_serves ::
  "('h, 'u) http_lib \<Rightarrow> ('h, 'u, 'b, 'e, 'b2, 'er, 'w) http_service \<Rightarrow> ('b2, 'y2, 'e2) body_ops
     \<Rightarrow> ('bk \<Rightarrow> 'o \<Rightarrow> 'cm \<Rightarrow> ('h, 'u, 'b, 'e, 'b2, 'e2, 'er, 'rx, 'w) http_env)
     \<Rightarrow> ('bk, (('h, 'u, 'b, 'e) http_request, ('h, 'b2, 'e2) http_response) cache_config, 'o, 'cm) cache_service
     \<Rightarrow> ('h, 'u) request_parts \<times> 'b \<Rightarrow> 'w \<Rightarrow> ('h response_parts \<times> ('b2, 'e2) buffered_body, 'er) result \<Rightarrow> 'w \<Rightarrow> bool" where
  "tower_serves L T B run S req w out w' \<longleftrightarrow>
     (\<exists>f. cache_service_future_poll L (fst (cache_service_call T B run S req w)) (snd (cache_service_call T B run S req w))
        = (Ready f out, w'))"

definition service_runs where
  "service_runs T B run S = service_env (tower_upstream_call T) (tower_upstream_poll T) B
     (run (cs_backend S) (cs_offload S) (cs_concurrency_manager S))"

lemma tower_serves_yields:
  assumes "tw_clone T (cs_upstream S) w = (u, w0)"
    and "yields (service_runs T B run S u) (cache_future_new (from_request (parts, Passthrough body))
       (cc_request_predicates (cs_configuration S)) (cc_response_predicates (cs_configuration S))
       (cc_extractors (cs_configuration S)) (cc_policy (cs_configuration S))) w0 ((res, ctx), w')"
  shows "tower_serves L T B run S (parts, body) w
    (rmap (\<lambda>r. into_request (http_cache_status L (ctx_status ctx) (cs_cache_status_header S) r)) res) w'"
proof -
  obtain f' where "fsm_poll (service_runs T B run S u) (cache_future_new (from_request (parts, Passthrough body))
       (cc_request_predicates (cs_configuration S)) (cc_response_predicates (cs_configuration S))
       (cc_extractors (cs_configuration S)) (cc_policy (cs_configuration S))) w0
     = (Ready f' (finish_response \<lparr>rs_response = res, rs_ctx = ctx\<rparr>), w')"
    using assms(2) by (auto simp: yields_def)
  then show ?thesis
    unfolding tower_serves_def cache_service_call_def service_runs_def
    by (subst (asm) finish_response_status(1))
      (simp add: assms(1) Let_def cache_service_future_poll_def cache_service_future_new_def mark_response_def
        finish_response_status(2))
qed

lemma service_runs_sel [simp]:
  "fo_call (service_runs T B run S u) = tower_upstream_call T u"
  "fe_upstream (service_runs T B run S u) = tower_upstream_poll T"
  "fe_req_policy (service_runs T B run S u) (r, p, x) w = (http_request_policy p x r, w)"
  "fe_from_cached (service_runs T B run S u) c w = (Some (Ok (http_from_cached c)), w)"
  "fe_res_policy (service_runs T B run S u) (res, q, cfg) w =
     (result_cache_policy (http_into_cached B) (fo_now (run (cs_backend S) (cs_offload S) (cs_concurrency_manager S)) w)
        (fo_now (run (cs_backend S) (cs_offload S) (cs_concurrency_manager S)) w) q cfg res, w)"
  "fe_get (service_runs T B run S u) = fe_get (run (cs_backend S) (cs_offload S) (cs_concurrency_manager S))"
  "fe_set (service_runs T B run S u) = fe_set (run (cs_backend S) (cs_offload S) (cs_concurrency_manager S))"
  "fo_now (service_runs T B run S u) = fo_now (run (cs_backend S) (cs_offload S) (cs_concurrency_manager S))"
  "fe_spawn (service_runs T B run S u) = fe_spawn (run (cs_backend S) (cs_offload S) (cs_concurrency_manager S))"
  by (simp_all add: service_runs_def service_env_def result_from_cached_def)

text \<open>With caching disabled the service is transparent: one call of the wrapped service, whose answer is
  returned with only the status header added.\<close>

lemma disabled_serves:
  assumes "cc_policy (cs_configuration S) = Disabled" and "tw_clone T (cs_upstream S) w = (u, w0)"
    and "tw_call T u (parts, Passthrough body) w0 = (fut, w1)" and "tw_poll T fut w1 = (Some answer, w2)"
  shows "tower_serves L T B run S (parts, body) w
    (rmap (\<lambda>(rparts, rbody). (rparts\<lparr>rs_headers := hl_insert L (rs_headers rparts) (cs_cache_status_header S) (bytes_of_str ''MISS'')\<rparr>,
       Passthrough rbody)) answer) w2"
proof -
  have c: "tower_upstream_call T u (from_request (parts, Passthrough body)) w0 = (fut, w1)"
    by (simp add: tower_upstream_call_def from_request_def into_request_def assms(3))
  have p: "tower_upstream_poll T fut w1 = (Some (rmap (\<lambda>(rparts, rbody). from_request (rparts, Passthrough rbody)) answer), w2)"
    by (cases answer) (auto simp: tower_upstream_poll_def assms(4))
  have "yields (service_runs T B run S u) (cache_future_new (from_request (parts, Passthrough body))
       (cc_request_predicates (cs_configuration S)) (cc_response_predicates (cs_configuration S))
       (cc_extractors (cs_configuration S)) Disabled) w0
     ((rmap (\<lambda>(rparts, rbody). from_request (rparts, Passthrough rbody)) answer, boxed cache_context_default), w2)"
    by (rule yields_disabled [where fut = fut and ?w1.0 = w1]) (simp_all add: c p)
  from tower_serves_yields [OF assms(2) this [folded assms(1)], where L = L] show ?thesis
    by (cases answer) (auto simp: boxed_def cache_context_default_def http_cache_status_def from_request_def into_request_def)
qed

text \<open>C21. A response is served again as it was, under an enabled policy without a concurrency limit and when everything
  awaited is ready at the first poll: a request whose lookup finds nothing and whose response is judged cacheable, its body
  read in full, gets the upstream's response with its body buffered, which is what the set under the key was given (and marked as a miss); and a later
  request with the same key, whose lookup finds what was stored while it is fresh and does not ask for a refill, gets the same version, status, headers and body,
  marked as a hit, without any call of the wrapped service.\<close>

theorem service_replays_response:
  assumes E: "run (cs_backend S) (cs_offload S) (cs_concurrency_manager S) = E" and cfg: "cs_configuration S = cfg"
    and policy: "cc_policy cfg = Enabled pol" "ec_concurrency pol = None"
    and first: "tw_clone T (cs_upstream S) w = (u, w0)"
      "http_request_policy (cc_request_predicates cfg) (cc_extractors cfg) (from_request (parts, Passthrough body)) = Some (Cacheable d)"
      "fe_get E (cpd_key d) (boxed cache_context_default) w0 = (Some (Ok None, ctx), w1)"
    and upstream: "tw_call T u (into_request (cpd_request d)) w1 = (fut, w2)" "tw_poll T fut w2 = (Some (Ok (rparts, rbody)), w3)"
      "cc_response_predicates cfg (from_request (rparts, Passthrough rbody)) = Some (PCacheable \<lparr>hm_parts = rparts, hm_body = kept\<rparr>)"
      "body_collect B kept = Inr bytes"
    and stored: "v = stamp (fo_now E w3) (fo_now E w3) (policy_entity (Enabled pol))
        \<lparr>sr_status = rs_status rparts, sr_version = rs_version rparts, sr_body = bytes, sr_headers = rs_headers rparts\<rparr>"
      "fe_set E (cpd_key d) v ctx w3 = (Some (q, ctx'), w4)" "ctx_status ctx' = Miss"
    and second: "tw_clone T (cs_upstream S) w' = (u', w0')"
      "http_request_policy (cc_request_predicates cfg) (cc_extractors cfg) (from_request (parts', Passthrough body')) = Some (Cacheable d')"
      "cpd_key d' = cpd_key d" "fe_get E (cpd_key d) (boxed cache_context_default) w0' = (Some (Ok (Some v), ctx2), w1')"
      "cache_state_of (fo_now E w1') v = Actual v" "ctx_read_mode ctx2 \<noteq> Refill"
  shows "tower_serves L T B run S (parts, body) w (Ok (rparts\<lparr>rs_headers :=
       hl_insert L (rs_headers rparts) (cs_cache_status_header S) (bytes_of_str ''MISS'')\<rparr>, Complete (Some bytes))) w4 \<and>
    tower_serves L T B run S (parts', body') w' (Ok (rparts\<lparr>rs_headers :=
       hl_insert L (rs_headers rparts) (cs_cache_status_header S) (bytes_of_str ''HIT'')\<rparr>, Complete (Some bytes))) w1'"
proof -
  have data: "cv_data v = \<lparr>sr_status = rs_status rparts, sr_version = rs_version rparts, sr_body = bytes, sr_headers = rs_headers rparts\<rparr>"
    by (simp add: stored(1) stamp_def cache_value_new_def)
  have resp: "http_from_cached (cv_data v) = \<lparr>hm_parts = rparts, hm_body = Complete (Some bytes)\<rparr>"
    by (simp add: data http_from_cached_def Let_def)
  have mark: "into_request (http_cache_status L st h \<lparr>hm_parts = rparts, hm_body = Complete (Some bytes)\<rparr>) =
      (rparts\<lparr>rs_headers := hl_insert L (rs_headers rparts) h (bytes_of_str (case st of Hit \<Rightarrow> ''HIT'' | Miss \<Rightarrow> ''MISS'' | StaleHit \<Rightarrow> ''STALE''))\<rparr>,
       Complete (Some bytes))" for st h
    by (simp add: http_cache_status_def into_request_def Let_def)
  let ?R = "service_runs T B run S"
  have judged: "fe_res_policy (?R u) (Ok (from_request (rparts, Passthrough rbody)), cc_response_predicates cfg, policy_entity (Enabled pol)) w3
      = (Some (Cacheable v), w3)"
    by (simp add: result_cache_policy_def upstream(3,4) http_into_cached_def stored(1) E)
  have up: "fe_upstream (?R u) fut w2 = (Some (Ok (from_request (rparts, Passthrough rbody))), w3)"
    by (simp add: tower_upstream_poll_def upstream(2))
  have "yields (?R u) (cache_future_new (from_request (parts, Passthrough body)) (cc_request_predicates cfg)
      (cc_response_predicates cfg) (cc_extractors cfg) (Enabled pol)) w0 ((Ok (http_from_cached (cv_data v)), ctx'), w4)"
    using first(3) upstream(1) stored(2)
    by (intro yields_miss [OF _ _ policy(2) _ up judged]) (simp_all add: first(2) E tower_upstream_call_def)
  moreover have "yields (?R u') (cache_future_new (from_request (parts', Passthrough body')) (cc_request_predicates cfg)
      (cc_response_predicates cfg) (cc_extractors cfg) (Enabled pol)) w0' ((Ok (http_from_cached (cv_data v)), ctx_set_status Hit ctx2), w1')"
    using second(4,5)
    by (intro yields_hit [where d = d' and v = v and v' = v, OF _ _ _ second(6)]) (simp_all add: second(2,3) E)
  ultimately show ?thesis
    using tower_serves_yields [where L = L and T = T and B = B and run = run and parts = parts and body = body, OF first(1)]
      tower_serves_yields [where L = L and T = T and B = B and run = run and parts = parts' and body = body', OF second(1)]
    unfolding cfg policy resp by (fastforce simp: mark stored(3))
qed

text \<open>With a disabled offload, the default of the builder and the only offload of the Reqwest
  middleware, a stale value under the policy that revalidates in the background is served as stale
  and never refreshed: the wrapped service is called, but its future is dropped before it is polled,
  and nothing is stored.\<close>

lemma disabled_offload_never_refreshes:
  assumes E: "run (cs_backend S) (cs_offload S) (cs_concurrency_manager S) = E" and cfg: "cs_configuration S = cfg"
    and policy: "cc_policy cfg = Enabled pol" "cb_stale (ec_policy pol) = OffloadRevalidate"
    and offload: "fe_spawn E = disabled_spawn DisabledOffload"
    and request: "tw_clone T (cs_upstream S) w = (u, w0)"
      "http_request_policy (cc_request_predicates cfg) (cc_extractors cfg) (from_request (parts, Passthrough body)) = Some (Cacheable d)"
    and found: "fe_get E (cpd_key d) (boxed cache_context_default) w0 = (Some (Ok (Some v), ctx), w1)"
      "cache_state_of (fo_now E w1) v = Stale v"
    and call: "tw_call T u (into_request (cpd_request d)) w1 = (fut, w2)"
  shows "tower_serves L T B run S (parts, body) w
    (Ok (into_request (http_cache_status L StaleHit (cs_cache_status_header S) (http_from_cached (cv_data v))))) w2"
proof -
  have "yields (service_runs T B run S u) (cache_future_new (from_request (parts, Passthrough body)) (cc_request_predicates cfg)
      (cc_response_predicates cfg) (cc_extractors cfg) (Enabled pol)) w0
      ((Ok (http_from_cached (cv_data v)), ctx_set_status StaleHit (ctx_set_status Hit ctx)), w2)"
    using found(1)
    by (intro yields_stale_offload [where d = d and v = v and ?w1.0 = w1 and ?w2.0 = w1 and fut = fut, OF _ _ _ policy(2)])
      (simp_all add: request found(2) E tower_upstream_call_def call offload disabled_spawn_def)
  from tower_serves_yields [OF request(1) this [folded policy(1), folded cfg], where L = L] show ?thesis by simp
qed

text \<open>Tower lets a service refuse, even by a panic, a call for which it was not polled ready, and a clone
  is not ready because the original is.  A service in which this is recorded:\<close>

record 'w tracked =
  tk_inner :: 'w
  tk_ready :: "nat \<Rightarrow> bool"
  tk_unready_calls :: nat

definition tracked_ops :: "('q, 'r, 'er, 'w) tower_ops \<Rightarrow> ('q, 'r, 'er, 'w tracked) tower_ops" where
  "tracked_ops T =
     \<lparr>tw_poll_ready = (\<lambda>i t. case tw_poll_ready T i (tk_inner t) of
        (r, w) \<Rightarrow> (r, t\<lparr>tk_inner := w, tk_ready := (tk_ready t)(i := (r = Some (Ok ())))\<rparr>)),
      tw_clone = (\<lambda>i t. case tw_clone T i (tk_inner t) of (j, w) \<Rightarrow> (j, t\<lparr>tk_inner := w, tk_ready := (tk_ready t)(j := False)\<rparr>)),
      tw_call = (\<lambda>i q t. case tw_call T i q (tk_inner t) of
        (fut, w) \<Rightarrow> (fut, t\<lparr>tk_inner := w, tk_ready := (tk_ready t)(i := False),
          tk_unready_calls := tk_unready_calls t + (if tk_ready t i then 0 else 1)\<rparr>)),
      tw_poll = (\<lambda>fut t. case tw_poll T fut (tk_inner t) of (r, w) \<Rightarrow> (r, t\<lparr>tk_inner := w\<rparr>))\<rparr>"

text \<open>The service is polled ready, but what it calls is a clone that was not: a call of the service
  makes its upstream call on a clone of the service that answered \<open>poll_ready\<close>.\<close>

lemma service_calls_unready_clone:
  assumes "cc_policy (cs_configuration S) = Disabled" and "tw_poll_ready T (cs_upstream S) w = (Some (Ok ()), w0)"
    and "tw_clone T (cs_upstream S) w0 = (u, w1)" and "tw_call T u (parts, Passthrough body) w1 = (fut, w2)"
    and "tw_poll T fut w2 = (Some answer, w3)"
  shows "\<exists>t out t'. cache_service_poll_ready (tracked_ops T) S \<lparr>tk_inner = w, tk_ready = ready, tk_unready_calls = n\<rparr> = (Some (Ok ()), t) \<and>
    tk_ready t (cs_upstream S) \<and> tower_serves L (tracked_ops T) B run S (parts, body) t out t' \<and> tk_unready_calls t' = Suc n"
proof -
  let ?t = "\<lparr>tk_inner = w0, tk_ready = ready(cs_upstream S := True), tk_unready_calls = n\<rparr>"
  let ?r = "ready(cs_upstream S := True, u := False)"
  have "cache_service_poll_ready (tracked_ops T) S \<lparr>tk_inner = w, tk_ready = ready, tk_unready_calls = n\<rparr> = (Some (Ok ()), ?t)"
    by (simp add: cache_service_poll_ready_def tracked_ops_def assms(2))
  moreover have "tower_serves L (tracked_ops T) B run S (parts, body) ?t
    (rmap (\<lambda>(rparts, rbody). (rparts\<lparr>rs_headers := hl_insert L (rs_headers rparts) (cs_cache_status_header S) (bytes_of_str ''MISS'')\<rparr>,
       Passthrough rbody)) answer) \<lparr>tk_inner = w3, tk_ready = ?r(u := False), tk_unready_calls = Suc n\<rparr>"
    by (rule disabled_serves [where u = u and ?w0.0 = "\<lparr>tk_inner = w1, tk_ready = ?r, tk_unready_calls = n\<rparr>" and fut = fut
          and ?w1.0 = "\<lparr>tk_inner = w2, tk_ready = ?r(u := False), tk_unready_calls = Suc n\<rparr>"])
      (simp_all add: tracked_ops_def assms)
  ultimately show ?thesis by fastforce
qed

section \<open>A service to run\<close>

text \<open>The wrapped service counts its calls; the backend is a map in the same world.\<close>

type_synonym demo_headers = "(string \<times> bytes) list"
type_synonym demo_body = "(nat + unit http_frame) poll list"
type_synonym demo_uri = "string \<times> string option"

record http_world =
  hw_store :: "cache_key \<Rightarrow> demo_headers serializable_response cache_value option"
  hw_calls :: nat
  hw_time :: time

definition demo_tower :: "(demo_headers, demo_uri, demo_body, nat, demo_body, nat, http_world) http_service" where
  "demo_tower =
     \<lparr>tw_poll_ready = (\<lambda>i w. (Some (Ok ()), w)), tw_clone = (\<lambda>i w. (Suc i, w)),
      tw_call = (\<lambda>i q w. (0, w\<lparr>hw_calls := Suc (hw_calls w)\<rparr>)),
      tw_poll = (\<lambda>fut w. (Some (Ok (hm_parts (demo_response 3), take 3 demo_stream)), w))\<rparr>"

definition idle_run ::
  "unit \<Rightarrow> disabled_offload \<Rightarrow> noop_concurrency_manager
     \<Rightarrow> (demo_headers, demo_uri, demo_body, nat, demo_body, nat, nat, nat, 'w) http_env" where
  "idle_run backend offload manager =
     \<lparr>fo_now = (\<lambda>w. 0), fo_call = (\<lambda>r w. (0, w)), fo_check = (\<lambda>k n w. (noop_check k n, w)),
      fo_resolve = noop_resolve, fo_cleanup = noop_cleanup, fo_permit_drop = (\<lambda>i w. w),
      fe_req_policy = (\<lambda>x w. (None, w)), fe_get = (\<lambda>k c w. (Some (Ok None, c), w)),
      fe_set = (\<lambda>k v c w. (Some (Ok (), c), w)),
      fe_upstream = (\<lambda>fut w. (None, w)), fe_res_policy = (\<lambda>x w. (None, w)), fe_from_cached = (\<lambda>c w. (None, w)),
      fe_await = (\<lambda>i rx w. (Some (Err Closed), w)), fe_spawn = disabled_spawn offload\<rparr>"

definition demo_run ::
  "unit \<Rightarrow> disabled_offload \<Rightarrow> noop_concurrency_manager
     \<Rightarrow> (demo_headers, demo_uri, demo_body, nat, demo_body, nat, nat, nat, http_world) http_env" where
  "demo_run backend offload manager =
     (idle_run backend offload manager)\<lparr>fo_now := hw_time, fe_get := (\<lambda>k c w. (Some (Ok (hw_store w k), c), w)),
      fe_set := (\<lambda>k v c w. (Some (Ok (), c), w\<lparr>hw_store := (hw_store w)(k \<mapsto> v)\<rparr>))\<rparr>"

definition demo_service ::
  "policy_config \<Rightarrow> (unit, ((demo_headers, demo_uri, demo_body, nat) http_request, (demo_headers, demo_body, nat) http_response) cache_config,
     disabled_offload, noop_concurrency_manager) cache_service" where
  "demo_service policy =
     cache_layer_layer (cache_builder_build (cache_builder_backend () (cache_builder_config
       \<lparr>cc_request_predicates = async_neutral, cc_response_predicates = async_neutral,
        cc_extractors = method_get neutral_extractor, cc_policy = policy\<rparr> cache_builder_new))) 0"

lemma demo_service_sel [simp]:
  "cs_upstream (demo_service policy) = 0" "cs_cache_status_header (demo_service policy) = ''x-cache-status''"
  "cs_offload (demo_service policy) = DisabledOffload"
  "cs_configuration (demo_service policy) = \<lparr>cc_request_predicates = async_neutral, cc_response_predicates = async_neutral,
        cc_extractors = method_get neutral_extractor, cc_policy = policy\<rparr>"
  by (simp_all add: demo_service_def cache_layer_layer_def cache_service_new_def cache_builder_build_def cache_builder_backend_def
      cache_builder_config_def cache_builder_new_def default_cache_status_header_def)

definition demo_world :: http_world where
  "demo_world = \<lparr>hw_store = (\<lambda>k. None), hw_calls = 0, hw_time = 100\<rparr>"

definition demo_method_key :: cache_key where
  "demo_method_key = cache_key_new [] 0 [key_part_new ''method'' (Some ''GET'')]"

lemma demo_request_key:
  "http_request_policy async_neutral (method_get neutral_extractor) (from_request (hm_parts demo_request, Passthrough body))
     = Some (Cacheable \<lparr>cpd_key = demo_method_key, cpd_request = from_request (hm_parts demo_request, Passthrough body)\<rparr>)"
  by (simp add: http_request_policy_def into_cache_key_eq method_get_def neutral_extractor_def async_neutral_def neutral_def
      demo_method_key_def from_request_def demo_request_def Let_def)

lemma service_calls_unready_clone_witness:
  "\<exists>t out t'. cache_service_poll_ready (tracked_ops demo_tower) (demo_service Disabled)
        \<lparr>tk_inner = demo_world, tk_ready = (\<lambda>i. False), tk_unready_calls = 0\<rparr> = (Some (Ok ()), t) \<and> tk_ready t 0 \<and>
     tower_serves demo_http (tracked_ops demo_tower) scripted_body idle_run (demo_service Disabled) (hm_parts demo_request, []) t out t'
     \<and> tk_unready_calls t' = 1"
proof -
  have d: "cc_policy (cs_configuration (demo_service Disabled)) = Disabled" by simp
  have c: "tw_poll_ready demo_tower (cs_upstream (demo_service Disabled)) demo_world = (Some (Ok ()), demo_world)"
    "tw_clone demo_tower (cs_upstream (demo_service Disabled)) demo_world = (1, demo_world)"
    "tw_call demo_tower 1 (hm_parts demo_request, Passthrough []) demo_world = (0, demo_world\<lparr>hw_calls := 1\<rparr>)"
    "tw_poll demo_tower 0 (demo_world\<lparr>hw_calls := 1\<rparr>) = (Some (Ok (hm_parts (demo_response 3), take 3 demo_stream)), demo_world\<lparr>hw_calls := 1\<rparr>)"
    by (simp_all add: demo_tower_def demo_world_def)
  from service_calls_unready_clone [OF d c, where ready = "\<lambda>i. False" and n = 0 and L = demo_http and B = scripted_body and run = idle_run]
  show ?thesis by simp
qed

definition demo_policy :: enabled_cache_config where
  "demo_policy = \<lparr>ec_ttl = Some 50, ec_stale = Some 20, ec_policy = \<lparr>cb_stale = OffloadRevalidate\<rparr>, ec_concurrency = None\<rparr>"

lemma service_replays_response_witness:
  "\<exists>rparts rparts' w w'. tower_serves demo_http demo_tower scripted_body demo_run (demo_service (Enabled demo_policy))
       (hm_parts demo_request, []) demo_world (Ok (rparts, Complete (Some [1, 2, 3]))) w \<and>
     tower_serves demo_http demo_tower scripted_body demo_run (demo_service (Enabled demo_policy))
       (hm_parts demo_request, demo_stream) w (Ok (rparts', Complete (Some [1, 2, 3]))) w' \<and> hw_calls w' = 1"
proof -
  let ?S = "demo_service (Enabled demo_policy)" and ?parts = "hm_parts (demo_response 3)" and ?kept = "Passthrough (take 3 demo_stream)"
  let ?w = "demo_world\<lparr>hw_calls := 1\<rparr>" and ?cfg = "cs_configuration (demo_service (Enabled demo_policy))"
  let ?E = "demo_run (cs_backend ?S) (cs_offload ?S) (cs_concurrency_manager ?S)"
  let ?v = "stamp (fo_now ?E ?w) (fo_now ?E ?w) (policy_entity (Enabled demo_policy))
      \<lparr>sr_status = rs_status ?parts, sr_version = rs_version ?parts, sr_body = [1, 2, 3 :: byte], sr_headers = rs_headers ?parts\<rparr>"
  let ?d = "\<lambda>b. \<lparr>cpd_key = demo_method_key, cpd_request = from_request (hm_parts demo_request, Passthrough b)\<rparr>
      :: (demo_headers, demo_uri, demo_body, nat) http_request cacheable_policy_data"
  let ?w2 = "?w\<lparr>hw_store := (hw_store ?w)(demo_method_key \<mapsto> ?v)\<rparr>"
  have body: "body_collect scripted_body (?kept :: (demo_body, nat) buffered_body) = Inr [1, 2, 3]"
    using http_body.body_collect_end [OF scripted.http_body_axioms demo_upload_polls] by (simp add: demo_upload_def)
  have m: "ctx_status (boxed cache_context_default) = Miss" "ctx_read_mode (boxed cache_context_default) \<noteq> Refill"
    by (simp_all add: boxed_def cache_context_default_def)
  have pol: "cc_policy ?cfg = Enabled demo_policy" "ec_concurrency demo_policy = None" by (simp_all add: demo_policy_def)
  have first: "tw_clone demo_tower (cs_upstream ?S) demo_world = (1, demo_world)"
      "http_request_policy (cc_request_predicates ?cfg) (cc_extractors ?cfg) (from_request (hm_parts demo_request, Passthrough [])) = Some (Cacheable (?d []))"
      "fe_get ?E (cpd_key (?d [])) (boxed cache_context_default) demo_world = (Some (Ok None, boxed cache_context_default), demo_world)"
    by (simp_all add: demo_tower_def demo_request_key demo_run_def demo_world_def)
  have up: "tw_call demo_tower 1 (into_request (cpd_request (?d []))) demo_world = (0, ?w)"
      "tw_poll demo_tower 0 ?w = (Some (Ok (?parts, take 3 demo_stream)), ?w)"
      "cc_response_predicates ?cfg (from_request (?parts, ?kept)) = Some (PCacheable \<lparr>hm_parts = ?parts, hm_body = ?kept\<rparr>)"
    by (simp_all add: demo_tower_def demo_world_def async_neutral_def neutral_def from_request_def)
  have set: "fe_set ?E (cpd_key (?d [])) ?v (boxed cache_context_default) ?w = (Some (Ok (), boxed cache_context_default), ?w2)"
    by (simp add: demo_run_def)
  have second: "tw_clone demo_tower (cs_upstream ?S) ?w2 = (1, ?w2)"
      "http_request_policy (cc_request_predicates ?cfg) (cc_extractors ?cfg) (from_request (hm_parts demo_request, Passthrough demo_stream))
         = Some (Cacheable (?d demo_stream))"
      "cpd_key (?d demo_stream) = cpd_key (?d [])"
      "fe_get ?E (cpd_key (?d [])) (boxed cache_context_default) ?w2 = (Some (Ok (Some ?v), boxed cache_context_default), ?w2)"
      "cache_state_of (fo_now ?E ?w2) ?v = Actual ?v"
    by (simp_all add: demo_tower_def demo_request_key demo_run_def demo_world_def cache_state_of_def policy_entity_def demo_policy_def)
  from service_replays_response [where run = demo_run and S = ?S and L = demo_http, OF refl refl pol first up body refl set m(1) second m(2)]
  show ?thesis by fastforce
qed

lemma disabled_offload_never_refreshes_witness:
  "\<exists>v out. cache_state_of 100 v = Stale v \<and>
     tower_serves demo_http demo_tower scripted_body demo_run (demo_service (Enabled demo_policy)) (hm_parts demo_request, [])
       (demo_world\<lparr>hw_store := [demo_method_key \<mapsto> v]\<rparr>) (Ok out) (demo_world\<lparr>hw_store := [demo_method_key \<mapsto> v], hw_calls := 1\<rparr>)"
proof -
  let ?S = "demo_service (Enabled demo_policy)" and ?cfg = "cs_configuration (demo_service (Enabled demo_policy))"
  let ?E = "demo_run (cs_backend ?S) (cs_offload ?S) (cs_concurrency_manager ?S)"
  define v :: "demo_headers serializable_response cache_value" where "v = cache_value_new \<lparr>sr_status = 200, sr_version = HTTP_2, sr_body = [], sr_headers = []\<rparr> (Some 120) (Some 90)"
  let ?w = "demo_world\<lparr>hw_store := [demo_method_key \<mapsto> v]\<rparr>"
  let ?d = "\<lparr>cpd_key = demo_method_key, cpd_request = from_request (hm_parts demo_request, Passthrough [])\<rparr>
      :: (demo_headers, demo_uri, demo_body, nat) http_request cacheable_policy_data"
  have pol: "cc_policy ?cfg = Enabled demo_policy" "cb_stale (ec_policy demo_policy) = OffloadRevalidate" by (simp_all add: demo_policy_def)
  have off: "fe_spawn ?E = disabled_spawn DisabledOffload" by (simp add: demo_run_def idle_run_def)
  have req: "tw_clone demo_tower (cs_upstream ?S) ?w = (1, ?w)"
      "http_request_policy (cc_request_predicates ?cfg) (cc_extractors ?cfg) (from_request (hm_parts demo_request, Passthrough [])) = Some (Cacheable ?d)"
    by (simp_all add: demo_tower_def demo_request_key)
  have stale: "cache_state_of 100 v = Stale v" by (simp add: v_def cache_state_of_def)
  have found: "fe_get ?E (cpd_key ?d) (boxed cache_context_default) ?w = (Some (Ok (Some v), boxed cache_context_default), ?w)"
      "cache_state_of (fo_now ?E ?w) v = Stale v"
    using stale by (simp_all add: demo_run_def demo_world_def)
  have call: "tw_call demo_tower 1 (into_request (cpd_request ?d)) ?w = (0, ?w\<lparr>hw_calls := 1\<rparr>)"
    by (simp add: demo_tower_def demo_world_def)
  from disabled_offload_never_refreshes [where run = demo_run and S = ?S and L = demo_http and B = scripted_body, OF refl refl pol off req found call] stale
  show ?thesis by blast
qed

end
