(* ===== verification/Reqwest.thy ===== *)
theory Reqwest
  imports Tower
begin

text \<open>
  The Reqwest integration (hitbox-reqwest): the middleware that answers a client's requests through
  a cache future, its builder, the upstream that runs the rest of the middleware chain, and the
  conversion of a buffered body into a body of the client.  The client library is the parameter
  \<open>reqwest_lib\<close>: its conversions from and to HTTP messages, of which those of requests may fail, its
  bodies, and the rest of the chain (\<open>rl_run\<close>, the call of \<open>Next::run\<close>, and the poll of its future).
\<close>

section \<open>The client library\<close>

datatype ('re, 'me) middleware_error = Middleware 'me | Reqwest 're

record ('rq, 'rs, 'h, 'u, 'b, 'e, 'me, 'x, 'n, 'w) reqwest_lib =
  rl_request_to_http :: "'rq \<Rightarrow> (('h, 'u) request_parts \<times> 'b, 'e) result"
  rl_request_from_http :: "('h, 'u) request_parts \<times> 'b \<Rightarrow> ('rq, 'e) result"
  rl_response_to_http :: "'rs \<Rightarrow> 'h response_parts \<times> 'b"
  rl_response_from_http :: "'h response_parts \<times> 'b \<Rightarrow> 'rs"
  rl_body_from :: "bytes \<Rightarrow> 'b"
  rl_body_wrap :: "('b, 'e) partial_buffered_body \<Rightarrow> 'b"
  rl_default_extensions :: 'x
  rl_run :: "'n \<Rightarrow> 'rq \<Rightarrow> 'x \<Rightarrow> 'w \<Rightarrow> nat \<times> 'w"
  rl_poll :: "nat \<Rightarrow> 'w \<Rightarrow> (('rs, ('e, 'me) middleware_error) result, 'w) polled"

fun buffered_body_to_reqwest ::
  "('rq, 'rs, 'h, 'u, 'b, 'e, 'me, 'x, 'n, 'w) reqwest_lib \<Rightarrow> ('b, 'e) buffered_body \<Rightarrow> 'b" where
  "buffered_body_to_reqwest R (Passthrough body) = body"
| "buffered_body_to_reqwest R (Complete (Some bytes)) = rl_body_from R bytes"
| "buffered_body_to_reqwest R (Complete None) = rl_body_from R []"
| "buffered_body_to_reqwest R (Partial partial) = rl_body_wrap R partial"

section \<open>The upstream\<close>

record ('n, 'x) reqwest_upstream =
  ru_next :: 'n
  ru_extensions :: 'x

definition reqwest_upstream_new :: "'n \<Rightarrow> 'x \<Rightarrow> ('n, 'x) reqwest_upstream" where
  "reqwest_upstream_new next_chain extensions = \<lparr>ru_next = next_chain, ru_extensions = extensions\<rparr>"

text \<open>A call of the upstream is an async block: created with what it captured, then waiting for the chain.
  The world of a handled request holds the upstream, the blocks, and the world below.\<close>

datatype ('n, 'r, 'x) reqwest_future = Created 'n 'r 'x | Running nat | Finished

record ('n, 'r, 'x, 'w) reqwest_world =
  rw_upstream :: "('n, 'x) reqwest_upstream"
  rw_futures :: "nat \<Rightarrow> ('n, 'r, 'x) reqwest_future"
  rw_fresh :: nat
  rw_inner :: 'w

definition reqwest_upstream_call ::
  "('rq, 'rs, 'h, 'u, 'b, 'e, 'me, 'x, 'n, 'w) reqwest_lib \<Rightarrow> 'r \<Rightarrow> ('n, 'r, 'x, 'w) reqwest_world
     \<Rightarrow> upstream_future \<times> ('n, 'r, 'x, 'w) reqwest_world" where
  "reqwest_upstream_call R req w =
     (let self = rw_upstream w;
          next_chain = ru_next self;
          extensions = ru_extensions self;
          self = self\<lparr>ru_extensions := rl_default_extensions R\<rparr>
      in (rw_fresh w, w\<lparr>rw_upstream := self, rw_futures := (rw_futures w)(rw_fresh w := Created next_chain req extensions),
                         rw_fresh := Suc (rw_fresh w)\<rparr>))"

definition reqwest_response ::
  "('rq, 'rs, 'h, 'u, 'b, 'e, 'me, 'x, 'n, 'w) reqwest_lib \<Rightarrow> 'rs \<Rightarrow> ('h, 'b, 'e) http_response" where
  "reqwest_response R response =
     (case rl_response_to_http R response of (parts, body) \<Rightarrow> from_request (parts, Passthrough body))"

definition reqwest_await ::
  "('rq, 'rs, 'h, 'u, 'b, 'e, 'me, 'x, 'n, 'w) reqwest_lib \<Rightarrow> upstream_future \<Rightarrow> nat \<Rightarrow> ('n, 'r, 'x, 'w) reqwest_world
     \<Rightarrow> ((('h, 'b, 'e) http_response, ('e, 'me) middleware_error) result, ('n, 'r, 'x, 'w) reqwest_world) polled" where
  "reqwest_await R fut running w =
     (case rl_poll R running (rw_inner w) of
        (None, i) \<Rightarrow> (None, w\<lparr>rw_futures := (rw_futures w)(fut := Running running), rw_inner := i\<rparr>)
      | (Some answer, i) \<Rightarrow>
          (Some (case answer of Inr response \<Rightarrow> Ok (reqwest_response R response) | Inl e \<Rightarrow> Err e),
           w\<lparr>rw_futures := (rw_futures w)(fut := Finished), rw_inner := i\<rparr>))"

definition reqwest_request ::
  "('rq, 'rs, 'h, 'u, 'b, 'e, 'me, 'x, 'n, 'w) reqwest_lib \<Rightarrow> ('h, 'u, 'b, 'e) http_request \<Rightarrow> ('rq, 'e) result" where
  "reqwest_request R req =
     (case into_request req of (parts, buffered_body) \<Rightarrow>
        let body = buffered_body_to_reqwest R buffered_body in rl_request_from_http R (parts, body))"

text \<open>An async block that has finished panics when it is polled again, which no cache future does; here
  it stays pending.\<close>

definition reqwest_upstream_poll ::
  "('rq, 'rs, 'h, 'u, 'b, 'e, 'me, 'x, 'n, 'w) reqwest_lib \<Rightarrow> upstream_future
     \<Rightarrow> ('n, ('h, 'u, 'b, 'e) http_request, 'x, 'w) reqwest_world
     \<Rightarrow> ((('h, 'b, 'e) http_response, ('e, 'me) middleware_error) result,
         ('n, ('h, 'u, 'b, 'e) http_request, 'x, 'w) reqwest_world) polled" where
  "reqwest_upstream_poll R fut w =
     (case rw_futures w fut of
        Created next_chain req extensions \<Rightarrow>
          (case reqwest_request R req of
             Inl e \<Rightarrow> (Some (Err (Reqwest e)), w\<lparr>rw_futures := (rw_futures w)(fut := Finished)\<rparr>)
           | Inr request \<Rightarrow>
               (case rl_run R next_chain request extensions (rw_inner w) of
                  (running, i) \<Rightarrow> reqwest_await R fut running (w\<lparr>rw_inner := i\<rparr>)))
      | Running running \<Rightarrow> reqwest_await R fut running w
      | Finished \<Rightarrow> (None, w))"

section \<open>The middleware\<close>

record ('bk, 'c, 'cm) cache_middleware =
  mw_backend :: 'bk
  mw_configuration :: 'c
  mw_concurrency_manager :: 'cm
  mw_cache_status_header :: string

definition cache_middleware_new :: "'bk \<Rightarrow> 'c \<Rightarrow> 'cm \<Rightarrow> string \<Rightarrow> ('bk, 'c, 'cm) cache_middleware" where
  "cache_middleware_new backend configuration concurrency_manager header =
     \<lparr>mw_backend = backend, mw_configuration = configuration, mw_concurrency_manager = concurrency_manager,
      mw_cache_status_header = header\<rparr>"

type_synonym ('n, 'h, 'u, 'b, 'e, 'x, 'w) middleware_world = "('n, ('h, 'u, 'b, 'e) http_request, 'x, 'w) reqwest_world"

type_synonym ('n, 'h, 'u, 'b, 'e, 'me, 'rx, 'x, 'w) middleware_env =
  "('h, 'u, 'b, 'e, 'b, 'e, ('e, 'me) middleware_error, 'rx, ('n, 'h, 'u, 'b, 'e, 'x, 'w) middleware_world) http_env"

text \<open>The first part of \<open>handle\<close>, up to the cache future it waits for.\<close>

definition middleware_start ::
  "('rq, 'rs, 'h, 'u, 'b, 'e, 'me, 'x, 'n, 'w) reqwest_lib \<Rightarrow> ('b, 'y, 'e) body_ops
     \<Rightarrow> ('bk \<Rightarrow> disabled_offload \<Rightarrow> 'cm \<Rightarrow> ('n, 'h, 'u, 'b, 'e, 'me, 'rx, 'x, 'w) middleware_env)
     \<Rightarrow> ('bk, (('h, 'u, 'b, 'e) http_request, ('h, 'b, 'e) http_response) cache_config, 'cm) cache_middleware
     \<Rightarrow> 'rq \<Rightarrow> 'x \<Rightarrow> 'n \<Rightarrow> 'w
     \<Rightarrow> (('h, 'u, 'b, 'e, 'b, 'e, ('e, 'me) middleware_error, 'rx) http_future
          \<times> ('n, 'h, 'u, 'b, 'e, 'me, 'rx, 'x, 'w) middleware_env \<times> ('n, 'h, 'u, 'b, 'e, 'x, 'w) middleware_world,
         ('e, 'me) middleware_error) result" where
  "middleware_start R B run self req extensions next_chain w =
     (case rl_request_to_http R req of
        Inl e \<Rightarrow> Err (Reqwest e)
      | Inr http_request \<Rightarrow>
          let (parts, body) = http_request;
              buffered_request = (parts, Passthrough body);
              cacheable_req = from_request buffered_request;
              upstream = reqwest_upstream_new next_chain extensions;
              configuration = mw_configuration self;
              cache_future = cache_future_new cacheable_req (cc_request_predicates configuration)
                (cc_response_predicates configuration) (cc_extractors configuration) (cc_policy configuration);
              env = service_env (\<lambda>_. reqwest_upstream_call R) (reqwest_upstream_poll R) B
                (run (mw_backend self) DisabledOffload (mw_concurrency_manager self)) 0
          in Ok (cache_future, env, \<lparr>rw_upstream = upstream, rw_futures = (\<lambda>_. Finished), rw_fresh = 0, rw_inner = w\<rparr>))"

text \<open>What it does with the future's output.\<close>

definition middleware_finish ::
  "('h, 'u) http_lib \<Rightarrow> ('rq, 'rs, 'h, 'u, 'b, 'e, 'me, 'x, 'n, 'w) reqwest_lib \<Rightarrow> string
     \<Rightarrow> (('h, 'b, 'e) http_response, ('e, 'me) middleware_error) result \<times> cache_context
     \<Rightarrow> ('rs, ('e, 'me) middleware_error) result" where
  "middleware_finish L R header output =
     (case output of (response, cache_context) \<Rightarrow>
        (case response of
           Inl e \<Rightarrow> Err e
         | Inr cacheable_response \<Rightarrow>
             let cacheable_response = http_cache_status L (cc_status cache_context) header cacheable_response;
                 http_response = into_request cacheable_response;
                 (parts, buffered_body) = http_response;
                 body = buffered_body_to_reqwest R buffered_body
             in Ok (rl_response_from_http R (parts, body))))"

text \<open>A poll of the future of \<open>handle\<close> once it waits.\<close>

definition middleware_poll ::
  "('h, 'u) http_lib \<Rightarrow> ('rq, 'rs, 'h, 'u, 'b, 'e, 'me, 'x, 'n, 'w) reqwest_lib \<Rightarrow> string
     \<Rightarrow> ('n, 'h, 'u, 'b, 'e, 'me, 'rx, 'x, 'w) middleware_env
     \<Rightarrow> ('h, 'u, 'b, 'e, 'b, 'e, ('e, 'me) middleware_error, 'rx) http_future \<Rightarrow> ('n, 'h, 'u, 'b, 'e, 'x, 'w) middleware_world
     \<Rightarrow> (('h, 'u, 'b, 'e, 'b, 'e, ('e, 'me) middleware_error, 'rx) http_future, ('rs, ('e, 'me) middleware_error) result) turn
        \<times> ('n, 'h, 'u, 'b, 'e, 'x, 'w) middleware_world" where
  "middleware_poll L R header env cache_future w =
     (case fsm_poll env cache_future w of (t, w') \<Rightarrow> (map_turn (\<lambda>f. f) (middleware_finish L R header) t, w'))"

section \<open>The builder\<close>

record ('bk, 'c, 'cm) cache_middleware_builder =
  mwb_backend :: 'bk
  mwb_configuration :: 'c
  mwb_concurrency_manager :: 'cm
  mwb_cache_status_header :: "string option"

definition middleware_builder_new :: "(not_set, not_set, noop_concurrency_manager) cache_middleware_builder" where
  "middleware_builder_new =
     \<lparr>mwb_backend = NotSet, mwb_configuration = NotSet, mwb_concurrency_manager = NoopConcurrencyManager,
      mwb_cache_status_header = None\<rparr>"

definition middleware_builder_backend ::
  "'bk2 \<Rightarrow> ('bk, 'c, 'cm) cache_middleware_builder \<Rightarrow> ('bk2, 'c, 'cm) cache_middleware_builder" where
  "middleware_builder_backend backend self =
     \<lparr>mwb_backend = backend, mwb_configuration = mwb_configuration self,
      mwb_concurrency_manager = mwb_concurrency_manager self, mwb_cache_status_header = mwb_cache_status_header self\<rparr>"

definition middleware_builder_config ::
  "'c2 \<Rightarrow> ('bk, 'c, 'cm) cache_middleware_builder \<Rightarrow> ('bk, 'c2, 'cm) cache_middleware_builder" where
  "middleware_builder_config configuration self =
     \<lparr>mwb_backend = mwb_backend self, mwb_configuration = configuration,
      mwb_concurrency_manager = mwb_concurrency_manager self, mwb_cache_status_header = mwb_cache_status_header self\<rparr>"

definition middleware_builder_concurrency_manager ::
  "'cm2 \<Rightarrow> ('bk, 'c, 'cm) cache_middleware_builder \<Rightarrow> ('bk, 'c, 'cm2) cache_middleware_builder" where
  "middleware_builder_concurrency_manager manager self =
     \<lparr>mwb_backend = mwb_backend self, mwb_configuration = mwb_configuration self,
      mwb_concurrency_manager = manager, mwb_cache_status_header = mwb_cache_status_header self\<rparr>"

definition middleware_builder_header ::
  "string \<Rightarrow> ('bk, 'c, 'cm) cache_middleware_builder \<Rightarrow> ('bk, 'c, 'cm) cache_middleware_builder" where
  "middleware_builder_header header_name self = self\<lparr>mwb_cache_status_header := Some header_name\<rparr>"

definition middleware_builder_build :: "('bk, 'c, 'cm) cache_middleware_builder \<Rightarrow> ('bk, 'c, 'cm) cache_middleware" where
  "middleware_builder_build self =
     \<lparr>mw_backend = mwb_backend self, mw_configuration = mwb_configuration self,
      mw_concurrency_manager = mwb_concurrency_manager self,
      mw_cache_status_header = (case mwb_cache_status_header self of Some h \<Rightarrow> h | None \<Rightarrow> default_cache_status_header)\<rparr>"

section \<open>Bodies\<close>

text \<open>What the conversion relies on: a body made of bytes yields them and ends; a body wrapped around another
  yields the same bytes and fails if and only if the other does (with an error of its own around it).\<close>

locale reqwest_bodies =
  fixes R :: "('rq, 'rs, 'h, 'u, 'b, 'e, 'me, 'x, 'n, 'w) reqwest_lib" and B :: "('b, 'y, 'e) body_ops"
  assumes from_bytes: "\<exists>fs. polls (bo_poll_frame B) (rl_body_from R d) fs None \<and> body_bytes fs = d"
    and wrapped: "polls (partial_poll_frame B) p fs r \<Longrightarrow>
      \<exists>gs r'. polls (bo_poll_frame B) (rl_body_wrap R p) gs r' \<and> body_bytes gs = body_bytes fs \<and> (r' = None \<longleftrightarrow> r = None)"
begin

lemma converted_body:
  assumes "yields_body B body fs r"
  shows "\<exists>gs r'. polls (bo_poll_frame B) (buffered_body_to_reqwest R body) gs r' \<and> body_bytes gs = body_bytes fs
    \<and> (r' = None \<longleftrightarrow> r = None)"
proof (cases body)
  case (Complete d)
  then show ?thesis using assms from_bytes by (cases d) fastforce+
next
  case (Partial p)
  have "polls (body_poll_frame B) (Partial p) fs r \<longleftrightarrow> polls (partial_poll_frame B) p fs r"
    by (rule polls_embed) (auto simp: inj_def split: prod.split)
  with assms Partial show ?thesis by (auto dest: wrapped)
next
  case (Passthrough b)
  then show ?thesis using assms by auto
qed

end

section \<open>The middleware's answers\<close>

text \<open>A request is answered at the first poll of \<open>handle\<close>.\<close>

definition middleware_serves ::
  "('h, 'u) http_lib \<Rightarrow> ('rq, 'rs, 'h, 'u, 'b, 'e, 'me, 'x, 'n, 'w) reqwest_lib \<Rightarrow> ('b, 'y, 'e) body_ops
     \<Rightarrow> ('bk \<Rightarrow> disabled_offload \<Rightarrow> 'cm \<Rightarrow> ('n, 'h, 'u, 'b, 'e, 'me, 'rx, 'x, 'w) middleware_env)
     \<Rightarrow> ('bk, (('h, 'u, 'b, 'e) http_request, ('h, 'b, 'e) http_response) cache_config, 'cm) cache_middleware
     \<Rightarrow> 'rq \<Rightarrow> 'x \<Rightarrow> 'n \<Rightarrow> 'w \<Rightarrow> ('rs, ('e, 'me) middleware_error) result \<Rightarrow> 'w \<Rightarrow> bool" where
  "middleware_serves L R B run S req extensions next_chain w out w' \<longleftrightarrow>
     (case middleware_start R B run S req extensions next_chain w of
        Inl e \<Rightarrow> out = Err e \<and> w' = w
      | Inr (f, env, mw) \<Rightarrow>
          (\<exists>f' mw'. middleware_poll L R (mw_cache_status_header S) env f mw = (Ready f' out, mw') \<and> rw_inner mw' = w'))"

text \<open>The world in which a request starts, and the environment it runs in.\<close>

definition request_world :: "'n \<Rightarrow> 'x \<Rightarrow> 'w \<Rightarrow> ('n, 'r, 'x, 'w) reqwest_world" where
  "request_world next_chain extensions w =
     \<lparr>rw_upstream = reqwest_upstream_new next_chain extensions, rw_futures = (\<lambda>_. Finished), rw_fresh = 0, rw_inner = w\<rparr>"

definition middleware_runs where
  "middleware_runs R B run S = service_env (\<lambda>_. reqwest_upstream_call R) (reqwest_upstream_poll R) B
     (run (mw_backend S) DisabledOffload (mw_concurrency_manager S)) 0"

lemma middleware_runs_sel [simp]:
  "fo_call (middleware_runs R B run S) = reqwest_upstream_call R"
  "fe_upstream (middleware_runs R B run S) = reqwest_upstream_poll R"
  "fe_req_policy (middleware_runs R B run S) (r, p, x) w = (http_request_policy p x r, w)"
  "fe_from_cached (middleware_runs R B run S) c w = (Some (Ok (http_from_cached c)), w)"
  "fe_res_policy (middleware_runs R B run S) (res, q, cfg) w =
     (result_cache_policy (http_into_cached B) (fo_now (run (mw_backend S) DisabledOffload (mw_concurrency_manager S)) w)
        (fo_now (run (mw_backend S) DisabledOffload (mw_concurrency_manager S)) w) q cfg res, w)"
  "fe_get (middleware_runs R B run S) = fe_get (run (mw_backend S) DisabledOffload (mw_concurrency_manager S))"
  "fe_set (middleware_runs R B run S) = fe_set (run (mw_backend S) DisabledOffload (mw_concurrency_manager S))"
  "fo_now (middleware_runs R B run S) = fo_now (run (mw_backend S) DisabledOffload (mw_concurrency_manager S))"
  by (simp_all add: middleware_runs_def service_env_def result_from_cached_def)

lemma middleware_serves_yields:
  assumes "rl_request_to_http R req = Inr (parts, body)"
    and "yields (middleware_runs R B run S) (cache_future_new (from_request (parts, Passthrough body))
       (cc_request_predicates (mw_configuration S)) (cc_response_predicates (mw_configuration S))
       (cc_extractors (mw_configuration S)) (cc_policy (mw_configuration S))) (request_world next_chain extensions w) ((res, ctx), mw')"
  shows "middleware_serves L R B run S req extensions next_chain w
    (rmap (\<lambda>r. rl_response_from_http R (case into_request (http_cache_status L (ctx_status ctx) (mw_cache_status_header S) r) of
       (parts, body) \<Rightarrow> (parts, buffered_body_to_reqwest R body))) res) (rw_inner mw')"
proof -
  obtain f' where "fsm_poll (middleware_runs R B run S) (cache_future_new (from_request (parts, Passthrough body))
       (cc_request_predicates (mw_configuration S)) (cc_response_predicates (mw_configuration S))
       (cc_extractors (mw_configuration S)) (cc_policy (mw_configuration S))) (request_world next_chain extensions w)
     = (Ready f' (finish_response \<lparr>rs_response = res, rs_ctx = ctx\<rparr>), mw')"
    using assms(2) by (auto simp: yields_def)
  then show ?thesis
    unfolding middleware_serves_def middleware_start_def middleware_runs_def request_world_def
    by (subst (asm) finish_response_status(1))
      (cases res; simp add: assms(1) Let_def middleware_poll_def middleware_finish_def finish_response_status(2) split: prod.split)
qed

lemma yields_uncached:
  assumes "fe_req_policy E (r, p, x) w = (Some (Cacheable d), w0)"
    and "fe_get E (cpd_key d) (boxed cache_context_default) w0 = (Some (Ok None, ctx), w1)" and "ec_concurrency pol = None"
    and "fo_call E (cpd_request d) w1 = (fut, w2)" and "fe_upstream E fut w2 = (Some res, w3)"
    and "fe_res_policy E (res, rp, policy_entity (Enabled pol)) w3 = (Some (NonCacheable out), w4)"
  shows "yields E (cache_future_new r p rp x (Enabled pol)) w ((out, ctx), w4)"
  by (simp add: yields_def fsm_poll.simps fsm_turn.simps cache_future_new_def initial_next_def check_request_next_def
      poll_cache_next_def transition_to_upstream_def poll_upstream_next_def check_response_next_def drop_permit_def into_inner_def assms)

text \<open>What the rest of the chain answers to a request of the cache future, at its first poll.\<close>

definition chain_answers ::
  "('rq, 'rs, 'h, 'u, 'b, 'e, 'me, 'x, 'n, 'w) reqwest_lib \<Rightarrow> 'n \<Rightarrow> 'x \<Rightarrow> ('h, 'u, 'b, 'e) http_request \<Rightarrow> 'w
     \<Rightarrow> (('h, 'b, 'e) http_response, ('e, 'me) middleware_error) result \<Rightarrow> 'w \<Rightarrow> bool" where
  "chain_answers R next_chain extensions request w answer w' \<longleftrightarrow>
     (case reqwest_request R request of
        Inl e \<Rightarrow> answer = Err (Reqwest e) \<and> w' = w
      | Inr rq \<Rightarrow> \<exists>running i a. rl_run R next_chain rq extensions w = (running, i) \<and> rl_poll R running i = (Some a, w')
          \<and> answer = rmap (reqwest_response R) a)"

lemma upstream_answers:
  assumes "chain_answers R next_chain extensions request w answer w'"
  obtains fut mw mw' where "reqwest_upstream_call R request (request_world next_chain extensions w) = (fut, mw)"
    and "reqwest_upstream_poll R fut mw = (Some answer, mw')" and "rw_inner mw' = w'"
    and "rw_upstream mw' = reqwest_upstream_new next_chain (rl_default_extensions R)"
proof (cases "reqwest_request R request")
  case (Inl e)
  with assms show thesis
    by (intro that) (auto simp: chain_answers_def reqwest_upstream_call_def request_world_def reqwest_upstream_new_def
        reqwest_upstream_poll_def Let_def)
next
  case (Inr rq)
  with assms obtain running i a where a: "rl_run R next_chain rq extensions w = (running, i)"
    "rl_poll R running i = (Some a, w')" "answer = rmap (reqwest_response R) a"
    by (auto simp: chain_answers_def)
  show thesis
    by (rule that; cases a) (auto simp: Inr a reqwest_upstream_call_def request_world_def reqwest_upstream_new_def
        reqwest_upstream_poll_def reqwest_await_def Let_def)
qed

section \<open>Properties\<close>

text \<open>The body that the client's library is given, for a request sent on and for a response returned, is
  the buffered one: it yields the same bytes, whatever was read of the body before, and it fails if
  and only if the buffered body does.\<close>

lemma reqwest_body_yields_same:
  assumes "reqwest_bodies R B" and "yields_body B body fs r"
  shows "\<exists>gs r'. polls (bo_poll_frame B) (buffered_body_to_reqwest R body) gs r' \<and> body_bytes gs = body_bytes fs
    \<and> (r' = None \<longleftrightarrow> r = None)"
  by (rule reqwest_bodies.converted_body [OF assms])

text \<open>On a miss a request that cannot be converted back, or whose chain fails, is answered with that
  error, and nothing is stored: after the chain's answer the world is left as it is.\<close>

lemma middleware_error_is_returned:
  assumes E: "run (mw_backend S) DisabledOffload (mw_concurrency_manager S) = E" and cfg: "mw_configuration S = cfg"
    and policy: "cc_policy cfg = Enabled pol" "ec_concurrency pol = None"
    and request: "rl_request_to_http R req = Inr (parts, body)"
      "http_request_policy (cc_request_predicates cfg) (cc_extractors cfg) (from_request (parts, Passthrough body)) = Some (Cacheable d)"
    and missed: "fe_get E (cpd_key d) (boxed cache_context_default) (request_world next_chain extensions w)
        = (Some (Ok None, ctx), request_world next_chain extensions w1)"
    and failed: "chain_answers R next_chain extensions (cpd_request d) w1 (Err e) w2"
  shows "middleware_serves L R B run S req extensions next_chain w (Err e) w2"
proof -
  obtain fut mw mw' where up: "reqwest_upstream_call R (cpd_request d) (request_world next_chain extensions w1) = (fut, mw)"
    "reqwest_upstream_poll R fut mw = (Some (Err e), mw')" "rw_inner mw' = w2"
    by (rule upstream_answers [OF failed])
  have "yields (middleware_runs R B run S) (cache_future_new (from_request (parts, Passthrough body)) (cc_request_predicates cfg)
      (cc_response_predicates cfg) (cc_extractors cfg) (Enabled pol)) (request_world next_chain extensions w) ((Err e, ctx), mw')"
    using missed up(1,2)
    by (intro yields_uncached [where res = "Err e" and ?w3.0 = mw', OF _ _ policy(2)]) (simp_all add: request(2) E result_cache_policy_def)
  from middleware_serves_yields [OF request(1) this [folded policy(1), folded cfg], where L = L] show ?thesis
    by (simp add: up(3))
qed

section \<open>A client to run\<close>

text \<open>Requests are HTTP requests with a scripted body; the chain is a number that it adds to the count of
  calls; extensions name a request that the chain rejects.\<close>

fun scripted_wrap :: "(demo_body, nat) partial_buffered_body \<Rightarrow> demo_body" where
  "scripted_wrap p = (case pb_prefix p of Some d \<Rightarrow> [PReady (Inr (FData d))] | None \<Rightarrow> []) @
     (case pb_remaining p of RemBody b \<Rightarrow> b | RemError (Some e) \<Rightarrow> [PReady (Inl e)] | RemError None \<Rightarrow> [])"

definition demo_reqwest ::
  "((demo_headers, demo_uri) request_parts \<times> demo_body, demo_headers response_parts \<times> demo_body,
    demo_headers, demo_uri, demo_body, nat, string, bool, nat, http_world) reqwest_lib" where
  "demo_reqwest =
     \<lparr>rl_request_to_http = Inr, rl_request_from_http = Inr, rl_response_to_http = (\<lambda>r. r), rl_response_from_http = (\<lambda>r. r),
      rl_body_from = (\<lambda>d. [PReady (Inr (FData d))]), rl_body_wrap = scripted_wrap, rl_default_extensions = False,
      rl_run = (\<lambda>n rq x w. (if x then 1 else 0, w\<lparr>hw_calls := hw_calls w + n\<rparr>)),
      rl_poll = (\<lambda>fut w. (Some (if fut = 1 then Err (Middleware ''rejected'') else Ok (hm_parts (demo_response 3), take 3 demo_stream)), w))\<rparr>"

interpretation demo_reqwest: reqwest_bodies demo_reqwest scripted_body
proof
  show "\<exists>fs. polls (bo_poll_frame scripted_body) (rl_body_from demo_reqwest d) fs None \<and> body_bytes fs = d" for d
    by (simp add: demo_reqwest_def)
next
  fix p :: "(demo_body, nat) partial_buffered_body" and fs :: "unit http_frame list" and r
  assume "polls (partial_poll_frame scripted_body) p fs r"
  moreover have "polls (body_poll_frame scripted_body) (Partial p) fs r \<longleftrightarrow> polls (partial_poll_frame scripted_body) p fs r"
    by (rule polls_embed) (auto simp: inj_def split: prod.split)
  ultimately have "\<exists>gs. fs = prefix_frames (pb_prefix p) @ gs \<and> yields_remaining scripted_body (pb_remaining p) gs r"
    using yields_partial [of scripted_body "pb_prefix p" "pb_remaining p" fs r] by (cases p) simp
  then have "polls scripted_poll (scripted_wrap p) fs r"
    by (cases "pb_prefix p"; cases "pb_remaining p") (auto split: option.splits simp del: partial_buffered_body.surjective)
  then show "\<exists>gs r'. polls (bo_poll_frame scripted_body) (rl_body_wrap demo_reqwest p) gs r' \<and> body_bytes gs = body_bytes fs
      \<and> (r' = None \<longleftrightarrow> r = None)"
    by (auto simp: demo_reqwest_def simp del: scripted_wrap.simps)
qed

lemma reqwest_body_yields_same_witness:
  "\<exists>gs r'. polls (bo_poll_frame scripted_body)
      (buffered_body_to_reqwest demo_reqwest (Partial \<lparr>pb_prefix = Some [1], pb_remaining = RemError (Some 7)\<rparr>)) gs r'
    \<and> body_bytes gs = [1] \<and> r' \<noteq> None"
  using reqwest_body_yields_same [OF demo_reqwest.reqwest_bodies_axioms,
      of "Partial \<lparr>pb_prefix = Some [1], pb_remaining = RemError (Some 7)\<rparr>" "[FData [1]]" "Some 7"]
  by simp

definition middleware_demo_run ::
  "unit \<Rightarrow> disabled_offload \<Rightarrow> noop_concurrency_manager
     \<Rightarrow> (nat, demo_headers, demo_uri, demo_body, nat, string, nat, bool, http_world) middleware_env" where
  "middleware_demo_run backend offload manager =
     \<lparr>fo_now = (\<lambda>w. hw_time (rw_inner w)), fo_call = (\<lambda>r w. (0, w)), fo_check = (\<lambda>k n w. (noop_check k n, w)),
      fo_resolve = noop_resolve, fo_cleanup = noop_cleanup, fo_permit_drop = (\<lambda>i w. w),
      fe_req_policy = (\<lambda>x w. (None, w)), fe_get = (\<lambda>k c w. (Some (Ok (hw_store (rw_inner w) k), c), w)),
      fe_set = (\<lambda>k v c w. (Some (Ok (), c), w\<lparr>rw_inner := (rw_inner w)\<lparr>hw_store := (hw_store (rw_inner w))(k \<mapsto> v)\<rparr>\<rparr>)),
      fe_upstream = (\<lambda>fut w. (None, w)), fe_res_policy = (\<lambda>x w. (None, w)), fe_from_cached = (\<lambda>c w. (None, w)),
      fe_await = (\<lambda>i rx w. (Some (Err Closed), w)), fe_spawn = disabled_spawn offload\<rparr>"

definition demo_middleware ::
  "(unit, ((demo_headers, demo_uri, demo_body, nat) http_request, (demo_headers, demo_body, nat) http_response) cache_config,
     noop_concurrency_manager) cache_middleware" where
  "demo_middleware = middleware_builder_build (middleware_builder_backend () (middleware_builder_config
     \<lparr>cc_request_predicates = async_neutral, cc_response_predicates = async_neutral,
      cc_extractors = method_get neutral_extractor, cc_policy = Enabled demo_policy\<rparr> middleware_builder_new))"

lemma middleware_error_is_returned_witness:
  "middleware_serves demo_http demo_reqwest scripted_body middleware_demo_run demo_middleware
     (hm_parts demo_request, demo_stream) True 5 demo_world (Err (Middleware ''rejected'')) (demo_world\<lparr>hw_calls := 5\<rparr>)"
proof (rule middleware_error_is_returned [OF refl refl])
  show "cc_policy (mw_configuration demo_middleware) = Enabled demo_policy" "ec_concurrency demo_policy = None"
    by (simp_all add: demo_middleware_def middleware_builder_build_def middleware_builder_backend_def
        middleware_builder_config_def demo_policy_def)
  show "rl_request_to_http demo_reqwest (hm_parts demo_request, demo_stream) = Inr (hm_parts demo_request, demo_stream)"
    by (simp add: demo_reqwest_def)
  show "http_request_policy (cc_request_predicates (mw_configuration demo_middleware)) (cc_extractors (mw_configuration demo_middleware))
      (from_request (hm_parts demo_request, Passthrough demo_stream))
    = Some (Cacheable \<lparr>cpd_key = demo_method_key, cpd_request = from_request (hm_parts demo_request, Passthrough demo_stream)\<rparr>)"
    by (simp add: demo_middleware_def middleware_builder_build_def middleware_builder_backend_def
        middleware_builder_config_def demo_request_key)
  show "fe_get (middleware_demo_run (mw_backend demo_middleware) DisabledOffload (mw_concurrency_manager demo_middleware))
      (cpd_key \<lparr>cpd_key = demo_method_key, cpd_request = from_request (hm_parts demo_request, Passthrough demo_stream)\<rparr>)
      (boxed cache_context_default) (request_world 5 True demo_world)
    = (Some (Ok None, boxed cache_context_default), request_world 5 True demo_world)"
    by (simp add: middleware_demo_run_def request_world_def demo_world_def)
  show "chain_answers demo_reqwest 5 True
      (cpd_request \<lparr>cpd_key = demo_method_key, cpd_request = from_request (hm_parts demo_request, Passthrough demo_stream)\<rparr>)
      demo_world (Err (Middleware ''rejected'')) (demo_world\<lparr>hw_calls := 5\<rparr>)"
    by (simp add: chain_answers_def reqwest_request_def into_request_def from_request_def demo_reqwest_def demo_world_def)
qed

end
