(* ===== verification/Composition_Raw.thy ===== *)
theory Composition_Raw
  imports Tiered
begin

text \<open>
  Consequences of how a composition is used: the refill of the first layer, a composition inside a
  composition or behind a trait object, which goes through the raw operations and the envelope, the
  parallel policy's idea of freshness, and racing writes to the same key.
\<close>

section \<open>Through the envelope\<close>

text \<open>The value with its times erased.\<close>

definition without_times :: "'a cache_value \<Rightarrow> 'a cache_value" where
  "without_times v = cache_value_new (cv_data v) None None"

lemma without_times_sel [simp]:
  "cv_data (without_times v) = cv_data v" "cv_expire (without_times v) = None" "cv_stale (without_times v) = None"
  by (simp_all add: without_times_def cache_value_new_def)

lemma serializer_both:
  assumes "ctx_read_mode ctx \<noteq> Refill" "serialize_parts F v ctx = Ok (z1, z2)"
    and "envelope_fits (EnvBoth (cache_value_new z1 None None) (cache_value_new z2 None None))"
  shows "\<exists>b. composition_with_serializer F v ctx = Ok b
      \<and> read_envelope b = Ok (EnvBoth (cache_value_new z1 None None) (cache_value_new z2 None None))"
proof -
  let ?env = "EnvBoth (cache_value_new z1 None None) (cache_value_new z2 None None)"
  obtain b where b: "envelope_serialize ?env = Ok b"
    using envelope_deserialize_serialize [OF assms(3)] by (cases "envelope_serialize ?env") simp_all
  have kept: "envelope_kept ?env = ?env"
    by (simp add: kept_def stamp_kept_def cache_value_new_def)
  have "composition_with_serializer F v ctx = Ok b"
    using assms(1,2) b by (auto simp: composition_with_serializer_def serialize_parts_def Let_def)
  then show ?thesis using read_envelope_serialize [OF assms(3) b] kept by simp
qed

text \<open>A raw write of what the composition's own format serialized is a typed set without times.\<close>

lemma raw_write_is_timeless_set:
  assumes "ctx_read_mode ctx \<noteq> Refill" "serialize_parts (xb_format C) (cv_data v) ctx = Ok (z1, z2)"
    and "envelope_fits (EnvBoth (cache_value_new z1 None None) (cache_value_new z2 None None))"
  shows "\<exists>b. composition_with_serializer (xb_format C) (cv_data v) ctx = Ok b
    \<and> (\<forall>e t. composition_raw_write sched C k (cache_value_new b e t) st =
         (case composition_set sched C k (without_times v) ctx st of ((r, _), st') \<Rightarrow> (r, st')))"
proof -
  obtain b where b: "composition_with_serializer (xb_format C) (cv_data v) ctx = Ok b"
    "read_envelope b = Ok (EnvBoth (cache_value_new z1 None None) (cache_value_new z2 None None))"
    using serializer_both [OF assms] by blast
  have "composition_raw_write sched C k (cache_value_new b e t) st =
      (case composition_set sched C k (without_times v) ctx st of ((r, _), st') \<Rightarrow> (r, st'))" for e t
    using assms(1,2) b(2)
    by (simp add: composition_raw_write_def composition_set_normal cache_value_new_def split: prod.split)
  then show ?thesis using b(1) by blast
qed

lemma composition_backend_sel [simp]:
  "be_write (composition_backend sched C) = composition_raw_write sched C"
  "be_read (composition_backend sched C) = composition_raw_read sched C"
  "be_format (composition_backend sched C) = composition_as_format (xb_format C)"
  "be_compressor (composition_backend sched C) = passthrough_compressor"
  "kb_get (composition_backend sched C) = composition_get sched C"
  "kb_set (composition_backend sched C) = composition_set sched C"
  by (simp_all add: composition_backend_def)

text \<open>A composition loses the times of what it caches whenever it is not used through its own
  typed operations: a set through a trait object, and the write that an outer composition makes to
  a composition that is its layer, store in both inner layers what a typed set of the value
  without expiry and without stale time would store, with the same outcome, whatever expiry the
  value had and whatever policies and schedules are used.\<close>

lemma composition_behind_trait_object_drops_times:
  assumes "ctx_read_mode ctx \<noteq> Refill" "serialize_parts (xb_format C) (cv_data v) ctx = Ok (z1, z2)"
    and "envelope_fits (EnvBoth (cache_value_new z1 None None) (cache_value_new z2 None None))"
  shows "kb_set (dyn_backend (composition_backend sched C)) k v ctx st = composition_set sched C k (without_times v) ctx st
    \<and> (let D = compose l1 (composition_backend sched C) in
        \<exists>z. serialize_layer (xb_format D) L2 (cv_data v) ctx = Ok z
          \<and> be_write (xb_l2 D) k (cache_value_new z (cv_expire v) (cv_stale v)) st =
              (case composition_set sched C k (without_times v) ctx st of ((r, _), st') \<Rightarrow> (r, st')))"
proof -
  obtain b where b: "composition_with_serializer (xb_format C) (cv_data v) ctx = Ok b"
    and w: "\<And>e t. composition_raw_write sched C k (cache_value_new b e t) st =
         (case composition_set sched C k (without_times v) ctx st of ((r, _), st') \<Rightarrow> (r, st'))"
    using raw_write_is_timeless_set [OF assms, of sched k st] by blast
  have ctx: "composition_set sched C k (without_times v) ctx st = ((r, ctx'), st') \<Longrightarrow> ctx' = ctx" for r ctx' st'
    using assms(1,2) by (auto simp: composition_set_normal split: prod.splits)
  have "kb_set (dyn_backend (composition_backend sched C)) k v ctx st = composition_set sched C k (without_times v) ctx st"
    using assms(1) b w ctx
    by (cases "composition_set sched C k (without_times v) ctx st")
       (auto simp: dyn_backend_def cache_set_def composition_as_format_def passthrough_compressor_def)
  moreover have "let D = compose l1 (composition_backend sched C) in
        serialize_layer (xb_format D) L2 (cv_data v) ctx = Ok b
          \<and> be_write (xb_l2 D) k (cache_value_new b (cv_expire v) (cv_stale v)) st =
              (case composition_set sched C k (without_times v) ctx st of ((r, _), st') \<Rightarrow> (r, st'))"
    using b w by (simp add: compose_def composition_new_def composition_format_new_def serialize_layer_def
        layer_codec_def composition_as_format_def passthrough_compressor_def Let_def)
  ultimately show ?thesis unfolding Let_def by blast
qed

theorem composition_behind_trait_object_drops_times_witness:
  "let C = demo_tiers composition_policy_new; k = cache_key_from_str ''a'' ''b''; ctx = boxed cache_context_default;
       v = cache_value_new (7::nat) (Some 60000000000) None
   in kb_set (dyn_backend (composition_backend demo_sched C)) k v ctx demo_empty
        = composition_set demo_sched C k (cache_value_new 7 None None) ctx demo_empty
    \<and> rm_held (ly_l1 (co_layers (snd (kb_set (dyn_backend (composition_backend demo_sched C)) k v ctx demo_empty)))) k
        = Some (cache_value_new [55] None None, None)
    \<and> rm_held (ly_l1 (co_layers (snd (composition_set demo_sched C k v ctx demo_empty)))) k
        = Some (cache_value_new [55] (Some 60000000000) None, Some 60000000000)"
proof -
  let ?C = "demo_tiers composition_policy_new" and ?k = "cache_key_from_str ''a'' ''b''"
  let ?v = "cache_value_new (7::nat) (Some 60000000000) None" and ?ctx = "boxed cache_context_default"
  have m: "ctx_read_mode ?ctx \<noteq> Refill" by simp
  have ser: "serialize_parts (xb_format ?C) (cv_data ?v) ?ctx = Ok ([55], [55])"
    by (simp add: demo_run show_nat.simps bytes_of_str_def digit_char_def)
  have fits: "envelope_fits (EnvBoth (cache_value_new [55] None None) (cache_value_new [55] None None))"
    by (simp add: cache_value_new_def stamp_ok_def)
  have t: "without_times ?v = cache_value_new 7 None None" by (simp add: without_times_def cache_value_new_def)
  have d: "kb_set (dyn_backend (composition_backend demo_sched ?C)) ?k ?v ?ctx demo_empty
        = composition_set demo_sched ?C ?k (cache_value_new 7 None None) ?ctx demo_empty"
    using composition_behind_trait_object_drops_times [OF m ser fits, of demo_sched ?k demo_empty demo_moka] t by simp
  have e: "rm_held (ly_l1 (co_layers (snd (composition_set demo_sched ?C ?k (cache_value_new 7 None None) ?ctx demo_empty)))) ?k
        = Some (cache_value_new [55] None None, None)"
    by (simp add: composition_set_normal demo_run demo_empty_def demo_sched_def optimistic_parallel_write_def join_both_def show_nat.simps bytes_of_str_def digit_char_def)
  have f: "rm_held (ly_l1 (co_layers (snd (composition_set demo_sched ?C ?k ?v ?ctx demo_empty)))) ?k
        = Some (cache_value_new [55] (Some 60000000000) None, Some 60000000000)"
    by (simp add: composition_set_normal demo_run demo_empty_def demo_sched_def optimistic_parallel_write_def join_both_def
      show_nat.simps bytes_of_str_def digit_char_def num_milliseconds_def)
  show ?thesis using d e f by (simp add: Let_def)
qed

section \<open>Refilling the first layer\<close>

lemma read_layer_hit_iff:
  "read_layer F layer B k ctx s = ((Ok (Some v), c), s') \<longleftrightarrow>
     (\<exists>u d c0. be_read B k s = (Ok (Some u), s') \<and> deserialize_layer F (cv_data u) layer ctx = (Ok (Some d), c0)
        \<and> v = cache_value_new d (cv_expire u) (cv_stale u)
        \<and> c = ctx_set_source (SrcBackend (source_label c0 (be_label B))) (ctx_set_status Hit c0))"
  by (auto simp: read_layer_def into_parts_def cache_meta_new_def split: prod.splits sum.splits option.splits)

lemma comp_state_parts:
  fixes st :: "('s1, 's2) comp_state"
  obtains a b ts where "st = \<lparr>co_layers = \<lparr>ly_l1 = a, ly_l2 = b\<rparr>, co_tasks = ts\<rparr>"
  by (metis (full_types) comp_state.surjective layers.surjective old.unit.exhaust)

lemma sequential_get:
  assumes "xb_read_policy C = SequentialRead" "composition_get sched C k ctx0 st = ((Ok (Some v), ctx), st')"
  shows "(\<exists>c s. read_layer (xb_format C) L1 (xb_l1 C) k ctx0 (ly_l1 (co_layers st)) = ((Ok (Some v), c), s)
        \<and> ctx = merge_from c (xb_label C) ctx0 \<and> st' = st\<lparr>co_layers := (co_layers st)\<lparr>ly_l1 := s\<rparr>\<rparr>)
    \<or> (\<exists>o1 s1 c s. read_layer (xb_format C) L1 (xb_l1 C) k ctx0 (ly_l1 (co_layers st)) = (o1, s1) \<and> \<not> layer_hit o1
        \<and> read_layer (xb_format C) L2 (xb_l2 C) k ctx0 (ly_l2 (co_layers st)) = ((Ok (Some v), c), s)
        \<and> ctx = (let m = merge_from c (xb_label C) ctx0 in if xb_refill_policy C = RefillAlways then ctx_set_read_mode Refill m else m)
        \<and> st' = st\<lparr>co_layers := \<lparr>ly_l1 = s1, ly_l2 = s\<rparr>\<rparr>)"
proof -
  let ?f = "read_layer (xb_format C) L1 (xb_l1 C) k ctx0" and ?g = "read_layer (xb_format C) L2 (xb_l2 C) k ctx0"
  obtain o1 t1 o2 t2 where fg: "?f (ly_l1 (co_layers st)) = (o1, t1)" "?g (ly_l2 (co_layers st)) = (o2, t2)" by fastforce
  have ops: "on_l1 ?f (co_layers st) = (o1, (co_layers st)\<lparr>ly_l1 := t1\<rparr>)"
    "on_l2 ?g ((co_layers st)\<lparr>ly_l1 := t1\<rparr>) = (o2, (co_layers st)\<lparr>ly_l1 := t1, ly_l2 := t2\<rparr>)"
    using fg by (simp_all add: on_l1_def on_l2_def)
  show ?thesis using assms
    by (cases st rule: comp_state_parts; cases o1 rule: layer_cases; cases o2 rule: layer_cases)
       (use ops fg in \<open>auto simp: composition_get_def with_tasks_def read_execute_def sequential_read_def layer_hit_def Let_def\<close>)
qed

text \<open>C27. A hit in the second layer refills the first: with sequential reads, refill always and a second layer that is a
  plain store (not itself a composition, which would refill its own first layer), and codecs that lose nothing, when
  the first layer has no value and a get finds one in the second, the get answers in refill mode;
  the set that follows in that context, when the first layer takes it, writes the first layer alone, with the times of the value
  found, and leaves the second as it is; and when the first layer serves what it was given, the
  next get returns the same value from the first layer, in the read mode it was called in.\<close>

theorem l2_hit_refills_l1:
  assumes "xb_read_policy C = SequentialRead" "xb_refill_policy C = RefillAlways"
    and "kb_set (xb_l2 C) = cache_set (xb_l2 C)" "lossless_composition (xb_format C)"
    and "\<not> layer_hit (fst (read_layer (xb_format C) L1 (xb_l1 C) k (boxed c) (ly_l1 (co_layers st))))"
    and "composition_get sched C k (boxed c) st = ((Ok (Some v), ctx), st1)"
    and "serialize_layer (xb_format C) L1 (cv_data v) ctx = Ok z"
    and "be_write (xb_l1 C) k (cache_value_new z (cv_expire v) (cv_stale v)) (ly_l1 (co_layers st1)) = (Ok (), s2)"
    and "be_read (xb_l1 C) k s2 = (Ok (Some (cache_value_new z (cv_expire v) (cv_stale v))), s3)"
  shows "ctx_read_mode ctx = Refill \<and> ctx_status ctx = Hit
    \<and> (let st2 = st1\<lparr>co_layers := (co_layers st1)\<lparr>ly_l1 := s2\<rparr>\<rparr> in
        composition_set sched C k v ctx st1 = ((Ok (), ctx), st2)
        \<and> (\<exists>ctx'. composition_get sched C k (boxed c') st2
                  = ((Ok (Some v), ctx'), st2\<lparr>co_layers := (co_layers st2)\<lparr>ly_l1 := s3\<rparr>\<rparr>)
                \<and> ctx_read_mode ctx' = cc_read_mode c'))"
proof -
  obtain c2 s where hit: "read_layer (xb_format C) L2 (xb_l2 C) k (boxed c) (ly_l2 (co_layers st)) = ((Ok (Some v), c2), s)"
    and ctx: "ctx = ctx_set_read_mode Refill (merge_from c2 (xb_label C) (boxed c))"
    using sequential_get [OF assms(1,6)] assms(2,5) by (auto simp: layer_hit_def Let_def)
  have h2: "ctx_status c2 = Hit" using hit by (auto simp: read_layer_hit_iff)
  have plain: "\<exists>d. merge_from c2 (xb_label C) (boxed c) = PlainCtx d"
    by (auto simp: merge_from_def boxed_def Let_def split: response_source.split)
  then have mode: "ctx_read_mode ctx = Refill" "ctx_status ctx = Hit" using h2 by (auto simp: ctx)
  let ?st2 = "st1\<lparr>co_layers := (co_layers st1)\<lparr>ly_l1 := s2\<rparr>\<rparr>"
  have set: "composition_set sched C k v ctx st1 = ((Ok (), ctx), ?st2)"
    using mode(1) assms(2,3,7,8)
    by (simp add: composition_set_def direct_def refill_l1_def on_l1_def set_l2_def on_l2_def cache_set_def)
  obtain c3 where d: "deserialize_layer (xb_format C) z L1 (boxed c') = (Ok (Some (cv_data v)), c3)"
    using deserialize_serialize_layer [OF assms(4,7), of "boxed c'"] by (metis prod.collapse)
  define c4 where "c4 = ctx_set_source (SrcBackend (source_label c3 (be_label (xb_l1 C)))) (ctx_set_status Hit c3)"
  have r: "read_layer (xb_format C) L1 (xb_l1 C) k (boxed c') s2 = ((Ok (Some v), c4), s3)"
    using assms(9) d by (simp add: read_layer_def into_parts_def cache_value_new_def cache_meta_new_def c4_def)
  have get: "composition_get sched C k (boxed c') ?st2 =
      ((Ok (Some v), merge_from c4 (xb_label C) (boxed c')), ?st2\<lparr>co_layers := (co_layers ?st2)\<lparr>ly_l1 := s3\<rparr>\<rparr>)"
    using assms(1) r
    by (simp add: composition_get_def with_tasks_def read_execute_def sequential_read_def on_l1_def Let_def)
  have "ctx_read_mode (merge_from c4 (xb_label C) (boxed c')) = cc_read_mode c'" by simp
  then show ?thesis using mode set get unfolding Let_def by blast
qed

theorem l2_hit_refills_l1_witness:
  "let C = demo_tiers (policy_refill RefillAlways composition_policy_new); k = cache_key_from_str ''a'' ''b'';
       v = cache_value_new (7::nat) None None; c = cache_context_default;
       st = demo_empty\<lparr>co_layers := (co_layers demo_empty)\<lparr>ly_l2 := snd (kb_set (xb_l2 C) k v (boxed c) (ly_l2 (co_layers demo_empty)))\<rparr>\<rparr>
   in \<exists>ctx st1 st2 ctx' st3. composition_get demo_sched C k (boxed c) st = ((Ok (Some v), ctx), st1)
      \<and> ctx_read_mode ctx = Refill \<and> rm_held (ly_l1 (co_layers st1)) k = None
      \<and> composition_set demo_sched C k v ctx st1 = ((Ok (), ctx), st2)
      \<and> composition_get demo_sched C k (boxed c) st2 = ((Ok (Some v), ctx'), st3) \<and> ctx_read_mode ctx' = Direct"
proof -
  let ?C = "demo_tiers (policy_refill RefillAlways composition_policy_new)" and ?k = "cache_key_from_str ''a'' ''b''"
  let ?v = "cache_value_new (7::nat) None None" and ?c = "cache_context_default"
  let ?st = "demo_empty\<lparr>co_layers := (co_layers demo_empty)\<lparr>ly_l2 := snd (kb_set (xb_l2 ?C) ?k ?v (boxed ?c) (ly_l2 (co_layers demo_empty)))\<rparr>\<rparr>"
  note run = demo_run demo_empty_def demo_sched_def policy_refill_def
  have pol: "xb_read_policy ?C = SequentialRead" "xb_refill_policy ?C = RefillAlways" "kb_set (xb_l2 ?C) = cache_set (xb_l2 ?C)"
    by (simp_all add: demo_tiers_def policy_refill_def composition_policy_new_def store_defaults)
  have miss: "\<not> layer_hit (fst (read_layer (xb_format ?C) L1 (xb_l1 ?C) ?k (boxed ?c) (ly_l1 (co_layers ?st))))"
    by (simp add: run layer_hit_def)
  obtain ctx st1 where g: "composition_get demo_sched ?C ?k (boxed ?c) ?st = ((Ok (Some ?v), ctx), st1)"
    and m: "rm_held (ly_l1 (co_layers st1)) ?k = None"
    by (simp add: composition_get_def run)
  have ser: "serialize_layer (xb_format ?C) L1 (cv_data ?v) ctx = Ok [55]"
    by (simp add: run serialize_layer_def show_nat.simps bytes_of_str_def digit_char_def)
  let ?u = "cache_value_new [55 :: byte] (cv_expire ?v) (cv_stale ?v)" and ?s1 = "ly_l1 (co_layers st1)"
  let ?s2 = "snd (be_write (xb_l1 ?C) ?k ?u ?s1)"
  have w: "be_write (xb_l1 ?C) ?k ?u ?s1 = (Ok (), ?s2)" and r: "be_read (xb_l1 ?C) ?k ?s2 = (Ok (Some ?u), ?s2)"
    by (simp_all add: run)
  show ?thesis
    using l2_hit_refills_l1 [OF pol demo_tiers.lossless miss g ser w r, where c' = ?c] g m
    unfolding Let_def by simp blast
qed

section \<open>Freshness of a parallel read\<close>

text \<open>A parallel read does not prefer the fresher value: when the value of the first layer has a
  second or more to live and that of the second layer is already expired, the expired one is
  served, because an expired value has no remaining time and no remaining time is taken for a
  value that never expires.\<close>

theorem parallel_read_prefers_expired:
  assumes "f (ly_l1 st) = ((Ok (Some v1), c1), t1)" "g (ly_l2 st) = ((Ok (Some v2), c2), t2)"
    and "cv_expire v1 = Some e1" "sc_clock1 sch + int nanos_per_sec \<le> e1"
    and "cv_expire v2 = Some e2" "e2 \<le> sc_clock2 sch"
  shows "fst (read_execute ParallelRead sch (on_l1 f) (on_l2 g) st)
      = Ok \<lparr>rv_value = Some v2, rv_source = L2, rv_context = c2\<rparr>
    \<and> cache_state_of (sc_clock2 sch) v2 = Expired v2 \<and> cache_state_of (sc_clock1 sch) v1 \<noteq> Expired v1"
proof -
  obtain n where "ttl_secs (sc_clock1 sch) v1 = Some n"
    using assms(3,4) ttl_secs_Some_iff [of "sc_clock1 sch" v1] by auto
  moreover have "ttl_secs (sc_clock2 sch) v2 = None"
    using assms(5,6) by (simp add: ttl_secs_None_iff nanos_per_sec_def)
  ultimately have "prefer_l2 (sc_clock1 sch) (sc_clock2 sch) v1 v2" by (simp add: prefer_l2_def)
  moreover have "\<not> e1 \<le> sc_clock1 sch" using assms(4) by (simp add: nanos_per_sec_def)
  ultimately show ?thesis
    using read_execute_outcome [where f = f and g = g, OF assms(1,2), of ParallelRead sch] assms(3,5,6)
    by (simp add: served_layer_cases cache_state_of_def)
qed

theorem parallel_read_prefers_expired_witness:
  "let fresh = cache_value_new (1::nat) (Some 60000000000) None; old = cache_value_new 2 (Some 1) None;
       sch = \<lparr>sc_first = L1, sc_loser_ran = False, sc_clock1 = 5, sc_clock2 = 6\<rparr>; c = boxed cache_context_default
   in fst (read_execute ParallelRead sch (on_l1 (\<lambda>s::nat. ((Ok (Some fresh), c), s))) (on_l2 (\<lambda>s::nat. ((Ok (Some old), c), s)))
        \<lparr>ly_l1 = 0, ly_l2 = 0\<rparr>) = Ok \<lparr>rv_value = Some old, rv_source = L2, rv_context = c\<rparr>"
  using parallel_read_prefers_expired [of "\<lambda>s::nat. ((Ok (Some (cache_value_new (1::nat) (Some 60000000000) None)), boxed cache_context_default), s)"
      "\<lparr>ly_l1 = 0, ly_l2 = 0\<rparr>" "cache_value_new 1 (Some 60000000000) None" "boxed cache_context_default" 0
      "\<lambda>s::nat. ((Ok (Some (cache_value_new 2 (Some 1) None)), boxed cache_context_default), s)"
      "cache_value_new 2 (Some 1) None" "boxed cache_context_default" 0 60000000000
      "\<lparr>sc_first = L1, sc_loser_ran = False, sc_clock1 = 5, sc_clock2 = 6\<rparr>" 1]
  by (simp add: cache_value_new_def nanos_per_sec_def)

section \<open>Racing writes\<close>

text \<open>Racing writes with the loser in the background can leave the old value in a layer: of two
  sets of one key that both succeeded through the first layer, the later one's background write may
  run before the earlier one's, and then the first layer was last given the new value and the
  second layer the old one.\<close>

theorem racing_writes_reorder:
  assumes "xb_write_policy C = RaceWrite OffloadLoser" "ctx_read_mode ctx \<noteq> Refill" "co_tasks st = []"
    and "\<And>st. sc_first (sched st) = L1" "\<And>u s. is_ok (fst (be_write (xb_l1 C) k u s))"
    and "serialize_parts (xb_format C) (cv_data old) ctx = Ok (z1, z2)"
    and "serialize_parts (xb_format C) (cv_data new) ctx = Ok (y1, y2)"
  shows "let (r, st1) = composition_set sched C k old ctx st; (q, st2) = composition_set sched C k new ctx st1;
       last = co_layers (run_task 0 (run_task 1 st2))
   in r = (Ok (), ctx) \<and> q = (Ok (), ctx)
    \<and> ly_l1 last = snd (be_write (xb_l1 C) k (cache_value_new y1 (cv_expire new) (cv_stale new))
        (snd (be_write (xb_l1 C) k (cache_value_new z1 (cv_expire old) (cv_stale old)) (ly_l1 (co_layers st)))))
    \<and> ly_l2 last = snd (be_write (xb_l2 C) k (cache_value_new z2 (cv_expire old) (cv_stale old))
        (snd (be_write (xb_l2 C) k (cache_value_new y2 (cv_expire new) (cv_stale new)) (ly_l2 (co_layers st)))))"
proof -
  let ?w1 = "be_write (xb_l1 C) k" and ?w2 = "be_write (xb_l2 C) k"
  have one: "composition_set sched C k v ctx \<lparr>co_layers = \<lparr>ly_l1 = a, ly_l2 = b\<rparr>, co_tasks = ts\<rparr> =
      ((Ok (), ctx), \<lparr>co_layers = \<lparr>ly_l1 = snd (?w1 (cache_value_new x1 (cv_expire v) (cv_stale v)) a), ly_l2 = b\<rparr>,
         co_tasks = ts @ [(''race_write_l2_loser'', \<lambda>s. snd (on_l2 (?w2 (cache_value_new x2 (cv_expire v) (cv_stale v))) s))]\<rparr>)"
    if ser: "serialize_parts (xb_format C) (cv_data v) ctx = Ok (x1, x2)" for v x1 x2 a b ts
  proof -
    obtain q t where q: "?w1 (cache_value_new x1 (cv_expire v) (cv_stale v)) a = (q, t)" by fastforce
    obtain x where "q = Ok x" using assms(5) [of "cache_value_new x1 (cv_expire v) (cv_stale v)" a] q by (auto simp: is_ok_iff)
    then show ?thesis using assms(1,2,4) ser q
      by (simp add: composition_set_normal with_tasks_def write_execute_def race_write_def loser_end_def on_l1_def)
  qed
  obtain a b where st: "st = \<lparr>co_layers = \<lparr>ly_l1 = a, ly_l2 = b\<rparr>, co_tasks = []\<rparr>"
    using assms(3) by (cases st rule: comp_state_parts) simp
  show ?thesis
    unfolding st by (simp add: one [OF assms(6)] one [OF assms(7)] run_task_def on_l2_def split: prod.split)
qed

theorem racing_writes_reorder_witness:
  "let C = demo_tiers (policy_write race_write_new composition_policy_new); k = cache_key_from_str ''a'' ''b'';
       ctx = boxed cache_context_default;
       (r, st1) = composition_set demo_sched C k (cache_value_new (7::nat) None None) ctx demo_empty;
       (q, st2) = composition_set demo_sched C k (cache_value_new 8 None None) ctx st1;
       last = co_layers (run_task 0 (run_task 1 st2))
   in r = (Ok (), ctx) \<and> q = (Ok (), ctx)
    \<and> ly_l2 last = snd (be_write (xb_l2 C) k (cache_value_new [55] None None)
        (snd (be_write (xb_l2 C) k (cache_value_new [56] None None) (ly_l2 (co_layers demo_empty)))))"
proof -
  let ?C = "demo_tiers (policy_write race_write_new composition_policy_new)" and ?k = "cache_key_from_str ''a'' ''b''"
  let ?ctx = "boxed cache_context_default"
  have pol: "xb_write_policy ?C = RaceWrite OffloadLoser"
    by (simp add: demo_tiers_def policy_write_def composition_policy_new_def race_write_new_def)
  have m: "ctx_read_mode ?ctx \<noteq> Refill" "co_tasks demo_empty = []" by (simp_all add: demo_empty_def)
  have sch: "sc_first (demo_sched st) = L1" for st :: "(ref_moka, ref_redis redis_world) comp_state" by (simp add: demo_sched_def)
  have ok: "is_ok (fst (be_write (xb_l1 ?C) ?k u s))" for u s by (simp add: demo_run)
  have ser: "serialize_parts (xb_format ?C) (cv_data (cache_value_new 7 None None)) ?ctx = Ok ([55], [55])"
    "serialize_parts (xb_format ?C) (cv_data (cache_value_new 8 None None)) ?ctx = Ok ([56], [56])"
    by (simp_all add: demo_run show_nat.simps bytes_of_str_def digit_char_def)
  show ?thesis
    using racing_writes_reorder [where sched = demo_sched and k = ?k, OF pol m sch ok ser]
    by (simp add: Let_def case_prod_beta cache_value_new_def)
qed

end
