(* ===== verification/Config_Backend.thy ===== *)
theory Config_Backend
  imports Composition_Raw Store_Feoxdb Config_Predicate
begin

text \<open>
  Backends from a configuration file (hitbox-configuration/src/backend/): the formats of keys and
  values, compression, the three stores, and compositions of configured backends, each turned into
  the backend it describes, or into an error when the crate was built without what it names.  The
  file is already parsed.  What the crates below are (the stores, the serializers, the compressors) is
  the parameter \<open>backend_libs\<close>; the cargo features of the build are \<open>features\<close>.
\<close>

record features =
  ft_gzip :: bool
  ft_zstd :: bool
  ft_moka :: bool
  ft_feoxdb :: bool
  ft_redis :: bool

text \<open>Opening the FeOxDB store may fail, with a message.\<close>

record ('c, 'f, 'r, 'a) backend_libs =
  bl_json :: "'a serde"
  bl_bincode :: "'a serde"
  bl_rkyv :: "'a serde"
  bl_gzip :: "nat compression_lib"
  bl_zstd :: "int compression_lib"
  bl_moka :: "moka_settings \<Rightarrow> 'c moka_ops"
  bl_feox :: "feox_settings \<Rightarrow> ('f feox_ops, string) result"
  bl_feox_codec :: feox_codec
  bl_is_dir :: "string \<Rightarrow> bool"
  bl_push :: "string \<Rightarrow> string \<Rightarrow> string"
  bl_redis :: "'r redis_ops"
  bl_columns :: column_codec
  bl_url :: urlencoding

section \<open>Formats and compression\<close>

datatype compression_config = CompressionDisabled | CompressionGzip nat | CompressionZstd int

definition compression_default :: compression_config where
  "compression_default = CompressionDisabled"

definition default_gzip_level :: nat where
  "default_gzip_level = 6"

definition default_zstd_level :: int where
  "default_zstd_level = 3"

fun to_compressor :: "features \<Rightarrow> ('c, 'f, 'r, 'a) backend_libs \<Rightarrow> compression_config \<Rightarrow> (compressor, config_error) result" where
  "to_compressor F D CompressionDisabled = Ok passthrough_compressor"
| "to_compressor F D (CompressionGzip level) =
     (if ft_gzip F then Ok (gzip_compressor (bl_gzip D) (gzip_with_level level))
      else Err (BackendNotAvailable ''Gzip compression requested but 'gzip' feature is not enabled''))"
| "to_compressor F D (CompressionZstd level) =
     (if ft_zstd F then Ok (zstd_compressor (bl_zstd D) (zstd_with_level level))
      else Err (BackendNotAvailable ''Zstd compression requested but 'zstd' feature is not enabled''))"

datatype key_serialization = KeyUrlEncoded | KeyBitcode

fun to_cache_key_format :: "key_serialization \<Rightarrow> cache_key_format" where
  "to_cache_key_format KeyUrlEncoded = UrlEncodedKeys"
| "to_cache_key_format KeyBitcode = BitcodeKeys"

datatype value_serialization = ValueJson | ValueBincode | ValueRkyv

fun to_serializer :: "('c, 'f, 'r, 'a) backend_libs \<Rightarrow> value_serialization \<Rightarrow> 'a format" where
  "to_serializer D ValueJson = json_format (bl_json D)"
| "to_serializer D ValueBincode = bincode_format (bl_bincode D)"
| "to_serializer D ValueRkyv = rkyv_format rkyv_new (bl_rkyv D)"

record key_format_config =
  kf_format :: key_serialization

record value_format_config =
  vf_format :: value_serialization
  vf_compression :: compression_config

record 't backend_config =
  bc_key :: key_format_config
  bc_value :: value_format_config
  bc_backend :: 't

section \<open>Stores\<close>

record moka_config =
  mc_max_capacity :: nat
  mc_label :: "string option"

text \<open>The capacity is set, so the builder has its settings.\<close>

definition moka_into_backend ::
  "features \<Rightarrow> ('c, 'f, 'r, 'a) backend_libs \<Rightarrow> moka_config backend_config \<Rightarrow> (('c, 'a) cache_backend, config_error) result" where
  "moka_into_backend F D self =
     (if ft_moka F then
        let key_format = to_cache_key_format (kf_format (bc_key self));
            serializer = to_serializer D (vf_format (bc_value self))
        in rbind (to_compressor F D (vf_compression (bc_value self))) (\<lambda>compressor.
             let builder = mb_max_entries (mc_max_capacity (bc_backend self)) (mb_set_compressor compressor
                   (mb_value_format serializer (mb_set_key_format key_format (moka_builder_new (bl_json D)))));
                 builder = (case mc_label (bc_backend self) of Some label \<Rightarrow> mb_set_label (BackendLabel label) builder
                            | None \<Rightarrow> builder)
             in Ok (moka_backend (bl_moka D (the (moka_settings_of builder))) builder))
      else Err (BackendNotAvailable ''Moka''))"

record feoxdb_config =
  fc_path :: "string option"
  fc_label :: "string option"

definition feoxdb_into_backend ::
  "features \<Rightarrow> ('c, 'f, 'r, 'a) backend_libs \<Rightarrow> feoxdb_config backend_config \<Rightarrow> (('f, 'a) cache_backend, config_error) result" where
  "feoxdb_into_backend F D self =
     (if ft_feoxdb F then
        let key_format = to_cache_key_format (kf_format (bc_key self));
            serializer = to_serializer D (vf_format (bc_value self))
        in rbind (to_compressor F D (vf_compression (bc_value self))) (\<lambda>compressor.
             let builder = fb_set_compressor compressor (fb_value_format serializer
                   (fb_set_key_format key_format (feox_builder_default (bl_json D))));
                 builder = (case fc_path (bc_backend self) of Some path \<Rightarrow> fb_set_path path builder | None \<Rightarrow> builder);
                 builder = (case fc_label (bc_backend self) of Some label \<Rightarrow> fb_set_label (BackendLabel label) builder
                            | None \<Rightarrow> builder)
             in rbind (map_err (\<lambda>e. BackendNotAvailable (''FeOxDb: '' @ e))
                  (bl_feox D (feox_settings_of (bl_is_dir D) (bl_push D) builder))) (\<lambda>store.
                Ok (feox_backend store (bl_feox_codec D) builder)))
      else Err (BackendNotAvailable ''FeOxDb''))"

record redis_store_config =
  rc_connection_string :: string
  rc_label :: "string option"

fun redis_error_message :: "redis_error \<Rightarrow> string" where
  "redis_error_message (RedisErr m) = ''Redis backend error: '' @ m"
| "redis_error_message MissingConnectionMode = ''Connection mode not specified. Call .connection() before .build()''"

definition redis_into_backend ::
  "features \<Rightarrow> ('c, 'f, 'r, 'a) backend_libs \<Rightarrow> redis_store_config backend_config
     \<Rightarrow> (('r redis_world, 'a) cache_backend, config_error) result" where
  "redis_into_backend F D self =
     (if ft_redis F then
        let key_format = to_cache_key_format (kf_format (bc_key self));
            serializer = to_serializer D (vf_format (bc_value self))
        in rbind (to_compressor F D (vf_compression (bc_value self))) (\<lambda>compressor.
             let builder = rb_set_compressor compressor (rb_value_format serializer (rb_set_key_format key_format
                   (rb_connection (mode_single (rc_connection_string (bc_backend self)))
                     (redis_builder_default (bl_bincode D)))));
                 builder = (case rc_label (bc_backend self) of Some label \<Rightarrow> rb_set_label (BackendLabel label) builder
                            | None \<Rightarrow> builder)
             in rbind (map_err (\<lambda>e. BackendNotAvailable (''Redis: '' @ redis_error_message e)) (redis_build builder))
                  (\<lambda>config. Ok (redis_backend (bl_columns D) (bl_url D) (bl_redis D) config)))
      else Err (BackendNotAvailable ''Redis''))"

section \<open>Compositions\<close>

datatype read_policy_config = ReadSequential | ReadRace | ReadParallel

datatype write_policy_config = WriteSequential | WriteOptimisticParallel | WriteRace

datatype refill_policy_config = AlwaysRefill | NeverRefill

record composition_policy_config =
  pc_read :: read_policy_config
  pc_write :: write_policy_config
  pc_refill :: refill_policy_config

definition composition_policy_config_default :: composition_policy_config where
  "composition_policy_config_default =
     \<lparr>pc_read = ReadSequential, pc_write = WriteOptimisticParallel, pc_refill = NeverRefill\<rparr>"

fun configured_read :: "read_policy_config \<Rightarrow> read_policy" where
  "configured_read ReadSequential = SequentialRead"
| "configured_read ReadRace = race_read_new"
| "configured_read ReadParallel = ParallelRead"

fun configured_write :: "write_policy_config \<Rightarrow> write_policy" where
  "configured_write WriteSequential = SequentialWrite"
| "configured_write WriteOptimisticParallel = OptimisticParallelWrite"
| "configured_write WriteRace = race_write_new"

definition configured_composition ::
  "composition_policy_config \<Rightarrow> string option \<Rightarrow> ('s1, 'a) cache_backend \<Rightarrow> ('s2, 'a) cache_backend \<Rightarrow> ('s1, 's2, 'a) composition" where
  "configured_composition config label l1 l2 =
     (let refill = (case pc_refill config of AlwaysRefill \<Rightarrow> RefillAlways | NeverRefill \<Rightarrow> RefillNever);
          policy = policy_refill refill (policy_write (configured_write (pc_write config))
            (policy_read (configured_read (pc_read config)) composition_policy_new));
          backend = compose_with l1 l2 policy
      in (case label of Some l \<Rightarrow> composition_label (BackendLabel l) backend | None \<Rightarrow> backend))"

text \<open>The layers' own conversions come first; the result is a trait object.\<close>

definition composition_into_backend ::
  "(('s1, 's2) comp_state \<Rightarrow> schedule) \<Rightarrow> composition_policy_config \<Rightarrow> string option
     \<Rightarrow> (('s1, 'a) cache_backend, config_error) result \<Rightarrow> (('s2, 'a) cache_backend, config_error) result
     \<Rightarrow> ((('s1, 's2) comp_state, 'a) cache_backend, config_error) result" where
  "composition_into_backend sched policy label l1 l2 =
     rbind l1 (\<lambda>l1. rbind l2 (\<lambda>l2. Ok (dyn_backend (composition_backend sched (configured_composition policy label l1 l2)))))"

section \<open>Backends\<close>

datatype backend_choice =
    MokaBackend "moka_config backend_config"
  | FeOxDbBackend "feoxdb_config backend_config"
  | RedisBackend "redis_store_config backend_config"
  | CompositionOf backend_choice backend_choice composition_policy_config "string option"

text \<open>A trait object hides the type of its store.  Here all backends work on one type of states \<open>'s\<close>, and
  \<open>places\<close> says how a backend of each kind becomes one on it.\<close>

record ('c, 'f, 'r, 's, 'a) places =
  pl_moka :: "('c, 'a) cache_backend \<Rightarrow> ('s, 'a) cache_backend"
  pl_feox :: "('f, 'a) cache_backend \<Rightarrow> ('s, 'a) cache_backend"
  pl_redis :: "('r redis_world, 'a) cache_backend \<Rightarrow> ('s, 'a) cache_backend"
  pl_composition :: "(('s, 's) comp_state, 'a) cache_backend \<Rightarrow> ('s, 'a) cache_backend"

primrec backend_into_backend ::
  "features \<Rightarrow> ('c, 'f, 'r, 'a) backend_libs \<Rightarrow> ('c, 'f, 'r, 's, 'a) places \<Rightarrow> (('s, 's) comp_state \<Rightarrow> schedule)
     \<Rightarrow> backend_choice \<Rightarrow> (('s, 'a) cache_backend, config_error) result" where
  "backend_into_backend F D P sched (MokaBackend config) = rmap (pl_moka P) (moka_into_backend F D config)"
| "backend_into_backend F D P sched (FeOxDbBackend config) = rmap (pl_feox P) (feoxdb_into_backend F D config)"
| "backend_into_backend F D P sched (RedisBackend config) = rmap (pl_redis P) (redis_into_backend F D config)"
| "backend_into_backend F D P sched (CompositionOf l1 l2 policy label) =
     rmap (pl_composition P) (composition_into_backend sched policy label
       (backend_into_backend F D P sched l1) (backend_into_backend F D P sched l2))"

section \<open>What a configuration means\<close>

lemma default_levels: "default_gzip_level = gzip_new" "default_zstd_level = zstd_new"
  by (simp_all add: default_gzip_level_def gzip_new_def default_zstd_level_def zstd_new_def)

lemma default_policy_is_default:
  "composition_with_policy (composition_policy_new) C = configured_composition composition_policy_config_default None l1 l2"
  if "C = composition_new l1 l2"
  using that by (simp add: configured_composition_def composition_policy_config_default_def compose_with_def policy_refill_def
      policy_write_def policy_read_def composition_policy_new_def refill_policy_default_def)

lemma configured_composition_policies:
  "xb_read_policy (configured_composition config label l1 l2) = configured_read (pc_read config)"
  "xb_write_policy (configured_composition config label l1 l2) = configured_write (pc_write config)"
  "xb_refill_policy (configured_composition config label l1 l2)
     = (case pc_refill config of AlwaysRefill \<Rightarrow> RefillAlways | NeverRefill \<Rightarrow> RefillNever)"
  "xb_l1 (configured_composition config label l1 l2) = l1" "xb_l2 (configured_composition config label l1 l2) = l2"
  by (auto simp: configured_composition_def Let_def compose_with_def composition_with_policy_def composition_label_def
      composition_new_def policy_refill_def policy_write_def policy_read_def split: option.split)

text \<open>What a build lacks for a configuration: for every store, in the order of the file, the error of the
  first thing it cannot provide.\<close>

fun stores :: "backend_choice \<Rightarrow> backend_choice list" where
  "stores (CompositionOf l1 l2 policy label) = stores l1 @ stores l2"
| "stores c = [c]"

fun compression_lacking :: "features \<Rightarrow> compression_config \<Rightarrow> string option" where
  "compression_lacking F CompressionDisabled = None"
| "compression_lacking F (CompressionGzip level) =
     (if ft_gzip F then None else Some ''Gzip compression requested but 'gzip' feature is not enabled'')"
| "compression_lacking F (CompressionZstd level) =
     (if ft_zstd F then None else Some ''Zstd compression requested but 'zstd' feature is not enabled'')"

definition opened_path :: "('c, 'f, 'r, 'a) backend_libs \<Rightarrow> string option \<Rightarrow> feox_settings" where
  "opened_path D path =
     \<lparr>fs_device_path = map_option (\<lambda>p. if bl_is_dir D p then bl_push D p ''cache.db'' else p) path,
      fs_file_size = None, fs_max_memory = None, fs_enable_ttl = True\<rparr>"

fun lacking :: "features \<Rightarrow> ('c, 'f, 'r, 'a) backend_libs \<Rightarrow> backend_choice \<Rightarrow> string option" where
  "lacking F D (MokaBackend c) = (if ft_moka F then compression_lacking F (vf_compression (bc_value c)) else Some ''Moka'')"
| "lacking F D (RedisBackend c) = (if ft_redis F then compression_lacking F (vf_compression (bc_value c)) else Some ''Redis'')"
| "lacking F D (FeOxDbBackend c) =
     (if ft_feoxdb F
      then (case compression_lacking F (vf_compression (bc_value c)) of
              Some e \<Rightarrow> Some e
            | None \<Rightarrow> (case bl_feox D (opened_path D (fc_path (bc_backend c))) of Inl e \<Rightarrow> Some (''FeOxDb: '' @ e) | Inr _ \<Rightarrow> None))
      else Some ''FeOxDb'')"
| "lacking F D (CompositionOf l1 l2 policy label) = None"

definition first_lacking :: "string option list \<Rightarrow> (unit, config_error) result" where
  "first_lacking xs =
     (case List.find (\<lambda>x. x \<noteq> None) xs of Some (Some e) \<Rightarrow> Err (BackendNotAvailable e) | _ \<Rightarrow> Ok ())"

lemma find_append: "List.find P (xs @ ys) = (case List.find P xs of Some x \<Rightarrow> Some x | None \<Rightarrow> List.find P ys)"
  by (induction xs) simp_all

lemma find_some: "List.find (\<lambda>x. x \<noteq> None) xs \<noteq> Some None"
  by (induction xs) auto

lemma first_lacking_append: "first_lacking (xs @ ys) = rbind (first_lacking xs) (\<lambda>_. first_lacking ys)"
  using find_some [of xs] by (auto simp: first_lacking_def find_append split: option.split)

lemma compressor_lacking:
  "rmap (\<lambda>_. ()) (to_compressor F D z)
     = (case compression_lacking F z of Some e \<Rightarrow> Err (BackendNotAvailable e) | None \<Rightarrow> Ok ())"
  by (cases z) simp_all

lemma rmap_unit_eq:
  "rmap (\<lambda>_. ()) r = (case x of Some e \<Rightarrow> Err (BackendNotAvailable e) | None \<Rightarrow> Ok ()) \<longleftrightarrow>
     (case x of Some e \<Rightarrow> r = Err (BackendNotAvailable e) | None \<Rightarrow> \<exists>v. r = Ok v)"
  by (cases r; cases x) auto

lemma store_lacking:
  "rmap (\<lambda>_. ()) (moka_into_backend F D c1) = (case lacking F D (MokaBackend c1) of Some e \<Rightarrow> Err (BackendNotAvailable e) | None \<Rightarrow> Ok ())"
  "rmap (\<lambda>_. ()) (redis_into_backend F D c2) = (case lacking F D (RedisBackend c2) of Some e \<Rightarrow> Err (BackendNotAvailable e) | None \<Rightarrow> Ok ())"
  "rmap (\<lambda>_. ()) (feoxdb_into_backend F D c3) = (case lacking F D (FeOxDbBackend c3) of Some e \<Rightarrow> Err (BackendNotAvailable e) | None \<Rightarrow> Ok ())"
proof -
  note missing = compressor_lacking [of F D, unfolded rmap_unit_eq]
  show "rmap (\<lambda>_. ()) (moka_into_backend F D c1) = (case lacking F D (MokaBackend c1) of Some e \<Rightarrow> Err (BackendNotAvailable e) | None \<Rightarrow> Ok ())"
    using missing [of "vf_compression (bc_value c1)"]
    by (cases "compression_lacking F (vf_compression (bc_value c1))") (auto simp: moka_into_backend_def Let_def)
  show "rmap (\<lambda>_. ()) (redis_into_backend F D c2) = (case lacking F D (RedisBackend c2) of Some e \<Rightarrow> Err (BackendNotAvailable e) | None \<Rightarrow> Ok ())"
    using missing [of "vf_compression (bc_value c2)"]
    by (cases "compression_lacking F (vf_compression (bc_value c2))"; cases "rc_label (bc_backend c2)")
      (auto simp: redis_into_backend_def Let_def redis_build_def rb_connection_def rb_set_key_format_def rb_value_format_def
        rb_set_compressor_def rb_set_label_def)
  show "rmap (\<lambda>_. ()) (feoxdb_into_backend F D c3) = (case lacking F D (FeOxDbBackend c3) of Some e \<Rightarrow> Err (BackendNotAvailable e) | None \<Rightarrow> Ok ())"
    using missing [of "vf_compression (bc_value c3)"]
    by (cases "compression_lacking F (vf_compression (bc_value c3))"; cases "fc_path (bc_backend c3)"; cases "fc_label (bc_backend c3)")
      (auto simp: feoxdb_into_backend_def Let_def opened_path_def feox_settings_of_def fb_set_path_def fb_set_label_def
        fb_set_compressor_def fb_value_format_def fb_set_key_format_def feox_builder_default_def split: sum.splits)
qed

lemma first_lacking_single: "first_lacking [x] = (case x of Some e \<Rightarrow> Err (BackendNotAvailable e) | None \<Rightarrow> Ok ())"
  by (simp add: first_lacking_def split: option.split)

lemma rmap_unit_bind:
  "rmap (\<lambda>_. ()) (rbind l1 (\<lambda>a. rbind l2 (\<lambda>b. Ok (f a b)))) = rbind (rmap (\<lambda>_. ()) l1) (\<lambda>_. rmap (\<lambda>_. ()) l2)"
  by (cases l1; cases l2) simp_all

lemma rmap_unit_rmap [simp]: "rmap (\<lambda>_. ()) (rmap f r) = rmap (\<lambda>_. ()) r"
  by (cases r) simp_all

text \<open>C36. A configured backend is built exactly when the build of the crate and the stores provide what
  the configuration names; otherwise the error is that of the first store of the file, from the
  first layer of the outermost composition on, that lacks something: its own feature before its
  compression, its compression before opening it.\<close>

theorem configured_backend_fails_first:
  "rmap (\<lambda>_. ()) (backend_into_backend F D P sched c) = first_lacking (map (lacking F D) (stores c))"
  by (induction c)
    (simp_all add: composition_into_backend_def first_lacking_append rmap_unit_bind store_lacking first_lacking_single
      del: lacking.simps)

section \<open>Configured compositions\<close>

text \<open>C22. Outside the refill mode, a composition from a configuration file stores a value that both layers can serialize, and
  whose envelope fits its length fields, without expiry and without stale
  time, whatever its policies, its label and its layers: it is used as a trait object, so a set
  does what a typed set of the value without times would do.\<close>

theorem configured_composition_drops_times:
  assumes "composition_into_backend sched policy label (Ok l1) (Ok l2) = Ok B" and "ctx_read_mode ctx \<noteq> Refill"
    and "serialize_parts (xb_format (configured_composition policy label l1 l2)) (cv_data v) ctx = Ok (z1, z2)"
    and "envelope_fits (EnvBoth (cache_value_new z1 None None) (cache_value_new z2 None None))"
  shows "kb_set B k v ctx st = composition_set sched (configured_composition policy label l1 l2) k (without_times v) ctx st"
  using conjunct1 [OF composition_behind_trait_object_drops_times [OF assms(2-4), of sched k st]] assms(1)
  by (auto simp: composition_into_backend_def)

lemma boxed_get_from_l2:
  assumes "xb_read_policy C = SequentialRead" and "be_read (xb_l1 C) k s1 = (Ok None, s1')"
    and "be_read (xb_l2 C) k s2 = (Ok (Some u), s2')" and "envelope_fits (EnvL2 u)"
    and "deserialize_layer (xb_format C) (cv_data u) L2 ctx = (Ok (Some d), c)"
  shows "kb_get (dyn_backend (composition_backend sched C)) k ctx \<lparr>co_layers = \<lparr>ly_l1 = s1, ly_l2 = s2\<rparr>, co_tasks = ts\<rparr> =
    ((Ok (Some (cache_value_new d (cv_expire u) (cv_stale u))),
      CompositionCtx (ctx_set_source (SrcBackend (xb_label C)) (ctx_set_status Hit c)) L2 (xf_labels (xb_format C))),
     \<lparr>co_layers = \<lparr>ly_l1 = s1', ly_l2 = s2'\<rparr>, co_tasks = ts\<rparr>)"
proof -
  obtain b where b: "envelope_serialize (EnvL2 u) = Ok b" by simp
  have env: "read_envelope b = Ok (EnvL2 (kept u u))" using read_envelope_serialize [OF assms(4) b] by simp
  have data: "cv_data (kept u u) = cv_data u" by (simp add: kept_def cache_value_new_def)
  let ?st = "\<lparr>co_layers = \<lparr>ly_l1 = s1, ly_l2 = s2\<rparr>, co_tasks = ts\<rparr>"
  have raw: "composition_raw_read sched C k ?st = (Ok (Some (cache_value_new b (cv_expire u) (cv_stale u))),
      \<lparr>co_layers = \<lparr>ly_l1 = s1', ly_l2 = s2'\<rparr>, co_tasks = ts\<rparr>)"
    using b assms(1-3)
    by (simp add: composition_raw_read_def with_tasks_def read_execute_def sequential_read_def on_l1_def on_l2_def
        read_with_envelope_def del: envelope_serialize.simps)
  have de: "composition_with_deserializer (xb_format C) b ctx = (Ok (Some d), upgrade_context L2 (xf_labels (xb_format C)) c)"
    using assms(5) by (auto simp: composition_with_deserializer_def env data deserialize_layer_def layer_codec_def split: sum.splits)
  show ?thesis
    by (simp add: dyn_backend_def cache_get_def raw into_parts_def cache_value_new_def cache_meta_new_def passthrough_compressor_def
        composition_as_format_def de cache_set_def Let_def upgrade_context_def should_refill_def)
      (simp add: composition_backend_def)
qed

text \<open>A composition from a configuration file never refills its first layer, even with the refill
  policy \<open>Always\<close>: a get that misses the first layer and finds its value in the second returns it and
  leaves the first layer as the read left it, and the set that follows in the context of that get,
  which is in refill mode, does nothing.\<close>

lemma configured_composition_never_refills:
  assumes "composition_into_backend sched policy label (Ok l1) (Ok l2) = Ok B" and "pc_read policy = ReadSequential"
    and "be_read l1 k s1 = (Ok None, s1')" and "be_read l2 k s2 = (Ok (Some u), s2')" and "envelope_fits (EnvL2 u)"
    and "deserialize_layer (xb_format (configured_composition policy label l1 l2)) (cv_data u) L2 ctx = (Ok (Some d), c)"
  shows "\<exists>ctx'. kb_get B k ctx \<lparr>co_layers = \<lparr>ly_l1 = s1, ly_l2 = s2\<rparr>, co_tasks = ts\<rparr>
      = ((Ok (Some (cache_value_new d (cv_expire u) (cv_stale u))), ctx'), \<lparr>co_layers = \<lparr>ly_l1 = s1', ly_l2 = s2'\<rparr>, co_tasks = ts\<rparr>)
    \<and> ctx_read_mode ctx' = Refill \<and> kb_set B k v ctx' st = ((Ok (), ctx'), st)"
proof -
  let ?C = "configured_composition policy label l1 l2"
  have B: "B = dyn_backend (composition_backend sched ?C)"
    using assms(1) by (simp add: composition_into_backend_def)
  have C: "xb_read_policy ?C = SequentialRead" "xb_l1 ?C = l1" "xb_l2 ?C = l2"
    by (simp_all add: configured_composition_policies assms(2))
  show ?thesis
    using boxed_get_from_l2 [where C = ?C, unfolded C(2,3), OF C(1) assms(3-6)]
    by (simp add: B) (simp add: dyn_backend_def cache_set_def should_refill_def)
qed

section \<open>A configuration to run\<close>

definition demo_backend_libs :: "(ref_moka, ref_feox, ref_redis, nat) backend_libs" where
  "demo_backend_libs =
     \<lparr>bl_json = nat_serde, bl_bincode = nat_serde, bl_rkyv = nat_serde,
      bl_gzip = \<lparr>cl_encode = (\<lambda>level d. Ok d), cl_decode = Ok\<rparr>, bl_zstd = \<lparr>cl_encode = (\<lambda>level d. Ok d), cl_decode = Ok\<rparr>,
      bl_moka = (\<lambda>s. ref_moka_ops), bl_feox = (\<lambda>s. Ok ref_feox_ops), bl_feox_codec = demo_feox_codec,
      bl_is_dir = (\<lambda>p. False), bl_push = (@), bl_redis = ref_redis_ops, bl_columns = unary_columns, bl_url = letter_encoding\<rparr>"

definition demo_features :: features where
  "demo_features = \<lparr>ft_gzip = True, ft_zstd = False, ft_moka = True, ft_feoxdb = False, ft_redis = True\<rparr>"

definition demo_store_config :: "value_serialization \<Rightarrow> 't \<Rightarrow> 't backend_config" where
  "demo_store_config format backend =
     \<lparr>bc_key = \<lparr>kf_format = KeyBitcode\<rparr>, bc_value = \<lparr>vf_format = format, vf_compression = compression_default\<rparr>, bc_backend = backend\<rparr>"

definition demo_l1 :: "((ref_moka, nat) cache_backend, config_error) result" where
  "demo_l1 = moka_into_backend demo_features demo_backend_libs (demo_store_config ValueJson \<lparr>mc_max_capacity = 100, mc_label = None\<rparr>)"

definition demo_l2 :: "((ref_redis redis_world, nat) cache_backend, config_error) result" where
  "demo_l2 = redis_into_backend demo_features demo_backend_libs
     (demo_store_config ValueBincode \<lparr>rc_connection_string = ''redis://localhost:6379/'', rc_label = None\<rparr>)"

definition demo_refill_policy :: composition_policy_config where
  "demo_refill_policy = composition_policy_config_default\<lparr>pc_refill := AlwaysRefill\<rparr>"

lemma demo_layers_configured:
  "demo_l1 = Ok demo_moka" "demo_l2 = Ok (redis_backend unary_columns letter_encoding ref_redis_ops demo_redis_config)"
  by (simp_all add: demo_l1_def demo_l2_def demo_store_config_def demo_features_def demo_backend_libs_def compression_default_def
      moka_into_backend_def redis_into_backend_def redis_build_def rb_connection_def rb_set_key_format_def rb_value_format_def
      rb_set_compressor_def redis_builder_default_def mb_set_key_format_def mb_value_format_def mb_set_compressor_def
      mb_max_entries_def moka_builder_new_def demo_moka_def demo_redis_config_def moka_settings_of_def Let_def)

lemma demo_tiers_configured:
  "configured_composition demo_refill_policy None demo_moka (redis_backend unary_columns letter_encoding ref_redis_ops demo_redis_config)
     = demo_tiers (policy_refill RefillAlways composition_policy_new)"
  by (simp add: configured_composition_def demo_refill_policy_def composition_policy_config_default_def demo_tiers_def
      demo_moka_def policy_refill_def policy_read_def policy_write_def composition_policy_new_def Let_def)

lemma configured_composition_drops_times_witness:
  "let k = cache_key_from_str ''a'' ''b''; v = cache_value_new (7::nat) (Some 60000000000) None in
   \<exists>B. composition_into_backend demo_sched demo_refill_policy None demo_l1 demo_l2 = Ok B
     \<and> rm_held (ly_l1 (co_layers (snd (kb_set B k v (boxed cache_context_default) demo_empty)))) k
        = Some (cache_value_new [55] None None, None)"
proof -
  let ?C = "demo_tiers (policy_refill RefillAlways composition_policy_new)" and ?k = "cache_key_from_str ''a'' ''b''"
  let ?v = "cache_value_new (7::nat) (Some 60000000000) None" and ?ctx = "boxed cache_context_default"
  let ?l2 = "redis_backend unary_columns letter_encoding ref_redis_ops demo_redis_config"
  obtain B where B: "composition_into_backend demo_sched demo_refill_policy None (Ok demo_moka) (Ok ?l2) = Ok B"
    by (simp add: composition_into_backend_def)
  have m: "ctx_read_mode ?ctx \<noteq> Refill" by simp
  have ser: "serialize_parts (xb_format ?C) (cv_data ?v) ?ctx = Ok ([55], [55])"
    by (simp add: demo_run policy_refill_def show_nat.simps bytes_of_str_def digit_char_def)
  have fits: "envelope_fits (EnvBoth (cache_value_new [55] None None) (cache_value_new [55] None None))"
    by (simp add: cache_value_new_def stamp_ok_def)
  have t: "without_times ?v = cache_value_new 7 None None" by (simp add: without_times_def cache_value_new_def)
  have "kb_set B ?k ?v ?ctx demo_empty = composition_set demo_sched ?C ?k (cache_value_new 7 None None) ?ctx demo_empty"
    using configured_composition_drops_times [OF B m, unfolded demo_tiers_configured, OF ser fits, of ?k demo_empty] t by simp
  moreover have "rm_held (ly_l1 (co_layers (snd (composition_set demo_sched ?C ?k (cache_value_new 7 None None) ?ctx demo_empty)))) ?k
        = Some (cache_value_new [55] None None, None)"
    by (simp add: composition_set_normal demo_run policy_refill_def demo_empty_def demo_sched_def optimistic_parallel_write_def
        join_both_def show_nat.simps bytes_of_str_def digit_char_def)
  ultimately show ?thesis using B by (simp add: demo_layers_configured)
qed

lemma configured_composition_never_refills_witness:
  "let k = cache_key_from_str ''a'' ''b''; v = cache_value_new (7::nat) None None in
   \<exists>B s2 ctx' st'. composition_into_backend demo_sched demo_refill_policy None demo_l1 demo_l2 = Ok B
     \<and> kb_get B k (boxed cache_context_default) (demo_empty\<lparr>co_layers := (co_layers demo_empty)\<lparr>ly_l2 := s2\<rparr>\<rparr>) = ((Ok (Some v), ctx'), st')
     \<and> rm_held (ly_l1 (co_layers (snd (kb_set B k v ctx' st')))) k = None"
proof -
  let ?C = "demo_tiers (policy_refill RefillAlways composition_policy_new)" and ?k = "cache_key_from_str ''a'' ''b''"
  let ?l2 = "redis_backend unary_columns letter_encoding ref_redis_ops demo_redis_config" and ?u = "cache_value_new [55 :: byte] None None"
  let ?s1 = "ly_l1 (co_layers demo_empty)" and ?ctx = "boxed cache_context_default" and ?v = "cache_value_new (7::nat) None None"
  let ?s2 = "snd (be_write ?l2 ?k ?u (ly_l2 (co_layers demo_empty)))"
  let ?st = "demo_empty\<lparr>co_layers := (co_layers demo_empty)\<lparr>ly_l2 := ?s2\<rparr>\<rparr>"
  obtain B where B: "composition_into_backend demo_sched demo_refill_policy None (Ok demo_moka) (Ok ?l2) = Ok B"
    by (simp add: composition_into_backend_def)
  have p: "pc_read demo_refill_policy = ReadSequential" by (simp add: demo_refill_policy_def composition_policy_config_default_def)
  have r1: "be_read demo_moka ?k ?s1 = (Ok None, ?s1)" by (simp add: demo_moka_def moka_read_def ref_moka_ops_def demo_empty_def)
  have r2: "be_read ?l2 ?k ?s2 = (Ok (Some ?u), ?s2)" by (simp add: demo_run demo_empty_def)
  have fits: "envelope_fits (EnvL2 ?u)" by (simp add: cache_value_new_def stamp_ok_def)
  have de: "deserialize_layer (xb_format ?C) (cv_data ?u) L2 ?ctx = (Ok (Some 7), ?ctx)"
    using read_nat_show_nat [of 7]
    by (simp add: demo_run policy_refill_def str_of_bytes_def show_nat.simps digit_char_def)
  have st: "?st = \<lparr>co_layers = \<lparr>ly_l1 = ?s1, ly_l2 = ?s2\<rparr>, co_tasks = []\<rparr>" by (simp add: demo_empty_def)
  have v: "cache_value_new 7 (cv_expire ?u) (cv_stale ?u) = ?v" by (simp add: cache_value_new_def)
  obtain ctx' where g: "kb_get B ?k ?ctx ?st = ((Ok (Some ?v), ctx'), ?st)" and s: "kb_set B ?k ?v ctx' ?st = ((Ok (), ctx'), ?st)"
    using configured_composition_never_refills [OF B p r1 r2 fits, unfolded demo_tiers_configured, OF de, where ts = "[]" and st = ?st and v = ?v]
    unfolding st v by blast
  have h: "rm_held (ly_l1 (co_layers ?st)) ?k = None" by (simp add: demo_empty_def)
  show ?thesis
    unfolding Let_def demo_layers_configured using B g s h by (metis snd_conv)
qed

end
