(* ===== verification/Fsm_Spans.thy ===== *)
theory Fsm_Spans
  imports Fsm_Progress
begin

text \<open>
  The tracing of a cache future (hitbox/src/fsm/states.rs, transitions.rs, future.rs): a root span for
  the request, a span for every state it enters, and the fields its transitions record; and the test
  crate's collector of spans (hitbox-test/src/tracing.rs).  Spans are numbered as they are opened.
\<close>

section \<open>Captured spans\<close>

type_synonym span_fields = "(string \<times> string) list"

record captured_span =
  sp_id :: nat
  sp_parent :: "nat option"
  sp_name :: string
  sp_target :: string
  sp_fields :: span_fields

text \<open>The spans captured so far, the number of the next span, and the span the thread is in.\<close>

record span_collector =
  sc_spans :: "captured_span list"
  sc_next :: nat
  sc_current :: "nat option"

definition create_span_collector :: span_collector where
  "create_span_collector = \<lparr>sc_spans = [], sc_next = 0, sc_current = None\<rparr>"

definition starts_with :: "string \<Rightarrow> string \<Rightarrow> bool" where
  "starts_with p s \<longleftrightarrow> take (length p) s = p"

definition strip_prefix :: "string \<Rightarrow> string \<Rightarrow> string option" where
  "strip_prefix p s = (if starts_with p s then Some (drop (length p) s) else None)"

text \<open>Only the spans of the state machine and of requests are captured.  A span without an explicit
  parent is a child of the span the thread is in.\<close>

definition captured_name :: "string \<Rightarrow> bool" where
  "captured_name name \<longleftrightarrow> starts_with ''fsm.'' name \<or> starts_with ''hitbox.'' name"

definition on_new_span ::
  "string \<Rightarrow> string \<Rightarrow> span_fields \<Rightarrow> nat option \<Rightarrow> span_collector \<Rightarrow> nat \<times> span_collector" where
  "on_new_span target name kvs parent C =
     (sc_next C,
      C\<lparr>sc_next := Suc (sc_next C),
        sc_spans := (if captured_name name
          then sc_spans C @ [\<lparr>sp_id = sc_next C, sp_parent = (case parent of Some p \<Rightarrow> Some p | None \<Rightarrow> sc_current C),
                              sp_name = name, sp_target = target, sp_fields = kvs\<rparr>]
          else sc_spans C)\<rparr>)"

fun record_field :: "string \<times> string \<Rightarrow> span_fields \<Rightarrow> span_fields" where
  "record_field kv [] = [kv]"
| "record_field kv (f # fs) = (if fst f = fst kv then (fst f, snd kv) # fs else f # record_field kv fs)"

fun update_span :: "nat \<Rightarrow> span_fields \<Rightarrow> captured_span list \<Rightarrow> captured_span list" where
  "update_span i kvs [] = []"
| "update_span i kvs (s # ss) =
     (if sp_id s = i then s\<lparr>sp_fields := fold record_field kvs (sp_fields s)\<rparr> # ss else s # update_span i kvs ss)"

definition on_record :: "nat \<Rightarrow> span_fields \<Rightarrow> span_collector \<Rightarrow> span_collector" where
  "on_record i kvs C = C\<lparr>sc_spans := update_span i kvs (sc_spans C)\<rparr>"

subsection \<open>Queries\<close>

definition span_names :: "span_collector \<Rightarrow> string list" where
  "span_names C = map sp_name (sc_spans C)"

definition fsm_states :: "span_collector \<Rightarrow> string list" where
  "fsm_states C = List.map_filter (\<lambda>s. strip_prefix ''fsm.'' (sp_name s)) (sc_spans C)"

text \<open>The depth of the recursion is the depth of the tree of spans, at most their number.\<close>

fun collect_descendants :: "nat \<Rightarrow> captured_span list \<Rightarrow> nat \<Rightarrow> captured_span list" where
  "collect_descendants 0 all_spans parent_id = []"
| "collect_descendants (Suc n) all_spans parent_id =
     concat (map (\<lambda>s. if sp_parent s = Some parent_id
                      then (if starts_with ''fsm.'' (sp_name s) then [s] else []) @ collect_descendants n all_spans (sp_id s)
                      else []) all_spans)"

definition fsm_states_per_request :: "span_collector \<Rightarrow> captured_span list list" where
  "fsm_states_per_request C =
     map (\<lambda>root. collect_descendants (length (sc_spans C)) (sc_spans C) (sp_id root))
       (filter (\<lambda>s. sp_name s = ''hitbox.cache'') (sc_spans C))"

definition has_span :: "string \<Rightarrow> span_collector \<Rightarrow> bool" where
  "has_span name C \<longleftrightarrow> list_ex (\<lambda>s. sp_name s = name) (sc_spans C)"

definition get_span :: "string \<Rightarrow> span_collector \<Rightarrow> captured_span option" where
  "get_span name C = List.find (\<lambda>s. sp_name s = name) (rev (sc_spans C))"

definition get_field :: "string \<Rightarrow> string \<Rightarrow> span_collector \<Rightarrow> string option" where
  "get_field span field C = Option.bind (get_span span C) (\<lambda>s. map_of (sp_fields s) field)"

definition collector_clear :: "span_collector \<Rightarrow> span_collector" where
  "collector_clear C = C\<lparr>sc_spans := []\<rparr>"

text \<open>\<open>assert_span_sequence\<close>: the expected names occur in this order, other spans between them.\<close>

fun span_sequence :: "string list \<Rightarrow> string list \<Rightarrow> bool" where
  "span_sequence [] names = True"
| "span_sequence (e # es) [] = False"
| "span_sequence (e # es) (n # ns) = (if n = e then span_sequence es ns else span_sequence (e # es) ns)"

definition assert_span_sequence :: "string list \<Rightarrow> span_collector \<Rightarrow> bool" where
  "assert_span_sequence expected C = span_sequence expected (span_names C)"

definition assert_has_spans :: "string list \<Rightarrow> span_collector \<Rightarrow> bool" where
  "assert_has_spans expected C = list_all (\<lambda>name. has_span name C) expected"

section \<open>The spans of the states\<close>

definition show_bool :: "bool \<Rightarrow> string" where
  "show_bool b = (if b then ''true'' else ''false'')"

definition optional_key :: "cache_key option \<Rightarrow> string" where
  "optional_key k = (case k of Some key \<Rightarrow> cache_key_display key | None \<Rightarrow> '''')"

definition states_target :: string where
  "states_target = ''hitbox::fsm::states''"

type_synonym state_span = "string \<times> span_fields"

definition initial_span :: state_span where
  "initial_span = (''fsm.Initial'', [])"

definition check_request_span :: state_span where
  "check_request_span = (''fsm.CheckRequestCachePolicy'', [])"

definition poll_cache_span :: "cache_key \<Rightarrow> state_span" where
  "poll_cache_span key = (''fsm.PollCache'', [(''cache.key'', cache_key_display key)])"

definition convert_response_span :: "cache_key \<Rightarrow> state_span" where
  "convert_response_span key = (''fsm.ConvertResponse'', [(''cache.key'', cache_key_display key)])"

definition handle_stale_span :: "cache_key \<Rightarrow> state_span" where
  "handle_stale_span key = (''fsm.HandleStale'', [(''cache.key'', cache_key_display key)])"

definition await_response_span :: "cache_key \<Rightarrow> state_span" where
  "await_response_span key = (''fsm.AwaitResponse'', [(''cache.key'', cache_key_display key)])"

definition poll_upstream_span :: "nat option \<Rightarrow> cache_key option \<Rightarrow> state_span" where
  "poll_upstream_span permit key =
     (''fsm.PollUpstream'', [(''cache.key'', optional_key key), (''concurrency.permit'', show_bool (permit \<noteq> None))])"

definition check_response_span :: "nat option \<Rightarrow> cache_key \<Rightarrow> state_span" where
  "check_response_span permit key =
     (''fsm.CheckResponseCachePolicy'',
      [(''cache.key'', cache_key_display key), (''concurrency.permit'', show_bool (permit \<noteq> None))])"

definition update_cache_span :: state_span where
  "update_cache_span = (''fsm.UpdateCache'', [])"

definition response_span :: state_span where
  "response_span = (''fsm.Response'', [])"

lemmas state_span_defs = initial_span_def check_request_span_def poll_cache_span_def convert_response_span_def
  handle_stale_span_def await_response_span_def poll_upstream_span_def check_response_span_def update_cache_span_def
  response_span_def

text \<open>The span that \<open>into_state\<close> opens for the state it makes.\<close>

fun state_span_of :: "('req, 'res, 'rp, 'c, 'rx) state \<Rightarrow> state_span" where
  "state_span_of (Initial st) = initial_span"
| "state_span_of (CheckRequestCachePolicy fut st) = check_request_span"
| "state_span_of (PollCache fut st) = poll_cache_span (pc_cache_key (the st))"
| "state_span_of (ConvertResponse fut st) = convert_response_span (cr_cache_key (the st))"
| "state_span_of (HandleStale fut st) = handle_stale_span (hs_cache_key (the st))"
| "state_span_of (AwaitResponse fut st) = await_response_span (ar_cache_key (the st))"
| "state_span_of (PollUpstream fut st) = poll_upstream_span (pu_permit (the st)) (pu_cache_key (the st))"
| "state_span_of (CheckResponseCachePolicy fut st) = check_response_span (cs_permit (the st)) (cs_cache_key (the st))"
| "state_span_of (UpdateCache fut st) = update_cache_span"
| "state_span_of (Response st) = response_span"

definition open_state :: "nat \<Rightarrow> state_span \<Rightarrow> span_collector \<Rightarrow> nat \<times> span_collector" where
  "open_state root s C = on_new_span states_target (fst s) (snd s) (Some root) C"

section \<open>What the transitions record\<close>

definition is_cacheable_policy :: "('a, 'b) cache_policy \<Rightarrow> bool" where
  "is_cacheable_policy p = (case p of Cacheable _ \<Rightarrow> True | NonCacheable _ \<Rightarrow> False)"

definition decision_str :: "'rx decision \<Rightarrow> string" where
  "decision_str d = (case d of Proceed _ \<Rightarrow> ''proceed'' | ProceedWithoutPermit \<Rightarrow> ''proceed_without_permit'' | Await _ _ \<Rightarrow> ''await'')"

definition upstream_fields ::
  "('req, 'c, 'rx, 'w, 'z) fsm_ops_scheme \<Rightarrow> policy_config \<Rightarrow> 'req poll_cache \<Rightarrow> 'w \<Rightarrow> span_fields" where
  "upstream_fields E policy self w =
     (case (case policy of Enabled cfg \<Rightarrow> ec_concurrency cfg | Disabled \<Rightarrow> None) of
        Some concurrency \<Rightarrow> [(''concurrency.decision'', decision_str (fst (fo_check E (pc_cache_key self) concurrency w)))]
      | None \<Rightarrow> [(''concurrency.decision'', ''disabled'')])"

definition poll_cache_fields ::
  "('req, 'c, 'rx, 'w, 'z) fsm_ops_scheme \<Rightarrow> policy_config \<Rightarrow> 'c cache_result \<Rightarrow> 'req poll_cache \<Rightarrow> 'w \<Rightarrow> span_fields" where
  "poll_cache_fields E policy cache_result self w =
     (case (case cache_result of Inr cached \<Rightarrow> cached | Inl _ \<Rightarrow> None) of
        Some v \<Rightarrow>
          (case cache_state_of (fo_now E w) v of
             Expired _ \<Rightarrow> upstream_fields E policy self w
           | _ \<Rightarrow> [])
      | None \<Rightarrow> upstream_fields E policy self w)"

definition stale_policy_str :: "stale_policy \<Rightarrow> string" where
  "stale_policy_str p = (case p of ReturnStale \<Rightarrow> ''return'' | Revalidate \<Rightarrow> ''revalidate'' | OffloadRevalidate \<Rightarrow> ''offload'')"

text \<open>The fields a turn records in the span of the state it leaves.\<close>

definition turn_fields ::
  "('req, 'c, 'rx, 'w, 'res, 'rp) fsm_env \<Rightarrow> ('req, 'res, 'rp, 'c, 'rx) cache_future \<Rightarrow> 'w \<Rightarrow> span_fields" where
  "turn_fields E f w =
     (case cf_state f of
        CheckRequestCachePolicy fut (Some st) \<Rightarrow>
          (case fst (fe_req_policy E fut w) of
             Some policy \<Rightarrow> [(''cache.cacheable'', show_bool (is_cacheable_policy policy))] | None \<Rightarrow> [])
      | PollCache fut (Some st) \<Rightarrow>
          (case fe_get E (fst fut) (snd fut) w of
             (Some (cache_result, ctx), w') \<Rightarrow> poll_cache_fields E (cf_policy f) cache_result st w' | (None, w') \<Rightarrow> [])
      | HandleStale fut (Some st) \<Rightarrow> [(''stale.policy'', stale_policy_str (policy_stale (cf_policy f)))]
      | CheckResponseCachePolicy fut (Some st) \<Rightarrow>
          (case fst (fe_res_policy E fut w) of
             Some policy \<Rightarrow> [(''cache.cacheable'', show_bool (is_cacheable_policy policy))] | None \<Rightarrow> [])
      | _ \<Rightarrow> [])"

section \<open>A cache future with its spans\<close>

record ('req, 'res, 'rp, 'c, 'rx) spanned_future =
  sn_future :: "('req, 'res, 'rp, 'c, 'rx) cache_future"
  sn_root :: nat
  sn_span :: nat

definition future_target :: string where
  "future_target = ''hitbox::fsm::future''"

definition spanned_new ::
  "'req \<Rightarrow> 'req async_predicate \<Rightarrow> 'rp \<Rightarrow> 'req extractor \<Rightarrow> policy_config \<Rightarrow> span_collector
   \<Rightarrow> ('req, 'res, 'rp, 'c, 'rx) spanned_future \<times> span_collector" where
  "spanned_new request p rp x policy C =
     (case on_new_span future_target ''hitbox.cache'' [] None C of
        (root, C) \<Rightarrow>
          (case open_state root initial_span C of
             (i, C) \<Rightarrow> (\<lparr>sn_future = cache_future_new request p rp x policy, sn_root = root, sn_span = i\<rparr>, C)))"

definition revalidation_spans :: "cache_key \<Rightarrow> span_collector \<Rightarrow> (nat \<times> nat) \<times> span_collector" where
  "revalidation_spans key C =
     (case on_new_span future_target ''hitbox.cache.revalidate'' [] None C of
        (root, C) \<Rightarrow> (case open_state root (poll_upstream_span None (Some key)) C of (i, C) \<Rightarrow> ((root, i), C)))"

definition spanned_revalidate ::
  "('req, 'c, 'rx, 'w, 'z) fsm_ops_scheme \<Rightarrow> cache_key \<Rightarrow> 'req \<Rightarrow> 'rp \<Rightarrow> policy_config \<Rightarrow> 'w \<times> span_collector
   \<Rightarrow> ('req, 'res, 'rp, 'c, 'rx) spanned_future \<times> ('w \<times> span_collector)" where
  "spanned_revalidate E key request rp policy w =
     (case cache_future_revalidate E key request rp policy (fst w) of
        (f, w') \<Rightarrow>
          (case revalidation_spans key (snd w) of
             ((root, i), C) \<Rightarrow> (\<lparr>sn_future = f, sn_root = root, sn_span = i\<rparr>, (w', C))))"

text \<open>A stale hit that is refreshed in the background makes the revalidation, which opens its spans.\<close>

definition spawned_revalidation ::
  "('req, 'c, 'rx, 'w, 'res, 'rp) fsm_env \<Rightarrow> ('req, 'res, 'rp, 'c, 'rx) cache_future \<Rightarrow> 'w \<Rightarrow> span_collector
   \<Rightarrow> ('req, 'res, 'rp, 'c, 'rx) spanned_future option \<times> span_collector" where
  "spawned_revalidation E f w C =
     (case (cf_state f, cf_response_predicates f) of
        (HandleStale fut (Some st), Some rp) \<Rightarrow>
          if policy_stale (cf_policy f) = OffloadRevalidate
          then (case spanned_revalidate E (hs_cache_key st) (hs_request st) rp (cf_policy f)
                       (snd (fe_from_cached E (fst fut) w), C) of
                  (h, (w', C)) \<Rightarrow> (Some h, C))
          else (None, C)
      | _ \<Rightarrow> (None, C))"

definition spanned_turn ::
  "('req, 'c, 'rx, 'w, 'res, 'rp) fsm_env \<Rightarrow> ('req, 'res, 'rp, 'c, 'rx) spanned_future \<Rightarrow> 'w \<times> span_collector
   \<Rightarrow> (('req, 'res, 'rp, 'c, 'rx) spanned_future, 'res \<times> cache_context) turn \<times> ('w \<times> span_collector)" where
  "spanned_turn E g w =
     (case fsm_turn E (sn_future g) (fst w) of
        (Panicked, w') \<Rightarrow> (Panicked, (w', snd w))
      | (Pending f, w') \<Rightarrow> (Pending (g\<lparr>sn_future := f\<rparr>), (w', snd w))
      | (Moved f, w') \<Rightarrow>
          (case open_state (sn_root g) (state_span_of (cf_state f))
                  (snd (spawned_revalidation E (sn_future g) (fst w)
                     (on_record (sn_span g) (turn_fields E (sn_future g) (fst w)) (snd w)))) of
             (i, C) \<Rightarrow> (Moved (g\<lparr>sn_future := f, sn_span := i\<rparr>), (w', C)))
      | (Ready f out, w') \<Rightarrow>
          (Ready (g\<lparr>sn_future := f\<rparr>) out,
           (w', on_record (sn_span g)
                  [(''cache.status'', cache_status_str (cc_status (snd out))),
                   (''cache.source'', response_source_str (cc_source (snd out)))] (snd w))))"

lemma spanned_turn_Moved:
  "spanned_turn E g w = (Moved g', w') \<Longrightarrow>
     fsm_turn E (sn_future g) (fst w) = (Moved (sn_future g'), fst w') \<and> sn_root g' = sn_root g"
  by (auto simp: spanned_turn_def split: turn.splits prod.splits)

function spanned_poll ::
  "('req, 'c, 'rx, 'w, 'res, 'rp) fsm_env \<Rightarrow> ('req, 'res, 'rp, 'c, 'rx) spanned_future \<Rightarrow> 'w \<times> span_collector
   \<Rightarrow> (('req, 'res, 'rp, 'c, 'rx) spanned_future, 'res \<times> cache_context) turn \<times> ('w \<times> span_collector)" where
  "spanned_poll E g w = (case spanned_turn E g w of (Moved g', w') \<Rightarrow> spanned_poll E g' w' | r \<Rightarrow> r)"
  by pat_completeness auto
termination
  by (relation "measure (\<lambda>(E, g, w). rank (cf_state (sn_future g)))")
    (auto dest: spanned_turn_Moved [OF sym] fsm_turn_rank)

declare spanned_poll.simps [simp del]

text \<open>The spans that a poll leaves behind, as they are when they are left.\<close>

definition closed_span ::
  "('req, 'c, 'rx, 'w, 'res, 'rp) fsm_env \<Rightarrow> ('req, 'res, 'rp, 'c, 'rx) cache_future \<Rightarrow> 'w \<Rightarrow> state_span" where
  "closed_span E f w = map_prod id (fold record_field (turn_fields E f w)) (state_span_of (cf_state f))"

definition answered_span :: "('req, 'res, 'rp, 'c, 'rx) cache_future \<Rightarrow> cache_context \<Rightarrow> state_span" where
  "answered_span f ctx =
     map_prod id (fold record_field [(''cache.status'', cache_status_str (cc_status ctx)),
                                     (''cache.source'', response_source_str (cc_source ctx))]) (state_span_of (cf_state f))"

function poll_log ::
  "('req, 'c, 'rx, 'w, 'res, 'rp) fsm_env \<Rightarrow> ('req, 'res, 'rp, 'c, 'rx) cache_future \<Rightarrow> 'w \<Rightarrow> state_span list" where
  "poll_log E f w =
     (case fsm_turn E f w of
        (Moved f', w') \<Rightarrow> closed_span E f w # poll_log E f' w'
      | (Ready f' out, w') \<Rightarrow> [answered_span f (snd out)]
      | (Pending f', w') \<Rightarrow> [state_span_of (cf_state f)]
      | (Panicked, w') \<Rightarrow> [])"
  by pat_completeness auto
termination
  by (relation "measure (\<lambda>(E, f, w). rank (cf_state f))") (auto dest: fsm_turn_rank [OF sym])

declare poll_log.simps [simp del]

section \<open>Tracing is beside the future\<close>

definition unspanned_turn ::
  "(('req, 'res, 'rp, 'c, 'rx) spanned_future, 'out) turn \<Rightarrow> (('req, 'res, 'rp, 'c, 'rx) cache_future, 'out) turn" where
  "unspanned_turn t = (case t of Panicked \<Rightarrow> Panicked | Pending g \<Rightarrow> Pending (sn_future g) | Moved g \<Rightarrow> Moved (sn_future g)
                       | Ready g out \<Rightarrow> Ready (sn_future g) out)"

lemma spanned_turn_erased: "map_prod unspanned_turn fst (spanned_turn E g w) = fsm_turn E (sn_future g) (fst w)"
  by (auto simp: spanned_turn_def unspanned_turn_def split: turn.split prod.split)

lemma spanned_poll_erased: "map_prod unspanned_turn fst (spanned_poll E g w) = fsm_poll E (sn_future g) (fst w)"
proof (induction E g w rule: spanned_poll.induct)
  case (1 E g w)
  obtain t w' where t: "spanned_turn E g w = (t, w')" by (metis surj_pair)
  then have f: "fsm_turn E (sn_future g) (fst w) = (unspanned_turn t, fst w')"
    using spanned_turn_erased [of E g w] by simp
  show ?case
    by (subst spanned_poll.simps, subst fsm_poll.simps)
      (use t f 1 in \<open>cases t; simp add: unspanned_turn_def [of "Panicked"] unspanned_turn_def [of "Moved _"]
        unspanned_turn_def [of "Pending _"] unspanned_turn_def [of "Ready _ _"]\<close>)
qed

section \<open>The spans of a request\<close>

text \<open>Span ids are handed out in order and never reused here; a registry may give the id of a closed span to a new
  one, and the spans of two requests that share an id in turn would then be told apart by their order only.\<close>

definition own_spans :: "nat \<Rightarrow> span_collector \<Rightarrow> captured_span list" where
  "own_spans root C = filter (\<lambda>s. sp_parent s = Some root \<and> starts_with ''fsm.'' (sp_name s)) (sc_spans C)"

definition lookup_path :: "string list" where
  "lookup_path = [''fsm.Initial'', ''fsm.CheckRequestCachePolicy'', ''fsm.PollCache'']"

text \<open>The ways into an upstream call under a key: a miss, a stale hit, a failed wait, a revalidation.\<close>

definition fetch_paths :: "string list list" where
  "fetch_paths =
     [lookup_path @ [''fsm.PollUpstream''], lookup_path @ [''fsm.HandleStale'', ''fsm.PollUpstream''],
      lookup_path @ [''fsm.AwaitResponse'', ''fsm.PollUpstream''], [''fsm.PollUpstream'']]"

definition bypass_paths :: "string list list" where
  "bypass_paths = [[''fsm.Initial'', ''fsm.PollUpstream''], [''fsm.Initial'', ''fsm.CheckRequestCachePolicy'', ''fsm.PollUpstream'']]"

definition judged_paths :: "string list list" where
  "judged_paths = map (\<lambda>p. p @ [''fsm.CheckResponseCachePolicy'']) fetch_paths"

definition stored_paths :: "string list list" where
  "stored_paths = (lookup_path @ [''fsm.UpdateCache'']) # map (\<lambda>p. p @ [''fsm.UpdateCache'']) judged_paths"

definition answer_paths :: "string list list" where
  "answer_paths = bypass_paths @ judged_paths @ stored_paths
     @ [lookup_path @ [''fsm.ConvertResponse''], lookup_path @ [''fsm.HandleStale''], lookup_path @ [''fsm.AwaitResponse'']]"

definition complete_paths :: "string list list" where
  "complete_paths = map (\<lambda>p. p @ [''fsm.Response'']) answer_paths"

fun paths_into :: "('req, 'res, 'rp, 'c, 'rx) state \<Rightarrow> string list list" where
  "paths_into (Initial st) = [[''fsm.Initial'']]"
| "paths_into (CheckRequestCachePolicy fut st) = [[''fsm.Initial'', ''fsm.CheckRequestCachePolicy'']]"
| "paths_into (PollCache fut st) = [lookup_path]"
| "paths_into (ConvertResponse fut st) = [lookup_path @ [''fsm.ConvertResponse'']]"
| "paths_into (HandleStale fut st) = [lookup_path @ [''fsm.HandleStale'']]"
| "paths_into (AwaitResponse fut st) = [lookup_path @ [''fsm.AwaitResponse'']]"
| "paths_into (PollUpstream fut st) = (if pu_cache_key (the st) = None then bypass_paths else fetch_paths)"
| "paths_into (CheckResponseCachePolicy fut st) = judged_paths"
| "paths_into (UpdateCache fut st) = stored_paths"
| "paths_into (Response st) = complete_paths"

lemmas path_defs = lookup_path_def fetch_paths_def bypass_paths_def judged_paths_def stored_paths_def answer_paths_def complete_paths_def

text \<open>A turn follows an edge.\<close>

lemma path_step:
  "fsm_turn E f w = (Moved f', w') \<Longrightarrow> p \<in> set (paths_into (cf_state f))
   \<Longrightarrow> p @ [fst (state_span_of (cf_state f'))] \<in> set (paths_into (cf_state f'))"
  by (auto simp: fsm_turn.simps transition_defs path_defs state_span_defs Let_def
      split: state.splits option.splits prod.splits policy_config.splits cache_policy.splits cache_state.splits
        decision.splits stale_policy.splits sum.splits if_splits concurrency_error.splits)

section \<open>Any number of requests on one collector\<close>

definition spanned_after ::
  "(('req, 'res, 'rp, 'c, 'rx) spanned_future, 'out) turn \<Rightarrow> ('req, 'res, 'rp, 'c, 'rx) spanned_future option" where
  "spanned_after t = (case t of Panicked \<Rightarrow> None | Pending g \<Rightarrow> Some g | Moved g \<Rightarrow> Some g | Ready g out \<Rightarrow> None)"

definition spawned_by ::
  "('req, 'c, 'rx, 'w, 'res, 'rp) fsm_env \<Rightarrow> ('req, 'res, 'rp, 'c, 'rx) spanned_future \<Rightarrow> 'w \<Rightarrow> span_collector
   \<Rightarrow> (('req, 'res, 'rp, 'c, 'rx) spanned_future, 'out) turn \<Rightarrow> ('req, 'res, 'rp, 'c, 'rx) spanned_future option list" where
  "spawned_by E g w C t =
     (case (t, fst (spawned_revalidation E (sn_future g) w (on_record (sn_span g) (turn_fields E (sn_future g) w) C))) of
        (Moved g', Some h) \<Rightarrow> [Some h] | _ \<Rightarrow> [])"

text \<open>Requests come, take turns in any order and in any world, are dropped; what they spawn joins them.\<close>

inductive spanned_system ::
  "('req, 'c, 'rx, 'w, 'res, 'rp) fsm_env \<Rightarrow> ('req, 'res, 'rp, 'c, 'rx) spanned_future option list \<Rightarrow> span_collector \<Rightarrow> bool"
  for E where
  system_start: "spanned_system E [] create_span_collector"
| system_new: "spanned_system E gs C \<Longrightarrow> spanned_new request p rp x policy C = (g, C')
    \<Longrightarrow> spanned_system E (gs @ [Some g]) C'"
| system_turn: "spanned_system E gs C \<Longrightarrow> r < length gs \<Longrightarrow> gs ! r = Some g \<Longrightarrow> spanned_turn E g (w, C) = (t, (w', C'))
    \<Longrightarrow> spanned_system E (gs[r := spanned_after t] @ spawned_by E g w C t) C'"
| system_drop: "spanned_system E gs C \<Longrightarrow> r < length gs \<Longrightarrow> spanned_system E (gs[r := None]) C"
| system_enter: "spanned_system E gs C \<Longrightarrow> spanned_system E gs (C\<lparr>sc_current := i\<rparr>)"

lemma spawned_by_none: "(\<And>fut st. cf_state (sn_future g) \<noteq> HandleStale fut st) \<Longrightarrow> spawned_by E g w C t = []"
  by (auto simp: spawned_by_def spawned_revalidation_def split: turn.split option.split state.split)

subsection \<open>What recording and opening change\<close>

text \<open>What of a span does not change once it is open.\<close>

definition shape :: "captured_span \<Rightarrow> nat \<times> nat option \<times> string" where
  "shape s = (sp_id s, sp_parent s, sp_name s)"

definition shapes_ok :: "nat \<Rightarrow> (nat \<times> nat option \<times> string) list \<Rightarrow> bool" where
  "shapes_ok n xs \<longleftrightarrow> distinct (map fst xs)
     \<and> (\<forall>(i, parent, name) \<in> set xs. i < n \<and> (starts_with ''fsm.'' name \<longrightarrow> (\<exists>p < n. parent = Some p)))"

definition ids_ok :: "span_collector \<Rightarrow> bool" where
  "ids_ok C \<longleftrightarrow> shapes_ok (sc_next C) (map shape (sc_spans C))"

lemma shape_record [simp]: "shape (s\<lparr>sp_fields := kvs\<rparr>) = shape s"
  by (simp add: shape_def)

lemma update_span_shapes [simp]: "map shape (update_span i kvs ss) = map shape ss"
  by (induction ss) auto

lemma ids_distinct: "ids_ok C \<Longrightarrow> distinct (map sp_id (sc_spans C))"
  by (simp add: ids_ok_def shapes_ok_def shape_def comp_def)

lemma update_span_absent: "i \<notin> sp_id ` set ss \<Longrightarrow> update_span i kvs ss = ss"
  by (induction ss) auto

lemma filter_update_span:
  assumes "\<And>s kvs. P (s\<lparr>sp_fields := kvs\<rparr>) = P s"
  shows "distinct (map sp_id ss) \<Longrightarrow> filter P (update_span i kvs ss) = update_span i kvs (filter P ss)"
proof (induction ss)
  case (Cons s ss)
  have "update_span i kvs (filter P ss) = filter P ss" if "sp_id s = i"
    by (rule update_span_absent) (use Cons(2) that in auto)
  then show ?case using Cons assms by auto
qed simp

lemma update_span_last: "i \<notin> sp_id ` set pre \<Longrightarrow> sp_id s = i \<Longrightarrow>
    update_span i kvs (pre @ [s]) = pre @ [s\<lparr>sp_fields := fold record_field kvs (sp_fields s)\<rparr>]"
  by (induction pre) auto

lemma on_record_fields [simp]: "sc_next (on_record i kvs C) = sc_next C" "sc_current (on_record i kvs C) = sc_current C"
  by (simp_all add: on_record_def)

lemma ids_ok_record: "ids_ok C \<Longrightarrow> ids_ok (on_record i kvs C)"
  by (simp add: ids_ok_def on_record_def)

lemma own_record: "ids_ok C \<Longrightarrow> own_spans root (on_record i kvs C) = update_span i kvs (own_spans root C)"
  unfolding own_spans_def on_record_def by (simp add: filter_update_span ids_distinct)

lemma ids_ok_open:
  "ids_ok C \<Longrightarrow> (starts_with ''fsm.'' name \<Longrightarrow> \<exists>p < sc_next C. parent = Some p)
   \<Longrightarrow> ids_ok (snd (on_new_span target name kvs parent C))"
  by (auto simp: ids_ok_def shapes_ok_def shape_def on_new_span_def less_Suc_eq)

lemma open_id [simp]: "fst (on_new_span target name kvs parent C) = sc_next C" "fst (open_state root s C) = sc_next C"
  "sc_next (snd (on_new_span target name kvs parent C)) = Suc (sc_next C)" "sc_next (snd (open_state root s C)) = Suc (sc_next C)"
  by (simp_all add: on_new_span_def open_state_def)

lemma state_span_named: "starts_with ''fsm.'' (fst (state_span_of st))"
  by (cases st) (simp_all add: state_span_defs starts_with_def)

lemma own_open_state:
  "starts_with ''fsm.'' (fst s) \<Longrightarrow> own_spans root' (snd (open_state root s C)) = own_spans root' C
     @ (if root' = root then [\<lparr>sp_id = sc_next C, sp_parent = Some root, sp_name = fst s, sp_target = states_target, sp_fields = snd s\<rparr>] else [])"
  by (simp add: own_spans_def open_state_def on_new_span_def captured_name_def)

lemma own_open_root:
  "\<not> starts_with ''fsm.'' name \<Longrightarrow> own_spans root' (snd (on_new_span target name kvs None C)) = own_spans root' C"
  by (simp add: own_spans_def on_new_span_def)

lemma own_fresh: "ids_ok C \<Longrightarrow> sc_next C \<le> root \<Longrightarrow> own_spans root C = []"
  by (force simp: own_spans_def ids_ok_def shapes_ok_def shape_def filter_empty_conv)

subsection \<open>The invariant\<close>

text \<open>The spans of a request are the path to its state; the last of them is the one the future keeps, as it
  was opened.\<close>

definition on_path :: "('req, 'res, 'rp, 'c, 'rx) spanned_future \<Rightarrow> span_collector \<Rightarrow> bool" where
  "on_path g C \<longleftrightarrow> sn_root g < sc_next C
     \<and> (\<exists>pre s. own_spans (sn_root g) C = pre @ [s] \<and> sp_id s = sn_span g \<and> (sp_name s, sp_fields s) = state_span_of (cf_state (sn_future g)))
     \<and> map sp_name (own_spans (sn_root g) C) \<in> set (paths_into (cf_state (sn_future g)))"

text \<open>An operation of one request leaves the spans of the others as they are.\<close>

definition beside :: "(nat \<Rightarrow> bool) \<Rightarrow> span_collector \<Rightarrow> span_collector \<Rightarrow> bool" where
  "beside mine C C' \<longleftrightarrow> ids_ok C' \<and> sc_next C \<le> sc_next C'
     \<and> (\<forall>root < sc_next C. \<not> mine root \<longrightarrow> own_spans root C' = own_spans root C)"

lemma beside_refl: "ids_ok C \<Longrightarrow> beside mine C C"
  by (simp add: beside_def)

lemma beside_trans: "beside mine C C1 \<Longrightarrow> beside mine C1 C2 \<Longrightarrow> beside mine C C2"
  by (auto simp: beside_def)

lemma on_path_beside: "on_path g C \<Longrightarrow> beside mine C C' \<Longrightarrow> \<not> mine (sn_root g) \<Longrightarrow> on_path g C'"
  by (auto simp: on_path_def beside_def)

lemma open_beside:
  assumes "ids_ok C" "root < sc_next C" "starts_with ''fsm.'' (fst s)" "mine root"
  shows "beside mine C (snd (open_state root s C))"
  using assms ids_ok_open [OF assms(1)] own_open_state [OF assms(3)]
  by (auto simp: beside_def open_state_def)

lemma not_fsm_root [simp]: "\<not> starts_with ''fsm.'' ''hitbox.cache''" "\<not> starts_with ''fsm.'' ''hitbox.cache.revalidate''"
  by (simp_all add: starts_with_def)

lemma fsm_named [simp]:
  "starts_with ''fsm.'' (fst initial_span)" "starts_with ''fsm.'' (fst (poll_upstream_span pm k))"
  by (simp_all add: state_span_defs starts_with_def)

text \<open>A new root with the span of a first state.\<close>

lemma start_on_path:
  assumes "ids_ok C" "\<not> starts_with ''fsm.'' name" "on_new_span target name [] None C = (root, C1)"
    and "open_state root (state_span_of (cf_state f)) C1 = (i, C2)" "[fst (state_span_of (cf_state f))] \<in> set (paths_into (cf_state f))"
  shows "beside (\<lambda>_. False) C C2 \<and> on_path \<lparr>sn_future = f, sn_root = root, sn_span = i\<rparr> C2 \<and> root = sc_next C \<and> sc_next C < sc_next C2"
proof -
  note named = state_span_named [of "cf_state f"]
  have C1: "root = sc_next C" "C1 = snd (on_new_span target name [] None C)" "sc_next C1 = Suc (sc_next C)" "ids_ok C1"
    using assms(2,3) open_id(1,3) [where target = target and name = name and kvs = "[]" and parent = None and C = C]
      ids_ok_open [OF assms(1), where name = name and target = target and kvs = "[]" and parent = None] by auto
  have C2: "i = sc_next C1" "C2 = snd (open_state root (state_span_of (cf_state f)) C1)" "sc_next C2 = Suc (sc_next C1)"
    using assms(4) open_id(2,4) [where root = root and s = "state_span_of (cf_state f)" and C = C1] by auto
  have "ids_ok C2" using ids_ok_open [OF C1(4)] C1(1,3) C2(2) by (simp add: open_state_def)
  moreover have "own_spans root' C1 = own_spans root' C" for root' using own_open_root [OF assms(2)] C1(2) by simp
  moreover have "own_spans root C1 = []" using own_fresh [OF assms(1), of root] calculation C1(1) by simp
  ultimately show ?thesis
    using own_open_state [OF named, where root = root and C = C1] C1 C2 assms(5)
    by (auto simp: on_path_def beside_def)
qed

lemma spanned_new_on_path:
  assumes "ids_ok C" "spanned_new request p rp x policy C = (g, C')"
  shows "beside (\<lambda>_. False) C C' \<and> on_path g C' \<and> sn_root g = sc_next C \<and> sc_next C < sc_next C'"
proof -
  obtain root C1 where r: "on_new_span future_target ''hitbox.cache'' [] None C = (root, C1)" by fastforce
  obtain i C2 where i: "open_state root initial_span C1 = (i, C2)" by fastforce
  have g: "g = \<lparr>sn_future = cache_future_new request p rp x policy, sn_root = root, sn_span = i\<rparr>" "C' = C2"
    using assms(2) r i by (auto simp: spanned_new_def)
  show ?thesis
    using start_on_path [OF assms(1) not_fsm_root(1) r, of "cache_future_new request p rp x policy" i C2] i
    by (simp add: g cache_future_new_def initial_span_def)
qed

lemma spanned_revalidate_on_path:
  fixes g :: "('req, 'res, 'rp, 'c, 'rx) spanned_future"
  assumes "ids_ok C" "spanned_revalidate E key request rp policy (w, C) = (g, (w', C'))"
  shows "beside (\<lambda>_. False) C C' \<and> on_path g C' \<and> sn_root g = sc_next C \<and> sc_next C < sc_next C'"
proof -
  obtain root C1 where r: "on_new_span future_target ''hitbox.cache.revalidate'' [] None C = (root, C1)" by fastforce
  obtain i C2 where i: "open_state root (poll_upstream_span None (Some key)) C1 = (i, C2)" by fastforce
  obtain f :: "('req, 'res, 'rp, 'c, 'rx) cache_future" and w1
    where f: "cache_future_revalidate E key request rp policy w = (f, w1)" by (metis surj_pair)
  have g: "g = \<lparr>sn_future = f, sn_root = root, sn_span = i\<rparr>" "C' = C2"
    using assms(2) r i f by (auto simp: spanned_revalidate_def revalidation_spans_def)
  have "state_span_of (cf_state f) = poll_upstream_span None (Some key)" "[''fsm.PollUpstream''] \<in> set (paths_into (cf_state f))"
    using f by (auto simp: cache_future_revalidate_def fetch_paths_def split: prod.splits)
  then show ?thesis
    using start_on_path [OF assms(1) not_fsm_root(2) r, of f i C2] i by (auto simp: g poll_upstream_span_def)
qed

lemma record_beside:
  assumes "ids_ok C" "on_path g C"
  shows "beside (\<lambda>root. root = sn_root g) C (on_record (sn_span g) kvs C)"
proof -
  obtain pre s where s: "own_spans (sn_root g) C = pre @ [s]" "sp_id s = sn_span g"
    using assms(2) unfolding on_path_def by blast
  have "sn_span g \<notin> sp_id ` set (own_spans root C)" if other: "root \<noteq> sn_root g" for root
  proof
    assume "sn_span g \<in> sp_id ` set (own_spans root C)"
    then obtain s' where s': "s' \<in> set (own_spans root C)" "sp_id s' = sp_id s" using s(2) by auto
    have "s \<in> set (own_spans (sn_root g) C)" using s(1) by simp
    then have m: "s \<in> set (sc_spans C)" "s' \<in> set (sc_spans C)" "sp_parent s = Some (sn_root g)" "sp_parent s' = Some root"
      using s'(1) by (auto simp: own_spans_def)
    then have "s' = s" using ids_distinct [OF assms(1)] s'(2) by (auto simp: distinct_map inj_on_def)
    then show False using m other by simp
  qed
  then show ?thesis using assms(1) by (simp add: beside_def ids_ok_record own_record update_span_absent)
qed

lemma fsm_turn_pending_span:
  "fsm_turn E f w = (Pending f', w') \<Longrightarrow>
     state_span_of (cf_state f') = state_span_of (cf_state f) \<and> paths_into (cf_state f') = paths_into (cf_state f)"
  by (auto simp: fsm_turn.simps split: state.splits option.splits prod.splits)

lemma spawned_beside:
  fixes f :: "('req, 'res, 'rp, 'c, 'rx) cache_future"
  assumes "ids_ok C" "spawned_revalidation E f w C = (h, C')"
  shows "beside (\<lambda>_. False) C C' \<and> (\<forall>g. h = Some g \<longrightarrow> on_path g C' \<and> sc_next C \<le> sn_root g)"
proof (cases "h = None \<and> C' = C")
  case True
  then show ?thesis using beside_refl [OF assms(1)] by simp
next
  case False
  then obtain fut st rp where st: "cf_state f = HandleStale fut (Some st)" "cf_response_predicates f = Some rp"
      "policy_stale (cf_policy f) = OffloadRevalidate"
    using assms(2) by (auto simp: spawned_revalidation_def split: state.splits option.splits if_splits)
  obtain g :: "('req, 'res, 'rp, 'c, 'rx) spanned_future" and v' C1
    where r: "spanned_revalidate E (hs_cache_key st) (hs_request st) rp (cf_policy f) (snd (fe_from_cached E (fst fut) w), C) = (g, (v', C1))"
    by (metis surj_pair)
  then have "h = Some g" "C1 = C'" using assms(2) st by (simp_all add: spawned_revalidation_def)
  with spanned_revalidate_on_path [OF assms(1) r] show ?thesis by auto
qed

definition span_view :: "captured_span \<Rightarrow> state_span" where
  "span_view s = (sp_name s, sp_fields s)"

lemma recorded_own:
  assumes "ids_ok C" "on_path g C"
  shows "map span_view (own_spans (sn_root g) (on_record (sn_span g) kvs C))
     = map span_view (butlast (own_spans (sn_root g) C)) @ [map_prod id (fold record_field kvs) (state_span_of (cf_state (sn_future g)))]"
proof -
  obtain pre s where s: "own_spans (sn_root g) C = pre @ [s]" "sp_id s = sn_span g" "(sp_name s, sp_fields s) = state_span_of (cf_state (sn_future g))"
    using assms(2) unfolding on_path_def by blast
  have "distinct (map sp_id (own_spans (sn_root g) C))"
    using ids_distinct [OF assms(1)] by (simp add: own_spans_def distinct_map_filter)
  then have "sn_span g \<notin> sp_id ` set pre" using s(1,2) by auto
  then show ?thesis using s by (simp add: own_record [OF assms(1)] update_span_last span_view_def s(3) [symmetric])
qed

text \<open>What a turn that moves does to the collector: the old state's span is closed, the new one's opened.\<close>

lemma moved_turn:
  assumes "ids_ok C" "on_path g C" "spanned_turn E g (w, C) = (Moved g', (w', C'))"
  shows "\<exists>h C2. spawned_revalidation E (sn_future g) w (on_record (sn_span g) (turn_fields E (sn_future g) w) C) = (h, C2)
    \<and> sn_root g' = sn_root g \<and> sn_span g' = sc_next C2
    \<and> C' = snd (open_state (sn_root g) (state_span_of (cf_state (sn_future g'))) C2)
    \<and> fsm_turn E (sn_future g) w = (Moved (sn_future g'), w')
    \<and> beside (\<lambda>root. root = sn_root g) C C2 \<and> sn_root g < sc_next C2
    \<and> (\<forall>h'. h = Some h' \<longrightarrow> on_path h' C2 \<and> sc_next C \<le> sn_root h')
    \<and> own_spans (sn_root g) C2 = own_spans (sn_root g) (on_record (sn_span g) (turn_fields E (sn_future g) w) C)"
proof -
  let ?C1 = "on_record (sn_span g) (turn_fields E (sn_future g) w) C"
  obtain f where f: "fsm_turn E (sn_future g) w = (Moved f, w')"
    using assms(3) by (auto simp: spanned_turn_def split: turn.splits prod.splits)
  obtain h C2 where h: "spawned_revalidation E (sn_future g) w ?C1 = (h, C2)" by (metis surj_pair)
  obtain i C3 where o: "open_state (sn_root g) (state_span_of (cf_state f)) C2 = (i, C3)" by fastforce
  then have i: "i = sc_next C2" using open_id(2) [where root = "sn_root g" and s = "state_span_of (cf_state f)" and C = C2] by simp
  have g': "g' = g\<lparr>sn_future := f, sn_span := sc_next C2\<rparr>" "C' = C3" using assms(3) f h o i by (auto simp: spanned_turn_def)
  note c1 = record_beside [OF assms(1,2), of "turn_fields E (sn_future g) w"]
  have c2: "beside (\<lambda>_. False) ?C1 C2" "\<And>h'. h = Some h' \<Longrightarrow> on_path h' C2 \<and> sc_next C \<le> sn_root h'"
    using spawned_beside [OF _ h] c1 by (auto simp: beside_def)
  have root: "sn_root g < sc_next C" using assms(2) by (simp add: on_path_def)
  show ?thesis
    by (intro exI conjI, rule h) (use g' f o c1 c2 root in \<open>auto simp: beside_def\<close>)
qed

lemma moved_own:
  assumes "ids_ok C" "on_path g C" "spanned_turn E g (w, C) = (Moved g', (w', C'))"
  shows "map span_view (own_spans (sn_root g) C') = map span_view (butlast (own_spans (sn_root g) C))
      @ [closed_span E (sn_future g) w, state_span_of (cf_state (sn_future g'))]"
proof -
  obtain C2 where C2: "C' = snd (open_state (sn_root g) (state_span_of (cf_state (sn_future g'))) C2)"
    "own_spans (sn_root g) C2 = own_spans (sn_root g) (on_record (sn_span g) (turn_fields E (sn_future g) w) C)"
    using moved_turn [OF assms] by blast
  show ?thesis
    using own_open_state [OF state_span_named [of "cf_state (sn_future g')"], where root = "sn_root g" and root' = "sn_root g" and C = C2]
      recorded_own [OF assms(1,2), of "turn_fields E (sn_future g) w"]
    by (simp add: C2 closed_span_def span_view_def)
qed

lemma on_path_names: "on_path g C \<Longrightarrow> map fst (map span_view (own_spans (sn_root g) C)) \<in> set (paths_into (cf_state (sn_future g)))"
  by (simp add: on_path_def comp_def span_view_def)

text \<open>A turn adds at most the span of the state it moves to, and records only in its own last span.\<close>

lemma turn_on_path:
  assumes "ids_ok C" "on_path g C" "spanned_turn E g (w, C) = (t, (w', C'))"
  shows "beside (\<lambda>root. root = sn_root g) C C'
    \<and> (\<forall>g'. spanned_after t = Some g' \<longrightarrow> on_path g' C' \<and> sn_root g' = sn_root g)
    \<and> (\<forall>h. h \<in> set (spawned_by E g w C t) \<longrightarrow> (\<exists>h'. h = Some h' \<and> on_path h' C' \<and> sc_next C \<le> sn_root h'))"
proof (cases t)
  case Panicked
  then show ?thesis using assms beside_refl [OF assms(1)]
    by (auto simp: spanned_turn_def spanned_after_def spawned_by_def split: turn.splits prod.splits)
next
  case (Pending g')
  then have f: "fsm_turn E (sn_future g) w = (Pending (sn_future g'), w')" "C' = C" "sn_root g' = sn_root g" "sn_span g' = sn_span g"
    using assms(3) by (auto simp: spanned_turn_def split: turn.splits prod.splits)
  have "on_path g' C"
    using assms(2) fsm_turn_pending_span [OF f(1)] f(3,4) by (simp add: on_path_def)
  then show ?thesis using f(2,3) Pending beside_refl [OF assms(1)] by (auto simp: spanned_after_def spawned_by_def)
next
  case (Ready g' out)
  then have "spanned_after t = None" "spawned_by E g w C t = []" "\<exists>kvs. C' = on_record (sn_span g) kvs C"
    using assms(3) by (auto simp: spanned_turn_def spanned_after_def spawned_by_def split: turn.splits prod.splits)
  then show ?thesis using record_beside [OF assms(1,2)] by auto
next
  case (Moved g')
  let ?s = "state_span_of (cf_state (sn_future g'))"
  note tr = assms(3) [unfolded Moved]
  obtain h C2 where m: "spawned_revalidation E (sn_future g) w (on_record (sn_span g) (turn_fields E (sn_future g) w) C) = (h, C2)"
    "sn_root g' = sn_root g" "sn_span g' = sc_next C2" "C' = snd (open_state (sn_root g) ?s C2)"
    "fsm_turn E (sn_future g) w = (Moved (sn_future g'), w')"
    "beside (\<lambda>root. root = sn_root g) C C2" "sn_root g < sc_next C2"
    "\<forall>h'. h = Some h' \<longrightarrow> on_path h' C2 \<and> sc_next C \<le> sn_root h'"
    using moved_turn [OF assms(1,2) tr] by blast
  note named = state_span_named [of "cf_state (sn_future g')"]
  have c3: "beside (\<lambda>root. root = sn_root g) C2 C'"
    unfolding m(4) by (rule open_beside) (use m(6,7) named in \<open>simp_all add: beside_def\<close>)
  obtain pre s where s: "own_spans (sn_root g) C = pre @ [s]" "(sp_name s, sp_fields s) = state_span_of (cf_state (sn_future g))"
    using assms(2) unfolding on_path_def by blast
  have "map sp_name (own_spans (sn_root g) C') = map fst (map span_view (own_spans (sn_root g) C'))" by (simp add: comp_def span_view_def)
  also have "\<dots> = map sp_name (own_spans (sn_root g) C) @ [fst ?s]"
    by (simp only: moved_own [OF assms(1,2) tr]) (use s in \<open>simp add: comp_def span_view_def closed_span_def s(2) [symmetric]\<close>)
  finally have "map sp_name (own_spans (sn_root g) C') \<in> set (paths_into (cf_state (sn_future g')))"
    using path_step [OF m(5), of "map sp_name (own_spans (sn_root g) C)"] assms(2) by (simp add: on_path_def)
  moreover have "\<exists>pre s. own_spans (sn_root g) C' = pre @ [s] \<and> sp_id s = sc_next C2 \<and> (sp_name s, sp_fields s) = ?s"
    using own_open_state [OF named, where root = "sn_root g" and root' = "sn_root g" and C = C2] m(4) by auto
  ultimately have "on_path g' C'" using m(2,3,7) c3 by (auto simp: on_path_def beside_def)
  moreover have "on_path h' C'" if h': "h = Some h'" for h'
    using on_path_beside [OF _ c3, of h'] m(8) h' assms(2) by (auto simp: on_path_def)
  moreover have "beside (\<lambda>root. root = sn_root g) C C'" by (rule beside_trans [OF m(6) c3])
  ultimately show ?thesis using Moved m(1,2,8)
    by (auto simp: spanned_after_def spawned_by_def split: option.splits)
qed

text \<open>A poll: the span the request was in is closed with what the poll recorded, and those of the states it
  went through follow.\<close>

lemma poll_own:
  "ids_ok C \<Longrightarrow> on_path g C \<Longrightarrow> spanned_poll E g (w, C) = (t, (w', C')) \<Longrightarrow> t \<noteq> Panicked \<Longrightarrow>
     beside (\<lambda>root. root = sn_root g) C C'
     \<and> map span_view (own_spans (sn_root g) C') = map span_view (butlast (own_spans (sn_root g) C)) @ poll_log E (sn_future g) w
     \<and> (\<forall>g'. t = Pending g' \<longrightarrow> on_path g' C' \<and> sn_root g' = sn_root g)"
proof (induction E g "(w, C)" arbitrary: w C rule: spanned_poll.induct)
  case (1 E g w C)
  obtain q w1 C1 where q: "spanned_turn E g (w, C) = (q, (w1, C1))" by (metis surj_pair)
  note tp = turn_on_path [OF 1(2,3) q]
  have step: "spanned_poll E g (w, C) = (case q of Moved g' \<Rightarrow> spanned_poll E g' (w1, C1) | _ \<Rightarrow> (q, (w1, C1)))"
    by (subst spanned_poll.simps) (simp add: q split: turn.split)
  show ?case
  proof (cases q)
    case (Moved g1)
    have g1: "on_path g1 C1" "sn_root g1 = sn_root g" "ids_ok C1" "beside (\<lambda>root. root = sn_root g) C C1"
      using tp Moved by (auto simp: spanned_after_def beside_def)
    have "spanned_poll E g1 (w1, C1) = (t, (w', C'))" using 1(4) step Moved by simp
    from 1(1) [OF q [symmetric] Moved g1(3,1) this 1(5)]
    have ih: "beside (\<lambda>root. root = sn_root g) C1 C'"
      "map span_view (own_spans (sn_root g) C') = map span_view (butlast (own_spans (sn_root g) C1)) @ poll_log E (sn_future g1) w1"
      "\<forall>g'. t = Pending g' \<longrightarrow> on_path g' C' \<and> sn_root g' = sn_root g" using g1(2) by auto
    have "poll_log E (sn_future g) w = closed_span E (sn_future g) w # poll_log E (sn_future g1) w1"
      using spanned_turn_Moved [OF q [unfolded Moved]] by (subst poll_log.simps) simp
    moreover have "map span_view (butlast (own_spans (sn_root g) C1)) = map span_view (butlast (own_spans (sn_root g) C)) @ [closed_span E (sn_future g) w]"
      using moved_own [OF 1(2,3) q [unfolded Moved]] by (metis (no_types, lifting) append.assoc append_Cons append_Nil butlast_snoc map_butlast)
    ultimately show ?thesis using ih beside_trans [OF g1(4) ih(1)] by simp
  next
    case (Pending g1)
    then have t: "t = Pending g1" "C' = C1" using 1(4) step by auto
    have f: "fsm_turn E (sn_future g) w = (Pending (sn_future g1), w1)" "C1 = C"
      using q Pending by (auto simp: spanned_turn_def split: turn.splits prod.splits)
    have "poll_log E (sn_future g) w = [state_span_of (cf_state (sn_future g))]" using f(1) by (subst poll_log.simps) simp
    moreover have "map span_view (own_spans (sn_root g) C) = map span_view (butlast (own_spans (sn_root g) C)) @ [state_span_of (cf_state (sn_future g))]"
      using 1(3) by (auto simp: on_path_def span_view_def)
    ultimately show ?thesis using tp t f(2) Pending by (auto simp: spanned_after_def)
  next
    case (Ready g1 out)
    then have t: "t = Ready g1 out" "C' = C1" using 1(4) step by auto
    have f: "fsm_turn E (sn_future g) w = (Ready (sn_future g1) out, w1)"
      "C1 = on_record (sn_span g) [(''cache.status'', cache_status_str (cc_status (snd out))),
         (''cache.source'', response_source_str (cc_source (snd out)))] C"
      using q Ready by (auto simp: spanned_turn_def split: turn.splits prod.splits)
    have "poll_log E (sn_future g) w = [answered_span (sn_future g) (snd out)]" using f(1) by (subst poll_log.simps) simp
    then show ?thesis using tp t recorded_own [OF 1(2,3)] by (simp add: f(2) answered_span_def)
  next
    case Panicked
    then show ?thesis using 1(4,5) step by simp
  qed
qed

definition system_ok :: "('req, 'res, 'rp, 'c, 'rx) spanned_future option list \<Rightarrow> span_collector \<Rightarrow> bool" where
  "system_ok gs C \<longleftrightarrow> ids_ok C \<and> (\<forall>r < length gs. \<forall>g. gs ! r = Some g \<longrightarrow> on_path g C)
     \<and> (\<forall>r < length gs. \<forall>r' < length gs. \<forall>g g'. gs ! r = Some g \<longrightarrow> gs ! r' = Some g' \<longrightarrow> sn_root g = sn_root g' \<longrightarrow> r = r')"

lemma system_update:
  assumes "system_ok gs C" "r < length gs" "gs ! r = Some g" "beside (\<lambda>root. root = sn_root g) C C'"
    and "\<And>g'. x = Some g' \<Longrightarrow> on_path g' C' \<and> sn_root g' = sn_root g"
  shows "system_ok (gs[r := x]) C'"
proof -
  have "on_path g' C'" if "j < length gs" "j \<noteq> r" "gs ! j = Some g'" for j g'
    by (rule on_path_beside [OF _ assms(4)]) (use assms(1-3) that in \<open>auto simp: system_ok_def\<close>)
  then show ?thesis
    using assms by (auto simp: system_ok_def beside_def nth_list_update)
qed

lemma system_extend:
  assumes "system_ok gs C" "on_path h C" "\<And>r g. r < length gs \<Longrightarrow> gs ! r = Some g \<Longrightarrow> sn_root g < sn_root h"
  shows "system_ok (gs @ [Some h]) C"
proof -
  have old: "ids_ok C" "\<And>r g. r < length gs \<Longrightarrow> gs ! r = Some g \<Longrightarrow> on_path g C"
    "\<And>r r' g g'. r < length gs \<Longrightarrow> r' < length gs \<Longrightarrow> gs ! r = Some g \<Longrightarrow> gs ! r' = Some g' \<Longrightarrow> sn_root g = sn_root g' \<Longrightarrow> r = r'"
    using assms(1) unfolding system_ok_def by blast+
  have each: "on_path g C \<and> (r < length gs \<and> gs ! r = Some g \<or> r = length gs \<and> g = h)"
    if "r < length (gs @ [Some h])" "(gs @ [Some h]) ! r = Some g" for r g
    using that old(2) assms(2) by (cases "r < length gs") (auto simp: nth_append)
  show ?thesis
    unfolding system_ok_def
  proof (intro conjI allI impI)
    show "ids_ok C" by (rule old(1))
    show "on_path g C" if "r < length (gs @ [Some h])" "(gs @ [Some h]) ! r = Some g" for r g using each [OF that] by blast
    fix r r' g g'
    assume a: "r < length (gs @ [Some h])" "r' < length (gs @ [Some h])" "(gs @ [Some h]) ! r = Some g" "(gs @ [Some h]) ! r' = Some g'"
      and eq: "sn_root g = sn_root g'"
    consider "r < length gs" "gs ! r = Some g" "r' < length gs" "gs ! r' = Some g'"
      | "r < length gs" "gs ! r = Some g" "g' = h" | "r' < length gs" "gs ! r' = Some g'" "g = h" | "r = length gs" "r' = length gs"
      using each [OF a(1,3)] each [OF a(2,4)] by blast
    then show "r = r'"
    proof cases
      case 1
      then show ?thesis using old(3) [OF 1(1,3,2,4) eq] by simp
    next
      case 2
      then show ?thesis using assms(3) [OF 2(1,2)] eq by simp
    next
      case 3
      then show ?thesis using assms(3) [OF 3(1,2)] eq by simp
    qed simp
  qed
qed

lemma roots_below: "system_ok gs C \<Longrightarrow> r < length gs \<Longrightarrow> gs ! r = Some g \<Longrightarrow> sn_root g < sc_next C"
  by (auto simp: system_ok_def on_path_def)

lemma system_invariant: "spanned_system E gs C \<Longrightarrow> system_ok gs C"
proof (induction rule: spanned_system.induct)
  case system_start
  then show ?case by (simp add: system_ok_def ids_ok_def shapes_ok_def create_span_collector_def)
next
  case (system_new gs C request p rp x policy g C')
  note n = spanned_new_on_path [OF _ system_new(2)]
  have ok: "ids_ok C" using system_new(3) by (simp add: system_ok_def)
  have "system_ok gs C'"
    using system_new(3) on_path_beside [of _ C "\<lambda>_. False" C'] n [OF ok] by (auto simp: system_ok_def beside_def)
  then show ?case
    by (rule system_extend) (use n [OF ok] roots_below [OF system_new(3)] in simp_all)
next
  case (system_turn gs C r g w t w' C')
  have ok: "ids_ok C" "on_path g C" using system_turn(2,3,5) by (auto simp: system_ok_def)
  note tp = turn_on_path [OF ok system_turn(4)]
  have u: "system_ok (gs[r := spanned_after t]) C'"
    by (rule system_update [OF system_turn(5,2,3)]) (use tp in auto)
  show ?case
  proof (cases "spawned_by E g w C t")
    case (Cons h hs)
    then obtain h' where h: "spawned_by E g w C t = [Some h']" "on_path h' C'" "sc_next C \<le> sn_root h'"
      using tp by (auto simp: spawned_by_def split: turn.splits option.splits)
    have "sn_root g' < sn_root h'" if "j < length (gs[r := spanned_after t])" "gs[r := spanned_after t] ! j = Some g'" for j g'
      using roots_below [OF system_turn(5)] that tp h(3) system_turn(2,3)
      by (cases "j = r") (force simp: nth_list_update)+
    then show ?thesis unfolding h(1) by (intro system_extend u h(2))
  qed (use u in simp)
next
  case (system_drop gs C r)
  then show ?case by (auto simp: system_ok_def nth_list_update)
next
  case (system_enter gs C i)
  then show ?case by (simp add: system_ok_def ids_ok_def on_path_def own_spans_def)
qed

section \<open>Properties\<close>

text \<open>C9. Whatever requests run at once on one collector of spans, with their turns interleaved and
  requests dropped and spawned, a request that completes left one of fourteen paths of states, from its
  first state to the response, each state once and in the order it was entered, and the last span
  carries the status and the source of the context that was returned.\<close>

theorem request_spans_are_a_path:
  assumes "spanned_system E gs C" "r < length gs" "gs ! r = Some g"
    and "spanned_turn E g (w, C) = (Ready g' out, (w', C'))"
  shows "map sp_name (own_spans (sn_root g) C') \<in> set complete_paths
    \<and> sp_fields (last (own_spans (sn_root g) C'))
       = [(''cache.status'', cache_status_str (cc_status (snd out))), (''cache.source'', response_source_str (cc_source (snd out)))]"
proof -
  have ok: "ids_ok C" "on_path g C" using system_invariant [OF assms(1)] assms(2,3) by (auto simp: system_ok_def)
  obtain f st where f: "fsm_turn E (sn_future g) w = (Ready f out, w')"
      "C' = on_record (sn_span g) [(''cache.status'', cache_status_str (cc_status (snd out))),
         (''cache.source'', response_source_str (cc_source (snd out)))] C"
    using assms(4) by (auto simp: spanned_turn_def split: turn.splits prod.splits)
  have resp: "\<exists>st. cf_state (sn_future g) = Response st"
    using f(1) by (auto simp: fsm_turn.simps split: state.splits option.splits prod.splits)
  obtain pre s where s: "own_spans (sn_root g) C = pre @ [s]" "sp_id s = sn_span g" "sp_fields s = []"
    using ok(2) resp by (auto simp: on_path_def response_span_def)
  have "distinct (map sp_id (own_spans (sn_root g) C))"
    using ids_distinct [OF ok(1)] by (simp add: own_spans_def distinct_map_filter)
  then have "sn_span g \<notin> sp_id ` set pre" using s by auto
  then have "own_spans (sn_root g) C' = pre @ [s\<lparr>sp_fields := [(''cache.status'', cache_status_str (cc_status (snd out))),
         (''cache.source'', response_source_str (cc_source (snd out)))]\<rparr>]"
    using s by (simp add: f(2) own_record [OF ok(1)] update_span_last)
  then show ?thesis using ok(2) resp s(1) by (auto simp: on_path_def)
qed

theorem request_spans_are_a_path_witness:
  "\<exists>C root. map sp_name (own_spans root C) = [''fsm.Initial'', ''fsm.PollUpstream'', ''fsm.Response'']
     \<and> [''fsm.Initial'', ''fsm.PollUpstream'', ''fsm.Response''] \<in> set complete_paths
     \<and> sp_fields (last (own_spans root C)) = [(''cache.status'', ''miss''), (''cache.source'', ''upstream'')]"
proof -
  note run = spanned_new_def spanned_turn_def spawned_revalidation_def cache_future_new_def open_state_def on_new_span_def
    fsm_turn.simps initial_next_def poll_upstream_next_def create_span_collector_def captured_name_def starts_with_def
    state_span_defs finish_response_def spanned_after_def spawned_by_def on_record_def turn_fields_def states_target_def future_target_def
    optional_key_def show_bool_def
  let ?f = "cache_future_new 4 async_neutral neutral demo_extractor Disabled :: (nat, nat, nat predicate, nat, nat) cache_future"
  let ?f2 = "?f\<lparr>cf_state := PollUpstream 4 (Some \<lparr>pu_permit = None, pu_ctx = boxed cache_context_default, pu_cache_key = None\<rparr>)\<rparr>"
  let ?f3 = "?f\<lparr>cf_state := Response (Some \<lparr>rs_response = 40, rs_ctx = boxed cache_context_default\<rparr>), cf_response_predicates := None\<rparr>"
  let ?g = "\<lambda>f i. \<lparr>sn_future = f, sn_root = 0, sn_span = i\<rparr>"
  let ?root = "\<lparr>sp_id = 0, sp_parent = None, sp_name = ''hitbox.cache'', sp_target = future_target, sp_fields = []\<rparr>"
  let ?s = "\<lambda>i s. \<lparr>sp_id = i, sp_parent = Some 0, sp_name = fst s, sp_target = states_target, sp_fields = snd s\<rparr>"
  let ?c = "\<lambda>n ss. \<lparr>sc_spans = ?root # ss, sc_next = n, sc_current = None\<rparr>"
  let ?c1 = "?c 2 [?s 1 initial_span]"
  let ?c2 = "?c 3 [?s 1 initial_span, ?s 2 (poll_upstream_span None None)]"
  let ?c3 = "?c 4 [?s 1 initial_span, ?s 2 (poll_upstream_span None None), ?s 3 response_span]"
  let ?w = "demo_start\<lparr>dw_calls := [4]\<rparr>"
  have n: "spanned_new 4 async_neutral neutral demo_extractor Disabled create_span_collector = (?g ?f 1, ?c1)"
    by (simp add: run)
  have t1: "spanned_turn demo_env (?g ?f 1) (demo_start, ?c1) = (Moved (?g ?f2 2), (?w, ?c2))" by (simp add: run)
  have t2: "spanned_turn demo_env (?g ?f2 2) (?w, ?c2) = (Moved (?g ?f3 3), (?w, ?c3))" by (simp add: run)
  obtain g' C' where t3: "spanned_turn demo_env (?g ?f3 3) (?w, ?c3) = (Ready g' (40, cache_context_default), (?w, C'))"
    by (simp add: run boxed_def cache_context_default_def)
  have "spanned_system demo_env [Some (?g ?f 1)] ?c1" using system_new [OF system_start n] by simp
  from system_turn [OF this _ _ t1] have "spanned_system demo_env [Some (?g ?f2 2)] ?c2" by (simp add: spawned_by_none cache_future_new_def spanned_after_def)
  from system_turn [OF this _ _ t2] have sys: "spanned_system demo_env [Some (?g ?f3 3)] ?c3" by (simp add: spawned_by_none cache_future_new_def spanned_after_def)
  have "map sp_name (own_spans 0 C') = [''fsm.Initial'', ''fsm.PollUpstream'', ''fsm.Response'']"
    using t3 by (auto simp: run own_spans_def)
  with request_spans_are_a_path [OF sys _ _ t3] show ?thesis
    by (intro exI [of _ C'] exI [of _ 0]) (simp add: cache_status_str_def response_source_str_def cache_context_default_def)
qed

end
