(* ===== verification/Conformance.thy ===== *)
theory Conformance
  imports Store_Moka
begin

text \<open>
  The conformance suite for backends (hitbox-test/src/backend/mod.rs): the tests as programs over a
  typed backend, and the contract under which a backend passes them.  A failed expectation or
  assertion panics; it is the error of the test.
\<close>

section \<open>Test programs\<close>

record test_response =
  tr_id :: "64 word"
  tr_name :: string
  tr_data :: bytes

definition test_response_new :: "64 word \<Rightarrow> string \<Rightarrow> bytes \<Rightarrow> test_response" where
  "test_response_new i name d = \<lparr>tr_id = i, tr_name = name, tr_data = d\<rparr>"

type_synonym ('s, 'b) test = "'s \<Rightarrow> ('b, string) result \<times> 's"

definition t_bind :: "('s, 'a) test \<Rightarrow> ('a \<Rightarrow> ('s, 'b) test) \<Rightarrow> ('s, 'b) test" where
  "t_bind T F s = (case T s of (Inl e, s) \<Rightarrow> (Err e, s) | (Inr v, s) \<Rightarrow> F v s)"

definition t_assert :: "string \<Rightarrow> bool \<Rightarrow> ('s, unit) test" where
  "t_assert msg b s = (if b then Ok () else Err msg, s)"

definition t_expect :: "string \<Rightarrow> ('s \<Rightarrow> (('b, 'e) result \<times> 'x) \<times> 's) \<Rightarrow> ('s, 'b) test" where
  "t_expect msg f s = (case f s of ((Inl e, _), s) \<Rightarrow> (Err msg, s) | ((Inr v, _), s) \<Rightarrow> (Ok v, s))"

definition t_some :: "string \<Rightarrow> 'b option \<Rightarrow> ('s, 'b) test" where
  "t_some msg x s = (case x of Some v \<Rightarrow> Ok v | None \<Rightarrow> Err msg, s)"

text \<open>\<open>Utc::now()\<close>: the clock of the world the store is in.\<close>

definition t_now :: "('s \<Rightarrow> time) \<Rightarrow> ('s, time) test" where
  "t_now clock s = (Ok (clock s), s)"

fun t_for_each :: "('x \<Rightarrow> ('s, unit) test) \<Rightarrow> 'x list \<Rightarrow> ('s, unit) test" where
  "t_for_each F [] = (\<lambda>s. (Ok (), s))"
| "t_for_each F (x # xs) = t_bind (F x) (\<lambda>_. t_for_each F xs)"

abbreviation fresh_ctx :: box_context where
  "fresh_ctx \<equiv> boxed cache_context_default"

abbreviation seconds :: "int \<Rightarrow> int" where
  "seconds n \<equiv> n * 1000000000"

section \<open>The suite\<close>

definition test_write_and_read :: "('s, test_response, 'z) cache_backend_scheme \<Rightarrow> ('s, unit) test" where
  "test_write_and_read backend =
     (let key = cache_key_from_str ''test'' ''write-read'';
          response = test_response_new 1 ''test-response'' [1, 2, 3, 4, 5];
          v = cache_value_new response None None
      in t_bind (t_expect ''failed to write'' (kb_set backend key v fresh_ctx)) (\<lambda>_.
         t_bind (t_expect ''failed to read'' (kb_get backend key fresh_ctx)) (\<lambda>result.
         t_bind (t_assert ''value should exist'' (result \<noteq> None)) (\<lambda>_.
         t_bind (t_some ''unwrap'' result) (\<lambda>cached_value.
         t_assert ''data should match'' (cv_data cached_value = response))))))"

definition test_write_and_read_with_metadata ::
  "('s \<Rightarrow> time) \<Rightarrow> ('s, test_response, 'z) cache_backend_scheme \<Rightarrow> ('s, unit) test" where
  "test_write_and_read_with_metadata clock backend =
     (let key = cache_key_from_str ''test'' ''with-metadata'';
          response = test_response_new 2 ''metadata-test'' [10, 20, 30]
      in t_bind (t_now clock) (\<lambda>now1.
         t_bind (t_now clock) (\<lambda>now2.
         let expire = Some (now1 + seconds 3600);
             stale = Some (now2 + seconds 1800);
             v = cache_value_new response expire stale
         in t_bind (t_expect ''failed to write'' (kb_set backend key v fresh_ctx)) (\<lambda>_.
            t_bind (t_expect ''failed to read'' (kb_get backend key fresh_ctx)) (\<lambda>result.
            t_bind (t_assert ''value should exist'' (result \<noteq> None)) (\<lambda>_.
            t_bind (t_some ''unwrap'' result) (\<lambda>cached_value.
            t_bind (t_assert ''data should match'' (cv_data cached_value = response)) (\<lambda>_.
            t_bind (t_assert ''expire should be set'' (cv_expire cached_value \<noteq> None)) (\<lambda>_.
            t_assert ''stale should be set'' (cv_stale cached_value \<noteq> None))))))))))"

definition test_delete_existing :: "('s, test_response, 'z) cache_backend_scheme \<Rightarrow> ('s, unit) test" where
  "test_delete_existing backend =
     (let key = cache_key_from_str ''test'' ''delete-existing'';
          response = test_response_new 3 ''delete-test'' [];
          v = cache_value_new response None None
      in t_bind (t_expect ''failed to write'' (kb_set backend key v fresh_ctx)) (\<lambda>_.
         t_bind (t_expect ''failed to delete'' (kb_delete backend key fresh_ctx)) (\<lambda>status.
         t_bind (t_assert ''should delete 1 key'' (status = Deleted 1)) (\<lambda>_.
         t_bind (t_expect ''failed to read'' (kb_get backend key fresh_ctx)) (\<lambda>result.
         t_assert ''value should not exist after delete'' (result = None))))))"

definition test_delete_missing :: "('s, test_response, 'z) cache_backend_scheme \<Rightarrow> ('s, unit) test" where
  "test_delete_missing backend =
     (let key = cache_key_from_str ''test'' ''delete-missing''
      in t_bind (t_expect ''failed to delete'' (kb_delete backend key fresh_ctx)) (\<lambda>status.
         t_assert ''should report missing'' (status = Missing)))"

definition test_read_nonexistent :: "('s, test_response, 'z) cache_backend_scheme \<Rightarrow> ('s, unit) test" where
  "test_read_nonexistent backend =
     (let key = cache_key_from_str ''test'' ''nonexistent''
      in t_bind (t_expect ''failed to read'' (kb_get backend key fresh_ctx)) (\<lambda>result.
         t_assert ''nonexistent key should return None'' (result = None)))"

definition test_overwrite :: "('s, test_response, 'z) cache_backend_scheme \<Rightarrow> ('s, unit) test" where
  "test_overwrite backend =
     (let key = cache_key_from_str ''test'' ''overwrite'';
          response1 = test_response_new 4 ''original'' [1, 2, 3];
          value1 = cache_value_new response1 None None;
          response2 = test_response_new 5 ''updated'' [4, 5, 6, 7];
          value2 = cache_value_new response2 None None
      in t_bind (t_expect ''failed to write first value'' (kb_set backend key value1 fresh_ctx)) (\<lambda>_.
         t_bind (t_expect ''failed to overwrite'' (kb_set backend key value2 fresh_ctx)) (\<lambda>_.
         t_bind (t_expect ''failed to read'' (kb_get backend key fresh_ctx)) (\<lambda>result.
         t_bind (t_assert ''value should exist'' (result \<noteq> None)) (\<lambda>_.
         t_bind (t_some ''unwrap'' result) (\<lambda>cached.
         t_assert ''should get updated value'' (cv_data cached = response2)))))))"

definition test_multiple_keys :: "('s, test_response, 'z) cache_backend_scheme \<Rightarrow> ('s, unit) test" where
  "test_multiple_keys backend =
     (let keys_and_values =
            [(cache_key_from_str ''test'' ''multi-1'', test_response_new 10 ''first'' [1]),
             (cache_key_from_str ''test'' ''multi-2'', test_response_new 20 ''second'' [2, 2]),
             (cache_key_from_str ''test'' ''multi-3'', test_response_new 30 ''third'' [3, 3, 3])]
      in t_bind (t_for_each (\<lambda>(key, response).
           t_expect ''failed to write'' (kb_set backend key (cache_value_new response None None) fresh_ctx)) keys_and_values) (\<lambda>_.
         t_for_each (\<lambda>(key, expected_response).
           t_bind (t_expect ''failed to read'' (kb_get backend key fresh_ctx)) (\<lambda>result.
           t_bind (t_assert ''value should exist for key'' (result \<noteq> None)) (\<lambda>_.
           t_bind (t_some ''unwrap'' result) (\<lambda>cached.
           t_assert ''data should match for key'' (cv_data cached = expected_response))))) keys_and_values))"

definition test_binary_data :: "('s, test_response, 'z) cache_backend_scheme \<Rightarrow> ('s, unit) test" where
  "test_binary_data backend =
     (let key = cache_key_from_str ''test'' ''binary'';
          binary_data = map word_of_nat [0..<256];
          response = test_response_new 99 ''binary-test'' binary_data;
          v = cache_value_new response None None
      in t_bind (t_expect ''failed to write binary data'' (kb_set backend key v fresh_ctx)) (\<lambda>_.
         t_bind (t_expect ''failed to read'' (kb_get backend key fresh_ctx)) (\<lambda>result.
         t_bind (t_assert ''binary value should exist'' (result \<noteq> None)) (\<lambda>_.
         t_bind (t_some ''unwrap'' result) (\<lambda>cached.
         t_assert ''binary data should match exactly'' (tr_data (cv_data cached) = binary_data))))))"

definition expire_drift_tolerance_ms :: int where
  "expire_drift_tolerance_ms = 1000"

definition expire_times_match :: "time option \<Rightarrow> time option \<Rightarrow> bool" where
  "expire_times_match actual expected =
     (case (actual, expected) of
        (Some a, Some e) \<Rightarrow> \<bar>num_milliseconds (a - e)\<bar> \<le> expire_drift_tolerance_ms
      | (None, None) \<Rightarrow> True
      | _ \<Rightarrow> False)"

definition stale_times_match :: "time option \<Rightarrow> time option \<Rightarrow> bool" where
  "stale_times_match actual expected =
     (case (actual, expected) of
        (Some a, Some e) \<Rightarrow> timestamp_millis a = timestamp_millis e
      | (None, None) \<Rightarrow> True
      | _ \<Rightarrow> False)"

definition test_expire_metadata_exact_match ::
  "('s \<Rightarrow> time) \<Rightarrow> ('s, test_response, 'z) cache_backend_scheme \<Rightarrow> ('s, unit) test" where
  "test_expire_metadata_exact_match clock backend =
     (let key = cache_key_from_str ''test'' ''expire-exact'';
          response = test_response_new 200 ''expire-test'' [1, 2, 3]
      in t_bind (t_now clock) (\<lambda>now.
         let expire_time = now + seconds 3600;
             v = cache_value_new response (Some expire_time) None
         in t_bind (t_expect ''failed to write'' (kb_set backend key v fresh_ctx)) (\<lambda>_.
            t_bind (t_expect ''failed to read'' (kb_get backend key fresh_ctx)) (\<lambda>result.
            t_bind (t_assert ''value should exist'' (result \<noteq> None)) (\<lambda>_.
            t_bind (t_some ''unwrap'' result) (\<lambda>cached.
            t_bind (t_assert ''data should match'' (cv_data cached = response)) (\<lambda>_.
            t_bind (t_assert ''expire time should match'' (expire_times_match (cv_expire cached) (Some expire_time))) (\<lambda>_.
            t_assert ''stale should be None'' (cv_stale cached = None)))))))))"

definition test_stale_metadata_exact_match ::
  "('s \<Rightarrow> time) \<Rightarrow> ('s, test_response, 'z) cache_backend_scheme \<Rightarrow> ('s, unit) test" where
  "test_stale_metadata_exact_match clock backend =
     (let key = cache_key_from_str ''test'' ''stale-exact'';
          response = test_response_new 201 ''stale-test'' [4, 5, 6]
      in t_bind (t_now clock) (\<lambda>now1.
         t_bind (t_now clock) (\<lambda>now2.
         let expire_time = now1 + seconds 3600;
             stale_time = now2 + seconds 1800;
             v = cache_value_new response (Some expire_time) (Some stale_time)
         in t_bind (t_expect ''failed to write'' (kb_set backend key v fresh_ctx)) (\<lambda>_.
            t_bind (t_expect ''failed to read'' (kb_get backend key fresh_ctx)) (\<lambda>result.
            t_bind (t_assert ''value should exist'' (result \<noteq> None)) (\<lambda>_.
            t_bind (t_some ''unwrap'' result) (\<lambda>cached.
            t_bind (t_assert ''data should match'' (cv_data cached = response)) (\<lambda>_.
            t_bind (t_assert ''stale time should match'' (stale_times_match (cv_stale cached) (Some stale_time))) (\<lambda>_.
            t_assert ''expire time should match'' (expire_times_match (cv_expire cached) (Some expire_time)))))))))))"

definition test_expire_and_stale_combined ::
  "('s \<Rightarrow> time) \<Rightarrow> ('s, test_response, 'z) cache_backend_scheme \<Rightarrow> ('s, unit) test" where
  "test_expire_and_stale_combined clock backend =
     (let key = cache_key_from_str ''test'' ''expire-stale-combined'';
          response = test_response_new 202 ''combined-test'' [7, 8, 9]
      in t_bind (t_now clock) (\<lambda>now1.
         t_bind (t_now clock) (\<lambda>now2.
         let expire_time = now1 + seconds 86400;
             stale_time = now2 + seconds 3600;
             v = cache_value_new response (Some expire_time) (Some stale_time)
         in t_bind (t_expect ''failed to write'' (kb_set backend key v fresh_ctx)) (\<lambda>_.
            t_bind (t_expect ''failed to read'' (kb_get backend key fresh_ctx)) (\<lambda>result.
            t_bind (t_assert ''value should exist'' (result \<noteq> None)) (\<lambda>_.
            t_bind (t_some ''unwrap'' result) (\<lambda>cached.
            t_bind (t_assert ''data should match'' (cv_data cached = response)) (\<lambda>_.
            t_bind (t_assert ''expire time should match'' (expire_times_match (cv_expire cached) (Some expire_time))) (\<lambda>_.
            t_bind (t_assert ''stale time should match'' (stale_times_match (cv_stale cached) (Some stale_time))) (\<lambda>_.
            t_assert ''stale time should be before expire time'' (stale_time < expire_time)))))))))))"

definition test_no_metadata :: "('s, test_response, 'z) cache_backend_scheme \<Rightarrow> ('s, unit) test" where
  "test_no_metadata backend =
     (let key = cache_key_from_str ''test'' ''no-metadata'';
          response = test_response_new 203 ''no-metadata-test'' [10, 11, 12];
          v = cache_value_new response None None
      in t_bind (t_expect ''failed to write'' (kb_set backend key v fresh_ctx)) (\<lambda>_.
         t_bind (t_expect ''failed to read'' (kb_get backend key fresh_ctx)) (\<lambda>result.
         t_bind (t_assert ''value should exist'' (result \<noteq> None)) (\<lambda>_.
         t_bind (t_some ''unwrap'' result) (\<lambda>cached.
         t_bind (t_assert ''data should match'' (cv_data cached = response)) (\<lambda>_.
         t_bind (t_assert ''expire should be None'' (cv_expire cached = None)) (\<lambda>_.
         t_assert ''stale should be None'' (cv_stale cached = None))))))))"

definition run_backend_tests ::
  "('s \<Rightarrow> time) \<Rightarrow> ('s, test_response, 'z) cache_backend_scheme \<Rightarrow> ('s, unit) test" where
  "run_backend_tests clock backend =
     t_bind (test_write_and_read backend) (\<lambda>_.
     t_bind (test_write_and_read_with_metadata clock backend) (\<lambda>_.
     t_bind (test_delete_existing backend) (\<lambda>_.
     t_bind (test_delete_missing backend) (\<lambda>_.
     t_bind (test_read_nonexistent backend) (\<lambda>_.
     t_bind (test_overwrite backend) (\<lambda>_.
     t_bind (test_multiple_keys backend) (\<lambda>_.
     t_bind (test_binary_data backend) (\<lambda>_.
     t_bind (test_expire_metadata_exact_match clock backend) (\<lambda>_.
     t_bind (test_stale_metadata_exact_match clock backend) (\<lambda>_.
     t_bind (test_expire_and_stale_combined clock backend) (\<lambda>_.
     test_no_metadata backend)))))))))))"

section \<open>Tests of formats and compression\<close>

text \<open>\<open>str::contains\<close>.\<close>

fun str_contains :: "string \<Rightarrow> string \<Rightarrow> bool" where
  "str_contains pat [] \<longleftrightarrow> pat = []"
| "str_contains pat (c # cs) \<longleftrightarrow> take (length pat) (c # cs) = pat \<or> str_contains pat cs"

definition t_result :: "string \<Rightarrow> ('b, 'e) result \<Rightarrow> ('s, 'b) test" where
  "t_result msg r s = (case r of Inl e \<Rightarrow> Err msg | Inr v \<Rightarrow> Ok v, s)"

text \<open>The bytes under a key: the raw value, and what they are without compression.\<close>

definition read_raw :: "('s, 'a, 'z) backend_scheme \<Rightarrow> cache_key \<Rightarrow> ('s, bytes cache_value) test" where
  "read_raw backend key =
     t_bind (t_expect ''failed to read raw'' (\<lambda>s. case be_read backend key s of (r, s) \<Rightarrow> ((r, ()), s)))
       (t_some ''value should exist'')"

definition decompressed_value :: "('s, 'a, 'z) backend_scheme \<Rightarrow> cache_key \<Rightarrow> ('s, bytes) test" where
  "decompressed_value backend key =
     t_bind (read_raw backend key) (\<lambda>raw_value.
       t_result ''failed to decompress'' (cp_decompress (be_compressor backend) (cv_data raw_value)))"

text \<open>The last assertions of each: the value is still readable.\<close>

definition still_readable ::
  "('s, test_response, 'z) cache_backend_scheme \<Rightarrow> cache_key \<Rightarrow> test_response \<Rightarrow> ('s, unit) test" where
  "still_readable backend key response =
     t_bind (t_expect ''failed to deserialize'' (kb_get backend key fresh_ctx)) (\<lambda>result.
     t_bind (t_assert ''is_some'' (result \<noteq> None)) (\<lambda>_.
     t_bind (t_some ''unwrap'' result) (\<lambda>cached.
     t_assert ''data'' (cv_data cached = response))))"

abbreviation quoted_id :: string where
  "quoted_id \<equiv> CHR 0x22 # ''id'' @ [CHR 0x22]"

definition test_url_encoded_key_json_value ::
  "cache_key_format \<Rightarrow> ('s, test_response, 'z) cache_backend_scheme \<Rightarrow> ('s, unit) test" where
  "test_url_encoded_key_json_value key_format backend =
     t_bind (t_assert ''backend should use UrlEncoded key format'' (key_format = UrlEncodedKeys)) (\<lambda>_.
     let key = cache_key_from_str ''format-test'' ''url-json'';
         response = test_response_new 100 ''url-json-test'' [1, 2, 3];
         v = cache_value_new response None None
     in t_bind (t_expect ''failed to write'' (kb_set backend key v fresh_ctx)) (\<lambda>_.
        t_bind (decompressed_value backend key) (\<lambda>decompressed.
        t_bind (t_some ''Value should be valid UTF-8 JSON'' (from_utf8 decompressed)) (\<lambda>as_string.
        t_bind (t_assert ''Value should contain JSON fields'' (str_contains quoted_id as_string \<or> str_contains ''id'' as_string)) (\<lambda>_.
        still_readable backend key response)))))"

definition test_url_encoded_key_bincode_value ::
  "cache_key_format \<Rightarrow> ('s, test_response, 'z) cache_backend_scheme \<Rightarrow> ('s, unit) test" where
  "test_url_encoded_key_bincode_value key_format backend =
     t_bind (t_assert ''backend should use UrlEncoded key format'' (key_format = UrlEncodedKeys)) (\<lambda>_.
     let key = cache_key_from_str ''format-test'' ''url-bincode'';
         response = test_response_new 101 ''url-bincode-test'' [4, 5, 6];
         v = cache_value_new response None None
     in t_bind (t_expect ''failed to write'' (kb_set backend key v fresh_ctx)) (\<lambda>_.
        t_bind (decompressed_value backend key) (\<lambda>decompressed.
        t_bind (t_assert ''Value should be in Bincode format (binary), not JSON''
          (case from_utf8 decompressed of None \<Rightarrow> True | Some as_string \<Rightarrow> \<not> str_contains quoted_id as_string)) (\<lambda>_.
        still_readable backend key response))))"

definition test_bitcode_key_json_value ::
  "cache_key_format \<Rightarrow> ('s, test_response, 'z) cache_backend_scheme \<Rightarrow> ('s, unit) test" where
  "test_bitcode_key_json_value key_format backend =
     t_bind (t_assert ''backend should use Bitcode key format'' (key_format = BitcodeKeys)) (\<lambda>_.
     let key = cache_key_from_str ''format-test'' ''bitcode-json'';
         response = test_response_new 102 ''bitcode-json-test'' [7, 8, 9];
         v = cache_value_new response None None
     in t_bind (t_expect ''failed to write'' (kb_set backend key v fresh_ctx)) (\<lambda>_.
        t_bind (decompressed_value backend key) (\<lambda>decompressed.
        t_bind (t_some ''Value should be valid UTF-8 JSON'' (from_utf8 decompressed)) (\<lambda>as_string.
        t_bind (t_assert ''Value should be in JSON format'' (str_contains quoted_id as_string \<or> str_contains ''id'' as_string)) (\<lambda>_.
        still_readable backend key response)))))"

definition test_bitcode_key_bincode_value ::
  "cache_key_format \<Rightarrow> ('s, test_response, 'z) cache_backend_scheme \<Rightarrow> ('s, unit) test" where
  "test_bitcode_key_bincode_value key_format backend =
     t_bind (t_assert ''backend should use Bitcode key format'' (key_format = BitcodeKeys)) (\<lambda>_.
     let key = cache_key_from_str ''format-test'' ''bitcode-bincode'';
         response = test_response_new 103 ''bitcode-bincode-test'' [10, 11, 12];
         v = cache_value_new response None None
     in t_bind (t_expect ''failed to write'' (kb_set backend key v fresh_ctx)) (\<lambda>_.
        t_bind (decompressed_value backend key) (\<lambda>decompressed.
        t_bind (t_assert ''Value should be in Bincode format (binary), not JSON''
          (case from_utf8 decompressed of None \<Rightarrow> True | Some as_string \<Rightarrow> \<not> str_contains quoted_id as_string)) (\<lambda>_.
        still_readable backend key response))))"

definition compression_response :: test_response where
  "compression_response = test_response_new 999 ''compression-test-data'' (replicate 10000 42)"

definition test_compression_is_used :: "('s, test_response, 'z) cache_backend_scheme \<Rightarrow> ('s, unit) test" where
  "test_compression_is_used backend =
     (let key = cache_key_from_str ''compression-test'' ''verify-compression'';
          v = cache_value_new compression_response None None
      in t_bind (t_result ''failed to serialize'' (format_serialize (be_format backend) compression_response fresh_ctx)) (\<lambda>serialized.
         t_bind (t_expect ''failed to write to backend'' (kb_set backend key v fresh_ctx)) (\<lambda>_.
         t_bind (read_raw backend key) (\<lambda>raw_value.
         t_bind (t_assert ''Stored data should be different from serialized data if compression is applied''
           (cv_data raw_value \<noteq> serialized)) (\<lambda>_.
         still_readable backend key compression_response)))))"

section \<open>The contract\<close>

text \<open>A value as a backend may give it back: the expiry may come back up to a second and a
  millisecond early, and late by what the run took; the stale time may lose what is below a millisecond.\<close>

definition near :: "'a cache_value \<Rightarrow> 'a cache_value \<Rightarrow> bool" where
  "near v v' \<longleftrightarrow> cv_data v' = cv_data v \<and>
     (case (cv_expire v', cv_expire v) of
        (Some a, Some e) \<Rightarrow> e - 1001000000 < a \<and> a \<le> e + seconds 1
      | (None, None) \<Rightarrow> True
      | _ \<Rightarrow> False) \<and>
     map_option timestamp_millis (cv_stale v') = map_option timestamp_millis (cv_stale v)"

text \<open>Values that live long enough, with times that can be written down, and values without times.\<close>

definition lasting :: "time \<Rightarrow> 'a cache_value \<Rightarrow> bool" where
  "lasting t v \<longleftrightarrow> (\<forall>e. cv_expire v = Some e \<longrightarrow> t + seconds 3600 \<le> e) \<and> (\<forall>x. cv_stale v = Some x \<longrightarrow> chrono_time x)"

definition plain :: "'a cache_value \<Rightarrow> bool" where
  "plain v \<longleftrightarrow> cv_expire v = None \<and> cv_stale v = None"

lemma near_match:
  assumes "near v v'"
  shows "cv_data v' = cv_data v" "expire_times_match (cv_expire v') (cv_expire v)"
    "stale_times_match (cv_stale v') (cv_stale v)" "cv_expire v' = None \<longleftrightarrow> cv_expire v = None"
    "cv_stale v' = None \<longleftrightarrow> cv_stale v = None"
proof -
  have ms: "\<bar>num_milliseconds d\<bar> \<le> 1000" if "- 1001000000 < d" "d < 1001000000" for d
    using that by (auto simp: num_milliseconds_def)
  show "cv_data v' = cv_data v" "expire_times_match (cv_expire v') (cv_expire v)"
    "stale_times_match (cv_stale v') (cv_stale v)" "cv_expire v' = None \<longleftrightarrow> cv_expire v = None"
    "cv_stale v' = None \<longleftrightarrow> cv_stale v = None"
    using assms
    by (auto simp: near_def expire_times_match_def stale_times_match_def expire_drift_tolerance_ms_def split: option.splits intro!: ms)
qed

lemma expect_world: "snd (t_expect msg f s) = snd (f s)"
  by (auto simp: t_expect_def split: prod.splits sum.splits)

text \<open>A relation between the worlds before and after every operation is one before and after every test.\<close>

locale paced =
  fixes B :: "('s, 'a, 'z) cache_backend_scheme" and later :: "'s \<Rightarrow> 's \<Rightarrow> bool"
  assumes later_refl: "later s s" and later_trans: "later s s1 \<Longrightarrow> later s1 s2 \<Longrightarrow> later s s2"
    and get_later: "later s (snd (kb_get B k ctx s))"
    and set_later: "later s (snd (kb_set B k v ctx s))"
    and delete_later: "later s (snd (kb_delete B k ctx s))"
begin

definition steady :: "('s, 'b) test \<Rightarrow> bool" where
  "steady T \<longleftrightarrow> (\<forall>s. later s (snd (T s)))"

lemma steady_bind: "steady T \<Longrightarrow> (\<And>v. steady (F v)) \<Longrightarrow> steady (t_bind T F)"
  unfolding steady_def
proof
  fix s assume a: "\<forall>s. later s (snd (T s))" "\<And>v. \<forall>s. later s (snd (F v s))"
  obtain r s1 where r: "T s = (r, s1)" by fastforce
  then have "later s s1" using a(1) by (metis snd_conv)
  then show "later s (snd (t_bind T F s))"
    using a(2) r by (cases r) (auto simp: t_bind_def intro: later_trans)
qed

lemma steady_expect: "(\<And>s. later s (snd (f s))) \<Longrightarrow> steady (t_expect msg f)"
  by (simp add: steady_def expect_world)

lemma steady_pure: "steady (t_assert msg b)" "steady (t_some msg' x)" "steady (t_now clk)"
  by (simp_all add: steady_def t_assert_def t_some_def t_now_def later_refl)

lemma steady_for_each: "(\<And>x. steady (F x)) \<Longrightarrow> steady (t_for_each F xs)"
proof (induction xs)
  case Nil
  then show ?case by (simp add: steady_def later_refl)
next
  case (Cons x xs)
  then show ?case by (simp add: steady_bind)
qed

lemma steady_pair: "(\<And>a b. steady (F a b)) \<Longrightarrow> steady (case x of (a, b) \<Rightarrow> F a b)"
  by (cases x) simp

lemmas steady_rules = steady_bind steady_expect steady_pure steady_for_each get_later set_later delete_later

end

locale paced_suite = paced B later
  for B :: "('s, test_response, 'z) cache_backend_scheme" and later
begin

lemma steady_tests:
  "steady (test_write_and_read B)" "steady (test_write_and_read_with_metadata clock B)" "steady (test_delete_existing B)"
  "steady (test_delete_missing B)" "steady (test_read_nonexistent B)" "steady (test_overwrite B)" "steady (test_multiple_keys B)"
  "steady (test_binary_data B)" "steady (test_expire_metadata_exact_match clock B)" "steady (test_stale_metadata_exact_match clock B)"
  "steady (test_expire_and_stale_combined clock B)" "steady (test_no_metadata B)"
  unfolding test_write_and_read_def test_write_and_read_with_metadata_def test_delete_existing_def test_delete_missing_def
    test_read_nonexistent_def test_overwrite_def test_multiple_keys_def test_binary_data_def test_expire_metadata_exact_match_def
    test_stale_metadata_exact_match_def test_expire_and_stale_combined_def test_no_metadata_def Let_def
  by (intro steady_rules steady_pair)+

lemma steady_suite: "steady (run_backend_tests clock B)"
  unfolding run_backend_tests_def by (intro steady_bind steady_tests)

end

text \<open>\<open>holds t s c\<close>: the store \<open>s\<close>, in a run that began at \<open>t\<close>, keeps the values \<open>c\<close>.  The laws bind
  it for as long as the run is not older than a second.\<close>

locale conforming = paced B "\<lambda>s s'. clock s \<le> clock s'"
  for B :: "('s, 'a, 'z) cache_backend_scheme" and clock :: "'s \<Rightarrow> time" +
  fixes okey :: "cache_key \<Rightarrow> bool"
    and holds :: "time \<Rightarrow> 's \<Rightarrow> (cache_key \<Rightarrow> 'a cache_value option) \<Rightarrow> bool"
  assumes started: "holds t s c \<Longrightarrow> t \<le> clock s"
    and get_law: "okey k \<Longrightarrow> holds t s c \<Longrightarrow> kb_get B k fresh_ctx s = ((r, ctx), s') \<Longrightarrow> clock s' \<le> t + seconds 1 \<Longrightarrow>
      holds t s' c \<and> (case c k of None \<Rightarrow> r = Ok None | Some v \<Rightarrow> \<exists>v'. r = Ok (Some v') \<and> near v v')"
    and set_law: "okey k \<Longrightarrow> holds t s c \<Longrightarrow> lasting t v \<Longrightarrow> (\<And>u. c k = Some u \<Longrightarrow> plain u) \<Longrightarrow>
      kb_set B k v fresh_ctx s = ((w, ctx), s') \<Longrightarrow> clock s' \<le> t + seconds 1 \<Longrightarrow> w = Ok () \<and> holds t s' (c(k \<mapsto> v))"
    and delete_law: "okey k \<Longrightarrow> holds t s c \<Longrightarrow> kb_delete B k fresh_ctx s = ((d, ctx), s') \<Longrightarrow> clock s' \<le> t + seconds 1 \<Longrightarrow>
      d = Ok (if c k = None then Missing else Deleted 1) \<and> holds t s' (c(k := None))"
begin

text \<open>A test that started with the values \<open>c\<close> succeeds, with a result and values that satisfy \<open>Q\<close>,
  if the run is not over time when it is done.\<close>

definition passes :: "time \<Rightarrow> ('s, 'b) test \<Rightarrow> (cache_key \<Rightarrow> 'a cache_value option) \<Rightarrow> ('b \<Rightarrow> (cache_key \<Rightarrow> 'a cache_value option) \<Rightarrow> bool) \<Rightarrow> bool" where
  "passes t T c Q \<longleftrightarrow> (\<forall>s. holds t s c \<longrightarrow> clock (snd (T s)) \<le> t + seconds 1 \<longrightarrow>
     (\<exists>v c'. fst (T s) = Ok v \<and> holds t (snd (T s)) c' \<and> Q v c'))"

lemma passes_bind:
  assumes "passes t T c (\<lambda>v c'. passes t (F v) c' Q)" "\<And>v. steady (F v)"
  shows "passes t (t_bind T F) c Q"
  unfolding passes_def
proof (intro allI impI)
  fix s assume s: "holds t s c" "clock (snd (t_bind T F s)) \<le> t + seconds 1"
  obtain r s1 where r: "T s = (r, s1)" by fastforce
  have "clock s1 \<le> clock (snd (t_bind T F s))"
    using r assms(2) by (cases r) (auto simp: t_bind_def steady_def)
  then obtain v c' where v: "r = Ok v" "holds t s1 c'" "passes t (F v) c' Q"
    using assms(1) s r unfolding passes_def [of t T] by fastforce
  then show "\<exists>v c'. fst (t_bind T F s) = Ok v \<and> holds t (snd (t_bind T F s)) c' \<and> Q v c'"
    using s(2) r by (simp add: t_bind_def passes_def)
qed

lemma passes_mono: "passes t T c Q \<Longrightarrow> (\<And>v c'. Q v c' \<Longrightarrow> R v c') \<Longrightarrow> passes t T c R"
  unfolding passes_def by blast

lemma passes_assert: "b \<Longrightarrow> Q () c \<Longrightarrow> passes t (t_assert msg b) c Q"
  by (auto simp: passes_def t_assert_def)

lemma passes_some: "Q v c \<Longrightarrow> passes t (t_some msg (Some v)) c Q"
  by (auto simp: passes_def t_some_def)

lemma passes_now: "(\<And>x. t \<le> x \<Longrightarrow> x \<le> t + seconds 1 \<Longrightarrow> Q x c) \<Longrightarrow> passes t (t_now clock) c Q"
  using started by (auto simp: passes_def t_now_def)

lemma passes_set:
  assumes "okey k" "lasting t v" "\<And>u. c k = Some u \<Longrightarrow> plain u" "Q () (c(k \<mapsto> v))"
  shows "passes t (t_expect msg (kb_set B k v fresh_ctx)) c Q"
  unfolding passes_def
proof (intro allI impI)
  fix s assume s: "holds t s c" "clock (snd (t_expect msg (kb_set B k v fresh_ctx) s)) \<le> t + seconds 1"
  obtain w ctx s' where w: "kb_set B k v fresh_ctx s = ((w, ctx), s')" by (metis surj_pair)
  then have "clock s' \<le> t + seconds 1" using s(2) by (cases w) (simp_all add: t_expect_def)
  from set_law [OF assms(1) s(1) assms(2,3) w this]
  show "\<exists>v' c'. fst (t_expect msg (kb_set B k v fresh_ctx) s) = Ok v' \<and> holds t (snd (t_expect msg (kb_set B k v fresh_ctx) s)) c' \<and> Q v' c'"
    using w assms(4) by (auto simp: t_expect_def)
qed

lemma passes_get:
  assumes "okey k" "c k = None \<Longrightarrow> Q None c" "\<And>v v'. c k = Some v \<Longrightarrow> near v v' \<Longrightarrow> Q (Some v') c"
  shows "passes t (t_expect msg (kb_get B k fresh_ctx)) c Q"
  unfolding passes_def
proof (intro allI impI)
  fix s assume s: "holds t s c" "clock (snd (t_expect msg (kb_get B k fresh_ctx) s)) \<le> t + seconds 1"
  obtain r ctx s' where r: "kb_get B k fresh_ctx s = ((r, ctx), s')" by (metis surj_pair)
  then have "clock s' \<le> t + seconds 1" using s(2) by (cases r) (simp_all add: t_expect_def)
  from get_law [OF assms(1) s(1) r this]
  show "\<exists>v' c'. fst (t_expect msg (kb_get B k fresh_ctx) s) = Ok v' \<and> holds t (snd (t_expect msg (kb_get B k fresh_ctx) s)) c' \<and> Q v' c'"
    using r assms(2,3) by (cases "c k") (auto simp: t_expect_def; blast)+
qed

lemma passes_delete:
  assumes "okey k" "Q (if c k = None then Missing else Deleted 1) (c(k := None))"
  shows "passes t (t_expect msg (kb_delete B k fresh_ctx)) c Q"
  unfolding passes_def
proof (intro allI impI)
  fix s assume s: "holds t s c" "clock (snd (t_expect msg (kb_delete B k fresh_ctx) s)) \<le> t + seconds 1"
  obtain d ctx s' where d: "kb_delete B k fresh_ctx s = ((d, ctx), s')" by (metis surj_pair)
  then have "clock s' \<le> t + seconds 1" using s(2) by (cases d) (simp_all add: t_expect_def)
  from delete_law [OF assms(1) s(1) d this]
  show "\<exists>v' c'. fst (t_expect msg (kb_delete B k fresh_ctx) s) = Ok v' \<and> holds t (snd (t_expect msg (kb_delete B k fresh_ctx) s)) c' \<and> Q v' c'"
    using d assms(2) by (auto simp: t_expect_def)
qed

lemma passes_nil: "Q () c \<Longrightarrow> passes t (t_for_each F []) c Q"
  by (auto simp: passes_def)

lemma passes_cons: "passes t (t_bind (F x) (\<lambda>_. t_for_each F xs)) c Q \<Longrightarrow> passes t (t_for_each F (x # xs)) c Q"
  by simp

lemmas pass_rules = passes_bind passes_set passes_get passes_delete passes_assert passes_some passes_now passes_nil passes_cons

end

section \<open>A conforming backend passes the suite\<close>

abbreviation test_key :: "string \<Rightarrow> cache_key" where
  "test_key \<equiv> cache_key_from_str ''test''"

definition free :: "string list \<Rightarrow> (cache_key \<Rightarrow> 'a cache_value option) \<Rightarrow> bool" where
  "free names c \<longleftrightarrow> (\<forall>n \<in> set names. c (test_key n) = None)"

lemma test_key_inj [simp]: "test_key a = test_key b \<longleftrightarrow> a = b"
  by (auto simp: cache_key_from_str_def key_part_new_def Let_def)

lemma free_simps [simp]:
  "free [] c" "free (n # ns) c \<longleftrightarrow> c (test_key n) = None \<and> free ns c"
  "n \<notin> set ns \<Longrightarrow> free ns (c(test_key n := x)) \<longleftrightarrow> free ns c"
  by (auto simp: free_def)

lemma values_last [simp]:
  "plain (cache_value_new d None None)" "lasting t (cache_value_new d None None)"
  by (simp_all add: plain_def lasting_def)

abbreviation suite_names :: "string list" where
  "suite_names \<equiv> [''write-read'', ''with-metadata'', ''delete-existing'', ''delete-missing'', ''nonexistent'', ''overwrite'',
     ''multi-1'', ''multi-2'', ''multi-3'', ''binary'', ''expire-exact'', ''stale-exact'', ''expire-stale-combined'', ''no-metadata'']"

text \<open>The times the suite writes are in chrono's years.\<close>

definition era :: "time \<Rightarrow> bool" where
  "era t \<longleftrightarrow> chrono_time t \<and> chrono_time (t + seconds 90000)"

locale suite = conforming B clock okey holds + paced_suite B "\<lambda>s s'. clock s \<le> clock s'"
  for B :: "('s, test_response, 'z) cache_backend_scheme" and clock okey holds +
  assumes test_keys: "n \<noteq> [] \<Longrightarrow> okey (test_key n)"
begin

lemma pass_write_and_read:
  "free (''write-read'' # ns) c \<Longrightarrow> ''write-read'' \<notin> set ns \<Longrightarrow> passes t (test_write_and_read B) c (\<lambda>_. free ns)"
  unfolding test_write_and_read_def Let_def
  by (intro pass_rules steady_rules) (auto simp: test_keys dest: near_match)

lemma pass_delete_existing:
  "free (''delete-existing'' # ns) c \<Longrightarrow> ''delete-existing'' \<notin> set ns \<Longrightarrow> passes t (test_delete_existing B) c (\<lambda>_. free ns)"
  unfolding test_delete_existing_def Let_def
  by (intro pass_rules steady_rules) (auto simp: test_keys)

lemma pass_delete_missing:
  "free (''delete-missing'' # ns) c \<Longrightarrow> ''delete-missing'' \<notin> set ns \<Longrightarrow> passes t (test_delete_missing B) c (\<lambda>_. free ns)"
  unfolding test_delete_missing_def Let_def
  by (intro pass_rules steady_rules) (auto simp: test_keys)

lemma pass_read_nonexistent:
  "free (''nonexistent'' # ns) c \<Longrightarrow> passes t (test_read_nonexistent B) c (\<lambda>_. free ns)"
  unfolding test_read_nonexistent_def Let_def
  by (intro pass_rules steady_rules) (auto simp: test_keys)

lemma pass_overwrite:
  "free (''overwrite'' # ns) c \<Longrightarrow> ''overwrite'' \<notin> set ns \<Longrightarrow> passes t (test_overwrite B) c (\<lambda>_. free ns)"
  unfolding test_overwrite_def Let_def
  by (intro pass_rules steady_rules) (auto simp: test_keys dest: near_match)

lemma pass_multiple_keys:
  "free (''multi-1'' # ''multi-2'' # ''multi-3'' # ns) c \<Longrightarrow> ''multi-1'' \<notin> set ns \<Longrightarrow> ''multi-2'' \<notin> set ns \<Longrightarrow> ''multi-3'' \<notin> set ns
     \<Longrightarrow> passes t (test_multiple_keys B) c (\<lambda>_. free ns)"
  unfolding test_multiple_keys_def Let_def t_for_each.simps(2) prod.case
  by (intro pass_rules steady_rules steady_pair) (auto simp: test_keys dest: near_match)

lemma pass_binary_data:
  "free (''binary'' # ns) c \<Longrightarrow> ''binary'' \<notin> set ns \<Longrightarrow> passes t (test_binary_data B) c (\<lambda>_. free ns)"
  unfolding test_binary_data_def Let_def
  by (intro pass_rules steady_rules) (auto simp: test_keys test_response_new_def dest!: near_match(1))

lemma pass_no_metadata:
  "free (''no-metadata'' # ns) c \<Longrightarrow> ''no-metadata'' \<notin> set ns \<Longrightarrow> passes t (test_no_metadata B) c (\<lambda>_. free ns)"
  unfolding test_no_metadata_def Let_def
  by (intro pass_rules steady_rules) (auto simp: test_keys dest: near_match)

lemma era_lasting:
  assumes "era t" "t + seconds 3600 \<le> e"
  shows "lasting t (cache_value_new d (Some e) None)"
    and "t \<le> x \<Longrightarrow> x \<le> t + seconds 90000 \<Longrightarrow> lasting t (cache_value_new d (Some e) (Some x))"
proof -
  show "lasting t (cache_value_new d (Some e) None)" using assms(2) by (simp add: lasting_def)
  assume "t \<le> x" "x \<le> t + seconds 90000"
  then have "timestamp t \<le> timestamp x" "timestamp x \<le> timestamp (t + seconds 90000)"
    unfolding timestamp_def by (simp_all add: zdiv_mono1)
  then show "lasting t (cache_value_new d (Some e) (Some x))"
    using assms by (auto simp: lasting_def era_def chrono_time_def)
qed

lemma pass_with_metadata:
  "free (''with-metadata'' # ns) c \<Longrightarrow> ''with-metadata'' \<notin> set ns \<Longrightarrow> era t \<Longrightarrow> passes t (test_write_and_read_with_metadata clock B) c (\<lambda>_. free ns)"
  unfolding test_write_and_read_with_metadata_def Let_def
  by (intro pass_rules steady_rules) (auto simp: test_keys intro: era_lasting dest: near_match)

lemma pass_expire:
  "free (''expire-exact'' # ns) c \<Longrightarrow> ''expire-exact'' \<notin> set ns \<Longrightarrow> era t \<Longrightarrow> passes t (test_expire_metadata_exact_match clock B) c (\<lambda>_. free ns)"
  unfolding test_expire_metadata_exact_match_def Let_def
  by (intro pass_rules steady_rules) (auto simp: test_keys intro: era_lasting dest: near_match)

lemma pass_stale:
  "free (''stale-exact'' # ns) c \<Longrightarrow> ''stale-exact'' \<notin> set ns \<Longrightarrow> era t \<Longrightarrow> passes t (test_stale_metadata_exact_match clock B) c (\<lambda>_. free ns)"
  unfolding test_stale_metadata_exact_match_def Let_def
  by (intro pass_rules steady_rules) (auto simp: test_keys intro: era_lasting dest: near_match)

lemma pass_combined:
  "free (''expire-stale-combined'' # ns) c \<Longrightarrow> ''expire-stale-combined'' \<notin> set ns \<Longrightarrow> era t \<Longrightarrow> passes t (test_expire_and_stale_combined clock B) c (\<lambda>_. free ns)"
  unfolding test_expire_and_stale_combined_def Let_def
  by (intro pass_rules steady_rules) (auto simp: test_keys intro: era_lasting dest: near_match)

text \<open>A test that needs the first names free leaves the others free.\<close>

definition good :: "time \<Rightarrow> ('s, 'b) test \<Rightarrow> string list \<Rightarrow> string list \<Rightarrow> bool" where
  "good t T ns ms \<longleftrightarrow> steady T \<and> (\<forall>c. free ns c \<longrightarrow> passes t T c (\<lambda>_. free ms))"

lemma goodI: "steady T \<Longrightarrow> (\<And>c. free ns c \<Longrightarrow> passes t T c (\<lambda>_. free ms)) \<Longrightarrow> good t T ns ms"
  by (simp add: good_def)

lemma good_bind: "good t T ns ms \<Longrightarrow> good t U ms ks \<Longrightarrow> good t (t_bind T (\<lambda>_. U)) ns ks"
  unfolding good_def by (blast intro: steady_bind passes_bind passes_mono)

lemma good_tests:
  "''write-read'' \<notin> set ns \<Longrightarrow> good t (test_write_and_read B) (''write-read'' # ns) ns"
  "''with-metadata'' \<notin> set ns \<Longrightarrow> era t \<Longrightarrow> good t (test_write_and_read_with_metadata clock B) (''with-metadata'' # ns) ns"
  "''delete-existing'' \<notin> set ns \<Longrightarrow> good t (test_delete_existing B) (''delete-existing'' # ns) ns"
  "''delete-missing'' \<notin> set ns \<Longrightarrow> good t (test_delete_missing B) (''delete-missing'' # ns) ns"
  "good t (test_read_nonexistent B) (''nonexistent'' # ns) ns"
  "''overwrite'' \<notin> set ns \<Longrightarrow> good t (test_overwrite B) (''overwrite'' # ns) ns"
  "''multi-1'' \<notin> set ns \<Longrightarrow> ''multi-2'' \<notin> set ns \<Longrightarrow> ''multi-3'' \<notin> set ns
     \<Longrightarrow> good t (test_multiple_keys B) (''multi-1'' # ''multi-2'' # ''multi-3'' # ns) ns"
  "''binary'' \<notin> set ns \<Longrightarrow> good t (test_binary_data B) (''binary'' # ns) ns"
  "''expire-exact'' \<notin> set ns \<Longrightarrow> era t \<Longrightarrow> good t (test_expire_metadata_exact_match clock B) (''expire-exact'' # ns) ns"
  "''stale-exact'' \<notin> set ns \<Longrightarrow> era t \<Longrightarrow> good t (test_stale_metadata_exact_match clock B) (''stale-exact'' # ns) ns"
  "''expire-stale-combined'' \<notin> set ns \<Longrightarrow> era t
     \<Longrightarrow> good t (test_expire_and_stale_combined clock B) (''expire-stale-combined'' # ns) ns"
  "''no-metadata'' \<notin> set ns \<Longrightarrow> good t (test_no_metadata B) (''no-metadata'' # ns) ns"
  by (intro goodI steady_tests pass_write_and_read pass_with_metadata pass_delete_existing pass_delete_missing pass_read_nonexistent
      pass_overwrite pass_multiple_keys pass_binary_data pass_expire pass_stale pass_combined pass_no_metadata; assumption)+

lemma suite_passes:
  assumes "holds t s c" "free suite_names c" "era t" "clock (snd (run_backend_tests clock B s)) \<le> t + seconds 1"
  shows "fst (run_backend_tests clock B s) = Ok ()"
proof -
  have "good t (run_backend_tests clock B) suite_names []"
    unfolding run_backend_tests_def by (rule good_bind good_tests | rule assms(3) | simp)+
  then show ?thesis using assms(1,2,4) unfolding good_def passes_def by auto
qed

end

end
