(* ===== verification/Conformance_Stores.thy ===== *)
theory Conformance_Stores
  imports Conformance Store_Redis Store_Feoxdb
begin

text \<open>
  The three store crates pass the conformance suite of the test crate, when nothing is evicted, no call
  fails and the run takes at most a second: what the suite asks of a typed backend follows from what its
  raw operations keep, and each store's client library keeps it under laws on its own operations.
\<close>

section \<open>From the raw operations to the typed ones\<close>

definition total_format :: "'a format \<Rightarrow> bool" where
  "total_format F \<longleftrightarrow> (\<forall>v ctx. is_ok (fm_ser F v ctx))"

definition total_compressor :: "compressor \<Rightarrow> bool" where
  "total_compressor C \<longleftrightarrow> (\<forall>b. is_ok (cp_compress C b))"

lemma cache_get_world: "snd (cache_get B k ctx s) = snd (be_read B k s)"
  by (auto simp: cache_get_def cache_set_def Let_def split: prod.splits sum.splits option.splits)

lemma cache_set_world: "snd (cache_set B k v ctx s) = s \<or> (\<exists>u. snd (cache_set B k v ctx s) = snd (be_write B k u s))"
proof -
  have "snd (case be_write B k u s of (r, s') \<Rightarrow> ((r, ctx), s')) = snd (be_write B k u s)" for u
    by (simp add: case_prod_beta)
  then show ?thesis unfolding cache_set_def by (auto split: sum.splits simp del: split_paired_Ex)
qed

lemma cache_get_miss: "be_read B k s = (Ok None, s') \<Longrightarrow> cache_get B k ctx s = ((Ok None, ctx), s')"
  by (simp add: cache_get_def)

lemma cache_get_hit:
  assumes "be_read B k s = (Ok (Some u), s')" "cp_decompress (be_compressor B) (cv_data u) = Ok b"
    and "fst (fm_de (be_format B) b ctx) = Ok (Some x)"
  shows "\<exists>ctx'. cache_get B k ctx s = ((Ok (Some (cache_value_new x (cv_expire u) (cv_stale u))), ctx'), s')"
proof -
  obtain ctx1 where "fm_de (be_format B) b ctx = (Ok (Some x), ctx1)" using assms(3) by (cases "fm_de (be_format B) b ctx") simp
  then show ?thesis using assms(1,2)
    by (auto simp: cache_get_def cache_set_def into_parts_def cache_meta_new_def Let_def)
qed

lemma dyn_kb:
  "kb_get (dyn_backend B) = cache_get B" "kb_set (dyn_backend B) = cache_set B" "kb_delete (dyn_backend B) = cache_delete B"
  by (simp_all add: dyn_backend_def)

lemma paced_dyn:
  assumes "\<And>s. later s s" "\<And>s s1 s2. later s s1 \<Longrightarrow> later s1 s2 \<Longrightarrow> later s s2"
    and "\<And>k s. later s (snd (be_read B k s))" "\<And>k u s. later s (snd (be_write B k u s))" "\<And>k s. later s (snd (be_remove B k s))"
  shows "paced (dyn_backend B) later"
proof (unfold_locales, unfold dyn_kb)
  show "later s (snd (cache_set B k v ctx s))" for s k v ctx
    using cache_set_world [of B k v ctx s] assms(1,4) by auto
  show "later s (snd (cache_delete B k ctx s))" for s k ctx
    using assms(5) [of s k] by (simp add: cache_delete_def case_prod_beta)
  show "later s (snd (cache_get B k ctx s))" for s k ctx
    using assms(3) by (simp add: cache_get_world)
qed (use assms in blast)+

lemma dyn_backend_sel:
  "be_read (dyn_backend B) = be_read B" "be_format (dyn_backend B) = be_format B" "be_compressor (dyn_backend B) = be_compressor B"
  by (simp_all add: dyn_backend_def)

definition stored :: "('s, 'a, 'z) backend_scheme \<Rightarrow> 'a cache_value \<Rightarrow> bytes cache_value \<Rightarrow> bool" where
  "stored B v u \<longleftrightarrow> encoded B (cv_data v) (cv_data u) \<and> cv_expire u = cv_expire v \<and> cv_stale u = cv_stale v"

definition typed_keeps ::
  "('s, 'a, 'z) backend_scheme \<Rightarrow> (time \<Rightarrow> 's \<Rightarrow> (cache_key \<Rightarrow> bytes cache_value option) \<Rightarrow> bool)
     \<Rightarrow> time \<Rightarrow> 's \<Rightarrow> (cache_key \<Rightarrow> 'a cache_value option) \<Rightarrow> bool" where
  "typed_keeps B keeps t s c \<longleftrightarrow> (\<exists>d. keeps t s d \<and> (\<forall>k. rel_option (stored B) (c k) (d k)))"

locale prompt_store =
  fixes B :: "('s, 'a, 'z) backend_scheme"
    and clock :: "'s \<Rightarrow> time"
    and okey :: "cache_key \<Rightarrow> bool"
    and keeps :: "time \<Rightarrow> 's \<Rightarrow> (cache_key \<Rightarrow> bytes cache_value option) \<Rightarrow> bool"
  assumes read_mono: "clock s \<le> clock (snd (be_read B k s))"
    and write_mono: "clock s \<le> clock (snd (be_write B k u s))"
    and remove_mono: "clock s \<le> clock (snd (be_remove B k s))"
    and began: "keeps t s d \<Longrightarrow> t \<le> clock s"
    and read_keeps: "okey k \<Longrightarrow> keeps t s d \<Longrightarrow> be_read B k s = (r, s') \<Longrightarrow> clock s' \<le> t + seconds 1 \<Longrightarrow>
      keeps t s' d \<and> (case d k of None \<Rightarrow> r = Ok None | Some u \<Rightarrow> \<exists>u'. r = Ok (Some u') \<and> near u u')"
    and write_keeps: "okey k \<Longrightarrow> keeps t s d \<Longrightarrow> lasting t u \<Longrightarrow> (\<And>x. d k = Some x \<Longrightarrow> plain x) \<Longrightarrow>
      be_write B k u s = (w, s') \<Longrightarrow> clock s' \<le> t + seconds 1 \<Longrightarrow> w = Ok () \<and> keeps t s' (d(k \<mapsto> u))"
    and remove_keeps: "okey k \<Longrightarrow> keeps t s d \<Longrightarrow> be_remove B k s = (q, s') \<Longrightarrow> clock s' \<le> t + seconds 1 \<Longrightarrow>
      q = Ok (if d k = None then Missing else Deleted 1) \<and> keeps t s' (d(k := None))"
    and lossless: "lossless_format (be_format B)" "lossless_compressor (be_compressor B)"
    and total: "total_format (be_format B)" "total_compressor (be_compressor B)"
begin

lemma typed_get:
  assumes "okey k" "typed_keeps B keeps t s c" "cache_get B k fresh_ctx s = ((r, ctx), s')" "clock s' \<le> t + seconds 1"
  shows "typed_keeps B keeps t s' c \<and> (case c k of None \<Rightarrow> r = Ok None | Some v \<Rightarrow> \<exists>v'. r = Ok (Some v') \<and> near v v')"
proof -
  obtain d where d: "keeps t s d" "\<forall>k. rel_option (stored B) (c k) (d k)" using assms(2) unfolding typed_keeps_def by blast
  obtain q s1 where q: "be_read B k s = (q, s1)" by fastforce
  have s1: "s1 = s'" using cache_get_world [of B k fresh_ctx s] q assms(3) by simp
  note rk = read_keeps [OF assms(1) d(1) q [unfolded s1] assms(4)]
  have rel: "rel_option (stored B) (c k) (d k)" using d(2) by blast
  show ?thesis
  proof (cases "d k")
    case None
    then have "q = Ok None" "c k = None" using rk rel by (auto simp: option_rel_Some2)
    then show ?thesis using cache_get_miss [OF q [unfolded \<open>q = Ok None\<close>]] assms(3) rk d(2) s1 by (auto simp: typed_keeps_def)
  next
    case (Some u)
    then obtain v u' where v: "c k = Some v" "stored B v u" and u': "q = Ok (Some u')" "near u u'"
      using rk rel by (auto simp: option_rel_Some2)
    obtain ctx1 b where b: "fm_ser (be_format B) (cv_data v) ctx1 = Ok b" "cp_compress (be_compressor B) b = Ok (cv_data u)"
      using v(2) unfolding stored_def encoded_def by blast
    have "cp_decompress (be_compressor B) (cv_data u') = Ok b" "fst (fm_de (be_format B) b fresh_ctx) = Ok (Some (cv_data v))"
      using lossless b u'(2) unfolding lossless_format_def lossless_compressor_def near_def by auto
    from cache_get_hit [OF q [unfolded u'(1)] this]
    have r: "r = Ok (Some (cache_value_new (cv_data v) (cv_expire u') (cv_stale u')))" using assms(3) by auto
    have "near v (cache_value_new (cv_data v) (cv_expire u') (cv_stale u'))"
      using u'(2) v(2) unfolding near_def stored_def by simp
    then show ?thesis using r v(1) rk d(2) by (auto simp: typed_keeps_def)
  qed
qed

lemma typed_set:
  assumes "okey k" "typed_keeps B keeps t s c" "lasting t v" "\<And>u. c k = Some u \<Longrightarrow> plain u"
    and "cache_set B k v fresh_ctx s = ((w, ctx), s')" "clock s' \<le> t + seconds 1"
  shows "w = Ok () \<and> typed_keeps B keeps t s' (c(k \<mapsto> v))"
proof -
  obtain d where d: "keeps t s d" "\<forall>k. rel_option (stored B) (c k) (d k)" using assms(2) unfolding typed_keeps_def by blast
  obtain b z where z: "fm_ser (be_format B) (cv_data v) fresh_ctx = Ok b" "cp_compress (be_compressor B) b = Ok z"
    using total unfolding total_format_def total_compressor_def by (meson is_ok_iff)
  let ?u = "cache_value_new z (cv_expire v) (cv_stale v)"
  have w: "be_write B k ?u s = (w, s')"
    using assms(5) z by (auto simp: cache_set_def cache_context_default_def split: prod.splits)
  have "plain x" if "d k = Some x" for x
    using that d(2) assms(4) by (force simp: option_rel_Some2 plain_def stored_def dest: spec [of _ k])
  then have "w = Ok () \<and> keeps t s' (d(k \<mapsto> ?u))"
    using write_keeps [OF assms(1) d(1) _ _ w assms(6)] assms(3) by (simp add: lasting_def)
  moreover have "stored B v ?u" using z by (auto simp: stored_def encoded_def)
  ultimately show ?thesis using d(2) unfolding typed_keeps_def by (intro conjI exI [of _ "d(k \<mapsto> ?u)"]) auto
qed

lemma typed_delete:
  assumes "okey k" "typed_keeps B keeps t s c" "cache_delete B k fresh_ctx s = ((q, ctx), s')" "clock s' \<le> t + seconds 1"
  shows "q = Ok (if c k = None then Missing else Deleted 1) \<and> typed_keeps B keeps t s' (c(k := None))"
proof -
  obtain d where d: "keeps t s d" "\<forall>k. rel_option (stored B) (c k) (d k)" using assms(2) unfolding typed_keeps_def by blast
  have "be_remove B k s = (q, s')" using assms(3) by (auto simp: cache_delete_def split: prod.splits)
  from remove_keeps [OF assms(1) d(1) this assms(4)]
  have "q = Ok (if d k = None then Missing else Deleted 1)" "keeps t s' (d(k := None))" by auto
  moreover have "c k = None \<longleftrightarrow> d k = None" using d(2) by (metis rel_option_None1 rel_option_None2)
  ultimately show ?thesis using d(2) unfolding typed_keeps_def by (intro conjI exI [of _ "d(k := None)"]) auto
qed

lemma paced: "paced (dyn_backend B) (\<lambda>s s'. clock s \<le> clock s')"
  by (rule paced_dyn) (use read_mono write_mono remove_mono in auto)

lemma conforms: "conforming (dyn_backend B) clock okey (typed_keeps B keeps)"
proof (intro conforming.intro paced conforming_axioms.intro, unfold dyn_kb)
  show "typed_keeps B keeps t s c \<Longrightarrow> t \<le> clock s" for t s c
    using began unfolding typed_keeps_def by blast
qed (rule typed_get typed_set typed_delete; assumption)+

lemma write_after_set:
  assumes "okey k" "keeps t s d" "d k = None" "lasting t v" "cache_set B k v fresh_ctx s = ((w, ctx), s1)" "clock s1 \<le> t + seconds 1"
    and "fm_ser (be_format B) (cv_data v) fresh_ctx = Ok b" "cp_compress (be_compressor B) b = Ok z"
  shows "w = Ok () \<and> keeps t s1 (d(k \<mapsto> cache_value_new z (cv_expire v) (cv_stale v)))"
proof -
  let ?u = "cache_value_new z (cv_expire v) (cv_stale v)"
  have "be_write B k ?u s = (w, s1)"
    using assms(5,7,8) by (auto simp: cache_set_def cache_context_default_def split: prod.splits)
  then show ?thesis using write_keeps [OF assms(1,2), of ?u] assms(3,4,6) by (simp add: lasting_def)
qed

end

sublocale prompt_store < conforming "dyn_backend B" clock okey "typed_keeps B keeps"
  by (rule conforms)

locale response_store = prompt_store B clock okey keeps
  for B :: "('s, test_response, 'z) backend_scheme" and clock okey keeps
begin

lemma steady_raw: "steady (read_raw (dyn_backend B) k)"
proof -
  have "clock s \<le> clock (snd (case be_read B k s of (r, s) \<Rightarrow> ((r, ()), s)))" for s
    using read_mono [of s k] by (simp add: case_prod_beta)
  then show ?thesis unfolding read_raw_def dyn_backend_sel by (intro steady_bind steady_expect steady_pure)
qed

lemma steady_readable: "steady (still_readable (dyn_backend B) k x)"
  unfolding still_readable_def by (intro steady_rules)

lemma readable_passes: "okey k \<Longrightarrow> c k = Some v \<Longrightarrow> cv_data v = x \<Longrightarrow> passes t (still_readable (dyn_backend B) k x) c (\<lambda>_ _. True)"
  unfolding still_readable_def by (intro pass_rules steady_rules) (auto dest: near_match)

lemma compression_test:
  assumes "okey (cache_key_from_str ''compression-test'' ''verify-compression'')"
    and "keeps t s (\<lambda>k. None)" "clock (snd (test_compression_is_used (dyn_backend B) s)) \<le> t + seconds 1"
    and "fm_ser (be_format B) compression_response fresh_ctx = Ok b" "cp_compress (be_compressor B) b = Ok z"
  shows "fst (test_compression_is_used (dyn_backend B) s) = Ok () \<longleftrightarrow> z \<noteq> b"
proof -
  let ?k = "cache_key_from_str ''compression-test'' ''verify-compression''" and ?v = "cache_value_new compression_response None None"
  let ?check = "\<lambda>raw_value. t_bind (t_assert ''Stored data should be different from serialized data if compression is applied''
     (cv_data raw_value \<noteq> b)) (\<lambda>_. still_readable (dyn_backend B) ?k compression_response)"
  obtain w ctx s1 where w: "cache_set B ?k ?v fresh_ctx s = ((w, ctx), s1)" by (metis surj_pair)
  obtain r s2 where r: "be_read B ?k s1 = (r, s2)" by fastforce
  have T: "test_compression_is_used (dyn_backend B) s
    = t_bind (t_expect ''failed to write to backend'' (kb_set (dyn_backend B) ?k ?v fresh_ctx)) (\<lambda>_. t_bind (read_raw (dyn_backend B) ?k) ?check) s"
    using assms(4) by (simp add: test_compression_is_used_def Let_def t_bind_def [of "t_result _ _"] t_result_def format_serialize_def dyn_backend_sel)
  have st: "steady (t_bind (read_raw (dyn_backend B) ?k) ?check)" "steady (?check x)" for x
    by (intro steady_bind steady_raw steady_pure steady_readable)+
  have "clock s1 \<le> clock (snd (test_compression_is_used (dyn_backend B) s))"
    unfolding T using w st(1) by (cases w) (simp_all add: t_bind_def t_expect_def dyn_kb steady_def)
  then have w2: "w = Ok ()" "keeps t s1 ((\<lambda>k. None)(?k \<mapsto> cache_value_new z None None))"
    using write_after_set [OF assms(1,2) _ _ w _ _ assms(5)] assms(3,4) by (simp_all add: lasting_def)
  have T2: "test_compression_is_used (dyn_backend B) s = t_bind (read_raw (dyn_backend B) ?k) ?check s1"
    unfolding T using w w2(1) by (simp add: t_bind_def [of "t_expect _ _"] t_expect_def dyn_kb)
  have "clock s2 \<le> clock (snd (test_compression_is_used (dyn_backend B) s))"
    unfolding T2 read_raw_def using r st(2)
    by (auto simp: t_bind_def t_expect_def t_some_def dyn_backend_sel steady_def split: sum.splits option.splits)
  then have s2: "clock s2 \<le> t + seconds 1" using assms(3) by simp
  from read_keeps [OF assms(1) w2(2) r s2]
  obtain u where u: "r = Ok (Some u)" "cv_data u = z" "keeps t s2 ((\<lambda>k. None)(?k \<mapsto> cache_value_new z None None))"
    by (auto simp: near_def)
  have T3: "test_compression_is_used (dyn_backend B) s = ?check u s2"
    unfolding T2 read_raw_def using r u by (simp add: t_bind_def [of "t_bind _ _"] t_bind_def [of "t_expect _ _"] t_expect_def t_some_def dyn_backend_sel)
  show ?thesis
  proof (cases "z = b")
    case True
    then show ?thesis unfolding T3 using u by (simp add: t_bind_def t_assert_def)
  next
    case False
    have h: "typed_keeps B keeps t s2 ((\<lambda>k. None)(?k \<mapsto> ?v))"
      unfolding typed_keeps_def using u(3) assms(4,5)
      by (intro exI [of _ "(\<lambda>k. None)(?k \<mapsto> cache_value_new z None None)"]) (auto simp: stored_def encoded_def)
    have "test_compression_is_used (dyn_backend B) s = still_readable (dyn_backend B) ?k compression_response s2"
      unfolding T3 using u False by (simp add: t_bind_def t_assert_def)
    then show ?thesis
      using readable_passes [OF assms(1), of "(\<lambda>k. None)(?k \<mapsto> ?v)" ?v compression_response t] h assms(3) False
      unfolding passes_def by auto
  qed
qed

end

lemma typed_empty: "keeps t s (\<lambda>k. None) \<Longrightarrow> typed_keeps B keeps t s (\<lambda>k. None)"
  unfolding typed_keeps_def by (intro exI [of _ "\<lambda>k. None"]) simp

section \<open>Stores that evict nothing\<close>

text \<open>Entries with the time until which they are served.  Nothing but time takes an entry away.\<close>

definition alive :: "time \<Rightarrow> 'v \<times> time option \<Rightarrow> bool" where
  "alive now e \<longleftrightarrow> (\<forall>z. snd e = Some z \<longrightarrow> now < z)"

definition settles :: "time \<Rightarrow> ('k \<Rightarrow> ('v \<times> time option) option) \<Rightarrow> ('k \<Rightarrow> ('v \<times> time option) option) \<Rightarrow> bool" where
  "settles now h h' \<longleftrightarrow> (\<forall>j. h j = None \<longrightarrow> h' j = None) \<and> (\<forall>j e. h j = Some e \<longrightarrow> alive now e \<longrightarrow> h' j = Some e)"

lemma settles_refl: "settles now h h"
  by (simp add: settles_def)

text \<open>The entry that serves a value for a run that began at \<open>t\<close>.\<close>

definition serves :: "time \<Rightarrow> ('u \<Rightarrow> 'v \<Rightarrow> bool) \<Rightarrow> 'u option \<Rightarrow> ('v \<times> time option) option \<Rightarrow> bool" where
  "serves t same u e \<longleftrightarrow> (case u of None \<Rightarrow> e = None
     | Some u \<Rightarrow> (\<exists>v x. e = Some (v, x) \<and> same u v \<and> (\<forall>z. x = Some z \<longrightarrow> t + seconds 3500 \<le> z)))"

lemma serves_settles:
  assumes "serves t same u (h j)" "settles now h h'" "now \<le> t + seconds 1"
  shows "serves t same u (h' j)"
  using assms by (force simp: serves_def settles_def alive_def split: option.splits)

lemma serves_alive:
  assumes "serves t same (Some u) e" "now \<le> t + seconds 1"
  obtains v x where "e = Some (v, x)" "same u v" "alive now (v, x)"
  using assms by (force simp: serves_def alive_def)

lemma near_refl: "near u u"
  by (auto simp: near_def split: option.splits)

section \<open>Moka\<close>

text \<open>A moka that evicts nothing, answers for what it holds until the deadline and never after it, on a clock that does not go
  back.\<close>

locale prompt_moka = timely_moka M held 0
  for M :: "'c moka_ops" and held :: "'c \<Rightarrow> cache_key \<Rightarrow> (bytes cache_value \<times> time option) option" +
  assumes get_time: "mo_get M k c = (r, c') \<Longrightarrow> mo_now M c \<le> mo_now M c'"
    and insert_time: "mo_now M c \<le> mo_now M (mo_insert M k v ttl c)"
    and remove_time: "mo_remove M k c = (r, c') \<Longrightarrow> mo_now M c \<le> mo_now M c'"
    and get_prompt: "mo_get M k c = (r, c') \<Longrightarrow>
      settles (mo_now M c') (held c) (held c') \<and> (\<forall>e. held c k = Some e \<longrightarrow> alive (mo_now M c') e \<longrightarrow> r = Some (fst e))"
    and insert_prompt: "c' = mo_insert M k v ttl c \<Longrightarrow>
      settles (mo_now M c') ((held c)(k \<mapsto> (v, map_option (\<lambda>d. mo_now M c + int d) ttl))) (held c')"
    and remove_prompt: "mo_remove M k c = (r, c') \<Longrightarrow> settles (mo_now M c') ((held c)(k := None)) (held c')
      \<and> (held c k = None \<longrightarrow> r = None) \<and> (\<forall>e. held c k = Some e \<longrightarrow> alive (mo_now M c') e \<longrightarrow> r = Some (fst e))"
begin

lemma get_kept:
  "mo_get M k c = (r, c') \<Longrightarrow> mo_now M c \<le> mo_now M c' \<and> held c' \<subseteq>\<^sub>m held c
    \<and> (\<forall>v. r = Some v \<longrightarrow> (\<exists>d. held c k = Some (v, d) \<and> (\<forall>t. d = Some t \<longrightarrow> mo_now M c < t)))"
  using get_law [of k c r c'] get_time [of k c r c'] get_timely [of k c _ c'] by fastforce

lemma insert_kept:
  "mo_now M c \<le> mo_now M (mo_insert M k v ttl c)
    \<and> held (mo_insert M k v ttl c) \<subseteq>\<^sub>m (held c)(k \<mapsto> (v, map_option (\<lambda>d. mo_now M c + int d) ttl))"
  using insert_law insert_time by blast

lemma remove_kept: "mo_remove M k c = (r, c') \<Longrightarrow> mo_now M c \<le> mo_now M c' \<and> held c' \<subseteq>\<^sub>m (held c)(k := None)"
  using remove_law remove_time by blast

definition keeps :: "time \<Rightarrow> 'c \<Rightarrow> (cache_key \<Rightarrow> bytes cache_value option) \<Rightarrow> bool" where
  "keeps t c d \<longleftrightarrow> t \<le> mo_now M c \<and> (\<forall>k. serves t (=) (d k) (held c k))"

lemma reads:
  assumes "keeps t c d" "moka_read M k c = (r, c')" "mo_now M c' \<le> t + seconds 1"
  shows "keeps t c' d \<and> (case d k of None \<Rightarrow> r = Ok None | Some u \<Rightarrow> \<exists>u'. r = Ok (Some u') \<and> near u u')"
proof -
  obtain q where q: "mo_get M k c = (q, c')" "r = Ok q" using assms(2) by (auto simp: moka_read_def split: prod.splits)
  note p = get_prompt [OF q(1)] and l = get_kept [OF q(1)]
  have s: "serves t (=) (d k) (held c k)" using assms(1) by (simp add: keeps_def)
  have "keeps t c' d" using assms(1,3) p l by (auto simp: keeps_def intro: serves_settles)
  moreover have "case d k of None \<Rightarrow> r = Ok None | Some u \<Rightarrow> \<exists>u'. r = Ok (Some u') \<and> near u u'"
  proof (cases "d k")
    case None
    then have "held c k = None" using s by (simp add: serves_def)
    then show ?thesis using None l q by (cases q) auto
  next
    case (Some u)
    obtain x where "held c k = Some (u, x)" "alive (mo_now M c') (u, x)" using serves_alive [OF s [unfolded Some] assms(3)] by blast
    then show ?thesis using Some p q near_refl by auto
  qed
  ultimately show ?thesis by blast
qed

lemma writes:
  assumes "keeps t c d" "lasting t u" "moka_write M k u c = (w, c')" "mo_now M c' \<le> t + seconds 1"
  shows "w = Ok () \<and> keeps t c' (d(k \<mapsto> u))"
proof -
  let ?ttl = "calculate_ttl (mo_now M c) u"
  have c': "c' = mo_insert M k u ?ttl c" and w: "w = Ok ()" using assms(3) by (simp_all add: moka_write_def expire_after_create_def)
  note l = insert_kept [of c k u ?ttl, folded c'] and p = insert_prompt [OF c']
  have late: "t + seconds 3500 \<le> mo_now M c + int n" if ttl: "?ttl = Some n" for n
  proof -
    obtain e where e: "cv_expire u = Some e" using ttl by (auto simp: calculate_ttl_def)
    show ?thesis using calculate_ttl_bounds(2) [OF e ttl] assms(2) e by (simp add: lasting_def)
  qed
  then have "serves t (=) ((d(k \<mapsto> u)) j) (((held c)(k \<mapsto> (u, map_option (\<lambda>d. mo_now M c + int d) ?ttl))) j)" for j
    using assms(1) by (auto simp: keeps_def serves_def)
  from serves_settles [OF this p assms(4)] show ?thesis using w l assms(1) by (simp add: keeps_def)
qed

lemma removes:
  assumes "keeps t c d" "moka_remove M k c = (q, c')" "mo_now M c' \<le> t + seconds 1"
  shows "q = Ok (if d k = None then Missing else Deleted 1) \<and> keeps t c' (d(k := None))"
proof -
  obtain r where r: "mo_remove M k c = (r, c')" "q = Ok (if r = None then Missing else Deleted 1)"
    using assms(2) by (auto simp: moka_remove_def split: prod.splits option.splits)
  note p = remove_prompt [OF r(1)] and l = remove_kept [OF r(1)]
  have s: "serves t (=) (d j) (held c j)" for j using assms(1) by (simp add: keeps_def)
  have "r = None \<longleftrightarrow> d k = None"
  proof (cases "d k")
    case None
    then show ?thesis using s [of k] p by (simp add: serves_def)
  next
    case (Some u)
    obtain x where "held c k = Some (u, x)" "alive (mo_now M c') (u, x)"
      using serves_alive [OF s [of k, unfolded Some] assms(3)] by blast
    then show ?thesis using Some p by auto
  qed
  moreover have "serves t (=) ((d(k := None)) j) (((held c)(k := None)) j)" for j
    using s by (simp add: serves_def)
  from serves_settles [OF this conjunct1 [OF p] assms(3)] have "keeps t c' (d(k := None))" using assms(1) l by (simp add: keeps_def)
  ultimately show ?thesis using r(2) by simp
qed

lemma prompt:
  assumes "lossless_format (mb_format b)" "lossless_compressor (mb_compressor b)" "total_format (mb_format b)" "total_compressor (mb_compressor b)"
  shows "prompt_store (moka_backend M b) (mo_now M) (\<lambda>k. True) keeps"
proof (unfold_locales, unfold moka_backend_sel)
  show "mo_now M c \<le> mo_now M (snd (moka_read M k c))" for c k
    using get_kept [of k c] by (auto simp: moka_read_def split: prod.splits)
  show "mo_now M c \<le> mo_now M (snd (moka_write M k u c))" for c k u
    using insert_kept [of c k u] by (simp add: moka_write_def)
  show "mo_now M c \<le> mo_now M (snd (moka_remove M k c))" for c k
    using remove_kept [of k c] by (auto simp: moka_remove_def split: prod.splits option.splits)
  show "keeps t c d \<Longrightarrow> t \<le> mo_now M c" for t c d by (simp add: keeps_def)
qed (rule reads writes removes assms; assumption)+

end

section \<open>Redis\<close>

lemma redis_later:
  assumes refl: "\<And>s. later s s" and trans: "\<And>s s1 s2. later s s1 \<Longrightarrow> later s1 s2 \<Longrightarrow> later s s2"
    and connect: "\<And>q s. later s (snd (rd_connect R q s))" and pipeline: "\<And>cmds s. later s (snd (rd_pipeline R cmds s))"
  shows "later (rw_server w) (rw_server (snd (redis_read cc U R g k w)))"
    "later (rw_server w) (rw_server (snd (redis_write cc U R g k v w)))"
    "later (rw_server w) (rw_server (snd (redis_remove cc U R g k w)))"
proof -
  have c: "later (rw_server w) (rw_server (snd (get_connection R g w)))"
    using connect [of "rw_server w" "connect_request_of g"] refl
    by (auto simp: get_connection_def split: prod.splits sum.splits)
  have keyed: "later (rw_server w) (rw_server (snd (with_key cc U R g k f w)))"
    if "\<And>b w. later (rw_server w) (rw_server (snd (f b w)))" for f :: "bytes \<Rightarrow> 'a redis_world \<Rightarrow> ('z, backend_error) result \<times> 'a redis_world"
  proof -
    obtain r w1 where w1: "get_connection R g w = (r, w1)" by fastforce
    then show ?thesis using c that trans
      by (cases r; cases "key_serialize cc U (rg_key_format g) k") (auto simp: with_key_def)
  qed
  have ends: "later (rw_server w) (rw_server (snd (F (query R cmds w))))" if "\<And>r w. snd (F (r, w)) = w"
    for F :: "_ \<Rightarrow> 'z \<times> 'a redis_world" and cmds w
    using that pipeline [of "rw_server w" cmds] by (cases "rd_pipeline R cmds (rw_server w)") (simp add: query_def)
  show "later (rw_server w) (rw_server (snd (redis_read cc U R g k w)))" unfolding redis_read_def
    by (rule keyed, rule ends) (auto simp: Let_def split: sum.splits prod.splits option.splits)
  show "later (rw_server w) (rw_server (snd (redis_write cc U R g k v w)))" unfolding redis_write_def
    by (rule keyed, rule ends) (auto split: prod.splits)
  show "later (rw_server w) (rw_server (snd (redis_remove cc U R g k w)))" unfolding redis_remove_def
    by (rule keyed, rule ends) (auto split: sum.splits prod.splits list.splits redis_reply.splits)
qed

text \<open>A server that runs the commands of a pipeline one by one, while no call fails, nothing is evicted and nobody
  else writes.\<close>

locale reliable_redis = timed_redis R rkeys "(=)" for R :: "'r redis_ops" and rkeys :: "'r \<Rightarrow> redis_keys" +
  assumes connect_ok: "rd_connect R q s = (r, s') \<Longrightarrow> is_ok r" and pipeline_ok: "rd_pipeline R cmds s = (p, s') \<Longrightarrow> is_ok p"
begin

lemma connects_ok:
  assumes "get_connection R g w = (r, w')"
  shows "r = Ok ()" "now w \<le> now w'" "rkeys (rw_server w') = rkeys (rw_server w)"
proof -
  show "now w \<le> now w'" "rkeys (rw_server w') = rkeys (rw_server w)" using connects [OF assms] by auto
  show "r = Ok ()" using assms connect_ok [of "connect_request_of g" "rw_server w"]
    by (cases "rd_connect R (connect_request_of g) (rw_server w)") (auto simp: get_connection_def split: if_splits sum.splits)
qed

lemma queries:
  assumes "query R cmds w = (r, w')"
  obtains rs where "r = Ok rs" "pipeline_runs (=) cmds (now w) (rkeys (rw_server w)) rs (now w') (rkeys (rw_server w'))"
proof -
  obtain p s where p: "rd_pipeline R cmds (rw_server w) = (p, s)" by fastforce
  obtain rs where "p = Ok rs" using pipeline_ok [OF p] by (auto simp: is_ok_iff)
  then have "r = Ok rs" using assms p by (simp add: query_def)
  then show thesis using that query_runs assms by blast
qed

lemma with_key_runs:
  assumes "with_key cc U R g key f w = (r, w')" "key_serialize cc U (rg_key_format g) key = Ok b"
  obtains w1 where "now w \<le> now w1" "rkeys (rw_server w1) = rkeys (rw_server w)" "f b w1 = (r, w')"
  using assms connects_ok [of g w] by (cases "get_connection R g w") (auto simp: with_key_def)

text \<open>The hash that serves a value.\<close>

definition fields_of :: "bytes cache_value \<Rightarrow> string \<Rightarrow> bytes option" where
  "fields_of u = (\<lambda>f. if f = ''d'' then Some (cv_data u)
     else if f = ''s'' then map_option (bytes_of_str \<circ> show_int \<circ> timestamp_millis) (cv_stale u) else None)"

definition deadline_ok :: "time \<Rightarrow> time \<Rightarrow> time option \<Rightarrow> time option \<Rightarrow> bool" where
  "deadline_ok t n expire x \<longleftrightarrow> (case (expire, x) of
     (None, None) \<Rightarrow> True
   | (Some e, Some z) \<Rightarrow> e - seconds 1 < z \<and> z \<le> e + (n - t) \<and> t + seconds 3500 \<le> z
   | _ \<Rightarrow> False)"

definition hash_serves :: "time \<Rightarrow> time \<Rightarrow> bytes cache_value option \<Rightarrow> ((string \<Rightarrow> bytes option) \<times> time option) option \<Rightarrow> bool" where
  "hash_serves t n u e \<longleftrightarrow> (case u of None \<Rightarrow> e = None
     | Some u \<Rightarrow> (\<exists>x. e = Some (fields_of u, x) \<and> (\<forall>y. cv_stale u = Some y \<longrightarrow> chrono_time y) \<and> deadline_ok t n (cv_expire u) x))"

lemma hash_serves_later: "hash_serves t n u e \<Longrightarrow> n \<le> m \<Longrightarrow> hash_serves t m u e"
  by (force simp: hash_serves_def deadline_ok_def split: option.splits)

lemma hash_live:
  assumes "hash_serves t n u (h b)" "z \<le> t + seconds 1"
  shows "rr_live \<lparr>rr_now = z, rr_keys = h\<rparr> b = h b"
  using assms by (force simp: hash_serves_def deadline_ok_def rr_live_def split: option.splits)

definition keeps ::
  "column_codec \<Rightarrow> urlencoding \<Rightarrow> 'a redis_config \<Rightarrow> time \<Rightarrow> 'r redis_world \<Rightarrow> (cache_key \<Rightarrow> bytes cache_value option) \<Rightarrow> bool" where
  "keeps cc U g t w d \<longleftrightarrow> t \<le> now w \<and> (\<forall>k b. key_ok (rg_key_format g) k \<longrightarrow> key_serialize cc U (rg_key_format g) k = Ok b \<longrightarrow>
     hash_serves t (now w) (d k) (rkeys (rw_server w) b))"

lemma keeps_later:
  "keeps cc U g t w d \<Longrightarrow> key_ok (rg_key_format g) j \<Longrightarrow> key_serialize cc U (rg_key_format g) j = Ok c \<Longrightarrow> now w \<le> n
     \<Longrightarrow> hash_serves t n (d j) (rkeys (rw_server w) c)"
  unfolding keeps_def by (blast intro: hash_serves_later)

lemma fields_of_sel [simp]:
  "fields_of u ''d'' = Some (cv_data u)"
  "fields_of u ''s'' = map_option (bytes_of_str \<circ> show_int \<circ> timestamp_millis) (cv_stale u)"
  by (simp_all add: fields_of_def)

lemma served_stale:
  assumes "chrono_time y"
  shows "parse_i64 (show_int (timestamp_millis y)) = Some (timestamp_millis y)"
    "from_timestamp_millis (timestamp_millis y) = Some (y div 1000000 * 1000000)"
    "timestamp_millis (y div 1000000 * 1000000) = timestamp_millis y"
proof -
  have "- (2 ^ 63) \<le> timestamp_millis y" "timestamp_millis y < 2 ^ 63"
    using assms by (auto simp: chrono_time_def timestamp_def timestamp_millis_def)
  then show "parse_i64 (show_int (timestamp_millis y)) = Some (timestamp_millis y)" by simp
  show "from_timestamp_millis (timestamp_millis y) = Some (y div 1000000 * 1000000)"
    by (rule from_timestamp_millis_back [OF assms])
qed (simp add: timestamp_millis_def)

lemma reads:
  assumes "keeps cc U g t w d" "key_ok (rg_key_format g) k" "is_ok (key_serialize cc U (rg_key_format g) k)"
    and "redis_read cc U R g k w = (r, w')" "now w' \<le> t + seconds 1"
  shows "keeps cc U g t w' d \<and> (case d k of None \<Rightarrow> r = Ok None | Some u \<Rightarrow> \<exists>u'. r = Ok (Some u') \<and> near u u')"
proof -
  obtain b where b: "key_serialize cc U (rg_key_format g) k = Ok b" using assms(3) by (auto simp: is_ok_iff)
  obtain w1 where w1: "now w \<le> now w1" "rkeys (rw_server w1) = rkeys (rw_server w)"
    "(case query R (redis_read_cmds b) w1 of
         (r, w) \<Rightarrow>
           (case rbind r decode_read of
              Inl e \<Rightarrow> (Err (redis_error_into_backend e), w)
            | Inr (None, _, _) \<Rightarrow> (Ok None, w)
            | Inr (Some data, stale_ms, pttl) \<Rightarrow>
                (let stale = Option.bind stale_ms from_timestamp_millis;
                     expire = (if pttl > 0 then Some (rd_now R (rw_server w) + pttl * 1000000) else None)
                 in (Ok (Some (cache_value_new data expire stale)), w)))) = (r, w')"
    by (rule with_key_runs [OF assms(4) [unfolded redis_read_def] b]) blast
  obtain q w2 where q: "query R (redis_read_cmds b) w1 = (q, w2)" by fastforce
  have w2: "w2 = w'" using w1(3) q by (auto simp: Let_def split: sum.splits prod.splits option.splits)
  obtain rs where rs0: "q = Ok rs" "pipeline_runs (=) (redis_read_cmds b) (now w1) (rkeys (rw_server w)) rs (now w') (rkeys (rw_server w'))"
    using queries [OF q [unfolded w2]] w1(2) by metis
  from rs0(2) obtain z1 r1 x1 z r2 x2 where run: "rs = [r1, r2]" "now w1 \<le> z1" "z1 \<le> z" "z \<le> now w'" "rkeys (rw_server w') = rr_keys x2"
    "ref_exec (HMGET b [''d'', ''s'']) \<lparr>rr_now = z1, rr_keys = rkeys (rw_server w)\<rparr> = (r1, x1)"
    "ref_exec (PTTL b) \<lparr>rr_now = z, rr_keys = rr_keys x1\<rparr> = (r2, x2)"
    by (auto simp: redis_read_cmds_def simp del: ref_exec.simps elim!: runs_stepE runs_doneE)
  have x: "rr_keys x1 = rkeys (rw_server w)" "rr_keys x2 = rr_keys x1" using run(6,7) by auto
  have z: "rs = [r1, r2]" "now w1 \<le> z1" "z1 \<le> z" "z \<le> now w'" "rkeys (rw_server w') = rkeys (rw_server w)"
    "ref_exec (HMGET b [''d'', ''s'']) \<lparr>rr_now = z1, rr_keys = rkeys (rw_server w)\<rparr> = (r1, x1)"
    "ref_exec (PTTL b) \<lparr>rr_now = z, rr_keys = rkeys (rw_server w)\<rparr> = (r2, x2)"
    using run unfolding x by (simp_all del: ref_exec.simps)
  have keys: "rkeys (rw_server w') = rkeys (rw_server w)" by (rule z(5))
  have hs: "hash_serves t (now w) (d k) (rkeys (rw_server w) b)" using assms(1,2) b by (simp add: keeps_def)
  have live: "rr_live \<lparr>rr_now = y, rr_keys = rkeys (rw_server w)\<rparr> b = rkeys (rw_server w) b" if "y \<le> z" for y
    by (rule hash_live [where h = "rkeys (rw_server w)", OF hs]) (use that z(4) assms(5) in simp)
  note live = live [OF z(3)] live [OF order_refl]
  have "keeps cc U g t w' d"
    using assms(1) keys w1(1) z(2-4) unfolding keeps_def by (metis hash_serves_later order_trans)
  moreover have "case d k of None \<Rightarrow> r = Ok None | Some u \<Rightarrow> \<exists>u'. r = Ok (Some u') \<and> near u u'"
  proof (cases "d k")
    case None
    then have "rkeys (rw_server w) b = None" using hs by (simp add: hash_serves_def)
    then have "rs = [Bulks [None, None], IntReply (- 2)]" using z(1,6,7) live by auto
    then show ?thesis using None w1(3) q rs0(1) by (simp add: decode_read_def)
  next
    case (Some u)
    obtain y where y: "rkeys (rw_server w) b = Some (fields_of u, y)" "\<And>v. cv_stale u = Some v \<Longrightarrow> chrono_time v"
      "deadline_ok t (now w) (cv_expire u) y"
      using hs Some by (auto simp: hash_serves_def)
    have rs: "rs = [Bulks [Some (cv_data u), fields_of u ''s''], IntReply (case y of None \<Rightarrow> - 1 | Some v \<Rightarrow> (v - z) div 1000000)]"
      using z(1,6,7) live y(1) by (auto split: option.splits)
    have dec: "decode_read rs = Ok (Some (cv_data u), map_option timestamp_millis (cv_stale u), case y of None \<Rightarrow> - 1 | Some v \<Rightarrow> (v - z) div 1000000)"
      using rs y(2) served_stale(1) by (cases "cv_stale u") (auto simp: decode_read_def)
    let ?e = "case y of None \<Rightarrow> None | Some v \<Rightarrow> if (v - z) div 1000000 > 0 then Some (now w' + (v - z) div 1000000 * 1000000) else None"
    have r: "r = Ok (Some (cache_value_new (cv_data u) ?e (Option.bind (map_option timestamp_millis (cv_stale u)) from_timestamp_millis)))"
      using w1(3) q w2 rs0(1) dec by (cases y) auto
    have "case (?e, cv_expire u) of (Some a, Some e) \<Rightarrow> e - 1001000000 < a \<and> a \<le> e + seconds 1 | (None, None) \<Rightarrow> True | _ \<Rightarrow> False"
    proof (cases y)
      case None
      then show ?thesis using y(3) by (auto simp: deadline_ok_def split: option.splits)
    next
      fix v assume v: "y = Some v"
      then obtain e where e: "cv_expire u = Some e" "e - seconds 1 < v" "v \<le> e + (now w - t)" "t + seconds 3500 \<le> v"
        using y(3) by (auto simp: deadline_ok_def split: option.splits)
      have m: "(v - z) div 1000000 * 1000000 \<le> v - z" "v - z < (v - z) div 1000000 * 1000000 + 1000000"
        by linarith+
      have "0 < (v - z) div 1000000" using e(4) z(4) assms(5) by (simp add: pos_imp_zdiv_pos_iff)
      then show ?thesis using v e m z(2-4) w1(1) assms(5) by auto
    qed
    moreover have "map_option timestamp_millis (Option.bind (map_option timestamp_millis (cv_stale u)) from_timestamp_millis)
        = map_option timestamp_millis (cv_stale u)"
      using y(2) served_stale(2,3) by (cases "cv_stale u") auto
    ultimately have "near u (cache_value_new (cv_data u) ?e (Option.bind (map_option timestamp_millis (cv_stale u)) from_timestamp_millis))"
      unfolding near_def by simp
    then show ?thesis using Some r by auto
  qed
  ultimately show ?thesis by blast
qed

lemma hset_serves:
  assumes "hash_serves t n u (h b)" "\<And>x. u = Some x \<Longrightarrow> plain x" "lasting t v" "n \<le> n1" "t \<le> n" "m \<le> t + seconds 1"
    and "pipeline_runs (=) (redis_write_cmds n1 b v) n1 h rs m h'"
  shows "hash_serves t m (Some v) (h' b)" and "c \<noteq> b \<Longrightarrow> h' c = h c"
proof -
  let ?fvs = "(''d'', cv_data v) # (case cv_stale v of Some y \<Rightarrow> [(''s'', bytes_of_str (show_int (timestamp_millis y)))] | None \<Rightarrow> [])"
  obtain z1 r1 x1 rs1 where one: "n1 \<le> z1" "ref_exec (HSET b ?fvs) \<lparr>rr_now = z1, rr_keys = h\<rparr> = (r1, x1)"
    "pipeline_runs (=) (case ttl_secs n1 v of Some secs \<Rightarrow> [EXPIRE b secs] | None \<Rightarrow> []) z1 (rr_keys x1) rs1 m h'"
    using assms(7) unfolding redis_write_cmds_def by (auto simp del: ref_exec.simps elim!: runs_stepE)
  let ?s = "\<lparr>rr_now = z1, rr_keys = h\<rparr>"
  let ?start = "case rr_live ?s b of Some x \<Rightarrow> x | None \<Rightarrow> (\<lambda>_. None, None)"
  have z1: "z1 \<le> m" by (rule pipeline_takes_time [OF one(3)])
  have live: "rr_live ?s b = h b" by (rule hash_live [where h = h, OF assms(1)]) (use z1 assms(6) in simp)
  have start: "\<exists>f. ?start = (f, None) \<and> (\<forall>y. y \<noteq> ''d'' \<longrightarrow> f y = None)"
  proof (cases u)
    case None
    then show ?thesis using assms(1) live by (simp add: hash_serves_def)
  next
    case (Some y)
    then have "plain y" using assms(2) by blast
    then have "fields_of y = [''d'' \<mapsto> cv_data y]" by (auto simp: fields_of_def plain_def fun_eq_iff)
    then show ?thesis using assms(1) live Some \<open>plain y\<close>
      by (auto simp: hash_serves_def deadline_ok_def plain_def split: option.splits)
  qed
  then obtain f where f: "?start = (f, None)" "\<And>y. y \<noteq> ''d'' \<Longrightarrow> f y = None" by blast
  have "foldl (\<lambda>h (f, v). h(f \<mapsto> v)) f ?fvs = fields_of v"
    using f(2) by (cases "cv_stale v") (auto simp: fields_of_def fun_eq_iff)
  then have x1: "rr_keys x1 = h(b \<mapsto> (fields_of v, None))" using one(2) f(1) by auto
  have "\<exists>z. n1 \<le> z \<and> z \<le> m \<and> h' = h(b \<mapsto> (fields_of v, map_option (\<lambda>k. z + int k * 1000000000) (ttl_secs n1 v)))"
  proof (cases "ttl_secs n1 v")
    case None
    then show ?thesis using one(1,3) x1 z1 by (auto elim!: runs_doneE)
  next
    case (Some k)
    then obtain z2 r2 x2 where e: "z1 \<le> z2" "z2 \<le> m" "ref_exec (EXPIRE b k) \<lparr>rr_now = z2, rr_keys = rr_keys x1\<rparr> = (r2, x2)" "h' = rr_keys x2"
      using one(3) by (auto simp del: ref_exec.simps elim!: runs_stepE runs_doneE)
    have "rr_live \<lparr>rr_now = z2, rr_keys = h(b \<mapsto> (fields_of v, None))\<rparr> b = Some (fields_of v, None)" by (simp add: rr_live_def)
    then show ?thesis using Some e one(1) x1 by (intro exI [of _ z2]) auto
  qed
  then obtain z where z: "n1 \<le> z" "z \<le> m" and x: "h' = h(b \<mapsto> (fields_of v, map_option (\<lambda>k. z + int k * 1000000000) (ttl_secs n1 v)))"
    by blast
  show "c \<noteq> b \<Longrightarrow> h' c = h c" using x by simp
  have "deadline_ok t m (cv_expire v) (map_option (\<lambda>k. z + int k * 1000000000) (ttl_secs n1 v))"
  proof (cases "cv_expire v")
    case None
    then show ?thesis by (simp add: deadline_ok_def ttl_secs_def)
  next
    case (Some e)
    then have e: "t + seconds 3600 \<le> e" using assms(3) by (simp add: lasting_def)
    then have "ttl_secs n1 v \<noteq> None" using Some assms(6) z by (auto simp: ttl_secs_None_iff nanos_per_sec_def)
    then obtain k where k: "ttl_secs n1 v = Some k" by blast
    have "n1 + int k * 1000000000 \<le> e" "e < n1 + int k * 1000000000 + 1000000000"
      using ttl_secs_bounds [OF k] Some by (metis option.inject)+
    then show ?thesis using Some k e assms(4-6) z by (simp add: deadline_ok_def)
  qed
  then show "hash_serves t m (Some v) (h' b)" using x assms(3) by (simp add: hash_serves_def lasting_def)
qed

lemma writes:
  assumes "lawful_columns cc" "urlencoding_laws U"
    and "keeps cc U g t w d" "key_ok (rg_key_format g) k" "is_ok (key_serialize cc U (rg_key_format g) k)"
    and "lasting t v" "\<And>x. d k = Some x \<Longrightarrow> plain x"
    and "redis_write cc U R g k v w = (r, w')" "now w' \<le> t + seconds 1"
  shows "r = Ok () \<and> keeps cc U g t w' (d(k \<mapsto> v))"
proof -
  obtain b where b: "key_serialize cc U (rg_key_format g) k = Ok b" using assms(5) by (auto simp: is_ok_iff)
  obtain w1 where w1: "now w \<le> now w1" "rkeys (rw_server w1) = rkeys (rw_server w)"
    "(case query R (redis_write_cmds (now w1) b v) w1 of (r, w) \<Rightarrow> (map_err redis_error_into_backend (rmap (\<lambda>_. ()) r), w)) = (r, w')"
    by (rule with_key_runs [OF assms(8) [unfolded redis_write_def] b]) blast
  obtain q where q: "query R (redis_write_cmds (now w1) b v) w1 = (q, w')" "r = map_err redis_error_into_backend (rmap (\<lambda>_. ()) q)"
    using w1(3) by (cases "query R (redis_write_cmds (now w1) b v) w1") auto
  obtain rs where z: "q = Ok rs" "pipeline_runs (=) (redis_write_cmds (now w1) b v) (now w1) (rkeys (rw_server w)) rs (now w') (rkeys (rw_server w'))"
    using queries [OF q(1)] w1(2) by metis
  have t: "t \<le> now w" using assms(3) by (simp add: keeps_def)
  have later: "now w \<le> now w'" using w1(1) pipeline_takes_time [OF z(2)] by simp
  have hs: "hash_serves t (now w) (d k) (rkeys (rw_server w) b)" using assms(3,4) b by (simp add: keeps_def)
  note h = hset_serves [where h = "rkeys (rw_server w)", OF hs assms(7) assms(6) w1(1) t assms(9) z(2)]
  have "hash_serves t (now w') ((d(k \<mapsto> v)) j) (rkeys (rw_server w') c)"
    if "key_ok (rg_key_format g) j" "key_serialize cc U (rg_key_format g) j = Ok c" for j c
  proof (cases "c = b")
    case True
    then have "j = k" using key_serialize_inj [OF assms(1,2) that(1) assms(4)] that(2) b by blast
    then show ?thesis using True h(1) by simp
  next
    case False
    then have "j \<noteq> k" using that(2) b by auto
    from keeps_later [OF assms(3) that later] show ?thesis using False \<open>j \<noteq> k\<close> h(2) by simp
  qed
  then show ?thesis using q(2) z t later by (simp add: keeps_def)
qed

lemma removes:
  assumes "lawful_columns cc" "urlencoding_laws U"
    and "keeps cc U g t w d" "key_ok (rg_key_format g) k" "is_ok (key_serialize cc U (rg_key_format g) k)"
    and "redis_remove cc U R g k w = (r, w')" "now w' \<le> t + seconds 1"
  shows "r = Ok (if d k = None then Missing else Deleted 1) \<and> keeps cc U g t w' (d(k := None))"
proof -
  obtain b where b: "key_serialize cc U (rg_key_format g) k = Ok b" using assms(5) by (auto simp: is_ok_iff)
  obtain w1 where w1: "now w \<le> now w1" "rkeys (rw_server w1) = rkeys (rw_server w)"
    "(case query R [DEL b] w1 of
         (Inl e, w) \<Rightarrow> (Err (redis_error_into_backend e), w)
       | (Inr [IntReply deleted], w) \<Rightarrow> (Ok (if deleted > 0 then Deleted (word_of_int deleted) else Missing), w)
       | (Inr _, w) \<Rightarrow> (Err (redis_error_into_backend (RedisErr ''type conversion'')), w)) = (r, w')"
    by (rule with_key_runs [OF assms(6) [unfolded redis_remove_def] b]) blast
  obtain q w2 where q: "query R [DEL b] w1 = (q, w2)" by fastforce
  have w2: "w2 = w'" using w1(3) q by (auto split: sum.splits list.splits redis_reply.splits)
  obtain rs where rs: "q = Ok rs" "pipeline_runs (=) [DEL b] (now w1) (rkeys (rw_server w)) rs (now w') (rkeys (rw_server w'))"
    using queries [OF q [unfolded w2]] w1(2) by metis
  from rs(2) obtain z r1 x where z: "now w1 \<le> z" "z \<le> now w'" "rs = [r1]" "rkeys (rw_server w') = rr_keys x"
    "ref_exec (DEL b) \<lparr>rr_now = z, rr_keys = rkeys (rw_server w)\<rparr> = (r1, x)"
    by (auto simp del: ref_exec.simps elim!: runs_stepE runs_doneE)
  have hs: "hash_serves t (now w) (d k) (rkeys (rw_server w) b)" using assms(3,4) b by (simp add: keeps_def)
  have live: "rr_live \<lparr>rr_now = z, rr_keys = rkeys (rw_server w)\<rparr> b = rkeys (rw_server w) b"
    by (rule hash_live [where h = "rkeys (rw_server w)", OF hs]) (use z(2) assms(7) in simp)
  have x: "rr_keys x = (rkeys (rw_server w))(b := None)" "rs = [IntReply (if rkeys (rw_server w) b = None then 0 else 1)]"
    using z(3,5) live by auto
  have "rkeys (rw_server w) b = None \<longleftrightarrow> d k = None" using hs by (auto simp: hash_serves_def split: option.splits)
  then have r: "r = Ok (if d k = None then Missing else Deleted 1)" using w1(3) q rs(1) x(2) by (simp split: if_splits)
  have "hash_serves t (now w') ((d(k := None)) j) (rkeys (rw_server w') c)"
    if "key_ok (rg_key_format g) j" "key_serialize cc U (rg_key_format g) j = Ok c" for j c
  proof (cases "c = b")
    case True
    then have "j = k" using key_serialize_inj [OF assms(1,2) that(1) assms(4)] that(2) b by blast
    then show ?thesis using True z(4) x(1) by (simp add: hash_serves_def)
  next
    case False
    then have "j \<noteq> k" using that(2) b by auto
    have "now w \<le> now w'" using w1(1) z(1,2) by simp
    from keeps_later [OF assms(3) that this] show ?thesis using False \<open>j \<noteq> k\<close> z(4) x(1) by simp
  qed
  then show ?thesis using r z assms(3) w1(1) by (simp add: keeps_def)
qed

lemma op_mono:
  "now w \<le> now (snd (redis_read cc U R g k w))" "now w \<le> now (snd (redis_write cc U R g k v w))"
  "now w \<le> now (snd (redis_remove cc U R g k w))"
proof -
  have "rd_now R s \<le> rd_now R (snd (rd_connect R q s))" for q s
    using connect_runs [of q s] by (cases "rd_connect R q s") simp
  moreover have "rd_now R s \<le> rd_now R (snd (rd_pipeline R cmds s))" for cmds s
    using pipeline_law [of cmds s] by (cases "rd_pipeline R cmds s") simp
  ultimately show "now w \<le> now (snd (redis_read cc U R g k w))" "now w \<le> now (snd (redis_write cc U R g k v w))"
    "now w \<le> now (snd (redis_remove cc U R g k w))"
    by (auto intro: redis_later [where later = "\<lambda>s s'. rd_now R s \<le> rd_now R s'"])
qed


lemma prompt:
  assumes "lawful_columns cc" "urlencoding_laws U" "lossless_format (rg_format g)" "lossless_compressor (rg_compressor g)"
    and "total_format (rg_format g)" "total_compressor (rg_compressor g)"
  shows "prompt_store (redis_backend cc U R g) now
    (\<lambda>k. key_ok (rg_key_format g) k \<and> is_ok (key_serialize cc U (rg_key_format g) k)) (keeps cc U g)"
proof (unfold_locales, unfold redis_backend_sel)
  show "keeps cc U g t w d \<Longrightarrow> t \<le> now w" for t w d by (simp add: keeps_def)
qed (rule op_mono assms | (elim conjE, (rule reads writes [OF assms(1,2)] removes [OF assms(1,2)]; assumption)))+

end

section \<open>FeOxDB\<close>

locale prompt_feox =
  fixes X :: "'f feox_ops" and entries :: "'f \<Rightarrow> bytes \<Rightarrow> (bytes \<times> time option) option"
  assumes get_prompt: "fx_get X k s = (r, s') \<Longrightarrow> fx_now X s \<le> fx_now X s' \<and> settles (fx_now X s') (entries s) (entries s')
      \<and> (entries s k = None \<longrightarrow> r = Err KeyNotFound) \<and> (\<forall>e. entries s k = Some e \<longrightarrow> alive (fx_now X s') e \<longrightarrow> r = Ok (fst e))"
    and insert_prompt: "fx_insert X k b s = (w, s') \<Longrightarrow> fx_now X s \<le> fx_now X s' \<and> w = Ok ()
      \<and> settles (fx_now X s') ((entries s)(k \<mapsto> (b, None))) (entries s')"
    and insert_ttl_prompt: "fx_insert_with_ttl X k b n s = (w, s') \<Longrightarrow> fx_now X s \<le> fx_now X s' \<and> w = Ok ()
      \<and> (\<exists>z \<ge> fx_now X s. settles (fx_now X s') ((entries s)(k \<mapsto> (b, Some (z + int n * 1000000000)))) (entries s'))"
    and contains_prompt: "fx_contains_key X k s = (q, s') \<Longrightarrow> fx_now X s \<le> fx_now X s' \<and> settles (fx_now X s') (entries s) (entries s')
      \<and> (entries s k = None \<longrightarrow> \<not> q) \<and> (\<forall>e. entries s k = Some e \<longrightarrow> alive (fx_now X s') e \<longrightarrow> q)"
    and delete_prompt: "fx_delete X k s = (w, s') \<Longrightarrow> fx_now X s \<le> fx_now X s' \<and> settles (fx_now X s') ((entries s)(k := None)) (entries s')
      \<and> (\<forall>e. entries s k = Some e \<longrightarrow> alive (fx_now X s') e \<longrightarrow> w = Ok ())"
begin

definition okey :: "feox_codec \<Rightarrow> cache_key \<Rightarrow> bool" where
  "okey c k \<longleftrightarrow> wf_key k \<and> is_ok (fc_key c k)"

definition decodes :: "feox_codec \<Rightarrow> bytes cache_value \<Rightarrow> bytes \<Rightarrow> bool" where
  "decodes c u b \<longleftrightarrow> fc_dec c b = Ok (to_serializable u)"

definition keeps :: "feox_codec \<Rightarrow> time \<Rightarrow> 'f \<Rightarrow> (cache_key \<Rightarrow> bytes cache_value option) \<Rightarrow> bool" where
  "keeps c t s d \<longleftrightarrow> t \<le> fx_now X s \<and> (\<forall>k u e. okey c k \<longrightarrow> d k = Some u \<longrightarrow> cv_expire u = Some e \<longrightarrow> t + seconds 3600 \<le> e) \<and>
     (\<forall>k b. okey c k \<longrightarrow> fc_key c k = Ok b \<longrightarrow> serves t (decodes c) (d k) (entries s b))"

lemma keeps_settles:
  assumes "keeps c t s d" "settles (fx_now X s') (entries s) (entries s')" "fx_now X s \<le> fx_now X s'" "fx_now X s' \<le> t + seconds 1"
  shows "keeps c t s' d"
  using assms serves_settles [OF _ assms(2,4)] unfolding keeps_def by fastforce

lemma reads:
  assumes "keeps c t s d" "okey c k" "feox_read X c k s = (r, s')" "fx_now X s' \<le> t + seconds 1"
  shows "keeps c t s' d \<and> (case d k of None \<Rightarrow> r = Ok None | Some u \<Rightarrow> \<exists>u'. r = Ok (Some u') \<and> near u u')"
proof -
  obtain b where b: "fc_key c k = Ok b" using assms(2) by (auto simp: okey_def is_ok_iff)
  obtain q s1 where q: "fx_get X b s = (q, s1)" by fastforce
  have s1: "s1 = s'" using assms(3) b q by (auto simp: feox_read_def Let_def split: sum.splits feox_error.splits if_splits)
  note p = get_prompt [OF q [unfolded s1]]
  have sv: "serves t (decodes c) (d k) (entries s b)" using assms(1,2) b by (simp add: keeps_def)
  have "keeps c t s' d" using keeps_settles [OF assms(1)] p assms(4) by blast
  moreover have "case d k of None \<Rightarrow> r = Ok None | Some u \<Rightarrow> \<exists>u'. r = Ok (Some u') \<and> near u u'"
  proof (cases "d k")
    case None
    then have "entries s b = None" using sv by (simp add: serves_def)
    then show ?thesis using None p q s1 b assms(3) by (simp add: feox_read_def)
  next
    case (Some u)
    obtain v x where v: "entries s b = Some (v, x)" "decodes c u v" "alive (fx_now X s') (v, x)"
      using serves_alive [OF sv [unfolded Some] assms(4)] by blast
    then have "q = Ok v" using p by auto
    moreover have "\<not> (case cv_expire u of Some e \<Rightarrow> e < fx_now X s' | None \<Rightarrow> False)"
      using assms(1,2,4) Some by (force simp: keeps_def split: option.splits)
    ultimately have "r = Ok (Some u)" using v(2) q s1 b assms(3)
      by (simp add: feox_read_def decodes_def split: if_splits)
    then show ?thesis using Some near_refl by auto
  qed
  ultimately show ?thesis by blast
qed

lemma keeps_change:
  assumes "feox_keys_distinct c" "keeps c t s d" "okey c k" "fc_key c k = Ok b"
    and "\<And>x. u = Some x \<Longrightarrow> lasting t x" "serves t (decodes c) u e" "settles (fx_now X s') ((entries s)(b := e)) (entries s')"
    and "fx_now X s \<le> fx_now X s'" "fx_now X s' \<le> t + seconds 1"
  shows "keeps c t s' (d(k := u))"
proof -
  have "serves t (decodes c) ((d(k := u)) j) (((entries s)(b := e)) jb)" if "okey c j" "fc_key c j = Ok jb" for j jb
    using assms(1-4,6) that by (auto simp: keeps_def feox_keys_distinct_def okey_def)
  from serves_settles [where h = "(entries s)(b := e)", OF this assms(7,9)]
  show ?thesis using assms(2,5,8) by (auto simp: keeps_def lasting_def)
qed

lemma writes:
  assumes "lossless_feox_codec c" "feox_keys_distinct c" "\<And>v. is_ok (fc_enc c v)"
    and "keeps c t s d" "okey c k" "lasting t u" "feox_write X c k u s = (w, s')" "fx_now X s' \<le> t + seconds 1"
  shows "w = Ok () \<and> keeps c t s' (d(k \<mapsto> u))"
proof -
  obtain b v where b: "fc_key c k = Ok b" "fc_enc c (to_serializable u) = Ok v"
    using assms(3,5) by (metis okey_def is_ok_iff)
  have dec: "decodes c u v" using assms(1) b(2) unfolding lossless_feox_codec_def decodes_def by blast
  have "\<exists>x. serves t (decodes c) (Some u) (Some (v, x)) \<and> w = Ok () \<and> fx_now X s \<le> fx_now X s'
      \<and> settles (fx_now X s') ((entries s)(b \<mapsto> (v, x))) (entries s')"
  proof (cases "ttl_secs (fx_now X s) u")
    case None
    then obtain q where "fx_insert X b v s = (q, s')" "w = map_err feox_error_boxed q"
      using assms(7) b by (cases "fx_insert X b v s") (auto simp: feox_write_def)
    then show ?thesis using insert_prompt [of b v s q s'] dec by (intro exI [of _ None]) (simp add: serves_def)
  next
    case (Some n)
    then obtain q where q: "fx_insert_with_ttl X b v n s = (q, s')" "w = map_err feox_error_boxed q"
      using assms(7) b by (cases "fx_insert_with_ttl X b v n s") (auto simp: feox_write_def)
    then obtain z where z: "z \<ge> fx_now X s" "settles (fx_now X s') ((entries s)(b \<mapsto> (v, Some (z + int n * 1000000000)))) (entries s')"
      using insert_ttl_prompt [of b v n s q s'] by blast
    obtain e where "cv_expire u = Some e" "e < fx_now X s + int n * 1000000000 + 1000000000"
      using ttl_secs_bounds [OF Some] by blast
    then have "t + seconds 3500 \<le> z + int n * 1000000000" using assms(6) z(1) by (simp add: lasting_def)
    then show ?thesis using insert_ttl_prompt [OF q(1)] q(2) z(2) dec
      by (intro exI [of _ "Some (z + int n * 1000000000)"]) (simp add: serves_def)
  qed
  then show ?thesis using keeps_change [OF assms(2,4,5) b(1), of "Some u"] assms(6,8) by blast
qed

lemma removes:
  assumes "feox_keys_distinct c" "keeps c t s d" "okey c k" "feox_remove X c k s = (r, s')" "fx_now X s' \<le> t + seconds 1"
  shows "r = Ok (if d k = None then Missing else Deleted 1) \<and> keeps c t s' (d(k := None))"
proof -
  obtain b where b: "fc_key c k = Ok b" using assms(3) by (auto simp: okey_def is_ok_iff)
  obtain q s1 where q: "fx_contains_key X b s = (q, s1)" by fastforce
  obtain w s2 where w: "fx_delete X b s1 = (w, s2)" by fastforce
  note p = contains_prompt [OF q] and p2 = delete_prompt [OF w]
  have sv: "serves t (decodes c) (d k) (entries s b)" using assms(2,3) b by (simp add: keeps_def)
  show ?thesis
  proof (cases "d k")
    case None
    then have "entries s b = None" using sv by (simp add: serves_def)
    then have "r = Ok Missing" "s1 = s'" using p q b assms(4) by (auto simp: feox_remove_def)
    moreover have "d(k := None) = d" using None by auto
    ultimately show ?thesis using None keeps_settles [OF assms(2), of s'] p assms(5) by simp
  next
    case (Some u)
    have "fx_now X s1 \<le> fx_now X s'" using assms(4) b q w p2 by (cases q; cases w) (auto simp: feox_remove_def)
    then have t1: "fx_now X s1 \<le> t + seconds 1" using assms(5) by simp
    obtain v x where v: "entries s b = Some (v, x)" "alive (fx_now X s1) (v, x)"
      using serves_alive [OF sv [unfolded Some] t1] by blast
    then have "q" using p by auto
    then have s2: "s2 = s'" using assms(4) b q w by (cases w) (auto simp: feox_remove_def)
    have k1: "keeps c t s1 d" using keeps_settles [OF assms(2) _ _ t1] p by blast
    have sv1: "serves t (decodes c) (d k) (entries s1 b)" using k1 assms(3) b by (simp add: keeps_def)
    obtain v' x' where "entries s1 b = Some (v', x')" "alive (fx_now X s') (v', x')"
      using serves_alive [OF sv1 [unfolded Some] assms(5)] by blast
    then have "w = Ok ()" using p2 s2 by auto
    then have "r = Ok (Deleted 1)" using \<open>q\<close> assms(4) b q w by (simp add: feox_remove_def)
    moreover have "keeps c t s' (d(k := None))"
      by (rule keeps_change [OF assms(1) k1 assms(3) b, where u = None and e = None]) (use p2 s2 assms(5) in \<open>simp_all add: serves_def\<close>)
    ultimately show ?thesis using Some by simp
  qed
qed

lemma op_mono:
  "fx_now X s \<le> fx_now X (snd (feox_read X c k s))" "fx_now X s \<le> fx_now X (snd (feox_write X c k u s))"
  "fx_now X s \<le> fx_now X (snd (feox_remove X c k s))"
proof -
  show "fx_now X s \<le> fx_now X (snd (feox_read X c k s))"
  proof (cases "fc_key c k")
    case (Inr b)
    obtain q s1 where q: "fx_get X b s = (q, s1)" by fastforce
    have "snd (feox_read X c k s) = s1" using Inr q by (auto simp: feox_read_def Let_def split: sum.splits feox_error.splits)
    then show ?thesis using get_prompt [OF q] by simp
  qed (simp add: feox_read_def)
  show "fx_now X s \<le> fx_now X (snd (feox_write X c k u s))"
  proof (cases "is_ok (fc_key c k) \<and> is_ok (fc_enc c (to_serializable u))")
    case True
    then obtain b v where b: "fc_key c k = Ok b" "fc_enc c (to_serializable u) = Ok v" by (auto simp: is_ok_iff)
    show ?thesis
    proof (cases "ttl_secs (fx_now X s) u")
      case None
      obtain w s1 where w: "fx_insert X b v s = (w, s1)" by fastforce
      then show ?thesis using insert_prompt [OF w] b None by (simp add: feox_write_def)
    next
      case (Some n)
      obtain w s1 where w: "fx_insert_with_ttl X b v n s = (w, s1)" by fastforce
      then show ?thesis using insert_ttl_prompt [OF w] b Some by (simp add: feox_write_def)
    qed
  qed (auto simp: feox_write_def not_is_ok_iff split: sum.splits)
  show "fx_now X s \<le> fx_now X (snd (feox_remove X c k s))"
  proof (cases "fc_key c k")
    case (Inr b)
    obtain q s1 where q: "fx_contains_key X b s = (q, s1)" by fastforce
    obtain w s2 where w: "fx_delete X b s1 = (w, s2)" by fastforce
    have "snd (feox_remove X c k s) = (if q then s2 else s1)" using Inr q w by (cases q; cases w) (simp_all add: feox_remove_def)
    then show ?thesis using contains_prompt [OF q] delete_prompt [OF w] by auto
  qed (simp add: feox_remove_def)
qed

lemma prompt:
  assumes "lossless_feox_codec c" "feox_keys_distinct c" "\<And>v. is_ok (fc_enc c v)"
    and "lossless_format (fb_format b)" "lossless_compressor (fb_compressor b)" "total_format (fb_format b)" "total_compressor (fb_compressor b)"
  shows "prompt_store (feox_backend X c b) (fx_now X) (okey c) (keeps c)"
proof (unfold_locales, unfold feox_backend_sel)
  show "keeps c t s d \<Longrightarrow> t \<le> fx_now X s" for t s d by (simp add: keeps_def)
qed (rule op_mono assms | rule reads writes [OF assms(1-3)] removes [OF assms(2)]; assumption)+

end

section \<open>Stores that keep the promises\<close>

interpretation ref_prompt_moka: prompt_moka ref_moka_ops rm_held
  by unfold_locales (auto simp: ref_moka_ops_def settles_def alive_def split: option.splits if_splits prod.splits)

interpretation ref_reliable_redis: reliable_redis ref_redis_ops rr_keys
  by (intro reliable_redis.intro reliable_redis_axioms.intro ref_timed_redis) (auto simp: ref_redis_ops_def case_prod_beta)

interpretation ref_prompt_feox: prompt_feox ref_feox_ops rf_entries
  by unfold_locales (auto simp: ref_feox_ops_def rf_held_def settles_def alive_def split: option.splits if_splits)

definition response_serde :: "test_response serde" where
  "response_serde =
     \<lparr>sd_ser = (\<lambda>r. Ok (unary_str (show_nat (unat (tr_id r))) @ unary_str (tr_name r) @ unary_str (str_of_bytes (tr_data r)))),
      sd_de = (\<lambda>b. case Option.bind (unary_str_dec b) (\<lambda>(i, r). Option.bind (unary_str_dec r) (\<lambda>(n, r).
                         Option.bind (unary_str_dec r) (\<lambda>(d, r).
                           map_option (\<lambda>i. test_response_new (word_of_nat i) n (bytes_of_str d)) (read_nat i)))) of
                      Some v \<Rightarrow> Ok v | None \<Rightarrow> Err ''response'')\<rparr>"

lemma response_serde_ok: "lossless_format (bincode_format response_serde)" "total_format (bincode_format response_serde)"
  "lossless_format (json_format response_serde)" "total_format (json_format response_serde)"
proof -
  have "unary_str_dec (unary_str s) = Some (s, [])" for s using unary_str_dec_unary_str [of s "[]"] by simp
  then have "lossless_serde response_serde"
    by (simp add: lossless_serde_def response_serde_def unary_str_dec_unary_str test_response_new_def)
  then show "lossless_format (bincode_format response_serde)" "lossless_format (json_format response_serde)"
    by (simp_all add: lossless_formats)
  show "total_format (bincode_format response_serde)" "total_format (json_format response_serde)"
    by (simp_all add: total_format_def bincode_format_def json_format_def response_serde_def)
qed

section \<open>The suite on the stores\<close>

lemma store_suite:
  assumes "prompt_store B clock okey keeps" "\<And>n. n \<noteq> [] \<Longrightarrow> okey (test_key n)"
  shows "suite (dyn_backend B) clock okey (typed_keeps B keeps)"
  using prompt_store.conforms [OF assms(1)] prompt_store.paced [OF assms(1)] assms(2)
  by (intro suite.intro paced_suite.intro suite_axioms.intro)

lemma store_passes:
  assumes "prompt_store B clock okey keeps" "\<And>n. n \<noteq> [] \<Longrightarrow> okey (test_key n)" "keeps (clock s) s (\<lambda>k. None)" "era (clock s)"
    and "clock (snd (run_backend_tests clock (dyn_backend B) s)) \<le> clock s + seconds 1"
  shows "fst (run_backend_tests clock (dyn_backend B) s) = Ok ()"
  by (rule suite.suite_passes [OF store_suite [OF assms(1,2)] typed_empty [where keeps = keeps, OF assms(3)] _ assms(4,5)]) simp_all

lemma key_ok_test_key: "n \<noteq> [] \<Longrightarrow> key_ok fmt (test_key n)"
  by (auto simp: key_ok_def url_safe_def plain_part_def cache_key_from_str_def key_part_new_def Let_def wf_key_def
      prefix_key_def version_key_def)

definition suite_redis :: "test_response redis_config" where
  "suite_redis =
     \<lparr>rg_mode = mode_single ''redis://localhost:6379/'', rg_connection_timeout = None, rg_response_timeout = None,
      rg_retries = None, rg_username = None, rg_password = None, rg_format = bincode_format response_serde,
      rg_key_format = BitcodeKeys, rg_compressor = passthrough_compressor, rg_label = BackendLabel ''redis''\<rparr>"

definition suite_moka :: "test_response moka_builder" where
  "suite_moka = mb_max_entries 100 (moka_builder_new response_serde)"

definition suite_feox :: "test_response feox_builder" where
  "suite_feox = feox_builder_default response_serde"

lemma total_passthrough: "total_compressor passthrough_compressor"
  by (simp add: total_compressor_def passthrough_compressor_def)

lemma suite_configs:
  "lossless_format (rg_format suite_redis)" "lossless_compressor (rg_compressor suite_redis)"
  "total_format (rg_format suite_redis)" "total_compressor (rg_compressor suite_redis)"
  "lossless_format (mb_format suite_moka)" "lossless_compressor (mb_compressor suite_moka)"
  "total_format (mb_format suite_moka)" "total_compressor (mb_compressor suite_moka)"
  "lossless_format (fb_format suite_feox)" "lossless_compressor (fb_compressor suite_feox)"
  "total_format (fb_format suite_feox)" "total_compressor (fb_compressor suite_feox)"
  by (simp_all add: suite_redis_def suite_moka_def suite_feox_def mb_max_entries_def moka_builder_new_def
      feox_builder_default_def response_serde_ok total_passthrough)

interpretation suite_moka: response_store "moka_backend ref_moka_ops suite_moka" "mo_now ref_moka_ops" "\<lambda>k. True" ref_prompt_moka.keeps
  by (intro response_store.intro ref_prompt_moka.prompt suite_configs)

interpretation moka_run: suite "moka_backend ref_moka_ops suite_moka" "mo_now ref_moka_ops" "\<lambda>k. True"
  "typed_keeps (moka_backend ref_moka_ops suite_moka) ref_prompt_moka.keeps"
  using store_suite [OF suite_moka.prompt_store_axioms] by (simp add: moka_backend_def dyn_dyn)

text \<open>The clock of the reference server stands still.\<close>

interpretation frozen_redis: paced_suite "redis_backend unary_columns letter_encoding ref_redis_ops suite_redis"
  "\<lambda>w w'. rr_now (rw_server w) = rr_now (rw_server w')"
proof -
  have "rr_now s = rr_now (snd (rd_connect ref_redis_ops q s))" "rr_now s = rr_now (snd (rd_pipeline ref_redis_ops cmds s))" for q cmds s
    by (simp_all add: ref_redis_ops_def case_prod_beta ref_pipeline_now)
  note l = redis_later [where later = "\<lambda>s s'. rr_now s = rr_now s'" and R = ref_redis_ops, OF _ _ this]
  show "paced_suite (redis_backend unary_columns letter_encoding ref_redis_ops suite_redis)
      (\<lambda>w w'. rr_now (rw_server w) = rr_now (rw_server w'))"
    unfolding redis_backend_def by (intro paced_suite.intro paced_dyn) (simp_all add: l)
qed

section \<open>Properties\<close>

text \<open>C15. The conformance suite of the test crate returns Ok on the Redis store, with either key format and a lossless codec that never
  fails, when it starts on a server without keys, no call fails, nothing is evicted, nobody else writes, and the run takes up to a
  second.  The commands of a pipeline run in order, each at a moment of its own, and the server's clock may differ from the client's
  by a constant.  (Redis keeps whole seconds; how far the times that are read are off is not part of the suite's result: its
  check of an expiry tolerates a second in truncated milliseconds, which the rounding and the delays of such a run just meet.)\<close>

theorem redis_passes_conformance_suite:
  assumes "reliable_redis R rkeys" "lawful_columns cc" "urlencoding_laws U" "\<And>ps. is_ok (ue_to_string U ps)"
    and "lossless_format (rg_format g)" "lossless_compressor (rg_compressor g)" "total_format (rg_format g)" "total_compressor (rg_compressor g)"
    and "rkeys (rw_server w) = (\<lambda>k. None)" "era (rd_now R (rw_server w))"
    and "rd_now R (rw_server (snd (run_backend_tests (\<lambda>w. rd_now R (rw_server w)) (redis_backend cc U R g) w))) \<le> rd_now R (rw_server w) + 1000000000"
  shows "fst (run_backend_tests (\<lambda>w. rd_now R (rw_server w)) (redis_backend cc U R g) w) = Ok ()"
proof -
  have d: "dyn_backend (redis_backend cc U R g) = redis_backend cc U R g" by (simp add: redis_backend_def dyn_dyn)
  have k: "is_ok (key_serialize cc U (rg_key_format g) k)" for k
    using assms(4) [of "key_pairs k"] by (cases "rg_key_format g") (auto simp: key_serialize_def is_ok_iff)
  have "reliable_redis.keeps R rkeys cc U g (rd_now R (rw_server w)) w (\<lambda>k. None)"
    using assms(9) by (simp add: reliable_redis.keeps_def [OF assms(1)] reliable_redis.hash_serves_def [OF assms(1)])
  from store_passes [OF reliable_redis.prompt [OF assms(1-3,5-8)] _ this assms(10), unfolded d] assms(11) k key_ok_test_key
  show ?thesis by simp
qed

theorem redis_passes_conformance_suite_witness:
  "fst (run_backend_tests (\<lambda>w. rd_now ref_redis_ops (rw_server w)) (redis_backend unary_columns letter_encoding ref_redis_ops suite_redis)
      \<lparr>rw_connected = False, rw_server = \<lparr>rr_now = 0, rr_keys = (\<lambda>k. None)\<rparr>\<rparr>) = Ok ()"
proof -
  let ?w = "\<lparr>rw_connected = False, rw_server = \<lparr>rr_now = 0, rr_keys = (\<lambda>k. None)\<rparr>\<rparr> :: ref_redis redis_world"
  let ?run = "run_backend_tests (\<lambda>w. rd_now ref_redis_ops (rw_server w)) (redis_backend unary_columns letter_encoding ref_redis_ops suite_redis)"
  have "rr_now (rw_server (snd (?run ?w))) = 0"
    using frozen_redis.steady_suite [unfolded frozen_redis.steady_def] by (metis redis_world.select_convs(2) ref_redis.select_convs(1))
  then show ?thesis
    by (intro redis_passes_conformance_suite [OF ref_reliable_redis.reliable_redis_axioms lawful_unary_columns letters.urlencoding_laws_axioms
          _ suite_configs(1-4)])
      (simp_all add: ref_redis_ops_def era_def chrono_time_def timestamp_def letter_encoding_def)
qed

text \<open>C16. The conformance suite returns Ok on the in-memory store, with a lossless codec that never fails, when it starts on an empty
  store, the run takes up to a second, and the store evicts nothing, answers for what it holds until its deadline and not after
  it.  (That is what the suite's own checks say, no more: its check of an expiry tolerates a second either way.)\<close>

theorem moka_passes_conformance_suite:
  assumes "prompt_moka M held" "lossless_format (mb_format b)" "lossless_compressor (mb_compressor b)"
    and "total_format (mb_format b)" "total_compressor (mb_compressor b)" "held c = (\<lambda>k. None)" "era (mo_now M c)"
    and "mo_now M (snd (run_backend_tests (mo_now M) (moka_backend M b) c)) \<le> mo_now M c + 1000000000"
  shows "fst (run_backend_tests (mo_now M) (moka_backend M b) c) = Ok ()"
proof -
  have d: "dyn_backend (moka_backend M b) = moka_backend M b" by (simp add: moka_backend_def dyn_dyn)
  have "prompt_moka.keeps M held (mo_now M c) c (\<lambda>k. None)"
    using assms(6) by (simp add: prompt_moka.keeps_def [OF assms(1)] serves_def)
  from store_passes [OF prompt_moka.prompt [OF assms(1-5)] _ this assms(7), unfolded d] assms(8)
  show ?thesis by simp
qed

lemma frozen_moka:
  "rm_now (snd (run_backend_tests (mo_now ref_moka_ops) (moka_backend ref_moka_ops suite_moka) c)) = rm_now c"
proof -
  have "paced_suite (moka_backend ref_moka_ops suite_moka) (\<lambda>c c'. rm_now c = rm_now c')"
    unfolding moka_backend_def
    by (intro paced_suite.intro paced_dyn)
      (auto simp: moka_read_def moka_write_def moka_remove_def ref_moka_ops_def split: option.splits)
  from paced_suite.steady_suite [OF this] show ?thesis
    unfolding paced.steady_def [OF paced_suite.axioms [OF \<open>paced_suite _ _\<close>]] by metis
qed

theorem moka_passes_conformance_suite_witness:
  "fst (run_backend_tests (mo_now ref_moka_ops) (moka_backend ref_moka_ops suite_moka) \<lparr>rm_now = 0, rm_held = (\<lambda>k. None)\<rparr>) = Ok ()"
  by (rule moka_passes_conformance_suite [OF ref_prompt_moka.prompt_moka_axioms suite_configs(5-8)])
    (use frozen_moka [of "\<lparr>rm_now = 0, rm_held = (\<lambda>k. None)\<rparr>"] in \<open>simp_all add: ref_moka_ops_def era_def chrono_time_def timestamp_def\<close>)

text \<open>The FeOxDB store passes it too.\<close>

lemma feoxdb_passes_conformance_suite:
  assumes "prompt_feox X entries" "lossless_feox_codec c" "feox_keys_distinct c" "\<And>v. is_ok (fc_enc c v)" "\<And>k. is_ok (fc_key c k)"
    and "lossless_format (fb_format b)" "lossless_compressor (fb_compressor b)" "total_format (fb_format b)" "total_compressor (fb_compressor b)"
    and "entries s = (\<lambda>k. None)" "era (fx_now X s)"
    and "fx_now X (snd (run_backend_tests (fx_now X) (feox_backend X c b) s)) \<le> fx_now X s + 1000000000"
  shows "fst (run_backend_tests (fx_now X) (feox_backend X c b) s) = Ok ()"
proof -
  have d: "dyn_backend (feox_backend X c b) = feox_backend X c b" by (simp add: feox_backend_def dyn_dyn)
  have "prompt_feox.keeps X entries c (fx_now X s) s (\<lambda>k. None)"
    using assms(10) by (simp add: prompt_feox.keeps_def [OF assms(1)] serves_def)
  from store_passes [OF prompt_feox.prompt [OF assms(1-4,6-9)] _ this assms(11), unfolded d] assms(5,12)
  show ?thesis by (simp add: prompt_feox.okey_def [OF assms(1)])
qed

end
