(* ===== verification/Scenario.thy ===== *)
theory Scenario
  imports Fsm_Spans Fsm_Manager Conformance_Stores Composition
begin

text \<open>
  The state machine tests of the test crate (hitbox-test/src/fsm/): the world of a scenario
  (world.rs), its steps (steps/given.rs, when.rs, then.rs), and a run of its requests.  When a task is
  polled, and what happens to the store between two polls, is a schedule.
\<close>

section \<open>Requests and responses\<close>

text \<open>\<open>SimpleRequest\<close> and \<open>SimpleResponse\<close> are 32-bit integers.\<close>

type_synonym simple_request = "32 word"
type_synonym simple_response = "32 word"

definition simple_request_policy ::
  "simple_request async_predicate \<Rightarrow> simple_request extractor \<Rightarrow> simple_request \<Rightarrow> simple_request request_cache_policy option" where
  "simple_request_policy predicates extractors self =
     map_option (\<lambda>checked. case checked of
        PCacheable request \<Rightarrow>
          (let key_parts = extractors request; (request, cache_key) = into_cache_key key_parts
           in Cacheable (cacheable_policy_data_new cache_key request))
      | PNonCacheable request \<Rightarrow> NonCacheable request) (predicates self)"

definition simple_response_policy ::
  "simple_response predicate \<Rightarrow> entity_policy_config \<Rightarrow> simple_response \<Rightarrow> (32 word, simple_response) response_cache_policy" where
  "simple_response_policy predicates config self =
     (case predicates self of
        PCacheable response \<Rightarrow> Cacheable (cache_value_new response None None)
      | PNonCacheable response \<Rightarrow> NonCacheable response)"

definition simple_into_cached :: "simple_response \<Rightarrow> (32 word, simple_response) cache_policy" where
  "simple_into_cached self = Cacheable self"

definition simple_from_cached :: "32 word \<Rightarrow> simple_response" where
  "simple_from_cached cached = cached"

definition configurable_request_predicate :: "bool \<Rightarrow> simple_request async_predicate" where
  "configurable_request_predicate cacheable subject = Some (if cacheable then PCacheable subject else PNonCacheable subject)"

definition configurable_response_predicate :: "bool \<Rightarrow> simple_response predicate" where
  "configurable_response_predicate cacheable subject = (if cacheable then PCacheable subject else PNonCacheable subject)"

definition fixed_key_extractor :: "simple_request extractor" where
  "fixed_key_extractor subject =
     key_parts_push (key_part_new ''fixed_key'' (Some ''value'')) (key_parts_new subject)"

abbreviation scenario_key :: cache_key where
  "scenario_key \<equiv> cache_key_from_str ''fixed_key'' ''value''"

section \<open>The upstream\<close>

text \<open>What a scenario runs on: a store, the upstream calls that were made, each with the response it will
  give and the time its sleep ends once it was polled, and the number of calls counted.\<close>

record 's arena =
  an_store :: 's
  an_calls :: "(simple_response \<times> time option) list"
  an_count :: nat

definition millis :: "nat \<Rightarrow> int" where
  "millis n = int n * 1000000"

definition upstream_call :: "simple_request \<Rightarrow> 's arena \<Rightarrow> upstream_future \<times> 's arena" where
  "upstream_call request a = (length (an_calls a), a\<lparr>an_calls := an_calls a @ [(request, None)]\<rparr>)"

definition upstream_poll :: "('s \<Rightarrow> time) \<Rightarrow> nat \<Rightarrow> upstream_future \<Rightarrow> 's arena \<Rightarrow> (simple_response, 's arena) polled" where
  "upstream_poll clock delay_ms fut a =
     (case an_calls a ! fut of
        (response, None) \<Rightarrow>
          (let a = a\<lparr>an_count := Suc (an_count a)\<rparr> in
           if delay_ms > 0
           then (None, a\<lparr>an_calls := (an_calls a)[fut := (response, Some (clock (an_store a) + millis delay_ms))]\<rparr>)
           else (Some response, a))
      | (response, Some wake) \<Rightarrow> (if wake \<le> clock (an_store a) then Some response else None, a))"

section \<open>The world of a scenario\<close>

record fsm_config =
  fc_cache_enabled :: bool
  fc_request_cacheable :: bool
  fc_response_cacheable :: bool
  fc_concurrency :: "nat option"
  fc_ttl :: "duration option"
  fc_stale :: "duration option"

datatype preload = PreEmpty | PreFresh "32 word" | PreStale "32 word" | PreExpired "32 word"

record composition_config =
  xc_enabled :: bool
  xc_refill_policy :: refill_policy
  xc_l1_state :: preload
  xc_l2_state :: preload

definition composition_config_default :: composition_config where
  "composition_config_default =
     \<lparr>xc_enabled = False, xc_refill_policy = refill_policy_default, xc_l1_state = PreEmpty, xc_l2_state = PreEmpty\<rparr>"

record test_results =
  ts_responses :: "(simple_response \<times> cache_context) list"
  ts_upstream_call_count :: nat

definition test_results_default :: test_results where
  "test_results_default = \<lparr>ts_responses = [], ts_upstream_call_count = 0\<rparr>"

definition all_responses_eq :: "32 word \<Rightarrow> test_results \<Rightarrow> bool" where
  "all_responses_eq expected r = list_all (\<lambda>(response, _). response = expected) (ts_responses r)"

record 's fsm_world =
  fw_config :: fsm_config
  fw_cache_state :: preload
  fw_upstream_delay_ms :: nat
  fw_request_delay_ms :: nat
  fw_results :: test_results
  fw_backend :: 's
  fw_composition :: composition_config
  fw_layers :: "('s, 's) comp_state"
  fw_collector :: span_collector

definition fsm_world_new :: "'s \<Rightarrow> 's \<Rightarrow> 's \<Rightarrow> 's fsm_world" where
  "fsm_world_new backend l1_backend l2_backend =
     \<lparr>fw_config = \<lparr>fc_cache_enabled = True, fc_request_cacheable = True, fc_response_cacheable = True,
                   fc_concurrency = concurrency_limit_new 1, fc_ttl = Some (60 * nanos_per_sec), fc_stale = None\<rparr>,
      fw_cache_state = PreEmpty, fw_upstream_delay_ms = 100, fw_request_delay_ms = 10,
      fw_results = test_results_default, fw_backend = backend, fw_composition = composition_config_default,
      fw_layers = \<lparr>co_layers = \<lparr>ly_l1 = l1_backend, ly_l2 = l2_backend\<rparr>, co_tasks = []\<rparr>,
      fw_collector = create_span_collector\<rparr>"

text \<open>The store of a scenario holds at most a hundred entries, in JSON.\<close>

definition scenario_builder :: "(32 word) serde \<Rightarrow> (32 word) moka_builder" where
  "scenario_builder json = mb_max_entries 100 (moka_builder_new json)"

definition scenario_backend :: "'c moka_ops \<Rightarrow> (32 word) serde \<Rightarrow> ('c, 32 word) cache_backend" where
  "scenario_backend M json = moka_backend M (scenario_builder json)"

text \<open>The value a store is filled with; a store that stays empty is not written.\<close>

definition preload_value :: "time \<Rightarrow> preload \<Rightarrow> (32 word) cache_value option" where
  "preload_value now st =
     (case st of
        PreEmpty \<Rightarrow> None
      | PreFresh v \<Rightarrow> Some (cache_value_new v (Some (now + seconds 3600)) None)
      | PreStale v \<Rightarrow> Some (cache_value_new v (Some (now + seconds 3600)) (Some (now - seconds 1)))
      | PreExpired v \<Rightarrow> Some (cache_value_new v (Some (now - seconds 3600)) (Some (now - seconds 1800))))"

definition populate_backend :: "'c moka_ops \<Rightarrow> (32 word) serde \<Rightarrow> preload \<Rightarrow> 'c \<Rightarrow> 'c" where
  "populate_backend M json st c =
     (case preload_value (mo_now M c) st of
        None \<Rightarrow> c
      | Some v \<Rightarrow> snd (cache_set (scenario_backend M json) scenario_key v fresh_ctx c))"

definition config_policy :: "fsm_config \<Rightarrow> policy_config" where
  "config_policy cfg =
     (if fc_cache_enabled cfg
      then Enabled \<lparr>ec_ttl = fc_ttl cfg, ec_stale = fc_stale cfg, ec_policy = cache_behavior_policy_default,
                    ec_concurrency = fc_concurrency cfg\<rparr>
      else Disabled)"

section \<open>A run\<close>

text \<open>The surroundings of a scenario's cache futures, over the typed operations of its backend: the
  offload is disabled.\<close>

definition scenario_base ::
  "(cache_key \<Rightarrow> box_context \<Rightarrow> 's \<Rightarrow> (((32 word) cache_value option, backend_error) result \<times> box_context) \<times> 's)
   \<Rightarrow> (cache_key \<Rightarrow> (32 word) cache_value \<Rightarrow> box_context \<Rightarrow> 's \<Rightarrow> ((unit, backend_error) result \<times> box_context) \<times> 's)
   \<Rightarrow> ('s \<Rightarrow> time) \<Rightarrow> nat \<Rightarrow> (simple_request, 32 word, 'rx, 's arena, simple_response, simple_response predicate) fsm_env" where
  "scenario_base kget kset clock delay_ms =
     \<lparr>fo_now = (\<lambda>a. clock (an_store a)),
      fo_call = upstream_call,
      fo_check = (\<lambda>k n a. (ProceedWithoutPermit, a)), fo_resolve = (\<lambda>k v a. a), fo_cleanup = (\<lambda>k a. a), fo_permit_drop = (\<lambda>i a. a),
      fe_req_policy = (\<lambda>(request, p, x) a. (simple_request_policy p x request, a)),
      fe_get = (\<lambda>k ctx a. case kget k ctx (an_store a) of (r, s) \<Rightarrow> (Some r, a\<lparr>an_store := s\<rparr>)),
      fe_set = (\<lambda>k v ctx a. case kset k v ctx (an_store a) of (r, s) \<Rightarrow> (Some r, a\<lparr>an_store := s\<rparr>)),
      fe_upstream = upstream_poll clock delay_ms,
      fe_res_policy = (\<lambda>(res, rp, cfg) a. (Some (simple_response_policy rp cfg res), a)),
      fe_from_cached = (\<lambda>c a. (Some (simple_from_cached c), a)),
      fe_await = (\<lambda>i rx a. (None, a)),
      fe_spawn = (\<lambda>kind fut a. a)\<rparr>"

text \<open>All requests share one broadcast manager, which is in the world beside the rest.\<close>

definition scenario_env ::
  "('sem, 'ch, 'rx, (32 word) cache_value) sync_ops
   \<Rightarrow> (cache_key \<Rightarrow> box_context \<Rightarrow> 's \<Rightarrow> (((32 word) cache_value option, backend_error) result \<times> box_context) \<times> 's)
   \<Rightarrow> (cache_key \<Rightarrow> (32 word) cache_value \<Rightarrow> box_context \<Rightarrow> 's \<Rightarrow> ((unit, backend_error) result \<times> box_context) \<times> 's)
   \<Rightarrow> ('s \<Rightarrow> time) \<Rightarrow> nat
   \<Rightarrow> (simple_request, 32 word, 'rx, ('sem, 'ch) manager \<times> 's arena, simple_response, simple_response predicate) fsm_env" where
  "scenario_env P kget kset clock delay_ms = over_manager P simple_from_cached (scenario_base kget kset clock delay_ms)"

type_synonym 'rx simple_future = "(simple_request, simple_response, simple_response predicate, 32 word, 'rx) spanned_future"

text \<open>A task sleeps until its turn, makes its cache future, and polls it until it has a response.\<close>

datatype 'rx request_task =
    Sleeping time
  | Running "'rx simple_future"
  | Finished "simple_response \<times> cache_context"
  | Failed

record ('sem, 'ch, 'rx, 's) scenario_run =
  sr_tasks :: "'rx request_task list"
  sr_manager :: "('sem, 'ch) manager"
  sr_arena :: "'s arena"
  sr_collector :: span_collector

text \<open>One poll of task \<open>i\<close>, and what happens to the store by itself as time goes by.\<close>

datatype 's event = PollTask nat | Outside "'s \<Rightarrow> 's"

definition poll_future ::
  "(simple_request, 32 word, 'rx, ('sem, 'ch) manager \<times> 's arena, simple_response, simple_response predicate) fsm_env
   \<Rightarrow> nat \<Rightarrow> 'rx simple_future \<Rightarrow> ('sem, 'ch, 'rx, 's) scenario_run \<Rightarrow> ('sem, 'ch, 'rx, 's) scenario_run" where
  "poll_future E i g R =
     (case spanned_poll E g ((sr_manager R, sr_arena R), sr_collector R) of
        (t, ((m, a), C)) \<Rightarrow>
          \<lparr>sr_tasks = (sr_tasks R)[i := (case t of Pending g' \<Rightarrow> Running g' | Ready g' out \<Rightarrow> Finished out | _ \<Rightarrow> Failed)],
           sr_manager = m, sr_arena = a, sr_collector = C\<rparr>)"

definition poll_task ::
  "(simple_request, 32 word, 'rx, ('sem, 'ch) manager \<times> 's arena, simple_response, simple_response predicate) fsm_env
   \<Rightarrow> ('s \<Rightarrow> time) \<Rightarrow> fsm_config \<Rightarrow> 32 word \<Rightarrow> nat \<Rightarrow> ('sem, 'ch, 'rx, 's) scenario_run \<Rightarrow> ('sem, 'ch, 'rx, 's) scenario_run" where
  "poll_task E clock cfg request_value i R =
     (case sr_tasks R ! i of
        Sleeping wake \<Rightarrow>
          if clock (an_store (sr_arena R)) < wake then R
          else (case spanned_new request_value (configurable_request_predicate (fc_request_cacheable cfg))
                       (configurable_response_predicate (fc_response_cacheable cfg)) fixed_key_extractor (config_policy cfg)
                       (sr_collector R) of
                  (g, C) \<Rightarrow> poll_future E i g (R\<lparr>sr_collector := C\<rparr>))
      | Running g \<Rightarrow> poll_future E i g R
      | _ \<Rightarrow> R)"

fun scenario_event ::
  "(simple_request, 32 word, 'rx, ('sem, 'ch) manager \<times> 's arena, simple_response, simple_response predicate) fsm_env
   \<Rightarrow> ('s \<Rightarrow> time) \<Rightarrow> fsm_config \<Rightarrow> 32 word \<Rightarrow> 's event \<Rightarrow> ('sem, 'ch, 'rx, 's) scenario_run \<Rightarrow> ('sem, 'ch, 'rx, 's) scenario_run" where
  "scenario_event E clock cfg v (PollTask i) R = (if i < length (sr_tasks R) then poll_task E clock cfg v i R else R)"
| "scenario_event E clock cfg v (Outside f) R = R\<lparr>sr_arena := (sr_arena R)\<lparr>an_store := f (an_store (sr_arena R))\<rparr>\<rparr>"

text \<open>The tasks as they are spawned, all but the first after a delay, on a new manager.\<close>

definition scenario_start ::
  "('sem, 'ch, 'rx, (32 word) cache_value) sync_ops \<Rightarrow> ('s \<Rightarrow> time) \<Rightarrow> nat \<Rightarrow> nat \<Rightarrow> 's \<Rightarrow> span_collector
   \<Rightarrow> ('sem, 'ch, 'rx, 's) scenario_run" where
  "scenario_start P clock request_delay_ms num_requests s C =
     \<lparr>sr_tasks = map (\<lambda>i. Sleeping (if request_delay_ms > 0 \<and> i > 0 then clock s + millis (i * request_delay_ms) else clock s))
                   [0..<num_requests],
      sr_manager = manager_new P,
      sr_arena = \<lparr>an_store = s, an_calls = [], an_count = 0\<rparr>,
      sr_collector = collector_clear C\<rparr>"

definition finished_outs :: "'rx request_task list \<Rightarrow> (simple_response \<times> cache_context) list option" where
  "finished_outs ts = those (map (\<lambda>t. case t of Finished out \<Rightarrow> Some out | _ \<Rightarrow> None) ts)"

text \<open>The run after some events.\<close>

definition run_state ::
  "('sem, 'ch, 'rx, (32 word) cache_value) sync_ops
   \<Rightarrow> (cache_key \<Rightarrow> box_context \<Rightarrow> 's \<Rightarrow> (((32 word) cache_value option, backend_error) result \<times> box_context) \<times> 's)
   \<Rightarrow> (cache_key \<Rightarrow> (32 word) cache_value \<Rightarrow> box_context \<Rightarrow> 's \<Rightarrow> ((unit, backend_error) result \<times> box_context) \<times> 's)
   \<Rightarrow> ('s \<Rightarrow> time) \<Rightarrow> 't fsm_world \<Rightarrow> nat \<Rightarrow> 32 word \<Rightarrow> 's event list \<Rightarrow> 's \<Rightarrow> ('sem, 'ch, 'rx, 's) scenario_run" where
  "run_state P kget kset clock w num_requests request_value evs s =
     fold (scenario_event (scenario_env P kget kset clock (fw_upstream_delay_ms w)) clock (fw_config w) request_value) evs
       (scenario_start P clock (fw_request_delay_ms w) num_requests s (fw_collector w))"

text \<open>Its results: \<open>None\<close> when the schedule ends before every task has its response, or a task panicked.\<close>

definition run_results :: "('sem, 'ch, 'rx, 's) scenario_run \<Rightarrow> (test_results \<times> 's \<times> span_collector) option" where
  "run_results R =
     map_option (\<lambda>outs. (\<lparr>ts_responses = outs, ts_upstream_call_count = an_count (sr_arena R)\<rparr>, an_store (sr_arena R), sr_collector R))
       (finished_outs (sr_tasks R))"

definition run_single_requests ::
  "('sem, 'ch, 'rx, (32 word) cache_value) sync_ops \<Rightarrow> 'c moka_ops \<Rightarrow> (32 word) serde \<Rightarrow> nat \<Rightarrow> 32 word \<Rightarrow> 'c event list
   \<Rightarrow> 'c fsm_world \<Rightarrow> 'c fsm_world option" where
  "run_single_requests P M json num_requests request_value evs w =
     (let B = scenario_backend M json in
      map_option (\<lambda>(results, s, C). w\<lparr>fw_results := results, fw_backend := s, fw_collector := C\<rparr>)
        (run_results (run_state P (cache_get B) (cache_set B) (mo_now M) w num_requests request_value evs
           (populate_backend M json (fw_cache_state w) (fw_backend w)))))"

text \<open>The same over a composition of two such stores, each filled by itself; its clock is that of the first.\<close>

definition scenario_composition ::
  "'c moka_ops \<Rightarrow> (32 word) serde \<Rightarrow> refill_policy \<Rightarrow> ('c, 'c, 32 word) composition" where
  "scenario_composition M json refill =
     composition_with_policy (policy_refill refill composition_policy_new)
       (composition_new (scenario_backend M json) (scenario_backend M json))"

definition prepopulate_composition_cache ::
  "'c moka_ops \<Rightarrow> (32 word) serde \<Rightarrow> composition_config \<Rightarrow> ('c, 'c) comp_state \<Rightarrow> ('c, 'c) comp_state" where
  "prepopulate_composition_cache M json x st =
     st\<lparr>co_layers := \<lparr>ly_l1 = populate_backend M json (xc_l1_state x) (ly_l1 (co_layers st)),
                     ly_l2 = populate_backend M json (xc_l2_state x) (ly_l2 (co_layers st))\<rparr>\<rparr>"

definition run_composed_requests ::
  "('sem, 'ch, 'rx, (32 word) cache_value) sync_ops \<Rightarrow> 'c moka_ops \<Rightarrow> (32 word) serde \<Rightarrow> (('c, 'c) comp_state \<Rightarrow> schedule)
   \<Rightarrow> nat \<Rightarrow> 32 word \<Rightarrow> ('c, 'c) comp_state event list \<Rightarrow> 'c fsm_world \<Rightarrow> 'c fsm_world option" where
  "run_composed_requests P M json sched num_requests request_value evs w =
     (let C = scenario_composition M json (xc_refill_policy (fw_composition w)) in
      map_option (\<lambda>(results, st, spans). w\<lparr>fw_results := results, fw_layers := st, fw_collector := spans\<rparr>)
        (run_results (run_state P (composition_get sched C) (composition_set sched C) (\<lambda>st. mo_now M (ly_l1 (co_layers st))) w
           num_requests request_value evs (prepopulate_composition_cache M json (fw_composition w) (fw_layers w)))))"

definition run_requests ::
  "('sem, 'ch, 'rx, (32 word) cache_value) sync_ops \<Rightarrow> 'c moka_ops \<Rightarrow> (32 word) serde \<Rightarrow> (('c, 'c) comp_state \<Rightarrow> schedule)
   \<Rightarrow> nat \<Rightarrow> 32 word \<Rightarrow> 'c event list \<Rightarrow> ('c, 'c) comp_state event list \<Rightarrow> 'c fsm_world \<Rightarrow> 'c fsm_world option" where
  "run_requests P M json sched num_requests request_value evs composed_evs w =
     (if xc_enabled (fw_composition w) then run_composed_requests P M json sched num_requests request_value composed_evs w
      else run_single_requests P M json num_requests request_value evs w)"

section \<open>What the stores hold afterwards\<close>

definition get_fixed :: "'c moka_ops \<Rightarrow> (32 word) serde \<Rightarrow> 'c \<Rightarrow> ((32 word) cache_value option, backend_error) result \<times> 'c" where
  "get_fixed M json c =
     (case cache_get (scenario_backend M json) scenario_key fresh_ctx c of ((r, ctx), c) \<Rightarrow> (r, c))"

definition contains_value :: "'c moka_ops \<Rightarrow> (32 word) serde \<Rightarrow> 32 word \<Rightarrow> 'c \<Rightarrow> bool \<times> 'c" where
  "contains_value M json expected c =
     (case get_fixed M json c of
        (Inr (Some cached), c) \<Rightarrow> (into_inner cached = expected, c)
      | (_, c) \<Rightarrow> (False, c))"

definition is_empty_store :: "'c moka_ops \<Rightarrow> (32 word) serde \<Rightarrow> 'c \<Rightarrow> bool \<times> 'c" where
  "is_empty_store M json c =
     (case get_fixed M json c of
        (Inr (Some cached), c) \<Rightarrow> (False, c)
      | (_, c) \<Rightarrow> (True, c))"

definition cache_contains_value :: "'c moka_ops \<Rightarrow> (32 word) serde \<Rightarrow> 32 word \<Rightarrow> 'c fsm_world \<Rightarrow> bool \<times> 'c fsm_world" where
  "cache_contains_value M json expected w =
     (case contains_value M json expected (fw_backend w) of (b, c) \<Rightarrow> (b, w\<lparr>fw_backend := c\<rparr>))"

definition cache_is_empty :: "'c moka_ops \<Rightarrow> (32 word) serde \<Rightarrow> 'c fsm_world \<Rightarrow> bool \<times> 'c fsm_world" where
  "cache_is_empty M json w = (case is_empty_store M json (fw_backend w) of (b, c) \<Rightarrow> (b, w\<lparr>fw_backend := c\<rparr>))"

abbreviation put_l1 :: "'c \<Rightarrow> 'c fsm_world \<Rightarrow> 'c fsm_world" where
  "put_l1 c w \<equiv> w\<lparr>fw_layers := (fw_layers w)\<lparr>co_layers := (co_layers (fw_layers w))\<lparr>ly_l1 := c\<rparr>\<rparr>\<rparr>"

abbreviation put_l2 :: "'c \<Rightarrow> 'c fsm_world \<Rightarrow> 'c fsm_world" where
  "put_l2 c w \<equiv> w\<lparr>fw_layers := (fw_layers w)\<lparr>co_layers := (co_layers (fw_layers w))\<lparr>ly_l2 := c\<rparr>\<rparr>\<rparr>"

definition l1_contains_value :: "'c moka_ops \<Rightarrow> (32 word) serde \<Rightarrow> 32 word \<Rightarrow> 'c fsm_world \<Rightarrow> bool \<times> 'c fsm_world" where
  "l1_contains_value M json expected w =
     (case contains_value M json expected (ly_l1 (co_layers (fw_layers w))) of (b, c) \<Rightarrow> (b, put_l1 c w))"

definition l1_is_empty :: "'c moka_ops \<Rightarrow> (32 word) serde \<Rightarrow> 'c fsm_world \<Rightarrow> bool \<times> 'c fsm_world" where
  "l1_is_empty M json w = (case is_empty_store M json (ly_l1 (co_layers (fw_layers w))) of (b, c) \<Rightarrow> (b, put_l1 c w))"

definition l2_contains_value :: "'c moka_ops \<Rightarrow> (32 word) serde \<Rightarrow> 32 word \<Rightarrow> 'c fsm_world \<Rightarrow> bool \<times> 'c fsm_world" where
  "l2_contains_value M json expected w =
     (case contains_value M json expected (ly_l2 (co_layers (fw_layers w))) of (b, c) \<Rightarrow> (b, put_l2 c w))"

definition l2_is_empty :: "'c moka_ops \<Rightarrow> (32 word) serde \<Rightarrow> 'c fsm_world \<Rightarrow> bool \<times> 'c fsm_world" where
  "l2_is_empty M json w = (case is_empty_store M json (ly_l2 (co_layers (fw_layers w))) of (b, c) \<Rightarrow> (b, put_l2 c w))"

end
