(* ===== verification/Scenario_Steps.thy ===== *)
theory Scenario_Steps
  imports Scenario
begin

text \<open>
  The steps of the state machine tests (hitbox-test/src/fsm/steps/given.rs, when.rs, then.rs).  A
  \<open>given\<close> step changes the world or fails and leaves it; a \<open>then\<close> step compares the world with what
  is expected.  An error keeps the values its message shows.  Whitespace is ASCII's.
\<close>

datatype step_error =
    UnknownCachePolicy string
  | InvalidConcurrencyLimit nat
  | UnknownRefillPolicy string
  | UnknownLayer nat
  | UpstreamCalls nat nat
  | UpstreamCallsAbove nat nat
  | ResponsesDiffer "32 word" "32 word list"
  | CacheNotEmpty
  | CacheHolds "32 word" "32 word"
  | CacheEmpty "32 word"
  | CacheGetFailed "32 word" backend_error
  | StatusDiffers string string
  | NoResponses
  | LayerNotEmpty nat
  | LayerLacks nat "32 word"
  | NoTable
  | NoHeader
  | StateCount "string list" "string list"
  | StateDiffers nat string string
  | FieldDiffers string string string string
  | FieldMissing string string string
  | RequestCount nat nat

section \<open>Given\<close>

type_synonym 's given_step = "'s fsm_world \<Rightarrow> ('s fsm_world, step_error) result"

definition given_upstream_delay :: "nat \<Rightarrow> 's given_step" where
  "given_upstream_delay delay_ms w = Ok (w\<lparr>fw_upstream_delay_ms := delay_ms\<rparr>)"

definition given_request_delay :: "nat \<Rightarrow> 's given_step" where
  "given_request_delay delay_ms w = Ok (w\<lparr>fw_request_delay_ms := delay_ms\<rparr>)"

abbreviation with_config :: "(fsm_config \<Rightarrow> fsm_config) \<Rightarrow> 's fsm_world \<Rightarrow> 's fsm_world" where
  "with_config f w \<equiv> w\<lparr>fw_config := f (fw_config w)\<rparr>"

definition given_cache_policy :: "string \<Rightarrow> 's given_step" where
  "given_cache_policy policy w =
     (if policy = ''Enabled'' then Ok (with_config (fc_cache_enabled_update (\<lambda>_. True)) w)
      else if policy = ''Disabled'' then Ok (with_config (fc_cache_enabled_update (\<lambda>_. False)) w)
      else Err (UnknownCachePolicy policy))"

definition given_request_cacheable :: "'s given_step" where
  "given_request_cacheable w = Ok (with_config (fc_request_cacheable_update (\<lambda>_. True)) w)"

definition given_request_non_cacheable :: "'s given_step" where
  "given_request_non_cacheable w = Ok (with_config (fc_request_cacheable_update (\<lambda>_. False)) w)"

definition given_response_cacheable :: "'s given_step" where
  "given_response_cacheable w = Ok (with_config (fc_response_cacheable_update (\<lambda>_. True)) w)"

definition given_response_non_cacheable :: "'s given_step" where
  "given_response_non_cacheable w = Ok (with_config (fc_response_cacheable_update (\<lambda>_. False)) w)"

definition given_cache_empty :: "'s given_step" where
  "given_cache_empty w = Ok (w\<lparr>fw_cache_state := PreEmpty\<rparr>)"

definition given_cache_fresh :: "32 word \<Rightarrow> 's given_step" where
  "given_cache_fresh v w = Ok (w\<lparr>fw_cache_state := PreFresh v\<rparr>)"

definition given_cache_stale :: "32 word \<Rightarrow> 's given_step" where
  "given_cache_stale v w = Ok (w\<lparr>fw_cache_state := PreStale v\<rparr>)"

definition given_cache_expired :: "32 word \<Rightarrow> 's given_step" where
  "given_cache_expired v w = Ok (w\<lparr>fw_cache_state := PreExpired v\<rparr>)"

definition given_concurrency_disabled :: "'s given_step" where
  "given_concurrency_disabled w = Ok (with_config (fc_concurrency_update (\<lambda>_. None)) w)"

text \<open>The limit is an 8-bit integer.\<close>

definition given_concurrency_limit :: "8 word \<Rightarrow> 's given_step" where
  "given_concurrency_limit limit w =
     (case concurrency_limit_new (unat limit) of
        None \<Rightarrow> Err (InvalidConcurrencyLimit (unat limit))
      | Some concurrency \<Rightarrow> Ok (with_config (fc_concurrency_update (\<lambda>_. Some concurrency)) w))"

text \<open>Placeholders that do nothing.\<close>

definition given_broadcast_will_close :: "'s given_step" where
  "given_broadcast_will_close w = Ok w"

definition given_broadcast_will_lag :: "'s given_step" where
  "given_broadcast_will_lag w = Ok w"

abbreviation with_composition :: "(composition_config \<Rightarrow> composition_config) \<Rightarrow> 's fsm_world \<Rightarrow> 's fsm_world" where
  "with_composition f w \<equiv> w\<lparr>fw_composition := f (fw_composition w)\<rparr>"

definition given_composition_enabled :: "'s given_step" where
  "given_composition_enabled w = Ok (with_composition (xc_enabled_update (\<lambda>_. True)) w)"

definition given_refill_policy :: "string \<Rightarrow> 's given_step" where
  "given_refill_policy policy w =
     (if policy = ''Always'' then Ok (with_composition (xc_refill_policy_update (\<lambda>_. RefillAlways)) w)
      else if policy = ''Never'' then Ok (with_composition (xc_refill_policy_update (\<lambda>_. RefillNever)) w)
      else Err (UnknownRefillPolicy policy))"

definition given_layer :: "preload \<Rightarrow> nat \<Rightarrow> 's given_step" where
  "given_layer st layer w =
     (if layer = 1 then Ok (with_composition (xc_l1_state_update (\<lambda>_. st)) w)
      else if layer = 2 then Ok (with_composition (xc_l2_state_update (\<lambda>_. st)) w)
      else Err (UnknownLayer layer))"

definition given_layer_empty :: "nat \<Rightarrow> 's given_step" where
  "given_layer_empty = given_layer PreEmpty"

definition given_layer_fresh :: "nat \<Rightarrow> 32 word \<Rightarrow> 's given_step" where
  "given_layer_fresh layer v = given_layer (PreFresh v) layer"

definition given_layer_stale :: "nat \<Rightarrow> 32 word \<Rightarrow> 's given_step" where
  "given_layer_stale layer v = given_layer (PreStale v) layer"

section \<open>When\<close>

text \<open>"1 request is made": the number in the step is not looked at.\<close>

definition when_single_request ::
  "('sem, 'ch, 'rx, (32 word) cache_value) sync_ops \<Rightarrow> 'c moka_ops \<Rightarrow> (32 word) serde \<Rightarrow> (('c, 'c) comp_state \<Rightarrow> schedule)
   \<Rightarrow> nat \<Rightarrow> 32 word \<Rightarrow> 'c event list \<Rightarrow> ('c, 'c) comp_state event list \<Rightarrow> 'c fsm_world \<Rightarrow> 'c fsm_world option" where
  "when_single_request P M json sched num v evs composed_evs w = run_requests P M json sched 1 v evs composed_evs w"

definition when_multiple_requests ::
  "('sem, 'ch, 'rx, (32 word) cache_value) sync_ops \<Rightarrow> 'c moka_ops \<Rightarrow> (32 word) serde \<Rightarrow> (('c, 'c) comp_state \<Rightarrow> schedule)
   \<Rightarrow> nat \<Rightarrow> 32 word \<Rightarrow> 'c event list \<Rightarrow> ('c, 'c) comp_state event list \<Rightarrow> 'c fsm_world \<Rightarrow> 'c fsm_world option" where
  "when_multiple_requests P M json sched num v evs composed_evs w = run_requests P M json sched num v evs composed_evs w"

section \<open>Then\<close>

type_synonym check = "(unit, step_error) result"

definition upstream_called_times :: "nat \<Rightarrow> 's fsm_world \<Rightarrow> check" where
  "upstream_called_times expected w =
     (let actual = ts_upstream_call_count (fw_results w)
      in if actual \<noteq> expected then Err (UpstreamCalls expected actual) else Ok ())"

definition upstream_called_once :: "nat \<Rightarrow> 's fsm_world \<Rightarrow> check" where
  "upstream_called_once = upstream_called_times"

definition upstream_not_called :: "'s fsm_world \<Rightarrow> check" where
  "upstream_not_called w = upstream_called_times 0 w"

definition upstream_called_at_most :: "nat \<Rightarrow> 's fsm_world \<Rightarrow> check" where
  "upstream_called_at_most max_expected w =
     (let actual = ts_upstream_call_count (fw_results w)
      in if max_expected < actual then Err (UpstreamCallsAbove max_expected actual) else Ok ())"

definition all_responses_equal :: "32 word \<Rightarrow> 's fsm_world \<Rightarrow> check" where
  "all_responses_equal expected w =
     (if \<not> all_responses_eq expected (fw_results w)
      then Err (ResponsesDiffer expected (map fst (ts_responses (fw_results w)))) else Ok ())"

definition then_cache_empty :: "'c moka_ops \<Rightarrow> (32 word) serde \<Rightarrow> 'c fsm_world \<Rightarrow> check \<times> 'c fsm_world" where
  "then_cache_empty M json w =
     (case cache_is_empty M json w of (b, w) \<Rightarrow> (if \<not> b then Err CacheNotEmpty else Ok (), w))"

text \<open>Moka's pending tasks are run first, by \<open>sync\<close>.\<close>

definition then_cache_contains ::
  "'c moka_ops \<Rightarrow> ('c \<Rightarrow> 'c) \<Rightarrow> (32 word) serde \<Rightarrow> 32 word \<Rightarrow> 'c fsm_world \<Rightarrow> check \<times> 'c fsm_world" where
  "then_cache_contains M sync json expected w =
     (case get_fixed M json (sync (fw_backend w)) of
        (r, c) \<Rightarrow>
          ((case r of
              Inr (Some cached) \<Rightarrow> (if cv_data cached \<noteq> expected then Err (CacheHolds expected (cv_data cached)) else Ok ())
            | Inr None \<Rightarrow> Err (CacheEmpty expected)
            | Inl e \<Rightarrow> Err (CacheGetFailed expected e)),
           w\<lparr>fw_backend := c\<rparr>))"

definition cache_status_debug :: "cache_status \<Rightarrow> string" where
  "cache_status_debug s = (case s of Hit \<Rightarrow> ''Hit'' | Miss \<Rightarrow> ''Miss'' | StaleHit \<Rightarrow> ''Stale'')"

definition str_contains :: "string \<Rightarrow> string \<Rightarrow> bool" where
  "str_contains p s \<longleftrightarrow> list_ex (\<lambda>i. take (length p) (drop i s) = p) [0..<Suc (length s)]"

definition then_cache_status :: "string \<Rightarrow> 's fsm_world \<Rightarrow> check" where
  "then_cache_status expected_status w =
     (case ts_responses (fw_results w) of
        (_, context) # _ \<Rightarrow>
          (let actual_status = cache_status_debug (cc_status context);
               matches = (if expected_status = ''Hit'' then str_contains ''Hit'' actual_status
                          else if expected_status = ''Miss'' then str_contains ''Miss'' actual_status
                          else actual_status = expected_status)
           in if \<not> matches then Err (StatusDiffers expected_status actual_status) else Ok ())
      | [] \<Rightarrow> Err NoResponses)"

definition then_layer_empty :: "'c moka_ops \<Rightarrow> (32 word) serde \<Rightarrow> nat \<Rightarrow> 'c fsm_world \<Rightarrow> check \<times> 'c fsm_world" where
  "then_layer_empty M json layer w =
     (if layer = 1 then (case l1_is_empty M json w of (b, w) \<Rightarrow> (if \<not> b then Err (LayerNotEmpty layer) else Ok (), w))
      else if layer = 2 then (case l2_is_empty M json w of (b, w) \<Rightarrow> (if \<not> b then Err (LayerNotEmpty layer) else Ok (), w))
      else (Err (UnknownLayer layer), w))"

definition then_layer_contains ::
  "'c moka_ops \<Rightarrow> (32 word) serde \<Rightarrow> nat \<Rightarrow> 32 word \<Rightarrow> 'c fsm_world \<Rightarrow> check \<times> 'c fsm_world" where
  "then_layer_contains M json layer expected w =
     (if layer = 1
      then (case l1_contains_value M json expected w of (b, w) \<Rightarrow> (if \<not> b then Err (LayerLacks layer expected) else Ok (), w))
      else if layer = 2
      then (case l2_contains_value M json expected w of (b, w) \<Rightarrow> (if \<not> b then Err (LayerLacks layer expected) else Ok (), w))
      else (Err (UnknownLayer layer), w))"

subsection \<open>Expected states\<close>

definition is_blank :: "char \<Rightarrow> bool" where
  "is_blank c \<longleftrightarrow> c \<in> set [CHR '' '', CHR 0x09, CHR 0x0A, CHR 0x0B, CHR 0x0C, CHR 0x0D]"

definition trim :: "string \<Rightarrow> string" where
  "trim s = rev (dropWhile is_blank (rev (dropWhile is_blank s)))"

definition trim_end_braces :: "string \<Rightarrow> string" where
  "trim_end_braces s = rev (dropWhile (\<lambda>c. c = CHR ''}'') (rev s))"

fun split_at :: "char \<Rightarrow> string \<Rightarrow> string list" where
  "split_at d [] = [[]]"
| "split_at d (c # cs) =
     (if c = d then [] # split_at d cs
      else (case split_at d cs of p # ps \<Rightarrow> (c # p) # ps | [] \<Rightarrow> [[c]]))"

record state_expectation =
  se_name :: string
  se_fields :: span_fields

definition parse_field :: "string \<Rightarrow> (string \<times> string) option" where
  "parse_field field = (case split_at CHR ''='' field of [k, v] \<Rightarrow> Some (trim k, trim v) | _ \<Rightarrow> None)"

definition parse_state_expectation :: "string \<Rightarrow> state_expectation" where
  "parse_state_expectation s =
     (let s = trim s in
      if CHR ''{'' \<in> set s
      then (let name = trim (takeWhile (\<lambda>c. c \<noteq> CHR ''{'') s);
                fields_str = trim (trim_end_braces (tl (dropWhile (\<lambda>c. c \<noteq> CHR ''{'') s)))
            in \<lparr>se_name = name, se_fields = List.map_filter parse_field (split_at CHR '','' fields_str)\<rparr>)
      else \<lparr>se_name = s, se_fields = []\<rparr>)"

text \<open>The first error of a list of checks.\<close>

fun each :: "('a \<Rightarrow> (unit, 'e) result) \<Rightarrow> 'a list \<Rightarrow> (unit, 'e) result" where
  "each f [] = Ok ()"
| "each f (x # xs) = (case f x of Inl e \<Rightarrow> Err e | Inr _ \<Rightarrow> each f xs)"

definition check_field :: "string \<Rightarrow> captured_span option \<Rightarrow> string \<times> string \<Rightarrow> check" where
  "check_field name span = (\<lambda>(field, expected).
     case Option.bind span (\<lambda>s. map_of (sp_fields s) field) of
       Some v \<Rightarrow> (if v = expected then Ok () else Err (FieldDiffers name field expected v))
     | None \<Rightarrow> Err (FieldMissing name field expected))"

text \<open>A field is looked for in the first span of its state.\<close>

definition fsm_states_should_be :: "string list list option \<Rightarrow> 's fsm_world \<Rightarrow> check" where
  "fsm_states_should_be table w =
     (case table of
        None \<Rightarrow> Err NoTable
      | Some rows \<Rightarrow>
          (let expected = List.map_filter (\<lambda>row. case row of s # _ \<Rightarrow> Some (parse_state_expectation s) | [] \<Rightarrow> None) rows;
               actual = fsm_states (fw_collector w)
           in if length expected \<noteq> length actual then Err (StateCount (map se_name expected) actual)
              else each (\<lambda>(i, x, name).
                     if se_name x \<noteq> name then Err (StateDiffers i (se_name x) name)
                     else each (check_field (se_name x)
                            (List.find (\<lambda>s. sp_name s = ''fsm.'' @ se_name x) (sc_spans (fw_collector w)))) (se_fields x))
                   (List.enumerate 0 (zip expected actual))))"

subsection \<open>Expected states of every request\<close>

text \<open>A cell goes to the request of its column; a column without a header is an index out of bounds.\<close>

definition place_cell :: "nat \<times> string \<Rightarrow> string list list option \<Rightarrow> string list list option" where
  "place_cell = (\<lambda>(col, cell) columns. Option.bind columns (\<lambda>cs.
     let trimmed = trim cell in
     if trimmed = [] then Some cs
     else if col < length cs then Some (cs[col := cs ! col @ [trimmed]]) else None))"

definition expected_columns :: "nat \<Rightarrow> string list list \<Rightarrow> string list list option" where
  "expected_columns n rows = fold (\<lambda>row. fold place_cell (List.enumerate 0 row)) rows (Some (replicate n []))"

definition check_request_states :: "nat \<times> string list \<times> captured_span list \<Rightarrow> check" where
  "check_request_states = (\<lambda>(req_idx, expected, actual).
     let actual_names = List.map_filter (\<lambda>s. strip_prefix ''fsm.'' (sp_name s)) actual;
         parsed = map parse_state_expectation expected
     in if length parsed \<noteq> length actual_names then Err (StateCount (map se_name parsed) actual_names)
        else each (\<lambda>(i, x, name).
               if se_name x \<noteq> name then Err (StateDiffers i (se_name x) name)
               else each (check_field (se_name x) (Some (actual ! i))) (se_fields x))
             (List.enumerate 0 (zip parsed actual_names)))"

definition fsm_states_per_request_should_be :: "string list list option \<Rightarrow> 's fsm_world \<Rightarrow> check option" where
  "fsm_states_per_request_should_be table w =
     (case table of
        None \<Rightarrow> Some (Err NoTable)
      | Some [] \<Rightarrow> Some (Err NoHeader)
      | Some (header # rows) \<Rightarrow>
          map_option (\<lambda>expected.
             let actual = fsm_states_per_request (fw_collector w)
             in if length actual \<noteq> length header then Err (RequestCount (length header) (length actual))
                else each check_request_states (List.enumerate 0 (zip expected actual)))
            (expected_columns (length header) rows))"

section \<open>What the steps accept\<close>

lemma each_Ok: "each f xs = Ok () \<longleftrightarrow> (\<forall>x \<in> set xs. f x = Ok ())"
  by (induction xs) (auto split: sum.splits)

definition bare :: "string \<Rightarrow> bool" where
  "bare s \<longleftrightarrow> (\<forall>c \<in> set s. \<not> is_blank c \<and> c \<notin> set ''{}=,'')"

lemma trim_unblank: "(\<And>c. c \<in> set s \<Longrightarrow> \<not> is_blank c) \<Longrightarrow> trim s = s"
  by (simp add: trim_def dropWhile_eq_self_iff) (metis hd_in_set list.set_sel(1) set_rev rev_is_Nil_conv dropWhile_eq_self_iff rev_rev_ident)

lemma parse_bare: "bare name \<Longrightarrow> parse_state_expectation name = \<lparr>se_name = name, se_fields = []\<rparr>"
  by (auto simp: parse_state_expectation_def bare_def trim_unblank)

text \<open>A table of names is accepted when it lists the states that were entered.\<close>

lemma states_step_compares:
  assumes "\<And>name. name \<in> set names \<Longrightarrow> bare name"
  shows "fsm_states_should_be (Some (map (\<lambda>name. [name]) names)) w = Ok () \<longleftrightarrow> fsm_states (fw_collector w) = names"
proof -
  have e: "List.map_filter (\<lambda>row. case row of s # _ \<Rightarrow> Some (parse_state_expectation s) | [] \<Rightarrow> None) (map (\<lambda>name. [name]) names)
      = map (\<lambda>name. \<lparr>se_name = name, se_fields = []\<rparr>) names"
    using assms by (induction names) (auto simp: List.map_filter_simps parse_bare)
  have z: "(\<forall>p \<in> set (List.enumerate 0 zs). Q (snd p)) \<longleftrightarrow> (\<forall>z \<in> set zs. Q z)" for Q and zs :: "(state_expectation \<times> string) list"
    by (metis (no_types, lifting) enumerate_map_upt image_eqI image_set list.set_map map_snd_enumerate imageE)
  have q: "length names = length actual \<Longrightarrow>
      (\<forall>z \<in> set (zip (map (\<lambda>name. \<lparr>se_name = name, se_fields = []\<rparr>) names) actual). se_name (fst z) = snd z) \<longleftrightarrow> actual = names" for actual
    by (induction names actual rule: list_induct2) auto
  have f: "se_fields (fst (snd p)) = []"
    if "p \<in> set (List.enumerate 0 (zip (map (\<lambda>name. \<lparr>se_name = name, se_fields = []\<rparr>) names) actual))" for p actual
  proof -
    have "snd p \<in> set (zip (map (\<lambda>name. \<lparr>se_name = name, se_fields = []\<rparr>) names) actual)"
      using that by (metis image_eqI list.set_map map_snd_enumerate)
    then have "fst (snd p) \<in> set (map (\<lambda>name. \<lparr>se_name = name, se_fields = []\<rparr>) names)" by (metis prod.collapse set_zip_leftD)
    then show ?thesis by auto
  qed
  have "fsm_states_should_be (Some (map (\<lambda>name. [name]) names)) w = Ok () \<longleftrightarrow> length names = length (fsm_states (fw_collector w))
      \<and> (\<forall>p \<in> set (List.enumerate 0 (zip (map (\<lambda>name. \<lparr>se_name = name, se_fields = []\<rparr>) names) (fsm_states (fw_collector w)))).
           se_name (fst (snd p)) = snd (snd p))"
    by (simp add: fsm_states_should_be_def e Let_def each_Ok case_prod_beta f cong: ball_cong_simp)
  then have r: "fsm_states_should_be (Some (map (\<lambda>name. [name]) names)) w = Ok () \<longleftrightarrow> length names = length (fsm_states (fw_collector w))
      \<and> (\<forall>x \<in> set (zip (map (\<lambda>name. \<lparr>se_name = name, se_fields = []\<rparr>) names) (fsm_states (fw_collector w))). se_name (fst x) = snd x)"
    by (simp only: z [where Q = "\<lambda>x. se_name (fst x) = snd x"])
  show ?thesis
  proof (cases "length names = length (fsm_states (fw_collector w))")
    case True
    then show ?thesis unfolding r q [OF True] by simp
  qed (unfold r, auto)
qed

lemma call_step_compares: "upstream_called_times n w = Ok () \<longleftrightarrow> ts_upstream_call_count (fw_results w) = n"
  by (auto simp: upstream_called_times_def Let_def)

lemma response_step_compares: "all_responses_equal v w = Ok () \<longleftrightarrow> (\<forall>out \<in> set (ts_responses (fw_results w)). fst out = v)"
  by (auto simp: all_responses_equal_def all_responses_eq_def list_all_iff case_prod_beta)

end
