(* ===== verification/Scenario_Single.thy ===== *)
theory Scenario_Single
  imports Scenario_Steps
begin

text \<open>
  A scenario with one request: the polls of its cache future in every configuration, and the decision
  table of the state machine tests.
\<close>

section \<open>One cache future of a scenario\<close>

lemma scenario_env_sel [simp]:
  "fo_now (scenario_env P kget kset clock d) (m, a) = clock (an_store a)"
  "fo_call (scenario_env P kget kset clock d) r (m, a) = (length (an_calls a), (m, a\<lparr>an_calls := an_calls a @ [(r, None)]\<rparr>))"
  "fo_check (scenario_env P kget kset clock d) k n (m, a) =
     (case manager_check P k n m of Some (q, m') \<Rightarrow> (q, (m', a)) | None \<Rightarrow> (ProceedWithoutPermit, (m, a)))"
  "fo_resolve (scenario_env P kget kset clock d) k v (m, a) = (manager_resolve P k v m, a)"
  "fo_cleanup (scenario_env P kget kset clock d) k (m, a) = (manager_cleanup P k m, a)"
  "fo_permit_drop (scenario_env P kget kset clock d) i (m, a) = (permit_drop P i m, a)"
  "fe_req_policy (scenario_env P kget kset clock d) (request, p, x) (m, a) = (simple_request_policy p x request, (m, a))"
  "fe_get (scenario_env P kget kset clock d) k ctx (m, a) =
     (case kget k ctx (an_store a) of (r, s) \<Rightarrow> (Some r, (m, a\<lparr>an_store := s\<rparr>)))"
  "fe_set (scenario_env P kget kset clock d) k v ctx (m, a) =
     (case kset k v ctx (an_store a) of (r, s) \<Rightarrow> (Some r, (m, a\<lparr>an_store := s\<rparr>)))"
  "fe_upstream (scenario_env P kget kset clock d) fut (m, a) = apsnd (Pair m) (upstream_poll clock d fut a)"
  "fe_res_policy (scenario_env P kget kset clock d) (res, rp, cfg) (m, a) = (Some (simple_response_policy rp cfg res), (m, a))"
  "fe_from_cached (scenario_env P kget kset clock d) c (m, a) = (Some c, (m, a))"
  "fe_await (scenario_env P kget kset clock d) i rx (m, a) = (fst (await_poll P simple_from_cached i rx m), (m, a))"
  "fe_spawn (scenario_env P kget kset clock d) kind f (m, a) = (m, a)"
  by (simp_all add: scenario_env_def over_manager_def manager_ops_def scenario_base_def upstream_call_def simple_from_cached_def case_prod_beta
      split: prod.splits option.splits)

definition scenario_future :: "fsm_config \<Rightarrow> 32 word \<Rightarrow> (simple_request, simple_response, simple_response predicate, 32 word, 'rx) cache_future" where
  "scenario_future cfg v = cache_future_new v (configurable_request_predicate (fc_request_cacheable cfg))
     (configurable_response_predicate (fc_response_cacheable cfg)) fixed_key_extractor (config_policy cfg)"

lemma fixed_key: "into_cache_key (fixed_key_extractor v) = (v, scenario_key)"
  by (simp add: fixed_key_extractor_def key_parts_push_def key_parts_new_def into_cache_key_def cache_key_from_str_def Let_def)

lemma scenario_policies:
  "simple_request_policy (configurable_request_predicate b) fixed_key_extractor v =
     Some (if b then Cacheable (cacheable_policy_data_new scenario_key v) else NonCacheable v)"
  "simple_response_policy (configurable_response_predicate b) c v = (if b then Cacheable (cache_value_new v None None) else NonCacheable v)"
  by (simp_all add: simple_request_policy_def configurable_request_predicate_def fixed_key simple_response_policy_def
      configurable_response_predicate_def)

lemma poll_log_Moved: "fsm_turn E f w = (Moved f', w') \<Longrightarrow> poll_log E f w = closed_span E f w # poll_log E f' w'"
  by (subst poll_log.simps) simp

text \<open>The future in its upstream call.\<close>

definition fetching ::
  "fsm_config \<Rightarrow> 32 word \<Rightarrow> upstream_future \<Rightarrow> nat option \<Rightarrow> box_context \<Rightarrow> cache_key option
   \<Rightarrow> (simple_request, simple_response, simple_response predicate, 32 word, 'rx) cache_future" where
  "fetching cfg v fut pm ctx key =
     (scenario_future cfg v)\<lparr>cf_cache_key := key, cf_state := PollUpstream fut (Some \<lparr>pu_permit = pm, pu_ctx = ctx, pu_cache_key = key\<rparr>)\<rparr>"

lemmas turn_run = fsm_turn.simps transition_defs Let_def closed_span_def answered_span_def turn_fields_def state_span_defs
  poll_cache_fields_def upstream_fields_def decision_str_def is_cacheable_policy_def show_bool_def optional_key_def

text \<open>What a poll does in one move before it goes on.\<close>

definition moves_to ::
  "('req, 'c, 'rx, 'w, 'res, 'rp) fsm_env \<Rightarrow> ('req, 'res, 'rp, 'c, 'rx) cache_future \<Rightarrow> 'w \<Rightarrow> state_span list
   \<Rightarrow> ('req, 'res, 'rp, 'c, 'rx) cache_future \<Rightarrow> 'w \<Rightarrow> bool" where
  "moves_to E f w spans f' w' \<longleftrightarrow> fsm_poll E f w = fsm_poll E f' w' \<and> poll_log E f w = spans @ poll_log E f' w'"

lemma moves_step: "fsm_turn E f w = (Moved f', w') \<Longrightarrow> moves_to E f w [closed_span E f w] f' w'"
  by (simp add: moves_to_def fsm_poll_Moved poll_log_Moved)

lemma moves_trans: "moves_to E f w ss f1 w1 \<Longrightarrow> moves_to E f1 w1 ss' f' w' \<Longrightarrow> moves_to E f w (ss @ ss') f' w'"
  by (simp add: moves_to_def)

abbreviation called :: "32 word \<Rightarrow> 's arena \<Rightarrow> 's arena" where
  "called v a \<equiv> a\<lparr>an_calls := an_calls a @ [(v, None)]\<rparr>"

lemma disabled_moves:
  assumes "\<not> fc_cache_enabled cfg"
  shows "moves_to (scenario_env P kget kset clock d) (scenario_future cfg v) (m, a) [(''fsm.Initial'', [])]
     (fetching cfg v (length (an_calls a)) None fresh_ctx None) (m, called v a)"
proof -
  have t: "fsm_turn (scenario_env P kget kset clock d) (scenario_future cfg v) (m, a)
      = (Moved (fetching cfg v (length (an_calls a)) None fresh_ctx None), (m, called v a))"
    using assms by (simp add: turn_run scenario_future_def cache_future_new_def fetching_def config_policy_def)
  from moves_step [OF t] show ?thesis by (simp add: turn_run scenario_future_def cache_future_new_def)
qed

definition asking :: "fsm_config \<Rightarrow> 32 word \<Rightarrow> (simple_request, simple_response, simple_response predicate, 32 word, 'rx) cache_future" where
  "asking cfg v = (scenario_future cfg v)\<lparr>cf_state :=
     CheckRequestCachePolicy (v, configurable_request_predicate (fc_request_cacheable cfg), fixed_key_extractor) (Some \<lparr>cq_ctx = fresh_ctx\<rparr>)\<rparr>"

definition looking :: "fsm_config \<Rightarrow> 32 word \<Rightarrow> (simple_request, simple_response, simple_response predicate, 32 word, 'rx) cache_future" where
  "looking cfg v = (scenario_future cfg v)\<lparr>cf_cache_key := Some scenario_key,
     cf_state := PollCache (scenario_key, fresh_ctx) (Some \<lparr>pc_request = v, pc_cache_key = scenario_key\<rparr>)\<rparr>"

lemma asking_moves:
  assumes "fc_cache_enabled cfg"
  shows "moves_to (scenario_env P kget kset clock d) (scenario_future cfg v) (m, a) [(''fsm.Initial'', [])] (asking cfg v) (m, a)"
proof -
  have t: "fsm_turn (scenario_env P kget kset clock d) (scenario_future cfg v) (m, a) = (Moved (asking cfg v), (m, a))"
    using assms by (simp add: turn_run scenario_future_def cache_future_new_def asking_def config_policy_def)
  from moves_step [OF t] show ?thesis by (simp add: turn_run scenario_future_def cache_future_new_def)
qed

lemma refused_moves:
  assumes "\<not> fc_request_cacheable cfg"
  shows "moves_to (scenario_env P kget kset clock d) (asking cfg v) (m, a) [(''fsm.CheckRequestCachePolicy'', [(''cache.cacheable'', ''false'')])]
     (fetching cfg v (length (an_calls a)) None fresh_ctx None) (m, called v a)"
proof -
  have t: "fsm_turn (scenario_env P kget kset clock d) (asking cfg v) (m, a)
      = (Moved (fetching cfg v (length (an_calls a)) None fresh_ctx None), (m, called v a))"
    using assms by (simp add: turn_run asking_def scenario_future_def cache_future_new_def fetching_def scenario_policies)
  from moves_step [OF t] show ?thesis using assms by (simp add: turn_run asking_def scenario_policies)
qed

lemma looking_moves:
  assumes "fc_request_cacheable cfg"
  shows "moves_to (scenario_env P kget kset clock d) (asking cfg v) (m, a) [(''fsm.CheckRequestCachePolicy'', [(''cache.cacheable'', ''true'')])]
     (looking cfg v) (m, a)"
proof -
  have t: "fsm_turn (scenario_env P kget kset clock d) (asking cfg v) (m, a) = (Moved (looking cfg v), (m, a))"
    using assms by (simp add: turn_run asking_def looking_def scenario_future_def cache_future_new_def scenario_policies cacheable_policy_data_new_def)
  from moves_step [OF t] show ?thesis using assms by (simp add: turn_run asking_def scenario_policies)
qed

abbreviation lookup_span :: "span_fields \<Rightarrow> state_span" where
  "lookup_span kvs \<equiv> (''fsm.PollCache'', (''cache.key'', cache_key_display scenario_key) # kvs)"

text \<open>The lookup: a hit, a hit to be refilled, a stale hit; the last states answer at once.\<close>

lemma answer_poll:
  assumes "fsm_turn E f w = (Moved f', w')" "cf_state f' = Response (Some \<lparr>rs_response = r, rs_ctx = ctx\<rparr>)"
  shows "fsm_poll E f w = (Ready (f'\<lparr>cf_state := Response None\<rparr>) (finish_response \<lparr>rs_response = r, rs_ctx = ctx\<rparr>), w')
    \<and> poll_log E f w = [closed_span E f w, answered_span f' (snd (finish_response \<lparr>rs_response = r, rs_ctx = ctx\<rparr>))]"
  unfolding fsm_poll_Moved [OF assms(1)] poll_log_Moved [OF assms(1)]
  by (subst fsm_poll.simps, subst poll_log.simps) (simp add: fsm_turn.simps assms(2))

abbreviation response_view :: "cache_context \<Rightarrow> state_span" where
  "response_view c \<equiv> (''fsm.Response'', [(''cache.status'', cache_status_str (cc_status c)), (''cache.source'', response_source_str (cc_source c))])"

lemma answered_view: "cf_state f = Response st \<Longrightarrow> answered_span f c = response_view c"
  by (simp add: answered_span_def response_span_def)

abbreviation answers :: "simple_response \<Rightarrow> box_context \<Rightarrow> simple_response \<times> cache_context" where
  "answers r ctx \<equiv> finish_response \<lparr>rs_response = r, rs_ctx = ctx\<rparr>"

abbreviation key_field :: "string \<times> string" where
  "key_field \<equiv> (''cache.key'', cache_key_display scenario_key)"

lemma scenario_policy [simp]: "cf_policy (looking cfg v) = config_policy cfg" "cf_policy (scenario_future cfg v) = config_policy cfg"
  by (simp_all add: looking_def scenario_future_def cache_future_new_def)

lemma config_stale [simp]: "policy_stale (config_policy cfg) = ReturnStale"
  by (simp add: config_policy_def policy_stale_def cache_behavior_policy_default_def stale_policy_default_def)

lemma hit_poll:
  assumes "kget scenario_key fresh_ctx (an_store a) = ((Ok (Some u), ctx), s)" "cache_state_of (clock s) u = Actual u"
    and "ctx_read_mode ctx \<noteq> Refill"
  shows "\<exists>f'. fsm_poll (scenario_env P kget kset clock d) (looking cfg v) (m, a)
        = (Ready f' (answers (cv_data u) (ctx_set_status Hit ctx)), (m, a\<lparr>an_store := s\<rparr>))
    \<and> poll_log (scenario_env P kget kset clock d) (looking cfg v) (m, a)
        = [lookup_span [], (''fsm.ConvertResponse'', [key_field]), response_view (snd (answers (cv_data u) (ctx_set_status Hit ctx)))]"
proof -
  let ?E = "scenario_env P kget kset clock d" and ?f = "(looking cfg v)\<lparr>cf_state := ConvertResponse (cv_data u, ctx_set_status Hit ctx) (Some \<lparr>cr_cache_key = scenario_key\<rparr>)\<rparr>"
  have t: "fsm_turn ?E (looking cfg v) (m, a) = (Moved ?f, (m, a\<lparr>an_store := s\<rparr>))"
    using assms by (simp add: turn_run looking_def into_inner_def)
  have c: "fsm_turn ?E ?f (m, a\<lparr>an_store := s\<rparr>)
     = (Moved (?f\<lparr>cf_state := Response (Some \<lparr>rs_response = cv_data u, rs_ctx = ctx_set_status Hit ctx\<rparr>)\<rparr>), (m, a\<lparr>an_store := s\<rparr>))"
    by (simp add: turn_run)
  have "closed_span ?E (looking cfg v) (m, a) = lookup_span []"
    "closed_span ?E ?f (m, a\<lparr>an_store := s\<rparr>) = (''fsm.ConvertResponse'', [key_field])"
    using assms by (simp_all add: turn_run looking_def)
  with answer_poll [OF c] show ?thesis
    unfolding fsm_poll_Moved [OF t] poll_log_Moved [OF t] by (simp add: answered_view)
qed

lemma stale_poll:
  assumes "kget scenario_key fresh_ctx (an_store a) = ((Ok (Some u), ctx), s)" "cache_state_of (clock s) u = Stale u"
  shows "\<exists>f'. fsm_poll (scenario_env P kget kset clock d) (looking cfg v) (m, a)
        = (Ready f' (answers (cv_data u) (ctx_set_status StaleHit (ctx_set_status Hit ctx))), (m, a\<lparr>an_store := s\<rparr>))
    \<and> poll_log (scenario_env P kget kset clock d) (looking cfg v) (m, a)
        = [lookup_span [], (''fsm.HandleStale'', [key_field, (''stale.policy'', ''return'')]),
           response_view (snd (answers (cv_data u) (ctx_set_status StaleHit (ctx_set_status Hit ctx))))]"
proof -
  let ?E = "scenario_env P kget kset clock d" and ?f = "(looking cfg v)\<lparr>cf_state := HandleStale (cv_data u, ctx_set_status Hit ctx) (Some \<lparr>hs_request = v, hs_cache_key = scenario_key\<rparr>)\<rparr>"
  have t: "fsm_turn ?E (looking cfg v) (m, a) = (Moved ?f, (m, a\<lparr>an_store := s\<rparr>))"
    using assms by (simp add: turn_run looking_def into_inner_def)
  have c: "fsm_turn ?E ?f (m, a\<lparr>an_store := s\<rparr>)
     = (Moved (?f\<lparr>cf_state := Response (Some \<lparr>rs_response = cv_data u, rs_ctx = ctx_set_status StaleHit (ctx_set_status Hit ctx)\<rparr>)\<rparr>), (m, a\<lparr>an_store := s\<rparr>))"
    by (simp add: turn_run)
  have "closed_span ?E (looking cfg v) (m, a) = lookup_span []"
    "closed_span ?E ?f (m, a\<lparr>an_store := s\<rparr>) = (''fsm.HandleStale'', [key_field, (''stale.policy'', ''return'')])"
    using assms by (simp_all add: turn_run looking_def stale_policy_str_def)
  with answer_poll [OF c] show ?thesis
    unfolding fsm_poll_Moved [OF t] poll_log_Moved [OF t] by (simp add: answered_view)
qed

text \<open>A hit of the second layer that is written to the first.\<close>

lemma refill_poll:
  assumes "kget scenario_key fresh_ctx (an_store a) = ((Ok (Some u), ctx), s)" "cache_state_of (clock s) u = Actual u"
    and "ctx_read_mode ctx = Refill" "kset scenario_key u (ctx_set_status Hit ctx) s = ((q, ctx'), s')"
  shows "\<exists>f'. fsm_poll (scenario_env P kget kset clock d) (looking cfg v) (m, a)
        = (Ready f' (answers (cv_data u) ctx'), (m, a\<lparr>an_store := s'\<rparr>))
    \<and> poll_log (scenario_env P kget kset clock d) (looking cfg v) (m, a)
        = [lookup_span [], (''fsm.UpdateCache'', []), response_view (snd (answers (cv_data u) ctx'))]"
proof -
  let ?E = "scenario_env P kget kset clock d"
  let ?f = "(looking cfg v)\<lparr>cf_state := UpdateCache (Setting scenario_key u (ctx_set_status Hit ctx)) (Some ())\<rparr>"
  have t: "fsm_turn ?E (looking cfg v) (m, a) = (Moved ?f, (m, a\<lparr>an_store := s\<rparr>))"
    using assms by (simp add: turn_run looking_def)
  have c: "fsm_turn ?E ?f (m, a\<lparr>an_store := s\<rparr>)
     = (Moved (?f\<lparr>cf_state := Response (Some \<lparr>rs_response = cv_data u, rs_ctx = ctx'\<rparr>)\<rparr>), (m, a\<lparr>an_store := s'\<rparr>))"
    using assms(4) by (simp add: turn_run poll_update_def into_inner_def)
  have "closed_span ?E (looking cfg v) (m, a) = lookup_span []" "closed_span ?E ?f (m, a\<lparr>an_store := s\<rparr>) = (''fsm.UpdateCache'', [])"
    using assms by (simp_all add: turn_run looking_def)
  with answer_poll [OF c] show ?thesis
    unfolding fsm_poll_Moved [OF t] poll_log_Moved [OF t] by (simp add: answered_view)
qed

lemma miss_moves:
  assumes "fc_cache_enabled cfg" "kget scenario_key fresh_ctx (an_store a) = ((Ok None, ctx), s)"
    and "case fc_concurrency cfg of None \<Rightarrow> pm = None \<and> m' = m \<and> dec = ''disabled''
      | Some n \<Rightarrow> \<exists>i. manager_check P scenario_key n m = Some (Proceed i, m') \<and> pm = Some i \<and> dec = ''proceed''"
  shows "moves_to (scenario_env P kget kset clock d) (looking cfg v) (m, a) [lookup_span [(''concurrency.decision'', dec)]]
     (fetching cfg v (length (an_calls a)) pm ctx (Some scenario_key)) (m', called v (a\<lparr>an_store := s\<rparr>))"
proof -
  let ?E = "scenario_env P kget kset clock d"
  have t: "fsm_turn ?E (looking cfg v) (m, a)
      = (Moved (fetching cfg v (length (an_calls a)) pm ctx (Some scenario_key)), (m', called v (a\<lparr>an_store := s\<rparr>)))"
    using assms by (auto simp: turn_run looking_def fetching_def scenario_future_def cache_future_new_def config_policy_def split: option.splits)
  have "closed_span ?E (looking cfg v) (m, a) = lookup_span [(''concurrency.decision'', dec)]"
    using assms by (auto simp: turn_run looking_def scenario_future_def cache_future_new_def config_policy_def split: option.splits)
  with moves_step [OF t] show ?thesis by simp
qed

text \<open>The upstream call: pending, or answered and judged.\<close>

abbreviation fetch_span :: "nat option \<Rightarrow> cache_key option \<Rightarrow> state_span" where
  "fetch_span pm key \<equiv> poll_upstream_span pm key"

lemma pending_poll:
  assumes "upstream_poll clock d fut a = (None, a')"
  shows "fsm_poll (scenario_env P kget kset clock d) (fetching cfg v fut pm ctx key) (m, a) = (Pending (fetching cfg v fut pm ctx key), (m, a'))
    \<and> poll_log (scenario_env P kget kset clock d) (fetching cfg v fut pm ctx key) (m, a) = [fetch_span pm key]"
proof -
  have t: "fsm_turn (scenario_env P kget kset clock d) (fetching cfg v fut pm ctx key) (m, a) = (Pending (fetching cfg v fut pm ctx key), (m, a'))"
    using assms by (simp add: turn_run fetching_def)
  show ?thesis by (subst fsm_poll.simps, subst poll_log.simps) (simp add: t, simp add: fetching_def)
qed

lemma bypass_poll:
  assumes "upstream_poll clock d fut a = (Some r, a')"
  shows "\<exists>f'. fsm_poll (scenario_env P kget kset clock d) (fetching cfg v fut pm ctx None) (m, a) = (Ready f' (answers r ctx), (m, a'))
    \<and> poll_log (scenario_env P kget kset clock d) (fetching cfg v fut pm ctx None) (m, a) = [fetch_span pm None, response_view (snd (answers r ctx))]"
proof -
  let ?E = "scenario_env P kget kset clock d"
  have t: "fsm_turn ?E (fetching cfg v fut pm ctx None) (m, a) = (Moved ((fetching cfg v fut pm ctx None)
      \<lparr>cf_state := Response (Some \<lparr>rs_response = r, rs_ctx = ctx\<rparr>), cf_response_predicates := None\<rparr>), (m, a'))"
    using assms by (simp add: turn_run fetching_def scenario_future_def cache_future_new_def)
  have "closed_span ?E (fetching cfg v fut pm ctx None) (m, a) = fetch_span pm None"
    by (simp add: closed_span_def turn_fields_def fetching_def state_span_defs)
  with answer_poll [OF t] show ?thesis by (simp add: answered_view)
qed

abbreviation judged_span :: "nat option \<Rightarrow> bool \<Rightarrow> state_span" where
  "judged_span pm ok \<equiv> (''fsm.CheckResponseCachePolicy'',
     [key_field, (''concurrency.permit'', show_bool (pm \<noteq> None)), (''cache.cacheable'', show_bool ok)])"

abbreviation judging :: "fsm_config \<Rightarrow> 32 word \<Rightarrow> simple_response \<Rightarrow> upstream_future \<Rightarrow> nat option \<Rightarrow> box_context
   \<Rightarrow> (simple_request, simple_response, simple_response predicate, 32 word, 'rx) cache_future" where
  "judging cfg v r fut pm ctx \<equiv> (fetching cfg v fut pm ctx (Some scenario_key))\<lparr>cf_response_predicates := None, cf_state :=
     CheckResponseCachePolicy (r, configurable_response_predicate (fc_response_cacheable cfg), policy_entity (config_policy cfg))
       (Some \<lparr>cs_permit = pm, cs_ctx = ctx, cs_cache_key = scenario_key\<rparr>)\<rparr>"

lemma fetched_moves:
  assumes "upstream_poll clock d fut a = (Some r, a')"
  shows "moves_to (scenario_env P kget kset clock d) (fetching cfg v fut pm ctx (Some scenario_key)) (m, a)
     [fetch_span pm (Some scenario_key)] (judging cfg v r fut pm ctx) (m, a')"
proof -
  have t: "fsm_turn (scenario_env P kget kset clock d) (fetching cfg v fut pm ctx (Some scenario_key)) (m, a)
      = (Moved (judging cfg v r fut pm ctx), (m, a'))"
    using assms by (simp add: turn_run fetching_def scenario_future_def cache_future_new_def)
  from moves_step [OF t] show ?thesis by (simp add: closed_span_def turn_fields_def fetching_def state_span_defs)
qed

text \<open>The manager after the judgement: told, and without the permit.\<close>

definition released :: "('sem, 'ch, 'rx, (32 word) cache_value) sync_ops \<Rightarrow> bool \<Rightarrow> 32 word \<Rightarrow> nat option \<Rightarrow> ('sem, 'ch) manager \<Rightarrow> ('sem, 'ch) manager" where
  "released P ok r pm m = (case pm of None \<Rightarrow> m
     | Some i \<Rightarrow> permit_drop P i (if ok then manager_resolve P scenario_key (cache_value_new r None None) m else manager_cleanup P scenario_key m))"

lemma rejected_poll:
  assumes "\<not> fc_response_cacheable cfg" "upstream_poll clock d fut a = (Some r, a')"
  shows "\<exists>f'. fsm_poll (scenario_env P kget kset clock d) (fetching cfg v fut pm ctx (Some scenario_key)) (m, a)
       = (Ready f' (answers r ctx), (released P False r pm m, a'))
    \<and> poll_log (scenario_env P kget kset clock d) (fetching cfg v fut pm ctx (Some scenario_key)) (m, a)
       = [fetch_span pm (Some scenario_key), judged_span pm False, response_view (snd (answers r ctx))]"
proof -
  let ?E = "scenario_env P kget kset clock d"
  have t: "fsm_turn ?E (judging cfg v r fut pm ctx) (m, a') = (Moved ((judging cfg v r fut pm ctx)
      \<lparr>cf_state := Response (Some \<lparr>rs_response = r, rs_ctx = ctx\<rparr>)\<rparr>), (released P False r pm m, a'))"
    using assms(1) by (cases pm) (simp_all add: turn_run scenario_policies drop_permit_def released_def)
  have "closed_span ?E (judging cfg v r fut pm ctx) (m, a') = judged_span pm False"
    using assms(1) by (simp add: turn_run scenario_policies)
  with answer_poll [OF t] fetched_moves [OF assms(2), of P kget kset cfg v pm ctx m] show ?thesis
    by (simp add: answered_view moves_to_def)
qed

lemma stored_poll:
  assumes "fc_response_cacheable cfg" "upstream_poll clock d fut a = (Some r, a')"
    and "kset scenario_key (cache_value_new r None None) ctx (an_store a') = ((q, ctx'), s)"
  shows "\<exists>f'. fsm_poll (scenario_env P kget kset clock d) (fetching cfg v fut pm ctx (Some scenario_key)) (m, a)
       = (Ready f' (answers r ctx'), (released P True r pm m, a'\<lparr>an_store := s\<rparr>))
    \<and> poll_log (scenario_env P kget kset clock d) (fetching cfg v fut pm ctx (Some scenario_key)) (m, a)
       = [fetch_span pm (Some scenario_key), judged_span pm True, (''fsm.UpdateCache'', []), response_view (snd (answers r ctx'))]"
proof -
  let ?E = "scenario_env P kget kset clock d"
  let ?f = "(judging cfg v r fut pm ctx)\<lparr>cf_state := UpdateCache (Setting scenario_key (cache_value_new r None None) ctx) (Some ())\<rparr>"
  have t: "fsm_turn ?E (judging cfg v r fut pm ctx) (m, a') = (Moved ?f, (released P True r pm m, a'))"
    using assms(1) by (cases pm) (simp_all add: turn_run scenario_policies drop_permit_def released_def)
  have u: "fsm_turn ?E ?f (released P True r pm m, a')
     = (Moved (?f\<lparr>cf_state := Response (Some \<lparr>rs_response = r, rs_ctx = ctx'\<rparr>)\<rparr>), (released P True r pm m, a'\<lparr>an_store := s\<rparr>))"
    using assms(3) by (simp add: turn_run poll_update_def)
  have "closed_span ?E (judging cfg v r fut pm ctx) (m, a') = judged_span pm True"
    "closed_span ?E ?f (released P True r pm m, a') = (''fsm.UpdateCache'', [])"
    using assms(1) by (simp_all add: turn_run scenario_policies)
  with answer_poll [OF u] moves_step [OF t] fetched_moves [OF assms(2), of P kget kset cfg v pm ctx m] show ?thesis
    by (simp add: answered_view moves_to_def)
qed

section \<open>A collector with one request\<close>

definition alone :: "nat \<Rightarrow> span_collector \<Rightarrow> bool" where
  "alone root C \<longleftrightarrow> (\<exists>xs. map shape (sc_spans C) = (root, None, ''hitbox.cache'') # xs
     \<and> (\<forall>(i, parent, name) \<in> set xs. parent = Some root \<and> starts_with ''fsm.'' name))"

lemma alone_record: "alone root C \<Longrightarrow> alone root (on_record i kvs C)"
  by (simp add: alone_def on_record_def)

lemma alone_open: "open_state root s C = (i, C') \<Longrightarrow> alone root C \<Longrightarrow> starts_with ''fsm.'' (fst s) \<Longrightarrow> alone root C'"
  by (auto simp: alone_def open_state_def on_new_span_def captured_name_def shape_def)

lemma alone_new:
  assumes "sc_spans C = []" "sc_current C = None" "spanned_new request p rp x policy C = (g, C')"
  shows "alone (sn_root g) C'"
  using assms by (auto simp: spanned_new_def open_state_def on_new_span_def captured_name_def starts_with_def initial_span_def
      alone_def shape_def)

lemma alone_turn:
  assumes "alone (sn_root g) C" "policy_stale (cf_policy (sn_future g)) = ReturnStale" "spanned_turn E g (w, C) = (t, (w', C'))"
  shows "alone (sn_root g) C'"
proof -
  have n: "spawned_revalidation E (sn_future g) w C0 = (None, C0)" for C0
    using assms(2) by (auto simp: spawned_revalidation_def split: state.split option.split)
  show ?thesis using assms(1,3)
    by (auto simp: spanned_turn_def n split: turn.splits prod.splits
        intro: alone_record alone_open [OF _ alone_record state_span_named])
qed

lemma alone_poll:
  "alone (sn_root g) C \<Longrightarrow> policy_stale (cf_policy (sn_future g)) = ReturnStale \<Longrightarrow> spanned_poll E g (w, C) = (t, (w', C'))
   \<Longrightarrow> alone (sn_root g) C'"
proof (induction E g "(w, C)" arbitrary: w C rule: spanned_poll.induct)
  case (1 E g w C)
  obtain q w1 C1 where q: "spanned_turn E g (w, C) = (q, (w1, C1))" by (metis surj_pair)
  have a: "alone (sn_root g) C1" by (rule alone_turn [OF 1(2,3) q])
  have p: "spanned_poll E g (w, C) = (case q of Moved g' \<Rightarrow> spanned_poll E g' (w1, C1) | _ \<Rightarrow> (q, (w1, C1)))"
    by (subst spanned_poll.simps) (simp add: q split: turn.split)
  show ?case
  proof (cases q)
    case (Moved g1)
    have m: "fsm_turn E (sn_future g) w = (Moved (sn_future g1), w1)" "sn_root g1 = sn_root g"
      using spanned_turn_Moved [OF q [unfolded Moved]] by simp_all
    have "cf_policy (sn_future g1) = cf_policy (sn_future g)" using turn_policy [OF m(1)] by simp
    then show ?thesis using 1(1) [OF q [symmetric] Moved] a m(2) 1(3,4) p Moved by simp
  qed (use p 1(4) a in simp_all)
qed

lemma no_descendants: "(\<And>s. s \<in> set all_spans \<Longrightarrow> sp_parent s \<noteq> Some i) \<Longrightarrow> collect_descendants n all_spans i = []"
  by (cases n) (auto simp: concat_eq_Nil_conv)

lemma alone_states:
  assumes "ids_ok C" "alone root C"
  shows "fsm_states_per_request C = [own_spans root C]"
    and "fsm_states C = map (\<lambda>s. drop (length ''fsm.'') (sp_name s)) (own_spans root C)"
proof -
  obtain r ss where C: "sc_spans C = r # ss" "sp_id r = root" "sp_parent r = None" "sp_name r = ''hitbox.cache''"
    and ss: "\<And>s. s \<in> set ss \<Longrightarrow> sp_parent s = Some root \<and> starts_with ''fsm.'' (sp_name s)"
    using assms(2) by (fastforce simp: alone_def shape_def Cons_eq_map_conv)
  have own: "own_spans root C = ss"
    using ss by (simp add: own_spans_def C starts_with_def)
  have ne: "sp_id s \<noteq> root" if "s \<in> set ss" for s using ids_distinct [OF assms(1)] that by (auto simp: C)
  have leaf: "collect_descendants n (r # ss) (sp_id s) = []" if "s \<in> set ss" for s n
    by (rule no_descendants) (use ss ne [OF that] C in auto)
  have "collect_descendants (Suc n) (r # ss) root = ss" for n
  proof -
    have "concat (map (\<lambda>s. if sp_parent s = Some root
        then (if starts_with ''fsm.'' (sp_name s) then [s] else []) @ collect_descendants n (r # ss) (sp_id s) else []) ss)
      = concat (map (\<lambda>s. [s]) ss)"
      by (rule arg_cong [of _ _ concat], rule map_cong [OF refl]) (use ss leaf in simp)
    then show ?thesis by (simp add: C)
  qed
  moreover have "filter (\<lambda>s. sp_name s = ''hitbox.cache'') (sc_spans C) = [r]"
    by (auto simp: C filter_empty_conv dest!: ss)
  ultimately show "fsm_states_per_request C = [own_spans root C]" by (simp add: fsm_states_per_request_def own C)
  show "fsm_states C = map (\<lambda>s. drop (length ''fsm.'') (sp_name s)) (own_spans root C)"
    unfolding own using ss
    by (simp add: fsm_states_def C strip_prefix_def starts_with_def List.map_filter_def filter_id_conv cong: map_cong)
qed

section \<open>The decision table\<close>

record outcome =
  oc_response :: simple_response
  oc_context :: cache_context
  oc_calls :: nat
  oc_spans :: "state_span list"
  oc_cell :: "32 word option"

definition live_word :: "preload \<Rightarrow> 32 word option" where
  "live_word st = (case st of PreFresh u \<Rightarrow> Some u | PreStale u \<Rightarrow> Some u | _ \<Rightarrow> None)"

definition context_of :: "cache_status \<Rightarrow> response_source \<Rightarrow> cache_context" where
  "context_of status source = \<lparr>cc_status = status, cc_read_mode = Direct, cc_source = source\<rparr>"

definition asked_span :: "bool \<Rightarrow> state_span" where
  "asked_span b = (''fsm.CheckRequestCachePolicy'', [(''cache.cacheable'', show_bool b)])"

definition upstream_span :: "cache_key option \<Rightarrow> bool \<Rightarrow> state_span" where
  "upstream_span key permit = (''fsm.PollUpstream'', [(''cache.key'', optional_key key), (''concurrency.permit'', show_bool permit)])"

text \<open>After the upstream's answer, which is judged when there is a key to store it under.\<close>

definition finish_spans :: "fsm_config \<Rightarrow> bool \<Rightarrow> cache_key option \<Rightarrow> state_span list" where
  "finish_spans cfg permit key =
     (case key of None \<Rightarrow> []
      | Some _ \<Rightarrow>
          (''fsm.CheckResponseCachePolicy'',
           [key_field, (''concurrency.permit'', show_bool permit), (''cache.cacheable'', show_bool (fc_response_cacheable cfg))])
          # (if fc_response_cacheable cfg then [(''fsm.UpdateCache'', [])] else []))
     @ [response_view (context_of Miss SrcUpstream)]"

definition fetched_outcome :: "fsm_config \<Rightarrow> preload \<Rightarrow> 32 word \<Rightarrow> state_span list \<Rightarrow> cache_key option \<Rightarrow> bool \<Rightarrow> outcome" where
  "fetched_outcome cfg st v spans key permit =
     \<lparr>oc_response = v, oc_context = context_of Miss SrcUpstream, oc_calls = 1,
      oc_spans = spans @ upstream_span key permit # finish_spans cfg permit key,
      oc_cell = (if key \<noteq> None \<and> fc_response_cacheable cfg then Some v else live_word st)\<rparr>"

definition served_outcome :: "32 word \<Rightarrow> cache_context \<Rightarrow> state_span \<Rightarrow> outcome" where
  "served_outcome u c last_span =
     \<lparr>oc_response = u, oc_context = c, oc_calls = 0,
      oc_spans = [initial_span, asked_span True, lookup_span [], last_span, response_view c], oc_cell = Some u\<rparr>"

definition scenario_outcome :: "backend_label \<Rightarrow> fsm_config \<Rightarrow> preload \<Rightarrow> 32 word \<Rightarrow> outcome" where
  "scenario_outcome label cfg st v =
     (if \<not> fc_cache_enabled cfg then fetched_outcome cfg st v [initial_span] None False
      else if \<not> fc_request_cacheable cfg then fetched_outcome cfg st v [initial_span, asked_span False] None False
      else case st of
        PreFresh u \<Rightarrow> served_outcome u (context_of Hit (SrcBackend label)) (''fsm.ConvertResponse'', [key_field])
      | PreStale u \<Rightarrow> served_outcome u (context_of StaleHit (SrcBackend label)) (''fsm.HandleStale'', [key_field, (''stale.policy'', ''return'')])
      | _ \<Rightarrow>
          (let permit = fc_concurrency cfg \<noteq> None
           in fetched_outcome cfg st v
                [initial_span, asked_span True, lookup_span [(''concurrency.decision'', if permit then ''proceed'' else ''disabled'')]]
                (Some scenario_key) permit))"

text \<open>The entry a store is left with for a run that does not outlast it.\<close>

definition live_cell :: "time \<Rightarrow> preload \<Rightarrow> (32 word) cache_value option" where
  "live_cell now st = (case st of PreExpired u \<Rightarrow> None | _ \<Rightarrow> preload_value now st)"

lemma live_cell_word: "map_option cv_data (live_cell now st) = live_word st"
  by (cases st) (simp_all add: live_cell_def live_word_def preload_value_def)

section \<open>The store of a scenario\<close>

text \<open>A turn reads the store, writes it, or leaves it.\<close>

definition store_step ::
  "(cache_key \<Rightarrow> box_context \<Rightarrow> 's \<Rightarrow> (((32 word) cache_value option, backend_error) result \<times> box_context) \<times> 's)
   \<Rightarrow> (cache_key \<Rightarrow> (32 word) cache_value \<Rightarrow> box_context \<Rightarrow> 's \<Rightarrow> ((unit, backend_error) result \<times> box_context) \<times> 's)
   \<Rightarrow> 's \<Rightarrow> 's \<Rightarrow> bool" where
  "store_step kget kset s s' \<longleftrightarrow> s' = s \<or> (\<exists>k c. s' = snd (kget k c s)) \<or> (\<exists>k u c. s' = snd (kset k u c s))"

lemma store_stepI [intro]:
  "store_step kget kset s s" "kget k c s = (r, s') \<Longrightarrow> store_step kget kset s s'" "kset k u c s = (q, s') \<Longrightarrow> store_step kget kset s s'"
  by (auto simp: store_step_def simp del: split_paired_Ex) (metis snd_conv)+

lemma upstream_poll_store: "upstream_poll clock d fut a = (r, a') \<Longrightarrow> an_store a' = an_store a"
  by (auto simp: upstream_poll_def Let_def split: prod.splits option.splits if_splits)

lemma upstream_poll_step [intro]: "upstream_poll clock d fut a = (r, a') \<Longrightarrow> store_step kget kset (an_store a) (an_store a')"
  by (simp add: upstream_poll_store store_step_def)

lemma turn_store:
  assumes "fsm_turn (scenario_env P kget kset clock d) f (m, a) = (t, (m', a'))" "policy_stale (cf_policy f) = ReturnStale"
  shows "store_step kget kset (an_store a) (an_store a')"
proof (cases "cf_state f")
  case (Initial st)
  then show ?thesis using assms
    by (auto simp: fsm_turn.simps initial_next_def split: option.splits prod.splits policy_config.splits)
next
  case (CheckRequestCachePolicy fut st)
  then show ?thesis using assms
    by (cases fut) (auto simp: fsm_turn.simps check_request_next_def split: option.splits prod.splits cache_policy.splits)
next
  case (PollCache fut st)
  show ?thesis
  proof (cases st)
    case (Some st1)
    obtain r s where g: "kget (fst fut) (snd fut) (an_store a) = (r, s)" by (metis surj_pair)
    have "an_store a' = s" using assms(1) PollCache Some g
      by (cases fut) (auto simp: fsm_turn.simps poll_cache_next_def transition_to_upstream_def Let_def
          split: prod.splits option.splits sum.splits if_splits policy_config.splits cache_state.splits decision.splits)
    then show ?thesis using g by auto
  qed (use PollCache assms(1) in \<open>auto simp: fsm_turn.simps\<close>)
next
  case (ConvertResponse fut st)
  then show ?thesis using assms by (auto simp: fsm_turn.simps convert_response_next_def split: option.splits prod.splits)
next
  case (HandleStale fut st)
  then show ?thesis using assms
    by (cases st) (auto simp: fsm_turn.simps handle_stale_next_def)
next
  case (AwaitResponse fut st)
  then show ?thesis using assms
    by (auto simp: fsm_turn.simps await_response_next_def split: option.splits prod.splits sum.splits concurrency_error.splits)
next
  case (PollUpstream fut st)
  then show ?thesis using assms
    by (auto simp: fsm_turn.simps poll_upstream_next_def split: option.splits prod.splits)
next
  case (CheckResponseCachePolicy fut st)
  then show ?thesis using assms
    by (cases fut) (auto simp: fsm_turn.simps check_response_next_def drop_permit_def Let_def split: option.splits prod.splits cache_policy.splits)
next
  case (UpdateCache fut st)
  show ?thesis
  proof (cases "\<exists>k u c. fut = Setting k u c \<and> st \<noteq> None")
    case True
    then obtain k u c where k: "fut = Setting k u c" "st \<noteq> None" by blast
    obtain q s where q: "kset k u c (an_store a) = (q, s)" by (metis surj_pair)
    have "an_store a' = s" using assms(1) UpdateCache k q
      by (auto simp: fsm_turn.simps poll_update_def Let_def update_cache_next_def split: option.splits prod.splits)
    then show ?thesis using q by auto
  next
    case False
    then have "a' = a" using assms(1) UpdateCache
      by (cases fut) (auto simp: fsm_turn.simps poll_update_def Let_def update_cache_next_def split: option.splits)
    then show ?thesis by auto
  qed
next
  case (Response st)
  then show ?thesis using assms by (auto simp: fsm_turn.simps split: option.splits)
qed

lemma poll_store:
  assumes "fsm_poll (scenario_env P kget kset clock d) f (m, a) = (t, (m', a'))" "policy_stale (cf_policy f) = ReturnStale"
  shows "(store_step kget kset)\<^sup>*\<^sup>* (an_store a) (an_store a')"
  using assms
proof (induction "scenario_env P kget kset clock d" f "(m, a)" arbitrary: m a rule: fsm_poll.induct)
  case (1 f m a)
  let ?E = "scenario_env P kget kset clock d"
  obtain q m1 a1 where q: "fsm_turn ?E f (m, a) = (q, (m1, a1))" by (metis surj_pair)
  have s: "store_step kget kset (an_store a) (an_store a1)" by (rule turn_store [OF q 1(3)])
  have p: "fsm_poll ?E f (m, a) = (case q of Moved f' \<Rightarrow> fsm_poll ?E f' (m1, a1) | _ \<Rightarrow> (q, (m1, a1)))"
    by (subst fsm_poll.simps) (simp add: q split: turn.split)
  show ?case
  proof (cases q)
    case (Moved f1)
    have "cf_policy f1 = cf_policy f" using turn_policy [OF q] Moved by simp
    with 1(1) [OF q [symmetric] Moved] p Moved 1(2,3) have "(store_step kget kset)\<^sup>*\<^sup>* (an_store a1) (an_store a')" by simp
    with s show ?thesis by (rule converse_rtranclp_into_rtranclp)
  qed (use p 1(2) s in auto)
qed

lemma poll_policy: "fsm_poll E f w = (Pending f', w') \<Longrightarrow> cf_policy f' = cf_policy f"
proof (induction E f w rule: fsm_poll.induct)
  case (1 E f w)
  obtain q w1 where q: "fsm_turn E f w = (q, w1)" by (metis surj_pair)
  have p: "fsm_poll E f w = (case q of Moved f' \<Rightarrow> fsm_poll E f' w1 | _ \<Rightarrow> (q, w1))"
    by (subst fsm_poll.simps) (simp add: q split: turn.split)
  show ?case
  proof (cases q)
    case (Moved f1)
    then show ?thesis using 1(1) [OF q [symmetric] Moved] 1(2) p turn_policy [OF q] by simp
  qed (use 1(2) p turn_policy [OF q] in simp_all)
qed

text \<open>The contexts of the answers.\<close>

abbreviation hit_ctx :: "backend_label \<Rightarrow> box_context" where
  "hit_ctx l \<equiv> ctx_set_source (SrcBackend l) (ctx_set_status Hit fresh_ctx)"

lemma scenario_answers:
  "answers u fresh_ctx = (u, context_of Miss SrcUpstream)"
  "answers u (ctx_set_status Hit (hit_ctx l)) = (u, context_of Hit (SrcBackend l))"
  "answers u (ctx_set_status StaleHit (ctx_set_status Hit (hit_ctx l))) = (u, context_of StaleHit (SrcBackend l))"
  by (simp_all add: finish_response_def context_of_def cache_context_default_def boxed_def)

locale scenario_cell = sync_laws P avail closed cap attached unread
  for P :: "('sem, 'ch, 'rx, (32 word) cache_value) sync_ops" and avail closed cap attached unread +
  fixes kget :: "cache_key \<Rightarrow> box_context \<Rightarrow> 's \<Rightarrow> (((32 word) cache_value option, backend_error) result \<times> box_context) \<times> 's"
    and kset :: "cache_key \<Rightarrow> (32 word) cache_value \<Rightarrow> box_context \<Rightarrow> 's \<Rightarrow> ((unit, backend_error) result \<times> box_context) \<times> 's"
    and clock :: "'s \<Rightarrow> time"
    and holds :: "'s \<Rightarrow> (32 word) cache_value option \<Rightarrow> bool"
    and lim :: time
    and label :: backend_label
    and calm :: "('s \<Rightarrow> 's) \<Rightarrow> bool"
  assumes get_clock: "clock s \<le> clock (snd (kget k ctx s))"
    and set_clock: "clock s \<le> clock (snd (kset k u ctx s))"
    and calm_clock: "calm f \<Longrightarrow> clock s \<le> clock (f s)"
    and get_cell: "holds s x \<Longrightarrow> kget scenario_key fresh_ctx s = ((r, ctx), s') \<Longrightarrow> clock s' < lim \<Longrightarrow>
      holds s' x \<and> r = Ok x \<and> ctx = (if x = None then fresh_ctx else hit_ctx label)"
    and set_ctx: "kset scenario_key u fresh_ctx s = ((q, ctx), s') \<Longrightarrow> ctx = fresh_ctx"
    and set_cell: "holds s None \<Longrightarrow> kset scenario_key (cache_value_new v None None) fresh_ctx s = (p, s') \<Longrightarrow> clock s' < lim \<Longrightarrow>
      holds s' (Some (cache_value_new v None None))"
    and calm_cell: "calm f \<Longrightarrow> holds s x \<Longrightarrow> clock (f s) < lim \<Longrightarrow> holds (f s) x"
begin

lemma steps_clock: "(store_step kget kset)\<^sup>*\<^sup>* s s' \<Longrightarrow> clock s \<le> clock s'"
proof (induction rule: rtranclp_induct)
  case (step s1 s2)
  have "clock s1 \<le> clock s2" using step(2) get_clock set_clock by (auto simp: store_step_def)
  with step(3) show ?case by simp
qed simp

lemma poll_clock:
  assumes "fsm_poll (scenario_env P kget kset clock d) f (m, a) = (t, (m', a'))" "policy_stale (cf_policy f) = ReturnStale"
  shows "clock (an_store a) \<le> clock (an_store a')"
  using poll_store [OF assms] by (rule steps_clock)

abbreviation env where "env \<equiv> scenario_env P kget kset clock"

definition serving :: "fsm_config \<Rightarrow> preload \<Rightarrow> bool" where
  "serving cfg st \<longleftrightarrow> fc_cache_enabled cfg \<and> fc_request_cacheable cfg \<and> live_word st \<noteq> None"

lemma asked_moves:
  assumes "fc_cache_enabled cfg" "fc_request_cacheable cfg"
  shows "moves_to (env d) (scenario_future cfg v) (m, a) [initial_span, asked_span True] (looking cfg v) (m, a)"
  using moves_trans [OF asking_moves [OF assms(1)] looking_moves [OF assms(2)]]
  by (simp add: initial_span_def asked_span_def show_bool_def)

lemma served_first:
  assumes "serving cfg st" "holds (an_store a) (live_cell t0 st)" "t0 \<le> clock (an_store a)" "lim \<le> t0 + seconds 3600"
    and "clock (snd (kget scenario_key fresh_ctx (an_store a))) < lim"
  shows "\<exists>f' s. fsm_poll (env d) (scenario_future cfg v) (m, a)
        = (Ready f' (oc_response (scenario_outcome label cfg st v), oc_context (scenario_outcome label cfg st v)), (m, a\<lparr>an_store := s\<rparr>))
    \<and> poll_log (env d) (scenario_future cfg v) (m, a) = oc_spans (scenario_outcome label cfg st v)
    \<and> holds s (live_cell t0 st) \<and> oc_calls (scenario_outcome label cfg st v) = 0 \<and> oc_cell (scenario_outcome label cfg st v) = live_word st"
proof -
  have cfg: "fc_cache_enabled cfg" "fc_request_cacheable cfg" "live_word st \<noteq> None" using assms(1) by (simp_all add: serving_def)
  note go = asked_moves [OF cfg(1,2), of d v m a]
  obtain r ctx s where g: "kget scenario_key fresh_ctx (an_store a) = ((r, ctx), s)" by (metis surj_pair)
  have s: "clock s < lim" "t0 \<le> clock s" using assms(3,5) get_clock [of "an_store a" scenario_key fresh_ctx] g by simp_all
  from get_cell [OF assms(2) g s(1)] have h: "holds s (live_cell t0 st)" "r = Ok (live_cell t0 st)"
    "ctx = (if live_cell t0 st = None then fresh_ctx else hit_ctx label)" by auto
  show ?thesis
  proof (cases st)
    case (PreFresh u)
    let ?u = "cache_value_new u (Some (t0 + seconds 3600)) None"
    have c: "live_cell t0 st = Some ?u" by (simp add: PreFresh live_cell_def preload_value_def)
    have a: "cache_state_of (clock s) ?u = Actual ?u" using s assms(4) by (simp add: cache_state_of_def)
    have ctx: "ctx = hit_ctx label" using h(3) c by simp
    note poll = hit_poll [where kget = kget and a = a and clock = clock and P = P and kset = kset and d = d and cfg = cfg and v = v and m = m, OF g [unfolded h(2) c] a]
    from poll obtain f' where "fsm_poll (env d) (looking cfg v) (m, a) = (Ready f' (u, context_of Hit (SrcBackend label)), (m, a\<lparr>an_store := s\<rparr>))"
      "poll_log (env d) (looking cfg v) (m, a) = [lookup_span [], (''fsm.ConvertResponse'', [key_field]), response_view (context_of Hit (SrcBackend label))]"
      by (auto simp: ctx scenario_answers)
    then show ?thesis using go h(1)
      by (intro exI [of _ f'] exI [of _ s]) (simp add: moves_to_def PreFresh scenario_outcome_def served_outcome_def cfg live_word_def)
  next
    case (PreStale u)
    let ?u = "cache_value_new u (Some (t0 + seconds 3600)) (Some (t0 - seconds 1))"
    have c: "live_cell t0 st = Some ?u" by (simp add: PreStale live_cell_def preload_value_def)
    have a: "cache_state_of (clock s) ?u = Stale ?u" using s assms(4) by (simp add: cache_state_of_def)
    have ctx: "ctx = hit_ctx label" using h(3) c by simp
    note poll = stale_poll [where kget = kget and a = a and clock = clock and P = P and kset = kset and d = d and cfg = cfg and v = v and m = m, OF g [unfolded h(2) c] a]
    from poll obtain f' where "fsm_poll (env d) (looking cfg v) (m, a) = (Ready f' (u, context_of StaleHit (SrcBackend label)), (m, a\<lparr>an_store := s\<rparr>))"
      "poll_log (env d) (looking cfg v) (m, a) = [lookup_span [], (''fsm.HandleStale'', [key_field, (''stale.policy'', ''return'')]), response_view (context_of StaleHit (SrcBackend label))]"
      by (auto simp: ctx scenario_answers)
    then show ?thesis using go h(1)
      by (intro exI [of _ f'] exI [of _ s]) (simp add: moves_to_def PreStale scenario_outcome_def served_outcome_def cfg live_word_def)
  qed (use cfg in \<open>simp_all add: live_word_def\<close>)
qed

lemma fetched_first:
  assumes "\<not> serving cfg st" "holds (an_store a) (live_cell t0 st)" "bm_in_flight m scenario_key = None"
    and "\<forall>n. fc_concurrency cfg = Some n \<longrightarrow> 1 \<le> n"
    and "fc_cache_enabled cfg \<Longrightarrow> fc_request_cacheable cfg \<Longrightarrow> clock (snd (kget scenario_key fresh_ctx (an_store a))) < lim"
  shows "\<exists>pm spans key m' s. moves_to (env d) (scenario_future cfg v) (m, a) spans
        (fetching cfg v (length (an_calls a)) pm fresh_ctx key) (m', called v (a\<lparr>an_store := s\<rparr>))
    \<and> holds s (live_cell t0 st) \<and> (key = None \<or> key = Some scenario_key \<and> live_cell t0 st = None)
    \<and> scenario_outcome label cfg st v = fetched_outcome cfg st v spans key (pm \<noteq> None)"
proof (cases "fc_cache_enabled cfg \<and> fc_request_cacheable cfg")
  case True
  then have cfg: "fc_cache_enabled cfg" "fc_request_cacheable cfg" by simp_all
  have lw: "live_word st = None" using assms(1) cfg by (simp add: serving_def)
  then have st: "live_cell t0 st = None" by (simp flip: live_cell_word [of t0])
  obtain r ctx s where g: "kget scenario_key fresh_ctx (an_store a) = ((r, ctx), s)" by (metis surj_pair)
  from get_cell [OF assms(2) g] assms(5) cfg have h: "holds s (live_cell t0 st)" "r = Ok None" "ctx = fresh_ctx"
    by (auto simp: g st)
  let ?dec = "if fc_concurrency cfg \<noteq> None then ''proceed'' else ''disabled''"
  have "\<exists>pm m'. (pm \<noteq> None) = (fc_concurrency cfg \<noteq> None) \<and> (case fc_concurrency cfg of None \<Rightarrow> pm = None \<and> m' = m \<and> ?dec = ''disabled''
      | Some n \<Rightarrow> \<exists>i. manager_check P scenario_key n m = Some (Proceed i, m') \<and> pm = Some i \<and> ?dec = ''proceed'')"
  proof (cases "fc_concurrency cfg")
    case (Some n)
    obtain i m' where "manager_check P scenario_key n m = Some (Proceed i, m')"
      by (rule check_vacant [OF assms(3), of n]) (use assms(4) Some in simp)
    then show ?thesis by (intro exI [of _ "Some i"] exI [of _ m']) (simp add: Some)
  qed simp
  then obtain pm m' where pm: "(pm \<noteq> None) = (fc_concurrency cfg \<noteq> None)"
    "case fc_concurrency cfg of None \<Rightarrow> pm = None \<and> m' = m \<and> ?dec = ''disabled''
      | Some n \<Rightarrow> \<exists>i. manager_check P scenario_key n m = Some (Proceed i, m') \<and> pm = Some i \<and> ?dec = ''proceed''" by blast
  from moves_trans [OF asked_moves [OF cfg] miss_moves [where clock = clock and P = P and kget = kget and kset = kset and d = d and v = v and a = a, OF cfg(1) g [unfolded h(2,3)] pm(2)]] h(1) pm(1) lw st
  show ?thesis
    by (intro exI [of _ pm] exI [of _ "[initial_span, asked_span True, lookup_span [(''concurrency.decision'', ?dec)]]"]
        exI [of _ "Some scenario_key"] exI [of _ m'] exI [of _ s])
      (auto simp: scenario_outcome_def cfg live_word_def Let_def split: preload.splits)
next
  case False
  have "moves_to (env d) (scenario_future cfg v) (m, a) (if fc_cache_enabled cfg then [initial_span, asked_span False] else [initial_span])
      (fetching cfg v (length (an_calls a)) None fresh_ctx None) (m, called v a)"
    using False disabled_moves [of cfg P kget kset clock d v m a] moves_trans [OF asking_moves refused_moves, of cfg P kget kset clock d v m a]
    by (auto simp: initial_span_def asked_span_def show_bool_def)
  then show ?thesis using assms(2) False
    by (intro exI [of _ None] exI [of _ "if fc_cache_enabled cfg then [initial_span, asked_span False] else [initial_span]"]
        exI [of _ m] exI [of _ "an_store a"]) (auto simp: scenario_outcome_def)
qed

text \<open>The lookup is made within the run.\<close>

lemma look_clock:
  assumes "fc_cache_enabled cfg" "fc_request_cacheable cfg" "fsm_poll (env d) (scenario_future cfg v) (m, a) = (t, (m', a'))"
  shows "clock (snd (kget scenario_key fresh_ctx (an_store a))) \<le> clock (an_store a')"
proof -
  obtain q m1 a1 where q: "fsm_turn (env d) (looking cfg v) (m, a) = (q, (m1, a1))" by (metis surj_pair)
  obtain r s where g: "kget scenario_key fresh_ctx (an_store a) = (r, s)" by (metis surj_pair)
  have s: "an_store a1 = s" using q g
    by (auto simp: looking_def fsm_turn.simps poll_cache_next_def transition_to_upstream_def Let_def
        split: prod.splits option.splits sum.splits if_splits policy_config.splits cache_state.splits decision.splits)
  have "fsm_poll (env d) (looking cfg v) (m, a) = (t, (m', a'))"
    using asked_moves [OF assms(1,2), of d v m a] assms(3) by (simp add: moves_to_def)
  moreover have "fsm_poll (env d) (looking cfg v) (m, a) = (case q of Moved f' \<Rightarrow> fsm_poll (env d) f' (m1, a1) | _ \<Rightarrow> (q, (m1, a1)))"
    by (subst fsm_poll.simps) (simp add: q split: turn.split)
  ultimately have p: "(case q of Moved f' \<Rightarrow> fsm_poll (env d) f' (m1, a1) | _ \<Rightarrow> (q, (m1, a1))) = (t, (m', a'))" by simp
  show ?thesis
  proof (cases q)
    case (Moved f1)
    then show ?thesis using p poll_clock [of d f1 m1 a1] turn_policy [OF q] g s by simp
  qed (use p g s in simp_all)
qed

lemma finish_poll:
  assumes "upstream_poll clock d fut a = (Some v, a')" "key = None \<or> key = Some scenario_key"
  shows "\<exists>f' m' s. fsm_poll (env d) (fetching cfg v fut pm fresh_ctx key) (m, a)
        = (Ready f' (v, context_of Miss SrcUpstream), (m', a'\<lparr>an_store := s\<rparr>))
    \<and> poll_log (env d) (fetching cfg v fut pm fresh_ctx key) (m, a) = upstream_span key (pm \<noteq> None) # finish_spans cfg (pm \<noteq> None) key
    \<and> (holds (an_store a') x \<longrightarrow> (key = None \<or> x = None) \<longrightarrow> clock s < lim \<longrightarrow>
         holds s (if key \<noteq> None \<and> fc_response_cacheable cfg then Some (cache_value_new v None None) else x))"
  using assms(2)
proof
  assume key: "key = None"
  from bypass_poll [OF assms(1), of P kget kset cfg v pm fresh_ctx m] show ?thesis
    by (auto simp: key scenario_answers poll_upstream_span_def upstream_span_def finish_spans_def context_of_def
        intro!: exI [of _ "an_store a'"])
next
  assume key: "key = Some scenario_key"
  show ?thesis
  proof (cases "fc_response_cacheable cfg")
    case True
    obtain q ctx s where w: "kset scenario_key (cache_value_new v None None) fresh_ctx (an_store a') = ((q, ctx), s)" by (metis surj_pair)
    have ctx: "ctx = fresh_ctx" by (rule set_ctx [OF w])
    from stored_poll [where kget = kget and kset = kset and clock = clock and a = a and a' = a' and P = P and cfg = cfg and pm = pm and m = m and v = v, OF True assms(1) w] set_cell [OF _ w] show ?thesis
      by (auto simp: key True ctx scenario_answers poll_upstream_span_def upstream_span_def finish_spans_def context_of_def
          intro!: exI [of _ s])
  next
    case False
    from rejected_poll [OF False assms(1), of P kget kset v pm fresh_ctx m] show ?thesis
      by (auto simp: key False scenario_answers poll_upstream_span_def upstream_span_def finish_spans_def context_of_def
          intro!: exI [of _ "an_store a'"])
  qed
qed

lemma fetch_span_view: "fetch_span pm key = upstream_span key (pm \<noteq> None)"
  by (simp add: poll_upstream_span_def upstream_span_def)

text \<open>What the first poll and the later ones give.\<close>

definition answered :: "fsm_config \<Rightarrow> preload \<Rightarrow> 32 word \<Rightarrow> 's arena \<Rightarrow> bool" where
  "answered cfg st v a \<longleftrightarrow> an_count a = oc_calls (scenario_outcome label cfg st v)
     \<and> (\<exists>x. holds (an_store a) x \<and> map_option cv_data x = oc_cell (scenario_outcome label cfg st v))"

definition underway :: "time \<Rightarrow> fsm_config \<Rightarrow> preload \<Rightarrow> 32 word \<Rightarrow> 's arena \<Rightarrow> state_span list \<Rightarrow> nat option \<Rightarrow> cache_key option \<Rightarrow> time \<Rightarrow> bool" where
  "underway t0 cfg st v a spans pm key wake \<longleftrightarrow> an_calls a = [(v, Some wake)] \<and> an_count a = 1
     \<and> holds (an_store a) (live_cell t0 st) \<and> (key = None \<or> key = Some scenario_key \<and> live_cell t0 st = None)
     \<and> scenario_outcome label cfg st v = fetched_outcome cfg st v spans key (pm \<noteq> None)"

abbreviation answer_of :: "fsm_config \<Rightarrow> preload \<Rightarrow> 32 word \<Rightarrow> simple_response \<times> cache_context" where
  "answer_of cfg st v \<equiv> (oc_response (scenario_outcome label cfg st v), oc_context (scenario_outcome label cfg st v))"

lemma finished_fetch:
  assumes "upstream_poll clock d fut a = (Some v, a1)" "an_count a1 = 1"
    and "holds (an_store a1) (live_cell t0 st)" "key = None \<or> key = Some scenario_key \<and> live_cell t0 st = None"
    and "scenario_outcome label cfg st v = fetched_outcome cfg st v spans key (pm \<noteq> None)"
    and "fsm_poll (env d) (fetching cfg v fut pm fresh_ctx key) (m, a) = (t, (m', a'))" "clock (an_store a') < lim"
  shows "(\<exists>f'. t = Ready f' (answer_of cfg st v))
    \<and> spans @ poll_log (env d) (fetching cfg v fut pm fresh_ctx key) (m, a) = oc_spans (scenario_outcome label cfg st v)
    \<and> answered cfg st v a'"
proof -
  have "key = None \<or> key = Some scenario_key" using assms(4) by blast
  from finish_poll [OF assms(1) this, where cfg = cfg and pm = pm and m = m and x = "live_cell t0 st"]
  obtain f' m2 s where f: "fsm_poll (env d) (fetching cfg v fut pm fresh_ctx key) (m, a)
        = (Ready f' (v, context_of Miss SrcUpstream), (m2, a1\<lparr>an_store := s\<rparr>))"
    "poll_log (env d) (fetching cfg v fut pm fresh_ctx key) (m, a) = upstream_span key (pm \<noteq> None) # finish_spans cfg (pm \<noteq> None) key"
    "holds (an_store a1) (live_cell t0 st) \<longrightarrow> (key = None \<or> live_cell t0 st = None) \<longrightarrow> clock s < lim \<longrightarrow>
         holds s (if key \<noteq> None \<and> fc_response_cacheable cfg then Some (cache_value_new v None None) else live_cell t0 st)"
    by (elim exE conjE) (rule that)
  let ?x = "if key \<noteq> None \<and> fc_response_cacheable cfg then Some (cache_value_new v None None) else live_cell t0 st"
  have t: "t = Ready f' (v, context_of Miss SrcUpstream)" "a' = a1\<lparr>an_store := s\<rparr>" using f(1) assms(6) by simp_all
  have "key = None \<or> live_cell t0 st = None" "clock s < lim" using assms(4,7) t(2) by auto
  then have "holds s ?x" using f(3) assms(3) by blast
  then have "answered cfg st v a'" unfolding answered_def assms(5) fetched_outcome_def
    by (intro conjI exI [of _ ?x]) (simp_all add: t(2) assms(2) live_cell_word)
  then show ?thesis using t(1) f(2) by (simp add: assms(5) fetched_outcome_def)
qed

lemma first_poll:
  assumes "an_calls a = []" "an_count a = 0" "holds (an_store a) (live_cell t0 st)" "t0 \<le> clock (an_store a)" "lim \<le> t0 + seconds 3600"
    and limit: "\<forall>n. fc_concurrency cfg = Some n \<longrightarrow> 1 \<le> n"
    and poll: "fsm_poll (env d) (scenario_future cfg v) (manager_new P, a) = (t, (m', a'))" and last: "clock (an_store a') < lim"
  shows "(\<exists>f'. t = Ready f' (answer_of cfg st v)) \<and> poll_log (env d) (scenario_future cfg v) (manager_new P, a) = oc_spans (scenario_outcome label cfg st v)
      \<and> answered cfg st v a'
    \<or> (\<exists>pm key spans. t = Pending (fetching cfg v 0 pm fresh_ctx key)
      \<and> poll_log (env d) (scenario_future cfg v) (manager_new P, a) = spans @ [upstream_span key (pm \<noteq> None)]
      \<and> underway t0 cfg st v a' spans pm key (clock (an_store a') + millis d))"
proof -
  let ?m = "manager_new P"
  have look: "fc_cache_enabled cfg \<Longrightarrow> fc_request_cacheable cfg \<Longrightarrow> clock (snd (kget scenario_key fresh_ctx (an_store a))) < lim"
    using look_clock [OF _ _ poll] last by fastforce
  show ?thesis
  proof (cases "serving cfg st")
    case True
    then have "clock (snd (kget scenario_key fresh_ctx (an_store a))) < lim" using look by (simp add: serving_def)
    from served_first [OF True assms(3,4,5) this, of d v ?m] poll assms(2) live_cell_word [of t0 st] show ?thesis
      by (auto simp: answered_def)
  next
    case False
    have vacant: "bm_in_flight ?m scenario_key = None" by (simp add: manager_new_def)
    from fetched_first [OF False assms(3) vacant limit look, of d v]
    obtain pm spans key m1 s where f: "moves_to (env d) (scenario_future cfg v) (?m, a) spans
        (fetching cfg v 0 pm fresh_ctx key) (m1, called v (a\<lparr>an_store := s\<rparr>))"
      "holds s (live_cell t0 st)" "key = None \<or> key = Some scenario_key \<and> live_cell t0 st = None"
      "scenario_outcome label cfg st v = fetched_outcome cfg st v spans key (pm \<noteq> None)"
      by (auto simp: assms(1))
    let ?a = "called v (a\<lparr>an_store := s\<rparr>)"
    have p: "fsm_poll (env d) (fetching cfg v 0 pm fresh_ctx key) (m1, ?a) = (t, (m', a'))"
      and l: "poll_log (env d) (scenario_future cfg v) (?m, a) = spans @ poll_log (env d) (fetching cfg v 0 pm fresh_ctx key) (m1, ?a)"
      using f(1) poll by (simp_all add: moves_to_def)
    show ?thesis
    proof (cases "0 < d")
      case True
      then have "upstream_poll clock d 0 ?a = (None, ?a\<lparr>an_count := 1, an_calls := [(v, Some (clock s + millis d))]\<rparr>)"
        by (simp add: upstream_poll_def assms(1,2))
      from pending_poll [OF this, of P kget kset cfg v pm fresh_ctx key m1] p l f show ?thesis
        by (intro disjI2 exI [of _ pm] exI [of _ key] exI [of _ spans]) (auto simp: fetch_span_view underway_def)
    next
      case False
      then have u: "upstream_poll clock d 0 ?a = (Some v, ?a\<lparr>an_count := 1\<rparr>)"
        by (simp add: upstream_poll_def assms(1,2))
      from finished_fetch [OF u _ _ f(3,4) p last] f(2) l show ?thesis by auto
    qed
  qed
qed

lemma next_poll:
  assumes "underway t0 cfg st v a spans pm key wake"
    and "fsm_poll (env d) (fetching cfg v 0 pm fresh_ctx key) (m, a) = (t, (m', a'))" "clock (an_store a') < lim"
  shows "if wake \<le> clock (an_store a)
    then (\<exists>f'. t = Ready f' (answer_of cfg st v)) \<and> answered cfg st v a'
      \<and> spans @ poll_log (env d) (fetching cfg v 0 pm fresh_ctx key) (m, a) = oc_spans (scenario_outcome label cfg st v)
    else t = Pending (fetching cfg v 0 pm fresh_ctx key) \<and> a' = a
      \<and> poll_log (env d) (fetching cfg v 0 pm fresh_ctx key) (m, a) = [upstream_span key (pm \<noteq> None)]"
proof (cases "wake \<le> clock (an_store a)")
  case True
  then have "upstream_poll clock d 0 a = (Some v, a)" using assms(1) by (simp add: upstream_poll_def underway_def)
  from finished_fetch [OF this _ _ _ _ assms(2,3)] assms(1) True show ?thesis by (auto simp: underway_def)
next
  case False
  then have "upstream_poll clock d 0 a = (None, a)" using assms(1) by (simp add: upstream_poll_def underway_def)
  from pending_poll [OF this, of P kget kset cfg v pm fresh_ctx key m] assms(2) False show ?thesis by (simp add: fetch_span_view)
qed

subsection \<open>A run of one request\<close>

abbreviation now :: "('sem, 'ch, 'rx, 's) scenario_run \<Rightarrow> time" where
  "now R \<equiv> clock (an_store (sr_arena R))"

definition calm_event :: "'s event \<Rightarrow> bool" where
  "calm_event e \<longleftrightarrow> (case e of PollTask i \<Rightarrow> True | Outside f \<Rightarrow> calm f)"

definition tame :: "('sem, 'ch, 'rx, 's) scenario_run \<Rightarrow> bool" where
  "tame R \<longleftrightarrow> (\<forall>g. Running g \<in> set (sr_tasks R) \<longrightarrow> policy_stale (cf_policy (sn_future g)) = ReturnStale)"

lemma poll_future_steps:
  assumes "tame R" "policy_stale (cf_policy (sn_future g)) = ReturnStale"
  shows "tame (poll_future (env d) i g R)
    \<and> (store_step kget kset)\<^sup>*\<^sup>* (an_store (sr_arena R)) (an_store (sr_arena (poll_future (env d) i g R)))"
proof -
  obtain t m a C where t: "spanned_poll (env d) g ((sr_manager R, sr_arena R), sr_collector R) = (t, ((m, a), C))" by (metis surj_pair)
  have f: "fsm_poll (env d) (sn_future g) (sr_manager R, sr_arena R) = (unspanned_turn t, (m, a))"
    using spanned_poll_erased [of "env d" g "((sr_manager R, sr_arena R), sr_collector R)"] by (simp add: t)
  have "policy_stale (cf_policy (sn_future g')) = ReturnStale" if "t = Pending g'" for g'
  proof -
    have "fsm_poll (env d) (sn_future g) (sr_manager R, sr_arena R) = (Pending (sn_future g'), (m, a))"
      using f that by (simp add: unspanned_turn_def)
    from poll_policy [OF this] assms(2) show ?thesis by simp
  qed
  then have "tame (poll_future (env d) i g R)" using assms(1)
    by (cases t) (auto simp: tame_def poll_future_def t dest!: set_mp [OF set_update_subset_insert])
  then show ?thesis using poll_store [OF f assms(2)] by (simp add: poll_future_def t)
qed

lemma task_steps:
  assumes "tame R"
  shows "tame (scenario_event (env d) clock cfg v (PollTask i) R)
    \<and> (store_step kget kset)\<^sup>*\<^sup>* (an_store (sr_arena R)) (an_store (sr_arena (scenario_event (env d) clock cfg v (PollTask i) R)))"
proof -
  have new: "tame (R\<lparr>sr_collector := C\<rparr>) = tame R" for C by (simp add: tame_def)
  have g: "policy_stale (cf_policy (sn_future g)) = ReturnStale"
    if "spanned_new v p rp x (config_policy cfg) C = (g, C')" for g p rp x C C'
    using that by (auto simp: spanned_new_def cache_future_new_def split: prod.splits)
  have r: "policy_stale (cf_policy (sn_future g)) = ReturnStale" if "i < length (sr_tasks R)" "sr_tasks R ! i = Running g" for g
    using that assms(1) by (metis nth_mem tame_def)
  show ?thesis
  proof (cases "i < length (sr_tasks R)")
    case True
    show ?thesis
    proof (cases "sr_tasks R ! i")
      case (Sleeping wake)
      obtain g C where gC: "spanned_new v (configurable_request_predicate (fc_request_cacheable cfg))
          (configurable_response_predicate (fc_response_cacheable cfg)) fixed_key_extractor (config_policy cfg) (sr_collector R)
          = (g :: 'rx simple_future, C)" by (metis surj_pair)
      from poll_future_steps [of "R\<lparr>sr_collector := C\<rparr>" g d i] assms g [OF gC] show ?thesis
        by (simp add: True poll_task_def Sleeping gC new)
    next
      case (Running g)
      then show ?thesis using poll_future_steps [OF assms r [OF True Running]] by (simp add: True poll_task_def)
    qed (simp_all add: True poll_task_def assms)
  qed (simp add: assms)
qed

lemma event_tame:
  assumes "tame R" "calm_event e"
  shows "tame (scenario_event (env d) clock cfg v e R) \<and> now R \<le> now (scenario_event (env d) clock cfg v e R)"
proof (cases e)
  case (PollTask i)
  then show ?thesis using task_steps [OF assms(1), of d cfg v i] steps_clock by blast
next
  case (Outside f)
  then show ?thesis using assms calm_clock by (simp add: tame_def calm_event_def)
qed

lemma run_tame:
  "tame R \<Longrightarrow> \<forall>e \<in> set evs. calm_event e \<Longrightarrow>
     tame (fold (scenario_event (env d) clock cfg v) evs R) \<and> now R \<le> now (fold (scenario_event (env d) clock cfg v) evs R)"
proof (induction evs arbitrary: R)
  case (Cons e evs)
  with event_tame [of R e d cfg v] show ?case by fastforce
qed simp

text \<open>Before its first poll, in its upstream call, with its response.\<close>

definition asleep :: "time \<Rightarrow> preload \<Rightarrow> ('sem, 'ch, 'rx, 's) scenario_run \<Rightarrow> bool" where
  "asleep t0 st R \<longleftrightarrow> (\<exists>wake. sr_tasks R = [Sleeping wake] \<and> wake \<le> now R) \<and> t0 \<le> now R
     \<and> sr_manager R = manager_new P \<and> an_calls (sr_arena R) = [] \<and> an_count (sr_arena R) = 0
     \<and> sc_spans (sr_collector R) = [] \<and> sc_current (sr_collector R) = None \<and> holds (an_store (sr_arena R)) (live_cell t0 st)"

definition in_call :: "time \<Rightarrow> fsm_config \<Rightarrow> preload \<Rightarrow> 32 word \<Rightarrow> time \<Rightarrow> ('sem, 'ch, 'rx, 's) scenario_run \<Rightarrow> bool" where
  "in_call t0 cfg st v wake R \<longleftrightarrow> (\<exists>g pm key spans. sr_tasks R = [Running g] \<and> sn_future g = fetching cfg v 0 pm fresh_ctx key
     \<and> ids_ok (sr_collector R) \<and> on_path g (sr_collector R) \<and> alone (sn_root g) (sr_collector R)
     \<and> map span_view (own_spans (sn_root g) (sr_collector R)) = spans @ [upstream_span key (pm \<noteq> None)]
     \<and> underway t0 cfg st v (sr_arena R) spans pm key wake)"

definition finished :: "fsm_config \<Rightarrow> preload \<Rightarrow> 32 word \<Rightarrow> ('sem, 'ch, 'rx, 's) scenario_run \<Rightarrow> bool" where
  "finished cfg st v R \<longleftrightarrow> sr_tasks R = [Finished (answer_of cfg st v)] \<and> answered cfg st v (sr_arena R)
     \<and> map (map span_view) (fsm_states_per_request (sr_collector R)) = [oc_spans (scenario_outcome label cfg st v)]
     \<and> fsm_states (sr_collector R) = map (\<lambda>s. drop (length ''fsm.'') (fst s)) (oc_spans (scenario_outcome label cfg st v))"

lemma config_fetching: "policy_stale (cf_policy (fetching cfg v fut pm ctx key)) = ReturnStale"
  by (simp add: fetching_def)

text \<open>A poll of the only task, on the spans and in the store.\<close>

lemma poll_only:
  assumes "sr_tasks R = [task]" "ids_ok (sr_collector R)" "on_path g (sr_collector R)" "alone (sn_root g) (sr_collector R)"
    and "policy_stale (cf_policy (sn_future g)) = ReturnStale"
    and "fsm_poll (env d) (sn_future g) (sr_manager R, sr_arena R) = (t, (m, a))" "t \<noteq> Panicked" "\<And>f. t \<noteq> Moved f"
  shows "\<exists>q C. poll_future (env d) 0 g R = \<lparr>sr_tasks = [q], sr_manager = m, sr_arena = a, sr_collector = C\<rparr>
    \<and> ids_ok C \<and> alone (sn_root g) C
    \<and> map span_view (own_spans (sn_root g) C) = map span_view (butlast (own_spans (sn_root g) (sr_collector R)))
        @ poll_log (env d) (sn_future g) (sr_manager R, sr_arena R)
    \<and> (case t of Ready f out \<Rightarrow> q = Finished out | Pending f \<Rightarrow> \<exists>g'. q = Running g' \<and> sn_future g' = f \<and> sn_root g' = sn_root g \<and> on_path g' C | _ \<Rightarrow> False)"
proof -
  obtain u m1 a1 C where u: "spanned_poll (env d) g ((sr_manager R, sr_arena R), sr_collector R) = (u, ((m1, a1), C))" by (metis surj_pair)
  have f: "t = unspanned_turn u" "m1 = m" "a1 = a"
    using spanned_poll_erased [of "env d" g "((sr_manager R, sr_arena R), sr_collector R)"] by (simp_all add: u assms(6))
  have np: "u \<noteq> Panicked" using assms(7) f(1) by (auto simp: unspanned_turn_def)
  from poll_own [OF assms(2,3) u np] have o: "ids_ok C"
    "map span_view (own_spans (sn_root g) C) = map span_view (butlast (own_spans (sn_root g) (sr_collector R)))
        @ poll_log (env d) (sn_future g) (sr_manager R, sr_arena R)"
    "\<forall>g'. u = Pending g' \<longrightarrow> on_path g' C \<and> sn_root g' = sn_root g" by (auto simp: beside_def)
  note al = alone_poll [OF assms(4,5) u]
  show ?thesis
  proof (cases u)
    case (Pending g')
    then show ?thesis using f o al
      by (intro exI [of _ "Running g'"] exI [of _ C]) (simp add: poll_future_def u assms(1) unspanned_turn_def)
  next
    case (Ready g' out)
    then show ?thesis using f o al
      by (intro exI [of _ "Finished out"] exI [of _ C]) (simp add: poll_future_def u assms(1) unspanned_turn_def)
  qed (use f(1) np assms(8) in \<open>simp_all add: unspanned_turn_def\<close>)
qed

lemma polled_arena:
  assumes "fsm_poll (env d) (sn_future g) (sr_manager R, sr_arena R) = (t, (m, a))"
  shows "sr_arena (poll_future (env d) i g R) = a"
proof -
  obtain u m1 a1 C where u: "spanned_poll (env d) g ((sr_manager R, sr_arena R), sr_collector R) = (u, ((m1, a1), C))" by (metis surj_pair)
  then show ?thesis
    using spanned_poll_erased [of "env d" g "((sr_manager R, sr_arena R), sr_collector R)"] assms by (simp add: poll_future_def)
qed

lemma finished_states:
  assumes "ids_ok C" "alone root C" "map span_view (own_spans root C) = ss"
  shows "map (map span_view) (fsm_states_per_request C) = [ss]" "fsm_states C = map (\<lambda>s. drop (length ''fsm.'') (fst s)) ss"
  using alone_states [OF assms(1,2)] assms(3) by (auto simp: span_view_def)

lemma asleep_polled:
  assumes "asleep t0 st R" "lim \<le> t0 + seconds 3600" "\<forall>n. fc_concurrency cfg = Some n \<longrightarrow> 1 \<le> n"
    and "R' = scenario_event (env d) clock cfg v (PollTask 0) R" "now R' < lim"
  shows "finished cfg st v R' \<or> in_call t0 cfg st v (now R' + millis d) R'"
proof -
  obtain wake where R: "sr_tasks R = [Sleeping wake]" "wake \<le> now R" "t0 \<le> now R" "sr_manager R = manager_new P"
      "an_calls (sr_arena R) = []" "an_count (sr_arena R) = 0" "sc_spans (sr_collector R) = []" "sc_current (sr_collector R) = None"
      "holds (an_store (sr_arena R)) (live_cell t0 st)"
    using assms(1) by (auto simp: asleep_def)
  have ids: "ids_ok (sr_collector R)" by (simp add: ids_ok_def shapes_ok_def R)
  obtain g C where gC: "spanned_new v (configurable_request_predicate (fc_request_cacheable cfg))
      (configurable_response_predicate (fc_response_cacheable cfg)) fixed_key_extractor (config_policy cfg) (sr_collector R)
      = (g :: 'rx simple_future, C)" by (metis surj_pair)
  have g: "sn_future g = scenario_future cfg v"
    using gC by (auto simp: spanned_new_def scenario_future_def split: prod.splits)
  from spanned_new_on_path [OF ids gC] have C: "ids_ok C" "on_path g C" by (auto simp: beside_def)
  have al: "alone (sn_root g) C" by (rule alone_new [OF R(7,8) gC])
  let ?R = "R\<lparr>sr_collector := C\<rparr>"
  have R': "R' = poll_future (env d) 0 g ?R" using assms(4) R(1,2) by (simp add: poll_task_def gC)
  have one: "butlast (own_spans (sn_root g) C) = []"
  proof -
    have "map sp_name (own_spans (sn_root g) C) = [''fsm.Initial'']"
      using C(2) g by (simp add: on_path_def scenario_future_def cache_future_new_def)
    then show ?thesis by (cases "own_spans (sn_root g) C") auto
  qed
  obtain t m a where t: "fsm_poll (env d) (scenario_future cfg v) (manager_new P, sr_arena R) = (t, (m, a))" by (metis surj_pair)
  have last: "clock (an_store a) < lim"
    using assms(5) polled_arena [of d g ?R t m a 0] t by (simp add: R' R(4) g)
  note fp = first_poll [OF R(5,6,9,3) assms(2,3) t last]
  from fp have nt: "t \<noteq> Panicked" "\<And>f. t \<noteq> Moved f" by auto
  have "\<exists>q C'. poll_future (env d) 0 g ?R = \<lparr>sr_tasks = [q], sr_manager = m, sr_arena = a, sr_collector = C'\<rparr>
    \<and> ids_ok C' \<and> alone (sn_root g) C'
    \<and> map span_view (own_spans (sn_root g) C') = poll_log (env d) (scenario_future cfg v) (manager_new P, sr_arena R)
    \<and> (case t of Ready f out \<Rightarrow> q = Finished out | Pending f \<Rightarrow> \<exists>g'. q = Running g' \<and> sn_future g' = f \<and> sn_root g' = sn_root g \<and> on_path g' C' | _ \<Rightarrow> False)"
    using poll_only [of ?R "Sleeping wake" g d t m a] R C al one nt t by (simp add: g)
  then obtain q C' where q: "R' = \<lparr>sr_tasks = [q], sr_manager = m, sr_arena = a, sr_collector = C'\<rparr>" "ids_ok C'" "alone (sn_root g) C'"
    "map span_view (own_spans (sn_root g) C') = poll_log (env d) (scenario_future cfg v) (manager_new P, sr_arena R)"
    "case t of Ready f out \<Rightarrow> q = Finished out | Pending f \<Rightarrow> \<exists>g'. q = Running g' \<and> sn_future g' = f \<and> sn_root g' = sn_root g \<and> on_path g' C' | _ \<Rightarrow> False"
    unfolding R' by blast
  from fp show ?thesis
  proof (elim disjE exE conjE)
    fix f' assume "t = Ready f' (answer_of cfg st v)" "answered cfg st v a"
      "poll_log (env d) (scenario_future cfg v) (manager_new P, sr_arena R) = oc_spans (scenario_outcome label cfg st v)"
    then show ?thesis using q finished_states [OF q(2,3,4)] by (simp add: finished_def)
  next
    fix pm key spans assume "t = Pending (fetching cfg v 0 pm fresh_ctx key)"
      "poll_log (env d) (scenario_future cfg v) (manager_new P, sr_arena R) = spans @ [upstream_span key (pm \<noteq> None)]"
      "underway t0 cfg st v a spans pm key (clock (an_store a) + millis d)"
    then show ?thesis using q by (auto simp: in_call_def)
  qed
qed

lemma in_call_polled:
  assumes "in_call t0 cfg st v wake R" "R' = scenario_event (env d) clock cfg v (PollTask 0) R" "now R' < lim"
  shows "if wake \<le> now R then finished cfg st v R' else in_call t0 cfg st v wake R'"
proof -
  obtain g pm key spans where R: "sr_tasks R = [Running g]" "sn_future g = fetching cfg v 0 pm fresh_ctx key"
      "ids_ok (sr_collector R)" "on_path g (sr_collector R)" "alone (sn_root g) (sr_collector R)"
      "map span_view (own_spans (sn_root g) (sr_collector R)) = spans @ [upstream_span key (pm \<noteq> None)]"
      "underway t0 cfg st v (sr_arena R) spans pm key wake"
    using assms(1) unfolding in_call_def by blast
  have R': "R' = poll_future (env d) 0 g R" using assms(2) R(1) by (simp add: poll_task_def)
  obtain t m a where t: "fsm_poll (env d) (fetching cfg v 0 pm fresh_ctx key) (sr_manager R, sr_arena R) = (t, (m, a))" by (metis surj_pair)
  have last: "clock (an_store a) < lim"
    using assms(3) polled_arena [of d g R t m a 0] t by (simp add: R' R(2))
  note np = next_poll [OF R(7) t last]
  have nt: "t \<noteq> Panicked" "\<And>f. t \<noteq> Moved f" using np by (auto split: if_splits)
  have pre: "map span_view (butlast (own_spans (sn_root g) (sr_collector R))) = spans"
    using R(6) by (metis butlast_snoc map_butlast)
  have "\<exists>q C. R' = \<lparr>sr_tasks = [q], sr_manager = m, sr_arena = a, sr_collector = C\<rparr> \<and> ids_ok C \<and> alone (sn_root g) C
    \<and> map span_view (own_spans (sn_root g) C) = spans @ poll_log (env d) (fetching cfg v 0 pm fresh_ctx key) (sr_manager R, sr_arena R)
    \<and> (case t of Ready f out \<Rightarrow> q = Finished out | Pending f \<Rightarrow> \<exists>g'. q = Running g' \<and> sn_future g' = f \<and> sn_root g' = sn_root g \<and> on_path g' C | _ \<Rightarrow> False)"
    using poll_only [OF R(1,3,4,5) _ _ nt, of d m a] by (simp add: R' R(2) t pre config_fetching)
  then obtain q C where
    q: "R' = \<lparr>sr_tasks = [q], sr_manager = m, sr_arena = a, sr_collector = C\<rparr>" "ids_ok C" "alone (sn_root g) C"
    "map span_view (own_spans (sn_root g) C) = spans @ poll_log (env d) (fetching cfg v 0 pm fresh_ctx key) (sr_manager R, sr_arena R)"
    "case t of Ready f out \<Rightarrow> q = Finished out | Pending f \<Rightarrow> \<exists>g'. q = Running g' \<and> sn_future g' = f \<and> sn_root g' = sn_root g \<and> on_path g' C | _ \<Rightarrow> False" by blast
  show ?thesis
  proof (cases "wake \<le> now R")
    case True
    then show ?thesis using np q finished_states [OF q(2,3)] by (auto simp: finished_def)
  next
    case False
    then obtain g' where g': "t = Pending (fetching cfg v 0 pm fresh_ctx key)" "q = Running g'" "sn_future g' = fetching cfg v 0 pm fresh_ctx key"
      "sn_root g' = sn_root g" "on_path g' C" "a = sr_arena R"
      "poll_log (env d) (fetching cfg v 0 pm fresh_ctx key) (sr_manager R, sr_arena R) = [upstream_span key (pm \<noteq> None)]"
      using np q(5) by auto
    have "in_call t0 cfg st v wake R'" unfolding in_call_def
      by (intro exI [of _ g'] exI [of _ pm] exI [of _ key] exI [of _ spans]) (use q(1,2,3,4) g' R(7) in simp)
    with False show ?thesis by simp
  qed
qed

lemma event_kept:
  assumes "calm_event e" "now (scenario_event (env d) clock cfg v e R) < lim"
  shows "finished cfg st v R \<Longrightarrow> finished cfg st v (scenario_event (env d) clock cfg v e R)"
    and "in_call t0 cfg st v wake R \<Longrightarrow> in_call t0 cfg st v wake (scenario_event (env d) clock cfg v e R)
      \<or> finished cfg st v (scenario_event (env d) clock cfg v e R)"
    and "asleep t0 st R \<Longrightarrow> e \<noteq> PollTask 0 \<Longrightarrow> asleep t0 st (scenario_event (env d) clock cfg v e R)"
proof -
  let ?R' = "scenario_event (env d) clock cfg v e R"
  show "finished cfg st v ?R'" if "finished cfg st v R"
    using assms that by (cases e) (auto simp: finished_def poll_task_def answered_def calm_event_def intro: calm_cell)
  show "in_call t0 cfg st v wake ?R' \<or> finished cfg st v ?R'" if c: "in_call t0 cfg st v wake R"
  proof (cases e)
    case (PollTask i)
    then show ?thesis
    proof (cases i)
      case 0
      then show ?thesis using in_call_polled [OF c, of ?R' d] PollTask assms(2) by (auto split: if_splits)
    next
      case (Suc j)
      then have "?R' = R" using c PollTask by (auto simp: in_call_def)
      with c show ?thesis by simp
    qed
  next
    case (Outside f)
    then show ?thesis using assms c calm_cell by (fastforce simp: in_call_def underway_def calm_event_def)
  qed
  show "asleep t0 st ?R'" if "asleep t0 st R" "e \<noteq> PollTask 0"
  proof (cases e)
    case (PollTask i)
    then show ?thesis using that by (cases i) (auto simp: asleep_def)
  next
    case (Outside f)
    then have "calm f" using assms(1) by (simp add: calm_event_def)
    then show ?thesis using that assms(2) Outside calm_cell calm_clock [of f "an_store (sr_arena R)"]
      by (fastforce simp: asleep_def)
  qed
qed

abbreviation after :: "nat \<Rightarrow> fsm_config \<Rightarrow> 32 word \<Rightarrow> 's event list \<Rightarrow> ('sem, 'ch, 'rx, 's) scenario_run \<Rightarrow> ('sem, 'ch, 'rx, 's) scenario_run" where
  "after d cfg v evs R \<equiv> fold (scenario_event (env d) clock cfg v) evs R"

lemma run_kept:
  assumes "tame R" "\<forall>e \<in> set evs. calm_event e" "now (after d cfg v evs R) < lim"
  shows "finished cfg st v R \<Longrightarrow> finished cfg st v (after d cfg v evs R)"
    and "in_call t0 cfg st v wake R \<Longrightarrow> in_call t0 cfg st v wake (after d cfg v evs R) \<or> finished cfg st v (after d cfg v evs R)"
  using assms
proof (induction evs arbitrary: R)
  case (Cons e evs)
  { case (1 R)
    let ?R = "scenario_event (env d) clock cfg v e R"
    have t: "tame ?R" "now ?R \<le> now (after d cfg v evs ?R)"
      using event_tame [OF 1(2), where e = e] run_tame [where R = ?R and evs = evs and d = d and cfg = cfg and v = v] 1(3) by auto
    then have "finished cfg st v ?R" using event_kept(1) [of e d cfg v R] 1 by simp
    from Cons.IH(1) [OF this t(1)] 1 show ?case by simp
  next
    case (2 R)
    let ?R = "scenario_event (env d) clock cfg v e R"
    have t: "tame ?R" "now ?R \<le> now (after d cfg v evs ?R)"
      using event_tame [OF 2(2), where e = e] run_tame [where R = ?R and evs = evs and d = d and cfg = cfg and v = v] 2(3) by auto
    then have "in_call t0 cfg st v wake ?R \<or> finished cfg st v ?R" using event_kept(2) [of e d cfg v R] 2 by simp
    with Cons.IH(1) [OF _ t(1)] Cons.IH(2) [OF _ t(1)] 2 show ?case by auto
  }
qed simp_all

text \<open>A run that polls its task, and again when the upstream's delay has passed.\<close>

definition phased :: "time \<Rightarrow> fsm_config \<Rightarrow> preload \<Rightarrow> 32 word \<Rightarrow> nat \<Rightarrow> ('sem, 'ch, 'rx, 's) scenario_run \<Rightarrow> bool" where
  "phased t0 cfg st v d R \<longleftrightarrow> finished cfg st v R \<or> (\<exists>wake \<le> now R + millis d. in_call t0 cfg st v wake R)"

lemma event_phased:
  assumes "asleep t0 st R \<or> phased t0 cfg st v d R" "lim \<le> t0 + seconds 3600" "\<forall>n. fc_concurrency cfg = Some n \<longrightarrow> 1 \<le> n"
    and "tame R" "calm_event e" "now (scenario_event (env d) clock cfg v e R) < lim"
  shows "phased t0 cfg st v d (scenario_event (env d) clock cfg v e R)
    \<or> e \<noteq> PollTask 0 \<and> asleep t0 st (scenario_event (env d) clock cfg v e R)"
proof -
  let ?R' = "scenario_event (env d) clock cfg v e R"
  note kept = event_kept [OF assms(5,6)]
  have later: "now R \<le> now ?R'" using event_tame [OF assms(4,5)] by blast
  from assms(1) consider (sleep) "asleep t0 st R" | (fin) "finished cfg st v R"
    | (call) wake where "wake \<le> now R + millis d" "in_call t0 cfg st v wake R"
    unfolding phased_def by blast
  then show ?thesis
  proof cases
    case sleep
    show ?thesis
    proof (cases "e = PollTask 0")
      case True
      from asleep_polled [OF sleep assms(2,3) refl, of d v] assms(6) True show ?thesis by (auto simp: phased_def)
    qed (use kept(3) [OF sleep] in simp)
  next
    case fin
    then show ?thesis using kept(1) by (simp add: phased_def)
  next
    case call
    then show ?thesis using kept(2) [OF call(2)] later by (force simp: phased_def)
  qed
qed

lemma run_phased:
  assumes "lim \<le> t0 + seconds 3600" "\<forall>n. fc_concurrency cfg = Some n \<longrightarrow> 1 \<le> n"
  shows "asleep t0 st R \<or> phased t0 cfg st v d R \<Longrightarrow> tame R \<Longrightarrow> \<forall>e \<in> set evs. calm_event e \<Longrightarrow> now (after d cfg v evs R) < lim
    \<Longrightarrow> asleep t0 st (after d cfg v evs R) \<or> phased t0 cfg st v d (after d cfg v evs R)"
proof (induction evs arbitrary: R)
  case (Cons e evs R)
  let ?R = "scenario_event (env d) clock cfg v e R"
  have t: "tame ?R" "now ?R \<le> now (after d cfg v evs ?R)"
    using event_tame [OF Cons(3), of e d cfg v] run_tame [of ?R evs d cfg v] Cons(4) by auto
  with event_phased [OF Cons(2) assms Cons(3), of e] Cons(4,5) have "asleep t0 st ?R \<or> phased t0 cfg st v d ?R" by auto
  from Cons.IH [OF this t(1)] Cons(4,5) show ?case by simp
qed simp

lemma single_run:
  assumes "asleep t0 st R" "tame R" "lim \<le> t0 + seconds 3600" "\<forall>n. fc_concurrency cfg = Some n \<longrightarrow> 1 \<le> n"
    and "\<forall>e \<in> set (es1 @ PollTask 0 # es2 @ PollTask 0 # es3). calm_event e"
    and "now (after d cfg v (es1 @ [PollTask 0]) R) + millis d \<le> now (after d cfg v (es1 @ PollTask 0 # es2) R)"
    and "now (after d cfg v (es1 @ PollTask 0 # es2 @ PollTask 0 # es3) R) < lim"
  shows "finished cfg st v (after d cfg v (es1 @ PollTask 0 # es2 @ PollTask 0 # es3) R)"
proof -
  let ?ev = "scenario_event (env d) clock cfg v"
  define A where "A = after d cfg v es1 R"
  define B where "B = ?ev (PollTask 0) A"
  define C where "C = after d cfg v es2 B"
  define D where "D = ?ev (PollTask 0) C"
  have calm: "\<forall>e \<in> set es1. calm_event e" "\<forall>e \<in> set es2. calm_event e" "\<forall>e \<in> set es3. calm_event e" "calm_event (PollTask 0)"
    using assms(5) by auto
  have A: "tame A" using run_tame [OF assms(2) calm(1)] unfolding A_def by blast
  have B: "tame B" "now A \<le> now B" using event_tame [OF A calm(4)] unfolding B_def by blast+
  have C: "tame C" "now B \<le> now C" using run_tame [OF B(1) calm(2)] unfolding C_def by blast+
  have D: "tame D" "now C \<le> now D" using event_tame [OF C(1) calm(4)] unfolding D_def by blast+
  have E: "now D \<le> now (after d cfg v es3 D)" using run_tame [OF D(1) calm(3)] by blast
  have last: "now (after d cfg v es3 D) < lim" using assms(7) by (simp add: A_def B_def C_def D_def)
  have wait: "now B + millis d \<le> now C" using assms(6) by (simp add: A_def B_def C_def)
  have "asleep t0 st A \<or> phased t0 cfg st v d A"
    unfolding A_def by (rule run_phased [OF assms(3,4) _ assms(2) calm(1)]) (use assms(1) last A_def B C D E in auto)
  from event_phased [OF this assms(3,4) A calm(4)] have "phased t0 cfg st v d B" using last B C D E by (simp add: B_def)
  then consider (fin) "finished cfg st v B" | (call) wake where "wake \<le> now B + millis d" "in_call t0 cfg st v wake B"
    unfolding phased_def by blast
  then have "finished cfg st v C \<or> (\<exists>wake \<le> now C. in_call t0 cfg st v wake C)"
  proof cases
    case fin
    then show ?thesis using run_kept(1) [OF B(1) calm(2)] last C D E by (simp add: C_def)
  next
    case call
    have "now (after d cfg v es2 B) < lim" "wake \<le> now C" using last C D E wait call(1) by (simp_all add: C_def)
    with run_kept(2) [OF B(1) calm(2) _ call(2)] show ?thesis by (auto simp: C_def)
  qed
  then have "finished cfg st v D"
  proof (elim disjE exE conjE)
    show "finished cfg st v D" if "finished cfg st v C"
      using event_kept(1) [OF calm(4) _ that] last D E by (simp add: D_def)
    show "finished cfg st v D" if "wake \<le> now C" "in_call t0 cfg st v wake C" for wake
      using in_call_polled [OF that(2) D_def] that(1) last D E by simp
  qed
  then have "finished cfg st v (after d cfg v es3 D)" by (rule run_kept(1) [OF D(1) calm(3) last])
  then show ?thesis by (simp add: A_def B_def C_def D_def)
qed

text \<open>The run from its start.\<close>

lemma started:
  assumes "sc_current (fw_collector w) = None" "\<And>f. Outside f \<in> set evs \<Longrightarrow> calm f"
  shows "tame (scenario_start P clock rd 1 s (fw_collector w))"
    and "clock s \<le> now (run_state P kget kset clock w 1 v evs s)"
proof -
  show t: "tame (scenario_start P clock rd 1 s (fw_collector w))" for rd by (simp add: tame_def scenario_start_def)
  have "\<forall>e \<in> set evs. calm_event e" using assms(2) by (auto simp: calm_event_def split: event.split)
  from run_tame [OF t this, of "fw_upstream_delay_ms w" "fw_config w" v "fw_request_delay_ms w"]
  show "clock s \<le> now (run_state P kget kset clock w 1 v evs s)" by (simp add: run_state_def scenario_start_def)
qed

lemma single_scenario:
  assumes "holds s (live_cell t0 st)" "t0 \<le> clock s" "lim \<le> t0 + seconds 3600" "sc_current (fw_collector w) = None"
    and "\<forall>n. fc_concurrency (fw_config w) = Some n \<longrightarrow> 1 \<le> n" "\<And>f. Outside f \<in> set evs \<Longrightarrow> calm f"
    and "evs = es1 @ PollTask 0 # es2 @ PollTask 0 # es3"
    and "now (run_state P kget kset clock w 1 v (es1 @ [PollTask 0]) s) + millis (fw_upstream_delay_ms w)
      \<le> now (run_state P kget kset clock w 1 v (es1 @ PollTask 0 # es2) s)"
    and "now (run_state P kget kset clock w 1 v evs s) < lim"
  shows "finished (fw_config w) st v (run_state P kget kset clock w 1 v evs s)"
proof -
  let ?R = "scenario_start P clock (fw_request_delay_ms w) 1 s (fw_collector w)"
  have e: "run_state P kget kset clock w 1 v es s = after (fw_upstream_delay_ms w) (fw_config w) v es ?R" for es
    by (simp add: run_state_def)
  have calm: "\<forall>e \<in> set evs. calm_event e" using assms(6) by (auto simp: calm_event_def split: event.split)
  have a: "asleep t0 st ?R" using assms(1,2,4) by (simp add: asleep_def scenario_start_def collector_clear_def)
  from single_run [OF a started(1) [OF assms(4,6)] assms(3,5), where ?es1.0 = es1 and ?es2.0 = es2 and ?es3.0 = es3 and d = "fw_upstream_delay_ms w" and v = v] calm assms(8,9)
  show ?thesis unfolding e assms(7) by blast
qed

end

section \<open>The moka store of a scenario\<close>

definition cell_holds ::
  "'c moka_ops \<Rightarrow> ('c \<Rightarrow> cache_key \<Rightarrow> (bytes cache_value \<times> time option) option) \<Rightarrow> (32 word) serde \<Rightarrow> time
   \<Rightarrow> 'c \<Rightarrow> (32 word) cache_value option \<Rightarrow> bool" where
  "cell_holds M held json lim c x =
     (case x of
        None \<Rightarrow> \<forall>e. held c scenario_key = Some e \<longrightarrow> \<not> alive (mo_now M c) e
      | Some u \<Rightarrow> \<exists>b z. held c scenario_key = Some (cache_value_new b (cv_expire u) (cv_stale u), z) \<and> sd_ser json (cv_data u) = Ok b
          \<and> (\<forall>d. z = Some d \<longrightarrow> lim \<le> d))"

definition calm_moka :: "'c moka_ops \<Rightarrow> ('c \<Rightarrow> cache_key \<Rightarrow> (bytes cache_value \<times> time option) option) \<Rightarrow> ('c \<Rightarrow> 'c) \<Rightarrow> bool" where
  "calm_moka M held f \<longleftrightarrow> (\<forall>c. mo_now M c \<le> mo_now M (f c) \<and> settles (mo_now M (f c)) (held c) (held (f c)) \<and> held (f c) \<subseteq>\<^sub>m held c)"

lemma cell_settles:
  assumes "cell_holds M held json lim c x" "settles (mo_now M c') (held c) (held c')" "held c' \<subseteq>\<^sub>m held c"
    and "mo_now M c \<le> mo_now M c'" "mo_now M c' < lim"
  shows "cell_holds M held json lim c' x"
proof (cases x)
  case None
  have "\<not> alive (mo_now M c') e" if e: "held c' scenario_key = Some e" for e
  proof -
    have "held c scenario_key = Some e" using assms(3) e unfolding map_le_def by (metis domI)
    then have "\<not> alive (mo_now M c) e" using assms(1) None by (simp add: cell_holds_def)
    then show ?thesis using assms(4) by (force simp: alive_def)
  qed
  then show ?thesis using None by (simp add: cell_holds_def)
next
  case (Some u)
  then obtain b z where b: "held c scenario_key = Some (cache_value_new b (cv_expire u) (cv_stale u), z)" "sd_ser json (cv_data u) = Ok b"
    "\<forall>d. z = Some d \<longrightarrow> lim \<le> d" using assms(1) by (auto simp: cell_holds_def)
  have "alive (mo_now M c') (cache_value_new b (cv_expire u) (cv_stale u), z)" using b(3) assms(5) by (force simp: alive_def)
  then have "held c' scenario_key = Some (cache_value_new b (cv_expire u) (cv_stale u), z)"
    using assms(2) b(1) by (simp add: settles_def)
  then show ?thesis using Some b by (simp add: cell_holds_def)
qed

lemma scenario_backend_sel:
  "be_read (scenario_backend M json) = moka_read M" "be_write (scenario_backend M json) = moka_write M"
  "be_label (scenario_backend M json) = BackendLabel ''moka''" "be_format (scenario_backend M json) = json_format json"
  "be_compressor (scenario_backend M json) = passthrough_compressor"
  by (simp_all add: scenario_backend_def scenario_builder_def mb_max_entries_def moka_builder_new_def)

lemma scenario_set:
  "cache_set (scenario_backend M json) k u fresh_ctx c =
     (case sd_ser json (cv_data u) of
        Inl e \<Rightarrow> ((Err (FormatErr (SerializeErr (BoxMsg e))), fresh_ctx), c)
      | Inr b \<Rightarrow> ((Ok (), fresh_ctx), mo_insert M k (cache_value_new b (cv_expire u) (cv_stale u)) (calculate_ttl (mo_now M c) u) c))"
  by (auto simp: cache_set_def scenario_backend_sel json_format_def passthrough_compressor_def moka_write_def expire_after_create_def
      calculate_ttl_def cache_context_default_def split: sum.split)

context prompt_moka begin

lemma cell_inserted:
  assumes "sd_ser json (cv_data u) = Ok b" "c' = mo_insert M scenario_key (cache_value_new b (cv_expire u) (cv_stale u)) ttl c"
    and "\<And>d. ttl = Some d \<Longrightarrow> lim \<le> mo_now M c + int d" "mo_now M c' < lim"
  shows "cell_holds M held json lim c' (Some u)"
proof -
  let ?v = "cache_value_new b (cv_expire u) (cv_stale u)" and ?z = "map_option (\<lambda>d. mo_now M c + int d) ttl"
  have "alive (mo_now M c') (?v, ?z)" using assms(3,4) by (fastforce simp: alive_def)
  then have "held c' scenario_key = Some (?v, ?z)" using insert_prompt [OF assms(2)] by (simp add: settles_def)
  then show ?thesis using assms(1,3) by (auto simp: cell_holds_def)
qed

lemma cell_read:
  assumes "lossless_serde json" "cell_holds M held json lim c x" "mo_get M scenario_key c = (q, c')" "mo_now M c' < lim"
  shows "cell_holds M held json lim c' x
    \<and> cache_get (scenario_backend M json) scenario_key fresh_ctx c = ((Ok x, if x = None then fresh_ctx else hit_ctx (BackendLabel ''moka'')), c')"
proof -
  note l = get_kept [OF assms(3)] and p = get_prompt [OF assms(3)]
  have h: "cell_holds M held json lim c' x" using cell_settles [OF assms(2)] l p assms(4) by blast
  show ?thesis
  proof (cases x)
    case None
    have "q = None"
    proof (rule ccontr)
      assume "q \<noteq> None"
      then obtain v d where "held c scenario_key = Some (v, d)" "\<forall>t. d = Some t \<longrightarrow> mo_now M c < t" using l by blast
      then show False using assms(2) None by (auto simp: cell_holds_def alive_def)
    qed
    then show ?thesis using h assms(3) None by (simp add: cache_get_def scenario_backend_sel moka_read_def)
  next
    case (Some u)
    then obtain b z where b: "held c scenario_key = Some (cache_value_new b (cv_expire u) (cv_stale u), z)" "sd_ser json (cv_data u) = Ok b"
      "\<forall>d. z = Some d \<longrightarrow> lim \<le> d" using assms(2) by (auto simp: cell_holds_def)
    have "alive (mo_now M c') (cache_value_new b (cv_expire u) (cv_stale u), z)" using b(3) assms(4) by (force simp: alive_def)
    then have q: "q = Some (cache_value_new b (cv_expire u) (cv_stale u))" using p b(1) by simp
    have de: "sd_de json b = Ok (cv_data u)" using assms(1) b(2) by (simp add: lossless_serde_def)
    have u: "cache_value_new (cv_data u) (cv_expire u) (cv_stale u) = u" by (simp add: cache_value_new_def)
    show ?thesis using h assms(3)
      by (simp add: Some cache_get_def scenario_backend_sel moka_read_def q into_parts_def cache_meta_new_def passthrough_compressor_def
          json_format_def de u Let_def)
  qed
qed

lemma moka_cell:
  assumes "sync_laws P avail closed cap attached unread" "lossless_serde json" "\<And>v. is_ok (sd_ser json v)"
  shows "scenario_cell P avail closed cap attached unread (cache_get (scenario_backend M json)) (cache_set (scenario_backend M json))
    (mo_now M) (cell_holds M held json lim) lim (BackendLabel ''moka'') (calm_moka M held)"
proof (intro scenario_cell.intro assms(1) scenario_cell_axioms.intro)
  show "mo_now M s \<le> mo_now M (snd (cache_get (scenario_backend M json) k ctx s))" for s k ctx
    using get_kept [of k s] by (auto simp: cache_get_world scenario_backend_sel moka_read_def split: prod.split)
  show "mo_now M s \<le> mo_now M (snd (cache_set (scenario_backend M json) k u ctx s))" for s k u ctx
    using cache_set_world [of "scenario_backend M json" k u ctx s] insert_kept by (auto simp: scenario_backend_sel moka_write_def)
  show "mo_now M s \<le> mo_now M (f s)" if "calm_moka M held f" for f s using that by (simp add: calm_moka_def)
  show "cell_holds M held json lim (f s) x" if "calm_moka M held f" "cell_holds M held json lim s x" "mo_now M (f s) < lim" for f s x
    using cell_settles [OF that(2)] that(1,3) by (simp add: calm_moka_def)
  show "ctx = fresh_ctx" if "cache_set (scenario_backend M json) scenario_key u fresh_ctx s = ((q, ctx), s')" for u s q ctx s'
    using that by (auto simp: scenario_set split: sum.splits)
  show "cell_holds M held json lim s' (Some (cache_value_new v None None))"
    if "cell_holds M held json lim s None" "cache_set (scenario_backend M json) scenario_key (cache_value_new v None None) fresh_ctx s = (p, s')"
      "mo_now M s' < lim" for s v p s'
  proof -
    obtain b where b: "sd_ser json v = Ok b" using assms(3) by (meson is_ok_iff)
    then have "s' = mo_insert M scenario_key (cache_value_new b None None) None s" using that(2) by (simp add: scenario_set calculate_ttl_def)
    with cell_inserted [of json "cache_value_new v None None" b s' None s lim] b that(3) show ?thesis by simp
  qed
  show "cell_holds M held json lim s' x \<and> r = Ok x \<and> ctx = (if x = None then fresh_ctx else hit_ctx (BackendLabel ''moka''))"
    if "cell_holds M held json lim s x" "cache_get (scenario_backend M json) scenario_key fresh_ctx s = ((r, ctx), s')" "mo_now M s' < lim"
    for s x r ctx s'
  proof -
    obtain q s1 where q: "mo_get M scenario_key s = (q, s1)" by (metis surj_pair)
    have "s1 = s'" using cache_get_world [of "scenario_backend M json" scenario_key fresh_ctx s] that(2) q
      by (simp add: scenario_backend_sel moka_read_def)
    with cell_read [OF assms(2) that(1) q] that(2,3) show ?thesis by auto
  qed
qed

text \<open>The store as it is filled.\<close>

lemma populated:
  assumes "\<And>v. is_ok (sd_ser json v)" "held c scenario_key = None" "c' = populate_backend M json st c"
    and "mo_now M c' < lim" "lim \<le> mo_now M c + seconds 3600"
  shows "cell_holds M held json lim c' (live_cell (mo_now M c) st) \<and> mo_now M c \<le> mo_now M c'"
proof (cases "preload_value (mo_now M c) st")
  case None
  then have "c' = c" "live_cell (mo_now M c) st = None" using assms(3) by (auto simp: populate_backend_def live_cell_def preload_value_def split: preload.splits)
  then show ?thesis using assms(2) by (simp add: cell_holds_def)
next
  case (Some u)
  obtain b where b: "sd_ser json (cv_data u) = Ok b" using assms(1) by (meson is_ok_iff)
  let ?v = "cache_value_new b (cv_expire u) (cv_stale u)" and ?ttl = "calculate_ttl (mo_now M c) u"
  have c': "c' = mo_insert M scenario_key ?v ?ttl c"
    using assms(3) by (simp add: populate_backend_def Some scenario_set b)
  have mono: "mo_now M c \<le> mo_now M c'" using insert_kept [of c scenario_key ?v ?ttl] c' by simp
  show ?thesis
  proof (cases "\<exists>x. st = PreExpired x")
    case True
    then obtain x where x: "st = PreExpired x" by blast
    have u: "cv_expire u = Some (mo_now M c - seconds 3600)" using Some by (auto simp: preload_value_def x)
    have "?ttl = Some 0" by (simp add: calculate_ttl_def u num_milliseconds_def Let_def)
    then have "held c' \<subseteq>\<^sub>m (held c)(scenario_key \<mapsto> (?v, Some (mo_now M c)))"
      using insert_kept [of c scenario_key ?v ?ttl] c' by simp
    then have "\<not> alive (mo_now M c') e" if "held c' scenario_key = Some e" for e
      using that mono unfolding map_le_def by (force simp: alive_def)
    then show ?thesis using mono by (simp add: x live_cell_def cell_holds_def)
  next
    case False
    have e: "cv_expire u = Some (mo_now M c + seconds 3600)" "live_cell (mo_now M c) st = Some u"
      using Some False by (auto simp: preload_value_def live_cell_def split: preload.splits)
    have "lim \<le> mo_now M c + int d" if "?ttl = Some d" for d
      using that assms(5) by (simp add: calculate_ttl_def e(1) num_milliseconds_def Let_def)
    from cell_inserted [OF b c' this assms(4)] mono show ?thesis by (simp add: e(2))
  qed
qed

end

definition word_serde :: "(32 word) serde" where
  "word_serde =
     \<lparr>sd_ser = (\<lambda>n. sd_ser nat_serde (unat n)), sd_de = (\<lambda>b. rmap of_nat (sd_de nat_serde b))\<rparr>"

lemma word_serde_ok: "lossless_serde word_serde" "is_ok (sd_ser word_serde v)"
proof -
  show "lossless_serde word_serde" using lossless_nat_serde by (auto simp: lossless_serde_def word_serde_def)
  show "is_ok (sd_ser word_serde v)" by (simp add: word_serde_def nat_serde_def)
qed

interpretation ref_scenario: scenario_cell ref_ops "\<lambda>n. n" rc_closed rc_cap
    "\<lambda>pos ch. pos \<le> length (rc_sent ch)" "\<lambda>pos ch. drop pos (rc_sent ch)"
    "cache_get (scenario_backend ref_moka_ops word_serde)" "cache_set (scenario_backend ref_moka_ops word_serde)"
    "mo_now ref_moka_ops" "cell_holds ref_moka_ops rm_held word_serde lim" lim "BackendLabel ''moka''" "calm_moka ref_moka_ops rm_held" for lim
  by (rule ref_prompt_moka.moka_cell [OF ref_sync.sync_laws_axioms word_serde_ok])

section \<open>The run of one request\<close>

definition single_state ::
  "('sem, 'ch, 'rx, (32 word) cache_value) sync_ops \<Rightarrow> 'c moka_ops \<Rightarrow> (32 word) serde \<Rightarrow> 'c fsm_world \<Rightarrow> 32 word \<Rightarrow> 'c event list
   \<Rightarrow> ('sem, 'ch, 'rx, 'c) scenario_run" where
  "single_state P M json w v evs =
     run_state P (cache_get (scenario_backend M json)) (cache_set (scenario_backend M json)) (mo_now M) w 1 v evs
       (populate_backend M json (fw_cache_state w) (fw_backend w))"

abbreviation store_after ::
  "('sem, 'ch, 'rx, (32 word) cache_value) sync_ops \<Rightarrow> 'c moka_ops \<Rightarrow> (32 word) serde \<Rightarrow> 'c fsm_world \<Rightarrow> 32 word \<Rightarrow> 'c event list \<Rightarrow> 'c" where
  "store_after P M json w v evs \<equiv> an_store (sr_arena (single_state P M json w v evs))"

lemma single_results:
  assumes "\<not> xc_enabled (fw_composition w)" "sr_tasks (single_state P M json w v evs) = [Finished out]"
  shows "run_requests P M json sched 1 v evs composed_evs w = Some (w\<lparr>fw_results := \<lparr>ts_responses = [out],
      ts_upstream_call_count = an_count (sr_arena (single_state P M json w v evs))\<rparr>,
    fw_backend := store_after P M json w v evs, fw_collector := sr_collector (single_state P M json w v evs)\<rparr>)"
  using assms by (simp add: run_requests_def run_single_requests_def Let_def run_results_def finished_outs_def single_state_def)

text \<open>The step of the tests that lists the states accepts those of the table.\<close>

definition state_names :: "string list" where
  "state_names = [''Initial'', ''CheckRequestCachePolicy'', ''PollCache'', ''ConvertResponse'', ''HandleStale'', ''PollUpstream'',
     ''CheckResponseCachePolicy'', ''UpdateCache'', ''Response'']"

lemma state_names_bare: "list_all bare state_names"
  by code_simp

lemma table_accepted:
  assumes "fsm_states (fw_collector w) = map (\<lambda>s. drop (length ''fsm.'') (fst s)) (oc_spans (scenario_outcome label cfg st v))"
  shows "fsm_states_should_be (Some (map (\<lambda>s. [drop (length ''fsm.'') (fst s)]) (oc_spans (scenario_outcome label cfg st v)))) w = Ok ()"
proof -
  have "drop (length ''fsm.'') (fst s) \<in> set state_names" if "s \<in> set (oc_spans (scenario_outcome label cfg st v))" for s
    using that by (auto simp: scenario_outcome_def fetched_outcome_def served_outcome_def finish_spans_def upstream_span_def
        asked_span_def initial_span_def state_names_def Let_def split: preload.splits if_splits option.splits)
  then have "bare (drop (length ''fsm.'') (fst s))" if "s \<in> set (oc_spans (scenario_outcome label cfg st v))" for s
    using state_names_bare that by (simp add: list_all_iff)
  then have "fsm_states_should_be (Some (map (\<lambda>name. [name])
      (map (\<lambda>s. drop (length ''fsm.'') (fst s)) (oc_spans (scenario_outcome label cfg st v))))) w = Ok ()"
    by (intro states_step_compares [THEN iffD2] assms) auto
  then show ?thesis by (simp add: comp_def)
qed

text \<open>C11. A scenario of one request follows the decision table, for every configuration of the cache policy, the predicates and the
  concurrency limit (of at least one) and every preloaded entry: a run that polls its task, and again when the upstream's delay has
  passed, ends with the response, status and source of the table, as many calls of the upstream, the
  states of the table as the captured spans of the request with the fields that were recorded in them,
  and a store that still has, has lost, or has been given the entry.  This is for a scenario without a composition, whose
  values are written as JSON without loss or failure, on an in-memory store that starts without the scenario's key, evicts nothing and serves
  an entry until its deadline and not after it; before, between and after the polls only time goes by and dead entries are
  dropped (nobody else writes, removes or evicts an entry), and the run takes less than an hour, the time to live of what it writes.\<close>

theorem single_request_follows_table:
  fixes P :: "('sem, 'ch, 'rx, (32 word) cache_value) sync_ops" and M :: "'c moka_ops"
  defines "out w v \<equiv> scenario_outcome (BackendLabel ''moka'') (fw_config w) (fw_cache_state w) v"
  assumes "prompt_moka M held" "sync_laws P avail closed cap attached unread" "lossless_serde json" "\<And>v. is_ok (sd_ser json v)"
    and "held (fw_backend w) scenario_key = None" "\<not> xc_enabled (fw_composition w)" "sc_current (fw_collector w) = None"
    and "\<And>n. fc_concurrency (fw_config w) = Some n \<Longrightarrow> 1 \<le> n"
    and "evs = es1 @ PollTask 0 # es2 @ PollTask 0 # es3" "\<And>f. Outside f \<in> set evs \<Longrightarrow> calm_moka M held f"
    and "mo_now M (store_after P M json w v (es1 @ [PollTask 0])) + millis (fw_upstream_delay_ms w)
      \<le> mo_now M (store_after P M json w v (es1 @ PollTask 0 # es2))"
    and "mo_now M (snd (mo_get M scenario_key (store_after P M json w v evs))) < mo_now M (fw_backend w) + seconds 3600"
  shows "\<exists>w'. run_requests P M json sched 1 v evs composed_evs w = Some w'
    \<and> fw_results w' = \<lparr>ts_responses = [(oc_response (out w v), oc_context (out w v))], ts_upstream_call_count = oc_calls (out w v)\<rparr>
    \<and> map (map span_view) (fsm_states_per_request (fw_collector w')) = [oc_spans (out w v)]
    \<and> fsm_states (fw_collector w') = map (\<lambda>s. drop (length ''fsm.'') (fst s)) (oc_spans (out w v))
    \<and> (\<exists>x. fst (get_fixed M json (fw_backend w')) = Ok x \<and> map_option cv_data x = oc_cell (out w v))"
proof -
  let ?t0 = "mo_now M (fw_backend w)" and ?c = "populate_backend M json (fw_cache_state w) (fw_backend w)"
  let ?R = "single_state P M json w v evs" and ?B = "scenario_backend M json"
  note cell = prompt_moka.moka_cell [OF assms(2,3,4,5), of "?t0 + seconds 3600"]
  have run: "single_state P M json w v es = run_state P (cache_get ?B) (cache_set ?B) (mo_now M) w 1 v es ?c" for es
    by (simp add: single_state_def)
  obtain q c' where get: "mo_get M scenario_key (store_after P M json w v evs) = (q, c')" by (metis surj_pair)
  have last: "mo_now M c' < ?t0 + seconds 3600" using assms(13) get by simp
  have "mo_now M (store_after P M json w v evs) \<le> mo_now M c'"
    using prompt_moka.get_kept [OF assms(2) get] by blast
  then have end_: "mo_now M (store_after P M json w v evs) < ?t0 + seconds 3600" using last by simp
  have "mo_now M ?c \<le> mo_now M (store_after P M json w v evs)"
    unfolding run by (rule scenario_cell.started(2) [OF cell assms(8,11)])
  then have c: "cell_holds M held json (?t0 + seconds 3600) ?c (live_cell ?t0 (fw_cache_state w))" "?t0 \<le> mo_now M ?c"
    using prompt_moka.populated [where M = M and held = held and json = json and c = "fw_backend w" and st = "fw_cache_state w"
        and lim = "?t0 + seconds 3600", OF assms(2,5,6) refl] end_ by auto
  have "scenario_cell.finished (cell_holds M held json (?t0 + seconds 3600)) (BackendLabel ''moka'') (fw_config w) (fw_cache_state w) v ?R"
    unfolding run by (rule scenario_cell.single_scenario [OF cell c order_refl assms(8) _ assms(11,10)])
      (use assms(9,12) end_ in \<open>simp_all add: run\<close>)
  note fin = this [unfolded scenario_cell.finished_def [OF cell] scenario_cell.answered_def [OF cell], folded out_def]
  then obtain x where x: "cell_holds M held json (?t0 + seconds 3600) (store_after P M json w v evs) x" "map_option cv_data x = oc_cell (out w v)"
    by blast
  from prompt_moka.cell_read [OF assms(2,4) x(1) get last] have "fst (get_fixed M json (store_after P M json w v evs)) = Ok x"
    by (simp add: get_fixed_def)
  moreover from fin have "sr_tasks ?R = [Finished (oc_response (out w v), oc_context (out w v))]" by blast
  note run = single_results [OF assms(7) this, of sched composed_evs]
  ultimately show ?thesis unfolding run using fin x(2) by simp
qed

text \<open>An empty reference store whose time only passes between two polls.\<close>

definition demo_scenario :: "ref_moka fsm_world" where
  "demo_scenario = (let c = \<lparr>rm_now = 0, rm_held = (\<lambda>_. None)\<rparr> in fsm_world_new c c c)"

definition hundred_ms :: "ref_moka \<Rightarrow> ref_moka" where
  "hundred_ms c = c\<lparr>rm_now := rm_now c + millis 100\<rparr>"

lemma ref_steps_now:
  "(store_step (cache_get (scenario_backend ref_moka_ops json)) (cache_set (scenario_backend ref_moka_ops json)))\<^sup>*\<^sup>* s s'
   \<Longrightarrow> rm_now s' = rm_now s"
proof (induction rule: rtranclp_induct)
  case (step s1 s2)
  have "rm_now (snd (be_read (scenario_backend ref_moka_ops json) k s1)) = rm_now s1"
    "rm_now (snd (be_write (scenario_backend ref_moka_ops json) k u s1)) = rm_now s1" for k u
    by (simp_all add: scenario_backend_sel moka_read_def moka_write_def ref_moka_ops_def)
  then have "rm_now s2 = rm_now s1"
    using step(2) cache_set_world [of "scenario_backend ref_moka_ops json" _ _ _ s1] by (auto simp: store_step_def cache_get_world) metis+
  with step(3) show ?case by simp
qed simp

theorem single_request_follows_table_witness:
  "\<exists>w'. run_requests ref_ops ref_moka_ops word_serde (\<lambda>_. \<lparr>sc_first = L1, sc_loser_ran = False, sc_clock1 = 0, sc_clock2 = 0\<rparr>) 1 7
      [PollTask 0, Outside hundred_ms, PollTask 0] [] demo_scenario = Some w'
    \<and> fw_results w' = \<lparr>ts_responses = [(7, context_of Miss SrcUpstream)], ts_upstream_call_count = 1\<rparr>
    \<and> fsm_states (fw_collector w')
        = [''Initial'', ''CheckRequestCachePolicy'', ''PollCache'', ''PollUpstream'', ''CheckResponseCachePolicy'', ''UpdateCache'', ''Response'']
    \<and> (\<exists>x. fst (get_fixed ref_moka_ops word_serde (fw_backend w')) = Ok x \<and> map_option cv_data x = Some 7)"
proof -
  let ?evs = "[PollTask 0, Outside hundred_ms, PollTask 0]" and ?w = demo_scenario
  let ?s = "\<lambda>es. store_after ref_ops ref_moka_ops word_serde ?w 7 es"
  have now: "mo_now ref_moka_ops = rm_now" by (simp add: ref_moka_ops_def)
  have w: "fw_cache_state ?w = PreEmpty" "fw_backend ?w = \<lparr>rm_now = 0, rm_held = (\<lambda>_. None)\<rparr>" "\<not> xc_enabled (fw_composition ?w)"
    "sc_current (fw_collector ?w) = None" "fw_upstream_delay_ms ?w = 100" "fc_concurrency (fw_config ?w) = Some 1"
    "fc_cache_enabled (fw_config ?w)" "fc_request_cacheable (fw_config ?w)" "fc_response_cacheable (fw_config ?w)"
    by (simp_all add: demo_scenario_def Let_def fsm_world_new_def composition_config_default_def create_span_collector_def concurrency_limit_new_def)
  let ?R = "single_state ref_ops ref_moka_ops word_serde ?w 7"
  have t0: "scenario_cell.tame (?R [])" and s0: "rm_now (?s []) = 0"
    by (simp_all add: single_state_def run_state_def scenario_start_def ref_scenario.tame_def populate_backend_def preload_value_def w)
  have e: "?R (es @ [x]) = scenario_event (scenario_env ref_ops (cache_get (scenario_backend ref_moka_ops word_serde))
      (cache_set (scenario_backend ref_moka_ops word_serde)) (mo_now ref_moka_ops) 100) (mo_now ref_moka_ops) (fw_config ?w) 7 x (?R es)" for es x
    by (simp add: single_state_def run_state_def w)
  have p: "scenario_cell.tame (?R (es @ [PollTask 0])) \<and> rm_now (?s (es @ [PollTask 0])) = rm_now (?s es)" if "scenario_cell.tame (?R es)" for es
    unfolding e using ref_scenario.task_steps [OF that] ref_steps_now by blast
  have o: "scenario_cell.tame (?R (es @ [Outside hundred_ms])) = scenario_cell.tame (?R es)"
    "rm_now (?s (es @ [Outside hundred_ms])) = rm_now (?s es) + millis 100" for es
    unfolding e by (simp_all add: ref_scenario.tame_def hundred_ms_def)
  have t1: "scenario_cell.tame (?R [PollTask 0])" "rm_now (?s [PollTask 0]) = 0" using p [of "[]"] t0 s0 by simp_all
  have t2: "scenario_cell.tame (?R [PollTask 0, Outside hundred_ms])" "rm_now (?s [PollTask 0, Outside hundred_ms]) = millis 100"
    using o [of "[PollTask 0]"] t1 by simp_all
  have t3: "rm_now (?s ?evs) = millis 100" using p [of "[PollTask 0, Outside hundred_ms]"] t2 by simp
  have calm: "calm_moka ref_moka_ops rm_held hundred_ms"
    by (simp add: calm_moka_def now hundred_ms_def settles_refl millis_def)
  have last: "mo_now ref_moka_ops (snd (mo_get ref_moka_ops scenario_key (?s ?evs))) < mo_now ref_moka_ops (fw_backend ?w) + seconds 3600"
    using t3 by (simp add: ref_moka_ops_def w millis_def)
  have out: "scenario_outcome (BackendLabel ''moka'') (fw_config ?w) PreEmpty 7 = fetched_outcome (fw_config ?w) PreEmpty 7
      [initial_span, asked_span True, lookup_span [(''concurrency.decision'', ''proceed'')]] (Some scenario_key) True"
    by (simp add: scenario_outcome_def w)
  let ?sched = "\<lambda>_. \<lparr>sc_first = L1, sc_loser_ran = False, sc_clock1 = 0, sc_clock2 = 0\<rparr>"
  have "\<exists>w'. run_requests ref_ops ref_moka_ops word_serde ?sched 1 7 ?evs [] ?w = Some w'
    \<and> fw_results w' = \<lparr>ts_responses = [(7, context_of Miss SrcUpstream)], ts_upstream_call_count = 1\<rparr>
    \<and> fsm_states (fw_collector w')
        = [''Initial'', ''CheckRequestCachePolicy'', ''PollCache'', ''PollUpstream'', ''CheckResponseCachePolicy'', ''UpdateCache'', ''Response'']
    \<and> map (map span_view) (fsm_states_per_request (fw_collector w')) = [oc_spans (fetched_outcome (fw_config ?w) PreEmpty 7
      [initial_span, asked_span True, lookup_span [(''concurrency.decision'', ''proceed'')]] (Some scenario_key) True)]
    \<and> (\<exists>x. fst (get_fixed ref_moka_ops word_serde (fw_backend w')) = Ok x \<and> map_option cv_data x = Some 7)"
    using single_request_follows_table [where ?es1.0 = "[]" and ?es2.0 = "[Outside hundred_ms]" and ?es3.0 = "[]" and w = ?w and v = 7
      and sched = ?sched and composed_evs = "[]" and evs = ?evs,
      OF ref_prompt_moka.prompt_moka_axioms ref_sync.sync_laws_axioms word_serde_ok] calm last t1(2) t2(2)
    by (auto simp: w now out fetched_outcome_def finish_spans_def upstream_span_def asked_span_def initial_span_def)
  then show ?thesis by blast
qed

end
