(* ===== verification/Spec2Isabelle.thy ===== *)
theory Spec2Isabelle
  imports Fsm_Manager Service_Metrics Served Reqwest Config_Backend Scenario_Single
begin

text \<open>
  A model of hitbox, an asynchronous caching framework: what it serves, what it stores, and when it
  calls upstream.  The theories follow the crates.

  \<^bold>\<open>Parts and their correspondence.\<close>
  Values of the core crate: \<open>Core_Key\<close> (hitbox-core/src/key.rs: keys and their bitcode form),
  \<open>Core_Value\<close> (value.rs, policy.rs, response.rs: values with expiry and stale time, their state),
  \<open>Core_Context\<close> (context.rs, label.rs and the composition context of hitbox-backend),
  \<open>Core_Predicate\<close> (predicate/, cacheable requests and responses), \<open>Policy\<close> (hitbox/src/policy.rs).
  The request path: \<open>Concurrency\<close> (hitbox/src/concurrency.rs: the broadcast manager, and a system of
  clients racing on it), \<open>Fsm_State\<close> and \<open>Fsm\<close> (hitbox/src/fsm/: the states, every transition, and the
  future that drives them), \<open>Fsm_Spec\<close> (the same service written without states, and the refinement),
  \<open>Fsm_Progress\<close> (a future that is polled completes),
  \<open>Fsm_Clients\<close> (a future's transitions are actions of a client), \<open>Fsm_Manager\<close> (any number of futures on one
  manager refine the client system, so its limit and its progress hold of them), \<open>Offload\<close> (hitbox/src/offload/).
  The storage path: \<open>Key_Format\<close>, \<open>Backend\<close> (hitbox-backend/src/key.rs, backend.rs, format/, compressor.rs:
  raw operations, codecs, and the typed \<open>get\<close>, \<open>set\<close>, \<open>delete\<close> over them), \<open>Store_Moka\<close>, \<open>Store_Redis\<close>,
  \<open>Store_Feoxdb\<close> (the three backend crates), \<open>Envelope\<close>, \<open>Composition_Policy\<close>, \<open>Composition_Format\<close>,
  \<open>Composition\<close> (hitbox-backend/src/composition/: two layers as one backend), with their properties in
  \<open>Composition_Spec\<close>, \<open>Tiered\<close>, \<open>Composition_Raw\<close>; \<open>Served\<close> puts the cache futures over a composition.
  HTTP: \<open>Http_Body\<close> (hitbox-http/src/body.rs: bodies that were partly read), \<open>Http_Body_Predicate\<close>
  (predicates/body/), \<open>Http_Message\<close> (request.rs, response.rs, cache_status.rs: messages as cacheable requests and responses,
  and their cached form), \<open>Http_Predicate\<close> (predicates/: method, path, query, headers, version, status),
  \<open>Http_Extractor\<close> and \<open>Http_Body_Extractor\<close> (extractors/: the parts of the key).
  Configuration files (hitbox-configuration/src/), already parsed: \<open>Config_Predicate\<close> (predicates/) and what its
  expressions mean in \<open>Config_Meaning\<close>, \<open>Config_Extractor\<close> (extractors/), \<open>Config_Endpoint\<close> (config.rs,
  endpoint.rs, types.rs), \<open>Config_Backend\<close> (backend/).
  The integrations: \<open>Tower\<close> (hitbox-tower/src/) and \<open>Reqwest\<close> (hitbox-reqwest/src/) put HTTP messages through a
  cache future.  \<open>Prelude\<close> and \<open>Backend_Error\<close> hold what they share.
  Metrics: \<open>Metrics\<close> (hitbox-backend/src/metrics.rs, hitbox-moka/src/metrics.rs and the recordings of the
  typed operations and of the layers of a composition) and \<open>Service_Metrics\<close> (hitbox/src/metrics.rs: the
  recordings of a cache future and of the offload).
  The test crate: \<open>Conformance\<close> (hitbox-test/src/backend/mod.rs: the suite every backend has to pass, as
  programs over a backend) and \<open>Conformance_Stores\<close>, which runs it on the three stores; \<open>Fsm_Spans\<close> (the
  tracing of hitbox/src/fsm/, and hitbox-test/src/tracing.rs, the collector of its spans); \<open>Scenario\<close>
  (hitbox-test/src/fsm/world.rs: runs of concurrent requests over one store or a composition),
  \<open>Scenario_Steps\<close> (steps/: the steps of the scenarios) and \<open>Scenario_Single\<close> (a run of one request).

  \<^bold>\<open>How state and effects are modelled.\<close>
  A Rust string is its list of bytes; a time is nanoseconds since the epoch as \<open>int\<close>, a duration
  nanoseconds as \<open>nat\<close>; counters and lengths are words where the code can wrap.  Errors are values of
  \<open>backend_error\<close> and \<open>result\<close>.  An operation on a store takes the store and returns it.  A future is the
  suspended call with its arguments; polling it is a function of the world that may answer that it
  is pending, so what happens between two polls is any change of the world.  Operations that run at
  the same time are put in an order by a schedule (two layers of a composition) or by a step relation
  (clients, tasks); theorems hold for every schedule.  A spawn of a background task is three steps on a shared table, which
  spawns of the same key may interleave; a task may end, panic, or go on for a while after it was asked to abort.

  \<^bold>\<open>What is a parameter.\<close>
  Third-party code is an argument with named laws: tokio's semaphore and broadcast channel
  (\<open>sync_ops\<close>), bitcode's columns (\<open>column_codec\<close>), the query-string library (\<open>urlencoding\<close>), the
  serializers (\<open>serde\<close>) and compression libraries, moka (\<open>moka_ops\<close>; how late it may serve an expired entry is the slack of
  \<open>timely_moka\<close>), the Redis server and client
  (\<open>redis_ops\<close>; \<open>timed_redis\<close> runs the commands of a pipeline one by one, as documented, with evictions and other clients between them), FeOxDB and bincode (\<open>feox_ops\<close>, \<open>feox_codec\<close>), the stream under a body (\<open>body_ops\<close>), the http
  crate's headers and names (\<open>http_lib\<close>), actix-router (\<open>router\<close>), the query parser (\<open>qs_parser\<close>), JSON
  and jq (\<open>json_lib\<close>, \<open>jq_lib\<close>), regular expressions and text transforms (\<open>text_lib\<close>, and their parsing in
  \<open>config_lib\<close> and \<open>extract_lib\<close>), the wrapped Tower service (\<open>tower_ops\<close>), the reqwest client
  (\<open>reqwest_lib\<close>), and the cargo features of a build (\<open>features\<close>).  The metrics recorder is the log of
  the events given to it, and a clock reading is an argument.  Each has a reference instance, on
  which the locale with its laws is interpreted where there are laws.

  \<^bold>\<open>What the lemmas show.\<close>
  The state machine never panics, always finishes a poll (at most eight turns) and computes what the
  direct specification says.  The concurrency manager never has more permits out than its limit and
  never strands a waiter, except after a cancelled fetch.  A typed cache over any of the stores
  returns only what a set stored under that very key since the last delete (locale
  \<open>coherent_cache\<close>), and so does a composition, under every policy and schedule, up to what its
  write policy promises (locale \<open>two_layers\<close>).  Futures interleaved over any of these caches (locale
  \<open>typed_cache\<close>) answer every request with what belongs to it.  Encodings give back what they were given, with the
  exact conditions.  The stores pass the backend suite when nothing is evicted, their calls succeed and
  the run takes no more than a second; what Redis' whole seconds make of the times of a value is bounded in general.  A request that completes leaves one of fourteen paths of states in
  the collector of spans, whatever runs beside it; a scenario of one request gives the response, the
  number of upstream calls, the spans and the entry that a decision table says, under every schedule of
  polls that waits for the upstream.  Recording metrics changes no result and no state, in a store and in compositions nested to any depth, and a request
  is recorded once, under the counter of its status and with its durations.  A body that was inspected for a decision or a key is forwarded as it was, with the
  exception stated; the predicates and extractors of a configuration file mean what its expressions
  say, but for the operands lost after a disjunction; a response served from the cache is the one
  that was stored.  The behaviours that differ from the documentation are theorems too.

  \<^bold>\<open>Bounds.\<close>
  The poll loop terminates by the rank of the state; the only fuel is in the descent through the tree of captured
  spans, their number, which is more than its depth: a parent is opened before its children.  An asynchronous loop over
  a body, and what calls it, is an option: \<open>None\<close> is an await that never completes.  An envelope is read
  at an aligned address (\<open>envelope_deserialize True\<close>); read at an unaligned one it panics, which is
  \<open>None\<close>.

  \<^bold>\<open>Not modelled.\<close>
  Log lines and \<open>Debug\<close>; the reuse of the numbers of closed spans; a second await that is not ready at once in a waiter for
  another request's value; the moment between a task's recording and its removal from the table; what an inner
  composition's format records while the codec of an outer one runs it; the descriptions of metrics; \<open>Clone\<close> and the forwarding impls of references, boxes and arcs;
  the parsing of configuration files, which is serde's; the Tarantool backend, which is excluded from
  the workspace and written against an older interface; the test crate's HTTP scenarios,
  the examples and the benchmarks.  Of the scenarios of the state machine the general theorem is for one
  request over one store; the limit on concurrent ones is that of \<open>Fsm_Manager\<close>.
\<close>

end
